(* ===== verification/Prelude.thy ===== *)
theory Prelude
  imports Complex_Main "HOL-Library.Word"
begin

text \<open>
  Shared vocabulary of the development: C strings as character lists, the character
  classes and span functions of \<open><string.h>\<close> and \<open><ctype.h>\<close>, \<open>snprintf\<close>'s decimal and
  truncating output, IEEE comparison of values that may be infinite or not a number, and
  the two contracts every stateful component is shown to meet: an invariant kept by each
  step (\<open>invariant_machine\<close>) and a latch that no step opens (\<open>latch\<close>).

  A C string is modelled without its terminating NUL, so \<open>strlen\<close> is \<open>length\<close> and
  \<open>strcmp(a, b) == 0\<close> is equality. A NULL \<open>const char *\<close> is \<open>None\<close>. C doubles that the code
  only compares, adds and subtracts are reals (no rounding).
\<close>

named_theorems cstring "evaluation and length rules for C strings"
named_theorems preserve "an operation keeps its component's invariant"

section \<open>Characters and strings\<close>

abbreviation dquote :: char where "dquote \<equiv> CHR 0x22"
abbreviation backslash :: char where "backslash \<equiv> CHR 0x5C"
abbreviation newline :: char where "newline \<equiv> CHR 0x0A"
abbreviation cret :: char where "cret \<equiv> CHR 0x0D"
abbreviation tab :: char where "tab \<equiv> CHR 0x09"
abbreviation space :: char where "space \<equiv> CHR 0x20"

definition byte :: "char \<Rightarrow> nat" where
  "byte c = of_char c"

definition is_digit :: "char \<Rightarrow> bool" where
  "is_digit c \<longleftrightarrow> 48 \<le> byte c \<and> byte c \<le> 57"

definition is_lower :: "char \<Rightarrow> bool" where
  "is_lower c \<longleftrightarrow> 97 \<le> byte c \<and> byte c \<le> 122"

definition is_upper :: "char \<Rightarrow> bool" where
  "is_upper c \<longleftrightarrow> 65 \<le> byte c \<and> byte c \<le> 90"

definition is_alnum :: "char \<Rightarrow> bool" where
  "is_alnum c \<longleftrightarrow> is_digit c \<or> is_lower c \<or> is_upper c"

definition is_lowhex :: "char \<Rightarrow> bool" where
  "is_lowhex c \<longleftrightarrow> is_digit c \<or> (97 \<le> byte c \<and> byte c \<le> 102)"

text \<open>Printable ASCII, and the two characters that end or escape a JSON string.\<close>

definition printable :: "char \<Rightarrow> bool" where
  "printable c \<longleftrightarrow> 0x20 \<le> byte c \<and> byte c \<le> 0x7e"

definition json_plain :: "char \<Rightarrow> bool" where
  "json_plain c \<longleftrightarrow> printable c \<and> c \<noteq> dquote \<and> c \<noteq> backslash"

lemmas char_class_defs =
  byte_def is_digit_def is_lower_def is_upper_def is_alnum_def is_lowhex_def
  printable_def json_plain_def

text \<open>The classes by their bits: what \<open>code_simp\<close> evaluates.\<close>

lemma char_classes_code [code]:
  "is_digit (Char b0 b1 b2 b3 b4 b5 b6 b7) \<longleftrightarrow> \<not> b7 \<and> \<not> b6 \<and> b5 \<and> b4 \<and> (\<not> b3 \<or> \<not> b2 \<and> \<not> b1)"
  "is_lower (Char b0 b1 b2 b3 b4 b5 b6 b7) \<longleftrightarrow>
     \<not> b7 \<and> b6 \<and> b5 \<and> (b0 \<or> b1 \<or> b2 \<or> b3 \<or> b4) \<and> \<not> (b4 \<and> b3 \<and> (b2 \<or> b1 \<and> b0))"
  "is_upper (Char b0 b1 b2 b3 b4 b5 b6 b7) \<longleftrightarrow>
     \<not> b7 \<and> b6 \<and> \<not> b5 \<and> (b0 \<or> b1 \<or> b2 \<or> b3 \<or> b4) \<and> \<not> (b4 \<and> b3 \<and> (b2 \<or> b1 \<and> b0))"
  "is_lowhex (Char b0 b1 b2 b3 b4 b5 b6 b7) \<longleftrightarrow>
     \<not> b7 \<and> b5 \<and> (\<not> b6 \<and> b4 \<and> (\<not> b3 \<or> \<not> b2 \<and> \<not> b1) \<or>
       b6 \<and> \<not> b4 \<and> \<not> b3 \<and> (b0 \<or> b1 \<or> b2) \<and> \<not> (b0 \<and> b1 \<and> b2))"
  "printable (Char b0 b1 b2 b3 b4 b5 b6 b7) \<longleftrightarrow>
     \<not> b7 \<and> (b6 \<or> b5) \<and> \<not> (b0 \<and> b1 \<and> b2 \<and> b3 \<and> b4 \<and> b5 \<and> b6)"
  by (cases b0; cases b1; cases b2; cases b3; cases b4; cases b5; cases b6; cases b7;
      simp add: char_class_defs)+

lemma lowhex_json_plain: "is_lowhex c \<Longrightarrow> json_plain c"
  by (auto simp: char_class_defs)

definition starts_with :: "string \<Rightarrow> string \<Rightarrow> bool" where
  "starts_with p s \<longleftrightarrow> take (length p) s = p"

lemma starts_with_append [simp]: "starts_with p (p @ s)"
  by (simp add: starts_with_def)

lemma starts_withD: "starts_with p s \<Longrightarrow> s = p @ drop (length p) s"
  unfolding starts_with_def by (metis append_take_drop_id)

lemma starts_with_iff: "starts_with p s \<longleftrightarrow> (\<exists>r. s = p @ r)"
  using starts_withD by (auto simp: starts_with_def)

text \<open>\<open>strspn\<close> and \<open>strcspn\<close> with the accepted or the stopping characters as a predicate.\<close>

definition strspn :: "(char \<Rightarrow> bool) \<Rightarrow> string \<Rightarrow> nat" where
  "strspn P s = length (takeWhile P s)"

definition strcspn :: "(char \<Rightarrow> bool) \<Rightarrow> string \<Rightarrow> nat" where
  "strcspn P s = length (takeWhile (\<lambda>c. \<not> P c) s)"

lemma strspn_full: "strspn P s = length s \<longleftrightarrow> (\<forall>c\<in>set s. P c)"
  unfolding strspn_def by (metis takeWhile_eq_all_conv takeWhile_eq_take take_all_iff order_refl)

lemma take_strcspn: "take (strcspn P s) s = takeWhile (\<lambda>c. \<not> P c) s"
  unfolding strcspn_def by (simp add: takeWhile_eq_take [symmetric])

text \<open>\<open>snprintf(buf, len, ...)\<close> keeps at most \<open>len - 1\<close> characters of the text.\<close>

definition fit :: "nat \<Rightarrow> string \<Rightarrow> string" where
  "fit len s = take (len - 1) s"

lemma length_fit [cstring]: "length (fit len s) \<le> len - 1"
  by (simp add: fit_def)

lemma fit_id [cstring]: "length s < len \<Longrightarrow> fit len s = s"
  by (simp add: fit_def)

lemma set_fit: "set (fit len s) \<subseteq> set s"
  by (simp add: fit_def set_take_subset)

subsection \<open>Decimal output\<close>

fun digits_of :: "nat \<Rightarrow> string" where
  "digits_of n = (if n < 10 then [char_of (48 + n)] else digits_of (n div 10) @ [char_of (48 + n mod 10)])"

declare digits_of.simps [simp del]

definition show_nat :: "nat \<Rightarrow> string" where
  "show_nat n = digits_of n"

definition show_int :: "int \<Rightarrow> string" where
  "show_int i = (if i < 0 then CHR ''-'' # digits_of (nat (- i)) else digits_of (nat i))"

lemma is_digit_char_of: "(d::nat) < 10 \<Longrightarrow> is_digit (char_of (48 + d))"
  by (simp add: is_digit_def byte_def of_char_of)

lemma digits_of_digits: "\<forall>c\<in>set (digits_of n). is_digit c"
proof (induction n rule: digits_of.induct)
  case (1 n)
  show ?case
  proof (cases "n < 10")
    case True
    then show ?thesis by (subst digits_of.simps) (simp add: is_digit_char_of)
  next
    case False
    with 1 show ?thesis by (subst digits_of.simps) (auto simp: is_digit_char_of)
  qed
qed

lemma digits_of_nonempty [simp]: "digits_of n \<noteq> []"
  by (subst digits_of.simps) simp

text \<open>A decimal rendering read back: what the text of a number means.\<close>

definition digit_val :: "char \<Rightarrow> nat" where
  "digit_val c = byte c - 48"

definition digits_val :: "string \<Rightarrow> nat" where
  "digits_val s = foldl (\<lambda>a c. 10 * a + digit_val c) 0 s"

lemma digit_val_char_of: "(d::nat) < 10 \<Longrightarrow> digit_val (char_of (48 + d)) = d"
  by (simp add: digit_val_def byte_def of_char_of)

lemma digits_val_digits_of [simp]: "digits_val (digits_of n) = n"
proof (induction n rule: digits_of.induct)
  case (1 n)
  show ?case
  proof (cases "n < 10")
    case True
    then show ?thesis
      by (subst digits_of.simps) (simp add: digits_val_def digit_val_char_of)
  next
    case False
    have "digits_val (digits_of n) = digits_val (digits_of (n div 10) @ [char_of (48 + n mod 10)])"
      using False by (subst digits_of.simps) simp
    also have "\<dots> = 10 * digits_val (digits_of (n div 10)) + n mod 10"
      by (simp add: digits_val_def digit_val_char_of)
    also have "\<dots> = n" using 1 False by simp
    finally show ?thesis .
  qed
qed

lemma digits_of_inject [simp]: "digits_of m = digits_of n \<longleftrightarrow> m = n"
  by (metis digits_val_digits_of)

lemma digits_of_length: "n < 10 ^ k \<Longrightarrow> 0 < k \<Longrightarrow> length (digits_of n) \<le> k"
proof (induction k arbitrary: n)
  case (Suc k)
  show ?case
  proof (cases "n < 10")
    case True
    then show ?thesis by (subst digits_of.simps) simp
  next
    case False
    with Suc.prems have "n div 10 < 10 ^ k" "0 < k" by (auto intro!: gr0I simp: less_mult_imp_div_less mult.commute)
    with Suc.IH False show ?thesis by (subst digits_of.simps) simp
  qed
qed simp

lemma show_int_length: "- (2 ^ 31) \<le> i \<Longrightarrow> i < 2 ^ 31 \<Longrightarrow> length (show_int i) \<le> 11"
proof -
  assume "- (2 ^ 31) \<le> i" "i < 2 ^ 31"
  then have "nat (- i) < 10 ^ 10" "nat i < 10 ^ 10" by auto
  then show ?thesis
    using digits_of_length [of "nat (- i)" 10] digits_of_length [of "nat i" 10] by (simp add: show_int_def)
qed

text \<open>\<open>%.0f\<close>: the nearest integer, ties to the even one (the C library's default rounding).\<close>

definition round_half_even :: "real \<Rightarrow> int" where
  "round_half_even x =
     (let f = floor x; d = x - of_int f
      in if d < 1/2 then f else if d > 1/2 then f + 1 else if even f then f else f + 1)"

definition fmt_f0 :: "real \<Rightarrow> string" where
  "fmt_f0 x = show_int (round_half_even x)"

lemma round_half_even_of_int [simp]: "round_half_even (of_int i) = i"
  by (simp add: round_half_even_def)

lemma round_half_even_close: "\<bar>of_int (round_half_even x) - x\<bar> \<le> 1/2"
  unfolding round_half_even_def Let_def by (auto; linarith)

definition json_bool :: "bool \<Rightarrow> string" where
  "json_bool b = (if b then ''true'' else ''false'')"

text \<open>
  A document assembled in a buffer of \<open>len\<close> bytes by successive \<open>snprintf\<close> calls: each piece
  must leave room for the NUL, and a piece that does not fit fails the whole document.
\<close>

definition put :: "nat \<Rightarrow> string \<Rightarrow> string option \<Rightarrow> string option" where
  "put len t acc = (case acc of None \<Rightarrow> None
     | Some s \<Rightarrow> if length s + length t < len then Some (s @ t) else None)"

lemma put_Some [simp]: "put len t acc = Some r \<longleftrightarrow> (\<exists>s. acc = Some s \<and> r = s @ t \<and> length r < len)"
  by (auto simp: put_def split: option.splits)

lemma put_None [simp]: "put len t None = None"
  by (simp add: put_def)

lemma fold_put_None [simp]: "fold (put len) ts None = None"
  by (induction ts) auto

lemma fold_put:
  "length s < len \<Longrightarrow>
   fold (put len) ts (Some s) =
     (if length s + length (concat ts) < len then Some (s @ concat ts) else None)"
  by (induction ts arbitrary: s) (auto simp: put_def)

lemma find_SomeD: "find P xs = Some x \<Longrightarrow> x \<in> set xs \<and> P x"
  by (induction xs) (auto split: if_splits)

section \<open>IEEE comparison\<close>

text \<open>
  A double where the code tests for infinities or not-a-number: finite values are reals,
  and every comparison with \<open>NaN\<close> is false.
\<close>

datatype dbl = Fin real | PInf | NInf | NaN

fun d_lt :: "dbl \<Rightarrow> dbl \<Rightarrow> bool" where
  "d_lt (Fin a) (Fin b) = (a < b)"
| "d_lt (Fin a) PInf = True"
| "d_lt NInf (Fin b) = True"
| "d_lt NInf PInf = True"
| "d_lt _ _ = False"

fun d_le :: "dbl \<Rightarrow> dbl \<Rightarrow> bool" where
  "d_le NaN _ = False"
| "d_le _ NaN = False"
| "d_le (Fin a) (Fin b) = (a \<le> b)"
| "d_le NInf _ = True"
| "d_le _ PInf = True"
| "d_le _ _ = False"

fun d_finite :: "dbl \<Rightarrow> bool" where
  "d_finite (Fin _) = True"
| "d_finite _ = False"

lemma d_finite_iff: "d_finite d \<longleftrightarrow> (\<exists>r. d = Fin r)"
  by (cases d) auto

section \<open>Contracts shared by the components\<close>

text \<open>A machine whose every step keeps an invariant: the run from a good state stays good.\<close>

locale invariant_machine =
  fixes step :: "'i \<Rightarrow> 's \<Rightarrow> 's"
    and inv :: "'s \<Rightarrow> bool"
  assumes step_inv: "inv s \<Longrightarrow> inv (step i s)"
begin

lemma run_inv: "inv s \<Longrightarrow> inv (fold step is s)"
  by (induction "is" arbitrary: s) (auto intro: step_inv)

lemma run_prefix_inv: "inv s \<Longrightarrow> inv (fold step (take n is) s)"
  by (rule run_inv)

end

text \<open>
  A latch: once set, no step whose input the guard admits clears it. The guard is what
  tells a reset from an ordinary step.
\<close>

locale latch =
  fixes step :: "'i \<Rightarrow> 's \<Rightarrow> 's"
    and set_in :: "'s \<Rightarrow> bool"
    and admits :: "'i \<Rightarrow> bool"
  assumes step_latched: "set_in s \<Longrightarrow> admits i \<Longrightarrow> set_in (step i s)"
begin

lemma run_latched: "set_in s \<Longrightarrow> (\<And>i. i \<in> set is \<Longrightarrow> admits i) \<Longrightarrow> set_in (fold step is s)"
  by (induction "is" arbitrary: s) (auto intro: step_latched)

lemma cleared_needs_reset:
  "set_in s \<Longrightarrow> \<not> set_in (fold step is s) \<Longrightarrow> \<exists>i\<in>set is. \<not> admits i"
  using run_latched by blast

end

end
