(* ===== verification/Lease.thy ===== *)
theory Lease
  imports Prelude
begin

text \<open>
  The machine lease (\<open>src/lease.c\<close>): one answer to "who has the machine?". The state is the
  live part of \<open>held[DEPTH]\<close>, outermost owner first, so \<open>depth\<close> is its length; the array's
  entries at or above \<open>depth\<close> are never read. Each operation runs under the one mutex, so an
  interleaving of threads is a sequence of \<open>lease_step\<close>s. The clock and the answer of
  \<open>lease_sender_connected\<close> are inputs of the step that asks them.
\<close>

datatype lease_kind = Hardware | Sender | System | Export | Extension

record slot =
  s_owner :: string
  s_kind :: lease_kind
  s_since :: real

type_synonym lease = "slot list"

definition lease_depth :: nat where "lease_depth = 2"
definition lease_owner_max :: nat where "lease_owner_max = 72"

definition kind_name :: "lease_kind \<Rightarrow> string" where
  "kind_name k =
     (if k = Hardware then ''hardware'' else if k = Sender then ''sender''
      else if k = System then ''system'' else if k = Extension then ''extension'' else ''export'')"

definition lease_prefixes :: "(string \<times> string) list" where
  "lease_prefixes =
     [(''diag:'', ''a diagnostic''), (''wizard:'', ''a setup wizard''),
      (''update:'', ''an update job''), (''job:'', ''a job''), (''ext:'', ''an extension'')]"

definition lease_words :: "string \<Rightarrow> string" where
  "lease_words own =
     (case find (\<lambda>(p, w). starts_with p own) lease_prefixes of
        Some (p, w) \<Rightarrow> w @ '' ('' @ drop (length p) own @ '')''
      | None \<Rightarrow> if own = ''recorder'' then ''the dose-curve recorder''
               else if own = ''logs.export'' then ''a log export'' else own)"

definition refusal_words :: "lease \<Rightarrow> string" where
  "refusal_words st = lease_words (s_owner (last st)) @ '' holds the machine''"

text \<open>\<open>strpbrk(owner, "\"\\\n")\<close>: the name goes into a JSON document as it is.\<close>

definition owner_usable :: "string option \<Rightarrow> bool" where
  "owner_usable own =
     (case own of None \<Rightarrow> False
      | Some n \<Rightarrow> n \<noteq> [] \<and> length n < lease_owner_max \<and>
          list_all (\<lambda>c. c \<noteq> dquote \<and> c \<noteq> backslash \<and> c \<noteq> newline) n)"

definition lease_take ::
  "string option \<Rightarrow> lease_kind \<Rightarrow> string option \<Rightarrow> bool \<Rightarrow> real \<Rightarrow> lease \<Rightarrow> string + lease" where
  "lease_take own k below client_on now st =
     (if \<not> owner_usable own then Inl ''the owner has no usable name''
      else
        let client = (k = Sender \<and> client_on) in
        if length st = 0 \<and> below \<noteq> None
        then Inl (the below @ '' does not hold the machine'')
        else if length st = 1 \<and> (below = None \<or> the below \<noteq> s_owner (st ! 0))
        then Inl (refusal_words st)
        else if length st \<ge> lease_depth then Inl (refusal_words st)
        else if client then Inl ''a sender is connected to the machine - close it first''
        else Inr (st @ [\<lparr>s_owner = the own, s_kind = k, s_since = now\<rparr>]))"

definition lease_release :: "string option \<Rightarrow> lease \<Rightarrow> lease" where
  "lease_release own st =
     (if length st > 0 \<and> own \<noteq> None \<and> s_owner (st ! (length st - 1)) = the own
      then take (length st - 1) st else st)"

text \<open>The questions: \<open>Some why\<close> is a refusal with the holder in words.\<close>

definition lease_refusal :: "lease \<Rightarrow> string option" where
  "lease_refusal st = (if length st > 0 then Some (refusal_words st) else None)"

definition lease_refusal_for :: "string option \<Rightarrow> lease \<Rightarrow> string option" where
  "lease_refusal_for as st =
     (if length st > 0 \<and> \<not> (as \<noteq> None \<and> list_ex (\<lambda>h. s_owner h = the as) st)
      then Some (refusal_words st) else None)"

definition lease_refusal_locks :: "lease \<Rightarrow> string option" where
  "lease_refusal_locks st =
     (if length st > 0 \<and> s_kind (st ! (length st - 1)) \<noteq> Export
      then Some (refusal_words st) else None)"

definition lease_refusal_locks_for :: "string option \<Rightarrow> lease \<Rightarrow> string option" where
  "lease_refusal_locks_for as st =
     (if (length st > 0 \<and> s_kind (st ! (length st - 1)) \<noteq> Export) \<and>
         \<not> (as \<noteq> None \<and> list_ex (\<lambda>h. s_owner h = the as) st)
      then Some (refusal_words st) else None)"

definition lease_holder :: "lease \<Rightarrow> string option" where
  "lease_holder st = (if length st > 0 then Some (s_owner (st ! (length st - 1))) else None)"

text \<open>\<open>lease_json\<close>: \<open>None\<close> is the -1 of a document that does not fit in \<open>len\<close> bytes.\<close>

definition q :: "string \<Rightarrow> string" where
  "q s = dquote # s @ [dquote]"

definition lease_json :: "nat \<Rightarrow> bool \<Rightarrow> bool \<Rightarrow> real \<Rightarrow> lease \<Rightarrow> string option" where
  "lease_json len client_on motors_out now st =
     fold (put len)
       ((if length st = 0 then [q ''lease'' @ '':{'' @ q ''holder'' @ '':null,'']
         else
           let h = st ! (length st - 1) in
           [q ''lease'' @ '':{'' @ q ''holder'' @ '':{'' @ q ''owner'' @ '':'' @ q (s_owner h) @ '','' @
              q ''kind'' @ '':'' @ q (kind_name (s_kind h)) @ '','' @
              q ''for_s'' @ '':'' @ fmt_f0 (now - s_since h) @ '','' @
              q ''words'' @ '':'' @ q (lease_words (s_owner h))] @
           (if length st > 1 then ['','' @ q ''under'' @ '':'' @ q (s_owner (st ! 0))] else []) @
           [''},'']) @
        [q ''observed'' @ '':{'' @ q ''sender'' @ '':'' @ json_bool client_on @ '','' @
           q ''motors_released'' @ '':'' @ json_bool motors_out @ ''}}''])
       (if 0 < len then Some [] else None)"

section \<open>Steps\<close>

datatype lease_op =
    Take "string option" lease_kind "string option" bool real
  | Release "string option"

fun lease_step :: "lease_op \<Rightarrow> lease \<Rightarrow> lease" where
  "lease_step (Take own k below client_on now) st =
     (case lease_take own k below client_on now st of Inl _ \<Rightarrow> st | Inr st' \<Rightarrow> st')"
| "lease_step (Release own) st = lease_release own st"

definition lease_inv :: "lease \<Rightarrow> bool" where
  "lease_inv st \<longleftrightarrow> length st \<le> lease_depth \<and> list_all (\<lambda>h. owner_usable (Some (s_owner h))) st"

section \<open>Facts about the operations\<close>

lemmas lease_bounds = lease_depth_def lease_owner_max_def

lemma lease_take_Inr:
  "lease_take own k below client_on now st = Inr st' \<longleftrightarrow>
     owner_usable own \<and> \<not> (k = Sender \<and> client_on) \<and>
     map s_owner st = (case below of None \<Rightarrow> [] | Some u \<Rightarrow> [u]) \<and>
     st' = st @ [\<lparr>s_owner = the own, s_kind = k, s_since = now\<rparr>]"
  by (cases st; cases "tl st"; cases below)
     (auto simp: lease_take_def lease_depth_def Let_def)

lemma lease_release_snoc [simp]:
  "lease_release (Some own) (st @ [h]) = (if s_owner h = own then st else st @ [h])"
  by (simp add: lease_release_def)

lemma lease_release_Nil [simp]: "lease_release own [] = []"
  by (simp add: lease_release_def)

lemma lease_release_None [simp]: "lease_release None st = st"
  by (simp add: lease_release_def)

lemma lease_release_cases:
  "lease_release own st = st \<or>
   (\<exists>h. st = lease_release own st @ [h] \<and> own = Some (s_owner h))"
  by (cases st rule: rev_cases) (auto simp: lease_release_def)

lemma lease_step_inv [preserve]: "lease_inv st \<Longrightarrow> lease_inv (lease_step op st)"
proof (cases op)
  case (Take own k below client_on now)
  moreover assume "lease_inv st"
  ultimately show ?thesis
    by (cases below)
       (auto simp: lease_inv_def lease_bounds lease_take_Inr owner_usable_def
             split: sum.splits option.splits)
next
  case (Release own)
  moreover assume "lease_inv st"
  ultimately show ?thesis
    by (auto simp: lease_inv_def lease_release_def list_all_iff dest: in_set_takeD)
qed

interpretation lease_machine: invariant_machine lease_step lease_inv
  by unfold_locales (rule lease_step_inv)

lemma last_owner:
  "st \<noteq> [] \<Longrightarrow> s_owner (st ! (length st - 1)) = last (map s_owner st)"
  by (simp add: last_conv_nth last_map)

section \<open>The contract a client of the lease relies on\<close>

text \<open>
  \<open>holders\<close> is who has the machine, outermost first. A client (the job runner, the keeper of
  the sender, a wizard) needs only this: what a granted take adds, when one can be granted,
  and that a release undoes exactly its owner's own take.
\<close>

locale machine_lease =
  fixes take_l :: "'k \<Rightarrow> string \<Rightarrow> string option \<Rightarrow> 's \<Rightarrow> 's option"
    and release_l :: "string \<Rightarrow> 's \<Rightarrow> 's"
    and holders :: "'s \<Rightarrow> string list"
  assumes take_adds: "take_l k x u s = Some s' \<Longrightarrow> holders s' = holders s @ [x]"
    and take_under: "take_l k x u s = Some s' \<Longrightarrow> holders s = (case u of None \<Rightarrow> [] | Some h \<Rightarrow> [h])"
    and release_own: "holders s = hs @ [x] \<Longrightarrow> holders (release_l x s) = hs"
    and release_other: "holders s = [] \<or> last (holders s) \<noteq> x \<Longrightarrow> holders (release_l x s) = holders s"
begin

lemma take_bounded: "take_l k x u s = Some s' \<Longrightarrow> length (holders s') \<le> 2"
  using take_adds [of k x u s s'] take_under [of k x u s s'] by (cases u) auto

lemma exclusive: "holders s \<noteq> [] \<Longrightarrow> take_l k x None s = None"
  using take_under by (cases "take_l k x None s") force+

lemma stranger_refused: "holders s = h # hs \<Longrightarrow> u \<noteq> Some h \<Longrightarrow> take_l k x u s = None"
  using take_under by (cases "take_l k x u s") (force split: option.splits)+

lemma take_release: "take_l k x u s = Some s' \<Longrightarrow> holders (release_l x s') = holders s"
  by (rule release_own) (rule take_adds)

lemma take_keeps_outer: "take_l k x u s = Some s' \<Longrightarrow> holders s = h # hs \<Longrightarrow> \<exists>hs'. holders s' = h # hs'"
  by (auto dest: take_adds)

lemma release_keeps_outer:
  assumes "holders s = h # hs" and "x \<noteq> h"
  shows "\<exists>hs'. holders (release_l x s) = h # hs'"
proof (cases "last (holders s) = x")
  case True
  with assms obtain ys where ys: "holders s = ys @ [x]" "ys \<noteq> []"
    by (metis append_butlast_last_id append_self_conv2 list.distinct(1) list.inject)
  then show ?thesis using release_own [OF ys(1)] assms(1) by (cases ys) auto
next
  case False
  with assms show ?thesis by (simp add: release_other)
qed

end

definition holders_of :: "lease \<Rightarrow> string list" where
  "holders_of st = map s_owner st"

definition take_for :: "lease_kind \<times> bool \<times> real \<Rightarrow> string \<Rightarrow> string option \<Rightarrow> lease \<Rightarrow> lease option" where
  "take_for kcn x u st =
     (case lease_take (Some x) (fst kcn) u (fst (snd kcn)) (snd (snd kcn)) st of
        Inl _ \<Rightarrow> None | Inr st' \<Rightarrow> Some st')"

lemma take_for_Some:
  "take_for (k, c, now) x u st = Some st' \<longleftrightarrow> lease_take (Some x) k u c now st = Inr st'"
  by (auto simp: take_for_def split: sum.splits)

interpretation ml: machine_lease take_for "\<lambda>x. lease_release (Some x)" holders_of
proof unfold_locales
  fix k x u s s' assume "take_for k x u s = Some s'"
  then show "holders_of s' = holders_of s @ [x]"
    by (cases k) (auto simp: take_for_Some lease_take_Inr holders_of_def)
next
  fix k x u s s' assume "take_for k x u s = Some s'"
  then show "holders_of s = (case u of None \<Rightarrow> [] | Some h \<Rightarrow> [h])"
    by (cases k) (auto simp: take_for_Some lease_take_Inr holders_of_def)
next
  fix s hs x assume "holders_of s = hs @ [x]"
  then show "holders_of (lease_release (Some x) s) = hs"
    by (cases s rule: rev_cases) (auto simp: holders_of_def)
next
  fix s x assume "holders_of s = [] \<or> last (holders_of s) \<noteq> x"
  then show "holders_of (lease_release (Some x) s) = holders_of s"
    by (cases s rule: rev_cases) (auto simp: holders_of_def)
qed

section \<open>Properties\<close>

text \<open>A hold is granted exactly when the owner's name is usable, no Grbl sender is
  connected to a hold of the sender kind, and the owners in the machine are precisely the one
  it says it runs under (nobody, for a hold of its own): otherwise the refusal changes nothing.\<close>

theorem lease_take_iff:
  "(\<exists>st'. lease_take own k below client_on now st = Inr st') \<longleftrightarrow>
     owner_usable own \<and> \<not> (k = Sender \<and> client_on) \<and>
     holders_of st = (case below of None \<Rightarrow> [] | Some u \<Rightarrow> [u])"
  by (auto simp: lease_take_Inr holders_of_def)

definition outermost :: "string \<Rightarrow> lease \<Rightarrow> bool" where
  "outermost x st \<longleftrightarrow> (\<exists>hs. holders_of st = x # hs)"

lemma lease_step_outermost:
  assumes "outermost x st" and "op \<noteq> Release (Some x)"
  shows "outermost x (lease_step op st)"
proof (cases op)
  case (Take own k below c now)
  show ?thesis
  proof (cases "lease_take own k below c now st")
    case (Inl why)
    with Take assms(1) show ?thesis by simp
  next
    case (Inr st')
    then have "holders_of st' = holders_of st @ [the own]"
      by (simp add: holders_of_def lease_take_Inr)
    with Take Inr assms(1) show ?thesis by (auto simp: outermost_def)
  qed
next
  case (Release own)
  with assms show ?thesis
    by (cases own) (auto simp: outermost_def intro: ml.release_keeps_outer)
qed

interpretation outer_latch: latch lease_step "outermost x" "\<lambda>op. op \<noteq> Release (Some x)" for x
  by unfold_locales (rule lease_step_outermost)

text \<open>C6. Nobody takes the machine away: in every interleaving of takes and releases by any
  number of threads, the outermost holder stays the holder until it gives the lease back under
  its own name.\<close>

theorem lease_holder_kept:
  assumes "outermost x st" and "\<And>op. op \<in> set ops \<Longrightarrow> op \<noteq> Release (Some x)"
  shows "outermost x (fold lease_step ops st)"
  using assms by (rule outer_latch.run_latched)

theorem lease_holder_kept_witness:
  "outermost ''wizard:motion''
     (fold lease_step [Take (Some ''job:panel'') Sender None False 5,
                       Take (Some ''diag:flow'') Hardware (Some ''wizard:motion'') False 6,
                       Release (Some ''update:apply''), Release (Some ''diag:flow'')]
        [\<lparr>s_owner = ''wizard:motion'', s_kind = Hardware, s_since = 1\<rparr>])"
  by (rule lease_holder_kept) (auto simp: outermost_def holders_of_def)

text \<open>From the empty lease, after any sequence of operations there are at most two holders
  and every holder's name is one that can stand in a JSON document.\<close>

theorem lease_reachable_inv: "lease_inv (fold lease_step ops [])"
  by (rule lease_machine.run_inv) (simp add: lease_inv_def)

text \<open>A hold taken and given back leaves the machine with the holders it had, whatever the
  kind, the clock and the owner it ran under.\<close>

theorem lease_take_release:
  assumes "lease_take (Some x) k below client_on now st = Inr st'"
  shows "holders_of (lease_release (Some x) st') = holders_of st"
  using ml.take_release [of "(k, client_on, now)" x below st st'] assms by (simp add: take_for_Some)

theorem lease_take_release_witness:
  "holders_of (lease_release (Some ''job:panel'')
     [\<lparr>s_owner = ''wizard:sheet'', s_kind = Hardware, s_since = 1\<rparr>,
      \<lparr>s_owner = ''job:panel'', s_kind = Sender, s_since = 4\<rparr>]) = [''wizard:sheet'']"
proof -
  have "lease_take (Some ''job:panel'') Sender (Some ''wizard:sheet'') False 4
      [\<lparr>s_owner = ''wizard:sheet'', s_kind = Hardware, s_since = 1\<rparr>] =
    Inr [\<lparr>s_owner = ''wizard:sheet'', s_kind = Hardware, s_since = 1\<rparr>,
      \<lparr>s_owner = ''job:panel'', s_kind = Sender, s_since = 4\<rparr>]"
    by (simp add: lease_take_Inr owner_usable_def lease_owner_max_def)
  from lease_take_release [OF this] show ?thesis by (simp add: holders_of_def)
qed

lemma lease_prefixes_short: "(p, w) \<in> set lease_prefixes \<Longrightarrow> length w \<le> length p + 9"
  by (auto simp: lease_prefixes_def)

text \<open>The owner in words always fits the \<open>LEASE_OWNER_MAX + 32\<close> bytes every refusal and
  the status document give it, so no holder's name is ever cut.\<close>

theorem lease_words_fit:
  assumes "owner_usable (Some x)"
  shows "length (lease_words x) < lease_owner_max + 32"
proof (cases "find (\<lambda>(p, w). starts_with p x) lease_prefixes")
  case None
  with assms show ?thesis by (auto simp: lease_words_def owner_usable_def lease_owner_max_def)
next
  case (Some pw)
  then obtain p w where pw: "pw = (p, w)" "(p, w) \<in> set lease_prefixes" "starts_with p x"
    by (cases pw) (auto dest: find_SomeD)
  from pw(3) have "length p \<le> length x" by (auto simp: starts_with_iff)
  with assms Some pw lease_prefixes_short [OF pw(2)] show ?thesis
    by (auto simp: lease_words_def owner_usable_def lease_owner_max_def)
qed

theorem lease_words_fit_witness:
  "length (lease_words ''wizard:motion'') < lease_owner_max + 32"
  by (rule lease_words_fit) (simp add: owner_usable_def lease_owner_max_def)

end
