(* ===== verification/Json.thy ===== *)
theory Json
  imports Prelude
begin

text \<open>
  JSON values as the code reads them through jansson (a third-party library): the data its
  accessors return. The parser itself is a parameter of every definition that uses it,
  \<open>loads :: string \<Rightarrow> json option\<close>, with \<open>None\<close> for text it refuses. The accessors below are
  jansson's documented ones: each answers for a NULL or a value of another type as it does.
\<close>

datatype json =
    JNull
  | JBool bool
  | JInt int
  | JReal real
  | JStr string
  | JArr "json list"
  | JObj "(string \<times> json) list"

fun is_object :: "json option \<Rightarrow> bool" where
  "is_object (Some (JObj _)) = True"
| "is_object _ = False"

fun obj_get :: "json option \<Rightarrow> string \<Rightarrow> json option" where
  "obj_get (Some (JObj kvs)) k = map_of kvs k"
| "obj_get _ k = None"

fun string_value :: "json option \<Rightarrow> string option" where
  "string_value (Some (JStr s)) = Some s"
| "string_value _ = None"

fun integer_value :: "json option \<Rightarrow> int" where
  "integer_value (Some (JInt i)) = i"
| "integer_value _ = 0"

fun number_value :: "json option \<Rightarrow> real" where
  "number_value (Some (JInt i)) = of_int i"
| "number_value (Some (JReal r)) = r"
| "number_value _ = 0"

fun is_true :: "json option \<Rightarrow> bool" where
  "is_true (Some (JBool b)) = b"
| "is_true _ = False"

fun is_boolean :: "json option \<Rightarrow> bool" where
  "is_boolean (Some (JBool _)) = True"
| "is_boolean _ = False"

fun is_string :: "json option \<Rightarrow> bool" where
  "is_string (Some (JStr _)) = True"
| "is_string _ = False"

fun is_number :: "json option \<Rightarrow> bool" where
  "is_number (Some (JInt _)) = True"
| "is_number (Some (JReal _)) = True"
| "is_number _ = False"

text \<open>A NULL string reads as absent; \<open>or_else\<close> is the C idiom \<open>s ? s : d\<close>.\<close>

definition or_else :: "'a option \<Rightarrow> 'a \<Rightarrow> 'a" where
  "or_else s d = (case s of None \<Rightarrow> d | Some x \<Rightarrow> x)"

end
