(* ===== verification/Holds.thy ===== *)
theory Holds
  imports Json "HOL-Library.Char_ord" "HOL-Library.List_Lexorder"
begin

text \<open>
  The holds extension packages have on a job (\<open>src/holds.c\<close>): the engine reads a directory of
  hold files once a tick and fire is withheld while one stands. The file system is an input:
  what \<open>scandir\<close> answers for a directory (\<open>dirview\<close>), and the bytes a read of each file gives
  (\<open>None\<close> when it cannot be opened or read). \<open>alphasort\<close> in the C locale is byte order, which
  is the order \<open>List_Lexorder\<close> puts on character lists.
\<close>

datatype dirview = Dir_Missing | Dir_Unreadable | Dir_Entries "string list"

definition holds_fresh_s :: real where "holds_fresh_s = 2"
definition holds_max :: nat where "holds_max = 32"
definition holds_reason_max :: nat where "holds_reason_max = 112"
definition holds_file_max :: nat where "holds_file_max = 1024"

record holds =
  standing :: bool
  files :: nat
  raised :: nat
  stale_required :: nat
  stale_advisory :: nat
  unreadable :: nat
  reason :: string

definition no_holds :: holds where
  "no_holds = \<lparr>standing = False, files = 0, raised = 0, stale_required = 0, stale_advisory = 0,
     unreadable = 0, reason = []\<rparr>"

definition plain :: "string \<Rightarrow> string" where
  "plain s = map (\<lambda>c. if byte c < 0x20 \<or> byte c > 0x7e \<or> c = dquote \<or> c = backslash
                     then CHR ''?'' else c) s"

definition stand :: "string \<Rightarrow> holds \<Rightarrow> holds" where
  "stand t out = (if \<not> standing out then out\<lparr>reason := fit holds_reason_max t, standing := True\<rparr>
                  else out\<lparr>standing := True\<rparr>)"

definition hold_file :: "string \<Rightarrow> bool" where
  "hold_file n = (length n > 5 \<and> n ! 0 \<noteq> CHR ''.'' \<and> drop (length n - 5) n = ''.json'')"

definition id_shaped :: "string \<Rightarrow> bool" where
  "id_shaped s = (length s > 0 \<and> length s < 64 \<and> s ! 0 \<noteq> CHR ''.'' \<and>
     strspn (\<lambda>c. is_lower c \<or> is_digit c \<or> c = CHR ''.'' \<or> c = CHR ''-'') s = length s)"

definition scan :: "(string \<Rightarrow> bool) \<Rightarrow> dirview \<Rightarrow> string list" where
  "scan f d = (case d of Dir_Entries ns \<Rightarrow> sort (filter f ns) | _ \<Rightarrow> [])"

definition stem :: "string \<Rightarrow> string" where
  "stem name = take (length name - 5) name"

definition not_answering :: "string \<Rightarrow> string" where
  "not_answering ident = take 64 ident @ '': the extension host is not answering''"

text \<open>What one hold file says, once it is accepted: \<open>None\<close> is \<open>judge\<close>'s -1.\<close>

record hold_said =
  h_id :: string
  h_required :: bool
  h_raised :: bool
  h_why :: string
  h_ts :: real

definition read_hold ::
  "(string \<Rightarrow> json option) \<Rightarrow> string \<Rightarrow> string \<Rightarrow> string option \<Rightarrow> hold_said option" where
  "read_hold loads dir name content =
     (if length dir + 1 + length name \<ge> 512 then None
      else case content of None \<Rightarrow> None
      | Some text \<Rightarrow>
        if length text = 0 \<or> length text > holds_file_max then None
        else
          let j = loads (takeWhile (\<lambda>c. c \<noteq> CHR 0x00) text) in
          if \<not> is_object j then None
          else
            let jid = obj_get j ''id''; jreq = obj_get j ''required''; jup = obj_get j ''raised'';
                jwhy = obj_get j ''reason''; jts = obj_get j ''ts_mono'' in
            if is_string jid \<and> is_boolean jreq \<and> is_boolean jup \<and> is_string jwhy \<and> is_number jts \<and>
               or_else (string_value jid) [] = stem name \<and> length (stem name) < 72
            then Some \<lparr>h_id = plain (or_else (string_value jid) []),
                       h_required = is_true jreq, h_raised = is_true jup,
                       h_why = plain (fit holds_reason_max (or_else (string_value jwhy) [])),
                       h_ts = number_value jts\<rparr>
            else None)"

definition hold_stale :: "real \<Rightarrow> hold_said \<Rightarrow> bool" where
  "hold_stale now h \<longleftrightarrow> now - h_ts h > holds_fresh_s \<or> now - h_ts h < - holds_fresh_s"

definition judge ::
  "(string \<Rightarrow> json option) \<Rightarrow> string \<Rightarrow> string \<Rightarrow> string option \<Rightarrow> real \<Rightarrow> holds \<Rightarrow> holds option" where
  "judge loads dir name content now out =
     (case read_hold loads dir name content of None \<Rightarrow> None
      | Some h \<Rightarrow> Some
          (if hold_stale now h
           then (if h_required h
                 then stand (fit holds_reason_max (not_answering (h_id h)))
                        (out\<lparr>stale_required := stale_required out + 1\<rparr>)
                 else out\<lparr>stale_advisory := stale_advisory out + 1\<rparr>)
           else if h_raised h
           then stand (fit holds_reason_max
                         (take 64 (h_id h) @ '': '' @
                          take 44 (if h_why h \<noteq> [] then h_why h else ''hold'')))
                  (out\<lparr>raised := raised out + 1\<rparr>)
           else out))"

text \<open>One hold file of the first \<open>HOLDS_MAX\<close>: counted, spoken for, judged.\<close>

definition hold_one ::
  "(string \<Rightarrow> json option) \<Rightarrow> string \<Rightarrow> (string \<Rightarrow> string option) \<Rightarrow> real \<Rightarrow> string \<Rightarrow> holds \<Rightarrow> holds" where
  "hold_one loads dir file now name out =
     (let out1 = out\<lparr>files := files out + 1\<rparr> in
      case judge loads dir name (file name) now out1 of
        Some out2 \<Rightarrow> out2
      | None \<Rightarrow> stand (fit holds_reason_max
                        (''hold file '' @ take 64 (plain (take 64 name)) @ '' cannot be read''))
                  (out1\<lparr>unreadable := unreadable out1 + 1\<rparr>))"

definition spoken :: "string list \<Rightarrow> string list" where
  "spoken names = map (\<lambda>n. fit 72 (stem n)) (take holds_max names)"

definition marker_one :: "string list \<Rightarrow> string \<Rightarrow> holds \<Rightarrow> holds" where
  "marker_one sp m out =
     (if m \<notin> set sp
      then stand (fit holds_reason_max (not_answering m))
             (out\<lparr>stale_required := stale_required out + 1\<rparr>)
      else out)"

definition holds_read ::
  "(string \<Rightarrow> json option) \<Rightarrow> string \<Rightarrow> dirview \<Rightarrow> (string \<Rightarrow> string option) \<Rightarrow>
   dirview option \<Rightarrow> real \<Rightarrow> holds" where
  "holds_read loads dir listing file required now =
     (let out0 = (if listing = Dir_Unreadable
                  then stand ''the hold files cannot be read'' (no_holds\<lparr>unreadable := 1\<rparr>)
                  else no_holds);
          names = scan hold_file listing;
          out1 = fold (hold_one loads dir file now) (take holds_max names) out0;
          out2 = (if length names > holds_max
                  then stand ''more hold files than there are package accounts''
                         (out1\<lparr>unreadable := unreadable out1 + (length names - holds_max)\<rparr>)
                  else out1)
      in case required of None \<Rightarrow> out2
         | Some rd \<Rightarrow>
             let out3 = (if rd = Dir_Unreadable
                         then stand ''the required holds cannot be read''
                                (out2\<lparr>unreadable := unreadable out2 + 1\<rparr>)
                         else out2)
             in fold (marker_one (spoken names)) (take holds_max (scan id_shaped rd)) out3)"

section \<open>When a hold stands\<close>

lemma stand_sel [simp]:
  "standing (stand t out)" "files (stand t out) = files out" "raised (stand t out) = raised out"
  "stale_required (stand t out) = stale_required out"
  "stale_advisory (stand t out) = stale_advisory out" "unreadable (stand t out) = unreadable out"
  by (simp_all add: stand_def)

lemma set_scan: "set (scan f d) = (case d of Dir_Entries ns \<Rightarrow> {n \<in> set ns. f n} | _ \<Rightarrow> {})"
  by (auto simp: scan_def split: dirview.splits)

text \<open>One file withholds fire: it cannot be read, or it is required and stale, or fresh and raised.\<close>

definition file_holds :: "(string \<Rightarrow> json option) \<Rightarrow> string \<Rightarrow> (string \<Rightarrow> string option) \<Rightarrow> real \<Rightarrow> string \<Rightarrow> bool" where
  "file_holds loads dir file now name =
     (case read_hold loads dir name (file name) of None \<Rightarrow> True
      | Some h \<Rightarrow> if hold_stale now h then h_required h else h_raised h)"

lemma standing_hold_one [simp]:
  "standing (hold_one loads dir file now name out) \<longleftrightarrow>
     standing out \<or> file_holds loads dir file now name"
  by (auto simp: hold_one_def judge_def file_holds_def Let_def split: option.splits)

lemma standing_marker_one [simp]:
  "standing (marker_one sp m out) \<longleftrightarrow> standing out \<or> m \<notin> set sp"
  by (simp add: marker_one_def)

lemma standing_fold_files:
  "standing (fold (hold_one loads dir file now) ns out) \<longleftrightarrow>
     standing out \<or> (\<exists>n\<in>set ns. file_holds loads dir file now n)"
  by (induction ns arbitrary: out) auto

lemma standing_fold_markers:
  "standing (fold (marker_one sp) ms out) \<longleftrightarrow> standing out \<or> (\<exists>m\<in>set ms. m \<notin> set sp)"
  by (induction ms arbitrary: out) auto

text \<open>Exactly when the holds withhold fire: a directory that is there and cannot be read, one
  of the first \<open>HOLDS_MAX\<close> files that is unreadable, stale and required, or fresh and raised, more
  files than accounts, or one of the first \<open>HOLDS_MAX\<close> required packages no file speaks for. A stale
  advisory hold and a fresh lowered one never withhold it.\<close>

theorem holds_read_standing_iff:
  "standing (holds_read loads dir listing file required now) \<longleftrightarrow>
     listing = Dir_Unreadable \<or>
     (\<exists>n\<in>set (take holds_max (scan hold_file listing)). file_holds loads dir file now n) \<or>
     length (scan hold_file listing) > holds_max \<or>
     required = Some Dir_Unreadable \<or>
     (\<exists>rd. required = Some rd \<and>
        (\<exists>m\<in>set (take holds_max (scan id_shaped rd)). m \<notin> set (spoken (scan hold_file listing))))"
  by (auto simp: holds_read_def Let_def standing_fold_files standing_fold_markers no_holds_def
           split: option.splits)

section \<open>The reason is safe to publish\<close>

definition reason_safe :: "holds \<Rightarrow> bool" where
  "reason_safe out \<longleftrightarrow> length (reason out) < holds_reason_max \<and> list_all json_plain (reason out) \<and>
     (standing out \<or> reason out = [])"

lemma plain_json_plain: "list_all json_plain (plain s)"
  by (auto simp: plain_def list_all_iff char_class_defs)

lemma list_all_take: "list_all P s \<Longrightarrow> list_all P (take n s)"
  by (auto simp: list_all_iff dest: in_set_takeD)

lemma list_all_fit: "list_all P s \<Longrightarrow> list_all P (fit n s)"
  by (simp add: fit_def list_all_take)

lemma reason_safe_stand:
  "reason_safe out \<Longrightarrow> list_all json_plain t \<Longrightarrow> reason_safe (stand t out)"
  using length_fit [of holds_reason_max t]
  by (auto simp: reason_safe_def stand_def list_all_fit holds_reason_max_def)

lemma reason_safe_counts [simp]:
  "reason_safe (out\<lparr>files := n\<rparr>) = reason_safe out" "reason_safe (out\<lparr>raised := n\<rparr>) = reason_safe out"
  "reason_safe (out\<lparr>stale_required := n\<rparr>) = reason_safe out"
  "reason_safe (out\<lparr>stale_advisory := n\<rparr>) = reason_safe out"
  "reason_safe (out\<lparr>unreadable := n\<rparr>) = reason_safe out"
  by (simp_all add: reason_safe_def)

lemma json_plain_texts:
  "list_all json_plain '': the extension host is not answering''"
  "list_all json_plain ''hold file ''" "list_all json_plain '' cannot be read''"
  "list_all json_plain '': ''" "list_all json_plain ''hold''"
  "list_all json_plain ''the hold files cannot be read''"
  "list_all json_plain ''more hold files than there are package accounts''"
  "list_all json_plain ''the required holds cannot be read''"
  by (simp_all add: char_class_defs)

lemma not_answering_plain: "list_all json_plain s \<Longrightarrow> list_all json_plain (not_answering s)"
  unfolding not_answering_def list_all_append using json_plain_texts(1) list_all_take by blast

lemma read_hold_plain:
  "read_hold loads dir name content = Some h \<Longrightarrow> list_all json_plain (h_id h) \<and> list_all json_plain (h_why h)"
  by (auto simp: read_hold_def Let_def plain_json_plain split: option.splits if_splits)

lemma reason_safe_hold_one:
  assumes "reason_safe out"
  shows "reason_safe (hold_one loads dir file now name out)"
proof (cases "read_hold loads dir name (file name)")
  case None
  have "list_all json_plain (''hold file '' @ take 64 (plain (take 64 name)) @ '' cannot be read'')"
    unfolding list_all_append using json_plain_texts(2,3) list_all_take plain_json_plain by blast
  with None assms show ?thesis
    by (simp add: hold_one_def judge_def Let_def reason_safe_stand list_all_fit)
next
  case (Some h)
  then have h: "list_all json_plain (h_id h)" "list_all json_plain (h_why h)"
    by (simp_all add: read_hold_plain)
  let ?say = "take 64 (h_id h) @ '': '' @ take 44 (if h_why h \<noteq> [] then h_why h else ''hold'')"
  have "list_all json_plain (if h_why h \<noteq> [] then h_why h else ''hold'')"
    using h(2) json_plain_texts(5) by simp
  then have "list_all json_plain ?say"
    unfolding list_all_append using json_plain_texts(4) list_all_take h(1) by blast
  with Some h assms show ?thesis
    by (simp add: hold_one_def judge_def Let_def reason_safe_stand list_all_fit not_answering_plain)
qed

lemma reason_safe_fold_files:
  "reason_safe out \<Longrightarrow> reason_safe (fold (hold_one loads dir file now) ns out)"
  by (induction ns arbitrary: out) (auto intro: reason_safe_hold_one)

lemma reason_safe_fold_markers:
  "reason_safe out \<Longrightarrow> \<forall>m\<in>set ms. list_all json_plain m \<Longrightarrow>
   reason_safe (fold (marker_one sp) ms out)"
  by (induction ms arbitrary: out)
     (auto simp: marker_one_def reason_safe_stand list_all_fit not_answering_plain)

lemma id_shaped_plain: "id_shaped m \<Longrightarrow> list_all json_plain m"
  unfolding id_shaped_def strspn_full by (force simp: list_all_iff char_class_defs)

text \<open>Whatever the extension host and its packages wrote, the reason that goes on into the
  verdict fits its buffer, is printable ASCII without the two characters that end a JSON string,
  and is empty unless a hold stands.\<close>

theorem holds_read_reason_safe: "reason_safe (holds_read loads dir listing file required now)"
proof -
  let ?names = "scan hold_file listing"
  have 0: "reason_safe (if listing = Dir_Unreadable
       then stand ''the hold files cannot be read'' (no_holds\<lparr>unreadable := 1\<rparr>) else no_holds)"
    using reason_safe_stand [OF _ json_plain_texts(6)]
    by (simp add: reason_safe_def no_holds_def holds_reason_max_def)
  note 1 = reason_safe_fold_files [OF 0]
  note 2 = reason_safe_stand [OF _ json_plain_texts(7)]
  note 3 = reason_safe_stand [OF _ json_plain_texts(8)]
  have ms: "\<forall>m\<in>set (take holds_max (scan id_shaped rd)). list_all json_plain m" for rd
    by (auto simp: set_scan split: dirview.splits dest!: in_set_takeD intro: id_shaped_plain)
  show ?thesis
    unfolding holds_read_def Let_def using 1
    by (auto split: option.splits intro!: reason_safe_fold_markers ms 2 3)
qed

text \<open>Required packages past the first \<open>HOLDS_MAX\<close> are not looked at: adding them to the
  directory changes nothing the engine reads, even when no file speaks for them.\<close>

theorem required_past_max_ignored:
  assumes "sorted ms" "\<forall>m\<in>set ms. id_shaped m" "length ms = holds_max"
    and "sorted (ms @ extra)" "\<forall>m\<in>set extra. id_shaped m"
  shows "holds_read loads dir listing file (Some (Dir_Entries (ms @ extra))) now =
         holds_read loads dir listing file (Some (Dir_Entries ms)) now"
proof -
  have "scan id_shaped (Dir_Entries (ms @ extra)) = ms @ extra"
    using assms by (simp add: scan_def sorted_sort_id)
  moreover have "scan id_shaped (Dir_Entries ms) = ms"
    using assms by (simp add: scan_def sorted_sort_id)
  ultimately show ?thesis
    using assms(3) by (simp add: holds_read_def Let_def)
qed

definition many_ids :: "string list" where
  "many_ids = [''a'', ''b'', ''c'', ''d'', ''e'', ''f'', ''g'', ''h'', ''i'', ''j'', ''k'', ''l'',
     ''m'', ''n'', ''o'', ''p'', ''q'', ''r'', ''s'', ''t'', ''u'', ''v'', ''w'', ''x'',
     ''y'', ''za'', ''zb'', ''zc'', ''zd'', ''ze'', ''zf'', ''zg'']"

lemma many_ids_facts:
  "sorted (many_ids @ [''zz''])" "\<forall>m\<in>set (many_ids @ [''zz'']). id_shaped m" "length many_ids = holds_max"
  by code_simp+

theorem required_past_max_ignored_witness:
  "holds_read (\<lambda>_. None) ''/run'' Dir_Missing (\<lambda>_. None) (Some (Dir_Entries (many_ids @ [''zz'']))) 0 =
   holds_read (\<lambda>_. None) ''/run'' Dir_Missing (\<lambda>_. None) (Some (Dir_Entries many_ids)) 0"
  using many_ids_facts by (intro required_past_max_ignored) (simp_all add: sorted_append)

end
