(* ===== verification/Cnum.thy ===== *)
theory Cnum
  imports Prelude
begin

text \<open>
  The number readers of the C library the code calls: \<open>strtod\<close>, \<open>strtol\<close> and \<open>atol\<close> in base ten,
  \<open>strtoul\<close> in base zero, each answering the value and the text it stopped at. Values are exact
  (a decimal is the rational it denotes, before any rounding to a double); \<open>long\<close> is the
  target's 32 bits and saturates, as the standard says.
\<close>

definition is_cspace :: "char \<Rightarrow> bool" where
  "is_cspace c \<longleftrightarrow> byte c = 32 \<or> (9 \<le> byte c \<and> byte c \<le> 13)"

definition lower_c :: "char \<Rightarrow> char" where
  "lower_c c = (if is_upper c then char_of (byte c + 32) else c)"

lemma is_cspace_code [code]:
  "is_cspace (Char b0 b1 b2 b3 b4 b5 b6 b7) \<longleftrightarrow>
     \<not> b7 \<and> \<not> b6 \<and> \<not> b4 \<and> (b5 \<and> \<not> b3 \<and> \<not> b2 \<and> \<not> b1 \<and> \<not> b0 \<or>
       \<not> b5 \<and> b3 \<and> (b0 \<or> b1 \<or> b2) \<and> \<not> (b2 \<and> b1))"
  by (cases b0; cases b1; cases b2; cases b3; cases b4; cases b5; cases b6; cases b7;
      simp add: is_cspace_def byte_def)

lemma lower_c_code [code]:
  "lower_c c = (if is_upper c then (case c of Char b0 b1 b2 b3 b4 b5 b6 b7 \<Rightarrow> Char b0 b1 b2 b3 b4 True b6 b7) else c)"
proof (cases "is_upper c")
  case True
  then show ?thesis
  proof (cases c)
    case (Char b0 b1 b2 b3 b4 b5 b6 b7)
    with True have b: "\<not> b5" by (simp add: char_classes_code)
    then have "byte c + 32 = of_char (Char b0 b1 b2 b3 b4 True b6 b7)" by (simp add: byte_def Char)
    then have "lower_c c = char_of (of_char (Char b0 b1 b2 b3 b4 True b6 b7) :: nat)" using True by (simp add: lower_c_def)
    then show ?thesis using True Char by (simp only: char_of_char char.case if_True)
  qed
qed (simp add: lower_c_def)

definition ci_prefix :: "string \<Rightarrow> string \<Rightarrow> bool" where
  "ci_prefix p s \<longleftrightarrow> starts_with p (map lower_c s)"

definition digit_of :: "nat \<Rightarrow> char \<Rightarrow> nat option" where
  "digit_of b c =
     (let l = lower_c c;
          d = (if is_digit l then byte l - 48 else if is_lower l then byte l - 87 else 99)
      in if d < b then Some d else None)"

definition is_dig :: "nat \<Rightarrow> char \<Rightarrow> bool" where
  "is_dig b c \<longleftrightarrow> digit_of b c \<noteq> None"

definition val_of :: "nat \<Rightarrow> string \<Rightarrow> nat" where
  "val_of b s = foldl (\<lambda>a c. b * a + the (digit_of b c)) 0 s"

definition sign_of :: "string \<Rightarrow> bool \<times> string" where
  "sign_of s = (case s of c # r \<Rightarrow> if c = CHR ''-'' then (True, r) else if c = CHR ''+'' then (False, r)
                                  else (False, s) | [] \<Rightarrow> (False, []))"

text \<open>The digits of a floating constant in base \<open>b\<close>: its value and the rest, or \<open>None\<close> without a digit.\<close>

definition mantissa :: "nat \<Rightarrow> string \<Rightarrow> (real \<times> string) option" where
  "mantissa b s =
     (let ip = takeWhile (is_dig b) s; r1 = dropWhile (is_dig b) s;
          pt = (r1 \<noteq> [] \<and> hd r1 = CHR ''.'');
          fp = (if pt then takeWhile (is_dig b) (tl r1) else []);
          r2 = (if pt then dropWhile (is_dig b) (tl r1) else r1)
      in if ip = [] \<and> fp = [] then None
         else Some (of_nat (val_of b (ip @ fp)) / of_nat b ^ length fp, r2))"

definition exponent :: "char \<Rightarrow> nat \<Rightarrow> real \<times> string \<Rightarrow> real \<times> string" where
  "exponent mark b vr =
     (case snd vr of
        c # r \<Rightarrow>
          (let neg = fst (sign_of r); r' = snd (sign_of r);
               ds = takeWhile (is_dig 10) r'; n = val_of 10 ds
           in if lower_c c = mark \<and> ds \<noteq> []
              then (if neg then fst vr / of_nat b ^ n else fst vr * of_nat b ^ n,
                    dropWhile (is_dig 10) r')
              else vr)
      | [] \<Rightarrow> vr)"

definition strtod :: "string \<Rightarrow> dbl \<times> string" where
  "strtod s =
     (let s1 = dropWhile is_cspace s; neg = fst (sign_of s1); s2 = snd (sign_of s1);
          signed = (\<lambda>vr. (Fin (if neg then - fst vr else fst vr), snd vr));
          hexm = (if ci_prefix ''0x'' s2 then mantissa 16 (drop 2 s2) else None)
      in if ci_prefix ''infinity'' s2 then (if neg then NInf else PInf, drop 8 s2)
         else if ci_prefix ''inf'' s2 then (if neg then NInf else PInf, drop 3 s2)
         else if ci_prefix ''nan'' s2 then (NaN, drop 3 s2)
         else (case hexm of
                 Some vr \<Rightarrow> signed (exponent (CHR ''p'') 2 vr)
               | None \<Rightarrow> (case mantissa 10 s2 of
                            Some vr \<Rightarrow> signed (exponent (CHR ''e'') 10 vr)
                          | None \<Rightarrow> (Fin 0, s))))"

definition long_sat :: "int \<Rightarrow> int" where
  "long_sat i = max (- (2 ^ 31)) (min (2 ^ 31 - 1) i)"

definition strtol10 :: "string \<Rightarrow> int \<times> string" where
  "strtol10 s =
     (let s1 = dropWhile is_cspace s; neg = fst (sign_of s1); s2 = snd (sign_of s1);
          ds = takeWhile (is_dig 10) s2; v = int (val_of 10 ds)
      in if ds = [] then (0, s) else (long_sat (if neg then - v else v), dropWhile (is_dig 10) s2))"

definition atol :: "string \<Rightarrow> int" where
  "atol s = fst (strtol10 s)"

text \<open>\<open>strtoul(s, &end, 0)\<close> on text whose first character is a digit (the one caller checks it).\<close>

definition strtoul0 :: "string \<Rightarrow> nat \<times> string" where
  "strtoul0 s =
     (let b = (if ci_prefix ''0x'' s \<and> length s > 2 \<and> is_dig 16 (s ! 2) then 16
               else if starts_with ''0'' s then 8 else 10);
          body = (if b = 16 then drop 2 s else s);
          ds = takeWhile (is_dig b) body
      in (min (val_of b ds) (2 ^ 32 - 1), dropWhile (is_dig b) body))"

lemmas cnum_defs =
  strtod_def strtol10_def atol_def strtoul0_def mantissa_def exponent_def sign_of_def val_of_def
  is_dig_def digit_of_def lower_c_def ci_prefix_def is_cspace_def long_sat_def starts_with_def
  char_class_defs

lemma strtod_example: "strtod ''14.4'' = (Fin (144/10), [])"
  by (simp add: cnum_defs Let_def)

lemma strtod_trailing: "strtod ''33 C'' = (Fin 33, '' C'')"
  by (simp add: cnum_defs Let_def)

section \<open>A printed integer reads back\<close>

lemma is_dig_10: "is_digit c \<Longrightarrow> is_dig 10 c"
  by (auto simp: is_dig_def digit_of_def lower_c_def char_class_defs Let_def)

lemma digit_of_10: "is_digit c \<Longrightarrow> digit_of 10 c = Some (digit_val c)"
  by (auto simp: digit_of_def lower_c_def digit_val_def char_class_defs Let_def)

lemma val_of_digits: "\<forall>c\<in>set s. is_digit c \<Longrightarrow> val_of 10 s = digits_val s"
proof -
  assume "\<forall>c\<in>set s. is_digit c"
  then have "foldl (\<lambda>a c. 10 * a + the (digit_of 10 c)) n s = foldl (\<lambda>a c. 10 * a + digit_val c) n s" for n
    by (induction s arbitrary: n) (auto simp: digit_of_10)
  then show ?thesis by (simp add: val_of_def digits_val_def)
qed

lemma val_of_digits_of [simp]: "val_of 10 (digits_of n) = n"
  using digits_of_digits by (simp add: val_of_digits)

lemma takeWhile_digits:
  assumes "r = [] \<or> \<not> is_dig 10 (hd r)"
  shows "takeWhile (is_dig 10) (digits_of n @ r) = digits_of n"
    and "dropWhile (is_dig 10) (digits_of n @ r) = r"
proof -
  have "\<forall>c\<in>set (digits_of n). is_dig 10 c" using digits_of_digits is_dig_10 by blast
  with assms show "takeWhile (is_dig 10) (digits_of n @ r) = digits_of n"
    and "dropWhile (is_dig 10) (digits_of n @ r) = r"
    by (cases r; simp add: takeWhile_append2 dropWhile_append2)+
qed

lemma digits_of_hd: "\<exists>c ds. digits_of n = c # ds \<and> is_digit c"
  using digits_of_digits [of n] by (cases "digits_of n") auto

lemma show_int_hd: "\<exists>c ds. show_int i = c # ds \<and> \<not> is_cspace c"
  using digits_of_hd [of "nat i"] by (auto simp: show_int_def is_cspace_def char_class_defs)

lemma sign_of_show_int:
  "sign_of (show_int i @ r) = (i < 0, digits_of (nat \<bar>i\<bar>) @ r)"
  using digits_of_hd [of "nat i"] by (auto simp: show_int_def sign_of_def char_class_defs)

lemma dropWhile_show_int: "dropWhile is_cspace (show_int i @ r) = show_int i @ r"
  using show_int_hd [of i] by auto

lemma strtol10_show_int:
  assumes "- (2 ^ 31) \<le> i" "i < 2 ^ 31" and "r = [] \<or> \<not> is_dig 10 (hd r)" and "\<forall>c\<in>set ws. is_cspace c"
  shows "strtol10 (ws @ show_int i @ r) = (i, r)"
proof -
  have "dropWhile is_cspace (ws @ show_int i @ r) = show_int i @ r"
    using assms(4) dropWhile_show_int by simp
  then show ?thesis
    using assms(1,2) takeWhile_digits [OF assms(3)]
    by (simp add: strtol10_def sign_of_show_int long_sat_def Let_def)
qed

end
