(* ===== verification/Gates.thy ===== *)
theory Gates
  imports Cnum
begin

text \<open>
  The gate settings (\<open>src/gates.c\<close>): one table of every number the cooling engine compares
  against, with its legal range, its recommended band and the end of the range that turns the
  gate off by value; the parser the settings validators use; the classification; the limit in
  force once a job's header has spoken; the floor's hysteresis and the two cross-checks.
\<close>

datatype gate_state_t = Gate_Ok | Gate_Warn | Gate_Off

record gate_setting =
  gkey :: string
  gname :: "string option"
  gdef :: real
  glo :: real
  ghi :: real
  gband_lo :: real
  gband_hi :: real
  goff_end :: int

definition row :: "string \<Rightarrow> string option \<Rightarrow> real \<Rightarrow> real \<Rightarrow> real \<Rightarrow> real \<Rightarrow> real \<Rightarrow> int \<Rightarrow> gate_setting" where
  "row k g d l h bl bh oe = \<lparr>gkey = k, gname = g, gdef = d, glo = l, ghi = h, gband_lo = bl, gband_hi = bh, goff_end = oe\<rparr>"

definition gate_table :: "gate_setting list" where
  "gate_table =
    [row ''cool_temp_max''              (Some ''coolant_max'') 33 5 60 25 38 1,
     row ''cool_temp_resume''           None                  31 5 59 20 36 0,
     row ''cool_temp_critical_c''       (Some ''coolant_critical'') 38 6 70 36 45 1,
     row ''cool_temp_min''              (Some ''coolant_min'') 5 0 40 3 8 (-1),
     row ''cool_temp_start''            (Some ''warm_up'') 16 0 40 12 20 (-1),
     row ''cool_tec_on_c''              None 20 6 32 18 24 0,
     row ''cool_tec_off_c''             None 18 5 31 16 22 0,
     row ''cool_fire_q1_alert''         (Some ''flame_q1_alert'') 275 0 1023 250 450 (-1),
     row ''cool_fire_q1_critical''      (Some ''flame_q1_critical'') 688 0 1023 500 1023 (-1),
     row ''cool_fire_q2_alert''         (Some ''flame_q2_alert'') 374 0 1023 300 500 (-1),
     row ''cool_fire_q2_critical''      (Some ''flame_q2_critical'') 1022 0 1023 500 1023 (-1),
     row ''cool_accel_x_alert''         (Some ''crash_x_alert'') 132 0 255 100 170 (-1),
     row ''cool_accel_y_alert''         (Some ''crash_y_alert'') 112 0 255 85 145 (-1),
     row ''cool_accel_abort''           (Some ''crash_abort'') 133 0 255 100 170 (-1),
     row ''cool_flow_check_s''          (Some ''flow'') 50 0 300 30 120 (-1),
     row ''cool_recheck_s''             (Some ''recheck'') 150 0 3600 60 600 (-1),
     row ''cool_flow_rise''             None (144/10) 1 40 1 40 0,
     row ''cool_tach_exhaust_min_rpm''  (Some ''exhaust'') 6400 0 20000 5800 7000 (-1),
     row ''cool_tach_intake_min_rpm''   (Some ''intake'') 2290 0 20000 2100 2500 (-1),
     row ''cool_tach_air_assist_min_rpm'' (Some ''air_assist'') 6000 0 30000 5500 6600 (-1),
     row ''cool_purge_min_current''     (Some ''purge'') 300 0 1023 150 500 (-1),
     row ''cool_fan_grace_s''           None 15 0 120 5 30 0]"

definition gate_setting_find :: "string option \<Rightarrow> gate_setting option" where
  "gate_setting_find key = (case key of None \<Rightarrow> None | Some k \<Rightarrow> find (\<lambda>g. gkey g = k) gate_table)"

definition gate_parse :: "gate_setting option \<Rightarrow> string option \<Rightarrow> real option" where
  "gate_parse g text =
     (case (g, text) of
        (Some g, Some t) \<Rightarrow>
          (if t = [] then None
           else case strtod t of (v, e) \<Rightarrow>
             if length e = length t \<or> e \<noteq> [] \<or> \<not> d_finite v then None
             else (case v of Fin x \<Rightarrow> if x < glo g \<or> x > ghi g then None else Some x | _ \<Rightarrow> None))
      | _ \<Rightarrow> None)"

definition gate_state :: "gate_setting \<Rightarrow> real \<Rightarrow> gate_state_t" where
  "gate_state g v =
     (if goff_end g < 0 \<and> v \<le> glo g then Gate_Off
      else if goff_end g > 0 \<and> v \<ge> ghi g then Gate_Off
      else if v < gband_lo g \<or> v > gband_hi g then Gate_Warn
      else Gate_Ok)"

definition gate_state_name :: "gate_state_t \<Rightarrow> string" where
  "gate_state_name s = (case s of Gate_Warn \<Rightarrow> ''warn'' | Gate_Off \<Rightarrow> ''off'' | Gate_Ok \<Rightarrow> ''ok'')"

text \<open>The limit in force and whether it is the header's. A NaN or infinite header is no header.\<close>

definition gate_effective :: "real \<Rightarrow> dbl \<Rightarrow> bool \<Rightarrow> real \<times> bool" where
  "gate_effective local header is_floor =
     (let use = (d_finite header \<and> d_lt (Fin 0) header \<and>
                 (if is_floor then d_lt (Fin local) header else d_lt header (Fin local)))
      in (if use then (case header of Fin h \<Rightarrow> h | _ \<Rightarrow> local) else local, use))"

definition gate_floor_trip :: "bool \<Rightarrow> real \<Rightarrow> real \<Rightarrow> real \<Rightarrow> bool" where
  "gate_floor_trip tripped up_c floor_c hyst_c \<longleftrightarrow> up_c < (if tripped then floor_c + hyst_c else floor_c)"

definition gate_critical_refused :: "real \<Rightarrow> real \<Rightarrow> bool" where
  "gate_critical_refused temp_max_c critical_c =
     (let ceil = gate_setting_find (Some ''cool_temp_max'');
          ceiling_off = (case ceil of None \<Rightarrow> False | Some c \<Rightarrow> goff_end c > 0 \<and> temp_max_c \<ge> ghi c)
      in \<not> ceiling_off \<and> critical_c \<le> temp_max_c)"

definition gate_tec_refused :: "real \<Rightarrow> real \<Rightarrow> bool" where
  "gate_tec_refused on_c off_c \<longleftrightarrow> off_c \<ge> on_c"

text \<open>\<open>gates_off_json\<close> before it is rendered: the gates whose setting stands at its off end.\<close>

definition gates_off :: "(gate_setting \<Rightarrow> real) \<Rightarrow> string list" where
  "gates_off value_of =
     map (\<lambda>g. the (gname g))
       (filter (\<lambda>g. gname g \<noteq> None \<and> gate_state g (value_of g) = Gate_Off) gate_table)"

text \<open>\<open>gates_off_json\<close> itself: the buffer and the number of gates, or \<open>None\<close> for its -1.\<close>

definition gates_off_json :: "nat \<Rightarrow> (gate_setting \<Rightarrow> real) \<Rightarrow> (string \<times> nat) option" where
  "gates_off_json len value_of =
     (if len < 3 then None
      else
        let names = gates_off value_of;
            pieces = ''['' # map (\<lambda>(i, n). (if i > 0 then '','' else []) @ [dquote] @ n @ [dquote]) (enumerate 0 names) @ ['']'']
        in map_option (\<lambda>doc. (doc, length names)) (fold (put len) pieces (Some [])))"

section \<open>The table is consistent\<close>

definition row_ok :: "gate_setting \<Rightarrow> bool" where
  "row_ok g \<longleftrightarrow> glo g \<le> gband_lo g \<and> gband_lo g \<le> gdef g \<and> gdef g \<le> gband_hi g \<and> gband_hi g \<le> ghi g \<and>
     (goff_end g = 0 \<longleftrightarrow> gname g = None) \<and> goff_end g \<in> {-1, 0, 1}"

lemma table_rows: "list_all row_ok gate_table"
  by (simp add: gate_table_def row_def row_ok_def)

lemma table_defaults: "list_all (\<lambda>g. gate_state g (gdef g) = Gate_Ok) gate_table"
  by (simp add: gate_table_def row_def gate_state_def)

lemma table_keys: "distinct (map gkey gate_table)"
  by (simp add: gate_table_def row_def)

text \<open>Every shipped default is a legal value inside its recommended band, no default is at an
  off end, every key appears once, and a setting has an off end exactly when it is a gate.\<close>

theorem gate_table_consistent:
  "list_all row_ok gate_table \<and> list_all (\<lambda>g. gate_state g (gdef g) = Gate_Ok) gate_table \<and>
   distinct (map gkey gate_table)"
  using table_rows table_defaults table_keys by simp

text \<open>A text is accepted as a setting exactly when the whole of it reads as a finite number
  inside the legal range, and the number accepted is the one it denotes.\<close>

theorem gate_parse_iff:
  "gate_parse (Some g) (Some t) = Some x \<longleftrightarrow>
     t \<noteq> [] \<and> strtod t = (Fin x, []) \<and> glo g \<le> x \<and> x \<le> ghi g"
  by (cases "strtod t"; cases "fst (strtod t)") (auto simp: gate_parse_def)

text \<open>A job's header only tightens a limit: a ceiling in force is never above the local one and
  a floor never below it, and an absent, infinite, not-a-number or non-positive header changes
  nothing.\<close>

theorem gate_effective_stricter:
  "(if is_floor then local \<le> fst (gate_effective local header is_floor)
    else fst (gate_effective local header is_floor) \<le> local) \<and>
   (snd (gate_effective local header is_floor) \<longleftrightarrow>
      (\<exists>h. header = Fin h \<and> 0 < h \<and> fst (gate_effective local header is_floor) = h \<and>
           (if is_floor then local < h else h < local)))"
  by (cases header) (auto simp: gate_effective_def Let_def)

text \<open>The coolant floor has hysteresis: a trip starts under the floor and ends only once the
  reading is \<open>hyst_c\<close> above it, so no reading inside the band changes the state either way.\<close>

theorem gate_floor_hysteresis:
  assumes "0 \<le> hyst_c"
  shows "(\<not> tripped \<and> gate_floor_trip tripped up_c floor_c hyst_c \<longrightarrow> up_c < floor_c) \<and>
         (tripped \<and> \<not> gate_floor_trip tripped up_c floor_c hyst_c \<longrightarrow> floor_c + hyst_c \<le> up_c) \<and>
         (floor_c \<le> up_c \<and> up_c < floor_c + hyst_c \<longrightarrow> gate_floor_trip tripped up_c floor_c hyst_c = tripped)"
  using assms by (auto simp: gate_floor_trip_def)

theorem gate_floor_hysteresis_witness:
  "gate_floor_trip True (11/2) 5 1 = True \<and> gate_floor_trip False (11/2) 5 1 = False"
  using gate_floor_hysteresis [of 1 True "11/2" 5] gate_floor_hysteresis [of 1 False "11/2" 5] by simp

end
