(* ===== verification/Airflow.thy ===== *)
theory Airflow
  imports Prelude
begin

text \<open>
  The per-fan airflow gate (\<open>src/airflow.c\<close>): a floor, a grace window, a debounce of three ticks
  and a latch for the rest of the run session; and \<open>src/camhealth.c\<close>, the capture queue's
  frame-health ladder, which has the same shape: a count, an escalation and a reset.
\<close>

datatype airflow_state = Air_Off | Air_Grace | Air_Ok | Air_Under | Air_Tripped

record airflow_fan =
  under_ticks :: int
  tripped :: bool
  fstate :: airflow_state

definition airflow_debounce_ticks :: int where "airflow_debounce_ticks = 3"

definition airflow_tick :: "real \<Rightarrow> real \<Rightarrow> bool \<Rightarrow> airflow_fan \<Rightarrow> airflow_fan" where
  "airflow_tick reading flr in_grace f =
     (if flr \<le> 0 then f\<lparr>under_ticks := 0, tripped := False, fstate := Air_Off\<rparr>
      else if tripped f then f\<lparr>fstate := Air_Tripped\<rparr>
      else if in_grace then f\<lparr>under_ticks := 0, fstate := Air_Grace\<rparr>
      else if reading \<ge> flr then f\<lparr>under_ticks := 0, fstate := Air_Ok\<rparr>
      else let f' = f\<lparr>under_ticks := under_ticks f + 1\<rparr> in
           if under_ticks f' \<ge> airflow_debounce_ticks then f'\<lparr>tripped := True, fstate := Air_Tripped\<rparr>
           else f'\<lparr>fstate := Air_Under\<rparr>)"

definition airflow_reset :: "airflow_fan" where
  "airflow_reset = \<lparr>under_ticks = 0, tripped = False, fstate = Air_Off\<rparr>"

definition airflow_state_name :: "airflow_state \<Rightarrow> string" where
  "airflow_state_name s = (case s of Air_Grace \<Rightarrow> ''grace'' | Air_Ok \<Rightarrow> ''ok'' | Air_Under \<Rightarrow> ''under''
     | Air_Tripped \<Rightarrow> ''TRIPPED'' | Air_Off \<Rightarrow> ''off'')"

definition airflow_rpm :: "int \<Rightarrow> real \<Rightarrow> int \<Rightarrow> real" where
  "airflow_rpm period units_per_second pulses_per_rev =
     (if period \<le> 0 \<or> pulses_per_rev \<le> 0 then 0
      else units_per_second * 60 / (of_int period * of_int pulses_per_rev))"

definition airflow_run_duty :: "int \<Rightarrow> int \<Rightarrow> bool \<Rightarrow> int" where
  "airflow_run_duty local job armed =
     (if job < 0 then local else if armed \<and> job < local then local else job)"

definition airflow_judged :: "bool \<Rightarrow> bool \<Rightarrow> int \<Rightarrow> int \<Rightarrow> bool" where
  "airflow_judged run armed duty local = (if \<not> run then False else armed \<or> duty \<ge> local)"

section \<open>The latch and the debounce\<close>

type_synonym air_input = "real \<times> real \<times> bool"

definition air_step :: "air_input \<Rightarrow> airflow_fan \<Rightarrow> airflow_fan" where
  "air_step i f = airflow_tick (fst i) (fst (snd i)) (snd (snd i)) f"

text \<open>The counter and the latch agree: an untripped fan has counted fewer than three ticks.\<close>

definition air_inv :: "airflow_fan \<Rightarrow> bool" where
  "air_inv f \<longleftrightarrow> 0 \<le> under_ticks f \<and> under_ticks f \<le> airflow_debounce_ticks \<and>
     (tripped f \<longleftrightarrow> under_ticks f = airflow_debounce_ticks) \<and>
     (tripped f \<longleftrightarrow> fstate f = Air_Tripped)"

lemmas air_defs = air_step_def airflow_tick_def air_inv_def airflow_debounce_ticks_def Let_def

interpretation air_machine: invariant_machine air_step air_inv
  by unfold_locales (auto simp: air_defs)

interpretation air_latch: latch air_step tripped "\<lambda>i. 0 < fst (snd i)"
  by unfold_locales (auto simp: air_defs)

lemma air_inv_reset: "air_inv airflow_reset"
  by (simp add: air_inv_def airflow_reset_def airflow_debounce_ticks_def)

text \<open>A fan that has tripped stays tripped for the rest of the session, whatever it reads and
  whether or not a grace window opens again, as long as its gate is not turned off by value.\<close>

theorem airflow_trip_latched:
  assumes "tripped f" and "\<And>i. i \<in> set inputs \<Longrightarrow> 0 < fst (snd i)"
  shows "tripped (fold air_step inputs f)"
  using assms by (rule air_latch.run_latched)

theorem airflow_trip_latched_witness:
  "tripped (fold air_step [(9000, 6400, False), (0, 6400, True), (12000, 6400, False)]
     \<lparr>under_ticks = 3, tripped = True, fstate = Air_Tripped\<rparr>)"
  by (rule airflow_trip_latched) auto

text \<open>How many ticks under the floor end the run so far.\<close>

definition counted :: "air_input \<Rightarrow> bool" where
  "counted i \<longleftrightarrow> 0 < fst (snd i) \<and> \<not> snd (snd i) \<and> fst i < fst (snd i)"

fun three_in_a_row :: "int \<Rightarrow> air_input list \<Rightarrow> bool" where
  "three_in_a_row n [] = (n \<ge> airflow_debounce_ticks)"
| "three_in_a_row n (i # is) =
     (n \<ge> airflow_debounce_ticks \<or> three_in_a_row (if counted i then n + 1 else 0) is)"

lemma three_in_a_row_full: "n \<ge> airflow_debounce_ticks \<Longrightarrow> three_in_a_row n is"
  by (cases "is") auto

lemma air_run_iff:
  assumes "air_inv f" "\<And>i. i \<in> set is \<Longrightarrow> 0 < fst (snd i)"
  shows "tripped (fold air_step is f) \<longleftrightarrow> three_in_a_row (under_ticks f) is"
  using assms
proof (induction "is" arbitrary: f)
  case Nil
  then show ?case by (auto simp: air_inv_def)
next
  case (Cons i "is")
  have pos: "0 < fst (snd i)" using Cons.prems(2) by simp
  show ?case
  proof (cases "tripped f")
    case True
    then have "tripped (fold air_step (i # is) f)"
      using Cons.prems(2) by (rule air_latch.run_latched)
    moreover have "under_ticks f \<ge> airflow_debounce_ticks"
      using True Cons.prems(1) by (auto simp: air_inv_def)
    ultimately show ?thesis by (simp add: three_in_a_row_full)
  next
    case False
    have "under_ticks (air_step i f) = (if counted i then under_ticks f + 1 else 0)"
      using False pos by (auto simp: air_defs counted_def)
    moreover have "air_inv (air_step i f)" using Cons.prems(1) by (rule air_machine.step_inv)
    moreover have "\<not> under_ticks f \<ge> airflow_debounce_ticks"
      using False Cons.prems(1) by (auto simp: air_inv_def)
    ultimately show ?thesis using Cons.IH [of "air_step i f"] Cons.prems(2) by simp
  qed
qed

text \<open>A trip takes three ticks in a row: from a fresh session, the fan is tripped after a run
  exactly when some three consecutive ticks of it read under the floor outside the grace window
  (with the gate on throughout).\<close>

theorem airflow_three_ticks:
  assumes "\<And>i. i \<in> set inputs \<Longrightarrow> 0 < fst (snd i)"
  shows "tripped (fold air_step inputs airflow_reset) \<longleftrightarrow> three_in_a_row 0 inputs"
  using air_run_iff [OF air_inv_reset assms] by (simp add: airflow_reset_def)

theorem airflow_three_ticks_witness:
  "tripped (fold air_step [(100, 6400, True), (100, 6400, False), (100, 6400, False), (100, 6400, False)]
      airflow_reset)"
proof -
  let ?is = "[(100, 6400, True), (100, 6400, False), (100, 6400, False), (100, 6400, False)] :: air_input list"
  have pos: "\<And>i. i \<in> set ?is \<Longrightarrow> 0 < fst (snd i)" by auto
  have "three_in_a_row 0 ?is"
    by (simp add: counted_def airflow_debounce_ticks_def)
  with airflow_three_ticks [OF pos] show ?thesis by blast
qed

section \<open>The camera's frame-health ladder\<close>

definition cam_warmup_frames :: int where "cam_warmup_frames = 2"
definition cam_max_bad_frames :: int where "cam_max_bad_frames = 4"
definition cam_max_recoveries :: int where "cam_max_recoveries = 3"

datatype cam_action = Frame_Use | Frame_Warmup | Frame_Drop | Frame_Restart | Frame_Abort

record cam_health =
  warmup :: int
  bad :: int
  restarts :: int

definition cam_health_started :: "cam_health" where
  "cam_health_started = \<lparr>warmup = cam_warmup_frames, bad = 0, restarts = 0\<rparr>"

definition cam_health_restarted :: "cam_health \<Rightarrow> cam_health" where
  "cam_health_restarted h = h\<lparr>warmup := cam_warmup_frames, bad := 0, restarts := restarts h + 1\<rparr>"

definition cam_health_frame :: "bool \<Rightarrow> cam_health \<Rightarrow> cam_action \<times> cam_health" where
  "cam_health_frame errored h =
     (if errored then
        (let h1 = h\<lparr>bad := bad h + 1\<rparr> in
         if bad h1 < cam_max_bad_frames then (Frame_Drop, h1)
         else let h2 = h1\<lparr>bad := 0\<rparr> in
              (if restarts h2 \<ge> cam_max_recoveries then Frame_Abort else Frame_Restart, h2))
      else
        (let h1 = h\<lparr>bad := 0\<rparr> in
         if warmup h1 > 0 then (Frame_Warmup, h1\<lparr>warmup := warmup h1 - 1\<rparr>)
         else (Frame_Use, h1\<lparr>restarts := 0\<rparr>)))"

text \<open>The capture loop's use of it: a restart cycles the queue and comes back up.\<close>

definition cam_loop :: "bool \<Rightarrow> cam_health \<Rightarrow> cam_action \<times> cam_health" where
  "cam_loop errored h =
     (let r = cam_health_frame errored h
      in if fst r = Frame_Restart then (Frame_Restart, cam_health_restarted (snd r)) else r)"

fun cam_actions :: "bool list \<Rightarrow> cam_health \<Rightarrow> cam_action list" where
  "cam_actions [] h = []"
| "cam_actions (e # es) h = fst (cam_loop e h) # cam_actions es (snd (cam_loop e h))"

definition cam_inv :: "cam_health \<Rightarrow> bool" where
  "cam_inv h \<longleftrightarrow> 0 \<le> warmup h \<and> warmup h \<le> cam_warmup_frames \<and> 0 \<le> bad h \<and> bad h < cam_max_bad_frames \<and>
     0 \<le> restarts h \<and> restarts h \<le> cam_max_recoveries"

lemmas cam_defs = cam_loop_def cam_health_frame_def cam_health_restarted_def cam_inv_def
  cam_warmup_frames_def cam_max_bad_frames_def cam_max_recoveries_def Let_def

interpretation cam_machine: invariant_machine "\<lambda>e h. snd (cam_loop e h)" cam_inv
  by unfold_locales (auto simp: cam_defs split: if_splits)

text \<open>What is left of the ladder: errored frames until it gives up.\<close>

definition ladder_left :: "cam_health \<Rightarrow> int" where
  "ladder_left h = (cam_max_recoveries - restarts h) * cam_max_bad_frames + (cam_max_bad_frames - bad h)"

lemma ladder_step:
  assumes "cam_inv h" "ladder_left h = n"
  shows "if n = 1 then fst (cam_loop True h) = Frame_Abort
         else fst (cam_loop True h) \<in> {Frame_Drop, Frame_Restart} \<and> ladder_left (snd (cam_loop True h)) = n - 1"
  using assms by (auto simp: ladder_left_def cam_defs)

lemma ladder_pos: "cam_inv h \<Longrightarrow> 1 \<le> ladder_left h"
  by (auto simp: ladder_left_def cam_defs)

text \<open>The ladder gives up in bounded time: from any state of it, a run of errored frames ends in
  an abort after exactly \<open>ladder_left\<close> of them, sixteen from a fresh start, and not before.\<close>

theorem cam_gives_up:
  assumes "cam_inv h" "int (length es) = ladder_left h" "\<forall>e\<in>set es. e"
  shows "last (cam_actions es h) = Frame_Abort \<and> Frame_Abort \<notin> set (butlast (cam_actions es h))"
  using assms
proof (induction es arbitrary: h)
  case Nil
  then show ?case using ladder_pos [of h] by simp
next
  case (Cons e es)
  then have e: "e" by simp
  note st = ladder_step [OF Cons.prems(1) refl]
  show ?case
  proof (cases es)
    case Nil
    with Cons.prems st e show ?thesis by simp
  next
    case (Cons e' es')
    with Cons.prems st e
    have *: "fst (cam_loop e h) \<noteq> Frame_Abort" "ladder_left (snd (cam_loop e h)) = int (length es)"
      by (auto split: if_splits)
    have inv: "cam_inv (snd (cam_loop e h))" using Cons.prems(1) by (rule cam_machine.step_inv)
    have "cam_actions es (snd (cam_loop e h)) \<noteq> []" using Cons by simp
    with Cons.IH [OF inv *(2) [symmetric]] Cons.prems(3) *(1) show ?thesis by auto
  qed
qed

theorem cam_gives_up_witness:
  "last (cam_actions (replicate 16 True) cam_health_started) = Frame_Abort"
proof -
  have "cam_inv cam_health_started \<and> ladder_left cam_health_started = 16"
    by (simp add: cam_defs cam_health_started_def ladder_left_def)
  then show ?thesis using cam_gives_up [of cam_health_started "replicate 16 True"] by simp
qed

text \<open>A frame is used only when it is good and past the warm-up: after any (re)start the first
  two good frames are dropped, and an errored frame never reaches the demosaic.\<close>

theorem cam_use_only_good:
  "fst (cam_loop errored h) = Frame_Use \<longleftrightarrow> \<not> errored \<and> warmup h \<le> 0"
  by (auto simp: cam_defs)

end
