(* ===== verification/Sha256.thy ===== *)
theory Sha256
  imports Prelude
begin

unbundle bit_operations_syntax

text \<open>
  SHA-256, HMAC-SHA256 and the constant-time comparison (\<open>src/sha256.c\<close>), at their machine
  widths. A context holds the eight chaining words, the bytes waiting in the block (\<open>fill\<close> is
  their number) and the 64-bit count of bits. The specification is the usual one: the chaining
  value folded over the 64-byte blocks of the padded message.
\<close>

type_synonym u8 = "8 word"
type_synonym u32 = "32 word"

text \<open>The table of the source, its words written in decimal.\<close>

definition K :: "u32 list" where
  "K = [1116352408, 1899447441, 3049323471, 3921009573, 961987163, 1508970993,
    2453635748, 2870763221, 3624381080, 310598401, 607225278, 1426881987,
    1925078388, 2162078206, 2614888103, 3248222580, 3835390401, 4022224774,
    264347078, 604807628, 770255983, 1249150122, 1555081692, 1996064986,
    2554220882, 2821834349, 2952996808, 3210313671, 3336571891, 3584528711,
    113926993, 338241895, 666307205, 773529912, 1294757372, 1396182291,
    1695183700, 1986661051, 2177026350, 2456956037, 2730485921, 2820302411,
    3259730800, 3345764771, 3516065817, 3600352804, 4094571909, 275423344,
    430227734, 506948616, 659060556, 883997877, 958139571, 1322822218,
    1537002063, 1747873779, 1955562222, 2024104815, 2227730452, 2361852424,
    2428436474, 2756734187, 3204031479, 3329325298]"

definition rotr :: "nat \<Rightarrow> u32 \<Rightarrow> u32" where
  "rotr n x = drop_bit n x OR push_bit (32 - n) x"

definition be32 :: "u8 list \<Rightarrow> nat \<Rightarrow> u32" where
  "be32 p i = push_bit 24 (ucast (p ! (i * 4))) OR push_bit 16 (ucast (p ! (i * 4 + 1))) OR
              push_bit 8 (ucast (p ! (i * 4 + 2))) OR ucast (p ! (i * 4 + 3))"

text \<open>The message schedule \<open>w[0..63]\<close>: sixteen words of the block, the rest computed in order.\<close>

definition sched_next :: "u32 list \<Rightarrow> u32" where
  "sched_next w =
     (let i = length w;
          s0 = rotr 7 (w ! (i - 15)) XOR rotr 18 (w ! (i - 15)) XOR drop_bit 3 (w ! (i - 15));
          s1 = rotr 17 (w ! (i - 2)) XOR rotr 19 (w ! (i - 2)) XOR drop_bit 10 (w ! (i - 2))
      in w ! (i - 16) + s0 + w ! (i - 7) + s1)"

definition schedule :: "u8 list \<Rightarrow> u32 list" where
  "schedule p = ((\<lambda>w. w @ [sched_next w]) ^^ 48) (map (be32 p) [0..<16])"

type_synonym regs = "u32 \<times> u32 \<times> u32 \<times> u32 \<times> u32 \<times> u32 \<times> u32 \<times> u32"

definition round_step :: "u32 \<times> u32 \<Rightarrow> regs \<Rightarrow> regs" where
  "round_step kw r =
     (case r of (a, b, c, d, e, f, g, hh) \<Rightarrow>
       let S1 = rotr 6 e XOR rotr 11 e XOR rotr 25 e;
           ch = (e AND f) XOR (NOT e AND g);
           t1 = hh + S1 + ch + fst kw + snd kw;
           S0 = rotr 2 a XOR rotr 13 a XOR rotr 22 a;
           maj = (a AND b) XOR (a AND c) XOR (b AND c);
           t2 = S0 + maj
       in (t1 + t2, a, b, c, d + t1, e, f, g))"

fun regs_of :: "u32 list \<Rightarrow> regs" where
  "regs_of [a, b, c, d, e, f, g, h] = (a, b, c, d, e, f, g, h)"
| "regs_of _ = (0, 0, 0, 0, 0, 0, 0, 0)"

definition compress :: "u32 list \<Rightarrow> u8 list \<Rightarrow> u32 list" where
  "compress h p =
     (case fold round_step (zip K (schedule p)) (regs_of h) of
       (a, b, c, d, e, f, g, hh) \<Rightarrow>
         [h ! 0 + a, h ! 1 + b, h ! 2 + c, h ! 3 + d, h ! 4 + e, h ! 5 + f, h ! 6 + g, h ! 7 + hh])"

record sha_ctx =
  hv :: "u32 list"
  bits :: "64 word"
  blk :: "u8 list"

definition sha_iv :: "u32 list" where
  "sha_iv = [1779033703, 3144134277, 1013904242, 2773480762, 1359893119, 2600822924, 528734635, 1541459225]"

definition sha256_init :: "sha_ctx" where
  "sha256_init = \<lparr>hv = sha_iv, bits = 0, blk = []\<rparr>"

text \<open>
  The copy loop. \<open>fill\<close> is below 64 whenever it is entered (\<open>sha_wf\<close>); the second disjunct of
  the guard only makes the recursion total.
\<close>

function update_loop :: "sha_ctx \<Rightarrow> u8 list \<Rightarrow> sha_ctx" where
  "update_loop c d =
     (if d = [] \<or> length (blk c) \<ge> 64 then c
      else
        let n = min (64 - length (blk c)) (length d);
            b = blk c @ take n d
        in if length b = 64
           then update_loop (c\<lparr>hv := compress (hv c) b, blk := []\<rparr>) (drop n d)
           else update_loop (c\<lparr>blk := b\<rparr>) (drop n d))"
  by pat_completeness auto
termination
  by (relation "measure (\<lambda>(c, d). length d)") auto

declare update_loop.simps [simp del]

definition sha256_update :: "u8 list \<Rightarrow> sha_ctx \<Rightarrow> sha_ctx" where
  "sha256_update d c = update_loop (c\<lparr>bits := bits c + of_nat (length d) * 8\<rparr>) d"

text \<open>The padding loop \<open>while (c->fill != 56) sha256_update(c, &zero, 1)\<close>; at most 64 turns.\<close>

fun pad_zeros :: "nat \<Rightarrow> sha_ctx \<Rightarrow> sha_ctx" where
  "pad_zeros 0 c = c"
| "pad_zeros (Suc k) c = (if length (blk c) = 56 then c else pad_zeros k (sha256_update [0] c))"

definition be64 :: "64 word \<Rightarrow> u8 list" where
  "be64 b = map (\<lambda>i. ucast (drop_bit (8 * i) b)) [7, 6, 5, 4, 3, 2, 1, 0]"

definition word_bytes :: "u32 \<Rightarrow> u8 list" where
  "word_bytes w = [ucast (drop_bit 24 w), ucast (drop_bit 16 w), ucast (drop_bit 8 w), ucast w]"

definition sha256_final :: "sha_ctx \<Rightarrow> u8 list" where
  "sha256_final c =
     (let c1 = pad_zeros 64 (sha256_update [0x80] c);
          c2 = sha256_update (be64 (bits c)) c1
      in concat (map word_bytes (hv c2)))"

definition sha256 :: "u8 list \<Rightarrow> u8 list" where
  "sha256 d = sha256_final (sha256_update d sha256_init)"

definition hmac_sha256 :: "u8 list \<Rightarrow> u8 list \<Rightarrow> u8 list" where
  "hmac_sha256 key data =
     (let k0 = (if length key > 64 then sha256 key else key);
          k = k0 @ replicate (64 - length k0) 0;
          ipad = map (\<lambda>x. x XOR 0x36) k; opad = map (\<lambda>x. x XOR 0x5c) k;
          inner = sha256_final (sha256_update data (sha256_update ipad sha256_init))
      in sha256_final (sha256_update inner (sha256_update opad sha256_init)))"

definition hexdigits :: string where
  "hexdigits = ''0123456789abcdef''"

definition sha256_hex :: "u8 list \<Rightarrow> string" where
  "sha256_hex d = concat (map (\<lambda>x. [hexdigits ! unat (drop_bit 4 x), hexdigits ! unat (x AND 0xf)]) d)"

text \<open>\<open>ct_equal\<close> over the first \<open>len\<close> bytes: no early exit, the differences or-ed together.\<close>

definition ct_equal :: "u8 list \<Rightarrow> u8 list \<Rightarrow> nat \<Rightarrow> bool" where
  "ct_equal a b len \<longleftrightarrow> fold (\<lambda>i diff. diff OR (a ! i XOR b ! i)) [0..<len] 0 = 0"

section \<open>Constant-time comparison is equality\<close>

lemma or_eq_zero: "(x :: u8) OR y = 0 \<longleftrightarrow> x = 0 \<and> y = 0"
  by (auto simp: bit_eq_iff bit_simps)

lemma xor_eq_zero: "(x :: u8) XOR y = 0 \<longleftrightarrow> x = y"
  by (auto simp: bit_eq_iff bit_simps)

lemma or_fold_zero:
  "fold (\<lambda>i diff. diff OR (a ! i XOR b ! i)) is (d :: u8) = 0 \<longleftrightarrow>
     d = 0 \<and> (\<forall>i\<in>set is. a ! i = b ! i)"
  by (induction "is" arbitrary: d) (auto simp: or_eq_zero xor_eq_zero)

lemma ct_equal_iff: "ct_equal a b len \<longleftrightarrow> (\<forall>i<len. a ! i = b ! i)"
  by (auto simp: ct_equal_def or_fold_zero)

lemma ct_equal_eq: "length a = len \<Longrightarrow> length b = len \<Longrightarrow> ct_equal a b len \<longleftrightarrow> a = b"
  by (auto simp: ct_equal_iff intro: nth_equalityI)

section \<open>The stream does not depend on how it is cut\<close>

definition sha_wf :: "sha_ctx \<Rightarrow> bool" where
  "sha_wf c \<longleftrightarrow> length (blk c) < 64"

text \<open>The specification: absorb whole blocks, keep the rest.\<close>

function absorb :: "u32 list \<Rightarrow> u8 list \<Rightarrow> u32 list \<times> u8 list" where
  "absorb h d = (if length d < 64 then (h, d) else absorb (compress h (take 64 d)) (drop 64 d))"
  by pat_completeness auto
termination
  by (relation "measure (\<lambda>(h, d). length d)") auto

declare absorb.simps [simp del]

lemma absorb_short: "length d < 64 \<Longrightarrow> absorb h d = (h, d)"
  by (simp add: absorb.simps)

lemma absorb_block: "length b = 64 \<Longrightarrow> absorb h (b @ d) = absorb (compress h b) d"
  by (subst absorb.simps) simp

lemma absorb_rest: "length (snd (absorb h d)) < 64"
  by (induction h d rule: absorb.induct) (subst absorb.simps, simp)

lemma absorb_append:
  "absorb h (a @ b) = (case absorb h a of (h', r) \<Rightarrow> absorb h' (r @ b))"
proof (induction h a rule: absorb.induct)
  case (1 h d)
  show ?case
  proof (cases "length d < 64")
    case True
    then show ?thesis by (simp add: absorb_short)
  next
    case False
    then have "absorb h (d @ b) = absorb (compress h (take 64 d)) (drop 64 d @ b)"
      using absorb_block [of "take 64 d" h "drop 64 d @ b"] by (simp add: append_assoc [symmetric])
    with 1 False show ?thesis by (simp add: absorb.simps [of h d])
  qed
qed

lemma update_loop_absorb:
  assumes "sha_wf c"
  shows "update_loop c d = (case absorb (hv c) (blk c @ d) of (h, r) \<Rightarrow> c\<lparr>hv := h, blk := r\<rparr>)"
  using assms
proof (induction c d rule: update_loop.induct)
  case (1 c d)
  show ?case
  proof (cases "d = []")
    case True
    with "1.prems" show ?thesis by (simp add: update_loop.simps sha_wf_def absorb_short)
  next
    case False
    define n where "n = min (64 - length (blk c)) (length d)"
    define b where "b = blk c @ take n d"
    have go: "\<not> (d = [] \<or> length (blk c) \<ge> 64)" using False "1.prems" by (simp add: sha_wf_def)
    have eq: "update_loop c d =
        (if length b = 64 then update_loop (c\<lparr>hv := compress (hv c) b, blk := []\<rparr>) (drop n d)
         else update_loop (c\<lparr>blk := b\<rparr>) (drop n d))"
      using go by (simp only: update_loop.simps [of c d] if_False Let_def n_def b_def)
    have split: "blk c @ d = b @ drop n d" by (simp add: b_def)
    show ?thesis
    proof (cases "length b = 64")
      case True
      have "update_loop c d = update_loop (c\<lparr>hv := compress (hv c) b, blk := []\<rparr>) (drop n d)"
        using eq True by simp
      also have "\<dots> = (case absorb (compress (hv c) b) (drop n d) of (h, r) \<Rightarrow> c\<lparr>hv := h, blk := r\<rparr>)"
        using "1.IH"(1) [OF go n_def b_def True] by (simp add: sha_wf_def split: prod.splits)
      finally show ?thesis using True split by (simp add: absorb_block)
    next
      case False
      then have rest: "drop n d = []" and short: "length b < 64"
        using "1.prems" by (auto simp: n_def b_def sha_wf_def split: if_splits)
      have "update_loop c d = update_loop (c\<lparr>blk := b\<rparr>) (drop n d)"
        using eq False by simp
      then show ?thesis using rest short split by (simp add: update_loop.simps absorb_short)
    qed
  qed
qed

lemma update_wf: "sha_wf c \<Longrightarrow> sha_wf (sha256_update d c)"
  using absorb_rest [of "hv c" "blk c @ d"]
  by (auto simp: sha256_update_def update_loop_absorb sha_wf_def split: prod.splits)

lemma init_wf: "sha_wf sha256_init"
  by (simp add: sha_wf_def sha256_init_def)

lemma update_sel:
  assumes "sha_wf c"
  shows "hv (sha256_update d c) = fst (absorb (hv c) (blk c @ d))"
    and "blk (sha256_update d c) = snd (absorb (hv c) (blk c @ d))"
    and "bits (sha256_update d c) = bits c + of_nat (length d) * 8"
  using assms by (simp_all add: sha256_update_def update_loop_absorb sha_wf_def split: prod.splits)

lemma update_append:
  "sha_wf c \<Longrightarrow> sha256_update b (sha256_update a c) = sha256_update (a @ b) c"
  using absorb_append [of "hv c" "blk c @ a" b] update_wf [of c a]
  by (intro sha_ctx.equality) (auto simp: update_sel algebra_simps split: prod.splits)

text \<open>The padding: zeros until the block holds 56 bytes.\<close>

definition pad_len :: "nat \<Rightarrow> nat" where
  "pad_len n = (119 - n mod 64) mod 64"

lemma pad_zeros_update:
  "sha_wf c \<Longrightarrow> (56 + 64 - length (blk c)) mod 64 \<le> k \<Longrightarrow>
   pad_zeros k c = sha256_update (replicate ((56 + 64 - length (blk c)) mod 64) 0) c"
proof (induction k arbitrary: c)
  case 0
  then show ?case by (simp add: sha256_update_def update_loop.simps)
next
  case (Suc k)
  show ?case
  proof (cases "length (blk c) = 56")
    case True
    then show ?thesis by (simp add: sha256_update_def update_loop.simps)
  next
    case False
    let ?c = "sha256_update [0] c"
    have "length (blk ?c) = (length (blk c) + 1) mod 64"
      using Suc.prems(1) absorb_short [of "blk c @ [0]"] absorb_block [of "blk c @ [0]" "hv c" "[]"]
      by (cases "length (blk c) = 63") (auto simp: update_sel sha_wf_def absorb_short)
    then have m: "(56 + 64 - length (blk c)) mod 64 = Suc ((56 + 64 - length (blk ?c)) mod 64)"
      using False Suc.prems(1) by (cases "length (blk c) = 63") (auto simp: sha_wf_def mod_if)
    have "pad_zeros (Suc k) c = pad_zeros k ?c" using False by simp
    also have "\<dots> = sha256_update (replicate ((56 + 64 - length (blk ?c)) mod 64) 0) ?c"
      using Suc m by (intro Suc.IH) (auto intro: update_wf)
    also have "\<dots> = sha256_update (replicate ((56 + 64 - length (blk c)) mod 64) 0) c"
      using m update_append [OF Suc.prems(1)] by simp
    finally show ?thesis .
  qed
qed

lemma pad_len_sum: "n mod 64 + pad_len n = 55 \<or> n mod 64 + pad_len n = 119"
proof -
  have *: "r + (119 - r) mod 64 = 55 \<or> r + (119 - r) mod 64 = 119" if "r < 64" for r :: nat
  proof (cases "r \<le> 55")
    case True
    then obtain k where "55 = r + k" by (auto simp: le_iff_add)
    then have "119 - r = k + 64" "k < 64" by linarith+
    with \<open>55 = r + k\<close> show ?thesis by simp
  next
    case False
    with that have "119 - r < 64" by linarith
    with that show ?thesis by (simp add: mod_less)
  qed
  show ?thesis unfolding pad_len_def by (rule *) simp
qed

definition sha_pad :: "u8 list \<Rightarrow> u8 list" where
  "sha_pad m = m @ [0x80] @ replicate (pad_len (length m)) 0 @ be64 (of_nat (length m) * 8)"

lemma absorb_rest_length: "length (snd (absorb h d)) = length d mod 64"
proof (induction h d rule: absorb.induct)
  case (1 h d)
  show ?case
  proof (cases "length d < 64")
    case False
    with 1 show ?thesis by (subst absorb.simps) (simp add: le_mod_geq)
  qed (simp add: absorb_short)
qed

lemma sha256_absorb: "sha256 m = concat (map word_bytes (fst (absorb sha_iv (sha_pad m))))"
proof -
  let ?c = "sha256_update m sha256_init"
  let ?c1 = "sha256_update [0x80] ?c"
  have wf: "sha_wf ?c" "sha_wf ?c1" by (simp_all add: update_wf init_wf)
  have c1: "?c1 = sha256_update (m @ [0x80]) sha256_init" by (rule update_append [OF init_wf])
  have "length (blk ?c1) = (length m + 1) mod 64"
    unfolding c1 update_sel [OF init_wf] absorb_rest_length by (simp add: sha256_init_def)
  then have pad: "(56 + 64 - length (blk ?c1)) mod 64 = pad_len (length m)"
    by (simp add: pad_len_def mod_Suc)
  have "pad_zeros 64 ?c1 = sha256_update (replicate (pad_len (length m)) 0) ?c1"
    using pad_zeros_update [OF wf(2), of 64] pad by simp
  then have "sha256_update (be64 (bits ?c)) (pad_zeros 64 ?c1) = sha256_update (sha_pad m) sha256_init"
    unfolding c1 by (simp add: update_append init_wf update_wf sha_pad_def update_sel)
      (simp add: sha256_init_def)
  then show ?thesis
    by (simp add: sha256_def sha256_final_def Let_def update_sel [OF init_wf])
       (simp add: sha256_init_def)
qed

lemma sha_pad_blocks: "length (sha_pad m) mod 64 = 0"
proof -
  have "length (sha_pad m) mod 64 = (length m + (pad_len (length m) + 9)) mod 64"
    by (simp add: sha_pad_def be64_def add.commute add.left_commute)
  also have "\<dots> = (length m mod 64 + (pad_len (length m) + 9)) mod 64"
    by (rule mod_add_left_eq [symmetric])
  also have "\<dots> = (length m mod 64 + pad_len (length m) + 9) mod 64"
    by (simp only: add.assoc)
  also have "\<dots> = 0" using pad_len_sum [of "length m"] by auto
  finally show ?thesis .
qed

text \<open>C7. The digest is the chaining value folded over the blocks of the padded message (the
  message, a one bit, zeros to 56 bytes, the 64-bit length), whole blocks with nothing left over.\<close>

theorem sha256_spec:
  "sha256 m = concat (map word_bytes (fst (absorb sha_iv (sha_pad m)))) \<and> length (sha_pad m) mod 64 = 0"
  using sha256_absorb sha_pad_blocks by blast

text \<open>A stream hashed in any number of pieces gives the digest of the whole.\<close>

theorem sha256_chunks:
  "sha256_final (fold sha256_update pieces sha256_init) = sha256 (concat pieces)"
proof -
  have "fold sha256_update pieces c = sha256_update (concat pieces) c" if "sha_wf c" for c
    using that
  proof (induction pieces arbitrary: c)
    case Nil
    then show ?case by (simp add: sha256_update_def update_loop.simps)
  next
    case (Cons p ps)
    then show ?case by (simp add: update_wf update_append)
  qed
  then show ?thesis by (simp add: sha256_def init_wf)
qed

lemma length_compress: "length (compress h p) = 8"
  by (simp add: compress_def split: prod.splits)

lemma absorb_length: "length h = 8 \<Longrightarrow> length (fst (absorb h d)) = 8"
proof (induction h d rule: absorb.induct)
  case (1 h d)
  then show ?case by (subst absorb.simps) (simp add: length_compress)
qed

lemma length_sha256 [simp]: "length (sha256 m) = 32"
proof -
  have "length (concat (map word_bytes ws)) = 4 * length ws" for ws
    by (induction ws) (simp_all add: word_bytes_def)
  moreover have "length (fst (absorb sha_iv (sha_pad m))) = 8"
    by (rule absorb_length) (simp add: sha_iv_def)
  ultimately show ?thesis using sha256_absorb [of m] by simp
qed

lemma hexdigits_lowhex: "n < 16 \<Longrightarrow> is_lowhex (hexdigits ! n)"
  by (auto simp: hexdigits_def numeral_eq_Suc less_Suc_eq char_class_defs)

end
