(* ===== verification/Session.thy ===== *)
theory Session
  imports Sha256 Cnum
begin

text \<open>
  Panel login sessions and the login throttle (\<open>src/session.c\<close>). The session table is the
  array of sixteen slots with its \<open>used\<close> flags; the store is a file whose lines are written and
  read back by \<open>session_line\<close> and \<open>parse_line\<close>. The clock, the bytes of \<open>/dev/urandom\<close> and the
  outcome of writing the store file are inputs. \<open>time_t\<close> is an integer here.
\<close>

definition session_id_hex :: nat where "session_id_hex = 64"
definition session_idle_s :: int where "session_idle_s = 12 * 3600"
definition max_sessions :: nat where "max_sessions = 16"
definition max_addrs :: nat where "max_addrs = 32"
definition session_save_s :: int where "session_save_s = 300"
definition login_fails :: int where "login_fails = 5"
definition login_lock_s :: int where "login_lock_s = 30"
definition session_cookie :: string where "session_cookie = ''ffsid''"

record session =
  sid :: string
  sname :: string
  created :: int
  seen :: int
  used :: bool

definition no_session :: session where
  "no_session = \<lparr>sid = [], sname = [], created = 0, seen = 0, used = False\<rparr>"

datatype save_io = Save_Ok | Save_NoOpen | Save_Failed

record sess_state =
  slots :: "session list"
  store_path :: bool
  sfile :: "string option"
  saved_at :: int

text \<open>\<open>random_hex\<close>: \<open>None\<close> when \<open>/dev/urandom\<close> gives fewer bytes than asked.\<close>

definition random_hex :: "u8 list \<Rightarrow> nat \<Rightarrow> string option" where
  "random_hex raw hexlen =
     (if hexlen div 2 > session_id_hex div 2 \<or> length raw \<noteq> hexlen div 2 then None
      else Some (sha256_hex raw))"

definition expired :: "int \<Rightarrow> session \<Rightarrow> bool" where
  "expired t s \<longleftrightarrow> used s \<and> t - seen s > session_idle_s"

definition expire :: "int \<Rightarrow> session list \<Rightarrow> session list" where
  "expire t ss = map (\<lambda>s. if expired t s then no_session else s) ss"

definition id_well_formed :: "string \<Rightarrow> bool" where
  "id_well_formed ident \<longleftrightarrow> length ident = session_id_hex \<and> list_all is_lowhex ident"

subsection \<open>The store\<close>

definition session_line :: "session \<Rightarrow> string" where
  "session_line s = sid s @ '' '' @ show_int (created s) @ '' '' @ show_int (seen s) @ '' '' @ sname s @ [newline]"

definition store_text :: "session list \<Rightarrow> string" where
  "store_text ss = concat (map session_line (filter used ss))"

definition save :: "save_io \<Rightarrow> int \<Rightarrow> sess_state \<Rightarrow> sess_state" where
  "save io t st =
     (if \<not> store_path st then st
      else case io of
        Save_NoOpen \<Rightarrow> st
      | Save_Ok \<Rightarrow> st\<lparr>sfile := Some (store_text (slots st)), saved_at := t\<rparr>
      | Save_Failed \<Rightarrow> st\<lparr>saved_at := t\<rparr>)"

text \<open>\<open>fgets\<close> with a buffer of \<open>n + 1\<close> bytes: up to \<open>n\<close> characters, through the newline.\<close>

fun fgets :: "nat \<Rightarrow> string \<Rightarrow> string \<times> string" where
  "fgets 0 s = ([], s)"
| "fgets n [] = ([], [])"
| "fgets (Suc n) (c # s) = (if c = newline then ([c], s) else (let r = fgets n s in (c # fst r, snd r)))"

lemma fgets_split: "fst (fgets n s) @ snd (fgets n s) = s"
  by (induction n s rule: fgets.induct) (auto simp: Let_def)

lemma fgets_shorter: "s \<noteq> [] \<Longrightarrow> length (snd (fgets (Suc n) s)) < length s"
  using fgets_split [of "Suc n" s] by (cases s) (auto simp: Let_def split: if_splits dest: arg_cong [where f = length])

text \<open>\<open>sscanf(line, "%64s %ld %ld %39[^\n]", ...)\<close>: \<open>None\<close> when fewer than three items matched.\<close>

definition scan_long :: "string \<Rightarrow> (int \<times> string) option" where
  "scan_long s = (let r = strtol10 s in if length (snd r) = length s then None else Some r)"

definition parse_line :: "string \<Rightarrow> (string \<times> int \<times> int \<times> string) option" where
  "parse_line line =
     (let s = dropWhile is_cspace line;
          ident = take 64 (takeWhile (\<lambda>c. \<not> is_cspace c) s);
          r = drop (length ident) s
      in if ident = [] then None
         else case scan_long r of None \<Rightarrow> None
         | Some (cr, r2) \<Rightarrow> (case scan_long r2 of None \<Rightarrow> None
           | Some (se, r3) \<Rightarrow>
               Some (ident, cr, se, take 39 (takeWhile (\<lambda>c. c \<noteq> newline) (dropWhile is_cspace r3)))))"

function load_lines :: "int \<Rightarrow> nat \<Rightarrow> string \<Rightarrow> session list" where
  "load_lines t n text =
     (if n = 0 \<or> text = [] then []
      else let l = fgets 199 text in
        case parse_line (fst l) of
          Some (ident, cr, se, nm) \<Rightarrow>
            if \<not> id_well_formed ident \<or> t - se > session_idle_s then load_lines t n (snd l)
            else \<lparr>sid = ident, sname = nm, created = cr, seen = se, used = True\<rparr> # load_lines t (n - 1) (snd l)
        | None \<Rightarrow> load_lines t n (snd l))"
  by pat_completeness auto
termination
  by (relation "measure (\<lambda>(t, n, text). length text)")
     (auto simp: numeral_eq_Suc fgets_shorter simp del: fgets.simps)

declare load_lines.simps [simp del]

definition load :: "int \<Rightarrow> string option \<Rightarrow> session list" where
  "load t f = (case f of None \<Rightarrow> replicate max_sessions no_session
     | Some text \<Rightarrow> (let ss = load_lines t max_sessions text
                     in ss @ replicate (max_sessions - length ss) no_session))"

definition session_set_store :: "int \<Rightarrow> bool \<Rightarrow> sess_state \<Rightarrow> sess_state" where
  "session_set_store t path st =
     (let st1 = st\<lparr>store_path := path\<rparr> in if path then st1\<lparr>slots := load t (sfile st1)\<rparr> else st1)"

subsection \<open>Create, look up, end\<close>

fun first_free :: "session list \<Rightarrow> nat option" where
  "first_free [] = None"
| "first_free (s # ss) = (if \<not> used s then Some 0 else map_option Suc (first_free ss))"

definition oldest :: "session list \<Rightarrow> nat" where
  "oldest ss = fold (\<lambda>i j. if seen (ss ! i) < seen (ss ! j) then i else j) [1..<length ss] 0"

definition session_create ::
  "string option \<Rightarrow> u8 list \<Rightarrow> int \<Rightarrow> save_io \<Rightarrow> sess_state \<Rightarrow> (string \<times> sess_state) option" where
  "session_create name raw t io st =
     (case random_hex raw session_id_hex of None \<Rightarrow> None
      | Some ident \<Rightarrow>
          (let ss = expire t (slots st);
               slot = (case first_free ss of Some i \<Rightarrow> i | None \<Rightarrow> oldest ss);
               new = \<lparr>sid = ident, sname = fit 40 (case name of None \<Rightarrow> [] | Some n \<Rightarrow> n),
                      created = t, seen = t, used = True\<rparr>
           in Some (ident, save io t (st\<lparr>slots := ss[slot := new]\<rparr>))))"

definition str_bytes :: "string \<Rightarrow> u8 list" where
  "str_bytes s = map (\<lambda>c. of_nat (byte c)) s"

definition id_match :: "string \<Rightarrow> session \<Rightarrow> bool" where
  "id_match ident s \<longleftrightarrow> used s \<and> ct_equal (str_bytes (sid s)) (str_bytes ident) session_id_hex"

definition session_valid :: "string \<Rightarrow> int \<Rightarrow> save_io \<Rightarrow> sess_state \<Rightarrow> bool \<times> sess_state" where
  "session_valid ident t io st =
     (if \<not> id_well_formed ident then (False, st)
      else
        let gone = list_ex (expired t) (slots st);
            ss = expire t (slots st);
            found = list_ex (id_match ident) ss;
            st1 = st\<lparr>slots := map (\<lambda>s. if id_match ident s then s\<lparr>seen := t\<rparr> else s) ss\<rparr>
        in (found, if gone \<or> (found \<and> t - saved_at st \<ge> session_save_s) then save io t st1 else st1))"

definition session_end :: "string option \<Rightarrow> int \<Rightarrow> save_io \<Rightarrow> sess_state \<Rightarrow> sess_state" where
  "session_end ident t io st =
     save io t (st\<lparr>slots := map (\<lambda>s.
       if used s \<and> (case ident of None \<Rightarrow> True
                    | Some i \<Rightarrow> id_well_formed i \<and> ct_equal (str_bytes (sid s)) (str_bytes i) session_id_hex)
       then no_session else s) (slots st)\<rparr>)"

subsection \<open>The cookie\<close>

definition cookie_sep :: "char \<Rightarrow> bool" where
  "cookie_sep c \<longleftrightarrow> c = space \<or> c = CHR '';''"

function cookie_scan :: "string \<Rightarrow> string option" where
  "cookie_scan p =
     (if p = [] then None
      else
        let p1 = dropWhile cookie_sep p in
        if starts_with session_cookie p1 \<and> drop (length session_cookie) p1 \<noteq> [] \<and>
           hd (drop (length session_cookie) p1) = CHR ''=''
        then (let v = takeWhile (\<lambda>c. \<not> cookie_sep c) (drop (length session_cookie + 1) p1)
              in if length v = session_id_hex then (if id_well_formed v then Some v else None) else None)
        else cookie_scan (dropWhile (\<lambda>c. c \<noteq> CHR '';'') p1))"
  by pat_completeness auto
termination
proof (relation "measure length")
  fix p p1 :: string
  assume p: "p \<noteq> []" and p1: "p1 = dropWhile cookie_sep p"
  show "(dropWhile (\<lambda>c. c \<noteq> CHR '';'') p1, p) \<in> measure length"
  proof (cases p1)
    case Nil
    with p show ?thesis by simp
  next
    case (Cons c cs)
    then have "c \<noteq> CHR '';''" using p1 hd_dropWhile [of cookie_sep p] by (auto simp: cookie_sep_def)
    then have "length (dropWhile (\<lambda>c. c \<noteq> CHR '';'') p1) < length p1"
      using Cons length_dropWhile_le [of "\<lambda>c. c \<noteq> CHR '';''" cs] by simp
    also have "\<dots> \<le> length p" by (simp add: p1 length_dropWhile_le)
    finally show ?thesis by simp
  qed
qed auto

declare cookie_scan.simps [simp del]

definition session_from_cookie :: "string option \<Rightarrow> string option" where
  "session_from_cookie cookie = (case cookie of None \<Rightarrow> None | Some c \<Rightarrow> cookie_scan c)"

definition session_cookie_set :: "string \<Rightarrow> string" where
  "session_cookie_set ident = session_cookie @ ''='' @ ident @
     ''; Path=/; HttpOnly; Secure; SameSite=Strict; Max-Age='' @ show_int session_idle_s"

definition session_cookie_clear :: string where
  "session_cookie_clear = session_cookie @ ''=; Path=/; HttpOnly; Secure; SameSite=Strict; Max-Age=0''"

section \<open>Facts about the table\<close>

lemma str_bytes_inject: "str_bytes a = str_bytes b \<longleftrightarrow> a = b"
proof -
  have "inj (\<lambda>c. of_nat (byte c) :: u8)"
  proof (rule injI)
    fix c d assume "(of_nat (byte c) :: u8) = of_nat (byte d)"
    then have "unat (of_nat (byte c) :: u8) = unat (of_nat (byte d) :: u8)" by simp
    then have "byte c = byte d" by (simp add: byte_def unat_of_nat)
    then show "c = d" by (simp add: byte_def)
  qed
  then show ?thesis unfolding str_bytes_def by (simp add: inj_map_eq_map)
qed

lemma id_match_iff:
  "length (sid s) = session_id_hex \<Longrightarrow> length ident = session_id_hex \<Longrightarrow>
   id_match ident s \<longleftrightarrow> used s \<and> sid s = ident"
  using str_bytes_inject [of "sid s" ident] by (simp add: id_match_def ct_equal_eq str_bytes_def)

definition sess_inv :: "sess_state \<Rightarrow> bool" where
  "sess_inv st \<longleftrightarrow> length (slots st) = max_sessions \<and>
     (\<forall>s\<in>set (slots st). used s \<longrightarrow> id_well_formed (sid s) \<and> length (sname s) < 40)"

lemma save_sel [simp]: "slots (save io t st) = slots st" "store_path (save io t st) = store_path st"
  by (auto simp: save_def split: save_io.splits)

lemma first_free_Some: "first_free ss = Some i \<Longrightarrow> i < length ss \<and> \<not> used (ss ! i)"
  by (induction ss arbitrary: i) (auto split: if_splits)

lemma first_free_None: "first_free ss = None \<longleftrightarrow> (\<forall>s\<in>set ss. used s)"
  by (induction ss) auto

lemma oldest_fold:
  "\<forall>i\<in>set is. i < length ss \<Longrightarrow> j < length ss \<Longrightarrow>
   (let r = fold (\<lambda>i j. if seen (ss ! i) < seen (ss ! j) then i else j) is j
    in r < length ss \<and> seen (ss ! r) \<le> seen (ss ! j) \<and> (\<forall>i\<in>set is. seen (ss ! r) \<le> seen (ss ! i)))"
  by (induction "is" arbitrary: j) (fastforce simp: Let_def)+

lemma oldest_min:
  assumes "ss \<noteq> []"
  shows "oldest ss < length ss \<and> (\<forall>i<length ss. seen (ss ! oldest ss) \<le> seen (ss ! i))"
proof -
  have "set [1..<length ss] = {1..<length ss}" by simp
  with oldest_fold [of "[1..<length ss]" ss 0] assms
  have *: "oldest ss < length ss" "seen (ss ! oldest ss) \<le> seen (ss ! 0)"
      "\<forall>i\<in>{1..<length ss}. seen (ss ! oldest ss) \<le> seen (ss ! i)"
    by (auto simp: oldest_def Let_def)
  then show ?thesis by (metis One_nat_def Suc_leI atLeastLessThan_iff neq0_conv)
qed

lemma random_hex_wf: "random_hex raw session_id_hex = Some ident \<Longrightarrow> id_well_formed ident"
proof -
  have len: "length (sha256_hex r) = 2 * length r" for r
    by (induction r) (simp_all add: sha256_hex_def)
  have nib: "unat (x AND 0xf) < 16" "unat (drop_bit 4 x) < 16" for x :: u8
  proof -
    show "unat (x AND 0xf) < 16"
    proof -
      have "x AND 0xf \<le> (0xf :: u8)" by (rule word_and_le1)
      then show ?thesis by (simp add: word_le_nat_alt)
    qed
    show "unat (drop_bit 4 x) < 16"
      using unsigned_less [of x, where 'a = nat] by (simp add: unat_drop_bit_eq drop_bit_eq_div unat_div less_mult_imp_div_less)
  qed
  have chars: "c \<in> set (sha256_hex r) \<Longrightarrow> is_lowhex c" for c r
    by (auto simp: sha256_hex_def hexdigits_lowhex nib)
  assume "random_hex raw session_id_hex = Some ident"
  then have "ident = sha256_hex raw" "length raw = session_id_hex div 2"
    by (auto simp: random_hex_def split: if_splits)
  then show ?thesis
    by (auto simp: id_well_formed_def len session_id_hex_def list_all_iff dest: chars)
qed

lemma expire_slots: "s \<in> set (expire t ss) \<Longrightarrow> used s \<Longrightarrow> s \<in> set ss \<and> \<not> expired t s"
  by (auto simp: expire_def no_session_def split: if_splits)

lemma length_expire [simp]: "length (expire t ss) = length ss"
  by (simp add: expire_def)

lemma session_create_inv:
  assumes "sess_inv st" "session_create name raw t io st = Some (ident, st')"
  shows "sess_inv st'"
proof -
  have "id_well_formed ident" using assms(2) by (auto simp: session_create_def Let_def random_hex_wf split: option.splits)
  with assms show ?thesis
    by (auto simp: session_create_def sess_inv_def Let_def max_sessions_def
             dest!: set_update_subset_insert [THEN subsetD] expire_slots
             split: option.splits) (simp_all add: fit_def)
qed

lemma session_valid_inv: "sess_inv st \<Longrightarrow> sess_inv (snd (session_valid ident t io st))"
  by (auto simp: session_valid_def sess_inv_def Let_def split: if_splits dest!: expire_slots)

lemma session_end_inv: "sess_inv st \<Longrightarrow> sess_inv (session_end ident t io st)"
  by (auto simp: session_end_def sess_inv_def no_session_def split: if_splits)

datatype sess_op =
    Create "string option" "u8 list" int save_io
  | Check string int save_io
  | End_s "string option" int save_io

fun sess_step :: "sess_op \<Rightarrow> sess_state \<Rightarrow> sess_state" where
  "sess_step (Create name raw t io) st =
     (case session_create name raw t io st of None \<Rightarrow> st | Some (_, st') \<Rightarrow> st')"
| "sess_step (Check ident t io) st = snd (session_valid ident t io st)"
| "sess_step (End_s ident t io) st = session_end ident t io st"

interpretation sess_machine: invariant_machine sess_step sess_inv
proof
  fix st op assume "sess_inv st"
  then show "sess_inv (sess_step op st)"
    by (cases op) (auto intro: session_create_inv session_valid_inv session_end_inv
                        simp del: split_paired_All split: option.splits)
qed

section \<open>Properties\<close>

text \<open>A presented id logs in exactly when it has the form of an id and some live session carries
  it that was seen within the last twelve hours.\<close>

theorem session_valid_iff:
  assumes "sess_inv st"
  shows "fst (session_valid ident t io st) \<longleftrightarrow>
    id_well_formed ident \<and> (\<exists>s\<in>set (slots st). used s \<and> sid s = ident \<and> t - seen s \<le> session_idle_s)"
proof (cases "id_well_formed ident")
  case True
  have m: "id_match ident s \<longleftrightarrow> used s \<and> sid s = ident" if "s \<in> set (slots st)" for s
  proof (cases "used s")
    case u: True
    with assms that have "length (sid s) = session_id_hex" by (auto simp: sess_inv_def id_well_formed_def)
    with True show ?thesis by (simp add: id_match_iff id_well_formed_def)
  qed (simp add: id_match_def)
  have "list_ex (id_match ident) (expire t (slots st)) \<longleftrightarrow>
        (\<exists>s\<in>set (slots st). \<not> expired t s \<and> id_match ident s)"
    by (auto simp: list_ex_iff expire_def id_match_def no_session_def)
  also have "\<dots> \<longleftrightarrow> (\<exists>s\<in>set (slots st). used s \<and> sid s = ident \<and> t - seen s \<le> session_idle_s)"
    using m by (intro bex_cong) (auto simp: expired_def)
  finally show ?thesis using True by (simp add: session_valid_def Let_def)
qed (simp add: session_valid_def)

theorem session_valid_iff_witness:
  "\<not> fst (session_valid (replicate 64 (CHR ''a'')) 43201 Save_Ok
     \<lparr>slots = \<lparr>sid = replicate 64 (CHR ''a''), sname = ''op'', created = 0, seen = 0, used = True\<rparr>
                 # replicate 15 no_session, store_path = False, sfile = None, saved_at = 0\<rparr>)"
  by (subst session_valid_iff)
     (auto simp: sess_inv_def max_sessions_def id_well_formed_def session_id_hex_def no_session_def
                 session_idle_s_def list_all_iff char_class_defs)

text \<open>A session just made is valid for twelve hours of idling, and making it ends no session
  that is still live unless all sixteen places are taken; then it ends one that has been idle
  longest.\<close>

theorem session_create_keeps:
  assumes inv: "sess_inv st" and cr: "session_create name raw t io st = Some (ident, st')"
  shows "(\<forall>t' io'. t' - t \<le> session_idle_s \<longrightarrow> fst (session_valid ident t' io' st')) \<and>
    (\<forall>s\<in>set (slots st). used s \<and> \<not> expired t s \<and> s \<notin> set (slots st') \<longrightarrow>
       (\<forall>s'\<in>set (slots st). used s' \<and> \<not> expired t s' \<and> seen s \<le> seen s'))"
proof -
  define ss where "ss = expire t (slots st)"
  define slot where "slot = (case first_free ss of Some i \<Rightarrow> i | None \<Rightarrow> oldest ss)"
  define new where "new = \<lparr>sid = ident, sname = fit 40 (case name of None \<Rightarrow> [] | Some n \<Rightarrow> n),
      created = t, seen = t, used = True\<rparr>"
  have st': "slots st' = ss[slot := new]" and wf: "id_well_formed ident"
    using cr by (auto simp: session_create_def ss_def slot_def new_def Let_def random_hex_wf split: option.splits)
  have len: "length ss = max_sessions" "ss \<noteq> []"
    using inv by (auto simp: ss_def sess_inv_def max_sessions_def simp flip: length_0_conv)
  have slot: "slot < length ss"
    using oldest_min [OF len(2)] by (auto simp: slot_def dest: first_free_Some split: option.splits)
  have new_in: "new \<in> set (slots st')" using slot by (simp add: st' set_update_memI)
  have v: "fst (session_valid ident t' io' st')" if "t' - t \<le> session_idle_s" for t' io'
    using session_valid_iff [OF session_create_inv [OF inv cr]] wf new_in that by (force simp: new_def)
  have e: "used s' \<and> \<not> expired t s' \<and> seen s \<le> seen s'"
    if s: "s \<in> set (slots st)" "used s" "\<not> expired t s" "s \<notin> set (slots st')"
      and s': "s' \<in> set (slots st)" for s s'
  proof -
    have "s \<in> set ss" using s by (force simp: ss_def expire_def)
    then obtain i where i: "i < length ss" "ss ! i = s" by (auto simp: in_set_conv_nth)
    with s(4) st' slot have i_slot: "i = slot"
      by (metis in_set_conv_nth length_list_update nth_list_update_neq)
    with i s(2) i_slot have "first_free ss = None"
      using first_free_Some [of ss slot] by (cases "first_free ss") (auto simp: slot_def)
    then have sl: "slot = oldest ss" by (simp add: slot_def)
    from \<open>first_free ss = None\<close> have all: "\<forall>x\<in>set ss. used x" by (simp add: first_free_None)
    have "s' \<in> set ss \<and> used s' \<and> \<not> expired t s'"
    proof -
      have "(if expired t s' then no_session else s') \<in> set ss" using s' by (force simp: ss_def expire_def)
      with all show ?thesis by (auto simp: no_session_def expired_def split: if_splits)
    qed
    moreover from this obtain k where "k < length ss" "ss ! k = s'" by (auto simp: in_set_conv_nth)
    then have "seen s \<le> seen s'" using oldest_min [OF len(2)] sl i_slot i by auto
    ultimately show ?thesis by simp
  qed
  show ?thesis using v e by blast
qed

theorem session_create_keeps_witness:
  "\<exists>ident st'. session_create (Some ''op'') (replicate 32 7) 5 Save_Ok
       \<lparr>slots = replicate 16 no_session, store_path = False, sfile = None, saved_at = 0\<rparr> = Some (ident, st') \<and>
     fst (session_valid ident 100 Save_Ok st')"
proof -
  let ?st = "\<lparr>slots = replicate 16 no_session, store_path = False, sfile = None, saved_at = 0\<rparr>"
  have inv: "sess_inv ?st" by (auto simp: sess_inv_def max_sessions_def no_session_def)
  have "random_hex (replicate 32 7) session_id_hex \<noteq> None"
    by (simp add: random_hex_def session_id_hex_def)
  then obtain ident st' where c: "session_create (Some ''op'') (replicate 32 7) 5 Save_Ok ?st = Some (ident, st')"
    by (fastforce simp: session_create_def Let_def)
  have "fst (session_valid ident 100 Save_Ok st')"
    using session_create_keeps [OF inv c] by (simp add: session_idle_s_def)
  with c show ?thesis by blast
qed

text \<open>A logged-out id is refused, and ending every session refuses every id.\<close>

theorem session_end_refused:
  assumes "sess_inv st" and "e = None \<or> e = Some ident"
  shows "\<not> fst (session_valid ident t' io' (session_end e t io st))"
proof -
  have *: "s \<in> set (slots (session_end e t io st)) \<Longrightarrow> used s \<Longrightarrow> sid s = ident \<Longrightarrow> \<not> id_well_formed ident" for s
    using assms by (auto simp: session_end_def no_session_def ct_equal_iff split: if_splits)
  then show ?thesis
    using session_valid_iff [OF session_end_inv [OF assms(1)]] by blast
qed

theorem session_end_refused_witness:
  "\<not> fst (session_valid (replicate 64 (CHR ''a'')) 1 Save_Ok (session_end None 1 Save_Ok
     \<lparr>slots = \<lparr>sid = replicate 64 (CHR ''a''), sname = ''op'', created = 0, seen = 0, used = True\<rparr>
                 # replicate 15 no_session, store_path = False, sfile = None, saved_at = 0\<rparr>))"
  by (rule session_end_refused)
     (auto simp: sess_inv_def max_sessions_def id_well_formed_def session_id_hex_def no_session_def
                 list_all_iff char_class_defs)

subsection \<open>The store reads back\<close>

definition storable :: "int \<Rightarrow> session \<Rightarrow> bool" where
  "storable t s \<longleftrightarrow> used s \<and> id_well_formed (sid s) \<and> t - seen s \<le> session_idle_s \<and>
     - (2 ^ 31) \<le> created s \<and> created s < 2 ^ 31 \<and> - (2 ^ 31) \<le> seen s \<and> seen s < 2 ^ 31 \<and>
     length (sname s) < 40 \<and> newline \<notin> set (sname s) \<and>
     (sname s = [] \<or> \<not> is_cspace (hd (sname s)))"

lemma lowhex_not_space: "is_lowhex c \<Longrightarrow> \<not> is_cspace c"
  by (auto simp: is_cspace_def char_class_defs)

lemma scan_long_show:
  assumes "- (2 ^ 31) \<le> i" "i < 2 ^ 31"
  shows "scan_long (CHR '' '' # show_int i @ CHR '' '' # r) = Some (i, CHR '' '' # r)"
  using strtol10_show_int [OF assms, of "CHR '' '' # r" "''  ''"] strtol10_show_int [OF assms, of "CHR '' '' # r" "'' ''"]
    show_int_hd [of i]
  by (auto simp: scan_long_def Let_def is_cspace_def is_dig_def digit_of_def lower_c_def char_class_defs)

lemma parse_session_line:
  assumes "storable t s"
  shows "parse_line (session_line s) = Some (sid s, created s, seen s, sname s)"
proof -
  let ?nm = "sname s @ [newline]"
  let ?r = "CHR '' '' # show_int (created s) @ CHR '' '' # show_int (seen s) @ CHR '' '' # ?nm"
  have len: "length (sid s) = 64" and hex: "\<forall>c\<in>set (sid s). \<not> is_cspace c"
    using assms by (auto simp: storable_def id_well_formed_def session_id_hex_def list_all_iff lowhex_not_space)
  obtain c cs where c: "sid s = c # cs" using len by (cases "sid s") auto
  have line: "session_line s = sid s @ ?r" by (simp add: session_line_def)
  have d: "dropWhile is_cspace (session_line s) = session_line s" using c hex line by simp
  have sp: "is_cspace (CHR '' '')" by (simp add: is_cspace_def byte_def)
  have tk: "takeWhile (\<lambda>c. \<not> is_cspace c) (session_line s) = sid s"
    using hex sp line by (simp add: takeWhile_append2)
  have nm: "takeWhile (\<lambda>c. c \<noteq> newline) (dropWhile is_cspace (CHR '' '' # ?nm)) = sname s"
  proof (cases "sname s")
    case Nil
    then show ?thesis using sp by (simp add: is_cspace_def byte_def)
  next
    case (Cons a as)
    with assms have "\<not> is_cspace a" "\<forall>c\<in>set (sname s). c \<noteq> newline" by (auto simp: storable_def)
    with Cons sp show ?thesis by (simp add: takeWhile_append2 del: takeWhile_append1)
  qed
  have s1: "scan_long ?r = Some (created s, CHR '' '' # show_int (seen s) @ CHR '' '' # ?nm)"
    and s2: "scan_long (CHR '' '' # show_int (seen s) @ CHR '' '' # ?nm) = Some (seen s, CHR '' '' # ?nm)"
    using assms by (simp_all add: scan_long_show storable_def)
  have "length (sname s) \<le> 39" using assms by (simp add: storable_def)
  then show ?thesis
    unfolding parse_line_def Let_def d tk using c len s1 s2 nm
    by (simp add: line del: dropWhile.simps(2))
qed

lemma fgets_line:
  "newline \<notin> set l \<Longrightarrow> length l < n \<Longrightarrow> fgets n (l @ newline # r) = (l @ [newline], r)"
proof (induction l arbitrary: n)
  case Nil
  then show ?case by (cases n) auto
next
  case (Cons c l)
  then show ?case by (cases n) (auto simp: Let_def)
qed

lemma show_int_no_newline: "newline \<notin> set (show_int i)"
proof -
  have "newline \<notin> set (digits_of n)" for n
    using digits_of_digits [of n] by (auto simp: char_class_defs)
  then show ?thesis by (simp add: show_int_def)
qed

lemma load_line:
  assumes "storable t s" "0 < n"
  shows "load_lines t n (session_line s @ r) = s # load_lines t (n - 1) r"
proof -
  let ?l = "sid s @ '' '' @ show_int (created s) @ '' '' @ show_int (seen s) @ '' '' @ sname s"
  have len: "length (sid s) = 64" and hex: "newline \<notin> set (sid s)"
    using assms by (auto simp: storable_def id_well_formed_def session_id_hex_def list_all_iff char_class_defs)
  have "length ?l < 199"
    using len assms show_int_length [of "created s"] show_int_length [of "seen s"] by (simp add: storable_def)
  moreover have "newline \<notin> set ?l"
    using hex assms by (simp add: storable_def show_int_no_newline)
  ultimately have f: "fgets 199 (session_line s @ r) = (session_line s, r)"
    using fgets_line [of ?l 199 r] by (simp add: session_line_def del: fgets.simps)
  have ne: "session_line s @ r \<noteq> []" by (simp add: session_line_def)
  show ?thesis
    using assms ne parse_session_line [OF assms(1)] by (subst load_lines.simps)
      (simp add: f storable_def Let_def del: fgets.simps)
qed

text \<open>A restart of the daemon keeps everyone logged in: the store written from a table reads
  back as exactly its live sessions, in order, every field with them.\<close>

theorem session_store_roundtrip:
  assumes "\<forall>s\<in>set ss. used s \<longrightarrow> storable t s" and "length ss = max_sessions"
  shows "filter used (load t (Some (store_text ss))) = filter used ss"
proof -
  have "load_lines t n (concat (map session_line xs)) = xs"
    if "\<forall>s\<in>set xs. storable t s" "length xs \<le> n" for xs n
    using that
  proof (induction xs arbitrary: n)
    case Nil
    then show ?case by (simp add: load_lines.simps)
  next
    case (Cons x xs)
    then show ?case by (simp add: load_line)
  qed
  then have "load_lines t max_sessions (store_text ss) = filter used ss"
    using assms length_filter_le [of used ss] by (simp add: store_text_def)
  then show ?thesis by (simp add: load_def Let_def no_session_def)
qed

theorem session_store_roundtrip_witness:
  "filter used (load 100 (Some (store_text
     (\<lparr>sid = replicate 64 (CHR ''a''), sname = ''op'', created = 7, seen = 99, used = True\<rparr> # replicate 15 no_session))))
   = [\<lparr>sid = replicate 64 (CHR ''a''), sname = ''op'', created = 7, seen = 99, used = True\<rparr>]"
  by (subst session_store_roundtrip)
     (auto simp: storable_def id_well_formed_def session_id_hex_def max_sessions_def no_session_def
                 session_idle_s_def is_cspace_def list_all_iff char_class_defs)

end
