(* ===== verification/Throttle.thy ===== *)
theory Throttle
  imports Session
begin

text \<open>
  The login throttle (\<open>src/session.c\<close>, \<open>addr_slot_locked\<close> to \<open>login_succeeded\<close>): a table of
  thirty-two client addresses, each with its failures so far and the time its lock ends. The
  properties are stated of the account one address has in the table (\<open>acct\<close>), which every
  operation updates as \<open>bump\<close> says and leaves alone for the other addresses.
\<close>

record addr_slot =
  aname :: string
  fails :: int
  until :: int
  aused :: bool

definition no_addr :: addr_slot where
  "no_addr = \<lparr>aname = [], fails = 0, until = 0, aused = False\<rparr>"

definition no_addrs :: "addr_slot list" where
  "no_addrs = replicate max_addrs no_addr"

fun find_addr :: "string \<Rightarrow> addr_slot list \<Rightarrow> nat option" where
  "find_addr addr [] = None"
| "find_addr addr (a # as) =
     (if aused a \<and> aname a = addr then Some 0 else map_option Suc (find_addr addr as))"

fun free_addr :: "addr_slot list \<Rightarrow> nat option" where
  "free_addr [] = None"
| "free_addr (a # as) = (if \<not> aused a then Some 0 else map_option Suc (free_addr as))"

definition oldest_addr :: "addr_slot list \<Rightarrow> nat" where
  "oldest_addr as = fold (\<lambda>i j. if until (as ! i) < until (as ! j) then i else j) [1..<length as] 0"

text \<open>\<open>addr_slot_locked(addr, 1)\<close>: the address's slot, made if it has none.\<close>

definition make_slot :: "string \<Rightarrow> addr_slot list \<Rightarrow> nat \<times> addr_slot list" where
  "make_slot addr as =
     (case find_addr addr as of
        Some i \<Rightarrow> (i, as)
      | None \<Rightarrow>
          (let i = (case free_addr as of Some i \<Rightarrow> i | None \<Rightarrow> oldest_addr as)
           in (i, as[i := \<lparr>aname = fit 64 addr, fails = 0, until = 0, aused = True\<rparr>])))"

definition login_locked :: "string \<Rightarrow> int \<Rightarrow> addr_slot list \<Rightarrow> bool \<times> int" where
  "login_locked addr t as =
     (case find_addr addr as of
        None \<Rightarrow> (False, 0)
      | Some i \<Rightarrow> if until (as ! i) > t then (True, until (as ! i) - t) else (False, 0))"

definition login_failed :: "string \<Rightarrow> int \<Rightarrow> addr_slot list \<Rightarrow> addr_slot list" where
  "login_failed addr t as =
     (let i = fst (make_slot addr as); as1 = snd (make_slot addr as);
          a0 = as1 ! i;
          a1 = (if until a0 \<noteq> 0 \<and> until a0 \<le> t then a0\<lparr>fails := 0\<rparr> else a0);
          a2 = a1\<lparr>fails := fails a1 + 1\<rparr>;
          a3 = (if fails a2 \<ge> login_fails then a2\<lparr>until := t + login_lock_s, fails := 0\<rparr> else a2)
      in as1[i := a3])"

definition login_succeeded :: "string \<Rightarrow> addr_slot list \<Rightarrow> addr_slot list" where
  "login_succeeded addr as =
     (case find_addr addr as of None \<Rightarrow> as | Some i \<Rightarrow> as[i := no_addr])"

section \<open>One address's account\<close>

definition acct :: "string \<Rightarrow> addr_slot list \<Rightarrow> int \<times> int" where
  "acct addr as = (case find_addr addr as of None \<Rightarrow> (0, 0) | Some i \<Rightarrow> (fails (as ! i), until (as ! i)))"

definition bump :: "int \<Rightarrow> int \<times> int \<Rightarrow> int \<times> int" where
  "bump t fu =
     (let f = (if snd fu \<noteq> 0 \<and> snd fu \<le> t then 0 else fst fu) + 1
      in if f \<ge> login_fails then (0, t + login_lock_s) else (f, snd fu))"

lemma find_addr_Some:
  "find_addr addr as = Some i \<Longrightarrow>
   i < length as \<and> aused (as ! i) \<and> aname (as ! i) = addr"
  by (induction as arbitrary: i) (auto split: if_splits)

lemma find_addr_None: "find_addr addr as = None \<longleftrightarrow> (\<forall>a\<in>set as. \<not> (aused a \<and> aname a = addr))"
  by (induction as) auto

lemma free_addr_Some: "free_addr as = Some i \<Longrightarrow> i < length as \<and> \<not> aused (as ! i)"
  by (induction as arbitrary: i) (auto split: if_splits)

text \<open>Writing the slot an address has, under the same name, moves no other address's slot.\<close>

lemma find_addr_update_same:
  assumes "find_addr addr as = Some i" "aused b" "aname b = addr"
  shows "find_addr x (as[i := b]) = find_addr x as"
  using assms
proof (induction as arbitrary: i)
  case (Cons a as)
  then show ?case by (auto split: if_splits)
qed simp

lemma find_addr_new:
  assumes "find_addr addr as = None" "free_addr as = Some i" "aused b" "aname b = addr"
  shows "find_addr addr (as[i := b]) = Some i"
    and "x \<noteq> addr \<Longrightarrow> find_addr x (as[i := b]) = find_addr x as"
proof -
  show "find_addr addr (as[i := b]) = Some i"
    using assms by (induction as arbitrary: i) (auto split: if_splits)
  show "find_addr x (as[i := b]) = find_addr x as" if "x \<noteq> addr"
    using that assms by (induction as arbitrary: i) (auto split: if_splits)
qed

text \<open>The table has a place for the address: its own, or a free one.\<close>

definition has_room :: "string \<Rightarrow> addr_slot list \<Rightarrow> bool" where
  "has_room addr as \<longleftrightarrow> length addr < 64 \<and> (find_addr addr as \<noteq> None \<or> free_addr as \<noteq> None)"

lemma make_slot_room:
  assumes "has_room addr as" and "make_slot addr as = (i, as1)"
  shows "i < length as1" "find_addr addr as1 = Some i" "acct addr as1 = acct addr as"
    and "x \<noteq> addr \<Longrightarrow> acct x as1 = acct x as"
proof -
  have "i < length as1 \<and> find_addr addr as1 = Some i \<and> acct addr as1 = acct addr as \<and>
        (x \<noteq> addr \<longrightarrow> acct x as1 = acct x as)"
  proof (cases "find_addr addr as")
    case (Some j)
    with assms(2) show ?thesis by (auto simp: make_slot_def dest: find_addr_Some)
  next
    case None
    with assms(1) obtain j where j: "free_addr as = Some j" by (auto simp: has_room_def)
    define b where "b = \<lparr>aname = addr, fails = 0, until = 0, aused = True\<rparr>"
    have b: "aused b" "aname b = addr" by (simp_all add: b_def)
    have as1: "as1 = as[j := b]" "i = j"
      using None j assms by (auto simp: make_slot_def b_def has_room_def fit_id)
    have lt: "j < length as" "\<not> aused (as ! j)" using free_addr_Some [OF j] by auto
    have "acct x as1 = acct x as" if "x \<noteq> addr"
    proof (cases "find_addr x as")
      case (Some k)
      then have "k \<noteq> j" using lt find_addr_Some by auto
      with Some that show ?thesis
        using find_addr_new(2) [OF None j b that] by (simp add: acct_def as1)
    qed (use find_addr_new(2) [OF None j b that] in \<open>simp add: acct_def as1\<close>)
    then show ?thesis
      using find_addr_new(1) [OF None j b] None lt by (simp add: acct_def as1 b_def)
  qed
  then show "i < length as1" "find_addr addr as1 = Some i" "acct addr as1 = acct addr as"
    and "x \<noteq> addr \<Longrightarrow> acct x as1 = acct x as" by auto
qed

lemma acct_login_failed:
  assumes "has_room addr as"
  shows "acct addr (login_failed addr t as) = bump t (acct addr as)"
    and "x \<noteq> addr \<Longrightarrow> acct x (login_failed addr t as) = acct x as"
    and "has_room addr (login_failed addr t as)"
proof -
  obtain i as1 where mk: "make_slot addr as = (i, as1)" by (cases "make_slot addr as")
  note room = make_slot_room [OF assms mk]
  obtain a3 where lf: "login_failed addr t as = as1[i := a3]"
    and a3: "aused a3" "aname a3 = addr" "(fails a3, until a3) = bump t (fails (as1 ! i), until (as1 ! i))"
    using find_addr_Some [OF room(2)] mk by (auto simp: login_failed_def Let_def bump_def)
  have fnd: "find_addr x (as1[i := a3]) = find_addr x as1" for x
    by (rule find_addr_update_same [OF room(2) a3(1,2)])
  show "acct addr (login_failed addr t as) = bump t (acct addr as)"
    using room a3(3) by (simp add: lf acct_def fnd flip: room(3))
  show "acct x (login_failed addr t as) = acct x as" if "x \<noteq> addr"
  proof -
    have "k \<noteq> i" if "find_addr x as1 = Some k" for k
      using find_addr_Some [OF that] find_addr_Some [OF room(2)] \<open>x \<noteq> addr\<close> by auto
    then have "acct x (as1[i := a3]) = acct x as1"
      by (auto simp: acct_def fnd split: option.splits)
    then show ?thesis using room(4) [OF that] lf by simp
  qed
  show "has_room addr (login_failed addr t as)"
    using assms room(2) by (simp add: has_room_def lf fnd)
qed

lemma acct_fold:
  "has_room addr as \<Longrightarrow> acct addr (fold (login_failed addr) ts as) = fold bump ts (acct addr as)"
  by (induction ts arbitrary: as) (auto simp: acct_login_failed)

lemma login_locked_acct: "fst (login_locked addr t as) \<longleftrightarrow> snd (acct addr as) > t \<and> find_addr addr as \<noteq> None"
  by (auto simp: login_locked_def acct_def split: option.splits)

lemma fold_room: "has_room addr as \<Longrightarrow> ts \<noteq> [] \<Longrightarrow> find_addr addr (fold (login_failed addr) ts as) \<noteq> None"
proof (induction ts arbitrary: as)
  case (Cons t ts)
  obtain i as1 where mk: "make_slot addr as = (i, as1)" by (cases "make_slot addr as")
  note room = make_slot_room [OF Cons.prems(1) mk]
  have "find_addr addr (login_failed addr t as) \<noteq> None"
    using find_addr_Some [OF room(2)] find_addr_update_same [OF room(2)] room(2) mk
    by (auto simp: login_failed_def Let_def)
  with Cons show ?case by (cases ts) (auto simp: acct_login_failed)
qed simp

text \<open>Five failures in a row from an address the table has nothing against lock it for thirty
  seconds from the last of them, and lock no other address.\<close>

theorem five_failures_lock:
  assumes "has_room addr as" and "acct addr as = (0, 0)"
  shows "(fst (login_locked addr t (fold (login_failed addr) [t1, t2, t3, t4, t5] as)) \<longleftrightarrow> t < t5 + 30) \<and>
         (x \<noteq> addr \<longrightarrow> acct x (fold (login_failed addr) [t1, t2, t3, t4, t5] as) = acct x as)"
proof -
  have "acct addr (fold (login_failed addr) [t1, t2, t3, t4, t5] as) = (0, t5 + 30)"
    unfolding acct_fold [OF assms(1)] assms(2) by (simp add: bump_def login_fails_def login_lock_s_def)
  moreover have "find_addr addr (fold (login_failed addr) [t1, t2, t3, t4, t5] as) \<noteq> None"
    by (rule fold_room [OF assms(1)]) simp
  moreover have "acct x (fold (login_failed addr) ts as) = acct x as" if "x \<noteq> addr" for ts
    using assms(1) that by (induction ts arbitrary: as) (auto simp: acct_login_failed)
  ultimately show ?thesis using login_locked_acct by (metis snd_conv)
qed

theorem five_failures_lock_witness:
  "fst (login_locked ''10.0.0.7'' 34 (fold (login_failed ''10.0.0.7'') [1, 2, 3, 4, 5] no_addrs))"
proof -
  have "has_room ''10.0.0.7'' no_addrs \<and> acct ''10.0.0.7'' no_addrs = (0, 0)"
    by (simp add: has_room_def acct_def no_addrs_def max_addrs_def no_addr_def numeral_eq_Suc)
  then show ?thesis using five_failures_lock [of "''10.0.0.7''" no_addrs 34 1 2 3 4 5] by simp
qed

text \<open>Once an address's first lock has run out, no number of further failures ever locks it
  again: the end of the old lock stays in its slot, so each failure after it counts as the
  first.\<close>

theorem expired_lock_never_locks_again:
  assumes "has_room addr as" and "snd (acct addr as) = u" and "u \<noteq> 0"
    and "\<forall>t\<in>set ts. u \<le> t" and "u \<le> t"
  shows "\<not> fst (login_locked addr t (fold (login_failed addr) ts as))"
proof -
  have "snd (fold bump ts fu) = u" if "snd fu = u" for fu :: "int \<times> int"
    using that assms(4)
  proof (induction ts arbitrary: fu)
    case (Cons s ts)
    then have "snd (bump s fu) = u" using assms(3) by (simp add: bump_def login_fails_def)
    with Cons show ?case by simp
  qed simp
  then have "snd (acct addr (fold (login_failed addr) ts as)) = u"
    using assms(1,2) by (simp add: acct_fold)
  with assms(5) show ?thesis by (simp add: login_locked_acct)
qed

theorem expired_lock_never_locks_again_witness:
  "\<not> fst (login_locked ''10.0.0.7'' 141
     (fold (login_failed ''10.0.0.7'') (replicate 1000 140)
        (\<lparr>aname = ''10.0.0.7'', fails = 0, until = 35, aused = True\<rparr> # replicate 31 no_addr)))"
  by (rule expired_lock_never_locks_again) (auto simp: has_room_def acct_def)

end
