(* ===== verification/Tokens.thy ===== *)
theory Tokens
  imports Session Json
begin

text \<open>
  Scoped tokens (\<open>src/tokens.c\<close>): the closed list of capabilities, the store of at most sixteen
  tokens kept as their hashes, the judgement of a presented token, and the extension host's own
  credential. A capability set is the code's bit set. \<open>store\<close> is \<open>store[0..count-1]\<close>; the file
  holds one line per token. Whether a write of the file succeeds, the clocks and the bytes of
  \<open>/dev/urandom\<close> are inputs.
\<close>

definition tokens_max :: nat where "tokens_max = 16"
definition tokens_name_max :: nat where "tokens_name_max = 40"
definition tokens_prefix :: string where "tokens_prefix = ''fft_''"
definition tokens_text_len :: nat where "tokens_text_len = 36"
definition tokens_id_hex :: nat where "tokens_id_hex = 8"
definition flush_every_s :: real where "flush_every_s = 600"

definition CAPS :: "string list" where
  "CAPS = [''machine.read'', ''events'', ''camera.lid'', ''camera.head'', ''motion.jog'', ''motion.job'']"

record token =
  tid :: string
  thash :: "u8 list"
  tname :: string
  tcaps :: u32
  tcreated :: int
  tlast :: int

record tok_state =
  store :: "token list"
  dirty :: bool
  last_flush :: real
  tfile :: "string option"
  host_tok :: string
  host_caps :: u32

definition cap_index :: "string \<Rightarrow> nat option" where
  "cap_index w = map_option fst (find (\<lambda>(i, c). c = w) (enumerate 0 CAPS))"

definition tokens_cap_known :: "string option \<Rightarrow> bool" where
  "tokens_cap_known c = (case c of None \<Rightarrow> False | Some w \<Rightarrow> cap_index w \<noteq> None)"

definition list_sep :: "char \<Rightarrow> bool" where
  "list_sep c \<longleftrightarrow> c = space \<or> c = CHR '',''"

function caps_loop :: "u32 \<Rightarrow> string \<Rightarrow> string + u32" where
  "caps_loop acc p =
     (let p1 = dropWhile list_sep p; w = takeWhile (\<lambda>c. \<not> list_sep c) p1 in
      if p = [] \<or> w = [] then Inr acc
      else case cap_index w of
        None \<Rightarrow> Inl (take 40 w)
      | Some i \<Rightarrow> caps_loop (acc OR push_bit i 1) (drop (length w) p1))"
  by pat_completeness auto
termination
proof (relation "measure (\<lambda>(acc, p). length p)")
  fix acc p p1 w i
  assume p1: "p1 = dropWhile list_sep p" and w: "w = takeWhile (\<lambda>c. \<not> list_sep c) p1"
    and ne: "\<not> (p = [] \<or> w = [])"
  have "length (drop (length w) p1) < length p1"
    using ne w by (cases p1) auto
  also have "\<dots> \<le> length p" by (simp add: p1 length_dropWhile_le)
  finally show "((acc OR push_bit i 1, drop (length w) p1), acc, p) \<in> measure (\<lambda>(acc, p). length p)"
    by simp
qed auto

declare caps_loop.simps [simp del]

definition caps_parse :: "string option \<Rightarrow> string + u32" where
  "caps_parse csv = caps_loop 0 (case csv of None \<Rightarrow> [] | Some s \<Rightarrow> s)"

definition held :: "u32 \<Rightarrow> string list" where
  "held s = map snd (filter (\<lambda>(i, c). s AND push_bit i 1 \<noteq> 0) (enumerate 0 CAPS))"

fun comma :: "string list \<Rightarrow> string" where
  "comma [] = []"
| "comma [x] = x"
| "comma (x # y # zs) = x @ '','' @ comma (y # zs)"

definition caps_text :: "u32 \<Rightarrow> string \<Rightarrow> string" where
  "caps_text s quote = comma (map (\<lambda>c. quote @ c @ quote) (held s))"

definition hex_ok :: "string \<Rightarrow> bool" where
  "hex_ok s \<longleftrightarrow> list_all is_lowhex s"

definition name_ok :: "string option \<Rightarrow> bool" where
  "name_ok name = (case name of None \<Rightarrow> False
     | Some n \<Rightarrow> \<not> (length n = 0 \<or> length n > tokens_name_max \<or> hd n = space \<or> last n = space) \<and>
         list_all (\<lambda>c. is_alnum c \<or> c \<in> set '' ._-'') n)"

subsection \<open>The file\<close>

definition token_line :: "token \<Rightarrow> string" where
  "token_line k = tid k @ '':'' @ sha256_hex (thash k) @ '':'' @ show_int (tcreated k) @ '':'' @
     show_int (tlast k) @ '':'' @ caps_text (tcaps k) [] @ '':'' @ tname k @ [newline]"

text \<open>The line cut at its first five colons; \<open>None\<close> for the rest when there are fewer.\<close>

fun fields :: "nat \<Rightarrow> string \<Rightarrow> string list \<times> string option" where
  "fields 0 p = ([], Some p)"
| "fields (Suc n) p =
     (let f = takeWhile (\<lambda>c. c \<noteq> CHR '':'') p; r = dropWhile (\<lambda>c. c \<noteq> CHR '':'') p
      in if r = [] then ([f], None) else (let x = fields n (tl r) in (f # fst x, snd x)))"

definition hex_nibble :: "char \<Rightarrow> nat" where
  "hex_nibble c = the (digit_of 16 c)"

fun hex_bytes :: "string \<Rightarrow> u8 list" where
  "hex_bytes (a # b # s) = of_nat (16 * hex_nibble a + hex_nibble b) # hex_bytes s"
| "hex_bytes _ = []"

definition parse_token :: "string \<Rightarrow> token option" where
  "parse_token raw =
     (let line = takeWhile (\<lambda>c. c \<noteq> cret \<and> c \<noteq> newline) raw; fs = fields 5 line in
      case snd fs of None \<Rightarrow> None
      | Some nm \<Rightarrow>
        (let f = fst fs in
         if length f \<noteq> 5 \<or> length (f ! 0) \<noteq> tokens_id_hex \<or> \<not> hex_ok (f ! 0) \<or>
            length (f ! 1) \<noteq> 64 \<or> \<not> hex_ok (f ! 1) then None
         else case caps_parse (Some (f ! 4)) of Inl _ \<Rightarrow> None
         | Inr s \<Rightarrow>
             if s = 0 \<or> \<not> name_ok (Some nm) then None
             else Some \<lparr>tid = f ! 0, thash = hex_bytes (f ! 1), tname = nm, tcaps = s,
                        tcreated = atol (f ! 2), tlast = atol (f ! 3)\<rparr>))"

function load_tokens :: "nat \<Rightarrow> string \<Rightarrow> token list" where
  "load_tokens n text =
     (if n = 0 \<or> text = [] then []
      else let l = fgets 511 text in
        case parse_token (fst l) of
          None \<Rightarrow> load_tokens n (snd l)
        | Some k \<Rightarrow> k # load_tokens (n - 1) (snd l))"
  by pat_completeness auto
termination
  by (relation "measure (\<lambda>(n, text). length text)")
     (auto simp: numeral_eq_Suc fgets_shorter simp del: fgets.simps)

declare load_tokens.simps [simp del]

definition tokens_init :: "real \<Rightarrow> tok_state \<Rightarrow> tok_state" where
  "tokens_init tick st =
     st\<lparr>store := (case tfile st of None \<Rightarrow> [] | Some text \<Rightarrow> load_tokens tokens_max text), last_flush := tick\<rparr>"

text \<open>\<open>None\<close> is the -1 of a store that cannot be written; nothing of the state moves then.\<close>

definition save_tokens :: "bool \<Rightarrow> real \<Rightarrow> tok_state \<Rightarrow> tok_state option" where
  "save_tokens io tick st =
     (if io \<and> list_all (\<lambda>k. length (token_line k) < 512) (store st)
      then Some (st\<lparr>tfile := Some (concat (map token_line (store st))), dirty := False, last_flush := tick\<rparr>)
      else None)"

definition tokens_flush :: "bool \<Rightarrow> real \<Rightarrow> tok_state \<Rightarrow> tok_state" where
  "tokens_flush io tick st = (if dirty st then or_else (save_tokens io tick st) st else st)"

subsection \<open>The check\<close>

definition tokens_looks_scoped :: "string option \<Rightarrow> bool" where
  "tokens_looks_scoped p = (case p of None \<Rightarrow> False | Some s \<Rightarrow> starts_with tokens_prefix s)"

definition token_hash :: "string \<Rightarrow> u8 list" where
  "token_hash s = sha256 (str_bytes s)"

definition find_token :: "string \<Rightarrow> token list \<Rightarrow> nat option" where
  "find_token s ks = map_option fst (find (\<lambda>(i, k). ct_equal (token_hash s) (thash k) 32) (enumerate 0 ks))"

text \<open>A capability a route asks for: \<open>.any\<close> is any capability under the prefix.\<close>

definition caps_grant :: "u32 \<Rightarrow> string \<Rightarrow> bool" where
  "caps_grant s cap =
     (let n = length cap; any = (n > 4 \<and> drop (n - 4) cap = ''.any'')
      in list_ex (\<lambda>c. if any then take (n - 3) c = take (n - 3) cap else c = cap) (held s))"

datatype judged = No_Token | Lacks | Grants

definition tokens_check ::
  "string option \<Rightarrow> string option \<Rightarrow> int \<Rightarrow> real \<Rightarrow> bool \<Rightarrow> tok_state \<Rightarrow> judged \<times> string \<times> tok_state" where
  "tokens_check presented cap now tick io st =
     (case presented of None \<Rightarrow> (No_Token, [], st)
      | Some s \<Rightarrow>
        if \<not> tokens_looks_scoped presented \<or> length s \<noteq> tokens_text_len \<or>
           \<not> hex_ok (drop (length tokens_prefix) s) then (No_Token, [], st)
        else case find_token s (store st) of
          None \<Rightarrow> (No_Token, [], st)
        | Some i \<Rightarrow>
            let k = store st ! i in
            if (case cap of None \<Rightarrow> False | Some c \<Rightarrow> caps_grant (tcaps k) c)
            then let st1 = st\<lparr>store := (store st)[i := k\<lparr>tlast := now\<rparr>], dirty := True\<rparr>
                 in (Grants, tid k,
                     if tick - last_flush st > flush_every_s then or_else (save_tokens io tick st1) st1 else st1)
            else (Lacks, tid k, st))"

definition tokens_holds_only :: "string option \<Rightarrow> string \<Rightarrow> tok_state \<Rightarrow> bool" where
  "tokens_holds_only presented prefix st =
     (case presented of None \<Rightarrow> False
      | Some s \<Rightarrow>
        if \<not> tokens_looks_scoped presented \<or> length s \<noteq> tokens_text_len then False
        else case find_token s (store st) of None \<Rightarrow> False
          | Some i \<Rightarrow> list_all (starts_with prefix) (held (tcaps (store st ! i))))"

subsection \<open>Create and revoke\<close>

definition hex_of_random :: "u8 list \<Rightarrow> nat \<Rightarrow> string option" where
  "hex_of_random raw n = (if n \<le> 16 \<and> length raw = n then Some (sha256_hex raw) else None)"

definition squoted :: "char \<Rightarrow> string" where
  "squoted c = [CHR 0x27, c, CHR 0x27]"

definition name_rule :: string where
  "name_rule = ''name is 1 to 40 of letters, digits, spaces, '' @ squoted (CHR ''.'') @ '', '' @
     squoted (CHR ''_'') @ '' and '' @ squoted (CHR ''-'')"

definition tokens_create ::
  "string option \<Rightarrow> string option \<Rightarrow> u8 list \<Rightarrow> u8 list \<Rightarrow> int \<Rightarrow> real \<Rightarrow> bool \<Rightarrow> tok_state \<Rightarrow>
   string + (string \<times> string \<times> tok_state)" where
  "tokens_create name caps raw1 raw2 now tick io st =
     (if \<not> name_ok name then Inl name_rule
      else case caps_parse caps of
        Inl bad \<Rightarrow> Inl (bad @ '' is not a capability a token can hold'')
      | Inr s \<Rightarrow>
        if s = 0 then Inl ''a token holds at least one capability''
        else case (hex_of_random raw1 16, hex_of_random raw2 (tokens_id_hex div 2)) of
          (Some h, Some i) \<Rightarrow>
            let text = tokens_prefix @ h;
                k = \<lparr>tid = i, thash = token_hash text, tname = the name, tcaps = s, tcreated = now, tlast = 0\<rparr>;
                same_name = list_ex (\<lambda>x. tname x = the name) (store st);
                same_id = list_ex (\<lambda>x. tname x \<noteq> the name \<and> tid x = i) (store st)
            in if length (store st) \<ge> tokens_max then Inl ''the machine holds 16 tokens at most: revoke one first''
               else if same_name then Inl (''a token named '' @ the name @ '' exists already'')
               else if same_id then Inl ''try again''
               else (case save_tokens io tick (st\<lparr>store := store st @ [k]\<rparr>) of
                       Some st' \<Rightarrow> Inr (text, i, st')
                     | None \<Rightarrow> Inl ''cannot write the token store'')
        | _ \<Rightarrow> Inl ''cannot read /dev/urandom'')"

definition tokens_revoke :: "string option \<Rightarrow> real \<Rightarrow> bool \<Rightarrow> tok_state \<Rightarrow> string + tok_state" where
  "tokens_revoke ident tick io st =
     (case ident of None \<Rightarrow> Inl ''no such token''
      | Some i \<Rightarrow>
        case find (\<lambda>(n, k). tid k = i) (enumerate 0 (store st)) of
          None \<Rightarrow> Inl ''no such token''
        | Some (n, _) \<Rightarrow>
            (case save_tokens io tick (st\<lparr>store := take n (store st) @ drop (Suc n) (store st)\<rparr>) of
               Some st' \<Rightarrow> Inr st'
             | None \<Rightarrow> Inl ''cannot write the token store''))"

subsection \<open>The extension host's credential\<close>

definition tokens_host_caps :: string where
  "tokens_host_caps = ''motion.jog,motion.job''"

text \<open>The credential is set before its file is written; \<open>wrote\<close> says whether the file was.\<close>

definition tokens_host_mint :: "u8 list \<Rightarrow> bool \<Rightarrow> tok_state \<Rightarrow> bool \<times> tok_state" where
  "tokens_host_mint raw wrote st =
     (case caps_parse (Some tokens_host_caps) of
        Inl _ \<Rightarrow> (False, st)
      | Inr c \<Rightarrow> (case hex_of_random raw 16 of
            None \<Rightarrow> (False, st)
          | Some h \<Rightarrow> (wrote, st\<lparr>host_tok := tokens_prefix @ h, host_caps := c\<rparr>)))"

definition tokens_host_check :: "string option \<Rightarrow> string option \<Rightarrow> tok_state \<Rightarrow> bool" where
  "tokens_host_check presented cap st =
     (case (presented, cap) of
        (Some s, Some c) \<Rightarrow> host_tok st \<noteq> [] \<and> length s = tokens_text_len \<and>
           ct_equal (str_bytes s) (str_bytes (host_tok st)) tokens_text_len \<and> caps_grant (host_caps st) c
      | _ \<Rightarrow> False)"

section \<open>Facts\<close>

lemma find_enum:
  "find (\<lambda>(i, k). P k) (enumerate n xs) = Some (i, k) \<Longrightarrow> n \<le> i \<and> i < n + length xs \<and> xs ! (i - n) = k \<and> P k"
  by (induction xs arbitrary: n) (fastforce simp: nth_Cons' split: if_splits)+

lemma find_enum_None: "find (\<lambda>(i, k). P k) (enumerate n xs) = None \<longleftrightarrow> (\<forall>k\<in>set xs. \<not> P k)"
  by (induction xs arbitrary: n) auto

definition token_wf :: "token \<Rightarrow> bool" where
  "token_wf k \<longleftrightarrow> length (tid k) = tokens_id_hex \<and> hex_ok (tid k) \<and> length (thash k) = 32 \<and>
     name_ok (Some (tname k)) \<and> tcaps k \<noteq> 0"

definition tok_inv :: "tok_state \<Rightarrow> bool" where
  "tok_inv st \<longleftrightarrow> length (store st) \<le> tokens_max \<and> (\<forall>k\<in>set (store st). token_wf k) \<and>
     distinct (map tname (store st)) \<and> distinct (map tid (store st))"

lemma save_tokens_Some:
  "save_tokens io tick st = Some st' \<Longrightarrow>
   st' = st\<lparr>tfile := Some (concat (map token_line (store st))), dirty := False, last_flush := tick\<rparr>"
  by (auto simp: save_tokens_def split: if_splits)

lemma save_tokens_store [simp]: "store (or_else (save_tokens io tick st) st) = store st"
  by (auto simp: or_else_def save_tokens_def)

lemma length_token_hash [simp]: "length (token_hash s) = 32"
  by (simp add: token_hash_def)

lemma find_token_Some:
  assumes "tok_inv st" "find_token s (store st) = Some i"
  shows "i < length (store st) \<and> thash (store st ! i) = token_hash s"
proof -
  obtain k where k: "find (\<lambda>(i, k). ct_equal (token_hash s) (thash k) 32) (enumerate 0 (store st)) = Some (i, k)"
    using assms(2) by (auto simp: find_token_def)
  have e: "i < length (store st)" "ct_equal (token_hash s) (thash (store st ! i)) 32"
    using find_enum [OF k] by auto
  then have "store st ! i \<in> set (store st)" by simp
  with assms(1) have "length (thash (store st ! i)) = 32" by (auto simp: tok_inv_def token_wf_def)
  with e show ?thesis by (simp add: ct_equal_eq)
qed

lemma find_token_None:
  assumes "tok_inv st"
  shows "find_token s (store st) = None \<longleftrightarrow> (\<forall>k\<in>set (store st). thash k \<noteq> token_hash s)"
proof -
  have "ct_equal (token_hash s) (thash k) 32 \<longleftrightarrow> token_hash s = thash k" if "k \<in> set (store st)" for k
    using assms that by (intro ct_equal_eq) (auto simp: tok_inv_def token_wf_def)
  then show ?thesis by (auto simp: find_token_def find_enum_None)
qed

definition shaped :: "string \<Rightarrow> bool" where
  "shaped s \<longleftrightarrow> starts_with tokens_prefix s \<and> length s = tokens_text_len \<and> hex_ok (drop (length tokens_prefix) s)"

lemma tokens_check_grants:
  assumes "tok_inv st" "distinct (map thash (store st))"
  shows "fst (tokens_check (Some s) cap now tick io st) = Grants \<longleftrightarrow>
     shaped s \<and> (\<exists>k\<in>set (store st). thash k = token_hash s \<and> (\<exists>c. cap = Some c \<and> caps_grant (tcaps k) c))"
proof (cases "find_token s (store st)")
  case None
  with find_token_None [OF assms(1), of s] have "\<forall>k\<in>set (store st). thash k \<noteq> token_hash s" by simp
  with None show ?thesis by (auto simp: tokens_check_def)
next
  case (Some i)
  note i = find_token_Some [OF assms(1) Some]
  have uniq: "k = store st ! i" if "k \<in> set (store st)" "thash k = token_hash s" for k
    using that i assms(2) by (metis distinct_map inj_on_eq_iff nth_mem)
  then have "(\<exists>k\<in>set (store st). thash k = token_hash s \<and> (\<exists>c. cap = Some c \<and> caps_grant (tcaps k) c)) \<longleftrightarrow>
     (\<exists>c. cap = Some c \<and> caps_grant (tcaps (store st ! i)) c)"
    using i nth_mem by blast
  then show ?thesis using Some
    by (auto simp: tokens_check_def shaped_def tokens_looks_scoped_def Let_def split: option.splits)
qed

lemma tokens_check_No_Token:
  assumes "tok_inv st"
  shows "fst (tokens_check (Some s) cap now tick io st) = No_Token \<longleftrightarrow>
     \<not> shaped s \<or> (\<forall>k\<in>set (store st). thash k \<noteq> token_hash s)"
  using find_token_None [OF assms, of s]
  by (auto simp: tokens_check_def shaped_def tokens_looks_scoped_def Let_def split: option.splits)

lemma tok_inv_store_cong: "store st = store st' \<Longrightarrow> tok_inv st = tok_inv st'"
  by (simp add: tok_inv_def)

lemma tok_inv_used:
  assumes "tok_inv st" "i < length (store st)" "store st' = (store st)[i := (store st ! i)\<lparr>tlast := now\<rparr>]"
  shows "tok_inv st'"
proof -
  have "map tname (store st') = map tname (store st)" "map tid (store st') = map tid (store st)"
    using assms by (simp_all add: map_update list_update_same_conv)
  moreover have "\<forall>k\<in>set (store st'). token_wf k"
  proof
    fix k assume "k \<in> set (store st')"
    then have "k = (store st ! i)\<lparr>tlast := now\<rparr> \<or> k \<in> set (store st)"
      using assms(3) set_update_subset_insert [of "store st" i] by auto
    moreover have "store st ! i \<in> set (store st)" using assms(2) by simp
    ultimately show "token_wf k" using assms(1) by (auto simp: tok_inv_def token_wf_def)
  qed
  ultimately show ?thesis using assms by (auto simp: tok_inv_def)
qed

lemma tokens_check_inv [preserve]:
  "tok_inv st \<Longrightarrow> tok_inv (snd (snd (tokens_check p cap now tick io st)))"
proof (cases p)
  case (Some s)
  assume inv: "tok_inv st"
  show ?thesis
  proof (cases "find_token s (store st)")
    case None
    with Some inv show ?thesis by (simp add: tokens_check_def)
  next
    case f: (Some i)
    have lt: "i < length (store st)" using find_token_Some [OF inv f] by simp
    have "tok_inv st1" if "store st1 = (store st)[i := (store st ! i)\<lparr>tlast := now\<rparr>]" for st1
      using tok_inv_used [OF inv lt that] .
    with Some f inv show ?thesis
      by (simp add: tokens_check_def Let_def split: option.split)
  qed
qed (simp add: tokens_check_def)

lemma sha256_hex_props: "length (sha256_hex r) = 2 * length r" "hex_ok (sha256_hex r)"
proof -
  show "length (sha256_hex r) = 2 * length r"
    by (induction r) (simp_all add: sha256_hex_def)
  have "unat (x AND 0xf) < 16" "unat (drop_bit 4 x) < 16" for x :: u8
  proof -
    have "x AND 0xf \<le> (0xf::u8)" by (rule word_and_le1)
    then show "unat (x AND 0xf) < 16" by (simp add: word_le_nat_alt)
    show "unat (drop_bit 4 x) < 16"
      using unsigned_less [of x, where 'a = nat] by (simp add: unat_drop_bit_eq drop_bit_eq_div unat_div less_mult_imp_div_less)
  qed
  then show "hex_ok (sha256_hex r)"
    by (auto simp: hex_ok_def sha256_hex_def list_all_iff hexdigits_lowhex)
qed

lemma hex_of_random_Some:
  "hex_of_random raw n = Some h \<Longrightarrow> length h = 2 * n \<and> hex_ok h"
  by (auto simp: hex_of_random_def sha256_hex_props split: if_splits)

lemma tokens_create_Inr:
  assumes "tokens_create name caps raw1 raw2 now tick io st = Inr (text, i, st')"
  shows "\<exists>n s. name = Some n \<and> caps_parse caps = Inr s \<and> s \<noteq> 0 \<and> name_ok (Some n) \<and>
     shaped text \<and> length i = tokens_id_hex \<and> hex_ok i \<and>
     store st' = store st @ [\<lparr>tid = i, thash = token_hash text, tname = n, tcaps = s, tcreated = now, tlast = 0\<rparr>] \<and>
     length (store st) < tokens_max \<and>
     (\<forall>x\<in>set (store st). tname x \<noteq> n \<and> tid x \<noteq> i)"
  using assms
  by (auto simp: tokens_create_def Let_def list_ex_iff shaped_def tokens_text_len_def tokens_prefix_def
        tokens_id_hex_def name_ok_def starts_with_def
      split: if_splits sum.splits option.splits dest!: hex_of_random_Some save_tokens_Some)

lemma tokens_create_inv [preserve]:
  assumes "tok_inv st" "tokens_create name caps raw1 raw2 now tick io st = Inr (text, i, st')"
  shows "tok_inv st'"
  using tokens_create_Inr [OF assms(2)] assms(1)
  by (auto simp: tok_inv_def token_wf_def)

lemma tokens_revoke_Inr:
  assumes "tokens_revoke (Some i) tick io st = Inr st'"
  shows "\<exists>n<length (store st). tid (store st ! n) = i \<and>
     store st' = take n (store st) @ drop (Suc n) (store st)"
proof -
  obtain n k where f: "find (\<lambda>(n, k). tid k = i) (enumerate 0 (store st)) = Some (n, k)"
    and s: "save_tokens io tick (st\<lparr>store := take n (store st) @ drop (Suc n) (store st)\<rparr>) = Some st'"
    using assms by (auto simp: tokens_revoke_def split: option.splits)
  have "n < length (store st)" "tid (store st ! n) = i" using find_enum [OF f] by auto
  moreover have "store st' = take n (store st) @ drop (Suc n) (store st)" using save_tokens_Some [OF s] by simp
  ultimately show ?thesis by blast
qed

lemma tokens_revoke_inv [preserve]:
  assumes "tok_inv st" "tokens_revoke ident tick io st = Inr st'"
  shows "tok_inv st'"
proof -
  obtain i where i: "ident = Some i" using assms(2) by (cases ident) (auto simp: tokens_revoke_def)
  obtain n where n: "n < length (store st)" and s: "store st' = take n (store st) @ drop (Suc n) (store st)"
    using tokens_revoke_Inr assms(2) i by blast
  have split: "store st = take n (store st) @ [store st ! n] @ drop (Suc n) (store st)"
    using n id_take_nth_drop by force
  have "set (store st') \<subseteq> set (store st)"
    unfolding s by (auto dest: in_set_takeD in_set_dropD)
  moreover have "distinct (map f (store st'))" if "distinct (map f (store st))" for f :: "token \<Rightarrow> string"
    using that unfolding s by (subst (asm) split) auto
  moreover have "length (store st') \<le> length (store st)" unfolding s using n by simp
  ultimately show ?thesis using assms(1) by (auto simp: tok_inv_def)
qed

lemma set_without:
  assumes "distinct xs" "n < length xs"
  shows "set (take n xs @ drop (Suc n) xs) = set xs - {xs ! n}"
proof -
  have s: "xs = take n xs @ xs ! n # drop (Suc n) xs" using assms(2) id_take_nth_drop by metis
  have "distinct (take n xs @ xs ! n # drop (Suc n) xs)" using assms(1) arg_cong [OF s, of distinct] by blast
  moreover note arg_cong [OF s, of set]
  ultimately show ?thesis by auto
qed

section \<open>Properties\<close>

text \<open>A presented text is granted a capability exactly when it has the shape of a token, a stored
  token keeps its hash, and that token's set grants the capability asked for: no other text, no
  other token, and no route that names no capability.\<close>

theorem tokens_check_iff:
  assumes "tok_inv st" "distinct (map thash (store st))"
  shows "fst (tokens_check (Some s) cap now tick io st) = Grants \<longleftrightarrow>
     shaped s \<and> (\<exists>k\<in>set (store st). thash k = token_hash s \<and> (\<exists>c. cap = Some c \<and> caps_grant (tcaps k) c))"
  by (rule tokens_check_grants [OF assms])

definition sample_token :: token where
  "sample_token = \<lparr>tid = ''0badcafe'', thash = token_hash (''fft_'' @ replicate 32 (CHR ''a'')),
     tname = ''Watcher'', tcaps = 3, tcreated = 100, tlast = 0\<rparr>"

definition sample_store :: tok_state where
  "sample_store = \<lparr>store = [sample_token], dirty = False, last_flush = 0, tfile = None,
     host_tok = [], host_caps = 0\<rparr>"

lemma sample_wf: "token_wf sample_token"
  by (simp add: sample_token_def token_wf_def tokens_id_hex_def hex_ok_def name_ok_def tokens_name_max_def
      char_class_defs)

lemma sample_inv: "tok_inv sample_store" "distinct (map thash (store sample_store))"
  by (simp_all add: tok_inv_def sample_store_def sample_wf tokens_max_def)

theorem tokens_check_iff_witness:
  "fst (tokens_check (Some (''fft_'' @ replicate 32 (CHR ''a''))) (Some ''events'') 7 8 True sample_store) = Grants"
  by (subst tokens_check_iff [OF sample_inv])
     (auto simp: sample_store_def sample_token_def shaped_def starts_with_def tokens_prefix_def tokens_text_len_def
       hex_ok_def char_class_defs caps_grant_def held_def CAPS_def list_all_iff)

text \<open>Revoking works: after it, the text of the token revoked is no token any more, whatever it
  asks for, and every other token of the store is still there unchanged.\<close>

theorem tokens_revoked_refused:
  assumes "tok_inv st" "distinct (map thash (store st))"
    and "k \<in> set (store st)" "thash k = token_hash s"
    and "tokens_revoke (Some (tid k)) tick io st = Inr st'"
  shows "fst (tokens_check (Some s) cap now tick' io' st') = No_Token \<and>
     set (store st') = set (store st) - {k}"
proof -
  obtain n where n: "n < length (store st)" "tid (store st ! n) = tid k"
    and st': "store st' = take n (store st) @ drop (Suc n) (store st)"
    using tokens_revoke_Inr [OF assms(5)] by blast
  have d: "distinct (map tid (store st))" using assms(1) by (simp add: tok_inv_def)
  have k: "store st ! n = k"
    using n assms(3) d by (metis distinct_map inj_on_eq_iff nth_mem)
  have "distinct (store st)" using d distinct_map by blast
  then have eq: "set (store st') = set (store st) - {k}"
    using set_without [OF _ n(1)] by (simp add: st' k)
  have "\<forall>x\<in>set (store st'). thash x \<noteq> token_hash s"
    using inj_onD [OF assms(2) [unfolded distinct_map, THEN conjunct2] _ _ assms(3)] assms(4)
    unfolding eq by auto
  with tokens_check_No_Token [OF tokens_revoke_inv [OF assms(1,5)]] eq show ?thesis by simp
qed

theorem tokens_revoked_refused_witness:
  "fst (tokens_check (Some (''fft_'' @ replicate 32 (CHR ''a''))) (Some ''events'') 7 8 True
     (sample_store\<lparr>store := [], tfile := Some [], last_flush := 5\<rparr>)) = No_Token"
proof -
  have r: "tokens_revoke (Some (tid sample_token)) 5 True sample_store =
      Inr (sample_store\<lparr>store := [], tfile := Some [], last_flush := 5\<rparr>)"
    by (simp add: tokens_revoke_def sample_store_def save_tokens_def)
  show ?thesis
    by (rule conjunct1 [OF tokens_revoked_refused [OF sample_inv _ _ r]])
       (simp_all add: sample_store_def sample_token_def)
qed

lemma host_caps_value: "caps_parse (Some tokens_host_caps) = Inr 48"
  by (simp add: caps_parse_def tokens_host_caps_def caps_loop.simps list_sep_def cap_index_def CAPS_def)

lemma any_motion:
  "length cap > 4 \<Longrightarrow> drop (length cap - 4) cap = ''.any'' \<Longrightarrow> w \<in> {''motion.jog'', ''motion.job''} \<Longrightarrow>
   take (length cap - 3) w = take (length cap - 3) cap \<longleftrightarrow> cap = ''motion.any''"
proof -
  assume n: "length cap > 4" and any: "drop (length cap - 4) cap = ''.any''" and w: "w \<in> {''motion.jog'', ''motion.job''}"
  define p where "p = take (length cap - 4) cap"
  have cap: "cap = p @ ''.any''" using any p_def by (metis append_take_drop_id)
  have tk: "take (length cap - 3) cap = p @ ''.''" by (simp add: cap)
  have "take (length p + 1) w = p @ ''.'' \<longleftrightarrow> p = ''motion''"
    using w by (cases p rule: list.exhaust; auto simp: take_Suc_conv_app_nth nth_Cons' numeral_eq_Suc take_Cons' split: if_splits)
  then show ?thesis unfolding tk by (simp add: cap)
qed

text \<open>The extension host's own credential, minted, is good for exactly the two motion
  capabilities (asked for one by one, or as any motion): every other text and every other
  capability is refused.\<close>

theorem tokens_host_grants:
  assumes "length raw = 16" and "st' = snd (tokens_host_mint raw wrote st)"
  shows "tokens_host_check (Some s) (Some c) st' \<longleftrightarrow>
     s = host_tok st' \<and> c \<in> {''motion.jog'', ''motion.job'', ''motion.any''}"
proof -
  have st: "host_tok st' = tokens_prefix @ sha256_hex raw" "host_caps st' = 48"
    using assms by (simp_all add: tokens_host_mint_def host_caps_value hex_of_random_def)
  have held: "held 48 = [''motion.jog'', ''motion.job'']" by (simp add: held_def CAPS_def)
  have "caps_grant 48 c \<longleftrightarrow> c \<in> {''motion.jog'', ''motion.job'', ''motion.any''}"
  proof (cases "length c > 4 \<and> drop (length c - 4) c = ''.any''")
    case True
    then have "c \<noteq> ''motion.jog'' \<and> c \<noteq> ''motion.job''" by auto
    then show ?thesis using True any_motion [of c] by (simp add: caps_grant_def held Let_def)
  qed (auto simp: caps_grant_def held Let_def)
  moreover have "ct_equal (str_bytes s) (str_bytes (host_tok st')) tokens_text_len \<longleftrightarrow> s = host_tok st'"
    if "length s = tokens_text_len"
  proof -
    have "length (host_tok st') = tokens_text_len"
      unfolding st using assms(1) by (simp add: sha256_hex_props tokens_prefix_def tokens_text_len_def)
    with that show ?thesis using str_bytes_inject [of s "host_tok st'"]
      by (simp add: ct_equal_eq str_bytes_def)
  qed
  ultimately show ?thesis
    unfolding tokens_host_check_def st
    using assms(1) by (auto simp: sha256_hex_props tokens_prefix_def tokens_text_len_def)
qed

theorem tokens_host_grants_witness:
  "\<not> tokens_host_check (Some ''fft_0'') (Some ''camera.lid'') (snd (tokens_host_mint (replicate 16 0) True sample_store)) \<and>
   (let st' = snd (tokens_host_mint (replicate 16 0) True sample_store)
    in tokens_host_check (Some (host_tok st')) (Some ''motion.any'') st')"
  using tokens_host_grants [OF _ refl, of "replicate 16 0" "''fft_0''" "''camera.lid''" True sample_store]
    tokens_host_grants [OF _ refl, of "replicate 16 0" _ "''motion.any''" True sample_store]
  by (simp add: Let_def)

end
