(* ===== verification/TokenFile.thy ===== *)
theory TokenFile
  imports Tokens
begin

text \<open>
  The token store reads back (\<open>src/tokens.c\<close>, \<open>save\<close> and \<open>load\<close>): the capability list, the hash in
  hex, the decimal clocks and the colon-separated line each invert, so a daemon restart keeps every
  token with its rights.
\<close>

section \<open>Capability lists\<close>

definition or_caps :: "u32 \<Rightarrow> string list \<Rightarrow> u32" where
  "or_caps acc ws = fold (\<lambda>w a. a OR push_bit (the (cap_index w)) 1) ws acc"

lemma cap_word:
  "w \<in> set CAPS \<Longrightarrow> w \<noteq> [] \<and> list_all (\<lambda>c. \<not> list_sep c \<and> c \<noteq> newline \<and> c \<noteq> cret \<and> c \<noteq> CHR '':'') w \<and> cap_index w \<noteq> None"
proof -
  have "list_all (\<lambda>w. w \<noteq> [] \<and> list_all (\<lambda>c. \<not> list_sep c \<and> c \<noteq> newline \<and> c \<noteq> cret \<and> c \<noteq> CHR '':'') w \<and>
      cap_index w \<noteq> None) CAPS"
    by code_simp
  then show "w \<in> set CAPS \<Longrightarrow> ?thesis" by (simp add: list_all_iff)
qed

lemma comma_Cons: "comma (w # ws) = w @ (if ws = [] then [] else CHR '','' # comma ws)"
  by (cases ws) auto

lemma comma_hd: "w \<in> set CAPS \<Longrightarrow> \<exists>c cs. comma (w # ws) = c # cs \<and> \<not> list_sep c"
  using cap_word [of w] by (cases w) (auto simp: comma_Cons)

lemma caps_loop_word:
  assumes "w \<in> set CAPS" "r = [] \<or> list_sep (hd r)"
  shows "caps_loop acc (w @ r) = caps_loop (acc OR push_bit (the (cap_index w)) 1) r"
proof -
  have w: "w \<noteq> []" "\<forall>c\<in>set w. \<not> list_sep c" "cap_index w \<noteq> None"
    using cap_word [OF assms(1)] by (auto simp: list_all_iff)
  then have d: "dropWhile list_sep (w @ r) = w @ r" by (cases w) auto
  have t: "takeWhile (\<lambda>c. \<not> list_sep c) (w @ r) = w"
    using w assms(2) by (cases r) (auto simp: takeWhile_append2)
  show ?thesis using w by (subst caps_loop.simps) (auto simp: Let_def d t)
qed

lemma caps_loop_sep: "list_sep c \<Longrightarrow> caps_loop acc (c # r) = caps_loop acc r"
  by (subst (1 2) caps_loop.simps) (auto simp: Let_def)

lemma caps_loop_comma: "set ws \<subseteq> set CAPS \<Longrightarrow> caps_loop acc (comma ws) = Inr (or_caps acc ws)"
proof (induction ws arbitrary: acc)
  case Nil
  then show ?case by (simp add: caps_loop.simps or_caps_def)
next
  case (Cons w ws)
  show ?case
  proof (cases "ws = []")
    case True
    with Cons.prems caps_loop_word [of w "[]" acc] show ?thesis
      by (simp add: caps_loop.simps or_caps_def)
  next
    case False
    have sep: "list_sep (CHR '','')" by (simp add: list_sep_def)
    with False Cons caps_loop_word [of w "CHR '','' # comma ws" acc] show ?thesis
      by (simp add: comma_Cons caps_loop_sep or_caps_def)
  qed
qed

lemma held_sub: "set (held s) \<subseteq> set CAPS"
  by (auto simp: held_def in_set_enumerate_eq)

lemma bit_mask1: "(s AND push_bit i 1 \<noteq> (0::u32)) \<longleftrightarrow> bit s i"
proof
  assume "s AND push_bit i 1 \<noteq> 0"
  then obtain j where "bit (s AND push_bit i 1) j" by (metis bit_0_eq bit_eq_iff bot_apply bot_bool_def)
  then show "bit s i" by (auto simp: bit_simps)
next
  assume "bit s i"
  then have "bit (s AND push_bit i 1) i" by (auto simp: bit_simps dest: bit_imp_le_length)
  then show "s AND push_bit i 1 \<noteq> 0" by auto
qed

lemma bit_mask2: "s AND 2 ^ i = (0::u32) \<longleftrightarrow> \<not> bit s i"
  using bit_mask1 [of s i] by auto

lemma or_caps_bits:
  assumes "\<forall>i<length ws. cap_index (ws ! i) = Some (n + i)"
  shows "bit (or_caps acc (map snd (filter (\<lambda>(i, c). (s::u32) AND push_bit i 1 \<noteq> 0) (enumerate n ws)))) j \<longleftrightarrow>
     bit acc j \<or> n \<le> j \<and> j < n + length ws \<and> bit s j"
  using assms
proof (induction ws arbitrary: n acc)
  case Nil
  then show ?case by (auto simp: or_caps_def)
next
  case (Cons w ws)
  have tl: "\<forall>i<length ws. cap_index (ws ! i) = Some (Suc n + i)" using Cons.prems by auto
  have hd: "cap_index w = Some n" using Cons.prems by force
  have "bit (push_bit n 1 :: u32) j \<longleftrightarrow> j = n \<and> n < 32" by (auto simp: bit_simps)
  moreover have "bit s n \<Longrightarrow> n < 32" using bit_imp_le_length [of s n] by simp
  ultimately show ?case
    using Cons.IH [OF tl, of acc] Cons.IH [OF tl, of "acc OR push_bit n 1"] hd
    by (auto simp: or_caps_def bit_mask2 bit_or_iff not_less_eq_eq dest: le_antisym)
qed

lemma or_caps_held: "or_caps 0 (held s) = s AND 0x3f"
proof (rule bit_eqI)
  fix j
  have idx: "\<forall>i<length CAPS. cap_index (CAPS ! i) = Some (0 + i)" by code_simp
  have six: "length CAPS = 6" by (simp add: CAPS_def)
  have l: "bit (or_caps 0 (held s)) j \<longleftrightarrow> j < 6 \<and> bit s j"
    unfolding held_def or_caps_bits [OF idx] six by simp
  have "(0x3f::u32) = mask 6" by (simp add: mask_eq_exp_minus_1)
  then have "bit (s AND 0x3f) j \<longleftrightarrow> j < 6 \<and> bit s j"
    by (simp only: bit_and_iff bit_mask_iff) (auto dest: bit_imp_le_length)
  with l show "bit (or_caps 0 (held s)) j = bit (s AND 0x3f) j" by simp
qed

text \<open>A set of capabilities written as its list and read back is that set, whatever the set.\<close>

theorem caps_roundtrip: "caps_parse (Some (caps_text s [])) = Inr (s AND 0x3f)"
  using caps_loop_comma [OF held_sub, of 0 s] by (simp add: caps_parse_def caps_text_def or_caps_held)

section \<open>A line of the store\<close>

definition storable_token :: "token \<Rightarrow> bool" where
  "storable_token k \<longleftrightarrow> token_wf k \<and> tcaps k AND 0x3f = tcaps k \<and>
     - (2 ^ 31) \<le> tcreated k \<and> tcreated k < 2 ^ 31 \<and> - (2 ^ 31) \<le> tlast k \<and> tlast k < 2 ^ 31"

lemma hex_bytes_hex: "hex_bytes (sha256_hex d) = d"
proof (induction d)
  case Nil
  then show ?case by (simp add: sha256_hex_def)
next
  case (Cons x d)
  have nib: "\<forall>n<16. digit_of 16 (hexdigits ! n) = Some n"
    by (simp add: numeral_eq_Suc All_less_Suc hexdigits_def digit_of_def lower_c_def char_class_defs)
  have lo: "unat (x AND 0xf) = unat x mod 16"
  proof -
    have "x AND 0xf = take_bit 4 x" by (simp add: take_bit_eq_mask mask_eq_exp_minus_1)
    then show ?thesis by (simp add: unsigned_take_bit_eq take_bit_eq_mod unat_mod)
  qed
  have hi: "unat (drop_bit 4 x) = unat x div 16" by (simp add: unat_drop_bit_eq drop_bit_eq_div unat_div)
  have "unat x div 16 < 16" using unsigned_less [of x, where 'a = nat] by (simp add: less_mult_imp_div_less)
  then have "16 * hex_nibble (hexdigits ! unat (drop_bit 4 x)) + hex_nibble (hexdigits ! unat (x AND 0xf)) = unat x"
    using nib by (simp add: hex_nibble_def lo hi)
  then show ?case using Cons by (simp add: sha256_hex_def)
qed

definition clean_field :: "string \<Rightarrow> bool" where
  "clean_field f \<longleftrightarrow> CHR '':'' \<notin> set f \<and> newline \<notin> set f \<and> cret \<notin> set f"

lemma fields_Suc: "clean_field f \<Longrightarrow> fields (Suc n) (f @ CHR '':'' # r) = (f # fst (fields n r), snd (fields n r))"
proof -
  assume "clean_field f"
  then have "\<forall>c\<in>set f. c \<noteq> CHR '':''" by (auto simp: clean_field_def)
  then have "takeWhile (\<lambda>c. c \<noteq> CHR '':'') (f @ CHR '':'' # r) = f" "dropWhile (\<lambda>c. c \<noteq> CHR '':'') (f @ CHR '':'' # r) = CHR '':'' # r"
    by (simp_all add: takeWhile_append2 dropWhile_append2)
  then show ?thesis by (simp add: Let_def)
qed

lemma clean_append: "clean_field (a @ b) \<longleftrightarrow> clean_field a \<and> clean_field b"
  by (auto simp: clean_field_def)

lemma clean_hex: "hex_ok s \<Longrightarrow> clean_field s"
  by (auto simp: clean_field_def hex_ok_def list_all_iff char_class_defs)

lemma clean_int: "clean_field (show_int i)"
proof -
  have "clean_field (digits_of n)" for n
    using digits_of_digits [of n] by (auto simp: clean_field_def char_class_defs)
  then show ?thesis by (auto simp: show_int_def clean_field_def char_class_defs)
qed

lemma clean_caps: "clean_field (caps_text s [])"
proof -
  have "clean_field (comma ws)" if "set ws \<subseteq> set CAPS" for ws
    using that
  proof (induction ws)
    case (Cons w ws)
    then show ?case using cap_word [of w]
      by (auto simp: comma_Cons clean_field_def list_all_iff char_class_defs)
  qed (simp add: clean_field_def)
  then show ?thesis using held_sub by (simp add: caps_text_def)
qed

lemma clean_name: "name_ok (Some n) \<Longrightarrow> clean_field n"
  by (auto simp: name_ok_def clean_field_def list_all_iff char_class_defs)

lemma atol_show_int: "- (2 ^ 31) \<le> i \<Longrightarrow> i < 2 ^ 31 \<Longrightarrow> atol (show_int i) = i"
  using strtol10_show_int [of i "[]" "[]"] by (simp add: atol_def)

lemma parse_token_line:
  assumes "storable_token k"
  shows "parse_token (token_line k) = Some k"
proof -
  let ?f = "[tid k, sha256_hex (thash k), show_int (tcreated k), show_int (tlast k), caps_text (tcaps k) []]"
  have wf: "token_wf k" and mask: "tcaps k AND 0x3f = tcaps k"
    using assms by (auto simp: storable_token_def)
  have clean: "clean_field (tid k)" "clean_field (sha256_hex (thash k))" "clean_field (tname k)"
    using wf by (auto simp: token_wf_def clean_hex clean_name sha256_hex_props)
  let ?l = "tid k @ CHR '':'' # sha256_hex (thash k) @ CHR '':'' # show_int (tcreated k) @ CHR '':'' #
     show_int (tlast k) @ CHR '':'' # caps_text (tcaps k) [] @ CHR '':'' # tname k"
  have line: "token_line k = ?l @ [newline]" by (simp add: token_line_def)
  have ends: "\<forall>c\<in>set ?l. c \<noteq> cret \<and> c \<noteq> newline"
    using clean clean_int clean_caps by (auto simp: clean_field_def char_class_defs)
  have cut: "takeWhile (\<lambda>c. c \<noteq> cret \<and> c \<noteq> newline) (token_line k) = ?l"
    using ends unfolding line by (subst takeWhile_append2) auto
  have fs: "fields 5 ?l = (?f, Some (tname k))"
    using clean clean_int clean_caps
    by (simp add: numeral_eq_Suc fields_Suc del: fields.simps(2))
  show ?thesis
    using wf assms mask
    by (simp add: parse_token_def cut fs token_wf_def caps_roundtrip atol_show_int
        storable_token_def sha256_hex_props hex_bytes_hex del: fields.simps)
qed

lemma load_token_line:
  assumes "storable_token k" "length (token_line k) < 512" "0 < n"
  shows "load_tokens n (token_line k @ r) = k # load_tokens (n - 1) r"
proof -
  define l where "l = tid k @ CHR '':'' # sha256_hex (thash k) @ CHR '':'' # show_int (tcreated k) @ CHR '':'' #
     show_int (tlast k) @ CHR '':'' # caps_text (tcaps k) [] @ CHR '':'' # tname k"
  have line: "token_line k = l @ [newline]" by (simp add: l_def token_line_def)
  have "newline \<notin> set l"
    using assms(1) clean_int clean_caps clean_hex [OF sha256_hex_props(2)]
    by (auto simp: l_def storable_token_def token_wf_def clean_field_def char_class_defs
        dest!: clean_hex clean_name)
  then have f: "fgets 511 (token_line k @ r) = (token_line k, r)"
    using fgets_line [of l 511 r] assms(2) by (simp add: line del: fgets.simps)
  have "token_line k @ r \<noteq> []" by (simp add: token_line_def)
  with assms(3) show ?thesis
    by (subst load_tokens.simps) (simp add: f Let_def parse_token_line [OF assms(1)] del: fgets.simps)
qed

text \<open>A restart of the daemon keeps every token: the store as the daemon writes it reads back,
  token for token and in order, whatever names, rights and clocks the tokens have; and the copy in
  memory no longer owes the file anything.\<close>

theorem token_store_roundtrip:
  assumes "save_tokens io tick st = Some st'"
    and "\<forall>k\<in>set (store st). storable_token k" and "length (store st) \<le> tokens_max"
  shows "store (tokens_init tick' st') = store st \<and> \<not> dirty st'"
proof -
  have "load_tokens n (concat (map token_line ks)) = ks"
    if "\<forall>k\<in>set ks. storable_token k \<and> length (token_line k) < 512" "length ks \<le> n" for ks n
    using that
  proof (induction ks arbitrary: n)
    case Nil
    then show ?case by (simp add: load_tokens.simps)
  next
    case (Cons k ks)
    then show ?case by (simp add: load_token_line)
  qed
  moreover have "\<forall>k\<in>set (store st). length (token_line k) < 512"
    using assms(1) by (auto simp: save_tokens_def list_all_iff split: if_splits)
  ultimately show ?thesis
    using assms(2,3) save_tokens_Some [OF assms(1)] by (simp add: tokens_init_def)
qed

theorem token_store_roundtrip_witness:
  "\<exists>st'. save_tokens True 9 (sample_store\<lparr>store := [sample_token\<lparr>thash := replicate 32 7\<rparr>]\<rparr>) = Some st' \<and>
     store (tokens_init 10 st') = [sample_token\<lparr>thash := replicate 32 7\<rparr>]"
proof -
  let ?k = "sample_token\<lparr>thash := replicate 32 7\<rparr>"
  let ?st = "sample_store\<lparr>store := [?k]\<rparr>"
  have ok: "storable_token ?k"
    using sample_wf by (simp add: storable_token_def token_wf_def sample_token_def)
  have "length (token_line ?k) < 512"
    by (simp add: token_line_def sample_token_def sha256_hex_props caps_text_def held_def CAPS_def show_int_def digits_of.simps)
  then obtain st' where st': "save_tokens True 9 ?st = Some st'" by (simp add: save_tokens_def)
  have "store (tokens_init 10 st') = store ?st \<and> \<not> dirty st'"
    by (rule token_store_roundtrip [OF st']) (simp_all add: ok tokens_max_def)
  with st' show ?thesis by simp
qed

end
