(* ===== verification/Crash.thy ===== *)
theory Crash
  imports Sha256
begin

text \<open>
  The head-accelerometer crash watch, its pure part (\<open>src/accel.c\<close>, \<open>crash_tick\<close>): two latched
  source registers a poll, a pause tier released by five quiet polls, and a fail tier that is
  latched for the run session. The i2c access is not modelled.
\<close>

definition crash_src_ia :: u32 where "crash_src_ia = 0x40"
definition crash_src_xh :: u32 where "crash_src_xh = 0x02"
definition crash_src_yh :: u32 where "crash_src_yh = 0x08"
definition crash_clear_ticks :: nat where "crash_clear_ticks = 5"

datatype crash_event = CrashEv_None | CrashEv_Alert | CrashEv_Released | CrashEv_Alarm

record crash_watch =
  k_alert :: bool
  k_alarm :: bool
  k_clear :: nat
  k_axes :: u32

definition crash_tick :: "u32 \<Rightarrow> u32 \<Rightarrow> crash_watch \<Rightarrow> crash_event \<times> crash_watch" where
  "crash_tick src1 src2 w =
     (if k_alarm w then (CrashEv_None, w)
      else if src2 AND crash_src_ia \<noteq> 0
      then (CrashEv_Alarm, w\<lparr>k_alarm := True, k_axes := src2 AND (crash_src_xh OR crash_src_yh)\<rparr>)
      else if src1 AND crash_src_ia \<noteq> 0
      then (let w1 = w\<lparr>k_axes := src1 AND (crash_src_xh OR crash_src_yh), k_clear := 0\<rparr>
            in if \<not> k_alert w then (CrashEv_Alert, w1\<lparr>k_alert := True\<rparr>) else (CrashEv_None, w1))
      else if k_alert w
      then (let w1 = w\<lparr>k_clear := k_clear w + 1\<rparr>
            in if k_clear w1 \<ge> crash_clear_ticks
               then (CrashEv_Released, w1\<lparr>k_alert := False, k_clear := 0\<rparr>) else (CrashEv_None, w1))
      else (CrashEv_None, w))"

definition crash_reset :: crash_watch where
  "crash_reset = \<lparr>k_alert = False, k_alarm = False, k_clear = 0, k_axes = 0\<rparr>"

definition crash_axes_name :: "u32 \<Rightarrow> string" where
  "crash_axes_name axes =
     (let a = axes AND (crash_src_xh OR crash_src_yh)
      in if a = crash_src_xh then ''x'' else if a = crash_src_yh then ''y''
         else if a = (crash_src_xh OR crash_src_yh) then ''xy'' else ''-'')"

section \<open>Facts\<close>

type_synonym crash_poll = "u32 \<times> u32"

definition crash_step :: "crash_poll \<Rightarrow> crash_watch \<Rightarrow> crash_watch" where
  "crash_step p w = snd (crash_tick (fst p) (snd p) w)"

definition crash_inv :: "crash_watch \<Rightarrow> bool" where
  "crash_inv w \<longleftrightarrow> k_clear w < crash_clear_ticks \<and> (k_clear w > 0 \<longrightarrow> k_alert w)"

lemmas crash_defs = crash_step_def crash_tick_def crash_inv_def crash_clear_ticks_def Let_def

lemma crash_inv_step: "crash_inv w \<Longrightarrow> crash_inv (crash_step p w)"
  by (auto simp: crash_defs)

interpretation crash_machine: invariant_machine crash_step crash_inv
  by unfold_locales (rule crash_inv_step)

interpretation crash_latch: latch crash_step k_alarm "\<lambda>_. True"
  by unfold_locales (simp add: crash_defs)

definition quiet :: "crash_poll \<Rightarrow> bool" where
  "quiet p \<longleftrightarrow> fst p AND crash_src_ia = 0 \<and> snd p AND crash_src_ia = 0"

lemma quiet_run_alert:
  assumes "k_alert w" "\<not> k_alarm w" "list_all quiet ps" "k_clear w + length ps < crash_clear_ticks"
  shows "k_alert (fold crash_step ps w) \<and> \<not> k_alarm (fold crash_step ps w) \<and>
     k_clear (fold crash_step ps w) = k_clear w + length ps"
  using assms
proof (induction ps arbitrary: w)
  case (Cons p ps)
  have "crash_step p w = w\<lparr>k_clear := k_clear w + 1\<rparr>"
    using Cons.prems by (simp add: crash_defs quiet_def)
  then show ?case using Cons.IH [of "crash_step p w"] Cons.prems by simp
qed simp

text \<open>A bump holds the job until the head has been quiet for five polls in a row, and no longer:
  after the last alert event four quiet polls keep the pause tier and the fifth releases it,
  unless a crash is latched meanwhile.\<close>

theorem crash_alert_release:
  assumes "k_alert w" "\<not> k_alarm w" "k_clear w = 0" "list_all quiet ps" "length ps \<le> crash_clear_ticks"
  shows "k_alert (fold crash_step ps w) \<longleftrightarrow> length ps < crash_clear_ticks"
proof (cases "length ps = crash_clear_ticks")
  case False
  with assms quiet_run_alert [of w ps] show ?thesis by simp
next
  case True
  then obtain qs q where ps: "ps = qs @ [q]" by (cases ps rule: rev_cases) (auto simp: crash_clear_ticks_def)
  have "length qs < crash_clear_ticks" using True ps by simp
  moreover have "length qs + 1 = crash_clear_ticks" using True ps by simp
  ultimately show ?thesis
    using assms ps quiet_run_alert [of w qs] True by (simp add: crash_defs quiet_def)
qed

theorem crash_alert_release_witness:
  "k_alert (fold crash_step [(0, 0), (0, 0)] (crash_step (0x42, 0) crash_reset))"
  by (subst crash_alert_release)
     (simp_all add: crash_step_def crash_tick_def crash_reset_def crash_src_ia_def crash_src_xh_def crash_src_yh_def
        quiet_def crash_clear_ticks_def)

end
