(* ===== verification/CoolState.thy ===== *)
theory CoolState
  imports Airflow Gates Holds Crash
begin

text \<open>
  The cooling engine (\<open>src/cool.c\<close>), first part: its tunables, its state, its hardware writes and
  the fan profiles, the limits in force and the ownership by a diagnostic. The static variables
  of the file are the record \<open>cool\<close>, grouped; a write to the kernel's attributes, a call of the
  fail tier and a setup flag are appended to \<open>outs\<close>, in order. Degrees, seconds and rpm are reals
  (the rounding of \<open>float\<close> is not modelled). The readings of a tick are its input record \<open>tin\<close>.
\<close>

section \<open>Constants and tunables\<close>

definition report_timeout_s :: real where "report_timeout_s = 5"
definition air_assist_idle :: int where "air_assist_idle = 204"
definition air_assist_run :: int where "air_assist_run = 1023"
definition exhaust_idle :: int where "exhaust_idle = 0"
definition exhaust_run :: int where "exhaust_run = 65535"
definition intake_idle :: int where "intake_idle = 0"
definition intake_run :: int where "intake_run = 43278"
definition exhaust_cool :: int where "exhaust_cool = 32768"
definition intake_cool :: int where "intake_cool = 21639"
definition temp_max_default :: real where "temp_max_default = 33"
definition temp_critical_default :: real where "temp_critical_default = 38"
definition temp_min_hyst_c :: real where "temp_min_hyst_c = 1"
definition warmup_stall_s :: real where "warmup_stall_s = 300"
definition warmup_stall_c :: real where "warmup_stall_c = 2/10"
definition warmup_win_n :: nat where "warmup_win_n = 60"
definition sensor_fail_max :: nat where "sensor_fail_max = 2"
definition tec_dwell_s :: real where "tec_dwell_s = 30"
definition flow_establish_s :: real where "flow_establish_s = 30"
definition flow_settle_dt_c :: real where "flow_settle_dt_c = 15/10"
definition flow_settle_drift_c :: real where "flow_settle_drift_c = 4/10"
definition flow_settle_win :: nat where "flow_settle_win = 15"
definition flow_settle_warn_s :: real where "flow_settle_warn_s = 180"
definition flow_trend_n :: nat where "flow_trend_n = 3"
definition flow_end_win :: nat where "flow_end_win = 5"
definition flow_lag_s :: nat where "flow_lag_s = 15"
definition laser_heat_max_c :: real where "laser_heat_max_c = 3"
definition aa_offset_start :: int where "aa_offset_start = 256"
definition aa_offset_full :: int where "aa_offset_full = 1023"
definition aa_offset_max_counts :: real where "aa_offset_max_counts = 60"
definition fire_ir_ticks :: nat where "fire_ir_ticks = 2"
definition fire_clear_ticks :: nat where "fire_clear_ticks = 5"
definition fan_write_tries :: nat where "fan_write_tries = 3"
definition fan_lost_grace_max :: nat where "fan_lost_grace_max = 3"
definition cool_reason_max :: nat where "cool_reason_max = 112"
definition cool_verdict_max :: nat where "cool_verdict_max = 12"
definition gates_off_json_max :: nat where "gates_off_json_max = 224"
definition flow_hold_max_s :: real where "flow_hold_max_s = 600"
definition quiet_hold_max_s :: real where "quiet_hold_max_s = 600"

text \<open>The tunables: settings key, compiled default, and whether the variable is unsigned.\<close>

definition tunables :: "(string \<times> real \<times> bool) list" where
  "tunables =
    [(''cool_temp_offset_c'', 0, False), (''cool_flow_heater_pct'', 40, True), (''cool_flow_check_s'', 50, True),
     (''cool_recheck_s'', 150, True), (''cool_cooldown_s'', 15, True), (''cool_cooldown_max_s'', 300, True),
     (''cool_temp_max'', 33, False), (''cool_temp_resume'', 31, False), (''cool_temp_critical_c'', 38, False),
     (''cool_temp_min'', 5, False), (''cool_temp_start'', 16, False), (''cool_tec_present'', 0, True),
     (''cool_tec_on_c'', 20, False), (''cool_tec_off_c'', 18, False), (''cool_flow_rise'', 144/10, False),
     (''cool_confirm_max_s'', 480, True), (''cool_laser_heat_cw'', 306/10000000, False),
     (''cool_laser_heat_density'', 236/10000000, False), (''cool_aa_offset_counts'', 0, False),
     (''cool_fire_q1_alert'', 275, False), (''cool_fire_q1_critical'', 688, False),
     (''cool_fire_q2_alert'', 374, False), (''cool_fire_q2_critical'', 1022, False),
     (''cool_accel_x_alert'', 132, False), (''cool_accel_y_alert'', 112, False), (''cool_accel_abort'', 133, False),
     (''cool_tach_exhaust_min_rpm'', 6400, False), (''cool_tach_intake_min_rpm'', 2290, False),
     (''cool_intake_fans'', 2, True), (''cool_tach_air_assist_min_rpm'', 6000, False),
     (''cool_purge_min_current'', 300, False), (''cool_fan_grace_s'', 15, False)]"

datatype cool_phase = Cool_Idle | Cool_Run | Cool_Smoke | Cool_Thermal | Cool_Warmup
datatype flow_verdict = Flow_Normal | Flow_Suspect | Flow_Fault

section \<open>State\<close>

text \<open>The limits a report may carry: absent when not finite or not above zero.\<close>

record cool_limits =
  l_max :: dbl
  l_min :: dbl
  l_exhaust :: dbl
  l_intake :: dbl
  l_air :: dbl

definition no_limits :: cool_limits where
  "no_limits = \<lparr>l_max = Fin (-1), l_min = Fin (-1), l_exhaust = Fin (-1), l_intake = Fin (-1), l_air = Fin (-1)\<rparr>"

record report =
  r_mode :: nat
  r_armed :: bool
  r_duty :: "int list"
  r_lim :: cool_limits
  r_at :: real
  r_model :: int

record limits_in_force =
  e_max :: real
  e_resume :: real
  e_min :: real
  e_from_header :: bool
  e_floor_from_header :: bool
  e_exhaust :: real
  e_intake :: real
  e_air :: real

record gates_off_flags =
  o_coolant :: bool
  o_critical :: bool
  o_floor :: bool
  o_warmup :: bool
  o_flow :: bool

record flow_check =
  f_verdict :: flow_verdict
  f_next_check :: real
  f_active :: bool
  f_pending :: bool
  f_held :: bool
  f_hold_since :: real
  f_pending_since :: real
  f_settle_warned :: bool
  f_base_set :: bool
  f_hist :: "real list"
  f_base_down :: real
  f_establish_at :: real
  f_check_end :: real
  f_dt_sum :: real
  f_dt_n :: nat
  f_suspect_since :: real
  f_episodes :: nat
  f_end_hist :: "real list"
  f_hv_dose :: real
  f_streak :: nat

record warm_up =
  w_gate :: real
  w_last_up :: real
  w_progress_at :: real
  w_stall_warned :: bool
  w_win :: "real list"

record fan_state =
  n_cmd :: "int list"
  n_duty :: "int list"
  n_run_duty :: "int list"
  n_lost :: "nat list"
  n_back :: "int list"
  n_aa :: int
  n_gate :: "airflow_fan list"
  n_grace_until :: real
  n_up :: bool
  n_alarm :: bool
  n_margin_noted :: "bool list"

record watch =
  x_flame_alert :: bool
  x_flame_clear :: nat
  x_ir_over :: nat
  x_fire_alarm :: bool
  x_last_armed_at :: real
  x_emission_warned :: bool
  x_pgood_warned :: bool
  x_last_faults :: int
  x_hv_last :: int
  x_hv_hist :: "int list"
  x_crash :: crash_watch
  x_hw_state :: int
  x_hw_armed :: bool
  x_poll_errs :: nat

record published =
  p_verdict :: string
  p_reason :: string
  p_fire_ok :: bool
  p_hold :: bool
  p_armed_ack :: bool
  p_down :: real
  p_up :: real
  p_phase :: string
  p_fire_watch :: string
  p_accel_watch :: string
  p_gates_off :: string

datatype effect = Wr string int | Fail_Tier string | Setup_Flag string string | Accel string | Verdict_File string

record cool =
  rep :: report
  conf :: "string \<Rightarrow> real"
  env_set :: "string list"
  off :: gates_off_flags
  lim :: limits_in_force
  density :: bool
  phase :: cool_phase
  start_cool :: bool
  heater :: nat
  fl :: flow_check
  wu :: warm_up
  fan :: fan_state
  wat :: watch
  tec_on :: bool
  tec_written :: int
  tec_switched_at :: real
  quiet_held :: bool
  quiet_pump :: bool
  quiet_since :: real
  phase_until :: real
  over_temp :: bool
  cold :: bool
  critical :: bool
  sensor_fail :: nat
  sensor_alarm :: bool
  forced_cool :: bool
  flood_on :: bool
  silent_warned :: bool
  silent_safed :: bool
  eff_armed :: bool
  session_armed :: bool
  last_up :: real
  ext_held :: bool
  ext_dropped :: bool
  ext_reason :: string
  seq :: nat
  diag_owned :: bool
  pub :: published
  outs :: "effect list"

text \<open>
  What the world answers in one tick. \<open>fan_took n\<close> says whether the write that is the \<open>n\<close>-th
  effect so far was accepted and read back; \<open>settings\<close> is the number a setting's text reads as, if
  it is wholly one; \<open>degc\<close> is \<open>coolant_degc\<close> of \<open>src/status.c\<close>.
\<close>

record tin =
  now :: real
  pub_at :: real
  settings :: "string \<Rightarrow> real option"
  degc :: "int \<Rightarrow> real"
  fan_took :: "nat \<Rightarrow> bool"
  fan_rb :: "nat \<Rightarrow> int"
  cnc_running :: "nat \<Rightarrow> bool"
  machine_idle :: bool
  laser_on :: int
  pgood :: int
  faults :: int
  lid_ir :: "int list"
  hv_current :: int
  tach_exhaust :: int
  tach_intake1 :: int
  tach_intake2 :: int
  tach_air :: int
  purge_cur :: int
  water1 :: int
  water2 :: int
  water2_open :: int
  crash_open :: bool
  crash_arm :: bool
  crash_poll :: "(u32 \<times> u32) option"
  ext_allowed :: bool
  ext_holds :: holds
  vfile_ok :: bool

section \<open>Text\<close>

fun pad_zero :: "nat \<Rightarrow> string \<Rightarrow> string" where
  "pad_zero n s = replicate (n - length s) (CHR ''0'') @ s"

text \<open>\<open>%.df\<close>: the nearest decimal, ties to even.\<close>

definition fmt_f :: "nat \<Rightarrow> real \<Rightarrow> string" where
  "fmt_f d x =
     (let n = nat \<bar>round_half_even (x * 10 ^ d)\<bar>
      in (if x < 0 then ''-'' else []) @ show_nat (n div 10 ^ d) @
         (if d = 0 then [] else ''.'' @ pad_zero d (show_nat (n mod 10 ^ d))))"

definition upd_reason :: "string \<Rightarrow> cool \<Rightarrow> cool" where
  "upd_reason msg st = st\<lparr>pub := (pub st)\<lparr>p_reason := fit cool_reason_max msg\<rparr>\<rparr>"

text \<open>\<open>warn\<close> and the clearing of the reason; the log lines themselves are not modelled.\<close>

definition warn :: "string \<Rightarrow> cool \<Rightarrow> cool" where
  "warn msg st = upd_reason msg st"

definition clear_reason :: "cool \<Rightarrow> cool" where
  "clear_reason st = st\<lparr>pub := (pub st)\<lparr>p_reason := []\<rparr>\<rparr>"

section \<open>Hardware\<close>

definition emit :: "effect list \<Rightarrow> cool \<Rightarrow> cool" where
  "emit es st = st\<lparr>outs := outs st @ es\<rparr>"

definition safe_stop :: "cool \<Rightarrow> cool" where
  "safe_stop st = emit [Wr ''cnc/stop'' 1, Wr ''cnc/laser_latch'' 1] st"

definition heater_set_pct :: "nat \<Rightarrow> cool \<Rightarrow> cool" where
  "heater_set_pct pct st = emit [Wr ''thermal/heater_pwm'' (int pct * 65535 div 100)] (st\<lparr>heater := pct\<rparr>)"

definition fan_attr :: "nat \<Rightarrow> string" where
  "fan_attr ix = [''head/air_assist_pwm'', ''thermal/exhaust_pwm'', ''thermal/intake_pwm''] ! ix"

fun fan_tries :: "tin \<Rightarrow> nat \<Rightarrow> nat \<Rightarrow> int \<Rightarrow> cool \<Rightarrow> bool \<times> cool" where
  "fan_tries i 0 ix duty st = (False, st)"
| "fan_tries i (Suc n) ix duty st =
     (let ok = fan_took i (length (outs st)); st1 = emit [Wr (fan_attr ix) duty] st
      in if ok then (True, st1) else fan_tries i n ix duty st1)"

definition fan_write :: "tin \<Rightarrow> nat \<Rightarrow> int \<Rightarrow> cool \<Rightarrow> bool \<times> cool" where
  "fan_write i ix duty st =
     (let f = fan st;
          st1 = st\<lparr>fan := f\<lparr>n_cmd := (n_cmd f)[ix := duty], n_aa := (if ix = 0 then duty else n_aa f)\<rparr>\<rparr>
      in fan_tries i fan_write_tries ix duty st1)"

definition fan_set :: "tin \<Rightarrow> nat \<Rightarrow> int \<Rightarrow> cool \<Rightarrow> cool" where
  "fan_set i ix duty st = snd (fan_write i ix duty st)"

text \<open>The duties read back once a tick.\<close>

definition fan_verify_one :: "tin \<Rightarrow> nat \<Rightarrow> cool \<Rightarrow> cool" where
  "fan_verify_one i ix st0 =
     (let back = fan_rb i ix; cmd = n_cmd (fan st0) ! ix;
          st = st0\<lparr>fan := (fan st0)\<lparr>n_back := (n_back (fan st0))[ix := back]\<rparr>\<rparr>
      in if cmd < 0 \<or> back < 0 \<or> back = cmd then st
         else
           let r = fan_write i ix cmd st; st1 = snd r; f = fan st1; lost = n_lost f ! ix + 1;
               grace = now i + conf st1 ''cool_fan_grace_s'';
               f1 = f\<lparr>n_lost := (n_lost f)[ix := lost]\<rparr>
           in st1\<lparr>fan := (if fst r \<and> cmd > back \<and> phase st1 = Cool_Run \<and> lost \<le> fan_lost_grace_max \<and>
                          n_grace_until f < grace then f1\<lparr>n_grace_until := grace\<rparr> else f1)\<rparr>)"

definition fans_verify :: "tin \<Rightarrow> cool \<Rightarrow> cool" where
  "fans_verify i st = fold (fan_verify_one i) [0, 1, 2] st"

definition coolant_offset_counts :: "cool \<Rightarrow> int" where
  "coolant_offset_counts st =
     (let k = conf st ''cool_aa_offset_counts''; aa = n_aa (fan st) in
      if k \<le> 0 \<or> aa \<le> aa_offset_start then 0
      else let frac = min 1 (of_int (aa - aa_offset_start) / of_int (aa_offset_full - aa_offset_start))
           in floor (min k aa_offset_max_counts * frac + 1/2))"

definition read_temp :: "tin \<Rightarrow> int \<Rightarrow> cool \<Rightarrow> real option" where
  "read_temp i raw st =
     (if raw < 0 then None
      else let raw_c = raw - coolant_offset_counts st
           in Some (degc i (if raw_c > 0 then raw_c else raw) + conf st ''cool_temp_offset_c''))"

definition coolant_degc :: "int \<Rightarrow> real" where
  "coolant_degc raw =
     (let adc_f = 1024 * (13/10) in
      if raw \<le> 0 \<or> of_int raw \<ge> adc_f then - 27315/100
      else let r = 10000 / (adc_f / of_int raw - 1); rinf = 10000 * exp (- 3380 / (29815/100))
           in 3380 / ln (r / rinf) - 27315/100)"

subsection \<open>Fan profiles\<close>

definition fans_quiet :: "tin \<Rightarrow> cool \<Rightarrow> cool" where
  "fans_quiet i st = emit [Wr ''head/purge_air'' 0] (fan_set i 2 0 (fan_set i 1 0 (fan_set i 0 0 st)))"

definition pump_quiet :: "cool \<Rightarrow> cool" where
  "pump_quiet st = emit [Wr ''thermal/water_pump_on'' 0, Wr ''thermal/tec_on'' 0] st"

definition fans_idle :: "tin \<Rightarrow> cool \<Rightarrow> cool" where
  "fans_idle i st =
     (if quiet_held st then (fans_quiet i st)\<lparr>start_cool := False\<rparr>
      else (fan_set i 2 intake_idle (fan_set i 1 exhaust_idle (fan_set i 0 air_assist_idle st)))\<lparr>start_cool := False\<rparr>)"

definition fans_run :: "tin \<Rightarrow> cool \<Rightarrow> cool" where
  "fans_run i st =
     (let rd = n_run_duty (fan st);
          d = [airflow_run_duty air_assist_run (rd ! 0) (eff_armed st),
               airflow_run_duty exhaust_run (rd ! 1) (eff_armed st),
               airflow_run_duty intake_run (rd ! 2) (eff_armed st)];
          st1 = st\<lparr>fan := (fan st)\<lparr>n_duty := d\<rparr>\<rparr>
      in if quiet_held st then fans_quiet i st1
         else fan_set i 2 (d ! 2) (fan_set i 1 (d ! 1) (fan_set i 0 (d ! 0) st1)))"

definition fans_cool :: "tin \<Rightarrow> cool \<Rightarrow> cool" where
  "fans_cool i st =
     (if quiet_held st then fans_quiet i st
      else fan_set i 2 intake_cool (fan_set i 1 exhaust_cool (fan_set i 0 air_assist_idle st)))"

definition fans_apply_phase :: "tin \<Rightarrow> cool \<Rightarrow> cool" where
  "fans_apply_phase i st =
     (case phase st of Cool_Run \<Rightarrow> fans_run i st | Cool_Smoke \<Rightarrow> fans_run i st
      | Cool_Thermal \<Rightarrow> fans_cool i st | _ \<Rightarrow> fans_idle i st)"

section \<open>The hold's words\<close>

definition overtemp_warn :: "cool \<Rightarrow> cool" where
  "overtemp_warn st =
     upd_reason (fit 96 (''coolant '' @ fmt_f 1 (last_up st) @ '' C over '' @ fmt_f 0 (e_max (lim st)) @ '' C limit'' @
       (if e_from_header (lim st) then '' (the job'' @ [CHR 0x27] @ ''s)'' else []) @ '' - hold until '' @
       fmt_f 0 (e_resume (lim st)) @ '' C'')) st"

definition ext_holds_read :: "tin \<Rightarrow> holds" where
  "ext_holds_read i = (if ext_allowed i then ext_holds i else no_holds)"

definition ext_holds_log :: "holds \<Rightarrow> cool \<Rightarrow> cool" where
  "ext_holds_log h st =
     (let st1 = (if \<not> standing h \<and> ext_held st \<and> p_reason (pub st) = ext_reason st then clear_reason st else st)
      in st1\<lparr>ext_held := standing h, ext_dropped := stale_advisory h > 0,
             ext_reason := fit cool_reason_max (if standing h then reason h else [])\<rparr>)"

section \<open>Tunables and limits\<close>

definition resolve :: "(string \<Rightarrow> real option) \<Rightarrow> string \<times> real \<times> bool \<Rightarrow> real" where
  "resolve get t =
     (case t of (key, dflt, uns) \<Rightarrow>
        let f = (case get key of Some x \<Rightarrow> x | None \<Rightarrow> dflt)
        in if uns then (if f < 0 then 0 else of_int (floor f)) else f)"

text \<open>The engine's value for a gate setting. A key the code does not list keeps its default.\<close>

definition engine_gate_keys :: "string list" where
  "engine_gate_keys =
    [''cool_temp_max'', ''cool_temp_resume'', ''cool_temp_critical_c'', ''cool_temp_min'', ''cool_temp_start'',
     ''cool_tec_on_c'', ''cool_tec_off_c'', ''cool_fire_q1_alert'', ''cool_fire_q1_critical'', ''cool_fire_q2_alert'',
     ''cool_fire_q2_critical'', ''cool_accel_x_alert'', ''cool_accel_y_alert'', ''cool_accel_abort'',
     ''cool_flow_check_s'', ''cool_flow_rise'', ''cool_tach_exhaust_min_rpm'', ''cool_tach_intake_min_rpm'',
     ''cool_tach_air_assist_min_rpm'', ''cool_purge_min_current'', ''cool_fan_grace_s'']"

definition engine_gate_value :: "(string \<Rightarrow> real) \<Rightarrow> gate_setting \<Rightarrow> real" where
  "engine_gate_value c g = (if gkey g \<in> set engine_gate_keys then c (gkey g) else gdef g)"

definition gate_is_off :: "string \<Rightarrow> (string \<Rightarrow> real) \<Rightarrow> bool" where
  "gate_is_off name c =
     list_ex (\<lambda>g. gname g = Some name \<and> gate_state g (engine_gate_value c g) = Gate_Off) gate_table"

definition gates_apply :: "cool \<Rightarrow> cool" where
  "gates_apply st =
     (let c = conf st in
      st\<lparr>off := \<lparr>o_coolant = gate_is_off ''coolant_max'' c, o_critical = gate_is_off ''coolant_critical'' c,
                 o_floor = gate_is_off ''coolant_min'' c, o_warmup = gate_is_off ''warm_up'' c,
                 o_flow = gate_is_off ''flow'' c\<rparr>,
         pub := (pub st)\<lparr>p_gates_off :=
           (case gates_off_json gates_off_json_max (engine_gate_value c) of Some r \<Rightarrow> fst r | None \<Rightarrow> ''[]'')\<rparr>\<rparr>)"

definition reload :: "(string \<Rightarrow> real option) \<Rightarrow> string list \<Rightarrow> (string \<Rightarrow> real) \<Rightarrow> string \<Rightarrow> real" where
  "reload get env old k =
     (case map_of tunables k of
        None \<Rightarrow> old k
      | Some (dflt, u) \<Rightarrow> if k \<in> set env then old k else resolve get (k, dflt, u))"

definition conf_reload :: "tin \<Rightarrow> cool \<Rightarrow> cool" where
  "conf_reload i st =
     gates_apply (st\<lparr>conf := reload (settings i) (env_set st) (conf st),
       density := (if r_model (rep st) \<ge> 0 then r_model (rep st) \<noteq> 0 else True)\<rparr>)"

definition limits_apply :: "cool_limits \<Rightarrow> bool \<Rightarrow> cool \<Rightarrow> cool" where
  "limits_apply hdr fresh st =
     (let h = (if fresh then hdr else no_limits); c = conf st;
          tmax = c ''cool_temp_max''; tres = c ''cool_temp_resume'';
          m = (if o_coolant (off st) then (tmax, False) else gate_effective tmax (l_max h) False);
          res = (if snd m then fst m - (tmax - tres) else tres);
          fmin = (if o_floor (off st) then (0, False) else gate_effective (c ''cool_temp_min'') (l_min h) True);
          rpm = (\<lambda>key v. if c key \<le> 0 then 0 else fst (gate_effective (c key) v True))
      in st\<lparr>lim := \<lparr>e_max = fst m, e_resume = res, e_min = fst fmin, e_from_header = snd m,
                    e_floor_from_header = snd fmin,
                    e_exhaust = rpm ''cool_tach_exhaust_min_rpm'' (l_exhaust h),
                    e_intake = rpm ''cool_tach_intake_min_rpm'' (l_intake h),
                    e_air = rpm ''cool_tach_air_assist_min_rpm'' (l_air h)\<rparr>\<rparr>)"

end
