(* ===== verification/CoolTick.thy ===== *)
theory CoolTick
  imports CoolState
begin

text \<open>
  The cooling engine's tick (\<open>src/cool.c\<close>, \<open>engine_tick\<close> and what it calls), stage by stage in the
  order of the code, and the calls other threads make between two ticks. A stage is a function of
  the tick's input and the state. The log lines, the telemetry that only reaches the log (board
  temperatures, the IR and HV ranges) and the fan rows of the status document are not modelled.
\<close>

section \<open>The flow check\<close>

definition last_n :: "nat \<Rightarrow> 'a list \<Rightarrow> 'a list" where
  "last_n n xs = drop (length xs - n) xs"

text \<open>A ring of \<open>n\<close> samples is the list of the last \<open>n\<close> pushed, oldest first.\<close>

definition push_ring :: "nat \<Rightarrow> 'a \<Rightarrow> 'a list \<Rightarrow> 'a list" where
  "push_ring n x xs = last_n n (xs @ [x])"

definition mean :: "real list \<Rightarrow> real" where
  "mean xs = sum_list xs / of_nat (length xs)"

definition flow_check_start :: "tin \<Rightarrow> cool \<Rightarrow> cool" where
  "flow_check_start i st =
     (let f = fl st; h = f_hist f; c = conf st;
          dose = sum_list (map (\<lambda>v. if v > 0 then of_int v else 0) (x_hv_hist (wat st)));
          f1 = f\<lparr>f_active := True, f_base_set := h \<noteq> [],
                 f_base_down := (if h \<noteq> [] then mean h else f_base_down f),
                 f_end_hist := [], f_hv_dose := dose, f_establish_at := now i + flow_establish_s,
                 f_check_end := now i + c ''cool_flow_check_s'', f_dt_sum := 0, f_dt_n := 0\<rparr>
      in heater_set_pct (nat (floor (c ''cool_flow_heater_pct''))) (st\<lparr>fl := f1\<rparr>))"

text \<open>A check is asked for; it starts when the loop is settled.\<close>

definition flow_request :: "real \<Rightarrow> cool \<Rightarrow> cool" where
  "flow_request t st =
     (let f = fl st in
      if conf st ''cool_flow_check_s'' > 0 \<and> \<not> f_active f \<and> \<not> f_pending f
      then st\<lparr>fl := f\<lparr>f_pending := True, f_pending_since := t, f_settle_warned := False\<rparr>\<rparr> else st)"

section \<open>The run session opens and closes\<close>

definition warmup_msg :: "real \<Rightarrow> real \<Rightarrow> string" where
  "warmup_msg up gate = fit 96 (''WARM-UP: coolant '' @ fmt_f 1 up @ '' C under the '' @ fmt_f 0 gate @
     '' C start gate - heater on, hold'')"

definition flood_reset :: "tin \<Rightarrow> cool \<Rightarrow> cool" where
  "flood_reset i st =
     st\<lparr>fl := (fl st)\<lparr>f_hist := []\<rparr>,
        fan := (fan st)\<lparr>n_gate := replicate 5 airflow_reset, n_alarm := False, n_up := False,
                 n_lost := [0, 0, 0], n_margin_noted := replicate 5 False,
                 n_grace_until := now i + conf st ''cool_fan_grace_s''\<rparr>,
        critical := False\<rparr>"

definition heater_duty :: "cool \<Rightarrow> nat" where
  "heater_duty st = nat (floor (conf st ''cool_flow_heater_pct''))"

text \<open>A session that opens under the warm-up gate holds there: the heater on, the fans idle.\<close>

definition flood_enter :: "tin \<Rightarrow> cool \<Rightarrow> cool" where
  "flood_enter i st =
     (let gate = conf st ''cool_temp_start''; up = read_temp i (water2_open i) st
      in if \<not> o_warmup (off st) \<and> up \<noteq> None \<and> the up < gate
         then warn (warmup_msg (the up) gate)
                (heater_set_pct (heater_duty st) (fans_idle i
                  (st\<lparr>phase := Cool_Warmup,
                      wu := \<lparr>w_gate = gate, w_last_up = the up, w_progress_at = now i,
                             w_stall_warned = False, w_win = []\<rparr>\<rparr>)))
         else fans_run i (st\<lparr>phase := Cool_Run\<rparr>))"

definition flood_flow :: "tin \<Rightarrow> cool \<Rightarrow> cool" where
  "flood_flow i st =
     (let st1 = (if f_verdict (fl st) = Flow_Suspect then st\<lparr>fl := (fl st)\<lparr>f_suspect_since := now i\<rparr>\<rparr> else st)
      in if phase st1 = Cool_Run then flow_request (now i) st1 else st1)"

definition flood_watch :: "cool \<Rightarrow> cool" where
  "flood_watch st =
     st\<lparr>wat := (wat st)\<lparr>x_ir_over := 0, x_fire_alarm := False, x_flame_alert := False,
          x_flame_clear := 0, x_crash := crash_reset, x_poll_errs := 0, x_pgood_warned := False\<rparr>\<rparr>"

definition flood_open :: "tin \<Rightarrow> cool \<Rightarrow> cool" where
  "flood_open i st = flood_watch (flood_flow i (flood_enter i (flood_reset i (conf_reload i st))))"

definition flood_close :: "tin \<Rightarrow> cool \<Rightarrow> cool" where
  "flood_close i st0 =
     (if phase st0 = Cool_Run \<or> phase st0 = Cool_Warmup
      then
        let st1 = (if phase st0 = Cool_Warmup then clear_reason (heater_set_pct 0 st0) else st0);
            st2 = st1\<lparr>phase := Cool_Smoke,
                      phase_until := now i + (if session_armed st1 then conf st1 ''cool_cooldown_s'' else 0),
                      fan := (fan st1)\<lparr>n_alarm := False, n_gate := replicate 5 airflow_reset\<rparr>,
                      wat := (wat st1)\<lparr>x_crash := crash_reset\<rparr>\<rparr>;
            st3 = (if critical st2
                   then (if over_temp st2 then overtemp_warn (st2\<lparr>critical := False\<rparr>)
                         else clear_reason (st2\<lparr>critical := False\<rparr>))
                   else st2);
            st4 = st3\<lparr>fl := (fl st3)\<lparr>f_pending := False, f_held := False\<rparr>\<rparr>
        in if f_active (fl st4) then heater_set_pct 0 (st4\<lparr>fl := (fl st4)\<lparr>f_active := False\<rparr>\<rparr>) else st4
      else st0)"

section \<open>Stages of the tick\<close>

definition fresh_report :: "tin \<Rightarrow> cool \<Rightarrow> bool" where
  "fresh_report i st \<longleftrightarrow> r_at (rep st) \<ge> 0 \<and> now i - r_at (rep st) \<le> report_timeout_s"

text \<open>The dead-man: a controller that went silent with the armed window open or the ring playing.\<close>

definition silence_stop :: "tin \<Rightarrow> cool \<Rightarrow> cool" where
  "silence_stop i st =
     (if r_at (rep st) \<ge> 0 \<and> ((r_armed (rep st) \<and> \<not> silent_safed st) \<or> cnc_running i 0)
      then (if \<not> silent_safed st
            then warn ''controller silent while armed/running - stopping motion, locking laser'' (safe_stop st)
            else safe_stop st)\<lparr>silent_safed := True\<rparr>
      else st)"

definition silence_stand_down :: "cool \<Rightarrow> cool" where
  "silence_stand_down st =
     (if r_at (rep st) \<ge> 0 \<and> \<not> silent_warned st \<and> (flood_on st \<or> phase st = Cool_Run)
      then warn ''controller went silent - standing down'' (st\<lparr>silent_warned := True\<rparr>)
      else st)"

definition stage_silence :: "tin \<Rightarrow> cool \<Rightarrow> cool" where
  "stage_silence i st0 =
     (if fresh_report i st0
      then (limits_apply (r_lim (rep st0)) True st0)\<lparr>silent_warned := False, silent_safed := False\<rparr>
      else silence_stand_down (silence_stop i (limits_apply (r_lim (rep st0)) False st0)))"

definition quiet_hold_ex :: "tin \<Rightarrow> bool \<Rightarrow> bool \<Rightarrow> cool \<Rightarrow> cool" where
  "quiet_hold_ex i on with_pump st0 =
     (let was = quiet_held st0; was_pump = quiet_pump st0;
          st = st0\<lparr>quiet_held := on, quiet_pump := on \<and> with_pump,
                   quiet_since := (if on then now i else quiet_since st0)\<rparr>
      in if on
         then (let st1 = (if \<not> was then fans_quiet i st else st)
               in if with_pump \<and> \<not> was_pump then pump_quiet st1 else st1)
         else if was
         then (let st1 = (if was_pump then (emit [Wr ''thermal/water_pump_on'' 1] st)\<lparr>tec_written := -1\<rparr> else st)
               in fans_apply_phase i (emit [Wr ''head/purge_air'' 1] st1))
         else st)"

definition armed_in :: "tin \<Rightarrow> cool \<Rightarrow> bool" where
  "armed_in i st \<longleftrightarrow> fresh_report i st \<and> r_armed (rep st)"

definition flood_in :: "tin \<Rightarrow> cool \<Rightarrow> bool" where
  "flood_in i st \<longleftrightarrow> fresh_report i st \<and> (r_mode (rep st) = 1 \<or> armed_in i st)"

text \<open>A quiet hold never meets a run session opening, and runs out by the clock.\<close>

definition session_quiet :: "tin \<Rightarrow> bool \<Rightarrow> cool \<Rightarrow> cool" where
  "session_quiet i armed_rose st =
     (if quiet_held st \<and> ((flood_in i st \<and> \<not> flood_on st) \<or> armed_rose)
      then warn ''quiet hold released: a run session opened'' (quiet_hold_ex i False False st)
      else if quiet_held st \<and> now i - quiet_since st > quiet_hold_max_s
      then warn ''quiet hold released: it ran out of time'' (quiet_hold_ex i False False st)
      else st)"

definition session_history :: "tin \<Rightarrow> cool \<Rightarrow> cool" where
  "session_history i st =
     (if flood_in i st \<and> armed_in i st then st\<lparr>session_armed := True\<rparr>
      else if flood_in i st \<and> \<not> flood_on st then st\<lparr>session_armed := False\<rparr> else st)"

text \<open>The per-job profile changed mid-run, or the armed window opened: a fan that sped up gets its grace.\<close>

definition session_duty :: "tin \<Rightarrow> bool \<Rightarrow> cool \<Rightarrow> cool" where
  "session_duty i again st =
     (if again \<and> flood_in i st \<and> flood_on st \<and> phase st = Cool_Run \<and> \<not> forced_cool st
      then let was = n_duty (fan st); s = fans_run i st
           in if list_ex (\<lambda>k. n_duty (fan s) ! k > was ! k) [0, 1, 2]
              then s\<lparr>fan := (fan s)\<lparr>n_grace_until := now i + conf s ''cool_fan_grace_s''\<rparr>\<rparr> else s
      else st)"

definition session_edge :: "tin \<Rightarrow> cool \<Rightarrow> cool" where
  "session_edge i st =
     (if flood_in i st \<noteq> flood_on st
      then if flood_in i st
           then clear_reason (limits_apply (r_lim (rep st)) (fresh_report i st) (flood_open i (st\<lparr>flood_on := True\<rparr>)))
           else flood_close i (st\<lparr>flood_on := False\<rparr>)
      else st)"

definition stage_session :: "tin \<Rightarrow> cool \<Rightarrow> cool" where
  "stage_session i st0 =
     (let armed_rose = (armed_in i st0 \<and> \<not> eff_armed st0);
          duty_changed = (n_run_duty (fan st0) \<noteq> r_duty (rep st0))
      in session_edge i (session_duty i (duty_changed \<or> armed_rose) (session_history i (session_quiet i armed_rose
           (st0\<lparr>fan := (fan st0)\<lparr>n_run_duty := r_duty (rep st0)\<rparr>, eff_armed := armed_in i st0\<rparr>)))))"

text \<open>Emission sensed on the gated output with no armed window in the last three seconds.\<close>

definition stage_emission :: "tin \<Rightarrow> cool \<Rightarrow> cool" where
  "stage_emission i st0 =
     (let armed = (fresh_report i st0 \<and> r_armed (rep st0));
          st = (if armed then st0\<lparr>wat := (wat st0)\<lparr>x_last_armed_at := now i\<rparr>\<rparr> else st0);
          la = x_last_armed_at (wat st)
      in if laser_on i > 0 \<and> (la < 0 \<or> now i - la > 3)
         then let s = safe_stop st;
                  s1 = (if \<not> x_emission_warned (wat s)
                        then warn ''LASER EMISSION SENSED with no armed window - stopping motion, locking laser'' s
                        else s)
              in s1\<lparr>wat := (wat s1)\<lparr>x_emission_warned := True\<rparr>\<rparr>
         else if laser_on i = 0 then st\<lparr>wat := (wat st)\<lparr>x_emission_warned := False\<rparr>\<rparr> else st)"

definition supply_pgood :: "tin \<Rightarrow> cool \<Rightarrow> cool" where
  "supply_pgood i st =
     (if fresh_report i st \<and> r_armed (rep st) \<and> \<not> x_pgood_warned (wat st) \<and> pgood i \<ge> 0 \<and> pgood i < 128
      then warn ''laser supply power-good dropped during the armed window''
             (st\<lparr>wat := (wat st)\<lparr>x_pgood_warned := True\<rparr>\<rparr>)
      else st)"

definition supply_faults :: "tin \<Rightarrow> cool \<Rightarrow> cool" where
  "supply_faults i st0 =
     (let st = (if faults i > 0 \<and> faults i \<noteq> x_last_faults (wat st0) \<and> flood_on st0
                then warn (fit 64 (''stepper driver fault reported (mask '' @ show_int (faults i) @ '')'')) st0 else st0)
      in if faults i \<ge> 0 then st\<lparr>wat := (wat st)\<lparr>x_last_faults := faults i\<rparr>\<rparr> else st)"

definition stage_supply :: "tin \<Rightarrow> cool \<Rightarrow> cool" where
  "stage_supply i st = supply_faults i (supply_pgood i st)"

text \<open>The lid IR quartiles against the two tiers.\<close>

definition over :: "real \<Rightarrow> int \<Rightarrow> bool" where
  "over threshold q \<longleftrightarrow> threshold > 0 \<and> q > floor threshold"

definition ir_crit :: "(string \<Rightarrow> real) \<Rightarrow> int list \<Rightarrow> bool" where
  "ir_crit c q \<longleftrightarrow> over (c ''cool_fire_q1_critical'') (q ! 0) \<or> over (c ''cool_fire_q2_critical'') (q ! 1)"

definition ir_alert :: "(string \<Rightarrow> real) \<Rightarrow> int list \<Rightarrow> bool" where
  "ir_alert c q \<longleftrightarrow> ir_crit c q \<or> over (c ''cool_fire_q1_alert'') (q ! 0) \<or> over (c ''cool_fire_q2_alert'') (q ! 1)"

definition quart :: "int list \<Rightarrow> string" where
  "quart q = show_int (q ! 0) @ '' '' @ show_int (q ! 1)"

definition fire_tier :: "tin \<Rightarrow> int list \<Rightarrow> cool \<Rightarrow> cool" where
  "fire_tier i q st0 =
     (let crit = ir_crit (conf st0) q; n = (if ir_alert (conf st0) q then x_ir_over (wat st0) + 1 else 0);
          w = (wat st0)\<lparr>x_ir_over := n\<rparr>
      in if crit \<and> n \<ge> fire_ir_ticks \<and> \<not> x_fire_alarm w
         then emit [Fail_Tier ''lid IR fire signal'']
                (warn (fit 96 (''LID IR FIRE SIGNAL (quartiles '' @ quart q @
                         '') - motion stopped, laser locked, smoke airflow held''))
                  (fans_run i (safe_stop (st0\<lparr>wat := w\<lparr>x_fire_alarm := True\<rparr>\<rparr>))))
         else if \<not> crit \<and> n \<ge> fire_ir_ticks \<and> \<not> x_flame_alert w \<and> \<not> x_fire_alarm w
         then warn (fit 96 (''lid IR flame alert (quartiles '' @ quart q @
                      '') - job held, fire blocked until the signal clears''))
                (st0\<lparr>wat := w\<lparr>x_flame_alert := True, x_flame_clear := 0\<rparr>\<rparr>)
         else st0\<lparr>wat := w\<rparr>)"

definition fire_release :: "int list \<Rightarrow> cool \<Rightarrow> cool" where
  "fire_release q st =
     (let w = wat st; n = x_flame_clear w + 1 in
      if x_flame_alert w \<and> \<not> ir_alert (conf st) q
      then (if n \<ge> fire_clear_ticks
            then clear_reason (st\<lparr>wat := w\<lparr>x_flame_alert := False, x_flame_clear := n\<rparr>\<rparr>)
            else st\<lparr>wat := w\<lparr>x_flame_clear := n\<rparr>\<rparr>)
      else if x_flame_alert w then st\<lparr>wat := w\<lparr>x_flame_clear := 0\<rparr>\<rparr>
      else st)"

definition have_ir :: "tin \<Rightarrow> bool" where
  "have_ir i \<longleftrightarrow> length (lid_ir i) = 4 \<and> list_all (\<lambda>v. v \<ge> 0) (lid_ir i)"

definition stage_fire :: "tin \<Rightarrow> cool \<Rightarrow> cool" where
  "stage_fire i st =
     (if have_ir i \<and> (phase st = Cool_Run \<or> phase st = Cool_Smoke \<or> phase st = Cool_Thermal)
      then fire_release (sort (lid_ir i)) (fire_tier i (sort (lid_ir i)) st)
      else if x_flame_alert (wat st)
      then st\<lparr>wat := (wat st)\<lparr>x_flame_alert := False, x_flame_clear := 0\<rparr>\<rparr>
      else st)"

definition fire_watch_name :: "cool \<Rightarrow> string" where
  "fire_watch_name st =
     (let w = wat st; c = conf st in
      if x_fire_alarm w then ''ALARM'' else if x_flame_alert w then ''alert''
      else if c ''cool_fire_q1_alert'' > 0 \<or> c ''cool_fire_q1_critical'' > 0 \<or>
              c ''cool_fire_q2_alert'' > 0 \<or> c ''cool_fire_q2_critical'' > 0 then ''armed'' else ''watch'')"

definition stage_hv :: "tin \<Rightarrow> cool \<Rightarrow> cool" where
  "stage_hv i st =
     (let hv = (if phase st = Cool_Run then hv_current i else -1)
      in st\<lparr>wat := (wat st)\<lparr>x_hv_last := hv, x_hv_hist := push_ring flow_lag_s hv (x_hv_hist (wat st))\<rparr>,
            pub := (pub st)\<lparr>p_fire_watch := fire_watch_name st\<rparr>\<rparr>)"

subsection \<open>The crash watch\<close>

definition crash_open_try :: "tin \<Rightarrow> cool \<Rightarrow> cool" where
  "crash_open_try i st =
     (if x_hw_state (wat st) \<noteq> 0 then st
      else if crash_open i then emit [Accel ''open''] (st\<lparr>wat := (wat st)\<lparr>x_hw_state := 1\<rparr>\<rparr>)
      else warn ''head accelerometer not answering - crash watch off''
             (emit [Accel ''open''] (st\<lparr>wat := (wat st)\<lparr>x_hw_state := -1\<rparr>\<rparr>)))"

definition crash_arm_hw :: "tin \<Rightarrow> cool \<Rightarrow> cool" where
  "crash_arm_hw i st =
     (if x_hw_state (wat st) \<le> 0 then st
      else if crash_arm i then emit [Accel ''arm''] (st\<lparr>wat := (wat st)\<lparr>x_hw_armed := True\<rparr>\<rparr>)
      else warn ''head accelerometer arm failed - crash watch off''
             (emit [Accel ''arm''] (st\<lparr>wat := (wat st)\<lparr>x_hw_state := -1\<rparr>\<rparr>)))"

definition crash_arm_try :: "tin \<Rightarrow> cool \<Rightarrow> cool" where
  "crash_arm_try i st = crash_arm_hw i (crash_open_try i st)"

definition crash_poll_one :: "tin \<Rightarrow> cool \<Rightarrow> cool" where
  "crash_poll_one i st =
     (case crash_poll i of
        Some (s1, s2) \<Rightarrow>
          (let r = crash_tick s1 s2 (x_crash (wat st));
               st1 = st\<lparr>wat := (wat st)\<lparr>x_poll_errs := 0, x_crash := snd r\<rparr>\<rparr>;
               ax = crash_axes_name (k_axes (snd r))
           in case fst r of
                CrashEv_Alarm \<Rightarrow>
                  emit [Fail_Tier ''head crash signal'']
                    (warn (fit 96 (''HEAD CRASH SIGNAL (axes '' @ ax @ '') - motion stopped, laser locked'')) (safe_stop st1))
              | CrashEv_Alert \<Rightarrow>
                  warn (fit 96 (''head bump alert (axes '' @ ax @ '') - job held, fire blocked until the signal clears'')) st1
              | CrashEv_Released \<Rightarrow> clear_reason st1
              | CrashEv_None \<Rightarrow> st1)
      | None \<Rightarrow>
          (let n = x_poll_errs (wat st) + 1; st1 = st\<lparr>wat := (wat st)\<lparr>x_poll_errs := n\<rparr>\<rparr>
           in if n \<ge> 3
              then warn ''head accelerometer stopped answering - crash watch down for this session''
                     (emit [Accel ''disarm''] (st1\<lparr>wat := (wat st1)\<lparr>x_hw_armed := False\<rparr>\<rparr>))
              else st1))"

definition stage_crash :: "tin \<Rightarrow> cool \<Rightarrow> cool" where
  "stage_crash i st0 =
     (let c = conf st0; w = wat st0;
          want = (eff_armed st0 \<and> (c ''cool_accel_x_alert'' > 0 \<or> c ''cool_accel_y_alert'' > 0 \<or> c ''cool_accel_abort'' > 0));
          st1 = (if want \<and> \<not> x_hw_armed w \<and> x_hw_state w \<ge> 0 \<and> x_poll_errs w < 3 then crash_arm_try i st0
                 else if \<not> want \<and> x_hw_armed w
                 then emit [Accel ''disarm''] (st0\<lparr>wat := w\<lparr>x_hw_armed := False, x_poll_errs := 0\<rparr>\<rparr>)
                 else st0);
          st2 = (if x_hw_armed (wat st1) then crash_poll_one i st1 else st1); w2 = wat st2
      in st2\<lparr>pub := (pub st2)\<lparr>p_accel_watch :=
               (if k_alarm (x_crash w2) then ''ALARM'' else if k_alert (x_crash w2) then ''alert''
                else if x_hw_state w2 < 0 \<or> x_poll_errs w2 \<ge> 3 then ''off''
                else if x_hw_armed w2 then ''armed'' else ''watch'')\<rparr>\<rparr>)"

end
