(* ===== verification/CoolEngine.thy ===== *)
theory CoolEngine
  imports CoolTick
begin

text \<open>
  The rest of the cooling engine's tick (\<open>src/cool.c\<close>): the airflow gates, the coolant gates, the
  warm-up, the flow interrogation, the cooldown, the TEC and the published verdict, the whole tick,
  and the calls of the other threads.
\<close>

section \<open>The airflow gates\<close>

definition fan_names :: "string list" where
  "fan_names = [''exhaust'', ''intake_1'', ''intake_2'', ''air_assist'', ''purge'']"

definition fan_duty_ix :: "nat \<Rightarrow> nat option" where
  "fan_duty_ix k = [Some 1, Some 2, Some 2, Some 0, None] ! k"

definition fan_local :: "nat \<Rightarrow> int" where
  "fan_local ix = [air_assist_run, exhaust_run, intake_run] ! ix"

definition one_intake :: "cool \<Rightarrow> bool" where
  "one_intake st \<longleftrightarrow> conf st ''cool_intake_fans'' = 1"

definition fan_reading :: "tin \<Rightarrow> nat \<Rightarrow> real" where
  "fan_reading i k =
     [airflow_rpm (tach_exhaust i) 1000000000 2, airflow_rpm (tach_intake1 i) 1000000000 2,
      airflow_rpm (tach_intake2 i) 1000000000 2, airflow_rpm (tach_air i) 1000000 8,
      (if purge_cur i > 0 then of_int (purge_cur i) else 0)] ! k"

definition fan_floor :: "cool \<Rightarrow> nat \<Rightarrow> real" where
  "fan_floor st k =
     [e_exhaust (lim st), e_intake (lim st), (if one_intake st then 0 else e_intake (lim st)),
      e_air (lim st), conf st ''cool_purge_min_current''] ! k"

definition fan_judged :: "cool \<Rightarrow> nat \<Rightarrow> bool" where
  "fan_judged st k =
     (let run = (phase st = Cool_Run) in
      if k = 2 \<and> one_intake st then False
      else case fan_duty_ix k of
        None \<Rightarrow> airflow_judged run (eff_armed st) 1 1
      | Some dx \<Rightarrow> airflow_judged run (eff_armed st) (n_duty (fan st) ! dx) (fan_local dx))"

definition airflow_msg :: "tin \<Rightarrow> cool \<Rightarrow> nat \<Rightarrow> string" where
  "airflow_msg i st k =
     fit cool_reason_max (''AIRFLOW: '' @ fan_names ! k @ '' '' @ fmt_f 0 (fan_reading i k) @ '' under the '' @
       fmt_f 0 (fan_floor st k) @ '' floor for '' @ show_int airflow_debounce_ticks @ '' s'' @
       (case fan_duty_ix k of None \<Rightarrow> []
        | Some dx \<Rightarrow> fit 40 ('' (duty '' @ show_int (n_cmd (fan st) ! dx) @ '', reads '' @
                             show_int (n_back (fan st) ! dx) @ '')'')) @
       '' - hold, no resume this job'')"

definition airflow_one :: "tin \<Rightarrow> bool \<Rightarrow> nat \<Rightarrow> cool \<Rightarrow> cool" where
  "airflow_one i in_grace k st =
     (if \<not> fan_judged st k then st
      else
        let rd = fan_reading i k; fl' = fan_floor st k;
            g = airflow_tick rd fl' in_grace (n_gate (fan st) ! k);
            st1 = st\<lparr>fan := (fan st)\<lparr>n_gate := (n_gate (fan st))[k := g]\<rparr>\<rparr>;
            near = (\<not> in_grace \<and> \<not> n_margin_noted (fan st) ! k \<and> fl' > 0 \<and> rd \<ge> fl' \<and> rd < fl' * (110/100));
            st2 = (if near
                   then emit [Setup_Flag ''airflow'' (fit 96 (fan_names ! k @ '' ran within 10 percent of its floor ('' @
                                fmt_f 0 rd @ '' of '' @ fmt_f 0 fl' @ '')''))]
                          (st1\<lparr>fan := (fan st1)\<lparr>n_margin_noted := (n_margin_noted (fan st1))[k := True]\<rparr>\<rparr>)
                   else st1)
        in if fstate g = Air_Tripped \<and> \<not> n_alarm (fan st2)
           then warn (airflow_msg i st2 k) (st2\<lparr>fan := (fan st2)\<lparr>n_alarm := True\<rparr>\<rparr>)
           else st2)"

definition stage_airflow :: "tin \<Rightarrow> cool \<Rightarrow> cool" where
  "stage_airflow i st0 =
     (let st = fans_verify i st0;
          in_grace = (now i < n_grace_until (fan st));
          up_now = list_all (\<lambda>k. \<not> (fan_judged st k \<and> fan_floor st k > 0 \<and> fan_reading i k < fan_floor st k))
                     [0, 1, 2, 3, 4];
          st1 = fold (airflow_one i in_grace) [0, 1, 2, 3, 4] st
      in st1\<lparr>fan := (fan st1)\<lparr>n_up := flood_on st1 \<and> up_now\<rparr>\<rparr>)"

section \<open>The coolant\<close>

definition sensor_msg :: "bool \<Rightarrow> bool \<Rightarrow> nat \<Rightarrow> string" where
  "sensor_msg have_down have_up n =
     fit 112 (''SENSOR: coolant '' @
       (if \<not> have_down \<and> \<not> have_up then ''sensors'' else if \<not> have_up then ''upstream sensor'' else ''downstream sensor'') @
       '' unreadable for '' @ show_nat n @ '' s - fire blocked, hold, heater off'')"

definition sensors_back :: "tin \<Rightarrow> cool \<Rightarrow> cool" where
  "sensors_back i st0 =
     (let st = (if over_temp st0 then overtemp_warn (st0\<lparr>sensor_alarm := False\<rparr>)
                else clear_reason (st0\<lparr>sensor_alarm := False\<rparr>))
      in if phase st0 = Cool_Warmup then heater_set_pct (heater_duty st0) st
         else if phase st0 = Cool_Run then flow_request (now i) st else st)"

definition abandon_check :: "cool \<Rightarrow> cool" where
  "abandon_check st = (if f_active (fl st) then st\<lparr>fl := (fl st)\<lparr>f_active := False, f_hist := []\<rparr>\<rparr> else st)"

text \<open>Both readings, or the count of blind ticks: at two the alarm stands and the heater goes off.\<close>

definition stage_sensors :: "tin \<Rightarrow> real option \<Rightarrow> real option \<Rightarrow> cool \<Rightarrow> cool" where
  "stage_sensors i down up st =
     (if down \<noteq> None \<and> up \<noteq> None
      then (if sensor_alarm st then sensors_back i (st\<lparr>sensor_fail := 0\<rparr>) else st\<lparr>sensor_fail := 0\<rparr>)
      else
        let n = min (sensor_fail st + 1) (2 ^ 32 - 1)
        in if \<not> sensor_alarm st \<and> n \<ge> sensor_fail_max
           then heater_set_pct 0 (abandon_check (warn (sensor_msg (down \<noteq> None) (up \<noteq> None) n)
                  (st\<lparr>sensor_fail := n, sensor_alarm := True\<rparr>)))
           else st\<lparr>sensor_fail := n\<rparr>)"

definition stage_ceiling :: "tin \<Rightarrow> real option \<Rightarrow> cool \<Rightarrow> cool" where
  "stage_ceiling i up st =
     (case up of None \<Rightarrow> st
      | Some u \<Rightarrow>
        if o_coolant (off st)
        then (if over_temp st
              then (let st1 = clear_reason (st\<lparr>over_temp := False\<rparr>)
                    in if forced_cool st1 then fans_apply_phase i (st1\<lparr>forced_cool := False\<rparr>) else st1)
              else st)
        else
          let was = over_temp st;
              is_over = (u > (if was then e_resume (lim st) else e_max (lim st)));
              st1 = st\<lparr>over_temp := is_over\<rparr>
          in if is_over \<and> \<not> was
             then (let st2 = overtemp_warn (st1\<lparr>last_up := u\<rparr>)
                   in if phase st2 \<noteq> Cool_Run then (fans_cool i st2)\<lparr>forced_cool := True\<rparr> else st2)
             else if \<not> is_over \<and> was
             then (let st2 = clear_reason st1
                   in if forced_cool st2 then fans_apply_phase i (st2\<lparr>forced_cool := False\<rparr>) else st2)
             else st1)"

definition cold_msg :: "cool \<Rightarrow> real \<Rightarrow> string" where
  "cold_msg st u =
     fit 96 (''COLD: coolant '' @ fmt_f 1 u @ '' C under the '' @ fmt_f 1 (e_min (lim st)) @ '' C floor'' @
       (if e_floor_from_header (lim st) then '' (the job'' @ [CHR 0x27] @ ''s)'' else []) @
       '' - fire blocked until '' @ fmt_f 1 (e_min (lim st) + temp_min_hyst_c) @ '' C'')"

definition stage_floor :: "real option \<Rightarrow> cool \<Rightarrow> cool" where
  "stage_floor up st =
     (if up \<noteq> None \<and> \<not> o_floor (off st)
      then
        let was = cold st; u = the up; is_cold = gate_floor_trip was u (e_min (lim st)) temp_min_hyst_c;
            st1 = st\<lparr>cold := is_cold\<rparr>
        in if is_cold \<and> \<not> was then warn (cold_msg st1 u) st1
           else if \<not> is_cold \<and> was then clear_reason st1 else st1
      else if cold st \<and> o_floor (off st) then clear_reason (st\<lparr>cold := False\<rparr>)
      else st)"

definition stall_msg :: "real \<Rightarrow> real \<Rightarrow> string" where
  "stall_msg bulk gate =
     fit 96 (''warm-up stalled: coolant '' @ fmt_f 1 bulk @ '' C flat for 300 s, gate '' @ fmt_f 0 gate @
       '' C - lower it or warm the room'')"

definition stage_warmup :: "tin \<Rightarrow> real option \<Rightarrow> cool \<Rightarrow> cool" where
  "stage_warmup i up st0 =
     (if phase st0 = Cool_Warmup \<and> up \<noteq> None
      then
        let u = the up; win = push_ring warmup_win_n u (w_win (wu st0));
            st = st0\<lparr>wu := (wu st0)\<lparr>w_win := win\<rparr>\<rparr>; w = wu st;
            full = (length win \<ge> warmup_win_n);
            bulk = (if full then fold min win u else u)
        in if full \<and> bulk \<ge> w_gate w
           then (let st1 = fans_run i ((heater_set_pct 0 st)\<lparr>phase := Cool_Run\<rparr>);
                     st2 = st1\<lparr>fan := (fan st1)\<lparr>n_grace_until := now i + conf st1 ''cool_fan_grace_s''\<rparr>,
                               fl := (fl st1)\<lparr>f_hist := []\<rparr>\<rparr>
                 in clear_reason (flow_request (now i) st2))
           else if bulk \<ge> w_last_up w + warmup_stall_c
           then st\<lparr>wu := w\<lparr>w_last_up := bulk, w_progress_at := now i\<rparr>\<rparr>
           else if \<not> w_stall_warned w \<and> now i - w_progress_at w > warmup_stall_s
           then warn (stall_msg bulk (w_gate w)) (st\<lparr>wu := w\<lparr>w_stall_warned := True\<rparr>\<rparr>)
           else st
      else st0)"

definition critical_msg :: "real \<Rightarrow> real \<Rightarrow> string" where
  "critical_msg u line =
     fit 96 (''CRITICAL: coolant '' @ fmt_f 1 u @ '' C at or over the '' @ fmt_f 0 line @
       '' C critical line - hold, no resume this job'')"

definition stage_critical :: "real option \<Rightarrow> cool \<Rightarrow> cool" where
  "stage_critical up st =
     (let line = conf st ''cool_temp_critical_c'' in
      if up \<noteq> None \<and> phase st = Cool_Run \<and> \<not> o_critical (off st) \<and> \<not> critical st \<and> the up \<ge> line
      then warn (critical_msg (the up) line) (st\<lparr>critical := True\<rparr>)
      else st)"

section \<open>The flow interrogation\<close>

definition flow_msg :: "string \<Rightarrow> string \<Rightarrow> cool \<Rightarrow> real \<Rightarrow> real \<Rightarrow> string \<Rightarrow> string" where
  "flow_msg what tail st rise dt laser =
     fit 112 (what @ '': heater rise '' @ fmt_f 1 rise @ '' C (limit '' @ fmt_f 1 (conf st ''cool_flow_rise'') @
       '', dT '' @ fmt_f 1 dt @ laser @ '') - '' @ tail)"

text \<open>Two faults in a row recommend the flow calibration.\<close>

definition flow_fault_noted :: "cool \<Rightarrow> cool" where
  "flow_fault_noted st =
     (let n = f_streak (fl st) + 1; st1 = st\<lparr>fl := (fl st)\<lparr>f_streak := n\<rparr>\<rparr>
      in if n = 2 then emit [Setup_Flag ''cooling.flow'' ''a coolant flow fault twice in a row''] st1 else st1)"

definition laser_share :: "cool \<Rightarrow> real" where
  "laser_share st =
     (let k = (if density st then conf st ''cool_laser_heat_density'' else conf st ''cool_laser_heat_cw'')
      in min laser_heat_max_c (max 0 (f_hv_dose (fl st) * k)))"

definition flow_rise :: "cool \<Rightarrow> real" where
  "flow_rise st = mean (f_end_hist (fl st)) - f_base_down (fl st) - laser_share st"

definition flow_finish :: "tin \<Rightarrow> cool \<Rightarrow> cool" where
  "flow_finish i st =
     heater_set_pct 0 (st\<lparr>fl := (fl st)\<lparr>f_active := False, f_next_check := now i + conf st ''cool_recheck_s''\<rparr>\<rparr>)"

definition flow_dt :: "cool \<Rightarrow> real" where
  "flow_dt st = (if f_dt_n (fl st) > 0 then f_dt_sum (fl st) / of_nat (f_dt_n (fl st)) else 0)"

definition flow_laser_text :: "cool \<Rightarrow> string" where
  "flow_laser_text st =
     (let lc = laser_share st
      in if lc \<ge> 5/100 then fit 32 (''; laser '' @ fmt_f 1 lc @ '' off '' @ fmt_f 1 (flow_rise st + lc)) else [])"

text \<open>Over the limit: the first opens a suspicion, the next confirms it.\<close>

definition flow_over :: "tin \<Rightarrow> real \<Rightarrow> real \<Rightarrow> string \<Rightarrow> cool \<Rightarrow> cool" where
  "flow_over i rise dt laser st =
     (if f_verdict (fl st) = Flow_Normal
      then warn (flow_msg ''COOLANT FLOW SUSPECT'' ''re-checking'' st rise dt laser)
             (st\<lparr>fl := (fl st)\<lparr>f_verdict := Flow_Suspect, f_suspect_since := now i, f_pending := True,
                         f_pending_since := now i, f_settle_warned := False\<rparr>\<rparr>)
      else warn (flow_msg ''COOLANT FLOW FAULT'' ''check the pump'' st rise dt laser)
             (flow_fault_noted (st\<lparr>fl := (fl st)\<lparr>f_verdict := Flow_Fault\<rparr>\<rparr>)))"

definition flow_clean :: "cool \<Rightarrow> cool" where
  "flow_clean st =
     (if f_verdict (fl st) = Flow_Normal then st
      else
        let n = f_episodes (fl st) + 1;
            st1 = clear_reason (st\<lparr>fl := (fl st)\<lparr>f_verdict := Flow_Normal, f_streak := 0, f_episodes := n\<rparr>\<rparr>)
        in if n = flow_trend_n
           then warn (fit 112 (show_nat n @ '' coolant flow suspicions this job - check the pump and coolant level'')) st1
           else st1)"

definition flow_done :: "tin \<Rightarrow> cool \<Rightarrow> cool" where
  "flow_done i st =
     (if flow_rise st > conf st ''cool_flow_rise''
      then flow_over i (flow_rise st) (flow_dt st) (flow_laser_text st) (flow_finish i st)
      else flow_clean (flow_finish i st))"

definition stage_flow :: "tin \<Rightarrow> real option \<Rightarrow> real option \<Rightarrow> cool \<Rightarrow> cool" where
  "stage_flow i down up st0 =
     (if f_active (fl st0) \<and> down \<noteq> None \<and> up \<noteq> None
      then
        let d = the down; f0 = fl st0;
            f1 = (if f_base_set f0 then f0 else f0\<lparr>f_base_down := d, f_base_set := True\<rparr>);
            f2 = f1\<lparr>f_end_hist := push_ring flow_end_win d (f_end_hist f1)\<rparr>;
            hv = x_hv_last (wat st0);
            f3 = (if hv > 0 \<and> now i < f_check_end f2 - of_nat flow_lag_s
                  then f2\<lparr>f_hv_dose := f_hv_dose f2 + of_int hv\<rparr> else f2);
            f4 = (if now i \<ge> f_establish_at f3
                  then f3\<lparr>f_dt_sum := f_dt_sum f3 + (d - the up), f_dt_n := f_dt_n f3 + 1\<rparr> else f3);
            st = st0\<lparr>fl := f4\<rparr>
        in if now i \<ge> f_check_end f4 then flow_done i st else st
      else if phase st0 = Cool_Run \<and> conf st0 ''cool_flow_check_s'' > 0 \<and> conf st0 ''cool_recheck_s'' > 0 \<and>
              \<not> f_pending (fl st0) \<and> now i \<ge> f_next_check (fl st0)
      then st0\<lparr>fl := (fl st0)\<lparr>f_pending := True, f_pending_since := now i, f_settle_warned := False\<rparr>\<rparr>
      else st0)"

text \<open>A suspicion may not sit unresolved while a run is on.\<close>

definition stage_suspect :: "tin \<Rightarrow> cool \<Rightarrow> cool" where
  "stage_suspect i st =
     (if f_verdict (fl st) = Flow_Suspect \<and> \<not> f_active (fl st) \<and> phase st = Cool_Run \<and>
         now i - f_suspect_since (fl st) > conf st ''cool_confirm_max_s''
      then warn (fit 96 (''COOLANT FLOW FAULT: no clean re-check within '' @
                   show_int (floor (conf st ''cool_confirm_max_s'')) @ '' s - check the pump''))
             (flow_fault_noted (st\<lparr>fl := (fl st)\<lparr>f_verdict := Flow_Fault\<rparr>\<rparr>))
      else st)"

definition stage_history :: "tin \<Rightarrow> real option \<Rightarrow> cool \<Rightarrow> cool" where
  "stage_history i down st0 =
     (let f = fl st0;
          st = (case down of None \<Rightarrow> st0
                | Some d \<Rightarrow> st0\<lparr>fl := f\<lparr>f_hist := (if f_active f then [] else push_ring flow_settle_win d (f_hist f))\<rparr>\<rparr>)
      in if f_held (fl st) \<and> now i - f_hold_since (fl st) > flow_hold_max_s
         then warn ''flow check hold released: it ran out of time'' (st\<lparr>fl := (fl st)\<lparr>f_held := False\<rparr>\<rparr>)
         else st)"

text \<open>The downstream reading is stationary: the newer half of the window against the older.\<close>

definition stationary :: "real list \<Rightarrow> bool" where
  "stationary h \<longleftrightarrow> length h \<ge> flow_settle_win \<and>
     \<bar>sum_list (drop 7 h) / 8 - sum_list (take 7 h) / 7\<bar> \<le> flow_settle_drift_c"

definition stage_settle :: "tin \<Rightarrow> real option \<Rightarrow> real option \<Rightarrow> cool \<Rightarrow> cool" where
  "stage_settle i down up st =
     (let f = fl st in
      if f_pending f \<and> \<not> f_active f \<and> \<not> f_held f \<and> down \<noteq> None \<and> up \<noteq> None
      then
        let dT = the down - the up; still = stationary (f_hist f) in
        if still \<and> \<bar>dT\<bar> \<le> flow_settle_dt_c
        then flow_check_start i (st\<lparr>fl := f\<lparr>f_pending := False\<rparr>\<rparr>)
        else if \<not> f_settle_warned f \<and> now i - f_pending_since f > flow_settle_warn_s
        then warn (fit 96 (''flow check deferred: loop not settled (dT '' @ fmt_f 1 dT @ '' C, '' @
                     (if still then ''drifting'' else ''sensors disagree'') @ '')''))
               (st\<lparr>fl := f\<lparr>f_settle_warned := True\<rparr>\<rparr>)
        else st
      else st)"

section \<open>Cooldown and TEC\<close>

definition go_idle :: "tin \<Rightarrow> cool \<Rightarrow> cool" where
  "go_idle i st0 = (let st = fans_idle i (st0\<lparr>phase := Cool_Idle\<rparr>) in st\<lparr>fl := (fl st)\<lparr>f_episodes := 0\<rparr>\<rparr>)"

definition start_cool_end :: "tin \<Rightarrow> cool \<Rightarrow> cool" where
  "start_cool_end i st = (if start_cool st \<and> phase st = Cool_Idle \<and> machine_idle i then fans_idle i st else st)"

definition smoke_end :: "tin \<Rightarrow> real option \<Rightarrow> cool \<Rightarrow> cool" where
  "smoke_end i up st =
     (if (up \<noteq> None \<and> the up > conf st ''cool_temp_resume'') \<or> cnc_running i 1
      then fans_cool i (st\<lparr>phase := Cool_Thermal, phase_until := now i + conf st ''cool_cooldown_max_s''\<rparr>)
      else go_idle i st)"

definition thermal_step :: "tin \<Rightarrow> real option \<Rightarrow> cool \<Rightarrow> cool" where
  "thermal_step i up st =
     (let recovered = (up \<noteq> None \<and> the up \<le> conf st ''cool_temp_resume''); over_now = (recovered \<or> now i \<ge> phase_until st)
      in if over_now \<and> cnc_running i 1 then st\<lparr>phase_until := now i + conf st ''cool_cooldown_max_s''\<rparr>
         else if over_now
         then go_idle i (if \<not> recovered then warn ''thermal cooldown timed out above the resume gate'' st else st)
         else st)"

definition cooldown_step :: "tin \<Rightarrow> real option \<Rightarrow> cool \<Rightarrow> cool" where
  "cooldown_step i up st =
     (if phase st = Cool_Smoke \<and> now i \<ge> phase_until st then smoke_end i up st
      else if phase st = Cool_Thermal then thermal_step i up st else st)"

definition stage_cooldown :: "tin \<Rightarrow> real option \<Rightarrow> cool \<Rightarrow> cool" where
  "stage_cooldown i up st = cooldown_step i up (start_cool_end i st)"

definition has_airflow :: "cool \<Rightarrow> bool" where
  "has_airflow st \<longleftrightarrow> phase st = Cool_Run \<or> phase st = Cool_Smoke \<or> phase st = Cool_Thermal \<or> forced_cool st"

definition tec_want :: "tin \<Rightarrow> real option \<Rightarrow> cool \<Rightarrow> bool" where
  "tec_want i up st =
     (let c = conf st;
          want0 = (c ''cool_tec_present'' > 0 \<and> up \<noteq> None \<and> has_airflow st \<and>
                   the up > (if tec_on st then c ''cool_tec_off_c'' else c ''cool_tec_on_c''));
          want1 = (if \<not> o_floor (off st) \<and> up \<noteq> None \<and> the up \<le> e_min (lim st) + temp_min_hyst_c then False else want0)
      in if want1 \<and> \<not> tec_on st \<and> tec_switched_at st > 0 \<and> now i - tec_switched_at st < tec_dwell_s
         then tec_on st else want1)"

definition tec_switch :: "tin \<Rightarrow> real option \<Rightarrow> cool \<Rightarrow> cool" where
  "tec_switch i up st =
     (if tec_want i up st \<noteq> tec_on st then st\<lparr>tec_on := tec_want i up st, tec_switched_at := now i\<rparr> else st)"

definition tec_write :: "cool \<Rightarrow> cool" where
  "tec_write st =
     (let v = (if tec_on st then 1 else 0)
      in if tec_written st \<noteq> v \<and> \<not> quiet_pump st then (emit [Wr ''thermal/tec_on'' v] st)\<lparr>tec_written := v\<rparr> else st)"

definition stage_tec :: "tin \<Rightarrow> real option \<Rightarrow> cool \<Rightarrow> cool" where
  "stage_tec i up st = tec_write (tec_switch i up st)"

section \<open>The verdict\<close>

definition verdict_of :: "bool \<Rightarrow> cool \<Rightarrow> string" where
  "verdict_of ext st =
     (let w = wat st in
      if x_fire_alarm w then ''FIRE'' else if k_alarm (x_crash w) then ''CRASH''
      else if x_flame_alert w then ''FLAME'' else if k_alert (x_crash w) then ''BUMP''
      else if n_alarm (fan st) then ''AIRFLOW'' else if critical st then ''CRITICAL''
      else if sensor_alarm st then ''SENSOR'' else if over_temp st then ''OVERTEMP''
      else if cold st then ''COLD'' else if phase st = Cool_Warmup then ''WARMUP''
      else if f_verdict (fl st) = Flow_Fault then ''FAULT''
      else if f_verdict (fl st) = Flow_Suspect then ''SUSPECT''
      else if ext then ''EXT'' else ''OK'')"

definition fault_stands :: "cool \<Rightarrow> bool" where
  "fault_stands st \<longleftrightarrow> x_fire_alarm (wat st) \<or> k_alarm (x_crash (wat st)) \<or> x_flame_alert (wat st) \<or>
     k_alert (x_crash (wat st)) \<or> n_alarm (fan st) \<or> critical st \<or> sensor_alarm st \<or> over_temp st \<or> cold st \<or>
     phase st = Cool_Warmup"

definition hold_of :: "bool \<Rightarrow> cool \<Rightarrow> bool" where
  "hold_of ext st \<longleftrightarrow> fault_stands st \<or> (eff_armed st \<and> f_verdict (fl st) \<noteq> Flow_Normal) \<or> ext"

definition fire_ok_of :: "bool \<Rightarrow> bool \<Rightarrow> cool \<Rightarrow> bool" where
  "fire_ok_of fresh ext st \<longleftrightarrow> fresh \<and> \<not> fault_stands st \<and> f_verdict (fl st) \<noteq> Flow_Fault \<and> \<not> ext"

definition verdict_body_max :: nat where "verdict_body_max = 384"

definition verdict_doc :: "nat \<Rightarrow> real \<Rightarrow> published \<Rightarrow> string" where
  "verdict_doc n stamp p =
     ''{'' @ [dquote] @ ''seq'' @ [dquote] @ '':'' @ show_nat n @ '','' @ [dquote] @ ''ts_mono'' @ [dquote] @ '':'' @ fmt_f 3 stamp @
     '','' @ [dquote] @ ''fire_ok'' @ [dquote] @ '':'' @ json_bool (p_fire_ok p) @ '','' @ [dquote] @ ''verdict'' @ [dquote] @ '':'' @
     [dquote] @ p_verdict p @ [dquote] @ '','' @ [dquote] @ ''hold'' @ [dquote] @ '':'' @ json_bool (p_hold p) @ '','' @
     [dquote] @ ''resume_ok'' @ [dquote] @ '':'' @ json_bool (\<not> p_hold p) @ '','' @ [dquote] @ ''armed'' @ [dquote] @ '':'' @
     json_bool (p_armed_ack p) @ '','' @ [dquote] @ ''reason'' @ [dquote] @ '':'' @ [dquote] @ p_reason p @ [dquote] @ '','' @
     [dquote] @ ''down_c'' @ [dquote] @ '':'' @ fmt_f 2 (p_down p) @ '','' @ [dquote] @ ''up_c'' @ [dquote] @ '':'' @ fmt_f 2 (p_up p) @
     ''}'' @ [newline]"

definition no_temp :: real where "no_temp = - 27315/100"

definition verdict_publish :: "tin \<Rightarrow> bool \<Rightarrow> string \<Rightarrow> bool \<Rightarrow> real option \<Rightarrow> real option \<Rightarrow> cool \<Rightarrow> cool" where
  "verdict_publish i fire_ok verdict hold down up st0 =
     (let p = (pub st0)\<lparr>p_verdict := fit cool_verdict_max verdict, p_fire_ok := fire_ok, p_hold := hold,
                p_armed_ack := eff_armed st0 \<and> n_up (fan st0), p_down := or_else down no_temp, p_up := or_else up no_temp\<rparr>;
          st = st0\<lparr>pub := p, seq := seq st0 + 1\<rparr>;
          doc = verdict_doc (seq st) (of_int (floor (pub_at i * 1000)) / 1000) p
      in if length doc \<ge> verdict_body_max \<or> \<not> vfile_ok i then st else emit [Verdict_File doc] st)"

definition phase_name :: "cool_phase \<Rightarrow> string" where
  "phase_name p = (case p of Cool_Run \<Rightarrow> ''run'' | Cool_Warmup \<Rightarrow> ''warm-up'' | Cool_Smoke \<Rightarrow> ''smoke''
     | Cool_Thermal \<Rightarrow> ''thermal'' | Cool_Idle \<Rightarrow> ''idle'')"

definition stage_publish :: "tin \<Rightarrow> real option \<Rightarrow> real option \<Rightarrow> cool \<Rightarrow> cool" where
  "stage_publish i down up st0 =
     (let fresh = fresh_report i st0; ext = ext_holds_read i; st1 = ext_holds_log ext st0;
          v = verdict_of (standing ext) st1;
          st2 = (if v = ''EXT'' then upd_reason (reason ext) st1 else st1);
          st3 = st2\<lparr>pub := (pub st2)\<lparr>p_phase := phase_name (phase st2)\<rparr>\<rparr>
      in verdict_publish i (fire_ok_of fresh (standing ext) st3) v (hold_of (standing ext) st3) down up st3)"

definition tick_front :: "tin \<Rightarrow> cool \<Rightarrow> cool" where
  "tick_front i st =
     stage_airflow i (stage_crash i (stage_hv i (stage_fire i (stage_supply i (stage_emission i
       (stage_session i (stage_silence i st)))))))"

definition tick_coolant :: "tin \<Rightarrow> real option \<Rightarrow> real option \<Rightarrow> cool \<Rightarrow> cool" where
  "tick_coolant i down up st =
     stage_critical up (stage_warmup i up (stage_floor up (stage_ceiling i up (stage_sensors i down up st))))"

definition tick_flow :: "tin \<Rightarrow> real option \<Rightarrow> real option \<Rightarrow> cool \<Rightarrow> cool" where
  "tick_flow i down up st = stage_settle i down up (stage_history i down (stage_suspect i (stage_flow i down up st)))"

definition tick_back :: "tin \<Rightarrow> real option \<Rightarrow> real option \<Rightarrow> cool \<Rightarrow> cool" where
  "tick_back i down up st = stage_tec i up (stage_cooldown i up (tick_flow i down up (tick_coolant i down up st)))"

definition engine_tick :: "tin \<Rightarrow> cool \<Rightarrow> cool" where
  "engine_tick i st0 =
     (if diag_owned st0
      then verdict_publish i False ''OK'' True None None (st0\<lparr>pub := (pub st0)\<lparr>p_phase := ''diag''\<rparr>\<rparr>)
      else
        let st1 = tick_front i st0; down = read_temp i (water1 i) st1; up = read_temp i (water2 i) st1
        in stage_publish i down up (tick_back i down up st1))"

section \<open>The other threads\<close>

definition cool_state_report :: "real \<Rightarrow> string \<Rightarrow> bool \<Rightarrow> int list \<Rightarrow> cool_limits option \<Rightarrow> cool \<Rightarrow> cool option" where
  "cool_state_report t mode armed duty l st =
     (case map_of [(''idle'', 0), (''run'', 1), (''cooldown'', 2)] mode of
        None \<Rightarrow> None
      | Some m \<Rightarrow>
          Some (st\<lparr>rep := (rep st)\<lparr>r_mode := m, r_armed := armed,
                 r_duty := map (\<lambda>(d, top). if d \<ge> 0 \<and> d \<le> top then d else -1) (zip duty [1023, 65535, 65535]),
                 r_lim := (case l of None \<Rightarrow> no_limits | Some x \<Rightarrow> x), r_at := t\<rparr>\<rparr>))"

definition cool_state_model :: "int \<Rightarrow> cool \<Rightarrow> cool" where
  "cool_state_model d st = st\<lparr>rep := (rep st)\<lparr>r_model := (if d < 0 then -1 else if d = 0 then 0 else 1)\<rparr>\<rparr>"

definition cool_controller_stopped :: "cool \<Rightarrow> cool" where
  "cool_controller_stopped st = st\<lparr>rep := (rep st)\<lparr>r_at := -1, r_mode := 0, r_armed := False\<rparr>\<rparr>"

definition cool_diag_take :: "cool \<Rightarrow> bool \<times> cool" where
  "cool_diag_take st =
     (if diag_owned st \<or> phase st \<noteq> Cool_Idle \<or> p_phase (pub st) \<noteq> ''idle'' then (False, st)
      else (True, warn ''diagnostics own the thermal hardware'' (st\<lparr>diag_owned := True\<rparr>)))"

definition cool_diag_release :: "tin \<Rightarrow> cool \<Rightarrow> cool" where
  "cool_diag_release i st =
     (let st1 = fans_idle i (emit [Wr ''thermal/water_pump_on'' 1] (heater_set_pct 0 st))
      in clear_reason (st1\<lparr>tec_written := -1, diag_owned := False\<rparr>))"

definition cool_diag_heater_pct :: "real \<Rightarrow> cool \<Rightarrow> cool" where
  "cool_diag_heater_pct pct st =
     (if diag_owned st then heater_set_pct (if pct < 0 then 0 else nat (floor pct)) st else st)"

definition cool_diag_pump :: "bool \<Rightarrow> cool \<Rightarrow> cool" where
  "cool_diag_pump on st = (if diag_owned st then emit [Wr ''thermal/water_pump_on'' (if on then 1 else 0)] st else st)"

definition cool_diag_purge :: "bool \<Rightarrow> cool \<Rightarrow> cool" where
  "cool_diag_purge on st = (if diag_owned st then emit [Wr ''head/purge_air'' (if on then 1 else 0)] st else st)"

definition cool_diag_aa :: "tin \<Rightarrow> int \<Rightarrow> cool \<Rightarrow> cool" where
  "cool_diag_aa i duty st = (if diag_owned st then fan_set i 0 duty st else st)"

definition cool_diag_fans_run :: "tin \<Rightarrow> cool \<Rightarrow> cool" where
  "cool_diag_fans_run i st =
     (if diag_owned st
      then emit [Wr ''head/purge_air'' 1] (fan_set i 0 air_assist_run (fan_set i 2 intake_run (fan_set i 1 exhaust_run st)))
      else st)"

definition cool_diag_fans_idle :: "tin \<Rightarrow> cool \<Rightarrow> cool" where
  "cool_diag_fans_idle i st =
     (if diag_owned st
      then emit [Wr ''head/purge_air'' 1] (fan_set i 0 air_assist_idle (fan_set i 2 intake_idle (fan_set i 1 exhaust_idle st)))
      else st)"

definition cool_flow_check_hold :: "real \<Rightarrow> bool \<Rightarrow> cool \<Rightarrow> cool" where
  "cool_flow_check_hold t on st =
     st\<lparr>fl := (fl st)\<lparr>f_held := on, f_hold_since := (if on then t else f_hold_since (fl st))\<rparr>\<rparr>"

definition cool_report_age :: "real \<Rightarrow> cool \<Rightarrow> real" where
  "cool_report_age t st = (if r_at (rep st) < 0 then -1 else t - r_at (rep st))"

definition coolfmt_armed :: "bool \<Rightarrow> real \<Rightarrow> real \<Rightarrow> bool" where
  "coolfmt_armed reported age timeout \<longleftrightarrow> reported \<and> age \<ge> 0 \<and> age \<le> timeout"

definition cool_armed :: "real \<Rightarrow> cool \<Rightarrow> bool" where
  "cool_armed t st = coolfmt_armed (r_armed (rep st)) (cool_report_age t st) report_timeout_s"

text \<open>The engine's first state and its start; the thread itself is the sequence of ticks.\<close>

definition cool_boot :: cool where
  "cool_boot =
     \<lparr>rep = \<lparr>r_mode = 0, r_armed = False, r_duty = [-1, -1, -1], r_lim = no_limits, r_at = -1, r_model = -1\<rparr>,
      conf = (\<lambda>k. case map_of tunables k of Some (d, _) \<Rightarrow> d | None \<Rightarrow> 0), env_set = [],
      off = \<lparr>o_coolant = False, o_critical = False, o_floor = False, o_warmup = False, o_flow = False\<rparr>,
      lim = \<lparr>e_max = 33, e_resume = 31, e_min = 5, e_from_header = False, e_floor_from_header = False,
             e_exhaust = -1, e_intake = -1, e_air = -1\<rparr>,
      density = True, phase = Cool_Idle, start_cool = False, heater = 0,
      fl = \<lparr>f_verdict = Flow_Normal, f_next_check = 0, f_active = False, f_pending = False, f_held = False,
            f_hold_since = 0, f_pending_since = 0, f_settle_warned = False, f_base_set = False, f_hist = [],
            f_base_down = 0, f_establish_at = 0, f_check_end = 0, f_dt_sum = 0, f_dt_n = 0, f_suspect_since = 0,
            f_episodes = 0, f_end_hist = [], f_hv_dose = 0, f_streak = 0\<rparr>,
      wu = \<lparr>w_gate = 0, w_last_up = 0, w_progress_at = 0, w_stall_warned = False, w_win = []\<rparr>,
      fan = \<lparr>n_cmd = [-1, -1, -1], n_duty = [-1, -1, -1], n_run_duty = [-1, -1, -1], n_lost = [0, 0, 0],
             n_back = [-1, -1, -1], n_aa = 204, n_gate = replicate 5 airflow_reset, n_grace_until = 0, n_up = False,
             n_alarm = False, n_margin_noted = replicate 5 False\<rparr>,
      wat = \<lparr>x_flame_alert = False, x_flame_clear = 0, x_ir_over = 0, x_fire_alarm = False, x_last_armed_at = -1,
             x_emission_warned = False, x_pgood_warned = False, x_last_faults = 0, x_hv_last = -1, x_hv_hist = [],
             x_crash = crash_reset, x_hw_state = 0, x_hw_armed = False, x_poll_errs = 0\<rparr>,
      tec_on = False, tec_written = -1, tec_switched_at = 0, quiet_held = False, quiet_pump = False, quiet_since = 0,
      phase_until = 0, over_temp = False, cold = False, critical = False, sensor_fail = 0, sensor_alarm = False,
      forced_cool = False, flood_on = False, silent_warned = False, silent_safed = False, eff_armed = False,
      session_armed = False, last_up = 0, ext_held = False, ext_dropped = False, ext_reason = [], seq = 0,
      diag_owned = False,
      pub = \<lparr>p_verdict = ''OK'', p_reason = [], p_fire_ok = False, p_hold = False, p_armed_ack = False,
             p_down = no_temp, p_up = no_temp, p_phase = ''idle'', p_fire_watch = ''watch'', p_accel_watch = ''watch'',
             p_gates_off = ''[]''\<rparr>,
      outs = []\<rparr>"

text \<open>\<open>cool_init\<close>: the environment's overrides first, then the settings, then the idle posture.\<close>

definition cool_init :: "tin \<Rightarrow> (string \<times> real) list \<Rightarrow> cool" where
  "cool_init i env =
     (let st1 = conf_reload i (cool_boot\<lparr>env_set := map fst env,
                  conf := (\<lambda>k. case map_of env k of Some v \<Rightarrow> v | None \<Rightarrow> conf cool_boot k)\<rparr>);
          st2 = heater_set_pct 0 (emit [Wr ''thermal/water_pump_on'' 1, Wr ''thermal/tec_on'' 0, Wr ''head/purge_air'' 1] st1)
      in if machine_idle i then fans_idle i st2 else fans_cool i (st2\<lparr>start_cool := True\<rparr>))"

text \<open>The engine between a start and a stop: its ticks and the calls of the other threads, in any order.\<close>

datatype cool_op =
    Tick tin
  | Report real string bool "int list" "cool_limits option"
  | Model int
  | Stopped
  | Diag_Take
  | Diag_Release tin
  | Diag_Heater real
  | Diag_Pump bool
  | Diag_Purge bool
  | Diag_Aa tin int
  | Diag_Fans_Run tin
  | Diag_Fans_Idle tin
  | Quiet tin bool bool
  | Flow_Hold real bool

fun cool_step :: "cool_op \<Rightarrow> cool \<Rightarrow> cool" where
  "cool_step (Tick i) st = engine_tick i st"
| "cool_step (Report t m a d l) st = or_else (cool_state_report t m a d l st) st"
| "cool_step (Model d) st = cool_state_model d st"
| "cool_step Stopped st = cool_controller_stopped st"
| "cool_step Diag_Take st = snd (cool_diag_take st)"
| "cool_step (Diag_Release i) st = (if diag_owned st then cool_diag_release i st else st)"
| "cool_step (Diag_Heater p) st = cool_diag_heater_pct p st"
| "cool_step (Diag_Pump b) st = cool_diag_pump b st"
| "cool_step (Diag_Purge b) st = cool_diag_purge b st"
| "cool_step (Diag_Aa i d) st = cool_diag_aa i d st"
| "cool_step (Diag_Fans_Run i) st = cool_diag_fans_run i st"
| "cool_step (Diag_Fans_Idle i) st = cool_diag_fans_idle i st"
| "cool_step (Quiet i b p) st = quiet_hold_ex i b p st"
| "cool_step (Flow_Hold t b) st = cool_flow_check_hold t b st"

text \<open>\<open>cool_shutdown\<close> once the thread has joined; the fan profile and the verdict of a busy machine stay.\<close>

definition cool_shutdown :: "tin \<Rightarrow> cool \<Rightarrow> cool" where
  "cool_shutdown i st0 =
     (let st1 = heater_set_pct 0 st0;
          st2 = (if x_hw_armed (wat st1)
                 then emit [Accel ''disarm''] (st1\<lparr>wat := (wat st1)\<lparr>x_hw_armed := False\<rparr>\<rparr>) else st1);
          st3 = emit [Accel ''close''] st2
      in if machine_idle i then emit [Verdict_File []] (fans_idle i st3) else st3)"

end
