(* ===== verification/CoolFrame.thy ===== *)
theory CoolFrame
  imports CoolEngine
begin

text \<open>
  What each operation and each stage of the cooling engine leaves alone, and that effects are only
  ever appended. The lemmas are simplification rules (and the collection \<open>frame\<close> holds those about
  parts of a sub-record), so a property of the tick is argued from the stages that touch it.
\<close>

lemmas if_sel = if_distrib [where f = rep] if_distrib [where f = conf] if_distrib [where f = env_set] if_distrib [where f = off] if_distrib [where f = lim] if_distrib [where f = density] if_distrib [where f = phase] if_distrib [where f = start_cool] if_distrib [where f = heater] if_distrib [where f = fl] if_distrib [where f = wu] if_distrib [where f = fan] if_distrib [where f = wat] if_distrib [where f = tec_on] if_distrib [where f = tec_written] if_distrib [where f = tec_switched_at] if_distrib [where f = quiet_held] if_distrib [where f = quiet_pump] if_distrib [where f = quiet_since] if_distrib [where f = phase_until] if_distrib [where f = over_temp] if_distrib [where f = cold] if_distrib [where f = critical] if_distrib [where f = sensor_fail] if_distrib [where f = sensor_alarm] if_distrib [where f = forced_cool] if_distrib [where f = flood_on] if_distrib [where f = silent_warned] if_distrib [where f = silent_safed] if_distrib [where f = eff_armed] if_distrib [where f = session_armed] if_distrib [where f = last_up] if_distrib [where f = ext_held] if_distrib [where f = ext_dropped] if_distrib [where f = ext_reason] if_distrib [where f = seq] if_distrib [where f = diag_owned] if_distrib [where f = pub] if_distrib [where f = outs]

lemma upd_reason_sel [simp]:
  "rep (upd_reason m st) = rep st" "conf (upd_reason m st) = conf st" "env_set (upd_reason m st) = env_set st"
  "off (upd_reason m st) = off st" "lim (upd_reason m st) = lim st" "density (upd_reason m st) = density st"
  "phase (upd_reason m st) = phase st" "start_cool (upd_reason m st) = start_cool st"
  "heater (upd_reason m st) = heater st" "fl (upd_reason m st) = fl st" "wu (upd_reason m st) = wu st"
  "fan (upd_reason m st) = fan st" "wat (upd_reason m st) = wat st" "tec_on (upd_reason m st) = tec_on st"
  "tec_written (upd_reason m st) = tec_written st" "tec_switched_at (upd_reason m st) = tec_switched_at st"
  "quiet_held (upd_reason m st) = quiet_held st" "quiet_pump (upd_reason m st) = quiet_pump st"
  "quiet_since (upd_reason m st) = quiet_since st" "phase_until (upd_reason m st) = phase_until st"
  "over_temp (upd_reason m st) = over_temp st" "cold (upd_reason m st) = cold st"
  "critical (upd_reason m st) = critical st" "sensor_fail (upd_reason m st) = sensor_fail st"
  "sensor_alarm (upd_reason m st) = sensor_alarm st" "forced_cool (upd_reason m st) = forced_cool st"
  "flood_on (upd_reason m st) = flood_on st" "silent_warned (upd_reason m st) = silent_warned st"
  "silent_safed (upd_reason m st) = silent_safed st" "eff_armed (upd_reason m st) = eff_armed st"
  "session_armed (upd_reason m st) = session_armed st" "last_up (upd_reason m st) = last_up st"
  "ext_held (upd_reason m st) = ext_held st" "ext_dropped (upd_reason m st) = ext_dropped st"
  "ext_reason (upd_reason m st) = ext_reason st" "seq (upd_reason m st) = seq st"
  "diag_owned (upd_reason m st) = diag_owned st" "outs (upd_reason m st) = outs st"
  by (simp_all add: upd_reason_def Let_def if_sel)

lemma warn_sel [simp]:
  "rep (warn m st) = rep st" "conf (warn m st) = conf st" "env_set (warn m st) = env_set st"
  "off (warn m st) = off st" "lim (warn m st) = lim st" "density (warn m st) = density st"
  "phase (warn m st) = phase st" "start_cool (warn m st) = start_cool st" "heater (warn m st) = heater st"
  "fl (warn m st) = fl st" "wu (warn m st) = wu st" "fan (warn m st) = fan st" "wat (warn m st) = wat st"
  "tec_on (warn m st) = tec_on st" "tec_written (warn m st) = tec_written st"
  "tec_switched_at (warn m st) = tec_switched_at st" "quiet_held (warn m st) = quiet_held st"
  "quiet_pump (warn m st) = quiet_pump st" "quiet_since (warn m st) = quiet_since st"
  "phase_until (warn m st) = phase_until st" "over_temp (warn m st) = over_temp st"
  "cold (warn m st) = cold st" "critical (warn m st) = critical st" "sensor_fail (warn m st) = sensor_fail st"
  "sensor_alarm (warn m st) = sensor_alarm st" "forced_cool (warn m st) = forced_cool st"
  "flood_on (warn m st) = flood_on st" "silent_warned (warn m st) = silent_warned st"
  "silent_safed (warn m st) = silent_safed st" "eff_armed (warn m st) = eff_armed st"
  "session_armed (warn m st) = session_armed st" "last_up (warn m st) = last_up st"
  "ext_held (warn m st) = ext_held st" "ext_dropped (warn m st) = ext_dropped st"
  "ext_reason (warn m st) = ext_reason st" "seq (warn m st) = seq st" "diag_owned (warn m st) = diag_owned st"
  "outs (warn m st) = outs st"
  by (simp_all add: warn_def Let_def if_sel)

lemma clear_reason_sel [simp]:
  "rep (clear_reason st) = rep st" "conf (clear_reason st) = conf st" "env_set (clear_reason st) = env_set st"
  "off (clear_reason st) = off st" "lim (clear_reason st) = lim st" "density (clear_reason st) = density st"
  "phase (clear_reason st) = phase st" "start_cool (clear_reason st) = start_cool st"
  "heater (clear_reason st) = heater st" "fl (clear_reason st) = fl st" "wu (clear_reason st) = wu st"
  "fan (clear_reason st) = fan st" "wat (clear_reason st) = wat st" "tec_on (clear_reason st) = tec_on st"
  "tec_written (clear_reason st) = tec_written st" "tec_switched_at (clear_reason st) = tec_switched_at st"
  "quiet_held (clear_reason st) = quiet_held st" "quiet_pump (clear_reason st) = quiet_pump st"
  "quiet_since (clear_reason st) = quiet_since st" "phase_until (clear_reason st) = phase_until st"
  "over_temp (clear_reason st) = over_temp st" "cold (clear_reason st) = cold st"
  "critical (clear_reason st) = critical st" "sensor_fail (clear_reason st) = sensor_fail st"
  "sensor_alarm (clear_reason st) = sensor_alarm st" "forced_cool (clear_reason st) = forced_cool st"
  "flood_on (clear_reason st) = flood_on st" "silent_warned (clear_reason st) = silent_warned st"
  "silent_safed (clear_reason st) = silent_safed st" "eff_armed (clear_reason st) = eff_armed st"
  "session_armed (clear_reason st) = session_armed st" "last_up (clear_reason st) = last_up st"
  "ext_held (clear_reason st) = ext_held st" "ext_dropped (clear_reason st) = ext_dropped st"
  "ext_reason (clear_reason st) = ext_reason st" "seq (clear_reason st) = seq st"
  "diag_owned (clear_reason st) = diag_owned st" "outs (clear_reason st) = outs st"
  by (simp_all add: clear_reason_def Let_def if_sel)

lemma emit_sel [simp]:
  "rep (emit es st) = rep st" "conf (emit es st) = conf st" "env_set (emit es st) = env_set st"
  "off (emit es st) = off st" "lim (emit es st) = lim st" "density (emit es st) = density st"
  "phase (emit es st) = phase st" "start_cool (emit es st) = start_cool st" "heater (emit es st) = heater st"
  "fl (emit es st) = fl st" "wu (emit es st) = wu st" "fan (emit es st) = fan st" "wat (emit es st) = wat st"
  "tec_on (emit es st) = tec_on st" "tec_written (emit es st) = tec_written st"
  "tec_switched_at (emit es st) = tec_switched_at st" "quiet_held (emit es st) = quiet_held st"
  "quiet_pump (emit es st) = quiet_pump st" "quiet_since (emit es st) = quiet_since st"
  "phase_until (emit es st) = phase_until st" "over_temp (emit es st) = over_temp st"
  "cold (emit es st) = cold st" "critical (emit es st) = critical st"
  "sensor_fail (emit es st) = sensor_fail st" "sensor_alarm (emit es st) = sensor_alarm st"
  "forced_cool (emit es st) = forced_cool st" "flood_on (emit es st) = flood_on st"
  "silent_warned (emit es st) = silent_warned st" "silent_safed (emit es st) = silent_safed st"
  "eff_armed (emit es st) = eff_armed st" "session_armed (emit es st) = session_armed st"
  "last_up (emit es st) = last_up st" "ext_held (emit es st) = ext_held st"
  "ext_dropped (emit es st) = ext_dropped st" "ext_reason (emit es st) = ext_reason st"
  "seq (emit es st) = seq st" "diag_owned (emit es st) = diag_owned st" "pub (emit es st) = pub st"
  by (simp_all add: emit_def Let_def if_sel)

lemma safe_stop_sel [simp]:
  "rep (safe_stop st) = rep st" "conf (safe_stop st) = conf st" "env_set (safe_stop st) = env_set st"
  "off (safe_stop st) = off st" "lim (safe_stop st) = lim st" "density (safe_stop st) = density st"
  "phase (safe_stop st) = phase st" "start_cool (safe_stop st) = start_cool st"
  "heater (safe_stop st) = heater st" "fl (safe_stop st) = fl st" "wu (safe_stop st) = wu st"
  "fan (safe_stop st) = fan st" "wat (safe_stop st) = wat st" "tec_on (safe_stop st) = tec_on st"
  "tec_written (safe_stop st) = tec_written st" "tec_switched_at (safe_stop st) = tec_switched_at st"
  "quiet_held (safe_stop st) = quiet_held st" "quiet_pump (safe_stop st) = quiet_pump st"
  "quiet_since (safe_stop st) = quiet_since st" "phase_until (safe_stop st) = phase_until st"
  "over_temp (safe_stop st) = over_temp st" "cold (safe_stop st) = cold st"
  "critical (safe_stop st) = critical st" "sensor_fail (safe_stop st) = sensor_fail st"
  "sensor_alarm (safe_stop st) = sensor_alarm st" "forced_cool (safe_stop st) = forced_cool st"
  "flood_on (safe_stop st) = flood_on st" "silent_warned (safe_stop st) = silent_warned st"
  "silent_safed (safe_stop st) = silent_safed st" "eff_armed (safe_stop st) = eff_armed st"
  "session_armed (safe_stop st) = session_armed st" "last_up (safe_stop st) = last_up st"
  "ext_held (safe_stop st) = ext_held st" "ext_dropped (safe_stop st) = ext_dropped st"
  "ext_reason (safe_stop st) = ext_reason st" "seq (safe_stop st) = seq st"
  "diag_owned (safe_stop st) = diag_owned st" "pub (safe_stop st) = pub st"
  by (simp_all add: safe_stop_def Let_def if_sel)

lemma heater_set_pct_sel [simp]:
  "rep (heater_set_pct p st) = rep st" "conf (heater_set_pct p st) = conf st"
  "env_set (heater_set_pct p st) = env_set st" "off (heater_set_pct p st) = off st"
  "lim (heater_set_pct p st) = lim st" "density (heater_set_pct p st) = density st"
  "phase (heater_set_pct p st) = phase st" "start_cool (heater_set_pct p st) = start_cool st"
  "fl (heater_set_pct p st) = fl st" "wu (heater_set_pct p st) = wu st" "fan (heater_set_pct p st) = fan st"
  "wat (heater_set_pct p st) = wat st" "tec_on (heater_set_pct p st) = tec_on st"
  "tec_written (heater_set_pct p st) = tec_written st"
  "tec_switched_at (heater_set_pct p st) = tec_switched_at st"
  "quiet_held (heater_set_pct p st) = quiet_held st" "quiet_pump (heater_set_pct p st) = quiet_pump st"
  "quiet_since (heater_set_pct p st) = quiet_since st" "phase_until (heater_set_pct p st) = phase_until st"
  "over_temp (heater_set_pct p st) = over_temp st" "cold (heater_set_pct p st) = cold st"
  "critical (heater_set_pct p st) = critical st" "sensor_fail (heater_set_pct p st) = sensor_fail st"
  "sensor_alarm (heater_set_pct p st) = sensor_alarm st" "forced_cool (heater_set_pct p st) = forced_cool st"
  "flood_on (heater_set_pct p st) = flood_on st" "silent_warned (heater_set_pct p st) = silent_warned st"
  "silent_safed (heater_set_pct p st) = silent_safed st" "eff_armed (heater_set_pct p st) = eff_armed st"
  "session_armed (heater_set_pct p st) = session_armed st" "last_up (heater_set_pct p st) = last_up st"
  "ext_held (heater_set_pct p st) = ext_held st" "ext_dropped (heater_set_pct p st) = ext_dropped st"
  "ext_reason (heater_set_pct p st) = ext_reason st" "seq (heater_set_pct p st) = seq st"
  "diag_owned (heater_set_pct p st) = diag_owned st" "pub (heater_set_pct p st) = pub st"
  by (simp_all add: heater_set_pct_def Let_def if_sel)

lemma heater_set_pct_heater [simp]: "heater (heater_set_pct p st) = p"
  by (simp add: heater_set_pct_def)

lemma fan_tries_frame: "\<exists>os. snd (fan_tries i n ix d st) = st\<lparr>outs := os\<rparr>"
proof (induction n arbitrary: st)
  case 0
  show ?case by (rule exI [of _ "outs st"]) simp
next
  case (Suc n)
  show ?case
  proof (cases "fan_took i (length (outs st))")
    case True
    then show ?thesis by (auto simp: Let_def emit_def)
  next
    case False
    with Suc [of "emit [Wr (fan_attr ix) d] st"] show ?thesis by (auto simp: Let_def emit_def)
  qed
qed

lemma fan_write_frame:
  "\<exists>os. snd (fan_write i ix d st) =
     st\<lparr>fan := (fan st)\<lparr>n_cmd := (n_cmd (fan st))[ix := d], n_aa := (if ix = 0 then d else n_aa (fan st))\<rparr>, outs := os\<rparr>"
  using fan_tries_frame [of i fan_write_tries ix d] by (simp add: fan_write_def Let_def)

lemma fan_write_sel [simp]:
  "rep (snd (fan_write i ix d st)) = rep st" "conf (snd (fan_write i ix d st)) = conf st"
  "env_set (snd (fan_write i ix d st)) = env_set st" "off (snd (fan_write i ix d st)) = off st"
  "lim (snd (fan_write i ix d st)) = lim st" "density (snd (fan_write i ix d st)) = density st"
  "phase (snd (fan_write i ix d st)) = phase st" "start_cool (snd (fan_write i ix d st)) = start_cool st"
  "heater (snd (fan_write i ix d st)) = heater st" "fl (snd (fan_write i ix d st)) = fl st"
  "wu (snd (fan_write i ix d st)) = wu st" "wat (snd (fan_write i ix d st)) = wat st"
  "tec_on (snd (fan_write i ix d st)) = tec_on st" "tec_written (snd (fan_write i ix d st)) = tec_written st"
  "tec_switched_at (snd (fan_write i ix d st)) = tec_switched_at st"
  "quiet_held (snd (fan_write i ix d st)) = quiet_held st"
  "quiet_pump (snd (fan_write i ix d st)) = quiet_pump st"
  "quiet_since (snd (fan_write i ix d st)) = quiet_since st"
  "phase_until (snd (fan_write i ix d st)) = phase_until st"
  "over_temp (snd (fan_write i ix d st)) = over_temp st" "cold (snd (fan_write i ix d st)) = cold st"
  "critical (snd (fan_write i ix d st)) = critical st"
  "sensor_fail (snd (fan_write i ix d st)) = sensor_fail st"
  "sensor_alarm (snd (fan_write i ix d st)) = sensor_alarm st"
  "forced_cool (snd (fan_write i ix d st)) = forced_cool st"
  "flood_on (snd (fan_write i ix d st)) = flood_on st"
  "silent_warned (snd (fan_write i ix d st)) = silent_warned st"
  "silent_safed (snd (fan_write i ix d st)) = silent_safed st"
  "eff_armed (snd (fan_write i ix d st)) = eff_armed st"
  "session_armed (snd (fan_write i ix d st)) = session_armed st"
  "last_up (snd (fan_write i ix d st)) = last_up st" "ext_held (snd (fan_write i ix d st)) = ext_held st"
  "ext_dropped (snd (fan_write i ix d st)) = ext_dropped st"
  "ext_reason (snd (fan_write i ix d st)) = ext_reason st" "seq (snd (fan_write i ix d st)) = seq st"
  "diag_owned (snd (fan_write i ix d st)) = diag_owned st" "pub (snd (fan_write i ix d st)) = pub st"
  using fan_write_frame [of i ix d st] by auto

lemma fan_set_sel [simp]:
  "rep (fan_set i ix d st) = rep st" "conf (fan_set i ix d st) = conf st"
  "env_set (fan_set i ix d st) = env_set st" "off (fan_set i ix d st) = off st"
  "lim (fan_set i ix d st) = lim st" "density (fan_set i ix d st) = density st"
  "phase (fan_set i ix d st) = phase st" "start_cool (fan_set i ix d st) = start_cool st"
  "heater (fan_set i ix d st) = heater st" "fl (fan_set i ix d st) = fl st" "wu (fan_set i ix d st) = wu st"
  "wat (fan_set i ix d st) = wat st" "tec_on (fan_set i ix d st) = tec_on st"
  "tec_written (fan_set i ix d st) = tec_written st"
  "tec_switched_at (fan_set i ix d st) = tec_switched_at st" "quiet_held (fan_set i ix d st) = quiet_held st"
  "quiet_pump (fan_set i ix d st) = quiet_pump st" "quiet_since (fan_set i ix d st) = quiet_since st"
  "phase_until (fan_set i ix d st) = phase_until st" "over_temp (fan_set i ix d st) = over_temp st"
  "cold (fan_set i ix d st) = cold st" "critical (fan_set i ix d st) = critical st"
  "sensor_fail (fan_set i ix d st) = sensor_fail st" "sensor_alarm (fan_set i ix d st) = sensor_alarm st"
  "forced_cool (fan_set i ix d st) = forced_cool st" "flood_on (fan_set i ix d st) = flood_on st"
  "silent_warned (fan_set i ix d st) = silent_warned st" "silent_safed (fan_set i ix d st) = silent_safed st"
  "eff_armed (fan_set i ix d st) = eff_armed st" "session_armed (fan_set i ix d st) = session_armed st"
  "last_up (fan_set i ix d st) = last_up st" "ext_held (fan_set i ix d st) = ext_held st"
  "ext_dropped (fan_set i ix d st) = ext_dropped st" "ext_reason (fan_set i ix d st) = ext_reason st"
  "seq (fan_set i ix d st) = seq st" "diag_owned (fan_set i ix d st) = diag_owned st"
  "pub (fan_set i ix d st) = pub st"
  by (simp_all add: fan_set_def Let_def if_sel)

lemma fan_verify_one_sel [simp]:
  "rep (fan_verify_one i ix st) = rep st" "conf (fan_verify_one i ix st) = conf st"
  "env_set (fan_verify_one i ix st) = env_set st" "off (fan_verify_one i ix st) = off st"
  "lim (fan_verify_one i ix st) = lim st" "density (fan_verify_one i ix st) = density st"
  "phase (fan_verify_one i ix st) = phase st" "start_cool (fan_verify_one i ix st) = start_cool st"
  "heater (fan_verify_one i ix st) = heater st" "fl (fan_verify_one i ix st) = fl st"
  "wu (fan_verify_one i ix st) = wu st" "wat (fan_verify_one i ix st) = wat st"
  "tec_on (fan_verify_one i ix st) = tec_on st" "tec_written (fan_verify_one i ix st) = tec_written st"
  "tec_switched_at (fan_verify_one i ix st) = tec_switched_at st"
  "quiet_held (fan_verify_one i ix st) = quiet_held st" "quiet_pump (fan_verify_one i ix st) = quiet_pump st"
  "quiet_since (fan_verify_one i ix st) = quiet_since st"
  "phase_until (fan_verify_one i ix st) = phase_until st" "over_temp (fan_verify_one i ix st) = over_temp st"
  "cold (fan_verify_one i ix st) = cold st" "critical (fan_verify_one i ix st) = critical st"
  "sensor_fail (fan_verify_one i ix st) = sensor_fail st"
  "sensor_alarm (fan_verify_one i ix st) = sensor_alarm st"
  "forced_cool (fan_verify_one i ix st) = forced_cool st" "flood_on (fan_verify_one i ix st) = flood_on st"
  "silent_warned (fan_verify_one i ix st) = silent_warned st"
  "silent_safed (fan_verify_one i ix st) = silent_safed st"
  "eff_armed (fan_verify_one i ix st) = eff_armed st"
  "session_armed (fan_verify_one i ix st) = session_armed st" "last_up (fan_verify_one i ix st) = last_up st"
  "ext_held (fan_verify_one i ix st) = ext_held st" "ext_dropped (fan_verify_one i ix st) = ext_dropped st"
  "ext_reason (fan_verify_one i ix st) = ext_reason st" "seq (fan_verify_one i ix st) = seq st"
  "diag_owned (fan_verify_one i ix st) = diag_owned st" "pub (fan_verify_one i ix st) = pub st"
  by (simp_all add: fan_verify_one_def Let_def if_sel)

lemma fans_verify_sel [simp]:
  "rep (fans_verify i st) = rep st" "conf (fans_verify i st) = conf st"
  "env_set (fans_verify i st) = env_set st" "off (fans_verify i st) = off st"
  "lim (fans_verify i st) = lim st" "density (fans_verify i st) = density st"
  "phase (fans_verify i st) = phase st" "start_cool (fans_verify i st) = start_cool st"
  "heater (fans_verify i st) = heater st" "fl (fans_verify i st) = fl st" "wu (fans_verify i st) = wu st"
  "wat (fans_verify i st) = wat st" "tec_on (fans_verify i st) = tec_on st"
  "tec_written (fans_verify i st) = tec_written st" "tec_switched_at (fans_verify i st) = tec_switched_at st"
  "quiet_held (fans_verify i st) = quiet_held st" "quiet_pump (fans_verify i st) = quiet_pump st"
  "quiet_since (fans_verify i st) = quiet_since st" "phase_until (fans_verify i st) = phase_until st"
  "over_temp (fans_verify i st) = over_temp st" "cold (fans_verify i st) = cold st"
  "critical (fans_verify i st) = critical st" "sensor_fail (fans_verify i st) = sensor_fail st"
  "sensor_alarm (fans_verify i st) = sensor_alarm st" "forced_cool (fans_verify i st) = forced_cool st"
  "flood_on (fans_verify i st) = flood_on st" "silent_warned (fans_verify i st) = silent_warned st"
  "silent_safed (fans_verify i st) = silent_safed st" "eff_armed (fans_verify i st) = eff_armed st"
  "session_armed (fans_verify i st) = session_armed st" "last_up (fans_verify i st) = last_up st"
  "ext_held (fans_verify i st) = ext_held st" "ext_dropped (fans_verify i st) = ext_dropped st"
  "ext_reason (fans_verify i st) = ext_reason st" "seq (fans_verify i st) = seq st"
  "diag_owned (fans_verify i st) = diag_owned st" "pub (fans_verify i st) = pub st"
  by (simp_all add: fans_verify_def Let_def if_sel)

lemma fans_quiet_sel [simp]:
  "rep (fans_quiet i st) = rep st" "conf (fans_quiet i st) = conf st" "env_set (fans_quiet i st) = env_set st"
  "off (fans_quiet i st) = off st" "lim (fans_quiet i st) = lim st" "density (fans_quiet i st) = density st"
  "phase (fans_quiet i st) = phase st" "start_cool (fans_quiet i st) = start_cool st"
  "heater (fans_quiet i st) = heater st" "fl (fans_quiet i st) = fl st" "wu (fans_quiet i st) = wu st"
  "wat (fans_quiet i st) = wat st" "tec_on (fans_quiet i st) = tec_on st"
  "tec_written (fans_quiet i st) = tec_written st" "tec_switched_at (fans_quiet i st) = tec_switched_at st"
  "quiet_held (fans_quiet i st) = quiet_held st" "quiet_pump (fans_quiet i st) = quiet_pump st"
  "quiet_since (fans_quiet i st) = quiet_since st" "phase_until (fans_quiet i st) = phase_until st"
  "over_temp (fans_quiet i st) = over_temp st" "cold (fans_quiet i st) = cold st"
  "critical (fans_quiet i st) = critical st" "sensor_fail (fans_quiet i st) = sensor_fail st"
  "sensor_alarm (fans_quiet i st) = sensor_alarm st" "forced_cool (fans_quiet i st) = forced_cool st"
  "flood_on (fans_quiet i st) = flood_on st" "silent_warned (fans_quiet i st) = silent_warned st"
  "silent_safed (fans_quiet i st) = silent_safed st" "eff_armed (fans_quiet i st) = eff_armed st"
  "session_armed (fans_quiet i st) = session_armed st" "last_up (fans_quiet i st) = last_up st"
  "ext_held (fans_quiet i st) = ext_held st" "ext_dropped (fans_quiet i st) = ext_dropped st"
  "ext_reason (fans_quiet i st) = ext_reason st" "seq (fans_quiet i st) = seq st"
  "diag_owned (fans_quiet i st) = diag_owned st" "pub (fans_quiet i st) = pub st"
  by (simp_all add: fans_quiet_def Let_def if_sel)

lemma pump_quiet_sel [simp]:
  "rep (pump_quiet st) = rep st" "conf (pump_quiet st) = conf st" "env_set (pump_quiet st) = env_set st"
  "off (pump_quiet st) = off st" "lim (pump_quiet st) = lim st" "density (pump_quiet st) = density st"
  "phase (pump_quiet st) = phase st" "start_cool (pump_quiet st) = start_cool st"
  "heater (pump_quiet st) = heater st" "fl (pump_quiet st) = fl st" "wu (pump_quiet st) = wu st"
  "fan (pump_quiet st) = fan st" "wat (pump_quiet st) = wat st" "tec_on (pump_quiet st) = tec_on st"
  "tec_written (pump_quiet st) = tec_written st" "tec_switched_at (pump_quiet st) = tec_switched_at st"
  "quiet_held (pump_quiet st) = quiet_held st" "quiet_pump (pump_quiet st) = quiet_pump st"
  "quiet_since (pump_quiet st) = quiet_since st" "phase_until (pump_quiet st) = phase_until st"
  "over_temp (pump_quiet st) = over_temp st" "cold (pump_quiet st) = cold st"
  "critical (pump_quiet st) = critical st" "sensor_fail (pump_quiet st) = sensor_fail st"
  "sensor_alarm (pump_quiet st) = sensor_alarm st" "forced_cool (pump_quiet st) = forced_cool st"
  "flood_on (pump_quiet st) = flood_on st" "silent_warned (pump_quiet st) = silent_warned st"
  "silent_safed (pump_quiet st) = silent_safed st" "eff_armed (pump_quiet st) = eff_armed st"
  "session_armed (pump_quiet st) = session_armed st" "last_up (pump_quiet st) = last_up st"
  "ext_held (pump_quiet st) = ext_held st" "ext_dropped (pump_quiet st) = ext_dropped st"
  "ext_reason (pump_quiet st) = ext_reason st" "seq (pump_quiet st) = seq st"
  "diag_owned (pump_quiet st) = diag_owned st" "pub (pump_quiet st) = pub st"
  by (simp_all add: pump_quiet_def Let_def if_sel)

lemma fans_idle_sel [simp]:
  "rep (fans_idle i st) = rep st" "conf (fans_idle i st) = conf st" "env_set (fans_idle i st) = env_set st"
  "off (fans_idle i st) = off st" "lim (fans_idle i st) = lim st" "density (fans_idle i st) = density st"
  "phase (fans_idle i st) = phase st" "heater (fans_idle i st) = heater st" "fl (fans_idle i st) = fl st"
  "wu (fans_idle i st) = wu st" "wat (fans_idle i st) = wat st" "tec_on (fans_idle i st) = tec_on st"
  "tec_written (fans_idle i st) = tec_written st" "tec_switched_at (fans_idle i st) = tec_switched_at st"
  "quiet_held (fans_idle i st) = quiet_held st" "quiet_pump (fans_idle i st) = quiet_pump st"
  "quiet_since (fans_idle i st) = quiet_since st" "phase_until (fans_idle i st) = phase_until st"
  "over_temp (fans_idle i st) = over_temp st" "cold (fans_idle i st) = cold st"
  "critical (fans_idle i st) = critical st" "sensor_fail (fans_idle i st) = sensor_fail st"
  "sensor_alarm (fans_idle i st) = sensor_alarm st" "forced_cool (fans_idle i st) = forced_cool st"
  "flood_on (fans_idle i st) = flood_on st" "silent_warned (fans_idle i st) = silent_warned st"
  "silent_safed (fans_idle i st) = silent_safed st" "eff_armed (fans_idle i st) = eff_armed st"
  "session_armed (fans_idle i st) = session_armed st" "last_up (fans_idle i st) = last_up st"
  "ext_held (fans_idle i st) = ext_held st" "ext_dropped (fans_idle i st) = ext_dropped st"
  "ext_reason (fans_idle i st) = ext_reason st" "seq (fans_idle i st) = seq st"
  "diag_owned (fans_idle i st) = diag_owned st" "pub (fans_idle i st) = pub st"
  by (simp_all add: fans_idle_def Let_def if_sel)

lemma fans_run_sel [simp]:
  "rep (fans_run i st) = rep st" "conf (fans_run i st) = conf st" "env_set (fans_run i st) = env_set st"
  "off (fans_run i st) = off st" "lim (fans_run i st) = lim st" "density (fans_run i st) = density st"
  "phase (fans_run i st) = phase st" "start_cool (fans_run i st) = start_cool st"
  "heater (fans_run i st) = heater st" "fl (fans_run i st) = fl st" "wu (fans_run i st) = wu st"
  "wat (fans_run i st) = wat st" "tec_on (fans_run i st) = tec_on st"
  "tec_written (fans_run i st) = tec_written st" "tec_switched_at (fans_run i st) = tec_switched_at st"
  "quiet_held (fans_run i st) = quiet_held st" "quiet_pump (fans_run i st) = quiet_pump st"
  "quiet_since (fans_run i st) = quiet_since st" "phase_until (fans_run i st) = phase_until st"
  "over_temp (fans_run i st) = over_temp st" "cold (fans_run i st) = cold st"
  "critical (fans_run i st) = critical st" "sensor_fail (fans_run i st) = sensor_fail st"
  "sensor_alarm (fans_run i st) = sensor_alarm st" "forced_cool (fans_run i st) = forced_cool st"
  "flood_on (fans_run i st) = flood_on st" "silent_warned (fans_run i st) = silent_warned st"
  "silent_safed (fans_run i st) = silent_safed st" "eff_armed (fans_run i st) = eff_armed st"
  "session_armed (fans_run i st) = session_armed st" "last_up (fans_run i st) = last_up st"
  "ext_held (fans_run i st) = ext_held st" "ext_dropped (fans_run i st) = ext_dropped st"
  "ext_reason (fans_run i st) = ext_reason st" "seq (fans_run i st) = seq st"
  "diag_owned (fans_run i st) = diag_owned st" "pub (fans_run i st) = pub st"
  by (simp_all add: fans_run_def Let_def if_sel)

lemma fans_cool_sel [simp]:
  "rep (fans_cool i st) = rep st" "conf (fans_cool i st) = conf st" "env_set (fans_cool i st) = env_set st"
  "off (fans_cool i st) = off st" "lim (fans_cool i st) = lim st" "density (fans_cool i st) = density st"
  "phase (fans_cool i st) = phase st" "start_cool (fans_cool i st) = start_cool st"
  "heater (fans_cool i st) = heater st" "fl (fans_cool i st) = fl st" "wu (fans_cool i st) = wu st"
  "wat (fans_cool i st) = wat st" "tec_on (fans_cool i st) = tec_on st"
  "tec_written (fans_cool i st) = tec_written st" "tec_switched_at (fans_cool i st) = tec_switched_at st"
  "quiet_held (fans_cool i st) = quiet_held st" "quiet_pump (fans_cool i st) = quiet_pump st"
  "quiet_since (fans_cool i st) = quiet_since st" "phase_until (fans_cool i st) = phase_until st"
  "over_temp (fans_cool i st) = over_temp st" "cold (fans_cool i st) = cold st"
  "critical (fans_cool i st) = critical st" "sensor_fail (fans_cool i st) = sensor_fail st"
  "sensor_alarm (fans_cool i st) = sensor_alarm st" "forced_cool (fans_cool i st) = forced_cool st"
  "flood_on (fans_cool i st) = flood_on st" "silent_warned (fans_cool i st) = silent_warned st"
  "silent_safed (fans_cool i st) = silent_safed st" "eff_armed (fans_cool i st) = eff_armed st"
  "session_armed (fans_cool i st) = session_armed st" "last_up (fans_cool i st) = last_up st"
  "ext_held (fans_cool i st) = ext_held st" "ext_dropped (fans_cool i st) = ext_dropped st"
  "ext_reason (fans_cool i st) = ext_reason st" "seq (fans_cool i st) = seq st"
  "diag_owned (fans_cool i st) = diag_owned st" "pub (fans_cool i st) = pub st"
  by (simp_all add: fans_cool_def Let_def if_sel)

lemma fans_apply_phase_sel [simp]:
  "rep (fans_apply_phase i st) = rep st" "conf (fans_apply_phase i st) = conf st"
  "env_set (fans_apply_phase i st) = env_set st" "off (fans_apply_phase i st) = off st"
  "lim (fans_apply_phase i st) = lim st" "density (fans_apply_phase i st) = density st"
  "phase (fans_apply_phase i st) = phase st" "heater (fans_apply_phase i st) = heater st"
  "fl (fans_apply_phase i st) = fl st" "wu (fans_apply_phase i st) = wu st"
  "wat (fans_apply_phase i st) = wat st" "tec_on (fans_apply_phase i st) = tec_on st"
  "tec_written (fans_apply_phase i st) = tec_written st"
  "tec_switched_at (fans_apply_phase i st) = tec_switched_at st"
  "quiet_held (fans_apply_phase i st) = quiet_held st" "quiet_pump (fans_apply_phase i st) = quiet_pump st"
  "quiet_since (fans_apply_phase i st) = quiet_since st"
  "phase_until (fans_apply_phase i st) = phase_until st" "over_temp (fans_apply_phase i st) = over_temp st"
  "cold (fans_apply_phase i st) = cold st" "critical (fans_apply_phase i st) = critical st"
  "sensor_fail (fans_apply_phase i st) = sensor_fail st"
  "sensor_alarm (fans_apply_phase i st) = sensor_alarm st"
  "forced_cool (fans_apply_phase i st) = forced_cool st" "flood_on (fans_apply_phase i st) = flood_on st"
  "silent_warned (fans_apply_phase i st) = silent_warned st"
  "silent_safed (fans_apply_phase i st) = silent_safed st" "eff_armed (fans_apply_phase i st) = eff_armed st"
  "session_armed (fans_apply_phase i st) = session_armed st" "last_up (fans_apply_phase i st) = last_up st"
  "ext_held (fans_apply_phase i st) = ext_held st" "ext_dropped (fans_apply_phase i st) = ext_dropped st"
  "ext_reason (fans_apply_phase i st) = ext_reason st" "seq (fans_apply_phase i st) = seq st"
  "diag_owned (fans_apply_phase i st) = diag_owned st" "pub (fans_apply_phase i st) = pub st"
  by (cases "phase st"; simp add: fans_apply_phase_def)+

lemma overtemp_warn_sel [simp]:
  "rep (overtemp_warn st) = rep st" "conf (overtemp_warn st) = conf st"
  "env_set (overtemp_warn st) = env_set st" "off (overtemp_warn st) = off st"
  "lim (overtemp_warn st) = lim st" "density (overtemp_warn st) = density st"
  "phase (overtemp_warn st) = phase st" "start_cool (overtemp_warn st) = start_cool st"
  "heater (overtemp_warn st) = heater st" "fl (overtemp_warn st) = fl st" "wu (overtemp_warn st) = wu st"
  "fan (overtemp_warn st) = fan st" "wat (overtemp_warn st) = wat st" "tec_on (overtemp_warn st) = tec_on st"
  "tec_written (overtemp_warn st) = tec_written st" "tec_switched_at (overtemp_warn st) = tec_switched_at st"
  "quiet_held (overtemp_warn st) = quiet_held st" "quiet_pump (overtemp_warn st) = quiet_pump st"
  "quiet_since (overtemp_warn st) = quiet_since st" "phase_until (overtemp_warn st) = phase_until st"
  "over_temp (overtemp_warn st) = over_temp st" "cold (overtemp_warn st) = cold st"
  "critical (overtemp_warn st) = critical st" "sensor_fail (overtemp_warn st) = sensor_fail st"
  "sensor_alarm (overtemp_warn st) = sensor_alarm st" "forced_cool (overtemp_warn st) = forced_cool st"
  "flood_on (overtemp_warn st) = flood_on st" "silent_warned (overtemp_warn st) = silent_warned st"
  "silent_safed (overtemp_warn st) = silent_safed st" "eff_armed (overtemp_warn st) = eff_armed st"
  "session_armed (overtemp_warn st) = session_armed st" "last_up (overtemp_warn st) = last_up st"
  "ext_held (overtemp_warn st) = ext_held st" "ext_dropped (overtemp_warn st) = ext_dropped st"
  "ext_reason (overtemp_warn st) = ext_reason st" "seq (overtemp_warn st) = seq st"
  "diag_owned (overtemp_warn st) = diag_owned st" "outs (overtemp_warn st) = outs st"
  by (simp_all add: overtemp_warn_def Let_def if_sel)

lemma ext_holds_log_sel [simp]:
  "rep (ext_holds_log h st) = rep st" "conf (ext_holds_log h st) = conf st"
  "env_set (ext_holds_log h st) = env_set st" "off (ext_holds_log h st) = off st"
  "lim (ext_holds_log h st) = lim st" "density (ext_holds_log h st) = density st"
  "phase (ext_holds_log h st) = phase st" "start_cool (ext_holds_log h st) = start_cool st"
  "heater (ext_holds_log h st) = heater st" "fl (ext_holds_log h st) = fl st"
  "wu (ext_holds_log h st) = wu st" "fan (ext_holds_log h st) = fan st" "wat (ext_holds_log h st) = wat st"
  "tec_on (ext_holds_log h st) = tec_on st" "tec_written (ext_holds_log h st) = tec_written st"
  "tec_switched_at (ext_holds_log h st) = tec_switched_at st"
  "quiet_held (ext_holds_log h st) = quiet_held st" "quiet_pump (ext_holds_log h st) = quiet_pump st"
  "quiet_since (ext_holds_log h st) = quiet_since st" "phase_until (ext_holds_log h st) = phase_until st"
  "over_temp (ext_holds_log h st) = over_temp st" "cold (ext_holds_log h st) = cold st"
  "critical (ext_holds_log h st) = critical st" "sensor_fail (ext_holds_log h st) = sensor_fail st"
  "sensor_alarm (ext_holds_log h st) = sensor_alarm st" "forced_cool (ext_holds_log h st) = forced_cool st"
  "flood_on (ext_holds_log h st) = flood_on st" "silent_warned (ext_holds_log h st) = silent_warned st"
  "silent_safed (ext_holds_log h st) = silent_safed st" "eff_armed (ext_holds_log h st) = eff_armed st"
  "session_armed (ext_holds_log h st) = session_armed st" "last_up (ext_holds_log h st) = last_up st"
  "seq (ext_holds_log h st) = seq st" "diag_owned (ext_holds_log h st) = diag_owned st"
  "outs (ext_holds_log h st) = outs st"
  by (simp_all add: ext_holds_log_def Let_def if_sel)

lemma gates_apply_sel [simp]:
  "rep (gates_apply st) = rep st" "conf (gates_apply st) = conf st" "env_set (gates_apply st) = env_set st"
  "lim (gates_apply st) = lim st" "density (gates_apply st) = density st" "phase (gates_apply st) = phase st"
  "start_cool (gates_apply st) = start_cool st" "heater (gates_apply st) = heater st"
  "fl (gates_apply st) = fl st" "wu (gates_apply st) = wu st" "fan (gates_apply st) = fan st"
  "wat (gates_apply st) = wat st" "tec_on (gates_apply st) = tec_on st"
  "tec_written (gates_apply st) = tec_written st" "tec_switched_at (gates_apply st) = tec_switched_at st"
  "quiet_held (gates_apply st) = quiet_held st" "quiet_pump (gates_apply st) = quiet_pump st"
  "quiet_since (gates_apply st) = quiet_since st" "phase_until (gates_apply st) = phase_until st"
  "over_temp (gates_apply st) = over_temp st" "cold (gates_apply st) = cold st"
  "critical (gates_apply st) = critical st" "sensor_fail (gates_apply st) = sensor_fail st"
  "sensor_alarm (gates_apply st) = sensor_alarm st" "forced_cool (gates_apply st) = forced_cool st"
  "flood_on (gates_apply st) = flood_on st" "silent_warned (gates_apply st) = silent_warned st"
  "silent_safed (gates_apply st) = silent_safed st" "eff_armed (gates_apply st) = eff_armed st"
  "session_armed (gates_apply st) = session_armed st" "last_up (gates_apply st) = last_up st"
  "ext_held (gates_apply st) = ext_held st" "ext_dropped (gates_apply st) = ext_dropped st"
  "ext_reason (gates_apply st) = ext_reason st" "seq (gates_apply st) = seq st"
  "diag_owned (gates_apply st) = diag_owned st" "outs (gates_apply st) = outs st"
  by (simp_all add: gates_apply_def Let_def if_sel)

lemma conf_reload_sel [simp]:
  "rep (conf_reload i st) = rep st" "env_set (conf_reload i st) = env_set st"
  "lim (conf_reload i st) = lim st" "phase (conf_reload i st) = phase st"
  "start_cool (conf_reload i st) = start_cool st" "heater (conf_reload i st) = heater st"
  "fl (conf_reload i st) = fl st" "wu (conf_reload i st) = wu st" "fan (conf_reload i st) = fan st"
  "wat (conf_reload i st) = wat st" "tec_on (conf_reload i st) = tec_on st"
  "tec_written (conf_reload i st) = tec_written st" "tec_switched_at (conf_reload i st) = tec_switched_at st"
  "quiet_held (conf_reload i st) = quiet_held st" "quiet_pump (conf_reload i st) = quiet_pump st"
  "quiet_since (conf_reload i st) = quiet_since st" "phase_until (conf_reload i st) = phase_until st"
  "over_temp (conf_reload i st) = over_temp st" "cold (conf_reload i st) = cold st"
  "critical (conf_reload i st) = critical st" "sensor_fail (conf_reload i st) = sensor_fail st"
  "sensor_alarm (conf_reload i st) = sensor_alarm st" "forced_cool (conf_reload i st) = forced_cool st"
  "flood_on (conf_reload i st) = flood_on st" "silent_warned (conf_reload i st) = silent_warned st"
  "silent_safed (conf_reload i st) = silent_safed st" "eff_armed (conf_reload i st) = eff_armed st"
  "session_armed (conf_reload i st) = session_armed st" "last_up (conf_reload i st) = last_up st"
  "ext_held (conf_reload i st) = ext_held st" "ext_dropped (conf_reload i st) = ext_dropped st"
  "ext_reason (conf_reload i st) = ext_reason st" "seq (conf_reload i st) = seq st"
  "diag_owned (conf_reload i st) = diag_owned st" "outs (conf_reload i st) = outs st"
  by (simp_all add: conf_reload_def Let_def if_sel)

lemma limits_apply_sel [simp]:
  "rep (limits_apply h f st) = rep st" "conf (limits_apply h f st) = conf st"
  "env_set (limits_apply h f st) = env_set st" "off (limits_apply h f st) = off st"
  "density (limits_apply h f st) = density st" "phase (limits_apply h f st) = phase st"
  "start_cool (limits_apply h f st) = start_cool st" "heater (limits_apply h f st) = heater st"
  "fl (limits_apply h f st) = fl st" "wu (limits_apply h f st) = wu st" "fan (limits_apply h f st) = fan st"
  "wat (limits_apply h f st) = wat st" "tec_on (limits_apply h f st) = tec_on st"
  "tec_written (limits_apply h f st) = tec_written st"
  "tec_switched_at (limits_apply h f st) = tec_switched_at st"
  "quiet_held (limits_apply h f st) = quiet_held st" "quiet_pump (limits_apply h f st) = quiet_pump st"
  "quiet_since (limits_apply h f st) = quiet_since st" "phase_until (limits_apply h f st) = phase_until st"
  "over_temp (limits_apply h f st) = over_temp st" "cold (limits_apply h f st) = cold st"
  "critical (limits_apply h f st) = critical st" "sensor_fail (limits_apply h f st) = sensor_fail st"
  "sensor_alarm (limits_apply h f st) = sensor_alarm st" "forced_cool (limits_apply h f st) = forced_cool st"
  "flood_on (limits_apply h f st) = flood_on st" "silent_warned (limits_apply h f st) = silent_warned st"
  "silent_safed (limits_apply h f st) = silent_safed st" "eff_armed (limits_apply h f st) = eff_armed st"
  "session_armed (limits_apply h f st) = session_armed st" "last_up (limits_apply h f st) = last_up st"
  "ext_held (limits_apply h f st) = ext_held st" "ext_dropped (limits_apply h f st) = ext_dropped st"
  "ext_reason (limits_apply h f st) = ext_reason st" "seq (limits_apply h f st) = seq st"
  "diag_owned (limits_apply h f st) = diag_owned st" "pub (limits_apply h f st) = pub st"
  "outs (limits_apply h f st) = outs st"
  by (simp_all add: limits_apply_def Let_def if_sel)

lemma flow_check_start_sel [simp]:
  "rep (flow_check_start i st) = rep st" "conf (flow_check_start i st) = conf st"
  "env_set (flow_check_start i st) = env_set st" "off (flow_check_start i st) = off st"
  "lim (flow_check_start i st) = lim st" "density (flow_check_start i st) = density st"
  "phase (flow_check_start i st) = phase st" "start_cool (flow_check_start i st) = start_cool st"
  "wu (flow_check_start i st) = wu st" "fan (flow_check_start i st) = fan st"
  "wat (flow_check_start i st) = wat st" "tec_on (flow_check_start i st) = tec_on st"
  "tec_written (flow_check_start i st) = tec_written st"
  "tec_switched_at (flow_check_start i st) = tec_switched_at st"
  "quiet_held (flow_check_start i st) = quiet_held st" "quiet_pump (flow_check_start i st) = quiet_pump st"
  "quiet_since (flow_check_start i st) = quiet_since st"
  "phase_until (flow_check_start i st) = phase_until st" "over_temp (flow_check_start i st) = over_temp st"
  "cold (flow_check_start i st) = cold st" "critical (flow_check_start i st) = critical st"
  "sensor_fail (flow_check_start i st) = sensor_fail st"
  "sensor_alarm (flow_check_start i st) = sensor_alarm st"
  "forced_cool (flow_check_start i st) = forced_cool st" "flood_on (flow_check_start i st) = flood_on st"
  "silent_warned (flow_check_start i st) = silent_warned st"
  "silent_safed (flow_check_start i st) = silent_safed st" "eff_armed (flow_check_start i st) = eff_armed st"
  "session_armed (flow_check_start i st) = session_armed st" "last_up (flow_check_start i st) = last_up st"
  "ext_held (flow_check_start i st) = ext_held st" "ext_dropped (flow_check_start i st) = ext_dropped st"
  "ext_reason (flow_check_start i st) = ext_reason st" "seq (flow_check_start i st) = seq st"
  "diag_owned (flow_check_start i st) = diag_owned st" "pub (flow_check_start i st) = pub st"
  by (simp_all add: flow_check_start_def Let_def if_sel)

lemma flow_request_sel [simp]:
  "rep (flow_request t st) = rep st" "conf (flow_request t st) = conf st"
  "env_set (flow_request t st) = env_set st" "off (flow_request t st) = off st"
  "lim (flow_request t st) = lim st" "density (flow_request t st) = density st"
  "phase (flow_request t st) = phase st" "start_cool (flow_request t st) = start_cool st"
  "heater (flow_request t st) = heater st" "wu (flow_request t st) = wu st" "fan (flow_request t st) = fan st"
  "wat (flow_request t st) = wat st" "tec_on (flow_request t st) = tec_on st"
  "tec_written (flow_request t st) = tec_written st"
  "tec_switched_at (flow_request t st) = tec_switched_at st" "quiet_held (flow_request t st) = quiet_held st"
  "quiet_pump (flow_request t st) = quiet_pump st" "quiet_since (flow_request t st) = quiet_since st"
  "phase_until (flow_request t st) = phase_until st" "over_temp (flow_request t st) = over_temp st"
  "cold (flow_request t st) = cold st" "critical (flow_request t st) = critical st"
  "sensor_fail (flow_request t st) = sensor_fail st" "sensor_alarm (flow_request t st) = sensor_alarm st"
  "forced_cool (flow_request t st) = forced_cool st" "flood_on (flow_request t st) = flood_on st"
  "silent_warned (flow_request t st) = silent_warned st" "silent_safed (flow_request t st) = silent_safed st"
  "eff_armed (flow_request t st) = eff_armed st" "session_armed (flow_request t st) = session_armed st"
  "last_up (flow_request t st) = last_up st" "ext_held (flow_request t st) = ext_held st"
  "ext_dropped (flow_request t st) = ext_dropped st" "ext_reason (flow_request t st) = ext_reason st"
  "seq (flow_request t st) = seq st" "diag_owned (flow_request t st) = diag_owned st"
  "pub (flow_request t st) = pub st" "outs (flow_request t st) = outs st"
  by (simp_all add: flow_request_def Let_def if_sel)

lemma flood_reset_sel [simp]:
  "rep (flood_reset i st) = rep st" "conf (flood_reset i st) = conf st"
  "env_set (flood_reset i st) = env_set st" "off (flood_reset i st) = off st"
  "lim (flood_reset i st) = lim st" "density (flood_reset i st) = density st"
  "phase (flood_reset i st) = phase st" "start_cool (flood_reset i st) = start_cool st"
  "heater (flood_reset i st) = heater st" "wu (flood_reset i st) = wu st" "wat (flood_reset i st) = wat st"
  "tec_on (flood_reset i st) = tec_on st" "tec_written (flood_reset i st) = tec_written st"
  "tec_switched_at (flood_reset i st) = tec_switched_at st" "quiet_held (flood_reset i st) = quiet_held st"
  "quiet_pump (flood_reset i st) = quiet_pump st" "quiet_since (flood_reset i st) = quiet_since st"
  "phase_until (flood_reset i st) = phase_until st" "over_temp (flood_reset i st) = over_temp st"
  "cold (flood_reset i st) = cold st" "sensor_fail (flood_reset i st) = sensor_fail st"
  "sensor_alarm (flood_reset i st) = sensor_alarm st" "forced_cool (flood_reset i st) = forced_cool st"
  "flood_on (flood_reset i st) = flood_on st" "silent_warned (flood_reset i st) = silent_warned st"
  "silent_safed (flood_reset i st) = silent_safed st" "eff_armed (flood_reset i st) = eff_armed st"
  "session_armed (flood_reset i st) = session_armed st" "last_up (flood_reset i st) = last_up st"
  "ext_held (flood_reset i st) = ext_held st" "ext_dropped (flood_reset i st) = ext_dropped st"
  "ext_reason (flood_reset i st) = ext_reason st" "seq (flood_reset i st) = seq st"
  "diag_owned (flood_reset i st) = diag_owned st" "pub (flood_reset i st) = pub st"
  "outs (flood_reset i st) = outs st"
  by (simp_all add: flood_reset_def Let_def if_sel)

lemma flood_enter_sel [simp]:
  "rep (flood_enter i st) = rep st" "conf (flood_enter i st) = conf st"
  "env_set (flood_enter i st) = env_set st" "off (flood_enter i st) = off st"
  "lim (flood_enter i st) = lim st" "density (flood_enter i st) = density st" "fl (flood_enter i st) = fl st"
  "wat (flood_enter i st) = wat st" "tec_on (flood_enter i st) = tec_on st"
  "tec_written (flood_enter i st) = tec_written st" "tec_switched_at (flood_enter i st) = tec_switched_at st"
  "quiet_held (flood_enter i st) = quiet_held st" "quiet_pump (flood_enter i st) = quiet_pump st"
  "quiet_since (flood_enter i st) = quiet_since st" "phase_until (flood_enter i st) = phase_until st"
  "over_temp (flood_enter i st) = over_temp st" "cold (flood_enter i st) = cold st"
  "critical (flood_enter i st) = critical st" "sensor_fail (flood_enter i st) = sensor_fail st"
  "sensor_alarm (flood_enter i st) = sensor_alarm st" "forced_cool (flood_enter i st) = forced_cool st"
  "flood_on (flood_enter i st) = flood_on st" "silent_warned (flood_enter i st) = silent_warned st"
  "silent_safed (flood_enter i st) = silent_safed st" "eff_armed (flood_enter i st) = eff_armed st"
  "session_armed (flood_enter i st) = session_armed st" "last_up (flood_enter i st) = last_up st"
  "ext_held (flood_enter i st) = ext_held st" "ext_dropped (flood_enter i st) = ext_dropped st"
  "ext_reason (flood_enter i st) = ext_reason st" "seq (flood_enter i st) = seq st"
  "diag_owned (flood_enter i st) = diag_owned st"
  by (simp_all add: flood_enter_def Let_def if_sel)

lemma flood_flow_sel [simp]:
  "rep (flood_flow i st) = rep st" "conf (flood_flow i st) = conf st" "env_set (flood_flow i st) = env_set st"
  "off (flood_flow i st) = off st" "lim (flood_flow i st) = lim st" "density (flood_flow i st) = density st"
  "phase (flood_flow i st) = phase st" "start_cool (flood_flow i st) = start_cool st"
  "heater (flood_flow i st) = heater st" "wu (flood_flow i st) = wu st" "fan (flood_flow i st) = fan st"
  "wat (flood_flow i st) = wat st" "tec_on (flood_flow i st) = tec_on st"
  "tec_written (flood_flow i st) = tec_written st" "tec_switched_at (flood_flow i st) = tec_switched_at st"
  "quiet_held (flood_flow i st) = quiet_held st" "quiet_pump (flood_flow i st) = quiet_pump st"
  "quiet_since (flood_flow i st) = quiet_since st" "phase_until (flood_flow i st) = phase_until st"
  "over_temp (flood_flow i st) = over_temp st" "cold (flood_flow i st) = cold st"
  "critical (flood_flow i st) = critical st" "sensor_fail (flood_flow i st) = sensor_fail st"
  "sensor_alarm (flood_flow i st) = sensor_alarm st" "forced_cool (flood_flow i st) = forced_cool st"
  "flood_on (flood_flow i st) = flood_on st" "silent_warned (flood_flow i st) = silent_warned st"
  "silent_safed (flood_flow i st) = silent_safed st" "eff_armed (flood_flow i st) = eff_armed st"
  "session_armed (flood_flow i st) = session_armed st" "last_up (flood_flow i st) = last_up st"
  "ext_held (flood_flow i st) = ext_held st" "ext_dropped (flood_flow i st) = ext_dropped st"
  "ext_reason (flood_flow i st) = ext_reason st" "seq (flood_flow i st) = seq st"
  "diag_owned (flood_flow i st) = diag_owned st" "pub (flood_flow i st) = pub st"
  "outs (flood_flow i st) = outs st"
  by (simp_all add: flood_flow_def Let_def if_sel)

lemma flood_watch_sel [simp]:
  "rep (flood_watch st) = rep st" "conf (flood_watch st) = conf st" "env_set (flood_watch st) = env_set st"
  "off (flood_watch st) = off st" "lim (flood_watch st) = lim st" "density (flood_watch st) = density st"
  "phase (flood_watch st) = phase st" "start_cool (flood_watch st) = start_cool st"
  "heater (flood_watch st) = heater st" "fl (flood_watch st) = fl st" "wu (flood_watch st) = wu st"
  "fan (flood_watch st) = fan st" "tec_on (flood_watch st) = tec_on st"
  "tec_written (flood_watch st) = tec_written st" "tec_switched_at (flood_watch st) = tec_switched_at st"
  "quiet_held (flood_watch st) = quiet_held st" "quiet_pump (flood_watch st) = quiet_pump st"
  "quiet_since (flood_watch st) = quiet_since st" "phase_until (flood_watch st) = phase_until st"
  "over_temp (flood_watch st) = over_temp st" "cold (flood_watch st) = cold st"
  "critical (flood_watch st) = critical st" "sensor_fail (flood_watch st) = sensor_fail st"
  "sensor_alarm (flood_watch st) = sensor_alarm st" "forced_cool (flood_watch st) = forced_cool st"
  "flood_on (flood_watch st) = flood_on st" "silent_warned (flood_watch st) = silent_warned st"
  "silent_safed (flood_watch st) = silent_safed st" "eff_armed (flood_watch st) = eff_armed st"
  "session_armed (flood_watch st) = session_armed st" "last_up (flood_watch st) = last_up st"
  "ext_held (flood_watch st) = ext_held st" "ext_dropped (flood_watch st) = ext_dropped st"
  "ext_reason (flood_watch st) = ext_reason st" "seq (flood_watch st) = seq st"
  "diag_owned (flood_watch st) = diag_owned st" "pub (flood_watch st) = pub st"
  "outs (flood_watch st) = outs st"
  by (simp_all add: flood_watch_def Let_def if_sel)

lemma flood_open_sel [simp]:
  "rep (flood_open i st) = rep st" "env_set (flood_open i st) = env_set st" "lim (flood_open i st) = lim st"
  "tec_on (flood_open i st) = tec_on st" "tec_written (flood_open i st) = tec_written st"
  "tec_switched_at (flood_open i st) = tec_switched_at st" "quiet_held (flood_open i st) = quiet_held st"
  "quiet_pump (flood_open i st) = quiet_pump st" "quiet_since (flood_open i st) = quiet_since st"
  "phase_until (flood_open i st) = phase_until st" "over_temp (flood_open i st) = over_temp st"
  "cold (flood_open i st) = cold st" "sensor_fail (flood_open i st) = sensor_fail st"
  "sensor_alarm (flood_open i st) = sensor_alarm st" "forced_cool (flood_open i st) = forced_cool st"
  "flood_on (flood_open i st) = flood_on st" "silent_warned (flood_open i st) = silent_warned st"
  "silent_safed (flood_open i st) = silent_safed st" "eff_armed (flood_open i st) = eff_armed st"
  "session_armed (flood_open i st) = session_armed st" "last_up (flood_open i st) = last_up st"
  "ext_held (flood_open i st) = ext_held st" "ext_dropped (flood_open i st) = ext_dropped st"
  "ext_reason (flood_open i st) = ext_reason st" "seq (flood_open i st) = seq st"
  "diag_owned (flood_open i st) = diag_owned st"
  by (simp_all add: flood_open_def Let_def if_sel)

lemma flood_close_sel [simp]:
  "rep (flood_close i st) = rep st" "conf (flood_close i st) = conf st"
  "env_set (flood_close i st) = env_set st" "off (flood_close i st) = off st"
  "lim (flood_close i st) = lim st" "density (flood_close i st) = density st"
  "start_cool (flood_close i st) = start_cool st" "wu (flood_close i st) = wu st"
  "tec_on (flood_close i st) = tec_on st" "tec_written (flood_close i st) = tec_written st"
  "tec_switched_at (flood_close i st) = tec_switched_at st" "quiet_held (flood_close i st) = quiet_held st"
  "quiet_pump (flood_close i st) = quiet_pump st" "quiet_since (flood_close i st) = quiet_since st"
  "over_temp (flood_close i st) = over_temp st" "cold (flood_close i st) = cold st"
  "sensor_fail (flood_close i st) = sensor_fail st" "sensor_alarm (flood_close i st) = sensor_alarm st"
  "forced_cool (flood_close i st) = forced_cool st" "flood_on (flood_close i st) = flood_on st"
  "silent_warned (flood_close i st) = silent_warned st" "silent_safed (flood_close i st) = silent_safed st"
  "eff_armed (flood_close i st) = eff_armed st" "session_armed (flood_close i st) = session_armed st"
  "last_up (flood_close i st) = last_up st" "ext_held (flood_close i st) = ext_held st"
  "ext_dropped (flood_close i st) = ext_dropped st" "ext_reason (flood_close i st) = ext_reason st"
  "seq (flood_close i st) = seq st" "diag_owned (flood_close i st) = diag_owned st"
  by (simp_all add: flood_close_def Let_def if_sel)

lemma silence_stop_sel [simp]:
  "rep (silence_stop i st) = rep st" "conf (silence_stop i st) = conf st"
  "env_set (silence_stop i st) = env_set st" "off (silence_stop i st) = off st"
  "lim (silence_stop i st) = lim st" "density (silence_stop i st) = density st"
  "phase (silence_stop i st) = phase st" "start_cool (silence_stop i st) = start_cool st"
  "heater (silence_stop i st) = heater st" "fl (silence_stop i st) = fl st" "wu (silence_stop i st) = wu st"
  "fan (silence_stop i st) = fan st" "wat (silence_stop i st) = wat st"
  "tec_on (silence_stop i st) = tec_on st" "tec_written (silence_stop i st) = tec_written st"
  "tec_switched_at (silence_stop i st) = tec_switched_at st" "quiet_held (silence_stop i st) = quiet_held st"
  "quiet_pump (silence_stop i st) = quiet_pump st" "quiet_since (silence_stop i st) = quiet_since st"
  "phase_until (silence_stop i st) = phase_until st" "over_temp (silence_stop i st) = over_temp st"
  "cold (silence_stop i st) = cold st" "critical (silence_stop i st) = critical st"
  "sensor_fail (silence_stop i st) = sensor_fail st" "sensor_alarm (silence_stop i st) = sensor_alarm st"
  "forced_cool (silence_stop i st) = forced_cool st" "flood_on (silence_stop i st) = flood_on st"
  "silent_warned (silence_stop i st) = silent_warned st" "eff_armed (silence_stop i st) = eff_armed st"
  "session_armed (silence_stop i st) = session_armed st" "last_up (silence_stop i st) = last_up st"
  "ext_held (silence_stop i st) = ext_held st" "ext_dropped (silence_stop i st) = ext_dropped st"
  "ext_reason (silence_stop i st) = ext_reason st" "seq (silence_stop i st) = seq st"
  "diag_owned (silence_stop i st) = diag_owned st"
  by (simp_all add: silence_stop_def Let_def if_sel)

lemma silence_stand_down_sel [simp]:
  "rep (silence_stand_down st) = rep st" "conf (silence_stand_down st) = conf st"
  "env_set (silence_stand_down st) = env_set st" "off (silence_stand_down st) = off st"
  "lim (silence_stand_down st) = lim st" "density (silence_stand_down st) = density st"
  "phase (silence_stand_down st) = phase st" "start_cool (silence_stand_down st) = start_cool st"
  "heater (silence_stand_down st) = heater st" "fl (silence_stand_down st) = fl st"
  "wu (silence_stand_down st) = wu st" "fan (silence_stand_down st) = fan st"
  "wat (silence_stand_down st) = wat st" "tec_on (silence_stand_down st) = tec_on st"
  "tec_written (silence_stand_down st) = tec_written st"
  "tec_switched_at (silence_stand_down st) = tec_switched_at st"
  "quiet_held (silence_stand_down st) = quiet_held st" "quiet_pump (silence_stand_down st) = quiet_pump st"
  "quiet_since (silence_stand_down st) = quiet_since st"
  "phase_until (silence_stand_down st) = phase_until st" "over_temp (silence_stand_down st) = over_temp st"
  "cold (silence_stand_down st) = cold st" "critical (silence_stand_down st) = critical st"
  "sensor_fail (silence_stand_down st) = sensor_fail st"
  "sensor_alarm (silence_stand_down st) = sensor_alarm st"
  "forced_cool (silence_stand_down st) = forced_cool st" "flood_on (silence_stand_down st) = flood_on st"
  "silent_safed (silence_stand_down st) = silent_safed st" "eff_armed (silence_stand_down st) = eff_armed st"
  "session_armed (silence_stand_down st) = session_armed st" "last_up (silence_stand_down st) = last_up st"
  "ext_held (silence_stand_down st) = ext_held st" "ext_dropped (silence_stand_down st) = ext_dropped st"
  "ext_reason (silence_stand_down st) = ext_reason st" "seq (silence_stand_down st) = seq st"
  "diag_owned (silence_stand_down st) = diag_owned st" "outs (silence_stand_down st) = outs st"
  by (simp_all add: silence_stand_down_def Let_def if_sel)

lemma stage_silence_sel [simp]:
  "rep (stage_silence i st) = rep st" "conf (stage_silence i st) = conf st"
  "env_set (stage_silence i st) = env_set st" "off (stage_silence i st) = off st"
  "density (stage_silence i st) = density st" "phase (stage_silence i st) = phase st"
  "start_cool (stage_silence i st) = start_cool st" "heater (stage_silence i st) = heater st"
  "fl (stage_silence i st) = fl st" "wu (stage_silence i st) = wu st" "fan (stage_silence i st) = fan st"
  "wat (stage_silence i st) = wat st" "tec_on (stage_silence i st) = tec_on st"
  "tec_written (stage_silence i st) = tec_written st"
  "tec_switched_at (stage_silence i st) = tec_switched_at st"
  "quiet_held (stage_silence i st) = quiet_held st" "quiet_pump (stage_silence i st) = quiet_pump st"
  "quiet_since (stage_silence i st) = quiet_since st" "phase_until (stage_silence i st) = phase_until st"
  "over_temp (stage_silence i st) = over_temp st" "cold (stage_silence i st) = cold st"
  "critical (stage_silence i st) = critical st" "sensor_fail (stage_silence i st) = sensor_fail st"
  "sensor_alarm (stage_silence i st) = sensor_alarm st" "forced_cool (stage_silence i st) = forced_cool st"
  "flood_on (stage_silence i st) = flood_on st" "eff_armed (stage_silence i st) = eff_armed st"
  "session_armed (stage_silence i st) = session_armed st" "last_up (stage_silence i st) = last_up st"
  "ext_held (stage_silence i st) = ext_held st" "ext_dropped (stage_silence i st) = ext_dropped st"
  "ext_reason (stage_silence i st) = ext_reason st" "seq (stage_silence i st) = seq st"
  "diag_owned (stage_silence i st) = diag_owned st"
  by (simp_all add: stage_silence_def Let_def if_sel)

lemma quiet_hold_ex_sel [simp]:
  "rep (quiet_hold_ex i on wp st) = rep st" "conf (quiet_hold_ex i on wp st) = conf st"
  "env_set (quiet_hold_ex i on wp st) = env_set st" "off (quiet_hold_ex i on wp st) = off st"
  "lim (quiet_hold_ex i on wp st) = lim st" "density (quiet_hold_ex i on wp st) = density st"
  "phase (quiet_hold_ex i on wp st) = phase st" "heater (quiet_hold_ex i on wp st) = heater st"
  "fl (quiet_hold_ex i on wp st) = fl st" "wu (quiet_hold_ex i on wp st) = wu st"
  "wat (quiet_hold_ex i on wp st) = wat st" "tec_on (quiet_hold_ex i on wp st) = tec_on st"
  "tec_switched_at (quiet_hold_ex i on wp st) = tec_switched_at st"
  "phase_until (quiet_hold_ex i on wp st) = phase_until st"
  "over_temp (quiet_hold_ex i on wp st) = over_temp st" "cold (quiet_hold_ex i on wp st) = cold st"
  "critical (quiet_hold_ex i on wp st) = critical st"
  "sensor_fail (quiet_hold_ex i on wp st) = sensor_fail st"
  "sensor_alarm (quiet_hold_ex i on wp st) = sensor_alarm st"
  "forced_cool (quiet_hold_ex i on wp st) = forced_cool st"
  "flood_on (quiet_hold_ex i on wp st) = flood_on st"
  "silent_warned (quiet_hold_ex i on wp st) = silent_warned st"
  "silent_safed (quiet_hold_ex i on wp st) = silent_safed st"
  "eff_armed (quiet_hold_ex i on wp st) = eff_armed st"
  "session_armed (quiet_hold_ex i on wp st) = session_armed st"
  "last_up (quiet_hold_ex i on wp st) = last_up st" "ext_held (quiet_hold_ex i on wp st) = ext_held st"
  "ext_dropped (quiet_hold_ex i on wp st) = ext_dropped st"
  "ext_reason (quiet_hold_ex i on wp st) = ext_reason st" "seq (quiet_hold_ex i on wp st) = seq st"
  "diag_owned (quiet_hold_ex i on wp st) = diag_owned st" "pub (quiet_hold_ex i on wp st) = pub st"
  by (simp_all add: quiet_hold_ex_def Let_def if_sel)

lemma session_quiet_sel [simp]:
  "rep (session_quiet i r st) = rep st" "conf (session_quiet i r st) = conf st"
  "env_set (session_quiet i r st) = env_set st" "off (session_quiet i r st) = off st"
  "lim (session_quiet i r st) = lim st" "density (session_quiet i r st) = density st"
  "phase (session_quiet i r st) = phase st" "heater (session_quiet i r st) = heater st"
  "fl (session_quiet i r st) = fl st" "wu (session_quiet i r st) = wu st"
  "wat (session_quiet i r st) = wat st" "tec_on (session_quiet i r st) = tec_on st"
  "tec_switched_at (session_quiet i r st) = tec_switched_at st"
  "phase_until (session_quiet i r st) = phase_until st" "over_temp (session_quiet i r st) = over_temp st"
  "cold (session_quiet i r st) = cold st" "critical (session_quiet i r st) = critical st"
  "sensor_fail (session_quiet i r st) = sensor_fail st"
  "sensor_alarm (session_quiet i r st) = sensor_alarm st"
  "forced_cool (session_quiet i r st) = forced_cool st" "flood_on (session_quiet i r st) = flood_on st"
  "silent_warned (session_quiet i r st) = silent_warned st"
  "silent_safed (session_quiet i r st) = silent_safed st" "eff_armed (session_quiet i r st) = eff_armed st"
  "session_armed (session_quiet i r st) = session_armed st" "last_up (session_quiet i r st) = last_up st"
  "ext_held (session_quiet i r st) = ext_held st" "ext_dropped (session_quiet i r st) = ext_dropped st"
  "ext_reason (session_quiet i r st) = ext_reason st" "seq (session_quiet i r st) = seq st"
  "diag_owned (session_quiet i r st) = diag_owned st"
  by (simp_all add: session_quiet_def Let_def if_sel)

lemma session_history_sel [simp]:
  "rep (session_history i st) = rep st" "conf (session_history i st) = conf st"
  "env_set (session_history i st) = env_set st" "off (session_history i st) = off st"
  "lim (session_history i st) = lim st" "density (session_history i st) = density st"
  "phase (session_history i st) = phase st" "start_cool (session_history i st) = start_cool st"
  "heater (session_history i st) = heater st" "fl (session_history i st) = fl st"
  "wu (session_history i st) = wu st" "fan (session_history i st) = fan st"
  "wat (session_history i st) = wat st" "tec_on (session_history i st) = tec_on st"
  "tec_written (session_history i st) = tec_written st"
  "tec_switched_at (session_history i st) = tec_switched_at st"
  "quiet_held (session_history i st) = quiet_held st" "quiet_pump (session_history i st) = quiet_pump st"
  "quiet_since (session_history i st) = quiet_since st" "phase_until (session_history i st) = phase_until st"
  "over_temp (session_history i st) = over_temp st" "cold (session_history i st) = cold st"
  "critical (session_history i st) = critical st" "sensor_fail (session_history i st) = sensor_fail st"
  "sensor_alarm (session_history i st) = sensor_alarm st"
  "forced_cool (session_history i st) = forced_cool st" "flood_on (session_history i st) = flood_on st"
  "silent_warned (session_history i st) = silent_warned st"
  "silent_safed (session_history i st) = silent_safed st" "eff_armed (session_history i st) = eff_armed st"
  "last_up (session_history i st) = last_up st" "ext_held (session_history i st) = ext_held st"
  "ext_dropped (session_history i st) = ext_dropped st" "ext_reason (session_history i st) = ext_reason st"
  "seq (session_history i st) = seq st" "diag_owned (session_history i st) = diag_owned st"
  "pub (session_history i st) = pub st" "outs (session_history i st) = outs st"
  by (simp_all add: session_history_def Let_def if_sel)

lemma session_duty_sel [simp]:
  "rep (session_duty i a st) = rep st" "conf (session_duty i a st) = conf st"
  "env_set (session_duty i a st) = env_set st" "off (session_duty i a st) = off st"
  "lim (session_duty i a st) = lim st" "density (session_duty i a st) = density st"
  "phase (session_duty i a st) = phase st" "start_cool (session_duty i a st) = start_cool st"
  "heater (session_duty i a st) = heater st" "fl (session_duty i a st) = fl st"
  "wu (session_duty i a st) = wu st" "wat (session_duty i a st) = wat st"
  "tec_on (session_duty i a st) = tec_on st" "tec_written (session_duty i a st) = tec_written st"
  "tec_switched_at (session_duty i a st) = tec_switched_at st"
  "quiet_held (session_duty i a st) = quiet_held st" "quiet_pump (session_duty i a st) = quiet_pump st"
  "quiet_since (session_duty i a st) = quiet_since st" "phase_until (session_duty i a st) = phase_until st"
  "over_temp (session_duty i a st) = over_temp st" "cold (session_duty i a st) = cold st"
  "critical (session_duty i a st) = critical st" "sensor_fail (session_duty i a st) = sensor_fail st"
  "sensor_alarm (session_duty i a st) = sensor_alarm st" "forced_cool (session_duty i a st) = forced_cool st"
  "flood_on (session_duty i a st) = flood_on st" "silent_warned (session_duty i a st) = silent_warned st"
  "silent_safed (session_duty i a st) = silent_safed st" "eff_armed (session_duty i a st) = eff_armed st"
  "session_armed (session_duty i a st) = session_armed st" "last_up (session_duty i a st) = last_up st"
  "ext_held (session_duty i a st) = ext_held st" "ext_dropped (session_duty i a st) = ext_dropped st"
  "ext_reason (session_duty i a st) = ext_reason st" "seq (session_duty i a st) = seq st"
  "diag_owned (session_duty i a st) = diag_owned st" "pub (session_duty i a st) = pub st"
  by (simp_all add: session_duty_def Let_def if_sel)

lemma session_edge_sel [simp]:
  "rep (session_edge i st) = rep st" "env_set (session_edge i st) = env_set st"
  "tec_on (session_edge i st) = tec_on st" "tec_written (session_edge i st) = tec_written st"
  "tec_switched_at (session_edge i st) = tec_switched_at st" "quiet_held (session_edge i st) = quiet_held st"
  "quiet_pump (session_edge i st) = quiet_pump st" "quiet_since (session_edge i st) = quiet_since st"
  "over_temp (session_edge i st) = over_temp st" "cold (session_edge i st) = cold st"
  "sensor_fail (session_edge i st) = sensor_fail st" "sensor_alarm (session_edge i st) = sensor_alarm st"
  "forced_cool (session_edge i st) = forced_cool st" "silent_warned (session_edge i st) = silent_warned st"
  "silent_safed (session_edge i st) = silent_safed st" "eff_armed (session_edge i st) = eff_armed st"
  "session_armed (session_edge i st) = session_armed st" "last_up (session_edge i st) = last_up st"
  "ext_held (session_edge i st) = ext_held st" "ext_dropped (session_edge i st) = ext_dropped st"
  "ext_reason (session_edge i st) = ext_reason st" "seq (session_edge i st) = seq st"
  "diag_owned (session_edge i st) = diag_owned st"
  by (simp_all add: session_edge_def Let_def if_sel)

lemma stage_session_sel [simp]:
  "rep (stage_session i st) = rep st" "env_set (stage_session i st) = env_set st"
  "tec_on (stage_session i st) = tec_on st" "tec_switched_at (stage_session i st) = tec_switched_at st"
  "over_temp (stage_session i st) = over_temp st" "cold (stage_session i st) = cold st"
  "sensor_fail (stage_session i st) = sensor_fail st" "sensor_alarm (stage_session i st) = sensor_alarm st"
  "forced_cool (stage_session i st) = forced_cool st" "silent_warned (stage_session i st) = silent_warned st"
  "silent_safed (stage_session i st) = silent_safed st" "last_up (stage_session i st) = last_up st"
  "ext_held (stage_session i st) = ext_held st" "ext_dropped (stage_session i st) = ext_dropped st"
  "ext_reason (stage_session i st) = ext_reason st" "seq (stage_session i st) = seq st"
  "diag_owned (stage_session i st) = diag_owned st"
  by (simp_all add: stage_session_def Let_def if_sel)

lemma stage_emission_sel [simp]:
  "rep (stage_emission i st) = rep st" "conf (stage_emission i st) = conf st"
  "env_set (stage_emission i st) = env_set st" "off (stage_emission i st) = off st"
  "lim (stage_emission i st) = lim st" "density (stage_emission i st) = density st"
  "phase (stage_emission i st) = phase st" "start_cool (stage_emission i st) = start_cool st"
  "heater (stage_emission i st) = heater st" "fl (stage_emission i st) = fl st"
  "wu (stage_emission i st) = wu st" "fan (stage_emission i st) = fan st"
  "tec_on (stage_emission i st) = tec_on st" "tec_written (stage_emission i st) = tec_written st"
  "tec_switched_at (stage_emission i st) = tec_switched_at st"
  "quiet_held (stage_emission i st) = quiet_held st" "quiet_pump (stage_emission i st) = quiet_pump st"
  "quiet_since (stage_emission i st) = quiet_since st" "phase_until (stage_emission i st) = phase_until st"
  "over_temp (stage_emission i st) = over_temp st" "cold (stage_emission i st) = cold st"
  "critical (stage_emission i st) = critical st" "sensor_fail (stage_emission i st) = sensor_fail st"
  "sensor_alarm (stage_emission i st) = sensor_alarm st" "forced_cool (stage_emission i st) = forced_cool st"
  "flood_on (stage_emission i st) = flood_on st" "silent_warned (stage_emission i st) = silent_warned st"
  "silent_safed (stage_emission i st) = silent_safed st" "eff_armed (stage_emission i st) = eff_armed st"
  "session_armed (stage_emission i st) = session_armed st" "last_up (stage_emission i st) = last_up st"
  "ext_held (stage_emission i st) = ext_held st" "ext_dropped (stage_emission i st) = ext_dropped st"
  "ext_reason (stage_emission i st) = ext_reason st" "seq (stage_emission i st) = seq st"
  "diag_owned (stage_emission i st) = diag_owned st"
  by (simp_all add: stage_emission_def Let_def if_sel)

lemma supply_pgood_sel [simp]:
  "rep (supply_pgood i st) = rep st" "conf (supply_pgood i st) = conf st"
  "env_set (supply_pgood i st) = env_set st" "off (supply_pgood i st) = off st"
  "lim (supply_pgood i st) = lim st" "density (supply_pgood i st) = density st"
  "phase (supply_pgood i st) = phase st" "start_cool (supply_pgood i st) = start_cool st"
  "heater (supply_pgood i st) = heater st" "fl (supply_pgood i st) = fl st" "wu (supply_pgood i st) = wu st"
  "fan (supply_pgood i st) = fan st" "tec_on (supply_pgood i st) = tec_on st"
  "tec_written (supply_pgood i st) = tec_written st"
  "tec_switched_at (supply_pgood i st) = tec_switched_at st" "quiet_held (supply_pgood i st) = quiet_held st"
  "quiet_pump (supply_pgood i st) = quiet_pump st" "quiet_since (supply_pgood i st) = quiet_since st"
  "phase_until (supply_pgood i st) = phase_until st" "over_temp (supply_pgood i st) = over_temp st"
  "cold (supply_pgood i st) = cold st" "critical (supply_pgood i st) = critical st"
  "sensor_fail (supply_pgood i st) = sensor_fail st" "sensor_alarm (supply_pgood i st) = sensor_alarm st"
  "forced_cool (supply_pgood i st) = forced_cool st" "flood_on (supply_pgood i st) = flood_on st"
  "silent_warned (supply_pgood i st) = silent_warned st" "silent_safed (supply_pgood i st) = silent_safed st"
  "eff_armed (supply_pgood i st) = eff_armed st" "session_armed (supply_pgood i st) = session_armed st"
  "last_up (supply_pgood i st) = last_up st" "ext_held (supply_pgood i st) = ext_held st"
  "ext_dropped (supply_pgood i st) = ext_dropped st" "ext_reason (supply_pgood i st) = ext_reason st"
  "seq (supply_pgood i st) = seq st" "diag_owned (supply_pgood i st) = diag_owned st"
  "outs (supply_pgood i st) = outs st"
  by (simp_all add: supply_pgood_def Let_def if_sel)

lemma supply_faults_sel [simp]:
  "rep (supply_faults i st) = rep st" "conf (supply_faults i st) = conf st"
  "env_set (supply_faults i st) = env_set st" "off (supply_faults i st) = off st"
  "lim (supply_faults i st) = lim st" "density (supply_faults i st) = density st"
  "phase (supply_faults i st) = phase st" "start_cool (supply_faults i st) = start_cool st"
  "heater (supply_faults i st) = heater st" "fl (supply_faults i st) = fl st"
  "wu (supply_faults i st) = wu st" "fan (supply_faults i st) = fan st"
  "tec_on (supply_faults i st) = tec_on st" "tec_written (supply_faults i st) = tec_written st"
  "tec_switched_at (supply_faults i st) = tec_switched_at st"
  "quiet_held (supply_faults i st) = quiet_held st" "quiet_pump (supply_faults i st) = quiet_pump st"
  "quiet_since (supply_faults i st) = quiet_since st" "phase_until (supply_faults i st) = phase_until st"
  "over_temp (supply_faults i st) = over_temp st" "cold (supply_faults i st) = cold st"
  "critical (supply_faults i st) = critical st" "sensor_fail (supply_faults i st) = sensor_fail st"
  "sensor_alarm (supply_faults i st) = sensor_alarm st" "forced_cool (supply_faults i st) = forced_cool st"
  "flood_on (supply_faults i st) = flood_on st" "silent_warned (supply_faults i st) = silent_warned st"
  "silent_safed (supply_faults i st) = silent_safed st" "eff_armed (supply_faults i st) = eff_armed st"
  "session_armed (supply_faults i st) = session_armed st" "last_up (supply_faults i st) = last_up st"
  "ext_held (supply_faults i st) = ext_held st" "ext_dropped (supply_faults i st) = ext_dropped st"
  "ext_reason (supply_faults i st) = ext_reason st" "seq (supply_faults i st) = seq st"
  "diag_owned (supply_faults i st) = diag_owned st" "outs (supply_faults i st) = outs st"
  by (simp_all add: supply_faults_def Let_def if_sel)

lemma stage_supply_sel [simp]:
  "rep (stage_supply i st) = rep st" "conf (stage_supply i st) = conf st"
  "env_set (stage_supply i st) = env_set st" "off (stage_supply i st) = off st"
  "lim (stage_supply i st) = lim st" "density (stage_supply i st) = density st"
  "phase (stage_supply i st) = phase st" "start_cool (stage_supply i st) = start_cool st"
  "heater (stage_supply i st) = heater st" "fl (stage_supply i st) = fl st" "wu (stage_supply i st) = wu st"
  "fan (stage_supply i st) = fan st" "tec_on (stage_supply i st) = tec_on st"
  "tec_written (stage_supply i st) = tec_written st"
  "tec_switched_at (stage_supply i st) = tec_switched_at st" "quiet_held (stage_supply i st) = quiet_held st"
  "quiet_pump (stage_supply i st) = quiet_pump st" "quiet_since (stage_supply i st) = quiet_since st"
  "phase_until (stage_supply i st) = phase_until st" "over_temp (stage_supply i st) = over_temp st"
  "cold (stage_supply i st) = cold st" "critical (stage_supply i st) = critical st"
  "sensor_fail (stage_supply i st) = sensor_fail st" "sensor_alarm (stage_supply i st) = sensor_alarm st"
  "forced_cool (stage_supply i st) = forced_cool st" "flood_on (stage_supply i st) = flood_on st"
  "silent_warned (stage_supply i st) = silent_warned st" "silent_safed (stage_supply i st) = silent_safed st"
  "eff_armed (stage_supply i st) = eff_armed st" "session_armed (stage_supply i st) = session_armed st"
  "last_up (stage_supply i st) = last_up st" "ext_held (stage_supply i st) = ext_held st"
  "ext_dropped (stage_supply i st) = ext_dropped st" "ext_reason (stage_supply i st) = ext_reason st"
  "seq (stage_supply i st) = seq st" "diag_owned (stage_supply i st) = diag_owned st"
  "outs (stage_supply i st) = outs st"
  by (simp_all add: stage_supply_def Let_def if_sel)

lemma fire_tier_sel [simp]:
  "rep (fire_tier i q st) = rep st" "conf (fire_tier i q st) = conf st"
  "env_set (fire_tier i q st) = env_set st" "off (fire_tier i q st) = off st"
  "lim (fire_tier i q st) = lim st" "density (fire_tier i q st) = density st"
  "phase (fire_tier i q st) = phase st" "start_cool (fire_tier i q st) = start_cool st"
  "heater (fire_tier i q st) = heater st" "fl (fire_tier i q st) = fl st" "wu (fire_tier i q st) = wu st"
  "tec_on (fire_tier i q st) = tec_on st" "tec_written (fire_tier i q st) = tec_written st"
  "tec_switched_at (fire_tier i q st) = tec_switched_at st" "quiet_held (fire_tier i q st) = quiet_held st"
  "quiet_pump (fire_tier i q st) = quiet_pump st" "quiet_since (fire_tier i q st) = quiet_since st"
  "phase_until (fire_tier i q st) = phase_until st" "over_temp (fire_tier i q st) = over_temp st"
  "cold (fire_tier i q st) = cold st" "critical (fire_tier i q st) = critical st"
  "sensor_fail (fire_tier i q st) = sensor_fail st" "sensor_alarm (fire_tier i q st) = sensor_alarm st"
  "forced_cool (fire_tier i q st) = forced_cool st" "flood_on (fire_tier i q st) = flood_on st"
  "silent_warned (fire_tier i q st) = silent_warned st" "silent_safed (fire_tier i q st) = silent_safed st"
  "eff_armed (fire_tier i q st) = eff_armed st" "session_armed (fire_tier i q st) = session_armed st"
  "last_up (fire_tier i q st) = last_up st" "ext_held (fire_tier i q st) = ext_held st"
  "ext_dropped (fire_tier i q st) = ext_dropped st" "ext_reason (fire_tier i q st) = ext_reason st"
  "seq (fire_tier i q st) = seq st" "diag_owned (fire_tier i q st) = diag_owned st"
  by (simp_all add: fire_tier_def Let_def if_sel)

lemma fire_release_sel [simp]:
  "rep (fire_release q st) = rep st" "conf (fire_release q st) = conf st"
  "env_set (fire_release q st) = env_set st" "off (fire_release q st) = off st"
  "lim (fire_release q st) = lim st" "density (fire_release q st) = density st"
  "phase (fire_release q st) = phase st" "start_cool (fire_release q st) = start_cool st"
  "heater (fire_release q st) = heater st" "fl (fire_release q st) = fl st" "wu (fire_release q st) = wu st"
  "fan (fire_release q st) = fan st" "tec_on (fire_release q st) = tec_on st"
  "tec_written (fire_release q st) = tec_written st"
  "tec_switched_at (fire_release q st) = tec_switched_at st" "quiet_held (fire_release q st) = quiet_held st"
  "quiet_pump (fire_release q st) = quiet_pump st" "quiet_since (fire_release q st) = quiet_since st"
  "phase_until (fire_release q st) = phase_until st" "over_temp (fire_release q st) = over_temp st"
  "cold (fire_release q st) = cold st" "critical (fire_release q st) = critical st"
  "sensor_fail (fire_release q st) = sensor_fail st" "sensor_alarm (fire_release q st) = sensor_alarm st"
  "forced_cool (fire_release q st) = forced_cool st" "flood_on (fire_release q st) = flood_on st"
  "silent_warned (fire_release q st) = silent_warned st" "silent_safed (fire_release q st) = silent_safed st"
  "eff_armed (fire_release q st) = eff_armed st" "session_armed (fire_release q st) = session_armed st"
  "last_up (fire_release q st) = last_up st" "ext_held (fire_release q st) = ext_held st"
  "ext_dropped (fire_release q st) = ext_dropped st" "ext_reason (fire_release q st) = ext_reason st"
  "seq (fire_release q st) = seq st" "diag_owned (fire_release q st) = diag_owned st"
  "outs (fire_release q st) = outs st"
  by (simp_all add: fire_release_def Let_def if_sel)

lemma stage_fire_sel [simp]:
  "rep (stage_fire i st) = rep st" "conf (stage_fire i st) = conf st" "env_set (stage_fire i st) = env_set st"
  "off (stage_fire i st) = off st" "lim (stage_fire i st) = lim st" "density (stage_fire i st) = density st"
  "phase (stage_fire i st) = phase st" "start_cool (stage_fire i st) = start_cool st"
  "heater (stage_fire i st) = heater st" "fl (stage_fire i st) = fl st" "wu (stage_fire i st) = wu st"
  "tec_on (stage_fire i st) = tec_on st" "tec_written (stage_fire i st) = tec_written st"
  "tec_switched_at (stage_fire i st) = tec_switched_at st" "quiet_held (stage_fire i st) = quiet_held st"
  "quiet_pump (stage_fire i st) = quiet_pump st" "quiet_since (stage_fire i st) = quiet_since st"
  "phase_until (stage_fire i st) = phase_until st" "over_temp (stage_fire i st) = over_temp st"
  "cold (stage_fire i st) = cold st" "critical (stage_fire i st) = critical st"
  "sensor_fail (stage_fire i st) = sensor_fail st" "sensor_alarm (stage_fire i st) = sensor_alarm st"
  "forced_cool (stage_fire i st) = forced_cool st" "flood_on (stage_fire i st) = flood_on st"
  "silent_warned (stage_fire i st) = silent_warned st" "silent_safed (stage_fire i st) = silent_safed st"
  "eff_armed (stage_fire i st) = eff_armed st" "session_armed (stage_fire i st) = session_armed st"
  "last_up (stage_fire i st) = last_up st" "ext_held (stage_fire i st) = ext_held st"
  "ext_dropped (stage_fire i st) = ext_dropped st" "ext_reason (stage_fire i st) = ext_reason st"
  "seq (stage_fire i st) = seq st" "diag_owned (stage_fire i st) = diag_owned st"
  by (simp_all add: stage_fire_def Let_def if_sel)

lemma stage_hv_sel [simp]:
  "rep (stage_hv i st) = rep st" "conf (stage_hv i st) = conf st" "env_set (stage_hv i st) = env_set st"
  "off (stage_hv i st) = off st" "lim (stage_hv i st) = lim st" "density (stage_hv i st) = density st"
  "phase (stage_hv i st) = phase st" "start_cool (stage_hv i st) = start_cool st"
  "heater (stage_hv i st) = heater st" "fl (stage_hv i st) = fl st" "wu (stage_hv i st) = wu st"
  "fan (stage_hv i st) = fan st" "tec_on (stage_hv i st) = tec_on st"
  "tec_written (stage_hv i st) = tec_written st" "tec_switched_at (stage_hv i st) = tec_switched_at st"
  "quiet_held (stage_hv i st) = quiet_held st" "quiet_pump (stage_hv i st) = quiet_pump st"
  "quiet_since (stage_hv i st) = quiet_since st" "phase_until (stage_hv i st) = phase_until st"
  "over_temp (stage_hv i st) = over_temp st" "cold (stage_hv i st) = cold st"
  "critical (stage_hv i st) = critical st" "sensor_fail (stage_hv i st) = sensor_fail st"
  "sensor_alarm (stage_hv i st) = sensor_alarm st" "forced_cool (stage_hv i st) = forced_cool st"
  "flood_on (stage_hv i st) = flood_on st" "silent_warned (stage_hv i st) = silent_warned st"
  "silent_safed (stage_hv i st) = silent_safed st" "eff_armed (stage_hv i st) = eff_armed st"
  "session_armed (stage_hv i st) = session_armed st" "last_up (stage_hv i st) = last_up st"
  "ext_held (stage_hv i st) = ext_held st" "ext_dropped (stage_hv i st) = ext_dropped st"
  "ext_reason (stage_hv i st) = ext_reason st" "seq (stage_hv i st) = seq st"
  "diag_owned (stage_hv i st) = diag_owned st" "outs (stage_hv i st) = outs st"
  by (simp_all add: stage_hv_def Let_def if_sel)

lemma crash_open_try_sel [simp]:
  "rep (crash_open_try i st) = rep st" "conf (crash_open_try i st) = conf st"
  "env_set (crash_open_try i st) = env_set st" "off (crash_open_try i st) = off st"
  "lim (crash_open_try i st) = lim st" "density (crash_open_try i st) = density st"
  "phase (crash_open_try i st) = phase st" "start_cool (crash_open_try i st) = start_cool st"
  "heater (crash_open_try i st) = heater st" "fl (crash_open_try i st) = fl st"
  "wu (crash_open_try i st) = wu st" "fan (crash_open_try i st) = fan st"
  "tec_on (crash_open_try i st) = tec_on st" "tec_written (crash_open_try i st) = tec_written st"
  "tec_switched_at (crash_open_try i st) = tec_switched_at st"
  "quiet_held (crash_open_try i st) = quiet_held st" "quiet_pump (crash_open_try i st) = quiet_pump st"
  "quiet_since (crash_open_try i st) = quiet_since st" "phase_until (crash_open_try i st) = phase_until st"
  "over_temp (crash_open_try i st) = over_temp st" "cold (crash_open_try i st) = cold st"
  "critical (crash_open_try i st) = critical st" "sensor_fail (crash_open_try i st) = sensor_fail st"
  "sensor_alarm (crash_open_try i st) = sensor_alarm st" "forced_cool (crash_open_try i st) = forced_cool st"
  "flood_on (crash_open_try i st) = flood_on st" "silent_warned (crash_open_try i st) = silent_warned st"
  "silent_safed (crash_open_try i st) = silent_safed st" "eff_armed (crash_open_try i st) = eff_armed st"
  "session_armed (crash_open_try i st) = session_armed st" "last_up (crash_open_try i st) = last_up st"
  "ext_held (crash_open_try i st) = ext_held st" "ext_dropped (crash_open_try i st) = ext_dropped st"
  "ext_reason (crash_open_try i st) = ext_reason st" "seq (crash_open_try i st) = seq st"
  "diag_owned (crash_open_try i st) = diag_owned st"
  by (simp_all add: crash_open_try_def Let_def if_sel)

lemma crash_arm_hw_sel [simp]:
  "rep (crash_arm_hw i st) = rep st" "conf (crash_arm_hw i st) = conf st"
  "env_set (crash_arm_hw i st) = env_set st" "off (crash_arm_hw i st) = off st"
  "lim (crash_arm_hw i st) = lim st" "density (crash_arm_hw i st) = density st"
  "phase (crash_arm_hw i st) = phase st" "start_cool (crash_arm_hw i st) = start_cool st"
  "heater (crash_arm_hw i st) = heater st" "fl (crash_arm_hw i st) = fl st" "wu (crash_arm_hw i st) = wu st"
  "fan (crash_arm_hw i st) = fan st" "tec_on (crash_arm_hw i st) = tec_on st"
  "tec_written (crash_arm_hw i st) = tec_written st"
  "tec_switched_at (crash_arm_hw i st) = tec_switched_at st" "quiet_held (crash_arm_hw i st) = quiet_held st"
  "quiet_pump (crash_arm_hw i st) = quiet_pump st" "quiet_since (crash_arm_hw i st) = quiet_since st"
  "phase_until (crash_arm_hw i st) = phase_until st" "over_temp (crash_arm_hw i st) = over_temp st"
  "cold (crash_arm_hw i st) = cold st" "critical (crash_arm_hw i st) = critical st"
  "sensor_fail (crash_arm_hw i st) = sensor_fail st" "sensor_alarm (crash_arm_hw i st) = sensor_alarm st"
  "forced_cool (crash_arm_hw i st) = forced_cool st" "flood_on (crash_arm_hw i st) = flood_on st"
  "silent_warned (crash_arm_hw i st) = silent_warned st" "silent_safed (crash_arm_hw i st) = silent_safed st"
  "eff_armed (crash_arm_hw i st) = eff_armed st" "session_armed (crash_arm_hw i st) = session_armed st"
  "last_up (crash_arm_hw i st) = last_up st" "ext_held (crash_arm_hw i st) = ext_held st"
  "ext_dropped (crash_arm_hw i st) = ext_dropped st" "ext_reason (crash_arm_hw i st) = ext_reason st"
  "seq (crash_arm_hw i st) = seq st" "diag_owned (crash_arm_hw i st) = diag_owned st"
  by (simp_all add: crash_arm_hw_def Let_def if_sel)

lemma crash_arm_try_sel [simp]:
  "rep (crash_arm_try i st) = rep st" "conf (crash_arm_try i st) = conf st"
  "env_set (crash_arm_try i st) = env_set st" "off (crash_arm_try i st) = off st"
  "lim (crash_arm_try i st) = lim st" "density (crash_arm_try i st) = density st"
  "phase (crash_arm_try i st) = phase st" "start_cool (crash_arm_try i st) = start_cool st"
  "heater (crash_arm_try i st) = heater st" "fl (crash_arm_try i st) = fl st"
  "wu (crash_arm_try i st) = wu st" "fan (crash_arm_try i st) = fan st"
  "tec_on (crash_arm_try i st) = tec_on st" "tec_written (crash_arm_try i st) = tec_written st"
  "tec_switched_at (crash_arm_try i st) = tec_switched_at st"
  "quiet_held (crash_arm_try i st) = quiet_held st" "quiet_pump (crash_arm_try i st) = quiet_pump st"
  "quiet_since (crash_arm_try i st) = quiet_since st" "phase_until (crash_arm_try i st) = phase_until st"
  "over_temp (crash_arm_try i st) = over_temp st" "cold (crash_arm_try i st) = cold st"
  "critical (crash_arm_try i st) = critical st" "sensor_fail (crash_arm_try i st) = sensor_fail st"
  "sensor_alarm (crash_arm_try i st) = sensor_alarm st" "forced_cool (crash_arm_try i st) = forced_cool st"
  "flood_on (crash_arm_try i st) = flood_on st" "silent_warned (crash_arm_try i st) = silent_warned st"
  "silent_safed (crash_arm_try i st) = silent_safed st" "eff_armed (crash_arm_try i st) = eff_armed st"
  "session_armed (crash_arm_try i st) = session_armed st" "last_up (crash_arm_try i st) = last_up st"
  "ext_held (crash_arm_try i st) = ext_held st" "ext_dropped (crash_arm_try i st) = ext_dropped st"
  "ext_reason (crash_arm_try i st) = ext_reason st" "seq (crash_arm_try i st) = seq st"
  "diag_owned (crash_arm_try i st) = diag_owned st"
  by (simp_all add: crash_arm_try_def Let_def if_sel)

lemma crash_poll_one_sel [simp]:
  "rep (crash_poll_one i st) = rep st" "conf (crash_poll_one i st) = conf st"
  "env_set (crash_poll_one i st) = env_set st" "off (crash_poll_one i st) = off st"
  "lim (crash_poll_one i st) = lim st" "density (crash_poll_one i st) = density st"
  "phase (crash_poll_one i st) = phase st" "start_cool (crash_poll_one i st) = start_cool st"
  "heater (crash_poll_one i st) = heater st" "fl (crash_poll_one i st) = fl st"
  "wu (crash_poll_one i st) = wu st" "fan (crash_poll_one i st) = fan st"
  "tec_on (crash_poll_one i st) = tec_on st" "tec_written (crash_poll_one i st) = tec_written st"
  "tec_switched_at (crash_poll_one i st) = tec_switched_at st"
  "quiet_held (crash_poll_one i st) = quiet_held st" "quiet_pump (crash_poll_one i st) = quiet_pump st"
  "quiet_since (crash_poll_one i st) = quiet_since st" "phase_until (crash_poll_one i st) = phase_until st"
  "over_temp (crash_poll_one i st) = over_temp st" "cold (crash_poll_one i st) = cold st"
  "critical (crash_poll_one i st) = critical st" "sensor_fail (crash_poll_one i st) = sensor_fail st"
  "sensor_alarm (crash_poll_one i st) = sensor_alarm st" "forced_cool (crash_poll_one i st) = forced_cool st"
  "flood_on (crash_poll_one i st) = flood_on st" "silent_warned (crash_poll_one i st) = silent_warned st"
  "silent_safed (crash_poll_one i st) = silent_safed st" "eff_armed (crash_poll_one i st) = eff_armed st"
  "session_armed (crash_poll_one i st) = session_armed st" "last_up (crash_poll_one i st) = last_up st"
  "ext_held (crash_poll_one i st) = ext_held st" "ext_dropped (crash_poll_one i st) = ext_dropped st"
  "ext_reason (crash_poll_one i st) = ext_reason st" "seq (crash_poll_one i st) = seq st"
  "diag_owned (crash_poll_one i st) = diag_owned st"
  by (auto simp: crash_poll_one_def Let_def if_sel split: option.split crash_event.split)

lemma stage_crash_sel [simp]:
  "rep (stage_crash i st) = rep st" "conf (stage_crash i st) = conf st"
  "env_set (stage_crash i st) = env_set st" "off (stage_crash i st) = off st"
  "lim (stage_crash i st) = lim st" "density (stage_crash i st) = density st"
  "phase (stage_crash i st) = phase st" "start_cool (stage_crash i st) = start_cool st"
  "heater (stage_crash i st) = heater st" "fl (stage_crash i st) = fl st" "wu (stage_crash i st) = wu st"
  "fan (stage_crash i st) = fan st" "tec_on (stage_crash i st) = tec_on st"
  "tec_written (stage_crash i st) = tec_written st" "tec_switched_at (stage_crash i st) = tec_switched_at st"
  "quiet_held (stage_crash i st) = quiet_held st" "quiet_pump (stage_crash i st) = quiet_pump st"
  "quiet_since (stage_crash i st) = quiet_since st" "phase_until (stage_crash i st) = phase_until st"
  "over_temp (stage_crash i st) = over_temp st" "cold (stage_crash i st) = cold st"
  "critical (stage_crash i st) = critical st" "sensor_fail (stage_crash i st) = sensor_fail st"
  "sensor_alarm (stage_crash i st) = sensor_alarm st" "forced_cool (stage_crash i st) = forced_cool st"
  "flood_on (stage_crash i st) = flood_on st" "silent_warned (stage_crash i st) = silent_warned st"
  "silent_safed (stage_crash i st) = silent_safed st" "eff_armed (stage_crash i st) = eff_armed st"
  "session_armed (stage_crash i st) = session_armed st" "last_up (stage_crash i st) = last_up st"
  "ext_held (stage_crash i st) = ext_held st" "ext_dropped (stage_crash i st) = ext_dropped st"
  "ext_reason (stage_crash i st) = ext_reason st" "seq (stage_crash i st) = seq st"
  "diag_owned (stage_crash i st) = diag_owned st"
  by (simp_all add: stage_crash_def Let_def if_sel)

lemma airflow_one_sel [simp]:
  "rep (airflow_one i g k st) = rep st" "conf (airflow_one i g k st) = conf st"
  "env_set (airflow_one i g k st) = env_set st" "off (airflow_one i g k st) = off st"
  "lim (airflow_one i g k st) = lim st" "density (airflow_one i g k st) = density st"
  "phase (airflow_one i g k st) = phase st" "start_cool (airflow_one i g k st) = start_cool st"
  "heater (airflow_one i g k st) = heater st" "fl (airflow_one i g k st) = fl st"
  "wu (airflow_one i g k st) = wu st" "wat (airflow_one i g k st) = wat st"
  "tec_on (airflow_one i g k st) = tec_on st" "tec_written (airflow_one i g k st) = tec_written st"
  "tec_switched_at (airflow_one i g k st) = tec_switched_at st"
  "quiet_held (airflow_one i g k st) = quiet_held st" "quiet_pump (airflow_one i g k st) = quiet_pump st"
  "quiet_since (airflow_one i g k st) = quiet_since st" "phase_until (airflow_one i g k st) = phase_until st"
  "over_temp (airflow_one i g k st) = over_temp st" "cold (airflow_one i g k st) = cold st"
  "critical (airflow_one i g k st) = critical st" "sensor_fail (airflow_one i g k st) = sensor_fail st"
  "sensor_alarm (airflow_one i g k st) = sensor_alarm st"
  "forced_cool (airflow_one i g k st) = forced_cool st" "flood_on (airflow_one i g k st) = flood_on st"
  "silent_warned (airflow_one i g k st) = silent_warned st"
  "silent_safed (airflow_one i g k st) = silent_safed st" "eff_armed (airflow_one i g k st) = eff_armed st"
  "session_armed (airflow_one i g k st) = session_armed st" "last_up (airflow_one i g k st) = last_up st"
  "ext_held (airflow_one i g k st) = ext_held st" "ext_dropped (airflow_one i g k st) = ext_dropped st"
  "ext_reason (airflow_one i g k st) = ext_reason st" "seq (airflow_one i g k st) = seq st"
  "diag_owned (airflow_one i g k st) = diag_owned st"
  by (simp_all add: airflow_one_def Let_def if_sel)

lemma stage_airflow_sel [simp]:
  "rep (stage_airflow i st) = rep st" "conf (stage_airflow i st) = conf st"
  "env_set (stage_airflow i st) = env_set st" "off (stage_airflow i st) = off st"
  "lim (stage_airflow i st) = lim st" "density (stage_airflow i st) = density st"
  "phase (stage_airflow i st) = phase st" "start_cool (stage_airflow i st) = start_cool st"
  "heater (stage_airflow i st) = heater st" "fl (stage_airflow i st) = fl st"
  "wu (stage_airflow i st) = wu st" "wat (stage_airflow i st) = wat st"
  "tec_on (stage_airflow i st) = tec_on st" "tec_written (stage_airflow i st) = tec_written st"
  "tec_switched_at (stage_airflow i st) = tec_switched_at st"
  "quiet_held (stage_airflow i st) = quiet_held st" "quiet_pump (stage_airflow i st) = quiet_pump st"
  "quiet_since (stage_airflow i st) = quiet_since st" "phase_until (stage_airflow i st) = phase_until st"
  "over_temp (stage_airflow i st) = over_temp st" "cold (stage_airflow i st) = cold st"
  "critical (stage_airflow i st) = critical st" "sensor_fail (stage_airflow i st) = sensor_fail st"
  "sensor_alarm (stage_airflow i st) = sensor_alarm st" "forced_cool (stage_airflow i st) = forced_cool st"
  "flood_on (stage_airflow i st) = flood_on st" "silent_warned (stage_airflow i st) = silent_warned st"
  "silent_safed (stage_airflow i st) = silent_safed st" "eff_armed (stage_airflow i st) = eff_armed st"
  "session_armed (stage_airflow i st) = session_armed st" "last_up (stage_airflow i st) = last_up st"
  "ext_held (stage_airflow i st) = ext_held st" "ext_dropped (stage_airflow i st) = ext_dropped st"
  "ext_reason (stage_airflow i st) = ext_reason st" "seq (stage_airflow i st) = seq st"
  "diag_owned (stage_airflow i st) = diag_owned st"
  by (simp_all add: stage_airflow_def Let_def if_sel)

lemma sensors_back_sel [simp]:
  "rep (sensors_back i st) = rep st" "conf (sensors_back i st) = conf st"
  "env_set (sensors_back i st) = env_set st" "off (sensors_back i st) = off st"
  "lim (sensors_back i st) = lim st" "density (sensors_back i st) = density st"
  "phase (sensors_back i st) = phase st" "start_cool (sensors_back i st) = start_cool st"
  "wu (sensors_back i st) = wu st" "fan (sensors_back i st) = fan st" "wat (sensors_back i st) = wat st"
  "tec_on (sensors_back i st) = tec_on st" "tec_written (sensors_back i st) = tec_written st"
  "tec_switched_at (sensors_back i st) = tec_switched_at st" "quiet_held (sensors_back i st) = quiet_held st"
  "quiet_pump (sensors_back i st) = quiet_pump st" "quiet_since (sensors_back i st) = quiet_since st"
  "phase_until (sensors_back i st) = phase_until st" "over_temp (sensors_back i st) = over_temp st"
  "cold (sensors_back i st) = cold st" "critical (sensors_back i st) = critical st"
  "sensor_fail (sensors_back i st) = sensor_fail st" "forced_cool (sensors_back i st) = forced_cool st"
  "flood_on (sensors_back i st) = flood_on st" "silent_warned (sensors_back i st) = silent_warned st"
  "silent_safed (sensors_back i st) = silent_safed st" "eff_armed (sensors_back i st) = eff_armed st"
  "session_armed (sensors_back i st) = session_armed st" "last_up (sensors_back i st) = last_up st"
  "ext_held (sensors_back i st) = ext_held st" "ext_dropped (sensors_back i st) = ext_dropped st"
  "ext_reason (sensors_back i st) = ext_reason st" "seq (sensors_back i st) = seq st"
  "diag_owned (sensors_back i st) = diag_owned st"
  by (simp_all add: sensors_back_def Let_def if_sel)

lemma abandon_check_sel [simp]:
  "rep (abandon_check st) = rep st" "conf (abandon_check st) = conf st"
  "env_set (abandon_check st) = env_set st" "off (abandon_check st) = off st"
  "lim (abandon_check st) = lim st" "density (abandon_check st) = density st"
  "phase (abandon_check st) = phase st" "start_cool (abandon_check st) = start_cool st"
  "heater (abandon_check st) = heater st" "wu (abandon_check st) = wu st" "fan (abandon_check st) = fan st"
  "wat (abandon_check st) = wat st" "tec_on (abandon_check st) = tec_on st"
  "tec_written (abandon_check st) = tec_written st" "tec_switched_at (abandon_check st) = tec_switched_at st"
  "quiet_held (abandon_check st) = quiet_held st" "quiet_pump (abandon_check st) = quiet_pump st"
  "quiet_since (abandon_check st) = quiet_since st" "phase_until (abandon_check st) = phase_until st"
  "over_temp (abandon_check st) = over_temp st" "cold (abandon_check st) = cold st"
  "critical (abandon_check st) = critical st" "sensor_fail (abandon_check st) = sensor_fail st"
  "sensor_alarm (abandon_check st) = sensor_alarm st" "forced_cool (abandon_check st) = forced_cool st"
  "flood_on (abandon_check st) = flood_on st" "silent_warned (abandon_check st) = silent_warned st"
  "silent_safed (abandon_check st) = silent_safed st" "eff_armed (abandon_check st) = eff_armed st"
  "session_armed (abandon_check st) = session_armed st" "last_up (abandon_check st) = last_up st"
  "ext_held (abandon_check st) = ext_held st" "ext_dropped (abandon_check st) = ext_dropped st"
  "ext_reason (abandon_check st) = ext_reason st" "seq (abandon_check st) = seq st"
  "diag_owned (abandon_check st) = diag_owned st" "pub (abandon_check st) = pub st"
  "outs (abandon_check st) = outs st"
  by (simp_all add: abandon_check_def Let_def if_sel)

lemma stage_sensors_sel [simp]:
  "rep (stage_sensors i d u st) = rep st" "conf (stage_sensors i d u st) = conf st"
  "env_set (stage_sensors i d u st) = env_set st" "off (stage_sensors i d u st) = off st"
  "lim (stage_sensors i d u st) = lim st" "density (stage_sensors i d u st) = density st"
  "phase (stage_sensors i d u st) = phase st" "start_cool (stage_sensors i d u st) = start_cool st"
  "wu (stage_sensors i d u st) = wu st" "fan (stage_sensors i d u st) = fan st"
  "wat (stage_sensors i d u st) = wat st" "tec_on (stage_sensors i d u st) = tec_on st"
  "tec_written (stage_sensors i d u st) = tec_written st"
  "tec_switched_at (stage_sensors i d u st) = tec_switched_at st"
  "quiet_held (stage_sensors i d u st) = quiet_held st" "quiet_pump (stage_sensors i d u st) = quiet_pump st"
  "quiet_since (stage_sensors i d u st) = quiet_since st"
  "phase_until (stage_sensors i d u st) = phase_until st" "over_temp (stage_sensors i d u st) = over_temp st"
  "cold (stage_sensors i d u st) = cold st" "critical (stage_sensors i d u st) = critical st"
  "forced_cool (stage_sensors i d u st) = forced_cool st" "flood_on (stage_sensors i d u st) = flood_on st"
  "silent_warned (stage_sensors i d u st) = silent_warned st"
  "silent_safed (stage_sensors i d u st) = silent_safed st"
  "eff_armed (stage_sensors i d u st) = eff_armed st"
  "session_armed (stage_sensors i d u st) = session_armed st" "last_up (stage_sensors i d u st) = last_up st"
  "ext_held (stage_sensors i d u st) = ext_held st" "ext_dropped (stage_sensors i d u st) = ext_dropped st"
  "ext_reason (stage_sensors i d u st) = ext_reason st" "seq (stage_sensors i d u st) = seq st"
  "diag_owned (stage_sensors i d u st) = diag_owned st"
  by (simp_all add: stage_sensors_def Let_def if_sel)

lemma stage_ceiling_sel [simp]:
  "rep (stage_ceiling i u st) = rep st" "conf (stage_ceiling i u st) = conf st"
  "env_set (stage_ceiling i u st) = env_set st" "off (stage_ceiling i u st) = off st"
  "lim (stage_ceiling i u st) = lim st" "density (stage_ceiling i u st) = density st"
  "phase (stage_ceiling i u st) = phase st" "heater (stage_ceiling i u st) = heater st"
  "fl (stage_ceiling i u st) = fl st" "wu (stage_ceiling i u st) = wu st"
  "wat (stage_ceiling i u st) = wat st" "tec_on (stage_ceiling i u st) = tec_on st"
  "tec_written (stage_ceiling i u st) = tec_written st"
  "tec_switched_at (stage_ceiling i u st) = tec_switched_at st"
  "quiet_held (stage_ceiling i u st) = quiet_held st" "quiet_pump (stage_ceiling i u st) = quiet_pump st"
  "quiet_since (stage_ceiling i u st) = quiet_since st" "phase_until (stage_ceiling i u st) = phase_until st"
  "cold (stage_ceiling i u st) = cold st" "critical (stage_ceiling i u st) = critical st"
  "sensor_fail (stage_ceiling i u st) = sensor_fail st"
  "sensor_alarm (stage_ceiling i u st) = sensor_alarm st" "flood_on (stage_ceiling i u st) = flood_on st"
  "silent_warned (stage_ceiling i u st) = silent_warned st"
  "silent_safed (stage_ceiling i u st) = silent_safed st" "eff_armed (stage_ceiling i u st) = eff_armed st"
  "session_armed (stage_ceiling i u st) = session_armed st" "ext_held (stage_ceiling i u st) = ext_held st"
  "ext_dropped (stage_ceiling i u st) = ext_dropped st" "ext_reason (stage_ceiling i u st) = ext_reason st"
  "seq (stage_ceiling i u st) = seq st" "diag_owned (stage_ceiling i u st) = diag_owned st"
  by (cases u; simp add: stage_ceiling_def Let_def if_sel)+

lemma stage_floor_sel [simp]:
  "rep (stage_floor u st) = rep st" "conf (stage_floor u st) = conf st"
  "env_set (stage_floor u st) = env_set st" "off (stage_floor u st) = off st"
  "lim (stage_floor u st) = lim st" "density (stage_floor u st) = density st"
  "phase (stage_floor u st) = phase st" "start_cool (stage_floor u st) = start_cool st"
  "heater (stage_floor u st) = heater st" "fl (stage_floor u st) = fl st" "wu (stage_floor u st) = wu st"
  "fan (stage_floor u st) = fan st" "wat (stage_floor u st) = wat st" "tec_on (stage_floor u st) = tec_on st"
  "tec_written (stage_floor u st) = tec_written st" "tec_switched_at (stage_floor u st) = tec_switched_at st"
  "quiet_held (stage_floor u st) = quiet_held st" "quiet_pump (stage_floor u st) = quiet_pump st"
  "quiet_since (stage_floor u st) = quiet_since st" "phase_until (stage_floor u st) = phase_until st"
  "over_temp (stage_floor u st) = over_temp st" "critical (stage_floor u st) = critical st"
  "sensor_fail (stage_floor u st) = sensor_fail st" "sensor_alarm (stage_floor u st) = sensor_alarm st"
  "forced_cool (stage_floor u st) = forced_cool st" "flood_on (stage_floor u st) = flood_on st"
  "silent_warned (stage_floor u st) = silent_warned st" "silent_safed (stage_floor u st) = silent_safed st"
  "eff_armed (stage_floor u st) = eff_armed st" "session_armed (stage_floor u st) = session_armed st"
  "last_up (stage_floor u st) = last_up st" "ext_held (stage_floor u st) = ext_held st"
  "ext_dropped (stage_floor u st) = ext_dropped st" "ext_reason (stage_floor u st) = ext_reason st"
  "seq (stage_floor u st) = seq st" "diag_owned (stage_floor u st) = diag_owned st"
  "outs (stage_floor u st) = outs st"
  by (simp_all add: stage_floor_def Let_def if_sel)

lemma stage_warmup_sel [simp]:
  "rep (stage_warmup i u st) = rep st" "conf (stage_warmup i u st) = conf st"
  "env_set (stage_warmup i u st) = env_set st" "off (stage_warmup i u st) = off st"
  "lim (stage_warmup i u st) = lim st" "density (stage_warmup i u st) = density st"
  "start_cool (stage_warmup i u st) = start_cool st" "wat (stage_warmup i u st) = wat st"
  "tec_on (stage_warmup i u st) = tec_on st" "tec_written (stage_warmup i u st) = tec_written st"
  "tec_switched_at (stage_warmup i u st) = tec_switched_at st"
  "quiet_held (stage_warmup i u st) = quiet_held st" "quiet_pump (stage_warmup i u st) = quiet_pump st"
  "quiet_since (stage_warmup i u st) = quiet_since st" "phase_until (stage_warmup i u st) = phase_until st"
  "over_temp (stage_warmup i u st) = over_temp st" "cold (stage_warmup i u st) = cold st"
  "critical (stage_warmup i u st) = critical st" "sensor_fail (stage_warmup i u st) = sensor_fail st"
  "sensor_alarm (stage_warmup i u st) = sensor_alarm st" "forced_cool (stage_warmup i u st) = forced_cool st"
  "flood_on (stage_warmup i u st) = flood_on st" "silent_warned (stage_warmup i u st) = silent_warned st"
  "silent_safed (stage_warmup i u st) = silent_safed st" "eff_armed (stage_warmup i u st) = eff_armed st"
  "session_armed (stage_warmup i u st) = session_armed st" "last_up (stage_warmup i u st) = last_up st"
  "ext_held (stage_warmup i u st) = ext_held st" "ext_dropped (stage_warmup i u st) = ext_dropped st"
  "ext_reason (stage_warmup i u st) = ext_reason st" "seq (stage_warmup i u st) = seq st"
  "diag_owned (stage_warmup i u st) = diag_owned st"
  by (simp_all add: stage_warmup_def Let_def if_sel)

lemma stage_critical_sel [simp]:
  "rep (stage_critical u st) = rep st" "conf (stage_critical u st) = conf st"
  "env_set (stage_critical u st) = env_set st" "off (stage_critical u st) = off st"
  "lim (stage_critical u st) = lim st" "density (stage_critical u st) = density st"
  "phase (stage_critical u st) = phase st" "start_cool (stage_critical u st) = start_cool st"
  "heater (stage_critical u st) = heater st" "fl (stage_critical u st) = fl st"
  "wu (stage_critical u st) = wu st" "fan (stage_critical u st) = fan st" "wat (stage_critical u st) = wat st"
  "tec_on (stage_critical u st) = tec_on st" "tec_written (stage_critical u st) = tec_written st"
  "tec_switched_at (stage_critical u st) = tec_switched_at st"
  "quiet_held (stage_critical u st) = quiet_held st" "quiet_pump (stage_critical u st) = quiet_pump st"
  "quiet_since (stage_critical u st) = quiet_since st" "phase_until (stage_critical u st) = phase_until st"
  "over_temp (stage_critical u st) = over_temp st" "cold (stage_critical u st) = cold st"
  "sensor_fail (stage_critical u st) = sensor_fail st" "sensor_alarm (stage_critical u st) = sensor_alarm st"
  "forced_cool (stage_critical u st) = forced_cool st" "flood_on (stage_critical u st) = flood_on st"
  "silent_warned (stage_critical u st) = silent_warned st"
  "silent_safed (stage_critical u st) = silent_safed st" "eff_armed (stage_critical u st) = eff_armed st"
  "session_armed (stage_critical u st) = session_armed st" "last_up (stage_critical u st) = last_up st"
  "ext_held (stage_critical u st) = ext_held st" "ext_dropped (stage_critical u st) = ext_dropped st"
  "ext_reason (stage_critical u st) = ext_reason st" "seq (stage_critical u st) = seq st"
  "diag_owned (stage_critical u st) = diag_owned st" "outs (stage_critical u st) = outs st"
  by (simp_all add: stage_critical_def Let_def if_sel)

lemma flow_fault_noted_sel [simp]:
  "rep (flow_fault_noted st) = rep st" "conf (flow_fault_noted st) = conf st"
  "env_set (flow_fault_noted st) = env_set st" "off (flow_fault_noted st) = off st"
  "lim (flow_fault_noted st) = lim st" "density (flow_fault_noted st) = density st"
  "phase (flow_fault_noted st) = phase st" "start_cool (flow_fault_noted st) = start_cool st"
  "heater (flow_fault_noted st) = heater st" "wu (flow_fault_noted st) = wu st"
  "fan (flow_fault_noted st) = fan st" "wat (flow_fault_noted st) = wat st"
  "tec_on (flow_fault_noted st) = tec_on st" "tec_written (flow_fault_noted st) = tec_written st"
  "tec_switched_at (flow_fault_noted st) = tec_switched_at st"
  "quiet_held (flow_fault_noted st) = quiet_held st" "quiet_pump (flow_fault_noted st) = quiet_pump st"
  "quiet_since (flow_fault_noted st) = quiet_since st" "phase_until (flow_fault_noted st) = phase_until st"
  "over_temp (flow_fault_noted st) = over_temp st" "cold (flow_fault_noted st) = cold st"
  "critical (flow_fault_noted st) = critical st" "sensor_fail (flow_fault_noted st) = sensor_fail st"
  "sensor_alarm (flow_fault_noted st) = sensor_alarm st" "forced_cool (flow_fault_noted st) = forced_cool st"
  "flood_on (flow_fault_noted st) = flood_on st" "silent_warned (flow_fault_noted st) = silent_warned st"
  "silent_safed (flow_fault_noted st) = silent_safed st" "eff_armed (flow_fault_noted st) = eff_armed st"
  "session_armed (flow_fault_noted st) = session_armed st" "last_up (flow_fault_noted st) = last_up st"
  "ext_held (flow_fault_noted st) = ext_held st" "ext_dropped (flow_fault_noted st) = ext_dropped st"
  "ext_reason (flow_fault_noted st) = ext_reason st" "seq (flow_fault_noted st) = seq st"
  "diag_owned (flow_fault_noted st) = diag_owned st" "pub (flow_fault_noted st) = pub st"
  by (simp_all add: flow_fault_noted_def Let_def if_sel)

lemma flow_finish_sel [simp]:
  "rep (flow_finish i st) = rep st" "conf (flow_finish i st) = conf st"
  "env_set (flow_finish i st) = env_set st" "off (flow_finish i st) = off st"
  "lim (flow_finish i st) = lim st" "density (flow_finish i st) = density st"
  "phase (flow_finish i st) = phase st" "start_cool (flow_finish i st) = start_cool st"
  "wu (flow_finish i st) = wu st" "fan (flow_finish i st) = fan st" "wat (flow_finish i st) = wat st"
  "tec_on (flow_finish i st) = tec_on st" "tec_written (flow_finish i st) = tec_written st"
  "tec_switched_at (flow_finish i st) = tec_switched_at st" "quiet_held (flow_finish i st) = quiet_held st"
  "quiet_pump (flow_finish i st) = quiet_pump st" "quiet_since (flow_finish i st) = quiet_since st"
  "phase_until (flow_finish i st) = phase_until st" "over_temp (flow_finish i st) = over_temp st"
  "cold (flow_finish i st) = cold st" "critical (flow_finish i st) = critical st"
  "sensor_fail (flow_finish i st) = sensor_fail st" "sensor_alarm (flow_finish i st) = sensor_alarm st"
  "forced_cool (flow_finish i st) = forced_cool st" "flood_on (flow_finish i st) = flood_on st"
  "silent_warned (flow_finish i st) = silent_warned st" "silent_safed (flow_finish i st) = silent_safed st"
  "eff_armed (flow_finish i st) = eff_armed st" "session_armed (flow_finish i st) = session_armed st"
  "last_up (flow_finish i st) = last_up st" "ext_held (flow_finish i st) = ext_held st"
  "ext_dropped (flow_finish i st) = ext_dropped st" "ext_reason (flow_finish i st) = ext_reason st"
  "seq (flow_finish i st) = seq st" "diag_owned (flow_finish i st) = diag_owned st"
  "pub (flow_finish i st) = pub st"
  by (simp_all add: flow_finish_def Let_def if_sel)

lemma flow_over_sel [simp]:
  "rep (flow_over i r d l st) = rep st" "conf (flow_over i r d l st) = conf st"
  "env_set (flow_over i r d l st) = env_set st" "off (flow_over i r d l st) = off st"
  "lim (flow_over i r d l st) = lim st" "density (flow_over i r d l st) = density st"
  "phase (flow_over i r d l st) = phase st" "start_cool (flow_over i r d l st) = start_cool st"
  "heater (flow_over i r d l st) = heater st" "wu (flow_over i r d l st) = wu st"
  "fan (flow_over i r d l st) = fan st" "wat (flow_over i r d l st) = wat st"
  "tec_on (flow_over i r d l st) = tec_on st" "tec_written (flow_over i r d l st) = tec_written st"
  "tec_switched_at (flow_over i r d l st) = tec_switched_at st"
  "quiet_held (flow_over i r d l st) = quiet_held st" "quiet_pump (flow_over i r d l st) = quiet_pump st"
  "quiet_since (flow_over i r d l st) = quiet_since st" "phase_until (flow_over i r d l st) = phase_until st"
  "over_temp (flow_over i r d l st) = over_temp st" "cold (flow_over i r d l st) = cold st"
  "critical (flow_over i r d l st) = critical st" "sensor_fail (flow_over i r d l st) = sensor_fail st"
  "sensor_alarm (flow_over i r d l st) = sensor_alarm st"
  "forced_cool (flow_over i r d l st) = forced_cool st" "flood_on (flow_over i r d l st) = flood_on st"
  "silent_warned (flow_over i r d l st) = silent_warned st"
  "silent_safed (flow_over i r d l st) = silent_safed st" "eff_armed (flow_over i r d l st) = eff_armed st"
  "session_armed (flow_over i r d l st) = session_armed st" "last_up (flow_over i r d l st) = last_up st"
  "ext_held (flow_over i r d l st) = ext_held st" "ext_dropped (flow_over i r d l st) = ext_dropped st"
  "ext_reason (flow_over i r d l st) = ext_reason st" "seq (flow_over i r d l st) = seq st"
  "diag_owned (flow_over i r d l st) = diag_owned st"
  by (simp_all add: flow_over_def Let_def if_sel)

lemma flow_clean_sel [simp]:
  "rep (flow_clean st) = rep st" "conf (flow_clean st) = conf st" "env_set (flow_clean st) = env_set st"
  "off (flow_clean st) = off st" "lim (flow_clean st) = lim st" "density (flow_clean st) = density st"
  "phase (flow_clean st) = phase st" "start_cool (flow_clean st) = start_cool st"
  "heater (flow_clean st) = heater st" "wu (flow_clean st) = wu st" "fan (flow_clean st) = fan st"
  "wat (flow_clean st) = wat st" "tec_on (flow_clean st) = tec_on st"
  "tec_written (flow_clean st) = tec_written st" "tec_switched_at (flow_clean st) = tec_switched_at st"
  "quiet_held (flow_clean st) = quiet_held st" "quiet_pump (flow_clean st) = quiet_pump st"
  "quiet_since (flow_clean st) = quiet_since st" "phase_until (flow_clean st) = phase_until st"
  "over_temp (flow_clean st) = over_temp st" "cold (flow_clean st) = cold st"
  "critical (flow_clean st) = critical st" "sensor_fail (flow_clean st) = sensor_fail st"
  "sensor_alarm (flow_clean st) = sensor_alarm st" "forced_cool (flow_clean st) = forced_cool st"
  "flood_on (flow_clean st) = flood_on st" "silent_warned (flow_clean st) = silent_warned st"
  "silent_safed (flow_clean st) = silent_safed st" "eff_armed (flow_clean st) = eff_armed st"
  "session_armed (flow_clean st) = session_armed st" "last_up (flow_clean st) = last_up st"
  "ext_held (flow_clean st) = ext_held st" "ext_dropped (flow_clean st) = ext_dropped st"
  "ext_reason (flow_clean st) = ext_reason st" "seq (flow_clean st) = seq st"
  "diag_owned (flow_clean st) = diag_owned st" "outs (flow_clean st) = outs st"
  by (simp_all add: flow_clean_def Let_def if_sel)

lemma flow_done_sel [simp]:
  "rep (flow_done i st) = rep st" "conf (flow_done i st) = conf st" "env_set (flow_done i st) = env_set st"
  "off (flow_done i st) = off st" "lim (flow_done i st) = lim st" "density (flow_done i st) = density st"
  "phase (flow_done i st) = phase st" "start_cool (flow_done i st) = start_cool st"
  "wu (flow_done i st) = wu st" "fan (flow_done i st) = fan st" "wat (flow_done i st) = wat st"
  "tec_on (flow_done i st) = tec_on st" "tec_written (flow_done i st) = tec_written st"
  "tec_switched_at (flow_done i st) = tec_switched_at st" "quiet_held (flow_done i st) = quiet_held st"
  "quiet_pump (flow_done i st) = quiet_pump st" "quiet_since (flow_done i st) = quiet_since st"
  "phase_until (flow_done i st) = phase_until st" "over_temp (flow_done i st) = over_temp st"
  "cold (flow_done i st) = cold st" "critical (flow_done i st) = critical st"
  "sensor_fail (flow_done i st) = sensor_fail st" "sensor_alarm (flow_done i st) = sensor_alarm st"
  "forced_cool (flow_done i st) = forced_cool st" "flood_on (flow_done i st) = flood_on st"
  "silent_warned (flow_done i st) = silent_warned st" "silent_safed (flow_done i st) = silent_safed st"
  "eff_armed (flow_done i st) = eff_armed st" "session_armed (flow_done i st) = session_armed st"
  "last_up (flow_done i st) = last_up st" "ext_held (flow_done i st) = ext_held st"
  "ext_dropped (flow_done i st) = ext_dropped st" "ext_reason (flow_done i st) = ext_reason st"
  "seq (flow_done i st) = seq st" "diag_owned (flow_done i st) = diag_owned st"
  by (simp_all add: flow_done_def Let_def if_sel)

lemma stage_flow_sel [simp]:
  "rep (stage_flow i d u st) = rep st" "conf (stage_flow i d u st) = conf st"
  "env_set (stage_flow i d u st) = env_set st" "off (stage_flow i d u st) = off st"
  "lim (stage_flow i d u st) = lim st" "density (stage_flow i d u st) = density st"
  "phase (stage_flow i d u st) = phase st" "start_cool (stage_flow i d u st) = start_cool st"
  "wu (stage_flow i d u st) = wu st" "fan (stage_flow i d u st) = fan st" "wat (stage_flow i d u st) = wat st"
  "tec_on (stage_flow i d u st) = tec_on st" "tec_written (stage_flow i d u st) = tec_written st"
  "tec_switched_at (stage_flow i d u st) = tec_switched_at st"
  "quiet_held (stage_flow i d u st) = quiet_held st" "quiet_pump (stage_flow i d u st) = quiet_pump st"
  "quiet_since (stage_flow i d u st) = quiet_since st" "phase_until (stage_flow i d u st) = phase_until st"
  "over_temp (stage_flow i d u st) = over_temp st" "cold (stage_flow i d u st) = cold st"
  "critical (stage_flow i d u st) = critical st" "sensor_fail (stage_flow i d u st) = sensor_fail st"
  "sensor_alarm (stage_flow i d u st) = sensor_alarm st" "forced_cool (stage_flow i d u st) = forced_cool st"
  "flood_on (stage_flow i d u st) = flood_on st" "silent_warned (stage_flow i d u st) = silent_warned st"
  "silent_safed (stage_flow i d u st) = silent_safed st" "eff_armed (stage_flow i d u st) = eff_armed st"
  "session_armed (stage_flow i d u st) = session_armed st" "last_up (stage_flow i d u st) = last_up st"
  "ext_held (stage_flow i d u st) = ext_held st" "ext_dropped (stage_flow i d u st) = ext_dropped st"
  "ext_reason (stage_flow i d u st) = ext_reason st" "seq (stage_flow i d u st) = seq st"
  "diag_owned (stage_flow i d u st) = diag_owned st"
  by (simp_all add: stage_flow_def Let_def if_sel)

lemma stage_suspect_sel [simp]:
  "rep (stage_suspect i st) = rep st" "conf (stage_suspect i st) = conf st"
  "env_set (stage_suspect i st) = env_set st" "off (stage_suspect i st) = off st"
  "lim (stage_suspect i st) = lim st" "density (stage_suspect i st) = density st"
  "phase (stage_suspect i st) = phase st" "start_cool (stage_suspect i st) = start_cool st"
  "heater (stage_suspect i st) = heater st" "wu (stage_suspect i st) = wu st"
  "fan (stage_suspect i st) = fan st" "wat (stage_suspect i st) = wat st"
  "tec_on (stage_suspect i st) = tec_on st" "tec_written (stage_suspect i st) = tec_written st"
  "tec_switched_at (stage_suspect i st) = tec_switched_at st"
  "quiet_held (stage_suspect i st) = quiet_held st" "quiet_pump (stage_suspect i st) = quiet_pump st"
  "quiet_since (stage_suspect i st) = quiet_since st" "phase_until (stage_suspect i st) = phase_until st"
  "over_temp (stage_suspect i st) = over_temp st" "cold (stage_suspect i st) = cold st"
  "critical (stage_suspect i st) = critical st" "sensor_fail (stage_suspect i st) = sensor_fail st"
  "sensor_alarm (stage_suspect i st) = sensor_alarm st" "forced_cool (stage_suspect i st) = forced_cool st"
  "flood_on (stage_suspect i st) = flood_on st" "silent_warned (stage_suspect i st) = silent_warned st"
  "silent_safed (stage_suspect i st) = silent_safed st" "eff_armed (stage_suspect i st) = eff_armed st"
  "session_armed (stage_suspect i st) = session_armed st" "last_up (stage_suspect i st) = last_up st"
  "ext_held (stage_suspect i st) = ext_held st" "ext_dropped (stage_suspect i st) = ext_dropped st"
  "ext_reason (stage_suspect i st) = ext_reason st" "seq (stage_suspect i st) = seq st"
  "diag_owned (stage_suspect i st) = diag_owned st"
  by (simp_all add: stage_suspect_def Let_def if_sel)

lemma stage_history_sel [simp]:
  "rep (stage_history i d st) = rep st" "conf (stage_history i d st) = conf st"
  "env_set (stage_history i d st) = env_set st" "off (stage_history i d st) = off st"
  "lim (stage_history i d st) = lim st" "density (stage_history i d st) = density st"
  "phase (stage_history i d st) = phase st" "start_cool (stage_history i d st) = start_cool st"
  "heater (stage_history i d st) = heater st" "wu (stage_history i d st) = wu st"
  "fan (stage_history i d st) = fan st" "wat (stage_history i d st) = wat st"
  "tec_on (stage_history i d st) = tec_on st" "tec_written (stage_history i d st) = tec_written st"
  "tec_switched_at (stage_history i d st) = tec_switched_at st"
  "quiet_held (stage_history i d st) = quiet_held st" "quiet_pump (stage_history i d st) = quiet_pump st"
  "quiet_since (stage_history i d st) = quiet_since st" "phase_until (stage_history i d st) = phase_until st"
  "over_temp (stage_history i d st) = over_temp st" "cold (stage_history i d st) = cold st"
  "critical (stage_history i d st) = critical st" "sensor_fail (stage_history i d st) = sensor_fail st"
  "sensor_alarm (stage_history i d st) = sensor_alarm st"
  "forced_cool (stage_history i d st) = forced_cool st" "flood_on (stage_history i d st) = flood_on st"
  "silent_warned (stage_history i d st) = silent_warned st"
  "silent_safed (stage_history i d st) = silent_safed st" "eff_armed (stage_history i d st) = eff_armed st"
  "session_armed (stage_history i d st) = session_armed st" "last_up (stage_history i d st) = last_up st"
  "ext_held (stage_history i d st) = ext_held st" "ext_dropped (stage_history i d st) = ext_dropped st"
  "ext_reason (stage_history i d st) = ext_reason st" "seq (stage_history i d st) = seq st"
  "diag_owned (stage_history i d st) = diag_owned st" "outs (stage_history i d st) = outs st"
  by (cases d; simp add: stage_history_def Let_def if_sel)+

lemma stage_settle_sel [simp]:
  "rep (stage_settle i d u st) = rep st" "conf (stage_settle i d u st) = conf st"
  "env_set (stage_settle i d u st) = env_set st" "off (stage_settle i d u st) = off st"
  "lim (stage_settle i d u st) = lim st" "density (stage_settle i d u st) = density st"
  "phase (stage_settle i d u st) = phase st" "start_cool (stage_settle i d u st) = start_cool st"
  "wu (stage_settle i d u st) = wu st" "fan (stage_settle i d u st) = fan st"
  "wat (stage_settle i d u st) = wat st" "tec_on (stage_settle i d u st) = tec_on st"
  "tec_written (stage_settle i d u st) = tec_written st"
  "tec_switched_at (stage_settle i d u st) = tec_switched_at st"
  "quiet_held (stage_settle i d u st) = quiet_held st" "quiet_pump (stage_settle i d u st) = quiet_pump st"
  "quiet_since (stage_settle i d u st) = quiet_since st"
  "phase_until (stage_settle i d u st) = phase_until st" "over_temp (stage_settle i d u st) = over_temp st"
  "cold (stage_settle i d u st) = cold st" "critical (stage_settle i d u st) = critical st"
  "sensor_fail (stage_settle i d u st) = sensor_fail st"
  "sensor_alarm (stage_settle i d u st) = sensor_alarm st"
  "forced_cool (stage_settle i d u st) = forced_cool st" "flood_on (stage_settle i d u st) = flood_on st"
  "silent_warned (stage_settle i d u st) = silent_warned st"
  "silent_safed (stage_settle i d u st) = silent_safed st" "eff_armed (stage_settle i d u st) = eff_armed st"
  "session_armed (stage_settle i d u st) = session_armed st" "last_up (stage_settle i d u st) = last_up st"
  "ext_held (stage_settle i d u st) = ext_held st" "ext_dropped (stage_settle i d u st) = ext_dropped st"
  "ext_reason (stage_settle i d u st) = ext_reason st" "seq (stage_settle i d u st) = seq st"
  "diag_owned (stage_settle i d u st) = diag_owned st"
  by (simp_all add: stage_settle_def Let_def if_sel)

lemma go_idle_sel [simp]:
  "rep (go_idle i st) = rep st" "conf (go_idle i st) = conf st" "env_set (go_idle i st) = env_set st"
  "off (go_idle i st) = off st" "lim (go_idle i st) = lim st" "density (go_idle i st) = density st"
  "heater (go_idle i st) = heater st" "wu (go_idle i st) = wu st" "wat (go_idle i st) = wat st"
  "tec_on (go_idle i st) = tec_on st" "tec_written (go_idle i st) = tec_written st"
  "tec_switched_at (go_idle i st) = tec_switched_at st" "quiet_held (go_idle i st) = quiet_held st"
  "quiet_pump (go_idle i st) = quiet_pump st" "quiet_since (go_idle i st) = quiet_since st"
  "phase_until (go_idle i st) = phase_until st" "over_temp (go_idle i st) = over_temp st"
  "cold (go_idle i st) = cold st" "critical (go_idle i st) = critical st"
  "sensor_fail (go_idle i st) = sensor_fail st" "sensor_alarm (go_idle i st) = sensor_alarm st"
  "forced_cool (go_idle i st) = forced_cool st" "flood_on (go_idle i st) = flood_on st"
  "silent_warned (go_idle i st) = silent_warned st" "silent_safed (go_idle i st) = silent_safed st"
  "eff_armed (go_idle i st) = eff_armed st" "session_armed (go_idle i st) = session_armed st"
  "last_up (go_idle i st) = last_up st" "ext_held (go_idle i st) = ext_held st"
  "ext_dropped (go_idle i st) = ext_dropped st" "ext_reason (go_idle i st) = ext_reason st"
  "seq (go_idle i st) = seq st" "diag_owned (go_idle i st) = diag_owned st" "pub (go_idle i st) = pub st"
  by (simp_all add: go_idle_def Let_def if_sel)

lemma start_cool_end_sel [simp]:
  "rep (start_cool_end i st) = rep st" "conf (start_cool_end i st) = conf st"
  "env_set (start_cool_end i st) = env_set st" "off (start_cool_end i st) = off st"
  "lim (start_cool_end i st) = lim st" "density (start_cool_end i st) = density st"
  "phase (start_cool_end i st) = phase st" "heater (start_cool_end i st) = heater st"
  "fl (start_cool_end i st) = fl st" "wu (start_cool_end i st) = wu st" "wat (start_cool_end i st) = wat st"
  "tec_on (start_cool_end i st) = tec_on st" "tec_written (start_cool_end i st) = tec_written st"
  "tec_switched_at (start_cool_end i st) = tec_switched_at st"
  "quiet_held (start_cool_end i st) = quiet_held st" "quiet_pump (start_cool_end i st) = quiet_pump st"
  "quiet_since (start_cool_end i st) = quiet_since st" "phase_until (start_cool_end i st) = phase_until st"
  "over_temp (start_cool_end i st) = over_temp st" "cold (start_cool_end i st) = cold st"
  "critical (start_cool_end i st) = critical st" "sensor_fail (start_cool_end i st) = sensor_fail st"
  "sensor_alarm (start_cool_end i st) = sensor_alarm st" "forced_cool (start_cool_end i st) = forced_cool st"
  "flood_on (start_cool_end i st) = flood_on st" "silent_warned (start_cool_end i st) = silent_warned st"
  "silent_safed (start_cool_end i st) = silent_safed st" "eff_armed (start_cool_end i st) = eff_armed st"
  "session_armed (start_cool_end i st) = session_armed st" "last_up (start_cool_end i st) = last_up st"
  "ext_held (start_cool_end i st) = ext_held st" "ext_dropped (start_cool_end i st) = ext_dropped st"
  "ext_reason (start_cool_end i st) = ext_reason st" "seq (start_cool_end i st) = seq st"
  "diag_owned (start_cool_end i st) = diag_owned st" "pub (start_cool_end i st) = pub st"
  by (simp_all add: start_cool_end_def Let_def if_sel)

lemma smoke_end_sel [simp]:
  "rep (smoke_end i u st) = rep st" "conf (smoke_end i u st) = conf st"
  "env_set (smoke_end i u st) = env_set st" "off (smoke_end i u st) = off st"
  "lim (smoke_end i u st) = lim st" "density (smoke_end i u st) = density st"
  "heater (smoke_end i u st) = heater st" "wu (smoke_end i u st) = wu st" "wat (smoke_end i u st) = wat st"
  "tec_on (smoke_end i u st) = tec_on st" "tec_written (smoke_end i u st) = tec_written st"
  "tec_switched_at (smoke_end i u st) = tec_switched_at st" "quiet_held (smoke_end i u st) = quiet_held st"
  "quiet_pump (smoke_end i u st) = quiet_pump st" "quiet_since (smoke_end i u st) = quiet_since st"
  "over_temp (smoke_end i u st) = over_temp st" "cold (smoke_end i u st) = cold st"
  "critical (smoke_end i u st) = critical st" "sensor_fail (smoke_end i u st) = sensor_fail st"
  "sensor_alarm (smoke_end i u st) = sensor_alarm st" "forced_cool (smoke_end i u st) = forced_cool st"
  "flood_on (smoke_end i u st) = flood_on st" "silent_warned (smoke_end i u st) = silent_warned st"
  "silent_safed (smoke_end i u st) = silent_safed st" "eff_armed (smoke_end i u st) = eff_armed st"
  "session_armed (smoke_end i u st) = session_armed st" "last_up (smoke_end i u st) = last_up st"
  "ext_held (smoke_end i u st) = ext_held st" "ext_dropped (smoke_end i u st) = ext_dropped st"
  "ext_reason (smoke_end i u st) = ext_reason st" "seq (smoke_end i u st) = seq st"
  "diag_owned (smoke_end i u st) = diag_owned st" "pub (smoke_end i u st) = pub st"
  by (simp_all add: smoke_end_def Let_def if_sel)

lemma thermal_step_sel [simp]:
  "rep (thermal_step i u st) = rep st" "conf (thermal_step i u st) = conf st"
  "env_set (thermal_step i u st) = env_set st" "off (thermal_step i u st) = off st"
  "lim (thermal_step i u st) = lim st" "density (thermal_step i u st) = density st"
  "heater (thermal_step i u st) = heater st" "wu (thermal_step i u st) = wu st"
  "wat (thermal_step i u st) = wat st" "tec_on (thermal_step i u st) = tec_on st"
  "tec_written (thermal_step i u st) = tec_written st"
  "tec_switched_at (thermal_step i u st) = tec_switched_at st"
  "quiet_held (thermal_step i u st) = quiet_held st" "quiet_pump (thermal_step i u st) = quiet_pump st"
  "quiet_since (thermal_step i u st) = quiet_since st" "over_temp (thermal_step i u st) = over_temp st"
  "cold (thermal_step i u st) = cold st" "critical (thermal_step i u st) = critical st"
  "sensor_fail (thermal_step i u st) = sensor_fail st" "sensor_alarm (thermal_step i u st) = sensor_alarm st"
  "forced_cool (thermal_step i u st) = forced_cool st" "flood_on (thermal_step i u st) = flood_on st"
  "silent_warned (thermal_step i u st) = silent_warned st"
  "silent_safed (thermal_step i u st) = silent_safed st" "eff_armed (thermal_step i u st) = eff_armed st"
  "session_armed (thermal_step i u st) = session_armed st" "last_up (thermal_step i u st) = last_up st"
  "ext_held (thermal_step i u st) = ext_held st" "ext_dropped (thermal_step i u st) = ext_dropped st"
  "ext_reason (thermal_step i u st) = ext_reason st" "seq (thermal_step i u st) = seq st"
  "diag_owned (thermal_step i u st) = diag_owned st"
  by (simp_all add: thermal_step_def Let_def if_sel)

lemma cooldown_step_sel [simp]:
  "rep (cooldown_step i u st) = rep st" "conf (cooldown_step i u st) = conf st"
  "env_set (cooldown_step i u st) = env_set st" "off (cooldown_step i u st) = off st"
  "lim (cooldown_step i u st) = lim st" "density (cooldown_step i u st) = density st"
  "heater (cooldown_step i u st) = heater st" "wu (cooldown_step i u st) = wu st"
  "wat (cooldown_step i u st) = wat st" "tec_on (cooldown_step i u st) = tec_on st"
  "tec_written (cooldown_step i u st) = tec_written st"
  "tec_switched_at (cooldown_step i u st) = tec_switched_at st"
  "quiet_held (cooldown_step i u st) = quiet_held st" "quiet_pump (cooldown_step i u st) = quiet_pump st"
  "quiet_since (cooldown_step i u st) = quiet_since st" "over_temp (cooldown_step i u st) = over_temp st"
  "cold (cooldown_step i u st) = cold st" "critical (cooldown_step i u st) = critical st"
  "sensor_fail (cooldown_step i u st) = sensor_fail st"
  "sensor_alarm (cooldown_step i u st) = sensor_alarm st"
  "forced_cool (cooldown_step i u st) = forced_cool st" "flood_on (cooldown_step i u st) = flood_on st"
  "silent_warned (cooldown_step i u st) = silent_warned st"
  "silent_safed (cooldown_step i u st) = silent_safed st" "eff_armed (cooldown_step i u st) = eff_armed st"
  "session_armed (cooldown_step i u st) = session_armed st" "last_up (cooldown_step i u st) = last_up st"
  "ext_held (cooldown_step i u st) = ext_held st" "ext_dropped (cooldown_step i u st) = ext_dropped st"
  "ext_reason (cooldown_step i u st) = ext_reason st" "seq (cooldown_step i u st) = seq st"
  "diag_owned (cooldown_step i u st) = diag_owned st"
  by (simp_all add: cooldown_step_def Let_def if_sel)

lemma stage_cooldown_sel [simp]:
  "rep (stage_cooldown i u st) = rep st" "conf (stage_cooldown i u st) = conf st"
  "env_set (stage_cooldown i u st) = env_set st" "off (stage_cooldown i u st) = off st"
  "lim (stage_cooldown i u st) = lim st" "density (stage_cooldown i u st) = density st"
  "heater (stage_cooldown i u st) = heater st" "wu (stage_cooldown i u st) = wu st"
  "wat (stage_cooldown i u st) = wat st" "tec_on (stage_cooldown i u st) = tec_on st"
  "tec_written (stage_cooldown i u st) = tec_written st"
  "tec_switched_at (stage_cooldown i u st) = tec_switched_at st"
  "quiet_held (stage_cooldown i u st) = quiet_held st" "quiet_pump (stage_cooldown i u st) = quiet_pump st"
  "quiet_since (stage_cooldown i u st) = quiet_since st" "over_temp (stage_cooldown i u st) = over_temp st"
  "cold (stage_cooldown i u st) = cold st" "critical (stage_cooldown i u st) = critical st"
  "sensor_fail (stage_cooldown i u st) = sensor_fail st"
  "sensor_alarm (stage_cooldown i u st) = sensor_alarm st"
  "forced_cool (stage_cooldown i u st) = forced_cool st" "flood_on (stage_cooldown i u st) = flood_on st"
  "silent_warned (stage_cooldown i u st) = silent_warned st"
  "silent_safed (stage_cooldown i u st) = silent_safed st" "eff_armed (stage_cooldown i u st) = eff_armed st"
  "session_armed (stage_cooldown i u st) = session_armed st" "last_up (stage_cooldown i u st) = last_up st"
  "ext_held (stage_cooldown i u st) = ext_held st" "ext_dropped (stage_cooldown i u st) = ext_dropped st"
  "ext_reason (stage_cooldown i u st) = ext_reason st" "seq (stage_cooldown i u st) = seq st"
  "diag_owned (stage_cooldown i u st) = diag_owned st"
  by (simp_all add: stage_cooldown_def Let_def if_sel)

lemma tec_switch_sel [simp]:
  "rep (tec_switch i u st) = rep st" "conf (tec_switch i u st) = conf st"
  "env_set (tec_switch i u st) = env_set st" "off (tec_switch i u st) = off st"
  "lim (tec_switch i u st) = lim st" "density (tec_switch i u st) = density st"
  "phase (tec_switch i u st) = phase st" "start_cool (tec_switch i u st) = start_cool st"
  "heater (tec_switch i u st) = heater st" "fl (tec_switch i u st) = fl st" "wu (tec_switch i u st) = wu st"
  "fan (tec_switch i u st) = fan st" "wat (tec_switch i u st) = wat st"
  "tec_written (tec_switch i u st) = tec_written st" "quiet_held (tec_switch i u st) = quiet_held st"
  "quiet_pump (tec_switch i u st) = quiet_pump st" "quiet_since (tec_switch i u st) = quiet_since st"
  "phase_until (tec_switch i u st) = phase_until st" "over_temp (tec_switch i u st) = over_temp st"
  "cold (tec_switch i u st) = cold st" "critical (tec_switch i u st) = critical st"
  "sensor_fail (tec_switch i u st) = sensor_fail st" "sensor_alarm (tec_switch i u st) = sensor_alarm st"
  "forced_cool (tec_switch i u st) = forced_cool st" "flood_on (tec_switch i u st) = flood_on st"
  "silent_warned (tec_switch i u st) = silent_warned st" "silent_safed (tec_switch i u st) = silent_safed st"
  "eff_armed (tec_switch i u st) = eff_armed st" "session_armed (tec_switch i u st) = session_armed st"
  "last_up (tec_switch i u st) = last_up st" "ext_held (tec_switch i u st) = ext_held st"
  "ext_dropped (tec_switch i u st) = ext_dropped st" "ext_reason (tec_switch i u st) = ext_reason st"
  "seq (tec_switch i u st) = seq st" "diag_owned (tec_switch i u st) = diag_owned st"
  "pub (tec_switch i u st) = pub st" "outs (tec_switch i u st) = outs st"
  by (simp_all add: tec_switch_def Let_def if_sel)

lemma tec_write_sel [simp]:
  "rep (tec_write st) = rep st" "conf (tec_write st) = conf st" "env_set (tec_write st) = env_set st"
  "off (tec_write st) = off st" "lim (tec_write st) = lim st" "density (tec_write st) = density st"
  "phase (tec_write st) = phase st" "start_cool (tec_write st) = start_cool st"
  "heater (tec_write st) = heater st" "fl (tec_write st) = fl st" "wu (tec_write st) = wu st"
  "fan (tec_write st) = fan st" "wat (tec_write st) = wat st" "tec_on (tec_write st) = tec_on st"
  "tec_switched_at (tec_write st) = tec_switched_at st" "quiet_held (tec_write st) = quiet_held st"
  "quiet_pump (tec_write st) = quiet_pump st" "quiet_since (tec_write st) = quiet_since st"
  "phase_until (tec_write st) = phase_until st" "over_temp (tec_write st) = over_temp st"
  "cold (tec_write st) = cold st" "critical (tec_write st) = critical st"
  "sensor_fail (tec_write st) = sensor_fail st" "sensor_alarm (tec_write st) = sensor_alarm st"
  "forced_cool (tec_write st) = forced_cool st" "flood_on (tec_write st) = flood_on st"
  "silent_warned (tec_write st) = silent_warned st" "silent_safed (tec_write st) = silent_safed st"
  "eff_armed (tec_write st) = eff_armed st" "session_armed (tec_write st) = session_armed st"
  "last_up (tec_write st) = last_up st" "ext_held (tec_write st) = ext_held st"
  "ext_dropped (tec_write st) = ext_dropped st" "ext_reason (tec_write st) = ext_reason st"
  "seq (tec_write st) = seq st" "diag_owned (tec_write st) = diag_owned st" "pub (tec_write st) = pub st"
  by (simp_all add: tec_write_def Let_def if_sel)

lemma stage_tec_sel [simp]:
  "rep (stage_tec i u st) = rep st" "conf (stage_tec i u st) = conf st"
  "env_set (stage_tec i u st) = env_set st" "off (stage_tec i u st) = off st"
  "lim (stage_tec i u st) = lim st" "density (stage_tec i u st) = density st"
  "phase (stage_tec i u st) = phase st" "start_cool (stage_tec i u st) = start_cool st"
  "heater (stage_tec i u st) = heater st" "fl (stage_tec i u st) = fl st" "wu (stage_tec i u st) = wu st"
  "fan (stage_tec i u st) = fan st" "wat (stage_tec i u st) = wat st"
  "quiet_held (stage_tec i u st) = quiet_held st" "quiet_pump (stage_tec i u st) = quiet_pump st"
  "quiet_since (stage_tec i u st) = quiet_since st" "phase_until (stage_tec i u st) = phase_until st"
  "over_temp (stage_tec i u st) = over_temp st" "cold (stage_tec i u st) = cold st"
  "critical (stage_tec i u st) = critical st" "sensor_fail (stage_tec i u st) = sensor_fail st"
  "sensor_alarm (stage_tec i u st) = sensor_alarm st" "forced_cool (stage_tec i u st) = forced_cool st"
  "flood_on (stage_tec i u st) = flood_on st" "silent_warned (stage_tec i u st) = silent_warned st"
  "silent_safed (stage_tec i u st) = silent_safed st" "eff_armed (stage_tec i u st) = eff_armed st"
  "session_armed (stage_tec i u st) = session_armed st" "last_up (stage_tec i u st) = last_up st"
  "ext_held (stage_tec i u st) = ext_held st" "ext_dropped (stage_tec i u st) = ext_dropped st"
  "ext_reason (stage_tec i u st) = ext_reason st" "seq (stage_tec i u st) = seq st"
  "diag_owned (stage_tec i u st) = diag_owned st" "pub (stage_tec i u st) = pub st"
  by (simp_all add: stage_tec_def Let_def if_sel)

lemma verdict_publish_sel [simp]:
  "rep (verdict_publish i f v h d u st) = rep st" "conf (verdict_publish i f v h d u st) = conf st"
  "env_set (verdict_publish i f v h d u st) = env_set st" "off (verdict_publish i f v h d u st) = off st"
  "lim (verdict_publish i f v h d u st) = lim st" "density (verdict_publish i f v h d u st) = density st"
  "phase (verdict_publish i f v h d u st) = phase st"
  "start_cool (verdict_publish i f v h d u st) = start_cool st"
  "heater (verdict_publish i f v h d u st) = heater st" "fl (verdict_publish i f v h d u st) = fl st"
  "wu (verdict_publish i f v h d u st) = wu st" "fan (verdict_publish i f v h d u st) = fan st"
  "wat (verdict_publish i f v h d u st) = wat st" "tec_on (verdict_publish i f v h d u st) = tec_on st"
  "tec_written (verdict_publish i f v h d u st) = tec_written st"
  "tec_switched_at (verdict_publish i f v h d u st) = tec_switched_at st"
  "quiet_held (verdict_publish i f v h d u st) = quiet_held st"
  "quiet_pump (verdict_publish i f v h d u st) = quiet_pump st"
  "quiet_since (verdict_publish i f v h d u st) = quiet_since st"
  "phase_until (verdict_publish i f v h d u st) = phase_until st"
  "over_temp (verdict_publish i f v h d u st) = over_temp st"
  "cold (verdict_publish i f v h d u st) = cold st" "critical (verdict_publish i f v h d u st) = critical st"
  "sensor_fail (verdict_publish i f v h d u st) = sensor_fail st"
  "sensor_alarm (verdict_publish i f v h d u st) = sensor_alarm st"
  "forced_cool (verdict_publish i f v h d u st) = forced_cool st"
  "flood_on (verdict_publish i f v h d u st) = flood_on st"
  "silent_warned (verdict_publish i f v h d u st) = silent_warned st"
  "silent_safed (verdict_publish i f v h d u st) = silent_safed st"
  "eff_armed (verdict_publish i f v h d u st) = eff_armed st"
  "session_armed (verdict_publish i f v h d u st) = session_armed st"
  "last_up (verdict_publish i f v h d u st) = last_up st"
  "ext_held (verdict_publish i f v h d u st) = ext_held st"
  "ext_dropped (verdict_publish i f v h d u st) = ext_dropped st"
  "ext_reason (verdict_publish i f v h d u st) = ext_reason st"
  "diag_owned (verdict_publish i f v h d u st) = diag_owned st"
  by (simp_all add: verdict_publish_def Let_def if_sel)

lemma stage_publish_sel [simp]:
  "rep (stage_publish i d u st) = rep st" "conf (stage_publish i d u st) = conf st"
  "env_set (stage_publish i d u st) = env_set st" "off (stage_publish i d u st) = off st"
  "lim (stage_publish i d u st) = lim st" "density (stage_publish i d u st) = density st"
  "phase (stage_publish i d u st) = phase st" "start_cool (stage_publish i d u st) = start_cool st"
  "heater (stage_publish i d u st) = heater st" "fl (stage_publish i d u st) = fl st"
  "wu (stage_publish i d u st) = wu st" "fan (stage_publish i d u st) = fan st"
  "wat (stage_publish i d u st) = wat st" "tec_on (stage_publish i d u st) = tec_on st"
  "tec_written (stage_publish i d u st) = tec_written st"
  "tec_switched_at (stage_publish i d u st) = tec_switched_at st"
  "quiet_held (stage_publish i d u st) = quiet_held st" "quiet_pump (stage_publish i d u st) = quiet_pump st"
  "quiet_since (stage_publish i d u st) = quiet_since st"
  "phase_until (stage_publish i d u st) = phase_until st" "over_temp (stage_publish i d u st) = over_temp st"
  "cold (stage_publish i d u st) = cold st" "critical (stage_publish i d u st) = critical st"
  "sensor_fail (stage_publish i d u st) = sensor_fail st"
  "sensor_alarm (stage_publish i d u st) = sensor_alarm st"
  "forced_cool (stage_publish i d u st) = forced_cool st" "flood_on (stage_publish i d u st) = flood_on st"
  "silent_warned (stage_publish i d u st) = silent_warned st"
  "silent_safed (stage_publish i d u st) = silent_safed st"
  "eff_armed (stage_publish i d u st) = eff_armed st"
  "session_armed (stage_publish i d u st) = session_armed st" "last_up (stage_publish i d u st) = last_up st"
  "diag_owned (stage_publish i d u st) = diag_owned st"
  by (simp_all add: stage_publish_def Let_def if_sel)

lemma tick_front_sel [simp]:
  "rep (tick_front i st) = rep st" "diag_owned (tick_front i st) = diag_owned st"
  by (simp_all add: tick_front_def)

lemma tick_back_sel [simp]:
  "rep (tick_back i d u st) = rep st" "diag_owned (tick_back i d u st) = diag_owned st"
  "wat (tick_back i d u st) = wat st" "conf (tick_back i d u st) = conf st" "lim (tick_back i d u st) = lim st"
  "eff_armed (tick_back i d u st) = eff_armed st" "flood_on (tick_back i d u st) = flood_on st"
  by (simp_all add: tick_back_def tick_flow_def tick_coolant_def)

section \<open>What the fan writes keep of the fans\<close>

lemma fan_set_fan [simp]:
  "n_duty (fan (fan_set i ix d st)) = n_duty (fan st)" "n_run_duty (fan (fan_set i ix d st)) = n_run_duty (fan st)"
  "n_gate (fan (fan_set i ix d st)) = n_gate (fan st)" "n_up (fan (fan_set i ix d st)) = n_up (fan st)"
  "n_alarm (fan (fan_set i ix d st)) = n_alarm (fan st)" "n_grace_until (fan (fan_set i ix d st)) = n_grace_until (fan st)"
  "n_lost (fan (fan_set i ix d st)) = n_lost (fan st)" "n_margin_noted (fan (fan_set i ix d st)) = n_margin_noted (fan st)"
  using fan_write_frame [of i ix d st] by (auto simp: fan_set_def)

lemma fan_write_fan [simp]:
  "n_alarm (fan (snd (fan_write i ix d st))) = n_alarm (fan st)" "n_duty (fan (snd (fan_write i ix d st))) = n_duty (fan st)"
  "n_up (fan (snd (fan_write i ix d st))) = n_up (fan st)"
  using fan_write_frame [of i ix d st] by auto

lemma fans_profile_fan [simp]:
  "n_alarm (fan (fans_quiet i st)) = n_alarm (fan st)" "n_alarm (fan (fans_idle i st)) = n_alarm (fan st)"
  "n_alarm (fan (fans_run i st)) = n_alarm (fan st)" "n_alarm (fan (fans_cool i st)) = n_alarm (fan st)"
  "n_up (fan (fans_quiet i st)) = n_up (fan st)" "n_up (fan (fans_idle i st)) = n_up (fan st)"
  "n_up (fan (fans_run i st)) = n_up (fan st)" "n_up (fan (fans_cool i st)) = n_up (fan st)"
  "n_duty (fan (fans_quiet i st)) = n_duty (fan st)" "n_duty (fan (fans_idle i st)) = n_duty (fan st)"
  "n_duty (fan (fans_cool i st)) = n_duty (fan st)"
  by (simp_all add: fans_quiet_def fans_idle_def fans_run_def fans_cool_def Let_def)

lemma fans_apply_phase_fan [simp]:
  "n_alarm (fan (fans_apply_phase i st)) = n_alarm (fan st)" "n_up (fan (fans_apply_phase i st)) = n_up (fan st)"
  by (cases "phase st"; simp add: fans_apply_phase_def)+

end
