(* ===== verification/CoolEffects.thy ===== *)
theory CoolEffects
  imports CoolFrame
begin

text \<open>
  The effects of the cooling engine are only ever appended: whatever a stage has written to the
  kernel stays written by the end of the tick, in its place in the order.
\<close>

definition grows :: "cool \<Rightarrow> cool \<Rightarrow> bool" where
  "grows a b \<longleftrightarrow> (\<exists>es. outs b = outs a @ es)"

lemma grows_refl [simp]: "grows a a"
  by (simp add: grows_def)

lemma grows_trans: "grows a b \<Longrightarrow> grows b c \<Longrightarrow> grows a c"
  by (auto simp: grows_def)

lemma grows_mem: "grows a b \<Longrightarrow> e \<in> set (outs a) \<Longrightarrow> e \<in> set (outs b)"
  by (auto simp: grows_def)

lemma grows_field [simp]:
  "grows a (st\<lparr>rep := v_rep\<rparr>) = grows a st"
  "grows a (st\<lparr>conf := v_conf\<rparr>) = grows a st"
  "grows a (st\<lparr>env_set := v_env_set\<rparr>) = grows a st"
  "grows a (st\<lparr>off := v_off\<rparr>) = grows a st"
  "grows a (st\<lparr>lim := v_lim\<rparr>) = grows a st"
  "grows a (st\<lparr>density := v_density\<rparr>) = grows a st"
  "grows a (st\<lparr>phase := v_phase\<rparr>) = grows a st"
  "grows a (st\<lparr>start_cool := v_start_cool\<rparr>) = grows a st"
  "grows a (st\<lparr>heater := v_heater\<rparr>) = grows a st"
  "grows a (st\<lparr>fl := v_fl\<rparr>) = grows a st"
  "grows a (st\<lparr>wu := v_wu\<rparr>) = grows a st"
  "grows a (st\<lparr>fan := v_fan\<rparr>) = grows a st"
  "grows a (st\<lparr>wat := v_wat\<rparr>) = grows a st"
  "grows a (st\<lparr>tec_on := v_tec_on\<rparr>) = grows a st"
  "grows a (st\<lparr>tec_written := v_tec_written\<rparr>) = grows a st"
  "grows a (st\<lparr>tec_switched_at := v_tec_switched_at\<rparr>) = grows a st"
  "grows a (st\<lparr>quiet_held := v_quiet_held\<rparr>) = grows a st"
  "grows a (st\<lparr>quiet_pump := v_quiet_pump\<rparr>) = grows a st"
  "grows a (st\<lparr>quiet_since := v_quiet_since\<rparr>) = grows a st"
  "grows a (st\<lparr>phase_until := v_phase_until\<rparr>) = grows a st"
  "grows a (st\<lparr>over_temp := v_over_temp\<rparr>) = grows a st"
  "grows a (st\<lparr>cold := v_cold\<rparr>) = grows a st"
  "grows a (st\<lparr>critical := v_critical\<rparr>) = grows a st"
  "grows a (st\<lparr>sensor_fail := v_sensor_fail\<rparr>) = grows a st"
  "grows a (st\<lparr>sensor_alarm := v_sensor_alarm\<rparr>) = grows a st"
  "grows a (st\<lparr>forced_cool := v_forced_cool\<rparr>) = grows a st"
  "grows a (st\<lparr>flood_on := v_flood_on\<rparr>) = grows a st"
  "grows a (st\<lparr>silent_warned := v_silent_warned\<rparr>) = grows a st"
  "grows a (st\<lparr>silent_safed := v_silent_safed\<rparr>) = grows a st"
  "grows a (st\<lparr>eff_armed := v_eff_armed\<rparr>) = grows a st"
  "grows a (st\<lparr>session_armed := v_session_armed\<rparr>) = grows a st"
  "grows a (st\<lparr>last_up := v_last_up\<rparr>) = grows a st"
  "grows a (st\<lparr>ext_held := v_ext_held\<rparr>) = grows a st"
  "grows a (st\<lparr>ext_dropped := v_ext_dropped\<rparr>) = grows a st"
  "grows a (st\<lparr>ext_reason := v_ext_reason\<rparr>) = grows a st"
  "grows a (st\<lparr>seq := v_seq\<rparr>) = grows a st"
  "grows a (st\<lparr>diag_owned := v_diag_owned\<rparr>) = grows a st"
  "grows a (st\<lparr>pub := v_pub\<rparr>) = grows a st"
  by (simp_all add: grows_def)

lemma grows_emit [simp]: "grows a st \<Longrightarrow> grows a (emit es st)"
  by (auto simp: grows_def emit_def)

lemma grows_fan_tries [simp]: "grows a st \<Longrightarrow> grows a (snd (fan_tries i n ix d st))"
  by (induction n arbitrary: st) (simp_all add: Let_def)

lemma grows_fan_write [simp]: "grows a st \<Longrightarrow> grows a (snd (fan_write i ix d st))"
  by (simp add: fan_write_def Let_def)

lemma grows_upd_reason [simp]: "grows a st \<Longrightarrow> grows a (upd_reason m st)"
  by (simp add: upd_reason_def Let_def)

lemma grows_warn [simp]: "grows a st \<Longrightarrow> grows a (warn m st)"
  by (simp add: warn_def Let_def)

lemma grows_clear_reason [simp]: "grows a st \<Longrightarrow> grows a (clear_reason st)"
  by (simp add: clear_reason_def Let_def)

lemma grows_safe_stop [simp]: "grows a st \<Longrightarrow> grows a (safe_stop st)"
  by (simp add: safe_stop_def Let_def)

lemma grows_heater_set_pct [simp]: "grows a st \<Longrightarrow> grows a (heater_set_pct p st)"
  by (simp add: heater_set_pct_def Let_def)

lemma grows_fan_set [simp]: "grows a st \<Longrightarrow> grows a (fan_set i ix d st)"
  by (simp add: fan_set_def Let_def)

lemma grows_fan_verify_one [simp]: "grows a st \<Longrightarrow> grows a (fan_verify_one i ix st)"
  by (simp add: fan_verify_one_def Let_def)

lemma grows_fans_verify [simp]: "grows a st \<Longrightarrow> grows a (fans_verify i st)"
  by (simp add: fans_verify_def Let_def)

lemma grows_fans_quiet [simp]: "grows a st \<Longrightarrow> grows a (fans_quiet i st)"
  by (simp add: fans_quiet_def Let_def)

lemma grows_pump_quiet [simp]: "grows a st \<Longrightarrow> grows a (pump_quiet st)"
  by (simp add: pump_quiet_def Let_def)

lemma grows_fans_idle [simp]: "grows a st \<Longrightarrow> grows a (fans_idle i st)"
  by (simp add: fans_idle_def Let_def)

lemma grows_fans_run [simp]: "grows a st \<Longrightarrow> grows a (fans_run i st)"
  by (simp add: fans_run_def Let_def)

lemma grows_fans_cool [simp]: "grows a st \<Longrightarrow> grows a (fans_cool i st)"
  by (simp add: fans_cool_def Let_def)

lemma grows_fans_apply_phase [simp]: "grows a st \<Longrightarrow> grows a (fans_apply_phase i st)"
  by (cases "phase st"; simp add: fans_apply_phase_def)

lemma grows_overtemp_warn [simp]: "grows a st \<Longrightarrow> grows a (overtemp_warn st)"
  by (simp add: overtemp_warn_def Let_def)

lemma grows_ext_holds_log [simp]: "grows a st \<Longrightarrow> grows a (ext_holds_log h st)"
  by (simp add: ext_holds_log_def Let_def)

lemma grows_gates_apply [simp]: "grows a st \<Longrightarrow> grows a (gates_apply st)"
  by (simp add: gates_apply_def Let_def)

lemma grows_conf_reload [simp]: "grows a st \<Longrightarrow> grows a (conf_reload i st)"
  by (simp add: conf_reload_def Let_def)

lemma grows_limits_apply [simp]: "grows a st \<Longrightarrow> grows a (limits_apply h f st)"
  by (simp add: limits_apply_def Let_def)

lemma grows_flow_check_start [simp]: "grows a st \<Longrightarrow> grows a (flow_check_start i st)"
  by (simp add: flow_check_start_def Let_def)

lemma grows_flow_request [simp]: "grows a st \<Longrightarrow> grows a (flow_request t st)"
  by (simp add: flow_request_def Let_def)

lemma grows_flood_reset [simp]: "grows a st \<Longrightarrow> grows a (flood_reset i st)"
  by (simp add: flood_reset_def Let_def)

lemma grows_flood_enter [simp]: "grows a st \<Longrightarrow> grows a (flood_enter i st)"
  by (simp add: flood_enter_def Let_def)

lemma grows_flood_flow [simp]: "grows a st \<Longrightarrow> grows a (flood_flow i st)"
  by (simp add: flood_flow_def Let_def)

lemma grows_flood_watch [simp]: "grows a st \<Longrightarrow> grows a (flood_watch st)"
  by (simp add: flood_watch_def Let_def)

lemma grows_flood_open [simp]: "grows a st \<Longrightarrow> grows a (flood_open i st)"
  by (simp add: flood_open_def Let_def)

lemma grows_flood_close [simp]: "grows a st \<Longrightarrow> grows a (flood_close i st)"
  by (simp add: flood_close_def Let_def)

lemma grows_silence_stop [simp]: "grows a st \<Longrightarrow> grows a (silence_stop i st)"
  by (simp add: silence_stop_def Let_def)

lemma grows_silence_stand_down [simp]: "grows a st \<Longrightarrow> grows a (silence_stand_down st)"
  by (simp add: silence_stand_down_def Let_def)

lemma grows_stage_silence [simp]: "grows a st \<Longrightarrow> grows a (stage_silence i st)"
  by (simp add: stage_silence_def Let_def)

lemma grows_quiet_hold_ex [simp]: "grows a st \<Longrightarrow> grows a (quiet_hold_ex i on wp st)"
  by (simp add: quiet_hold_ex_def Let_def)

lemma grows_session_quiet [simp]: "grows a st \<Longrightarrow> grows a (session_quiet i r st)"
  by (simp add: session_quiet_def Let_def)

lemma grows_session_history [simp]: "grows a st \<Longrightarrow> grows a (session_history i st)"
  by (simp add: session_history_def Let_def)

lemma grows_session_duty [simp]: "grows a st \<Longrightarrow> grows a (session_duty i ag st)"
  by (simp add: session_duty_def Let_def)

lemma grows_session_edge [simp]: "grows a st \<Longrightarrow> grows a (session_edge i st)"
  by (simp add: session_edge_def Let_def)

lemma grows_stage_session [simp]: "grows a st \<Longrightarrow> grows a (stage_session i st)"
  by (simp add: stage_session_def Let_def)

lemma grows_stage_emission [simp]: "grows a st \<Longrightarrow> grows a (stage_emission i st)"
  by (simp add: stage_emission_def Let_def)

lemma grows_supply_pgood [simp]: "grows a st \<Longrightarrow> grows a (supply_pgood i st)"
  by (simp add: supply_pgood_def Let_def)

lemma grows_supply_faults [simp]: "grows a st \<Longrightarrow> grows a (supply_faults i st)"
  by (simp add: supply_faults_def Let_def)

lemma grows_stage_supply [simp]: "grows a st \<Longrightarrow> grows a (stage_supply i st)"
  by (simp add: stage_supply_def Let_def)

lemma grows_fire_tier [simp]: "grows a st \<Longrightarrow> grows a (fire_tier i q st)"
  by (simp add: fire_tier_def Let_def)

lemma grows_fire_release [simp]: "grows a st \<Longrightarrow> grows a (fire_release q st)"
  by (simp add: fire_release_def Let_def)

lemma grows_stage_fire [simp]: "grows a st \<Longrightarrow> grows a (stage_fire i st)"
  by (simp add: stage_fire_def Let_def)

lemma grows_stage_hv [simp]: "grows a st \<Longrightarrow> grows a (stage_hv i st)"
  by (simp add: stage_hv_def Let_def)

lemma grows_crash_open_try [simp]: "grows a st \<Longrightarrow> grows a (crash_open_try i st)"
  by (simp add: crash_open_try_def Let_def)

lemma grows_crash_arm_hw [simp]: "grows a st \<Longrightarrow> grows a (crash_arm_hw i st)"
  by (simp add: crash_arm_hw_def Let_def)

lemma grows_crash_arm_try [simp]: "grows a st \<Longrightarrow> grows a (crash_arm_try i st)"
  by (simp add: crash_arm_try_def Let_def)

lemma grows_crash_poll_one [simp]: "grows a st \<Longrightarrow> grows a (crash_poll_one i st)"
  by (auto simp: crash_poll_one_def Let_def split: option.split crash_event.split)

lemma grows_stage_crash [simp]: "grows a st \<Longrightarrow> grows a (stage_crash i st)"
  by (simp add: stage_crash_def Let_def)

lemma grows_airflow_one [simp]: "grows a st \<Longrightarrow> grows a (airflow_one i gr k st)"
  by (simp add: airflow_one_def Let_def)

lemma grows_stage_airflow [simp]: "grows a st \<Longrightarrow> grows a (stage_airflow i st)"
  by (simp add: stage_airflow_def Let_def)

lemma grows_sensors_back [simp]: "grows a st \<Longrightarrow> grows a (sensors_back i st)"
  by (simp add: sensors_back_def Let_def)

lemma grows_abandon_check [simp]: "grows a st \<Longrightarrow> grows a (abandon_check st)"
  by (simp add: abandon_check_def Let_def)

lemma grows_stage_sensors [simp]: "grows a st \<Longrightarrow> grows a (stage_sensors i d u st)"
  by (simp add: stage_sensors_def Let_def)

lemma grows_stage_ceiling [simp]: "grows a st \<Longrightarrow> grows a (stage_ceiling i u st)"
  by (cases u; simp add: stage_ceiling_def Let_def)

lemma grows_stage_floor [simp]: "grows a st \<Longrightarrow> grows a (stage_floor u st)"
  by (simp add: stage_floor_def Let_def)

lemma grows_stage_warmup [simp]: "grows a st \<Longrightarrow> grows a (stage_warmup i u st)"
  by (simp add: stage_warmup_def Let_def)

lemma grows_stage_critical [simp]: "grows a st \<Longrightarrow> grows a (stage_critical u st)"
  by (simp add: stage_critical_def Let_def)

lemma grows_flow_fault_noted [simp]: "grows a st \<Longrightarrow> grows a (flow_fault_noted st)"
  by (simp add: flow_fault_noted_def Let_def)

lemma grows_flow_finish [simp]: "grows a st \<Longrightarrow> grows a (flow_finish i st)"
  by (simp add: flow_finish_def Let_def)

lemma grows_flow_over [simp]: "grows a st \<Longrightarrow> grows a (flow_over i r d l st)"
  by (simp add: flow_over_def Let_def)

lemma grows_flow_clean [simp]: "grows a st \<Longrightarrow> grows a (flow_clean st)"
  by (simp add: flow_clean_def Let_def)

lemma grows_flow_done [simp]: "grows a st \<Longrightarrow> grows a (flow_done i st)"
  by (simp add: flow_done_def Let_def)

lemma grows_stage_flow [simp]: "grows a st \<Longrightarrow> grows a (stage_flow i d u st)"
  by (simp add: stage_flow_def Let_def)

lemma grows_stage_suspect [simp]: "grows a st \<Longrightarrow> grows a (stage_suspect i st)"
  by (simp add: stage_suspect_def Let_def)

lemma grows_stage_history [simp]: "grows a st \<Longrightarrow> grows a (stage_history i d st)"
  by (cases d; simp add: stage_history_def Let_def)

lemma grows_stage_settle [simp]: "grows a st \<Longrightarrow> grows a (stage_settle i d u st)"
  by (simp add: stage_settle_def Let_def)

lemma grows_go_idle [simp]: "grows a st \<Longrightarrow> grows a (go_idle i st)"
  by (simp add: go_idle_def Let_def)

lemma grows_start_cool_end [simp]: "grows a st \<Longrightarrow> grows a (start_cool_end i st)"
  by (simp add: start_cool_end_def Let_def)

lemma grows_smoke_end [simp]: "grows a st \<Longrightarrow> grows a (smoke_end i u st)"
  by (simp add: smoke_end_def Let_def)

lemma grows_thermal_step [simp]: "grows a st \<Longrightarrow> grows a (thermal_step i u st)"
  by (simp add: thermal_step_def Let_def)

lemma grows_cooldown_step [simp]: "grows a st \<Longrightarrow> grows a (cooldown_step i u st)"
  by (simp add: cooldown_step_def Let_def)

lemma grows_stage_cooldown [simp]: "grows a st \<Longrightarrow> grows a (stage_cooldown i u st)"
  by (simp add: stage_cooldown_def Let_def)

lemma grows_tec_switch [simp]: "grows a st \<Longrightarrow> grows a (tec_switch i u st)"
  by (simp add: tec_switch_def Let_def)

lemma grows_tec_write [simp]: "grows a st \<Longrightarrow> grows a (tec_write st)"
  by (simp add: tec_write_def Let_def)

lemma grows_stage_tec [simp]: "grows a st \<Longrightarrow> grows a (stage_tec i u st)"
  by (simp add: stage_tec_def Let_def)

lemma grows_verdict_publish [simp]: "grows a st \<Longrightarrow> grows a (verdict_publish i f v h d u st)"
  by (simp add: verdict_publish_def Let_def)

lemma grows_stage_publish [simp]: "grows a st \<Longrightarrow> grows a (stage_publish i d u st)"
  by (simp add: stage_publish_def Let_def)

lemma grows_tick_front [simp]: "grows a st \<Longrightarrow> grows a (tick_front i st)"
  by (simp add: tick_front_def Let_def)

lemma grows_tick_coolant [simp]: "grows a st \<Longrightarrow> grows a (tick_coolant i d u st)"
  by (simp add: tick_coolant_def Let_def)

lemma grows_tick_flow [simp]: "grows a st \<Longrightarrow> grows a (tick_flow i d u st)"
  by (simp add: tick_flow_def Let_def)

lemma grows_tick_back [simp]: "grows a st \<Longrightarrow> grows a (tick_back i d u st)"
  by (simp add: tick_back_def Let_def)

lemma grows_engine_tick [simp]: "grows a st \<Longrightarrow> grows a (engine_tick i st)"
  by (simp add: engine_tick_def Let_def)

end
