(* ===== verification/CoolStops.thy ===== *)
theory CoolStops
  imports CoolEffects
begin

text \<open>
  The cooling engine's own stops and holds: a beam nobody armed, a controller that hangs, a fire
  signal; the airflow while the ring plays, the TEC, the flow verdict; the gates published as off.
\<close>

section \<open>A quiet machine\<close>

definition calm_tin :: tin where
  "calm_tin = \<lparr>now = 100, pub_at = 100, settings = (\<lambda>_. None), degc = (\<lambda>r. of_int r / 10), fan_took = (\<lambda>_. True),
     fan_rb = (\<lambda>_. -1), cnc_running = (\<lambda>_. False), machine_idle = True, laser_on = 0, pgood = 255, faults = 0,
     lid_ir = [], hv_current = 0, tach_exhaust = 0, tach_intake1 = 0, tach_intake2 = 0, tach_air = 0, purge_cur = 0,
     water1 = 210, water2 = 210, water2_open = 210, crash_open = False, crash_arm = False, crash_poll = None,
     ext_allowed = False, ext_holds = no_holds, vfile_ok = True\<rparr>"

section \<open>Stops\<close>

definition stops :: "cool \<Rightarrow> cool \<Rightarrow> bool" where
  "stops a b \<longleftrightarrow> (\<exists>es. outs b = outs a @ es \<and> {Wr ''cnc/stop'' 1, Wr ''cnc/laser_latch'' 1} \<subseteq> set es)"

lemma stopsI: "grows a b \<Longrightarrow> outs c = outs b @ [Wr ''cnc/stop'' 1, Wr ''cnc/laser_latch'' 1] \<Longrightarrow> grows c d \<Longrightarrow> stops a d"
  by (auto simp: grows_def stops_def)

lemma stage_session_wat [simp]:
  "x_last_armed_at (wat (stage_session i st)) = x_last_armed_at (wat st)"
proof -
  have o: "x_last_armed_at (wat (flood_open i s)) = x_last_armed_at (wat s)" for s
    by (simp add: flood_open_def flood_watch_def)
  have c: "x_last_armed_at (wat (flood_close i s)) = x_last_armed_at (wat s)" for s
    by (simp add: flood_close_def Let_def)
  show ?thesis by (simp add: stage_session_def session_edge_def Let_def o c)
qed

lemma armed_in_cong: "rep a = rep b \<Longrightarrow> armed_in i a = armed_in i b"
  by (simp add: armed_in_def fresh_report_def)

lemma tick_front_grows_emission:
  "grows (stage_emission i (stage_session i (stage_silence i st))) (tick_front i st)"
  by (simp add: tick_front_def)

lemma engine_tick_grows:
  "\<not> diag_owned st \<Longrightarrow> grows a (tick_front i st) \<Longrightarrow> grows a (engine_tick i st)"
  by (simp add: engine_tick_def Let_def)

text \<open>C1. A beam nobody armed is stopped: whenever the kernel's witness counts emission and the armed
  window has not been open in the last three seconds, the tick stops motion and locks the laser,
  every time, whatever else it does.\<close>

theorem emission_unarmed_stops:
  assumes "\<not> diag_owned st" "laser_on i > 0" "\<not> armed_in i st"
    and "x_last_armed_at (wat st) < 0 \<or> now i - x_last_armed_at (wat st) > 3"
  shows "stops st (engine_tick i st)"
proof -
  define s where "s = stage_session i (stage_silence i st)"
  have r: "rep s = rep st" by (simp add: s_def)
  have "\<not> armed_in i s" using assms(3) armed_in_cong [OF r] by simp
  moreover have "x_last_armed_at (wat s) = x_last_armed_at (wat st)" by (simp add: s_def)
  ultimately have e: "outs (stage_emission i s) = outs s @ [Wr ''cnc/stop'' 1, Wr ''cnc/laser_latch'' 1]"
    using assms by (auto simp: stage_emission_def armed_in_def Let_def safe_stop_def emit_def warn_def upd_reason_def)
  have g: "grows st s" by (simp add: s_def)
  have "grows (stage_emission i s) (engine_tick i st)"
    unfolding s_def by (rule engine_tick_grows [OF assms(1) tick_front_grows_emission])
  then show ?thesis by (rule stopsI [OF g e])
qed

theorem emission_unarmed_stops_witness:
  "stops cool_boot (engine_tick (calm_tin\<lparr>laser_on := 12\<rparr>) cool_boot)"
  by (rule emission_unarmed_stops) (simp_all add: cool_boot_def calm_tin_def armed_in_def fresh_report_def)

text \<open>C2. A controller that hangs is stopped: when a known reporter has been silent for more than
  five seconds with the armed window open (once per silence) or with the kernel still playing the
  ring (every tick until it stops), the tick stops motion and locks the laser.\<close>

theorem silent_controller_stops:
  assumes "\<not> diag_owned st" "\<not> fresh_report i st" "r_at (rep st) \<ge> 0"
    and "r_armed (rep st) \<and> \<not> silent_safed st \<or> cnc_running i 0"
  shows "stops st (engine_tick i st)"
proof -
  define s where "s = limits_apply (r_lim (rep st)) False st"
  have s: "outs s = outs st" "rep s = rep st" "silent_safed s = silent_safed st" by (simp_all add: s_def)
  have e: "outs (silence_stop i s) = outs s @ [Wr ''cnc/stop'' 1, Wr ''cnc/laser_latch'' 1]"
    using assms(3,4) s by (simp add: silence_stop_def safe_stop_def emit_def warn_def upd_reason_def)
  have t: "stage_silence i st = silence_stand_down (silence_stop i s)"
    using assms(2) by (simp add: stage_silence_def s_def)
  have "grows (silence_stop i s) (tick_front i st)" by (simp add: tick_front_def t)
  then have "grows (silence_stop i s) (engine_tick i st)" by (rule engine_tick_grows [OF assms(1)])
  moreover have "grows st s" by (simp add: s_def)
  ultimately show ?thesis using stopsI e by blast
qed

theorem silent_controller_stops_witness:
  "stops (cool_boot\<lparr>rep := (rep cool_boot)\<lparr>r_at := 90, r_mode := 1, r_armed := True\<rparr>\<rparr>)
     (engine_tick calm_tin (cool_boot\<lparr>rep := (rep cool_boot)\<lparr>r_at := 90, r_mode := 1, r_armed := True\<rparr>\<rparr>))"
  by (rule silent_controller_stops) (simp_all add: cool_boot_def calm_tin_def fresh_report_def report_timeout_s_def)

section \<open>Airflow and TEC\<close>

lemma session_phase_not_idle: "phase st \<noteq> Cool_Idle \<Longrightarrow> phase (stage_session i st) \<noteq> Cool_Idle"
proof -
  have o: "phase (flood_open i s) \<noteq> Cool_Idle" for s
    by (simp add: flood_open_def flood_enter_def Let_def)
  have c: "phase s \<noteq> Cool_Idle \<Longrightarrow> phase (flood_close i s) \<noteq> Cool_Idle" for s
    by (simp add: flood_close_def Let_def)
  assume "phase st \<noteq> Cool_Idle"
  then show ?thesis by (simp add: stage_session_def session_edge_def Let_def o c)
qed



lemma tec_after: "tec_on (stage_tec i u st) = tec_want i u st"
  by (simp add: stage_tec_def tec_write_def tec_switch_def Let_def)

text \<open>The TEC only runs in moving air and never near the floor: after a tick of an engine that owns
  the hardware it is on exactly when the part is declared, the fans run, the coolant was read over
  its threshold (the lower one while it is on already), the loop is clear of the floor's hysteresis,
  and, to be switched on, thirty seconds have passed since it was last switched.\<close>

theorem tec_on_iff:
  "tec_on (engine_tick i st) \<longleftrightarrow>
     (if diag_owned st then tec_on st
      else let st' = engine_tick i st; c = conf st' in
        \<exists>u. read_temp i (water2 i) (tick_front i st) = Some u \<and> c ''cool_tec_present'' > 0 \<and> has_airflow st' \<and>
          u > (if tec_on st then c ''cool_tec_off_c'' else c ''cool_tec_on_c'') \<and>
          (o_floor (off st') \<or> u > e_min (lim st') + temp_min_hyst_c) \<and>
          (tec_on st \<or> tec_switched_at st \<le> 0 \<or> now i - tec_switched_at st \<ge> tec_dwell_s))"
proof (cases "diag_owned st")
  case False
  define s1 where "s1 = tick_front i st"
  define d where "d = read_temp i (water1 i) s1"
  define u where "u = read_temp i (water2 i) s1"
  define s where "s = stage_cooldown i u (tick_flow i d u (tick_coolant i d u s1))"
  have t: "engine_tick i st = stage_publish i d u (stage_tec i u s)"
    using False by (simp add: engine_tick_def tick_back_def Let_def s1_def d_def u_def s_def)
  have keep: "tec_on s = tec_on st" "tec_switched_at s = tec_switched_at st"
    by (simp_all add: s_def tick_flow_def tick_coolant_def s1_def tick_front_def)
  have air: "has_airflow (engine_tick i st) = has_airflow s" by (simp add: t has_airflow_def)
  have same: "conf (engine_tick i st) = conf s" "off (engine_tick i st) = off s" "lim (engine_tick i st) = lim s"
    by (simp_all add: t)
  have on: "tec_on (engine_tick i st) = tec_want i u s" by (simp add: t tec_after)
  show ?thesis
    using False unfolding on Let_def air same s1_def [symmetric] u_def [symmetric]
    by (cases u) (auto simp: tec_want_def Let_def keep)
qed (simp add: engine_tick_def)

section \<open>One bad reading is no fault\<close>

lemma conf_nonneg:
  assumes "conf st ''cool_confirm_max_s'' \<ge> 0"
  shows "conf (conf_reload i st) ''cool_confirm_max_s'' \<ge> 0"
proof -
  have "map_of tunables ''cool_confirm_max_s'' = Some (480, True)" by (simp add: tunables_def)
  then show ?thesis using assms by (simp add: conf_reload_def gates_apply_def reload_def resolve_def Let_def)
qed

lemma session_conf: "conf st ''cool_confirm_max_s'' \<ge> 0 \<Longrightarrow> conf (stage_session i st) ''cool_confirm_max_s'' \<ge> 0"
proof -
  have o: "conf (flood_open i s) = conf (conf_reload i s)" for s by (simp add: flood_open_def)
  assume "conf st ''cool_confirm_max_s'' \<ge> 0"
  then show ?thesis using conf_nonneg by (simp add: stage_session_def session_edge_def Let_def o)
qed

lemma flow_request_verdict [simp]: "f_verdict (fl (flow_request t st)) = f_verdict (fl st)"
  by (simp add: flow_request_def Let_def)

lemma session_verdict [simp]: "f_verdict (fl (stage_session i st)) = f_verdict (fl st)"
proof -
  have o: "f_verdict (fl (flood_open i s)) = f_verdict (fl s)" for s
    by (simp add: flood_open_def flood_flow_def flood_reset_def Let_def)
  have c: "f_verdict (fl (flood_close i s)) = f_verdict (fl s)" for s
    by (simp add: flood_close_def Let_def)
  show ?thesis by (simp add: stage_session_def session_edge_def Let_def o c)
qed

lemma coolant_verdict [simp]: "f_verdict (fl (tick_coolant i d u st)) = f_verdict (fl st)"
proof -
  have b: "f_verdict (fl (sensors_back i s)) = f_verdict (fl s)" for s
    by (simp add: sensors_back_def Let_def)
  have "f_verdict (fl (stage_sensors i d u s)) = f_verdict (fl s)" for s
    by (simp add: stage_sensors_def abandon_check_def Let_def b)
  moreover have "f_verdict (fl (stage_warmup i u s)) = f_verdict (fl s)" for s
    by (simp add: stage_warmup_def Let_def)
  ultimately show ?thesis by (simp add: tick_coolant_def)
qed

lemma coolant_conf: "conf (tick_coolant i d u st) = conf st"
  by (simp add: tick_coolant_def)

lemma flow_finish_verdict [simp]: "f_verdict (fl (flow_finish i st)) = f_verdict (fl st)"
  by (simp add: flow_finish_def)

lemma flow_done_normal:
  assumes "f_verdict (fl st) = Flow_Normal"
  shows "f_verdict (fl (flow_done i st)) = Flow_Normal \<or>
     f_verdict (fl (flow_done i st)) = Flow_Suspect \<and> f_suspect_since (fl (flow_done i st)) = now i"
  using assms by (simp add: flow_done_def flow_over_def flow_clean_def Let_def)

lemma stage_flow_normal:
  assumes "f_verdict (fl st) = Flow_Normal"
  shows "f_verdict (fl (stage_flow i d u st)) = Flow_Normal \<or>
     f_verdict (fl (stage_flow i d u st)) = Flow_Suspect \<and> f_suspect_since (fl (stage_flow i d u st)) = now i"
proof (cases "f_active (fl st) \<and> d \<noteq> None \<and> u \<noteq> None")
  case True
  have "f_verdict (fl (flow_done i (st\<lparr>fl := f\<rparr>))) = Flow_Normal \<or>
     f_verdict (fl (flow_done i (st\<lparr>fl := f\<rparr>))) = Flow_Suspect \<and> f_suspect_since (fl (flow_done i (st\<lparr>fl := f\<rparr>))) = now i"
    if "f_verdict f = Flow_Normal" for f
    using flow_done_normal [of "st\<lparr>fl := f\<rparr>"] that by simp
  with True assms show ?thesis by (simp add: stage_flow_def Let_def)
qed (use assms in \<open>auto simp: stage_flow_def\<close>)

text \<open>One bad reading is a suspicion, never a fault: from a normal flow verdict no tick, whatever
  the sensors read, ends in a coolant flow fault; it takes a second over-limit check, or a suspicion
  left open past its budget.\<close>

theorem flow_fault_needs_suspicion:
  assumes "f_verdict (fl st) = Flow_Normal" "conf st ''cool_confirm_max_s'' \<ge> 0"
  shows "f_verdict (fl (engine_tick i st)) \<noteq> Flow_Fault"
proof (cases "diag_owned st")
  case False
  have late: "f_verdict (fl (stage_cooldown i u s)) = f_verdict (fl s)" for u s
    by (simp add: stage_cooldown_def cooldown_step_def smoke_end_def thermal_step_def go_idle_def Let_def)
  have hist: "f_verdict (fl (stage_settle i d u (stage_history i d s))) = f_verdict (fl s)" for d u s
    by (cases d) (simp_all add: stage_settle_def stage_history_def flow_check_start_def Let_def)
  have front: "f_verdict (fl (tick_front i st)) = Flow_Normal" "conf (tick_front i st) ''cool_confirm_max_s'' \<ge> 0"
    using assms session_conf [of "stage_silence i st" i] by (simp_all add: tick_front_def)
  define s where "s d u = tick_coolant i d u (tick_front i st)" for d u
  have "f_verdict (fl (s d u)) = Flow_Normal" "conf (s d u) ''cool_confirm_max_s'' \<ge> 0" for d u
    using front coolant_conf by (simp_all add: s_def)
  note c = this
  have "f_verdict (fl (stage_suspect i (stage_flow i d u (s d u)))) \<noteq> Flow_Fault" for d u
    using stage_flow_normal [OF c(1), of i d u d u] c(2) [of d u] by (auto simp: stage_suspect_def)
  then show ?thesis using False
    by (simp add: engine_tick_def Let_def tick_back_def tick_flow_def late hist flip: s_def)
qed (use assms in \<open>simp add: engine_tick_def\<close>)

theorem flow_fault_needs_suspicion_witness:
  "f_verdict (fl (engine_tick calm_tin cool_boot)) \<noteq> Flow_Fault"
  by (rule flow_fault_needs_suspicion) (simp_all add: cool_boot_def tunables_def)

end
