(* ===== verification/CoolSafety.thy ===== *)
theory CoolSafety
  imports CoolEffects
begin

text \<open>
  What the cooling engine promises: the published verdict agrees with itself and blocks fire
  whenever anything stands or nobody reports; the heater is only on in a warm-up hold or a flow
  check; a beam nobody armed and a controller that hangs are stopped; the airflow never drops
  while the ring still plays; one bad flow reading is never a fault. And two places where the code
  does not do what its comments say.
\<close>

section \<open>The verdict\<close>

lemma fit_verdict: "fit cool_verdict_max (verdict_of e st) = verdict_of e st"
proof -
  have "length (verdict_of e st) \<le> 9"
    by (simp add: verdict_of_def Let_def if_distrib [where f = length] cong: if_cong)
  then show ?thesis by (simp add: fit_id cool_verdict_max_def)
qed

lemma publish_fields [simp]:
  "p_fire_ok (pub (verdict_publish i f v h d u st)) = f" "p_hold (pub (verdict_publish i f v h d u st)) = h"
  "p_verdict (pub (verdict_publish i f v h d u st)) = fit cool_verdict_max v"
  "p_armed_ack (pub (verdict_publish i f v h d u st)) \<longleftrightarrow> eff_armed st \<and> n_up (fan st)"
  by (simp_all add: verdict_publish_def Let_def emit_def)

lemma verdict_fault:
  assumes "fault_stands st"
  shows "verdict_of e st \<notin> {''OK'', ''SUSPECT'', ''FAULT'', ''EXT''}"
proof -
  have "list_all (\<lambda>v. v \<notin> {''OK'', ''SUSPECT'', ''FAULT'', ''EXT''})
      [''FIRE'', ''CRASH'', ''FLAME'', ''BUMP'', ''AIRFLOW'', ''CRITICAL'', ''SENSOR'', ''OVERTEMP'', ''COLD'', ''WARMUP'']"
    by simp
  moreover have "verdict_of e st \<in> set
      [''FIRE'', ''CRASH'', ''FLAME'', ''BUMP'', ''AIRFLOW'', ''CRITICAL'', ''SENSOR'', ''OVERTEMP'', ''COLD'', ''WARMUP'']"
    using assms unfolding verdict_of_def fault_stands_def Let_def
    by (simp only: list.set insert_iff if_split_eq1 if_True if_False) argo
  ultimately show ?thesis unfolding list_all_iff by (rule bspec)
qed

lemma verdict_calm:
  "\<not> fault_stands st \<Longrightarrow> verdict_of e st =
     (case f_verdict (fl st) of Flow_Fault \<Rightarrow> ''FAULT'' | Flow_Suspect \<Rightarrow> ''SUSPECT''
      | Flow_Normal \<Rightarrow> if e then ''EXT'' else ''OK'')"
  by (cases "f_verdict (fl st)") (simp_all add: verdict_of_def fault_stands_def)

lemma fault_stands_cong:
  "wat a = wat b \<Longrightarrow> fan a = fan b \<Longrightarrow> critical a = critical b \<Longrightarrow> sensor_alarm a = sensor_alarm b \<Longrightarrow>
   over_temp a = over_temp b \<Longrightarrow> cold a = cold b \<Longrightarrow> phase a = phase b \<Longrightarrow> fault_stands a = fault_stands b"
  by (simp add: fault_stands_def)

lemma stage_publish_fields:
  "p_fire_ok (pub (stage_publish i d u st)) \<longleftrightarrow> fire_ok_of (fresh_report i st) (standing (ext_holds_read i)) st"
  "p_hold (pub (stage_publish i d u st)) \<longleftrightarrow> hold_of (standing (ext_holds_read i)) st"
  "p_verdict (pub (stage_publish i d u st)) = verdict_of (standing (ext_holds_read i)) st"
  "p_armed_ack (pub (stage_publish i d u st)) \<longleftrightarrow> eff_armed st \<and> n_up (fan st)"
proof -
  have v: "verdict_of e (st'\<lparr>pub := p\<rparr>) = verdict_of e st'" "verdict_of e (ext_holds_log h st') = verdict_of e st'"
    "verdict_of e (upd_reason m st') = verdict_of e st'" for e st' p h m
    by (simp_all add: verdict_of_def)
  have f: "fire_ok_of b e (st'\<lparr>pub := p\<rparr>) = fire_ok_of b e st'" "fire_ok_of b e (ext_holds_log h st') = fire_ok_of b e st'"
    "fire_ok_of b e (upd_reason m st') = fire_ok_of b e st'" for b e st' p h m
    by (simp_all add: fire_ok_of_def fault_stands_def)
  have ho: "hold_of e (st'\<lparr>pub := p\<rparr>) = hold_of e st'" "hold_of e (ext_holds_log h st') = hold_of e st'"
    "hold_of e (upd_reason m st') = hold_of e st'" for e st' p h m
    by (simp_all add: hold_of_def fault_stands_def)
  show "p_fire_ok (pub (stage_publish i d u st)) \<longleftrightarrow> fire_ok_of (fresh_report i st) (standing (ext_holds_read i)) st"
    "p_hold (pub (stage_publish i d u st)) \<longleftrightarrow> hold_of (standing (ext_holds_read i)) st"
    "p_verdict (pub (stage_publish i d u st)) = verdict_of (standing (ext_holds_read i)) st"
    "p_armed_ack (pub (stage_publish i d u st)) \<longleftrightarrow> eff_armed st \<and> n_up (fan st)"
    by (simp_all add: stage_publish_def Let_def v f ho fit_verdict)
qed

lemma fresh_cong:
  "rep a = rep b \<Longrightarrow> fresh_report i a = fresh_report i b"
  by (simp add: fresh_report_def)


section \<open>The heater\<close>

definition heat_inv :: "cool \<Rightarrow> bool" where
  "heat_inv st \<longleftrightarrow>
     (heater st > 0 \<longrightarrow> diag_owned st \<or> phase st = Cool_Warmup \<or> f_active (fl st)) \<and>
     (f_active (fl st) \<longrightarrow> phase st = Cool_Run) \<and> (f_pending (fl st) \<longrightarrow> phase st = Cool_Run) \<and>
     (flood_on st \<longleftrightarrow> phase st = Cool_Run \<or> phase st = Cool_Warmup) \<and>
     (diag_owned st \<longrightarrow> phase st = Cool_Idle)"

lemma heat_inv_cong:
  "heater a = heater b \<Longrightarrow> f_active (fl a) = f_active (fl b) \<Longrightarrow> f_pending (fl a) = f_pending (fl b) \<Longrightarrow>
   phase a = phase b \<Longrightarrow> flood_on a = flood_on b \<Longrightarrow> diag_owned a = diag_owned b \<Longrightarrow> heat_inv a = heat_inv b"
  by (simp add: heat_inv_def)

text \<open>A stage that touches none of it keeps it.\<close>

lemma heat_inv_other [preserve]:
  "heat_inv (stage_silence i st) = heat_inv st" "heat_inv (stage_emission i st) = heat_inv st"
  "heat_inv (stage_supply i st) = heat_inv st" "heat_inv (stage_fire i st) = heat_inv st"
  "heat_inv (stage_hv i st) = heat_inv st" "heat_inv (stage_crash i st) = heat_inv st"
  "heat_inv (stage_airflow i st) = heat_inv st" "heat_inv (stage_ceiling i u st) = heat_inv st"
  "heat_inv (stage_floor u st) = heat_inv st" "heat_inv (stage_critical u st) = heat_inv st"
  "heat_inv (stage_tec i u st) = heat_inv st" "heat_inv (stage_publish i d u st) = heat_inv st"
  "heat_inv (verdict_publish i f v h d u st) = heat_inv st" "heat_inv (quiet_hold_ex i on wp st) = heat_inv st"
  by (rule heat_inv_cong; simp)+

lemma flow_request_fl:
  "f_active (fl (flow_request t st)) = f_active (fl st)"
  "f_pending (fl (flow_request t st)) \<longleftrightarrow> f_pending (fl st) \<or> conf st ''cool_flow_check_s'' > 0 \<and> \<not> f_active (fl st)"
  by (auto simp: flow_request_def Let_def)

lemma flood_open_heat:
  assumes "\<not> flood_on st" "heat_inv st" "\<not> diag_owned st"
  shows "heat_inv (flood_open i (st\<lparr>flood_on := True\<rparr>))"
proof -
  define s1 where "s1 = flood_reset i (conf_reload i (st\<lparr>flood_on := True\<rparr>))"
  have s1: "heater s1 = 0" "\<not> f_active (fl s1)" "\<not> f_pending (fl s1)" "flood_on s1" "\<not> diag_owned s1"
    using assms by (auto simp: s1_def flood_reset_def heat_inv_def)
  define s2 where "s2 = flood_enter i s1"
  have s2: "(phase s2 = Cool_Warmup \<or> phase s2 = Cool_Run \<and> heater s2 = 0)" "\<not> f_active (fl s2)" "\<not> f_pending (fl s2)"
      "flood_on s2" "\<not> diag_owned s2"
    using s1 by (auto simp: s2_def flood_enter_def Let_def)
  have s3: "f_active (fl (flood_flow i s2)) = f_active (fl s2)"
    "f_pending (fl (flood_flow i s2)) \<longrightarrow> f_pending (fl s2) \<or> phase s2 = Cool_Run"
    by (auto simp: flood_flow_def Let_def flow_request_fl)
  have "flood_open i (st\<lparr>flood_on := True\<rparr>) = flood_watch (flood_flow i s2)"
    by (simp add: flood_open_def s1_def s2_def)
  then show ?thesis using s2 s3 by (auto simp: heat_inv_def flood_watch_def)
qed

lemma flood_close_heat:
  assumes "flood_on st" "heat_inv st" "\<not> diag_owned st"
  shows "heat_inv (flood_close i (st\<lparr>flood_on := False\<rparr>))"
  using assms by (auto simp: heat_inv_def flood_close_def Let_def)

lemma stage_session_heat [preserve]:
  assumes "heat_inv st" "\<not> diag_owned st"
  shows "heat_inv (stage_session i st)"
proof -
  define s where "s = session_duty i (n_run_duty (fan st) \<noteq> r_duty (rep st) \<or> armed_in i st \<and> \<not> eff_armed st)
      (session_history i (session_quiet i (armed_in i st \<and> \<not> eff_armed st)
        (st\<lparr>fan := (fan st)\<lparr>n_run_duty := r_duty (rep st)\<rparr>, eff_armed := armed_in i st\<rparr>)))"
  have "heat_inv s = heat_inv st" by (rule heat_inv_cong) (simp_all add: s_def)
  moreover have "\<not> diag_owned s" using assms(2) by (simp add: s_def)
  ultimately have s: "heat_inv s" "\<not> diag_owned s" using assms(1) by simp_all
  have "heat_inv (session_edge i s)"
  proof (cases "flood_in i s = flood_on s")
    case False
    have c: "heat_inv (clear_reason (limits_apply h f x)) = heat_inv x" for h f x
      by (rule heat_inv_cong) simp_all
    from False s show ?thesis
      by (cases "flood_in i s") (simp_all add: session_edge_def c flood_open_heat flood_close_heat)
  qed (use s in \<open>simp add: session_edge_def\<close>)
  then show ?thesis unfolding s_def stage_session_def Let_def .
qed

lemma sensors_back_heat: "heat_inv st \<Longrightarrow> heat_inv (sensors_back i st)"
  by (auto simp: heat_inv_def sensors_back_def Let_def flow_request_fl)

lemma stage_sensors_heat [preserve]:
  assumes "heat_inv st" shows "heat_inv (stage_sensors i d u st)"
proof -
  have b: "heat_inv (sensors_back i (st\<lparr>sensor_fail := n\<rparr>))" for n
    by (rule sensors_back_heat) (use assms in \<open>simp add: heat_inv_def\<close>)
  show ?thesis
    using assms b by (auto simp: stage_sensors_def Let_def heat_inv_def abandon_check_def)
qed

lemma stage_warmup_heat [preserve]:
  assumes "heat_inv st" shows "heat_inv (stage_warmup i u st)"
  using assms by (auto simp: stage_warmup_def Let_def heat_inv_def flow_request_fl)

lemma flow_over_fl [simp]:
  "f_active (fl (flow_over i r d l st)) = f_active (fl st)"
  by (simp add: flow_over_def flow_fault_noted_def Let_def)

lemma flow_clean_fl [simp]:
  "f_active (fl (flow_clean st)) = f_active (fl st)" "f_pending (fl (flow_clean st)) = f_pending (fl st)"
  by (simp_all add: flow_clean_def Let_def)

lemma flow_finish_fl [simp]:
  "\<not> f_active (fl (flow_finish i st))" "f_pending (fl (flow_finish i st)) = f_pending (fl st)" "heater (flow_finish i st) = 0"
  by (simp_all add: flow_finish_def)

lemma flow_done_heat: "heat_inv st \<Longrightarrow> phase st = Cool_Run \<Longrightarrow> heat_inv (flow_done i st)"
  by (simp add: flow_done_def heat_inv_def)

lemma stage_flow_heat [preserve]:
  assumes "heat_inv st" shows "heat_inv (stage_flow i d u st)"
proof (cases "f_active (fl st) \<and> d \<noteq> None \<and> u \<noteq> None")
  case True
  then have r: "phase st = Cool_Run" using assms by (simp add: heat_inv_def)
  have "heat_inv (st\<lparr>fl := f\<rparr>)" if "f_active f = f_active (fl st)" "f_pending f = f_pending (fl st)" for f
    using assms that by (simp add: heat_inv_def)
  with True r show ?thesis by (simp add: stage_flow_def Let_def flow_done_heat)
next
  case False
  then show ?thesis using assms by (auto simp: stage_flow_def heat_inv_def)
qed

lemma stage_suspect_heat [preserve]: "heat_inv st \<Longrightarrow> heat_inv (stage_suspect i st)"
  by (auto simp: stage_suspect_def heat_inv_def flow_fault_noted_def Let_def)

lemma stage_history_heat [preserve]: "heat_inv st \<Longrightarrow> heat_inv (stage_history i d st)"
  by (cases d) (simp_all add: stage_history_def heat_inv_def Let_def)

lemma stage_settle_heat [preserve]: "heat_inv st \<Longrightarrow> heat_inv (stage_settle i d u st)"
  by (auto simp: stage_settle_def heat_inv_def Let_def flow_check_start_def)

lemma go_idle_heat: "heat_inv st \<Longrightarrow> phase st = Cool_Smoke \<or> phase st = Cool_Thermal \<Longrightarrow> heat_inv (go_idle i st)"
  by (auto simp: go_idle_def heat_inv_def Let_def)

lemma stage_cooldown_heat [preserve]:
  assumes "heat_inv st" shows "heat_inv (stage_cooldown i u st)"
proof -
  define s where "s = start_cool_end i st"
  have s: "heat_inv s" using assms heat_inv_cong [of s st] by (simp add: s_def start_cool_end_def)
  have "heat_inv (cooldown_step i u s)"
  proof (cases "phase s")
    case Cool_Smoke
    with s show ?thesis by (simp add: cooldown_step_def smoke_end_def go_idle_heat) (auto simp: heat_inv_def)
  next
    case Cool_Thermal
    have "heat_inv (warn m s) \<and> phase (warn m s) = Cool_Thermal" for m
      using s Cool_Thermal heat_inv_cong [of "warn m s" s] by simp
    with Cool_Thermal s show ?thesis
      by (simp add: cooldown_step_def thermal_step_def Let_def go_idle_heat) (auto simp: heat_inv_def)
  qed (use s in \<open>simp_all add: cooldown_step_def\<close>)
  then show ?thesis by (simp add: stage_cooldown_def s_def)
qed

lemma engine_tick_heat [preserve]:
  assumes "heat_inv st" shows "heat_inv (engine_tick i st)"
proof (cases "diag_owned st")
  case True
  have "heat_inv (st\<lparr>pub := p\<rparr>)" for p using assms by (simp add: heat_inv_def)
  with True show ?thesis by (simp add: engine_tick_def heat_inv_other)
next
  case False
  have "heat_inv (tick_front i st)"
    using assms False by (simp add: tick_front_def heat_inv_other stage_session_heat)
  then have "heat_inv (tick_back i d u (tick_front i st))" for d u
    by (simp add: tick_back_def tick_flow_def tick_coolant_def preserve)
  with False show ?thesis by (simp add: engine_tick_def Let_def heat_inv_other)
qed

lemma other_threads_heat [preserve]:
  "heat_inv (or_else (cool_state_report t m a dl l st) st) = heat_inv st" "heat_inv (cool_state_model d st) = heat_inv st"
  "heat_inv (cool_controller_stopped st) = heat_inv st" "heat_inv (cool_diag_pump b st) = heat_inv st"
  "heat_inv (cool_diag_purge b st) = heat_inv st" "heat_inv (cool_diag_aa i dd st) = heat_inv st"
  "heat_inv (cool_diag_fans_run i st) = heat_inv st" "heat_inv (cool_diag_fans_idle i st) = heat_inv st"
  "heat_inv (cool_flow_check_hold t b st) = heat_inv st"
  by (rule heat_inv_cong; simp add: cool_state_report_def or_else_def cool_state_model_def cool_controller_stopped_def
      cool_diag_pump_def cool_diag_purge_def cool_diag_aa_def cool_diag_fans_run_def cool_diag_fans_idle_def
      cool_flow_check_hold_def split: option.split)+

lemma diag_heat [preserve]:
  "heat_inv st \<Longrightarrow> heat_inv (snd (cool_diag_take st))"
  "heat_inv st \<Longrightarrow> diag_owned st \<Longrightarrow> heat_inv (cool_diag_release i st)"
  "heat_inv st \<Longrightarrow> heat_inv (cool_diag_heater_pct p st)"
  by (auto simp: cool_diag_take_def cool_diag_release_def cool_diag_heater_pct_def heat_inv_def Let_def)

lemma cool_step_heat: "heat_inv st \<Longrightarrow> heat_inv (cool_step op st)"
  by (cases op) (simp_all add: preserve)

interpretation engine_heat: invariant_machine cool_step heat_inv
  by unfold_locales (rule cool_step_heat)

lemma cool_init_heat: "heat_inv (cool_init i env)"
  by (simp add: cool_init_def Let_def heat_inv_def cool_boot_def)

text \<open>C4. The loop heater never runs unwatched: in every state the daemon can reach, whatever the
  sensors, the controller and the other threads do and in whatever order, the heater is off unless
  the session is held in its warm-up, a flow check is in flight inside a run, or a diagnostic owns
  the idle machine.\<close>

theorem heater_only_watched:
  "(let st = fold cool_step ops (cool_init i env) in
     heater st = 0 \<or> phase st = Cool_Warmup \<or> (f_active (fl st) \<and> phase st = Cool_Run) \<or>
     (diag_owned st \<and> phase st = Cool_Idle))"
  using engine_heat.run_inv [OF cool_init_heat, of ops i env] by (auto simp: Let_def heat_inv_def)

end
