(* ===== verification/CoolGaps.thy ===== *)
theory CoolGaps
  imports CoolStops CoolSafety
begin

text \<open>
  Four places where the cooling engine does not do what its own comments say, each with a state in
  which it happens: a session that opens while the engine is blind puts the heater on; the tick that
  releases a warm-up acknowledges the armed window before the fans have turned; a recheck that is
  off is never reported off; and a machine with every gate off reports none.
\<close>

section \<open>A session that opens blind\<close>

lemma conf_reload_conf:
  "conf a = conf b \<Longrightarrow> env_set a = env_set b \<Longrightarrow> conf (conf_reload i a) = conf (conf_reload i b)"
  by (simp add: conf_reload_def gates_apply_def Let_def)

lemma conf_reload_off:
  "conf a = conf b \<Longrightarrow> env_set a = env_set b \<Longrightarrow> off (conf_reload i a) = off (conf_reload i b)"
  by (simp add: conf_reload_def gates_apply_def Let_def)

lemma flood_in_cong: "rep a = rep b \<Longrightarrow> flood_in i a = flood_in i b"
  by (simp add: flood_in_def armed_in_def fresh_report_def)

lemma session_opens:
  assumes "\<not> flood_on st" "\<not> quiet_held st" "flood_in i st"
  shows "\<exists>s h. stage_session i st = clear_reason (limits_apply h (fresh_report i st) (flood_open i s)) \<and>
     conf s = conf st \<and> env_set s = env_set st \<and> sensor_alarm s = sensor_alarm st \<and> quiet_held s = quiet_held st"
proof -
  let ?s = "(st\<lparr>fan := (fan st)\<lparr>n_run_duty := r_duty (rep st)\<rparr>, eff_armed := armed_in i st\<rparr>)"
  let ?t = "session_history i ?s"
  have t: "flood_on ?t = flood_on st" "rep ?t = rep st" by simp_all
  have f: "flood_in i ?t" "fresh_report i ?t = fresh_report i st"
    using assms(3) flood_in_cong [OF t(2)] by (simp_all add: fresh_report_def)
  have q: "session_quiet i r ?s = ?s" for r using assms(2) by (simp add: session_quiet_def)
  have d: "session_duty i a ?t = ?t" for a using assms(1) t by (simp add: session_duty_def)
  show ?thesis
    by (rule exI [of _ "?t\<lparr>flood_on := True\<rparr>"], rule exI [of _ "r_lim (rep st)"])
       (use assms f t in \<open>simp add: stage_session_def Let_def q d session_edge_def\<close>)
qed

text \<open>"Fire blocked, hold, heater off" does not keep the heater off: when the downstream sensor is
  blind and the alarm stands, a session that opens with the upstream reading under the warm-up gate
  switches the loop heater on, and the tick ends with the alarm still standing and the heater
  running.\<close>

theorem blind_session_heats:
  assumes "\<not> diag_owned st" "sensor_alarm st" "\<not> flood_on st" "\<not> quiet_held st" "flood_in i st"
    and "water1 i < 0" "water2_open i \<ge> 0"
    and "conf (conf_reload i st) ''cool_aa_offset_counts'' \<le> 0"
    and "degc i (water2_open i) + conf (conf_reload i st) ''cool_temp_offset_c'' < conf (conf_reload i st) ''cool_temp_start''"
    and "\<not> o_warmup (off (conf_reload i st))" "heater_duty (conf_reload i st) > 0"
  shows "sensor_alarm (engine_tick i st) \<and> heater (engine_tick i st) > 0"
proof -
  have "rep (stage_silence i st) = rep st" by simp
  then have fi: "flood_in i (stage_silence i st)" using assms(5) flood_in_cong by blast
  obtain s h where s: "stage_session i (stage_silence i st) = clear_reason (limits_apply h (fresh_report i (stage_silence i st)) (flood_open i s))"
    and same: "conf s = conf st" "env_set s = env_set st" "sensor_alarm s = sensor_alarm st" "quiet_held s = quiet_held st"
    using session_opens [of "stage_silence i st" i] assms(3,4) fi by auto
  note c = conf_reload_conf [OF same(1,2), of i] and o = conf_reload_off [OF same(1,2), of i]
  define r where "r = flood_reset i (conf_reload i s)"
  have rt: "read_temp i (water2_open i) r = Some (degc i (water2_open i) + conf (conf_reload i st) ''cool_temp_offset_c'')"
    using assms(7,8) by (simp add: r_def read_temp_def coolant_offset_counts_def c Let_def)
  have duty: "heater_duty r = heater_duty (conf_reload i st)" by (simp add: r_def heater_duty_def c)
  have e: "phase (flood_enter i r) = Cool_Warmup" "heater (flood_enter i r) = heater_duty (conf_reload i st)"
    "w_win (wu (flood_enter i r)) = []" "sensor_alarm (flood_enter i r)"
    using assms(2,9,10) same
    by (simp_all add: flood_enter_def Let_def rt duty) (simp_all add: r_def c o)
  have "phase (flood_open i s) = Cool_Warmup" "heater (flood_open i s) = heater_duty (conf_reload i st)"
    "wu (flood_open i s) = wu (flood_enter i r)" "sensor_alarm (flood_open i s)"
    using e by (simp_all add: flood_open_def flip: r_def)
  then have front: "phase (tick_front i st) = Cool_Warmup" "heater (tick_front i st) > 0"
    "w_win (wu (tick_front i st)) = []" "sensor_alarm (tick_front i st)"
    using e assms(11) by (simp_all add: tick_front_def s)
  define u where "u = read_temp i (water2 i) (tick_front i st)"
  have down: "read_temp i (water1 i) (tick_front i st) = None" using assms(6) by (simp add: read_temp_def)
  define a where "a = stage_floor u (stage_ceiling i u (stage_sensors i None u (tick_front i st)))"
  have a: "phase a = Cool_Warmup" "heater a > 0" "w_win (wu a) = []" "sensor_alarm a"
    using front by (simp_all add: a_def stage_sensors_def Let_def)
  have w: "phase (stage_warmup i u a) = Cool_Warmup" "heater (stage_warmup i u a) > 0" "sensor_alarm (stage_warmup i u a)"
    using a by (simp_all add: stage_warmup_def Let_def push_ring_def last_n_def warmup_win_n_def)
  have "heater (tick_back i None u (tick_front i st)) > 0 \<and> sensor_alarm (tick_back i None u (tick_front i st))"
    using w by (simp add: tick_back_def tick_flow_def tick_coolant_def stage_settle_def stage_flow_def Let_def flip: a_def)
  then show ?thesis using assms(1) by (simp add: engine_tick_def Let_def down flip: u_def)
qed

definition run_report :: "bool \<Rightarrow> cool \<Rightarrow> cool" where
  "run_report armed st = st\<lparr>rep := (rep st)\<lparr>r_at := 100, r_mode := 1, r_armed := armed\<rparr>\<rparr>"

lemma boot_conf:
  assumes "conf st = conf cool_boot" "env_set st = []" "settings i = (\<lambda>_. None)"
  shows "conf (conf_reload i st) = conf cool_boot"
proof (rule ext)
  fix k
  have t: "\<forall>t\<in>set tunables. resolve (\<lambda>_. None) t = fst (snd t)" by (simp add: tunables_def resolve_def)
  show "conf (conf_reload i st) k = conf cool_boot k"
  proof (cases "map_of tunables k")
    case None
    with assms show ?thesis by (simp add: conf_reload_def gates_apply_def reload_def Let_def)
  next
    case (Some du)
    then have "(k, du) \<in> set tunables" by (rule map_of_SomeD)
    with t have "resolve (\<lambda>_. None) (k, du) = fst du" by force
    with Some assms show ?thesis
      by (cases du) (simp add: conf_reload_def gates_apply_def reload_def Let_def cool_boot_def)
  qed
qed

lemma boot_gates: "conf st = conf cool_boot \<Longrightarrow> \<not> o_warmup (off (gates_apply st))"
  by (simp add: gates_apply_def Let_def gate_is_off_def gate_table_def row_def gate_state_def
      engine_gate_value_def engine_gate_keys_def cool_boot_def tunables_def)

theorem blind_session_heats_witness:
  "let st = run_report True (cool_boot\<lparr>sensor_alarm := True\<rparr>); st' = engine_tick (calm_tin\<lparr>water1 := -1, water2_open := 100\<rparr>) st
   in sensor_alarm st' \<and> heater st' > 0"
  unfolding Let_def
proof (rule blind_session_heats)
  let ?i = "calm_tin\<lparr>water1 := -1, water2_open := 100\<rparr>"
  let ?st = "run_report True (cool_boot\<lparr>sensor_alarm := True\<rparr>)"
  have c: "conf cool_boot ''cool_aa_offset_counts'' = 0" "conf cool_boot ''cool_temp_offset_c'' = 0"
    "conf cool_boot ''cool_temp_start'' = 16" "conf cool_boot ''cool_flow_heater_pct'' = 40"
    by (simp_all add: cool_boot_def tunables_def)
  have bc: "conf (conf_reload ?i ?st) = conf cool_boot"
    by (rule boot_conf) (simp_all add: run_report_def calm_tin_def, simp add: cool_boot_def)
  show "conf (conf_reload ?i ?st) ''cool_aa_offset_counts'' \<le> 0"
    "degc ?i (water2_open ?i) + conf (conf_reload ?i ?st) ''cool_temp_offset_c'' < conf (conf_reload ?i ?st) ''cool_temp_start''"
    "heater_duty (conf_reload ?i ?st) > 0"
    by (simp_all add: bc c heater_duty_def) (simp add: calm_tin_def)
  have "off (conf_reload ?i ?st) = off (gates_apply (?st\<lparr>conf := conf cool_boot\<rparr>))"
    using bc by (simp add: conf_reload_def gates_apply_def Let_def)
  then show "\<not> o_warmup (off (conf_reload ?i ?st))" using boot_gates by simp
qed (simp_all add: run_report_def cool_boot_def calm_tin_def flood_in_def fresh_report_def report_timeout_s_def)

section \<open>The tick that releases a warm-up\<close>

text \<open>Nothing stands, nothing is asked of the crash watch, and the witnesses read clean.\<close>

definition calm :: "tin \<Rightarrow> cool \<Rightarrow> bool" where
  "calm i st \<longleftrightarrow> \<not> fault_stands (st\<lparr>phase := Cool_Run\<rparr>) \<and> f_verdict (fl st) = Flow_Normal \<and> \<not> f_active (fl st) \<and>
     x_hw_state (wat st) < 0 \<and> \<not> x_hw_armed (wat st) \<and> \<not> diag_owned st \<and> \<not> quiet_held st \<and>
     laser_on i = 0 \<and> faults i = 0 \<and> pgood i \<ge> 128 \<and> \<not> standing (ext_holds_read i)"

lemma airflow_one_warm: "phase st \<noteq> Cool_Run \<Longrightarrow> airflow_one i g k st = st"
  by (simp add: airflow_one_def fan_judged_def airflow_judged_def Let_def split: option.split)

lemma fan_verify_one_alarm [simp]: "n_alarm (fan (fan_verify_one i k st)) = n_alarm (fan st)"
  by (simp add: fan_verify_one_def Let_def)

lemma stage_airflow_warm:
  assumes "phase st \<noteq> Cool_Run"
  shows "n_up (fan (stage_airflow i st)) = flood_on st \<and> n_alarm (fan (stage_airflow i st)) = n_alarm (fan st)"
proof -
  define s where "s = fans_verify i st"
  have s: "phase s \<noteq> Cool_Run" "flood_on s = flood_on st" "n_alarm (fan s) = n_alarm (fan st)"
    using assms by (simp_all add: s_def fans_verify_def)
  have j: "\<not> fan_judged s k" for k
    using s(1) by (simp add: fan_judged_def airflow_judged_def Let_def split: option.split)
  have "stage_airflow i st = s\<lparr>fan := (fan s)\<lparr>n_up := flood_on s\<rparr>\<rparr>"
    using airflow_one_warm [OF s(1)] by (simp add: stage_airflow_def Let_def j flip: s_def)
  with s show ?thesis by simp
qed

lemma session_stays:
  assumes "flood_on st" "flood_in i st" "\<not> quiet_held st" "phase st \<noteq> Cool_Run"
  shows "stage_session i st = session_history i (st\<lparr>fan := (fan st)\<lparr>n_run_duty := r_duty (rep st)\<rparr>, eff_armed := armed_in i st\<rparr>)"
proof -
  let ?s = "st\<lparr>fan := (fan st)\<lparr>n_run_duty := r_duty (rep st)\<rparr>, eff_armed := armed_in i st\<rparr>"
  let ?t = "session_history i ?s"
  have f: "flood_in i ?s" using assms(2) flood_in_cong [of ?s st i] by simp
  then have t: "flood_in i ?t" using flood_in_cong [of ?t ?s i] by simp
  have "fresh_report i ?s" using f by (simp add: flood_in_def)
  have a: "armed_in i ?s = armed_in i st" by (simp add: armed_in_def fresh_report_def)
  have q: "session_quiet i r ?s = ?s" for r using assms(3) by (simp add: session_quiet_def)
  have d: "session_duty i b ?t = ?t" for b using assms(4) by (simp add: session_duty_def)
  have e: "session_edge i ?t = ?t" using t assms(1) by (simp add: session_edge_def)
  show ?thesis by (simp add: stage_session_def Let_def q d e)
qed

lemma front_in_warmup:
  assumes "calm i st" "phase st = Cool_Warmup" "flood_on st" "flood_in i st" "armed_in i st"
  defines "s \<equiv> tick_front i st"
  shows "phase s = Cool_Warmup \<and> eff_armed s \<and> n_up (fan s) \<and> f_verdict (fl s) = Flow_Normal \<and>
    \<not> f_active (fl s) \<and> \<not> fault_stands (s\<lparr>phase := Cool_Run\<rparr>) \<and> wu s = wu st \<and>
    lim s = lim (stage_silence i st) \<and> off s = off st \<and> conf s = conf st"
proof -
  define a where "a = stage_silence i st"
  have r: "rep a = rep st" by (simp add: a_def)
  have in_a: "flood_in i a" "armed_in i a" "fresh_report i a"
    using assms(4,5) flood_in_cong [OF r] armed_in_cong [OF r] by (auto simp: armed_in_def)
  define b where "b = stage_session i a"
  have b: "b = session_history i (a\<lparr>fan := (fan a)\<lparr>n_run_duty := r_duty (rep a)\<rparr>, eff_armed := True\<rparr>)"
    unfolding b_def using session_stays [of a i] in_a assms(1-3) by (simp add: a_def calm_def)
  have bs: "phase b = Cool_Warmup" "flood_on b" "eff_armed b" "wat b = wat st" "fl b = fl st" "rep b = rep st"
    "n_alarm (fan b) = n_alarm (fan st)" "wu b = wu st" "lim b = lim a" "off b = off st" "conf b = conf st"
    "critical b = critical st" "sensor_alarm b = sensor_alarm st" "over_temp b = over_temp st" "cold b = cold st"
    using assms(2,3) by (simp_all add: b a_def)
  have ib: "armed_in i b" "fresh_report i b" using in_a armed_in_cong [of b a] bs(6) r by (auto simp: armed_in_def fresh_report_def)
  define c where "c = stage_supply i (stage_emission i b)"
  have cw: "c = b\<lparr>wat := (wat b)\<lparr>x_last_armed_at := now i, x_emission_warned := False, x_last_faults := 0\<rparr>\<rparr>"
    using assms(1) ib by (simp add: c_def stage_emission_def stage_supply_def supply_pgood_def supply_faults_def
        armed_in_def Let_def calm_def)
  have cf: "stage_fire i c = c" using assms(1) bs cw by (simp add: stage_fire_def calm_def fault_stands_def)
  define d where "d = stage_crash i (stage_hv i c)"
  have dk: "x_crash (wat d) = x_crash (wat st)" "x_fire_alarm (wat d) = x_fire_alarm (wat st)"
    "x_flame_alert (wat d) = x_flame_alert (wat st)"
    using assms(1) bs cw by (simp_all add: d_def stage_crash_def stage_hv_def Let_def calm_def)
  have ds: "phase d = Cool_Warmup" "flood_on d" "eff_armed d" "fl d = fl st" "n_alarm (fan d) = n_alarm (fan st)" "wu d = wu st"
    "lim d = lim a" "off d = off st" "conf d = conf st" "critical d = critical st" "sensor_alarm d = sensor_alarm st"
    "over_temp d = over_temp st" "cold d = cold st"
    using bs cw by (simp_all add: d_def)
  have s: "s = stage_airflow i d" unfolding s_def tick_front_def d_def c_def b_def a_def using cf
    by (simp add: c_def b_def a_def)
  show ?thesis
    unfolding s using stage_airflow_warm [of d i] dk ds assms(1)
    by (simp add: calm_def fault_stands_def a_def)
qed

text \<open>The armed window is acknowledged, and fire permitted, on the tick that releases a warm-up,
  although the run fans were only commanded in that very tick: no fan is judged during the warm-up
  hold, so the fans count as up, whatever their tachometers read.\<close>

theorem warmup_release_fires_early:
  assumes "calm i st" "phase st = Cool_Warmup" "flood_on st" "flood_in i st" "armed_in i st"
    and "read_temp i (water1 i) (tick_front i st) = Some d" "read_temp i (water2 i) (tick_front i st) = Some u"
    and "length (w_win (wu st)) \<ge> 60" "\<forall>x\<in>set (w_win (wu st)). x \<ge> w_gate (wu st)" "u \<ge> w_gate (wu st)"
    and "u \<le> e_max (lim (stage_silence i st))" "u \<ge> e_min (lim (stage_silence i st))"
    and "u < conf st ''cool_temp_critical_c''" "conf st ''cool_confirm_max_s'' \<ge> 0"
  shows "(let st' = engine_tick i st in
     phase st' = Cool_Run \<and> p_verdict (pub st') = ''OK'' \<and> p_fire_ok (pub st') \<and> p_armed_ack (pub st'))"
proof -
  define s where "s = tick_front i st"
  note f = front_in_warmup [OF assms(1-5), folded s_def]
  define a where "a = stage_floor (Some u) (stage_ceiling i (Some u) (stage_sensors i (Some d) (Some u) s))"
  have ns: "\<not> sensor_alarm s" "\<not> over_temp s" "\<not> cold s" "\<not> critical s"
    using f by (auto simp: fault_stands_def)
  have a1: "stage_sensors i (Some d) (Some u) s = s\<lparr>sensor_fail := 0\<rparr>" using ns by (simp add: stage_sensors_def)
  have a2: "stage_ceiling i (Some u) (s\<lparr>sensor_fail := 0\<rparr>) = s\<lparr>sensor_fail := 0\<rparr>"
    using ns assms(11) f by (cases "over_temp s") (auto simp: stage_ceiling_def Let_def)
  have a: "a = s\<lparr>sensor_fail := 0\<rparr>"
    using ns assms(12) f by (auto simp: a_def a1 a2 stage_floor_def Let_def gate_floor_trip_def)
  define win where "win = push_ring warmup_win_n u (w_win (wu st))"
  have lw: "length win = 60" using assms(8) by (simp add: win_def push_ring_def last_n_def warmup_win_n_def)
  have sw: "set win \<subseteq> insert u (set (w_win (wu st)))"
    by (auto simp: win_def push_ring_def last_n_def dest: in_set_dropD)
  have fm: "x \<ge> g \<Longrightarrow> (\<forall>y\<in>set ys. y \<ge> g) \<Longrightarrow> fold min ys x \<ge> g" for x g :: real and ys :: "real list"
    by (induction ys arbitrary: x) auto
  have bulk: "fold min win u \<ge> w_gate (wu st)"
    by (rule fm) (use assms(9,10) sw in auto)
  define w where "w = stage_warmup i (Some u) a"
  have w: "phase w = Cool_Run" "eff_armed w" "n_up (fan w)" "n_alarm (fan w) = n_alarm (fan s)" "wat w = wat s"
    "f_verdict (fl w) = Flow_Normal" "\<not> f_active (fl w)" "critical w = critical s" "sensor_alarm w = sensor_alarm s"
    "over_temp w = over_temp s" "cold w = cold s" "conf w = conf st" "length (f_hist (fl w)) = 0"
    using f bulk lw by (simp_all add: w_def a stage_warmup_def Let_def flip: win_def)
      (simp_all add: flow_request_def warmup_win_n_def Let_def)
  have cr: "stage_critical (Some u) w = w" using assms(13) w(12) by (simp add: stage_critical_def Let_def)
  define k where "k = tick_flow i (Some d) (Some u) w"
  have k: "wat k = wat w" "fan k = fan w" "phase k = Cool_Run" "eff_armed k" "critical k = critical w" "sensor_alarm k = sensor_alarm w"
    "over_temp k = over_temp w" "cold k = cold w"
    using w by (simp_all add: k_def tick_flow_def)
  have kv: "f_verdict (fl k) = Flow_Normal"
    using w(6,7) by (simp add: k_def tick_flow_def stage_settle_def stage_history_def stage_suspect_def stage_flow_def
        flow_check_start_def Let_def)
  have sc: "start_cool_end i k = k" using k by (simp add: start_cool_end_def)
  have cd: "stage_cooldown i (Some u) k = k" using k(3) by (simp add: stage_cooldown_def cooldown_step_def sc)
  define z where "z = stage_tec i (Some u) k"
  have bk: "tick_back i (Some d) (Some u) s = z"
    by (simp add: tick_back_def tick_coolant_def z_def flip: a_def w_def) (simp add: cr cd flip: k_def)
  have z: "\<not> fault_stands z" "f_verdict (fl z) = Flow_Normal" "eff_armed z" "n_up (fan z)" "phase z = Cool_Run"
    using f w k kv by (simp_all add: z_def fault_stands_def)
  have t: "engine_tick i st = stage_publish i (Some d) (Some u) z"
    using assms(1,6,7) bk by (simp add: engine_tick_def Let_def calm_def flip: s_def)
  have fr: "fresh_report i z" using assms(5) by (simp add: armed_in_def fresh_report_def z_def k_def tick_flow_def w_def a s_def)
  have "phase (stage_publish i (Some d) (Some u) z) = Cool_Run" using z by simp
  then show ?thesis
    unfolding t Let_def stage_publish_fields verdict_calm [OF z(1)]
    using z fr assms(1) by (simp add: fire_ok_of_def calm_def)
qed

definition warm_cool :: cool where
  "warm_cool = run_report True (cool_boot\<lparr>phase := Cool_Warmup, flood_on := True,
     wu := \<lparr>w_gate = 16, w_last_up = 20, w_progress_at = 50, w_stall_warned = False, w_win = replicate 60 20\<rparr>,
     wat := (wat cool_boot)\<lparr>x_hw_state := -1\<rparr>\<rparr>)"

lemma warm_cool_temp:
  "conf s = conf cool_boot \<Longrightarrow> read_temp calm_tin 210 s = Some 21"
  by (simp add: read_temp_def coolant_offset_counts_def calm_tin_def cool_boot_def tunables_def Let_def)

theorem warmup_release_fires_early_witness:
  "p_fire_ok (pub (engine_tick calm_tin warm_cool)) \<and> p_armed_ack (pub (engine_tick calm_tin warm_cool)) \<and>
   fan_reading calm_tin 0 = 0 \<and> conf warm_cool ''cool_tach_exhaust_min_rpm'' = 6400"
proof -
  let ?i = calm_tin and ?st = warm_cool
  have cl: "calm ?i ?st"
    by (simp add: calm_def calm_tin_def warm_cool_def run_report_def cool_boot_def fault_stands_def crash_reset_def
        ext_holds_read_def no_holds_def)
  have fl: "phase ?st = Cool_Warmup" "flood_on ?st" by (simp_all add: warm_cool_def run_report_def)
  have fr: "flood_in ?i ?st" "armed_in ?i ?st"
    by (simp_all add: flood_in_def armed_in_def fresh_report_def warm_cool_def run_report_def calm_tin_def report_timeout_s_def)
  have co: "conf ?st = conf cool_boot" by (simp add: warm_cool_def run_report_def)
  have "conf (tick_front ?i ?st) = conf cool_boot" using front_in_warmup [OF cl fl fr] co by simp
  note rt = warm_cool_temp [OF this]
  have w: "water1 ?i = 210" "water2 ?i = 210" by (simp_all add: calm_tin_def)
  have em: "e_max (lim (stage_silence ?i ?st)) = 33" "e_min (lim (stage_silence ?i ?st)) = 5"
    by (simp_all add: stage_silence_def silence_stand_down_def silence_stop_def limits_apply_def warm_cool_def run_report_def
        cool_boot_def gate_effective_def no_limits_def tunables_def fresh_report_def calm_tin_def report_timeout_s_def Let_def)
  have c3: "conf cool_boot ''cool_temp_critical_c'' = 38" "conf cool_boot ''cool_confirm_max_s'' = 480"
    "conf cool_boot ''cool_tach_exhaust_min_rpm'' = 6400"
    by (simp_all add: cool_boot_def tunables_def)
  have win: "length (w_win (wu ?st)) \<ge> 60" "\<forall>x\<in>set (w_win (wu ?st)). x \<ge> w_gate (wu ?st)" "(21::real) \<ge> w_gate (wu ?st)"
    by (simp_all add: warm_cool_def run_report_def)
  have "let st' = engine_tick ?i ?st in
     phase st' = Cool_Run \<and> p_verdict (pub st') = ''OK'' \<and> p_fire_ok (pub st') \<and> p_armed_ack (pub st')"
    by (rule warmup_release_fires_early [OF cl fl fr _ _ win]) (simp_all add: rt w em co c3)
  moreover have "fan_reading ?i 0 = 0" by (simp add: fan_reading_def calm_tin_def airflow_rpm_def)
  ultimately show ?thesis by (simp add: Let_def co c3)
qed

section \<open>Gates that are off and not reported\<close>

text \<open>A flow recheck that is turned off is never reported off: whatever the tunables, the gates the
  engine publishes as off do not name \<open>recheck\<close>, because its value is never looked up.\<close>

theorem recheck_never_off: "''recheck'' \<notin> set (gates_off (engine_gate_value c))"
  by (simp add: gates_off_def gate_table_def row_def gate_state_def engine_gate_value_def engine_gate_keys_def)

text \<open>A machine with every gate turned off publishes that none is: the sixteen names the engine would
  list do not fit the buffer of the status fragment, and a fragment that does not fit is published
  empty.\<close>

theorem all_off_published_none:
  assumes "\<forall>g\<in>set gate_table. gname g \<noteq> None \<longrightarrow> conf st (gkey g) = (if goff_end g < 0 then glo g else ghi g)"
  shows "length (gates_off (engine_gate_value (conf st))) = 16 \<and> p_gates_off (pub (gates_apply st)) = ''[]''"
proof -
  have names: "gates_off (engine_gate_value (conf st)) =
      [''coolant_max'', ''coolant_critical'', ''coolant_min'', ''warm_up'', ''flame_q1_alert'', ''flame_q1_critical'',
       ''flame_q2_alert'', ''flame_q2_critical'', ''crash_x_alert'', ''crash_y_alert'', ''crash_abort'', ''flow'',
       ''exhaust'', ''intake'', ''air_assist'', ''purge'']"
    using assms by (simp add: gates_off_def gate_table_def row_def gate_state_def engine_gate_value_def engine_gate_keys_def)
  have "gates_off_json gates_off_json_max (engine_gate_value (conf st)) = None"
    by (simp add: gates_off_json_def gates_off_json_max_def names Let_def put_def)
  then show ?thesis by (simp add: names gates_apply_def Let_def)
qed

theorem all_off_published_none_witness:
  "p_gates_off (pub (gates_apply (cool_boot\<lparr>conf := (\<lambda>k. case gate_setting_find (Some k) of
       Some g \<Rightarrow> if goff_end g < 0 then glo g else ghi g | None \<Rightarrow> 0)\<rparr>))) = ''[]''"
  by (rule conjunct2 [OF all_off_published_none])
     (simp add: gate_table_def row_def gate_setting_find_def)

end
