(* ===== verification/SuperState.thy ===== *)
theory SuperState
  imports Tokens
begin

text \<open>
  The controller supervisor (\<open>src/super.c\<close>), first part: its state, its writes to the kernel's
  attributes, the pulse-device broker, the report secret, the environment and the spawn of a
  controller, the reap, the waiting enclosure. The static variables of the file, all kept under
  one mutex, are the record \<open>sup\<close>; \<open>broker_held\<close> is \<open>broker_fd >= 0\<close>. What the kernel holds of
  the controllers is \<open>procs\<close>: a child is alive, or has exited with a status nobody has waited for
  yet. Writes, signals, spawns and the calls of other components are appended to \<open>sfx\<close>, in order.
  The log and the output relay are not modelled.
\<close>

section \<open>State\<close>

datatype ctl = Ctl_None | Ctl_Grbl | Ctl_Cloud

datatype seffect =
    SWr string string bool
  | SKill int string bool
  | SSpawn ctl "string list" "string list"
  | SUnlink string
  | SForget
  | SLed string
  | SLens_Clear
  | SLens_Run
  | SLamp
  | STakeover
  | SRunner string
  | SMove
  | SClose
  | SPersist string

datatype proc = Alive | Zombie int

record sup =
  want :: ctl
  suspended :: bool
  child_pid :: int
  child_ctl :: ctl
  spawned_at :: real
  backoff_s :: nat
  respawn_at :: real
  generation :: "32 word"
  local_posture :: bool
  gated :: bool
  gate_why :: string
  broker_held :: bool
  broker_warned :: bool
  probed :: bool
  probe_skipped :: bool
  motion_fault :: bool
  probing :: bool
  probe_abort :: bool
  standby_takeover :: bool
  enclosure_wait :: bool
  wait_why :: string
  runner_check :: bool
  respawn_wait_idle :: bool
  died_at :: real
  restart_pending :: bool
  lamp_pending :: bool
  probe_detail :: string
  report_secret :: string
  th_run :: bool
  procs :: "int \<Rightarrow> proc option"
  sfx :: "seffect list"

text \<open>
  What the world answers while a thread runs from one release of the mutex to the next: the clock,
  whether the write that is the \<open>n\<close>-th effect so far landed, and the answers of the kernel and of
  the other components the code asks there.
\<close>

record sworld =
  clock :: real
  a_wr :: "nat \<Rightarrow> bool"
  a_dev :: "string option"
  a_fd :: nat
  a_open :: "nat \<Rightarrow> bool"
  a_flock :: bool
  a_idle :: bool
  a_diag :: bool
  a_gate :: "bool \<times> string"
  a_enclosure :: "string option"
  a_random :: "u8 list"
  a_environ :: "string list"
  a_memory :: bool
  a_data_dir :: string
  a_bin :: string
  a_fork :: int
  a_released :: bool
  a_probe :: "int \<times> string"
  a_lens :: "int \<times> string"
  a_runner :: bool
  a_runner_after :: bool
  a_unmanaged :: bool
  a_cloud :: bool
  a_mode :: string
  a_lease :: "string option"
  a_persist :: bool
  a_age :: real

definition stop_term_wait_s :: real where "stop_term_wait_s = 5"
definition respawn_min_s :: nat where "respawn_min_s = 1"
definition respawn_max_s :: nat where "respawn_max_s = 30"
definition healthy_uptime_s :: real where "healthy_uptime_s = 60"
definition report_wait_s :: real where "report_wait_s = 15"
definition respawn_idle_wait_s :: real where "respawn_idle_wait_s = 10"
definition broker_retry_s :: real where "broker_retry_s = 2"
definition wr_attr_tries :: nat where "wr_attr_tries = 3"
definition report_secret_hex :: nat where "report_secret_hex = 32"

definition ctl_name :: "ctl \<Rightarrow> string" where
  "ctl_name c = (case c of Ctl_Grbl \<Rightarrow> ''grbl'' | Ctl_Cloud \<Rightarrow> ''cloud'' | Ctl_None \<Rightarrow> ''none'')"

definition put_fx :: "seffect list \<Rightarrow> sup \<Rightarrow> sup" where
  "put_fx es s = s\<lparr>sfx := sfx s @ es\<rparr>"

section \<open>The kernel's attributes\<close>

text \<open>A safing write that fails is tried again, three times in all.\<close>

fun wr_tries :: "sworld \<Rightarrow> nat \<Rightarrow> string \<Rightarrow> string \<Rightarrow> sup \<Rightarrow> sup" where
  "wr_tries w 0 attr val s = s"
| "wr_tries w (Suc n) attr val s =
     (let ok = a_wr w (length (sfx s)); s1 = put_fx [SWr attr val ok] s
      in if ok then s1 else wr_tries w n attr val s1)"

definition wr_attr :: "sworld \<Rightarrow> string \<Rightarrow> string \<Rightarrow> sup \<Rightarrow> sup" where
  "wr_attr w attr val s = wr_tries w wr_attr_tries attr val s"

definition safing :: "sworld \<Rightarrow> sup \<Rightarrow> sup" where
  "safing w s = wr_attr w ''cnc/laser_latch'' ''1'' (wr_attr w ''cnc/stop'' ''1'' s)"

section \<open>The broker\<close>

text \<open>
  One open of the pulse device for the daemon's lifetime, tried thirty times, then locked; a fresh
  hold means unverified motion and an unreferenced lens.
\<close>

definition broker_open_locked :: "sworld \<Rightarrow> sup \<Rightarrow> sup" where
  "broker_open_locked w s =
     (if broker_held s then s
      else if a_dev w = None then s\<lparr>broker_warned := True\<rparr>
      else if \<not> list_ex (a_open w) [0..<30] then s\<lparr>broker_warned := True\<rparr>
      else if \<not> a_flock w then s\<lparr>broker_warned := True\<rparr>
      else put_fx [SLens_Clear] (s\<lparr>broker_held := True, broker_warned := False, probed := False, probe_skipped := False\<rparr>))"

section \<open>The wait for the enclosure\<close>

definition wait_enter_locked :: "string \<Rightarrow> sup \<Rightarrow> sup" where
  "wait_enter_locked why s =
     (if enclosure_wait s \<and> why = wait_why s then s
      else put_fx [SLed ''blink-amber''] (s\<lparr>wait_why := fit 96 why, enclosure_wait := True, generation := generation s + 1\<rparr>))"

definition wait_leave_locked :: "sup \<Rightarrow> sup" where
  "wait_leave_locked s =
     (if \<not> enclosure_wait s then s
      else put_fx [SLed ''release''] (s\<lparr>enclosure_wait := False, wait_why := [], generation := generation s + 1\<rparr>))"

section \<open>The report secret\<close>

definition report_secret_new :: "sworld \<Rightarrow> sup \<Rightarrow> bool \<times> sup" where
  "report_secret_new w s =
     (if length (a_random w) = report_secret_hex div 2
      then (True, s\<lparr>report_secret := sha256_hex (a_random w)\<rparr>)
      else (False, s\<lparr>report_secret := []\<rparr>))"

definition report_secret_end :: "sup \<Rightarrow> sup" where
  "report_secret_end s = s\<lparr>report_secret := []\<rparr>"

text \<open>No early exit: the differences are or-ed together, a short text reads as zero bytes past its end.\<close>

definition byte_or_0 :: "string \<Rightarrow> nat \<Rightarrow> u8" where
  "byte_or_0 x i = (if i < length x then of_nat (byte (x ! i)) else 0)"

definition super_report_secret_ok :: "string option \<Rightarrow> sup \<Rightarrow> bool" where
  "super_report_secret_ok presented s =
     (let p = (case presented of None \<Rightarrow> [] | Some x \<Rightarrow> x);
          diff = fold (\<lambda>i d. d OR (byte_or_0 (report_secret s) i XOR byte_or_0 p i)) [0..<report_secret_hex] 0
      in report_secret s \<noteq> [] \<and> length p = report_secret_hex \<and> diff = 0)"

section \<open>The controller's environment and spawn\<close>

definition own_keys :: "string list" where
  "own_keys = [''GF_PULSE_FD='', ''GF_REPORT_SECRET='', ''GFSINK='']"

definition own_key :: "string \<Rightarrow> bool" where
  "own_key e \<longleftrightarrow> list_ex (\<lambda>k. starts_with k e) own_keys"

definition build_child_env :: "sworld \<Rightarrow> ctl \<Rightarrow> sup \<Rightarrow> string list option" where
  "build_child_env w c s =
     (if \<not> a_memory w then None
      else Some (filter (\<lambda>e. \<not> own_key e) (a_environ w) @
        (if broker_held s then [fit 32 (''GF_PULSE_FD='' @ show_nat (a_fd w))] else []) @
        (case a_dev w of
           Some dev \<Rightarrow> (if c = Ctl_Grbl then [fit 160 (''GFSINK='' @ dev)] else [])
         | None \<Rightarrow> []) @
        [''GF_REPORT_SECRET='' @ report_secret s]))"

definition spawn_argv :: "sworld \<Rightarrow> ctl \<Rightarrow> bool \<Rightarrow> string list" where
  "spawn_argv w c loopback =
     (let nvs = fit 256 (a_data_dir w @ ''/EEPROM-glowforge.DAT'') in
      if c = Ctl_Grbl
      then [a_bin w, ''-p'', ''23''] @ (if loopback then [''-b'', ''::1''] else []) @ [''-e'', nvs]
      else [a_bin w])"

definition spawn_locked :: "sworld \<Rightarrow> ctl \<Rightarrow> sup \<Rightarrow> sup" where
  "spawn_locked w c s0 =
     (let s1 = broker_open_locked w s0; r = report_secret_new w s1; s2 = snd r in
      if \<not> fst r then s2\<lparr>respawn_at := clock w + of_nat (backoff_s s2)\<rparr>
      else case build_child_env w c s2 of
        None \<Rightarrow> s2\<lparr>respawn_at := clock w + of_nat (backoff_s s2)\<rparr>
      | Some env \<Rightarrow>
          if a_fork w < 0 then s2\<lparr>respawn_at := clock w + of_nat (backoff_s s2)\<rparr>
          else put_fx [SSpawn c (spawn_argv w c (local_posture s2)) env]
                 (s2\<lparr>child_pid := a_fork w, child_ctl := c, spawned_at := clock w, generation := generation s2 + 1,
                     lamp_pending := True, procs := (procs s2)(a_fork w \<mapsto> Alive)\<rparr>))"

section \<open>The reap\<close>

text \<open>
  The safe posture on every transition out of a running child, then, if the death was unexpected,
  the respawn's backoff.
\<close>

definition reap_expected :: "sup \<Rightarrow> bool" where
  "reap_expected s \<longleftrightarrow> suspended s \<or> want s \<noteq> child_ctl s \<or> restart_pending s"

definition reap_safe :: "sworld \<Rightarrow> sup \<Rightarrow> sup" where
  "reap_safe w s0 =
     (let died = child_ctl s0;
          s1 = (report_secret_end s0)\<lparr>child_pid := 0, child_ctl := Ctl_None, generation := generation s0 + 1\<rparr>;
          s2 = put_fx [SUnlink ''/run/grblhal.homed'', SForget] (safing w s1)
      in s2\<lparr>runner_check := (died = Ctl_Grbl), respawn_wait_idle := True, died_at := clock w\<rparr>)"

definition reap_backoff :: "sworld \<Rightarrow> real \<Rightarrow> sup \<Rightarrow> sup" where
  "reap_backoff w up s =
     (let b = (if up \<ge> healthy_uptime_s then respawn_min_s else backoff_s s)
      in s\<lparr>respawn_at := clock w + of_nat b, backoff_s := (if b < respawn_max_s then b * 2 else b)\<rparr>)"

definition reap_locked :: "sworld \<Rightarrow> sup \<Rightarrow> sup" where
  "reap_locked w s =
     (if reap_expected s then reap_safe w s else reap_backoff w (clock w - spawned_at s) (reap_safe w s))"

section \<open>The signals of a stop\<close>

text \<open>The safing pair before the signal, and once more after it; then the reporter is forgotten.\<close>

definition stop_signal :: "sworld \<Rightarrow> sup \<Rightarrow> sup" where
  "stop_signal w s =
     put_fx [SForget] (safing w (put_fx [SKill (child_pid s) ''TERM'' True, SKill (child_pid s) ''TERM'' False] (safing w s)))"

definition stop_escalate :: "sworld \<Rightarrow> int \<Rightarrow> sup \<Rightarrow> sup" where
  "stop_escalate w pid s = safing w (put_fx [SKill pid ''KILL'' True, SKill pid ''KILL'' False] s)"

section \<open>Status\<close>

definition super_grbl_running :: "sup \<Rightarrow> bool" where
  "super_grbl_running s \<longleftrightarrow> child_pid s > 0 \<and> ctl_name (child_ctl s) = ''grbl''"

definition super_gated :: "nat \<Rightarrow> sup \<Rightarrow> bool \<times> string" where
  "super_gated len s = (gated s, fit len (gate_why s))"

definition controller_word :: "sup \<Rightarrow> string" where
  "controller_word s =
     (if child_pid s > 0 then ''running'' else if gated s then ''gated'' else if motion_fault s then ''motion-fault''
      else if enclosure_wait s then ''waiting'' else if suspended s then ''standby'' else ''stopped'')"

definition motion_word :: "sup \<Rightarrow> string" where
  "motion_word s =
     (if motion_fault s then ''fault'' else if probed s \<and> \<not> probe_skipped s then ''verified'' else ''unverified'')"

definition status_why :: "sup \<Rightarrow> string" where
  "status_why s =
     (if gated s then gate_why s else if enclosure_wait s then wait_why s
      else if motion_fault s \<or> probe_skipped s then probe_detail s else [])"

text \<open>The quotes and backslashes of the reason are escaped, in a buffer of 300 bytes.\<close>

fun esc_why :: "nat \<Rightarrow> string \<Rightarrow> string" where
  "esc_why room [] = []"
| "esc_why room (c # cs) =
     (if room < 3 then []
      else if c = dquote \<or> c = backslash then backslash # c # esc_why (room - 2) cs
      else c # esc_why (room - 1) cs)"

definition q_field :: "string \<Rightarrow> string \<Rightarrow> string" where
  "q_field k v = [dquote] @ k @ [dquote] @ '':'' @ v"

definition super_status_json :: "nat \<Rightarrow> sup \<Rightarrow> string" where
  "super_status_json len s =
     (let b = (\<lambda>x. if x then ''true'' else ''false''); str = (\<lambda>x. [dquote] @ x @ [dquote]) in
      fit len (''{'' @ q_field ''mode'' (str (ctl_name (want s))) @ '','' @
        q_field ''controller'' (str (controller_word s)) @ '','' @ q_field ''pid'' (show_int (child_pid s)) @ '','' @
        q_field ''motion'' (str (motion_word s)) @ '','' @ q_field ''gated'' (b (gated s)) @ '','' @
        q_field ''local'' (b (local_posture s)) @ '','' @ q_field ''why'' (str (esc_why 300 (status_why s))) @ ''}''))"

end
