(* ===== verification/SuperLoop.thy ===== *)
theory SuperLoop
  imports SuperState Lease
begin

text \<open>
  The supervisor's threads (\<open>src/super.c\<close>): the lifecycle thread, which reaps, respawns and stops,
  and the calls other threads make. All of them hold one mutex while they touch the state and let
  it go around everything slow, so a thread is modelled as a program counter, \<open>pc\<close>, and one step of
  a thread is what it does from one taking of the mutex to the next release. Thread 0 is the
  lifecycle thread; the others are callers. A query that is asked with the mutex free is answered
  by the step's world; \<open>waitpid\<close>, which changes what the kernel holds, is a step of its own.
\<close>

datatype wres = W_Status int | W_None | W_Echild

text \<open>Where a stop was asked for, and so what follows it.\<close>

datatype after_stop = K_Restart | K_Gate | K_Converge | K_Local | K_Shutdown

datatype probe_at = P_Start | P_Rung nat | P_Off nat real | P_On nat | P_Settle nat real | P_Move nat | P_End int

datatype pc =
    Idle
  | Wait_Child int | Waited_Child int wres
  | Stop_Test int real after_stop | Stop_Wait int real after_stop | Stop_Waited int real after_stop wres
  | Reap_Runner | Ask_Standby | Ask_Gate | Ask_Gated_Idle | Ask_Kernel | Ask_Enclosure
  | Probe bool probe_at
  | Stop_Poll real
  | Switch_Set ctl bool | Switch_Wait ctl real | Switch_Report ctl real real
  | Done int string
  | Gone

section \<open>Waiting for a child\<close>

definition waitpid :: "int \<Rightarrow> sup \<Rightarrow> wres \<times> sup" where
  "waitpid pid s =
     (case procs s pid of
        None \<Rightarrow> (W_Echild, s)
      | Some Alive \<Rightarrow> (W_None, s)
      | Some (Zombie st) \<Rightarrow> (W_Status st, s\<lparr>procs := (procs s)(pid := None)\<rparr>))"

definition reap_if :: "sworld \<Rightarrow> wres \<Rightarrow> sup \<Rightarrow> sup" where
  "reap_if w r s = (case r of W_Status st \<Rightarrow> reap_locked w s | _ \<Rightarrow> s)"

section \<open>A pass of the lifecycle thread\<close>

definition pass_end :: "sup \<Rightarrow> pc \<times> sup" where
  "pass_end s = (Idle, if lamp_pending s then put_fx [SLamp] (s\<lparr>lamp_pending := False\<rparr>) else s)"

text \<open>\<open>stop_locked\<close> up to its loop: nothing without a child.\<close>

definition begin_stop :: "sworld \<Rightarrow> after_stop \<Rightarrow> sup \<Rightarrow> pc \<times> sup" where
  "begin_stop w k s = (Stop_Wait (child_pid s) (clock w + stop_term_wait_s) k, stop_signal w s)"

definition may_spawn :: "sworld \<Rightarrow> sup \<Rightarrow> bool" where
  "may_spawn w s \<longleftrightarrow> child_pid s = 0 \<and> \<not> suspended s \<and> \<not> motion_fault s \<and> \<not> gated s \<and> want s \<noteq> Ctl_None \<and>
     clock w \<ge> respawn_at s"

text \<open>The broker, then the enclosure: asked with the mutex free.\<close>

definition go_broker :: "sworld \<Rightarrow> sup \<Rightarrow> pc \<times> sup" where
  "go_broker w s0 =
     (let s = broker_open_locked w s0 in
      if \<not> broker_held s then pass_end (s\<lparr>respawn_at := clock w + broker_retry_s\<rparr>) else (Ask_Enclosure, s))"

definition converge :: "sworld \<Rightarrow> sup \<Rightarrow> pc \<times> sup" where
  "converge w s =
     (if child_pid s > 0 \<and> (suspended s \<or> child_ctl s \<noteq> want s) then begin_stop w K_Converge s
      else if may_spawn w s then (if respawn_wait_idle s then (Ask_Kernel, s) else go_broker w s)
      else pass_end (wait_leave_locked s))"

text \<open>The kernel finishes what the dead controller queued, or is halted after ten seconds.\<close>

definition seg_kernel :: "sworld \<Rightarrow> sup \<Rightarrow> pc \<times> sup" where
  "seg_kernel w s =
     (if a_idle w then go_broker w (s\<lparr>respawn_wait_idle := False\<rparr>)
      else if clock w - died_at s < respawn_idle_wait_s then pass_end s
      else go_broker w ((wr_attr w ''cnc/halt'' ''1'' s)\<lparr>respawn_wait_idle := False\<rparr>))"

definition seg_enclosure :: "sworld \<Rightarrow> sup \<Rightarrow> pc \<times> sup" where
  "seg_enclosure w s =
     (case a_enclosure w of
        Some why \<Rightarrow> pass_end (wait_enter_locked why s)
      | None \<Rightarrow>
          if \<not> probed s
          then (Probe True P_Start, (wait_leave_locked s)\<lparr>probing := True, probe_abort := False\<rparr>)
          else pass_end (spawn_locked w (want (wait_leave_locked s)) (wait_leave_locked s)))"

definition go_gated :: "sworld \<Rightarrow> sup \<Rightarrow> pc \<times> sup" where
  "go_gated w s = (if child_pid s > 0 \<and> gated s then (Ask_Gated_Idle, s) else converge w s)"

definition seg_gated_idle :: "sworld \<Rightarrow> sup \<Rightarrow> pc \<times> sup" where
  "seg_gated_idle w s = (if a_idle w \<and> child_pid s > 0 then begin_stop w K_Gate s else converge w s)"

definition seg_gate :: "sworld \<Rightarrow> sup \<Rightarrow> pc \<times> sup" where
  "seg_gate w s =
     go_gated w (s\<lparr>gated := \<not> fst (a_gate w) \<and> \<not> local_posture s, gate_why := fit 256 (snd (a_gate w))\<rparr>)"

definition seg_standby :: "sworld \<Rightarrow> sup \<Rightarrow> pc \<times> sup" where
  "seg_standby w s =
     (Ask_Gate, if a_idle w \<and> \<not> a_diag w
                then (put_fx [STakeover] s)\<lparr>standby_takeover := False, suspended := False\<rparr> else s)"

definition go_standby :: "sup \<Rightarrow> pc \<times> sup" where
  "go_standby s =
     (if standby_takeover s \<and> child_pid s = 0 \<and> want s \<noteq> Ctl_None then (Ask_Standby, s) else (Ask_Gate, s))"

text \<open>\<open>runner_reap\<close>: the homing runner of the controller that left, ended before anything writes the ring.\<close>

definition seg_runner :: "sworld \<Rightarrow> sup \<Rightarrow> pc \<times> sup" where
  "seg_runner w s =
     go_standby (if \<not> a_runner w then s
                 else if a_runner_after w then put_fx [SRunner ''TERM'', SRunner ''KILL''] s
                 else put_fx [SRunner ''TERM''] s)"

definition go_runner :: "sup \<Rightarrow> pc \<times> sup" where
  "go_runner s = (if runner_check s then (Reap_Runner, s\<lparr>runner_check := False\<rparr>) else go_standby s)"

definition go_restart :: "sworld \<Rightarrow> sup \<Rightarrow> pc \<times> sup" where
  "go_restart w s =
     (if restart_pending s
      then (if child_pid s > 0 then begin_stop w K_Restart s
            else go_runner (s\<lparr>restart_pending := False, respawn_at := 0\<rparr>))
      else go_runner s)"

definition pass_begin :: "sworld \<Rightarrow> sup \<Rightarrow> pc \<times> sup" where
  "pass_begin w s = (if child_pid s > 0 then (Wait_Child (child_pid s), s) else go_restart w s)"

section \<open>The rest of a stop\<close>

definition stop_done :: "sworld \<Rightarrow> after_stop \<Rightarrow> sup \<Rightarrow> pc \<times> sup" where
  "stop_done w k s =
     (case k of
        K_Restart \<Rightarrow> go_runner (s\<lparr>restart_pending := False, respawn_at := 0\<rparr>)
      | K_Gate \<Rightarrow> converge w s
      | K_Converge \<Rightarrow> pass_end s
      | K_Local \<Rightarrow> (Done 0 [], s\<lparr>respawn_at := 0\<rparr>)
      | K_Shutdown \<Rightarrow> (Done 0 [], if broker_held s then put_fx [SClose] (s\<lparr>broker_held := False\<rparr>) else s))"

definition seg_stop_waited :: "sworld \<Rightarrow> int \<Rightarrow> real \<Rightarrow> after_stop \<Rightarrow> wres \<Rightarrow> sup \<Rightarrow> pc \<times> sup" where
  "seg_stop_waited w pid deadline k r s =
     (case r of
        W_Status st \<Rightarrow> stop_done w k (reap_locked w s)
      | W_Echild \<Rightarrow> stop_done w k s
      | W_None \<Rightarrow>
          if child_pid s \<noteq> pid then stop_done w k s
          else if clock w > deadline then (Stop_Test pid (clock w + stop_term_wait_s) k, stop_escalate w pid s)
          else (Stop_Test pid deadline k, s))"

section \<open>The motion probe\<close>

definition ladder_s :: "nat \<Rightarrow> real" where
  "ladder_s i = [0, 5, 15, 30] ! i"

text \<open>
  The ladder of the probe, with the mutex free except for the look at the abort. \<open>P_Start\<close> asks for
  the released motors; a rung above the first takes the rail off and waits; the rail comes on and
  settles a second; the move and the lens reference run; the end carries the outcome.
\<close>

definition probe_text :: "string \<Rightarrow> sup \<Rightarrow> sup" where
  "probe_text x s = s\<lparr>probe_detail := fit 96 x\<rparr>"

definition probe_aborted_end :: "sworld \<Rightarrow> sup \<Rightarrow> probe_at \<times> sup" where
  "probe_aborted_end w s = (P_End 4, probe_text ''motion probe ended by the stop lever'' (wr_attr w ''cnc/stop'' ''1'' s))"

definition probe_move :: "sworld \<Rightarrow> nat \<Rightarrow> sup \<Rightarrow> probe_at \<times> sup" where
  "probe_move w i s0 =
     (let rc = fst (a_probe w); s = probe_text (snd (a_probe w)) (put_fx [SMove] s0); lens = fit 80 (snd (a_lens w)) in
      if rc = -3 then (P_End 3, s)
      else if rc = 1
      then (if fst (a_lens w) = 0 then (P_End 0, probe_text (''lens: '' @ lens) (put_fx [SLens_Run] s))
            else (P_End 1, put_fx [SLens_Run] s))
      else if rc = -2 then (P_End 3, s)
      else if rc < 0 then (P_End 2, s)
      else if i + 1 < 4 then (P_Rung (i + 1), s)
      else (P_End 0, s))"

fun probe_step :: "sworld \<Rightarrow> probe_at \<Rightarrow> sup \<Rightarrow> probe_at \<times> sup" where
  "probe_step w P_Start s =
     (if a_released w then (P_End 2, probe_text ''the X and Y motors are released: nothing was moved'' s) else (P_Rung 0, s))"
| "probe_step w (P_Rung i) s =
     (if ladder_s i > 0 then (P_Off i (clock w + ladder_s i), wr_attr w ''cnc/disable'' ''1'' s) else (P_On i, s))"
| "probe_step w (P_Off i until) s =
     (if clock w \<ge> until then (P_On i, s) else if probe_abort s then probe_aborted_end w s else (P_Off i until, s))"
| "probe_step w (P_On i) s =
     (if probe_abort s then probe_aborted_end w s else (P_Settle i (clock w + 1), wr_attr w ''cnc/enable'' ''1'' s))"
| "probe_step w (P_Settle i until) s =
     (if clock w \<ge> until then (P_Move i, s) else if probe_abort s then probe_aborted_end w s else (P_Settle i until, s))"
| "probe_step w (P_Move i) s = probe_move w i s"
| "probe_step w (P_End rc) s = (P_End rc, s)"

text \<open>What a probe decides about motion: nothing when it must wait or the lever ended it.\<close>

definition probe_verdict :: "int \<Rightarrow> sup \<Rightarrow> sup" where
  "probe_verdict rc s = s\<lparr>probed := (rc \<noteq> 0), probe_skipped := (rc = 2), motion_fault := (rc = 0)\<rparr>"

definition pass_probe_end :: "sworld \<Rightarrow> int \<Rightarrow> sup \<Rightarrow> sup" where
  "pass_probe_end w rc s0 =
     (let s = s0\<lparr>probing := False\<rparr> in
      if rc = 3 then s\<lparr>respawn_at := clock w + 1\<rparr> else if rc \<noteq> 4 then probe_verdict rc s else s)"

definition call_probe_end :: "int \<Rightarrow> sup \<Rightarrow> sup" where
  "call_probe_end rc s0 =
     (let s = s0\<lparr>probing := False\<rparr> in if rc \<noteq> 3 \<and> rc \<noteq> 4 then probe_verdict rc s else s)"

definition seg_probe :: "sworld \<Rightarrow> bool \<Rightarrow> probe_at \<Rightarrow> sup \<Rightarrow> pc \<times> sup" where
  "seg_probe w pass p s =
     (case p of
        P_End rc \<Rightarrow> if pass then pass_end (pass_probe_end w rc s) else (Done rc (probe_detail s), call_probe_end rc s)
      | _ \<Rightarrow> (let r = probe_step w p s in (Probe pass (fst r), snd r)))"

section \<open>The calls of other threads\<close>

datatype call =
    C_Stop
  | C_Start
  | C_Restart
  | C_Mode string "string option"
  | C_Probe
  | C_Local bool
  | C_Shutdown

text \<open>\<open>super_controller_stop\<close>: supervision suspended, a probe in flight told to end, then the wait.\<close>

definition stop_poll :: "sworld \<Rightarrow> real \<Rightarrow> sup \<Rightarrow> pc \<times> sup" where
  "stop_poll w deadline s =
     (if child_pid s = 0 \<and> \<not> probing s then (Done 0 [], s)
      else if clock w > deadline then (Done (-1) [], s\<lparr>suspended := False\<rparr>)
      else (Stop_Poll deadline, s))"

definition super_controller_stop :: "sworld \<Rightarrow> sup \<Rightarrow> pc \<times> sup" where
  "super_controller_stop w s0 =
     (let s = s0\<lparr>suspended := True\<rparr>
      in stop_poll w (clock w + 15) (if probing s then wr_attr w ''cnc/stop'' ''1'' (s\<lparr>probe_abort := True\<rparr>) else s))"

definition super_controller_start :: "sup \<Rightarrow> sup" where
  "super_controller_start s = s\<lparr>suspended := False, motion_fault := False, respawn_at := 0, backoff_s := respawn_min_s\<rparr>"

definition super_controller_restart :: "sup \<Rightarrow> sup" where
  "super_controller_restart s = s\<lparr>restart_pending := True\<rparr>"

text \<open>\<open>super_mode_switch\<close>: the refusals, in their order; then the switch and its two waits.\<close>

definition switch_refusal :: "sworld \<Rightarrow> string \<Rightarrow> string option \<Rightarrow> lease \<Rightarrow> sup \<Rightarrow> string option" where
  "switch_refusal w mode own le s =
     (if mode \<noteq> ''grbl'' \<and> mode \<noteq> ''cloud'' then Some ''mode must be grbl or cloud''
      else if mode = ''cloud'' \<and> \<not> a_cloud w then Some ''cloud mode is not enabled on this machine''
      else if \<not> fst (a_gate w) \<and> \<not> local_posture s then Some (''controllers are gated: '' @ fit 256 (snd (a_gate w)))
      else case lease_refusal_for own le of
        Some why \<Rightarrow> Some why
      | None \<Rightarrow>
          if \<not> a_idle w then Some ''machine is not idle''
          else if mode = ''cloud'' \<and> a_released w then Some ''the X and Y motors are released: energize them first''
          else None)"

definition switch_target :: "string \<Rightarrow> ctl" where
  "switch_target mode = (if mode = ''grbl'' then Ctl_Grbl else Ctl_Cloud)"

definition super_mode_switch :: "sworld \<Rightarrow> string \<Rightarrow> string option \<Rightarrow> lease \<Rightarrow> sup \<Rightarrow> pc \<times> sup" where
  "super_mode_switch w mode own le s =
     (case switch_refusal w mode own le s of
        Some why \<Rightarrow> (Done (-1) why, s)
      | None \<Rightarrow> (Switch_Set (switch_target mode) (suspended s \<and> a_unmanaged w), s))"

definition switch_wait :: "sworld \<Rightarrow> ctl \<Rightarrow> real \<Rightarrow> sup \<Rightarrow> pc \<times> sup" where
  "switch_wait w target deadline s =
     (if child_pid s > 0 \<and> child_ctl s = target then (Switch_Report target (clock w + report_wait_s) (spawned_at s), s)
      else if enclosure_wait s then (Done 0 [], s)
      else if clock w > deadline then (Done (-1) ''controller did not start'', s)
      else (Switch_Wait target deadline, s))"

definition switch_set :: "sworld \<Rightarrow> ctl \<Rightarrow> bool \<Rightarrow> sup \<Rightarrow> pc \<times> sup" where
  "switch_set w target takeover s0 =
     (let s = (if takeover then put_fx [STakeover] s0 else s0) in
      if \<not> a_persist w then (Done (-1) ''cannot persist controller_mode'', s)
      else switch_wait w target (clock w + 90)
             (put_fx [SPersist (ctl_name target)]
                (s\<lparr>want := target, suspended := False, standby_takeover := False, motion_fault := False\<rparr>)))"

definition switch_report :: "sworld \<Rightarrow> ctl \<Rightarrow> real \<Rightarrow> real \<Rightarrow> sup \<Rightarrow> pc \<times> sup" where
  "switch_report w target deadline t_spawn s =
     (if clock w \<ge> deadline then (Done 0 [], s)
      else if a_age w \<ge> 0 \<and> a_age w < clock w - t_spawn then (Done 0 [], s)
      else if child_pid s = 0 \<or> child_ctl s \<noteq> target
      then (Done (-1) (ctl_name target @ '' controller keeps exiting - check its log''), s)
      else (Switch_Report target deadline t_spawn, s))"

text \<open>\<open>super_probe_motion\<close>, \<open>super_set_local\<close> and \<open>super_shutdown\<close>.\<close>

definition super_probe_motion :: "sworld \<Rightarrow> sup \<Rightarrow> pc \<times> sup" where
  "super_probe_motion w s0 =
     (if child_pid s0 > 0 then (Done 2 ''a controller is running'', s0)
      else if probing s0 then (Done 2 ''a motion probe is already running'', s0)
      else let s = broker_open_locked w s0 in
        if \<not> broker_held s then (Done 2 ''the pulse device is not held'', s)
        else (Probe False P_Start, s\<lparr>probing := True, probe_abort := False\<rparr>))"

definition super_set_local :: "sworld \<Rightarrow> bool \<Rightarrow> sup \<Rightarrow> pc \<times> sup" where
  "super_set_local w on s0 =
     (let s = s0\<lparr>local_posture := on\<rparr> in
      if local_posture s0 \<noteq> on \<and> child_pid s > 0 \<and> child_ctl s = Ctl_Grbl then begin_stop w K_Local s else (Done 0 [], s))"

definition super_shutdown :: "sworld \<Rightarrow> sup \<Rightarrow> pc \<times> sup" where
  "super_shutdown w s0 =
     (let s = wait_leave_locked (s0\<lparr>th_run := False, suspended := True\<rparr>) in
      if child_pid s > 0 \<and> a_idle w then begin_stop w K_Shutdown s else stop_done w K_Shutdown s)"

fun begin_call :: "sworld \<Rightarrow> lease \<Rightarrow> call \<Rightarrow> sup \<Rightarrow> pc \<times> sup" where
  "begin_call w le C_Stop s = super_controller_stop w s"
| "begin_call w le C_Start s = (Done 0 [], super_controller_start s)"
| "begin_call w le C_Restart s = (Done 0 [], super_controller_restart s)"
| "begin_call w le (C_Mode m own) s = super_mode_switch w m own le s"
| "begin_call w le C_Probe s = super_probe_motion w s"
| "begin_call w le (C_Local on) s = super_set_local w on s"
| "begin_call w le C_Shutdown s = super_shutdown w s"

section \<open>The threads together\<close>

fun thread_step :: "sworld \<Rightarrow> pc \<Rightarrow> sup \<Rightarrow> pc \<times> sup" where
  "thread_step w Idle s = (if th_run s then pass_begin w s else (Gone, s))"
| "thread_step w (Wait_Child pid) s = (let r = waitpid pid s in (Waited_Child pid (fst r), snd r))"
| "thread_step w (Waited_Child pid r) s = go_restart w (reap_if w r s)"
| "thread_step w (Stop_Test pid dl k) s = (if child_pid s = pid then (Stop_Wait pid dl k, s) else stop_done w k s)"
| "thread_step w (Stop_Wait pid dl k) s = (let r = waitpid pid s in (Stop_Waited pid dl k (fst r), snd r))"
| "thread_step w (Stop_Waited pid dl k r) s = seg_stop_waited w pid dl k r s"
| "thread_step w Reap_Runner s = seg_runner w s"
| "thread_step w Ask_Standby s = seg_standby w s"
| "thread_step w Ask_Gate s = seg_gate w s"
| "thread_step w Ask_Gated_Idle s = seg_gated_idle w s"
| "thread_step w Ask_Kernel s = seg_kernel w s"
| "thread_step w Ask_Enclosure s = seg_enclosure w s"
| "thread_step w (Probe pass p) s = seg_probe w pass p s"
| "thread_step w (Stop_Poll dl) s = stop_poll w dl s"
| "thread_step w (Switch_Set c tk) s = switch_set w c tk s"
| "thread_step w (Switch_Wait c dl) s = switch_wait w c dl s"
| "thread_step w (Switch_Report c dl t) s = switch_report w c dl t s"
| "thread_step w (Done r x) s = (Done r x, s)"
| "thread_step w Gone s = (Gone, s)"

record sys =
  shared :: sup
  pcs :: "nat \<Rightarrow> pc"

datatype act = Thread nat sworld | Call nat call lease sworld | Exits int int

definition set_thread :: "nat \<Rightarrow> pc \<times> sup \<Rightarrow> sys \<Rightarrow> sys" where
  "set_thread n r y = y\<lparr>shared := snd r, pcs := (pcs y)(n := fst r)\<rparr>"

definition free_caller :: "pc \<Rightarrow> bool" where
  "free_caller p = (case p of Idle \<Rightarrow> True | Done r x \<Rightarrow> True | _ \<Rightarrow> False)"

text \<open>A thread runs on, a caller that is free makes a call, or a controller exits. A caller that is
  idle has nothing to run; only thread 0 is the lifecycle thread.\<close>

fun act_step :: "act \<Rightarrow> sys \<Rightarrow> sys" where
  "act_step (Thread n w) y =
     (if n > 0 \<and> pcs y n = Idle then y else set_thread n (thread_step w (pcs y n) (shared y)) y)"
| "act_step (Call n c le w) y =
     (if n > 0 \<and> free_caller (pcs y n) then set_thread n (begin_call w le c (shared y)) y else y)"
| "act_step (Exits pid st) y =
     (case procs (shared y) pid of
        Some Alive \<Rightarrow> y\<lparr>shared := (shared y)\<lparr>procs := (procs (shared y))(pid \<mapsto> Zombie st)\<rparr>\<rparr>
      | _ \<Rightarrow> y)"

text \<open>The kernel's word on \<open>fork\<close>: it fails, or the pid is above zero and not one still held.\<close>

definition fork_ok :: "sworld \<Rightarrow> sup \<Rightarrow> bool" where
  "fork_ok w s \<longleftrightarrow> a_fork w < 0 \<or> (a_fork w > 0 \<and> procs s (a_fork w) = None)"

fun act_ok :: "act \<Rightarrow> sys \<Rightarrow> bool" where
  "act_ok (Thread n w) y = fork_ok w (shared y)"
| "act_ok (Call n c le w) y = True"
| "act_ok (Exits pid st) y = True"

definition configured_mode :: "sworld \<Rightarrow> ctl" where
  "configured_mode w = (if a_mode w = ''cloud'' \<and> a_cloud w then Ctl_Cloud else Ctl_Grbl)"

definition sup_boot :: sup where
  "sup_boot =
     \<lparr>want = Ctl_None, suspended = False, child_pid = 0, child_ctl = Ctl_None, spawned_at = 0,
      backoff_s = respawn_min_s, respawn_at = 0, generation = 0, local_posture = False, gated = False, gate_why = [],
      broker_held = False, broker_warned = False, probed = False, probe_skipped = False, motion_fault = False,
      probing = False, probe_abort = False, standby_takeover = False, enclosure_wait = False, wait_why = [],
      runner_check = False, respawn_wait_idle = False, died_at = 0, restart_pending = False, lamp_pending = False,
      probe_detail = [], report_secret = [], th_run = False, procs = (\<lambda>_. None), sfx = []\<rparr>"

definition super_init :: "sworld \<Rightarrow> sys" where
  "super_init w =
     \<lparr>shared = sup_boot\<lparr>want := configured_mode w, suspended := a_unmanaged w, standby_takeover := a_unmanaged w,
                        th_run := True\<rparr>,
      pcs = (\<lambda>_. Idle)\<rparr>"

text \<open>Every state the daemon can be in: any interleaving of the threads, the calls and the exits.\<close>

inductive reach :: "sys \<Rightarrow> bool" where
  reach_init: "reach (super_init w)"
| reach_step: "reach y \<Longrightarrow> act_ok a y \<Longrightarrow> reach (act_step a y)"

inductive_cases reach_cases: "reach y"

end
