(* ===== verification/SuperFrame.thy ===== *)
theory SuperFrame
  imports SuperLoop
begin

text \<open>
  What the supervisor's operations leave alone: one rewrite rule per operation and untouched field.
\<close>

lemma put_fx_sel [simp]:
  "want (put_fx es s) = want s"
  "suspended (put_fx es s) = suspended s"
  "child_pid (put_fx es s) = child_pid s"
  "child_ctl (put_fx es s) = child_ctl s"
  "spawned_at (put_fx es s) = spawned_at s"
  "backoff_s (put_fx es s) = backoff_s s"
  "respawn_at (put_fx es s) = respawn_at s"
  "generation (put_fx es s) = generation s"
  "local_posture (put_fx es s) = local_posture s"
  "gated (put_fx es s) = gated s"
  "gate_why (put_fx es s) = gate_why s"
  "broker_held (put_fx es s) = broker_held s"
  "broker_warned (put_fx es s) = broker_warned s"
  "probed (put_fx es s) = probed s"
  "probe_skipped (put_fx es s) = probe_skipped s"
  "motion_fault (put_fx es s) = motion_fault s"
  "probing (put_fx es s) = probing s"
  "probe_abort (put_fx es s) = probe_abort s"
  "standby_takeover (put_fx es s) = standby_takeover s"
  "enclosure_wait (put_fx es s) = enclosure_wait s"
  "wait_why (put_fx es s) = wait_why s"
  "runner_check (put_fx es s) = runner_check s"
  "respawn_wait_idle (put_fx es s) = respawn_wait_idle s"
  "died_at (put_fx es s) = died_at s"
  "restart_pending (put_fx es s) = restart_pending s"
  "lamp_pending (put_fx es s) = lamp_pending s"
  "probe_detail (put_fx es s) = probe_detail s"
  "report_secret (put_fx es s) = report_secret s"
  "th_run (put_fx es s) = th_run s"
  "procs (put_fx es s) = procs s"
  by (simp_all add: put_fx_def)

lemma put_fx_sfx [simp]: "sfx (put_fx es s) = sfx s @ es"
  by (simp add: put_fx_def)

text \<open>A write to an attribute is some effects and nothing else.\<close>

lemma wr_tries_fx: "\<exists>es. wr_tries w n attr val s = put_fx es s"
proof (induction n arbitrary: s)
  case 0
  then show ?case by (auto simp: put_fx_def intro!: exI [of _ "[]"])
next
  case (Suc n)
  show ?case
  proof (cases "a_wr w (length (sfx s))")
    case True
    then show ?thesis by auto
  next
    case False
    obtain es where "wr_tries w n attr val (put_fx [SWr attr val False] s) = put_fx es (put_fx [SWr attr val False] s)"
      using Suc.IH by blast
    with False have "wr_tries w (Suc n) attr val s = put_fx ([SWr attr val False] @ es) s"
      by (simp add: put_fx_def)
    then show ?thesis by blast
  qed
qed

lemma wr_attr_fx: "\<exists>es. wr_attr w attr val s = put_fx es s"
  by (simp add: wr_attr_def wr_tries_fx)

lemma wr_attr_sel [simp]:
  "want (wr_attr w attr val s) = want s"
  "suspended (wr_attr w attr val s) = suspended s"
  "child_pid (wr_attr w attr val s) = child_pid s"
  "child_ctl (wr_attr w attr val s) = child_ctl s"
  "spawned_at (wr_attr w attr val s) = spawned_at s"
  "backoff_s (wr_attr w attr val s) = backoff_s s"
  "respawn_at (wr_attr w attr val s) = respawn_at s"
  "generation (wr_attr w attr val s) = generation s"
  "local_posture (wr_attr w attr val s) = local_posture s"
  "gated (wr_attr w attr val s) = gated s"
  "gate_why (wr_attr w attr val s) = gate_why s"
  "broker_held (wr_attr w attr val s) = broker_held s"
  "broker_warned (wr_attr w attr val s) = broker_warned s"
  "probed (wr_attr w attr val s) = probed s"
  "probe_skipped (wr_attr w attr val s) = probe_skipped s"
  "motion_fault (wr_attr w attr val s) = motion_fault s"
  "probing (wr_attr w attr val s) = probing s"
  "probe_abort (wr_attr w attr val s) = probe_abort s"
  "standby_takeover (wr_attr w attr val s) = standby_takeover s"
  "enclosure_wait (wr_attr w attr val s) = enclosure_wait s"
  "wait_why (wr_attr w attr val s) = wait_why s"
  "runner_check (wr_attr w attr val s) = runner_check s"
  "respawn_wait_idle (wr_attr w attr val s) = respawn_wait_idle s"
  "died_at (wr_attr w attr val s) = died_at s"
  "restart_pending (wr_attr w attr val s) = restart_pending s"
  "lamp_pending (wr_attr w attr val s) = lamp_pending s"
  "probe_detail (wr_attr w attr val s) = probe_detail s"
  "report_secret (wr_attr w attr val s) = report_secret s"
  "th_run (wr_attr w attr val s) = th_run s"
  "procs (wr_attr w attr val s) = procs s"
  using wr_attr_fx [of w attr val s] by auto

lemma safing_sel [simp]:
  "want (safing w s) = want s"
  "suspended (safing w s) = suspended s"
  "child_pid (safing w s) = child_pid s"
  "child_ctl (safing w s) = child_ctl s"
  "spawned_at (safing w s) = spawned_at s"
  "backoff_s (safing w s) = backoff_s s"
  "respawn_at (safing w s) = respawn_at s"
  "generation (safing w s) = generation s"
  "local_posture (safing w s) = local_posture s"
  "gated (safing w s) = gated s"
  "gate_why (safing w s) = gate_why s"
  "broker_held (safing w s) = broker_held s"
  "broker_warned (safing w s) = broker_warned s"
  "probed (safing w s) = probed s"
  "probe_skipped (safing w s) = probe_skipped s"
  "motion_fault (safing w s) = motion_fault s"
  "probing (safing w s) = probing s"
  "probe_abort (safing w s) = probe_abort s"
  "standby_takeover (safing w s) = standby_takeover s"
  "enclosure_wait (safing w s) = enclosure_wait s"
  "wait_why (safing w s) = wait_why s"
  "runner_check (safing w s) = runner_check s"
  "respawn_wait_idle (safing w s) = respawn_wait_idle s"
  "died_at (safing w s) = died_at s"
  "restart_pending (safing w s) = restart_pending s"
  "lamp_pending (safing w s) = lamp_pending s"
  "probe_detail (safing w s) = probe_detail s"
  "report_secret (safing w s) = report_secret s"
  "th_run (safing w s) = th_run s"
  "procs (safing w s) = procs s"
  by (simp_all add: safing_def)

lemma broker_open_sel [simp]:
  "want (broker_open_locked w s) = want s"
  "suspended (broker_open_locked w s) = suspended s"
  "child_pid (broker_open_locked w s) = child_pid s"
  "child_ctl (broker_open_locked w s) = child_ctl s"
  "spawned_at (broker_open_locked w s) = spawned_at s"
  "backoff_s (broker_open_locked w s) = backoff_s s"
  "respawn_at (broker_open_locked w s) = respawn_at s"
  "generation (broker_open_locked w s) = generation s"
  "local_posture (broker_open_locked w s) = local_posture s"
  "gated (broker_open_locked w s) = gated s"
  "gate_why (broker_open_locked w s) = gate_why s"
  "motion_fault (broker_open_locked w s) = motion_fault s"
  "probing (broker_open_locked w s) = probing s"
  "probe_abort (broker_open_locked w s) = probe_abort s"
  "standby_takeover (broker_open_locked w s) = standby_takeover s"
  "enclosure_wait (broker_open_locked w s) = enclosure_wait s"
  "wait_why (broker_open_locked w s) = wait_why s"
  "runner_check (broker_open_locked w s) = runner_check s"
  "respawn_wait_idle (broker_open_locked w s) = respawn_wait_idle s"
  "died_at (broker_open_locked w s) = died_at s"
  "restart_pending (broker_open_locked w s) = restart_pending s"
  "lamp_pending (broker_open_locked w s) = lamp_pending s"
  "probe_detail (broker_open_locked w s) = probe_detail s"
  "report_secret (broker_open_locked w s) = report_secret s"
  "th_run (broker_open_locked w s) = th_run s"
  "procs (broker_open_locked w s) = procs s"
  by (simp_all add: broker_open_locked_def)

lemma wait_enter_sel [simp]:
  "want (wait_enter_locked why s) = want s"
  "suspended (wait_enter_locked why s) = suspended s"
  "child_pid (wait_enter_locked why s) = child_pid s"
  "child_ctl (wait_enter_locked why s) = child_ctl s"
  "spawned_at (wait_enter_locked why s) = spawned_at s"
  "backoff_s (wait_enter_locked why s) = backoff_s s"
  "respawn_at (wait_enter_locked why s) = respawn_at s"
  "local_posture (wait_enter_locked why s) = local_posture s"
  "gated (wait_enter_locked why s) = gated s"
  "gate_why (wait_enter_locked why s) = gate_why s"
  "broker_held (wait_enter_locked why s) = broker_held s"
  "broker_warned (wait_enter_locked why s) = broker_warned s"
  "probed (wait_enter_locked why s) = probed s"
  "probe_skipped (wait_enter_locked why s) = probe_skipped s"
  "motion_fault (wait_enter_locked why s) = motion_fault s"
  "probing (wait_enter_locked why s) = probing s"
  "probe_abort (wait_enter_locked why s) = probe_abort s"
  "standby_takeover (wait_enter_locked why s) = standby_takeover s"
  "runner_check (wait_enter_locked why s) = runner_check s"
  "respawn_wait_idle (wait_enter_locked why s) = respawn_wait_idle s"
  "died_at (wait_enter_locked why s) = died_at s"
  "restart_pending (wait_enter_locked why s) = restart_pending s"
  "lamp_pending (wait_enter_locked why s) = lamp_pending s"
  "probe_detail (wait_enter_locked why s) = probe_detail s"
  "report_secret (wait_enter_locked why s) = report_secret s"
  "th_run (wait_enter_locked why s) = th_run s"
  "procs (wait_enter_locked why s) = procs s"
  by (simp_all add: wait_enter_locked_def)

lemma wait_leave_sel [simp]:
  "want (wait_leave_locked s) = want s"
  "suspended (wait_leave_locked s) = suspended s"
  "child_pid (wait_leave_locked s) = child_pid s"
  "child_ctl (wait_leave_locked s) = child_ctl s"
  "spawned_at (wait_leave_locked s) = spawned_at s"
  "backoff_s (wait_leave_locked s) = backoff_s s"
  "respawn_at (wait_leave_locked s) = respawn_at s"
  "local_posture (wait_leave_locked s) = local_posture s"
  "gated (wait_leave_locked s) = gated s"
  "gate_why (wait_leave_locked s) = gate_why s"
  "broker_held (wait_leave_locked s) = broker_held s"
  "broker_warned (wait_leave_locked s) = broker_warned s"
  "probed (wait_leave_locked s) = probed s"
  "probe_skipped (wait_leave_locked s) = probe_skipped s"
  "motion_fault (wait_leave_locked s) = motion_fault s"
  "probing (wait_leave_locked s) = probing s"
  "probe_abort (wait_leave_locked s) = probe_abort s"
  "standby_takeover (wait_leave_locked s) = standby_takeover s"
  "runner_check (wait_leave_locked s) = runner_check s"
  "respawn_wait_idle (wait_leave_locked s) = respawn_wait_idle s"
  "died_at (wait_leave_locked s) = died_at s"
  "restart_pending (wait_leave_locked s) = restart_pending s"
  "lamp_pending (wait_leave_locked s) = lamp_pending s"
  "probe_detail (wait_leave_locked s) = probe_detail s"
  "report_secret (wait_leave_locked s) = report_secret s"
  "th_run (wait_leave_locked s) = th_run s"
  "procs (wait_leave_locked s) = procs s"
  by (simp_all add: wait_leave_locked_def)

lemma secret_new_sel [simp]:
  "want (snd (report_secret_new w s)) = want s"
  "suspended (snd (report_secret_new w s)) = suspended s"
  "child_pid (snd (report_secret_new w s)) = child_pid s"
  "child_ctl (snd (report_secret_new w s)) = child_ctl s"
  "spawned_at (snd (report_secret_new w s)) = spawned_at s"
  "backoff_s (snd (report_secret_new w s)) = backoff_s s"
  "respawn_at (snd (report_secret_new w s)) = respawn_at s"
  "generation (snd (report_secret_new w s)) = generation s"
  "local_posture (snd (report_secret_new w s)) = local_posture s"
  "gated (snd (report_secret_new w s)) = gated s"
  "gate_why (snd (report_secret_new w s)) = gate_why s"
  "broker_held (snd (report_secret_new w s)) = broker_held s"
  "broker_warned (snd (report_secret_new w s)) = broker_warned s"
  "probed (snd (report_secret_new w s)) = probed s"
  "probe_skipped (snd (report_secret_new w s)) = probe_skipped s"
  "motion_fault (snd (report_secret_new w s)) = motion_fault s"
  "probing (snd (report_secret_new w s)) = probing s"
  "probe_abort (snd (report_secret_new w s)) = probe_abort s"
  "standby_takeover (snd (report_secret_new w s)) = standby_takeover s"
  "enclosure_wait (snd (report_secret_new w s)) = enclosure_wait s"
  "wait_why (snd (report_secret_new w s)) = wait_why s"
  "runner_check (snd (report_secret_new w s)) = runner_check s"
  "respawn_wait_idle (snd (report_secret_new w s)) = respawn_wait_idle s"
  "died_at (snd (report_secret_new w s)) = died_at s"
  "restart_pending (snd (report_secret_new w s)) = restart_pending s"
  "lamp_pending (snd (report_secret_new w s)) = lamp_pending s"
  "probe_detail (snd (report_secret_new w s)) = probe_detail s"
  "th_run (snd (report_secret_new w s)) = th_run s"
  "procs (snd (report_secret_new w s)) = procs s"
  "sfx (snd (report_secret_new w s)) = sfx s"
  by (simp_all add: report_secret_new_def)

lemma secret_end_sel [simp]:
  "want (report_secret_end s) = want s"
  "suspended (report_secret_end s) = suspended s"
  "child_pid (report_secret_end s) = child_pid s"
  "child_ctl (report_secret_end s) = child_ctl s"
  "spawned_at (report_secret_end s) = spawned_at s"
  "backoff_s (report_secret_end s) = backoff_s s"
  "respawn_at (report_secret_end s) = respawn_at s"
  "generation (report_secret_end s) = generation s"
  "local_posture (report_secret_end s) = local_posture s"
  "gated (report_secret_end s) = gated s"
  "gate_why (report_secret_end s) = gate_why s"
  "broker_held (report_secret_end s) = broker_held s"
  "broker_warned (report_secret_end s) = broker_warned s"
  "probed (report_secret_end s) = probed s"
  "probe_skipped (report_secret_end s) = probe_skipped s"
  "motion_fault (report_secret_end s) = motion_fault s"
  "probing (report_secret_end s) = probing s"
  "probe_abort (report_secret_end s) = probe_abort s"
  "standby_takeover (report_secret_end s) = standby_takeover s"
  "enclosure_wait (report_secret_end s) = enclosure_wait s"
  "wait_why (report_secret_end s) = wait_why s"
  "runner_check (report_secret_end s) = runner_check s"
  "respawn_wait_idle (report_secret_end s) = respawn_wait_idle s"
  "died_at (report_secret_end s) = died_at s"
  "restart_pending (report_secret_end s) = restart_pending s"
  "lamp_pending (report_secret_end s) = lamp_pending s"
  "probe_detail (report_secret_end s) = probe_detail s"
  "th_run (report_secret_end s) = th_run s"
  "procs (report_secret_end s) = procs s"
  "sfx (report_secret_end s) = sfx s"
  by (simp_all add: report_secret_end_def)

lemma stop_signal_sel [simp]:
  "want (stop_signal w s) = want s"
  "suspended (stop_signal w s) = suspended s"
  "child_pid (stop_signal w s) = child_pid s"
  "child_ctl (stop_signal w s) = child_ctl s"
  "spawned_at (stop_signal w s) = spawned_at s"
  "backoff_s (stop_signal w s) = backoff_s s"
  "respawn_at (stop_signal w s) = respawn_at s"
  "generation (stop_signal w s) = generation s"
  "local_posture (stop_signal w s) = local_posture s"
  "gated (stop_signal w s) = gated s"
  "gate_why (stop_signal w s) = gate_why s"
  "broker_held (stop_signal w s) = broker_held s"
  "broker_warned (stop_signal w s) = broker_warned s"
  "probed (stop_signal w s) = probed s"
  "probe_skipped (stop_signal w s) = probe_skipped s"
  "motion_fault (stop_signal w s) = motion_fault s"
  "probing (stop_signal w s) = probing s"
  "probe_abort (stop_signal w s) = probe_abort s"
  "standby_takeover (stop_signal w s) = standby_takeover s"
  "enclosure_wait (stop_signal w s) = enclosure_wait s"
  "wait_why (stop_signal w s) = wait_why s"
  "runner_check (stop_signal w s) = runner_check s"
  "respawn_wait_idle (stop_signal w s) = respawn_wait_idle s"
  "died_at (stop_signal w s) = died_at s"
  "restart_pending (stop_signal w s) = restart_pending s"
  "lamp_pending (stop_signal w s) = lamp_pending s"
  "probe_detail (stop_signal w s) = probe_detail s"
  "report_secret (stop_signal w s) = report_secret s"
  "th_run (stop_signal w s) = th_run s"
  "procs (stop_signal w s) = procs s"
  by (simp_all add: stop_signal_def)

lemma stop_escalate_sel [simp]:
  "want (stop_escalate w pid s) = want s"
  "suspended (stop_escalate w pid s) = suspended s"
  "child_pid (stop_escalate w pid s) = child_pid s"
  "child_ctl (stop_escalate w pid s) = child_ctl s"
  "spawned_at (stop_escalate w pid s) = spawned_at s"
  "backoff_s (stop_escalate w pid s) = backoff_s s"
  "respawn_at (stop_escalate w pid s) = respawn_at s"
  "generation (stop_escalate w pid s) = generation s"
  "local_posture (stop_escalate w pid s) = local_posture s"
  "gated (stop_escalate w pid s) = gated s"
  "gate_why (stop_escalate w pid s) = gate_why s"
  "broker_held (stop_escalate w pid s) = broker_held s"
  "broker_warned (stop_escalate w pid s) = broker_warned s"
  "probed (stop_escalate w pid s) = probed s"
  "probe_skipped (stop_escalate w pid s) = probe_skipped s"
  "motion_fault (stop_escalate w pid s) = motion_fault s"
  "probing (stop_escalate w pid s) = probing s"
  "probe_abort (stop_escalate w pid s) = probe_abort s"
  "standby_takeover (stop_escalate w pid s) = standby_takeover s"
  "enclosure_wait (stop_escalate w pid s) = enclosure_wait s"
  "wait_why (stop_escalate w pid s) = wait_why s"
  "runner_check (stop_escalate w pid s) = runner_check s"
  "respawn_wait_idle (stop_escalate w pid s) = respawn_wait_idle s"
  "died_at (stop_escalate w pid s) = died_at s"
  "restart_pending (stop_escalate w pid s) = restart_pending s"
  "lamp_pending (stop_escalate w pid s) = lamp_pending s"
  "probe_detail (stop_escalate w pid s) = probe_detail s"
  "report_secret (stop_escalate w pid s) = report_secret s"
  "th_run (stop_escalate w pid s) = th_run s"
  "procs (stop_escalate w pid s) = procs s"
  by (simp_all add: stop_escalate_def)

lemma reap_safe_sel [simp]:
  "want (reap_safe w s) = want s"
  "suspended (reap_safe w s) = suspended s"
  "spawned_at (reap_safe w s) = spawned_at s"
  "backoff_s (reap_safe w s) = backoff_s s"
  "respawn_at (reap_safe w s) = respawn_at s"
  "local_posture (reap_safe w s) = local_posture s"
  "gated (reap_safe w s) = gated s"
  "gate_why (reap_safe w s) = gate_why s"
  "broker_held (reap_safe w s) = broker_held s"
  "broker_warned (reap_safe w s) = broker_warned s"
  "probed (reap_safe w s) = probed s"
  "probe_skipped (reap_safe w s) = probe_skipped s"
  "motion_fault (reap_safe w s) = motion_fault s"
  "probing (reap_safe w s) = probing s"
  "probe_abort (reap_safe w s) = probe_abort s"
  "standby_takeover (reap_safe w s) = standby_takeover s"
  "enclosure_wait (reap_safe w s) = enclosure_wait s"
  "wait_why (reap_safe w s) = wait_why s"
  "restart_pending (reap_safe w s) = restart_pending s"
  "lamp_pending (reap_safe w s) = lamp_pending s"
  "probe_detail (reap_safe w s) = probe_detail s"
  "th_run (reap_safe w s) = th_run s"
  "procs (reap_safe w s) = procs s"
  by (simp_all add: reap_safe_def Let_def)

lemma reap_safe_set [simp]:
  "child_pid (reap_safe w s) = 0"
  "child_ctl (reap_safe w s) = Ctl_None"
  "report_secret (reap_safe w s) = []"
  "runner_check (reap_safe w s) = (child_ctl s = Ctl_Grbl)"
  "respawn_wait_idle (reap_safe w s) = True"
  "died_at (reap_safe w s) = clock w"
  by (simp_all add: reap_safe_def Let_def report_secret_end_def)

lemma reap_sel [simp]:
  "want (reap_locked w s) = want s"
  "suspended (reap_locked w s) = suspended s"
  "spawned_at (reap_locked w s) = spawned_at s"
  "local_posture (reap_locked w s) = local_posture s"
  "gated (reap_locked w s) = gated s"
  "gate_why (reap_locked w s) = gate_why s"
  "broker_held (reap_locked w s) = broker_held s"
  "broker_warned (reap_locked w s) = broker_warned s"
  "probed (reap_locked w s) = probed s"
  "probe_skipped (reap_locked w s) = probe_skipped s"
  "motion_fault (reap_locked w s) = motion_fault s"
  "probing (reap_locked w s) = probing s"
  "probe_abort (reap_locked w s) = probe_abort s"
  "standby_takeover (reap_locked w s) = standby_takeover s"
  "enclosure_wait (reap_locked w s) = enclosure_wait s"
  "wait_why (reap_locked w s) = wait_why s"
  "restart_pending (reap_locked w s) = restart_pending s"
  "lamp_pending (reap_locked w s) = lamp_pending s"
  "probe_detail (reap_locked w s) = probe_detail s"
  "th_run (reap_locked w s) = th_run s"
  "procs (reap_locked w s) = procs s"
  by (simp_all add: reap_locked_def reap_backoff_def Let_def)

lemma reap_set [simp]:
  "child_pid (reap_locked w s) = 0"
  "child_ctl (reap_locked w s) = Ctl_None"
  "report_secret (reap_locked w s) = []"
  "runner_check (reap_locked w s) = (child_ctl s = Ctl_Grbl)"
  "respawn_wait_idle (reap_locked w s) = True"
  "sfx (reap_locked w s) = sfx (reap_safe w s)"
  by (simp_all add: reap_locked_def reap_backoff_def Let_def)

lemma probe_text_sel [simp]:
  "want (probe_text x s) = want s"
  "suspended (probe_text x s) = suspended s"
  "child_pid (probe_text x s) = child_pid s"
  "child_ctl (probe_text x s) = child_ctl s"
  "spawned_at (probe_text x s) = spawned_at s"
  "backoff_s (probe_text x s) = backoff_s s"
  "respawn_at (probe_text x s) = respawn_at s"
  "generation (probe_text x s) = generation s"
  "local_posture (probe_text x s) = local_posture s"
  "gated (probe_text x s) = gated s"
  "gate_why (probe_text x s) = gate_why s"
  "broker_held (probe_text x s) = broker_held s"
  "broker_warned (probe_text x s) = broker_warned s"
  "probed (probe_text x s) = probed s"
  "probe_skipped (probe_text x s) = probe_skipped s"
  "motion_fault (probe_text x s) = motion_fault s"
  "probing (probe_text x s) = probing s"
  "probe_abort (probe_text x s) = probe_abort s"
  "standby_takeover (probe_text x s) = standby_takeover s"
  "enclosure_wait (probe_text x s) = enclosure_wait s"
  "wait_why (probe_text x s) = wait_why s"
  "runner_check (probe_text x s) = runner_check s"
  "respawn_wait_idle (probe_text x s) = respawn_wait_idle s"
  "died_at (probe_text x s) = died_at s"
  "restart_pending (probe_text x s) = restart_pending s"
  "lamp_pending (probe_text x s) = lamp_pending s"
  "report_secret (probe_text x s) = report_secret s"
  "th_run (probe_text x s) = th_run s"
  "procs (probe_text x s) = procs s"
  "sfx (probe_text x s) = sfx s"
  by (simp_all add: probe_text_def)

lemma probe_move_sel [simp]:
  "want (snd (probe_move w i s)) = want s"
  "suspended (snd (probe_move w i s)) = suspended s"
  "child_pid (snd (probe_move w i s)) = child_pid s"
  "child_ctl (snd (probe_move w i s)) = child_ctl s"
  "spawned_at (snd (probe_move w i s)) = spawned_at s"
  "backoff_s (snd (probe_move w i s)) = backoff_s s"
  "respawn_at (snd (probe_move w i s)) = respawn_at s"
  "generation (snd (probe_move w i s)) = generation s"
  "local_posture (snd (probe_move w i s)) = local_posture s"
  "gated (snd (probe_move w i s)) = gated s"
  "gate_why (snd (probe_move w i s)) = gate_why s"
  "broker_held (snd (probe_move w i s)) = broker_held s"
  "broker_warned (snd (probe_move w i s)) = broker_warned s"
  "probed (snd (probe_move w i s)) = probed s"
  "probe_skipped (snd (probe_move w i s)) = probe_skipped s"
  "motion_fault (snd (probe_move w i s)) = motion_fault s"
  "probing (snd (probe_move w i s)) = probing s"
  "probe_abort (snd (probe_move w i s)) = probe_abort s"
  "standby_takeover (snd (probe_move w i s)) = standby_takeover s"
  "enclosure_wait (snd (probe_move w i s)) = enclosure_wait s"
  "wait_why (snd (probe_move w i s)) = wait_why s"
  "runner_check (snd (probe_move w i s)) = runner_check s"
  "respawn_wait_idle (snd (probe_move w i s)) = respawn_wait_idle s"
  "died_at (snd (probe_move w i s)) = died_at s"
  "restart_pending (snd (probe_move w i s)) = restart_pending s"
  "lamp_pending (snd (probe_move w i s)) = lamp_pending s"
  "report_secret (snd (probe_move w i s)) = report_secret s"
  "th_run (snd (probe_move w i s)) = th_run s"
  "procs (snd (probe_move w i s)) = procs s"
  by (simp_all add: probe_move_def Let_def)

lemma probe_step_sel [simp]:
  "want (snd (probe_step w p s)) = want s"
  "suspended (snd (probe_step w p s)) = suspended s"
  "child_pid (snd (probe_step w p s)) = child_pid s"
  "child_ctl (snd (probe_step w p s)) = child_ctl s"
  "spawned_at (snd (probe_step w p s)) = spawned_at s"
  "backoff_s (snd (probe_step w p s)) = backoff_s s"
  "respawn_at (snd (probe_step w p s)) = respawn_at s"
  "generation (snd (probe_step w p s)) = generation s"
  "local_posture (snd (probe_step w p s)) = local_posture s"
  "gated (snd (probe_step w p s)) = gated s"
  "gate_why (snd (probe_step w p s)) = gate_why s"
  "broker_held (snd (probe_step w p s)) = broker_held s"
  "broker_warned (snd (probe_step w p s)) = broker_warned s"
  "probed (snd (probe_step w p s)) = probed s"
  "probe_skipped (snd (probe_step w p s)) = probe_skipped s"
  "motion_fault (snd (probe_step w p s)) = motion_fault s"
  "probing (snd (probe_step w p s)) = probing s"
  "probe_abort (snd (probe_step w p s)) = probe_abort s"
  "standby_takeover (snd (probe_step w p s)) = standby_takeover s"
  "enclosure_wait (snd (probe_step w p s)) = enclosure_wait s"
  "wait_why (snd (probe_step w p s)) = wait_why s"
  "runner_check (snd (probe_step w p s)) = runner_check s"
  "respawn_wait_idle (snd (probe_step w p s)) = respawn_wait_idle s"
  "died_at (snd (probe_step w p s)) = died_at s"
  "restart_pending (snd (probe_step w p s)) = restart_pending s"
  "lamp_pending (snd (probe_step w p s)) = lamp_pending s"
  "report_secret (snd (probe_step w p s)) = report_secret s"
  "th_run (snd (probe_step w p s)) = th_run s"
  "procs (snd (probe_step w p s)) = procs s"
  by (cases p, simp_all add: probe_aborted_end_def)+

lemma probe_verdict_sel [simp]:
  "want (probe_verdict rc s) = want s"
  "suspended (probe_verdict rc s) = suspended s"
  "child_pid (probe_verdict rc s) = child_pid s"
  "child_ctl (probe_verdict rc s) = child_ctl s"
  "spawned_at (probe_verdict rc s) = spawned_at s"
  "backoff_s (probe_verdict rc s) = backoff_s s"
  "respawn_at (probe_verdict rc s) = respawn_at s"
  "generation (probe_verdict rc s) = generation s"
  "local_posture (probe_verdict rc s) = local_posture s"
  "gated (probe_verdict rc s) = gated s"
  "gate_why (probe_verdict rc s) = gate_why s"
  "broker_held (probe_verdict rc s) = broker_held s"
  "broker_warned (probe_verdict rc s) = broker_warned s"
  "probing (probe_verdict rc s) = probing s"
  "probe_abort (probe_verdict rc s) = probe_abort s"
  "standby_takeover (probe_verdict rc s) = standby_takeover s"
  "enclosure_wait (probe_verdict rc s) = enclosure_wait s"
  "wait_why (probe_verdict rc s) = wait_why s"
  "runner_check (probe_verdict rc s) = runner_check s"
  "respawn_wait_idle (probe_verdict rc s) = respawn_wait_idle s"
  "died_at (probe_verdict rc s) = died_at s"
  "restart_pending (probe_verdict rc s) = restart_pending s"
  "lamp_pending (probe_verdict rc s) = lamp_pending s"
  "probe_detail (probe_verdict rc s) = probe_detail s"
  "report_secret (probe_verdict rc s) = report_secret s"
  "th_run (probe_verdict rc s) = th_run s"
  "procs (probe_verdict rc s) = procs s"
  "sfx (probe_verdict rc s) = sfx s"
  by (simp_all add: probe_verdict_def)

lemma pass_probe_end_sel [simp]:
  "want (pass_probe_end w rc s) = want s"
  "suspended (pass_probe_end w rc s) = suspended s"
  "child_pid (pass_probe_end w rc s) = child_pid s"
  "child_ctl (pass_probe_end w rc s) = child_ctl s"
  "spawned_at (pass_probe_end w rc s) = spawned_at s"
  "backoff_s (pass_probe_end w rc s) = backoff_s s"
  "generation (pass_probe_end w rc s) = generation s"
  "local_posture (pass_probe_end w rc s) = local_posture s"
  "gated (pass_probe_end w rc s) = gated s"
  "gate_why (pass_probe_end w rc s) = gate_why s"
  "broker_held (pass_probe_end w rc s) = broker_held s"
  "broker_warned (pass_probe_end w rc s) = broker_warned s"
  "probe_abort (pass_probe_end w rc s) = probe_abort s"
  "standby_takeover (pass_probe_end w rc s) = standby_takeover s"
  "enclosure_wait (pass_probe_end w rc s) = enclosure_wait s"
  "wait_why (pass_probe_end w rc s) = wait_why s"
  "runner_check (pass_probe_end w rc s) = runner_check s"
  "respawn_wait_idle (pass_probe_end w rc s) = respawn_wait_idle s"
  "died_at (pass_probe_end w rc s) = died_at s"
  "restart_pending (pass_probe_end w rc s) = restart_pending s"
  "lamp_pending (pass_probe_end w rc s) = lamp_pending s"
  "probe_detail (pass_probe_end w rc s) = probe_detail s"
  "report_secret (pass_probe_end w rc s) = report_secret s"
  "th_run (pass_probe_end w rc s) = th_run s"
  "procs (pass_probe_end w rc s) = procs s"
  "sfx (pass_probe_end w rc s) = sfx s"
  by (simp_all add: pass_probe_end_def Let_def)

lemma call_probe_end_sel [simp]:
  "want (call_probe_end rc s) = want s"
  "suspended (call_probe_end rc s) = suspended s"
  "child_pid (call_probe_end rc s) = child_pid s"
  "child_ctl (call_probe_end rc s) = child_ctl s"
  "spawned_at (call_probe_end rc s) = spawned_at s"
  "backoff_s (call_probe_end rc s) = backoff_s s"
  "respawn_at (call_probe_end rc s) = respawn_at s"
  "generation (call_probe_end rc s) = generation s"
  "local_posture (call_probe_end rc s) = local_posture s"
  "gated (call_probe_end rc s) = gated s"
  "gate_why (call_probe_end rc s) = gate_why s"
  "broker_held (call_probe_end rc s) = broker_held s"
  "broker_warned (call_probe_end rc s) = broker_warned s"
  "probe_abort (call_probe_end rc s) = probe_abort s"
  "standby_takeover (call_probe_end rc s) = standby_takeover s"
  "enclosure_wait (call_probe_end rc s) = enclosure_wait s"
  "wait_why (call_probe_end rc s) = wait_why s"
  "runner_check (call_probe_end rc s) = runner_check s"
  "respawn_wait_idle (call_probe_end rc s) = respawn_wait_idle s"
  "died_at (call_probe_end rc s) = died_at s"
  "restart_pending (call_probe_end rc s) = restart_pending s"
  "lamp_pending (call_probe_end rc s) = lamp_pending s"
  "probe_detail (call_probe_end rc s) = probe_detail s"
  "report_secret (call_probe_end rc s) = report_secret s"
  "th_run (call_probe_end rc s) = th_run s"
  "procs (call_probe_end rc s) = procs s"
  "sfx (call_probe_end rc s) = sfx s"
  by (simp_all add: call_probe_end_def Let_def)

lemma pass_end_sel [simp]:
  "want (snd (pass_end s)) = want s"
  "suspended (snd (pass_end s)) = suspended s"
  "child_pid (snd (pass_end s)) = child_pid s"
  "child_ctl (snd (pass_end s)) = child_ctl s"
  "spawned_at (snd (pass_end s)) = spawned_at s"
  "backoff_s (snd (pass_end s)) = backoff_s s"
  "respawn_at (snd (pass_end s)) = respawn_at s"
  "generation (snd (pass_end s)) = generation s"
  "local_posture (snd (pass_end s)) = local_posture s"
  "gated (snd (pass_end s)) = gated s"
  "gate_why (snd (pass_end s)) = gate_why s"
  "broker_held (snd (pass_end s)) = broker_held s"
  "broker_warned (snd (pass_end s)) = broker_warned s"
  "probed (snd (pass_end s)) = probed s"
  "probe_skipped (snd (pass_end s)) = probe_skipped s"
  "motion_fault (snd (pass_end s)) = motion_fault s"
  "probing (snd (pass_end s)) = probing s"
  "probe_abort (snd (pass_end s)) = probe_abort s"
  "standby_takeover (snd (pass_end s)) = standby_takeover s"
  "enclosure_wait (snd (pass_end s)) = enclosure_wait s"
  "wait_why (snd (pass_end s)) = wait_why s"
  "runner_check (snd (pass_end s)) = runner_check s"
  "respawn_wait_idle (snd (pass_end s)) = respawn_wait_idle s"
  "died_at (snd (pass_end s)) = died_at s"
  "restart_pending (snd (pass_end s)) = restart_pending s"
  "probe_detail (snd (pass_end s)) = probe_detail s"
  "report_secret (snd (pass_end s)) = report_secret s"
  "th_run (snd (pass_end s)) = th_run s"
  "procs (snd (pass_end s)) = procs s"
  by (simp_all add: pass_end_def)

lemma begin_stop_sel [simp]:
  "want (snd (begin_stop w k s)) = want s"
  "suspended (snd (begin_stop w k s)) = suspended s"
  "child_pid (snd (begin_stop w k s)) = child_pid s"
  "child_ctl (snd (begin_stop w k s)) = child_ctl s"
  "spawned_at (snd (begin_stop w k s)) = spawned_at s"
  "backoff_s (snd (begin_stop w k s)) = backoff_s s"
  "respawn_at (snd (begin_stop w k s)) = respawn_at s"
  "generation (snd (begin_stop w k s)) = generation s"
  "local_posture (snd (begin_stop w k s)) = local_posture s"
  "gated (snd (begin_stop w k s)) = gated s"
  "gate_why (snd (begin_stop w k s)) = gate_why s"
  "broker_held (snd (begin_stop w k s)) = broker_held s"
  "broker_warned (snd (begin_stop w k s)) = broker_warned s"
  "probed (snd (begin_stop w k s)) = probed s"
  "probe_skipped (snd (begin_stop w k s)) = probe_skipped s"
  "motion_fault (snd (begin_stop w k s)) = motion_fault s"
  "probing (snd (begin_stop w k s)) = probing s"
  "probe_abort (snd (begin_stop w k s)) = probe_abort s"
  "standby_takeover (snd (begin_stop w k s)) = standby_takeover s"
  "enclosure_wait (snd (begin_stop w k s)) = enclosure_wait s"
  "wait_why (snd (begin_stop w k s)) = wait_why s"
  "runner_check (snd (begin_stop w k s)) = runner_check s"
  "respawn_wait_idle (snd (begin_stop w k s)) = respawn_wait_idle s"
  "died_at (snd (begin_stop w k s)) = died_at s"
  "restart_pending (snd (begin_stop w k s)) = restart_pending s"
  "lamp_pending (snd (begin_stop w k s)) = lamp_pending s"
  "probe_detail (snd (begin_stop w k s)) = probe_detail s"
  "report_secret (snd (begin_stop w k s)) = report_secret s"
  "th_run (snd (begin_stop w k s)) = th_run s"
  "procs (snd (begin_stop w k s)) = procs s"
  by (simp_all add: begin_stop_def)

lemma spawn_argv_bin [simp]: "spawn_argv w c b \<noteq> []"
  by (simp add: spawn_argv_def Let_def)

end
