(* ===== verification/SuperSafety.thy ===== *)
theory SuperSafety
  imports SuperFrame
begin

text \<open>
  Invariants of the supervisor over every interleaving of its threads: at most one controller, what
  every spawn has behind it, the safing pair before every signal, the backoff and the secret.
\<close>

section \<open>One controller\<close>

text \<open>The pid a thread has waited for and not yet reaped; the points before a spawn; whose point it is.\<close>

definition held :: "pc \<Rightarrow> int option" where
  "held p = (case p of Waited_Child pid (W_Status st) \<Rightarrow> Some pid
     | Stop_Waited pid dl k (W_Status st) \<Rightarrow> Some pid | _ \<Rightarrow> None)"

definition before_spawn :: "pc \<Rightarrow> bool" where
  "before_spawn p = (case p of Ask_Kernel \<Rightarrow> True | Ask_Enclosure \<Rightarrow> True | Probe pass pt \<Rightarrow> pass | _ \<Rightarrow> False)"

definition after_kernel :: "pc \<Rightarrow> bool" where
  "after_kernel p = (case p of Ask_Enclosure \<Rightarrow> True | Probe pass pt \<Rightarrow> pass | _ \<Rightarrow> False)"

definition loop_stop :: "after_stop \<Rightarrow> bool" where
  "loop_stop k = (case k of K_Local \<Rightarrow> False | K_Shutdown \<Rightarrow> False | _ \<Rightarrow> True)"

definition loop_pc :: "pc \<Rightarrow> bool" where
  "loop_pc p = (case p of Stop_Test pid dl k \<Rightarrow> loop_stop k | Stop_Wait pid dl k \<Rightarrow> loop_stop k
     | Stop_Waited pid dl k r \<Rightarrow> loop_stop k | Probe pass pt \<Rightarrow> pass | Stop_Poll dl \<Rightarrow> False | Switch_Set c tk \<Rightarrow> False
     | Switch_Wait c dl \<Rightarrow> False | Switch_Report c dl t \<Rightarrow> False | Done r x \<Rightarrow> False | _ \<Rightarrow> True)"

definition caller_pc :: "pc \<Rightarrow> bool" where
  "caller_pc p = (case p of Idle \<Rightarrow> True | Stop_Test pid dl k \<Rightarrow> \<not> loop_stop k | Stop_Wait pid dl k \<Rightarrow> \<not> loop_stop k
     | Stop_Waited pid dl k r \<Rightarrow> \<not> loop_stop k | Probe pass pt \<Rightarrow> \<not> pass | Stop_Poll dl \<Rightarrow> True | Switch_Set c tk \<Rightarrow> True
     | Switch_Wait c dl \<Rightarrow> True | Switch_Report c dl t \<Rightarrow> True | Done r x \<Rightarrow> True | _ \<Rightarrow> False)"

lemmas pc_defs = held_def before_spawn_def after_kernel_def loop_stop_def loop_pc_def caller_pc_def

text \<open>The result of a locked stretch of the lifecycle thread that neither reaps nor spawns.\<close>

definition plain :: "pc \<times> sup \<Rightarrow> sup \<Rightarrow> bool" where
  "plain r s \<longleftrightarrow> loop_pc (fst r) \<and> held (fst r) = None \<and>
     child_pid (snd r) = child_pid s \<and> procs (snd r) = procs s \<and> th_run (snd r) = th_run s \<and>
     report_secret (snd r) = report_secret s \<and>
     (before_spawn (fst r) \<longrightarrow> child_pid s = 0) \<and>
     (after_kernel (fst r) \<longrightarrow> \<not> respawn_wait_idle (snd r) \<and> (th_run s \<longrightarrow> broker_held (snd r)))"

lemma plain_pass_end [simp]: "plain (pass_end t) s \<longleftrightarrow> child_pid t = child_pid s \<and> procs t = procs s \<and> th_run t = th_run s \<and>
     report_secret t = report_secret s"
  by (auto simp: plain_def pass_end_def pc_defs)

lemma plain_begin_stop [simp]:
  "plain (begin_stop w k t) s \<longleftrightarrow> loop_stop k \<and> child_pid t = child_pid s \<and> procs t = procs s \<and> th_run t = th_run s \<and>
     report_secret t = report_secret s"
  by (auto simp: plain_def begin_stop_def held_def before_spawn_def after_kernel_def loop_pc_def)

lemma plain_point:
  "plain (p, t) s \<longleftrightarrow> loop_pc p \<and> held p = None \<and> child_pid t = child_pid s \<and> procs t = procs s \<and> th_run t = th_run s \<and>
     report_secret t = report_secret s \<and> (before_spawn p \<longrightarrow> child_pid s = 0) \<and> (after_kernel p \<longrightarrow> \<not> respawn_wait_idle t \<and> (th_run s \<longrightarrow> broker_held t))"
  by (simp add: plain_def)

lemmas plain_rules = plain_point pc_defs Let_def

lemma plain_go_broker [simp]: "child_pid s = 0 \<Longrightarrow> \<not> respawn_wait_idle s \<Longrightarrow> plain (go_broker w s) s"
  by (simp add: go_broker_def plain_rules)

lemma plain_cong: "child_pid t = child_pid s \<Longrightarrow> procs t = procs s \<Longrightarrow> th_run t = th_run s \<Longrightarrow>
    report_secret t = report_secret s \<Longrightarrow> plain r t = plain r s"
  by (simp add: plain_def)

lemma plain_converge [simp]: "plain (converge w s) s"
  by (auto simp: converge_def may_spawn_def plain_rules)

lemma plain_seg_kernel: "child_pid s = 0 \<Longrightarrow> plain (seg_kernel w s) s"
  using plain_go_broker [of "s\<lparr>respawn_wait_idle := False\<rparr>" w]
    plain_go_broker [of "(wr_attr w ''cnc/halt'' ''1'' s)\<lparr>respawn_wait_idle := False\<rparr>" w]
  by (auto simp: seg_kernel_def plain_cong [of "s\<lparr>respawn_wait_idle := False\<rparr>" s]
        plain_cong [of "(wr_attr w ''cnc/halt'' ''1'' s)\<lparr>respawn_wait_idle := False\<rparr>" s])

lemma plain_go_gated [simp]: "plain (go_gated w s) s"
  by (auto simp: go_gated_def plain_rules)

lemma plain_seg_gated_idle: "plain (seg_gated_idle w s) s"
  by (auto simp: seg_gated_idle_def loop_stop_def)

lemma plain_seg_gate: "plain (seg_gate w s) s"
  unfolding seg_gate_def by (rule plain_cong [THEN iffD1, OF _ _ _ _ plain_go_gated]) simp_all

lemma plain_seg_standby: "plain (seg_standby w s) s"
  by (auto simp: seg_standby_def plain_rules)

lemma plain_go_standby [simp]: "plain (go_standby s) s"
  by (auto simp: go_standby_def plain_rules)

lemma plain_seg_runner: "plain (seg_runner w s) s"
  unfolding seg_runner_def by (rule plain_cong [THEN iffD1, OF _ _ _ _ plain_go_standby]) auto

lemma plain_go_runner [simp]: "plain (go_runner s) s"
  by (auto simp: go_runner_def plain_rules)

lemma plain_go_runner': "plain (go_runner (s\<lparr>restart_pending := False, respawn_at := 0\<rparr>)) s"
  by (rule plain_cong [THEN iffD1, OF _ _ _ _ plain_go_runner]) simp_all

lemma plain_go_restart [simp]: "plain (go_restart w s) s"
  by (auto simp: go_restart_def plain_go_runner' loop_stop_def)

lemma plain_pass_begin: "plain (pass_begin w s) s"
  by (auto simp: pass_begin_def plain_rules)

lemma plain_stop_done: "loop_stop k \<Longrightarrow> plain (stop_done w k s) s"
  by (auto simp: stop_done_def loop_stop_def plain_go_runner' split: after_stop.splits)

text \<open>A caller's stretch that neither reaps nor spawns; only a shutdown closes the broker.\<close>

definition shut :: "pc \<Rightarrow> bool" where
  "shut p = (case p of Stop_Test pid dl k \<Rightarrow> k = K_Shutdown | Stop_Wait pid dl k \<Rightarrow> k = K_Shutdown
     | Stop_Waited pid dl k r \<Rightarrow> k = K_Shutdown | _ \<Rightarrow> False)"

definition modest :: "pc \<times> sup \<Rightarrow> sup \<Rightarrow> bool" where
  "modest r s \<longleftrightarrow> caller_pc (fst r) \<and> held (fst r) = None \<and>
     child_pid (snd r) = child_pid s \<and> procs (snd r) = procs s \<and> respawn_wait_idle (snd r) = respawn_wait_idle s \<and>
     report_secret (snd r) = report_secret s \<and> (th_run (snd r) \<longrightarrow> th_run s \<and> (broker_held s \<longrightarrow> broker_held (snd r))) \<and> (shut (fst r) \<longrightarrow> \<not> th_run (snd r))"

lemmas modest_rules = modest_def held_def caller_pc_def shut_def Let_def

lemma modest_begin_stop:
  "modest (begin_stop w k t) s \<longleftrightarrow> \<not> loop_stop k \<and> child_pid t = child_pid s \<and> procs t = procs s \<and>
     respawn_wait_idle t = respawn_wait_idle s \<and> report_secret t = report_secret s \<and> (th_run t \<longrightarrow> th_run s \<and> (broker_held s \<longrightarrow> broker_held t)) \<and>
     (k = K_Shutdown \<longrightarrow> \<not> th_run t)"
  by (auto simp: begin_stop_def modest_rules)

lemma modest_stop_done: "\<not> loop_stop k \<Longrightarrow> (k = K_Shutdown \<longrightarrow> \<not> th_run s) \<Longrightarrow> modest (stop_done w k s) s"
  by (auto simp: stop_done_def loop_stop_def modest_rules split: after_stop.splits)

lemma modest_stop_poll: "modest (stop_poll w dl s) s"
  by (auto simp: stop_poll_def modest_rules)

lemma modest_controller_stop: "modest (super_controller_stop w s) s"
  by (auto simp: super_controller_stop_def stop_poll_def modest_rules)

lemma modest_mode_switch: "modest (super_mode_switch w m own le s) s"
  by (auto simp: super_mode_switch_def modest_rules split: option.splits)

lemma modest_switch: "modest (switch_wait w c dl s) s" "modest (switch_report w c dl t s) s"
  by (auto simp: switch_wait_def switch_report_def modest_rules)

lemma modest_switch_set: "modest (switch_set w c tk s) s"
  by (auto simp: switch_set_def switch_wait_def modest_rules)

lemma modest_probe_motion: "modest (super_probe_motion w s) s"
  by (auto simp: super_probe_motion_def modest_rules broker_open_locked_def)

lemma modest_set_local: "modest (super_set_local w on s) s"
  by (auto simp: super_set_local_def Let_def modest_begin_stop loop_stop_def) (simp_all add: modest_rules)

lemma modest_shutdown: "modest (super_shutdown w s) s"
  by (auto simp: super_shutdown_def Let_def modest_begin_stop loop_stop_def) (simp_all add: stop_done_def modest_rules)

lemma modest_call: "modest (begin_call w le c s) s"
  by (cases c)
     (simp_all add: modest_controller_stop modest_mode_switch modest_probe_motion modest_set_local modest_shutdown,
      simp_all add: super_controller_start_def super_controller_restart_def modest_rules)

section \<open>The invariant\<close>

definition sup_inv :: "sys \<Rightarrow> bool" where
  "sup_inv y \<longleftrightarrow> (let s = shared y in
     loop_pc (pcs y 0) \<and> (\<forall>n>0. caller_pc (pcs y n)) \<and> child_pid s \<ge> 0 \<and>
     (\<forall>pid. procs s pid \<noteq> None \<longrightarrow> pid = child_pid s \<and> pid > 0) \<and>
     (\<forall>n pid. held (pcs y n) = Some pid \<longrightarrow>
        pid = child_pid s \<and> pid > 0 \<and> procs s pid = None \<and> (\<forall>m. m \<noteq> n \<longrightarrow> held (pcs y m) = None)) \<and>
     (before_spawn (pcs y 0) \<longrightarrow> child_pid s = 0) \<and>
     (after_kernel (pcs y 0) \<longrightarrow> \<not> respawn_wait_idle s \<and> (th_run s \<longrightarrow> broker_held s)) \<and>
     (\<forall>n. shut (pcs y n) \<longrightarrow> \<not> th_run s))"

lemma set_thread_sel [simp]:
  "shared (set_thread n r y) = snd r" "pcs (set_thread n r y) = (pcs y)(n := fst r)"
  by (simp_all add: set_thread_def)

lemma set_thread_twice: "set_thread n r (set_thread n r' y) = set_thread n r y"
  by (simp add: set_thread_def)

lemma loop_not_shut: "loop_pc p \<Longrightarrow> \<not> shut p"
  by (auto simp: loop_pc_def shut_def loop_stop_def split: pc.splits)

lemma caller_not_before: "caller_pc p \<Longrightarrow> \<not> before_spawn p"
  by (auto simp: caller_pc_def before_spawn_def split: pc.splits)

lemma after_before: "after_kernel p \<Longrightarrow> before_spawn p"
  by (auto simp: after_kernel_def before_spawn_def split: pc.splits)

lemma sup_invI:
  assumes "loop_pc (pcs y 0)" "\<And>n. n > 0 \<Longrightarrow> caller_pc (pcs y n)" "child_pid (shared y) \<ge> 0"
    and "\<And>pid. procs (shared y) pid \<noteq> None \<Longrightarrow> pid = child_pid (shared y) \<and> pid > 0"
    and "\<And>n pid. held (pcs y n) = Some pid \<Longrightarrow>
        pid = child_pid (shared y) \<and> pid > 0 \<and> procs (shared y) pid = None \<and> (\<forall>m. m \<noteq> n \<longrightarrow> held (pcs y m) = None)"
    and "before_spawn (pcs y 0) \<Longrightarrow> child_pid (shared y) = 0"
    and "after_kernel (pcs y 0) \<Longrightarrow> \<not> respawn_wait_idle (shared y) \<and> (th_run (shared y) \<longrightarrow> broker_held (shared y))"
    and "\<And>n. shut (pcs y n) \<Longrightarrow> \<not> th_run (shared y)"
  shows "sup_inv y"
  using assms unfolding sup_inv_def Let_def by blast

lemma sup_invD:
  assumes "sup_inv y"
  shows "loop_pc (pcs y 0)" "n > 0 \<Longrightarrow> caller_pc (pcs y n)" "child_pid (shared y) \<ge> 0"
    and "procs (shared y) pid \<noteq> None \<Longrightarrow> pid = child_pid (shared y) \<and> pid > 0"
    and "held (pcs y n) = Some pid \<Longrightarrow>
        pid = child_pid (shared y) \<and> pid > 0 \<and> procs (shared y) pid = None \<and> (\<forall>m. m \<noteq> n \<longrightarrow> held (pcs y m) = None)"
    and "before_spawn (pcs y 0) \<Longrightarrow> child_pid (shared y) = 0"
    and "after_kernel (pcs y 0) \<Longrightarrow> \<not> respawn_wait_idle (shared y) \<and> (th_run (shared y) \<longrightarrow> broker_held (shared y))"
    and "shut (pcs y n) \<Longrightarrow> \<not> th_run (shared y)"
  using assms unfolding sup_inv_def Let_def by blast+

lemma held_update:
  "held p = None \<Longrightarrow> held (if m = n then p else f m) = Some pid \<longleftrightarrow> m \<noteq> n \<and> held (f m) = Some pid"
  "held p = None \<Longrightarrow> held (if m = n then p else f m) = None \<longleftrightarrow> m = n \<or> held (f m) = None"
  by auto

lemma inv_plain:
  assumes inv: "sup_inv y" and r: "plain r (shared y)" and "held (pcs y 0) = None"
  shows "sup_inv (set_thread 0 r y)"
proof -
  note d = sup_invD [OF inv]
  have p: "loop_pc (fst r)" "held (fst r) = None" "child_pid (snd r) = child_pid (shared y)"
      "procs (snd r) = procs (shared y)" "th_run (snd r) = th_run (shared y)"
      "before_spawn (fst r) \<Longrightarrow> child_pid (shared y) = 0"
      "after_kernel (fst r) \<Longrightarrow> \<not> respawn_wait_idle (snd r) \<and> (th_run (shared y) \<longrightarrow> broker_held (snd r))"
    using r by (simp_all add: plain_def)
  show ?thesis
  proof (rule sup_invI)
    show "held (pcs (set_thread 0 r y) n) = Some pid \<Longrightarrow>
        pid = child_pid (shared (set_thread 0 r y)) \<and> pid > 0 \<and> procs (shared (set_thread 0 r y)) pid = None \<and>
        (\<forall>m. m \<noteq> n \<longrightarrow> held (pcs (set_thread 0 r y) m) = None)" for n pid
      using d(5) [of n pid] p(2-4) by (auto simp: held_update split: if_splits)
    show "shut (pcs (set_thread 0 r y) n) \<Longrightarrow> \<not> th_run (shared (set_thread 0 r y))" for n
      using d(8) [of n] p(5) loop_not_shut [OF p(1)] by (auto split: if_splits)
  qed (use p d(2,3,4) in auto)
qed

lemma inv_modest:
  assumes inv: "sup_inv y" and r: "modest r (shared y)" and "held (pcs y n) = None" and n: "n > 0"
  shows "sup_inv (set_thread n r y)"
proof -
  note d = sup_invD [OF inv]
  have p: "caller_pc (fst r)" "held (fst r) = None" "child_pid (snd r) = child_pid (shared y)"
      "procs (snd r) = procs (shared y)" "respawn_wait_idle (snd r) = respawn_wait_idle (shared y)"
      "th_run (snd r) \<Longrightarrow> th_run (shared y) \<and> (broker_held (shared y) \<longrightarrow> broker_held (snd r))"
      "shut (fst r) \<Longrightarrow> \<not> th_run (snd r)"
    using r by (simp_all add: modest_def)
  show ?thesis
  proof (rule sup_invI)
    show "held (pcs (set_thread n r y) k) = Some pid \<Longrightarrow>
        pid = child_pid (shared (set_thread n r y)) \<and> pid > 0 \<and> procs (shared (set_thread n r y)) pid = None \<and>
        (\<forall>m. m \<noteq> k \<longrightarrow> held (pcs (set_thread n r y) m) = None)" for k pid
      using d(5) [of k pid] p(2-4) by (auto simp: held_update split: if_splits)
    show "shut (pcs (set_thread n r y) k) \<Longrightarrow> \<not> th_run (shared (set_thread n r y))" for k
      using d(8) [of k] p(6,7) by (auto split: if_splits)
    show "after_kernel (pcs (set_thread n r y) 0) \<Longrightarrow>
        \<not> respawn_wait_idle (shared (set_thread n r y)) \<and>
        (th_run (shared (set_thread n r y)) \<longrightarrow> broker_held (shared (set_thread n r y)))"
      using d(7) p(5,6) n by auto
  qed (use p d(1,2,3,4,6) n in auto)
qed

lemma inv_wait:
  assumes inv: "sup_inv y" and none: "held (pcs y n) = None" and w: "waitpid pid (shared y) = (r, t)"
    and p: "if n = 0 then loop_pc p else caller_pc p" "\<not> before_spawn p" "shut p \<longrightarrow> shut (pcs y n)"
    and h: "held p = (case r of W_Status st \<Rightarrow> Some pid | _ \<Rightarrow> None)"
  shows "sup_inv (set_thread n (p, t) y)"
proof -
  note d = sup_invD [OF inv]
  have na: "\<not> after_kernel p" using p(2) after_before by blast
  show ?thesis
  proof (cases "\<exists>st. procs (shared y) pid = Some (Zombie st)")
    case True
    then obtain st where z: "procs (shared y) pid = Some (Zombie st)" by blast
    then have r: "held p = Some pid" "t = (shared y)\<lparr>procs := (procs (shared y))(pid := None)\<rparr>"
      using w h by (auto simp: waitpid_def)
    have pid: "pid = child_pid (shared y)" "pid > 0" using d(4) [of pid] z by simp_all
    have free: "held (pcs y m) = None" for m
      using d(5) [of m] z pid by (cases "held (pcs y m)") auto
    have th: "shut (pcs y k) \<Longrightarrow> \<not> th_run (shared y)" for k by (rule d(8))
    show ?thesis
    proof (rule sup_invI)
      show "held (pcs (set_thread n (p, t) y) k) = Some q' \<Longrightarrow>
          q' = child_pid (shared (set_thread n (p, t) y)) \<and> q' > 0 \<and> procs (shared (set_thread n (p, t) y)) q' = None \<and>
          (\<forall>m. m \<noteq> k \<longrightarrow> held (pcs (set_thread n (p, t) y) m) = None)" for k q'
        using free r pid by (auto split: if_splits)
      show "shut (pcs (set_thread n (p, t) y) k) \<Longrightarrow> \<not> th_run (shared (set_thread n (p, t) y))" for k
        using th [of k] th [of n] p(3) r(2) by (auto split: if_splits)
    qed (use p na d(1,2,3,4,6,7) r in \<open>auto split: if_splits\<close>)
  next
    case False
    then have r: "held p = None" "t = shared y"
      using w h by (auto simp: waitpid_def split: option.splits proc.splits)
    show ?thesis
    proof (rule sup_invI)
      show "held (pcs (set_thread n (p, t) y) k) = Some q' \<Longrightarrow>
          q' = child_pid (shared (set_thread n (p, t) y)) \<and> q' > 0 \<and> procs (shared (set_thread n (p, t) y)) q' = None \<and>
          (\<forall>m. m \<noteq> k \<longrightarrow> held (pcs (set_thread n (p, t) y) m) = None)" for k q'
        using d(5) [of k q'] r by (auto simp: held_update split: if_splits)
      show "shut (pcs (set_thread n (p, t) y) k) \<Longrightarrow> \<not> th_run (shared (set_thread n (p, t) y))" for k
        using d(8) [of k] p(3) r(2) by (auto split: if_splits)
    qed (use p na d(1,2,3,4,6,7) r in \<open>auto split: if_splits\<close>)
  qed
qed

lemma inv_reap:
  assumes inv: "sup_inv y" and h: "held (pcs y n) = Some pid"
  shows "sup_inv (set_thread n (Idle, reap_locked w (shared y)) y)"
proof -
  note d = sup_invD [OF inv]
  have pid: "pid = child_pid (shared y)" "pid > 0" "procs (shared y) pid = None" "m \<noteq> n \<Longrightarrow> held (pcs y m) = None" for m
    using d(5) [OF h] by auto
  have none: "procs (shared y) p' = None" for p'
    using d(4) [of p'] pid by (cases "procs (shared y) p'") auto
  have nb: "\<not> before_spawn (pcs y 0)" using d(6) pid by auto
  then have na: "\<not> after_kernel (pcs y 0)" using after_before by blast
  have idle: "loop_pc Idle" "caller_pc Idle" "held Idle = None" "\<not> before_spawn Idle" "\<not> after_kernel Idle" "\<not> shut Idle"
    by (simp_all add: pc_defs shut_def)
  show ?thesis
  proof (rule sup_invI)
    show "held (pcs (set_thread n (Idle, reap_locked w (shared y)) y) k) = Some p' \<Longrightarrow>
        p' = child_pid (shared (set_thread n (Idle, reap_locked w (shared y)) y)) \<and> p' > 0 \<and>
        procs (shared (set_thread n (Idle, reap_locked w (shared y)) y)) p' = None \<and>
        (\<forall>m. m \<noteq> k \<longrightarrow> held (pcs (set_thread n (Idle, reap_locked w (shared y)) y) m) = None)" for k p'
      using pid(4) [of k] idle by (auto split: if_splits)
    show "shut (pcs (set_thread n (Idle, reap_locked w (shared y)) y) k) \<Longrightarrow>
        \<not> th_run (shared (set_thread n (Idle, reap_locked w (shared y)) y))" for k
      using d(8) [of k] idle by (auto split: if_splits)
  qed (use d(1,2) none nb na idle in \<open>auto split: if_splits\<close>)
qed

section \<open>Every step keeps it\<close>

lemma seg_probe_plain:
  assumes "child_pid s = 0" "\<not> respawn_wait_idle s" "th_run s \<longrightarrow> broker_held s"
  shows "plain (seg_probe w True pt s) s"
  using assms by (cases pt) (simp_all add: seg_probe_def plain_point pc_defs Let_def del: probe_step.simps)

lemma seg_probe_modest: "modest (seg_probe w False pt s) s"
  by (cases pt) (simp_all add: seg_probe_def modest_rules del: probe_step.simps)

lemma spawn_locked_cases:
  obtains (stays) "child_pid (spawn_locked w c s) = child_pid s" "procs (spawn_locked w c s) = procs s"
  | (spawned) "a_fork w \<ge> 0" "child_pid (spawn_locked w c s) = a_fork w"
      "procs (spawn_locked w c s) = (procs s)(a_fork w \<mapsto> Alive)"
proof (cases "fst (report_secret_new w (broker_open_locked w s)) \<and> a_memory w \<and> a_fork w \<ge> 0")
  case True
  then show ?thesis by (intro spawned) (simp_all add: spawn_locked_def build_child_env_def Let_def)
next
  case False
  then show ?thesis by (intro stays) (auto simp: spawn_locked_def build_child_env_def Let_def)
qed

lemma spawn_locked_sel [simp]:
  "th_run (spawn_locked w c s) = th_run s" "want (spawn_locked w c s) = want s"
  "suspended (spawn_locked w c s) = suspended s"
  by (auto simp: spawn_locked_def Let_def split: option.splits)

lemma inv_spawn:
  assumes inv: "sup_inv y" and at: "pcs y 0 = Ask_Enclosure" and fork: "fork_ok w (shared y)"
    and s: "child_pid s = child_pid (shared y)" "procs s = procs (shared y)" "th_run s = th_run (shared y)"
  shows "sup_inv (set_thread 0 (pass_end (spawn_locked w c s)) y)"
proof -
  note d = sup_invD [OF inv]
  have zero: "child_pid (shared y) = 0" using d(6) at by (simp add: before_spawn_def)
  have none: "procs (shared y) p' = None" for p'
    using d(4) [of p'] zero by (cases "procs (shared y) p'") auto
  have free: "held (pcs y m) = None" for m
    using d(5) [of m] zero by (cases "held (pcs y m)") auto
  show ?thesis
  proof (cases rule: spawn_locked_cases [of w c s])
    case stays
    show ?thesis
    proof (rule sup_invI)
      show "shut (pcs (set_thread 0 (pass_end (spawn_locked w c s)) y) k) \<Longrightarrow>
          \<not> th_run (shared (set_thread 0 (pass_end (spawn_locked w c s)) y))" for k
        using d(8) [of k] s by (auto simp: pass_end_def shut_def split: if_splits)
    qed (use d(2) none free zero stays s in \<open>auto simp: pass_end_def pc_defs split: if_splits\<close>)
  next
    case spawned
    have f: "a_fork w > 0" using fork spawned(1) by (auto simp: fork_ok_def)
    show ?thesis
    proof (rule sup_invI)
      show "shut (pcs (set_thread 0 (pass_end (spawn_locked w c s)) y) k) \<Longrightarrow>
          \<not> th_run (shared (set_thread 0 (pass_end (spawn_locked w c s)) y))" for k
        using d(8) [of k] s by (auto simp: pass_end_def shut_def split: if_splits)
    qed (use d(2) none free f spawned s in \<open>auto simp: pass_end_def pc_defs split: if_splits\<close>)
  qed
qed

lemma seg_enclosure_inv:
  assumes inv: "sup_inv y" and at: "pcs y 0 = Ask_Enclosure" and fork: "fork_ok w (shared y)"
  shows "sup_inv (set_thread 0 (seg_enclosure w (shared y)) y)"
proof (cases "a_enclosure w = None \<and> probed (shared y)")
  case True
  then show ?thesis using inv_spawn [OF inv at fork] by (simp add: seg_enclosure_def)
next
  case False
  have "plain (seg_enclosure w (shared y)) (shared y)"
    using False sup_invD(6,7) [OF inv] at
    by (auto simp: seg_enclosure_def plain_point pc_defs split: option.splits)
  then show ?thesis using inv at by (intro inv_plain) (simp_all add: held_def)
qed

text \<open>A thread that holds what it waited for reaps it and goes on from there.\<close>

lemma inv_after_reap:
  assumes "sup_inv y" "held (pcs y n) = Some pid"
    and "if n = 0 then plain r (reap_locked w (shared y)) else modest r (reap_locked w (shared y))"
  shows "sup_inv (set_thread n r y)"
proof -
  let ?y = "set_thread n (Idle, reap_locked w (shared y)) y"
  have "sup_inv ?y" by (rule inv_reap [OF assms(1,2)])
  then have "sup_inv (set_thread n r ?y)"
    using assms(3) inv_plain [of ?y r] inv_modest [of ?y r n] by (cases "n = 0") (simp_all add: held_def)
  then show ?thesis by (simp add: set_thread_twice)
qed

lemma thread_waits_child:
  assumes inv: "sup_inv y" and at: "pcs y 0 = Wait_Child pid"
  shows "sup_inv (set_thread 0 (thread_step w (Wait_Child pid) (shared y)) y)"
  using at
  by (auto simp: Let_def pc_defs shut_def split: wres.split intro!: inv_wait [OF inv, where pid = pid] prod.collapse [symmetric])

lemma thread_waits_stop:
  assumes inv: "sup_inv y" and at: "pcs y n = Stop_Wait pid dl k"
    and k: "if n = 0 then loop_stop k else \<not> loop_stop k"
  shows "sup_inv (set_thread n (thread_step w (Stop_Wait pid dl k) (shared y)) y)"
  using at k
  by (auto simp: Let_def held_def before_spawn_def loop_pc_def caller_pc_def shut_def split: wres.split if_splits
      intro!: inv_wait [OF inv, where pid = pid] prod.collapse [symmetric])

lemma stop_waited_plain:
  assumes "loop_stop k" "\<And>st. r \<noteq> W_Status st"
  shows "plain (seg_stop_waited w pid dl k r s) s"
  using assms plain_stop_done [of k w s]
  by (cases r) (auto simp: seg_stop_waited_def plain_point held_def before_spawn_def after_kernel_def loop_pc_def)

lemma stop_waited_modest:
  assumes "\<not> loop_stop k" "k = K_Shutdown \<longrightarrow> \<not> th_run s" "\<And>st. r \<noteq> W_Status st"
  shows "modest (seg_stop_waited w pid dl k r s) s"
  using assms modest_stop_done [of k s w]
  by (cases r) (auto simp: seg_stop_waited_def modest_rules)

lemma thread_stop_waited:
  assumes inv: "sup_inv y" and at: "pcs y n = Stop_Waited pid dl k r"
    and k: "if n = 0 then loop_stop k else \<not> loop_stop k"
  shows "sup_inv (set_thread n (seg_stop_waited w pid dl k r (shared y)) y)"
proof (cases r)
  case (W_Status st)
  have th: "k = K_Shutdown \<Longrightarrow> \<not> th_run (shared y)" using sup_invD(8) [OF inv, of n] at by (simp add: shut_def)
  show ?thesis
    using at k th plain_stop_done [of k w "reap_locked w (shared y)"] modest_stop_done [of k "reap_locked w (shared y)" w]
    by (intro inv_after_reap [OF inv, where pid = pid and w = w])
       (auto simp: W_Status held_def seg_stop_waited_def split: if_splits)
next
  case W_None
  then have h: "held (pcs y n) = None" "\<And>st. r \<noteq> W_Status st" using at by (simp_all add: held_def)
  have th: "k = K_Shutdown \<longrightarrow> \<not> th_run (shared y)" using sup_invD(8) [OF inv, of n] at by (simp add: shut_def)
  show ?thesis
    using h k th inv_plain [OF inv stop_waited_plain] inv_modest [OF inv stop_waited_modest] by (cases "n = 0") auto
next
  case W_Echild
  then have h: "held (pcs y n) = None" "\<And>st. r \<noteq> W_Status st" using at by (simp_all add: held_def)
  have th: "k = K_Shutdown \<longrightarrow> \<not> th_run (shared y)" using sup_invD(8) [OF inv, of n] at by (simp add: shut_def)
  show ?thesis
    using h k th inv_plain [OF inv stop_waited_plain] inv_modest [OF inv stop_waited_modest] by (cases "n = 0") auto
qed

lemma thread_waited_child:
  assumes inv: "sup_inv y" and at: "pcs y 0 = Waited_Child pid r"
  shows "sup_inv (set_thread 0 (go_restart w (reap_if w r (shared y))) y)"
proof (cases r)
  case (W_Status st)
  then show ?thesis
    using at by (intro inv_after_reap [OF inv, where pid = pid and w = w]) (auto simp: held_def reap_if_def)
qed (use at inv in \<open>auto intro!: inv_plain simp: held_def reap_if_def\<close>)

text \<open>The lifecycle thread, then the callers.\<close>

lemma loop_step_inv:
  assumes inv: "sup_inv y" and fork: "fork_ok w (shared y)"
  shows "sup_inv (set_thread 0 (thread_step w (pcs y 0) (shared y)) y)"
proof -
  note d = sup_invD [OF inv]
  have quiet: "sup_inv (set_thread 0 r y)" if "plain r (shared y)" "held (pcs y 0) = None" for r
    by (rule inv_plain [OF inv that])
  show ?thesis
  proof (cases "pcs y 0")
    case Idle
    then show ?thesis using plain_pass_begin [of w "shared y"]
      by (auto intro!: quiet simp: held_def plain_point before_spawn_def after_kernel_def loop_pc_def)
  next
    case (Stop_Test pid dl k)
    then show ?thesis using d(1) plain_stop_done [of k w "shared y"]
      by (auto intro!: quiet simp: held_def plain_point before_spawn_def after_kernel_def loop_pc_def)
  next
    case (Probe pass pt)
    then show ?thesis using d(1,6,7) seg_probe_plain [of "shared y" w pt]
      by (auto intro!: quiet simp: held_def before_spawn_def after_kernel_def loop_pc_def)
  next
    case Ask_Kernel
    then show ?thesis using d(6) plain_seg_kernel [of "shared y" w]
      by (auto intro!: quiet simp: held_def before_spawn_def)
  next
    case (Wait_Child pid)
    then show ?thesis using thread_waits_child [OF inv Wait_Child, of w] by simp
  next
    case (Waited_Child pid r)
    then show ?thesis using thread_waited_child [OF inv Waited_Child, of w] by simp
  next
    case (Stop_Wait pid dl k)
    then show ?thesis using d(1) thread_waits_stop [OF inv Stop_Wait, of w] by (simp add: loop_pc_def)
  next
    case (Stop_Waited pid dl k r)
    then show ?thesis using d(1) thread_stop_waited [OF inv Stop_Waited, of w] by (simp add: loop_pc_def)
  next
    case Ask_Enclosure
    then show ?thesis using seg_enclosure_inv [OF inv Ask_Enclosure fork] by simp
  next
    case Reap_Runner
    then show ?thesis using quiet [OF plain_seg_runner, of w] by (simp add: held_def)
  next
    case Ask_Standby
    then show ?thesis using quiet [OF plain_seg_standby, of w] by (simp add: held_def)
  next
    case Ask_Gate
    then show ?thesis using quiet [OF plain_seg_gate, of w] by (simp add: held_def)
  next
    case Ask_Gated_Idle
    then show ?thesis using quiet [OF plain_seg_gated_idle, of w] by (simp add: held_def)
  next
    case Gone
    then show ?thesis using quiet [of "(Gone, shared y)"] by (simp add: plain_point pc_defs)
  qed (use d(1) in \<open>simp_all add: loop_pc_def\<close>)
qed

lemma caller_step_inv:
  assumes inv: "sup_inv y" and n: "n > 0"
  shows "sup_inv (set_thread n (thread_step w (pcs y n) (shared y)) y) \<or> pcs y n = Idle"
proof -
  note d = sup_invD [OF inv]
  have quiet: "sup_inv (set_thread n r y)" if "modest r (shared y)" "held (pcs y n) = None" for r
    by (rule inv_modest [OF inv that n])
  show ?thesis
  proof (cases "pcs y n")
    case (Stop_Test pid dl k)
    then show ?thesis using d(2) [OF n] d(8) [of n] modest_stop_done [of k "shared y" w]
      by (auto intro!: quiet simp: modest_rules)
  next
    case (Stop_Wait pid dl k)
    then show ?thesis using d(2) [OF n] n thread_waits_stop [OF inv Stop_Wait, of w] by (simp add: caller_pc_def)
  next
    case (Stop_Waited pid dl k r)
    then show ?thesis using d(2) [OF n] n thread_stop_waited [OF inv Stop_Waited, of w] by (simp add: caller_pc_def)
  next
    case (Probe pass pt)
    then show ?thesis using d(2) [OF n] seg_probe_modest [of w pt "shared y"]
      by (auto intro!: quiet simp: held_def caller_pc_def)
  next
    case (Stop_Poll dl)
    then show ?thesis using quiet [OF modest_stop_poll, of w dl] by (simp add: held_def)
  next
    case (Switch_Set c tk)
    then show ?thesis using quiet [OF modest_switch_set, of w c tk] by (simp add: held_def)
  next
    case (Switch_Wait c dl)
    then show ?thesis using quiet [OF modest_switch(1), of w c dl] by (simp add: held_def)
  next
    case (Switch_Report c dl t)
    then show ?thesis using quiet [OF modest_switch(2), of w c dl t] by (simp add: held_def)
  next
    case (Done r x)
    then show ?thesis using quiet [of "(Done r x, shared y)"] by (simp add: modest_rules)
  qed (use d(2) [OF n] in \<open>simp_all add: caller_pc_def\<close>)
qed

lemma exits_inv: "sup_inv y \<Longrightarrow> sup_inv (act_step (Exits pid st) y)"
  by (auto simp: sup_inv_def Let_def split: option.split proc.split)

lemma act_step_inv: "sup_inv y \<Longrightarrow> act_ok a y \<Longrightarrow> sup_inv (act_step a y)"
proof (cases a)
  case (Thread n w)
  assume "sup_inv y" "act_ok a y"
  then show ?thesis using Thread loop_step_inv [of y w] caller_step_inv [of y n w] by (cases "n = 0") auto
next
  case (Call n c le w)
  assume "sup_inv y"
  moreover have "free_caller (pcs y n) \<Longrightarrow> held (pcs y n) = None"
    by (auto simp: free_caller_def held_def split: pc.splits)
  ultimately show ?thesis using Call inv_modest [OF _ modest_call] by auto
next
  case (Exits pid st)
  assume "sup_inv y"
  then show ?thesis unfolding Exits by (rule exits_inv)
qed

lemma super_init_inv: "sup_inv (super_init w)"
  by (simp add: sup_inv_def super_init_def sup_boot_def Let_def pc_defs shut_def)

lemma reach_inv: "reach y \<Longrightarrow> sup_inv y"
  by (induction rule: reach.induct) (simp_all add: super_init_inv act_step_inv)

text \<open>C11. There is never more than one controller: in every reachable state, whatever the threads, the
  callers and the kernel do, the kernel holds at most the process the supervisor calls its child,
  and none when the supervisor has no child.\<close>

theorem one_controller:
  assumes "reach y"
  shows "{pid. procs (shared y) pid \<noteq> None} \<subseteq> {pid. pid = child_pid (shared y) \<and> pid > 0}"
  using sup_invD(4) [OF reach_inv [OF assms]] by blast

end
