(* ===== verification/SuperProps.thy ===== *)
theory SuperProps
  imports SuperSafety
begin

text \<open>
  What the supervisor's steps write and whom they signal: the safing pair with every signal, with
  every exit of a controller, and what stands behind every spawn; the backoff and the secret.
\<close>

section \<open>Effects of a step\<close>

text \<open>An attribute was written when the write landed, or failed all its tries.\<close>

definition wrote :: "string \<Rightarrow> seffect list \<Rightarrow> bool" where
  "wrote attr es \<longleftrightarrow> SWr attr ''1'' True \<in> set es \<or> count_list es (SWr attr ''1'' False) \<ge> wr_attr_tries"

definition wrote_pair :: "seffect list \<Rightarrow> bool" where
  "wrote_pair es \<longleftrightarrow> wrote ''cnc/stop'' es \<and> wrote ''cnc/laser_latch'' es"

fun calm_fx :: "seffect \<Rightarrow> bool" where
  "calm_fx (SKill pid sg g) = False"
| "calm_fx (SSpawn c av ev) = False"
| "calm_fx _ = True"

definition adds :: "(seffect list \<Rightarrow> bool) \<Rightarrow> sup \<Rightarrow> sup \<Rightarrow> bool" where
  "adds P s t \<longleftrightarrow> (\<exists>es. sfx t = sfx s @ es \<and> P es)"

definition quietly :: "sup \<Rightarrow> sup \<Rightarrow> bool" where
  "quietly s t \<longleftrightarrow> adds (list_all calm_fx) s t"

text \<open>What a step added to the effects.\<close>

definition new_fx :: "sys \<Rightarrow> sys \<Rightarrow> seffect list" where
  "new_fx y y' = drop (length (sfx (shared y))) (sfx (shared y'))"

lemma quietly_refl: "sfx t = sfx s \<Longrightarrow> quietly s t"
  by (simp add: quietly_def adds_def)

lemma quietly_trans [trans]: "quietly s t \<Longrightarrow> quietly t u \<Longrightarrow> quietly s u"
  by (force simp: quietly_def adds_def)

lemma quietly_sfx: "sfx a = sfx b \<Longrightarrow> quietly s a = quietly s b" "sfx a = sfx b \<Longrightarrow> quietly a s = quietly b s"
  by (simp_all add: quietly_def adds_def)

lemma quietly_put_fx [simp]: "list_all calm_fx es \<Longrightarrow> quietly s t \<Longrightarrow> quietly s (put_fx es t)"
  by (auto simp: quietly_def adds_def)

lemma wr_tries_adds:
  "\<exists>es. wr_tries w n attr ''1'' s = put_fx es s \<and> list_all calm_fx es \<and>
     (n > 0 \<longrightarrow> SWr attr ''1'' True \<in> set es \<or> count_list es (SWr attr ''1'' False) \<ge> n)"
proof (induction n arbitrary: s)
  case 0
  show ?case by (intro exI [of _ "[]"]) (simp add: put_fx_def)
next
  case (Suc n)
  show ?case
  proof (cases "a_wr w (length (sfx s))")
    case True
    then show ?thesis by (intro exI [of _ "[SWr attr ''1'' True]"]) (simp add:)
  next
    case False
    obtain es where es: "wr_tries w n attr ''1'' (put_fx [SWr attr ''1'' False] s) = put_fx es (put_fx [SWr attr ''1'' False] s)"
        "list_all calm_fx es" "n > 0 \<longrightarrow> SWr attr ''1'' True \<in> set es \<or> count_list es (SWr attr ''1'' False) \<ge> n"
      using Suc.IH by blast
    then have "wr_tries w (Suc n) attr ''1'' s = put_fx (SWr attr ''1'' False # es) s"
      using False by (simp add: put_fx_def)
    moreover have "SWr attr ''1'' True \<in> set es \<or> count_list (SWr attr ''1'' False # es) (SWr attr ''1'' False) \<ge> Suc n"
      using es(3) by (cases n) auto
    ultimately show ?thesis using es(2)
      by (intro exI [of _ "SWr attr ''1'' False # es"]) auto
  qed
qed

lemma wr_attr_adds: "\<exists>es. wr_attr w attr ''1'' s = put_fx es s \<and> list_all calm_fx es \<and> wrote attr es"
  using wr_tries_adds [of w wr_attr_tries attr s] by (simp add: wr_attr_def wr_attr_tries_def wrote_def)

lemma quietly_same [simp]: "quietly s s"
  by (simp add: quietly_refl)

lemma wr_attr_quietly [simp]: "quietly s (wr_attr w attr ''1'' s)"
  using wr_attr_adds [of w attr s] by auto

lemma wrote_append: "wrote a xs \<Longrightarrow> wrote a (xs @ ys)" "wrote a ys \<Longrightarrow> wrote a (xs @ ys)"
  by (auto simp: wrote_def)

lemma safing_adds: "\<exists>es. safing w s = put_fx es s \<and> list_all calm_fx es \<and> wrote_pair es"
proof -
  obtain e1 where 1: "wr_attr w ''cnc/stop'' ''1'' s = put_fx e1 s" "list_all calm_fx e1" "wrote ''cnc/stop'' e1"
    using wr_attr_adds by blast
  obtain e2 where 2: "wr_attr w ''cnc/laser_latch'' ''1'' (put_fx e1 s) = put_fx e2 (put_fx e1 s)"
      "list_all calm_fx e2" "wrote ''cnc/laser_latch'' e2"
    using wr_attr_adds by blast
  then show ?thesis
    using 1 by (intro exI [of _ "e1 @ e2"]) (simp add: safing_def put_fx_def wrote_pair_def wrote_append)
qed

lemma safing_quietly [simp]: "quietly s (safing w s)"
  using safing_adds [of w s] by auto

lemma wrote_pair_append: "wrote_pair xs \<Longrightarrow> wrote_pair (xs @ ys)" "wrote_pair ys \<Longrightarrow> wrote_pair (xs @ ys)"
  by (auto simp: wrote_pair_def wrote_append)

section \<open>Quiet operations\<close>

lemma broker_quietly [simp]: "quietly s (broker_open_locked w s)"
  by (auto simp: broker_open_locked_def quietly_def adds_def)

lemma wait_quietly [simp]: "quietly s (wait_enter_locked why s)" "quietly s (wait_leave_locked s)"
  by (auto simp: wait_enter_locked_def wait_leave_locked_def quietly_def adds_def)

lemma reap_adds:
  "\<exists>es. sfx (reap_locked w s) = sfx s @ es \<and> list_all calm_fx es \<and> wrote_pair es \<and>
     SUnlink ''/run/grblhal.homed'' \<in> set es \<and> SForget \<in> set es"
proof -
  let ?s = "(report_secret_end s)\<lparr>child_pid := 0, child_ctl := Ctl_None, generation := generation s + 1\<rparr>"
  obtain es where "safing w ?s = put_fx es ?s" "list_all calm_fx es" "wrote_pair es" using safing_adds by blast
  then show ?thesis
    by (intro exI [of _ "es @ [SUnlink ''/run/grblhal.homed'', SForget]"])
       (simp add: reap_safe_def Let_def wrote_pair_append report_secret_end_def)
qed

lemma reap_quietly [simp]: "quietly s (reap_locked w s)"
  using reap_adds [of w s] by (auto simp: quietly_def adds_def)

lemma pass_end_quietly [simp]: "quietly t (snd (pass_end t))"
  by (auto simp: pass_end_def quietly_def adds_def)

text \<open>A stretch of a thread is quiet, or is quiet up to the signals of a stop to the current child.\<close>

definition stretch :: "sworld \<Rightarrow> pc \<times> sup \<Rightarrow> sup \<Rightarrow> bool" where
  "stretch w r s \<longleftrightarrow> quietly s (snd r) \<or>
     (\<exists>t k. quietly s t \<and> child_pid t = child_pid s \<and> child_pid s > 0 \<and> r = begin_stop w k t)"

lemma stretch_quiet: "quietly s t \<Longrightarrow> stretch w (p, t) s" "quietly s t \<Longrightarrow> stretch w (pass_end t) s"
  using quietly_trans [OF _ pass_end_quietly] by (auto simp: stretch_def)

lemma stretch_stop: "quietly s t \<Longrightarrow> child_pid t = child_pid s \<Longrightarrow> child_pid s > 0 \<Longrightarrow> stretch w (begin_stop w k t) s"
  by (auto simp: stretch_def)

lemma stretch_trans: "quietly s t \<Longrightarrow> child_pid t = child_pid s \<Longrightarrow> stretch w r t \<Longrightarrow> stretch w r s"
  by (auto simp: stretch_def intro: quietly_trans)

lemma quietly_update [simp]:
  "quietly s (t\<lparr>respawn_at := a\<rparr>) = quietly s t"
  "quietly s (t\<lparr>respawn_wait_idle := b\<rparr>) = quietly s t"
  "quietly s (t\<lparr>suspended := b\<rparr>) = quietly s t"
  "quietly s (t\<lparr>probing := b\<rparr>) = quietly s t"
  "quietly s (t\<lparr>probe_abort := b\<rparr>) = quietly s t"
  "quietly s (t\<lparr>standby_takeover := b\<rparr>) = quietly s t"
  "quietly s (t\<lparr>restart_pending := b\<rparr>) = quietly s t"
  "quietly s (t\<lparr>runner_check := b\<rparr>) = quietly s t"
  "quietly s (t\<lparr>local_posture := b\<rparr>) = quietly s t"
  "quietly s (t\<lparr>th_run := b\<rparr>) = quietly s t"
  "quietly s (t\<lparr>broker_held := b\<rparr>) = quietly s t"
  "quietly s (t\<lparr>motion_fault := b\<rparr>) = quietly s t"
  "quietly s (t\<lparr>backoff_s := n\<rparr>) = quietly s t"
  "quietly s (t\<lparr>want := c\<rparr>) = quietly s t"
  "quietly s (t\<lparr>gated := b, gate_why := x\<rparr>) = quietly s t"
  by (simp_all add: quietly_def adds_def)

lemma stretch_go_broker: "stretch w (go_broker w s) s"
  by (simp add: go_broker_def Let_def stretch_quiet)

lemma stretch_converge: "stretch w (converge w s) s"
  by (auto simp: converge_def stretch_quiet stretch_stop stretch_go_broker)

lemma stretch_seg_kernel: "stretch w (seg_kernel w s) s"
  by (auto simp: seg_kernel_def stretch_quiet
      intro: stretch_trans [OF _ _ stretch_go_broker])

lemma stretch_seg_gated_idle: "stretch w (seg_gated_idle w s) s"
  by (auto simp: seg_gated_idle_def stretch_stop stretch_converge)

lemma stretch_seg_gate: "stretch w (seg_gate w s) s"
  unfolding seg_gate_def go_gated_def
  by (auto simp: stretch_quiet intro: stretch_trans [OF _ _ stretch_converge])

lemma stretch_seg_standby: "stretch w (seg_standby w s) s"
  by (auto simp: seg_standby_def intro!: stretch_quiet)

lemma stretch_go_standby: "stretch w (go_standby s) s"
  by (auto simp: go_standby_def stretch_quiet)

lemma stretch_seg_runner: "stretch w (seg_runner w s) s"
  by (auto simp: seg_runner_def intro: stretch_go_standby stretch_trans [OF _ _ stretch_go_standby])

lemma stretch_go_runner: "stretch w (go_runner s) s"
  by (auto simp: go_runner_def stretch_quiet stretch_go_standby)

lemma stretch_go_restart: "stretch w (go_restart w s) s"
  by (auto simp: go_restart_def stretch_stop stretch_go_runner intro: stretch_trans [OF _ _ stretch_go_runner])

lemma stretch_pass_begin: "stretch w (pass_begin w s) s"
  by (auto simp: pass_begin_def stretch_quiet stretch_go_restart)

lemma stretch_stop_done: "stretch w (stop_done w k s) s"
  by (cases k) (auto simp: stop_done_def stretch_quiet stretch_converge intro!: stretch_trans [OF _ _ stretch_go_runner])

lemma probe_quietly: "quietly s (snd (probe_step w p s))"
proof (cases p)
  case (P_Move i)
  show ?thesis unfolding P_Move
    by (auto simp: probe_move_def probe_text_def Let_def quietly_def adds_def)
qed (auto simp: probe_aborted_end_def probe_text_def quietly_sfx(1) [of "probe_detail_update f t" t for f t])

lemma stretch_probe: "stretch w (seg_probe w pass pt s) s"
proof (cases "\<exists>rc. pt = P_End rc")
  case True
  have "quietly s (call_probe_end rc s)" "quietly s (pass_probe_end w rc s)" for rc
    by (simp_all add: quietly_refl call_probe_end_def pass_probe_end_def probe_verdict_def Let_def)
  then show ?thesis using True by (auto simp: seg_probe_def stretch_quiet)
next
  case False
  then have "seg_probe w pass pt s = (Probe pass (fst (probe_step w pt s)), snd (probe_step w pt s))"
    by (cases pt) (simp_all add: seg_probe_def Let_def)
  then show ?thesis by (simp add: stretch_quiet probe_quietly)
qed

lemma stretch_calls: "stretch w (begin_call w le c s) s"
proof (cases c)
  case (C_Mode m own)
  then show ?thesis by (auto simp: super_mode_switch_def stretch_quiet split: option.split)
next
  case (C_Local on)
  then show ?thesis by (auto simp: super_set_local_def Let_def stretch_quiet stretch_stop)
next
  case C_Shutdown
  have "stretch w (stop_done w K_Shutdown t) s" if "quietly s t" for t
    using that by (auto simp: stop_done_def stretch_quiet)
  moreover have "quietly s (wait_leave_locked (s\<lparr>th_run := False, suspended := True\<rparr>))"
    by (rule quietly_trans [OF _ wait_quietly(2)]) simp
  ultimately show ?thesis using C_Shutdown by (auto simp: super_shutdown_def Let_def stretch_stop)
next
  case C_Stop
  have "quietly s (wr_attr w ''cnc/stop'' ''1'' (s\<lparr>suspended := True, probe_abort := True\<rparr>))"
    by (rule quietly_trans [OF _ wr_attr_quietly]) simp
  then show ?thesis using C_Stop by (auto simp: super_controller_stop_def stop_poll_def Let_def stretch_quiet)
next
  case C_Probe
  have "quietly s (broker_open_locked w s)" by simp
  then show ?thesis using C_Probe by (auto simp: super_probe_motion_def Let_def stretch_quiet)
qed (simp_all add: super_controller_start_def super_controller_restart_def stretch_quiet)

lemma stretch_switch: "stretch w (switch_wait w c dl s) s" "stretch w (switch_report w c dl t s) s" "stretch w (switch_set w c tk s) s"
  by (auto simp: switch_wait_def switch_report_def switch_set_def Let_def stretch_quiet)

section \<open>What a step may write\<close>

text \<open>Quiet, or the signals of a stop, or an escalation to the current child, or a spawn.\<close>

definition spawns :: "sworld \<Rightarrow> pc \<Rightarrow> sup \<Rightarrow> sup \<Rightarrow> bool" where
  "spawns w p s t \<longleftrightarrow> p = Ask_Enclosure \<and> a_enclosure w = None \<and> probed s \<and>
     t = snd (pass_end (spawn_locked w (want s) (wait_leave_locked s)))"

definition escalates :: "sworld \<Rightarrow> sup \<Rightarrow> sup \<Rightarrow> bool" where
  "escalates w s t \<longleftrightarrow> t = stop_escalate w (child_pid s) s"

lemma after_reap_quiet: "stretch w r (reap_locked w s) \<Longrightarrow> quietly s (snd r)"
  by (auto simp: stretch_def intro: quietly_trans [OF reap_quietly])

lemma thread_step_shape:
  "stretch w (thread_step w p s) s \<or> spawns w p s (snd (thread_step w p s)) \<or> escalates w s (snd (thread_step w p s))"
proof (cases p)
  case (Waited_Child pid r)
  show ?thesis
  proof (cases r)
    case (W_Status st)
    then have "quietly s (snd (thread_step w p s))"
      using Waited_Child after_reap_quiet [OF stretch_go_restart] by (simp add: reap_if_def)
    then show ?thesis by (simp add: stretch_def)
  qed (use Waited_Child stretch_go_restart in \<open>simp_all add: reap_if_def\<close>)
next
  case (Stop_Waited pid dl k r)
  show ?thesis
  proof (cases r)
    case (W_Status st)
    then have "quietly s (snd (thread_step w p s))"
      using Stop_Waited after_reap_quiet [OF stretch_stop_done] by (simp add: seg_stop_waited_def)
    then show ?thesis by (simp add: stretch_def)
  qed (use Stop_Waited stretch_stop_done in \<open>auto simp: seg_stop_waited_def stretch_quiet escalates_def\<close>)
next
  case Ask_Enclosure
  show ?thesis
  proof (cases "a_enclosure w = None \<and> probed s")
    case True
    then show ?thesis using Ask_Enclosure by (simp add: seg_enclosure_def spawns_def)
  next
    case False
    then show ?thesis using Ask_Enclosure
      by (auto simp: seg_enclosure_def stretch_quiet split: option.splits)
  qed
next
  case (Wait_Child pid)
  have "quietly s (snd (waitpid pid s))"
    by (auto simp: waitpid_def quietly_refl split: option.split proc.split)
  then show ?thesis using Wait_Child by (simp add: Let_def stretch_quiet)
next
  case (Stop_Wait pid dl k)
  have "quietly s (snd (waitpid pid s))"
    by (auto simp: waitpid_def quietly_refl split: option.split proc.split)
  then show ?thesis using Stop_Wait by (simp add: Let_def stretch_quiet)
next
  case (Stop_Poll dl)
  then show ?thesis by (simp add: stop_poll_def stretch_quiet)
qed (simp_all add: stretch_quiet stretch_pass_begin stretch_stop_done stretch_seg_runner stretch_seg_standby stretch_seg_gate
      stretch_seg_gated_idle stretch_seg_kernel stretch_probe stretch_switch)

lemma new_fx_thread: "new_fx y (set_thread n r y) = drop (length (sfx (shared y))) (sfx (snd r))"
  by (simp add: new_fx_def)

lemma quietly_new: "quietly (shared y) (snd r) \<Longrightarrow> list_all calm_fx (new_fx y (set_thread n r y))"
  by (auto simp: quietly_def adds_def new_fx_thread)

text \<open>Every step but a quiet one, a stop, an escalation or a spawn is a quiet one.\<close>

lemma act_step_cases:
  obtains (quiet) "list_all calm_fx (new_fx y (act_step a y))"
  | (stop) w t where "quietly (shared y) t" "child_pid t = child_pid (shared y)" "child_pid (shared y) > 0"
      "new_fx y (act_step a y) = drop (length (sfx (shared y))) (sfx (stop_signal w t))"
  | (kill) w where "new_fx y (act_step a y) = drop (length (sfx (shared y))) (sfx (stop_escalate w (child_pid (shared y)) (shared y)))"
  | (spawn) n w where "a = Thread n w" "spawns w (pcs y n) (shared y) (shared (act_step a y))"
proof (cases a)
  case (Thread n w)
  let ?r = "thread_step w (pcs y n) (shared y)"
  show ?thesis
  proof (cases "n > 0 \<and> pcs y n = Idle")
    case True
    then show ?thesis using Thread quiet by (simp add: new_fx_def)
  next
    case False
    then have step: "act_step a y = set_thread n ?r y" using Thread by auto
    consider "quietly (shared y) (snd ?r)"
      | t k where "quietly (shared y) t" "child_pid t = child_pid (shared y)" "child_pid (shared y) > 0" "?r = begin_stop w k t"
      | "spawns w (pcs y n) (shared y) (snd ?r)" | "escalates w (shared y) (snd ?r)"
      using thread_step_shape [of w "pcs y n" "shared y"] unfolding stretch_def by blast
    then show ?thesis
    proof cases
      case 1
      then show ?thesis using quiet step quietly_new by simp
    next
      case 2
      then show ?thesis using stop [of t w] step by (simp add: new_fx_thread begin_stop_def)
    next
      case 3
      then show ?thesis using spawn [OF Thread] step by simp
    next
      case 4
      then show ?thesis using kill [of w] step by (simp add: new_fx_thread escalates_def)
    qed
  qed
next
  case (Call n c le w)
  show ?thesis
  proof (cases "n > 0 \<and> free_caller (pcs y n)")
    case True
    then have step: "act_step a y = set_thread n (begin_call w le c (shared y)) y" using Call by simp
    consider "quietly (shared y) (snd (begin_call w le c (shared y)))"
      | t k where "quietly (shared y) t" "child_pid t = child_pid (shared y)" "child_pid (shared y) > 0"
          "begin_call w le c (shared y) = begin_stop w k t"
      using stretch_calls [of w le c "shared y"] unfolding stretch_def by blast
    then show ?thesis
    proof cases
      case 1
      then show ?thesis using quiet step quietly_new by simp
    next
      case 2
      then show ?thesis using stop [of t w] step by (simp add: new_fx_thread begin_stop_def)
    qed
  next
    case False
    then show ?thesis using Call quiet by (auto simp: new_fx_def)
  qed
next
  case (Exits pid st)
  then show ?thesis using quiet by (auto simp: new_fx_def split: option.split proc.split)
qed

section \<open>Signals\<close>

lemma stop_signal_fx:
  "\<exists>e1 e2. sfx (stop_signal w t) = sfx t @ e1 @ [SKill (child_pid t) ''TERM'' True, SKill (child_pid t) ''TERM'' False] @ e2 @ [SForget]
     \<and> wrote_pair e1 \<and> wrote_pair e2 \<and> list_all calm_fx e1 \<and> list_all calm_fx e2"
proof -
  let ?k = "[SKill (child_pid t) ''TERM'' True, SKill (child_pid t) ''TERM'' False]"
  obtain e1 where 1: "safing w t = put_fx e1 t" "wrote_pair e1" "list_all calm_fx e1" using safing_adds by blast
  obtain e2 where 2: "safing w (put_fx ?k (put_fx e1 t)) = put_fx e2 (put_fx ?k (put_fx e1 t))" "wrote_pair e2" "list_all calm_fx e2"
    using safing_adds by blast
  show ?thesis using 1 2 by (intro exI [of _ e1] exI [of _ e2]) (simp add: stop_signal_def)
qed

lemma calm_no_kill: "list_all calm_fx es \<Longrightarrow> SKill pid sg grp \<notin> set es" "list_all calm_fx es \<Longrightarrow> SSpawn c av ev \<notin> set es"
  by (auto simp: list_all_iff)

lemma stop_escalate_fx:
  "\<exists>es. sfx (stop_escalate w pid s) = sfx s @ [SKill pid ''KILL'' True, SKill pid ''KILL'' False] @ es \<and> wrote_pair es \<and> list_all calm_fx es"
proof -
  obtain es where "safing w (put_fx [SKill pid ''KILL'' True, SKill pid ''KILL'' False] s) =
      put_fx es (put_fx [SKill pid ''KILL'' True, SKill pid ''KILL'' False] s)" "wrote_pair es" "list_all calm_fx es"
    using safing_adds by blast
  then show ?thesis by (intro exI [of _ es]) (simp add: stop_escalate_def)
qed

lemma spawn_locked_fx:
  "\<exists>es. sfx (spawn_locked w c s) = sfx s @ es \<and> (\<forall>pid sg grp. SKill pid sg grp \<notin> set es) \<and>
     (\<forall>c' av ev. SSpawn c' av ev \<in> set es \<longrightarrow> c' = c \<and> av = spawn_argv w c (local_posture s))"
  by (auto simp: spawn_locked_def Let_def report_secret_new_def broker_open_locked_def split: option.split)

lemma pass_end_fx: "\<exists>es. sfx (snd (pass_end t)) = sfx t @ es \<and> list_all calm_fx es"
  by (auto simp: pass_end_def)

lemma spawns_fx:
  assumes "spawns w p s t"
  shows "SKill pid sg grp \<notin> set (drop (length (sfx s)) (sfx t))"
    and "SSpawn c av ev \<in> set (drop (length (sfx s)) (sfx t)) \<Longrightarrow> c = want s \<and> av = spawn_argv w c (local_posture s)"
proof -
  obtain e1 where 1: "sfx (wait_leave_locked s) = sfx s @ e1" "list_all calm_fx e1"
    using wait_quietly(2) [of s] by (auto simp: quietly_def adds_def)
  obtain e2 where 2: "sfx (spawn_locked w (want s) (wait_leave_locked s)) = sfx (wait_leave_locked s) @ e2"
      "\<And>pid sg grp. SKill pid sg grp \<notin> set e2"
      "\<And>c' av ev. SSpawn c' av ev \<in> set e2 \<Longrightarrow> c' = want s \<and> av = spawn_argv w (want s) (local_posture s)"
    using spawn_locked_fx [of w "want s" "wait_leave_locked s"] unfolding wait_leave_sel by blast
  obtain e3 where 3: "sfx (snd (pass_end (spawn_locked w (want s) (wait_leave_locked s)))) =
      sfx (spawn_locked w (want s) (wait_leave_locked s)) @ e3" "list_all calm_fx e3"
    using pass_end_fx by blast
  have e: "drop (length (sfx s)) (sfx t) = e1 @ e2 @ e3" using assms 1 2(1) 3(1) by (simp add: spawns_def)
  show "SKill pid sg grp \<notin> set (drop (length (sfx s)) (sfx t))"
    using 2(2) calm_no_kill(1) [OF 1(2)] calm_no_kill(1) [OF 3(2)] by (simp add: e)
  show "SSpawn c av ev \<in> set (drop (length (sfx s)) (sfx t)) \<Longrightarrow> c = want s \<and> av = spawn_argv w c (local_posture s)"
    using 2(3) calm_no_kill(2) [OF 1(2)] calm_no_kill(2) [OF 3(2)] by (auto simp: e)
qed


section \<open>Spawns\<close>

text \<open>C8. What stands behind every spawn of a reachable supervisor: only the lifecycle thread spawns, with
  no controller in the kernel, right after a look that found the enclosure closed, with the motion
  gate passed since the device was opened, the kernel idle or halted since the last controller
  left, and the pulse device held unless the daemon is shutting down; what it spawns is the
  selected mode's, bound to the loopback exactly in a wizard's posture.\<close>

theorem spawn_guarded:
  assumes "reach y" "SSpawn c av ev \<in> set (new_fx y (act_step (Thread n w) y))"
  shows "n = 0 \<and> a_enclosure w = None \<and> probed (shared y) \<and> c = want (shared y) \<and>
     av = spawn_argv w c (local_posture (shared y)) \<and> (\<nexists>pid. procs (shared y) pid \<noteq> None) \<and> \<not> respawn_wait_idle (shared y) \<and>
     (broker_held (shared y) \<or> th_run (shared y) = False)"
proof (cases rule: act_step_cases [of y "Thread n w"])
  case quiet
  then show ?thesis using assms calm_no_kill by blast
next
  case (stop w' t)
  obtain e0 where e0: "sfx t = sfx (shared y) @ e0" "list_all calm_fx e0"
    using stop(1) by (auto simp: quietly_def adds_def)
  then show ?thesis using assms(2) stop_signal_fx [of w' t] stop(4) calm_no_kill by auto
next
  case (kill w')
  then show ?thesis using assms(2) stop_escalate_fx [of w' "child_pid (shared y)" "shared y"] calm_no_kill by auto
next
  case (spawn n' w')
  have e: "n' = n" "w' = w" using spawn(1) by simp_all
  have at: "pcs y n = Ask_Enclosure" using spawn(2) e by (simp add: spawns_def)
  note d = sup_invD [OF reach_inv [OF assms(1)]]
  have n: "n = 0" using d(2) [of n] at by (cases "n = 0") (simp_all add: caller_pc_def)
  have c: "child_pid (shared y) = 0" using d(6) at n by (simp add: before_spawn_def)
  have none: "procs (shared y) pid = None" for pid
    using d(4) [of pid] c by (cases "procs (shared y) pid") auto
  have "c = want (shared y) \<and> av = spawn_argv w c (local_posture (shared y))"
    using spawns_fx(2) [OF spawn(2)] assms(2) e by (simp add: new_fx_def)
  then show ?thesis using spawn(2) e d(7) at n none by (auto simp: spawns_def after_kernel_def)
qed

section \<open>A controller that leaves\<close>

text \<open>A stretch keeps the child, unless it reaps or spawns.\<close>

lemma child_stop_done [simp]: "child_pid (snd (stop_done w k s)) = child_pid s" "report_secret (snd (stop_done w k s)) = report_secret s"
  using plain_stop_done [of k w s] by (auto simp: stop_done_def loop_stop_def plain_def split: after_stop.splits)

lemma plain_child: "plain r s \<Longrightarrow> child_pid (snd r) = child_pid s" "plain r s \<Longrightarrow> report_secret (snd r) = report_secret s"
  by (simp_all add: plain_def)

lemma modest_child: "modest r s \<Longrightarrow> child_pid (snd r) = child_pid s"
  by (simp add: modest_def)

lemma exit_step:
  assumes y: "reach y" and run: "child_pid (shared y) > 0" "child_pid (shared (act_step a y)) = 0"
  obtains n w k r where "a = Thread n w" "act_step a y = set_thread n r y" "held (pcs y n) \<noteq> None"
    "r = go_restart w (reap_locked w (shared y)) \<or> r = stop_done w k (reap_locked w (shared y))"
proof (cases a)
  case (Thread n w)
  note d = sup_invD [OF reach_inv [OF y]]
  have nb: "\<not> before_spawn (pcs y 0)" using d(6) run by auto
  have step: "act_step a y = set_thread n (thread_step w (pcs y n) (shared y)) y"
    using Thread run by (cases "n > 0 \<and> pcs y n = Idle") auto
  have neq: "child_pid (snd (thread_step w (pcs y n) (shared y))) \<noteq> child_pid (shared y)"
    using run step by auto
  have caller: "n = 0 \<or> caller_pc (pcs y n)" using d(2) [of n] by (cases "n = 0") auto
  have not_before: "\<not> before_spawn (pcs y n)" using nb caller caller_not_before by blast
  note keeps = plain_child(1) [OF plain_seg_runner] plain_child(1) [OF plain_seg_standby] plain_child(1) [OF plain_seg_gate]
    plain_child(1) [OF plain_seg_gated_idle] plain_child(1) [OF plain_pass_begin] plain_child(1) [OF plain_go_restart]
    modest_child [OF modest_stop_poll] modest_child [OF modest_switch(1)] modest_child [OF modest_switch(2)]
    modest_child [OF modest_switch_set] modest_child [OF seg_probe_modest]
  have wait: "child_pid (snd (waitpid pid s)) = child_pid s" for pid s
    by (auto simp: waitpid_def split: option.split proc.split)
  show ?thesis
  proof (cases "pcs y n")
    case (Waited_Child pid r)
    with neq obtain st where "r = W_Status st" by (cases r) (auto simp: reap_if_def keeps)
    then show ?thesis using that [OF Thread step] Waited_Child by (simp add: held_def reap_if_def)
  next
    case (Stop_Waited pid dl k r)
    with neq obtain st where "r = W_Status st" by (cases r) (auto simp: seg_stop_waited_def split: if_splits)
    then show ?thesis using that [OF Thread step] Stop_Waited by (auto simp: held_def seg_stop_waited_def)
  next
    case (Probe pass pt)
    then show ?thesis using not_before neq by (auto simp: before_spawn_def keeps)
  qed (use neq not_before in \<open>auto simp: keeps wait Let_def before_spawn_def split: if_splits\<close>)
next
  case (Call n c le w)
  then show ?thesis using run modest_child [OF modest_call, of w le c "shared y"] by (auto split: if_splits)
next
  case (Exits pid st)
  then show ?thesis using run by (auto split: option.splits proc.splits)
qed

text \<open>C9. No controller leaves the supervisor without the machine being made safe in the same step: the
  stop and the laser latch are written (each landed, or tried three times), the homing anchor it
  left is removed, the cooling engine is told to forget it, and its secret no longer opens the
  report channel. However it died and whoever stopped it.\<close>

theorem exit_safed:
  assumes "reach y" "child_pid (shared y) > 0" "child_pid (shared (act_step a y)) = 0"
  shows "wrote_pair (new_fx y (act_step a y)) \<and> SUnlink ''/run/grblhal.homed'' \<in> set (new_fx y (act_step a y)) \<and>
     SForget \<in> set (new_fx y (act_step a y)) \<and> (\<nexists>p. super_report_secret_ok p (shared (act_step a y)))"
proof -
  obtain n w k r where step: "act_step a y = set_thread n r y"
      "r = go_restart w (reap_locked w (shared y)) \<or> r = stop_done w k (reap_locked w (shared y))"
    using exit_step [OF assms] by metis
  obtain es where es: "sfx (reap_locked w (shared y)) = sfx (shared y) @ es" "wrote_pair es"
      "SUnlink ''/run/grblhal.homed'' \<in> set es" "SForget \<in> set es"
    using reap_adds by blast
  have "stretch w r (reap_locked w (shared y))" using step(2) stretch_go_restart stretch_stop_done by blast
  then have "quietly (reap_locked w (shared y)) (snd r)" by (auto simp: stretch_def)
  then obtain es' where new: "new_fx y (act_step a y) = es @ es'"
    unfolding step(1) new_fx_thread quietly_def adds_def es(1) by auto
  have "report_secret (snd r) = []"
    using step(2) plain_child(2) [OF plain_go_restart, of w "reap_locked w (shared y)"] by auto
  then show ?thesis using es new step(1) wrote_pair_append by (simp add: super_report_secret_ok_def Let_def)
qed

end
