(* ===== verification/SuperRaces.thy ===== *)
theory SuperRaces
  imports SuperProps
begin

text \<open>
  The supervisor's report channel and spawn environment, the backoff, the reap of a dead controller,
  and the interleavings its code does not guard: a stop or a shutdown between the look at the
  enclosure and the spawn, the lever on the probe's last rung, a deliberate stop counted as a death.
\<close>

section \<open>The secret and the backoff over every run\<close>

definition backoffs :: "nat set" where
  "backoffs = {1, 2, 4, 8, 16, 32}"

definition well :: "sup \<Rightarrow> bool" where
  "well s \<longleftrightarrow> (report_secret s = [] \<or> length (report_secret s) = report_secret_hex) \<and> backoff_s s \<in> backoffs"

text \<open>A stretch that touches neither.\<close>

definition tame :: "pc \<times> sup \<Rightarrow> sup \<Rightarrow> bool" where
  "tame r s \<longleftrightarrow> report_secret (snd r) = report_secret s \<and> backoff_s (snd r) = backoff_s s"

lemma well_tame: "tame r s \<Longrightarrow> well s \<Longrightarrow> well (snd r)"
  by (simp add: tame_def well_def)

lemma tame_go_broker [simp]: "tame (go_broker w t) s \<longleftrightarrow> report_secret t = report_secret s \<and> backoff_s t = backoff_s s"
  by (simp add: go_broker_def Let_def tame_def)

lemma tame_converge [simp]: "tame (converge w t) s \<longleftrightarrow> report_secret t = report_secret s \<and> backoff_s t = backoff_s s"
  by (simp add: converge_def) (simp add: tame_def)

lemma tame_go_standby [simp]: "tame (go_standby t) s \<longleftrightarrow> report_secret t = report_secret s \<and> backoff_s t = backoff_s s"
  by (simp add: go_standby_def tame_def)

lemma tame_go_runner [simp]: "tame (go_runner t) s \<longleftrightarrow> report_secret t = report_secret s \<and> backoff_s t = backoff_s s"
  by (simp add: go_runner_def) (simp add: tame_def)

lemma tame_go_restart [simp]: "tame (go_restart w t) s \<longleftrightarrow> report_secret t = report_secret s \<and> backoff_s t = backoff_s s"
  by (simp add: go_restart_def) (simp add: tame_def)

lemma tame_stop_done [simp]: "tame (stop_done w k t) s \<longleftrightarrow> report_secret t = report_secret s \<and> backoff_s t = backoff_s s"
  by (cases k) (simp_all add: stop_done_def, simp_all add: tame_def)

lemma tame_loop:
  "tame (pass_begin w s) s" "tame (seg_runner w s) s" "tame (seg_standby w s) s" "tame (seg_gate w s) s"
  "tame (seg_gated_idle w s) s" "tame (seg_kernel w s) s" "tame (seg_probe w b pt s) s"
proof -
  show "tame (seg_probe w b pt s) s" by (cases pt) (simp_all add: seg_probe_def tame_def Let_def del: probe_step.simps)
qed (simp_all add: pass_begin_def seg_runner_def seg_standby_def seg_gate_def go_gated_def seg_gated_idle_def seg_kernel_def,
     simp_all add: tame_def)

lemma tame_callers:
  "tame (stop_poll w dl s) s" "tame (switch_wait w c dl s) s" "tame (switch_report w c dl x s) s" "tame (switch_set w c tk s) s"
  "tame (super_controller_stop w s) s" "tame (super_mode_switch w m own le s) s" "tame (super_probe_motion w s) s"
  "tame (super_set_local w on s) s"
  by (auto simp: stop_poll_def switch_wait_def switch_report_def switch_set_def super_controller_stop_def
        super_mode_switch_def super_probe_motion_def super_set_local_def tame_def Let_def split: option.split)

lemma tame_shutdown: "tame (super_shutdown w s) s"
  by (auto simp: super_shutdown_def Let_def) (simp add: tame_def)

lemma well_reap: "well s \<Longrightarrow> well (reap_locked w s)"
  by (auto simp: well_def reap_locked_def reap_backoff_def respawn_max_s_def respawn_min_s_def backoffs_def Let_def)

lemma length_sha256_hex: "length (sha256_hex d) = 2 * length d"
  by (induction d) (simp_all add: sha256_hex_def)

lemma well_spawn: "well s \<Longrightarrow> well (snd (pass_end (spawn_locked w c s)))"
  by (auto simp: well_def spawn_locked_def report_secret_new_def report_secret_hex_def length_sha256_hex Let_def split: option.split)

lemma well_thread_step:
  assumes "well s"
  shows "well (snd (thread_step w p s))"
proof (cases p)
  case (Waited_Child pid r)
  then show ?thesis using assms well_reap [OF assms] well_tame [of "go_restart w (reap_if w r s)" "reap_if w r s"]
    by (cases r) (simp_all add: reap_if_def)
next
  case (Stop_Waited pid dl k r)
  then show ?thesis
    using assms well_reap [OF assms] well_tame [of "stop_done w k (reap_locked w s)" "reap_locked w s"]
      well_tame [of "stop_done w k s" s]
    by (cases r) (auto simp: seg_stop_waited_def well_def)
next
  case Ask_Enclosure
  have "well (wait_leave_locked s)" using assms by (simp add: well_def)
  then show ?thesis using Ask_Enclosure assms well_spawn
    by (auto simp: seg_enclosure_def split: option.split) (simp_all add: well_def)
next
  case (Stop_Test pid dl k)
  then show ?thesis using assms well_tame [of "stop_done w k s" s] by simp
next
  case (Wait_Child pid)
  then show ?thesis using assms by (auto simp: waitpid_def well_def Let_def split: option.split proc.split)
next
  case (Stop_Wait pid dl k)
  then show ?thesis using assms by (auto simp: waitpid_def well_def Let_def split: option.split proc.split)
qed (use assms in \<open>simp_all add: well_tame [OF tame_loop(1)] well_tame [OF tame_loop(2)] well_tame [OF tame_loop(3)]
      well_tame [OF tame_loop(4)] well_tame [OF tame_loop(5)] well_tame [OF tame_loop(6)] well_tame [OF tame_loop(7)]
      well_tame [OF tame_callers(1)] well_tame [OF tame_callers(2)] well_tame [OF tame_callers(3)] well_tame [OF tame_callers(4)]\<close>)

lemma well_call: "well s \<Longrightarrow> well (snd (begin_call w le c s))"
proof (cases c)
  case C_Start
  then show "well s \<Longrightarrow> well (snd (begin_call w le c s))"
    by (simp add: super_controller_start_def well_def backoffs_def respawn_min_s_def)
qed (simp_all add: well_tame [OF tame_callers(5)] well_tame [OF tame_callers(6)] well_tame [OF tame_callers(7)]
       well_tame [OF tame_callers(8)] well_tame [OF tame_shutdown], simp add: super_controller_restart_def well_def)

lemma reach_well: "reach y \<Longrightarrow> well (shared y)"
proof (induction rule: reach.induct)
  case (reach_init w)
  show ?case by (simp add: super_init_def sup_boot_def well_def backoffs_def respawn_min_s_def)
next
  case (reach_step y a)
  then show ?case
  proof (cases a)
    case (Exits pid st)
    then show ?thesis using reach_step.IH by (auto simp: well_def split: option.split proc.split)
  qed (simp_all add: well_thread_step well_call)
qed

text \<open>The respawn's backoff doubles from one second and stops doubling once it is thirty or more: in
  every reachable state it is one of six values, the largest of them thirty-two seconds, above the
  bound of thirty the code names.\<close>

theorem backoff_values:
  assumes "reach y"
  shows "backoff_s (shared y) \<in> {1, 2, 4, 8, 16, 32}"
  using reach_well [OF assms] by (simp add: well_def backoffs_def)

lemma byte_or_0_inj:
  assumes "i < length a" "i < length b"
  shows "byte_or_0 a i = byte_or_0 b i \<longleftrightarrow> a ! i = b ! i"
  using assms str_bytes_inject [of "[a ! i]" "[b ! i]"] by (simp add: byte_or_0_def str_bytes_def)

lemma secret_diff:
  "fold (\<lambda>i d. d OR (byte_or_0 a i XOR byte_or_0 b i)) is (d :: u8) = 0 \<longleftrightarrow> d = 0 \<and> (\<forall>i\<in>set is. byte_or_0 a i = byte_or_0 b i)"
  by (induction "is" arbitrary: d) (auto simp: or_eq_zero xor_eq_zero)

text \<open>The report channel opens for exactly one text: in every reachable state a presented secret is
  accepted when and only when a secret stands and it is that text, byte for byte.\<close>

theorem report_secret_iff:
  assumes "reach y"
  shows "super_report_secret_ok p (shared y) \<longleftrightarrow> p = Some (report_secret (shared y)) \<and> p \<noteq> Some []"
proof -
  let ?s = "report_secret (shared y)"
  have len: "?s = [] \<or> length ?s = report_secret_hex" using reach_well [OF assms] by (simp add: well_def)
  have eq: "(\<forall>i\<in>set [0..<report_secret_hex]. byte_or_0 ?s i = byte_or_0 x i) \<longleftrightarrow> ?s = x"
    if "length ?s = report_secret_hex" "length x = report_secret_hex" for x
    using that byte_or_0_inj [of _ ?s x] by (auto simp: list_eq_iff_nth_eq)
  show ?thesis
    using len eq by (cases p) (auto simp: super_report_secret_ok_def Let_def secret_diff report_secret_hex_def)
qed

section \<open>The controller's environment\<close>

lemma own_key_starts:
  "starts_with ''GF_PULSE_FD='' e \<Longrightarrow> own_key e" "starts_with ''GF_REPORT_SECRET='' e \<Longrightarrow> own_key e"
  by (simp_all add: own_key_def own_keys_def)

lemma no_own_key: "(\<And>e. P e \<Longrightarrow> own_key e) \<Longrightarrow> filter P (filter (\<lambda>e. \<not> own_key e) es) = []"
  by (auto simp: filter_empty_conv)

text \<open>A controller gets the pulse device and the report secret it was given and no others: whatever
  the daemon's own environment says, the child's has one entry for the device, the held one, and
  one for the secret, the one that was just made.\<close>

theorem child_env_own:
  assumes "build_child_env w c s = Some env" "broker_held s"
  shows "filter (starts_with ''GF_PULSE_FD='') env = [fit 32 (''GF_PULSE_FD='' @ show_nat (a_fd w))] \<and>
     filter (starts_with ''GF_REPORT_SECRET='') env = [''GF_REPORT_SECRET='' @ report_secret s]"
proof -
  have fd: "starts_with ''GF_PULSE_FD='' (fit 32 (''GF_PULSE_FD='' @ x))"
      "\<not> starts_with ''GF_REPORT_SECRET='' (fit 32 (''GF_PULSE_FD='' @ x))" for x
    by (simp_all add: starts_with_def fit_def)
  have sink: "\<not> starts_with ''GF_PULSE_FD='' (fit 160 (''GFSINK='' @ x))"
      "\<not> starts_with ''GF_REPORT_SECRET='' (fit 160 (''GFSINK='' @ x))" for x
    by (simp_all add: starts_with_def fit_def)
  have sec: "\<not> starts_with ''GF_PULSE_FD='' (''GF_REPORT_SECRET='' @ x)" "starts_with ''GF_REPORT_SECRET='' (''GF_REPORT_SECRET='' @ x)" for x
    by (simp_all add: starts_with_def)
  note none = no_own_key [where P = "starts_with ''GF_PULSE_FD=''", OF own_key_starts(1)]
    no_own_key [where P = "starts_with ''GF_REPORT_SECRET=''", OF own_key_starts(2)]
  have m: "a_memory w" using assms(1) by (auto simp: build_child_env_def split: if_splits)
  have env: "filter (\<lambda>e. \<not> own_key e) (a_environ w) @ [fit 32 (''GF_PULSE_FD='' @ show_nat (a_fd w))] @
      (case a_dev w of Some dev \<Rightarrow> (if c = Ctl_Grbl then [fit 160 (''GFSINK='' @ dev)] else []) | None \<Rightarrow> []) @
      [''GF_REPORT_SECRET='' @ report_secret s] = env"
    using assms m unfolding build_child_env_def by (simp only: simp_thms if_True if_False option.inject)
  show ?thesis
    unfolding env [symmetric] filter_append none
    by (cases "a_dev w"; cases "c = Ctl_Grbl";
        simp only: none option.case filter.simps fd sink sec if_True if_False append_Nil append_Nil2 simp_thms)
qed

section \<open>A dead controller is reaped\<close>


section \<open>The interleavings the code does not guard\<close>

text \<open>The look at the enclosure is made with the mutex free, and what was checked before it is not
  checked again. A stop that comes in between reports the controller down, and then the lifecycle
  thread spawns one (or starts moving the gantry for the probe, with the abort not set).\<close>

theorem stop_then_spawn:
  assumes "pcs y 0 = Ask_Enclosure" "free_caller (pcs y n)" "n > 0" "child_pid (shared y) = 0" "\<not> probing (shared y)"
    and "broker_held (shared y)" "a_enclosure w = None" "length (a_random w) = 16" "a_memory w" "a_fork w > 0"
  shows "(let y1 = act_step (Call n C_Stop le w0) y; y2 = act_step (Thread 0 w) y1 in
     pcs y1 n = Done 0 [] \<and> suspended (shared y1) \<and> suspended (shared y2) \<and>
     (if probed (shared y) then child_pid (shared y2) > 0
      else pcs y2 0 = Probe True P_Start \<and> probe_abort (shared y2) = False))"
proof -
  have 1: "act_step (Call n C_Stop le w0) y = set_thread n (Done 0 [], (shared y)\<lparr>suspended := True\<rparr>) y"
    using assms by (simp add: super_controller_stop_def stop_poll_def)
  have hold: "broker_open_locked w s = s" if "broker_held s" for s using that by (simp add: broker_open_locked_def)
  have wait: "broker_held (wait_leave_locked s) = broker_held s" "probed (wait_leave_locked s) = probed s" for s by simp_all
  show ?thesis
    using assms unfolding 1
    by (simp add: seg_enclosure_def spawn_locked_def build_child_env_def report_secret_new_def report_secret_hex_def hold wait Let_def)
qed

text \<open>A shutdown that comes in there leaves a controller behind: the daemon's end of the device is
  closed and the thread told to end, and then the thread opens the device again, spawns a
  controller without a probe of the fresh hold, and ends.\<close>

theorem shutdown_then_spawn:
  assumes "pcs y 0 = Ask_Enclosure" "free_caller (pcs y n)" "n > 0" "child_pid (shared y) = 0" "probed (shared y)"
    and "broker_held (shared y)" "a_enclosure w = None" "length (a_random w) = 16" "a_memory w" "a_fork w > 0"
    and "a_dev w \<noteq> None" "a_open w 0" "a_flock w"
  shows "(let y1 = act_step (Call n C_Shutdown le w0) y; y2 = act_step (Thread 0 w) y1; y3 = act_step (Thread 0 w') y2 in
     pcs y1 n = Done 0 [] \<and> broker_held (shared y1) = False \<and> pcs y3 0 = Gone \<and>
     child_pid (shared y3) > 0 \<and> broker_held (shared y3) \<and> probed (shared y3) = False)"
proof -
  define s1 where "s1 = snd (super_shutdown w0 (shared y))"
  have s1: "child_pid s1 = 0" "broker_held s1 = False" "th_run s1 = False" "probed s1"
      "super_shutdown w0 (shared y) = (Done 0 [], s1)"
    using assms by (simp_all add: s1_def super_shutdown_def stop_done_def Let_def)
  have 1: "act_step (Call n C_Shutdown le w0) y = set_thread n (Done 0 [], s1) y"
    using assms s1(5) by simp
  have opens: "list_ex (a_open w) [0..<30]" using assms(12) by (auto simp: list_ex_iff intro!: bexI [of _ 0])
  define s2 where "s2 = spawn_locked w (want s1) (wait_leave_locked s1)"
  have s2: "child_pid s2 = a_fork w" "broker_held s2" "th_run s2 = False" "probed s2 = False"
    using assms s1 opens
    by (simp_all add: s2_def spawn_locked_def broker_open_locked_def build_child_env_def report_secret_new_def report_secret_hex_def Let_def)
  have 2: "act_step (Thread 0 w) (set_thread n (Done 0 [], s1) y) = set_thread 0 (pass_end s2) (set_thread n (Done 0 [], s1) y)"
    using assms s1(4) by (simp add: seg_enclosure_def s2_def)
  have p: "fst (pass_end s2) = Idle" by (simp add: pass_end_def)
  show ?thesis
    using assms(3,10) s1 s2 p unfolding 1 Let_def 2 by simp
qed

text \<open>The lever pulled during the move of the probe's last rung does not end the probe, it condemns
  the drivers: the move the lever stopped reads as no motion, the rungs are used up before the
  abort is looked at, and the verdict is a motion fault.\<close>

theorem lever_on_last_rung_faults:
  assumes "pcs y 0 = Probe True (P_Move 3)" "free_caller (pcs y n)" "n > 0" "probing (shared y)" "fst (a_probe w) = 0"
  shows "(let y1 = act_step (Call n C_Stop le w0) y; y3 = act_step (Thread 0 w') (act_step (Thread 0 w) y1) in
     probe_abort (shared y1) \<and> pcs y3 0 = Idle \<and> motion_fault (shared y3))"
proof -
  have 1: "pcs (act_step (Call n C_Stop le w0) y) 0 = Probe True (P_Move 3) \<and> probe_abort (shared (act_step (Call n C_Stop le w0) y))"
    using assms by (auto simp: super_controller_stop_def stop_poll_def Let_def)
  define y1 where "y1 = act_step (Call n C_Stop le w0) y"
  have 2: "act_step (Thread 0 w) y1 = set_thread 0 (Probe True (P_End 0), probe_text (snd (a_probe w)) (put_fx [SMove] (shared y1))) y1"
    using assms(5) 1 by (simp add: y1_def seg_probe_def probe_move_def Let_def)
  have 3: "motion_fault (snd (pass_end t)) = motion_fault t" "fst (pass_end t) = Idle" for t
    by (simp_all add: pass_end_def)
  show ?thesis
    using 1 unfolding y1_def [symmetric] Let_def 2
    by (simp add: seg_probe_def 3 pass_probe_end_def probe_verdict_def Let_def)
qed

text \<open>A stop the daemon itself asked for (a wizard's posture change, a closed gate) is counted as a
  death: with a short-lived controller of the selected mode the respawn's backoff doubles.\<close>

theorem deliberate_stop_backs_off:
  assumes "\<not> suspended s" "want s = child_ctl s" "\<not> restart_pending s" "clock w - spawned_at s < healthy_uptime_s"
    and "backoff_s s < respawn_max_s" "k = K_Local \<or> k = K_Gate"
  shows "backoff_s (snd (seg_stop_waited w pid dl k (W_Status st) s)) = 2 * backoff_s s"
proof -
  have "backoff_s (snd (stop_done w k t)) = backoff_s t" for t using tame_stop_done [of w k t t] by (simp add: tame_def)
  then show ?thesis
    using assms by (simp add: seg_stop_waited_def reap_locked_def reap_expected_def reap_backoff_def Let_def)
qed

text \<open>A controller that could not be forked leaves the secret made for it standing, with no controller
  to report.\<close>

theorem failed_fork_keeps_secret:
  assumes "broker_held s" "child_pid s = 0" "length (a_random w) = 16" "a_memory w" "a_fork w < 0"
  shows "child_pid (spawn_locked w c s) = 0 \<and> report_secret (spawn_locked w c s) = sha256_hex (a_random w) \<and>
     length (report_secret (spawn_locked w c s)) = 32"
  using assms
  by (simp add: spawn_locked_def broker_open_locked_def report_secret_new_def build_child_env_def report_secret_hex_def
        length_sha256_hex Let_def)

section \<open>A concrete run\<close>

text \<open>A machine that answers kindly, and its first two steps: the setup gate is open, the device opens.\<close>

definition kind_world :: sworld where
  "kind_world =
     \<lparr>clock = 100, a_wr = (\<lambda>_. True), a_dev = Some ''/dev/glowforge'', a_fd = 7, a_open = (\<lambda>_. True), a_flock = True,
      a_idle = True, a_diag = False, a_gate = (True, []), a_enclosure = None, a_random = replicate 16 0x5a,
      a_environ = [''PATH=/bin'', ''GF_PULSE_FD=3''], a_memory = True, a_data_dir = ''/data'', a_bin = ''/usr/bin/grblHAL_glowforge'',
      a_fork = -1, a_released = False, a_probe = (1, ''ok''), a_lens = (1, ''edge''), a_runner = False, a_runner_after = False,
      a_unmanaged = False, a_cloud = False, a_mode = ''grbl'', a_lease = None, a_persist = True, a_age = 1\<rparr>"

definition at_enclosure :: sys where
  "at_enclosure = act_step (Thread 0 kind_world) (act_step (Thread 0 kind_world) (super_init kind_world))"

lemma list_ex_30: "list_ex (\<lambda>_. True) [0..<30]"
  by (rule iffD2 [OF list_ex_iff], rule bexI [of _ 0]) simp_all

lemmas run_simps = pass_begin_def go_restart_def go_runner_def go_standby_def seg_gate_def go_gated_def converge_def
  may_spawn_def go_broker_def broker_open_locked_def super_init_def sup_boot_def configured_mode_def kind_world_def
  put_fx_def set_thread_def fit_def list_ex_30 Let_def

lemma at_enclosure_facts:
  "pcs at_enclosure 0 = Ask_Enclosure" "pcs at_enclosure 1 = Idle" "child_pid (shared at_enclosure) = 0"
  "\<not> probing (shared at_enclosure)" "broker_held (shared at_enclosure)" "\<not> probed (shared at_enclosure)"
  by (simp_all add: at_enclosure_def run_simps)

text \<open>The probe passes, and the controller is spawned.\<close>

definition late_world :: sworld where
  "late_world = kind_world\<lparr>clock := 200\<rparr>"

definition probed_sys :: sys where
  "probed_sys = fold act_step [Thread 0 kind_world, Thread 0 kind_world, Thread 0 kind_world, Thread 0 kind_world,
     Thread 0 late_world, Thread 0 late_world, Thread 0 late_world, Thread 0 late_world, Thread 0 late_world] at_enclosure"

definition spawn_world :: sworld where
  "spawn_world = late_world\<lparr>a_fork := 4242\<rparr>"

definition running_sys :: sys where
  "running_sys = act_step (Thread 0 spawn_world) probed_sys"

lemmas probe_simps = seg_enclosure_def wait_leave_locked_def wait_enter_locked_def seg_probe_def probe_move_def probe_text_def ladder_s_def pass_end_def
  pass_probe_end_def probe_verdict_def wr_attr_def wr_attr_tries_def spawn_locked_def report_secret_new_def build_child_env_def report_secret_hex_def

lemma probed_facts:
  "pcs probed_sys 0 = Ask_Enclosure" "pcs probed_sys 1 = Idle" "child_pid (shared probed_sys) = 0"
  "\<not> probing (shared probed_sys)" "broker_held (shared probed_sys)" "probed (shared probed_sys)" "th_run (shared probed_sys)"
  "want (shared probed_sys) = Ctl_Grbl" "\<not> local_posture (shared probed_sys)"
  by (simp_all add: probed_sys_def at_enclosure_def late_world_def run_simps probe_simps numeral_eq_Suc)

lemma reach_kind: "reach y \<Longrightarrow> a_fork w < 0 \<Longrightarrow> reach (act_step (Thread n w) y)"
  by (rule reach_step) (simp_all add: fork_ok_def)

lemma reach_probed: "reach at_enclosure" "reach probed_sys"
  by (simp_all add: at_enclosure_def probed_sys_def reach_kind reach_init kind_world_def late_world_def del: act_step.simps)

lemma probed_free: "procs (shared probed_sys) p = None"
  using sup_invD(4) [OF reach_inv [OF reach_probed(2)], of p] probed_facts(3) by (cases "procs (shared probed_sys) p") auto

lemma reach_running: "reach running_sys"
  unfolding running_sys_def
  by (rule reach_step [OF reach_probed(2)]) (simp add: fork_ok_def spawn_world_def probed_free)

lemma running_facts:
  "pcs running_sys 0 = Idle" "child_pid (shared running_sys) = 4242" "procs (shared running_sys) 4242 = Some Alive"
  "th_run (shared running_sys)" "child_ctl (shared running_sys) = Ctl_Grbl" "\<not> local_posture (shared running_sys)"
  "pcs running_sys 1 = Idle" "report_secret (shared running_sys) = sha256_hex (replicate 16 0x5a)"
  using probed_facts
  by (simp_all add: running_sys_def seg_enclosure_def spawn_locked_def broker_open_locked_def build_child_env_def
        report_secret_new_def report_secret_hex_def pass_end_def spawn_world_def late_world_def kind_world_def Let_def)

text \<open>The controller dies, and the lifecycle thread reaps it.\<close>

definition dead_sys :: sys where
  "dead_sys = act_step (Exits 4242 9) running_sys"

lemma dead_facts:
  "reach dead_sys" "pcs dead_sys 0 = Idle" "child_pid (shared dead_sys) = 4242" "procs (shared dead_sys) 4242 = Some (Zombie 9)"
  "th_run (shared dead_sys)"
  using reach_step [OF reach_running, of "Exits 4242 9"] running_facts by (simp_all add: dead_sys_def)

definition reaping_sys :: sys where
  "reaping_sys = act_step (Thread 0 late_world) (act_step (Thread 0 late_world) dead_sys)"

lemma reaping_facts:
  "reach reaping_sys" "pcs reaping_sys 0 = Waited_Child 4242 (W_Status 9)" "child_pid (shared reaping_sys) = 4242"
  using reach_kind [OF reach_kind [OF dead_facts(1)], of late_world late_world 0 0] dead_facts
  by (simp_all add: reaping_sys_def pass_begin_def waitpid_def Let_def late_world_def kind_world_def)

text \<open>The ladder of a dead gantry, up to the move of its last rung.\<close>

definition dead_motion :: "real \<Rightarrow> act" where
  "dead_motion t = Thread 0 (kind_world\<lparr>clock := t, a_probe := (0, ''no motion'')\<rparr>)"

definition last_rung_sys :: sys where
  "last_rung_sys = fold act_step (map dead_motion [100, 100, 100, 100, 200, 200, 200, 300, 300, 400, 400,
     400, 500, 500, 600, 600, 600, 700, 700, 800]) at_enclosure"

lemma last_rung_facts: "pcs last_rung_sys 0 = Probe True (P_Move 3)" "pcs last_rung_sys 1 = Idle" "probing (shared last_rung_sys)"
  by (simp_all add: last_rung_sys_def dead_motion_def at_enclosure_def run_simps probe_simps numeral_eq_Suc)

section \<open>The properties at these points\<close>

theorem one_controller_witness:
  "{pid. procs (shared running_sys) pid \<noteq> None} \<subseteq> {pid. pid = child_pid (shared running_sys) \<and> pid > 0}"
  by (rule one_controller [OF reach_running])

theorem backoff_values_witness: "backoff_s (shared reaping_sys) \<in> {1, 2, 4, 8, 16, 32}"
  by (rule backoff_values [OF reaping_facts(1)])

theorem report_secret_iff_witness:
  "super_report_secret_ok (Some (sha256_hex (replicate 16 0x5a))) (shared running_sys) \<and>
   \<not> super_report_secret_ok (Some ''guess'') (shared running_sys) \<and> \<not> super_report_secret_ok None (shared running_sys)"
proof -
  have len: "length (sha256_hex (replicate 16 0x5a)) = 32" by (simp add: length_sha256_hex)
  have ne: "sha256_hex (replicate 16 0x5a) \<noteq> []" using len by auto
  have "''guess'' \<noteq> sha256_hex (replicate 16 0x5a)"
  proof
    assume "''guess'' = sha256_hex (replicate 16 0x5a)"
    then have "length ''guess'' = 32" using len by (simp only:)
    then show False by simp
  qed
  note ne = ne this
  show ?thesis unfolding report_secret_iff [OF reach_running] running_facts using ne by simp
qed


theorem exit_safed_witness:
  "wrote_pair (new_fx reaping_sys (act_step (Thread 0 late_world) reaping_sys))"
proof -
  have "child_pid (shared (act_step (Thread 0 late_world) reaping_sys)) = 0"
    using reaping_facts(2) plain_child(1) [OF plain_go_restart] by (simp add: reap_if_def)
  then show ?thesis using exit_safed [OF reaping_facts(1), of "Thread 0 late_world"] reaping_facts(3) by simp
qed

theorem spawn_guarded_witness:
  "a_enclosure spawn_world = None \<and> probed (shared probed_sys) \<and> want (shared probed_sys) = Ctl_Grbl \<and>
   \<not> respawn_wait_idle (shared probed_sys)"
proof -
  have "\<exists>av ev. SSpawn Ctl_Grbl av ev \<in> set (new_fx probed_sys (act_step (Thread 0 spawn_world) probed_sys))"
    by (simp add: probed_facts new_fx_def seg_enclosure_def spawn_locked_def broker_open_locked_def build_child_env_def
          report_secret_new_def report_secret_hex_def pass_end_def wait_leave_locked_def spawn_world_def late_world_def kind_world_def Let_def)
  then obtain av ev where "SSpawn Ctl_Grbl av ev \<in> set (new_fx probed_sys (act_step (Thread 0 spawn_world) probed_sys))" by blast
  from spawn_guarded [OF reach_probed(2) this] show ?thesis using probed_facts by simp
qed


theorem child_env_own_witness:
  "\<exists>env. build_child_env kind_world Ctl_Grbl (shared running_sys) = Some env \<and>
     filter (starts_with ''GF_PULSE_FD='') env = [fit 32 (''GF_PULSE_FD='' @ show_nat (a_fd kind_world))]"
proof -
  have held: "broker_held (shared running_sys)"
    by (simp add: running_sys_def probed_facts seg_enclosure_def spawn_locked_def broker_open_locked_def build_child_env_def
        report_secret_new_def report_secret_hex_def pass_end_def spawn_world_def late_world_def kind_world_def Let_def)
  have "\<exists>env. build_child_env kind_world Ctl_Grbl (shared running_sys) = Some env"
    by (simp add: build_child_env_def kind_world_def)
  then show ?thesis using child_env_own [OF _ held, of kind_world Ctl_Grbl] by blast
qed

theorem stop_then_spawn_witness:
  "(let y1 = act_step (Call 1 C_Stop [] kind_world) probed_sys in
     pcs y1 1 = Done 0 [] \<and> child_pid (shared (act_step (Thread 0 spawn_world) y1)) > 0)"
  using stop_then_spawn [OF probed_facts(1), of 1 spawn_world "[]" kind_world] probed_facts
  by (simp add: Let_def free_caller_def spawn_world_def late_world_def kind_world_def del: act_step.simps)

theorem shutdown_then_spawn_witness:
  "(let y1 = act_step (Call 1 C_Shutdown [] kind_world) probed_sys; y2 = act_step (Thread 0 spawn_world) y1 in
     pcs y1 1 = Done 0 [] \<and> child_pid (shared (act_step (Thread 0 kind_world) y2)) > 0)"
  using shutdown_then_spawn [OF probed_facts(1), of 1 spawn_world "[]" kind_world kind_world] probed_facts
  by (simp add: Let_def free_caller_def spawn_world_def late_world_def kind_world_def del: act_step.simps)

theorem lever_on_last_rung_faults_witness:
  "motion_fault (shared (act_step (dead_motion 800) (act_step (dead_motion 800) (act_step (Call 1 C_Stop [] kind_world) last_rung_sys))))"
  using lever_on_last_rung_faults [OF last_rung_facts(1), of 1 "kind_world\<lparr>clock := 800, a_probe := (0, ''no motion'')\<rparr>"
      "[]" kind_world "kind_world\<lparr>clock := 800, a_probe := (0, ''no motion'')\<rparr>"] last_rung_facts
  by (simp add: Let_def free_caller_def dead_motion_def del: act_step.simps)

theorem deliberate_stop_backs_off_witness:
  "backoff_s (snd (seg_stop_waited late_world 4242 0 K_Local (W_Status 15) (sup_boot\<lparr>child_pid := 4242, spawned_at := 190\<rparr>))) = 2"
  using deliberate_stop_backs_off [of "sup_boot\<lparr>child_pid := 4242, spawned_at := 190\<rparr>" late_world K_Local 4242 0 15]
  by (simp add: sup_boot_def late_world_def kind_world_def healthy_uptime_s_def respawn_max_s_def respawn_min_s_def)

end
