(* ===== verification/Events.thy ===== *)
theory Events
  imports Prelude
begin

text \<open>
  The machine's event stream (\<open>src/events.c\<close>): admission to the slots, the edge detector, the ring of
  formatted events, the streams with their places in it, and the sampler's pass. Sequence numbers
  are the target's 32-bit \<open>unsigned long\<close> and wrap; a switch word is 32 bits. A step of the system is
  one stretch under the mutex; a blocked \<open>events_next\<close> is the read of a stream whose answer is \<open>None\<close>.
\<close>

section \<open>Admission\<close>

definition events_max_streams :: nat where "events_max_streams = 3"
definition events_host_slot :: nat where "events_host_slot = events_max_streams"
definition ring_size :: nat where "ring_size = 64"
definition event_text :: nat where "event_text = 256"
definition events_full_gap :: real where "events_full_gap = 1 / 5"
definition events_telemetry_s :: real where "events_telemetry_s = 10"

text \<open>The slot an address gets: its own older one, else the first free one, else none.\<close>

definition free_slot :: "string list \<Rightarrow> nat option" where
  "free_slot s = find (\<lambda>i. s ! i = []) [0..<events_max_streams]"

definition events_admit :: "string list \<Rightarrow> string \<Rightarrow> (nat \<times> bool) option \<times> string list" where
  "events_admit s peer0 =
     (let peer = (if peer0 = [] then ''?'' else peer0) in
      case find (\<lambda>i. s ! i = peer) [0..<events_max_streams] of
        Some i \<Rightarrow> (Some (i, True), s)
      | None \<Rightarrow>
          (case free_slot s of
             None \<Rightarrow> (None, s)
           | Some i \<Rightarrow> (Some (i, False), s[i := fit 64 peer])))"

definition events_release :: "nat \<Rightarrow> string list \<Rightarrow> string list" where
  "events_release i s = (if i < events_max_streams then s[i := []] else s)"

section \<open>The edge detector\<close>

record snap =
  n_switches :: "32 word"
  n_mode :: string
  n_controller :: string
  n_verdict :: string
  n_fire_ok :: bool
  n_armed :: bool
  n_arming :: bool
  n_gstate :: string
  n_alarm :: int
  n_homed_axes :: "32 word"
  n_home_source :: string
  n_released :: bool
  n_lease :: string
  n_button_wait :: bool
  n_update :: string
  n_gate_open :: bool
  n_gate_why :: string
  n_phase :: string
  n_down_c :: real
  n_up_c :: real

definition snap_zero :: snap where
  "snap_zero = \<lparr>n_switches = 0, n_mode = [], n_controller = [], n_verdict = [], n_fire_ok = False,
     n_armed = False, n_arming = False, n_gstate = [], n_alarm = 0, n_homed_axes = 0, n_home_source = [],
     n_released = False, n_lease = [], n_button_wait = False, n_update = [], n_gate_open = False,
     n_gate_why = [], n_phase = [], n_down_c = 0, n_up_c = 0\<rparr>"

text \<open>The switches' bits: the button, both lids in series (set: closed), the interlock (set: open).\<close>

definition sw_button :: "32 word \<Rightarrow> bool" where "sw_button b = bit b 2"
definition sw_lid :: "32 word \<Rightarrow> bool" where "sw_lid b = bit b 3"
definition sw_interlock :: "32 word \<Rightarrow> bool" where "sw_interlock b = bit b 5"

definition is_running :: "snap \<Rightarrow> bool" where
  "is_running s \<longleftrightarrow> n_controller s = ''running''"

text \<open>A member of an object, as text: \<open>"k":v\<close>; a text between quotes.\<close>

definition jkey :: "string \<Rightarrow> string \<Rightarrow> string" where
  "jkey k v = [dquote] @ k @ [dquote] @ '':'' @ v"

definition jtext :: "string \<Rightarrow> string" where
  "jtext v = [dquote] @ v @ [dquote]"

definition jobj :: "string list \<Rightarrow> string" where
  "jobj ms = ''{'' @ (case ms of [] \<Rightarrow> [] | m # r \<Rightarrow> m @ concat (List.map (\<lambda>x. '','' @ x) r)) @ ''}''"

definition hex_digit :: "nat \<Rightarrow> char" where
  "hex_digit d = char_of (if d < 10 then 48 + d else 87 + d)"

fun quote_from :: "nat \<Rightarrow> nat \<Rightarrow> string \<Rightarrow> string" where
  "quote_from len n [] = []"
| "quote_from len n (c # s) =
     (if n + 7 < len then
        if c = dquote \<or> c = backslash then [backslash, c] @ quote_from len (n + 2) s
        else if byte c < 32
        then [backslash, CHR ''u'', CHR ''0'', CHR ''0'', hex_digit (byte c div 16), hex_digit (byte c mod 16)] @
             quote_from len (n + 6) s
        else c # quote_from len (n + 1) s
      else [])"

definition quote :: "nat \<Rightarrow> string \<Rightarrow> string" where
  "quote len s = quote_from len 0 s"

type_synonym event = "string \<times> string"

definition events_button :: "32 word \<Rightarrow> 32 word \<Rightarrow> snap \<Rightarrow> event list" where
  "events_button was now st =
     (if sw_button was = sw_button now then []
      else if n_arming st \<or> n_armed st \<or> n_lease st \<noteq> [] \<or> n_button_wait st then []
      else [(''button'', jobj [jkey ''pressed'' (json_bool (sw_button now))])])"

text \<open>\<open>%.1f\<close> of a temperature is a parameter, the C library's rendering.\<close>

definition events_telemetry :: "(real \<Rightarrow> string) \<Rightarrow> snap \<Rightarrow> nat \<Rightarrow> string" where
  "events_telemetry fmt_f1 s len =
     fit len (jobj [jkey ''phase'' (jtext (n_phase s)), jkey ''verdict'' (jtext (n_verdict s)),
       jkey ''fire_ok'' (json_bool (n_fire_ok s)), jkey ''down_c'' (fmt_f1 (n_down_c s)),
       jkey ''up_c'' (fmt_f1 (n_up_c s)),
       jkey ''state'' (jtext (if n_gstate s \<noteq> [] then n_gstate s else n_controller s)),
       jkey ''lid'' (jtext (if sw_lid (n_switches s) then ''closed'' else ''open''))])"

text \<open>The edges in the order of the code, one group of the function each.\<close>

definition diff_switches :: "snap \<Rightarrow> snap \<Rightarrow> event list" where
  "diff_switches a b =
     (if sw_lid (n_switches a) \<noteq> sw_lid (n_switches b)
      then [(''lid'', fit 160 (jobj [jkey ''closed'' (json_bool (sw_lid (n_switches b)))]))] else []) @
     (if sw_interlock (n_switches a) \<noteq> sw_interlock (n_switches b)
      then [(''interlock'', fit 160 (jobj [jkey ''ok'' (json_bool (\<not> sw_interlock (n_switches b)))]))] else [])"

definition diff_controller :: "snap \<Rightarrow> snap \<Rightarrow> event list" where
  "diff_controller a b =
     (if n_mode a \<noteq> n_mode b then [(''mode.changed'', fit 160 (jobj [jkey ''mode'' (jtext (n_mode b))]))] else []) @
     (if is_running a \<noteq> is_running b \<or> (\<not> is_running b \<and> n_controller a \<noteq> n_controller b)
      then [(if is_running b then ''controller.started'' else ''controller.stopped'',
             fit 160 (jobj [jkey ''mode'' (jtext (n_mode b)), jkey ''state'' (jtext (n_controller b))]))] else [])"

definition diff_verdict :: "snap \<Rightarrow> snap \<Rightarrow> event list" where
  "diff_verdict a b =
     (if n_verdict a \<noteq> n_verdict b \<or> n_fire_ok a \<noteq> n_fire_ok b
      then [(''cooling.verdict'',
             fit 160 (jobj [jkey ''verdict'' (jtext (n_verdict b)), jkey ''fire_ok'' (json_bool (n_fire_ok b))]))] else [])"

definition held_state :: "snap \<Rightarrow> bool" where
  "held_state s \<longleftrightarrow> n_gstate s = ''Hold'' \<or> n_gstate s = ''Door''"

definition diff_paused :: "snap \<Rightarrow> snap \<Rightarrow> event list" where
  "diff_paused a b =
     (if n_armed a \<and> n_armed b then
        if \<not> held_state a \<and> held_state b
        then [(''job.paused'', fit 160 (jobj [jkey ''reason''
                (jtext (if n_gstate b = ''Door'' then ''lid'' else if n_fire_ok b then ''hold'' else ''cooling''))]))]
        else if held_state a \<and> \<not> held_state b \<and> n_gstate b \<noteq> ''Alarm'' then [(''job.resumed'', jobj [])]
        else []
      else [])"

definition diff_job :: "snap \<Rightarrow> snap \<Rightarrow> event list" where
  "diff_job a b =
     (if \<not> n_arming a \<and> n_arming b then [(''job.arming'', jobj [])] else []) @
     (if \<not> n_armed a \<and> n_armed b then [(''job.armed'', jobj [])] else []) @
     diff_paused a b @
     (if n_armed a \<and> \<not> n_armed b
      then [(''job.ended'', fit 160 (jobj [jkey ''result'' (jtext (if n_alarm b \<noteq> 0 then ''alarm'' else ''ended''))]))]
      else []) @
     (if n_alarm b \<noteq> 0 \<and> n_alarm a \<noteq> n_alarm b
      then [(''alarm'', fit 160 (jobj [jkey ''code'' (show_int (n_alarm b))]))] else [])"

definition both_homed :: "snap \<Rightarrow> bool" where
  "both_homed s \<longleftrightarrow> bit (n_homed_axes s) 0 \<and> bit (n_homed_axes s) 1"

definition diff_homing :: "snap \<Rightarrow> snap \<Rightarrow> event list" where
  "diff_homing a b =
     (let left = (n_gstate a = ''Home'' \<and> n_gstate b \<noteq> ''Home'') in
      (if n_gstate a \<noteq> ''Home'' \<and> n_gstate b = ''Home'' then [(''homing.started'', jobj [])] else []) @
      (if both_homed b \<and> (\<not> both_homed a \<or> left)
       then [(''homing.completed'', fit 160 (jobj [jkey ''source'' (jtext (n_home_source b)),
                jkey ''axes'' (show_nat (unat (n_homed_axes b)))]))]
       else if left then [(''homing.failed'', jobj [])]
       else []))"

definition diff_rest :: "snap \<Rightarrow> snap \<Rightarrow> event list" where
  "diff_rest a b =
     (if n_released a \<noteq> n_released b
      then [(if n_released b then ''motors.released'' else ''motors.energized'', jobj [])] else []) @
     (if n_lease a \<noteq> n_lease b
      then [(''lease.changed'', fit 160 (jobj [jkey ''owner'' (if n_lease b \<noteq> [] then jtext (n_lease b) else ''null'')]))]
      else []) @
     (if n_update b \<noteq> [] \<and> n_update a \<noteq> n_update b
      then [(''update.available'', fit 160 (jobj [jkey ''version'' (jtext (quote 64 (n_update b)))]))] else []) @
     (if n_gate_open a \<noteq> n_gate_open b
      then [(''setup.flag'', fit 160 (jobj [jkey ''gate_open'' (json_bool (n_gate_open b)),
               jkey ''reason'' (jtext (quote 112 (if n_gate_open b then [] else n_gate_why b)))]))] else [])"

definition events_diff :: "snap \<Rightarrow> snap \<Rightarrow> event list" where
  "events_diff a b =
     diff_switches a b @ diff_controller a b @ diff_verdict a b @ diff_job a b @ diff_homing a b @ diff_rest a b"

section \<open>The ring\<close>

record evring =
  ring :: "string list"
  head :: "32 word"

definition event_line :: "32 word \<Rightarrow> string \<Rightarrow> string \<Rightarrow> string" where
  "event_line n name data =
     fit event_text (''id: '' @ show_nat (unat n) @ [newline] @ ''event: '' @ name @ [newline] @
                     ''data: '' @ data @ [newline, newline])"

definition publish_locked :: "event \<Rightarrow> 'a evring_scheme \<Rightarrow> 'a evring_scheme" where
  "publish_locked e r =
     r\<lparr>ring := (ring r)[unat (head r mod of_nat ring_size) := event_line (head r) (fst e) (snd e)], head := head r + 1\<rparr>"

text \<open>What a reader at a place finds there: nothing new, how many events it has lost, or the next one.\<close>

datatype got = Nothing_New | Lost "32 word" | Event string

definition ring_fetch :: "32 word \<Rightarrow> 'a evring_scheme \<Rightarrow> got \<times> 32 word" where
  "ring_fetch nxt r =
     (if nxt = head r then (Nothing_New, nxt)
      else if head r - nxt > of_nat ring_size
      then (Lost (head r - of_nat ring_size - nxt), head r - of_nat ring_size)
      else (Event (ring r ! unat (nxt mod of_nat ring_size)), nxt + 1))"

section \<open>The streams\<close>

record stream =
  c_slot :: nat
  c_gen :: "32 word"
  c_next :: "32 word"
  greeted :: bool
  farewelled :: bool

record events = evring +
  slots :: "string list"
  slot_gen :: "32 word list"
  listeners :: int
  stopping :: bool
  started :: bool
  host_open :: bool

definition events_boot :: events where
  "events_boot = \<lparr>ring = replicate ring_size [], head = 1, slots = replicate events_max_streams [],
     slot_gen = replicate (Suc events_max_streams) 0, listeners = 0, stopping = False, started = False,
     host_open = False\<rparr>"

text \<open>An open stream, or the reason there is none. The caller of the extension host passes no address.\<close>

definition take_slot :: "string option \<Rightarrow> events \<Rightarrow> nat option \<times> events" where
  "take_slot peer s =
     (case peer of
        None \<Rightarrow> if stopping s then (None, s\<lparr>host_open := False\<rparr>) else (Some events_host_slot, s\<lparr>host_open := True\<rparr>)
      | Some p \<Rightarrow>
          if stopping s then (None, s)
          else let r = events_admit (slots s) p in (map_option fst (fst r), s\<lparr>slots := snd r\<rparr>))"

definition full_why :: string where
  "full_why = ''every event stream is taken ('' @ show_nat events_max_streams @ '' in all): fan out from one client''"

definition open_slot :: "bool \<Rightarrow> string option \<Rightarrow> nat \<Rightarrow> events \<Rightarrow> (string + stream) \<times> events" where
  "open_slot mem peer len s =
     (if \<not> mem then (Inl (fit len ''out of memory''), s)
      else case take_slot peer s of
        (None, s1) \<Rightarrow> (Inl (fit len (if stopping s1 then ''the daemon is stopping'' else full_why)), s1)
      | (Some i, s1) \<Rightarrow>
          (let g = slot_gen s1 ! i + 1 in
           (Inr \<lparr>c_slot = i, c_gen = g, c_next = head s1, greeted = False, farewelled = False\<rparr>,
            s1\<lparr>slot_gen := (slot_gen s1)[i := g], listeners := listeners s1 + 1\<rparr>)))"

definition owns_slot :: "stream \<Rightarrow> events \<Rightarrow> bool" where
  "owns_slot c s \<longleftrightarrow> slot_gen s ! c_slot c = c_gen c"

definition events_close :: "stream \<Rightarrow> events \<Rightarrow> events" where
  "events_close c s =
     (let s1 = (if \<not> owns_slot c s then s
                else if c_slot c = events_host_slot then s\<lparr>host_open := False\<rparr>
                else s\<lparr>slots := events_release (c_slot c) (slots s)\<rparr>)
      in s1\<lparr>listeners := listeners s1 - 1\<rparr>)"

text \<open>
  The next bytes of a stream, for a caller's buffer of \<open>room\<close> bytes: \<open>None\<close> while it waits for news
  (\<open>late\<close>: the wait has reached its timeout).
\<close>

definition hello_text :: string where
  "hello_text = ''retry: 5000'' @ [newline] @ ''event: hello'' @ [newline] @ ''data: '' @
     jobj [jkey ''max_streams'' (show_nat events_max_streams)] @ [newline, newline]"

definition bye_text :: string where
  "bye_text = ''event: bye'' @ [newline] @ ''data: '' @ jobj [jkey ''reason'' (jtext ''replaced'')] @ [newline, newline]"

text \<open>What a call of \<open>events_next\<close> answers, and its text; \<open>Ended\<close> is its -1.\<close>

datatype answer = Hello | Bye | Ended | Got got

definition got_text :: "got \<Rightarrow> string" where
  "got_text g = (case g of
     Nothing_New \<Rightarrow> '': keep-alive'' @ [newline, newline]
   | Lost n \<Rightarrow> '': '' @ show_nat (unat n) @ '' events were lost to a slow reader'' @ [newline, newline]
   | Event t \<Rightarrow> t)"

definition answer_text :: "nat \<Rightarrow> answer \<Rightarrow> string option" where
  "answer_text room a = (case a of
     Hello \<Rightarrow> Some (fit room hello_text) | Bye \<Rightarrow> Some (fit room bye_text)
   | Ended \<Rightarrow> None | Got g \<Rightarrow> Some (fit room (got_text g)))"

definition events_next :: "bool \<Rightarrow> stream \<Rightarrow> 'a events_scheme \<Rightarrow> answer option \<times> stream" where
  "events_next late c s =
     (if \<not> greeted c \<and> \<not> stopping s then (Some Hello, c\<lparr>greeted := True\<rparr>)
      else if stopping s then (Some Ended, c)
      else if slot_gen s ! c_slot c \<noteq> c_gen c
      then if farewelled c then (Some Ended, c) else (Some Bye, c\<lparr>farewelled := True\<rparr>)
      else if c_next c = head s \<and> \<not> late then (None, c)
      else (Some (Got (fst (ring_fetch (c_next c) s))), c\<lparr>c_next := snd (ring_fetch (c_next c) s)\<rparr>))"

section \<open>The sampler\<close>

record sampler =
  have_prev :: bool
  prev :: snap
  bits :: "32 word"
  full_at :: real
  tick_at :: real

text \<open>
  One pass: the button's edge, then, when a full look is due, the edges of the state, then the
  telemetry. \<open>now_bits\<close> and \<open>gather\<close> are what the reads found at the time \<open>t\<close>.
\<close>

definition look_full :: "real \<Rightarrow> sampler \<Rightarrow> bool" where
  "look_full t sa \<longleftrightarrow> \<not> have_prev sa \<or> t - full_at sa \<ge> events_full_gap"

definition look_events :: "(real \<Rightarrow> string) \<Rightarrow> 32 word \<Rightarrow> real \<Rightarrow> (snap \<Rightarrow> snap) \<Rightarrow> sampler \<Rightarrow> event list \<times> sampler" where
  "look_events fmt_f1 now_bits t gather sa =
     (let full = look_full t sa; had = have_prev sa;
          tick0 = (if had then tick_at sa else t);
          cur = gather (if had then prev sa else snap_zero);
          tele = full \<and> had \<and> t - tick0 \<ge> events_telemetry_s;
          es = (if had then events_button (bits sa) now_bits (prev sa) else []) @
               (if full \<and> had then events_diff (prev sa) cur else []) @
               (if tele then [(''telemetry.tick'', events_telemetry fmt_f1 cur 200)] else [])
      in (es, \<lparr>have_prev = True, prev = (if full then cur else prev sa), bits = now_bits,
               full_at = (if full then t else full_at sa), tick_at = (if tele then t else tick0)\<rparr>))"

section \<open>The system\<close>

text \<open>
  The streams are the open ones, by name. \<open>shown\<close> is what has been published and \<open>told\<close> what the
  streams were answered, for the properties only: no step reads them.
\<close>

record evsys =
  ev :: events
  streams :: "nat \<Rightarrow> stream option"
  smp :: sampler
  shown :: "string list"
  told :: "(nat \<times> answer) list"

datatype evact =
    Opens nat bool "string option"
  | Closes nat
  | Reads nat bool
  | Publishes event
  | Rests
  | Looks "32 word" real "snap \<Rightarrow> snap"
  | Stops
  | Inits bool

definition show_one :: "event \<Rightarrow> evsys \<Rightarrow> evsys" where
  "show_one e y = y\<lparr>ev := publish_locked e (ev y), shown := shown y @ [event_line (head (ev y)) (fst e) (snd e)]\<rparr>"

definition show_all :: "event list \<Rightarrow> evsys \<Rightarrow> evsys" where
  "show_all es y = fold show_one es y"

fun ev_step :: "(real \<Rightarrow> string) \<Rightarrow> evact \<Rightarrow> evsys \<Rightarrow> evsys" where
  "ev_step f (Opens n mem peer) y =
     (if streams y n \<noteq> None then y
      else case open_slot mem peer 128 (ev y) of
        (Inl why, s) \<Rightarrow> y\<lparr>ev := s\<rparr>
      | (Inr c, s) \<Rightarrow> y\<lparr>ev := s, streams := (streams y)(n \<mapsto> c)\<rparr>)"
| "ev_step f (Closes n) y =
     (case streams y n of None \<Rightarrow> y
      | Some c \<Rightarrow> y\<lparr>ev := events_close c (ev y), streams := (streams y)(n := None)\<rparr>)"
| "ev_step f (Reads n late) y =
     (case streams y n of None \<Rightarrow> y
      | Some c \<Rightarrow> (case events_next late c (ev y) of
           (None, c') \<Rightarrow> y
         | (Some t, c') \<Rightarrow> y\<lparr>streams := (streams y)(n \<mapsto> c'), told := told y @ [(n, t)]\<rparr>))"
| "ev_step f (Publishes e) y = (if listeners (ev y) = 0 then y else show_one e y)"
| "ev_step f Rests y = (if listeners (ev y) = 0 then y\<lparr>smp := (smp y)\<lparr>have_prev := False\<rparr>\<rparr> else y)"
| "ev_step f (Looks b t g) y =
     (let r = look_events f b t g (smp y) in (show_all (fst r) y)\<lparr>smp := snd r\<rparr>)"
| "ev_step f Stops y = y\<lparr>ev := (ev y)\<lparr>stopping := True, started := False\<rparr>\<rparr>"
| "ev_step f (Inits ok) y = y\<lparr>ev := (ev y)\<lparr>stopping := False, started := started (ev y) \<or> ok\<rparr>\<rparr>"

definition ev_start :: evsys where
  "ev_start = \<lparr>ev = events_boot, streams = (\<lambda>_. None),
     smp = \<lparr>have_prev = False, prev = snap_zero, bits = 0, full_at = 0, tick_at = 0\<rparr>, shown = [], told = []\<rparr>"

end
