(* ===== verification/EventStreams.thy ===== *)
theory EventStreams
  imports Events
begin

text \<open>
  The ring of events against the unbounded log of everything published, and what the streams that
  read from it are told; the slots the streams hold.
\<close>

section \<open>A bounded window on a log\<close>

text \<open>What the unbounded log answers to a reader at a place.\<close>

definition spec_fetch :: "string list \<Rightarrow> nat \<Rightarrow> got \<times> nat" where
  "spec_fetch lg p =
     (if p = length lg then (Nothing_New, p)
      else if length lg - p > ring_size then (Lost (of_nat (length lg - ring_size - p)), length lg - ring_size)
      else (Event (lg ! p), Suc p))"

text \<open>
  The place a reader has reached when every answer it got is accounted for: an event is the log's
  next one, a loss stands for as many of the log's as it says.
\<close>

fun account :: "string list \<Rightarrow> nat \<Rightarrow> got list \<Rightarrow> nat option" where
  "account lg p [] = Some p"
| "account lg p (Nothing_New # gs) = account lg p gs"
| "account lg p (Lost n # gs) = account lg (p + unat n) gs"
| "account lg p (Event t # gs) = (if p < length lg \<and> t = lg ! p then account lg (Suc p) gs else None)"

lemma account_append: "account lg p (gs @ hs) = Option.bind (account lg p gs) (\<lambda>q. account lg q hs)"
  by (induction lg p gs rule: account.induct) auto

lemma account_longer: "account lg p gs = Some q \<Longrightarrow> account (lg @ ls) p gs = Some q"
  by (induction lg p gs rule: account.induct) (auto simp: nth_append split: if_splits)

text \<open>The contract of a window: a put extends the log it shows, a fetch answers as the log does.\<close>

locale log_window =
  fixes rep :: "string list \<Rightarrow> 'r \<Rightarrow> bool"
    and put_in :: "'e \<Rightarrow> 'r \<Rightarrow> 'r"
    and line :: "'e \<Rightarrow> 'r \<Rightarrow> string"
    and fetch :: "'p \<Rightarrow> 'r \<Rightarrow> got \<times> 'p"
    and place :: "nat \<Rightarrow> 'p"
  assumes put_rep: "rep lg r \<Longrightarrow> rep (lg @ [line e r]) (put_in e r)"
    and fetch_spec: "rep lg r \<Longrightarrow> p \<le> length lg \<Longrightarrow> length lg < 2 ^ 32 \<Longrightarrow>
      fetch (place p) r = (fst (spec_fetch lg p), place (snd (spec_fetch lg p)))"
begin

lemma fetch_account:
  assumes "rep lg r" "p \<le> length lg" "length lg < 2 ^ 32" "account lg p0 gs = Some p"
  shows "\<exists>p' \<le> length lg. snd (fetch (place p) r) = place p' \<and> account lg p0 (gs @ [fst (fetch (place p) r)]) = Some p'"
proof -
  have lost: "unat (of_nat (length lg - ring_size - p) :: 32 word) = length lg - ring_size - p"
    using assms(3) by (simp add: unat_of_nat)
  have "snd (spec_fetch lg p) \<le> length lg" using assms(2) by (auto simp: spec_fetch_def)
  moreover have "account lg p [fst (spec_fetch lg p)] = Some (snd (spec_fetch lg p))"
    using assms(2) lost by (auto simp: spec_fetch_def)
  ultimately show ?thesis using assms(4) fetch_spec [OF assms(1-3)] by (auto simp: account_append)
qed

end

definition ring_of :: "string list \<Rightarrow> 'a evring_scheme \<Rightarrow> bool" where
  "ring_of lg r \<longleftrightarrow> length (ring r) = ring_size \<and> head r = of_nat (Suc (length lg)) \<and>
     (\<forall>k < length lg. length lg \<le> k + ring_size \<longrightarrow> ring r ! (Suc k mod ring_size) = lg ! k)"

lemma unat_mod_64: "unat ((of_nat n :: 32 word) mod of_nat ring_size) = n mod ring_size"
proof -
  have "unat ((of_nat n :: 32 word) mod of_nat ring_size) = (n mod 2 ^ 32) mod 64"
    by (simp add: unat_mod_distrib unat_of_nat ring_size_def)
  also have "\<dots> = n mod 64" by (rule mod_mod_cancel) simp
  finally show ?thesis by (simp add: ring_size_def)
qed

lemma mod_window:
  assumes "k < n" "n \<le> k + ring_size" "n mod ring_size = k mod ring_size"
  shows "n = k + ring_size"
proof -
  have "ring_size dvd n - k" using assms(1,3) by (simp add: mod_eq_dvd_iff_nat)
  then obtain m where "n - k = ring_size * m" by (auto simp: dvd_def)
  moreover have "m = 1 \<or> m \<ge> 2 \<or> m = 0" by auto
  ultimately show ?thesis using assms(1,2) by (auto simp: ring_size_def)
qed

lemma ring_put:
  assumes "ring_of lg r"
  shows "ring_of (lg @ [event_line (head r) (fst e) (snd e)]) (publish_locked e r)"
proof -
  let ?n = "length lg"
  have len: "length (ring r) = ring_size" and hd: "head r = of_nat (Suc ?n)"
    and at: "\<And>k. k < ?n \<Longrightarrow> ?n \<le> k + ring_size \<Longrightarrow> ring r ! (Suc k mod ring_size) = lg ! k"
    using assms by (auto simp: ring_of_def)
  have idx: "unat (head r mod of_nat ring_size) = Suc ?n mod ring_size" unfolding hd by (rule unat_mod_64)
  have lt: "Suc ?n mod ring_size < ring_size" by (simp add: ring_size_def)
  have old: "ring (publish_locked e r) ! (Suc k mod ring_size) = lg ! k"
    if "k < ?n" "Suc ?n \<le> k + ring_size" for k
  proof -
    have "Suc ?n mod ring_size \<noteq> Suc k mod ring_size" using mod_window [of "Suc k" "Suc ?n"] that by auto
    then show ?thesis using at [of k] that by (simp add: publish_locked_def idx)
  qed
  have new: "ring (publish_locked e r) ! (Suc ?n mod ring_size) = event_line (head r) (fst e) (snd e)"
    using lt by (simp add: publish_locked_def idx len)
  show ?thesis
    unfolding ring_of_def using old new
    by (auto simp: publish_locked_def len hd nth_append less_Suc_eq)
qed

lemma ring_get:
  assumes "ring_of lg r" "p \<le> length lg" "length lg - p < 2 ^ 32"
  shows "ring_fetch (of_nat (Suc p)) r = (fst (spec_fetch lg p), of_nat (Suc (snd (spec_fetch lg p))))"
proof -
  let ?n = "length lg"
  have hd: "head r = of_nat (Suc ?n)" using assms by (simp add: ring_of_def)
  have gap: "head r - of_nat (Suc p) = (of_nat (?n - p) :: 32 word)" using assms(2) by (simp add: hd of_nat_diff)
  have ugap: "unat (of_nat (?n - p) :: 32 word) = ?n - p" using assms(3) by (simp add: unat_of_nat)
  have far: "(of_nat (?n - p) :: 32 word) > of_nat ring_size \<longleftrightarrow> ?n - p > ring_size"
    unfolding word_less_nat_alt ugap by (simp add: ring_size_def)
  note farh = far [unfolded gap [symmetric]]
  have same: "of_nat (Suc p) = head r \<longleftrightarrow> p = ?n"
  proof
    assume "of_nat (Suc p) = head r"
    then have "(of_nat (?n - p) :: 32 word) = 0" unfolding gap [symmetric] by simp
    then have "?n - p = 0" using ugap by simp
    then show "p = ?n" using assms(2) by simp
  qed (simp add: hd)
  consider (none) "p = ?n" | (lost) "p \<noteq> ?n" "?n - p > ring_size" | (one) "p \<noteq> ?n" "?n - p \<le> ring_size" by linarith
  then show ?thesis
  proof cases
    case none
    then show ?thesis using same by (simp add: ring_fetch_def spec_fetch_def)
  next
    case lost
    have ring_le: "ring_size \<le> ?n" using lost(2) by simp
    have new: "head r - of_nat ring_size = (of_nat (Suc (?n - ring_size)) :: 32 word)"
      using ring_le by (simp add: hd of_nat_diff)
    have "head r - of_nat ring_size - of_nat (Suc p) = (of_nat (?n - ring_size - p) :: 32 word)"
      unfolding new using lost(2) by (simp add: of_nat_diff)
    then show ?thesis using lost(2) same lost(1) farh new
      unfolding ring_fetch_def spec_fetch_def by (simp only: if_True if_False fst_conv snd_conv)
  next
    case one
    have "ring r ! (Suc p mod ring_size) = lg ! p" using assms one by (auto simp: ring_of_def)
    then show ?thesis using one same farh unat_mod_64 [of "Suc p"]
      unfolding ring_fetch_def spec_fetch_def by (simp add: not_less [symmetric])
  qed
qed

interpretation window: log_window ring_of publish_locked "\<lambda>e r. event_line (head r) (fst e) (snd e)"
  ring_fetch "\<lambda>p. of_nat (Suc p)"
  by unfold_locales (simp_all only: ring_put ring_get less_imp_diff_less)

section \<open>What a stream is told\<close>

definition gots :: "nat \<Rightarrow> evsys \<Rightarrow> got list" where
  "gots n y = concat (List.map (\<lambda>(m, a). if m = n then (case a of Got g \<Rightarrow> [g] | _ \<Rightarrow> []) else []) (told y))"

lemma ring_of_cong: "ring r = ring r' \<Longrightarrow> head r = head r' \<Longrightarrow> ring_of lg r = ring_of lg r'"
  by (simp add: ring_of_def)

lemma take_slot_ring: "ring (snd (take_slot peer s)) = ring s" "head (snd (take_slot peer s)) = head s"
  by (auto simp: take_slot_def Let_def split: option.splits)

lemma open_slot_ring: "ring (snd (open_slot mem peer len s)) = ring s" "head (snd (open_slot mem peer len s)) = head s"
  using take_slot_ring [of peer s] by (auto simp: open_slot_def Let_def split: option.splits prod.splits)

lemma open_slot_next: "open_slot mem peer len s = (Inr c, s') \<Longrightarrow> c_next c = head s"
  using take_slot_ring(2) [of peer s] by (auto simp: open_slot_def Let_def split: option.splits prod.splits if_splits)

lemma close_ring [simp]: "ring (events_close c s) = ring s" "head (events_close c s) = head s"
  by (auto simp: events_close_def Let_def)

lemma show_all_frame [simp]:
  "streams (show_all es y) = streams y" "told (show_all es y) = told y" "smp (show_all es y) = smp y"
  "listeners (ev (show_all es y)) = listeners (ev y)" "slots (ev (show_all es y)) = slots (ev y)"
  "slot_gen (ev (show_all es y)) = slot_gen (ev y)" "stopping (ev (show_all es y)) = stopping (ev y)"
  "host_open (ev (show_all es y)) = host_open (ev y)"
  unfolding show_all_def by (induction es arbitrary: y) (simp_all add: show_one_def publish_locked_def)

lemma show_all_shown: "\<exists>ls. shown (show_all es y) = shown y @ ls"
  unfolding show_all_def
proof (induction es arbitrary: y)
  case (Cons e es)
  show ?case using Cons [of "show_one e y"] by (auto simp: show_one_def)
qed simp

lemma show_all_ring: "ring_of (shown y) (ev y) \<Longrightarrow> ring_of (shown (show_all es y)) (ev (show_all es y))"
  unfolding show_all_def
proof (induction es arbitrary: y)
  case (Cons e es)
  have "ring_of (shown (show_one e y)) (ev (show_one e y))"
    using window.put_rep [OF Cons.prems, of e] by (simp add: show_one_def)
  then show ?case using Cons.IH by simp
qed simp

lemma show_one_all: "show_one e y = show_all [e] y"
  by (simp add: show_all_def)

lemma ev_step_shown: "\<exists>ls. shown (ev_step f a y) = shown y @ ls"
  using show_all_shown
  by (cases a) (auto simp: show_one_all Let_def split: option.splits prod.splits sum.splits)

lemma ring_of_flags [simp]: "ring_of lg (s\<lparr>stopping := b, started := c\<rparr>) = ring_of lg s"
  by (simp add: ring_of_def)

lemma ev_step_ring: "ring_of (shown y) (ev y) \<Longrightarrow> ring_of (shown (ev_step f a y)) (ev (ev_step f a y))"
proof (cases a)
  case (Opens n mem peer)
  assume "ring_of (shown y) (ev y)"
  then show ?thesis using Opens open_slot_ring [of mem peer 128 "ev y"]
    by (auto split: prod.splits sum.splits elim: ring_of_cong [THEN iffD1, rotated -1])
next
  case (Closes n)
  assume "ring_of (shown y) (ev y)"
  then show ?thesis using Closes by (auto split: option.splits elim: ring_of_cong [THEN iffD1, rotated -1])
qed (auto simp: show_one_all Let_def show_all_ring
      split: option.splits prod.splits elim: ring_of_cong [THEN iffD1, rotated -1])

text \<open>A stream followed from a state on: its place, reached with everything it was told accounted for.\<close>

definition follows :: "nat \<Rightarrow> nat \<Rightarrow> nat \<Rightarrow> evsys \<Rightarrow> bool" where
  "follows n p0 g0 y \<longleftrightarrow> ring_of (shown y) (ev y) \<and> g0 \<le> length (gots n y) \<and>
     (\<exists>c p. streams y n = Some c \<and> p \<le> length (shown y) \<and> c_next c = of_nat (Suc p) \<and>
        account (shown y) p0 (drop g0 (gots n y)) = Some p)"

lemma follows_keep:
  assumes "follows n p0 g0 y" "ring_of (shown y') (ev y')" "shown y' = shown y @ ls" "gots n y' = gots n y"
    and "\<And>c. streams y n = Some c \<Longrightarrow> \<exists>c'. streams y' n = Some c' \<and> c_next c' = c_next c"
  shows "follows n p0 g0 y'"
proof -
  obtain c p where c: "streams y n = Some c" "p \<le> length (shown y)" "c_next c = of_nat (Suc p)"
    "account (shown y) p0 (drop g0 (gots n y)) = Some p" and g: "g0 \<le> length (gots n y)"
    using assms(1) unfolding follows_def by blast
  obtain c' where c': "streams y' n = Some c'" "c_next c' = c_next c" using assms(5) [OF c(1)] by blast
  have "account (shown y') p0 (drop g0 (gots n y')) = Some p"
    unfolding assms(3,4) by (rule account_longer [OF c(4)])
  moreover have "p \<le> length (shown y')" using c(2) assms(3) by simp
  ultimately show ?thesis unfolding follows_def
    using assms(2,4) g by (intro conjI exI [of _ c'] exI [of _ p]) (simp_all only: c' c(3))
qed

lemma gots_told: "told y' = told y @ [(m, a)] \<Longrightarrow>
    gots n y' = gots n y @ (if m = n then (case a of Got g \<Rightarrow> [g] | _ \<Rightarrow> []) else [])"
  by (simp add: gots_def)

lemma gots_cong: "told y' = told y \<Longrightarrow> gots n y' = gots n y"
  by (simp add: gots_def)

lemma events_next_cases:
  "events_next late c s = (Some a, c') \<Longrightarrow>
    a = Got (fst (ring_fetch (c_next c) s)) \<and> c_next c' = snd (ring_fetch (c_next c) s) \<or>
    (case a of Got g \<Rightarrow> False | _ \<Rightarrow> True) \<and> c_next c' = c_next c"
  by (cases "ring_fetch (c_next c) s") (simp add: events_next_def split: if_split_asm, auto)

lemma follows_read:
  assumes "follows n p0 g0 y" "streams y n = Some c" "events_next late c (ev y) = (Some a, c')" "length (shown y) < 2 ^ 32"
  shows "follows n p0 g0 (y\<lparr>streams := (streams y)(n \<mapsto> c'), told := told y @ [(n, a)]\<rparr>)"
proof -
  let ?y' = "y\<lparr>streams := (streams y)(n \<mapsto> c'), told := told y @ [(n, a)]\<rparr>"
  obtain p where p: "p \<le> length (shown y)" "c_next c = of_nat (Suc p)" "account (shown y) p0 (drop g0 (gots n y)) = Some p"
    and r: "ring_of (shown y) (ev y)" and g: "g0 \<le> length (gots n y)"
    using assms(1,2) by (auto simp: follows_def)
  from events_next_cases [OF assms(3)] show ?thesis
  proof (elim disjE conjE)
    assume fetch: "a = Got (fst (ring_fetch (c_next c) (ev y)))" "c_next c' = snd (ring_fetch (c_next c) (ev y))"
    have gy: "gots n ?y' = gots n y @ [fst (ring_fetch (of_nat (Suc p)) (ev y))]"
      using fetch(1) p(2) by (simp add: gots_def)
    obtain p' where "p' \<le> length (shown y)" "snd (ring_fetch (of_nat (Suc p)) (ev y)) = of_nat (Suc p')"
      "account (shown y) p0 (drop g0 (gots n y) @ [fst (ring_fetch (of_nat (Suc p)) (ev y))]) = Some p'"
      using window.fetch_account [OF r p(1) assms(4) p(3)] by blast
    note q = this
    have "drop g0 (gots n ?y') = drop g0 (gots n y) @ [fst (ring_fetch (of_nat (Suc p)) (ev y))]"
      using g by (simp add: gy)
    then have acc: "account (shown ?y') p0 (drop g0 (gots n ?y')) = Some p'" using q(3) by simp
    show ?thesis unfolding follows_def
      by (intro conjI exI [of _ c'] exI [of _ p']) (use q(1) acc r g fetch(2) p(2) q(2) in \<open>simp_all add: gy del: of_nat_Suc\<close>)
  next
    assume rest: "case a of Got g \<Rightarrow> False | _ \<Rightarrow> True" "c_next c' = c_next c"
    have gy: "gots n ?y' = gots n y" using rest(1) by (simp add: gots_def split: answer.splits)
    show ?thesis unfolding follows_def gy
      by (intro conjI exI [of _ c'] exI [of _ p]) (use p r g rest(2) in \<open>simp_all del: of_nat_Suc\<close>)
  qed
qed

lemma follows_step:
  assumes "follows n p0 g0 y" "a \<noteq> Closes n" "length (shown y) < 2 ^ 32"
  shows "follows n p0 g0 (ev_step f a y)"
proof -
  have keep: "follows n p0 g0 (ev_step f a y)"
    if "told (ev_step f a y) = told y"
      "\<And>c. streams y n = Some c \<Longrightarrow> \<exists>c'. streams (ev_step f a y) n = Some c' \<and> c_next c' = c_next c"
  proof -
    obtain ls where ls: "shown (ev_step f a y) = shown y @ ls" using ev_step_shown by blast
    show ?thesis
      by (rule follows_keep [OF assms(1) _ ls gots_cong [OF that(1)] that(2)])
        (use assms(1) ev_step_ring in \<open>simp_all add: follows_def\<close>)
  qed
  obtain c where c: "streams y n = Some c" using assms(1) by (auto simp: follows_def)
  show ?thesis
  proof (cases a)
    case (Reads m late)
    show ?thesis
    proof (cases "m = n \<and> fst (events_next late c (ev y)) \<noteq> None")
      case True
      then obtain b c' where "events_next late c (ev y) = (Some b, c')" by (cases "events_next late c (ev y)") auto
      then show ?thesis using follows_read [OF assms(1) c _ assms(3)] Reads True c by simp
    next
      case False
      then consider "m \<noteq> n" | "m = n" "\<exists>c'. events_next late c (ev y) = (None, c')"
        by (cases "events_next late c (ev y)") auto
      then show ?thesis
      proof cases
        case 1
        show ?thesis
        proof (cases "streams y m")
          case (Some d)
          obtain b d' where e: "events_next late d (ev y) = (b, d')" by fastforce
          show ?thesis
          proof (cases b)
            case (Some b')
            have "gots n (ev_step f a y) = gots n y" using 1 e Some \<open>streams y m = Some d\<close> Reads by (simp add: gots_def)
            then show ?thesis
              using assms(1) 1 e Some \<open>streams y m = Some d\<close> Reads by (simp add: follows_def)
          qed (use assms(1) e Reads Some in simp)
        qed (use assms(1) Reads in simp)
      next
        case 2
        then show ?thesis using assms(1) c Reads by auto
      qed
    qed
  next
    case (Opens m mem peer)
    show ?thesis
      by (rule keep) (use Opens c in \<open>auto split: prod.splits sum.splits\<close>)
  next
    case (Closes m)
    show ?thesis
      by (rule keep) (use Closes c assms(2) in \<open>auto split: option.splits\<close>)
  qed (rule keep; use c in \<open>auto simp: show_one_all Let_def\<close>)+
qed

lemma shown_mono: "length (shown y) \<le> length (shown (fold (ev_step f) as y))"
proof (induction as arbitrary: y)
  case (Cons a as)
  obtain ls where "shown (ev_step f a y) = shown y @ ls" using ev_step_shown by blast
  then show ?case using Cons [of "ev_step f a y"] by simp
qed simp

lemma follows_run:
  assumes "follows n p0 g0 y" "Closes n \<notin> set as" "length (shown (fold (ev_step f) as y)) < 2 ^ 32"
  shows "follows n p0 g0 (fold (ev_step f) as y)"
  using assms
proof (induction as arbitrary: y)
  case (Cons a as)
  have "length (shown y) < 2 ^ 32" using shown_mono [of y f "a # as"] Cons.prems(3) by simp
  then have "follows n p0 g0 (ev_step f a y)" using follows_step [OF Cons.prems(1)] Cons.prems(2) by auto
  then show ?case using Cons by simp
qed simp

lemma start_ring: "ring_of (shown ev_start) (ev ev_start)"
  by (simp add: ring_of_def ev_start_def events_boot_def)

lemma run_ring: "ring_of (shown y) (ev y) \<Longrightarrow> ring_of (shown (fold (ev_step f) as y)) (ev (fold (ev_step f) as y))"
  by (induction as arbitrary: y) (simp_all add: ev_step_ring)

lemma opened_follows:
  assumes "ring_of (shown y) (ev y)" "streams y n = None" "streams (ev_step f (Opens n mem peer) y) n = Some c"
  shows "follows n (length (shown y)) (length (gots n y)) (ev_step f (Opens n mem peer) y)"
proof -
  obtain s' where o: "open_slot mem peer 128 (ev y) = (Inr c, s')"
    using assms(2,3) by (auto split: prod.splits sum.splits)
  have "head (ev y) = of_nat (Suc (length (shown y)))" using assms(1) by (simp add: ring_of_def)
  then have c: "c_next c = of_nat (Suc (length (shown y)))" using open_slot_next [OF o] by simp
  have "ring_of (shown y) s'" using assms(1) open_slot_ring [of mem peer 128 "ev y"] o by (simp add: ring_of_def)
  then show ?thesis using assms(2) o c by (simp add: follows_def gots_def del: of_nat_Suc)
qed

text \<open>C13. A stream loses nothing without being told: from the moment it opens, the events it is handed are
  the published ones in their order, each event it is not handed is counted in the losses it is
  told of at that point, and so the account of its answers always reaches the place it reads next.
  (Up to the sequence numbers' 2^32 events.)\<close>

theorem stream_account:
  assumes "streams (fold (ev_step f) before ev_start) n = None"
    and "streams (fold (ev_step f) (before @ [Opens n mem peer]) ev_start) n = Some c"
    and "Closes n \<notin> set after"
    and "length (shown (fold (ev_step f) (before @ Opens n mem peer # after) ev_start)) < 2 ^ 32"
  shows "let y1 = fold (ev_step f) before ev_start; y2 = fold (ev_step f) (before @ Opens n mem peer # after) ev_start
    in \<exists>p \<le> length (shown y2). account (shown y2) (length (shown y1)) (drop (length (gots n y1)) (gots n y2)) = Some p \<and>
         map_option c_next (streams y2 n) = Some (of_nat (Suc p))"
proof -
  let ?y1 = "fold (ev_step f) before ev_start"
  have "follows n (length (shown ?y1)) (length (gots n ?y1)) (ev_step f (Opens n mem peer) ?y1)"
    using opened_follows [OF run_ring [OF start_ring] assms(1)] assms(2) by simp
  from follows_run [OF this assms(3)] assms(4)
  have "follows n (length (shown ?y1)) (length (gots n ?y1)) (fold (ev_step f) (before @ Opens n mem peer # after) ev_start)"
    by simp
  then show ?thesis unfolding Let_def follows_def by (metis option.simps(9))
qed

end
