(* ===== verification/EventSlots.thy ===== *)
theory EventSlots
  imports EventStreams
begin

text \<open>
  Who holds the slots of the event stream: an invariant of every run, with the cap on the streams,
  one per address, and the count of listeners.
\<close>

definition some_peer :: "string \<Rightarrow> string" where
  "some_peer p = (if p = [] then ''?'' else p)"

lemma find_upt_Some: "find P [0..<n] = Some i \<Longrightarrow> i < n \<and> P i"
  using find_SomeD by fastforce

lemma find_upt_None: "find P [0..<n] = None \<Longrightarrow> i < n \<Longrightarrow> \<not> P i"
  by (auto simp: find_None_iff)

lemma admit_cases:
  assumes "events_admit s peer = r" "length peer < 64" "length s = events_max_streams"
  obtains (full) "fst r = None" "snd r = s"
  | (again) i where "i < events_max_streams" "fst r = Some (i, True)" "snd r = s" "s ! i = some_peer peer"
  | (fresh) i where "i < events_max_streams" "fst r = Some (i, False)" "s ! i = []" "snd r = s[i := some_peer peer]"
      "some_peer peer \<notin> set s"
proof (cases "find (\<lambda>i. s ! i = some_peer peer) [0..<events_max_streams]")
  case (Some i)
  then show ?thesis using assms(1) again [of i] find_upt_Some [OF Some] by (auto simp: events_admit_def some_peer_def Let_def split: if_splits)
next
  case none: None
  then have new: "some_peer peer \<notin> set s" using assms(3) by (auto simp: find_None_iff in_set_conv_nth)
  show ?thesis
  proof (cases "free_slot s")
    case None
    then show ?thesis using assms(1) none full by (auto simp: events_admit_def some_peer_def Let_def split: if_splits)
  next
    case (Some i)
    have short: "fit 64 (some_peer peer) = some_peer peer" using assms(2) by (simp add: fit_def some_peer_def)
    have "i < events_max_streams \<and> s ! i = []" using find_upt_Some [OF Some [unfolded free_slot_def]] .
    then show ?thesis using assms(1) none Some short new fresh [of i]
      by (auto simp: events_admit_def some_peer_def Let_def split: if_splits)
  qed
qed

lemma some_peer_ne [simp]: "some_peer p \<noteq> []"
  by (simp add: some_peer_def)

text \<open>What an opening does: the new stream's slot and generation, and the table.\<close>

definition peer_short :: "evact \<Rightarrow> bool" where
  "peer_short a = (case a of Opens n mem (Some p) \<Rightarrow> length p < 64 | _ \<Rightarrow> True)"

lemma open_cases:
  assumes "open_slot mem peer len s = r" "length (slots s) = events_max_streams"
    and "\<And>p. peer = Some p \<Longrightarrow> length p < 64"
  obtains (no) w s' where "r = (Inl w, s')" "slots s' = slots s" "slot_gen s' = slot_gen s" "listeners s' = listeners s"
  | (yes) c s' where "r = (Inr c, s')" "c_slot c < Suc events_max_streams" "c_gen c = slot_gen s ! c_slot c + 1"
      "slot_gen s' = (slot_gen s)[c_slot c := c_gen c]" "listeners s' = listeners s + 1"
      "slots s' = slots s \<and> (c_slot c < events_max_streams \<longrightarrow> slots s ! c_slot c \<noteq> []) \<or>
       (\<exists>p. c_slot c < events_max_streams \<and> slots s ! c_slot c = [] \<and> p \<noteq> [] \<and> p \<notin> set (slots s) \<and>
          slots s' = (slots s)[c_slot c := p])"
proof (cases "mem \<and> \<not> stopping s")
  case False
  then show ?thesis using assms(1) no by (auto simp: open_slot_def take_slot_def split: option.splits if_splits)
next
  case True
  show ?thesis
  proof (cases peer)
    case None
    then show ?thesis using True assms(1) yes
      by (auto simp: open_slot_def take_slot_def events_host_slot_def Let_def)
  next
    case (Some p)
    from refl assms(3) [OF Some] assms(2) show ?thesis
    proof (cases rule: admit_cases [of "slots s" p])
      case full
      then show ?thesis using True assms(1) Some no by (auto simp: open_slot_def take_slot_def Let_def)
    next
      case (again i)
      then show ?thesis using True assms(1) Some yes by (auto simp: open_slot_def take_slot_def Let_def)
    next
      case (fresh i)
      let ?c = "\<lparr>c_slot = i, c_gen = slot_gen s ! i + 1, c_next = head s, greeted = False, farewelled = False\<rparr>"
      let ?s = "s\<lparr>slots := (slots s)[i := some_peer p], slot_gen := (slot_gen s)[i := slot_gen s ! i + 1],
        listeners := listeners s + 1\<rparr>"
      have "r = (Inr ?c, ?s)" using fresh True assms(1) Some by (simp add: open_slot_def take_slot_def Let_def)
      then show ?thesis
        by (rule yes) (use fresh in \<open>simp_all add: less_SucI, metis some_peer_ne\<close>)
    qed
  qed
qed

section \<open>The invariant\<close>

definition holds_slot :: "evsys \<Rightarrow> nat \<Rightarrow> nat \<Rightarrow> bool" where
  "holds_slot y n i \<longleftrightarrow> (\<exists>c. streams y n = Some c \<and> c_slot c = i \<and> owns_slot c (ev y))"

definition gens_inv :: "nat \<Rightarrow> evsys \<Rightarrow> bool" where
  "gens_inv k y \<longleftrightarrow> length (slot_gen (ev y)) = Suc events_max_streams \<and>
     (\<forall>i < Suc events_max_streams. unat (slot_gen (ev y) ! i) \<le> k) \<and>
     (\<forall>n c. streams y n = Some c \<longrightarrow> c_slot c < Suc events_max_streams \<and> c_gen c \<le> slot_gen (ev y) ! c_slot c) \<and>
     (\<forall>n m c d. streams y n = Some c \<longrightarrow> streams y m = Some d \<longrightarrow> c_slot c = c_slot d \<longrightarrow> c_gen c = c_gen d \<longrightarrow> n = m)"

definition table_inv :: "evsys \<Rightarrow> bool" where
  "table_inv y \<longleftrightarrow> length (slots (ev y)) = events_max_streams \<and>
     (\<forall>i < events_max_streams. slots (ev y) ! i \<noteq> [] \<longleftrightarrow> (\<exists>n. holds_slot y n i)) \<and>
     (\<forall>i < events_max_streams. \<forall>j < events_max_streams.
        slots (ev y) ! i = slots (ev y) ! j \<longrightarrow> slots (ev y) ! i \<noteq> [] \<longrightarrow> i = j)"

definition count_inv :: "evsys \<Rightarrow> bool" where
  "count_inv y \<longleftrightarrow> finite (dom (streams y)) \<and> listeners (ev y) = int (card (dom (streams y)))"

lemma gens_later: "gens_inv k y \<Longrightarrow> gens_inv (Suc k) y"
  by (auto simp: gens_inv_def le_Suc_eq)

text \<open>A step that changes none of it.\<close>

lemma slots_frame:
  assumes "slots (ev y') = slots (ev y)" "slot_gen (ev y') = slot_gen (ev y)" "listeners (ev y') = listeners (ev y)"
    and "streams y' = streams y"
  shows "gens_inv k y' = gens_inv k y" "table_inv y' = table_inv y" "count_inv y' = count_inv y"
  using assms by (simp_all add: gens_inv_def table_inv_def count_inv_def holds_slot_def owns_slot_def)

lemma events_next_same: "events_next late c s = (r, c') \<Longrightarrow> c_slot c' = c_slot c \<and> c_gen c' = c_gen c"
  by (auto simp: events_next_def split: if_splits)

lemma read_inv:
  assumes "streams y n = Some c" "c_slot c' = c_slot c" "c_gen c' = c_gen c"
    and y'_def: "y' = y\<lparr>streams := (streams y)(n \<mapsto> c'), told := t\<rparr>"
  shows "gens_inv k y \<Longrightarrow> gens_inv k y'" "table_inv y \<Longrightarrow> table_inv y'" "count_inv y \<Longrightarrow> count_inv y'"
proof -
  have bck: "\<exists>d0. streams y m = Some d0 \<and> c_slot d0 = c_slot d \<and> c_gen d0 = c_gen d" if "streams y' m = Some d" for m d
    using that assms by (auto split: if_splits)
  have forth: "\<exists>d. streams y' m = Some d \<and> c_slot d = c_slot d0 \<and> c_gen d = c_gen d0" if "streams y m = Some d0" for m d0
    using that assms by auto
  have ev: "ev y' = ev y" by (simp add: y'_def)
  have "holds_slot y' m i = holds_slot y m i" for m i
    unfolding holds_slot_def owns_slot_def ev using bck forth by metis
  then show "table_inv y \<Longrightarrow> table_inv y'" by (simp add: table_inv_def ev)
  show "gens_inv k y \<Longrightarrow> gens_inv k y'" unfolding gens_inv_def ev using bck by metis
  have "dom (streams y') = dom (streams y)" using assms(1) by (auto simp: y'_def)
  then show "count_inv y \<Longrightarrow> count_inv y'" by (simp add: count_inv_def ev)
qed

lemma fresh_gen:
  assumes "gens_inv k y" "Suc k < 2 ^ 32" "i < Suc events_max_streams"
  shows "unat (slot_gen (ev y) ! i + 1) = Suc (unat (slot_gen (ev y) ! i))"
proof -
  have "unat (slot_gen (ev y) ! i) \<le> k" using assms by (auto simp: gens_inv_def)
  then show ?thesis using assms(2) by (simp add: unat_word_ariths)
qed

lemma open_gens:
  assumes inv: "gens_inv k y" and "Suc k < 2 ^ 32"
    and c: "c_slot c < Suc events_max_streams" "c_gen c = slot_gen (ev y) ! c_slot c + 1"
    and s': "slot_gen s' = (slot_gen (ev y))[c_slot c := c_gen c]"
  shows "gens_inv (Suc k) (y\<lparr>ev := s', streams := (streams y)(n \<mapsto> c)\<rparr>)"
proof -
  let ?i = "c_slot c"
  have u: "unat (c_gen c) = Suc (unat (slot_gen (ev y) ! ?i))" using fresh_gen [OF inv assms(2) c(1)] c(2) by simp
  then have up: "slot_gen (ev y) ! ?i < c_gen c" by (simp add: word_less_nat_alt)
  then have nle: "\<not> c_gen c \<le> slot_gen (ev y) ! ?i" by (simp only: not_le)
  have len: "length (slot_gen (ev y)) = Suc events_max_streams"
    and le: "\<And>i. i < Suc events_max_streams \<Longrightarrow> unat (slot_gen (ev y) ! i) \<le> k"
    and own: "\<And>m d. streams y m = Some d \<Longrightarrow> c_slot d < Suc events_max_streams \<and> c_gen d \<le> slot_gen (ev y) ! c_slot d"
    and one: "\<And>m m' d d'. streams y m = Some d \<Longrightarrow> streams y m' = Some d' \<Longrightarrow> c_slot d = c_slot d' \<Longrightarrow> c_gen d = c_gen d' \<Longrightarrow> m = m'"
    using inv unfolding gens_inv_def by blast+
  have "unat (slot_gen s' ! i) \<le> Suc k" if "i < Suc events_max_streams" for i
    using le [OF that] le [OF c(1)] u that len by (cases "i = ?i") (simp_all add: s')
  moreover have "c_slot d < Suc events_max_streams \<and> c_gen d \<le> slot_gen s' ! c_slot d"
    if "((streams y)(n \<mapsto> c)) m = Some d" for m d
  proof (cases "m = n")
    case True
    then show ?thesis using that c(1) len by (simp add: s')
  next
    case False
    then have d: "c_slot d < Suc events_max_streams" "c_gen d \<le> slot_gen (ev y) ! c_slot d" using that own [of m d] by auto
    show ?thesis
    proof (cases "c_slot d = ?i")
      case True
      then have "c_gen d \<le> c_gen c" using d(2) up by (metis less_imp_le order_trans)
      then show ?thesis using True c(1) len by (simp add: s')
    qed (use d in \<open>simp add: s'\<close>)
  qed
  moreover have "m = m'"
    if "((streams y)(n \<mapsto> c)) m = Some d" "((streams y)(n \<mapsto> c)) m' = Some d'" "c_slot d = c_slot d'" "c_gen d = c_gen d'" for m m' d d'
  proof (cases "m = n"; cases "m' = n")
    assume "m = n" "m' \<noteq> n"
    then have "streams y m' = Some d'" "d = c" using that(1,2) by simp_all
    note e = this
    have "c_gen d' \<le> slot_gen (ev y) ! c_slot d'" using own [OF e(1)] by blast
    then have "c_gen c \<le> slot_gen (ev y) ! ?i" unfolding that(3,4) [symmetric] e(2) .
    then show ?thesis using nle by blast
  next
    assume "m \<noteq> n" "m' = n"
    then have "streams y m = Some d" "d' = c" using that(1,2) by simp_all
    note e = this
    have "c_gen d \<le> slot_gen (ev y) ! c_slot d" using own [OF e(1)] by blast
    then have "c_gen c \<le> slot_gen (ev y) ! ?i" unfolding that(3,4) e(2) .
    then show ?thesis using nle by blast
  next
    assume ne: "m \<noteq> n" "m' \<noteq> n"
    have "streams y m = Some d" "streams y m' = Some d'" using that(1,2) ne by simp_all
    then show ?thesis using that(3,4) by (rule one)
  qed simp
  moreover have "ev (y\<lparr>ev := s', streams := (streams y)(n \<mapsto> c)\<rparr>) = s'"
      "streams (y\<lparr>ev := s', streams := (streams y)(n \<mapsto> c)\<rparr>) = (streams y)(n \<mapsto> c)" by simp_all
  moreover have "length (slot_gen s') = Suc events_max_streams" using len by (simp add: s')
  ultimately show ?thesis unfolding gens_inv_def by (simp only:) blast
qed

lemma open_holds:
  assumes inv: "gens_inv k y" and "Suc k < 2 ^ 32" and n: "streams y n = None"
    and c: "c_slot c < Suc events_max_streams" "c_gen c = slot_gen (ev y) ! c_slot c + 1"
    and s': "slot_gen s' = (slot_gen (ev y))[c_slot c := c_gen c]"
  shows "holds_slot (y\<lparr>ev := s', streams := (streams y)(n \<mapsto> c)\<rparr>) m i \<longleftrightarrow>
    (if i = c_slot c then m = n else holds_slot y m i)"
proof -
  have u: "unat (c_gen c) = Suc (unat (slot_gen (ev y) ! c_slot c))" using fresh_gen [OF inv assms(2) c(1)] c(2) by simp
  then have up: "slot_gen (ev y) ! c_slot c < c_gen c" by (simp add: word_less_nat_alt)
  have len: "length (slot_gen (ev y)) = Suc events_max_streams" using inv by (simp add: gens_inv_def)
  have own: "\<And>m d. streams y m = Some d \<Longrightarrow> c_slot d < Suc events_max_streams \<and> c_gen d \<le> slot_gen (ev y) ! c_slot d"
    using inv by (auto simp: gens_inv_def)
  show ?thesis
  proof (cases "m = n")
    case True
    then show ?thesis using n c(1) len by (auto simp: holds_slot_def owns_slot_def s')
  next
    case False
    have "\<not> holds_slot (y\<lparr>ev := s', streams := (streams y)(n \<mapsto> c)\<rparr>) m (c_slot c)"
    proof
      assume "holds_slot (y\<lparr>ev := s', streams := (streams y)(n \<mapsto> c)\<rparr>) m (c_slot c)"
      then obtain d where "streams y m = Some d" "c_slot d = c_slot c" "c_gen d = c_gen c"
        using False c(1) len by (auto simp: holds_slot_def owns_slot_def s')
      then show False using own [of m d] up by (simp add: leD)
    qed
    moreover have "holds_slot (y\<lparr>ev := s', streams := (streams y)(n \<mapsto> c)\<rparr>) m i = holds_slot y m i" if "i \<noteq> c_slot c"
      using False that by (auto simp: holds_slot_def owns_slot_def s')
    ultimately show ?thesis using False by auto
  qed
qed

lemma open_table:
  assumes inv: "gens_inv k y" "Suc k < 2 ^ 32" "table_inv y" and n: "streams y n = None"
    and c: "c_slot c < Suc events_max_streams" "c_gen c = slot_gen (ev y) ! c_slot c + 1"
    and s': "slot_gen s' = (slot_gen (ev y))[c_slot c := c_gen c]"
    and sl: "slots s' = slots (ev y) \<and> (c_slot c < events_max_streams \<longrightarrow> slots (ev y) ! c_slot c \<noteq> []) \<or>
       (\<exists>p. c_slot c < events_max_streams \<and> slots (ev y) ! c_slot c = [] \<and> p \<noteq> [] \<and> p \<notin> set (slots (ev y)) \<and>
          slots s' = (slots (ev y))[c_slot c := p])"
  shows "table_inv (y\<lparr>ev := s', streams := (streams y)(n \<mapsto> c)\<rparr>)"
proof -
  let ?y = "y\<lparr>ev := s', streams := (streams y)(n \<mapsto> c)\<rparr>"
  note h = open_holds [OF inv(1,2) n c s']
  have len: "length (slots (ev y)) = events_max_streams"
    and t: "\<And>i. i < events_max_streams \<Longrightarrow> slots (ev y) ! i \<noteq> [] \<longleftrightarrow> (\<exists>n. holds_slot y n i)"
    and d: "\<And>i j. i < events_max_streams \<Longrightarrow> j < events_max_streams \<Longrightarrow> slots (ev y) ! i = slots (ev y) ! j \<Longrightarrow>
        slots (ev y) ! i \<noteq> [] \<Longrightarrow> i = j"
    using inv(3) unfolding table_inv_def by blast+
  have hs: "(\<exists>m. holds_slot ?y m i) \<longleftrightarrow> i = c_slot c \<or> (\<exists>m. holds_slot y m i)" for i unfolding h by auto
  from sl show ?thesis
  proof (elim disjE exE conjE)
    assume "slots s' = slots (ev y)" "c_slot c < events_max_streams \<longrightarrow> slots (ev y) ! c_slot c \<noteq> []"
    then show ?thesis unfolding table_inv_def hs using len t d by auto
  next
    fix p
    assume p: "c_slot c < events_max_streams" "slots (ev y) ! c_slot c = []" "p \<noteq> []" "p \<notin> set (slots (ev y))"
      "slots s' = (slots (ev y))[c_slot c := p]"
    have new: "slots (ev y) ! i \<noteq> p" if "i < events_max_streams" for i using p(4) that len by auto
    have at: "slots s' ! i = (if i = c_slot c then p else slots (ev y) ! i)" if "i < events_max_streams" for i
      using p(1,5) that len by simp
    show ?thesis unfolding table_inv_def hs
    proof (intro conjI allI impI)
      show "length (slots (ev ?y)) = events_max_streams" using p(5) len by simp
      fix i assume i: "i < events_max_streams"
      show "(slots (ev ?y) ! i \<noteq> []) = (i = c_slot c \<or> (\<exists>m. holds_slot y m i))" using at [OF i] t [OF i] p(3) by simp
      fix j assume "j < events_max_streams" "slots (ev ?y) ! i = slots (ev ?y) ! j" "slots (ev ?y) ! i \<noteq> []"
      then show "i = j" using at [OF i] at [of j] d [OF i, of j] new [OF i] new [of j] by (auto split: if_splits)
    qed
  qed
qed

lemma open_count:
  assumes "count_inv y" "streams y n = None" "listeners s' = listeners (ev y) + 1"
  shows "count_inv (y\<lparr>ev := s', streams := (streams y)(n \<mapsto> c)\<rparr>)"
  using assms by (simp add: count_inv_def domIff)

lemma close_slots:
  "slot_gen (events_close c s) = slot_gen s" "listeners (events_close c s) = listeners s - 1"
  "slots (events_close c s) = (if owns_slot c s \<and> c_slot c < events_max_streams then (slots s)[c_slot c := []] else slots s)"
  by (auto simp: events_close_def events_release_def events_host_slot_def Let_def)

lemma holds_unique: "gens_inv k y \<Longrightarrow> holds_slot y n i \<Longrightarrow> holds_slot y m i \<Longrightarrow> n = m"
  unfolding gens_inv_def holds_slot_def owns_slot_def by metis

lemma close_inv:
  assumes n: "streams y n = Some c" and gi: "gens_inv k y" and ti: "table_inv y" and ci: "count_inv y"
  defines "y' \<equiv> y\<lparr>ev := events_close c (ev y), streams := (streams y)(n := None)\<rparr>"
  shows "gens_inv k y'" "table_inv y'" "count_inv y'"
proof -
  have sub: "streams y' m = Some d \<Longrightarrow> m \<noteq> n \<and> streams y m = Some d" for m d by (auto simp: y'_def split: if_splits)
  have g: "slot_gen (ev y') = slot_gen (ev y)" by (simp add: y'_def close_slots)
  show "gens_inv k y'" using gi sub unfolding gens_inv_def g by blast
  have h: "holds_slot y' m i \<longleftrightarrow> m \<noteq> n \<and> holds_slot y m i" for m i
    by (auto simp: holds_slot_def owns_slot_def y'_def close_slots)
  have own: "j = c_slot c" if "holds_slot y n j" for j using that n by (auto simp: holds_slot_def)
  have len: "length (slots (ev y)) = events_max_streams"
    and t: "\<And>i. i < events_max_streams \<Longrightarrow> slots (ev y) ! i \<noteq> [] \<longleftrightarrow> (\<exists>n. holds_slot y n i)"
    and d: "\<And>i j. i < events_max_streams \<Longrightarrow> j < events_max_streams \<Longrightarrow> slots (ev y) ! i = slots (ev y) ! j \<Longrightarrow>
        slots (ev y) ! i \<noteq> [] \<Longrightarrow> i = j"
    using ti unfolding table_inv_def by blast+
  show "table_inv y'"
  proof (cases "owns_slot c (ev y) \<and> c_slot c < events_max_streams")
    case True
    then have mine: "holds_slot y n (c_slot c)" using n by (simp add: holds_slot_def)
    have sl: "slots (ev y') = (slots (ev y))[c_slot c := []]" using True by (simp add: y'_def close_slots)
    have "(\<exists>m. holds_slot y' m i) \<longleftrightarrow> i \<noteq> c_slot c \<and> (\<exists>m. holds_slot y m i)" for i
      using h own holds_unique [OF gi mine] mine by metis
    note hs = this
    have at: "(slots (ev y))[c_slot c := []] ! i = (if i = c_slot c then [] else slots (ev y) ! i)"
      if "i < events_max_streams" for i using True len that by simp
    show ?thesis unfolding table_inv_def sl hs
    proof (intro conjI allI impI)
      fix i assume i: "i < events_max_streams"
      show "((slots (ev y))[c_slot c := []] ! i \<noteq> []) = (i \<noteq> c_slot c \<and> (\<exists>m. holds_slot y m i))"
        using at [OF i] t [OF i] by simp
      fix j assume "j < events_max_streams" "(slots (ev y))[c_slot c := []] ! i = (slots (ev y))[c_slot c := []] ! j"
        "(slots (ev y))[c_slot c := []] ! i \<noteq> []"
      then show "i = j" using at [OF i] at [of j] d [OF i, of j] by (simp split: if_splits)
    qed (simp add: len)
  next
    case False
    have sl: "slots (ev y') = slots (ev y)" using False close_slots(3) [of c "ev y"] by (auto simp: y'_def)
    have "(\<exists>m. holds_slot y' m i) \<longleftrightarrow> (\<exists>m. holds_slot y m i)" if "i < events_max_streams" for i
      using h own False n that unfolding holds_slot_def by (metis option.inject)
    then show ?thesis using len t d unfolding table_inv_def sl by auto
  qed
  have d: "dom (streams y') = dom (streams y) - {n}" "n \<in> dom (streams y)" using n by (auto simp: y'_def)
  have fin: "finite (dom (streams y))" and lis: "listeners (ev y) = int (card (dom (streams y)))"
    using ci by (simp_all add: count_inv_def)
  have "listeners (ev y') = int (card (dom (streams y'))) "
    unfolding d(1) using card.remove [OF fin d(2)] lis by (simp add: y'_def close_slots)
  moreover have "finite (dom (streams y'))" unfolding d(1) using fin by simp
  ultimately show "count_inv y'" unfolding count_inv_def by blast
qed

definition slot_inv :: "nat \<Rightarrow> evsys \<Rightarrow> bool" where
  "slot_inv k y \<longleftrightarrow> gens_inv k y \<and> table_inv y \<and> count_inv y"

lemma slot_step:
  assumes inv: "slot_inv k y" and k: "Suc k < 2 ^ 32" and a: "peer_short a"
  shows "slot_inv (Suc k) (ev_step f a y)"
proof -
  have gi: "gens_inv k y" and ti: "table_inv y" and ci: "count_inv y" using inv by (simp_all add: slot_inv_def)
  have same: "slot_inv (Suc k) (ev_step f a y)"
    if "slots (ev (ev_step f a y)) = slots (ev y)" "slot_gen (ev (ev_step f a y)) = slot_gen (ev y)"
      "listeners (ev (ev_step f a y)) = listeners (ev y)" "streams (ev_step f a y) = streams y"
    using slots_frame(1) [OF that, of "Suc k"] slots_frame(2,3) [OF that] gens_later [OF gi] ti ci by (simp add: slot_inv_def)
  show ?thesis
  proof (cases a)
    case (Opens n mem peer)
    show ?thesis
    proof (cases "streams y n")
      case (Some c)
      then show ?thesis using Opens by (intro same) simp_all
    next
      case None
      have short: "length p < 64" if "peer = Some p" for p using a that Opens by (simp add: peer_short_def)
      have len: "length (slots (ev y)) = events_max_streams" using ti by (simp add: table_inv_def)
      show ?thesis
      proof (rule open_cases [where mem = mem and peer = peer and len = 128, OF refl len short])
        fix w s' assume "open_slot mem peer 128 (ev y) = (Inl w, s')" "slots s' = slots (ev y)"
          "slot_gen s' = slot_gen (ev y)" "listeners s' = listeners (ev y)"
        then show ?thesis using None Opens by (intro same) simp_all
      next
        fix c s'
        assume yes: "open_slot mem peer 128 (ev y) = (Inr c, s')" "c_slot c < Suc events_max_streams"
          "c_gen c = slot_gen (ev y) ! c_slot c + 1" "slot_gen s' = (slot_gen (ev y))[c_slot c := c_gen c]"
          "listeners s' = listeners (ev y) + 1"
          "slots s' = slots (ev y) \<and> (c_slot c < events_max_streams \<longrightarrow> slots (ev y) ! c_slot c \<noteq> []) \<or>
           (\<exists>p. c_slot c < events_max_streams \<and> slots (ev y) ! c_slot c = [] \<and> p \<noteq> [] \<and> p \<notin> set (slots (ev y)) \<and>
              slots s' = (slots (ev y))[c_slot c := p])"
        have "ev_step f a y = y\<lparr>ev := s', streams := (streams y)(n \<mapsto> c)\<rparr>" using yes(1) None Opens by simp
        then show ?thesis unfolding slot_inv_def
          using open_gens [OF gi k yes(2-4)] open_table [OF gi k ti None yes(2-4,6)] open_count [OF ci None yes(5)] by simp
      qed
    qed
  next
    case (Closes n)
    show ?thesis
    proof (cases "streams y n")
      case None
      then show ?thesis using Closes by (intro same) simp_all
    next
      case (Some c)
      show ?thesis unfolding slot_inv_def
        using close_inv [OF Some gens_later [OF gi] ti ci] Some Closes by simp
    qed
  next
    case (Reads n late)
    show ?thesis
    proof (cases "streams y n")
      case None
      then show ?thesis using Reads by (intro same) simp_all
    next
      case (Some c)
      obtain b c' where e: "events_next late c (ev y) = (b, c')" by fastforce
      show ?thesis
      proof (cases b)
        case None
        then show ?thesis using Reads Some e by (intro same) simp_all
      next
        case (Some b')
        have "ev_step f a y = y\<lparr>streams := (streams y)(n \<mapsto> c'), told := told y @ [(n, b')]\<rparr>"
          using Reads \<open>streams y n = Some c\<close> e Some by simp
        then show ?thesis unfolding slot_inv_def
          using read_inv [OF \<open>streams y n = Some c\<close> _ _ refl] events_next_same [OF e] gens_later [OF gi] ti ci by metis
      qed
    qed
  qed (rule same; auto simp: show_one_all Let_def)+
qed

lemma slot_run: "slot_inv k y \<Longrightarrow> k + length as < 2 ^ 32 \<Longrightarrow> list_all peer_short as \<Longrightarrow> slot_inv (k + length as) (fold (ev_step f) as y)"
proof (induction as arbitrary: k y)
  case (Cons a as)
  have "slot_inv (Suc k) (ev_step f a y)" using slot_step [OF Cons.prems(1)] Cons.prems by simp
  then show ?case using Cons.IH [of "Suc k" "ev_step f a y"] Cons.prems by simp
qed simp

lemma slot_start: "slot_inv 0 ev_start"
proof -
  have "\<not> holds_slot ev_start n i" for n i by (simp add: holds_slot_def ev_start_def)
  then show ?thesis
    by (auto simp: slot_inv_def gens_inv_def table_inv_def count_inv_def ev_start_def events_boot_def nth_Cons' less_Suc_eq
        events_max_streams_def)
qed

text \<open>The streams are capped, one per address: of every run, the streams that hold one of the three
  slots are at most three and hold different ones, a slot has an address exactly when a stream
  holds it, no address has two slots, and the listeners counted are the streams open.\<close>

theorem streams_capped:
  assumes "length as < 2 ^ 32" "list_all peer_short as" and y: "y = fold (ev_step f) as ev_start"
  shows "card {n. \<exists>i < events_max_streams. holds_slot y n i} \<le> events_max_streams \<and>
     (\<forall>n m i. holds_slot y n i \<and> holds_slot y m i \<longrightarrow> n = m) \<and>
     (\<forall>i < events_max_streams. slots (ev y) ! i \<noteq> [] \<longleftrightarrow> (\<exists>n. holds_slot y n i)) \<and>
     (\<forall>i < events_max_streams. \<forall>j < events_max_streams. slots (ev y) ! i = slots (ev y) ! j \<longrightarrow>
        slots (ev y) ! i \<noteq> [] \<longrightarrow> i = j) \<and>
     listeners (ev y) = int (card (dom (streams y)))"
proof -
  have inv: "slot_inv (length as) y" using slot_run [OF slot_start, of as f] assms(1,2) by (simp add: y)
  then have gi: "gens_inv (length as) y" by (simp add: slot_inv_def)
  have uniq: "n = m" if "holds_slot y n i" "holds_slot y m i" for n m i using holds_unique [OF gi that] .
  have "{n. \<exists>i < events_max_streams. holds_slot y n i} \<subseteq> (\<lambda>i. THE n. holds_slot y n i) ` {..<events_max_streams}"
  proof
    fix n assume "n \<in> {n. \<exists>i < events_max_streams. holds_slot y n i}"
    then obtain i where i: "i < events_max_streams" "holds_slot y n i" by blast
    have "(THE n. holds_slot y n i) = n" using i(2) uniq by blast
    then show "n \<in> (\<lambda>i. THE n. holds_slot y n i) ` {..<events_max_streams}" using i(1) by force
  qed
  from card_mono [OF _ this] card_image_le [of "{..<events_max_streams}" "\<lambda>i. THE n. holds_slot y n i"]
  have "card {n. \<exists>i < events_max_streams. holds_slot y n i} \<le> events_max_streams" by simp
  then show ?thesis using inv uniq unfolding slot_inv_def table_inv_def count_inv_def by blast
qed

end
