(* ===== verification/EventEdges.thy ===== *)
theory EventEdges
  imports EventSlots
begin

text \<open>
  What the edge detector's events say: a client that applies them to its picture of the machine has
  the machine's; each event fits its buffers whole.
\<close>

section \<open>A client's picture\<close>

record view =
  v_lid :: bool
  v_interlock :: bool
  v_mode :: string
  v_controller :: string
  v_verdict :: string
  v_fire :: bool
  v_armed :: bool
  v_released :: bool
  v_lease :: string
  v_gate :: bool

definition view_of :: "snap \<Rightarrow> view" where
  "view_of s = \<lparr>v_lid = sw_lid (n_switches s), v_interlock = sw_interlock (n_switches s), v_mode = n_mode s,
     v_controller = n_controller s, v_verdict = n_verdict s, v_fire = n_fire_ok s, v_armed = n_armed s,
     v_released = n_released s, v_lease = n_lease s, v_gate = n_gate_open s\<rparr>"

text \<open>The text between the quotes that starts after \<open>n\<close> characters; the first member's and the next one's.\<close>

definition text_at :: "nat \<Rightarrow> string \<Rightarrow> string" where
  "text_at n d = takeWhile (\<lambda>c. c \<noteq> dquote) (drop n d)"

definition rest_at :: "nat \<Rightarrow> nat \<Rightarrow> string \<Rightarrow> string" where
  "rest_at n k d = drop k (drop (length (text_at n d)) (drop n d))"

definition see :: "event \<Rightarrow> view \<Rightarrow> view" where
  "see e v = (let nm = fst e; d = snd e in
     if nm = ''lid'' then v\<lparr>v_lid := (d = jobj [jkey ''closed'' ''true''])\<rparr>
     else if nm = ''interlock'' then v\<lparr>v_interlock := (d \<noteq> jobj [jkey ''ok'' ''true''])\<rparr>
     else if nm = ''mode.changed'' then v\<lparr>v_mode := text_at 9 d\<rparr>
     else if nm = ''controller.started'' \<or> nm = ''controller.stopped''
     then v\<lparr>v_controller := text_at 0 (rest_at 9 11 d)\<rparr>
     else if nm = ''cooling.verdict''
     then v\<lparr>v_verdict := text_at 12 d, v_fire := starts_with ''true'' (rest_at 12 12 d)\<rparr>
     else if nm = ''job.armed'' then v\<lparr>v_armed := True\<rparr>
     else if nm = ''job.ended'' then v\<lparr>v_armed := False\<rparr>
     else if nm = ''motors.released'' then v\<lparr>v_released := True\<rparr>
     else if nm = ''motors.energized'' then v\<lparr>v_released := False\<rparr>
     else if nm = ''lease.changed''
     then v\<lparr>v_lease := (if d = jobj [jkey ''owner'' ''null''] then [] else text_at 10 d)\<rparr>
     else if nm = ''setup.flag'' then v\<lparr>v_gate := starts_with ''true'' (drop 13 d)\<rparr>
     else v)"

text \<open>The lengths the snapshot's buffers give, and words that need no quoting.\<close>

definition snap_sized :: "snap \<Rightarrow> bool" where
  "snap_sized s \<longleftrightarrow> length (n_mode s) < 8 \<and> length (n_controller s) < 16 \<and> length (n_verdict s) < 24 \<and>
     length (n_gstate s) < 12 \<and> length (n_home_source s) < 16 \<and> length (n_lease s) < 72 \<and>
     length (n_update s) < 48 \<and> length (n_gate_why s) < 96 \<and> length (n_phase s) < 16 \<and> \<bar>n_alarm s\<bar> \<le> 2 ^ 31"

definition plain_words :: "snap \<Rightarrow> bool" where
  "plain_words s \<longleftrightarrow> dquote \<notin> set (n_mode s) \<and> dquote \<notin> set (n_controller s) \<and> dquote \<notin> set (n_verdict s) \<and>
     dquote \<notin> set (n_lease s)"

lemma takeWhile_quote: "dquote \<notin> set x \<Longrightarrow> takeWhile (\<lambda>c. c \<noteq> dquote) (x @ dquote # r) = x"
  by (induction x) auto

lemmas jdefs = jobj_def jkey_def jtext_def json_bool_def

lemma see_switches:
  "fold see (diff_switches a b) v = v\<lparr>
     v_lid := (if sw_lid (n_switches a) \<noteq> sw_lid (n_switches b) then sw_lid (n_switches b) else v_lid v),
     v_interlock := (if sw_interlock (n_switches a) \<noteq> sw_interlock (n_switches b) then sw_interlock (n_switches b)
                     else v_interlock v)\<rparr>"
  by (auto simp: diff_switches_def see_def jdefs fit_def)

lemma see_controller:
  assumes "snap_sized b" "plain_words b"
  shows "fold see (diff_controller a b) v = v\<lparr>
     v_mode := (if n_mode a \<noteq> n_mode b then n_mode b else v_mode v),
     v_controller := (if is_running a \<noteq> is_running b \<or> (\<not> is_running b \<and> n_controller a \<noteq> n_controller b)
                      then n_controller b else v_controller v)\<rparr>"
proof -
  have len: "length (n_mode b) < 8" "length (n_controller b) < 16" and pw: "dquote \<notin> set (n_mode b)" "dquote \<notin> set (n_controller b)"
    using assms by (simp_all add: snap_sized_def plain_words_def)
  have m: "see (''mode.changed'', fit 160 (jobj [jkey ''mode'' (jtext (n_mode b))])) v = v\<lparr>v_mode := n_mode b\<rparr>" for v
    using len pw by (simp add: see_def jdefs fit_id text_at_def rest_at_def takeWhile_quote del: drop_drop)
  have c: "see (if r then ''controller.started'' else ''controller.stopped'',
       fit 160 (jobj [jkey ''mode'' (jtext (n_mode b)), jkey ''state'' (jtext (n_controller b))])) v = v\<lparr>v_controller := n_controller b\<rparr>" for v r
    using len pw by (cases r) (simp_all add: see_def jdefs fit_id text_at_def rest_at_def takeWhile_quote del: drop_drop)
  show ?thesis by (simp add: diff_controller_def m c)
qed

lemma see_verdict:
  assumes "snap_sized b" "plain_words b"
  shows "fold see (diff_verdict a b) v =
    (if n_verdict a \<noteq> n_verdict b \<or> n_fire_ok a \<noteq> n_fire_ok b then v\<lparr>v_verdict := n_verdict b, v_fire := n_fire_ok b\<rparr> else v)"
proof -
  have len: "length (n_verdict b) < 24" and pw: "dquote \<notin> set (n_verdict b)"
    using assms by (simp_all add: snap_sized_def plain_words_def)
  show ?thesis using len pw
    by (auto simp: diff_verdict_def see_def jdefs fit_id text_at_def rest_at_def takeWhile_quote starts_with_def simp del: drop_drop)
qed

lemma see_job: "fold see (diff_job a b) v = v\<lparr>v_armed := (if n_armed a \<noteq> n_armed b then n_armed b else v_armed v)\<rparr>"
  by (auto simp: diff_job_def diff_paused_def see_def)

lemma see_homing: "fold see (diff_homing a b) v = v"
  by (auto simp: diff_homing_def see_def Let_def)

lemma see_rest:
  assumes "snap_sized b" "plain_words b"
  shows "fold see (diff_rest a b) v = v\<lparr>
     v_released := (if n_released a \<noteq> n_released b then n_released b else v_released v),
     v_lease := (if n_lease a \<noteq> n_lease b then n_lease b else v_lease v),
     v_gate := (if n_gate_open a \<noteq> n_gate_open b then n_gate_open b else v_gate v)\<rparr>"
proof -
  have len: "length (n_lease b) < 72" and pw: "dquote \<notin> set (n_lease b)"
    using assms by (simp_all add: snap_sized_def plain_words_def)
  have r: "see (if n_released b then ''motors.released'' else ''motors.energized'', d) v = v\<lparr>v_released := n_released b\<rparr>" for d v
    by (simp add: see_def)
  have l: "see (''lease.changed'', fit 160 (jobj [jkey ''owner'' (if n_lease b \<noteq> [] then jtext (n_lease b) else ''null'')])) v =
      v\<lparr>v_lease := n_lease b\<rparr>" for v
    using len pw by (auto simp: see_def jdefs fit_id text_at_def rest_at_def takeWhile_quote simp del: drop_drop)
  have u: "see (''update.available'', d) v = v" for d v by (simp add: see_def)
  have g: "see (''setup.flag'', fit 160 (jobj [jkey ''gate_open'' (json_bool x), jkey ''reason'' y])) v = v\<lparr>v_gate := x\<rparr>" for x y v
    by (auto simp: see_def jdefs fit_def starts_with_def)
  show ?thesis by (simp add: diff_rest_def r l u g)
qed

lemma running_words: "\<not> (is_running a \<noteq> is_running b \<or> (\<not> is_running b \<and> n_controller a \<noteq> n_controller b)) \<Longrightarrow>
    n_controller a = n_controller b"
  by (auto simp: is_running_def)

text \<open>C14. The events of a step are complete: a client whose picture agreed with the machine's state before
  the step has, after the events of it in their order, the state after it: the lid and the
  interlock, the mode and the controller's word, the verdict, the armed window, the motors, the
  lease and the setup's gate.\<close>

theorem events_follow:
  assumes "snap_sized b" "plain_words b"
  shows "fold see (events_diff a b) (view_of a) = view_of b"
  using running_words [of a b]
  by (auto simp: events_diff_def see_switches see_controller [OF assms] see_verdict [OF assms] see_job see_homing
      see_rest [OF assms] view_of_def)

section \<open>The events' lengths\<close>

lemma quote_from_length: "n < len \<Longrightarrow> length (quote_from len n s) + n < len"
proof (induction len n s rule: quote_from.induct)
  case (2 len n c s)
  then show ?case by (auto simp: Let_def)
qed simp

lemma quote_length: "0 < len \<Longrightarrow> length (quote len s) < len"
  using quote_from_length [of 0 len s] by (simp add: quote_def)

text \<open>An event that its buffers hold whole: an object in its 160 bytes, a line in the ring's 256.\<close>

definition whole :: "event \<Rightarrow> bool" where
  "whole e \<longleftrightarrow> length (fst e) \<le> 20 \<and> length (snd e) < 160 \<and> snd e \<noteq> [] \<and> last (snd e) = CHR ''}''"

lemma whole_obj: "length nm \<le> 20 \<Longrightarrow> length (jobj ms) < 160 \<Longrightarrow> whole (nm, fit 160 (jobj ms))"
  by (simp add: whole_def fit_id) (simp add: jobj_def)

lemma length_jobj: "length (jobj ms) = 2 + sum_list (List.map length ms) + (length ms - 1)"
proof -
  have "length (concat (List.map ((@) '','') r)) = sum_list (List.map length r) + length r" for r :: "string list"
    by (induction r) auto
  then show ?thesis by (cases ms) (simp_all add: jobj_def)
qed

lemma jlen: "length (jkey k v) = length k + length v + 3" "length (jtext v) = length v + 2" "length (json_bool b) \<le> 5"
  by (simp_all add: jdefs)

lemma unat_lt: "unat (n :: 32 word) < 2 ^ 32"
  using unsigned_less [of n] by simp

lemma whole_line:
  assumes "whole e"
  shows "event_line n (fst e) (snd e) =
    ''id: '' @ show_nat (unat n) @ [newline] @ ''event: '' @ fst e @ [newline] @ ''data: '' @ snd e @ [newline, newline]"
proof -
  have "length (show_nat (unat n)) \<le> 10"
    unfolding show_nat_def using unat_lt [of n] by (intro digits_of_length) (simp_all add: less_trans)
  then show ?thesis using assms by (simp add: event_line_def fit_id whole_def event_text_def)
qed

lemma whole_switches: "list_all whole (diff_switches a b)"
  by (auto simp: diff_switches_def length_jobj jlen json_bool_def intro!: whole_obj)

lemma whole_controller: "snap_sized b \<Longrightarrow> list_all whole (diff_controller a b)"
  by (auto simp: diff_controller_def snap_sized_def length_jobj jlen intro!: whole_obj)

lemma whole_verdict: "snap_sized b \<Longrightarrow> list_all whole (diff_verdict a b)"
  by (auto simp: diff_verdict_def snap_sized_def length_jobj jlen json_bool_def intro!: whole_obj)

lemma whole_empty: "length nm \<le> 20 \<Longrightarrow> whole (nm, jobj [])"
  by (simp add: whole_def jobj_def)

lemma show_int_alarm: "\<bar>i\<bar> \<le> 2 ^ 31 \<Longrightarrow> length (show_int i) \<le> 11"
proof -
  assume "\<bar>i\<bar> \<le> 2 ^ 31"
  then have "nat (- i) < 10 ^ 10" "nat i < 10 ^ 10" by auto
  then show ?thesis
    using digits_of_length [of "nat (- i)" 10] digits_of_length [of "nat i" 10] by (simp add: show_int_def)
qed

lemma whole_opt: "whole e \<Longrightarrow> list_all whole (if c then [e] else [])"
  by simp

lemma whole_app: "list_all whole xs \<Longrightarrow> list_all whole ys \<Longrightarrow> list_all whole (xs @ ys)"
  by simp

lemma whole_job:
  assumes "snap_sized b"
  shows "list_all whole (diff_job a b)"
proof -
  have p: "whole (''job.paused'', fit 160 (jobj [jkey ''reason''
      (jtext (if n_gstate b = ''Door'' then ''lid'' else if n_fire_ok b then ''hold'' else ''cooling''))]))"
    by (rule whole_obj) (simp_all add: length_jobj jlen)
  have e: "whole (''job.ended'', fit 160 (jobj [jkey ''result'' (jtext (if n_alarm b \<noteq> 0 then ''alarm'' else ''ended''))]))"
    by (rule whole_obj) (simp_all add: length_jobj jlen)
  have a: "whole (''alarm'', fit 160 (jobj [jkey ''code'' (show_int (n_alarm b))]))"
    using show_int_alarm [of "n_alarm b"] assms by (intro whole_obj) (simp_all add: length_jobj jlen snap_sized_def)
  have "list_all whole (diff_paused a b)" unfolding diff_paused_def using p by (simp only: list.pred_inject whole_empty split: if_split) (simp add: whole_empty)
  then show ?thesis unfolding diff_job_def using e a by (intro whole_app whole_opt) (simp_all add: whole_empty)
qed

lemma show_word: "length (show_nat (unat (n :: 32 word))) \<le> 10"
  unfolding show_nat_def using unat_lt [of n] by (intro digits_of_length) (simp_all add: less_trans)

lemma whole_homing: "snap_sized b \<Longrightarrow> list_all whole (diff_homing a b)"
  using show_word [of "n_homed_axes b"]
  by (auto simp: diff_homing_def snap_sized_def length_jobj jlen Let_def intro!: whole_obj whole_empty)

lemma whole_rest:
  assumes "snap_sized b"
  shows "list_all whole (diff_rest a b)"
proof -
  let ?v = "quote 64 (n_update b)" and ?w = "quote 112 (if n_gate_open b then [] else n_gate_why b)"
  have "whole (if n_released b then ''motors.released'' else ''motors.energized'', jobj [])" by (simp add: whole_empty)
  moreover have "whole (''lease.changed'', fit 160 (jobj [jkey ''owner'' (if n_lease b \<noteq> [] then jtext (n_lease b) else ''null'')]))"
    using assms by (intro whole_obj) (simp_all add: length_jobj jlen snap_sized_def)
  moreover have "length ?v < 64" "length ?w < 112" by (rule quote_length; simp)+
  moreover from this have "whole (''update.available'', fit 160 (jobj [jkey ''version'' (jtext ?v)]))"
    by (intro whole_obj) (simp_all add: length_jobj jlen)
  moreover have "whole (''setup.flag'', fit 160 (jobj [jkey ''gate_open'' (json_bool (n_gate_open b)), jkey ''reason'' (jtext ?w)]))"
    using jlen(3) [of "n_gate_open b"] \<open>length ?w < 112\<close> by (intro whole_obj) (simp_all add: length_jobj jlen(1,2))
  ultimately show ?thesis unfolding diff_rest_def by (intro whole_app whole_opt)
qed

lemma whole_button: "list_all whole (events_button was now st)"
  by (auto simp: events_button_def whole_def jdefs)

lemma whole_telemetry:
  assumes "snap_sized b" "length (f (n_down_c b)) \<le> 8" "length (f (n_up_c b)) \<le> 8"
  shows "whole (''telemetry.tick'', events_telemetry f b 200)"
proof -
  let ?o = "[jkey ''phase'' (jtext (n_phase b)), jkey ''verdict'' (jtext (n_verdict b)),
       jkey ''fire_ok'' (json_bool (n_fire_ok b)), jkey ''down_c'' (f (n_down_c b)),
       jkey ''up_c'' (f (n_up_c b)),
       jkey ''state'' (jtext (if n_gstate b \<noteq> [] then n_gstate b else n_controller b)),
       jkey ''lid'' (jtext (if sw_lid (n_switches b) then ''closed'' else ''open''))]"
  have "length (jobj ?o) < 160" using assms jlen(3) [of "n_fire_ok b"] by (auto simp: snap_sized_def length_jobj jlen(1,2))
  then show ?thesis by (simp add: whole_def events_telemetry_def fit_id) (simp add: jobj_def)
qed

text \<open>Every event of the detector is whole: for a state that fits the snapshot's buffers and
  temperatures of at most eight characters no event's object is cut at its buffer, and the line
  the ring keeps of it is the complete text, with the blank line that ends an event.\<close>

theorem events_whole:
  assumes "snap_sized b" "length (f (n_down_c b)) \<le> 8" "length (f (n_up_c b)) \<le> 8"
  shows "list_all (\<lambda>e. last (snd e) = CHR ''}'' \<and> event_line n (fst e) (snd e) =
      ''id: '' @ show_nat (unat n) @ [newline] @ ''event: '' @ fst e @ [newline] @ ''data: '' @ snd e @ [newline, newline])
    (events_diff a b @ events_button was now b @ [(''telemetry.tick'', events_telemetry f b 200)])"
proof -
  have "list_all whole (events_diff a b @ events_button was now b @ [(''telemetry.tick'', events_telemetry f b 200)])"
    using whole_switches whole_controller whole_verdict whole_job whole_homing whole_rest whole_button
      whole_telemetry [OF assms] assms(1) by (simp add: events_diff_def)
  then show ?thesis by (rule list.pred_mono_strong) (use whole_line in \<open>auto simp: whole_def\<close>)
qed

section \<open>A concrete run\<close>

definition lid_snap :: "bool \<Rightarrow> snap" where
  "lid_snap armed_now = snap_zero\<lparr>n_switches := 8, n_mode := ''grbl'', n_controller := ''running'', n_verdict := ''ok'',
     n_fire_ok := True, n_armed := armed_now, n_lease := ''wizard:dark''\<rparr>"

theorem events_follow_witness:
  "fold see (events_diff snap_zero (lid_snap True)) (view_of snap_zero) = view_of (lid_snap True)"
  by (rule events_follow) (simp_all add: lid_snap_def snap_zero_def snap_sized_def plain_words_def)

theorem events_whole_witness:
  "event_line 7 ''lid'' (snd (hd (events_diff snap_zero (lid_snap True)))) =
     ''id: '' @ show_nat 7 @ [newline] @ ''event: lid'' @ [newline] @ ''data: '' @
     jobj [jkey ''closed'' ''true''] @ [newline, newline]"
proof -
  have "list_all (\<lambda>e. last (snd e) = CHR ''}'' \<and> event_line 7 (fst e) (snd e) =
      ''id: '' @ show_nat (unat (7 :: 32 word)) @ [newline] @ ''event: '' @ fst e @ [newline] @ ''data: '' @ snd e @ [newline, newline])
    (events_diff snap_zero (lid_snap True) @ events_button 0 0 (lid_snap True) @
     [(''telemetry.tick'', events_telemetry (\<lambda>_. ''0.0'') (lid_snap True) 200)])"
    by (rule events_whole) (simp_all add: lid_snap_def snap_zero_def snap_sized_def)
  moreover obtain es where hd: "events_diff snap_zero (lid_snap True) = (''lid'', jobj [jkey ''closed'' ''true'']) # es"
  proof -
    have "diff_switches snap_zero (lid_snap True) = [(''lid'', jobj [jkey ''closed'' ''true''])]"
      by (simp add: diff_switches_def lid_snap_def snap_zero_def sw_lid_def sw_interlock_def jdefs fit_def)
    then show ?thesis by (intro that) (simp only: events_diff_def append_Cons append_Nil)
  qed
  ultimately show ?thesis unfolding hd by simp
qed

text \<open>A stream opens, an event is published, the stream is greeted and reads it.\<close>

definition one_event :: event where
  "one_event = (''lid'', jobj [jkey ''closed'' ''true''])"

definition read_acts :: "evact list" where
  "read_acts = [Publishes one_event, Reads 7 False, Reads 7 False]"

definition opened_sys :: evsys where
  "opened_sys = ev_start\<lparr>ev := events_boot\<lparr>slots := [''10.0.0.5'', [], []], slot_gen := [1, 0, 0, 0], listeners := 1\<rparr>,
     streams := [7 \<mapsto> \<lparr>c_slot = 0, c_gen = 1, c_next = 1, greeted = False, farewelled = False\<rparr>]\<rparr>"

lemma opened_run: "ev_step f (Opens 7 True (Some ''10.0.0.5'')) ev_start = opened_sys"
proof -
  have r: "replicate events_max_streams ([] :: string) = [[], [], []]" "replicate (Suc events_max_streams) (0 :: 32 word) = [0, 0, 0, 0]"
    and u: "[0..<events_max_streams] = [0, 1, 2]"
    by (simp_all add: events_max_streams_def numeral_3_eq_3 upt_rec)
  show ?thesis
    by (simp add: opened_sys_def ev_start_def events_boot_def open_slot_def take_slot_def events_admit_def free_slot_def fit_def
        r u del: replicate_Suc)
qed

lemma read_run: "told (fold (ev_step f) read_acts opened_sys) =
    [(7, Hello), (7, Got (Event (event_line 1 (fst one_event) (snd one_event))))]"
  by (simp add: read_acts_def opened_sys_def ev_start_def events_boot_def show_one_def publish_locked_def events_next_def
      ring_fetch_def ring_size_def)

theorem stream_account_witness:
  "gots 7 (fold (ev_step (\<lambda>_. [])) (Opens 7 True (Some ''10.0.0.5'') # read_acts) ev_start) =
     [Event (event_line 1 (fst one_event) (snd one_event))] \<and>
   account (shown (fold (ev_step (\<lambda>_. [])) (Opens 7 True (Some ''10.0.0.5'') # read_acts) ev_start)) 0
     [Event (event_line 1 (fst one_event) (snd one_event))] \<noteq> None"
proof -
  let ?f = "\<lambda>_::real. []::char list" and ?o = "Opens 7 True (Some ''10.0.0.5'')"
  have y2: "fold (ev_step ?f) (?o # read_acts) ev_start = fold (ev_step ?f) read_acts opened_sys"
    using opened_run [of ?f] by simp
  have g: "gots 7 (fold (ev_step ?f) read_acts opened_sys) = [Event (event_line 1 (fst one_event) (snd one_event))]"
    by (simp add: gots_def read_run)
  have len: "length (shown (fold (ev_step ?f) read_acts opened_sys)) = 1"
    by (simp add: read_acts_def opened_sys_def ev_start_def events_boot_def show_one_def publish_locked_def events_next_def
        ring_fetch_def ring_size_def)
  have y1: "fold (ev_step ?f) [] ev_start = ev_start" by simp
  have none: "streams ev_start 7 = None" "gots 7 ev_start = []" "shown ev_start = []" by (simp_all add: ev_start_def gots_def)
  have "let y1 = fold (ev_step ?f) [] ev_start; y2 = fold (ev_step ?f) ([] @ ?o # read_acts) ev_start
    in \<exists>p \<le> length (shown y2). account (shown y2) (length (shown y1)) (drop (length (gots 7 y1)) (gots 7 y2)) = Some p \<and>
         map_option c_next (streams y2 7) = Some (of_nat (Suc p))"
  proof (rule stream_account)
    show "streams (fold (ev_step ?f) [] ev_start) 7 = None" by (simp add: none)
    show "streams (fold (ev_step ?f) ([] @ [?o]) ev_start) 7 = Some (the (streams opened_sys 7))"
      unfolding append_Nil fold.simps comp_apply id_apply opened_run by (simp add: opened_sys_def)
    show "Closes 7 \<notin> set read_acts" by (simp add: read_acts_def)
    show "length (shown (fold (ev_step ?f) ([] @ ?o # read_acts) ev_start)) < 2 ^ 32"
      unfolding append_Nil y2 len by simp
  qed
  then show ?thesis unfolding Let_def append_Nil y1 y2 none g by (auto simp del: account.simps)
qed

theorem streams_capped_witness:
  "card {n. \<exists>i < events_max_streams. holds_slot opened_sys n i} \<le> events_max_streams \<and>
   listeners (ev opened_sys) = int (card (dom (streams opened_sys)))"
proof -
  have "opened_sys = fold (ev_step (\<lambda>_. [])) [Opens 7 True (Some ''10.0.0.5'')] ev_start" by (simp add: opened_run del: ev_step.simps)
  from streams_capped [OF _ _ this] show ?thesis by (simp add: peer_short_def)
qed

end
