(* ===== verification/Jobstream.thy ===== *)
theory Jobstream
  imports Cnum
begin

text \<open>
  The daemon's own Grbl sender (\<open>src/jobstream.c\<close>): the generator over lines in memory, the parse of
  the controller's answers, the window of lines in flight with its barriers, the witnesses of the
  emission, and the judgement of the end. One tick of the 25 Hz loop is \<open>jobstream_tick\<close>; what the
  kernel and the socket answer in it is its input. The lines written to the socket are \<open>wire\<close>, each
  with its newline. \<open>inflight\<close> is the target's 32-bit \<open>size_t\<close> and wraps.
\<close>

section \<open>The controller's port and published state\<close>

definition grbl_port :: "string option \<Rightarrow> int" where
  "grbl_port env =
     (let port = (case env of None \<Rightarrow> 23 | Some p \<Rightarrow> if p = [] then 23 else atol p)
      in if port > 0 \<and> port < 65536 then port else 23)"

definition strstr :: "string \<Rightarrow> string \<Rightarrow> bool" where
  "strstr s p \<longleftrightarrow> list_ex (\<lambda>i. starts_with p (drop i s)) [0..<Suc (length s)]"

definition connected_text :: "string \<Rightarrow> string" where
  "connected_text v = [dquote] @ ''connected'' @ [dquote] @ '':'' @ v"

text \<open>The body of the file, up to a NUL byte; \<open>None\<close> is a file that cannot be opened.\<close>

definition jobstream_sender_connected :: "string option \<Rightarrow> int" where
  "jobstream_sender_connected f =
     (case f of None \<Rightarrow> -1
      | Some body0 \<Rightarrow>
          (let body = takeWhile (\<lambda>c. c \<noteq> CHR 0x00) (take 511 body0) in
           if strstr body (connected_text ''true'') then 1
           else if strstr body (connected_text ''false'') then 0 else -1))"

definition jobstream_sender_blocks :: "string option \<Rightarrow> bool" where
  "jobstream_sender_blocks f \<longleftrightarrow> jobstream_sender_connected f \<noteq> 0"

text \<open>An attribute of the kernel: its text when it was read, and the number it starts with.\<close>

definition rd_long :: "(string \<Rightarrow> string option) \<Rightarrow> string \<Rightarrow> int \<Rightarrow> int" where
  "rd_long attrs a fallback =
     (case attrs a of None \<Rightarrow> fallback
      | Some t \<Rightarrow> if t = [] then fallback else fst (strtol10 (takeWhile (\<lambda>c. c \<noteq> CHR 0x00) (take 31 t))))"

section \<open>Generators\<close>

datatype gen_answer = G_Line string | G_Wait | G_End | G_Fail string

record lines_ctx =
  l_text :: "string option"
  l_off :: nat

definition is_eol :: "char \<Rightarrow> bool" where
  "is_eol c \<longleftrightarrow> c = newline \<or> c = cret"

definition jobstream_lines_gen :: "nat \<Rightarrow> lines_ctx \<Rightarrow> gen_answer \<times> lines_ctx" where
  "jobstream_lines_gen len l =
     (case l_text l of None \<Rightarrow> (G_End, l)
      | Some text \<Rightarrow>
          (let p0 = drop (l_off l) text; p = dropWhile is_eol p0;
               pos = l_off l + (length p0 - length p);
               n = min (length (takeWhile (\<lambda>c. c \<noteq> newline) p)) (len - 1)
           in if p = [] then (G_End, l) else (G_Line (take n p), l\<lparr>l_off := pos + n\<rparr>)))"

section \<open>The run\<close>

definition inflight_bytes :: nat where "inflight_bytes = 512"
definition inflight_lines :: nat where "inflight_lines = 32"
definition jobstream_hz :: real where "jobstream_hz = 25"
definition jobstream_hv_on :: int where "jobstream_hv_on = 30"

definition line_is_barrier :: "string \<Rightarrow> bool" where
  "line_is_barrier l \<longleftrightarrow> starts_with ''$'' l \<or> starts_with ''M102'' l \<or> l = ''M2'' \<or> starts_with ''M2 '' l"

record sample =
  s_t :: real
  s_hv :: int
  s_tp :: int
  s_lon :: int
  s_ir :: "int list"

record jrun =
  sent :: nat
  acked :: nat
  samples :: nat
  lit :: bool
  t_first_lit :: real
  t_last_lit :: real
  hv_max :: int
  lon_max :: int
  tp_base :: int
  tp_max :: int

record 'g cfg =
  gen :: "nat \<Rightarrow> 'g \<Rightarrow> gen_answer \<times> 'g"
  on_sample :: "sample \<Rightarrow> 'g \<Rightarrow> 'g"
  wait_timeout_s :: real
  run_timeout_s :: real
  end_dark_s :: real
  sample_div :: nat

record 'g js =
  jr :: jrun
  rx :: string
  done_sending :: bool
  dark_run :: nat
  sent_text :: "string list"
  sent_len :: "nat list"
  inflight :: "32 word"
  barrier :: bool
  held_line :: "string option"
  t0 :: real
  t_last_ack :: real
  tickn :: nat
  gctx :: 'g
  wire :: "string list"

text \<open>The array of lengths is not initialised; \<open>junk\<close> is what it holds.\<close>

definition js_start :: "nat list \<Rightarrow> real \<Rightarrow> 'g \<Rightarrow> 'g js" where
  "js_start junk now g = \<lparr>jr = \<lparr>sent = 0, acked = 0, samples = 0, lit = False, t_first_lit = 0, t_last_lit = 0,
     hv_max = 0, lon_max = 0, tp_base = -1, tp_max = 0\<rparr>, rx = [], done_sending = False, dark_run = 0,
     sent_text = replicate inflight_lines [], sent_len = take inflight_lines (junk @ replicate inflight_lines 0),
     inflight = 0, barrier = False, held_line = None, t0 = now, t_last_ack = now, tickn = 0, gctx = g, wire = []\<rparr>"

text \<open>What a tick finds: the time, the attributes, what arrived on the socket, whether it closed.\<close>

record tick_in =
  i_now :: real
  i_attrs :: "string \<Rightarrow> string option"
  i_arrived :: string
  i_closed :: bool
  i_abort :: bool
  i_write :: "nat \<Rightarrow> bool"

subsection \<open>The witnesses\<close>

definition take_sample :: "tick_in \<Rightarrow> real \<Rightarrow> sample" where
  "take_sample i t = (let rd = (\<lambda>a. rd_long (i_attrs i) a 0) in
     \<lparr>s_t = t, s_hv = rd ''pic/hv_current'', s_tp = rd ''head/beam_detect_analog'', s_lon = rd ''cnc/laser_on_sampled'',
      s_ir = List.map rd [''pic/lid_ir_1'', ''pic/lid_ir_2'', ''pic/lid_ir_3'', ''pic/lid_ir_4'']\<rparr>)"

definition witness_run :: "sample \<Rightarrow> jrun \<Rightarrow> jrun" where
  "witness_run s r0 =
     (let r = r0\<lparr>samples := samples r0 + 1, hv_max := max (hv_max r0) (s_hv s), lon_max := max (lon_max r0) (s_lon s)\<rparr> in
      if s_hv s > jobstream_hv_on
      then r\<lparr>lit := True, t_first_lit := (if lit r then t_first_lit r else s_t s), t_last_lit := s_t s,
             tp_max := max (tp_max r) (s_tp s)\<rparr>
      else if tp_base r < 0 \<and> \<not> lit r then r\<lparr>tp_base := s_tp s\<rparr> else r)"

definition witness :: "'g cfg \<Rightarrow> tick_in \<Rightarrow> 'g js \<Rightarrow> 'g js" where
  "witness c i s =
     (let x = take_sample i (i_now i - t0 s) in
      s\<lparr>jr := witness_run x (jr s),
        dark_run := (if s_hv x > jobstream_hv_on then 0 else if lit (jr s) then dark_run s + 1 else dark_run s),
        gctx := on_sample c x (gctx s)\<rparr>)"

subsection \<open>The controller's answers\<close>

definition answer_text :: "string \<Rightarrow> string" where
  "answer_text l = takeWhile (\<lambda>c. c \<noteq> CHR 0x00) (dropWhile (\<lambda>c. c = cret \<or> c = space) l)"

definition is_ok :: "string \<Rightarrow> bool" where
  "is_ok l \<longleftrightarrow> starts_with ''ok'' (answer_text l)"

definition is_fault :: "string \<Rightarrow> bool" where
  "is_fault l \<longleftrightarrow> starts_with ''error'' (answer_text l) \<or> starts_with ''ALARM'' (answer_text l)"

definition ack :: "real \<Rightarrow> 'g js \<Rightarrow> 'g js" where
  "ack now s =
     (let a = acked (jr s) in
      s\<lparr>jr := (jr s)\<lparr>acked := a + 1\<rparr>, inflight := inflight s - of_nat (sent_len s ! (a mod inflight_lines)),
        barrier := (if a + 1 \<ge> sent (jr s) then False else barrier s), t_last_ack := now\<rparr>)"

definition fault_why :: "string \<Rightarrow> 'g js \<Rightarrow> string" where
  "fault_why l s =
     ''the controller answered '' @ take 24 (takeWhile (\<lambda>c. c \<noteq> cret) (answer_text l)) @ '' on line '' @
     show_nat (acked (jr s) + 1) @ '' ('' @
     (if acked (jr s) < sent (jr s) then sent_text s ! (acked (jr s) mod inflight_lines) else []) @ '')''"

text \<open>A failed run's buffer is gone with it.\<close>

definition handle_line :: "real \<Rightarrow> string \<Rightarrow> 'g js \<Rightarrow> (string \<times> 'g js) + 'g js" where
  "handle_line now l s =
     (if is_ok l then Inr (ack now s) else if is_fault l then Inl (fault_why l s, s\<lparr>rx := []\<rparr>) else Inr s)"

text \<open>The complete lines at the front of the buffer, one after the other; the rest stays in it.\<close>

function rx_lines :: "real \<Rightarrow> string \<Rightarrow> 'g js \<Rightarrow> (string \<times> 'g js) + 'g js" where
  "rx_lines now b s =
     (if newline \<notin> set b then Inr (s\<lparr>rx := b\<rparr>)
      else case handle_line now (takeWhile (\<lambda>c. c \<noteq> newline) b) s of
        Inl e \<Rightarrow> Inl e
      | Inr s' \<Rightarrow> rx_lines now (tl (dropWhile (\<lambda>c. c \<noteq> newline) b)) s')"
  by pat_completeness auto

lemma rest_shorter: "newline \<in> set b \<Longrightarrow> length (dropWhile (\<lambda>c. c \<noteq> newline) b) - Suc 0 < length b"
  by (induction b) auto

termination rx_lines
  by (relation "measure (\<lambda>(now, b, s). length b)") (auto simp: rest_shorter)

declare rx_lines.simps [simp del]

definition rx_room :: nat where "rx_room = 511"

text \<open>A buffer still full after its complete lines is dropped.\<close>

definition rx_settle :: "'g js \<Rightarrow> 'g js" where
  "rx_settle s = (if length (rx s) \<ge> rx_room then s\<lparr>rx := []\<rparr> else s)"

text \<open>The reads of a tick: each takes as much of what arrived as the buffer has room for.\<close>

function rx_reads :: "real \<Rightarrow> string \<Rightarrow> 'g js \<Rightarrow> (string \<times> 'g js) + 'g js" where
  "rx_reads now arrived s =
     (if arrived = [] \<or> length (rx s) \<ge> rx_room then Inr s
      else let k = rx_room - length (rx s) in
        case rx_lines now (rx s @ take k arrived) s of
          Inl e \<Rightarrow> Inl e
        | Inr s' \<Rightarrow> rx_reads now (drop k arrived) (rx_settle s'))"
  by pat_completeness auto

termination rx_reads
  by (relation "measure (\<lambda>(now, a, s). length a)") (auto simp: not_le neq_Nil_conv)

declare rx_reads.simps [simp del]

definition closed_why :: string where
  "closed_why = ''the controller closed the connection (a sender took the socket?)''"

definition harvest :: "tick_in \<Rightarrow> 'g js \<Rightarrow> (string \<times> 'g js) + 'g js" where
  "harvest i s =
     (if \<not> done_sending s \<or> acked (jr s) < sent (jr s)
      then case rx_reads (i_now i) (i_arrived i) s of
          Inl e \<Rightarrow> Inl e
        | Inr s' \<Rightarrow> if i_closed i then Inl (closed_why, s') else Inr s'
      else Inr s)"

subsection \<open>The next lines\<close>

definition send_line :: "string \<Rightarrow> 'g js \<Rightarrow> 'g js" where
  "send_line l s =
     (let k = sent (jr s) mod inflight_lines in
      s\<lparr>sent_text := (sent_text s)[k := take 60 l], sent_len := (sent_len s)[k := length l + 1],
        inflight := inflight s + of_nat (length l + 1), jr := (jr s)\<lparr>sent := sent (jr s) + 1\<rparr>,
        held_line := None, barrier := (barrier s \<or> line_is_barrier l), wire := wire s @ [l @ [newline]]\<rparr>)"

definition must_wait :: "string \<Rightarrow> 'g js \<Rightarrow> bool" where
  "must_wait l s \<longleftrightarrow>
     (if line_is_barrier l then acked (jr s) < sent (jr s)
      else inflight s + of_nat (length l) + 1 > of_nat inflight_bytes \<or>
           int (sent (jr s)) - int (acked (jr s)) \<ge> int inflight_lines)"

text \<open>A line in hand, the generator's next one, or none; \<open>Inl\<close> is a failure or the loop's end.\<close>

datatype fetched = F_Line string | F_None | F_Fail string

definition fetch_line :: "'g cfg \<Rightarrow> 'g js \<Rightarrow> fetched \<times> 'g js" where
  "fetch_line c s =
     (case held_line s of
        Some l \<Rightarrow> (F_Line l, s)
      | None \<Rightarrow>
          (case gen c 254 (gctx s) of
             (G_Line l, g) \<Rightarrow> (F_Line l, s\<lparr>gctx := g, held_line := Some l\<rparr>)
           | (G_Wait, g) \<Rightarrow> (F_None, s\<lparr>gctx := g\<rparr>)
           | (G_End, g) \<Rightarrow> (F_None, s\<lparr>gctx := g, done_sending := True\<rparr>)
           | (G_Fail e, g) \<Rightarrow> (F_Fail e, s\<lparr>gctx := g\<rparr>)))"

function feed :: "'g cfg \<Rightarrow> (nat \<Rightarrow> bool) \<Rightarrow> 'g js \<Rightarrow> (string \<times> 'g js) + 'g js" where
  "feed c ok s =
     (if done_sending s \<or> barrier s then Inr s
      else case fetch_line c s of
        (F_Fail e, s1) \<Rightarrow> Inl (e, s1)
      | (F_None, s1) \<Rightarrow> Inr s1
      | (F_Line l, s1) \<Rightarrow>
          if must_wait l s1 then Inr s1
          else if \<not> ok (length (wire s1)) then Inl (''cannot write to the controller'', s1)
          else feed c ok (send_line l s1))"
  by pat_completeness auto

lemma fetch_counts: "fetch_line c s = (r, s1) \<Longrightarrow> sent (jr s1) = sent (jr s) \<and> acked (jr s1) = acked (jr s)"
  by (auto simp: fetch_line_def split: option.splits prod.splits gen_answer.splits)

lemma send_room:
  assumes "fetch_line c s = (F_Line l, s1)" "\<not> must_wait l s1"
  shows "nat (int inflight_lines + 1 + int (acked (jr (send_line l s1))) - int (sent (jr (send_line l s1)))) <
    nat (int inflight_lines + 1 + int (acked (jr s)) - int (sent (jr s)))"
  using fetch_counts [OF assms(1)] assms(2)
  by (auto simp: must_wait_def send_line_def inflight_lines_def Let_def split: if_splits)

termination feed
proof (relation "measure (\<lambda>(c, ok, s). nat (int inflight_lines + 1 + int (acked (jr s)) - int (sent (jr s))))", simp)
  fix c :: "'g cfg" and ok and s :: "'g js" and x s1 l
  assume "(x, s1) = fetch_line c s" "x = F_Line l" "\<not> must_wait l s1"
  then show "((c, ok, send_line l s1), (c, ok, s)) \<in>
      measure (\<lambda>(c, ok, s). nat (int inflight_lines + 1 + int (acked (jr s)) - int (sent (jr s))))"
    using send_room [of c s l s1] by simp
qed

declare feed.simps [simp del]

subsection \<open>The end\<close>

datatype outcome = Going | Over | Failed string

definition all_acked :: "'g js \<Rightarrow> bool" where
  "all_acked s \<longleftrightarrow> done_sending s \<and> acked (jr s) \<ge> sent (jr s)"

definition sample_every :: "'g cfg \<Rightarrow> nat" where
  "sample_every c = (if sample_div c > 1 then sample_div c else 1)"

definition dark_enough :: "'g cfg \<Rightarrow> 'g js \<Rightarrow> bool" where
  "dark_enough c s \<longleftrightarrow> end_dark_s c \<le> 0 \<or>
     int (dark_run s) \<ge> floor (end_dark_s c * jobstream_hz / of_nat (sample_every c))"

definition judge_end :: "'g cfg \<Rightarrow> real \<Rightarrow> 'g js \<Rightarrow> outcome" where
  "judge_end c now s =
     (if \<not> all_acked s then Going
      else if wait_timeout_s c \<le> 0 then Over
      else if \<not> lit (jr s)
      then if now - t_last_ack s > 2 then Failed ''the program ended without a discharge'' else Going
      else if dark_enough c s then Over else Going)"

definition judge_time :: "'g cfg \<Rightarrow> real \<Rightarrow> 'g js \<Rightarrow> outcome" where
  "judge_time c t s =
     (if wait_timeout_s c > 0 \<and> \<not> lit (jr s) \<and> t > wait_timeout_s c
      then Failed ''no discharge seen: the press never came''
      else if run_timeout_s c > 0 \<and> t > run_timeout_s c
      then Failed (''the run did not finish within '' @ fmt_f0 (run_timeout_s c) @ '' s'')
      else Going)"

definition judge :: "'g cfg \<Rightarrow> tick_in \<Rightarrow> 'g js \<Rightarrow> outcome" where
  "judge c i s =
     (if i_abort i then Failed ''aborted''
      else case judge_end c (i_now i) s of
        Going \<Rightarrow> judge_time c (i_now i - t0 s) s
      | x \<Rightarrow> x)"

text \<open>A run that fails sends the soft reset, whatever its state.\<close>

definition soft_reset :: string where "soft_reset = [CHR 0x18]"

definition fail_run :: "string \<Rightarrow> 'g js \<Rightarrow> outcome \<times> 'g js" where
  "fail_run e s = (Failed e, s\<lparr>wire := wire s @ [soft_reset]\<rparr>)"

definition jobstream_tick :: "'g cfg \<Rightarrow> tick_in \<Rightarrow> 'g js \<Rightarrow> outcome \<times> 'g js" where
  "jobstream_tick c i s0 =
     (let s1 = (if tickn s0 mod sample_every c = 0 then witness c i s0 else s0) in
      case harvest i s1 of
        Inl (e, s2) \<Rightarrow> fail_run e s2
      | Inr s2 \<Rightarrow>
          (case feed c (i_write i) s2 of
             Inl (e, s3) \<Rightarrow> fail_run e s3
           | Inr s3 \<Rightarrow>
               (case judge c i s3 of
                  Failed e \<Rightarrow> fail_run e s3
                | Over \<Rightarrow> (Over, s3)
                | Going \<Rightarrow> (Going, s3\<lparr>tickn := tickn s3 + 1\<rparr>))))"

text \<open>The run over the ticks the world gives it, up to its end.\<close>

fun jobstream_run :: "'g cfg \<Rightarrow> tick_in list \<Rightarrow> 'g js \<Rightarrow> outcome \<times> 'g js" where
  "jobstream_run c [] s = (Going, s)"
| "jobstream_run c (i # is) s =
     (case jobstream_tick c i s of (Going, s') \<Rightarrow> jobstream_run c is s' | r \<Rightarrow> r)"

end
