(* ===== verification/JobstreamProps.thy ===== *)
theory JobstreamProps
  imports Jobstream
begin

text \<open>
  The sender: the window of lines in flight, the barriers, the order and completeness of what goes
  out, and the parse of the answers however they arrive.
\<close>

section \<open>The parse of the answers\<close>

text \<open>The reference: the complete lines of all that arrived, in order, and the rest kept.\<close>

fun split_lines :: "string \<Rightarrow> string list \<times> string" where
  "split_lines [] = ([], [])"
| "split_lines (c # b) =
     (let r = split_lines b in
      if c = newline then ([] # fst r, snd r)
      else case fst r of [] \<Rightarrow> ([], c # snd r) | l # ls \<Rightarrow> ((c # l) # ls, snd r))"

fun handle_all :: "real \<Rightarrow> string list \<Rightarrow> 'g js \<Rightarrow> (string \<times> 'g js) + 'g js" where
  "handle_all now [] s = Inr s"
| "handle_all now (l # ls) s = (case handle_line now l s of Inl e \<Rightarrow> Inl e | Inr s' \<Rightarrow> handle_all now ls s')"

definition keep_rest :: "string \<Rightarrow> (string \<times> 'g js) + 'g js \<Rightarrow> (string \<times> 'g js) + 'g js" where
  "keep_rest b r = (case r of Inl e \<Rightarrow> Inl e | Inr s \<Rightarrow> Inr (s\<lparr>rx := b\<rparr>))"

lemma split_no_newline: "newline \<notin> set b \<Longrightarrow> split_lines b = ([], b)"
  by (induction b) (auto simp: Let_def)

lemma split_newline: "newline \<notin> set l \<Longrightarrow> split_lines (l @ newline # b) = (l # fst (split_lines b), snd (split_lines b))"
  by (induction l) (auto simp: Let_def)

lemma line_split:
  "newline \<in> set b \<Longrightarrow> b = takeWhile (\<lambda>c. c \<noteq> newline) b @ newline # tl (dropWhile (\<lambda>c. c \<noteq> newline) b)"
  by (induction b) auto

lemma split_prefix:
  "newline \<notin> set r \<Longrightarrow> split_lines (r @ b) =
    (case fst (split_lines b) of [] \<Rightarrow> ([], r @ snd (split_lines b)) | l # ls \<Rightarrow> ((r @ l) # ls, snd (split_lines b)))"
  by (induction r) (auto simp: Let_def prod_eq_iff split: list.splits)

lemma rx_lines_ref: "rx_lines now b s = keep_rest (snd (split_lines b)) (handle_all now (fst (split_lines b)) s)"
proof (induction now b s rule: rx_lines.induct)
  case (1 now b s)
  show ?case
  proof (cases "newline \<in> set b")
    case False
    then show ?thesis by (subst rx_lines.simps) (simp add: split_no_newline keep_rest_def)
  next
    case True
    let ?l = "takeWhile (\<lambda>c. c \<noteq> newline) b" and ?r = "tl (dropWhile (\<lambda>c. c \<noteq> newline) b)"
    have "newline \<notin> set ?l" by (metis (mono_tags, lifting) set_takeWhileD)
    then have sp: "split_lines b = (?l # fst (split_lines ?r), snd (split_lines ?r))"
      using split_newline [of ?l ?r] line_split [OF True] by metis
    show ?thesis
    proof (cases "handle_line now ?l s")
      case (Inl e)
      then show ?thesis using True by (subst rx_lines.simps) (simp add: sp keep_rest_def)
    next
      case (Inr s')
      have "rx_lines now ?r s' = keep_rest (snd (split_lines ?r)) (handle_all now (fst (split_lines ?r)) s')"
        using 1 [of s'] True Inr by blast
      then show ?thesis using True Inr by (subst rx_lines.simps) (simp add: sp)
    qed
  qed
qed

lemma split_append: "split_lines (a @ b) =
    (fst (split_lines a) @ fst (split_lines (snd (split_lines a) @ b)), snd (split_lines (snd (split_lines a) @ b)))"
proof (induction a)
  case (Cons c a)
  then show ?case
    by (cases "fst (split_lines a)"; cases "fst (split_lines (snd (split_lines a) @ b))") (auto simp: Let_def)
qed simp

lemma split_rest: "newline \<notin> set (snd (split_lines b))"
  by (induction b) (auto simp: Let_def split: list.splits)

lemma handle_all_append:
  "handle_all now (ls @ ms) s = (case handle_all now ls s of Inl e \<Rightarrow> Inl e | Inr s' \<Rightarrow> handle_all now ms s')"
  by (induction ls arbitrary: s) (auto split: sum.splits)

text \<open>Lines shorter than the buffer: no stretch of the text without a newline fills it.\<close>

definition short_lines :: "string \<Rightarrow> bool" where
  "short_lines b \<longleftrightarrow> list_all (\<lambda>l. length l < rx_room) (fst (split_lines b)) \<and> length (snd (split_lines b)) < rx_room"

lemma short_append:
  assumes "short_lines (a @ b)"
  shows "length (snd (split_lines a)) < rx_room" "short_lines (snd (split_lines a) @ b)"
proof -
  show "short_lines (snd (split_lines a) @ b)" using assms unfolding short_lines_def split_append [of a b] by simp
  have "length r < rx_room" if "newline \<notin> set r" "short_lines (r @ b)" for r
    using that(2) by (auto simp: short_lines_def split_prefix [OF that(1)] split: list.splits)
  then show "length (snd (split_lines a)) < rx_room"
    using \<open>short_lines (snd (split_lines a) @ b)\<close> split_rest by blast
qed

lemma handle_line_rx: "handle_line now l s = Inr s' \<Longrightarrow> rx s' = rx s"
  by (auto simp: handle_line_def ack_def Let_def split: if_splits)

lemma ack_rx: "ack now (t\<lparr>rx := x\<rparr>) = (ack now t)\<lparr>rx := x\<rparr>"
  by (simp add: ack_def Let_def)

lemma handle_line_frame:
  "handle_line now l (t\<lparr>rx := x\<rparr>) = (case handle_line now l t of Inl e \<Rightarrow> Inl e | Inr s \<Rightarrow> Inr (s\<lparr>rx := x\<rparr>))"
  by (simp add: handle_line_def ack_rx fault_why_def)

lemma handle_all_frame:
  "keep_rest z (handle_all now ls (t\<lparr>rx := x\<rparr>)) = keep_rest z (handle_all now ls t)"
proof (induction ls arbitrary: t)
  case (Cons l ls)
  then show ?case by (cases "handle_line now l t") (simp_all add: handle_line_frame keep_rest_def)
qed (simp add: keep_rest_def)

lemma rx_reads_ref:
  assumes "short_lines (rx s @ arrived)" "newline \<notin> set (rx s)"
  shows "rx_reads now arrived s = keep_rest (snd (split_lines (rx s @ arrived))) (handle_all now (fst (split_lines (rx s @ arrived))) s)"
  using assms
proof (induction now arrived s rule: rx_reads.induct)
  case (1 now arrived s)
  have room: "length (rx s) < rx_room" using short_append(1) [OF 1(2)] 1(3) split_no_newline by simp
  show ?case
  proof (cases "arrived = []")
    case True
    then show ?thesis using 1(3) by (subst rx_reads.simps) (simp add: split_no_newline keep_rest_def)
  next
    case False
    define k where "k = rx_room - length (rx s)"
    let ?b = "rx s @ take k arrived"
    have whole: "rx s @ arrived = ?b @ drop k arrived" by simp
    have sh: "short_lines (?b @ drop k arrived)" using 1(2) by simp
    have eq: "rx_reads now arrived s = (case rx_lines now ?b s of Inl e \<Rightarrow> Inl e | Inr s' \<Rightarrow> rx_reads now (drop k arrived) (rx_settle s'))"
      using False room unfolding k_def by (subst rx_reads.simps) (simp add: Let_def)
    show ?thesis
    proof (cases "handle_all now (fst (split_lines ?b)) s")
      case (Inl e)
      then show ?thesis
        unfolding eq rx_lines_ref whole split_append [of ?b "drop k arrived"]
        by (simp add: keep_rest_def handle_all_append)
    next
      case (Inr s')
      let ?r = "snd (split_lines ?b)"
      have r: "rx_lines now ?b s = Inr (s'\<lparr>rx := ?r\<rparr>)" using Inr by (simp add: rx_lines_ref keep_rest_def)
      have st: "rx_settle (s'\<lparr>rx := ?r\<rparr>) = s'\<lparr>rx := ?r\<rparr>" using short_append(1) [OF sh] by (simp add: rx_settle_def)
      have ih: "rx_reads now (drop k arrived) (s'\<lparr>rx := ?r\<rparr>) = keep_rest (snd (split_lines (?r @ drop k arrived)))
          (handle_all now (fst (split_lines (?r @ drop k arrived))) (s'\<lparr>rx := ?r\<rparr>))"
        using 1(1) [of k "s'\<lparr>rx := ?r\<rparr>"] False room r st short_append(2) [OF sh] split_rest [of ?b] by (simp add: k_def)
      show ?thesis
        unfolding eq r sum.case st ih handle_all_frame whole split_append [of ?b "drop k arrived"]
        by (simp add: handle_all_append Inr)
    qed
  qed
qed

text \<open>However the controller's bytes arrive, its answers are the same: for text whose lines are shorter
  than the buffer, the reads of a tick, each of as much as the buffer has room for, handle exactly the
  complete lines of everything that arrived, in order and each once, and keep the incomplete rest.\<close>

theorem answers_whatever_the_reads:
  assumes "short_lines (rx s @ arrived)" "newline \<notin> set (rx s)"
  shows "rx_reads now arrived s =
    (case handle_all now (fst (split_lines (rx s @ arrived))) s of
       Inl e \<Rightarrow> Inl e
     | Inr s' \<Rightarrow> Inr (s'\<lparr>rx := snd (split_lines (rx s @ arrived))\<rparr>))"
  using rx_reads_ref [OF assms] by (simp add: keep_rest_def)

section \<open>The window\<close>

text \<open>What is out and not acknowledged, by the lengths the sender keeps.\<close>

definition out_bytes :: "'g js \<Rightarrow> nat" where
  "out_bytes s = sum_list (List.map (\<lambda>k. sent_len s ! (k mod inflight_lines)) [acked (jr s)..<sent (jr s)])"

definition window_inv :: "'g js \<Rightarrow> bool" where
  "window_inv s \<longleftrightarrow> acked (jr s) \<le> sent (jr s) \<and> sent (jr s) \<le> acked (jr s) + inflight_lines \<and>
     length (sent_len s) = inflight_lines \<and> inflight s = of_nat (out_bytes s) \<and> out_bytes s \<le> inflight_bytes \<and>
     (barrier s \<longrightarrow> sent (jr s) = Suc (acked (jr s))) \<and>
     (\<forall>l. held_line s = Some l \<longrightarrow> length l < 254)"

text \<open>The contract of a line source: it writes a line into the buffer it is given.\<close>

locale line_source =
  fixes c :: "'g cfg"
  assumes fits: "gen c len g = (G_Line l, g') \<Longrightarrow> 0 < len \<Longrightarrow> length l < len"
begin

lemma fetch_window:
  assumes "window_inv s" "fetch_line c s = (r, s1)"
  shows "window_inv s1 \<and> jr s1 = jr s \<and> barrier s1 = barrier s \<and> (\<forall>l. r = F_Line l \<longrightarrow> held_line s1 = Some l \<and> length l < 254)"
  using assms fits [of 254 "gctx s"]
  by (auto simp: fetch_line_def window_inv_def out_bytes_def split: option.splits prod.splits gen_answer.splits)

end

lemma mod_apart: "a \<le> k \<Longrightarrow> k < n \<Longrightarrow> n < a + inflight_lines \<Longrightarrow> k mod inflight_lines \<noteq> n mod inflight_lines"
proof
  assume a: "a \<le> k" "k < n" "n < a + inflight_lines" and e: "k mod inflight_lines = n mod inflight_lines"
  from e [symmetric] a(2) have "inflight_lines dvd n - k" by (simp add: mod_eq_dvd_iff_nat)
  then obtain m where "n - k = inflight_lines * m" by (auto simp: dvd_def)
  then show False using a by (cases m) auto
qed

lemma send_window:
  assumes inv: "window_inv s" and l: "length l < 254" and nb: "\<not> barrier s" and nw: "\<not> must_wait l s"
  shows "window_inv (send_line l s)"
proof -
  let ?a = "acked (jr s)" and ?n = "sent (jr s)"
  have le: "?a \<le> ?n" and len: "length (sent_len s) = inflight_lines" and fl: "inflight s = of_nat (out_bytes s)"
    and ob: "out_bytes s \<le> 512" using inv by (simp_all add: window_inv_def inflight_bytes_def)
  have u: "unat (inflight s + of_nat (length l) + 1) = out_bytes s + length l + 1"
    using fl ob l by (simp add: unat_word_ariths unat_of_nat)
  have room: "?n < ?a + inflight_lines \<and> out_bytes s + length l + 1 \<le> 512 \<and> (line_is_barrier l \<longrightarrow> ?a = ?n)"
  proof (cases "line_is_barrier l")
    case True
    then have "?a = ?n" using nw le by (simp add: must_wait_def)
    then show ?thesis using l by (simp add: out_bytes_def inflight_lines_def)
  next
    case False
    then have "\<not> inflight s + of_nat (length l) + 1 > of_nat inflight_bytes" "int ?n - int ?a < int inflight_lines"
      using nw by (simp_all add: must_wait_def)
    then have "out_bytes s + length l + 1 \<le> 512" unfolding word_less_nat_alt u by (simp add: inflight_bytes_def)
    then show ?thesis using \<open>int ?n - int ?a < int inflight_lines\<close> False by simp
  qed
  let ?k = "?n mod inflight_lines"
  have k: "?k < length (sent_len s)" using len by (simp add: inflight_lines_def)
  have old: "List.map (\<lambda>j. (sent_len s)[?k := length l + 1] ! (j mod inflight_lines)) [?a..<?n] =
      List.map (\<lambda>j. sent_len s ! (j mod inflight_lines)) [?a..<?n]"
  proof (rule map_cong [OF refl])
    fix j assume "j \<in> set [?a..<?n]"
    then have "j mod inflight_lines \<noteq> ?k" using mod_apart [of ?a j ?n] room by auto
    then show "(sent_len s)[?k := length l + 1] ! (j mod inflight_lines) = sent_len s ! (j mod inflight_lines)" by simp
  qed
  have ob': "out_bytes (send_line l s) = out_bytes s + length l + 1"
    using le k arg_cong [OF old, of sum_list] by (simp add: out_bytes_def send_line_def Let_def del: map_eq_conv)
  show ?thesis
    using room le len fl nb unfolding window_inv_def ob'
    by (auto simp: send_line_def Let_def inflight_bytes_def)
qed

lemma ack_window:
  assumes inv: "window_inv s" and "acked (jr s) < sent (jr s)"
  shows "window_inv (ack now s)"
proof -
  let ?a = "acked (jr s)"
  let ?x = "sent_len s ! (?a mod inflight_lines)"
  have split: "out_bytes s = ?x + out_bytes (ack now s)"
    using assms(2) by (simp add: out_bytes_def ack_def upt_rec [of ?a] Let_def)
  have "inflight (ack now s) = inflight s - of_nat ?x" by (simp add: ack_def Let_def)
  also have "\<dots> = of_nat (out_bytes (ack now s))" using inv unfolding window_inv_def split by simp
  finally have fl: "inflight (ack now s) = of_nat (out_bytes (ack now s))" .
  have "out_bytes (ack now s) \<le> inflight_bytes" using inv split by (simp add: window_inv_def)
  moreover have "sent (jr (ack now s)) = sent (jr s)" "acked (jr (ack now s)) = Suc ?a" "sent_len (ack now s) = sent_len s"
    "held_line (ack now s) = held_line s" "barrier (ack now s) \<longrightarrow> barrier s \<and> Suc ?a < sent (jr s)"
    by (simp_all add: ack_def Let_def)
  ultimately show ?thesis using inv fl assms(2) unfolding window_inv_def by auto
qed

lemma window_rx [simp]: "window_inv (s\<lparr>rx := b\<rparr>) = window_inv s"
  by (simp add: window_inv_def out_bytes_def)

text \<open>A controller acknowledges no line it was not sent: at the end of the harvest (and so all along
  it) it has acknowledged at most what was written.\<close>

lemma handle_line_counts:
  "handle_line now l s = Inr s' \<Longrightarrow> sent (jr s') = sent (jr s) \<and> acked (jr s) \<le> acked (jr s')"
  by (auto simp: handle_line_def ack_def Let_def split: if_splits)

lemma handle_line_window:
  assumes "window_inv s" "handle_line now l s = Inr s'" "acked (jr s') \<le> sent (jr s')"
  shows "window_inv s'"
  using assms ack_window [OF assms(1)] by (auto simp: handle_line_def ack_def Let_def split: if_splits)

lemma rx_lines_counts:
  "rx_lines now b s = Inr s' \<Longrightarrow> sent (jr s') = sent (jr s) \<and> acked (jr s) \<le> acked (jr s')"
proof (induction now b s rule: rx_lines.induct)
  case (1 now b s)
  then show ?case
    by (subst (asm) (2) rx_lines.simps) (fastforce split: if_splits sum.splits dest: handle_line_counts)
qed

lemma rx_lines_window:
  "window_inv s \<Longrightarrow> rx_lines now b s = Inr s' \<Longrightarrow> acked (jr s') \<le> sent (jr s') \<Longrightarrow> window_inv s'"
proof (induction now b s rule: rx_lines.induct)
  case (1 now b s)
  show ?case
  proof (cases "newline \<in> set b")
    case False
    then show ?thesis using 1(2,3) by (subst (asm) rx_lines.simps) auto
  next
    case True
    then obtain t where t: "handle_line now (takeWhile (\<lambda>c. c \<noteq> newline) b) s = Inr t"
      "rx_lines now (tl (dropWhile (\<lambda>c. c \<noteq> newline) b)) t = Inr s'"
      using 1(3) by (subst (asm) rx_lines.simps) (auto split: sum.splits)
    have "acked (jr t) \<le> sent (jr t)" using rx_lines_counts [OF t(2)] 1(4) by simp
    then have "window_inv t" using handle_line_window [OF 1(2) t(1)] by blast
    then show ?thesis using 1(1) [of t] True t 1(4) by blast
  qed
qed

lemma settle_simps [simp]: "jr (rx_settle s) = jr s" "window_inv (rx_settle s) = window_inv s"
  by (simp_all add: rx_settle_def)

lemma rx_reads_window:
  "window_inv s \<Longrightarrow> rx_reads now a s = Inr s' \<Longrightarrow> acked (jr s') \<le> sent (jr s') \<Longrightarrow> window_inv s' \<and> acked (jr s) \<le> acked (jr s') \<and> sent (jr s') = sent (jr s)"
proof (induction now a s rule: rx_reads.induct)
  case (1 now a s)
  show ?case
  proof (cases "a = [] \<or> length (rx s) \<ge> rx_room")
    case True
    then show ?thesis using 1(2,3) by (subst (asm) rx_reads.simps) auto
  next
    case False
    let ?k = "rx_room - length (rx s)"
    obtain t where t: "rx_lines now (rx s @ take ?k a) s = Inr t" "rx_reads now (drop ?k a) (rx_settle t) = Inr s'"
      using 1(3) False by (subst (asm) rx_reads.simps) (auto simp: Let_def split: sum.splits)
    have count: "acked (jr t) \<le> acked (jr s')" "sent (jr s') = sent (jr t)"
    proof -
      have "acked (jr u) \<le> acked (jr s') \<and> sent (jr s') = sent (jr u)" if "rx_reads now b u = Inr s'" for b u
        using that
      proof (induction now b u rule: rx_reads.induct)
        case (1 now b u)
        show ?case
        proof (cases "b = [] \<or> length (rx u) \<ge> rx_room")
          case True
          then show ?thesis using 1(2) by (subst (asm) rx_reads.simps) auto
        next
          case False
          let ?m = "rx_room - length (rx u)"
          obtain v where v: "rx_lines now (rx u @ take ?m b) u = Inr v" "rx_reads now (drop ?m b) (rx_settle v) = Inr s'"
            using 1(2) False by (subst (asm) rx_reads.simps) (auto simp: Let_def split: sum.splits)
          show ?thesis using 1(1) [of ?m v] False v rx_lines_counts [OF v(1)] by force
        qed
      qed
      from this [OF t(2)] show "acked (jr t) \<le> acked (jr s')" "sent (jr s') = sent (jr t)" by simp_all
    qed
    then have "acked (jr t) \<le> sent (jr t)" using 1(4) by simp
    then have "window_inv (rx_settle t)" using rx_lines_window [OF 1(2) t(1)] by simp
    then show ?thesis using 1(1) [of ?k t] False t 1(4) count rx_lines_counts [OF t(1)] by force
  qed
qed

lemma harvest_window:
  assumes "window_inv s" "harvest i s = Inr s'" "acked (jr s') \<le> sent (jr s')"
  shows "window_inv s'"
  using assms rx_reads_window [OF assms(1)] unfolding harvest_def
  by (auto split: if_splits sum.splits prod.splits)

lemma witness_window [simp]: "window_inv (witness c i s) = window_inv s"
  by (simp add: witness_def window_inv_def out_bytes_def witness_run_def Let_def)

definition witnessed :: "'g cfg \<Rightarrow> tick_in \<Rightarrow> 'g js \<Rightarrow> 'g js" where
  "witnessed c i s = (if tickn s mod sample_every c = 0 then witness c i s else s)"

text \<open>A controller that acknowledges only lines it was sent.\<close>

definition sane_answers :: "'g cfg \<Rightarrow> tick_in \<Rightarrow> 'g js \<Rightarrow> bool" where
  "sane_answers c i s \<longleftrightarrow>
     (case harvest i (witnessed c i s) of Inl e \<Rightarrow> True | Inr s' \<Rightarrow> acked (jr s') \<le> sent (jr s'))"

inductive js_reach :: "'g cfg \<Rightarrow> nat list \<Rightarrow> real \<Rightarrow> 'g \<Rightarrow> 'g js \<Rightarrow> bool" for c junk now g where
  start: "js_reach c junk now g (js_start junk now g)"
| tick: "js_reach c junk now g s \<Longrightarrow> sane_answers c i s \<Longrightarrow> jobstream_tick c i s = (Going, s') \<Longrightarrow> js_reach c junk now g s'"

lemma tick_going:
  assumes "jobstream_tick c i s = (Going, s')"
  obtains s2 s3 where "harvest i (witnessed c i s) = Inr s2" "feed c (i_write i) s2 = Inr s3" "s' = s3\<lparr>tickn := tickn s3 + 1\<rparr>"
proof -
  have t: "jobstream_tick c i s = (case harvest i (witnessed c i s) of
        Inl (e, s2) \<Rightarrow> fail_run e s2
      | Inr s2 \<Rightarrow> (case feed c (i_write i) s2 of Inl (e, s3) \<Rightarrow> fail_run e s3
           | Inr s3 \<Rightarrow> (case judge c i s3 of Failed e \<Rightarrow> fail_run e s3 | Over \<Rightarrow> (Over, s3)
                | Going \<Rightarrow> (Going, s3\<lparr>tickn := tickn s3 + 1\<rparr>))))"
    by (simp add: jobstream_tick_def witnessed_def Let_def)
  show ?thesis using assms that unfolding t
    by (auto simp: fail_run_def split: sum.splits prod.splits outcome.splits)
qed

lemma window_tickn [simp]: "window_inv (s\<lparr>tickn := n\<rparr>) = window_inv s"
  by (simp add: window_inv_def out_bytes_def)

lemma start_window: "window_inv (js_start junk now g)"
  by (simp add: window_inv_def out_bytes_def js_start_def inflight_lines_def inflight_bytes_def)

lemma feed_window: "line_source c \<Longrightarrow> window_inv s \<Longrightarrow> feed c ok s = Inr s' \<Longrightarrow> window_inv s'"
proof (induction c ok s rule: feed.induct)
  case (1 c ok s)
  show ?case
  proof (cases "done_sending s \<or> barrier s")
    case True
    then show ?thesis using 1(3,4) by (subst (asm) feed.simps) simp
  next
    case False
    obtain r s1 where f: "fetch_line c s = (r, s1)" by fastforce
    note w = line_source.fetch_window [OF 1(2,3) f]
    show ?thesis
    proof (cases r)
      case (F_Line l)
      show ?thesis
      proof (cases "must_wait l s1 \<or> \<not> ok (length (wire s1))")
        case True
        then show ?thesis using 1(4) False f F_Line w by (subst (asm) feed.simps) (auto split: if_splits)
      next
        case sending: False
        have nx: "feed c ok (send_line l s1) = Inr s'"
          using 1(4) False f F_Line sending by (subst (asm) feed.simps) simp
        have "window_inv (send_line l s1)" using send_window [of s1 l] w F_Line False sending by auto
        then show ?thesis using 1(1) [of r s1 l] False f F_Line sending nx 1(2) by auto
      qed
    qed (use 1(4) False f w in \<open>(subst (asm) feed.simps, simp)+\<close>)
  qed
qed

context line_source begin

lemma reach_window: "js_reach c junk now g s \<Longrightarrow> window_inv s"
proof (induction rule: js_reach.induct)
  case (tick s i s')
  from tick(3) show ?case
  proof (rule tick_going)
    fix s2 s3
    assume h: "harvest i (witnessed c i s) = Inr s2" and f: "feed c (i_write i) s2 = Inr s3" and s': "s' = s3\<lparr>tickn := tickn s3 + 1\<rparr>"
    have "acked (jr s2) \<le> sent (jr s2)" using tick(2) h by (simp add: sane_answers_def)
    moreover have "window_inv (witnessed c i s)" using tick(4) by (simp add: witnessed_def)
    ultimately have "window_inv s2" using harvest_window [OF _ h] by blast
    then show ?thesis using feed_window [OF line_source_axioms _ f] s' by simp
  qed
qed (rule start_window)

end

text \<open>C17. The controller's receive ring is never overrun: with a generator that fits the buffer it is given
  and a controller that acknowledges only what it was sent, at every tick the bytes out and not
  acknowledged are at most 512, the lines at most 32, the byte count the sender keeps is theirs, and a
  line that is a barrier is out alone.\<close>

theorem never_overruns:
  assumes "\<And>len x l y. gen c len x = (G_Line l, y) \<Longrightarrow> 0 < len \<Longrightarrow> length l < len" and "js_reach c junk now g s"
  shows "acked (jr s) \<le> sent (jr s) \<and> sent (jr s) - acked (jr s) \<le> inflight_lines \<and>
     out_bytes s \<le> inflight_bytes \<and> unat (inflight s) = out_bytes s \<and>
     (barrier s \<longrightarrow> sent (jr s) = Suc (acked (jr s)))"
proof -
  have "line_source c" by unfold_locales (rule assms(1))
  from line_source.reach_window [OF this assms(2)] show ?thesis
    unfolding window_inv_def by (auto simp: inflight_bytes_def unat_of_nat)
qed

section \<open>What goes out\<close>

text \<open>The lines a generator has produced by the time its state is the second one: it was asked for
  lines, and shown samples, in some order.\<close>

inductive emits :: "'g cfg \<Rightarrow> 'g \<Rightarrow> string list \<Rightarrow> 'g \<Rightarrow> bool" for c g0 where
  nothing: "emits c g0 [] g0"
| line: "emits c g0 ls g \<Longrightarrow> gen c 254 g = (G_Line l, g') \<Longrightarrow> emits c g0 (ls @ [l]) g'"
| waits: "emits c g0 ls g \<Longrightarrow> gen c 254 g = (G_Wait, g') \<Longrightarrow> emits c g0 ls g'"
| ends: "emits c g0 ls g \<Longrightarrow> gen c 254 g = (G_End, g') \<Longrightarrow> emits c g0 ls g'"
| fails: "emits c g0 ls g \<Longrightarrow> gen c 254 g = (G_Fail e, g') \<Longrightarrow> emits c g0 ls g'"
| shown: "emits c g0 ls g \<Longrightarrow> emits c g0 ls (on_sample c x g)"

definition ended :: "'g cfg \<Rightarrow> 'g \<Rightarrow> string list \<Rightarrow> bool" where
  "ended c g0 ls \<longleftrightarrow> (\<exists>g1 g2. emits c g0 ls g1 \<and> gen c 254 g1 = (G_End, g2))"

definition with_newline :: "string \<Rightarrow> string" where
  "with_newline l = l @ [newline]"

definition order_inv :: "'g cfg \<Rightarrow> 'g \<Rightarrow> 'g js \<Rightarrow> bool" where
  "order_inv c g0 s \<longleftrightarrow>
     (\<exists>ls. emits c g0 (ls @ (case held_line s of None \<Rightarrow> [] | Some l \<Rightarrow> [l])) (gctx s) \<and>
        wire s = List.map with_newline ls \<and> sent (jr s) = length ls \<and>
        (done_sending s \<longrightarrow> held_line s = None \<and> ended c g0 ls))"

lemma order_frame:
  assumes "order_inv c g0 s" "held_line s' = held_line s" "gctx s' = gctx s" "wire s' = wire s"
    "sent (jr s') = sent (jr s)" "done_sending s' = done_sending s"
  shows "order_inv c g0 s'"
  using assms by (simp add: order_inv_def)

lemma witness_order: "order_inv c g0 s \<Longrightarrow> order_inv c g0 (witnessed c i s)"
  by (auto simp: order_inv_def witnessed_def witness_def witness_run_def Let_def intro: emits.shown)

text \<open>The parse of the answers touches none of it.\<close>

definition same_out :: "'g js \<Rightarrow> 'g js \<Rightarrow> bool" where
  "same_out s t \<longleftrightarrow> held_line t = held_line s \<and> gctx t = gctx s \<and> wire t = wire s \<and> sent (jr t) = sent (jr s) \<and>
     done_sending t = done_sending s \<and> lit (jr t) = lit (jr s) \<and> t0 t = t0 s"

definition out_of :: "(string \<times> 'g js) + 'g js \<Rightarrow> 'g js" where
  "out_of r = (case r of Inl e \<Rightarrow> snd e | Inr s \<Rightarrow> s)"

lemma handle_line_out: "same_out s (out_of (handle_line now l s))"
  by (simp add: handle_line_def same_out_def out_of_def ack_def Let_def)

lemma same_out_trans: "same_out s t \<Longrightarrow> same_out t u \<Longrightarrow> same_out s u"
  by (simp add: same_out_def)

lemma rx_lines_out: "same_out s (out_of (rx_lines now b s))"
proof (induction now b s rule: rx_lines.induct)
  case (1 now b s)
  show ?case
  proof (cases "newline \<in> set b")
    case False
    then show ?thesis by (subst rx_lines.simps) (simp add: same_out_def out_of_def)
  next
    case True
    let ?l = "takeWhile (\<lambda>c. c \<noteq> newline) b"
    show ?thesis
    proof (cases "handle_line now ?l s")
      case (Inl e)
      then show ?thesis using True handle_line_out [of s now ?l] by (subst rx_lines.simps) (simp add: out_of_def)
    next
      case (Inr t)
      then show ?thesis using True 1 [of t] handle_line_out [of s now ?l] same_out_trans
        by (subst rx_lines.simps) (force simp: out_of_def)
    qed
  qed
qed

lemma settle_out: "same_out s t \<Longrightarrow> same_out s (rx_settle t)"
  by (simp add: rx_settle_def same_out_def)

lemma rx_reads_out: "same_out s (out_of (rx_reads now a s))"
proof (induction now a s rule: rx_reads.induct)
  case (1 now a s)
  show ?case
  proof (cases "a = [] \<or> length (rx s) \<ge> rx_room")
    case True
    then show ?thesis by (subst rx_reads.simps) (simp add: same_out_def out_of_def)
  next
    case False
    let ?k = "rx_room - length (rx s)"
    note lines = rx_lines_out [of s now "rx s @ take ?k a"]
    show ?thesis
    proof (cases "rx_lines now (rx s @ take ?k a) s")
      case (Inl e)
      then show ?thesis using False lines by (subst rx_reads.simps) (simp add: out_of_def Let_def)
    next
      case (Inr t)
      have "same_out s (rx_settle t)" using lines Inr by (simp add: out_of_def settle_out)
      moreover have "same_out (rx_settle t) (out_of (rx_reads now (drop ?k a) (rx_settle t)))"
        using 1 [of ?k t] False Inr by blast
      moreover have "rx_reads now a s = rx_reads now (drop ?k a) (rx_settle t)"
        using False Inr by (subst rx_reads.simps) (simp add: Let_def)
      ultimately show ?thesis using same_out_trans by simp
    qed
  qed
qed

lemma harvest_out: "same_out s (out_of (harvest i s))"
  using rx_reads_out [of s "i_now i" "i_arrived i"]
  by (auto simp: harvest_def out_of_def same_out_def split: sum.splits)

lemma same_out_order: "same_out s t \<Longrightarrow> order_inv c g0 s \<Longrightarrow> order_inv c g0 t"
  by (auto simp: same_out_def intro: order_frame)

lemma fetch_order:
  assumes "order_inv c g0 s" "\<not> done_sending s" "fetch_line c s = (r, s1)"
  shows "order_inv c g0 s1 \<and> lit (jr s1) = lit (jr s) \<and>
    (\<forall>l. r = F_Line l \<longrightarrow> held_line s1 = Some l \<and> \<not> done_sending s1)"
proof -
  obtain ls where e: "emits c g0 (ls @ (case held_line s of None \<Rightarrow> [] | Some l \<Rightarrow> [l])) (gctx s)"
    and w: "wire s = List.map with_newline ls" "sent (jr s) = length ls"
    using assms(1) by (auto simp: order_inv_def)
  have "order_inv c g0 s1"
    using assms(2,3) e w unfolding order_inv_def ended_def
    by (auto simp: fetch_line_def split: option.splits prod.splits gen_answer.splits
        intro!: exI [of _ ls] intro: emits.intros)
  then show ?thesis using assms(2,3) by (auto simp: fetch_line_def split: option.splits prod.splits gen_answer.splits)
qed

lemma send_order: "order_inv c g0 s \<Longrightarrow> held_line s = Some l \<Longrightarrow> \<not> done_sending s \<Longrightarrow> order_inv c g0 (send_line l s)"
  by (auto simp: order_inv_def send_line_def with_newline_def Let_def intro: exI [of _ "_ @ [l]"])

lemma feed_order: "order_inv c g0 s \<Longrightarrow> order_inv c g0 (out_of (feed c ok s)) \<and> lit (jr (out_of (feed c ok s))) = lit (jr s)"
proof (induction c ok s rule: feed.induct)
  case (1 c ok s)
  show ?case
  proof (cases "done_sending s \<or> barrier s")
    case True
    then show ?thesis using 1(2) by (subst (1 2) feed.simps) (simp add: out_of_def)
  next
    case False
    obtain r s1 where f: "fetch_line c s = (r, s1)" by fastforce
    have o1: "order_inv c g0 s1" "lit (jr s1) = lit (jr s)" "\<And>l. r = F_Line l \<Longrightarrow> held_line s1 = Some l \<and> \<not> done_sending s1"
      using fetch_order [OF 1(2) _ f] False by auto
    show ?thesis
    proof (cases r)
      case (F_Line l)
      show ?thesis
      proof (cases "must_wait l s1 \<or> \<not> ok (length (wire s1))")
        case True
        then show ?thesis using False f F_Line o1(1,2) by (subst (1 2) feed.simps) (auto simp: out_of_def)
      next
        case sending: False
        have eq: "feed c ok s = feed c ok (send_line l s1)"
          using False f F_Line sending by (subst feed.simps) simp
        have "order_inv c g0 (send_line l s1)" using send_order [of c g0 s1 l] o1 F_Line False by auto
        moreover have "lit (jr (send_line l s1)) = lit (jr s)" using o1(2) by (simp add: send_line_def Let_def)
        ultimately show ?thesis using 1(1) [of r s1 l] False f F_Line sending eq by auto
      qed
    qed (use False f o1(1,2) in \<open>(subst (1 2) feed.simps, simp add: out_of_def)+\<close>)
  qed
qed

lemma tick_order:
  assumes "order_inv c g0 s" "jobstream_tick c i s = (r, s')"
  shows "(r = Going \<longrightarrow> order_inv c g0 s') \<and> (r = Over \<longrightarrow> order_inv c g0 s' \<and> judge c i s' = Over) \<and>
    (\<forall>e. r = Failed e \<longrightarrow> (\<exists>t. order_inv c g0 t \<and> wire s' = wire t @ [soft_reset]))"
proof -
  have w: "order_inv c g0 (witnessed c i s)" using witness_order [OF assms(1)] .
  have t: "jobstream_tick c i s = (case harvest i (witnessed c i s) of
        Inl (e, s2) \<Rightarrow> fail_run e s2
      | Inr s2 \<Rightarrow> (case feed c (i_write i) s2 of Inl (e, s3) \<Rightarrow> fail_run e s3
           | Inr s3 \<Rightarrow> (case judge c i s3 of Failed e \<Rightarrow> fail_run e s3 | Over \<Rightarrow> (Over, s3)
                | Going \<Rightarrow> (Going, s3\<lparr>tickn := tickn s3 + 1\<rparr>))))"
    by (simp add: jobstream_tick_def witnessed_def Let_def)
  have h: "order_inv c g0 (out_of (harvest i (witnessed c i s)))" using same_out_order [OF harvest_out w] .
  have stay: "order_inv c g0 (u\<lparr>tickn := n\<rparr>) = order_inv c g0 u" for u n by (simp add: order_inv_def)
  show ?thesis
  proof (cases "harvest i (witnessed c i s)")
    case (Inl e)
    then show ?thesis using assms(2) h unfolding t
      by (cases e) (auto simp: fail_run_def out_of_def)
  next
    case (Inr s2)
    have "order_inv c g0 s2" using h Inr by (simp add: out_of_def)
    then have f: "order_inv c g0 (out_of (feed c (i_write i) s2))" by (rule feed_order [THEN conjunct1])
    show ?thesis
    proof (cases "feed c (i_write i) s2")
      case (Inl e)
      then show ?thesis using assms(2) f \<open>harvest i (witnessed c i s) = Inr s2\<close> unfolding t
        by (cases e) (auto simp: fail_run_def out_of_def)
    next
      case (Inr s3)
      then show ?thesis using assms(2) f \<open>harvest i (witnessed c i s) = Inr s2\<close> unfolding t
        by (cases "judge c i s3") (auto simp: fail_run_def out_of_def stay)
    qed
  qed
qed

lemma start_order: "order_inv c g (js_start junk now g)"
  by (auto simp: order_inv_def js_start_def intro!: exI [of _ "[]"] emits.nothing)

lemma run_order:
  assumes "order_inv c g0 s" "jobstream_run c is s = (r, s')"
  shows "(r = Over \<longrightarrow> order_inv c g0 s' \<and> (\<exists>i. judge c i s' = Over)) \<and>
    (\<forall>e. r = Failed e \<longrightarrow> (\<exists>t. order_inv c g0 t \<and> wire s' = wire t @ [soft_reset]))"
  using assms
proof (induction "is" arbitrary: s)
  case (Cons i "is")
  obtain q t where k: "jobstream_tick c i s = (q, t)" by fastforce
  note o1 = tick_order [OF Cons.prems(1) k]
  show ?case
  proof (cases q)
    case Going
    then show ?thesis using Cons.IH [of t] Cons.prems(2) k o1 by simp
  qed (use Cons.prems(2) k o1 in auto)
qed auto

lemma judge_over: "judge c i s = Over \<Longrightarrow> all_acked s \<and> (0 < wait_timeout_s c \<longrightarrow> lit (jr s))"
  by (auto simp: judge_def judge_end_def judge_time_def split: if_splits outcome.splits)

text \<open>A run that ends well has done all of it: the generator came to its end, every line it produced
  went out, each once, whole and in order, and nothing else did; every one of them was acknowledged;
  and where a discharge was asked for one was seen.\<close>

theorem run_ends_well:
  assumes "jobstream_run c is (js_start junk now g) = (Over, s)"
  shows "\<exists>ls. ended c g ls \<and> wire s = List.map with_newline ls \<and> length ls = sent (jr s) \<and>
     sent (jr s) \<le> acked (jr s) \<and> (0 < wait_timeout_s c \<longrightarrow> lit (jr s))"
proof -
  obtain i where o1: "order_inv c g s" and j: "judge c i s = Over"
    using run_order [OF start_order assms] by auto
  then show ?thesis using judge_over [OF j] by (auto simp: order_inv_def all_acked_def)
qed

text \<open>A run that fails leaves the machine stopped: the last thing it writes is the soft reset, and
  before it only a prefix of the generator's lines, whole and in order.\<close>

theorem run_fails_reset:
  assumes "jobstream_run c is (js_start junk now g) = (Failed e, s)"
  shows "\<exists>ls more g'. emits c g (ls @ more) g' \<and> length more \<le> 1 \<and> wire s = List.map with_newline ls @ [soft_reset]"
proof -
  obtain t where "order_inv c g t" "wire s = wire t @ [soft_reset]" using run_order [OF start_order assms] by auto
  then obtain ls where "emits c g (ls @ (case held_line t of None \<Rightarrow> [] | Some l \<Rightarrow> [l])) (gctx t)"
    "wire s = List.map with_newline ls @ [soft_reset]" by (auto simp: order_inv_def)
  then show ?thesis
    by (intro exI [of _ ls] exI [of _ "case held_line t of None \<Rightarrow> [] | Some l \<Rightarrow> [l]"] exI [of _ "gctx t"])
      (simp split: option.splits)
qed

section \<open>The run ends\<close>

lemma fetch_t0: "fetch_line c s = (r, s1) \<Longrightarrow> t0 s1 = t0 s"
  by (auto simp: fetch_line_def split: option.splits prod.splits gen_answer.splits)

lemma feed_t0: "feed c ok s = Inr s' \<Longrightarrow> t0 s' = t0 s"
proof (induction c ok s rule: feed.induct)
  case (1 c ok s)
  obtain r s1 where f: "fetch_line c s = (r, s1)" by fastforce
  have "t0 (send_line l s1) = t0 s" for l using fetch_t0 [OF f] by (simp add: send_line_def Let_def)
  then show ?case using 1 f fetch_t0 [OF f]
    by (subst (asm) (2) feed.simps) (auto split: if_splits fetched.splits)
qed

lemma tick_ends:
  assumes "jobstream_tick c i s = (Going, s')" "0 < run_timeout_s c"
  shows "t0 s' = t0 s \<and> i_now i - t0 s \<le> run_timeout_s c"
proof -
  obtain s2 s3 where st: "harvest i (witnessed c i s) = Inr s2" "feed c (i_write i) s2 = Inr s3"
    "s' = s3\<lparr>tickn := tickn s3 + 1\<rparr>" "judge c i s3 = Going"
    using assms(1) by (auto simp: jobstream_tick_def witnessed_def fail_run_def Let_def
        split: sum.splits prod.splits outcome.splits)
  have "t0 (witnessed c i s) = t0 s" by (simp add: witnessed_def witness_def Let_def)
  then have t: "t0 s3 = t0 s" using harvest_out [of "witnessed c i s" i] st(1) feed_t0 [OF st(2)]
    by (simp add: out_of_def same_out_def)
  then have "judge_time c (i_now i - t0 s) s3 = Going"
    using st(4) by (auto simp: judge_def split: if_splits outcome.splits)
  then show ?thesis using assms(2) st(3) t by (auto simp: judge_time_def split: if_splits)
qed

text \<open>C18. A run with a time budget ends: whatever the controller answers or does not answer and whatever
  the generator produces, once a tick comes later than the budget the run has ended, well or with
  its reason. Each tick ends by itself, its loops being total functions.\<close>

theorem run_ends_in_time:
  assumes "0 < run_timeout_s c" and "i \<in> set is" "run_timeout_s c < i_now i - now"
  shows "fst (jobstream_run c is (js_start junk now g)) \<noteq> Going"
proof -
  have "fst (jobstream_run c is s) \<noteq> Going" if "t0 s = now" for s
    using assms(2) that
  proof (induction "is" arbitrary: s)
    case (Cons j "is")
    obtain q t where k: "jobstream_tick c j s = (q, t)" by fastforce
    show ?case
    proof (cases q)
      case Going
      then show ?thesis using Cons tick_ends [of c j s t] k assms(1,3) by fastforce
    qed (use k in auto)
  qed simp
  then show ?thesis by (simp add: js_start_def)
qed

end
