(* ===== verification/Jobrun.thy ===== *)
theory Jobrun
  imports JobstreamProps Session Lease
begin

text \<open>
  The job runner (\<open>src/jobrun.c\<close>): the check of a posted program, the generator that plays it, and
  the runner's own state with the machine lease it takes and gives back. A C string here has no NUL
  byte; the file's text may hold one. The runner's state is what its mutex guards; the thread's
  \<open>jobstream_run\<close> is the sender's model.
\<close>

section \<open>A posted program\<close>

definition jobrun_line_max :: nat where "jobrun_line_max = 250"
definition jobrun_name_max :: nat where "jobrun_name_max = 63"
definition raw_max :: nat where "raw_max = 1024"

definition jobrun_name_ok :: "string option \<Rightarrow> bool" where
  "jobrun_name_ok name =
     (case name of None \<Rightarrow> False
      | Some s \<Rightarrow> s \<noteq> [] \<and> length s \<le> jobrun_name_max \<and>
          list_all (\<lambda>c. is_alnum c \<or> c = CHR ''.'' \<or> c = CHR ''_'' \<or> c = CHR ''-'') s)"

definition realtime :: "char \<Rightarrow> bool" where
  "realtime c \<longleftrightarrow> c = CHR ''?'' \<or> c = CHR ''!'' \<or> c = CHR ''~''"

text \<open>One raw line with its comments gone: what has been kept so far, and whether a parenthesis is open.\<close>

fun clean_from :: "nat \<Rightarrow> string \<Rightarrow> bool \<Rightarrow> string \<Rightarrow> string + string" where
  "clean_from len out paren [] = Inr out"
| "clean_from len out paren (c0 # cs) =
     (let c = (if c0 = tab then space else c0) in
      if c0 = newline then Inr out
      else if c = cret
      then if cs = [] \<or> hd cs = newline then clean_from len out paren cs else Inl ''has a carriage return inside it''
      else if byte c < 32 \<or> byte c \<ge> 127 then Inl ''has a byte that is not printable ASCII''
      else if paren then clean_from len out (c \<noteq> CHR '')'') cs
      else if c = CHR ''('' then clean_from len out True cs
      else if c = CHR '';'' then Inr out
      else if realtime c then Inl ''has a realtime character (? ! ~) outside a comment''
      else if out = [] \<and> c = space then clean_from len out paren cs
      else if length out + 1 \<ge> len then Inl ''is longer than the sender takes''
      else clean_from len (out @ [c]) paren cs)"

definition trim_end :: "string \<Rightarrow> string" where
  "trim_end s = rev (dropWhile (\<lambda>c. c = space) (rev s))"

definition line_clean :: "nat \<Rightarrow> string \<Rightarrow> string + string" where
  "line_clean len raw =
     (case clean_from len [] False raw of
        Inl why \<Rightarrow> Inl why
      | Inr out0 \<Rightarrow>
          (let out = trim_end out0 in
           if starts_with ''$'' out
           then Inl (''is a $ command: the controller'' @ [CHR 0x27] @ ''s system commands are not a job'' @ [CHR 0x27] @ ''s to send'')
           else Inr (if out = ''%'' then [] else out)))"

definition is_end :: "string \<Rightarrow> bool" where
  "is_end l \<longleftrightarrow> (starts_with ''M2'' l \<or> starts_with ''m2'' l) \<and> (length l = 2 \<or> l ! 2 = space)"

text \<open>\<open>getline\<close>: a row of the file with its newline, and the rest.\<close>

definition get_row :: "string \<Rightarrow> string \<times> string" where
  "get_row s = (let l = takeWhile (\<lambda>c. c \<noteq> newline) s in
     (l @ (if newline \<in> set s then [newline] else []), tl (dropWhile (\<lambda>c. c \<noteq> newline) s)))"

definition row_clean :: "string \<Rightarrow> string + string" where
  "row_clean row =
     (if CHR 0x00 \<in> set row then Inl ''has a byte that is not printable ASCII''
      else if length row \<ge> raw_max then Inl ''is longer than the sender takes''
      else line_clean (jobrun_line_max + 2) row)"

function check_rows :: "nat \<Rightarrow> nat \<Rightarrow> string \<Rightarrow> string + nat" where
  "check_rows row kept text =
     (if text = [] then Inr kept
      else case row_clean (fst (get_row text)) of
        Inl why \<Rightarrow> Inl (''line '' @ show_nat (row + 1) @ '' '' @ why)
      | Inr l \<Rightarrow> check_rows (row + 1) (if l = [] then kept else kept + 1) (snd (get_row text)))"
  by pat_completeness auto

lemma get_row_shorter: "s \<noteq> [] \<Longrightarrow> length (snd (get_row s)) < length s"
  using length_dropWhile_le [of "\<lambda>c. c \<noteq> newline" "tl s"]
  by (cases s) (auto simp: get_row_def Let_def intro: le_less_trans [OF diff_le_self])

termination check_rows
  by (relation "measure (\<lambda>(r, k, t). length t)") (auto simp: get_row_shorter)

declare check_rows.simps [simp del]

definition jobrun_program_check :: "string option \<Rightarrow> string + nat" where
  "jobrun_program_check f =
     (case f of None \<Rightarrow> Inl ''no program was received''
      | Some text \<Rightarrow>
          (case check_rows 0 0 text of
             Inl e \<Rightarrow> Inl e
           | Inr kept \<Rightarrow> if kept = 0 then Inl ''the program has no lines'' else Inr kept))"

section \<open>The program's generator\<close>

record program =
  p_file :: "string option"
  p_unlock :: bool
  p_ended :: bool
  p_closed :: bool

text \<open>The first line of the file that is not empty once clean, or its offence, or the file's end.\<close>

datatype next_line = N_Line string string | N_Bad string | N_Eof

function next_clean :: "nat \<Rightarrow> string \<Rightarrow> next_line" where
  "next_clean len text =
     (if text = [] then N_Eof
      else let r = fgets (raw_max - 1) text in
        case line_clean (min len (jobrun_line_max + 2)) (takeWhile (\<lambda>c. c \<noteq> CHR 0x00) (fst r)) of
          Inl why \<Rightarrow> N_Bad why
        | Inr l \<Rightarrow> if l = [] then next_clean len (snd r) else N_Line l (snd r))"
  by pat_completeness auto

termination next_clean
  by (relation "measure (\<lambda>(n, t). length t)") (auto simp: raw_max_def numeral_eq_Suc fgets_shorter simp del: fgets.simps)

declare next_clean.simps [simp del]

definition program_gen :: "nat \<Rightarrow> program \<Rightarrow> gen_answer \<times> program" where
  "program_gen len p =
     (if p_unlock p then (G_Line (fit len ''$X''), p\<lparr>p_unlock := False\<rparr>)
      else case (case p_file p of None \<Rightarrow> N_Eof | Some text \<Rightarrow> next_clean len text) of
        N_Bad why \<Rightarrow> (G_Fail (fit len (''a line of the program '' @ why)), p)
      | N_Line l rest \<Rightarrow> (G_Line l, p\<lparr>p_file := Some rest, p_ended := is_end l\<rparr>)
      | N_Eof \<Rightarrow>
          (let p1 = p\<lparr>p_file := map_option (\<lambda>_. []) (p_file p)\<rparr> in
           if p_closed p \<or> p_ended p then (G_End, p1)
           else (G_Line (fit len ''M2''), p1\<lparr>p_closed := True\<rparr>)))"

text \<open>A posted program's run: its generator, nothing asked of the samples, the full rate of them only
  where a discharge is asked for.\<close>

definition program_cfg :: "real \<Rightarrow> real \<Rightarrow> program cfg" where
  "program_cfg lit_s run_s = \<lparr>gen = program_gen, on_sample = (\<lambda>x p. p), wait_timeout_s = lit_s, run_timeout_s = run_s,
     end_dark_s = 0, sample_div = (if lit_s > 0 then 1 else 5)\<rparr>"

definition program_open :: "string \<Rightarrow> bool \<Rightarrow> program" where
  "program_open text unlock = \<lparr>p_file = Some text, p_unlock = unlock, p_ended = False, p_closed = False\<rparr>"

end
