(* ===== verification/JobrunProps.thy ===== *)
theory JobrunProps
  imports Jobrun
begin

text \<open>
  A posted program from its check to the wire: what a program that passes sends, and that nothing a
  job may not send is among it.
\<close>

section \<open>The lines of a program\<close>

function rows_ok :: "string \<Rightarrow> bool" where
  "rows_ok s = (if s = [] then True else (case row_clean (fst (get_row s)) of Inl _ \<Rightarrow> False | Inr _ \<Rightarrow> rows_ok (snd (get_row s))))"
  by pat_completeness auto
termination by (relation "measure length") (auto simp: get_row_shorter)

function kept :: "string \<Rightarrow> string list" where
  "kept s =
     (if s = [] then []
      else (case row_clean (fst (get_row s)) of Inr l \<Rightarrow> if l = [] then [] else [l] | Inl _ \<Rightarrow> []) @ kept (snd (get_row s)))"
  by pat_completeness auto
termination by (relation "measure length") (auto simp: get_row_shorter)

declare rows_ok.simps [simp del] kept.simps [simp del]

lemma kept_Nil [simp]: "kept [] = []" "rows_ok []"
  by (simp_all add: kept.simps rows_ok.simps)

lemma check_rows_iff: "check_rows r k s = Inr n \<longleftrightarrow> rows_ok s \<and> n = k + length (kept s)"
proof (induction r k s rule: check_rows.induct)
  case (1 r k s)
  show ?case
  proof (cases "s = []")
    case True
    then show ?thesis by (subst check_rows.simps) auto
  next
    case False
    show ?thesis
    proof (cases "row_clean (fst (get_row s))")
      case (Inl why)
      then show ?thesis using False by (subst check_rows.simps, subst rows_ok.simps) simp
    next
      case (Inr l)
      then show ?thesis using False 1 [of l]
        by (subst check_rows.simps, subst rows_ok.simps, subst kept.simps) auto
    qed
  qed
qed

lemma check_iff: "jobrun_program_check (Some s) = Inr n \<longleftrightarrow> rows_ok s \<and> n = length (kept s) \<and> kept s \<noteq> []"
  using check_rows_iff [of 0 0 s] by (cases "check_rows 0 0 s") (auto simp: jobrun_program_check_def)

lemma fgets_row: "length (fst (get_row s)) \<le> n \<Longrightarrow> fgets n s = get_row s"
proof (induction n s rule: fgets.induct)
  case (1 s)
  then show ?case by (cases s) (auto simp: get_row_def Let_def split: if_splits)
next
  case (3 n c s)
  show ?case
  proof (cases "c = newline")
    case True
    then show ?thesis by (simp add: get_row_def)
  next
    case False
    then show ?thesis using 3 by (simp add: get_row_def Let_def)
  qed
qed (simp add: get_row_def)

text \<open>The generator's search for the next line finds the next kept one.\<close>

lemma next_clean_kept:
  assumes "rows_ok s"
  shows "case kept s of [] \<Rightarrow> next_clean 254 s = N_Eof
    | l # ls \<Rightarrow> \<exists>rest. next_clean 254 s = N_Line l rest \<and> rows_ok rest \<and> kept rest = ls"
  using assms
proof (induction s rule: kept.induct)
  case (1 s)
  show ?case
  proof (cases "s = []")
    case True
    then show ?thesis by (subst next_clean.simps) simp
  next
    case False
    have ok: "rows_ok (snd (get_row s))" using 1(2) False by (subst (asm) rows_ok.simps) (simp split: sum.splits)
    obtain l where l: "row_clean (fst (get_row s)) = Inr l" using 1(2) False by (subst (asm) rows_ok.simps) (auto split: sum.splits)
    have short: "length (fst (get_row s)) \<le> raw_max - 1" and nul: "CHR 0x00 \<notin> set (fst (get_row s))"
      and lc: "line_clean (jobrun_line_max + 2) (fst (get_row s)) = Inr l"
      using l by (auto simp: row_clean_def split: if_splits)
    have tw: "takeWhile (\<lambda>c. c \<noteq> CHR 0x00) (fst (get_row s)) = fst (get_row s)"
      using nul by (simp add: takeWhile_eq_all_conv) metis
    have nx: "next_clean 254 s = (if l = [] then next_clean 254 (snd (get_row s)) else N_Line l (snd (get_row s)))"
      using False fgets_row [OF short] tw lc by (subst next_clean.simps) (simp add: jobrun_line_max_def Let_def del: takeWhile_eq_all_conv)
    have kp: "kept s = (if l = [] then kept (snd (get_row s)) else l # kept (snd (get_row s)))"
      using False l by (subst kept.simps) simp
    show ?thesis
    proof (cases "l = []")
      case True
      then have "next_clean 254 s = next_clean 254 (snd (get_row s))" "kept s = kept (snd (get_row s))" using nx kp by simp_all
      then show ?thesis using 1(1) [OF False ok] by (simp only:)
    next
      case False
      then show ?thesis using nx kp ok by simp
    qed
  qed
qed

section \<open>What the generator plays\<close>

definition tail_lines :: "string list \<Rightarrow> bool \<Rightarrow> bool \<Rightarrow> string list" where
  "tail_lines ks was_end m2_sent =
     (if m2_sent \<or> (if ks = [] then was_end else is_end (last ks)) then [] else [''M2''])"

definition prog_lines :: "program \<Rightarrow> string list" where
  "prog_lines p = (let ks = (case p_file p of None \<Rightarrow> [] | Some s \<Rightarrow> kept s) in
     (if p_unlock p then [''$X''] else []) @ ks @ tail_lines ks (p_ended p) (p_closed p))"

definition prog_good :: "program \<Rightarrow> bool" where
  "prog_good p \<longleftrightarrow> (case p_file p of None \<Rightarrow> True | Some s \<Rightarrow> rows_ok s) \<and>
     (p_closed p \<longrightarrow> (case p_file p of None \<Rightarrow> True | Some s \<Rightarrow> kept s = []))"

lemma gen_step:
  assumes "prog_good p"
  shows "(case prog_lines p of [] \<Rightarrow> fst (program_gen 254 p) = G_End | l # ls \<Rightarrow> fst (program_gen 254 p) = G_Line l) \<and>
    prog_good (snd (program_gen 254 p)) \<and> prog_lines (snd (program_gen 254 p)) = tl (prog_lines p)"
proof (cases "p_unlock p")
  case True
  then show ?thesis using assms by (simp add: program_gen_def prog_lines_def prog_good_def fit_def Let_def)
next
  case nu: False
  define ks where "ks = (case p_file p of None \<Rightarrow> [] | Some s \<Rightarrow> kept s)"
  have pl: "prog_lines p = ks @ tail_lines ks (p_ended p) (p_closed p)" using nu by (simp add: prog_lines_def ks_def Let_def)
  show ?thesis
  proof (cases ks)
    case Nil
    have eof: "(case p_file p of None \<Rightarrow> N_Eof | Some s \<Rightarrow> next_clean 254 s) = N_Eof"
    proof (cases "p_file p")
      case (Some s)
      then have "kept s = []" "rows_ok s" using assms Nil by (simp_all add: ks_def prog_good_def)
      then show ?thesis using next_clean_kept [of s] Some by simp
    qed simp
    show ?thesis using nu Nil eof pl assms
      by (auto simp: program_gen_def tail_lines_def prog_lines_def prog_good_def fit_def Let_def split: option.splits)
  next
    case (Cons l ls)
    then obtain s where s: "p_file p = Some s" "kept s = l # ls" "rows_ok s"
      using assms by (auto simp: ks_def prog_good_def split: option.splits)
    obtain rest where r: "next_clean 254 s = N_Line l rest" "rows_ok rest" "kept rest = ls"
      using next_clean_kept [OF s(3)] s(2) by auto
    have "\<not> p_closed p" using assms s by (auto simp: prog_good_def)
    then show ?thesis using nu s r pl Cons
      by (auto simp: program_gen_def tail_lines_def prog_lines_def prog_good_def Let_def)
  qed
qed

lemma emits_prog:
  assumes "emits (program_cfg lit_s run_s) p0 ls p" "prog_good p0"
  shows "prog_good p \<and> ls @ prog_lines p = prog_lines p0"
  using assms
proof (induction rule: emits.induct)
  case (line ls p l p')
  then show ?case using gen_step [of p] by (auto simp: program_cfg_def split: list.splits)
next
  case (waits ls p p')
  then show ?case using gen_step [of p] by (auto simp: program_cfg_def split: list.splits)
next
  case (ends ls p p')
  then show ?case using gen_step [of p] by (auto simp: program_cfg_def split: list.splits)
next
  case (fails ls p e p')
  then show ?case using gen_step [of p] by (auto simp: program_cfg_def split: list.splits)
qed (simp_all add: program_cfg_def)

lemma ended_prog:
  assumes "ended (program_cfg lit_s run_s) p0 ls" "prog_good p0"
  shows "ls = prog_lines p0"
proof -
  obtain p1 p2 where e: "emits (program_cfg lit_s run_s) p0 ls p1" "program_gen 254 p1 = (G_End, p2)"
    using assms(1) by (auto simp: ended_def program_cfg_def)
  have g: "prog_good p1" "ls @ prog_lines p1 = prog_lines p0" using emits_prog [OF e(1) assms(2)] by simp_all
  then show ?thesis using gen_step [OF g(1)] e(2) by (cases "prog_lines p1") auto
qed

text \<open>C15. A posted program that passes the check and whose run ends well went out as it was meant: the
  runner's unlock if it was asked for, every line of the program that is not empty once its
  comments are gone, in order, and the program's end, which is the runner's M2 when the program
  has none of its own; as many lines as the check counted, and every one acknowledged.\<close>

theorem program_plays:
  assumes "jobrun_program_check (Some s) = Inr n"
    and "jobstream_run (program_cfg lit_s run_s) is (js_start junk now (program_open s unlock)) = (Over, st)"
  shows "length (kept s) = n \<and>
    wire st = List.map with_newline
      ((if unlock then [''$X''] else []) @ kept s @ (if is_end (last (kept s)) then [] else [''M2''])) \<and>
    length (wire st) \<le> acked (jr st)"
proof -
  have ok: "rows_ok s" "n = length (kept s)" "kept s \<noteq> []" using assms(1) check_iff by auto
  have good: "prog_good (program_open s unlock)" using ok by (simp add: prog_good_def program_open_def)
  obtain ls where ls: "ended (program_cfg lit_s run_s) (program_open s unlock) ls" "wire st = List.map with_newline ls"
    "length ls = sent (jr st)" "sent (jr st) \<le> acked (jr st)"
    using run_ends_well [OF assms(2)] by auto
  have "ls = prog_lines (program_open s unlock)" using ended_prog [OF ls(1) good] .
  then show ?thesis using ls ok by (auto simp: prog_lines_def program_open_def tail_lines_def Let_def)
qed

section \<open>Nothing else is among it\<close>

definition sendable :: "char \<Rightarrow> bool" where
  "sendable c \<longleftrightarrow> printable c \<and> \<not> realtime c \<and> c \<noteq> CHR ''('' \<and> c \<noteq> CHR '';''"

text \<open>One step of the scan: it ends, or fails, or goes on with a byte more or none.\<close>

lemma scan_choice:
  assumes "(if b1 then Inr out else if b2 then if b3 then R p else Inl w1 else if b4 then Inl w2 else if b5 then R k
      else if b6 then R True else if b7 then Inr out else if b8 then Inl w3 else if b9 then R p
      else if b10 then Inl w4 else A) = Inr out'"
  shows "out' = out \<or> (\<exists>q. R q = Inr out') \<or> (\<not> b4 \<and> \<not> b6 \<and> \<not> b7 \<and> \<not> b8 \<and> \<not> b10 \<and> A = Inr out')"
  using assms by (auto split: if_split_asm)

lemma clean_from_step:
  assumes "clean_from len out paren (c # cs) = Inr out'"
  shows "out' = out \<or> (\<exists>q. clean_from len out q cs = Inr out') \<or>
    (\<exists>d q. sendable d \<and> length out + 1 < len \<and> clean_from len (out @ [d]) q cs = Inr out')"
proof -
  define d where "d = (if c = tab then space else c)"
  from scan_choice [where R = "\<lambda>q. clean_from len out q cs",
      OF assms [unfolded clean_from.simps Let_def d_def [symmetric]]] show ?thesis
  proof (elim disjE exE conjE)
    assume s: "\<not> (byte d < 32 \<or> 127 \<le> byte d)" "d \<noteq> CHR ''(''" "d \<noteq> CHR '';''" "\<not> realtime d"
      "\<not> len \<le> length out + 1" "clean_from len (out @ [d]) paren cs = Inr out'"
    have "sendable d" unfolding sendable_def printable_def using s(1-4) by auto
    then show ?thesis using s(5,6) by (auto simp: not_le)
  qed blast+
qed

lemma clean_from_safe:
  "clean_from len out paren cs = Inr out' \<Longrightarrow> list_all sendable out \<Longrightarrow> length out < len \<Longrightarrow>
   list_all sendable out' \<and> length out' < len"
proof (induction cs arbitrary: out paren)
  case (Cons c cs)
  from clean_from_step [OF Cons.prems(1)] show ?case
  proof (elim disjE exE conjE)
    fix d q assume "sendable d" "length out + 1 < len" "clean_from len (out @ [d]) q cs = Inr out'"
    then show ?thesis using Cons.IH [of "out @ [d]" q] Cons.prems(2) by simp
  qed (use Cons in blast)+
qed simp

lemma trim_end_sub: "set (trim_end s) \<subseteq> set s" "length (trim_end s) \<le> length s"
proof -
  show "set (trim_end s) \<subseteq> set s" unfolding trim_end_def by (metis set_dropWhileD set_rev subsetI)
  show "length (trim_end s) \<le> length s" unfolding trim_end_def by (metis length_dropWhile_le length_rev)
qed

lemma line_clean_safe:
  assumes "line_clean len raw = Inr l" "0 < len"
  shows "list_all sendable l \<and> length l < len \<and> \<not> starts_with ''$'' l"
proof -
  obtain out0 where o: "clean_from len [] False raw = Inr out0" using assms by (auto simp: line_clean_def split: sum.splits)
  have "list_all sendable out0 \<and> length out0 < len" using clean_from_safe [OF o] assms(2) by simp
  then have "list_all sendable (trim_end out0) \<and> length (trim_end out0) < len"
    using trim_end_sub [of out0] by (auto simp: list_all_iff)
  then show ?thesis using assms o by (auto simp: line_clean_def starts_with_def Let_def split: if_splits)
qed

lemma kept_safe: "l \<in> set (kept s) \<Longrightarrow> l \<noteq> [] \<and> list_all sendable l \<and> length l \<le> jobrun_line_max + 1 \<and> \<not> starts_with ''$'' l"
proof (induction s rule: kept.induct)
  case (1 s)
  show ?case
  proof (cases "l \<in> set (kept (snd (get_row s)))")
    case True
    then show ?thesis using 1 by (cases "s = []") auto
  next
    case False
    obtain x where x: "x = row_clean (fst (get_row s))" by blast
    have "l \<in> set (case x of Inr l \<Rightarrow> if l = [] then [] else [l] | Inl _ \<Rightarrow> [])"
      using 1(2) False unfolding x by (cases "s = []") (simp_all add: kept.simps [of s])
    then have "row_clean (fst (get_row s)) = Inr l" "l \<noteq> []"
      unfolding x [symmetric] by (cases x; simp split: if_splits)+
    then show ?thesis using line_clean_safe [of "jobrun_line_max + 2" "fst (get_row s)" l]
      by (auto simp: row_clean_def jobrun_line_max_def split: if_splits)
  qed
qed

text \<open>C16. What a posted program can make the daemon write to the controller: of every line of it that goes
  out, each byte is printable ASCII, none is a realtime character or the start of a comment, the
  line is not empty and not a system command, and it is at most 251 bytes long.\<close>

theorem program_lines_safe:
  assumes "l \<in> set (kept s)"
  shows "l \<noteq> [] \<and> \<not> starts_with ''$'' l \<and> length l \<le> 251 \<and>
    list_all (\<lambda>c. printable c \<and> c \<noteq> CHR ''?'' \<and> c \<noteq> CHR ''!'' \<and> c \<noteq> CHR ''~'' \<and> c \<noteq> CHR ''('' \<and> c \<noteq> CHR '';'') l"
  using kept_safe [OF assms] by (auto simp: jobrun_line_max_def sendable_def realtime_def list_all_iff)

section \<open>The program's generator as a line source\<close>

lemma next_clean_fits: "next_clean len s = N_Line l rest \<Longrightarrow> 0 < len \<Longrightarrow> length l < len"
proof (induction len s rule: next_clean.induct)
  case (1 len s)
  show ?case
  proof (cases "s = []")
    case True
    then show ?thesis using 1(2) by (subst (asm) next_clean.simps) simp
  next
    case False
    let ?r = "fgets (raw_max - 1) s"
    let ?m = "min len (jobrun_line_max + 2)"
    show ?thesis
    proof (cases "line_clean ?m (takeWhile (\<lambda>c. c \<noteq> CHR 0x00) (fst ?r))")
      case (Inl w)
      then show ?thesis using 1(2) False by (subst (asm) next_clean.simps) (simp add: Let_def)
    next
      case (Inr k)
      show ?thesis
      proof (cases "k = []")
        case True
        then show ?thesis using 1(1) [of ?r k] 1(2,3) False Inr by (subst (asm) (2) next_clean.simps) (simp add: Let_def)
      next
        case kne: False
        then have "l = k" using 1(2) False Inr by (subst (asm) next_clean.simps) (simp add: Let_def)
        then show ?thesis using line_clean_safe [OF Inr] 1(3) by simp
      qed
    qed
  qed
qed

lemma program_gen_fits: "program_gen len p = (G_Line l, p') \<Longrightarrow> 0 < len \<Longrightarrow> length l < len"
  using next_clean_fits [of len _ l]
  by (auto simp: program_gen_def fit_def Let_def split: if_splits option.splits next_line.splits)

interpretation program_source: line_source "program_cfg lit_s run_s" for lit_s run_s
  by unfold_locales (simp add: program_cfg_def program_gen_fits)

lemma program_window: "js_reach (program_cfg lit_s run_s) junk now g s \<Longrightarrow> window_inv s"
  by (rule program_source.reach_window)

end
