(* ===== verification/JobrunRuns.thy ===== *)
theory JobrunRuns
  imports JobrunProps
begin

text \<open>
  Concrete runs of the sender with a posted program: one that ends well, one the controller refuses.
\<close>

definition short_program :: string where
  "short_program = ''G0 X1'' @ [newline] @ ''(mark) ; nothing'' @ [newline] @ ''M2'' @ [cret, newline]"

definition tick_with :: "real \<Rightarrow> string \<Rightarrow> tick_in" where
  "tick_with t arrived = \<lparr>i_now = t, i_attrs = (\<lambda>_. None), i_arrived = arrived, i_closed = False, i_abort = False,
     i_write = (\<lambda>_. True)\<rparr>"

definition ok_line :: string where "ok_line = ''ok'' @ [cret, newline]"

definition good_ticks :: "tick_in list" where
  "good_ticks = [tick_with 1 [], tick_with 2 ok_line, tick_with 3 ok_line]"

definition bad_ticks :: "tick_in list" where
  "bad_ticks = [tick_with 1 [], tick_with 2 (''error:9'' @ [cret, newline])]"

abbreviation play :: "tick_in list \<Rightarrow> outcome \<times> program js" where
  "play ts \<equiv> jobstream_run (program_cfg 0 60) ts (js_start [] 0 (program_open short_program False))"

lemma good_run: "fst (play good_ticks) = Over"
  by code_simp

lemma bad_run: "fst (play bad_ticks) = Failed ''the controller answered error:9 on line 1 (G0 X1)''"
  by code_simp

lemma short_check: "jobrun_program_check (Some short_program) = Inr 2"
  by code_simp

lemma short_kept: "kept short_program = [''G0 X1'', ''M2'']"
  by code_simp

theorem program_plays_witness:
  "wire (snd (play good_ticks)) = List.map with_newline [''G0 X1'', ''M2'']"
proof -
  have "play good_ticks = (Over, snd (play good_ticks))" using good_run by (metis prod.collapse)
  from program_plays [OF short_check this] show ?thesis by (simp add: short_kept is_end_def starts_with_def)
qed

theorem run_ends_well_witness:
  "\<exists>ls. ended (program_cfg 0 60) (program_open short_program False) ls \<and>
     wire (snd (play good_ticks)) = List.map with_newline ls \<and> length ls \<le> acked (jr (snd (play good_ticks)))"
proof -
  have "play good_ticks = (Over, snd (play good_ticks))" using good_run by (metis prod.collapse)
  from run_ends_well [OF this] show ?thesis by force
qed

theorem run_fails_reset_witness: "last (wire (snd (play bad_ticks))) = soft_reset"
proof -
  have "play bad_ticks = (Failed ''the controller answered error:9 on line 1 (G0 X1)'', snd (play bad_ticks))"
    using bad_run by (metis prod.collapse)
  from run_fails_reset [OF this] show ?thesis by auto
qed

theorem program_lines_safe_witness: "length ''G0 X1'' \<le> 251 \<and> \<not> starts_with ''$'' ''G0 X1''"
  using program_lines_safe [of "''G0 X1''" short_program] by (simp add: short_kept)

text \<open>The first tick of the run, and what it leaves in flight.\<close>

definition one_out :: "program js" where
  "one_out = snd (jobstream_tick (program_cfg 0 60) (tick_with 1 []) (js_start [] 0 (program_open short_program False)))"

lemma one_out_reach: "js_reach (program_cfg 0 60) [] 0 (program_open short_program False) one_out"
proof (rule js_reach.tick [OF js_reach.start])
  show "sane_answers (program_cfg 0 60) (tick_with 1 []) (js_start [] 0 (program_open short_program False))"
    by code_simp
  have "fst (jobstream_tick (program_cfg 0 60) (tick_with 1 []) (js_start [] 0 (program_open short_program False))) = Going"
    by code_simp
  then show "jobstream_tick (program_cfg 0 60) (tick_with 1 []) (js_start [] 0 (program_open short_program False)) = (Going, one_out)"
    unfolding one_out_def by (metis prod.collapse)
qed

theorem never_overruns_witness: "out_bytes one_out \<le> inflight_bytes \<and> sent (jr one_out) - acked (jr one_out) \<le> inflight_lines"
proof -
  have "length l < len" if "gen (program_cfg 0 60) len x = (G_Line l, y)" "0 < len" for len x l y
    using that program_gen_fits by (simp add: program_cfg_def)
  from never_overruns [OF this one_out_reach] show ?thesis by simp
qed

theorem answers_whatever_the_reads_witness:
  "rx_reads 5 ''ok'' one_out = Inr (one_out\<lparr>rx := ''ok''\<rparr>)"
proof -
  have r: "rx one_out = []" by code_simp
  have "rx_reads 5 ''ok'' one_out = (case handle_all 5 (fst (split_lines (rx one_out @ ''ok''))) one_out of Inl e \<Rightarrow> Inl e
     | Inr s' \<Rightarrow> Inr (s'\<lparr>rx := snd (split_lines (rx one_out @ ''ok''))\<rparr>))"
    by (rule answers_whatever_the_reads) (simp_all add: r short_lines_def rx_room_def)
  then show ?thesis by (simp add: r)
qed

text \<open>A program's end in lower case ends the program for the runner, which sends no M2 of its own, but
  is no barrier for the sender: it goes out behind lines that are not acknowledged.\<close>

theorem lower_case_end_is_no_barrier:
  "is_end ''m2'' \<and> \<not> line_is_barrier ''m2'' \<and> is_end ''M2'' \<and> line_is_barrier ''M2''"
  by (simp add: is_end_def line_is_barrier_def starts_with_def)

text \<open>A controller that never answers: the run is over in its sixty seconds.\<close>

theorem run_ends_in_time_witness: "fst (play [tick_with 1 [], tick_with 61 []]) \<noteq> Going"
proof (rule run_ends_in_time)
  show "tick_with 61 [] \<in> set [tick_with 1 [], tick_with 61 []]" by simp
qed (simp_all add: program_cfg_def tick_with_def)

end
