(* ===== verification/Runner.thy ===== *)
theory Runner
  imports JobrunProps
begin

text \<open>
  The job runner's own state (\<open>src/jobrun.c\<close>): one run at a time, started on its thread or played on
  a caller's, with the machine lease taken and given back under the runner's mutex. Every operation
  here is one stretch under that mutex, so an interleaving of threads is a sequence of them. \<open>mlease\<close>
  is the state of \<open>src/lease.c\<close>; \<open>playing\<close> says the runner's thread has not reached its way out yet.
\<close>

datatype jr_state = JR_Idle | JR_Running | JR_Done | JR_Failed

definition run_zero :: jrun where
  "run_zero = \<lparr>sent = 0, acked = 0, samples = 0, lit = False, t_first_lit = 0, t_last_lit = 0,
     hv_max = 0, lon_max = 0, tp_base = 0, tp_max = 0\<rparr>"

record runner =
  active :: bool
  lease_held :: bool
  r_holder :: string
  r_owner :: string
  is_program :: bool
  r_state :: jr_state
  reason :: string
  t_started :: real
  r_lines :: nat
  live :: "jrun option"
  last_run :: jrun
  last_elapsed :: real
  thread_live :: bool
  joining :: bool
  abort_req :: bool
  playing :: bool
  prog :: "program option"
  mlease :: lease

definition runner_boot :: runner where
  "runner_boot = \<lparr>active = False, lease_held = False, r_holder = [], r_owner = [], is_program = False,
     r_state = JR_Idle, reason = [], t_started = 0, r_lines = 0, live = None, last_run = run_zero,
     last_elapsed = 0, thread_live = False, joining = False, abort_req = False, playing = False, prog = None,
     mlease = []\<rparr>"

text \<open>A run's configuration, as far as the runner looks at it: \<open>j_gen\<close> says it has a generator,
  \<open>j_ready\<close> is what its last preparation answers (a refusal, or none).\<close>

record run_cfg =
  j_owner :: "string option"
  j_under :: "string option"
  j_gen :: bool
  j_ready :: "string option"

definition busy_words :: "runner \<Rightarrow> string" where
  "busy_words st = (case lease_refusal (mlease st) of Some w \<Rightarrow> w | None \<Rightarrow> ''a job is finishing'')"

definition begin_locked :: "run_cfg \<Rightarrow> bool \<Rightarrow> real \<Rightarrow> runner \<Rightarrow> string + runner" where
  "begin_locked c client now st =
     (if j_owner c = None \<or> \<not> j_gen c then Inl ''the job has no program''
      else if active st then Inl (busy_words st)
      else case lease_take (j_owner c) Sender (j_under c) client now (mlease st) of
        Inl why \<Rightarrow> Inl why
      | Inr l \<Rightarrow> Inr (st\<lparr>active := True, lease_held := True, r_holder := fit lease_owner_max (the (j_owner c)), mlease := l\<rparr>))"

definition record_open_locked :: "bool \<Rightarrow> nat \<Rightarrow> real \<Rightarrow> runner \<Rightarrow> runner" where
  "record_open_locked program n now st =
     st\<lparr>r_owner := r_holder st, is_program := program, r_lines := n, r_state := JR_Running, reason := [],
        t_started := now, live := Some run_zero\<rparr>"

definition unbegin_locked :: "runner \<Rightarrow> runner" where
  "unbegin_locked st =
     st\<lparr>mlease := lease_release (Some (r_holder st)) (mlease st), lease_held := False, active := False\<rparr>"

text \<open>The way out of a run: the counters kept, the lease back unless the client took it back already.\<close>

definition end_run :: "bool \<Rightarrow> string \<Rightarrow> jrun \<Rightarrow> real \<Rightarrow> runner \<Rightarrow> runner" where
  "end_run ok err r now st =
     st\<lparr>last_run := r, last_elapsed := now - t_started st, live := None, reason := (if ok then [] else fit 200 err),
        mlease := (if lease_held st then lease_release (Some (r_holder st)) (mlease st) else mlease st),
        lease_held := False, r_state := (if ok then JR_Done else JR_Failed), active := False\<rparr>"

definition jobrun_lease_back :: "runner \<Rightarrow> runner" where
  "jobrun_lease_back st =
     (if active st \<and> lease_held st
      then st\<lparr>mlease := lease_release (Some (r_holder st)) (mlease st), lease_held := False\<rparr> else st)"

definition sync_begin :: "run_cfg \<Rightarrow> bool \<Rightarrow> real \<Rightarrow> runner \<Rightarrow> string + runner" where
  "sync_begin c client now st =
     (case begin_locked c client now st of Inl e \<Rightarrow> Inl e | Inr st1 \<Rightarrow> Inr (record_open_locked False 0 now st1))"

text \<open>A started run; \<open>joinable\<close>: the join of an ended thread has returned, \<open>spawned\<close>: the thread was created.\<close>

definition no_thread :: string where
  "no_thread = ''cannot start the job'' @ [CHR 0x27] @ ''s thread''"

definition start_locked :: "run_cfg \<Rightarrow> bool \<Rightarrow> nat \<Rightarrow> bool \<Rightarrow> real \<Rightarrow> bool \<Rightarrow> runner \<Rightarrow> string option \<times> runner" where
  "start_locked c program n client now spawned st =
     (if joining st then (Some (busy_words st), st)
      else
        let st0 = (if \<not> active st \<and> thread_live st then st\<lparr>thread_live := False\<rparr> else st) in
        case begin_locked c client now st0 of
          Inl e \<Rightarrow> (Some e, st0)
        | Inr st1 \<Rightarrow>
            (case j_ready c of
               Some e \<Rightarrow> (Some e, unbegin_locked st1)
             | None \<Rightarrow>
                 let st2 = record_open_locked program n now (st1\<lparr>abort_req := False\<rparr>) in
                 if \<not> spawned
                 then (Some no_thread, (unbegin_locked st2)\<lparr>live := None, r_state := JR_Failed,
                         reason := no_thread\<rparr>)
                 else (None, st2\<lparr>thread_live := True, playing := True\<rparr>)))"

text \<open>A stop by a run's owner: its first stretch, and the one after the join.\<close>

definition stop_begin :: "string option \<Rightarrow> runner \<Rightarrow> bool \<times> runner" where
  "stop_begin who st =
     (let mine = thread_live st \<and> \<not> joining st \<and> who = Some (r_holder st)
      in (mine, if mine then st\<lparr>joining := True, abort_req := (active st \<or> abort_req st)\<rparr> else st))"

definition stop_joined :: "runner \<Rightarrow> runner" where
  "stop_joined st = st\<lparr>thread_live := False, joining := False\<rparr>"

text \<open>A posted program: its name and its check, then the start under the mutex.\<close>

definition program_ready :: "string option \<Rightarrow> string option \<Rightarrow> string + nat" where
  "program_ready name f =
     (if \<not> jobrun_name_ok name
      then Inl (''name is 1 to '' @ show_nat jobrun_name_max @ '' of letters, digits, '' @
             [CHR 0x27] @ ''.'' @ [CHR 0x27] @ '', '' @ [CHR 0x27] @ ''_'' @ [CHR 0x27] @ '' and '' @ [CHR 0x27] @ ''-'' @ [CHR 0x27])
      else jobrun_program_check f)"

definition program_start :: "string \<Rightarrow> string \<Rightarrow> string option \<Rightarrow> bool \<Rightarrow> nat \<Rightarrow> bool \<Rightarrow> real \<Rightarrow> bool \<Rightarrow> runner \<Rightarrow> string option \<times> runner" where
  "program_start s name below unlock n client now spawned st =
     (if active st then (Some (busy_words st), st)
      else
        let r = start_locked \<lparr>j_owner = Some (fit lease_owner_max (''job:'' @ name)), j_under = below, j_gen = True, j_ready = None\<rparr>
                  True n client now spawned (st\<lparr>prog := Some (program_open s unlock)\<rparr>)
        in (fst r, if fst r = None then snd r else (snd r)\<lparr>prog := map_option (\<lambda>p. p\<lparr>p_file := None\<rparr>) (prog (snd r))\<rparr>))"

text \<open>Whom an abort of the posted program stops, or why none.\<close>

definition program_abort :: "runner \<Rightarrow> string + string" where
  "program_abort st =
     (if \<not> active st then Inl ''no job is running''
      else if \<not> is_program st then Inl (lease_words (r_holder st) @ '' is running: stop it where it was started'')
      else Inr (r_holder st))"

section \<open>The steps\<close>

datatype run_act =
    Start run_cfg bool real bool
  | Program string string "string option" bool nat bool real bool
  | Sync run_cfg bool real
  | Ends bool string jrun real
  | Lease_Back
  | Stop "string option"
  | Joined
  | Others lease_op

fun run_step :: "run_act \<Rightarrow> runner \<Rightarrow> runner" where
  "run_step (Start c client now spawned) st = snd (start_locked c False 0 client now spawned st)"
| "run_step (Program s name below unlock n client now spawned) st = snd (program_start s name below unlock n client now spawned st)"
| "run_step (Sync c client now) st = (case sync_begin c client now st of Inl _ \<Rightarrow> st | Inr st' \<Rightarrow> st')"
| "run_step (Ends ok err r now) st = (if active st then (end_run ok err r now st)\<lparr>playing := False\<rparr> else st)"
| "run_step Lease_Back st = jobrun_lease_back st"
| "run_step (Stop who) st = snd (stop_begin who st)"
| "run_step Joined st = (if joining st \<and> \<not> playing st then stop_joined st else st)"
| "run_step (Others lop) st = st\<lparr>mlease := lease_step lop (mlease st)\<rparr>"

section \<open>Who has the machine while a run plays\<close>

definition runner_inv :: "runner \<Rightarrow> bool" where
  "runner_inv st \<longleftrightarrow> (lease_held st \<longrightarrow> active st \<and> (\<exists>hs. holders_of (mlease st) = hs @ [r_holder st])) \<and>
     (playing st \<longrightarrow> active st \<and> thread_live st) \<and> (joining st \<longrightarrow> thread_live st) \<and>
     (active st \<longleftrightarrow> r_state st = JR_Running) \<and> (active st \<longleftrightarrow> live st \<noteq> None)"

lemma begin_held:
  assumes "begin_locked c client now st = Inr st'"
  obtains l x where "\<not> active st" "j_owner c = Some x"
    "st' = st\<lparr>active := True, lease_held := True, r_holder := x, mlease := l\<rparr>"
    "holders_of l = holders_of (mlease st) @ [x]" "holders_of (mlease st) = (case j_under c of None \<Rightarrow> [] | Some u \<Rightarrow> [u])"
proof -
  obtain l where l: "\<not> active st" "lease_take (j_owner c) Sender (j_under c) client now (mlease st) = Inr l"
    "st' = st\<lparr>active := True, lease_held := True, r_holder := fit lease_owner_max (the (j_owner c)), mlease := l\<rparr>"
    using assms by (auto simp: begin_locked_def split: if_splits sum.splits)
  have u: "owner_usable (j_owner c)" using l(2) by (simp add: lease_take_Inr)
  then obtain x where x: "j_owner c = Some x" "length x < lease_owner_max" by (auto simp: owner_usable_def split: option.splits)
  have "holders_of l = holders_of (mlease st) @ [x]" "holders_of (mlease st) = (case j_under c of None \<Rightarrow> [] | Some u \<Rightarrow> [u])"
    using l(2) x(1) by (simp_all add: lease_take_Inr holders_of_def)
  then show ?thesis using that [of x l] l(1,3) x by (simp add: fit_id)
qed

lemma release_top: "holders_of l = hs @ [x] \<Longrightarrow> holders_of (lease_release (Some x) l) = hs"
  by (rule ml.release_own)

lemma unbegin_inv:
  assumes "runner_inv st0" "begin_locked c client now st0 = Inr st1" "\<not> joining st0"
  shows "runner_inv (unbegin_locked st1)"
    and "runner_inv ((unbegin_locked (record_open_locked p n t (st1\<lparr>abort_req := False\<rparr>)))\<lparr>live := None, r_state := JR_Failed, reason := w\<rparr>)"
    and "runner_inv ((record_open_locked p n t (st1\<lparr>abort_req := False\<rparr>))\<lparr>thread_live := True, playing := True\<rparr>)"
    and "runner_inv (record_open_locked p n t st1)"
proof -
  obtain l x where b: "\<not> active st0" "st1 = st0\<lparr>active := True, lease_held := True, r_holder := x, mlease := l\<rparr>"
    "holders_of l = holders_of (mlease st0) @ [x]"
    using begin_held [OF assms(2)] by blast
  have np: "\<not> playing st0" using assms(1) b(1) by (simp add: runner_inv_def)
  show "runner_inv (unbegin_locked st1)" "runner_inv (record_open_locked p n t st1)"
    "runner_inv ((unbegin_locked (record_open_locked p n t (st1\<lparr>abort_req := False\<rparr>)))\<lparr>live := None, r_state := JR_Failed, reason := w\<rparr>)"
    "runner_inv ((record_open_locked p n t (st1\<lparr>abort_req := False\<rparr>))\<lparr>thread_live := True, playing := True\<rparr>)"
    using assms(1,3) b np by (simp_all add: runner_inv_def unbegin_locked_def record_open_locked_def)
qed

lemma start_inv:
  assumes "runner_inv st"
  shows "runner_inv (snd (start_locked c program n client now spawned st))"
proof (cases "joining st")
  case True
  then show ?thesis using assms by (simp add: start_locked_def)
next
  case nj: False
  define st0 where "st0 = (if \<not> active st \<and> thread_live st then st\<lparr>thread_live := False\<rparr> else st)"
  have i0: "runner_inv st0" "\<not> joining st0" using assms nj by (auto simp: st0_def runner_inv_def)
  have eq: "start_locked c program n client now spawned st = (case begin_locked c client now st0 of
          Inl e \<Rightarrow> (Some e, st0)
        | Inr st1 \<Rightarrow>
            (case j_ready c of
               Some e \<Rightarrow> (Some e, unbegin_locked st1)
             | None \<Rightarrow>
                 let st2 = record_open_locked program n now (st1\<lparr>abort_req := False\<rparr>) in
                 if \<not> spawned
                 then (Some no_thread, (unbegin_locked st2)\<lparr>live := None, r_state := JR_Failed, reason := no_thread\<rparr>)
                 else (None, st2\<lparr>thread_live := True, playing := True\<rparr>)))"
    using nj by (simp add: start_locked_def st0_def [symmetric] Let_def)
  show ?thesis
  proof (cases "begin_locked c client now st0")
    case (Inl w)
    then show ?thesis using i0 by (simp add: eq)
  next
    case (Inr st1)
    show ?thesis using unbegin_inv(1-3) [OF i0(1) Inr i0(2)] Inr
      unfolding eq by (simp add: Let_def split: option.splits)
  qed
qed

text \<open>What the other holders of the lease may do: take it, not inside the run's own hold, and give back
  what is not the run's.\<close>

definition leaves_run :: "string \<Rightarrow> lease_op \<Rightarrow> bool" where
  "leaves_run x lop = (case lop of Take own k below c now \<Rightarrow> below \<noteq> Some x | Release own \<Rightarrow> own \<noteq> Some x)"

lemma others_keep_top:
  assumes "holders_of l = hs @ [x]" "leaves_run x lop"
  shows "holders_of (lease_step lop l) = hs @ [x]"
proof (cases lop)
  case (Take own k below c now)
  show ?thesis
  proof (cases "lease_take own k below c now l")
    case (Inl w)
    then show ?thesis using assms(1) Take by simp
  next
    case (Inr l')
    then have "map s_owner l = (case below of None \<Rightarrow> [] | Some u \<Rightarrow> [u])" by (simp add: lease_take_Inr)
    then have "below = Some x" using assms(1) by (cases below) (auto simp: holders_of_def)
    then show ?thesis using assms(2) Take by (simp add: leaves_run_def)
  qed
next
  case (Release own)
  then have "own \<noteq> Some x" using assms(2) by (simp add: leaves_run_def)
  then have "holders_of (lease_release own l) = holders_of l"
    using assms(1) by (cases own) (simp_all add: ml.release_other)
  then show ?thesis using assms(1) Release by simp
qed

fun run_ok :: "run_act \<Rightarrow> runner \<Rightarrow> bool" where
  "run_ok (Others lop) st = (lease_held st \<longrightarrow> leaves_run (r_holder st) lop)"
| "run_ok _ st = True"

fun runs_ok :: "run_act list \<Rightarrow> runner \<Rightarrow> bool" where
  "runs_ok [] st = True"
| "runs_ok (a # as) st = (run_ok a st \<and> runs_ok as (run_step a st))"

lemma prog_kept: "runner_inv (st\<lparr>prog := p\<rparr>) = runner_inv st"
  by (simp add: runner_inv_def)

lemma program_inv:
  assumes "runner_inv st"
  shows "runner_inv (snd (program_start s name below unlock n client now spawned st))"
proof (cases "active st")
  case False
  have "runner_inv (st\<lparr>prog := p\<rparr>)" for p by (rule iffD2 [OF prog_kept assms])
  then show ?thesis using False start_inv by (simp add: program_start_def Let_def prog_kept)
qed (use assms in \<open>simp add: program_start_def\<close>)

lemma run_step_inv [preserve]:
  assumes "runner_inv st" "run_ok a st"
  shows "runner_inv (run_step a st)"
proof (cases a)
  case (Start c client now spawned)
  then show ?thesis using start_inv assms by simp
next
  case (Program s name below unlock n client now spawned)
  then show ?thesis using program_inv assms by simp
next
  case (Sync c client now)
  show ?thesis
  proof (cases "begin_locked c client now st")
    case (Inr st1)
    obtain l x where b: "\<not> active st" "st1 = st\<lparr>active := True, lease_held := True, r_holder := x, mlease := l\<rparr>"
      "holders_of l = holders_of (mlease st) @ [x]"
      using begin_held [OF Inr] by blast
    have "\<not> playing st" using assms(1) b(1) by (simp add: runner_inv_def)
    then have "runner_inv (record_open_locked False 0 now st1)"
      using assms(1) b by (simp add: runner_inv_def record_open_locked_def)
    then show ?thesis using Sync Inr by (simp add: sync_begin_def)
  qed (use Sync assms in \<open>simp add: sync_begin_def\<close>)
next
  case (Ends ok err r now)
  then show ?thesis using assms by (auto simp: runner_inv_def end_run_def)
next
  case Lease_Back
  then show ?thesis using assms by (auto simp: runner_inv_def jobrun_lease_back_def)
next
  case (Stop who)
  then show ?thesis using assms by (auto simp: runner_inv_def stop_begin_def Let_def)
next
  case Joined
  then show ?thesis using assms by (auto simp: runner_inv_def stop_joined_def)
next
  case (Others lop)
  then show ?thesis using assms others_keep_top by (auto simp: runner_inv_def)
qed

text \<open>While a run plays and has not given the machine back its owner is the machine's innermost holder,
  the run is the one recorded as running, and a run that is not active holds nothing: in every state
  the runner reaches, whoever else takes and gives back the lease outside the run's own hold.\<close>

lemma runner_boot_inv: "runner_inv runner_boot"
  by (simp add: runner_inv_def runner_boot_def)

lemma runs_inv: "runner_inv st \<Longrightarrow> runs_ok as st \<Longrightarrow> runner_inv (fold run_step as st)"
  by (induction as arbitrary: st) (simp_all add: run_step_inv)

definition holding :: "string \<Rightarrow> string list \<Rightarrow> runner \<Rightarrow> bool" where
  "holding x hs st \<longleftrightarrow> active st \<and> lease_held st \<and> r_holder st = x \<and> holders_of (mlease st) = hs @ [x]"

fun keeps_run :: "run_act \<Rightarrow> bool" where
  "keeps_run (Ends ok err r now) = False"
| "keeps_run Lease_Back = False"
| "keeps_run _ = True"

lemma start_refused: "active st \<Longrightarrow> snd (start_locked c program n client now spawned st) = st"
  by (simp add: start_locked_def begin_locked_def Let_def)

lemma holding_step: "holding x hs st \<Longrightarrow> keeps_run a \<Longrightarrow> run_ok a st \<Longrightarrow> holding x hs (run_step a st)"
proof (cases a)
  case (Others lop)
  assume "holding x hs st" "run_ok a st"
  then show ?thesis using Others others_keep_top by (simp add: holding_def)
qed (auto simp: holding_def start_refused program_start_def sync_begin_def begin_locked_def stop_begin_def stop_joined_def Let_def)

lemma holding_run: "holding x hs st \<Longrightarrow> list_all keeps_run as \<Longrightarrow> runs_ok as st \<Longrightarrow> holding x hs (fold run_step as st)"
  by (induction as arbitrary: st) (auto simp: holding_step)

lemma started_holding:
  assumes "start_locked c program n client now spawned st = (None, st')"
  shows "holding (the (j_owner c)) (case j_under c of None \<Rightarrow> [] | Some u \<Rightarrow> [u]) st' \<and> \<not> active st"
proof -
  have nj: "\<not> joining st" using assms by (auto simp: start_locked_def)
  define st0 where "st0 = (if \<not> active st \<and> thread_live st then st\<lparr>thread_live := False\<rparr> else st)"
  obtain st1 where b: "begin_locked c client now st0 = Inr st1" and
    st': "st' = (record_open_locked program n now (st1\<lparr>abort_req := False\<rparr>))\<lparr>thread_live := True, playing := True\<rparr>"
    using assms nj by (auto simp: start_locked_def st0_def [symmetric] Let_def split: sum.splits option.splits if_splits)
  obtain l x where l: "\<not> active st0" "j_owner c = Some x"
    "st1 = st0\<lparr>active := True, lease_held := True, r_holder := x, mlease := l\<rparr>"
    "holders_of l = holders_of (mlease st0) @ [x]" "holders_of (mlease st0) = (case j_under c of None \<Rightarrow> [] | Some u \<Rightarrow> [u])"
    using begin_held [OF b] by blast
  have "\<not> active st" using l(1) by (simp add: st0_def split: if_splits)
  then show ?thesis using l st' by (simp add: holding_def record_open_locked_def)
qed

text \<open>C19. A run gives the machine back as it found it: a run that was started holds the machine, innermost,
  under nobody but the holder it named; whatever the other threads do in its time, its stop and the
  starts it refuses included, when it ends the machine's holders are those it started under, and
  no run is active.\<close>

theorem run_returns_machine:
  assumes "start_locked c program n client now spawned st = (None, st1)"
    and "list_all keeps_run as" "runs_ok as st1"
  shows "let st2 = fold run_step as st1; st3 = run_step (Ends ok err r t) st2 in
     last (holders_of (mlease st2)) = the (j_owner c) \<and> active st2 \<and>
     holders_of (mlease st3) = (case j_under c of None \<Rightarrow> [] | Some u \<Rightarrow> [u]) \<and> \<not> active st3 \<and> \<not> lease_held st3"
proof -
  have h: "holding (the (j_owner c)) (case j_under c of None \<Rightarrow> [] | Some u \<Rightarrow> [u]) (fold run_step as st1)"
    using holding_run started_holding [OF assms(1)] assms(2,3) by blast
  then show ?thesis using release_top [of "mlease (fold run_step as st1)"]
    by (simp add: holding_def end_run_def Let_def)
qed

theorem run_returns_machine_witness:
  "let st1 = snd (start_locked \<lparr>j_owner = Some ''job:panel'', j_under = None, j_gen = True, j_ready = None\<rparr> True 2 False 0 True runner_boot);
       st2 = run_step (Others (Take (Some ''ext:align'') Extension None False 1)) st1 in
     last (holders_of (mlease st2)) = ''job:panel'' \<and> holders_of (mlease (run_step (Ends True [] run_zero 2) st2)) = []"
proof -
  let ?c = "\<lparr>j_owner = Some ''job:panel'', j_under = None, j_gen = True, j_ready = None\<rparr>"
  let ?st1 = "snd (start_locked ?c True 2 False 0 True runner_boot)"
  let ?as = "[Others (Take (Some ''ext:align'') Extension None False 1)]"
  have s: "start_locked ?c True 2 False 0 True runner_boot = (None, ?st1)"
    by (simp add: start_locked_def runner_boot_def begin_locked_def lease_take_def owner_usable_def lease_owner_max_def
        lease_depth_def record_open_locked_def Let_def)
  have k: "list_all keeps_run ?as" and o: "runs_ok ?as ?st1" by (simp_all add: leaves_run_def)
  note r = run_returns_machine [OF s k o, where ok = True and err = "[]" and r = run_zero and t = 2, unfolded Let_def]
  show ?thesis unfolding Let_def using r by (simp del: run_step.simps)
qed

end
