(* ===== verification/Senderout.thy ===== *)
theory Senderout
  imports Lease Json
begin

text \<open>
  An extension package keeps the Grbl sender out (\<open>src/senderout.c\<close>). One mutex holds the
  module's state, but the port and the lease are asked outside it, so a call is a sequence of
  steps between which any other thread may run: a thread's place in its call is a \<open>pc\<close>, and a
  run of the module is a sequence of actions, each of which starts a call, takes one thread one
  step on, or is an operation some other part of the daemon does on the lease. What a step finds
  outside the module is its \<open>k_world\<close>: the clock (read once per step), the claim files as the JSON
  library reads them, what the controller answers on its port.
\<close>

definition senderout_fresh_s :: real where "senderout_fresh_s = 2"
definition senderout_grace_s :: real where "senderout_grace_s = 3"
definition senderout_repush_s :: real where "senderout_repush_s = 2"
definition senderout_id_max :: nat where "senderout_id_max = 63"

definition id_char :: "char \<Rightarrow> bool" where
  "id_char c \<longleftrightarrow> is_lower c \<or> is_digit c \<or> c = CHR ''.'' \<or> c = CHR ''-''"

definition senderout_id_ok :: "string option \<Rightarrow> bool" where
  "senderout_id_ok ident =
     (case ident of None \<Rightarrow> False
      | Some n \<Rightarrow> n \<noteq> [] \<and> length n \<le> senderout_id_max \<and> is_lower (n ! 0) \<and> list_all id_char n)"

definition owner_of :: "string \<Rightarrow> string" where
  "owner_of ident = fit lease_owner_max (''ext:'' @ ident)"

section \<open>What the module asks\<close>

datatype port_answer = Port_Stopped | Port_Silent | Port_Said string

record k_world =
  kw_now :: real
  kw_file :: "string \<Rightarrow> json option"
  kw_port :: port_answer
  kw_running :: bool
  kw_state :: "json option option"

text \<open>The controller's own word: nothing, or the HTTP status with the reason.\<close>

definition port_sender :: "port_answer \<Rightarrow> (nat \<times> string) option" where
  "port_sender a =
     (case a of
        Port_Stopped \<Rightarrow> Some (409, ''the GRBL controller is not running'')
      | Port_Silent \<Rightarrow> Some (503, ''the GRBL controller did not answer'')
      | Port_Said r \<Rightarrow>
          if r = ''ok'' then None
          else Some (409,
            if r = ''busy:state''
            then ''the machine is not idle: a program, a jog, a hold, an armed laser, or an alarm''
            else if r = ''busy:sender''
            then ''the Grbl sender is using the machine: wait until it is done''
            else ''the GRBL controller refused ('' @ take 32 r @ '')''))"

text \<open>The claim file: the time written in it and whether it says out.\<close>

definition claim_written :: "(string \<Rightarrow> json option) \<Rightarrow> string \<Rightarrow> real \<times> bool" where
  "claim_written file ident =
     (let j = file ident in
      if j \<noteq> None \<and> string_value (obj_get j ''id'') = Some ident
      then (number_value (obj_get j ''ts_mono''), is_true (obj_get j ''raised''))
      else (0, False))"

definition claim_fresh :: "k_world \<Rightarrow> string \<Rightarrow> bool" where
  "claim_fresh w ident =
     (let (ts, says_out) = claim_written (kw_file w) ident in
      says_out \<and> ts > 0 \<and> kw_now w - ts \<le> senderout_fresh_s)"

section \<open>The state, and where a thread is in its call\<close>

text \<open>After \<open>let_in\<close> a call returns, or the keeper's pass goes on to the refusal.\<close>

datatype after_let = Return | Pass_On string bool

datatype pc =
    K_Idle
  | K_Done nat string
  | K_Take string
  | K_Port string
  | K_Drop string nat string
  | K_Set string
  | K_Let string after_let
  | K_Rel string after_let
  | K_Look string string real bool
  | K_End string string bool
  | K_Refusal string string bool
  | K_Clear string string bool
  | K_Ask string bool
  | K_Push string

text \<open>\<open>k_told\<close> is what the controller acknowledged, in order.\<close>

record keepout =
  k_holder :: string
  k_since :: real
  k_claimed_at :: real
  k_released :: string
  k_notice :: string
  k_pushed_at :: real
  k_lease :: lease
  k_told :: "string list"
  k_threads :: "nat \<Rightarrow> pc"

definition keepout_boot :: keepout where
  "keepout_boot = \<lparr>k_holder = [], k_since = 0, k_claimed_at = 0, k_released = [], k_notice = [], k_pushed_at = 0,
     k_lease = [], k_told = [], k_threads = (\<lambda>_. K_Idle)\<rparr>"

definition hold_id :: "string \<Rightarrow> string" where
  "hold_id ident = fit (senderout_id_max + 1) ident"

definition port_told :: "string \<Rightarrow> k_world \<Rightarrow> keepout \<Rightarrow> keepout" where
  "port_told arg w s = (if port_sender (kw_port w) = None then s\<lparr>k_told := k_told s @ [arg]\<rparr> else s)"

section \<open>The calls\<close>

datatype k_call = Claim "string option" | End_Claim "string option" | Let_Back | Notice_Clear | Tick

definition not_an_id :: string where "not_an_id = ''that is not a package id''"

definition claim_begin :: "string option \<Rightarrow> k_world \<Rightarrow> keepout \<Rightarrow> keepout \<times> pc" where
  "claim_begin ident w s =
     (if \<not> senderout_id_ok ident then (s, K_Done 400 not_an_id)
      else let i = the ident in
        if k_holder s \<noteq> [] \<and> k_holder s \<noteq> i
        then (s, K_Done 409 (''another extension ('' @ k_holder s @ '') keeps the Grbl sender out''))
        else if k_holder s = i then (s\<lparr>k_claimed_at := kw_now w\<rparr>, K_Done 0 [])
        else if k_released s = i
        then (s, K_Done 409 ''the operator let the Grbl sender back in: end this use of the machine first'')
        else (s, K_Take i))"

definition end_begin :: "string option \<Rightarrow> keepout \<Rightarrow> keepout \<times> pc" where
  "end_begin ident s =
     (if \<not> senderout_id_ok ident then (s, K_Done 400 not_an_id)
      else let i = the ident; s1 = (if k_released s = i then s\<lparr>k_released := []\<rparr> else s) in
        if k_holder s1 = i then (s1\<lparr>k_holder := []\<rparr>, K_Let i Return) else (s1, K_Done 0 []))"

definition release_begin :: "keepout \<Rightarrow> keepout \<times> pc" where
  "release_begin s =
     (let i = k_holder s in
      if i \<noteq> [] then (s\<lparr>k_released := i, k_holder := []\<rparr>, K_Let i Return) else (s, K_Done 0 []))"

definition tick_begin :: "k_world \<Rightarrow> keepout \<Rightarrow> keepout \<times> pc" where
  "tick_begin w s =
     (let due = kw_now w - k_pushed_at s \<ge> senderout_repush_s in
      (if due then s\<lparr>k_pushed_at := kw_now w\<rparr> else s, K_Look (k_holder s) (k_released s) (k_claimed_at s) due))"

fun k_begin :: "k_call \<Rightarrow> k_world \<Rightarrow> keepout \<Rightarrow> keepout \<times> pc" where
  "k_begin (Claim ident) w s = claim_begin ident w s"
| "k_begin (End_Claim ident) w s = end_begin ident s"
| "k_begin Let_Back w s = release_begin s"
| "k_begin Notice_Clear w s = (s\<lparr>k_notice := []\<rparr>, K_Done 0 [])"
| "k_begin Tick w s = tick_begin w s"

definition go_on :: "after_let \<Rightarrow> pc" where
  "go_on a = (case a of Return \<Rightarrow> K_Done 0 [] | Pass_On rel due \<Rightarrow> K_Refusal [] rel due)"

text \<open>The steps of a call that has begun.\<close>

fun k_run :: "pc \<Rightarrow> k_world \<Rightarrow> keepout \<Rightarrow> keepout \<times> pc" where
  "k_run (K_Take i) w s =
     (case lease_take (Some (owner_of i)) Extension None False (kw_now w) (k_lease s) of
        Inl why \<Rightarrow> (s, K_Done 409 why)
      | Inr l \<Rightarrow> (s\<lparr>k_lease := l\<rparr>, K_Port i))"
| "k_run (K_Port i) w s =
     (port_told ''out'' w s,
      case port_sender (kw_port w) of Some (rc, why) \<Rightarrow> K_Drop i rc why | None \<Rightarrow> K_Set i)"
| "k_run (K_Drop i rc why) w s = (s\<lparr>k_lease := lease_release (Some (owner_of i)) (k_lease s)\<rparr>, K_Done rc why)"
| "k_run (K_Set i) w s =
     (s\<lparr>k_holder := hold_id i, k_since := kw_now w, k_claimed_at := kw_now w, k_pushed_at := kw_now w, k_notice := []\<rparr>,
      K_Done 0 [])"
| "k_run (K_Let i a) w s = (port_told ''in'' w s, K_Rel i a)"
| "k_run (K_Rel i a) w s = (s\<lparr>k_lease := lease_release (Some (owner_of i)) (k_lease s)\<rparr>, go_on a)"
| "k_run (K_Look i rel claimed due) w s =
     (s, if i \<noteq> [] \<and> kw_now w - claimed > senderout_grace_s \<and> \<not> claim_fresh w i then K_End i rel due
         else K_Refusal i rel due)"
| "k_run (K_End i rel due) w s =
     (if k_holder s = i then (s\<lparr>k_holder := [], k_notice := hold_id i\<rparr>, K_Let i (Pass_On rel due))
      else (s, K_Refusal [] rel due))"
| "k_run (K_Refusal i rel due) w s =
     (s, if rel \<noteq> [] \<and> \<not> claim_fresh w rel then K_Clear i rel due else K_Ask i due)"
| "k_run (K_Clear i rel due) w s = (if k_released s = rel then s\<lparr>k_released := []\<rparr> else s, K_Ask i due)"
| "k_run (K_Ask i due) w s =
     (s, if \<not> due \<or> \<not> kw_running w then K_Done 0 []
         else case kw_state w of None \<Rightarrow> K_Done 0 []
         | Some st \<Rightarrow>
             let kept_out = is_true (obj_get st ''sender_out'') in
             if i \<noteq> [] \<and> \<not> kept_out then K_Push ''out''
             else if i = [] \<and> kept_out then K_Push ''in'' else K_Done 0 [])"
| "k_run (K_Push arg) w s = (port_told arg w s, K_Done 0 [])"
| "k_run K_Idle w s = (s, K_Idle)"
| "k_run (K_Done rc why) w s = (s, K_Done rc why)"

definition resting :: "pc \<Rightarrow> bool" where
  "resting p = (case p of K_Idle \<Rightarrow> True | K_Done _ _ \<Rightarrow> True | _ \<Rightarrow> False)"

datatype k_act = Call nat k_call k_world | Run nat k_world | Other lease_op

definition at_pc :: "nat \<Rightarrow> keepout \<times> pc \<Rightarrow> keepout" where
  "at_pc t r = (fst r)\<lparr>k_threads := (k_threads (fst r))(t := snd r)\<rparr>"

fun k_step :: "k_act \<Rightarrow> keepout \<Rightarrow> keepout" where
  "k_step (Call t c w) s = (if resting (k_threads s t) then at_pc t (k_begin c w s) else s)"
| "k_step (Run t w) s = at_pc t (k_run (k_threads s t) w s)"
| "k_step (Other lop) s = s\<lparr>k_lease := lease_step lop (k_lease s)\<rparr>"

section \<open>The start of the daemon, and what is read\<close>

definition entry_id :: "string \<Rightarrow> string option" where
  "entry_id name =
     (let n = length name in
      if n < 6 \<or> n - 5 > senderout_id_max \<or> drop (n - 5) name \<noteq> ''.json'' then None
      else Some (take (n - 5) name))"

fun take_up :: "string list \<Rightarrow> k_world \<Rightarrow> keepout \<Rightarrow> keepout" where
  "take_up [] w s = s"
| "take_up (name # names) w s =
     (case entry_id name of None \<Rightarrow> take_up names w s
      | Some i \<Rightarrow>
          if \<not> senderout_id_ok (Some i) \<or> \<not> claim_fresh w i then take_up names w s
          else case lease_take (Some (owner_of i)) Extension None False (kw_now w) (k_lease s) of
            Inl _ \<Rightarrow> take_up names w s
          | Inr l \<Rightarrow> s\<lparr>k_lease := l, k_holder := hold_id i, k_since := kw_now w, k_claimed_at := kw_now w,
                      k_pushed_at := 0\<rparr>)"

text \<open>The directory's entries in the order it is read; a missing directory has none.\<close>

definition senderout_init :: "string list \<Rightarrow> k_world \<Rightarrow> keepout \<Rightarrow> keepout" where
  "senderout_init names w s = take_up names w s"

definition senderout_json :: "nat \<Rightarrow> bool \<Rightarrow> real \<Rightarrow> keepout \<Rightarrow> string option" where
  "senderout_json len with_key now s =
     (let h = (if k_holder s \<noteq> []
               then fit 160 (''{'' @ q ''id'' @ '':'' @ q (k_holder s) @ '','' @ q ''for_s'' @ '':'' @
                             fmt_f0 (now - k_since s) @ ''}'')
               else ''null'');
          n = (if k_notice s \<noteq> []
               then fit 160 (''{'' @ q ''id'' @ '':'' @ q (k_notice s) @ '','' @ q ''why'' @ '':'' @ q ''stopped'' @ ''}'')
               else ''null'');
          t = (if with_key then q ''sender_out'' @ '':'' else []) @ ''{'' @ q ''holder'' @ '':'' @ h @ '','' @
              q ''notice'' @ '':'' @ n @ ''}'' in
      if length t < len then Some t else None)"

definition senderout_pkg_json :: "nat \<Rightarrow> string option \<Rightarrow> keepout \<Rightarrow> string option" where
  "senderout_pkg_json len ident s =
     (let kept = (ident \<noteq> None \<and> k_holder s \<noteq> [] \<and> k_holder s = the ident);
          rel = (ident \<noteq> None \<and> k_released s \<noteq> [] \<and> k_released s = the ident);
          t = ''{'' @ q ''out'' @ '':'' @ json_bool kept @ '','' @ q ''released'' @ '':'' @ json_bool rel @ ''}'' in
      if length t < len then Some t else None)"

definition senderout_holder :: "nat \<Rightarrow> keepout \<Rightarrow> string \<times> bool" where
  "senderout_holder len s = (fit len (k_holder s), k_holder s \<noteq> [])"

end
