(* ===== verification/SenderoutProps.thy ===== *)
theory SenderoutProps
  imports Senderout
begin

text \<open>
  What the keeper of the Grbl sender guarantees however its calls interleave: whoever keeps the
  sender out has the machine, and gives it up once; and the two windows in which it does not do
  what it promises.
\<close>

section \<open>Who owes the machine its release\<close>

text \<open>A thread that has taken the machine for a claim and not published it, or that has ended a claim
  and not yet given the machine back.\<close>

fun owes :: "pc \<Rightarrow> string option" where
  "owes (K_Port i) = Some i"
| "owes (K_Drop i _ _) = Some i"
| "owes (K_Set i) = Some i"
| "owes (K_Let i _) = Some i"
| "owes (K_Rel i _) = Some i"
| "owes _ = None"

text \<open>The token of the machine: the published claim (\<open>None\<close>) or a thread has it.\<close>

definition tok :: "keepout \<Rightarrow> nat option \<Rightarrow> string option" where
  "tok s a = (case a of None \<Rightarrow> (if k_holder s = [] then None else Some (k_holder s)) | Some t \<Rightarrow> owes (k_threads s t))"

definition tokens_ok :: "lease \<Rightarrow> (nat option \<Rightarrow> string option) \<Rightarrow> bool" where
  "tokens_ok l tk \<longleftrightarrow> (\<forall>a i. tk a = Some i \<longrightarrow> outermost (owner_of i) l) \<and>
     (\<forall>a b. tk a \<noteq> None \<longrightarrow> tk b \<noteq> None \<longrightarrow> a = b)"

definition id_ok :: "string \<Rightarrow> bool" where
  "id_ok i = senderout_id_ok (Some i)"

fun pc_ok :: "pc \<Rightarrow> bool" where
  "pc_ok (K_Take i) = id_ok i"
| "pc_ok (K_Port i) = id_ok i"
| "pc_ok (K_Set i) = id_ok i"
| "pc_ok (K_End i _ _) = id_ok i"
| "pc_ok (K_Look i _ _ _) = (i = [] \<or> id_ok i)"
| "pc_ok _ = True"

definition keepout_inv :: "keepout \<Rightarrow> bool" where
  "keepout_inv s \<longleftrightarrow> tokens_ok (k_lease s) (tok s) \<and> (\<forall>t. pc_ok (k_threads s t)) \<and>
     (k_holder s = [] \<or> id_ok (k_holder s))"

text \<open>The other parts of the daemon release only holds of their own: no name of theirs is an
  extension's.\<close>

definition not_ext :: "k_act \<Rightarrow> bool" where
  "not_ext a = (case a of Other (Release (Some n)) \<Rightarrow> \<not> starts_with ''ext:'' n | _ \<Rightarrow> True)"

lemma hold_id_ok: "id_ok i \<Longrightarrow> hold_id i = i"
  by (simp add: id_ok_def senderout_id_ok_def hold_id_def senderout_id_max_def fit_def)

lemma id_ok_nonempty: "id_ok i \<Longrightarrow> i \<noteq> []"
  by (simp add: id_ok_def senderout_id_ok_def)

lemma id_ok_None [simp]: "\<not> senderout_id_ok None"
  by (simp add: senderout_id_ok_def)

lemma owner_of_ext: "starts_with ''ext:'' (owner_of i)"
  by (simp add: owner_of_def fit_def lease_owner_max_def starts_with_def)

lemma owner_of_ok: "id_ok i \<Longrightarrow> owner_of i = ''ext:'' @ i"
  by (simp add: id_ok_def owner_of_def fit_def lease_owner_max_def senderout_id_ok_def senderout_id_max_def)

lemma other_keeps:
  assumes "outermost (owner_of i) l" "not_ext (Other lop)"
  shows "outermost (owner_of i) (lease_step lop l)"
proof -
  have "lop \<noteq> Release (Some (owner_of i))" using assms(2) owner_of_ext by (auto simp: not_ext_def)
  then show ?thesis using lease_step_outermost assms(1) by blast
qed

lemma not_outermost_Nil [simp]: "\<not> outermost x []"
  by (simp add: outermost_def holders_of_def)

lemma take_outermost:
  "lease_take (Some x) k None c now l = Inr l' \<Longrightarrow> l = [] \<and> outermost x l'"
  by (auto simp: lease_take_Inr outermost_def holders_of_def)

section \<open>Every action keeps it\<close>

lemma tokens_taken: "tokens_ok [] tk \<Longrightarrow> outermost (owner_of i) l \<Longrightarrow> tokens_ok l (tk(a := Some i))"
  by (auto simp: tokens_ok_def)

lemma tokens_cleared: "tokens_ok l tk \<Longrightarrow> tk a = Some i \<Longrightarrow> tokens_ok l' (tk(a := None))"
  unfolding tokens_ok_def by force

lemma tokens_moved: "tokens_ok l tk \<Longrightarrow> tk a = Some i \<Longrightarrow> tokens_ok l (tk(a := None, b := Some i))"
  unfolding tokens_ok_def by force

lemma tokens_grow: "tokens_ok l tk \<Longrightarrow> (\<And>i. outermost (owner_of i) l \<Longrightarrow> outermost (owner_of i) l') \<Longrightarrow> tokens_ok l' tk"
  unfolding tokens_ok_def by blast

lemma tok_pc [simp]: "tok (at_pc t (s, p)) = (tok s)(Some t := owes p)"
  by (auto simp: tok_def at_pc_def fun_eq_iff split: option.splits)

lemma tok_holder: "i \<noteq> [] \<Longrightarrow> k_holder s' = i \<Longrightarrow> k_threads s' = k_threads s \<Longrightarrow> tok s' = (tok s)(None := Some i)"
  "k_holder s' = [] \<Longrightarrow> k_threads s' = k_threads s \<Longrightarrow> tok s' = (tok s)(None := None)"
  by (auto simp: tok_def fun_eq_iff split: option.splits)

lemma tok_same: "k_holder s' = k_holder s \<Longrightarrow> k_threads s' = k_threads s \<Longrightarrow> tok s' = tok s"
  by (auto simp: tok_def fun_eq_iff split: option.splits)

lemma at_pc_simps [simp]:
  "k_lease (at_pc t (s, p)) = k_lease s" "k_holder (at_pc t (s, p)) = k_holder s"
  "k_threads (at_pc t (s, p)) = (k_threads s)(t := p)" "k_released (at_pc t (s, p)) = k_released s"
  "k_notice (at_pc t (s, p)) = k_notice s" "k_told (at_pc t (s, p)) = k_told s"
  by (simp_all add: at_pc_def)

lemma inv_tokens: "keepout_inv s \<Longrightarrow> tokens_ok (k_lease s) (tok s)"
  and inv_pcs: "keepout_inv s \<Longrightarrow> pc_ok (k_threads s t)"
  and inv_holder: "keepout_inv s \<Longrightarrow> k_holder s = [] \<or> id_ok (k_holder s)"
  by (simp_all add: keepout_inv_def)

lemma inv_at:
  assumes "keepout_inv s" "tokens_ok (k_lease s') ((tok s')(Some t := owes p))" "k_threads s' = k_threads s"
    "pc_ok p" "k_holder s' = [] \<or> id_ok (k_holder s')"
  shows "keepout_inv (at_pc t (s', p))"
  using assms by (auto simp: keepout_inv_def)

text \<open>A step that leaves the claim and the lease alone, and what the thread owes.\<close>

lemma inv_quiet:
  assumes "keepout_inv s" "k_holder s' = k_holder s" "k_lease s' = k_lease s" "k_threads s' = k_threads s"
    "owes p = owes (k_threads s t)" "pc_ok p"
  shows "keepout_inv (at_pc t (s', p))"
proof (rule inv_at [OF assms(1) _ assms(4,6)])
  have "tok s' = tok s" using assms(2,4) by (rule tok_same)
  moreover have "(tok s)(Some t := owes p) = tok s" using assms(5) by (auto simp: tok_def)
  ultimately show "tokens_ok (k_lease s') ((tok s')(Some t := owes p))"
    using assms(3) inv_tokens [OF assms(1)] by simp
qed (use assms(2) inv_holder [OF assms(1)] in simp)

text \<open>The claim ended: its token is the thread's.\<close>

lemma inv_ended:
  assumes "keepout_inv s" "k_holder s = i" "i \<noteq> []" "k_holder s' = []" "k_lease s' = k_lease s"
    "k_threads s' = k_threads s"
  shows "keepout_inv (at_pc t (s', K_Let i a))"
proof (rule inv_at [OF assms(1) _ assms(6)])
  have "tok s' = (tok s)(None := None)" using assms(4,6) by (rule tok_holder(2))
  moreover have "tok s None = Some i" using assms(2,3) by (simp add: tok_def)
  ultimately show "tokens_ok (k_lease s') ((tok s')(Some t := owes (K_Let i a)))"
    using tokens_moved [OF inv_tokens [OF assms(1)], of None i "Some t"] assms(5) by simp
qed (use assms(4) in simp_all)

text \<open>The thread gave the machine back, or tried to.\<close>

lemma inv_given_back:
  assumes "keepout_inv s" "owes (k_threads s t) = Some i" "k_holder s' = k_holder s" "k_threads s' = k_threads s"
    "owes p = None" "pc_ok p"
  shows "keepout_inv (at_pc t (s', p))"
proof (rule inv_at [OF assms(1) _ assms(4,6)])
  have "tok s' = tok s" using assms(3,4) by (rule tok_same)
  moreover have "tok s (Some t) = Some i" using assms(2) by (simp add: tok_def)
  ultimately show "tokens_ok (k_lease s') ((tok s')(Some t := owes p))"
    using tokens_cleared [OF inv_tokens [OF assms(1)]] assms(5) by simp
qed (use assms(3) inv_holder [OF assms(1)] in simp)

lemma call_inv:
  assumes "keepout_inv s" "resting (k_threads s t)"
  shows "keepout_inv (at_pc t (k_begin c w s))"
proof -
  have r: "owes (k_threads s t) = None" using assms(2) by (cases "k_threads s t") (auto simp: resting_def)
  note quiet = inv_quiet [OF assms(1), where t = t, unfolded r]
  show ?thesis
  proof (cases c)
    case (Claim ident)
    then show ?thesis by (cases ident) (auto simp: claim_begin_def id_ok_def Let_def intro!: quiet)
  next
    case (End_Claim ident)
    show ?thesis
    proof (cases "senderout_id_ok ident \<and> k_holder s = the ident")
      case True
      then have "the ident \<noteq> []" using id_ok_nonempty by (cases ident) (auto simp: senderout_id_ok_def)
      then show ?thesis using True End_Claim
        by (auto simp: end_begin_def Let_def intro!: inv_ended [OF assms(1)])
    next
      case False
      then show ?thesis using End_Claim by (auto simp: end_begin_def Let_def intro!: quiet)
    qed
  next
    case Let_Back
    then show ?thesis by (auto simp: release_begin_def Let_def intro!: quiet inv_ended [OF assms(1)])
  next
    case Tick
    have "pc_ok (K_Look (k_holder s) (k_released s) (k_claimed_at s) d)" for d
      using inv_holder [OF assms(1)] by auto
    then show ?thesis using Tick by (auto simp: tick_begin_def Let_def intro!: quiet)
  qed (auto intro!: quiet)
qed

lemma port_told_frame [simp]:
  "k_holder (port_told a w s) = k_holder s" "k_lease (port_told a w s) = k_lease s"
  "k_threads (port_told a w s) = k_threads s" "k_released (port_told a w s) = k_released s"
  "k_notice (port_told a w s) = k_notice s"
  by (simp_all add: port_told_def)

lemma k_run_inv:
  assumes "keepout_inv s"
  shows "keepout_inv (at_pc t (k_run (k_threads s t) w s))"
proof (cases "k_threads s t")
  case (K_Take i)
  have i: "id_ok i" using inv_pcs [OF assms, of t] K_Take by simp
  show ?thesis
  proof (cases "lease_take (Some (owner_of i)) Extension None False (kw_now w) (k_lease s)")
    case (Inl why)
    then show ?thesis using K_Take by (auto intro!: inv_quiet [OF assms])
  next
    case (Inr l)
    note l = take_outermost [OF Inr]
    have "keepout_inv (at_pc t (s\<lparr>k_lease := l\<rparr>, K_Port i))"
    proof (rule inv_at [OF assms])
      have "tok (s\<lparr>k_lease := l\<rparr>) = tok s" by (rule tok_same) auto
      then show "tokens_ok (k_lease (s\<lparr>k_lease := l\<rparr>)) ((tok (s\<lparr>k_lease := l\<rparr>))(Some t := owes (K_Port i)))"
        using tokens_taken [of "tok s" i l "Some t"] inv_tokens [OF assms] l by simp
    qed (use i inv_holder [OF assms] in auto)
    then show ?thesis using K_Take Inr by simp
  qed
next
  case (K_Port i)
  then show ?thesis using inv_pcs [OF assms, of t]
    by (auto intro!: inv_quiet [OF assms] split: option.splits)
next
  case (K_Set i)
  have i: "id_ok i" using inv_pcs [OF assms, of t] K_Set by simp
  define s' where "s' = s\<lparr>k_holder := hold_id i, k_since := kw_now w, k_claimed_at := kw_now w,
    k_pushed_at := kw_now w, k_notice := []\<rparr>"
  have "keepout_inv (at_pc t (s', K_Done 0 []))"
  proof (rule inv_at [OF assms])
    have "tok s' = (tok s)(None := Some i)"
      using hold_id_ok [OF i] id_ok_nonempty [OF i] by (intro tok_holder(1)) (auto simp: s'_def)
    then have "(tok s')(Some t := owes (K_Done 0 [])) = (tok s)(Some t := None, None := Some i)" by auto
    moreover have "tok s (Some t) = Some i" using K_Set by (simp add: tok_def)
    ultimately show "tokens_ok (k_lease s') ((tok s')(Some t := owes (K_Done 0 [])))"
      using tokens_moved [OF inv_tokens [OF assms], of "Some t" i None] by (simp add: s'_def)
  qed (use i hold_id_ok [OF i] in \<open>auto simp: s'_def\<close>)
  then show ?thesis using K_Set by (simp add: s'_def)
next
  case (K_Drop i rc why)
  then show ?thesis by (auto intro!: inv_given_back [OF assms])
next
  case (K_Let i a)
  then show ?thesis by (auto intro!: inv_quiet [OF assms])
next
  case (K_Rel i a)
  then show ?thesis by (auto simp: go_on_def split: after_let.splits intro!: inv_given_back [OF assms])
next
  case (K_End i rel due)
  then have "i \<noteq> []" using inv_pcs [OF assms, of t] id_ok_nonempty by auto
  then show ?thesis using K_End by (auto intro!: inv_quiet [OF assms] inv_ended [OF assms])
next
  case (K_Look i rel claimed due)
  then show ?thesis using inv_pcs [OF assms, of t] by (auto intro!: inv_quiet [OF assms])
next
  case (K_Ask i due)
  then show ?thesis by (auto intro!: inv_quiet [OF assms] simp: Let_def split: option.splits)
qed (auto intro!: inv_quiet [OF assms])

lemma k_step_inv [preserve]:
  assumes "keepout_inv s" "not_ext a"
  shows "keepout_inv (k_step a s)"
proof (cases a)
  case (Other lop)
  have "tok (s\<lparr>k_lease := l\<rparr>) = tok s" for l by (rule tok_same) auto
  then have "tokens_ok (lease_step lop (k_lease s)) (tok (s\<lparr>k_lease := lease_step lop (k_lease s)\<rparr>))"
    using tokens_grow [OF inv_tokens [OF assms(1)]] other_keeps assms(2) Other by metis
  then show ?thesis using Other assms(1) by (simp add: keepout_inv_def)
qed (use assms call_inv k_run_inv in auto)

interpretation keeper_latch: latch k_step keepout_inv not_ext
  by unfold_locales (rule k_step_inv)

lemma boot_inv: "keepout_inv keepout_boot"
  by (auto simp: keepout_inv_def keepout_boot_def tokens_ok_def tok_def split: option.splits)

lemma inv_claim:
  assumes "keepout_inv s" "k_holder s \<noteq> []"
  shows "outermost (owner_of (k_holder s)) (k_lease s)" "owes (k_threads s t) = None"
proof -
  have h: "tok s None = Some (k_holder s)" using assms(2) by (simp add: tok_def)
  then show "outermost (owner_of (k_holder s)) (k_lease s)"
    using inv_tokens [OF assms(1)] unfolding tokens_ok_def by blast
  have "tok s (Some t) = None" using inv_tokens [OF assms(1)] h unfolding tokens_ok_def by blast
  then show "owes (k_threads s t) = None" by (simp add: tok_def)
qed

lemma inv_owes:
  assumes "keepout_inv s" "owes (k_threads s t) = Some i"
  shows "outermost (owner_of i) (k_lease s)" "k_holder s = []" "owes (k_threads s u) \<noteq> None \<Longrightarrow> u = t"
proof -
  have h: "tok s (Some t) = Some i" using assms(2) by (simp add: tok_def)
  then show "outermost (owner_of i) (k_lease s)"
    using inv_tokens [OF assms(1)] unfolding tokens_ok_def by blast
  show "k_holder s = []" using inv_claim(2) [OF assms(1)] assms(2) by force
  assume "owes (k_threads s u) \<noteq> None"
  then have "tok s (Some u) \<noteq> None" by (simp add: tok_def)
  then show "u = t" using inv_tokens [OF assms(1)] h unfolding tokens_ok_def by blast
qed

end
