(* ===== verification/SenderoutRuns.thy ===== *)
theory SenderoutRuns
  imports SenderoutProps
begin

text \<open>
  The properties of the keeper of the Grbl sender, and the runs that show what it does not keep.
\<close>

section \<open>What holds in every run\<close>

lemma take_up_inv: "keepout_inv s \<Longrightarrow> k_holder s = [] \<Longrightarrow> (\<forall>t. owes (k_threads s t) = None) \<Longrightarrow> keepout_inv (take_up names w s)"
proof (induction names w s rule: take_up.induct)
  case (2 name names w s)
  show ?case
  proof (cases "entry_id name")
    case (Some i)
    show ?thesis
    proof (cases "\<not> senderout_id_ok (Some i) \<or> \<not> claim_fresh w i")
      case False
      then have i: "id_ok i" by (simp add: id_ok_def)
      show ?thesis
      proof (cases "lease_take (Some (owner_of i)) Extension None False (kw_now w) (k_lease s)")
        case (Inr l)
        define s' where "s' = s\<lparr>k_lease := l, k_holder := hold_id i, k_since := kw_now w, k_claimed_at := kw_now w, k_pushed_at := 0\<rparr>"
        have "tok s' = (tok s)(None := Some i)"
          using hold_id_ok [OF i] id_ok_nonempty [OF i] by (intro tok_holder(1)) (auto simp: s'_def)
        then have "tokens_ok (k_lease s') (tok s')"
          using tokens_taken [of "tok s" i l None] inv_tokens [OF 2(4)] take_outermost [OF Inr] by (simp add: s'_def)
        then have "keepout_inv s'" using 2(4) i hold_id_ok [OF i] by (auto simp: keepout_inv_def s'_def)
        then show ?thesis using Some False Inr by (simp add: s'_def)
      qed (use 2 Some False in simp)
    qed (use 2 Some in simp)
  qed (use 2 in simp)
qed simp

lemma init_inv: "keepout_inv (senderout_init names w keepout_boot)"
  unfolding senderout_init_def by (rule take_up_inv [OF boot_inv]) (simp_all add: keepout_boot_def)

text \<open>C20. Whoever keeps the sender out has the machine: after any interleaving of calls, keeper passes and
  whatever else is done with the lease, the published claim's owner is the machine's outermost
  holder; a thread that still owes the machine its release has it too, and then no claim is
  published and no other thread owes one. Nobody else's release is ever made in a package's name.\<close>

theorem keepout_holds_machine:
  assumes "\<And>a. a \<in> set acts \<Longrightarrow> not_ext a"
  shows "let s = fold k_step acts (senderout_init names w keepout_boot) in
    (k_holder s \<noteq> [] \<longrightarrow> outermost (owner_of (k_holder s)) (k_lease s)) \<and>
    (\<forall>t i. owes (k_threads s t) = Some i \<longrightarrow> outermost (owner_of i) (k_lease s) \<and> k_holder s = []) \<and>
    (\<forall>t u. owes (k_threads s t) \<noteq> None \<longrightarrow> owes (k_threads s u) \<noteq> None \<longrightarrow> t = u)"
proof -
  let ?s = "fold k_step acts (senderout_init names w keepout_boot)"
  have "keepout_inv ?s" by (rule keeper_latch.run_latched [OF init_inv assms])
  from inv_claim(1) [OF this] inv_owes [OF this] show ?thesis unfolding Let_def by blast
qed

definition said_ok :: "real \<Rightarrow> k_world" where
  "said_ok now = \<lparr>kw_now = now, kw_file = (\<lambda>_. None), kw_port = Port_Said ''ok'', kw_running = True,
     kw_state = Some (Some (JObj [(''sender_out'', JBool True)]))\<rparr>"

definition claim_run :: "nat \<Rightarrow> string \<Rightarrow> k_act list" where
  "claim_run t i = [Call t (Claim (Some i)) (said_ok 10), Run t (said_ok 10), Run t (said_ok 10), Run t (said_ok 10)]"

definition align_out :: keepout where
  "align_out = fold k_step (claim_run 0 ''align'') (senderout_init [] (said_ok 1) keepout_boot)"

lemma align_out_parts:
  "k_holder align_out = ''align''" "List.map s_owner (k_lease align_out) = [''ext:align'']"
  "k_threads align_out 0 = K_Done 0 []" "k_threads align_out 7 = K_Idle" "k_claimed_at align_out = 10"
  "k_released align_out = []"
  by code_simp+

lemma align_out_inv: "keepout_inv align_out"
  unfolding align_out_def
  by (rule keeper_latch.run_latched [OF init_inv]) (auto simp: claim_run_def not_ext_def)

theorem keepout_holds_machine_witness: "outermost ''ext:align'' (k_lease align_out)"
proof -
  have "\<And>a. a \<in> set (claim_run 0 ''align'') \<Longrightarrow> not_ext a" by (auto simp: claim_run_def not_ext_def)
  from keepout_holds_machine [of "claim_run 0 ''align''" "[]" "said_ok 1", OF this] show ?thesis
    unfolding Let_def align_out_def [symmetric] align_out_parts by (simp add: owner_of_def fit_def lease_owner_max_def)
qed

section \<open>A claim\<close>

lemma owner_usable_ext:
  assumes "id_ok i"
  shows "owner_usable (Some (owner_of i))"
proof -
  have "id_char c \<Longrightarrow> c \<noteq> dquote \<and> c \<noteq> backslash \<and> c \<noteq> newline" for c
    by (auto simp: id_char_def is_lower_def is_digit_def byte_def)
  then show ?thesis using assms
    by (auto simp: owner_of_ok owner_usable_def id_ok_def senderout_id_ok_def senderout_id_max_def lease_owner_max_def
        list_all_iff)
qed

text \<open>A claim made while nobody keeps the sender out succeeds exactly when the operator has not let the
  sender back in on this package, nobody has the machine, and the controller says ok; then the
  package is published with the machine its own. Refused, it leaves the holders as they were.\<close>

theorem claim_alone:
  assumes "id_ok x" "k_holder s = []" "resting (k_threads s t)"
  shows "let s' = fold k_step [Call t (Claim (Some x)) w, Run t w, Run t w, Run t w] s; p = k_threads s' t in
    (p = K_Done 0 [] \<longleftrightarrow> k_released s \<noteq> x \<and> k_lease s = [] \<and> kw_port w = Port_Said ''ok'') \<and>
    (if p = K_Done 0 [] then k_holder s' = x \<and> holders_of (k_lease s') = [owner_of x]
     else k_holder s' = [] \<and> k_lease s' = k_lease s \<and> (\<exists>why. p = K_Done 409 why \<or> p = K_Done 503 why))"
proof -
  have x: "senderout_id_ok (Some x)" "x \<noteq> []" "hold_id x = x"
    using assms(1) id_ok_nonempty hold_id_ok by (auto simp: id_ok_def)
  show ?thesis
  proof (cases "k_released s = x \<or> k_lease s \<noteq> []")
    case True
    then have "k_released s \<noteq> x \<Longrightarrow> \<exists>why. lease_take (Some (owner_of x)) Extension None False (kw_now w) (k_lease s) = Inl why"
      by (cases "lease_take (Some (owner_of x)) Extension None False (kw_now w) (k_lease s)") (auto simp: lease_take_Inr)
    then show ?thesis using True assms(2,3) x by (auto simp: claim_begin_def Let_def)
  next
    case False
    have t: "lease_take (Some (owner_of x)) Extension None False (kw_now w) [] =
        Inr [\<lparr>s_owner = owner_of x, s_kind = Extension, s_since = kw_now w\<rparr>]"
      using owner_usable_ext [OF assms(1)] by (simp add: lease_take_Inr)
    have c: "k_step (Call t (Claim (Some x)) w) s = at_pc t (s, K_Take x)"
      using False assms(2,3) x by (simp add: claim_begin_def Let_def)
    define s2 where "s2 = at_pc t (s, K_Take x)\<lparr>k_lease := [\<lparr>s_owner = owner_of x, s_kind = Extension, s_since = kw_now w\<rparr>]\<rparr>"
    have k: "k_step (Run t w) (at_pc t (s, K_Take x)) = at_pc t (s2, K_Port x)"
      using False t by (simp add: s2_def)
    have f: "fold k_step [Call t (Claim (Some x)) w, Run t w, Run t w, Run t w] s =
        k_step (Run t w) (k_step (Run t w) (at_pc t (s2, K_Port x)))"
      by (simp only: fold_simps c k)
    show ?thesis
    proof (cases "port_sender (kw_port w)")
      case None
      then have "kw_port w = Port_Said ''ok''" by (auto simp: port_sender_def split: port_answer.splits if_splits)
      then show ?thesis using False None x unfolding f by (simp add: holders_of_def Let_def s2_def)
    next
      case (Some e)
      then have "kw_port w \<noteq> Port_Said ''ok''" "fst e = 409 \<or> fst e = 503"
        by (auto simp: port_sender_def split: port_answer.splits if_splits)
      then show ?thesis using False Some assms(2) x unfolding f
        by (cases e) (auto simp: Let_def s2_def lease_release_def)
    qed
  qed
qed

theorem claim_alone_witness:
  "k_holder (fold k_step (claim_run 0 ''align'') keepout_boot) = ''align''"
proof -
  have "id_ok ''align''" by code_simp
  from claim_alone [OF this, of keepout_boot 0 "said_ok 10"] show ?thesis
    by (auto simp: claim_run_def keepout_boot_def resting_def said_ok_def Let_def split: if_splits)
qed

section \<open>A claim its keeper stopped keeping\<close>

text \<open>A claim whose grace has run out and whose file is not fresh ends in one pass of the keeper: nobody
  keeps the sender out any more, the operator is told of whom it was, and the machine is free,
  unless a job of the package still has it.\<close>

theorem stale_claim_ends:
  assumes "keepout_inv s" "k_holder s = x" "x \<noteq> []" "resting (k_threads s t)"
    and "kw_now w - k_claimed_at s > senderout_grace_s" "\<not> claim_fresh w x"
  shows "let s' = fold k_step [Call t Tick w, Run t w, Run t w, Run t w, Run t w] s in
    k_holder s' = [] \<and> k_notice s' = x \<and> (\<forall>u. owes (k_threads s' u) = None) \<and>
    (length (k_lease s) = 1 \<longrightarrow> k_lease s' = [])"
proof -
  have x: "hold_id x = x" using inv_holder [OF assms(1)] assms(2,3) hold_id_ok by auto
  have l: "outermost (owner_of x) (k_lease s)" and u: "owes (k_threads s u) = None" for u
    using inv_claim [OF assms(1)] assms(2,3) by auto
  have "lease_release (Some (owner_of x)) (k_lease s) = []" if "length (k_lease s) = 1"
    using l that by (cases "k_lease s") (auto simp: outermost_def holders_of_def lease_release_def)
  then show ?thesis
    using assms(2-6) x u by (auto simp: tick_begin_def at_pc_def go_on_def Let_def)
qed

definition silence :: "real \<Rightarrow> k_world" where
  "silence now = \<lparr>kw_now = now, kw_file = (\<lambda>_. None), kw_port = Port_Stopped, kw_running = False, kw_state = None\<rparr>"

theorem stale_claim_ends_witness:
  "k_holder (fold k_step [Call 7 Tick (silence 14), Run 7 (silence 14), Run 7 (silence 14), Run 7 (silence 14),
     Run 7 (silence 14)] align_out) = []"
  using stale_claim_ends [OF align_out_inv align_out_parts(1), of 7 "silence 14"]
  by (simp add: align_out_parts resting_def silence_def senderout_grace_s_def claim_fresh_def claim_written_def Let_def)

text \<open>The age of a claim file is looked at on one side only: a time that lies ahead of the clock is
  fresh until two seconds after the clock has reached it. The holds of the extensions, whose rule
  this is said to be, look at both.\<close>

lemma claim_ahead_fresh:
  assumes "claim_written (kw_file w) x = (ts, True)" "0 < ts" "kw_now w \<le> ts"
  shows "claim_fresh w x"
  using assms by (simp add: claim_fresh_def senderout_fresh_s_def)

section \<open>The operator's refusal\<close>

text \<open>While the package's claim file says out, its refusal stands: whatever else happens, short of the
  package ending its use or the operator letting the sender in on somebody else, the package is
  refused.\<close>

fun leaves_refused :: "string \<Rightarrow> k_act \<Rightarrow> bool" where
  "leaves_refused x (Call t c w) = (c \<noteq> End_Claim (Some x) \<and> c \<noteq> Let_Back \<and> claim_fresh w x)"
| "leaves_refused x (Run t w) = claim_fresh w x"
| "leaves_refused x (Other lop) = True"

definition refused :: "string \<Rightarrow> keepout \<Rightarrow> bool" where
  "refused x s \<longleftrightarrow> k_released s = x \<and> (\<forall>t i due. k_threads s t \<noteq> K_Clear i x due)"

lemma refused_at:
  assumes "refused x s" "k_released (fst r) = x" "k_threads (fst r) = k_threads s" "\<And>i due. snd r \<noteq> K_Clear i x due"
  shows "refused x (at_pc t r)"
  using assms by (cases r) (auto simp: refused_def)

lemma refused_step:
  assumes "refused x s" "leaves_refused x a" "x \<noteq> []"
  shows "refused x (k_step a s)"
proof (cases a)
  case (Call t c w)
  have "refused x (at_pc t (k_begin c w s))"
    using assms Call
    by (cases c; intro refused_at)
       (auto simp: refused_def claim_begin_def end_begin_def tick_begin_def Let_def senderout_id_ok_def split: option.splits)
  then show ?thesis using Call assms(1) by simp
next
  case (Run t w)
  have "k_threads s t \<noteq> K_Clear i x due" for i due using assms(1) by (simp add: refused_def)
  then have "refused x (at_pc t (k_run (k_threads s t) w s))"
    using assms Run
    by (cases "k_threads s t"; intro refused_at)
       (auto simp: refused_def go_on_def Let_def split: option.splits sum.splits after_let.splits)
  then show ?thesis using Run by simp
next
  case (Other lop)
  then show ?thesis using assms(1) by (simp add: refused_def)
qed

interpretation refusal_latch: latch k_step "\<lambda>s. x \<noteq> [] \<and> refused x s" "leaves_refused x" for x
  using refused_step by unfold_locales auto

theorem refusal_stands:
  assumes "refused x s" "id_ok x" "\<And>a. a \<in> set acts \<Longrightarrow> leaves_refused x a"
    and "k_holder (fold k_step acts s) \<noteq> x"
  shows "\<exists>why. k_begin (Claim (Some x)) w (fold k_step acts s) = (fold k_step acts s, K_Done 409 why)"
proof -
  have x: "x \<noteq> []" "senderout_id_ok (Some x)" using assms(2) id_ok_nonempty by (auto simp: id_ok_def)
  then have "refused x (fold k_step acts s)"
    using refusal_latch.run_latched [of x s acts] assms(1,3) by blast
  then show ?thesis using x assms(4) by (simp add: claim_begin_def refused_def Let_def)
qed

definition fresh_file :: "real \<Rightarrow> k_world" where
  "fresh_file now = \<lparr>kw_now = now, kw_file = (\<lambda>i. Some (JObj [(''id'', JStr i), (''ts_mono'', JReal now), (''raised'', JBool True)])),
     kw_port = Port_Said ''ok'', kw_running = True, kw_state = None\<rparr>"

fun actor :: "k_act \<Rightarrow> nat option" where
  "actor (Call t _ _) = Some t"
| "actor (Run t _) = Some t"
| "actor (Other _) = None"

lemma begin_threads: "k_threads (fst (k_begin c w s)) = k_threads s"
  by (cases c) (auto simp: claim_begin_def end_begin_def release_begin_def tick_begin_def Let_def)

lemma run_threads: "k_threads (fst (k_run p w s)) = k_threads s"
  by (cases p) (auto split: sum.splits)

lemma untouched: "\<forall>a\<in>set acts. actor a \<noteq> Some t \<Longrightarrow> k_threads (fold k_step acts s) t = k_threads s t"
proof (induction acts arbitrary: s)
  case (Cons a acts)
  then have "k_threads (k_step a s) t = k_threads s t"
    by (cases a) (auto simp: at_pc_def begin_threads run_threads)
  then show ?case using Cons by simp
qed simp

definition let_back_run :: "k_act list" where
  "let_back_run = [Call 1 Let_Back (said_ok 11), Run 1 (said_ok 11), Run 1 (said_ok 11)]"

theorem refusal_stands_witness:
  "\<exists>why. snd (k_begin (Claim (Some ''align'')) (said_ok 13)
     (fold k_step [Call 7 Tick (fresh_file 12), Run 7 (fresh_file 12), Run 7 (fresh_file 12), Run 7 (fresh_file 12)]
        (fold k_step let_back_run align_out))) = K_Done 409 why"
proof -
  let ?s = "fold k_step let_back_run align_out"
  let ?as = "[Call 7 Tick (fresh_file 12), Run 7 (fresh_file 12), Run 7 (fresh_file 12), Run 7 (fresh_file 12)]"
  have "k_released ?s = ''align''" by code_simp
  moreover have "k_threads ?s t \<noteq> K_Clear j ''align'' due" for t j due
  proof (cases "t = 0 \<or> t = 1")
    case True
    have "resting (k_threads ?s 0)" "resting (k_threads ?s 1)" by code_simp+
    then show ?thesis using True by (auto simp: resting_def)
  next
    case False
    then have "k_threads ?s t = K_Idle"
      unfolding align_out_def fold_append [symmetric, THEN fun_cong, unfolded o_apply]
      by (subst untouched) (auto simp: let_back_run_def claim_run_def senderout_init_def keepout_boot_def)
    then show ?thesis by simp
  qed
  ultimately have r: "refused ''align'' ?s" by (simp add: refused_def)
  have i: "id_ok ''align''" by code_simp
  have a: "a \<in> set ?as \<Longrightarrow> leaves_refused ''align'' a" for a
    by (auto simp: claim_fresh_def claim_written_def fresh_file_def senderout_fresh_s_def)
  have h: "k_holder (fold k_step ?as ?s) \<noteq> ''align''" by code_simp
  from refusal_stands [OF r i a h] show ?thesis by (metis snd_conv)
qed

text \<open>But there is room for one refusal only: when the operator lets the sender in on a second package,
  the first is no longer refused, although it never ended its use.\<close>

theorem refusal_forgotten:
  "let s = fold k_step (claim_run 0 ''align'' @ let_back_run @ claim_run 2 ''probe'' @
             [Call 1 Let_Back (said_ok 12), Run 1 (said_ok 12), Run 1 (said_ok 12)] @ claim_run 0 ''align'') keepout_boot in
   k_threads s 0 = K_Done 0 [] \<and> k_holder s = ''align''"
  by code_simp

section \<open>The machine kept for good\<close>

definition unowed :: "string \<Rightarrow> keepout \<Rightarrow> bool" where
  "unowed x s \<longleftrightarrow> outermost (owner_of x) (k_lease s) \<and> (\<forall>a. tok s a = None)"

definition stranded :: "string \<Rightarrow> keepout \<Rightarrow> bool" where
  "stranded x s \<longleftrightarrow> keepout_inv s \<and> unowed x s"

lemma unowed_parts:
  assumes "unowed x s"
  shows "k_holder s = []" "owes (k_threads s t) = None"
proof -
  note assms
  then have "tok s None = None" "tok s (Some t) = None" unfolding unowed_def by blast+
  then show "k_holder s = []" "owes (k_threads s t) = None" by (simp_all add: tok_def split: if_splits)
qed

lemma unowed_at:
  assumes "unowed x s" "k_holder (fst r) = []" "k_lease (fst r) = k_lease s" "k_threads (fst r) = k_threads s" "owes (snd r) = None"
  shows "unowed x (at_pc t r)"
  using assms unowed_parts [OF assms(1)] by (cases r) (auto simp: unowed_def tok_def split: option.splits)

lemma unowed_step:
  assumes "stranded x s" "not_ext a"
  shows "unowed x (k_step a s)"
proof -
  have s: "keepout_inv s" "unowed x s" using assms(1) by (simp_all add: stranded_def)
  note h = unowed_parts [OF s(2)]
  have l: "k_lease s \<noteq> []" using s(2) by (auto simp: unowed_def)
  show ?thesis
  proof (cases a)
    case (Call t c w)
    have "unowed x (at_pc t (k_begin c w s))"
      using h by (cases c; intro unowed_at [OF s(2)])
        (auto simp: claim_begin_def end_begin_def release_begin_def tick_begin_def Let_def senderout_id_ok_def split: option.splits)
    then show ?thesis using Call s(2) by simp
  next
    case (Run t w)
    have "lease_take (Some n) Extension None False now (k_lease s) \<noteq> Inr l'" for n now l'
      using l take_outermost by blast
    then have "unowed x (at_pc t (k_run (k_threads s t) w s))"
      using h(1) h(2) [of t] inv_pcs [OF s(1), of t] id_ok_nonempty
      by (cases "k_threads s t"; intro unowed_at [OF s(2)]) (auto simp: Let_def go_on_def split: option.splits sum.splits)
    then show ?thesis using Run by simp
  next
    case (Other lop)
    have "tok (s\<lparr>k_lease := l'\<rparr>) = tok s" for l' by (rule tok_same) auto
    then show ?thesis using Other s(2) assms(2) other_keeps by (simp add: unowed_def)
  qed
qed

interpretation stranded_latch: latch k_step "stranded x" not_ext for x
  by unfold_locales (simp add: stranded_def unowed_step k_step_inv)

text \<open>C21. The module gives the machine back once, and the lease takes a release of its innermost holder
  only. A claim that ends while the package's own job runs inside it gives back nothing, and
  nothing ever tries again: whatever the other parts of the daemon do, the machine stays with a
  package that no longer keeps the sender out, and no package's claim can succeed.\<close>

theorem keepout_leaks:
  assumes "keepout_inv s" "k_holder s = x" "x \<noteq> []" "length (k_lease s) = 2"
    "s_owner (k_lease s ! 1) \<noteq> owner_of x" "resting (k_threads s t)" "\<And>a. a \<in> set later \<Longrightarrow> not_ext a"
  shows "let s' = fold k_step later (fold k_step [Call t Let_Back w, Run t w, Run t w] s) in
    outermost (owner_of x) (k_lease s') \<and> k_holder s' = []"
proof -
  let ?s1 = "fold k_step [Call t Let_Back w, Run t w, Run t w] s"
  have o: "outermost (owner_of x) (k_lease s)" "\<And>u. owes (k_threads s u) = None"
    using inv_claim [OF assms(1)] assms(2,3) by auto
  have "lease_release (Some (owner_of x)) (k_lease s) = k_lease s"
    using assms(4,5) by (simp add: lease_release_def)
  then have "k_lease ?s1 = k_lease s" "tok ?s1 a = None" for a
    using assms(2,3,6) o(2)
    by (auto simp: release_begin_def at_pc_def go_on_def tok_def Let_def split: option.splits)
  moreover have "keepout_inv ?s1"
    by (rule keeper_latch.run_latched [OF assms(1)]) (auto simp: not_ext_def)
  ultimately have "stranded x ?s1" using o(1) by (simp add: stranded_def unowed_def)
  then have "stranded x (fold k_step later ?s1)" using stranded_latch.run_latched assms(7) by blast
  then show ?thesis using unowed_parts(1) by (auto simp: stranded_def unowed_def Let_def)
qed

definition job_inside :: keepout where
  "job_inside = k_step (Other (Take (Some ''job:align'') Sender (Some ''ext:align'') False 12)) align_out"

theorem keepout_leaks_witness:
  "outermost ''ext:align'' (k_lease (fold k_step (Other (Release (Some ''job:align'')) # claim_run 2 ''align'')
     (fold k_step [Call 7 Let_Back (said_ok 13), Run 7 (said_ok 13), Run 7 (said_ok 13)] job_inside)))"
proof -
  have i: "keepout_inv job_inside"
    unfolding job_inside_def by (rule k_step_inv [OF align_out_inv]) (simp add: not_ext_def)
  have p: "k_holder job_inside = ''align''" "length (k_lease job_inside) = 2" "s_owner (k_lease job_inside ! 1) \<noteq> owner_of ''align''"
    "resting (k_threads job_inside 7)" by code_simp+
  have n: "a \<in> set (Other (Release (Some ''job:align'')) # claim_run 2 ''align'') \<Longrightarrow> not_ext a" for a
    by (auto simp: claim_run_def not_ext_def starts_with_def)
  have o: "owner_of ''align'' = ''ext:align''" by (simp add: owner_of_def fit_def lease_owner_max_def)
  show ?thesis
    using keepout_leaks [where later = "Other (Release (Some ''job:align'')) # claim_run 2 ''align''" and w = "said_ok 13",
        OF i p(1) _ p(2,3,4) n] unfolding Let_def o by blast
qed

section \<open>The keeper's pass and a claim\<close>

text \<open>The keeper looks at the claim when its pass begins and tells the controller at its end. A claim
  granted in between is undone at the controller: the package has its answer that the sender is
  kept out, and the last word the controller had is to let senders in.\<close>

theorem keepout_gap:
  "let s = fold k_step
       ([Call 7 Tick (said_ok 9), Run 7 (said_ok 9), Run 7 (said_ok 9)] @ claim_run 0 ''align'' @
        [Run 7 (said_ok 10), Run 7 (said_ok 10)]) keepout_boot in
   k_holder s = ''align'' \<and> k_threads s 0 = K_Done 0 [] \<and> k_told s = [''out'', ''in'']"
  by code_simp

end
