(* ===== verification/Settings.thy ===== *)
theory Settings
  imports Session
begin

text \<open>
  The machine's settings file (\<open>src/settings.c\<close>): one "key = value" to a line, comments and
  unknown keys kept on a rewrite, an update of several keys one atomic replace. The file is its
  text; a read takes it as it is, so a reader sees the text before or after a replace and nothing
  between. Every writer holds the one mutex over its whole update. What the file system does to
  an update is one answer: the new text is in place, or the old one stays.
\<close>

definition line_max_len :: nat where "line_max_len = 512"
definition file_max_lines :: nat where "file_max_lines = 256"

text \<open>What C reads of a buffer: up to its first NUL.\<close>

definition cstr :: "string \<Rightarrow> string" where
  "cstr s = takeWhile (\<lambda>c. c \<noteq> CHR 0x00) s"

definition rtrim :: "string \<Rightarrow> string" where
  "rtrim s = rev (dropWhile is_cspace (rev s))"

definition ltrim :: "string \<Rightarrow> string" where
  "ltrim s = dropWhile is_cspace s"

definition conf_line :: "string \<Rightarrow> (string \<times> string) option" where
  "conf_line line =
     (let p = ltrim line in
      if p = [] \<or> hd p = CHR ''#'' \<or> CHR ''='' \<notin> set p then None
      else
        let k = rtrim (takeWhile (\<lambda>c. c \<noteq> CHR ''='') p);
            v = rtrim (ltrim (tl (dropWhile (\<lambda>c. c \<noteq> CHR ''='') p))) in
        if k = [] then None else Some (k, v))"

section \<open>Reading\<close>

text \<open>The lines a reader gets: as many as its buffer takes at a time.\<close>

function conf_reads :: "string \<Rightarrow> string list" where
  "conf_reads text = (if text = [] then [] else let r = fgets (line_max_len - 1) text in fst r # conf_reads (snd r))"
  by pat_completeness auto
termination
  by (relation "measure length") (auto simp: line_max_len_def numeral_eq_Suc fgets_shorter simp del: fgets.simps)

declare conf_reads.simps [simp del]

definition last_value :: "string \<Rightarrow> string list \<Rightarrow> string option" where
  "last_value key ls =
     fold (\<lambda>l found. case conf_line (cstr l) of
              Some (k, v) \<Rightarrow> if k = key then Some v else found
            | None \<Rightarrow> found) ls None"

text \<open>\<open>None\<close> is the -1 of an absent file or key.\<close>

definition settings_get :: "nat \<Rightarrow> string \<Rightarrow> string option \<Rightarrow> string option" where
  "settings_get len key file =
     (case file of None \<Rightarrow> None | Some text \<Rightarrow> map_option (fit len) (last_value key (conf_reads text)))"

definition settings_get_bool :: "string \<Rightarrow> bool \<Rightarrow> string option \<Rightarrow> bool" where
  "settings_get_bool key d file =
     (case settings_get 8 key file of
        None \<Rightarrow> d
      | Some v \<Rightarrow> if v = ''1'' then True else if v = ''0'' then False else d)"

section \<open>Writing\<close>

definition set_text :: "string \<times> string \<Rightarrow> string" where
  "set_text kv = fst kv @ '' = '' @ snd kv @ [newline]"

text \<open>The first pair with the key, by its place in the update.\<close>

fun place_of :: "string \<Rightarrow> (string \<times> string) list \<Rightarrow> nat option" where
  "place_of k [] = None"
| "place_of k (kv # kvs) = (if fst kv = k then Some 0 else map_option Suc (place_of k kvs))"

text \<open>One line of the old file: kept, replaced by its key's new value, or dropped.\<close>

definition set_line :: "(string \<times> string) list \<Rightarrow> string \<Rightarrow> nat list \<times> string list \<Rightarrow> nat list \<times> string list" where
  "set_line kvs line st =
     (let (applied, out) = st in
      case conf_line (cstr line) of
        None \<Rightarrow> (applied, out @ [cstr line])
      | Some (k, _) \<Rightarrow>
          (case place_of k kvs of
             None \<Rightarrow> (applied, out @ [cstr line])
           | Some m \<Rightarrow>
               if snd (kvs ! m) = [] \<or> m \<in> set applied then (applied, out)
               else (m # applied, out @ [fit line_max_len (set_text (kvs ! m))])))"

function set_loop :: "(string \<times> string) list \<Rightarrow> nat list \<times> string list \<Rightarrow> string \<Rightarrow> (nat list \<times> string list) \<times> string" where
  "set_loop kvs st text =
     (if length (snd st) \<ge> file_max_lines \<or> text = [] then (st, text)
      else let r = fgets (line_max_len - 1) text in set_loop kvs (set_line kvs (fst r) st) (snd r))"
  by pat_completeness auto
termination
  by (relation "measure (\<lambda>(kvs, st, text). length text)")
     (auto simp: line_max_len_def numeral_eq_Suc fgets_shorter simp del: fgets.simps)

declare set_loop.simps [simp del]

definition set_rest :: "(string \<times> string) list \<Rightarrow> nat list \<Rightarrow> string list" where
  "set_rest kvs applied =
     List.map set_text (List.map fst (filter (\<lambda>(kv, m). m \<notin> set applied \<and> snd kv \<noteq> []) (zip kvs [0..<length kvs])))"

text \<open>The file after the update and whether it is reported done; \<open>io\<close> says whether the new file could
  be written and put in place.\<close>

definition settings_set_many :: "(string \<times> string) list \<Rightarrow> bool \<Rightarrow> string option \<Rightarrow> bool \<times> string option" where
  "settings_set_many kvs io file =
     (if kvs = [] then (True, file)
      else case file of
        None \<Rightarrow>
          if list_all (\<lambda>kv. snd kv = []) kvs then (True, None)
          else if \<not> io then (False, None) else (True, Some (concat (set_rest kvs [])))
      | Some text \<Rightarrow>
          let ((applied, out), rest) = set_loop kvs ([], []) text in
          if length out = file_max_lines \<and> rest \<noteq> [] then (False, file)
          else if \<not> io then (False, file)
          else (True, Some (concat out @ concat (set_rest kvs applied))))"

definition settings_set :: "string \<Rightarrow> string \<Rightarrow> bool \<Rightarrow> string option \<Rightarrow> bool \<times> string option" where
  "settings_set key val io file = settings_set_many [(key, val)] io file"

section \<open>The data directory\<close>

text \<open>The permission bits of the directory the file is in: \<open>None\<close> when there is none; the answer and the
  mode a \<open>chmod\<close> is asked for.\<close>

definition search_bits :: "32 word" where "search_bits = 9"

definition settings_dir_searchable :: "32 word option \<Rightarrow> bool \<Rightarrow> int \<times> 32 word option" where
  "settings_dir_searchable mode chmod_ok =
     (case mode of None \<Rightarrow> (-1, None)
      | Some m \<Rightarrow>
          if m AND search_bits = search_bits then (0, None)
          else (if chmod_ok then 0 else -1, Some ((m AND 0xFFF) OR search_bits)))"

end
