(* ===== verification/Users.thy ===== *)
theory Users
  imports Settings
begin

text \<open>
  The operator's account (\<open>src/users.c\<close>): one record, "name:hash:uid" in a file, and a mark beside it
  that asks for the account to be made again. \<open>crypt_r\<close> of the C library is the parameter
  \<open>crypt password setting\<close>, \<open>None\<close> when it fails; what \<open>/dev/urandom\<close> gives, and whether the
  record could be written and put in place, are inputs.
\<close>

definition users_name_max :: nat where "users_name_max = 32"
definition users_password_min :: nat where "users_password_min = 8"
definition users_password_max :: nat where "users_password_max = 128"
definition users_uid :: int where "users_uid = 1000"
definition hash_room :: nat where "hash_room = 128"

record users =
  u_name :: string
  u_hash :: string
  u_uid :: int
  u_have :: bool
  u_reset :: bool

record users_disk =
  d_record :: "string option"
  d_mark :: bool

definition no_users :: users where
  "no_users = \<lparr>u_name = [], u_hash = [], u_uid = 0, u_have = False, u_reset = False\<rparr>"

text \<open>The three fields of the record's line, up to the first two colons.\<close>

definition split_colon :: "string \<Rightarrow> (string \<times> string) option" where
  "split_colon s =
     (if CHR '':'' \<in> set s then Some (takeWhile (\<lambda>c. c \<noteq> CHR '':'') s, tl (dropWhile (\<lambda>c. c \<noteq> CHR '':'') s)) else None)"

definition load_record :: "string \<Rightarrow> users \<Rightarrow> users" where
  "load_record text u =
     (if text = [] then u
      else
        let line = takeWhile (\<lambda>c. c \<noteq> cret \<and> c \<noteq> newline) (cstr (fst (fgets 255 text))) in
        case split_colon line of None \<Rightarrow> u
        | Some (nam, r) \<Rightarrow>
            (case split_colon r of None \<Rightarrow> u
             | Some (h, uid) \<Rightarrow>
                 if length nam \<le> users_name_max \<and> length h < hash_room \<and> h \<noteq> [] \<and> hd h = CHR ''$''
                 then u\<lparr>u_name := nam, u_hash := h, u_uid := atol uid, u_have := True\<rparr> else u))"

definition load_locked :: "users_disk \<Rightarrow> users \<Rightarrow> users" where
  "load_locked d u0 =
     (let u = u0\<lparr>u_have := False, u_name := [], u_hash := []\<rparr> in
      case d_record d of None \<Rightarrow> u | Some text \<Rightarrow> (load_record text u)\<lparr>u_reset := d_mark d\<rparr>)"

definition users_init :: "users_disk \<Rightarrow> users \<Rightarrow> users" where
  "users_init d u = load_locked d u"

definition users_exist :: "users \<Rightarrow> bool" where
  "users_exist u \<longleftrightarrow> u_have u \<and> \<not> u_reset u"

definition users_name :: "nat \<Rightarrow> users \<Rightarrow> bool \<times> string" where
  "users_name len u = (u_have u, fit len (if u_have u then u_name u else []))"

section \<open>What a name and a password may be\<close>

text \<open>\<open>Some\<close> is the refusal in words.\<close>

definition name_char :: "char \<Rightarrow> bool" where
  "name_char c \<longleftrightarrow> is_lower c \<or> is_digit c \<or> c = CHR ''-'' \<or> c = CHR ''_''"

definition users_check_name :: "string option \<Rightarrow> string option" where
  "users_check_name nam =
     (let s = (case nam of None \<Rightarrow> [] | Some t \<Rightarrow> t) in
      if length s < 2 \<or> length s > users_name_max then Some ''the name must be 2 to 32 characters''
      else if \<not> is_lower (s ! 0) then Some ''the name must start with a lowercase letter''
      else if \<not> list_all name_char s
      then Some (''the name can hold lowercase letters, digits, '' @ [CHR 0x27] @ ''-'' @ [CHR 0x27] @ '' and '' @
                 [CHR 0x27] @ ''_'' @ [CHR 0x27])
      else if s = ''root'' then Some ''root is the system account''
      else None)"

definition users_check_password :: "string option \<Rightarrow> string option \<Rightarrow> string option" where
  "users_check_password nam password =
     (let p = (case password of None \<Rightarrow> [] | Some t \<Rightarrow> t) in
      if length p < users_password_min then Some ''the password must be at least 8 characters''
      else if length p > users_password_max then Some ''the password must be at most 128 characters''
      else if nam = Some p then Some ''the password must not be the name''
      else if \<not> list_all (\<lambda>c. byte c \<ge> 0x20 \<and> c \<noteq> CHR '':'') p
      then Some (''the password cannot hold control characters or '' @ [CHR 0x27] @ '':'' @ [CHR 0x27])
      else None)"

section \<open>The account\<close>

definition salt_alphabet :: string where
  "salt_alphabet = ''./0123456789ABCDEFGHIJKLMNOPQRSTUVWXYZabcdefghijklmnopqrstuvwxyz''"

text \<open>\<open>raw\<close> is what \<open>/dev/urandom\<close> gave of the sixteen bytes asked for.\<close>

definition make_salt :: "8 word list \<Rightarrow> nat \<Rightarrow> string option" where
  "make_salt raw len =
     (if length raw \<noteq> 16 \<or> len < 20 then None
      else Some (''$6$'' @ List.map (\<lambda>b. salt_alphabet ! unat (b AND 63)) raw))"

definition record_line :: "users \<Rightarrow> string" where
  "record_line u = u_name u @ '':'' @ u_hash u @ '':'' @ show_int (u_uid u) @ [newline]"

definition save_locked :: "bool \<Rightarrow> users \<Rightarrow> users_disk \<Rightarrow> bool \<times> users_disk" where
  "save_locked io u d =
     (if length (record_line u) < 256 \<and> io then (True, d\<lparr>d_record := Some (record_line u)\<rparr>) else (False, d))"

definition users_create ::
  "(string \<Rightarrow> string \<Rightarrow> string option) \<Rightarrow> string option \<Rightarrow> string option \<Rightarrow> 8 word list \<Rightarrow> bool \<Rightarrow>
   users \<times> users_disk \<Rightarrow> string option \<times> users \<times> users_disk" where
  "users_create crypt nam password raw io st =
     (let (u, d) = st in
      case users_check_name nam of Some why \<Rightarrow> (Some why, u, d)
      | None \<Rightarrow>
      case users_check_password nam password of Some why \<Rightarrow> (Some why, u, d)
      | None \<Rightarrow>
      case make_salt raw 32 of None \<Rightarrow> (Some ''no entropy available for the password hash'', u, d)
      | Some salt \<Rightarrow>
      case crypt (the password) salt of None \<Rightarrow> (Some ''the password hash failed'', u, d)
      | Some h \<Rightarrow>
          if h = [] \<or> hd h \<noteq> CHR ''$'' \<or> length h \<ge> hash_room then (Some ''the password hash failed'', u, d)
          else
            let u1 = u\<lparr>u_name := fit (users_name_max + 1) (the nam), u_hash := fit hash_room h, u_uid := users_uid, u_have := True\<rparr>;
                (ok, d1) = save_locked io u1 d in
            if ok then (None, u1\<lparr>u_reset := False\<rparr>, d1\<lparr>d_mark := False\<rparr>)
            else (Some ''cannot write the account record'', u1, d1))"

definition same_bytes :: "string \<Rightarrow> string \<Rightarrow> bool" where
  "same_bytes a b \<longleftrightarrow> length a = length b \<and> ct_equal (str_bytes a) (str_bytes b) (length b)"

definition users_verify ::
  "(string \<Rightarrow> string \<Rightarrow> string option) \<Rightarrow> string option \<Rightarrow> string option \<Rightarrow> users \<Rightarrow> bool" where
  "users_verify crypt nam password u =
     (case (nam, password) of
        (Some n, Some p) \<Rightarrow> users_exist u \<and> (case crypt p (u_hash u) of None \<Rightarrow> False | Some h \<Rightarrow> same_bytes h (u_hash u)) \<and>
          same_bytes n (u_name u)
      | _ \<Rightarrow> False)"

definition users_mark_reset :: "bool \<Rightarrow> users \<times> users_disk \<Rightarrow> bool \<times> users \<times> users_disk" where
  "users_mark_reset io st =
     (let (u, d) = st in if \<not> io then (False, u, d) else (True, u\<lparr>u_reset := True\<rparr>, d\<lparr>d_mark := True\<rparr>))"

definition users_reset_pending :: "users \<Rightarrow> bool" where
  "users_reset_pending u = u_reset u"

section \<open>Properties\<close>

lemma same_bytes_eq: "same_bytes a b \<longleftrightarrow> a = b"
  using ct_equal_eq [of "str_bytes a" "length b" "str_bytes b"] str_bytes_inject [of a b]
  by (auto simp: same_bytes_def str_bytes_def)

lemma name_ok: "users_check_name (Some n) = None \<Longrightarrow> list_all name_char n \<and> 2 \<le> length n \<and> length n \<le> users_name_max"
  by (auto simp: users_check_name_def Let_def split: if_splits)

lemma split_colon_field: "CHR '':'' \<notin> set a \<Longrightarrow> split_colon (a @ '':'' @ r) = Some (a, r)"
  by (auto simp: split_colon_def takeWhile_append dropWhile_append)

lemma name_char_not: "name_char c \<Longrightarrow> c \<noteq> CHR '':'' \<and> c \<noteq> newline \<and> c \<noteq> cret \<and> c \<noteq> CHR 0x00"
  by (auto simp: name_char_def is_lower_def is_digit_def byte_def)

definition hash_text :: "string \<Rightarrow> bool" where
  "hash_text h \<longleftrightarrow> list_all (\<lambda>c. c \<noteq> CHR '':'' \<and> c \<noteq> newline \<and> c \<noteq> cret \<and> c \<noteq> CHR 0x00) h"

text \<open>What the manual of \<open>crypt\<close> says of it: a hash is text without colons or line ends, and is a
  setting that gives the same hash again.\<close>

definition crypt_law :: "(string \<Rightarrow> string \<Rightarrow> string option) \<Rightarrow> string \<Rightarrow> bool" where
  "crypt_law crypt p \<longleftrightarrow> (\<forall>s h. crypt p s = Some h \<longrightarrow> hash_text h \<and> crypt p h = Some h)"

lemma load_saved:
  assumes "list_all name_char (u_name u)" "length (u_name u) \<le> users_name_max" "hash_text (u_hash u)"
    "u_hash u \<noteq> []" "hd (u_hash u) = CHR ''$''" "length (u_hash u) < hash_room" "u_uid u = users_uid"
  shows "load_record (record_line u) v = v\<lparr>u_name := u_name u, u_hash := u_hash u, u_uid := users_uid, u_have := True\<rparr>"
proof -
  let ?l = "u_name u @ '':'' @ u_hash u @ '':1000''"
  have uid: "show_int users_uid = ''1000''" by code_simp
  then have line: "record_line u = ?l @ newline # []" using assms(7) by (simp add: record_line_def)
  have cs: "\<forall>c\<in>set ?l. c \<noteq> newline \<and> c \<noteq> cret \<and> c \<noteq> CHR 0x00"
  proof -
    have "\<forall>c\<in>set (u_name u). c \<noteq> newline \<and> c \<noteq> cret \<and> c \<noteq> CHR 0x00"
      using assms(1) name_char_not unfolding list_all_iff by blast
    moreover have "\<forall>c\<in>set (u_hash u). c \<noteq> newline \<and> c \<noteq> cret \<and> c \<noteq> CHR 0x00"
      using assms(3) unfolding hash_text_def list_all_iff by blast
    ultimately show ?thesis by (simp add: ball_Un)
  qed
  have "length ?l < 255" using assms(2,6) by (simp add: users_name_max_def hash_room_def)
  then have f: "fst (fgets 255 (record_line u)) = ?l @ [newline]"
  proof -
    have "newline \<notin> set ?l" using cs by blast
    from fgets_line [OF this \<open>length ?l < 255\<close>, of "[]"] show ?thesis by (simp only: line fst_conv)
  qed
  have "cstr (?l @ [newline]) = ?l @ [newline]" using cs by (auto simp: cstr_def simp del: append.simps)
  then have tw: "takeWhile (\<lambda>c. c \<noteq> cret \<and> c \<noteq> newline) (cstr (fst (fgets 255 (record_line u)))) = ?l"
    using cs unfolding f by (auto simp: takeWhile_append simp del: append.simps)
  have c1: "CHR '':'' \<notin> set (u_name u)" using assms(1) name_char_not unfolding list_all_iff by blast
  have c2: "CHR '':'' \<notin> set (u_hash u)" using assms(3) unfolding hash_text_def list_all_iff by blast
  have s1: "split_colon ?l = Some (u_name u, u_hash u @ '':1000'')"
    using split_colon_field [OF c1, of "u_hash u @ '':1000''"] by simp
  have s2: "split_colon (u_hash u @ '':1000'') = Some (u_hash u, ''1000'')"
    using split_colon_field [OF c2, of "''1000''"] by simp
  have a: "atol ''1000'' = users_uid"
    using strtol10_show_int [of users_uid "[]" "[]"] uid by (simp add: atol_def users_uid_def)
  have ne: "record_line u \<noteq> []" by (simp add: line)
  show ?thesis unfolding load_record_def tw Let_def s1 option.case prod.case s2 a by (simp add: assms(2,4,5,6) ne)
qed

text \<open>C25. An account that was created is the one the daemon finds when it starts again, whatever it held
  before: the same name and hash, present, with no reset pending. It lets in whoever gives the
  password to a \<open>crypt\<close> that keeps its word, and then only.\<close>

theorem account_roundtrip:
  assumes "users_create crypt (Some n) (Some p) raw io (u, d) = (None, u', d')"
    and "crypt_law crypt p"
  shows "users_init d' no_users = u' \<and> users_exist u' \<and> u_name u' = n \<and> users_verify crypt (Some n) (Some p) u' \<and>
    (\<forall>n' p'. users_verify crypt (Some n') (Some p') u' \<longleftrightarrow> n' = n \<and> crypt p' (u_hash u') = Some (u_hash u'))"
proof -
  obtain salt h where c: "users_check_name (Some n) = None" "crypt p salt = Some h" "h \<noteq> []" "hd h = CHR ''$''" "length h < hash_room"
    "io" "length (record_line (u\<lparr>u_name := fit (users_name_max + 1) n, u_hash := fit hash_room h, u_uid := users_uid, u_have := True\<rparr>)) < 256"
    and u': "u' = u\<lparr>u_name := fit (users_name_max + 1) n, u_hash := fit hash_room h, u_uid := users_uid, u_have := True, u_reset := False\<rparr>"
    and d': "d' = d\<lparr>d_record := Some (record_line u'), d_mark := False\<rparr>"
    using assms(1) by (auto simp: users_create_def save_locked_def record_line_def Let_def split: option.splits if_splits prod.splits)
  note n = name_ok [OF c(1)]
  have h: "hash_text h" "crypt p h = Some h" using assms(2) c(2) by (auto simp: crypt_law_def)
  have f: "fit (Suc users_name_max) n = n" "fit hash_room h = h" using n c(5) by (auto intro: fit_id)
  have l: "load_record (record_line u') v = v\<lparr>u_name := n, u_hash := h, u_uid := users_uid, u_have := True\<rparr>" for v
    using load_saved [of u' v] n c h by (simp add: u' f)
  have "users_init d' no_users = u'"
    unfolding users_init_def load_locked_def d' by (simp add: l) (simp add: u' f no_users_def)
  then show ?thesis using h by (auto simp: u' f users_exist_def users_verify_def same_bytes_eq split: option.splits)
qed

definition toy_crypt :: "string \<Rightarrow> string \<Rightarrow> string option" where
  "toy_crypt p s = Some (CHR ''$'' # take 100 (filter (\<lambda>c. hash_text [c]) p))"

theorem account_roundtrip_witness:
  "users_verify toy_crypt (Some ''wiede'') (Some ''correct horse'')
     (users_init (snd (snd (users_create toy_crypt (Some ''wiede'') (Some ''correct horse'') (replicate 16 7) True (no_users, \<lparr>d_record = None, d_mark = True\<rparr>)))) no_users)"
proof -
  let ?d = "\<lparr>d_record = None, d_mark = True\<rparr>"
  let ?r = "users_create toy_crypt (Some ''wiede'') (Some ''correct horse'') (replicate 16 7) True (no_users, ?d)"
  have "fst ?r = None" by code_simp
  then have r: "?r = (None, fst (snd ?r), snd (snd ?r))" by (metis prod.collapse)
  have "crypt_law toy_crypt ''correct horse''"
    by (auto simp: crypt_law_def toy_crypt_def hash_text_def)
  from account_roundtrip [OF r this] show ?thesis by metis
qed

text \<open>An account whose record could not be written is refused, and stands all the same: from then on the
  panel asks for a login with it, until the daemon starts again and finds no account.\<close>

theorem failed_create_activates:
  "let (why, u, d) = users_create toy_crypt (Some ''wiede'') (Some ''correct horse'') (replicate 16 7) False
     (no_users, \<lparr>d_record = None, d_mark = False\<rparr>) in
   why = Some ''cannot write the account record'' \<and> users_exist u \<and>
   users_verify toy_crypt (Some ''wiede'') (Some ''correct horse'') u \<and> \<not> users_exist (users_init d no_users)"
  by code_simp

end
