(* ===== verification/Auth.thy ===== *)
theory Auth
  imports Users Tokens
begin

text \<open>
  Who may use the daemon over HTTP (\<open>src/auth.c\<close>, \<open>src/camkey.c\<close>, \<open>src/peer.c\<close>): the origin checks,
  the panel token, the session or what stands in for one, the scoped tokens and the extension
  host's credential, the camera key. A request is what the HTTP library hands over: its headers
  (looked up without case), its URL parameters, its peer's address. The session table and the
  token store are those of \<open>Session\<close> and \<open>Tokens\<close>; a check may refresh them.
\<close>

definition token_hex :: nat where "token_hex = 32"

section \<open>The peer\<close>

datatype peer = No_Peer | Inet "8 word list" | Inet6 "8 word list" | Other_Family

definition peer_is_loopback :: "peer \<Rightarrow> bool" where
  "peer_is_loopback p =
     (case p of
        No_Peer \<Rightarrow> False
      | Inet a \<Rightarrow> a ! 0 = 127
      | Inet6 a \<Rightarrow> a = replicate 15 0 @ [1] \<or> (take 12 a = replicate 10 0 @ [0xff, 0xff] \<and> a ! 12 = 127)
      | Other_Family \<Rightarrow> False)"

section \<open>A secret in a file\<close>

text \<open>The panel token and the camera key are made and kept the same way: thirty-two hexadecimal digits.\<close>

definition hex_of :: "8 word list \<Rightarrow> string option" where
  "hex_of raw = (if length raw = token_hex div 2 then Some (sha256_hex raw) else None)"

definition secret_line :: "string option \<Rightarrow> string" where
  "secret_line file =
     (case file of None \<Rightarrow> []
      | Some text \<Rightarrow>
          let buf = cstr (fst (fgets 35 text)); n = strspn is_lowhex buf in
          if n = token_hex \<and> (length buf = n \<or> buf ! n = newline) then take token_hex buf else [])"

text \<open>The panel token after the start, and its file.\<close>

definition auth_init :: "8 word list \<Rightarrow> bool \<Rightarrow> string option \<Rightarrow> string \<times> string option" where
  "auth_init raw io file =
     (let t = secret_line file in
      if t \<noteq> [] then (t, file)
      else case hex_of raw of
        None \<Rightarrow> ([], file)
      | Some h \<Rightarrow> (h, if io then Some (h @ [newline]) else file))"

definition make_key_locked :: "8 word list \<Rightarrow> bool \<Rightarrow> string option \<Rightarrow> bool \<times> string \<times> string option" where
  "make_key_locked raw io file =
     (case hex_of raw of
        None \<Rightarrow> (False, [], file)
      | Some h \<Rightarrow> if io then (True, h, Some (h @ [newline])) else (False, [], file))"

definition camkey_init :: "8 word list \<Rightarrow> bool \<Rightarrow> string option \<Rightarrow> string \<times> string option" where
  "camkey_init raw io file =
     (let k = secret_line file in if k \<noteq> [] then (k, file) else snd (make_key_locked raw io file))"

definition camkey_rotate :: "8 word list \<Rightarrow> bool \<Rightarrow> string option \<Rightarrow> bool \<times> string \<times> string option" where
  "camkey_rotate raw io file = make_key_locked raw io file"

definition camkey_valid :: "string \<Rightarrow> string option \<Rightarrow> bool" where
  "camkey_valid key presented =
     (case presented of None \<Rightarrow> False
      | Some p \<Rightarrow> key \<noteq> [] \<and> length p = token_hex \<and> ct_equal (str_bytes p) (str_bytes key) token_hex)"

text \<open>\<open>token_eq\<close>: the bytes' differences or-ed together, then the length, then the end.\<close>

definition cbyte :: "string \<Rightarrow> nat \<Rightarrow> 32 word" where
  "cbyte s i = (if i < length s then of_nat (byte (s ! i)) else 0)"

definition token_eq :: "string \<Rightarrow> string option \<Rightarrow> bool" where
  "token_eq token presented =
     (case presented of None \<Rightarrow> False
      | Some a \<Rightarrow>
          token \<noteq> [] \<and>
          (let i = min token_hex (length a);
               diff = fold (\<lambda>j d. d OR (cbyte a j XOR cbyte token j)) [0..<i] 0
           in (diff OR (of_nat i XOR of_nat token_hex)) OR cbyte a i = 0))"

section \<open>The request, and what the checks read\<close>

record request =
  rq_header :: "string \<Rightarrow> string option"
  rq_url :: "string \<Rightarrow> string option"
  rq_peer :: peer

record door =
  panel_token :: string
  camera_key :: string
  account :: users
  sessions :: sess_state
  toks :: tok_state
  conf :: "string option"
  dev_image :: bool
  own_name :: "string option"

record moment =
  m_now :: int
  m_tick :: real
  m_sess_io :: save_io
  m_tok_io :: bool

section \<open>Where a request comes from\<close>

definition lower :: "string \<Rightarrow> string" where
  "lower s = List.map (\<lambda>c. if is_upper c then char_of (byte c + 32) else c) s"

definition drop_dot :: "string \<Rightarrow> string" where
  "drop_dot s = (if length s > 1 \<and> last s = CHR ''.'' then butlast s else s)"

definition host_is_literal :: "string option \<Rightarrow> string option \<Rightarrow> bool" where
  "host_is_literal self host =
     (case host of None \<Rightarrow> False
      | Some h \<Rightarrow>
          if h = [] then False
          else if hd h = CHR ''['' then True
          else
            let hb = take 127 (takeWhile (\<lambda>c. c \<noteq> CHR '':'') h) in
            if hb = [] then False
            else
              let n = lower (drop_dot hb) in
              n = ''localhost'' \<or> (case self of None \<Rightarrow> False | Some s \<Rightarrow> s \<noteq> [] \<and> n = lower s) \<or>
              list_all (\<lambda>c. is_digit c \<or> c = CHR ''.'') n)"

text \<open>What follows the first "://".\<close>

fun after_scheme :: "string \<Rightarrow> string option" where
  "after_scheme [] = None"
| "after_scheme (c # s) = (if starts_with ''://'' (c # s) then Some (drop 2 s) else after_scheme s)"

definition origin_authority :: "nat \<Rightarrow> string \<Rightarrow> string" where
  "origin_authority len origin =
     (case after_scheme origin of None \<Rightarrow> [] | Some p \<Rightarrow> take (len - 1) (takeWhile (\<lambda>c. c \<noteq> CHR ''/'') p))"

definition origin_ok :: "door \<Rightarrow> request \<Rightarrow> bool" where
  "origin_ok d r \<longleftrightarrow>
     host_is_literal (own_name d) (rq_header r ''Host'') \<and>
     (case rq_header r ''Sec-Fetch-Site'' of None \<Rightarrow> True | Some s \<Rightarrow> s = ''same-origin'' \<or> s = ''none'') \<and>
     (case rq_header r ''Origin'' of None \<Rightarrow> True
      | Some s \<Rightarrow> s = ''null'' \<or> host_is_literal (own_name d) (Some (origin_authority 128 s)))"

section \<open>Sessions\<close>

definition auth_session_ok :: "moment \<Rightarrow> request \<Rightarrow> door \<Rightarrow> bool \<times> door" where
  "auth_session_ok m r d =
     (case session_from_cookie (rq_header r ''Cookie'') of
        None \<Rightarrow> (False, d)
      | Some i \<Rightarrow>
          (let (ok, ss) = session_valid i (m_now m) (m_sess_io m) (sessions d) in (ok, d\<lparr>sessions := ss\<rparr>)))"

definition auth_peer_local :: "request \<Rightarrow> bool" where
  "auth_peer_local r = peer_is_loopback (rq_peer r)"

section \<open>Scoped tokens\<close>

text \<open>The token a request presents, and whether it came in the URL.\<close>

definition bearer :: "string \<Rightarrow> string option" where
  "bearer v = (if lower (take 7 v) = ''bearer '' then Some (dropWhile (\<lambda>c. c = space) (drop 7 v)) else None)"

definition scoped_presented :: "string option \<Rightarrow> request \<Rightarrow> (string \<times> bool) option" where
  "scoped_presented cap r =
     (let b = (case rq_header r ''Authorization'' of None \<Rightarrow> None | Some v \<Rightarrow> bearer v);
          h = rq_header r ''X-ForgeFIRM-Token'';
          u = rq_url r ''key'' in
      if tokens_looks_scoped b then Some (the b, False)
      else if tokens_looks_scoped h then Some (the h, False)
      else if (case cap of None \<Rightarrow> False | Some c \<Rightarrow> starts_with ''camera'' c) \<and> tokens_looks_scoped u then Some (the u, True)
      else None)"

definition cap_of_route :: "string option \<Rightarrow> request \<Rightarrow> string option" where
  "cap_of_route cap r =
     (if cap = Some ''camera''
      then Some (fit 32 (''camera.'' @ (if rq_url r ''cam'' = Some ''head'' then ''head'' else ''lid'')))
      else cap)"

datatype who = Nobody | By_Host | By_Scoped
datatype scoped = Not_Scoped | Passes who | Refused string

definition scoped_judge :: "moment \<Rightarrow> string option \<Rightarrow> bool \<Rightarrow> request \<Rightarrow> door \<Rightarrow> scoped \<times> door" where
  "scoped_judge m cap0 plain r d =
     (case scoped_presented cap0 r of
        None \<Rightarrow> (Not_Scoped, d)
      | Some (tok, in_url) \<Rightarrow>
          let cap = cap_of_route cap0 r in
          if tokens_host_check (Some tok) cap (toks d)
          then (if \<not> peer_is_loopback (rq_peer r) then (Refused ''that credential is not accepted from here'', d)
                else (Passes By_Host, d))
          else
            let (rc, ident, ts) = tokens_check (Some tok) cap (m_now m) (m_tick m) (m_tok_io m) (toks d);
                d1 = d\<lparr>toks := ts\<rparr> in
            if rc = No_Token then (Refused ''authentication required'', d1)
            else if plain \<and> \<not> auth_peer_local r then (Refused ''a scoped token is accepted over HTTPS only'', d1)
            else if in_url \<and> \<not> tokens_holds_only (Some tok) ''camera.'' ts
            then (Refused ''a token in a URL may hold camera capabilities only'', d1)
            else if rc = Lacks
            then (Refused (case cap of Some c \<Rightarrow> fit 96 (''this token does not hold '' @ c)
                           | None \<Rightarrow> ''no scoped token reaches this route''), d1)
            else (Passes By_Scoped, d1))"

section \<open>The guards\<close>

datatype verdict = Allowed who | Denied nat string

definition writer_ok :: "moment \<Rightarrow> request \<Rightarrow> door \<Rightarrow> bool \<times> door" where
  "writer_ok m r d =
     (let (ok, d1) = auth_session_ok m r d in
      (ok \<or> auth_peer_local r \<or> dev_image d \<or> \<not> users_exist (account d), d1))"

definition auth_origin_ok :: "request \<Rightarrow> door \<Rightarrow> verdict" where
  "auth_origin_ok r d = (if origin_ok d r then Allowed Nobody else Denied 403 ''request origin refused'')"

definition camkey_presented :: "request \<Rightarrow> door \<Rightarrow> bool" where
  "camkey_presented r d =
     camkey_valid (camera_key d)
       (case rq_header r ''X-ForgeFIRM-Camera-Key'' of Some k \<Rightarrow> Some k | None \<Rightarrow> rq_url r ''key'')"

definition auth_read_ok :: "moment \<Rightarrow> string option \<Rightarrow> bool \<Rightarrow> request \<Rightarrow> door \<Rightarrow> verdict \<times> door" where
  "auth_read_ok m cap plain r d =
     (case scoped_judge m cap plain r d of
        (Passes w, d1) \<Rightarrow> (Allowed w, d1)
      | (Refused why, d1) \<Rightarrow> (Denied 403 why, d1)
      | (Not_Scoped, d1) \<Rightarrow>
          if camkey_presented r d1 then (Allowed Nobody, d1)
          else if \<not> origin_ok d1 r then (Denied 403 ''request origin refused'', d1)
          else if settings_get_bool ''panel_open_reads'' True (conf d1) then (Allowed Nobody, d1)
          else
            let (ok, d2) = auth_session_ok m r d1 in
            if ok \<or> auth_peer_local r then (Allowed Nobody, d2) else (Denied 403 ''login required'', d2))"

definition write_token :: "request \<Rightarrow> string option" where
  "write_token r = (case rq_header r ''X-ForgeFIRM-Token'' of Some t \<Rightarrow> Some t | None \<Rightarrow> rq_url r ''token'')"

definition auth_write_permitted :: "moment \<Rightarrow> request \<Rightarrow> door \<Rightarrow> bool \<times> door" where
  "auth_write_permitted m r d =
     (if scoped_presented None r \<noteq> None \<or> \<not> origin_ok d r \<or> \<not> token_eq (panel_token d) (write_token r) then (False, d)
      else writer_ok m r d)"

definition auth_write_permitted_cap :: "moment \<Rightarrow> string option \<Rightarrow> request \<Rightarrow> door \<Rightarrow> bool \<times> door" where
  "auth_write_permitted_cap m cap r d =
     (case scoped_judge m cap False r d of
        (Passes _, d1) \<Rightarrow> (True, d1)
      | (Refused _, d1) \<Rightarrow> (False, d1)
      | (Not_Scoped, d1) \<Rightarrow> auth_write_permitted m r d1)"

definition auth_write_ok :: "moment \<Rightarrow> string option \<Rightarrow> bool \<Rightarrow> request \<Rightarrow> door \<Rightarrow> verdict \<times> door" where
  "auth_write_ok m cap plain r d =
     (case scoped_judge m cap plain r d of
        (Passes w, d1) \<Rightarrow> (Allowed w, d1)
      | (Refused why, d1) \<Rightarrow> (Denied 403 why, d1)
      | (Not_Scoped, d1) \<Rightarrow>
          if \<not> origin_ok d1 r then (Denied 403 ''request origin refused'', d1)
          else if \<not> token_eq (panel_token d1) (write_token r) then (Denied 403 ''authentication required'', d1)
          else
            let (ok, d2) = writer_ok m r d1 in
            if \<not> ok then (Denied 403 ''login required'', d2) else (Allowed Nobody, d2))"

definition auth_loopback_ok :: "request \<Rightarrow> door \<Rightarrow> verdict" where
  "auth_loopback_ok r d =
     (if \<not> origin_ok d r then Denied 403 ''request origin refused''
      else if \<not> peer_is_loopback (rq_peer r) then Denied 403 ''loopback only'' else Allowed Nobody)"

definition auth_local_viewer :: "moment \<Rightarrow> string option \<Rightarrow> request \<Rightarrow> door \<Rightarrow> bool \<times> door" where
  "auth_local_viewer m cap r d =
     (if rq_header r ''X-ForgeFIRM-Client'' = Some ''extension-host'' \<and> auth_peer_local r then (True, d)
      else if scoped_presented cap r \<noteq> None \<or> \<not> origin_ok d r then (False, d)
      else
        let (ok, d1) = auth_session_ok m r d in
        if ok then (True, d1) else (token_eq (panel_token d1) (rq_header r ''X-ForgeFIRM-Token''), d1))"

text \<open>The button at the machine, as the switch device reads: \<open>None\<close> when it cannot be read.\<close>

definition operator_present :: "8 word list option \<Rightarrow> bool" where
  "operator_present sw = (case sw of None \<Rightarrow> False | Some b \<Rightarrow> bit (b ! 0) 2)"

end
