(* ===== verification/AuthProps.thy ===== *)
theory AuthProps
  imports Auth
begin

text \<open>
  What a caller must hold to change the machine's state, that a scoped token is judged by itself
  alone, and what the origin checks keep out.
\<close>

section \<open>The panel token\<close>

lemma or_zero: "(x :: 'a :: len word) OR y = 0 \<longleftrightarrow> x = 0 \<and> y = 0"
  by (auto simp: bit_eq_iff bit_simps)

lemma xor_zero: "(x :: 'a :: len word) XOR y = 0 \<longleftrightarrow> x = y"
  by (auto simp: bit_eq_iff bit_simps)

lemma byte_bound: "byte c < 256"
proof -
  have "byte c mod 256 = byte c" by (simp add: byte_def)
  then show ?thesis by (metis mod_less_divisor zero_less_numeral)
qed

lemma or_fold_words:
  "fold (\<lambda>j d. d OR (f j XOR g j)) is (d :: 32 word) = 0 \<longleftrightarrow> d = 0 \<and> (\<forall>j\<in>set is. f j = g j)"
  by (induction "is" arbitrary: d) (auto simp: or_zero xor_zero)

definition secret :: "string \<Rightarrow> bool" where
  "secret t \<longleftrightarrow> t = [] \<or> (length t = token_hex \<and> list_all is_lowhex t)"

lemma cbyte_eq: "i < length a \<Longrightarrow> i < length b \<Longrightarrow> cbyte a i = cbyte b i \<longleftrightarrow> a ! i = b ! i"
proof -
  assume "i < length a" "i < length b"
  moreover have "(of_nat (byte c) :: 32 word) = of_nat (byte d) \<longleftrightarrow> c = d" for c d
  proof
    assume "(of_nat (byte c) :: 32 word) = of_nat (byte d)"
    then have "unat (of_nat (byte c) :: 32 word) = unat (of_nat (byte d) :: 32 word)" by simp
    moreover have "byte x < 2 ^ 32" for x using byte_bound [of x] by simp
    ultimately show "c = d" by (simp add: unat_of_nat byte_def)
  qed simp
  ultimately show ?thesis by (simp add: cbyte_def)
qed

text \<open>A secret that is not empty is given exactly by itself.\<close>

lemma token_eq_iff:
  assumes "secret token" "CHR 0x00 \<notin> set a"
  shows "token_eq token (Some a) \<longleftrightarrow> token \<noteq> [] \<and> a = token"
proof (cases "token = []")
  case False
  then have t: "length token = 32" using assms(1) by (simp add: secret_def token_hex_def)
  let ?i = "min token_hex (length a)"
  have len: "(of_nat ?i XOR of_nat token_hex :: 32 word) = 0 \<longleftrightarrow> token_hex \<le> length a"
  proof -
    have "(of_nat ?i :: 32 word) = of_nat token_hex \<longleftrightarrow> ?i = token_hex"
    proof
      assume "(of_nat ?i :: 32 word) = of_nat token_hex"
      then have "unat (of_nat ?i :: 32 word) = unat (of_nat token_hex :: 32 word)" by simp
      then show "?i = token_hex" by (simp add: unat_of_nat token_hex_def)
    qed simp
    then show ?thesis unfolding xor_zero by (auto simp: min_def)
  qed
  have nul: "cbyte a ?i = 0 \<longleftrightarrow> \<not> ?i < length a"
  proof -
    have "cbyte a j \<noteq> 0" if "j < length a" for j
    proof -
      have "a ! j \<noteq> CHR 0x00" using assms(2) that nth_mem by force
      have "byte (a ! j) \<noteq> 0"
      proof
        assume "byte (a ! j) = 0"
        then have "a ! j = char_of (0 :: nat)" unfolding byte_def by (metis char_of_char)
        moreover have "char_of (0 :: nat) = CHR 0x00" by (simp add: char_of_def)
        ultimately show False using \<open>a ! j \<noteq> CHR 0x00\<close> by simp
      qed
      moreover have "byte (a ! j) < 2 ^ 32" using byte_bound [of "a ! j"] by simp
      ultimately show ?thesis using that by (simp add: cbyte_def flip: unat_eq_0) (simp add: unat_of_nat)
    qed
    then show ?thesis by (auto simp: cbyte_def)
  qed
  have "token_eq token (Some a) \<longleftrightarrow> (\<forall>j<?i. cbyte a j = cbyte token j) \<and> token_hex \<le> length a \<and> \<not> ?i < length a"
    using False len nul by (simp add: token_eq_def Let_def or_fold_words or_zero atLeast0LessThan lessThan_iff Ball_def)
  also have "\<dots> \<longleftrightarrow> length a = 32 \<and> (\<forall>j<32. a ! j = token ! j)"
    using t cbyte_eq [of _ a token] by (auto simp: token_hex_def)
  also have "\<dots> \<longleftrightarrow> a = token" using t by (auto intro: nth_equalityI)
  finally show ?thesis using False by simp
qed (simp add: token_eq_def)

section \<open>What a write takes\<close>

definition granted :: "door \<Rightarrow> string \<Rightarrow> string \<Rightarrow> bool" where
  "granted d tok cap \<longleftrightarrow> shaped tok \<and> (\<exists>k\<in>set (store (toks d)). thash k = token_hash tok \<and> caps_grant (tcaps k) cap)"

definition logged_in :: "moment \<Rightarrow> door \<Rightarrow> request \<Rightarrow> bool" where
  "logged_in m d r \<longleftrightarrow> (\<exists>i s. session_from_cookie (rq_header r ''Cookie'') = Some i \<and> s \<in> set (slots (sessions d)) \<and>
     used s \<and> sid s = i \<and> m_now m - seen s \<le> session_idle_s)"

definition door_inv :: "door \<Rightarrow> bool" where
  "door_inv d \<longleftrightarrow> secret (panel_token d) \<and> sess_inv (sessions d) \<and> tok_inv (toks d) \<and> distinct (map thash (store (toks d)))"

lemma session_ok_logged_in:
  assumes "door_inv d"
  shows "fst (auth_session_ok m r d) \<Longrightarrow> logged_in m d r"
proof -
  assume ok: "fst (auth_session_ok m r d)"
  then obtain i where i: "session_from_cookie (rq_header r ''Cookie'') = Some i"
    "fst (session_valid i (m_now m) (m_sess_io m) (sessions d))"
    by (auto simp: auth_session_ok_def split: option.splits prod.splits)
  have "sess_inv (sessions d)" using assms by (simp add: door_inv_def)
  then show ?thesis using i session_valid_iff [of "sessions d" i] by (auto simp: logged_in_def)
qed

lemma judge_passes:
  assumes "door_inv d" "scoped_judge m cap plain r d = (Passes w, d1)"
  obtains tok c in_url where "scoped_presented cap r = Some (tok, in_url)" "cap_of_route cap r = Some c"
    "w = By_Host \<and> tokens_host_check (Some tok) (Some c) (toks d) \<and> auth_peer_local r \<or>
     w = By_Scoped \<and> granted d tok c \<and> (plain \<longrightarrow> auth_peer_local r)"
proof -
  obtain tok in_url where p: "scoped_presented cap r = Some (tok, in_url)"
    using assms(2) by (cases "scoped_presented cap r") (auto simp: scoped_judge_def)
  let ?c = "cap_of_route cap r"
  show ?thesis
  proof (cases "tokens_host_check (Some tok) ?c (toks d)")
    case True
    then obtain c where "?c = Some c" by (auto simp: tokens_host_check_def split: option.splits)
    then show ?thesis using that [OF p] assms(2) p True
      by (auto simp: scoped_judge_def Let_def auth_peer_local_def split: if_splits)
  next
    case False
    obtain rc i ts where k: "tokens_check (Some tok) ?c (m_now m) (m_tick m) (m_tok_io m) (toks d) = (rc, i, ts)"
      by (metis prod_cases3)
    have "rc \<noteq> No_Token" "rc \<noteq> Lacks" "w = By_Scoped" "plain \<longrightarrow> auth_peer_local r"
      using assms(2) False by (auto simp: scoped_judge_def p k Let_def split: if_splits)
    then have "rc = Grants" by (cases rc) auto
    then have "shaped tok \<and> (\<exists>k\<in>set (store (toks d)). thash k = token_hash tok \<and> (\<exists>c. ?c = Some c \<and> caps_grant (tcaps k) c))"
      using tokens_check_grants [of "toks d" tok ?c "m_now m" "m_tick m" "m_tok_io m"] assms(1) k
      by (simp add: door_inv_def)
    then obtain c where "?c = Some c" "granted d tok c" by (auto simp: granted_def)
    then show ?thesis using that [OF p] \<open>w = By_Scoped\<close> \<open>plain \<longrightarrow> auth_peer_local r\<close> by auto
  qed
qed

text \<open>C22. Once the machine has its account, nobody on the network changes its state without a credential of
  his own: whatever request a write guard lets in, from off the machine and on an image that is no
  dev image, either presents over HTTPS a scoped token of the store that holds the capability of
  the route, or passes the origin checks with the panel's own token and the cookie of a session
  that was used within the last twelve hours.\<close>

theorem write_needs_credential:
  assumes "door_inv d" "users_exist (account d)" "\<not> dev_image d" "\<not> auth_peer_local r"
    and "\<And>t. write_token r = Some t \<Longrightarrow> CHR 0x00 \<notin> set t"
    and "auth_write_ok m cap plain r d = (Allowed w, d')"
  shows "(w = By_Scoped \<and> \<not> plain \<and>
      (\<exists>tok c in_url. scoped_presented cap r = Some (tok, in_url) \<and> cap_of_route cap r = Some c \<and> granted d tok c)) \<or>
    (w = Nobody \<and> scoped_presented cap r = None \<and> origin_ok d r \<and> write_token r = Some (panel_token d) \<and>
      panel_token d \<noteq> [] \<and> logged_in m d r)"
proof (cases "scoped_judge m cap plain r d")
  case (Pair j d1)
  show ?thesis
  proof (cases j)
    case (Passes v)
    then have "v = w" using assms(6) Pair by (simp add: auth_write_ok_def)
    then show ?thesis using judge_passes [OF assms(1)] Pair Passes assms(4) by metis
  next
    case (Refused why)
    then show ?thesis using assms(6) Pair by (simp add: auth_write_ok_def)
  next
    case Not_Scoped
    then have p: "scoped_presented cap r = None" "d1 = d"
      using Pair by (auto simp: scoped_judge_def Let_def split: option.splits prod.splits if_splits judged.splits)
    have o: "origin_ok d r" "token_eq (panel_token d) (write_token r)" "fst (writer_ok m r d)" "w = Nobody"
      using assms(6) Pair Not_Scoped p by (auto simp: auth_write_ok_def split: if_splits prod.splits)
    then obtain t where t: "write_token r = Some t" by (cases "write_token r") (auto simp: token_eq_def)
    have "panel_token d \<noteq> [] \<and> t = panel_token d"
      using token_eq_iff [of "panel_token d" t] assms(1,5) o t by (simp add: door_inv_def)
    moreover have "logged_in m d r"
      using session_ok_logged_in [OF assms(1)] o(3) assms(2-4) by (auto simp: writer_ok_def split: prod.splits)
    ultimately show ?thesis using p o t by simp
  qed
qed

section \<open>A scoped token is judged by itself alone\<close>

text \<open>C23. Nothing else a request carries, and nothing else the daemon knows, turns a refusal of a scoped token
  into a passage or the other way round: not the cookie, the panel token, the camera key, the
  origin, the account, the sessions or the settings, and a read and a write are judged alike.\<close>

theorem scoped_alone:
  assumes "scoped_presented cap r = Some x" "scoped_presented cap r' = Some x"
    and "rq_peer r = rq_peer r'" "cap_of_route cap r = cap_of_route cap r'" "toks d = toks d'"
  shows "fst (auth_write_ok m cap plain r d) = fst (auth_write_ok m cap plain r' d') \<and>
    fst (auth_read_ok m cap plain r d) = fst (auth_write_ok m cap plain r' d')"
proof -
  obtain j d1 j' d2 where j: "scoped_judge m cap plain r d = (j, d1)" "scoped_judge m cap plain r' d' = (j', d2)"
    by (metis surj_pair)
  obtain tok in_url where x: "x = (tok, in_url)" by fastforce
  obtain rc i ts where k: "tokens_check (Some tok) (cap_of_route cap r') (m_now m) (m_tick m) (m_tok_io m) (toks d') = (rc, i, ts)"
    by (metis prod_cases3)
  have "fst (scoped_judge m cap plain r d) = fst (scoped_judge m cap plain r' d') \<and> fst (scoped_judge m cap plain r d) \<noteq> Not_Scoped"
    unfolding scoped_judge_def assms auth_peer_local_def x option.case prod.case Let_def k by simp
  then have "j' = j \<and> j \<noteq> Not_Scoped" unfolding j fst_conv by blast
  then show ?thesis using j by (cases j) (simp_all add: auth_write_ok_def auth_read_ok_def)
qed

section \<open>The origin checks\<close>

abbreviation address_char :: "char \<Rightarrow> bool" where
  "address_char c \<equiv> is_digit c \<or> c = CHR ''.''"

text \<open>A page of another site cannot reach the daemon through a name it controls: a request whose Host is a
  name of fewer than 128 characters that is not this machine's, or that the browser marks as
  cross-site, is refused by every guard that asks for no credential of its own, and changes
  nothing.\<close>

theorem rebinding_refused:
  assumes "scoped_presented cap r = None" "\<not> camkey_presented r d"
    and "(rq_header r ''Host'' = Some h \<and> length h < 128 \<and> hd h \<noteq> CHR ''['' \<and>
          (let n = lower (drop_dot (takeWhile (\<lambda>c. c \<noteq> CHR '':'') h)) in
           \<not> list_all address_char n \<and> n \<noteq> ''localhost'' \<and> (\<forall>s. own_name d = Some s \<longrightarrow> n \<noteq> lower s))) \<or>
         rq_header r ''Sec-Fetch-Site'' = Some ''cross-site''"
  shows "auth_write_ok m cap plain r d = (Denied 403 ''request origin refused'', d) \<and>
    auth_read_ok m cap plain r d = (Denied 403 ''request origin refused'', d) \<and>
    auth_origin_ok r d = Denied 403 ''request origin refused'' \<and> auth_loopback_ok r d = Denied 403 ''request origin refused''"
proof -
  have j: "scoped_judge m cap plain r d = (Not_Scoped, d)" using assms(1) by (simp add: scoped_judge_def)
  have "\<not> origin_ok d r"
  proof (cases "rq_header r ''Sec-Fetch-Site'' = Some ''cross-site''")
    case True
    then show ?thesis by (simp add: origin_ok_def)
  next
    case False
    then have h: "rq_header r ''Host'' = Some h" "length h < 128" "hd h \<noteq> CHR ''[''" and
      n: "\<not> list_all address_char (lower (drop_dot (takeWhile (\<lambda>c. c \<noteq> CHR '':'') h)))"
      "lower (drop_dot (takeWhile (\<lambda>c. c \<noteq> CHR '':'') h)) \<noteq> ''localhost''"
      "\<And>s. own_name d = Some s \<Longrightarrow> lower (drop_dot (takeWhile (\<lambda>c. c \<noteq> CHR '':'') h)) \<noteq> lower s"
      using assms(3) by (auto simp: Let_def)
    have "length (takeWhile (\<lambda>c. c \<noteq> CHR '':'') h) \<le> 127" using h(2) length_takeWhile_le [of "\<lambda>c. c \<noteq> CHR '':''" h] by simp
    then have "take 127 (takeWhile (\<lambda>c. c \<noteq> CHR '':'') h) = takeWhile (\<lambda>c. c \<noteq> CHR '':'') h" by simp
    then have "\<not> host_is_literal (own_name d) (Some h)"
      using h n by (auto simp: host_is_literal_def Let_def split: option.splits)
    then show ?thesis using h(1) by (simp add: origin_ok_def)
  qed
  then show ?thesis using j assms(2)
    by (simp add: auth_write_ok_def auth_read_ok_def auth_origin_ok_def auth_loopback_ok_def)
qed

text \<open>But the name is cut to its first 127 characters before it is looked at, so a name that is longer and
  begins like an address passes, whatever its domain: two labels of sixty-three digits and a domain
  anybody can register. Its Host is an address literal to the checks, and so is its Origin.\<close>

theorem rebinding_name_accepted:
  "let name = replicate 63 (CHR ''1'') @ ''.'' @ replicate 63 (CHR ''1'') @ ''.'' @ domain in
   host_is_literal self (Some name) \<and>
   host_is_literal self (Some (origin_authority 128 (''http://'' @ name)))"
proof -
  let ?one = "replicate 63 (CHR ''1'')"
  let ?hb = "?one @ ''.'' @ ?one"
  have up: "list_all (\<lambda>c. \<not> is_upper c) ?hb" and dig: "list_all (\<lambda>c. is_digit c \<or> c = CHR ''.'') ?hb"
    by (auto simp: list_all_iff is_upper_def is_digit_def byte_def)
  have len: "length ?hb = 127" by simp
  have last: "last ?hb = CHR ''1''" by (simp add: last_replicate)
  have "drop_dot ?hb = ?hb" using last by (simp add: drop_dot_def)
  then have n: "lower (drop_dot ?hb) = ?hb" using up by (auto simp: lower_def list_all_iff map_idI)
  have colon: "take 127 (takeWhile (\<lambda>c. c \<noteq> CHR '':'') (?hb @ x)) = ?hb" for x
  proof -
    have "takeWhile (\<lambda>c. c \<noteq> CHR '':'') (?hb @ x) = ?hb @ takeWhile (\<lambda>c. c \<noteq> CHR '':'') x"
      by (rule takeWhile_append2) auto
    then show ?thesis using len by simp
  qed
  have slash: "take 127 (takeWhile (\<lambda>c. c \<noteq> CHR ''/'') (?hb @ x)) = ?hb" for x
  proof -
    have "takeWhile (\<lambda>c. c \<noteq> CHR ''/'') (?hb @ x) = ?hb @ takeWhile (\<lambda>c. c \<noteq> CHR ''/'') x"
      by (rule takeWhile_append2) auto
    then show ?thesis using len by simp
  qed
  have hd: "?hb @ x \<noteq> []" "hd (?hb @ x) \<noteq> CHR ''[''" for x by (simp_all add: hd_append hd_replicate)
  have lit: "host_is_literal self (Some (?hb @ x))" for x
    unfolding host_is_literal_def option.case Let_def colon n using hd [of x] dig by simp
  have "after_scheme (''http://'' @ y) = Some y" for y by (simp add: starts_with_def)
  then have "origin_authority 128 (''http://'' @ ?hb @ x) = ?hb" for x
    using slash [of x] by (simp add: origin_authority_def del: append_assoc append_Cons append_Nil)
  then show ?thesis using lit [of "''.'' @ domain"] lit [of "[]"] by simp
qed

section \<open>Requests that show the properties can hold\<close>

definition a_token :: string where
  "a_token = ''fft_'' @ replicate 32 (CHR ''a'')"

definition a_session :: string where
  "a_session = replicate 64 (CHR ''b'')"

definition a_door :: door where
  "a_door = \<lparr>panel_token = replicate 32 (CHR ''c''), camera_key = [],
     account = \<lparr>u_name = ''op'', u_hash = ''$6$'', u_uid = 1000, u_have = True, u_reset = False\<rparr>,
     sessions = \<lparr>slots = \<lparr>sid = a_session, sname = ''op'', created = 0, seen = 0, used = True\<rparr> # replicate 15 no_session,
       store_path = False, sfile = None, saved_at = 0\<rparr>,
     toks = \<lparr>store = [], dirty = False, last_flush = 0, tfile = None, host_tok = [], host_caps = 0\<rparr>, conf = None, dev_image = False, own_name = Some ''forge''\<rparr>"

definition from_panel :: request where
  "from_panel = \<lparr>rq_header = [''Host'' \<mapsto> ''forge'', ''X-ForgeFIRM-Token'' \<mapsto> replicate 32 (CHR ''c''),
     ''Cookie'' \<mapsto> ''ffsid='' @ a_session], rq_url = Map.empty, rq_peer = Inet [192, 168, 1, 7]\<rparr>"

definition from_tool :: request where
  "from_tool = \<lparr>rq_header = [''Host'' \<mapsto> ''evil.example'', ''Authorization'' \<mapsto> ''Bearer '' @ a_token], rq_url = Map.empty,
     rq_peer = Inet [192, 168, 1, 8]\<rparr>"

definition noon :: moment where
  "noon = \<lparr>m_now = 10, m_tick = 10, m_sess_io = Save_Ok, m_tok_io = True\<rparr>"

lemma a_door_inv: "door_inv a_door"
  by (simp add: tok_inv_def door_inv_def a_door_def secret_def token_hex_def sess_inv_def max_sessions_def a_session_def id_well_formed_def
      session_id_hex_def no_session_def list_all_iff char_class_defs)

theorem write_needs_credential_witness: "logged_in noon a_door from_panel"
proof -
  have w: "auth_write_ok noon None False from_panel a_door = (Allowed Nobody, snd (auth_write_ok noon None False from_panel a_door))"
    by code_simp
  have n: "write_token from_panel = Some t \<Longrightarrow> CHR 0x00 \<notin> set t" for t
    by (auto simp: write_token_def from_panel_def)
  have l: "users_exist (account a_door)" "\<not> dev_image a_door" "\<not> auth_peer_local from_panel" by code_simp+
  from write_needs_credential [OF a_door_inv l n w] show ?thesis by auto
qed

theorem scoped_alone_witness:
  "fst (auth_write_ok noon (Some ''events'') False (from_tool\<lparr>rq_header := (rq_header from_panel)(''Authorization'' \<mapsto> ''Bearer '' @ a_token)\<rparr>) (a_door\<lparr>toks := sample_store\<rparr>)) =
   fst (auth_read_ok noon (Some ''events'') False from_tool (a_door\<lparr>panel_token := [], toks := sample_store\<rparr>))"
  (is "fst (auth_write_ok _ _ _ ?r _) = _")
proof -
  have "scoped_presented (Some ''events'') from_tool = Some (a_token, False)"
    "scoped_presented (Some ''events'') ?r = Some (a_token, False)" by code_simp+
  moreover have "cap_of_route (Some ''events'') from_tool = cap_of_route (Some ''events'') ?r" by code_simp
  ultimately show ?thesis
    using scoped_alone [of "Some ''events''" from_tool "(a_token, False)" ?r "a_door\<lparr>panel_token := [], toks := sample_store\<rparr>"
        "a_door\<lparr>toks := sample_store\<rparr>" noon False] by simp
qed

theorem rebinding_refused_witness:
  "fst (auth_write_ok noon None False (from_panel\<lparr>rq_header := (rq_header from_panel)(''Host'' \<mapsto> ''forge.evil.example'')\<rparr>) a_door) =
     Denied 403 ''request origin refused''"
  (is "fst (auth_write_ok _ _ _ ?r _) = _")
proof -
  have "scoped_presented None ?r = None" "\<not> camkey_presented ?r a_door" by code_simp+
  moreover have "rq_header ?r ''Host'' = Some ''forge.evil.example'' \<and> length ''forge.evil.example'' < 128 \<and> hd ''forge.evil.example'' \<noteq> CHR ''['' \<and>
      (let n = lower (drop_dot (takeWhile (\<lambda>c. c \<noteq> CHR '':'') ''forge.evil.example'')) in
       \<not> list_all address_char n \<and> n \<noteq> ''localhost'' \<and> (\<forall>s. own_name a_door = Some s \<longrightarrow> n \<noteq> lower s))"
    by (simp add: a_door_def lower_def drop_dot_def is_upper_def is_digit_def byte_def Let_def)
  ultimately show ?thesis using rebinding_refused [of None ?r a_door "''forge.evil.example''" noon False] by simp
qed

end
