(* ===== verification/SettingsProps.thy ===== *)
theory SettingsProps
  imports Settings
begin

text \<open>
  The settings file as a map: an update of several keys is exactly that on the map a reader sees,
  and leaves every other line as it was, for a file whose lines are whole. What it does to a file
  whose last line is not.
\<close>

section \<open>Whole lines\<close>

definition whole :: "string \<Rightarrow> bool" where
  "whole l \<longleftrightarrow> (\<exists>x. l = x @ [newline] \<and> newline \<notin> set x \<and> CHR 0x00 \<notin> set x \<and> length x < 511)"

lemma whole_fgets:
  assumes "whole l"
  shows "fgets (line_max_len - 1) (l @ r) = (l, r)"
proof -
  obtain x where x: "l = x @ [newline]" "newline \<notin> set x" "length x < 511" using assms by (auto simp: whole_def)
  then show ?thesis using fgets_line [of x 511 r] by (simp add: line_max_len_def del: fgets.simps)
qed

lemma whole_nonempty: "whole l \<Longrightarrow> l \<noteq> []"
  by (auto simp: whole_def)

lemma whole_cstr: "whole l \<Longrightarrow> cstr l = l"
  by (auto simp: whole_def cstr_def)

lemma conf_reads_whole: "list_all whole ls \<Longrightarrow> conf_reads (concat ls) = ls"
proof (induction ls)
  case Nil
  show ?case by (subst conf_reads.simps) simp
next
  case (Cons l ls)
  then show ?case using whole_nonempty [of l] whole_fgets [of l]
    by (subst conf_reads.simps) (simp add: Let_def del: fgets.simps)
qed

lemma set_loop_whole:
  "list_all whole ls \<Longrightarrow> length (snd (fold (set_line kvs) ls st)) \<le> file_max_lines \<Longrightarrow>
   length (snd st) + length ls \<le> file_max_lines \<Longrightarrow>
   set_loop kvs st (concat ls) = (fold (set_line kvs) ls st, [])"
proof (induction ls arbitrary: st)
  case Nil
  show ?case by (subst set_loop.simps) simp
next
  case (Cons l ls)
  have "length (snd (set_line kvs l st)) \<le> Suc (length (snd st))"
    by (auto simp: set_line_def split: prod.splits option.splits)
  then show ?case using Cons whole_nonempty [of l] whole_fgets [of l]
    by (subst set_loop.simps) (simp add: Let_def del: fgets.simps)
qed

section \<open>A key and a value that can be written\<close>

definition trimmed :: "string \<Rightarrow> bool" where
  "trimmed s \<longleftrightarrow> (s \<noteq> [] \<longrightarrow> \<not> is_cspace (hd s) \<and> \<not> is_cspace (last s))"

definition one_line :: "string \<Rightarrow> bool" where
  "one_line s \<longleftrightarrow> newline \<notin> set s \<and> CHR 0x00 \<notin> set s"

definition writable :: "string \<times> string \<Rightarrow> bool" where
  "writable kv \<longleftrightarrow> fst kv \<noteq> [] \<and> CHR ''='' \<notin> set (fst kv) \<and> hd (fst kv) \<noteq> CHR ''#'' \<and> trimmed (fst kv) \<and>
     trimmed (snd kv) \<and> one_line (fst kv) \<and> one_line (snd kv) \<and> length (fst kv) + length (snd kv) < 508"

lemma rtrim_keep: "s \<noteq> [] \<Longrightarrow> \<not> is_cspace (last s) \<Longrightarrow> list_all is_cspace t \<Longrightarrow> rtrim (s @ t) = s"
  by (induction t rule: rev_induct) (cases s rule: rev_cases, auto simp: rtrim_def)

lemma rtrim_blank: "list_all is_cspace t \<Longrightarrow> rtrim t = []"
  by (simp add: rtrim_def list_all_iff)

lemma ltrim_keep: "s \<noteq> [] \<Longrightarrow> \<not> is_cspace (hd s) \<Longrightarrow> ltrim (s @ t) = s @ t"
  by (cases s) (auto simp: ltrim_def)

lemma cspace_simps [simp]: "is_cspace space" "is_cspace newline" "\<not> is_cspace (CHR ''='')"
  by (simp_all add: is_cspace_def byte_def)

lemma set_text_whole: "writable kv \<Longrightarrow> whole (set_text kv)"
  by (auto simp: writable_def whole_def set_text_def one_line_def intro!: exI [of _ "fst kv @ '' = '' @ snd kv"])

lemma set_text_fits: "writable kv \<Longrightarrow> fit line_max_len (set_text kv) = set_text kv"
  by (intro fit_id) (simp add: writable_def set_text_def line_max_len_def)

lemma conf_line_set_text:
  assumes "writable kv"
  shows "conf_line (set_text kv) = Some kv"
proof -
  obtain k v where kv: "kv = (k, v)" by fastforce
  have k: "k \<noteq> []" "CHR ''='' \<notin> set k" "hd k \<noteq> CHR ''#''" "\<not> is_cspace (hd k)" "\<not> is_cspace (last k)"
    and v: "trimmed v" using assms by (auto simp: writable_def trimmed_def kv)
  let ?l = "k @ '' = '' @ v @ [newline]"
  have p: "ltrim ?l = ?l" using ltrim_keep [of k "'' = '' @ v @ [newline]"] k by simp
  have t: "takeWhile (\<lambda>c. c \<noteq> CHR ''='') ?l = k @ [space]" "dropWhile (\<lambda>c. c \<noteq> CHR ''='') ?l = CHR ''='' # space # v @ [newline]"
    using k(2) by (auto simp: takeWhile_append dropWhile_append)
  have "rtrim (ltrim (space # v @ [newline])) = v"
  proof (cases "v = []")
    case False
    then have "ltrim (v @ [newline]) = v @ [newline]" "rtrim (v @ [newline]) = v"
      using v ltrim_keep [of v "[newline]"] rtrim_keep [of v "[newline]"] by (auto simp: trimmed_def)
    then show ?thesis by (simp add: ltrim_def)
  qed (simp add: ltrim_def rtrim_def)
  moreover have "rtrim (k @ [space]) = k" using rtrim_keep [of k "[space]"] k by simp
  ultimately show ?thesis using k unfolding kv conf_line_def set_text_def fst_conv snd_conv p t Let_def by simp
qed

section \<open>What a reader sees\<close>

lemma last_value_snoc:
  "last_value k (ls @ [l]) = (case conf_line (cstr l) of Some (k', v) \<Rightarrow> if k' = k then Some v else last_value k ls
     | None \<Rightarrow> last_value k ls)"
  by (auto simp: last_value_def split: option.splits)

lemma last_value_Nil [simp]: "last_value k [] = None"
  by (simp add: last_value_def)

lemma last_value_append: "last_value k (ls @ ms) = (case last_value k ms of None \<Rightarrow> last_value k ls | Some v \<Rightarrow> Some v)"
proof (induction ms rule: rev_induct)
  case (snoc m ms)
  then show ?case using last_value_snoc [of k "ls @ ms" m] last_value_snoc [of k ms m]
    by (auto split: option.splits)
qed simp

lemma place_of_Some: "place_of k kvs = Some m \<Longrightarrow> m < length kvs \<and> fst (kvs ! m) = k"
  by (induction kvs arbitrary: m) (auto split: if_splits)

lemma place_of_None: "place_of k kvs = None \<longleftrightarrow> k \<notin> fst ` set kvs"
  by (induction kvs) auto

lemma place_of_map: "map_of kvs k = map_option (\<lambda>m. snd (kvs ! m)) (place_of k kvs)"
  by (induction kvs) (auto simp: option.map_comp comp_def)

lemma place_of_nth: "distinct (List.map fst kvs) \<Longrightarrow> m < length kvs \<Longrightarrow> place_of (fst (kvs ! m)) kvs = Some m"
proof (induction kvs arbitrary: m)
  case (Cons kv kvs)
  then show ?case by (cases m) (auto dest: nth_mem)
qed simp

definition foreign :: "(string \<times> string) list \<Rightarrow> string \<Rightarrow> bool" where
  "foreign kvs l \<longleftrightarrow> (case conf_line l of None \<Rightarrow> True | Some (k, _) \<Rightarrow> k \<notin> fst ` set kvs)"

definition tracks :: "(string \<times> string) list \<Rightarrow> string \<Rightarrow> string list \<Rightarrow> nat list \<Rightarrow> string list \<Rightarrow> bool" where
  "tracks kvs k ls a out \<longleftrightarrow>
     (case place_of k kvs of
        None \<Rightarrow> last_value k out = last_value k ls
      | Some m \<Rightarrow> last_value k out = (if m \<in> set a then Some (snd (kvs ! m)) else None) \<and>
          (m \<in> set a \<longleftrightarrow> snd (kvs ! m) \<noteq> [] \<and> last_value k ls \<noteq> None))"

definition halfway :: "(string \<times> string) list \<Rightarrow> string list \<Rightarrow> nat list \<times> string list \<Rightarrow> bool" where
  "halfway kvs ls st \<longleftrightarrow> list_all whole (snd st) \<and> filter (foreign kvs) (snd st) = filter (foreign kvs) ls \<and>
     length (snd st) \<le> length ls \<and> (\<forall>k. tracks kvs k ls (fst st) (snd st))"

lemma tracks_other:
  assumes "tracks kvs k ls a out" "case conf_line (cstr l) of None \<Rightarrow> True | Some (k', _) \<Rightarrow> k' \<noteq> k"
    "case conf_line (cstr l') of None \<Rightarrow> True | Some (k', _) \<Rightarrow> k' \<noteq> k"
  shows "tracks kvs k (ls @ [l]) a (out @ [l'])" "tracks kvs k (ls @ [l]) a out"
  using assms by (auto simp: tracks_def last_value_snoc split: option.splits)

lemma tracks_more:
  assumes "tracks kvs k ls a out" "place_of k kvs \<noteq> Some m"
  shows "tracks kvs k ls (m # a) out"
  using assms by (auto simp: tracks_def split: option.splits)

lemma halfway_step:
  assumes "halfway kvs ls st" "whole l" "distinct (List.map fst kvs)" "list_all writable kvs"
  shows "halfway kvs (ls @ [l]) (set_line kvs l st)"
proof -
  obtain a out where st: "st = (a, out)" by fastforce
  have c: "cstr l = l" using whole_cstr [OF assms(2)] .
  have h: "list_all whole out" "filter (foreign kvs) out = filter (foreign kvs) ls" "length out \<le> length ls"
    and t: "tracks kvs k ls a out" for k using assms(1) by (auto simp: halfway_def st)
  show ?thesis
  proof (cases "foreign kvs l")
    case True
    have eq: "set_line kvs l st = (a, out @ [l])"
    proof (cases "conf_line l")
      case (Some kv)
      then have "place_of (fst kv) kvs = None" using True by (auto simp: foreign_def place_of_None split: prod.splits)
      then show ?thesis using c Some by (cases kv) (simp add: set_line_def st)
    qed (simp add: set_line_def st c)
    have "tracks kvs k (ls @ [l]) a (out @ [l])" for k
      using t [of k] True c place_of_None [of k kvs]
      by (auto simp: tracks_def last_value_snoc foreign_def split: option.splits)
    then show ?thesis using h True assms(2) by (simp add: halfway_def eq)
  next
    case False
    then obtain k v where l: "conf_line l = Some (k, v)" and k: "k \<in> fst ` set kvs"
      by (auto simp: foreign_def split: option.splits)
    obtain m where m: "place_of k kvs = Some m" using k place_of_None [of k kvs] by (cases "place_of k kvs") auto
    note pl = place_of_Some [OF m]
    have w: "writable (kvs ! m)" using assms(4) pl by (simp add: list_all_length)
    note tx = conf_line_set_text [OF w] set_text_whole [OF w] set_text_fits [OF w]
    have nt: "\<not> foreign kvs (set_text (kvs ! m))" using tx(1) pl k by (cases "kvs ! m") (simp add: foreign_def)
    have key: "conf_line (cstr (set_text (kvs ! m))) = Some (k, snd (kvs ! m))"
      using tx(1) whole_cstr [OF tx(2)] pl by (metis prod.collapse)
    have other: "place_of k' kvs \<noteq> Some m" if "k' \<noteq> k" for k' using place_of_Some [of k' kvs m] pl that by auto
    show ?thesis
    proof (cases "snd (kvs ! m) = [] \<or> m \<in> set a")
      case True
      then have eq: "set_line kvs l st = (a, out)" using l m c by (simp add: set_line_def st)
      have "tracks kvs k' (ls @ [l]) a out" for k'
        using t [of k'] True l m c by (cases "k' = k") (auto simp: tracks_def last_value_snoc split: option.splits)
      then show ?thesis using h False by (simp add: halfway_def eq)
    next
      case upd: False
      then have eq: "set_line kvs l st = (m # a, out @ [set_text (kvs ! m)])"
        using l m c tx(3) by (simp add: set_line_def st)
      have "tracks kvs k' (ls @ [l]) (m # a) (out @ [set_text (kvs ! m)])" for k'
      proof (cases "k' = k")
        case True
        then show ?thesis using upd l m c key by (simp add: tracks_def last_value_snoc)
      next
        case False
        then show ?thesis using tracks_more [OF t other [OF False]] l c key tracks_other(1) by simp
      qed
      then show ?thesis using h False nt tx(2) by (simp add: halfway_def eq)
    qed
  qed
qed

lemma halfway_all:
  assumes "list_all whole ls" "distinct (List.map fst kvs)" "list_all writable kvs"
  shows "halfway kvs ls (fold (set_line kvs) ls ([], []))"
  using assms(1)
proof (induction ls rule: rev_induct)
  case Nil
  then show ?case by (auto simp: halfway_def tracks_def split: option.splits)
next
  case (snoc l ls)
  then show ?case using halfway_step assms(2,3) by simp
qed

section \<open>An update\<close>

lemma map_of_rev_distinct: "distinct (List.map fst xs) \<Longrightarrow> map_of (rev xs) = map_of xs"
proof (induction xs)
  case (Cons x xs)
  then have "fst x \<notin> dom (map_of xs)" by (simp add: dom_map_of_conv_image_fst)
  then show ?case using Cons by (cases x) (simp add: map_add_upd_left map_add_def fun_eq_iff dom_def split: option.splits)
qed simp

lemma last_value_rest:
  assumes "distinct (List.map fst kvs)" "list_all writable kvs"
  shows "last_value k (set_rest kvs a) =
    (case place_of k kvs of None \<Rightarrow> None
     | Some m \<Rightarrow> if m \<notin> set a \<and> snd (kvs ! m) \<noteq> [] then Some (snd (kvs ! m)) else None)"
proof -
  have gen: "last_value k (List.map set_text kws) = map_of (rev kws) k" if "list_all writable kws" for kws
    using that
  proof (induction kws rule: rev_induct)
    case (snoc kw kws)
    then have "conf_line (cstr (set_text kw)) = Some kw"
      using conf_line_set_text whole_cstr [OF set_text_whole] by simp
    then show ?case using snoc by (cases kw) (auto simp: last_value_snoc)
  qed simp
  let ?ps = "filter (\<lambda>(kv, m). m \<notin> set a \<and> snd kv \<noteq> []) (zip kvs [0..<length kvs])"
  have sub: "(kv, m) \<in> set ?ps \<Longrightarrow> m < length kvs \<and> kv = kvs ! m \<and> m \<notin> set a \<and> snd kv \<noteq> []" for kv m
    by (auto simp: in_set_zip)
  have wr: "list_all writable (List.map fst ?ps)"
    using assms(2) by (auto simp: list_all_iff dest: set_zip_leftD)
  have d: "distinct (List.map fst (List.map fst ?ps))"
  proof -
    have "distinct (List.map (fst \<circ> fst) (zip kvs [0..<length kvs]))"
      using assms(1) by (simp flip: List.map_map)
    then have "distinct (List.map (fst \<circ> fst) ?ps)" by (rule distinct_map_filter)
    then show ?thesis by simp
  qed
  have "last_value k (set_rest kvs a) = map_of (List.map fst ?ps) k"
    unfolding set_rest_def gen [OF wr] using map_of_rev_distinct [OF d] by simp
  also have "\<dots> = (case place_of k kvs of None \<Rightarrow> None
     | Some m \<Rightarrow> if m \<notin> set a \<and> snd (kvs ! m) \<noteq> [] then Some (snd (kvs ! m)) else None)"
  proof (cases "place_of k kvs")
    case None
    then have "map_of (List.map fst ?ps) k = None"
      using place_of_None [of k kvs] by (force simp: map_of_eq_None_iff dest: set_zip_leftD)
    then show ?thesis using None by simp
  next
    case (Some m)
    note m = place_of_Some [OF Some]
    show ?thesis
    proof (cases "m \<notin> set a \<and> snd (kvs ! m) \<noteq> []")
      case True
      then have "(kvs ! m, m) \<in> set ?ps" using m by (auto simp: in_set_zip)
      then have "(k, snd (kvs ! m)) \<in> set (List.map fst ?ps)" using m by force
      then show ?thesis using Some True d by simp
    next
      case False
      have "k \<notin> fst ` set (List.map fst ?ps)"
      proof
        assume "k \<in> fst ` set (List.map fst ?ps)"
        then obtain kv j where j: "(kv, j) \<in> set ?ps" "fst kv = k" by auto
        have q: "j < length kvs" "kv = kvs ! j" "j \<notin> set a \<and> snd kv \<noteq> []" using sub [OF j(1)] by blast+
        then have "place_of k kvs = Some j" using place_of_nth [OF assms(1) q(1)] j(2) by simp
        then have "j = m" using Some by simp
        then show False using False q by blast
      qed
      then have "map_of (List.map fst ?ps) k = None" by (simp add: map_of_eq_None_iff)
      then show ?thesis using Some False by simp
    qed
  qed
  finally show ?thesis .
qed

lemma set_rest_whole: "list_all writable kvs \<Longrightarrow> list_all whole (set_rest kvs a)"
  by (auto simp: set_rest_def list_all_iff intro!: set_text_whole dest: set_zip_leftD)

lemma set_rest_length: "length (set_rest kvs a) \<le> length kvs"
  by (simp add: set_rest_def) (metis length_filter_le length_upt length_zip min.idem minus_nat.diff_0)

lemma update_law:
  assumes "list_all whole ls" "length ls \<le> file_max_lines" "distinct (List.map fst kvs)" "list_all writable kvs"
    and "settings_set_many kvs io (Some (concat ls)) = (done, file')"
  shows "(\<not> done \<longrightarrow> file' = Some (concat ls)) \<and>
    (done \<longrightarrow> (\<exists>ls'. file' = Some (concat ls') \<and> list_all whole ls' \<and> length ls' \<le> length ls + length kvs \<and>
       filter (foreign kvs) ls' = filter (foreign kvs) ls \<and>
       (\<forall>len k. settings_get len k file' =
          (case map_of kvs k of None \<Rightarrow> settings_get len k (Some (concat ls))
           | Some v \<Rightarrow> if v = [] then None else Some (fit len v)))))"
proof (cases "kvs = []")
  case True
  then show ?thesis using assms(1,5) by (auto simp: settings_set_many_def intro!: exI [of _ ls])
next
  case False
  obtain a out where o: "fold (set_line kvs) ls ([], []) = (a, out)" by fastforce
  note half = halfway_all [OF assms(1,3,4), unfolded o]
  have loop: "set_loop kvs ([], []) (concat ls) = ((a, out), [])"
    using set_loop_whole [OF assms(1), of kvs "([], [])"] half assms(2) by (simp add: o halfway_def)
  have res: "(done, file') = (if io then (True, Some (concat (out @ set_rest kvs a))) else (False, Some (concat ls)))"
    using assms(5) [symmetric] False by (simp add: settings_set_many_def loop Let_def)
  have w: "list_all whole (out @ set_rest kvs a)"
    using half set_rest_whole [OF assms(4)] by (simp add: halfway_def)
  have f: "filter (foreign kvs) (set_rest kvs a) = []"
  proof -
    have "\<not> foreign kvs (set_text kv)" if "kv \<in> set kvs" for kv
      using assms(4) that conf_line_set_text [of kv] by (auto simp: list_all_iff foreign_def split: prod.splits intro: rev_image_eqI)
    then show ?thesis by (auto simp: set_rest_def filter_empty_conv dest: set_zip_leftD)
  qed
  have v: "last_value k (out @ set_rest kvs a) =
      (case map_of kvs k of None \<Rightarrow> last_value k ls | Some v \<Rightarrow> if v = [] then None else Some v)" for k
  proof -
    have "tracks kvs k ls a out" using half by (simp add: halfway_def)
    then show ?thesis unfolding last_value_append last_value_rest [OF assms(3,4)] place_of_map
      by (auto simp: tracks_def split: option.splits)
  qed
  have g: "settings_get len k (Some (concat (out @ set_rest kvs a))) =
      (case map_of kvs k of None \<Rightarrow> settings_get len k (Some (concat ls)) | Some v \<Rightarrow> if v = [] then None else Some (fit len v))" for len k
    unfolding settings_get_def option.case conf_reads_whole [OF w] conf_reads_whole [OF assms(1)] v
    by (simp split: option.splits)
  have n: "length (out @ set_rest kvs a) \<le> length ls + length kvs"
    using half set_rest_length [of kvs a] by (simp add: halfway_def)
  show ?thesis
  proof (cases io)
    case True
    then show ?thesis using res w f half g n
      by (auto simp: halfway_def intro!: exI [of _ "out @ set_rest kvs a"])
  qed (use res in auto)
qed

text \<open>The same for a file that may be absent.\<close>

definition conf_lines :: "string option \<Rightarrow> string list \<Rightarrow> bool" where
  "conf_lines conf ls \<longleftrightarrow> list_all whole ls \<and> (conf = Some (concat ls) \<or> conf = None \<and> ls = [])"

lemma update_done:
  assumes "conf_lines conf ls" "length ls \<le> file_max_lines" "distinct (List.map fst kvs)" "list_all writable kvs"
  shows "fst (settings_set_many kvs True conf)"
proof (cases "kvs = [] \<or> conf = None")
  case False
  then have c: "conf = Some (concat ls)" "list_all whole ls" using assms(1) by (auto simp: conf_lines_def)
  obtain a out where o: "fold (set_line kvs) ls ([], []) = (a, out)" by fastforce
  have "set_loop kvs ([], []) (concat ls) = ((a, out), [])"
    using set_loop_whole [OF c(2), of kvs "([], [])"] halfway_all [OF c(2) assms(3,4)] assms(2) by (simp add: o halfway_def)
  then show ?thesis using False by (simp add: settings_set_many_def c Let_def)
qed (auto simp: settings_set_many_def)

lemma update_conf:
  assumes "conf_lines conf ls" "length ls \<le> file_max_lines" "distinct (List.map fst kvs)" "list_all writable kvs"
    and "settings_set_many kvs io conf = (True, conf')"
  shows "\<exists>ls'. conf_lines conf' ls' \<and> length ls' \<le> length ls + length kvs \<and>
    (\<forall>len k. settings_get len k conf' =
      (case map_of kvs k of None \<Rightarrow> settings_get len k conf | Some v \<Rightarrow> if v = [] then None else Some (fit len v)))"
proof (cases conf)
  case (Some t)
  then have c: "conf = Some (concat ls)" and w: "list_all whole ls" using assms(1) by (auto simp: conf_lines_def)
  show ?thesis using update_law [OF w assms(2,3,4) assms(5) [unfolded c]] unfolding c conf_lines_def by blast
next
  case None
  then have ls: "ls = []" using assms(1) by (simp add: conf_lines_def)
  show ?thesis
  proof (cases "list_all (\<lambda>kv. snd kv = []) kvs")
    case True
    then have e: "conf' = None" using assms(5) None by (auto simp: settings_set_many_def split: if_splits)
    have "v = []" if "map_of kvs k = Some v" for k v using True map_of_SomeD [OF that] by (auto simp: list_all_iff)
    then show ?thesis using None e ls by (auto simp: conf_lines_def settings_get_def split: option.splits intro!: exI [of _ "[]"])
  next
    case False
    then have e: "conf' = Some (concat (set_rest kvs []))"
      using assms(5) None by (auto simp: settings_set_many_def split: if_splits)
    have "settings_get len k conf' = (case map_of kvs k of None \<Rightarrow> settings_get len k conf
        | Some v \<Rightarrow> if v = [] then None else Some (fit len v))" for len k
      unfolding e None settings_get_def option.case conf_reads_whole [OF set_rest_whole [OF assms(4)]]
        last_value_rest [OF assms(3,4)] place_of_map
      by (simp split: option.splits)
    then show ?thesis using e ls set_rest_whole [OF assms(4)] set_rest_length [of kvs "[]"]
      by (auto simp: conf_lines_def intro!: exI [of _ "set_rest kvs []"])
  qed
qed

text \<open>C24. An update that is reported done is the update on the map a reader sees: every key of it has its
  value, or is gone where the value is empty, and every other key has what it had. The comments, the
  lines that are none and the lines of other keys are the old ones, in their order, and the file's
  lines are whole again; an update that is not reported done has left the file alone.\<close>

theorem settings_update:
  assumes "list_all whole ls" "length ls \<le> file_max_lines" "distinct (List.map fst kvs)" "list_all writable kvs"
    and "settings_set_many kvs io (Some (concat ls)) = (done, file')"
  shows "(\<not> done \<longrightarrow> file' = Some (concat ls)) \<and>
    (done \<longrightarrow> (\<exists>ls'. file' = Some (concat ls') \<and> list_all whole ls' \<and>
       filter (foreign kvs) ls' = filter (foreign kvs) ls \<and>
       (\<forall>len k. settings_get len k file' =
          (case map_of kvs k of None \<Rightarrow> settings_get len k (Some (concat ls))
           | Some v \<Rightarrow> if v = [] then None else Some (fit len v)))))"
  using update_law [OF assms] by blast

definition sample_conf :: "string list" where
  "sample_conf = [''# machine'' @ [newline], ''controller_mode = grbl'' @ [newline], ''gate_flow=1'' @ [newline],
     ''controller_mode = cloud'' @ [newline]]"

theorem settings_update_witness:
  "settings_get 64 ''controller_mode'' (snd (settings_set_many [(''controller_mode'', ''local''), (''gate_flow'', [])] True
     (Some (concat sample_conf)))) = Some ''local''"
proof -
  have a: "list_all whole sample_conf" "length sample_conf \<le> file_max_lines"
    by (auto simp: sample_conf_def whole_def file_max_lines_def)
  have b: "distinct (List.map fst [(''controller_mode'', ''local''), (''gate_flow'', [])])"
    "list_all writable [(''controller_mode'', ''local''), (''gate_flow'', [])]"
    by code_simp+
  have c: "settings_set_many [(''controller_mode'', ''local''), (''gate_flow'', [])] True (Some (concat sample_conf)) =
      (True, snd (settings_set_many [(''controller_mode'', ''local''), (''gate_flow'', [])] True (Some (concat sample_conf))))"
    by code_simp
  show ?thesis using settings_update [OF a b c] by (auto simp: fit_def)
qed

section \<open>A file whose last line is not whole\<close>

text \<open>The keys an update adds go after the old lines as they are. A file whose last line has no newline
  gets the first of them on that line: the update is reported done, the key it set has no value, and
  the last line's key has another one.\<close>

theorem unterminated_line_merged:
  "let f = snd (settings_set ''gate_lid'' ''1'' True (Some ''gate_flow = 1'')) in
   fst (settings_set ''gate_lid'' ''1'' True (Some ''gate_flow = 1'')) \<and>
   settings_get 64 ''gate_lid'' f = None \<and> settings_get 64 ''gate_flow'' f = Some ''1gate_lid = 1''"
  by code_simp

end
