(* ===== verification/Cfmt.thy ===== *)
theory Cfmt
  imports Cnum
begin

text \<open>
  The other conversions of \<open>snprintf\<close> the code uses: \<open>%.<k>f\<close>, zero-padded decimals, and that
  \<open>strtod\<close> reads a \<open>%.<k>f\<close> text back as the value it shows. A double is the real it denotes;
  the conversion rounds it exactly, ties to the even last digit, as the C library does.
\<close>

definition pad0 :: "nat \<Rightarrow> string \<Rightarrow> string" where
  "pad0 k s = replicate (k - length s) (CHR ''0'') @ s"

definition scaled :: "nat \<Rightarrow> real \<Rightarrow> nat" where
  "scaled k x = nat (round_half_even (\<bar>x\<bar> * 10 ^ k))"

definition point_digits :: "nat \<Rightarrow> nat \<Rightarrow> string" where
  "point_digits k n =
     digits_of (n div 10 ^ k) @ (if k = 0 then [] else CHR ''.'' # pad0 k (digits_of (n mod 10 ^ k)))"

definition fmt_f :: "nat \<Rightarrow> real \<Rightarrow> string" where
  "fmt_f k x = (if x < 0 then ''-'' else []) @ point_digits k (scaled k x)"

definition shown_f :: "nat \<Rightarrow> real \<Rightarrow> real" where
  "shown_f k x = (if x < 0 then - 1 else 1) * of_nat (scaled k x) / 10 ^ k"

lemma round_half_even_nonneg: "0 \<le> x \<Longrightarrow> 0 \<le> round_half_even x"
  unfolding round_half_even_def Let_def by auto

lemma of_nat_scaled: "of_nat (scaled k x) = (of_int (round_half_even (\<bar>x\<bar> * 10 ^ k)) :: real)"
  using round_half_even_nonneg [of "\<bar>x\<bar> * 10 ^ k"] by (simp add: scaled_def)

lemma shown_f_close: "\<bar>shown_f k x - x\<bar> \<le> 1 / 2 / 10 ^ k"
proof -
  have c: "\<bar>of_nat (scaled k x) - \<bar>x\<bar> * 10 ^ k\<bar> \<le> (1/2 :: real)"
    using round_half_even_close [of "\<bar>x\<bar> * 10 ^ k"] by (simp add: of_nat_scaled)
  have "shown_f k x - x = (if x < 0 then - 1 else 1) * (of_nat (scaled k x) - \<bar>x\<bar> * 10 ^ k) / 10 ^ k"
    by (simp add: shown_f_def field_simps)
  then have "\<bar>shown_f k x - x\<bar> = \<bar>of_nat (scaled k x) - \<bar>x\<bar> * 10 ^ k\<bar> / 10 ^ k"
    by (simp add: abs_mult)
  also have "\<dots> \<le> 1 / 2 / 10 ^ k" by (rule divide_right_mono [OF c]) simp
  finally show ?thesis .
qed

lemma round_half_even_le: "x \<le> of_int n \<Longrightarrow> round_half_even x \<le> n"
  unfolding round_half_even_def Let_def by (auto; linarith)

lemma shown_f_bound: "\<bar>x\<bar> \<le> of_nat b \<Longrightarrow> \<bar>shown_f k x\<bar> \<le> of_nat b"
proof -
  assume "\<bar>x\<bar> \<le> of_nat b"
  then have "\<bar>x\<bar> * 10 ^ k \<le> of_int (int (b * 10 ^ k))" by (simp add: mult_right_mono)
  then have "round_half_even (\<bar>x\<bar> * 10 ^ k) \<le> int (b * 10 ^ k)" by (rule round_half_even_le)
  then have "scaled k x \<le> b * 10 ^ k" by (simp add: scaled_def nat_le_iff)
  then have "real (scaled k x) \<le> real b * 10 ^ k"
    by (metis of_nat_le_iff of_nat_mult of_nat_numeral of_nat_power)
  then show ?thesis by (simp add: shown_f_def abs_mult divide_le_eq)
qed

section \<open>Reading a fixed decimal back\<close>

lemma pad0_digits: "\<forall>c\<in>set s. is_digit c \<Longrightarrow> \<forall>c\<in>set (pad0 k s). is_digit c"
  by (auto simp: pad0_def char_class_defs)

lemma digits_val_zeros: "digits_val (replicate m (CHR ''0'') @ s) = digits_val s"
proof -
  have "foldl (\<lambda>a c. 10 * a + digit_val c) 0 (replicate m (CHR ''0'')) = 0"
    by (induction m) (simp_all add: digit_val_def byte_def)
  then show ?thesis by (simp add: digits_val_def)
qed

lemma foldl_digits_shift:
  "foldl (\<lambda>a c. 10 * a + digit_val c) n s = n * 10 ^ length s + digits_val s"
proof (induction s rule: rev_induct)
  case (snoc c s)
  then show ?case by (simp add: digits_val_def algebra_simps)
qed (simp add: digits_val_def)

lemma digits_val_append: "digits_val (s @ t) = digits_val s * 10 ^ length t + digits_val t"
  using foldl_digits_shift [of "digits_val s" t] by (simp add: digits_val_def)

lemma length_pad0: "length s \<le> k \<Longrightarrow> length (pad0 k s) = k"
  by (simp add: pad0_def)

lemma point_digits_val:
  assumes "0 < k"
  shows "digits_val (digits_of (n div 10 ^ k) @ pad0 k (digits_of (n mod 10 ^ k))) = n"
    and "length (pad0 k (digits_of (n mod 10 ^ k))) = k"
proof -
  show l: "length (pad0 k (digits_of (n mod 10 ^ k))) = k"
    using assms digits_of_length [of "n mod 10 ^ k" k] by (simp add: length_pad0)
  show "digits_val (digits_of (n div 10 ^ k) @ pad0 k (digits_of (n mod 10 ^ k))) = n"
    by (simp add: digits_val_append l) (simp add: pad0_def digits_val_zeros div_mult_mod_eq)
qed

lemma takeWhile_dig_all:
  assumes "\<forall>c\<in>set s. is_digit c" "r = [] \<or> \<not> is_dig 10 (hd r)"
  shows "takeWhile (is_dig 10) (s @ r) = s" and "dropWhile (is_dig 10) (s @ r) = r"
proof -
  have "\<forall>c\<in>set s. is_dig 10 c" using assms(1) is_dig_10 by blast
  with assms(2) show "takeWhile (is_dig 10) (s @ r) = s" and "dropWhile (is_dig 10) (s @ r) = r"
    by (cases r; simp add: takeWhile_append2 dropWhile_append2)+
qed

lemma not_dig_point: "\<not> is_dig 10 (CHR ''.'')"
  by (simp add: is_dig_def digit_of_def lower_c_def char_class_defs)

lemma mantissa_point_digits:
  assumes "0 < k" and r: "r = [] \<or> \<not> is_dig 10 (hd r)"
  shows "mantissa 10 (point_digits k n @ r) = Some (of_nat n / 10 ^ k, r)"
proof -
  let ?i = "digits_of (n div 10 ^ k)" and ?f = "pad0 k (digits_of (n mod 10 ^ k))"
  have di: "\<forall>c\<in>set ?i. is_digit c" by (rule digits_of_digits)
  have df: "\<forall>c\<in>set ?f. is_digit c" by (rule pad0_digits [OF digits_of_digits])
  have v: "val_of 10 (?i @ ?f) = n"
    using di df point_digits_val(1) [OF assms(1)] by (subst val_of_digits) auto
  have t1: "takeWhile (is_dig 10) (?i @ CHR ''.'' # ?f @ r) = ?i"
    and d1: "dropWhile (is_dig 10) (?i @ CHR ''.'' # ?f @ r) = CHR ''.'' # ?f @ r"
    using takeWhile_dig_all [OF di, of "CHR ''.'' # ?f @ r"] not_dig_point by auto
  show ?thesis
    using takeWhile_dig_all [OF df r] v point_digits_val(2) [OF assms(1)] assms(1)
    by (simp add: mantissa_def point_digits_def t1 d1 Let_def)
qed

text \<open>What may follow a printed number without being read into it.\<close>

definition ends_number :: "string \<Rightarrow> bool" where
  "ends_number r \<longleftrightarrow> r = [] \<or> \<not> is_dig 10 (hd r) \<and> lower_c (hd r) \<noteq> CHR ''e''"

lemma strtod_fmt_f:
  assumes k: "0 < k" and r: "ends_number r" and ws: "\<forall>c\<in>set ws. is_cspace c"
  shows "strtod (ws @ fmt_f k x @ r) = (Fin (shown_f k x), r)"
proof -
  obtain c ds where hd: "digits_of (scaled k x div 10 ^ k) = c # ds" and dc: "is_digit c"
    using digits_of_hd by metis
  have r': "r = [] \<or> \<not> is_dig 10 (hd r)" using r by (auto simp: ends_number_def)
  have m: "mantissa 10 (point_digits k (scaled k x) @ r) = Some (of_nat (scaled k x) / 10 ^ k, r)"
    by (rule mantissa_point_digits [OF k r'])
  have e: "exponent (CHR ''e'') 10 (v, r) = (v, r)" for v
    using r by (cases r) (auto simp: exponent_def ends_number_def Let_def)
  have sp: "dropWhile is_cspace (ws @ fmt_f k x @ r) = fmt_f k x @ r"
    using dc hd ws by (auto simp: fmt_f_def point_digits_def is_cspace_def char_class_defs)
  have sg: "sign_of (fmt_f k x @ r) = (x < 0, point_digits k (scaled k x) @ r)"
    using dc hd by (auto simp: sign_of_def fmt_f_def point_digits_def char_class_defs)
  have nx: "\<not> ci_prefix ''infinity'' (point_digits k (scaled k x) @ r)"
    "\<not> ci_prefix ''inf'' (point_digits k (scaled k x) @ r)"
    "\<not> ci_prefix ''nan'' (point_digits k (scaled k x) @ r)"
    using dc hd by (auto simp: ci_prefix_def starts_with_def point_digits_def lower_c_def char_class_defs)
  have hx: "\<not> ci_prefix ''0x'' (point_digits k (scaled k x) @ r)"
  proof (cases ds)
    case Nil
    with hd k show ?thesis
      by (auto simp: ci_prefix_def starts_with_def point_digits_def lower_c_def char_class_defs)
  next
    case (Cons d ds')
    then have "is_digit d" using digits_of_digits [of "scaled k x div 10 ^ k"] hd by auto
    with hd Cons show ?thesis
      by (auto simp: ci_prefix_def starts_with_def point_digits_def lower_c_def char_class_defs)
  qed
  show ?thesis
    by (simp add: strtod_def sp sg nx hx m e shown_f_def Let_def)
qed

end
