(* ===== verification/Grblport.thy ===== *)
theory Grblport
  imports Cfmt
begin

text \<open>
  The daemon's client of the GRBL controller's port (\<open>src/grblport.c\<close>): the operations and the
  set each is open to, one request as one line out and one line back over a connection that is
  kept, the words of a jog, and what a reply means. The socket is the model's environment: an
  \<^emph>\<open>attempt\<close> says what one try finds there (whether the path fits and the connection is made, how
  many bytes \<open>send\<close> took, and what each turn of the reading loop saw and at what time), and the
  state keeps, beside the open descriptor, the traffic of all connections so far.
\<close>

section \<open>The operations\<close>

datatype grblport_set = Set_Package | Set_Panel | Set_Daemon

fun set_rank :: "grblport_set \<Rightarrow> nat" where
  "set_rank Set_Package = 0"
| "set_rank Set_Panel = 1"
| "set_rank Set_Daemon = 2"

lemma set_rank_inject [simp]: "set_rank a = set_rank b \<longleftrightarrow> a = b"
  by (cases a; cases b) auto

instantiation grblport_set :: linorder
begin

definition less_eq_grblport_set :: "grblport_set \<Rightarrow> grblport_set \<Rightarrow> bool" where
  "less_eq_grblport_set a b \<longleftrightarrow> set_rank a \<le> set_rank b"

definition less_grblport_set :: "grblport_set \<Rightarrow> grblport_set \<Rightarrow> bool" where
  "less_grblport_set a b \<longleftrightarrow> set_rank a < set_rank b"

instance
  by standard (auto simp: less_eq_grblport_set_def less_grblport_set_def)

end

text \<open>The enum's values, by which the table is indexed.\<close>

definition op_state :: nat where "op_state = 0"
definition op_jog :: nat where "op_jog = 1"
definition op_cancel :: nat where "op_cancel = 2"
definition op_release :: nat where "op_release = 3"
definition op_energize :: nat where "op_energize = 4"
definition op_home :: nat where "op_home = 5"
definition op_envelope :: nat where "op_envelope = 6"
definition op_tray :: nat where "op_tray = 7"
definition op_mcodes :: nat where "op_mcodes = 8"
definition op_mcode_result :: nat where "op_mcode_result = 9"
definition op_sender :: nat where "op_sender = 10"

lemmas op_defs = op_state_def op_jog_def op_cancel_def op_release_def op_energize_def op_home_def
  op_envelope_def op_tray_def op_mcodes_def op_mcode_result_def op_sender_def

definition ops :: "(string \<times> grblport_set \<times> bool) list" where
  "ops =
     [(''state'', Set_Package, False), (''jog'', Set_Package, True), (''cancel'', Set_Package, False),
      (''release'', Set_Panel, False), (''energize'', Set_Panel, False), (''home'', Set_Panel, False),
      (''envelope'', Set_Panel, True), (''tray'', Set_Panel, True),
      (''mcodes'', Set_Daemon, True), (''mcode_result'', Set_Daemon, True), (''sender'', Set_Daemon, True)]"

definition op_word :: "nat \<Rightarrow> string" where "op_word o1 = fst (ops ! o1)"
definition op_set :: "nat \<Rightarrow> grblport_set" where "op_set o1 = fst (snd (ops ! o1))"
definition takes_arg :: "nat \<Rightarrow> bool" where "takes_arg o1 = snd (snd (ops ! o1))"

section \<open>The connection\<close>

definition reply_timeout_ms :: int where "reply_timeout_ms = 6000"
definition line_size :: nat where "line_size = 160"

text \<open>What a turn of the reading loop finds: \<open>poll\<close>'s answer and, when readable, \<open>read\<close>'s.\<close>

datatype look = Poll_Interrupted | Poll_Error | Poll_Timeout | Got char | Hung_Up | Read_Again | Read_Error

record attempt =
  path_fits :: bool
  connects :: bool
  sends :: "nat option"
  looks :: "(int \<times> look) list"

datatype traffic = Opened | Sent string | Received char | Shut

record port =
  port_open :: bool
  traffic :: "traffic list"

definition wire :: "traffic list \<Rightarrow> port \<Rightarrow> port" where
  "wire es p = p\<lparr>traffic := traffic p @ es\<rparr>"

definition drop_port :: "port \<Rightarrow> port" where
  "drop_port p = (if port_open p then wire [Shut] p\<lparr>port_open := False\<rparr> else p)"

definition port_connect :: "attempt \<Rightarrow> port \<Rightarrow> bool \<times> port" where
  "port_connect a p =
     (if path_fits a \<and> connects a then (True, wire [Opened] p\<lparr>port_open := True\<rparr>) else (False, p))"

text \<open>
  The result of one exchange: the answer, a connection that is no good, or no answer in time.
  The loop's turns are a list, each with the milliseconds since the request; a list that ends
  before the loop does is \<open>None\<close> (\<open>read_reply_total\<close> says when it does not).
\<close>

datatype exchanged = Answered | Dead | Unanswered

fun read_reply :: "nat \<Rightarrow> string \<Rightarrow> (int \<times> look) list \<Rightarrow> (exchanged \<times> string \<times> string) option" where
  "read_reply len got [] = None"
| "read_reply len got ((elapsed, k) # rest) =
     (if reply_timeout_ms - elapsed \<le> 0 then Some (Unanswered, got, [])
      else case k of
          Poll_Interrupted \<Rightarrow> read_reply len got rest
        | Poll_Timeout \<Rightarrow> Some (Unanswered, got, [])
        | Poll_Error \<Rightarrow> Some (Dead, got, [])
        | Got c \<Rightarrow>
            if c = newline then Some (Answered, got, [c])
            else map_option (\<lambda>(x, g, seen). (x, g, c # seen))
              (read_reply len (if c \<noteq> cret \<and> length got < len - 1 then got @ [c] else got) rest)
        | Hung_Up \<Rightarrow> Some (if got = [] then Dead else Unanswered, got, [])
        | Read_Error \<Rightarrow> Some (if got = [] then Dead else Unanswered, got, [])
        | Read_Again \<Rightarrow> read_reply len got rest)"

definition exchange :: "attempt \<Rightarrow> string \<Rightarrow> nat \<Rightarrow> port \<Rightarrow> (exchanged \<times> string \<times> port) option" where
  "exchange a line len p =
     (case sends a of
        None \<Rightarrow> Some (Dead, [], p)
      | Some k \<Rightarrow>
          let p = wire [Sent (take k line)] p
          in if k < length line then Some (Dead, [], p)
             else map_option (\<lambda>(x, got, seen). (x, got, wire (map Received seen) p)) (read_reply len [] (looks a)))"

section \<open>A request\<close>

datatype port_rc = Port_Ok | Port_Unreachable | Port_Forbidden

text \<open>The tries, one per attempt that is left.\<close>

fun tries :: "string \<Rightarrow> nat \<Rightarrow> attempt list \<Rightarrow> port \<Rightarrow> (port_rc \<times> string \<times> port) option" where
  "tries line len [] p = Some (Port_Unreachable, [], p)"
| "tries line len (a # as) p =
     (let fresh = (\<not> port_open p); (ok, p1) = (if fresh then port_connect a p else (True, p))
      in if \<not> ok then Some (Port_Unreachable, fit len ''the GRBL controller is not on its port'', p1)
         else case exchange a line len p1 of
             None \<Rightarrow> None
           | Some (x, got, p2) \<Rightarrow>
               if x = Answered then Some (Port_Ok, got, p2)
               else let p3 = drop_port p2
                    in if x = Unanswered \<or> fresh
                       then Some (Port_Unreachable,
                              fit len (if x = Unanswered then ''the GRBL controller did not answer''
                                       else ''the GRBL controller closed its port''), p3)
                       else tries line len as p3)"

definition request_line :: "nat \<Rightarrow> string option \<Rightarrow> string" where
  "request_line o1 arg =
     (if takes_arg o1
      then op_word o1 @ '' '' @ (case arg of None \<Rightarrow> [] | Some s \<Rightarrow> s) @ [newline]
      else op_word o1 @ [newline])"

definition line_breaks :: "string \<Rightarrow> bool" where
  "line_breaks s \<longleftrightarrow> list_ex (\<lambda>c. c = cret \<or> c = newline) s"

definition grblport_request ::
  "attempt \<Rightarrow> attempt \<Rightarrow> grblport_set \<Rightarrow> nat \<Rightarrow> string option \<Rightarrow> nat \<Rightarrow> port \<Rightarrow>
   (port_rc \<times> string \<times> port) option" where
  "grblport_request a1 a2 caller o1 arg len p =
     (if length ops \<le> o1 \<or> caller < op_set o1
      then Some (Port_Forbidden, fit len ''the operation is not open to this caller'', p)
      else if line_size \<le> length (request_line o1 arg) \<or>
           takes_arg o1 \<and> (case arg of None \<Rightarrow> True | Some s \<Rightarrow> line_breaks s)
      then Some (Port_Forbidden, fit len ''the request is not one line'', p)
      else tries (request_line o1 arg) len [a1, a2] p)"

definition grblport_close :: "port \<Rightarrow> port" where
  "grblport_close p = drop_port p"

section \<open>The words of a jog\<close>

definition jog_max_xy_mm :: real where "jog_max_xy_mm = 100"
definition jog_max_z_mm :: real where "jog_max_z_mm = 5"
definition jog_feed_min :: real where "jog_feed_min = 10"
definition jog_feed_max :: real where "jog_feed_max = 12000"

lemmas jog_limits = jog_max_xy_mm_def jog_max_z_mm_def jog_feed_min_def jog_feed_max_def

definition jog_axis :: "char \<Rightarrow> real \<Rightarrow> string" where
  "jog_axis c inc = (if \<bar>inc\<bar> < 0.0005 then [] else [CHR '' '', c] @ fmt_f 3 inc)"

definition jog_fail :: "nat \<Rightarrow> string \<Rightarrow> string + string" where
  "jog_fail elen why = Inl (fit elen why)"

definition jog_numbers :: "real \<Rightarrow> real \<Rightarrow> real \<Rightarrow> real \<Rightarrow> nat \<Rightarrow> nat \<Rightarrow> string + string" where
  "jog_numbers dx dy dz feed len elen =
     (if jog_max_xy_mm < \<bar>dx\<bar> \<or> jog_max_xy_mm < \<bar>dy\<bar>
      then jog_fail elen (''one jog moves X and Y at most '' @ fmt_f0 jog_max_xy_mm @ '' mm'')
      else if jog_max_z_mm < \<bar>dz\<bar>
      then jog_fail elen (''one jog moves Z at most '' @ fmt_f0 jog_max_z_mm @ '' mm'')
      else if feed < jog_feed_min \<or> jog_feed_max < feed
      then jog_fail elen (''feed must be '' @ fmt_f0 jog_feed_min @ '' to '' @ fmt_f0 jog_feed_max @ '' mm/min'')
      else let axes = [jog_axis (CHR ''X'') dx, jog_axis (CHR ''Y'') dy, jog_axis (CHR ''Z'') dz]
           in case fold (put len) axes (put len ''G91 G21'' (Some [])) of
                None \<Rightarrow> jog_fail elen ''the jog does not fit a line''
              | Some buf \<Rightarrow>
                  if concat axes = [] then jog_fail elen ''a jog needs an x, y, or z increment''
                  else case put len ('' F'' @ fmt_f0 feed) (Some buf) of
                      None \<Rightarrow> jog_fail elen ''the jog does not fit a line''
                    | Some buf \<Rightarrow> Inr buf)"

definition grblport_jog_words :: "dbl \<Rightarrow> dbl \<Rightarrow> dbl \<Rightarrow> dbl \<Rightarrow> nat \<Rightarrow> nat \<Rightarrow> string + string" where
  "grblport_jog_words dx dy dz feed len elen =
     (case (dx, dy, dz, feed) of
        (Fin x, Fin y, Fin z, Fin f) \<Rightarrow> jog_numbers x y z f len elen
      | _ \<Rightarrow> jog_fail elen ''x, y, z, and feed must be numbers'')"

section \<open>What a reply means\<close>

definition explanations :: "(string \<times> string) list" where
  "explanations =
     [(''busy:released'', ''the X and Y motors are released: energize them first''),
      (''busy:sender'', ''the Grbl sender is using the machine: it goes first''),
      (''busy:state'', ''the controller is busy (a program, a hold, an alarm, or the sender''@[CHR 0x27]@''s own jog)''),
      (''busy:mcode'', ''a job waits at an extension''@[CHR 0x27]@''s M-code''),
      (''error:saved'', ''the controller could not save the tray mode: nothing changed''),
      (''error:mode'', ''the homing method is not manual: a home is the Grbl sender''@[CHR 0x27]@''s to start''),
      (''error:15'', ''the move would leave the work envelope''),
      (''error:9'', ''the controller is in an alarm: home the machine, or clear the alarm, first''),
      (''error:aborted'', ''the controller was reset before it answered'')]"

definition grblport_explain :: "string \<Rightarrow> nat \<Rightarrow> (nat \<times> string) option" where
  "grblport_explain reply len =
     (if reply = ''ok'' then None
      else case map_of explanations reply of
          Some why \<Rightarrow> Some (409, fit len why)
        | None \<Rightarrow>
            if starts_with ''error:'' reply \<or> starts_with ''busy:'' reply
            then Some (409, fit len (''the controller refused ('' @ take 32 reply @ '')''))
            else Some (502, fit len (''the controller''@[CHR 0x27]@''s answer was not understood'')))"

end
