(* ===== verification/GrblportProps.thy ===== *)
theory GrblportProps
  imports Grblport
begin

text \<open>
  What the port's client keeps: a request is one line of an operation its caller may use; a
  connection carries one request at a time, so an answer is never taken for another's; every
  request ends; and the words of a jog are the motion asked for, within the bounds.
\<close>

section \<open>The reading loop\<close>

text \<open>What was read is the answer's characters: only a whole answer holds a newline, at its end.\<close>

lemma read_reply_seen:
  "read_reply len got ls = Some (x, g, seen) \<Longrightarrow>
   (x = Answered \<longrightarrow> seen \<noteq> [] \<and> last seen = newline \<and> newline \<notin> set (butlast seen)) \<and>
   (x \<noteq> Answered \<longrightarrow> newline \<notin> set seen)"
proof (induction ls arbitrary: got x g seen)
  case (Cons e ls)
  obtain t k where e: "e = (t, k)" by (cases e)
  show ?case
    using Cons.prems e by (cases k) (auto split: if_splits dest!: Cons.IH)
qed simp

text \<open>A loop that is still turning when the time is up has an end.\<close>

definition time_runs_out :: "(int \<times> look) list \<Rightarrow> bool" where
  "time_runs_out ls \<longleftrightarrow> list_ex (\<lambda>e. reply_timeout_ms \<le> fst e) ls"

lemma read_reply_total:
  "time_runs_out ls \<Longrightarrow> read_reply len got ls \<noteq> None"
  unfolding time_runs_out_def
  by (induction len got ls rule: read_reply.induct) (auto split: look.splits)

lemma read_reply_fits:
  "read_reply len got ls = Some (x, g, seen) \<Longrightarrow> length got \<le> len - 1 \<Longrightarrow> length g \<le> len - 1"
proof (induction ls arbitrary: got x g seen)
  case (Cons e ls)
  obtain t k where e: "e = (t, k)" by (cases e)
  show ?case
    using Cons.prems e by (cases k) (auto split: if_splits dest!: Cons.IH)
qed simp

section \<open>One request at a time on a connection\<close>

text \<open>
  What the other end sees of the traffic: a connection that waits for a request, one that owes
  an answer, or an order the port does not allow.
\<close>

datatype talk = No_Connection | Listening | Owes_Answer | Out_Of_Order

fun talk_step :: "traffic \<Rightarrow> talk \<Rightarrow> talk" where
  "talk_step Opened No_Connection = Listening"
| "talk_step (Sent l) Listening = Owes_Answer"
| "talk_step (Received c) Owes_Answer = (if c = newline then Listening else Owes_Answer)"
| "talk_step Shut Listening = No_Connection"
| "talk_step Shut Owes_Answer = No_Connection"
| "talk_step _ _ = Out_Of_Order"

definition talk_of :: "port \<Rightarrow> talk" where
  "talk_of p = fold talk_step (traffic p) No_Connection"

definition port_ok :: "port \<Rightarrow> bool" where
  "port_ok p \<longleftrightarrow> talk_of p = (if port_open p then Listening else No_Connection)"

lemma talk_of_wire [simp]: "talk_of (wire es p) = fold talk_step es (talk_of p)"
  by (simp add: talk_of_def wire_def)

lemma talk_of_open [simp]: "talk_of (p\<lparr>port_open := b\<rparr>) = talk_of p"
  by (simp add: talk_of_def)

lemma port_open_wire [simp]: "port_open (wire es p) = port_open p"
  by (simp add: wire_def)

lemma talk_received:
  "newline \<notin> set s \<Longrightarrow> fold talk_step (map Received s) Owes_Answer = Owes_Answer"
  by (induction s) auto

lemma talk_answered:
  assumes "s \<noteq> []" "last s = newline" "newline \<notin> set (butlast s)"
  shows "fold talk_step (map Received s) Owes_Answer = Listening"
proof -
  obtain b where s: "s = b @ [newline]" using assms by (metis append_butlast_last_id)
  with assms(3) show ?thesis by (simp add: talk_received)
qed

lemma exchange_talk:
  assumes "exchange a line len p = Some (x, got, q)" "talk_of p = Listening"
  shows "talk_of q \<in> {Listening, Owes_Answer}" and "x = Answered \<Longrightarrow> talk_of q = Listening"
    and "port_open q = port_open p"
proof -
  show "talk_of q \<in> {Listening, Owes_Answer}" and "x = Answered \<Longrightarrow> talk_of q = Listening"
    and "port_open q = port_open p"
    using assms read_reply_seen [of len "[]" "looks a"]
    by (auto simp: exchange_def Let_def talk_received talk_answered split: option.splits if_splits)
qed

lemma drop_port_ok: "talk_of p \<in> {Listening, Owes_Answer} \<Longrightarrow> port_open p \<Longrightarrow> port_ok (drop_port p)"
  by (auto simp: drop_port_def port_ok_def)

lemma port_connect_ok:
  "port_connect a p = (ok, q) \<Longrightarrow> port_ok p \<Longrightarrow> \<not> port_open p \<Longrightarrow>
   port_ok q \<and> (ok \<longrightarrow> port_open q \<and> talk_of q = Listening)"
  by (auto simp: port_connect_def port_ok_def split: if_splits)

lemma tries_ok: "tries line len as p = Some (rc, reply, q) \<Longrightarrow> port_ok p \<Longrightarrow> port_ok q"
proof (induction "as" arbitrary: p)
  case (Cons a "as")
  obtain ok p1 where c: "(if \<not> port_open p then port_connect a p else (True, p)) = (ok, p1)"
    by (metis surj_pair)
  have p1: "port_ok p1" "ok \<longrightarrow> port_open p1 \<and> talk_of p1 = Listening"
    using c Cons.prems(2) port_connect_ok [of a p ok p1] by (auto simp: port_ok_def split: if_splits)
  show ?case
  proof (cases ok)
    case False
    with Cons.prems c p1 show ?thesis by (simp add: Let_def)
  next
    case True
    with Cons.prems c obtain x got p2 where x: "exchange a line len p1 = Some (x, got, p2)"
      by (auto simp: Let_def split: option.splits)
    note t = exchange_talk [OF x] p1(2)
    from True t have d: "port_ok (drop_port p2)" by (intro drop_port_ok) auto
    from True t have "x = Answered \<Longrightarrow> port_ok p2" by (auto simp: port_ok_def)
    with True d x c Cons.prems(1) Cons.IH show ?thesis
      by (auto simp: Let_def split: if_splits)
  qed
qed simp

text \<open>A run of the client: requests, each with what its two tries would find, and closes.\<close>

datatype call =
    Ask attempt attempt grblport_set nat "string option" nat
  | Close

fun call_step :: "call \<Rightarrow> port \<Rightarrow> port" where
  "call_step (Ask a1 a2 caller o1 arg len) p =
     (case grblport_request a1 a2 caller o1 arg len p of Some (_, _, q) \<Rightarrow> q | None \<Rightarrow> p)"
| "call_step Close p = grblport_close p"

definition port_idle :: port where
  "port_idle = \<lparr>port_open = False, traffic = []\<rparr>"

lemma call_step_ok: "port_ok p \<Longrightarrow> port_ok (call_step c p)"
proof (cases c)
  case (Ask a1 a2 caller o1 arg len)
  assume "port_ok p"
  then show ?thesis
    using Ask tries_ok [of "request_line o1 arg" len "[a1, a2]" p]
    by (auto simp: grblport_request_def split: option.splits simp del: tries.simps)
next
  case Close
  assume "port_ok p"
  with Close show ?thesis by (auto simp: grblport_close_def drop_port_def port_ok_def)
qed

interpretation port_run: invariant_machine call_step port_ok
  by unfold_locales (rule call_step_ok)

lemma port_idle_ok: "port_ok port_idle"
  by (simp add: port_ok_def port_idle_def talk_of_def)

lemma talk_broken: "fold talk_step es Out_Of_Order = Out_Of_Order"
  by (induction es) auto

text \<open>
  The daemon's connection carries one request at a time, over any run of requests and closes,
  whatever the sockets do: each line goes out on a connection that owes no answer, each character
  read belongs to the answer of the one request that is out, and a connection that is kept owes
  nothing, so no request is ever answered with the answer of an earlier one.
\<close>

theorem port_one_at_a_time:
  "talk_of (fold call_step cs port_idle) =
     (if port_open (fold call_step cs port_idle) then Listening else No_Connection)"
  using port_run.run_inv [OF port_idle_ok, of cs] by (simp add: port_ok_def)

section \<open>What a request sends\<close>

lemma exchange_traffic:
  "exchange a line len p = Some (x, got, q) \<Longrightarrow>
   \<exists>new. traffic q = traffic p @ new \<and> (\<forall>l. Sent l \<in> set new \<longrightarrow> (\<exists>k. l = take k line))"
  by (auto simp: exchange_def Let_def wire_def split: option.splits if_splits)
     (metis take_all_iff order_refl)

lemma drop_port_traffic: "\<exists>new. traffic (drop_port p) = traffic p @ new \<and> (\<forall>l. Sent l \<notin> set new)"
  by (auto simp: drop_port_def wire_def)

lemma port_connect_traffic:
  "port_connect a p = (ok, q) \<Longrightarrow> \<exists>new. traffic q = traffic p @ new \<and> (\<forall>l. Sent l \<notin> set new)"
  by (auto simp: port_connect_def wire_def split: if_splits)

lemma tries_traffic:
  "tries line len as p = Some (rc, reply, q) \<Longrightarrow>
   \<exists>new. traffic q = traffic p @ new \<and> (\<forall>l. Sent l \<in> set new \<longrightarrow> (\<exists>k. l = take k line))"
proof (induction "as" arbitrary: p)
  case (Cons a "as")
  obtain ok p1 where c: "(if \<not> port_open p then port_connect a p else (True, p)) = (ok, p1)"
    by (metis surj_pair)
  then obtain n1 where n1: "traffic p1 = traffic p @ n1" "\<forall>l. Sent l \<notin> set n1"
    using port_connect_traffic [of a p ok p1] by (auto split: if_splits)
  show ?case
  proof (cases ok)
    case False
    with Cons.prems c n1 show ?thesis by (auto simp: Let_def)
  next
    case True
    with Cons.prems c obtain x got p2 where x: "exchange a line len p1 = Some (x, got, p2)"
      by (auto simp: Let_def split: option.splits)
    obtain n2 where n2: "traffic p2 = traffic p1 @ n2" "\<forall>l. Sent l \<in> set n2 \<longrightarrow> (\<exists>k. l = take k line)"
      using exchange_traffic [OF x] by blast
    obtain n3 where n3: "traffic (drop_port p2) = traffic p2 @ n3" "\<forall>l. Sent l \<notin> set n3"
      using drop_port_traffic by blast
    have both: "\<exists>new. traffic p2 = traffic p @ new \<and> (\<forall>l. Sent l \<in> set new \<longrightarrow> (\<exists>k. l = take k line))"
      "\<exists>new. traffic (drop_port p2) = traffic p @ new \<and> (\<forall>l. Sent l \<in> set new \<longrightarrow> (\<exists>k. l = take k line))"
      using n1 n2 n3 by auto
    have more_tries: "\<exists>new. traffic q = traffic p @ new \<and> (\<forall>l. Sent l \<in> set new \<longrightarrow> (\<exists>k. l = take k line))"
      if t: "tries line len as (drop_port p2) = Some (rc, reply, q)"
    proof -
      obtain n4 where "traffic q = traffic (drop_port p2) @ n4" "\<forall>l. Sent l \<in> set n4 \<longrightarrow> (\<exists>k. l = take k line)"
        using Cons.IH [OF t] by blast
      with both(2) show ?thesis by auto
    qed
    show ?thesis using Cons.prems c True x both more_tries by (auto simp: Let_def split: if_splits)
  qed
qed auto

lemma op_word_plain: "o1 < length ops \<Longrightarrow> newline \<notin> set (op_word o1) \<and> cret \<notin> set (op_word o1)"
  by (auto simp: op_word_def ops_def less_Suc_eq nth_Cons')

lemma request_line_one:
  assumes "o1 < length ops" "\<not> (takes_arg o1 \<and> (case arg of None \<Rightarrow> True | Some s \<Rightarrow> line_breaks s))"
  shows "\<exists>s. request_line o1 arg = s @ [newline] \<and> newline \<notin> set s \<and> cret \<notin> set s"
  using assms op_word_plain [OF assms(1)]
  by (auto simp: request_line_def line_breaks_def list_ex_iff split: option.splits)

text \<open>
  Nothing reaches the socket but the request itself: every line a request sends, whole or cut
  short by a dying connection, is the start of one line, of an operation that is open to the
  caller, whose argument holds no line break (which would be a second request that passed no
  check). A caller outside the operation's set sends nothing at all.
\<close>

theorem request_is_one_line:
  assumes "grblport_request a1 a2 caller o1 arg len p = Some (rc, reply, q)"
    and "traffic q = traffic p @ new" and "Sent l \<in> set new"
  shows "op_set o1 \<le> caller \<and>
    (\<exists>s k. request_line o1 arg = s @ [newline] \<and> newline \<notin> set s \<and> cret \<notin> set s \<and>
           length s < line_size \<and> l = take k (s @ [newline]))"
proof -
  have ok: "o1 < length ops" "op_set o1 \<le> caller"
    "\<not> (takes_arg o1 \<and> (case arg of None \<Rightarrow> True | Some s \<Rightarrow> line_breaks s))"
    "length (request_line o1 arg) < line_size"
    and t: "tries (request_line o1 arg) len [a1, a2] p = Some (rc, reply, q)"
    using assms by (auto simp: grblport_request_def split: if_splits simp del: tries.simps)
  obtain new' where n: "traffic q = traffic p @ new'"
    "\<forall>l. Sent l \<in> set new' \<longrightarrow> (\<exists>k. l = take k (request_line o1 arg))"
    using tries_traffic [OF t] by blast
  with assms have "\<exists>k. l = take k (request_line o1 arg)" by simp
  moreover obtain s where "request_line o1 arg = s @ [newline]" "newline \<notin> set s" "cret \<notin> set s"
    using request_line_one [OF ok(1,3)] by blast
  ultimately show ?thesis using ok(2,4) by auto
qed

text \<open>What is not refused before the socket.\<close>

lemma request_passes:
  "o1 < length ops \<Longrightarrow> op_set o1 \<le> caller \<Longrightarrow> takes_arg o1 \<Longrightarrow> \<not> line_breaks s \<Longrightarrow>
   length (request_line o1 (Some s)) < line_size \<Longrightarrow>
   grblport_request a1 a2 caller o1 (Some s) len p = tries (request_line o1 (Some s)) len [a1, a2] p"
  by (auto simp: grblport_request_def simp del: tries.simps)

section \<open>Every request ends, and is sent again once at the most\<close>

lemma exchange_total: "time_runs_out (looks a) \<Longrightarrow> exchange a line len p \<noteq> None"
  using read_reply_total by (auto simp: exchange_def Let_def split: option.splits)

lemma tries_total: "\<forall>a\<in>set as. time_runs_out (looks a) \<Longrightarrow> tries line len as p \<noteq> None"
  by (induction "as" arbitrary: p)
     (auto simp: Let_def exchange_total split: option.splits prod.splits)

lemma request_total:
  "time_runs_out (looks a1) \<Longrightarrow> time_runs_out (looks a2) \<Longrightarrow>
   grblport_request a1 a2 caller o1 arg len p \<noteq> None"
  using tries_total [of "[a1, a2]"] by (simp add: grblport_request_def del: tries.simps)

text \<open>
  A request the port took on a connection made for it, or did not answer in time, goes out once;
  but a kept connection that takes the whole line and is hung up before a character of the answer
  earns a second try, so a jog the controller may have run is sent to it again.
\<close>

lemma hung_up_after_taking:
  "grblport_request \<lparr>path_fits = True, connects = True, sends = Some 19, looks = [(3, Hung_Up)]\<rparr>
     \<lparr>path_fits = True, connects = True, sends = Some 19,
       looks = [(0, Got (CHR ''o'')), (0, Got (CHR ''k'')), (1, Got newline)]\<rparr>
     Set_Package op_jog (Some ''G91 G21 X5 F99'') 64 \<lparr>port_open = True, traffic = []\<rparr> =
   Some (Port_Ok, ''ok'',
     \<lparr>port_open = True,
      traffic = [Sent (''jog G91 G21 X5 F99'' @ [newline]), Shut, Opened, Sent (''jog G91 G21 X5 F99'' @ [newline]),
        Received (CHR ''o''), Received (CHR ''k''), Received newline]\<rparr>)"
  by code_simp

section \<open>The words of a jog\<close>

text \<open>What the controller reads for an axis: the number after its letter, or nothing.\<close>

definition axis_word :: "char \<Rightarrow> string \<Rightarrow> dbl option" where
  "axis_word c w = (case dropWhile (\<lambda>d. d \<noteq> c) w of [] \<Rightarrow> None | _ # r \<Rightarrow> Some (fst (strtod r)))"

definition number_char :: "char \<Rightarrow> bool" where
  "number_char c \<longleftrightarrow> is_digit c \<or> c = CHR ''.'' \<or> c = CHR ''-''"

lemma fmt_f_chars: "\<forall>c\<in>set (fmt_f k x). number_char c"
  using digits_of_digits pad0_digits [OF digits_of_digits]
  by (auto simp: fmt_f_def point_digits_def number_char_def)

lemma show_int_chars: "\<forall>c\<in>set (show_int i). number_char c"
  using digits_of_digits by (auto simp: show_int_def number_char_def)

lemma number_char_not: "number_char c \<Longrightarrow> c \<noteq> newline \<and> c \<noteq> cret \<and> \<not> is_upper c"
  by (auto simp: number_char_def char_class_defs)

lemma axis_word_skip: "c \<notin> set s \<Longrightarrow> axis_word c (s @ r) = axis_word c r"
  by (induction s) (auto simp: axis_word_def)

lemma axis_word_none: "c \<notin> set s \<Longrightarrow> axis_word c s = None"
  by (induction s) (auto simp: axis_word_def)

lemma jog_axis_chars: "d \<in> set (jog_axis c x) \<Longrightarrow> d = CHR '' '' \<or> d = c \<or> number_char d"
  using fmt_f_chars by (auto simp: jog_axis_def split: if_splits)

lemma jog_axis_none: "\<bar>x\<bar> < 0.0005 \<Longrightarrow> jog_axis c x = []"
  by (simp add: jog_axis_def)

lemma axis_word_here:
  assumes "\<not> \<bar>x\<bar> < 0.0005" "r = [] \<or> hd r = CHR '' ''" "c \<noteq> CHR '' ''"
  shows "axis_word c (jog_axis c x @ r) = Some (Fin (shown_f 3 x))"
proof -
  have "ends_number r"
    using assms(2) by (auto simp: ends_number_def is_dig_def digit_of_def lower_c_def char_class_defs)
  with assms(1,3) strtod_fmt_f [of 3 r "[]" x] show ?thesis
    by (simp add: axis_word_def jog_axis_def)
qed

lemma jog_wordsD:
  assumes "grblport_jog_words dx dy dz f len elen = Inr w"
  obtains x y z v where "dx = Fin x" "dy = Fin y" "dz = Fin z" "f = Fin v"
    and "\<bar>x\<bar> \<le> 100" "\<bar>y\<bar> \<le> 100" "\<bar>z\<bar> \<le> 5" "10 \<le> v" "v \<le> 12000"
    and "w = ''G91 G21'' @ jog_axis (CHR ''X'') x @ jog_axis (CHR ''Y'') y @ jog_axis (CHR ''Z'') z @
           '' F'' @ fmt_f0 v"
    and "length w < len" "\<not> (\<bar>x\<bar> < 0.0005 \<and> \<bar>y\<bar> < 0.0005 \<and> \<bar>z\<bar> < 0.0005)"
proof -
  obtain x y z v where e: "dx = Fin x" "dy = Fin y" "dz = Fin z" "f = Fin v"
    and n: "jog_numbers x y z v len elen = Inr w"
    using assms by (auto simp: grblport_jog_words_def jog_fail_def split: dbl.splits)
  from n have b: "\<bar>x\<bar> \<le> 100" "\<bar>y\<bar> \<le> 100" "\<bar>z\<bar> \<le> 5" "10 \<le> v" "v \<le> 12000"
    by (auto simp: jog_numbers_def jog_fail_def jog_limits split: if_splits)
  from n have w: "w = ''G91 G21'' @ jog_axis (CHR ''X'') x @ jog_axis (CHR ''Y'') y @ jog_axis (CHR ''Z'') z @
      '' F'' @ fmt_f0 v" "length w < len"
    "jog_axis (CHR ''X'') x @ jog_axis (CHR ''Y'') y @ jog_axis (CHR ''Z'') z \<noteq> []"
    by (auto simp: jog_numbers_def jog_fail_def Let_def split: if_splits option.splits)
  then have "\<not> (\<bar>x\<bar> < 0.0005 \<and> \<bar>y\<bar> < 0.0005 \<and> \<bar>z\<bar> < 0.0005)" by (auto simp: jog_axis_none)
  with that e b w show thesis by blast
qed

definition axis_reads :: "char \<Rightarrow> string \<Rightarrow> real \<Rightarrow> real \<Rightarrow> bool" where
  "axis_reads c w x bound \<longleftrightarrow>
     (if \<bar>x\<bar> < 0.0005 then axis_word c w = None
      else \<exists>v. axis_word c w = Some (Fin v) \<and> \<bar>v - x\<bar> \<le> 0.0005 \<and> \<bar>v\<bar> \<le> bound)"

text \<open>C26. 
  The words of a jog are the motion that was asked for and no more than the dead-man allows: the
  text is the relative, metric form, one line that fits its buffer, and what each axis reads back
  as is its increment to within half a thousandth of a millimetre and within the bound itself
  (rounding never carries a jog past it); an axis below the port's resolution has no word.
\<close>

theorem jog_words_bounded:
  assumes "grblport_jog_words dx dy dz f len elen = Inr w"
  shows "\<exists>x y z v. dx = Fin x \<and> dy = Fin y \<and> dz = Fin z \<and> f = Fin v \<and> 10 \<le> v \<and> v \<le> 12000 \<and>
    axis_reads (CHR ''X'') w x 100 \<and> axis_reads (CHR ''Y'') w y 100 \<and> axis_reads (CHR ''Z'') w z 5 \<and>
    starts_with ''G91 G21 '' w \<and> \<not> line_breaks w \<and> length w < len"
proof -
  obtain x y z v where e: "dx = Fin x" "dy = Fin y" "dz = Fin z" "f = Fin v"
    and b: "\<bar>x\<bar> \<le> 100" "\<bar>y\<bar> \<le> 100" "\<bar>z\<bar> \<le> 5" and v: "10 \<le> v" "v \<le> 12000"
    and w: "w = ''G91 G21'' @ jog_axis (CHR ''X'') x @ jog_axis (CHR ''Y'') y @ jog_axis (CHR ''Z'') z @
              '' F'' @ fmt_f0 v"
    and l: "length w < len" and some: "\<not> (\<bar>x\<bar> < 0.0005 \<and> \<bar>y\<bar> < 0.0005 \<and> \<bar>z\<bar> < 0.0005)"
    using jog_wordsD [OF assms] by metis
  have no: "c \<notin> set (jog_axis d u)" if "is_upper c" "c \<noteq> d" for c d u
    using that jog_axis_chars [of c d u] number_char_not by (auto simp: char_class_defs)
  have nf: "c \<notin> set ('' F'' @ fmt_f0 v)" if "is_upper c" "c \<noteq> CHR ''F''" for c
    using that show_int_chars number_char_not by (auto simp: fmt_f0_def char_class_defs)
  have up: "is_upper (CHR ''X'')" "is_upper (CHR ''Y'')" "is_upper (CHR ''Z'')"
    by (simp_all add: char_class_defs)
  have sp: "hd (jog_axis d u @ CHR '' '' # r) = CHR '' ''" for d u r
    by (simp add: jog_axis_def)
  have rd: "axis_reads c (p @ jog_axis c u @ q) u (of_nat m)"
    if "c \<notin> set p" "c \<notin> set q" "hd q = CHR '' ''" "c \<noteq> CHR '' ''" "\<bar>u\<bar> \<le> of_nat m" for c p q u m
  proof (cases "\<bar>u\<bar> < 0.0005")
    case True
    with that show ?thesis by (simp add: axis_reads_def jog_axis_none axis_word_skip axis_word_none)
  next
    case False
    then show ?thesis
      using that axis_word_here [of u q c] shown_f_bound [of u m 3] shown_f_close [of 3 u]
      by (simp add: axis_reads_def axis_word_skip)
  qed
  have X: "axis_reads (CHR ''X'') w x 100"
    using rd [of "CHR ''X''" "''G91 G21''" "jog_axis (CHR ''Y'') y @ jog_axis (CHR ''Z'') z @ '' F'' @ fmt_f0 v" x 100]
      no [OF up(1)] nf [OF up(1)] b w sp by (simp add: jog_axis_def)
  have Y: "axis_reads (CHR ''Y'') w y 100"
    using rd [of "CHR ''Y''" "''G91 G21'' @ jog_axis (CHR ''X'') x" "jog_axis (CHR ''Z'') z @ '' F'' @ fmt_f0 v" y 100]
      no [OF up(2)] nf [OF up(2)] b w sp by (simp add: jog_axis_def)
  have Z: "axis_reads (CHR ''Z'') w z 5"
    using rd [of "CHR ''Z''" "''G91 G21'' @ jog_axis (CHR ''X'') x @ jog_axis (CHR ''Y'') y" "'' F'' @ fmt_f0 v" z 5]
      no [OF up(3)] nf [OF up(3)] b w by simp
  have nb: "\<not> line_breaks w"
    using jog_axis_chars show_int_chars number_char_not
    by (fastforce simp: w line_breaks_def list_ex_iff fmt_f0_def)
  have "starts_with ''G91 G21 '' w"
    using w by (auto simp: starts_with_def jog_axis_def)
  with e v X Y Z nb l show ?thesis by blast
qed

theorem jog_words_bounded_witness:
  "grblport_jog_words (Fin 12.5) (Fin (- 3)) (Fin 0) (Fin 3000) 96 96 = Inr ''G91 G21 X12.500 Y-3.000 F3000'' \<and>
   axis_reads (CHR ''X'') ''G91 G21 X12.500 Y-3.000 F3000'' 12.5 100"
proof -
  have *: "grblport_jog_words (Fin 12.5) (Fin (- 3)) (Fin 0) (Fin 3000) 96 96 = Inr ''G91 G21 X12.500 Y-3.000 F3000''"
    by (simp add: grblport_jog_words_def jog_numbers_def jog_limits jog_axis_def fmt_f_def scaled_def
        round_half_even_def point_digits_def digits_of.simps pad0_def put_def fmt_f0_def show_int_def Let_def)
      code_simp
  then show ?thesis using jog_words_bounded [OF *] by (metis dbl.inject)
qed

end
