(* ===== verification/Jobpost.thy ===== *)
theory Jobpost
  imports Runner
begin

text \<open>
  The job runner's routes (\<open>src/jobpost.c\<close>): an upload is staged as it arrives, under one mutex, and
  the route takes the staged file to the runner outside it. A request is known by its identity (a
  pointer in the code, a number here), the staging file by the inode its name leads to, so that
  what is written under one name and what is read from it can be told apart. A route is a sequence
  of steps between which any other thread may run; what the daemon's guards answer for a request
  (\<open>Auth\<close>) and what the system calls answer are inputs. \<open>playing_file\<close> is the inode the runner's
  program reads.
\<close>

definition lit_within_max_s :: real where "lit_within_max_s = 3600"
definition timeout_max_s :: real where "timeout_max_s = 86400"
definition jobrun_program_max :: nat where "jobrun_program_max = 16 * 1024 * 1024"
definition up_silent_s :: real where "up_silent_s = 60"

text \<open>The form of a post, and where a route is.\<close>

record job_form =
  form_name :: "string option"
  form_lit :: "string option"
  form_timeout :: "string option"
  form_unlock :: "string option"

datatype route =
    Route_None
  | Took nat nat string job_form
  | Checked job_form "string option"
  | Rechecked nat job_form "string option"
  | Opened_File nat nat job_form "string option"
  | Unnamed nat nat job_form "string option"
  | Replied nat string
  | Recorded

record jobpost =
  up_fp :: "nat option"
  up_owner :: "nat option"
  up_last :: real
  up_bytes :: nat
  up_error :: nat
  up_refusal :: string
  staging :: "nat option"
  content :: "nat \<Rightarrow> string"
  next_inode :: nat
  jrunner :: runner
  playing_file :: "nat option"
  routes :: "nat \<Rightarrow> route"

definition jobpost_boot :: jobpost where
  "jobpost_boot = \<lparr>up_fp = None, up_owner = None, up_last = 0, up_bytes = 0, up_error = 0, up_refusal = [],
     staging = None, content = (\<lambda>_. []), next_inode = 0, jrunner = runner_boot, playing_file = None,
     routes = (\<lambda>_. Route_None)\<rparr>"

definition is_job_post :: "string option \<Rightarrow> bool" where
  "is_job_post url = (case url of None \<Rightarrow> False | Some u \<Rightarrow> u = ''/job'' \<or> starts_with ''/job?'' u)"

section \<open>The staging file\<close>

definition unlink_staging :: "jobpost \<Rightarrow> jobpost" where
  "unlink_staging st = st\<lparr>staging := None\<rparr>"

text \<open>\<open>fopen(path, "wb")\<close>: the file the name leads to, emptied, or a new one.\<close>

definition open_staging :: "jobpost \<Rightarrow> jobpost" where
  "open_staging st =
     (case staging st of
        Some i \<Rightarrow> st\<lparr>content := (content st)(i := []), up_fp := Some i\<rparr>
      | None \<Rightarrow>
          (let i = next_inode st in
           st\<lparr>content := (content st)(i := []), up_fp := Some i, staging := Some i, next_inode := i + 1\<rparr>))"

definition refuse_locked :: "nat \<Rightarrow> string \<Rightarrow> jobpost \<Rightarrow> jobpost" where
  "refuse_locked status why st =
     (let st = st\<lparr>up_error := status, up_refusal := fit 160 why\<rparr>
      in if up_fp st = None then st else unlink_staging st\<lparr>up_fp := None\<rparr>)"

section \<open>The sink\<close>

record sink_in =
  k_req :: nat
  k_url :: "string option"
  k_permitted :: bool
  k_key :: "string option"
  k_data :: string
  k_off :: nat
  k_now :: real
  k_host :: bool
  k_opens :: bool
  k_writes :: bool

definition sink_begin :: "sink_in \<Rightarrow> jobpost \<Rightarrow> jobpost" where
  "sink_begin k st0 =
     (let st = st0\<lparr>up_fp := None, up_owner := Some (k_req k), up_bytes := 0, up_error := 0, up_refusal := []\<rparr>;
          ext_held = (case lease_holder (mlease (jrunner st)) of None \<Rightarrow> False | Some h \<Rightarrow> starts_with ''ext:'' h)
      in case (if k_host k \<and> ext_held then None else lease_refusal (mlease (jrunner st))) of
           Some why \<Rightarrow> refuse_locked 409 (fit 128 why) st
         | None \<Rightarrow> if \<not> k_opens k then refuse_locked 500 ''cannot open the staging file'' st else open_staging st)"

definition sink_write :: "sink_in \<Rightarrow> jobpost \<Rightarrow> jobpost" where
  "sink_write k st =
     (let st = st\<lparr>up_last := k_now k\<rparr>; n = length (k_data k) in
      if jobrun_program_max < up_bytes st + n then refuse_locked 413 ''the program exceeds the size limit'' st
      else if 0 < n \<and> \<not> k_writes k then refuse_locked 500 ''writing the staging file failed'' st
      else (case up_fp st of
              Some i \<Rightarrow> st\<lparr>content := (content st)(i := content st i @ k_data k), up_bytes := up_bytes st + n\<rparr>
            | None \<Rightarrow> st\<lparr>up_bytes := up_bytes st + n\<rparr>))"

definition sink_refused :: "sink_in \<Rightarrow> jobpost \<Rightarrow> bool" where
  "sink_refused k st \<longleftrightarrow>
     (case up_owner st of None \<Rightarrow> False | Some r \<Rightarrow> r \<noteq> k_req k \<and> k_now k - up_last st < up_silent_s)"

definition jobpost_sink :: "sink_in \<Rightarrow> jobpost \<Rightarrow> bool \<times> jobpost" where
  "jobpost_sink k st =
     (if \<not> is_job_post (k_url k) then (False, st)
      else if \<not> k_permitted k \<or> k_key k \<noteq> Some ''program'' then (True, st)
      else if k_off k = 0 \<and> sink_refused k st then (True, st)
      else
        let st1 = (if k_off k = 0 then sink_begin k st else st)
        in (True, if up_owner st1 = Some (k_req k) \<and> up_error st1 = 0 then sink_write k st1 else st1))"

section \<open>The route\<close>

text \<open>A field in seconds: its value, and whether it is out of its range.\<close>

definition field_s :: "string option \<Rightarrow> real \<Rightarrow> dbl \<times> bool" where
  "field_s v cap =
     (case v of None \<Rightarrow> (Fin 0, False)
      | Some s \<Rightarrow>
          if s = [] then (Fin 0, False)
          else let (d, rest) = strtod s in (d, rest \<noteq> [] \<or> \<not> d_le (Fin 0) d \<or> d_lt (Fin cap) d))"

definition staged_text :: "jobpost \<Rightarrow> string option" where
  "staged_text st = map_option (content st) (staging st)"

definition go_route :: "nat \<Rightarrow> route \<Rightarrow> jobpost \<Rightarrow> jobpost" where
  "go_route r p st = st\<lparr>routes := (routes st)(r := p)\<rparr>"

definition bad_times :: string where
  "bad_times = ''lit_within_s is 0 to 3600 and timeout_s 0 to 86400, in seconds''"

definition bad_name :: string where
  "bad_name = ''name says who sends the job: 1 to 63 of letters, digits, '' @
     [CHR 0x27] @ ''.'' @ [CHR 0x27] @ '', '' @ [CHR 0x27] @ ''_'' @ [CHR 0x27] @ '' and '' @ [CHR 0x27] @ ''-'' @ [CHR 0x27]"

text \<open>\<open>cb_job_post\<close> up to the unlock: the upload is the route's, or somebody else's, or none.\<close>

definition route_begin :: "nat \<Rightarrow> bool \<Rightarrow> job_form \<Rightarrow> jobpost \<Rightarrow> jobpost" where
  "route_begin r ok form st =
     (if \<not> ok then go_route r (Replied 403 []) st
      else if up_owner st \<noteq> Some r
      then go_route r (if up_owner st \<noteq> None then Replied 409 ''another program is being uploaded''
                       else Replied 400 ''no program was received (the file part is `program`)'') st
      else go_route r (Took (up_error st) (up_bytes st) (fit 160 (up_refusal st)) form) st\<lparr>up_fp := None, up_owner := None\<rparr>)"

text \<open>What the form and the staged file are refused for, with the file gone.\<close>

definition post_refusal :: "nat \<Rightarrow> job_form \<Rightarrow> jobpost \<Rightarrow> string option" where
  "post_refusal bytes form st =
     (if bytes = 0 then Some ''the program is empty''
      else if snd (field_s (form_lit form) lit_within_max_s) \<or> snd (field_s (form_timeout form) timeout_max_s)
      then Some bad_times
      else if \<not> jobrun_name_ok (form_name form) then Some bad_name
      else case jobrun_program_check (staged_text st) of Inl why \<Rightarrow> Some (fit 160 why) | Inr _ \<Rightarrow> None)"

text \<open>The hold the job runs under: the extension's of the same name, on the host's word.\<close>

definition job_under :: "bool \<Rightarrow> job_form \<Rightarrow> jobpost \<Rightarrow> string option" where
  "job_under host form st =
     (let own = fit lease_owner_max (''ext:'' @ the (form_name form))
      in if host \<and> lease_holder (mlease (jrunner st)) = Some own then Some own else None)"

definition lit_of :: "job_form \<Rightarrow> dbl" where "lit_of form = fst (field_s (form_lit form) lit_within_max_s)"

text \<open>
  One step on: the form and the first check; \<open>jobrun_program_start\<close>'s own check, its \<open>fopen\<close>, its
  \<open>unlink\<close>, and the start under the runner's mutex.
\<close>

definition route_step :: "nat \<Rightarrow> bool \<Rightarrow> bool \<Rightarrow> bool \<Rightarrow> real \<Rightarrow> bool \<Rightarrow> jobpost \<Rightarrow> jobpost" where
  "route_step r host opens client now spawned st =
     (case routes st r of
        Took status bytes why form \<Rightarrow>
          if status \<noteq> 0 then go_route r (Replied status why) st
          else (case post_refusal bytes form st of
                  Some w \<Rightarrow> go_route r (Replied 400 w) (unlink_staging st)
                | None \<Rightarrow> go_route r (Checked form (job_under host form st)) st)
      | Checked form below \<Rightarrow>
          (case program_ready (form_name form) (staged_text st) of
             Inl why \<Rightarrow> go_route r (Replied 409 (fit 160 why)) (unlink_staging st)
           | Inr n \<Rightarrow> go_route r (Rechecked n form below) st)
      | Rechecked n form below \<Rightarrow>
          (case (if opens then staging st else None) of
             None \<Rightarrow> go_route r (Replied 409 ''no program was received'') (unlink_staging st)
           | Some i \<Rightarrow> go_route r (Opened_File i n form below) st)
      | Opened_File i n form below \<Rightarrow> go_route r (Unnamed i n form below) (unlink_staging st)
      | Unnamed i n form below \<Rightarrow>
          (let (e, rn) = program_start (content st i) (the (form_name form)) below (form_unlock form = Some ''1'') n
                           client now spawned (jrunner st)
           in case e of
                Some why \<Rightarrow> go_route r (Replied 409 (fit 160 why)) st\<lparr>jrunner := rn\<rparr>
              | None \<Rightarrow> go_route r Recorded st\<lparr>jrunner := rn, playing_file := Some i\<rparr>)
      | _ \<Rightarrow> st)"

section \<open>A run of the module\<close>

datatype post_act =
    Sink sink_in
  | Post nat bool job_form
  | On nat bool bool bool real bool
  | Runs run_act

definition at_rest :: "route \<Rightarrow> bool" where
  "at_rest p = (case p of Route_None \<Rightarrow> True | Replied _ _ \<Rightarrow> True | Recorded \<Rightarrow> True | _ \<Rightarrow> False)"

fun post_step :: "post_act \<Rightarrow> jobpost \<Rightarrow> jobpost" where
  "post_step (Sink k) st = snd (jobpost_sink k st)"
| "post_step (Post r ok form) st = (if at_rest (routes st r) then route_begin r ok form st else st)"
| "post_step (On r host opens client now spawned) st = route_step r host opens client now spawned st"
| "post_step (Runs a) st = st\<lparr>jrunner := run_step a (jrunner st)\<rparr>"

text \<open>\<open>cb_job_abort\<close>: whom it stops, or the answer.\<close>

definition cb_job_abort :: "bool \<Rightarrow> jobpost \<Rightarrow> nat \<times> string + string" where
  "cb_job_abort ok st =
     (if \<not> ok then Inl (403, [])
      else case program_abort (jrunner st) of Inl why \<Rightarrow> Inl (409, fit 160 why) | Inr who \<Rightarrow> Inr who)"

end
