(* ===== verification/JobpostProps.thy ===== *)
theory JobpostProps
  imports Jobpost
begin

text \<open>
  What a posted job plays: the file that was checked, under which nothing writes, as long as no
  upload begins while a route holds a staged file; and the two ways that fails, an upload that
  begins in that time, and a request that takes the identity of one whose client went away.
\<close>

section \<open>The invariant\<close>

definition in_hand :: "route \<Rightarrow> bool" where
  "in_hand p \<longleftrightarrow> \<not> at_rest p"

lemma in_hand_simps [simp]:
  "\<not> in_hand Route_None" "\<not> in_hand (Replied s w)" "\<not> in_hand Recorded" "in_hand (Took s n w f)"
  "in_hand (Checked f u)" "in_hand (Rechecked n f u)" "in_hand (Opened_File i n f u)" "in_hand (Unnamed i n f u)"
  by (simp_all add: in_hand_def at_rest_def)

definition upload_ok :: "jobpost \<Rightarrow> bool" where
  "upload_ok st \<longleftrightarrow>
     (up_error st \<noteq> 0 \<longrightarrow> up_fp st = None) \<and> (up_fp st \<noteq> None \<longrightarrow> up_owner st \<noteq> None) \<and>
     up_bytes st \<le> jobrun_program_max \<and>
     (\<forall>i. up_fp st = Some i \<longrightarrow> staging st = Some i \<and> length (content st i) = up_bytes st) \<and>
     (\<forall>i. staging st = Some i \<longrightarrow> i < next_inode st)"

definition route_ok :: "jobpost \<Rightarrow> route \<Rightarrow> bool" where
  "route_ok st p =
     (case p of
        Rechecked n f u \<Rightarrow> jobrun_program_check (staged_text st) = Inr n
      | Opened_File i n f u \<Rightarrow> staging st = Some i \<and> jobrun_program_check (Some (content st i)) = Inr n
      | Unnamed i n f u \<Rightarrow>
          staging st \<noteq> Some i \<and> i < next_inode st \<and> jobrun_program_check (Some (content st i)) = Inr n
      | _ \<Rightarrow> True)"

definition play_ok :: "jobpost \<Rightarrow> bool" where
  "play_ok st \<longleftrightarrow>
     (\<forall>i. playing_file st = Some i \<longrightarrow>
        (\<exists>n. jobrun_program_check (Some (content st i)) = Inr n) \<and> staging st \<noteq> Some i \<and> i < next_inode st)"

definition one_in_hand :: "jobpost \<Rightarrow> bool" where
  "one_in_hand st \<longleftrightarrow>
     (\<forall>r. in_hand (routes st r) \<longrightarrow> up_owner st = None \<and> (\<forall>r'. in_hand (routes st r') \<longrightarrow> r' = r))"

definition post_inv :: "jobpost \<Rightarrow> bool" where
  "post_inv st \<longleftrightarrow> upload_ok st \<and> one_in_hand st \<and> play_ok st \<and> (\<forall>r. route_ok st (routes st r))"

lemma post_boot_inv: "post_inv jobpost_boot"
  by (simp add: post_inv_def jobpost_boot_def upload_ok_def one_in_hand_def play_ok_def route_ok_def)

text \<open>An upload that begins, and the run in which none begins while a staged file is in a route's hands.\<close>

definition begins :: "sink_in \<Rightarrow> jobpost \<Rightarrow> bool" where
  "begins k st \<longleftrightarrow>
     is_job_post (k_url k) \<and> k_permitted k \<and> k_key k = Some ''program'' \<and> k_off k = 0 \<and> \<not> sink_refused k st"

definition clear_of :: "post_act \<Rightarrow> jobpost \<Rightarrow> bool" where
  "clear_of a st = (case a of Sink k \<Rightarrow> begins k st \<longrightarrow> (\<forall>r. \<not> in_hand (routes st r)) | _ \<Rightarrow> True)"

fun guarded :: "post_act list \<Rightarrow> jobpost \<Rightarrow> bool" where
  "guarded [] st = True"
| "guarded (a # as) st = (clear_of a st \<and> guarded as (post_step a st))"

section \<open>The sink\<close>

lemma route_ok_rest: "\<not> in_hand p \<Longrightarrow> route_ok st p"
  by (cases p) (auto simp: route_ok_def)

lemma sink_begin_frame:
  "routes (sink_begin k st) = routes st" "playing_file (sink_begin k st) = playing_file st"
  "next_inode st \<le> next_inode (sink_begin k st)"
  "content (sink_begin k st) j = content st j \<or> staging st = Some j \<or> j = next_inode st"
  "staging (sink_begin k st) = staging st \<or> staging (sink_begin k st) = Some (next_inode st)"
  by (auto simp: sink_begin_def refuse_locked_def open_staging_def Let_def split: option.splits if_splits)

lemma sink_begin_upload: "upload_ok st \<Longrightarrow> upload_ok (sink_begin k st)"
  by (auto simp: sink_begin_def refuse_locked_def open_staging_def upload_ok_def Let_def split: option.splits if_splits)

lemma sink_write_frame:
  "routes (sink_write k st) = routes st" "playing_file (sink_write k st) = playing_file st"
  "next_inode (sink_write k st) = next_inode st"
  "content (sink_write k st) j = content st j \<or> up_fp st = Some j"
  "staging (sink_write k st) = staging st \<or> staging (sink_write k st) = None"
  "up_owner (sink_write k st) = up_owner st"
  by (auto simp: sink_write_def refuse_locked_def unlink_staging_def Let_def split: option.splits if_splits)

lemma sink_write_upload: "upload_ok st \<Longrightarrow> up_error st = 0 \<Longrightarrow> upload_ok (sink_write k st)"
  by (auto simp: sink_write_def refuse_locked_def unlink_staging_def upload_ok_def Let_def split: option.splits if_splits)

text \<open>What a sink leaves alone: a file that neither has the staging name nor is being written.\<close>

definition same_files :: "jobpost \<Rightarrow> jobpost \<Rightarrow> bool" where
  "same_files st st' \<longleftrightarrow>
     (\<forall>j. j < next_inode st \<longrightarrow> staging st \<noteq> Some j \<longrightarrow> content st' j = content st j \<and> staging st' \<noteq> Some j) \<and>
     next_inode st \<le> next_inode st' \<and> playing_file st' = playing_file st"

lemma sink_begin_same: "same_files st (sink_begin k st)"
  using sink_begin_frame [where k = k and st = st] unfolding same_files_def by (metis less_irrefl option.inject)

lemma sink_write_same: "upload_ok st \<Longrightarrow> same_files st (sink_write k st)"
  using sink_write_frame [where k = k and st = st] unfolding same_files_def upload_ok_def
  by (metis option.distinct(1) order_refl)

lemma same_trans: "same_files a b \<Longrightarrow> same_files b c \<Longrightarrow> same_files a c"
  unfolding same_files_def by (metis order_less_le_trans order_trans)

lemma sink_same: "upload_ok st \<Longrightarrow> same_files st (snd (jobpost_sink k st))"
  using sink_begin_same [of st k] sink_write_same [of st k] sink_write_same [of "sink_begin k st" k]
    same_trans [of st "sink_begin k st"] sink_begin_upload [of st k]
  by (auto simp: jobpost_sink_def Let_def same_files_def)

lemma sink_upload: "upload_ok st \<Longrightarrow> upload_ok (snd (jobpost_sink k st))"
  by (auto simp: jobpost_sink_def Let_def sink_begin_upload sink_write_upload)

lemma sink_routes: "routes (snd (jobpost_sink k st)) = routes st"
  by (auto simp: jobpost_sink_def Let_def sink_begin_frame sink_write_frame)

lemma sink_idle: "\<not> begins k st \<Longrightarrow> up_owner st = None \<Longrightarrow> snd (jobpost_sink k st) = st"
  by (auto simp: jobpost_sink_def begins_def Let_def)

lemma play_same: "same_files st st' \<Longrightarrow> play_ok st \<Longrightarrow> play_ok st'"
  unfolding same_files_def play_ok_def by (metis order_less_le_trans)

lemma sink_inv: "post_inv st \<Longrightarrow> clear_of (Sink k) st \<Longrightarrow> post_inv (snd (jobpost_sink k st))"
proof (cases "\<exists>r. in_hand (routes st r)")
  case True
  assume "post_inv st" "clear_of (Sink k) st"
  with True show ?thesis by (auto simp: clear_of_def sink_idle post_inv_def one_in_hand_def)
next
  case False
  assume "post_inv st" "clear_of (Sink k) st"
  with False sink_same [of st k] play_same show ?thesis
    by (auto simp: post_inv_def one_in_hand_def sink_upload sink_routes route_ok_rest)
qed

section \<open>The routes\<close>

lemma others_rest:
  "post_inv st \<Longrightarrow> in_hand (routes st r) \<Longrightarrow> r' \<noteq> r \<Longrightarrow> \<not> in_hand (routes st r')"
  by (auto simp: post_inv_def one_in_hand_def)

lemma alone_inv:
  assumes others: "\<And>r'. r' \<noteq> r \<Longrightarrow> \<not> in_hand (routes st r')"
    and st': "upload_ok st'" "play_ok st'" "route_ok st' p" "in_hand p \<Longrightarrow> up_owner st' = None"
    and rt: "routes st' = (routes st)(r := p)"
  shows "post_inv st'"
proof -
  have rest: "\<not> in_hand (routes st' r')" if "r' \<noteq> r" for r'
    using others [OF that] rt that by simp
  have "route_ok st' (routes st' r')" for r'
    using rt st'(3) rest [of r'] by (cases "r' = r") (auto simp: route_ok_rest)
  moreover have "one_in_hand st'"
    unfolding one_in_hand_def using rest rt st'(4) by (metis fun_upd_same)
  ultimately show ?thesis using st'(1,2) by (simp add: post_inv_def)
qed

lemma reply_inv:
  assumes "post_inv st" "\<not> in_hand (routes st r)" "\<not> in_hand p"
  shows "post_inv (go_route r p st)"
proof -
  have f: "upload_ok (go_route r p st) = upload_ok st" "play_ok (go_route r p st) = play_ok st"
    "route_ok (go_route r p st) q = route_ok st q" "up_owner (go_route r p st) = up_owner st"
    "routes (go_route r p st) = (routes st)(r := p)" for q
    by (cases q; simp add: upload_ok_def play_ok_def route_ok_def go_route_def staged_text_def)+
  show ?thesis
    using assms unfolding post_inv_def one_in_hand_def f by (metis fun_upd_apply route_ok_rest)
qed

lemma begin_inv: "post_inv st \<Longrightarrow> \<not> in_hand (routes st r) \<Longrightarrow> post_inv (route_begin r ok form st)"
proof (cases "ok \<and> up_owner st = Some r")
  case False
  assume "post_inv st" "\<not> in_hand (routes st r)"
  with False show ?thesis by (auto simp: route_begin_def intro!: reply_inv)
next
  case True
  assume inv: "post_inv st"
  let ?p = "Took (up_error st) (up_bytes st) (fit 160 (up_refusal st)) form"
  have e: "route_begin r ok form st = go_route r ?p st\<lparr>up_fp := None, up_owner := None\<rparr>"
    using True by (simp add: route_begin_def)
  have no: "\<not> in_hand (routes st r')" for r'
    using inv True by (auto simp: post_inv_def one_in_hand_def)
  show ?thesis
    unfolding e using inv no
    by (intro alone_inv [where st = st and r = r and p = ?p])
       (auto simp: post_inv_def go_route_def upload_ok_def play_ok_def route_ok_def)
qed

lemma step_one:
  assumes inv: "post_inv st" and h: "in_hand (routes st r)"
    and st': "upload_ok st'" "play_ok st'" "route_ok st' p" "up_owner st' = up_owner st"
    and rt: "routes st' = (routes st)(r := p)"
  shows "post_inv st'"
  using others_rest [OF inv h] st' rt inv h
  by (intro alone_inv [where st = st and r = r and p = p]) (auto simp: post_inv_def one_in_hand_def)

lemma staged_check: "jobrun_program_check (staged_text st) = Inr n \<Longrightarrow> \<exists>i. staging st = Some i"
  by (cases "staging st") (auto simp: staged_text_def jobrun_program_check_def)

lemma step_inv: "post_inv st \<Longrightarrow> post_inv (route_step r host opens client now spawned st)"
proof -
  assume inv: "post_inv st"
  let ?go = "route_step r host opens client now spawned st"
  show ?thesis
  proof (cases "in_hand (routes st r)")
    case False
    with inv show ?thesis by (cases "routes st r") (auto simp: route_step_def)
  next
    case h: True
    have fp: "up_fp st = None" and u: "upload_ok st" and pl: "play_ok st" and rk: "route_ok st (routes st r)"
      using inv h by (auto simp: post_inv_def one_in_hand_def upload_ok_def)
    have own: "up_owner ?go = up_owner st" and p: "routes ?go = (routes st)(r := routes ?go r)"
      by (auto simp: route_step_def go_route_def unlink_staging_def Let_def split: route.splits option.splits sum.splits prod.splits)
    have up: "upload_ok ?go"
      using u fp by (auto simp: route_step_def go_route_def unlink_staging_def upload_ok_def Let_def
          split: route.splits option.splits sum.splits prod.splits)
    have pk: "play_ok ?go" and rk': "route_ok ?go (routes ?go r)"
      using pl rk u h
      by (auto simp: route_step_def go_route_def unlink_staging_def play_ok_def route_ok_def upload_ok_def Let_def
          program_ready_def staged_text_def split: route.splits option.splits sum.splits prod.splits if_splits)
    show ?thesis by (rule step_one [OF inv h up pk rk' own p])
  qed
qed

lemma runner_only: "post_inv (st\<lparr>jrunner := x\<rparr>) = post_inv st"
proof -
  have "route_ok (st\<lparr>jrunner := x\<rparr>) p = route_ok st p" for p
    by (cases p) (simp_all add: route_ok_def staged_text_def)
  then show ?thesis by (simp add: post_inv_def upload_ok_def one_in_hand_def play_ok_def)
qed

lemma post_step_inv: "post_inv st \<Longrightarrow> clear_of a st \<Longrightarrow> post_inv (post_step a st)"
  by (cases a) (auto simp: sink_inv begin_inv step_inv in_hand_def runner_only)

lemma guarded_inv: "guarded as st \<Longrightarrow> post_inv st \<Longrightarrow> post_inv (fold post_step as st)"
  by (induction "as" arbitrary: st) (auto simp: post_step_inv)

section \<open>What plays\<close>

lemma step_content:
  assumes "post_inv st" "playing_file st = Some i"
  shows "content (post_step a st) i = content st i"
proof (cases a)
  case (Sink k)
  have "same_files st (snd (jobpost_sink k st))" using assms(1) by (simp add: sink_same post_inv_def)
  then show ?thesis using assms Sink by (auto simp: same_files_def post_inv_def play_ok_def)
next
  case (On r host opens client now spawned)
  then show ?thesis
    by (auto simp: route_step_def go_route_def unlink_staging_def Let_def
        split: route.splits option.splits sum.splits prod.splits)
qed (auto simp: route_begin_def go_route_def)

lemma started_stays:
  "guarded bs st \<Longrightarrow> post_inv st \<Longrightarrow> playing_file st = Some i \<Longrightarrow>
   (\<And>a s. a \<in> set bs \<Longrightarrow> playing_file (post_step a s) = playing_file s) \<Longrightarrow>
   content (fold post_step bs st) i = content st i"
  by (induction bs arbitrary: st) (auto simp: step_content post_step_inv)

text \<open>C27. 
  As long as no upload begins while a route has a staged file in its hands, the job that plays is
  the file that was checked: over any such run of uploads, posts and steps of their routes by any
  number of clients, the file the runner was started on is one its check accepts, it has no name
  any more, nothing writes it, and a file that is being staged is exactly the bytes taken so far, no
  more than the limit.
\<close>

theorem job_plays_checked_file:
  assumes "guarded as jobpost_boot" and "st = fold post_step as jobpost_boot"
  shows "(playing_file st = Some i \<longrightarrow>
            (\<exists>n. jobrun_program_check (Some (content st i)) = Inr n) \<and> staging st \<noteq> Some i \<and> up_fp st \<noteq> Some i) \<and>
         (up_fp st = Some j \<longrightarrow> length (content st j) = up_bytes st \<and> up_bytes st \<le> jobrun_program_max)"
  using guarded_inv [OF assms(1) post_boot_inv] assms(2)
  by (auto simp: post_inv_def play_ok_def upload_ok_def)

section \<open>An upload in a route's time\<close>

text \<open>What a start in a free machine does.\<close>

lemma start_free:
  assumes "\<not> active rn" "\<not> joining rn" "mlease rn = []" "owner_usable (Some (fit lease_owner_max (''job:'' @ name)))"
  shows "\<exists>rn'. program_start s name None unlock n False now True rn = (None, rn') \<and> active rn' \<and> r_lines rn' = n \<and>
      prog rn' = Some (program_open s unlock)"
  using assms
  by (cases "thread_live rn")
     (simp_all add: program_start_def start_locked_def begin_locked_def lease_take_def lease_depth_def record_open_locked_def Let_def)

definition on_route :: "nat \<Rightarrow> real \<Rightarrow> post_act" where
  "on_route r now = On r False True False now True"

text \<open>
  An upload that begins after a route's last check and before its file is opened takes the file: it
  is emptied and written under the route, so the job that starts is whatever the other client sends,
  which no check has seen, under the first client's name and with its count of lines; and the other
  upload goes on writing the file the job plays.
\<close>

theorem upload_under_a_start:
  assumes r: "routes st r = Rechecked n form None" and s: "staging st = Some i" and o1: "up_owner st = None"
    and m: "\<not> active (jrunner st)" "\<not> joining (jrunner st)" "mlease (jrunner st) = []"
      "owner_usable (Some (fit lease_owner_max (''job:'' @ the (form_name form))))"
    and k: "begins k st" "k_opens k" "k_writes k" "length (k_data k) \<le> jobrun_program_max"
    and st': "st' = fold post_step [Sink k, on_route r now, on_route r now, on_route r now] st"
  shows "playing_file st' = Some i \<and> content st' i = k_data k \<and> active (jrunner st') \<and> r_lines (jrunner st') = n \<and>
    (\<exists>p. prog (jrunner st') = Some p \<and> p_file p = Some (k_data k)) \<and> up_fp st' = Some i"
proof -
  have k': "is_job_post (k_url k)" "k_permitted k" "k_key k = Some ''program''" "k_off k = 0" "\<not> sink_refused k st"
    using k(1) by (auto simp: begins_def)
  define s1 where "s1 = post_step (Sink k) st"
  have s1: "routes s1 = routes st" "staging s1 = Some i" "content s1 i = k_data k" "up_fp s1 = Some i" "jrunner s1 = jrunner st"
    using k' k(2-4) s m(3)
    by (simp_all add: s1_def jobpost_sink_def sink_begin_def sink_write_def open_staging_def lease_refusal_def Let_def)
  define s2 where "s2 = post_step (on_route r now) s1"
  have s2: "routes s2 r = Opened_File i n form None" "staging s2 = Some i" "content s2 i = k_data k" "up_fp s2 = Some i"
    "jrunner s2 = jrunner st"
    using s1 r by (simp_all add: s2_def on_route_def route_step_def go_route_def)
  define s3 where "s3 = post_step (on_route r now) s2"
  have s3: "routes s3 r = Unnamed i n form None" "content s3 i = k_data k" "up_fp s3 = Some i" "jrunner s3 = jrunner st"
    using s2 by (simp_all add: s3_def on_route_def route_step_def go_route_def unlink_staging_def)
  obtain rn' where "program_start (k_data k) (the (form_name form)) None (form_unlock form = Some ''1'') n False now True (jrunner st)
      = (None, rn')" "active rn'" "r_lines rn' = n" "prog rn' = Some (program_open (k_data k) (form_unlock form = Some ''1''))"
    using start_free [OF m] by blast
  moreover have "st' = post_step (on_route r now) s3" by (simp add: st' s1_def s2_def s3_def)
  ultimately show ?thesis
    using s3 by (simp add: on_route_def route_step_def go_route_def program_open_def)
qed

text \<open>
  A client that goes away in the middle of its upload leaves the module naming its request. The next
  post whose request has that identity, from whichever client and with no file at all, is taken for
  the owner of what had arrived, with no word of refusal.
\<close>

theorem stale_upload_adopted:
  assumes "up_owner st = Some r" "up_error st = 0" "up_bytes st = n" "\<not> in_hand (routes st r)"
    and "jobrun_program_check (staged_text st) = Inr lines" "0 < n" "jobrun_name_ok (form_name form)"
    and "form_lit form = None" "form_timeout form = None"
  shows "\<exists>below. routes (fold post_step [Post r True form, on_route r now] st) r = Checked form below"
proof -
  have "routes (post_step (Post r True form) st) r = Took 0 n (fit 160 (up_refusal st)) form"
    "staged_text (post_step (Post r True form) st) = staged_text st"
    using assms by (simp_all add: route_begin_def go_route_def staged_text_def in_hand_def)
  then show ?thesis
    using assms by (simp add: on_route_def route_step_def go_route_def post_refusal_def field_s_def)
qed

section \<open>Runs\<close>

definition chunk :: "nat \<Rightarrow> nat \<Rightarrow> real \<Rightarrow> string \<Rightarrow> sink_in" where
  "chunk r off now text =
     \<lparr>k_req = r, k_url = Some ''/job'', k_permitted = True, k_key = Some ''program'', k_data = text, k_off = off,
      k_now = now, k_host = False, k_opens = True, k_writes = True\<rparr>"

definition plain_form :: "string \<Rightarrow> job_form" where
  "plain_form name = \<lparr>form_name = Some name, form_lit = None, form_timeout = None, form_unlock = None\<rparr>"

definition g0 :: string where "g0 = ''G0 X1'' @ [newline]"

lemma g0_check: "jobrun_program_check (Some g0) = Inr 1"
  by code_simp

lemma anna_ok: "jobrun_name_ok (Some ''anna'')"
  by code_simp

lemma anna_owner: "owner_usable (Some (fit lease_owner_max (''job:'' @ ''anna'')))"
  by code_simp

lemma boot_free: "\<not> active runner_boot" "\<not> joining runner_boot" "mlease runner_boot = []"
  by (simp_all add: runner_boot_def)

lemma g0_size: "length g0 = 6" "g0 \<noteq> []"
  by (simp_all add: g0_def)

definition staged_one :: jobpost where
  "staged_one = post_step (Sink (chunk 1 0 5 g0)) jobpost_boot"

lemma staged_one_sel:
  "up_owner staged_one = Some 1" "up_error staged_one = 0" "up_bytes staged_one = 6" "staging staged_one = Some 0"
  "content staged_one 0 = g0" "routes staged_one = (\<lambda>_. Route_None)" "jrunner staged_one = runner_boot"
  "up_fp staged_one = Some 0" "playing_file staged_one = None"
  by (simp_all add: staged_one_def jobpost_boot_def jobpost_sink_def chunk_def is_job_post_def sink_refused_def sink_begin_def
      sink_write_def open_staging_def lease_holder_def lease_refusal_def runner_boot_def jobrun_program_max_def g0_size Let_def)

definition rechecked_one :: jobpost where
  "rechecked_one = fold post_step [Post 1 True (plain_form ''anna''), on_route 1 6, on_route 1 7] staged_one"

lemma rechecked_one_sel:
  "routes rechecked_one 1 = Rechecked 1 (plain_form ''anna'') None" "staging rechecked_one = Some 0"
  "up_owner rechecked_one = None" "jrunner rechecked_one = runner_boot" "content rechecked_one 0 = g0"
proof -
  define s1 where "s1 = post_step (Post 1 True (plain_form ''anna'')) staged_one"
  have s1: "routes s1 1 = Took 0 6 (fit 160 (up_refusal staged_one)) (plain_form ''anna'')" "staging s1 = Some 0"
    "up_owner s1 = None" "jrunner s1 = runner_boot" "content s1 0 = g0"
    by (simp_all add: s1_def route_begin_def go_route_def staged_one_sel at_rest_def)
  define s2 where "s2 = post_step (on_route 1 6) s1"
  have s2: "routes s2 1 = Checked (plain_form ''anna'') None" "staging s2 = Some 0"
    "up_owner s2 = None" "jrunner s2 = runner_boot" "content s2 0 = g0"
    using s1 g0_check anna_ok
    by (simp_all add: s2_def on_route_def route_step_def go_route_def post_refusal_def field_s_def plain_form_def
        staged_text_def job_under_def)
  have e: "rechecked_one = post_step (on_route 1 7) s2" by (simp add: rechecked_one_def s1_def s2_def)
  show "routes rechecked_one 1 = Rechecked 1 (plain_form ''anna'') None" "staging rechecked_one = Some 0"
    "up_owner rechecked_one = None" "jrunner rechecked_one = runner_boot" "content rechecked_one 0 = g0"
    unfolding e using s2 g0_check anna_ok
    by (simp_all add: on_route_def route_step_def go_route_def program_ready_def plain_form_def staged_text_def)
qed

text \<open>The second client sends a command the check refuses; it plays.\<close>

theorem upload_under_a_start_witness:
  "\<exists>st' :: jobpost. playing_file st' = Some 0 \<and> content st' 0 = ''$RST=*'' \<and> active (jrunner st') \<and>
     jobrun_program_check (Some (content st' 0)) \<noteq> Inr 1"
proof -
  have b: "begins (chunk 2 0 8 ''$RST=*'') rechecked_one"
    using rechecked_one_sel by (simp add: begins_def chunk_def is_job_post_def sink_refused_def)
  have c: "jobrun_program_check (Some ''$RST=*'') \<noteq> Inr 1" by code_simp
  have k: "k_opens (chunk 2 0 8 ''$RST=*'')" "k_writes (chunk 2 0 8 ''$RST=*'')" "k_data (chunk 2 0 8 ''$RST=*'') = ''$RST=*''"
    "length (k_data (chunk 2 0 8 ''$RST=*'')) \<le> jobrun_program_max"
    by (simp_all add: chunk_def jobrun_program_max_def)
  have f: "\<not> active (jrunner rechecked_one)" "\<not> joining (jrunner rechecked_one)" "mlease (jrunner rechecked_one) = []"
    "owner_usable (Some (fit lease_owner_max (''job:'' @ the (form_name (plain_form ''anna'')))))"
    using anna_owner by (simp_all add: rechecked_one_sel boot_free plain_form_def)
  define st' where "st' = fold post_step [Sink (chunk 2 0 8 ''$RST=*''), on_route 1 9, on_route 1 9, on_route 1 9] rechecked_one"
  note u = upload_under_a_start [OF rechecked_one_sel(1,2,3) f b k(1,2,4) st'_def]
  have p: "playing_file st' = Some 0" "content st' 0 = ''$RST=*''" "active (jrunner st')"
    using u by (simp_all only: k(3))
  show ?thesis by (rule exI [of _ st']) (simp only: p c simp_thms)
qed

theorem stale_upload_adopted_witness:
  "\<exists>below. routes (fold post_step [Post 1 True (plain_form ''anna''), on_route 1 6] staged_one) 1 =
     Checked (plain_form ''anna'') below"
  by (rule stale_upload_adopted [where n = 6 and lines = 1])
     (use staged_one_sel g0_check anna_ok in \<open>simp_all add: staged_text_def plain_form_def\<close>)

text \<open>A client alone: its program is checked, started, and is the one that plays.\<close>

definition alone_run :: "post_act list" where
  "alone_run = [Sink (chunk 1 0 5 g0), Post 1 True (plain_form ''anna''), on_route 1 6, on_route 1 7,
     on_route 1 8, on_route 1 8, on_route 1 9]"

theorem job_plays_checked_file_witness:
  "\<exists>st n. st = fold post_step alone_run jobpost_boot \<and> playing_file st = Some 0 \<and>
     jobrun_program_check (Some (content st 0)) = Inr n"
proof -
  define s3 where "s3 = post_step (on_route 1 8) rechecked_one"
  have s3: "routes s3 1 = Opened_File 0 1 (plain_form ''anna'') None" "jrunner s3 = runner_boot" "content s3 0 = g0"
    using rechecked_one_sel by (simp_all add: s3_def on_route_def route_step_def go_route_def)
  define s4 where "s4 = post_step (on_route 1 8) s3"
  have s4: "routes s4 1 = Unnamed 0 1 (plain_form ''anna'') None" "jrunner s4 = runner_boot" "content s4 0 = g0"
    using s3 by (simp_all add: s4_def on_route_def route_step_def go_route_def unlink_staging_def)
  let ?st = "fold post_step alone_run jobpost_boot"
  have e: "?st = post_step (on_route 1 9) s4"
    by (simp add: alone_run_def s4_def s3_def rechecked_one_def staged_one_def)
  obtain rn' where "program_start g0 ''anna'' None False 1 False 9 True runner_boot = (None, rn')"
    using start_free [OF boot_free anna_owner] by blast
  then have p: "playing_file ?st = Some 0"
    using s4 unfolding e by (simp add: on_route_def route_step_def go_route_def plain_form_def)
  have "guarded alone_run jobpost_boot"
    by (simp add: alone_run_def clear_of_def on_route_def jobpost_boot_def)
  then show ?thesis using job_plays_checked_file [of alone_run ?st 0 0] p by blast
qed

end
