(* ===== verification/Button.thy ===== *)
theory Button
  imports Prelude
begin

text \<open>
  The button at the machine as an edge (\<open>src/button.c\<close>). The waiting thread's polls are a list, each
  with what it found: whether a cancel stood, the clock's whole seconds, the switch, and the switch
  once more after the pause (read only when the first reading counts). A reading is \<open>None\<close> when the
  device cannot be read. The module's state and the operations on it are those under its mutex.
\<close>

definition poll_ms :: nat where "poll_ms = 40"

text \<open>\<open>read_button\<close>: the switch bytes the device answers, if it opens and answers.\<close>

definition read_button :: "8 word list option \<Rightarrow> bool option" where
  "read_button sw = map_option (\<lambda>b. bit (b ! 0) 2) sw"

definition button_held :: "8 word list option \<Rightarrow> bool" where
  "button_held sw \<longleftrightarrow> read_button sw = Some True"

datatype b_state = B_Idle | B_Waiting | B_Pressed | B_Timeout | B_Cancelled

section \<open>The waiting thread\<close>

record poll =
  p_cancel :: bool
  p_time :: real
  p_read :: "bool option"
  p_again :: "bool option"

definition tv_sec :: "real \<Rightarrow> int" where "tv_sec t = \<lfloor>t\<rfloor>"

fun wait_polls :: "int \<Rightarrow> real \<Rightarrow> bool \<Rightarrow> poll list \<Rightarrow> b_state option" where
  "wait_polls timeout t0 released [] = None"
| "wait_polls timeout t0 released (p # ps) =
     (if p_cancel p then Some B_Cancelled
      else if tv_sec (p_time p) - tv_sec t0 \<ge> timeout then Some B_Timeout
      else if p_read p = Some False then wait_polls timeout t0 True ps
      else if p_read p = Some True \<and> released \<and> p_again p = Some True then Some B_Pressed
      else wait_polls timeout t0 released ps)"

definition wait_thread :: "int \<Rightarrow> real \<Rightarrow> bool option \<Rightarrow> poll list \<Rightarrow> b_state option" where
  "wait_thread timeout t0 first ps = wait_polls timeout t0 (first = Some False) ps"

text \<open>\<open>button_held_for\<close>: the readings a tenth of a second apart, until one is not a press or the time is up.\<close>

fun held_polls :: "int \<Rightarrow> real \<Rightarrow> (bool option \<times> real) list \<Rightarrow> bool option" where
  "held_polls hold t0 [] = None"
| "held_polls hold t0 ((b, t) # ps) =
     (if b \<noteq> Some True then Some False
      else if tv_sec t - tv_sec t0 \<ge> hold then Some True
      else held_polls hold t0 ps)"

section \<open>The module\<close>

text \<open>\<open>th_done\<close> says the thread has run to its end, \<open>joining\<close> counts the cancels waiting for it.\<close>

record button =
  b_state :: b_state
  b_cancel :: bool
  th_live :: bool
  th_done :: bool
  th_joins :: nat

definition button_boot :: button where
  "button_boot = \<lparr>b_state = B_Idle, b_cancel = False, th_live = False, th_done = True, th_joins = 0\<rparr>"

text \<open>A start joins an ended thread first: it waits under the mutex until the thread has ended, which
  it has once the state is not waiting any more, but for its last instructions.\<close>

definition button_wait_start :: "bool \<Rightarrow> button \<Rightarrow> bool \<times> button" where
  "button_wait_start created st =
     (if b_state st = B_Waiting then (False, st)
      else let st = (if th_live st then st\<lparr>th_live := False, th_joins := th_joins st + 1\<rparr> else st)
           in if created then (True, st\<lparr>b_cancel := False, b_state := B_Waiting, th_live := True, th_done := False, th_joins := 0\<rparr>)
              else (False, st\<lparr>b_cancel := False, b_state := B_Idle\<rparr>))"

text \<open>A cancel in two stretches: the look under the mutex, then the flag and the join outside it.\<close>

definition cancel_look :: "button \<Rightarrow> bool" where
  "cancel_look st \<longleftrightarrow> b_state st = B_Waiting"

definition cancel_flag :: "button \<Rightarrow> button" where
  "cancel_flag st = st\<lparr>b_cancel := True, th_joins := th_joins st + 1\<rparr>"

definition cancel_joined :: "button \<Rightarrow> button" where
  "cancel_joined st = st\<lparr>th_live := False\<rparr>"

definition thread_ends :: "b_state \<Rightarrow> button \<Rightarrow> button" where
  "thread_ends result st = st\<lparr>b_state := result, th_done := True\<rparr>"

definition button_state :: "button \<Rightarrow> string" where
  "button_state st =
     (case b_state st of B_Waiting \<Rightarrow> ''waiting'' | B_Pressed \<Rightarrow> ''pressed'' | B_Timeout \<Rightarrow> ''timeout''
      | B_Cancelled \<Rightarrow> ''cancelled'' | B_Idle \<Rightarrow> ''idle'')"

definition button_take_pressed :: "button \<Rightarrow> bool \<times> button" where
  "button_take_pressed st =
     (if b_state st = B_Pressed then (True, st\<lparr>b_state := B_Idle\<rparr>) else (False, st))"

section \<open>What a press is\<close>

text \<open>
  A press, seen from the polls: one that read it down twice, with no cancel, within the time, and
  after a reading that the button was up.
\<close>

definition pressed_at :: "int \<Rightarrow> real \<Rightarrow> bool \<Rightarrow> poll list \<Rightarrow> poll \<Rightarrow> bool" where
  "pressed_at timeout t0 released before p \<longleftrightarrow>
     p_read p = Some True \<and> p_again p = Some True \<and> (released \<or> (\<exists>a\<in>set before. p_read a = Some False)) \<and>
     (\<forall>a\<in>set (before @ [p]). \<not> p_cancel a \<and> tv_sec (p_time a) - tv_sec t0 < timeout)"

lemma pressed_at_Cons:
  "pressed_at timeout t0 (released \<or> p_read q = Some False) before p \<Longrightarrow> \<not> p_cancel q \<Longrightarrow>
   tv_sec (p_time q) - tv_sec t0 < timeout \<Longrightarrow> pressed_at timeout t0 released (q # before) p"
  by (auto simp: pressed_at_def)

lemma wait_pressedD:
  "wait_polls timeout t0 released ps = Some B_Pressed \<Longrightarrow>
   \<exists>before p after. ps = before @ p # after \<and> pressed_at timeout t0 released before p"
proof (induction ps arbitrary: released)
  case (Cons q ps)
  have go: "\<not> p_cancel q" "tv_sec (p_time q) - tv_sec t0 < timeout"
    using Cons.prems by (auto split: if_splits)
  show ?case
  proof (cases "p_read q = Some True \<and> released \<and> p_again q = Some True")
    case True
    with go show ?thesis by (intro exI [of _ "[]"] exI [of _ q] exI [of _ ps]) (simp add: pressed_at_def)
  next
    case False
    then have "wait_polls timeout t0 (released \<or> p_read q = Some False) ps = Some B_Pressed"
      using Cons.prems go by (auto split: if_splits)
    from Cons.IH [OF this] obtain before p after where "ps = before @ p # after"
      "pressed_at timeout t0 (released \<or> p_read q = Some False) before p"
      by blast
    then show ?thesis using pressed_at_Cons [OF _ go] by (metis append_Cons)
  qed
qed simp

text \<open>
  A press needs a release first: a button that is down, or cannot be read, from before the wait until
  its end accepts nothing, however long it is held; and what is accepted was read down twice.
\<close>

theorem press_needs_release:
  assumes "wait_thread timeout t0 first ps = Some B_Pressed"
  shows "\<exists>before p after. ps = before @ p # after \<and> pressed_at timeout t0 (first = Some False) before p"
  using assms unfolding wait_thread_def by (rule wait_pressedD)

text \<open>The wait ends: at the first poll past its time at the latest.\<close>

lemma wait_ends:
  "\<exists>p\<in>set ps. timeout \<le> tv_sec (p_time p) - tv_sec t0 \<Longrightarrow> wait_polls timeout t0 released ps \<noteq> None"
  by (induction ps arbitrary: released) auto

text \<open>
  The times are whole seconds of the clock, subtracted: a wait of \<open>n\<close> seconds, and a hold of ten,
  end more than \<open>n - 1\<close> seconds after they began and not always \<open>n\<close>.
\<close>

lemma tv_sec_diff: "n \<le> tv_sec t - tv_sec t0 \<Longrightarrow> real_of_int n - 1 < t - t0"
  unfolding tv_sec_def by linarith

lemma wait_timeout_after:
  "wait_polls timeout t0 released ps = Some B_Timeout \<Longrightarrow> \<exists>p\<in>set ps. real_of_int timeout - 1 < p_time p - t0"
  by (induction ps arbitrary: released) (auto dest: tv_sec_diff split: if_splits)

lemma held_for_true:
  "held_polls hold t0 ps = Some True \<Longrightarrow>
   \<exists>as t bs. ps = as @ (Some True, t) # bs \<and> (\<forall>a\<in>set as. fst a = Some True) \<and> real_of_int hold - 1 < t - t0"
proof (induction hold t0 ps rule: held_polls.induct)
  case (2 hold t0 b t ps)
  show ?case
  proof (cases "tv_sec t - tv_sec t0 \<ge> hold")
    case True
    with 2(2) tv_sec_diff [OF True] show ?thesis
      by (intro exI [of _ "[]"] exI [of _ t] exI [of _ ps]) (auto split: if_splits)
  next
    case False
    with 2 obtain as u bs where "ps = as @ (Some True, u) # bs" "\<forall>a\<in>set as. fst a = Some True"
      "real_of_int hold - 1 < u - t0" "b = Some True"
      by (auto split: if_splits)
    then show ?thesis by (intro exI [of _ "(b, t) # as"] exI [of _ u] exI [of _ bs]) auto
  qed
qed simp

text \<open>A hold of ten seconds that was nine: the clock's second turned over just after the button went down.\<close>

theorem ten_second_hold_in_nine:
  "held_polls 10 (9/10) [(Some True, 9/10), (Some True, 10)] = Some True \<and> 10 - 9/10 < (10::real)"
  by (simp add: tv_sec_def)

theorem press_needs_release_witness:
  "\<exists>before p after. [\<lparr>p_cancel = False, p_time = 1, p_read = Some False, p_again = None\<rparr>,
      \<lparr>p_cancel = False, p_time = 2, p_read = Some True, p_again = Some True\<rparr>] = before @ p # after \<and>
      pressed_at 60 0 (Some True = Some False) before p"
  by (rule press_needs_release) (simp add: wait_thread_def tv_sec_def)

section \<open>A press taken\<close>

text \<open>Two cancels at once both see the wait and both join its one thread, which is undefined behaviour.\<close>

theorem two_cancels_join_twice:
  "b_state st = B_Waiting \<Longrightarrow> cancel_look st \<and> cancel_look (cancel_flag st) \<and>
   th_joins (cancel_flag (cancel_flag st)) = th_joins st + 2"
  by (simp add: cancel_look_def cancel_flag_def)

text \<open>One press is taken once.\<close>

lemma press_taken_once: "button_take_pressed st = (True, st') \<Longrightarrow> fst (button_take_pressed st') = False"
  by (auto simp: button_take_pressed_def split: if_splits)

end
