(* ===== verification/Mcode.thy ===== *)
theory Mcode
  imports GrblportProps Json
begin

text \<open>
  The M-codes extension packages answer (\<open>src/mcode.c\<close>, and the two functions of \<open>src/extpkg.c\<close> it
  asks): one thread tells the GRBL controller which codes are answered, watches its state, and
  carries a waiting M-code to the extension host and the answer back. One turn of the thread's loop
  is a function of its three variables and of what the turn finds: the controller's state, the
  host's files, the clock, and what the port answers to each request it makes, in their order. The
  JSON library's reader and writer are the parameters \<open>loads\<close> and \<open>dumps\<close>.
\<close>

definition mcode_poll_s :: real where "mcode_poll_s = 1/10"
definition mcode_idle_s :: real where "mcode_idle_s = 1"
definition mcode_repush_s :: real where "mcode_repush_s = 2"
definition mcode_text_max :: nat where "mcode_text_max = 96"

section \<open>The answer's line\<close>

definition answer_raw :: "(string \<Rightarrow> json option) \<Rightarrow> string option \<Rightarrow> string option \<Rightarrow> bool \<times> string" where
  "answer_raw loads doc why =
     (let j = (case doc of None \<Rightarrow> None | Some d \<Rightarrow> loads d) in
      if is_object j
      then let status = integer_value (obj_get j ''status''); body = obj_get j ''body'';
               msg = string_value (obj_get body ''message''); err = string_value (obj_get body ''error'');
               ok = (200 \<le> status \<and> status < 300)
           in (ok, fit 300
                (if ok then or_else msg []
                 else if err \<noteq> None \<or> msg \<noteq> None then or_else err (or_else msg [])
                 else ''its extension answered '' @ show_int status))
      else (False, fit 300
              (if doc \<noteq> None then ''its extension'' @ [CHR 0x27] @ ''s answer is not JSON''
               else (case why of None \<Rightarrow> ''no answer'' | Some w \<Rightarrow> if w = [] then ''no answer'' else w))))"

definition port_char :: "char \<Rightarrow> char" where
  "port_char c =
     (if c = CHR ''['' then CHR ''('' else if c = CHR '']'' then CHR '')''
      else if byte c < 0x20 \<or> 0x7e < byte c then space else c)"

definition trim_spaces :: "string \<Rightarrow> string" where
  "trim_spaces s = rev (dropWhile (\<lambda>c. c = space) (rev s))"

definition answer_text :: "string \<Rightarrow> string" where
  "answer_text raw = trim_spaces (map port_char (take mcode_text_max raw))"

definition mcode_answer_line :: "(string \<Rightarrow> json option) \<Rightarrow> 32 word \<Rightarrow> string option \<Rightarrow> string option \<Rightarrow> nat \<Rightarrow> string" where
  "mcode_answer_line loads seq doc why len =
     (let (ok, raw) = answer_raw loads doc why; text = answer_text raw
      in fit len (show_nat (unat seq) @ '' '' @ (if ok then ''ok'' else ''fail'') @
                  (if text \<noteq> [] then '' '' else []) @ text))"

section \<open>What the extension host says\<close>

text \<open>\<open>extpkg_mcode_table\<close>: the codes the host's running services answer, from its status file.\<close>

fun json_items :: "json option \<Rightarrow> json list" where
  "json_items (Some (JArr xs)) = xs"
| "json_items _ = []"

definition mcode_entry :: "json \<Rightarrow> int option" where
  "mcode_entry e =
     (case obj_get (Some e) ''code'' of
        Some (JInt c) \<Rightarrow> if 160 \<le> c \<and> c \<le> 179 then Some c else None
      | _ \<Rightarrow> None)"

fun joined :: "int list \<Rightarrow> string" where
  "joined [] = []"
| "joined [c] = show_int c"
| "joined (c # cs) = show_int c @ '','' @ joined cs"

definition extpkg_mcode_table :: "(int \<Rightarrow> bool) \<Rightarrow> json option \<Rightarrow> nat \<Rightarrow> string" where
  "extpkg_mcode_table host_running host len =
     (let codes = List.map_filter mcode_entry (json_items (obj_get host ''mcodes''));
          bits = filter (\<lambda>c. c \<in> set codes) [160..179]
      in fit len (if \<not> is_object host \<or> \<not> host_running (integer_value (obj_get host ''pid'')) \<or> bits = [] then ''-''
                  else joined bits))"

text \<open>\<open>extpkg_mcode_json\<close>: the host's answer to one M-code, or the reason there is none. The host's
  program is run by \<open>spawned\<close>: its exit and its output.\<close>

definition extpkg_mcode_json ::
  "(string \<Rightarrow> json option) \<Rightarrow> (int \<Rightarrow> string \<Rightarrow> int \<times> string option) \<Rightarrow> int \<Rightarrow> string \<Rightarrow> nat \<Rightarrow> string + string" where
  "extpkg_mcode_json loads spawned code words wlen =
     (if code < 160 \<or> 179 < code \<or> words = [] \<or> hd words \<noteq> CHR ''{'' \<or> 200 < length words
      then Inl (fit wlen ''an M-code packages answer is one of M160 to M179, with its words'')
      else let (rc, out) = spawned code words; j = (case out of None \<Rightarrow> None | Some d \<Rightarrow> loads d)
           in if rc < 0 \<or> \<not> is_object j then Inl (fit wlen ''the extension host did not answer'')
              else if \<not> is_true (obj_get j ''ok'')
              then Inl (fit wlen (case string_value (obj_get j ''error'') of
                     Some e \<Rightarrow> if e \<noteq> [] then e else ''the extension host refused''
                   | None \<Rightarrow> ''the extension host refused''))
              else (case out of Some d \<Rightarrow> Inr d | None \<Rightarrow> Inl []))"

section \<open>The relay\<close>

record relay =
  pushed :: string
  pushed_at :: real
  done_seq :: "32 word"

definition relay_start :: relay where
  "relay_start = \<lparr>pushed = [], pushed_at = 0, done_seq = 0\<rparr>"

text \<open>
  One turn's findings: \<open>t_table_reply\<close>, \<open>t_state_reply\<close> and \<open>t_result_reply\<close> are what the port's client
  answers to the table, to the state, and to the result, should the turn ask.
\<close>

record turn =
  t_running :: bool
  t_want :: string
  t_now :: real
  t_after :: real
  t_table_reply :: "port_rc \<times> string"
  t_state_reply :: "port_rc \<times> string"
  t_host :: "int \<Rightarrow> string \<Rightarrow> int \<times> string option"

definition push_table :: "turn \<Rightarrow> relay \<Rightarrow> (nat \<times> string option) list \<times> relay" where
  "push_table t st =
     (if t_want t \<noteq> pushed st \<or> mcode_repush_s \<le> t_now t - pushed_at st
      then ([(op_mcodes, Some (t_want t))],
            if t_table_reply t = (Port_Ok, ''ok'') then st\<lparr>pushed := fit 128 (t_want t), pushed_at := t_after t\<rparr>
            else st\<lparr>pushed := []\<rparr>)
      else ([], st))"

text \<open>The M-code that waits, when there is one this relay has not answered: its number, code and words.\<close>

definition waiting_mcode ::
  "(json option \<Rightarrow> string option) \<Rightarrow> json option \<Rightarrow> 32 word \<Rightarrow> (32 word \<times> int \<times> string) option" where
  "waiting_mcode dumps m answered =
     (if is_object m
      then let seq = word_of_int (integer_value (obj_get m ''seq''));
               code = sint (word_of_int (integer_value (obj_get m ''code'')) :: 32 word)
           in case dumps (obj_get m ''words'') of
                Some words \<Rightarrow> if seq \<noteq> 0 \<and> seq \<noteq> answered then Some (seq, code, words) else None
              | None \<Rightarrow> None
      else None)"

definition answer_mcode :: "(string \<Rightarrow> json option) \<Rightarrow> (json option \<Rightarrow> string option) \<Rightarrow> turn \<Rightarrow> string \<Rightarrow> relay \<Rightarrow>
    real \<times> (nat \<times> string option) list \<times> relay" where
  "answer_mcode loads dumps t reply st =
     (let s = loads reply; m = obj_get s ''mcode'';
          wait = (if is_object m then 2/100 else if is_true (obj_get s ''sender'') then mcode_poll_s else mcode_idle_s)
      in case waiting_mcode dumps m (done_seq st) of
           None \<Rightarrow> (wait, [], st)
         | Some (seq, code, words) \<Rightarrow>
             (let line = (case extpkg_mcode_json loads (t_host t) code words 300 of
                            Inr doc \<Rightarrow> mcode_answer_line loads seq (Some doc) (Some []) 200
                          | Inl why \<Rightarrow> mcode_answer_line loads seq None (Some why) 200)
              in (wait, [(op_mcode_result, Some line)], st\<lparr>done_seq := seq\<rparr>)))"

definition relay_turn :: "(string \<Rightarrow> json option) \<Rightarrow> (json option \<Rightarrow> string option) \<Rightarrow> turn \<Rightarrow> relay \<Rightarrow>
    real \<times> (nat \<times> string option) list \<times> relay" where
  "relay_turn loads dumps t st =
     (if \<not> t_running t then (mcode_idle_s, [], st\<lparr>pushed := []\<rparr>)
      else
        let (asked, st1) = push_table t st in
        if pushed st1 \<noteq> [] \<and> pushed st1 \<noteq> ''-''
        then let asked2 = asked @ [(op_state, None)]
             in if fst (t_state_reply t) = Port_Ok
                then let (wait, asked3, st2) = answer_mcode loads dumps t (snd (t_state_reply t)) st1
                     in (wait, asked2 @ asked3, st2)
                else (mcode_idle_s, asked2, st1)
        else (mcode_idle_s, asked, st1))"

section \<open>The form of an answer\<close>

definition port_form :: "char \<Rightarrow> bool" where
  "port_form c \<longleftrightarrow> printable c \<and> c \<noteq> CHR ''['' \<and> c \<noteq> CHR '']''"

lemma port_char_form: "port_form (port_char c)"
  by (auto simp: port_char_def port_form_def printable_def byte_def)

lemma trim_spaces_sub: "set (trim_spaces s) \<subseteq> set s" "length (trim_spaces s) \<le> length s"
  unfolding trim_spaces_def by (auto dest: set_dropWhileD) (metis length_dropWhile_le length_rev)

lemma trim_spaces_end: "trim_spaces s = [] \<or> last (trim_spaces s) \<noteq> space"
  unfolding trim_spaces_def using hd_dropWhile [of "\<lambda>c. c = space" "rev s"] by (auto simp: last_rev)

lemma answer_text_form:
  "\<forall>c\<in>set (answer_text raw). port_form c" "length (answer_text raw) \<le> 96"
  "answer_text raw = [] \<or> last (answer_text raw) \<noteq> space"
proof -
  let ?m = "map port_char (take mcode_text_max raw)"
  show "\<forall>c\<in>set (answer_text raw). port_form c"
    unfolding answer_text_def using trim_spaces_sub(1) [of ?m] port_char_form by auto
  show "length (answer_text raw) \<le> 96"
    unfolding answer_text_def using trim_spaces_sub(2) [of ?m] by (simp add: mcode_text_max_def)
  show "answer_text raw = [] \<or> last (answer_text raw) \<noteq> space"
    unfolding answer_text_def by (rule trim_spaces_end)
qed

lemma word_digits: "length (show_nat (unat (w :: 32 word))) \<le> 10"
proof -
  have "unat w < 2 ^ 32" using unsigned_less [of w] by simp
  then show ?thesis unfolding show_nat_def by (intro digits_of_length) (simp_all add: less_trans)
qed

lemma port_form_no_end: "port_form c \<Longrightarrow> \<not> (c = cret \<or> c = newline)"
  by (auto simp: port_form_def printable_def byte_def)

lemma port_form_no_break: "\<forall>c\<in>set s. port_form c \<Longrightarrow> \<not> line_breaks s"
  unfolding line_breaks_def list_ex_iff using port_form_no_end by blast

lemma show_nat_form: "c \<in> set (show_nat n) \<Longrightarrow> port_form c"
  using digits_of_digits [of n] by (auto simp: show_nat_def port_form_def char_class_defs)

lemma result_op:
  "op_mcode_result < length ops" "op_set op_mcode_result = Set_Daemon" "takes_arg op_mcode_result"
  "op_word op_mcode_result = ''mcode_result''"
  by (simp_all add: op_mcode_result_def ops_def op_set_def takes_arg_def op_word_def)

text \<open>
  Whatever an extension answers, the line is the port's form: the number of the M-code, ok or fail,
  and words that are printable, hold no bracket, end in no blank and are at most 96 bytes; the buffer
  cuts nothing off, and the port's client never refuses it, so a job is never left waiting for want
  of an answer that could be sent.
\<close>

theorem answer_line_form:
  "\<exists>ok text. mcode_answer_line loads seq doc why 200 =
       show_nat (unat seq) @ '' '' @ (if ok then ''ok'' else ''fail'') @ (if text \<noteq> [] then '' '' else []) @ text \<and>
     (\<forall>c\<in>set text. port_form c) \<and> length text \<le> 96 \<and> (text = [] \<or> last text \<noteq> space) \<and>
     grblport_request a1 a2 Set_Daemon op_mcode_result (Some (mcode_answer_line loads seq doc why 200)) len p =
       tries (request_line op_mcode_result (Some (mcode_answer_line loads seq doc why 200))) len [a1, a2] p"
proof -
  obtain ok raw where o1: "answer_raw loads doc why = (ok, raw)" by (cases "answer_raw loads doc why")
  let ?t = "answer_text raw"
  let ?l = "show_nat (unat seq) @ '' '' @ (if ok then ''ok'' else ''fail'') @ (if ?t \<noteq> [] then '' '' else []) @ ?t"
  note f = answer_text_form [of raw]
  have len: "length ?l \<le> 112" using word_digits [of seq] f(2) by simp
  then have e: "mcode_answer_line loads seq doc why 200 = ?l"
    by (simp add: mcode_answer_line_def o1 fit_def)
  have form: "port_form c" if "c \<in> set ?l" for c
  proof -
    have "c \<in> set (show_nat (unat seq)) \<or> c \<in> set '' okfail'' \<or> c \<in> set ?t"
      using that by (cases ok) (auto split: if_splits)
    moreover have "port_form d" if "d \<in> set '' okfail''" for d
      using that by (auto simp: port_form_def char_class_defs)
    ultimately show ?thesis using f(1) show_nat_form by blast
  qed
  have "\<not> line_breaks ?l"
    using form by (intro port_form_no_break) blast
  moreover have "length (request_line op_mcode_result (Some ?l)) < line_size"
    using len by (simp add: request_line_def result_op line_size_def)
  ultimately have "grblport_request a1 a2 Set_Daemon op_mcode_result (Some ?l) len p =
      tries (request_line op_mcode_result (Some ?l)) len [a1, a2] p"
    by (intro request_passes) (simp_all only: result_op order_refl not_False_eq_True)
  then show ?thesis unfolding e using f by blast
qed

section \<open>The relay's runs\<close>

definition results_sent :: "(nat \<times> string option) list \<Rightarrow> nat" where
  "results_sent rs = length (filter (\<lambda>r. fst r = op_mcode_result) rs)"

text \<open>A turn carries one M-code at the most, and never one that bears the number of the last it carried.\<close>

lemma turn_results:
  assumes "relay_turn loads dumps t st = (w, rs, st')"
  shows "results_sent rs \<le> 1" and "results_sent rs = 0 \<Longrightarrow> done_seq st' = done_seq st"
    and "results_sent rs = 1 \<Longrightarrow> done_seq st' \<noteq> done_seq st \<and> done_seq st' \<noteq> 0"
  using assms
  by (auto simp: relay_turn_def push_table_def answer_mcode_def waiting_mcode_def results_sent_def op_defs Let_def
      split: if_splits option.splits prod.splits sum.splits)

text \<open>
  A controller that restarts counts its M-codes from the start again, and the relay does not forget
  the number it answered last: one that waits under that number is not carried to its extension, at
  that turn or any later one, for as long as it waits, and the job waits with it.
\<close>

theorem restarted_mcode_waits:
  assumes "done_seq st = seq"
    and "\<forall>t\<in>set ts. t_running t \<longrightarrow>
      (case loads (snd (t_state_reply t)) of
         Some s \<Rightarrow> word_of_int (integer_value (obj_get (obj_get (Some s) ''mcode'') ''seq'')) = seq
       | None \<Rightarrow> True)"
  shows "done_seq (fold (\<lambda>t s. snd (snd (relay_turn loads dumps t s))) ts st) = seq"
  using assms
proof (induction ts arbitrary: st)
  case (Cons t ts)
  have "done_seq (snd (snd (relay_turn loads dumps t st))) = seq"
    using Cons.prems
    by (auto simp: relay_turn_def push_table_def answer_mcode_def waiting_mcode_def Let_def
        split: if_splits option.splits prod.splits sum.splits)
  with Cons show ?case by simp
qed simp

end
