(* ===== verification/Liveness.thy ===== *)
theory Liveness
  imports Cnum Settings
begin

text \<open>
  The motion-liveness probe (\<open>src/liveness.c\<close>): before a controller starts, the gantry is moved
  fifteen millimetres out and back and the head's accelerometer says whether it did. The enclosure's
  reading, the pulse pattern, and the probe itself as a function of what the kernel's attributes and
  the accelerometer answer; what the probe writes is its list of effects. The sampling loop's turns
  are a list (\<open>probe_returns\<close> says when one is long enough). A raw reading is sixteen bits, so the
  differences of readings are exact.
\<close>

section \<open>The enclosure\<close>

definition sw_doors :: nat where "sw_doors = 3"
definition sw_interlock :: nat where "sw_interlock = 5"

definition enclosure_classify :: "32 word \<Rightarrow> nat \<Rightarrow> int \<times> string" where
  "enclosure_classify sw wlen =
     (let lid = \<not> bit sw sw_doors; interlock = bit sw sw_interlock in
      if \<not> lid \<and> \<not> interlock then (0, [])
      else (1, fit wlen (if lid \<and> interlock then ''the lid and the interlock are open''
                         else if lid then ''the lid is open'' else ''the interlock is open'')))"

text \<open>The switch word from a file of a host start: a C integer and nothing else but blanks after it.\<close>

definition switch_word_file :: "string option \<Rightarrow> 32 word option" where
  "switch_word_file file =
     (case file of None \<Rightarrow> None
      | Some text \<Rightarrow>
          let buf = cstr (take 31 text) in
          if text = [] then None
          else if buf = [] \<or> \<not> is_digit (hd buf) then None
          else let (v, rest) = strtoul0 buf
               in if dropWhile (\<lambda>c. c = newline \<or> c = space) rest = [] then Some (of_nat v) else None)"

text \<open>The word's source: the file the environment names, or the switch device's first byte.\<close>

definition enclosure_word :: "string option \<Rightarrow> (string \<Rightarrow> string option) \<Rightarrow> 8 word list option \<Rightarrow> 32 word option" where
  "enclosure_word env files dev =
     (case env of
        Some p \<Rightarrow> if p \<noteq> [] then (if hd p = CHR ''/'' then switch_word_file (files p) else None)
                  else map_option (\<lambda>b. ucast (b ! 0)) dev
      | None \<Rightarrow> map_option (\<lambda>b. ucast (b ! 0)) dev)"

definition liveness_enclosure :: "string option \<Rightarrow> (string \<Rightarrow> string option) \<Rightarrow> 8 word list option \<Rightarrow> nat \<Rightarrow> int \<times> string" where
  "liveness_enclosure env files dev wlen =
     (case enclosure_word env files dev of
        None \<Rightarrow> (- 1, fit wlen ''the lid switches cannot be read'')
      | Some w \<Rightarrow> enclosure_classify w wlen)"

section \<open>The move\<close>

definition probe_mm :: nat where "probe_mm = 15"
definition probe_steps :: nat where "probe_steps = probe_mm * 160 div 3"
definition step_freq_hz :: nat where "step_freq_hz = 10000"
definition ticks_per_step :: nat where "ticks_per_step = 19"
definition lead_ticks :: nat where "lead_ticks = 400"
definition p2p_moving :: int where "p2p_moving = 800"
definition p2p_dead :: int where "p2p_dead = 250"

definition b_x_step :: "8 word" where "b_x_step = 1"
definition b_x_dir :: "8 word" where "b_x_dir = 2"

definition step_run :: "nat \<Rightarrow> 8 word \<Rightarrow> 8 word list" where
  "step_run n b = concat (replicate n (b # replicate (ticks_per_step - 1) 0))"

definition probe_pattern :: "8 word list" where
  "probe_pattern =
     replicate lead_ticks 0 @ step_run probe_steps b_x_step @ replicate lead_ticks 0 @
     step_run probe_steps (b_x_step OR b_x_dir) @ replicate lead_ticks 0"

section \<open>The probe\<close>

datatype probe_effect = Attr string string | Clear_Program | Pulses "8 word list"

text \<open>One turn of the sampling loop: the clock before it, the two axes, the kernel's state, the clock after.\<close>

record sample_turn =
  st_before :: real
  st_reading :: "(int \<times> int) option"
  st_state :: "string option"
  st_after :: real

record probe_world =
  pw_accel :: bool
  pw_state :: "string option"
  pw_enclosure :: "int \<times> string"
  pw_alloc :: bool
  pw_written :: int
  pw_run :: bool
  pw_t0 :: real
  pw_turns :: "sample_turn list"

type_synonym extremes = "(int \<times> int \<times> int \<times> int) option"

definition widen :: "(int \<times> int) option \<Rightarrow> extremes \<Rightarrow> extremes" where
  "widen r e =
     (case r of None \<Rightarrow> e
      | Some (x, y) \<Rightarrow>
          (case e of None \<Rightarrow> Some (x, x, y, y)
           | Some (lx, hx, ly, hy) \<Rightarrow> Some (min x lx, max x hx, min y ly, max y hy)))"

fun probe_samples :: "real \<Rightarrow> extremes \<Rightarrow> sample_turn list \<Rightarrow> extremes option" where
  "probe_samples deadline e [] = None"
| "probe_samples deadline e (t # ts) =
     (if \<not> st_before t < deadline then Some e
      else let e1 = widen (st_reading t) e
           in if st_state t = Some ''idle'' \<and> deadline - 10 < st_after t then Some e1
              else probe_samples deadline e1 ts)"

definition p2p_of :: "extremes \<Rightarrow> int \<times> int" where
  "p2p_of e = (case e of None \<Rightarrow> (0, 0) | Some (lx, hx, ly, hy) \<Rightarrow> (hx - lx, hy - ly))"

definition probe_setup :: "probe_effect list" where
  "probe_setup =
     [Attr ''cnc/motor_lock'' ''0'', Attr ''cnc/x_mode'' ''8'', Attr ''cnc/x_decay'' ''1'',
      Attr ''pic/x_step_current'' ''135'', Attr ''cnc/step_freq'' (show_nat step_freq_hz), Clear_Program,
      Attr ''cnc/streaming'' ''0'']"

text \<open>The verdict, the words, and what was written, in order.\<close>

definition liveness_probe :: "probe_world \<Rightarrow> nat \<Rightarrow> (int \<times> string \<times> probe_effect list) option" where
  "liveness_probe w dlen =
     (if \<not> pw_accel w then Some (- 1, fit dlen ''head accelerometer not found'', [])
      else case pw_state w of
        None \<Rightarrow> Some (- 1, fit dlen ''kernel state unreadable'', [])
      | Some st \<Rightarrow>
          if st \<noteq> ''idle''
          then Some (- 3, fit dlen (''kernel not idle ('' @ st @ '') - the probe waits''), [])
          else if fst (pw_enclosure w) \<noteq> 0
          then Some (- 2, fit dlen (snd (pw_enclosure w) @ '' - motion probe skipped''), [])
          else if \<not> pw_alloc w then Some (- 1, fit dlen ''out of memory'', probe_setup)
          else
            let written = [Pulses (take (nat (pw_written w)) probe_pattern)]
            in if pw_written w \<noteq> int (length probe_pattern)
               then Some (- 1, fit dlen (''pulse write failed ('' @ show_int (pw_written w) @ '' of '' @
                       show_nat (length probe_pattern) @ '')''), probe_setup @ written)
               else if \<not> pw_run w
               then Some (- 1, fit dlen ''cannot start the probe run'', probe_setup @ written @ [Clear_Program])
               else (case probe_samples (pw_t0 w + 12) None (pw_turns w) of
                       None \<Rightarrow> None
                     | Some e \<Rightarrow>
                         let (px, py) = p2p_of e
                         in Some (if e = None then - 1 else if p2p_moving \<le> max px py then 1 else 0,
                              fit dlen (''head accel p2p x='' @ show_int px @ '' y='' @ show_int py @ '' (moving>='' @
                                show_int p2p_moving @ '' dead<='' @ show_int p2p_dead @ '')''),
                              probe_setup @ written @
                              [Attr ''cnc/run'' ''1'', Attr ''pic/x_step_current'' ''33'', Clear_Program])))"

section \<open>The pattern comes back\<close>

definition tick :: "8 word \<Rightarrow> int" where
  "tick b = (if bit b 0 then (if bit b 1 then - 1 else 1) else 0)"

definition travel :: "8 word list \<Rightarrow> int" where
  "travel bs = sum_list (map tick bs)"

text \<open>Every prefix of the bytes, played from \<open>p\<close>, stays between the bounds.\<close>

definition stays :: "int \<Rightarrow> int \<Rightarrow> int \<Rightarrow> 8 word list \<Rightarrow> bool" where
  "stays lo hi p bs \<longleftrightarrow> (\<forall>k. lo \<le> p + travel (take k bs) \<and> p + travel (take k bs) \<le> hi)"

lemma tick_0 [simp]: "tick 0 = 0"
  by (simp add: tick_def)

lemma travel_Nil [simp]: "travel [] = 0"
  by (simp add: travel_def)

lemma travel_Cons [simp]: "travel (b # bs) = tick b + travel bs"
  by (simp add: travel_def)

lemma travel_append [simp]: "travel (xs @ ys) = travel xs + travel ys"
  by (simp add: travel_def)

lemma travel_still [simp]: "travel (replicate n 0) = 0"
  by (induction n) simp_all

lemma stays_append:
  "stays lo hi p xs \<Longrightarrow> stays lo hi (p + travel xs) ys \<Longrightarrow> stays lo hi p (xs @ ys)"
  unfolding stays_def
proof
  fix k
  assume x: "\<forall>k. lo \<le> p + travel (take k xs) \<and> p + travel (take k xs) \<le> hi"
    and y: "\<forall>k. lo \<le> p + travel xs + travel (take k ys) \<and> p + travel xs + travel (take k ys) \<le> hi"
  show "lo \<le> p + travel (take k (xs @ ys)) \<and> p + travel (take k (xs @ ys)) \<le> hi"
  proof (cases "k \<le> length xs")
    case True
    with x show ?thesis by simp
  next
    case False
    with y [rule_format, of "k - length xs"] show ?thesis by (simp add: add.assoc)
  qed
qed

lemma stays_still: "lo \<le> p \<Longrightarrow> p \<le> hi \<Longrightarrow> stays lo hi p (replicate n 0)"
  by (simp add: stays_def take_replicate)

lemma stays_step:
  "lo \<le> p \<Longrightarrow> p \<le> hi \<Longrightarrow> lo \<le> p + tick b \<Longrightarrow> p + tick b \<le> hi \<Longrightarrow> stays lo hi p (b # replicate n 0)"
  by (auto simp: stays_def take_Cons' take_replicate)

lemma travel_run: "travel (step_run n b) = int n * tick b"
proof (induction n)
  case (Suc n)
  have "travel (b # replicate (ticks_per_step - 1) 0) = tick b"
    by simp
  with Suc show ?case by (simp add: step_run_def algebra_simps)
qed (simp add: step_run_def travel_def)

lemma stays_run:
  "tick b \<in> {- 1, 1} \<Longrightarrow> lo \<le> p \<Longrightarrow> p \<le> hi \<Longrightarrow> lo \<le> p + int n * tick b \<Longrightarrow> p + int n * tick b \<le> hi \<Longrightarrow>
   stays lo hi p (step_run n b)"
proof (induction n arbitrary: p)
  case (Suc n)
  have t: "travel (b # replicate (ticks_per_step - 1) 0) = tick b"
    by simp
  have "stays lo hi p (b # replicate (ticks_per_step - 1) 0)"
    using Suc.prems by (intro stays_step) (auto simp: algebra_simps)
  moreover have "stays lo hi (p + tick b) (step_run n b)"
    using Suc.prems by (intro Suc.IH) (auto simp: algebra_simps)
  ultimately have "stays lo hi p ((b # replicate (ticks_per_step - 1) 0) @ step_run n b)"
    by (intro stays_append) (simp_all add: t)
  then show ?case by (simp add: step_run_def)
qed (simp add: stays_def step_run_def travel_def)

lemma ticks: "tick b_x_step = 1" "tick (b_x_step OR b_x_dir) = - 1"
  by (simp_all add: tick_def b_x_step_def b_x_dir_def)

text \<open>
  The move comes back to where it began, and however much of it is played the gantry is never more
  than the probe's eight hundred microsteps out, and never on the other side.
\<close>

theorem probe_comes_back:
  "travel probe_pattern = 0 \<and> stays 0 (int probe_steps) 0 probe_pattern"
proof -
  have "stays 0 (int probe_steps) 0 probe_pattern"
    unfolding probe_pattern_def
    by (intro stays_append stays_still stays_run) (simp_all add: ticks travel_run)
  then show ?thesis by (simp add: probe_pattern_def travel_run ticks)
qed

lemma pattern_length: "length probe_pattern = 31600"
  by (simp add: probe_pattern_def step_run_def length_concat sum_list_replicate lead_ticks_def probe_steps_def
      probe_mm_def ticks_per_step_def)

section \<open>The verdict\<close>

definition moved :: "probe_effect list \<Rightarrow> bool" where
  "moved es \<longleftrightarrow> Attr ''cnc/run'' ''1'' \<in> set es"

text \<open>Two readings of one axis that far apart, among those of the loop.\<close>

definition seen :: "sample_turn list \<Rightarrow> (int \<times> int) set" where
  "seen ts = {r. \<exists>t\<in>set ts. st_reading t = Some r}"

definition spans :: "(int \<times> int) set \<Rightarrow> extremes \<Rightarrow> bool" where
  "spans S e \<longleftrightarrow>
     (case e of None \<Rightarrow> True
      | Some (lx, hx, ly, hy) \<Rightarrow> lx \<in> fst ` S \<and> hx \<in> fst ` S \<and> ly \<in> snd ` S \<and> hy \<in> snd ` S)"

lemma spans_widen: "spans S e \<Longrightarrow> (\<And>p. r = Some p \<Longrightarrow> p \<in> S) \<Longrightarrow> spans S (widen r e)"
  by (auto simp: spans_def widen_def min_def max_def image_iff split: option.splits prod.splits)
     (metis fst_conv snd_conv)+

lemma samples_span:
  "probe_samples d e ts = Some e' \<Longrightarrow> spans S e \<Longrightarrow> seen ts \<subseteq> S \<Longrightarrow> spans S e'"
proof (induction d e ts rule: probe_samples.induct)
  case (2 d e t ts)
  have "spans S (widen (st_reading t) e)"
    using 2(3,4) by (intro spans_widen) (auto simp: seen_def)
  with 2 show ?case by (auto simp: seen_def Let_def split: if_splits)
qed simp

lemma probe_returns:
  "\<exists>t\<in>set ts. d \<le> st_before t \<Longrightarrow> probe_samples d e ts \<noteq> None"
  by (induction d e ts rule: probe_samples.induct) (auto simp: Let_def)

text \<open>
  The gantry moves only when the kernel was idle, the enclosure closed and the accelerometer there
  to judge it; and the motion is confirmed only by two of its readings on one axis that lie at least
  the threshold apart.
\<close>

theorem probe_verdict:
  assumes "liveness_probe w dlen = Some (rc, detail, es)"
  shows "(moved es \<longrightarrow> pw_accel w \<and> pw_state w = Some ''idle'' \<and> fst (pw_enclosure w) = 0) \<and>
    (rc \<in> {- 2, - 3} \<longrightarrow> es = []) \<and>
    (rc = 1 \<longrightarrow> (\<exists>a b. a \<in> seen (pw_turns w) \<and> b \<in> seen (pw_turns w) \<and>
       (p2p_moving \<le> fst b - fst a \<or> p2p_moving \<le> snd b - snd a)))"
proof -
  have 1: "(moved es \<longrightarrow> pw_accel w \<and> pw_state w = Some ''idle'' \<and> fst (pw_enclosure w) = 0) \<and>
    (rc \<in> {- 2, - 3} \<longrightarrow> es = [])"
    using assms by (auto simp: liveness_probe_def Let_def moved_def split: if_splits option.splits prod.splits)
  have "\<exists>a b. a \<in> seen (pw_turns w) \<and> b \<in> seen (pw_turns w) \<and>
       (p2p_moving \<le> fst b - fst a \<or> p2p_moving \<le> snd b - snd a)" if r1: "rc = 1"
  proof -
    obtain e where e: "probe_samples (pw_t0 w + 12) None (pw_turns w) = Some e" "e \<noteq> None"
      "p2p_moving \<le> max (fst (p2p_of e)) (snd (p2p_of e))"
      using assms r1 by (auto simp: liveness_probe_def Let_def split: if_splits option.splits prod.splits)
    then obtain lx hx ly hy where v: "e = Some (lx, hx, ly, hy)" by (cases e) auto
    have "spans (seen (pw_turns w)) e"
      using samples_span [OF e(1)] by (simp add: spans_def)
    with e(3) v show ?thesis
      by (auto simp: spans_def p2p_of_def max_def image_iff split: if_splits) (metis fst_conv snd_conv)+
  qed
  with 1 show ?thesis by blast
qed

text \<open>
  A write of the pulses that the kernel takes only part of leaves that part in its queue and the X
  driver at its running current: neither is taken back on that way out.
\<close>

theorem short_write_left_standing:
  assumes "pw_accel w" "pw_state w = Some ''idle''" "fst (pw_enclosure w) = 0" "pw_alloc w"
    and "0 < pw_written w" "pw_written w < 31600"
  shows "\<exists>detail. liveness_probe w dlen = Some (- 1, detail, probe_setup @ [Pulses (take (nat (pw_written w)) probe_pattern)])"
  using assms by (simp add: liveness_probe_def pattern_length Let_def)

end
