(* ===== verification/Relcheck.thy ===== *)
theory Relcheck
  imports Cnum Json "HOL-Library.Char_ord" "HOL-Library.List_Lexorder" "HOL-Library.Product_Lexorder"
begin

text \<open>
  The release check (\<open>src/relcheck.c\<close>): what leaves the answer of a release server, the URLs that go
  into a command, and the order of versions. The fetch is an input (what the server answered, if it
  did), the JSON reader the parameter \<open>loads\<close>. \<open>strcmp\<close>'s order is the library's lexicographic
  order of lists of characters, \<open>long\<close> the target's thirty-two bits.
\<close>

definition relcheck_asset :: string where "relcheck_asset = ''forgefirm.fw''"
definition relcheck_probe_asset :: string where "relcheck_probe_asset = ''acceptance.json''"
definition relcheck_api_default :: string where
  "relcheck_api_default = ''https://api.github.com/repos/openglow-org/forgefirm/releases/latest''"
definition relcheck_download_default :: string where
  "relcheck_download_default = ''https://github.com/openglow-org/forgefirm/releases/download/%s/%s''"
definition relcheck_body_max :: nat where "relcheck_body_max = 256 * 1024"
definition relcheck_notes_max :: nat where "relcheck_notes_max = 24 * 1024"
definition version_size :: nat where "version_size = 48"

section \<open>Tags and URLs\<close>

definition tag_char :: "char \<Rightarrow> bool" where
  "tag_char c \<longleftrightarrow> is_alnum c \<or> c = CHR ''.'' \<or> c = CHR ''-'' \<or> c = CHR ''_'' \<or> c = CHR ''+''"

definition relcheck_tag_ok :: "string option \<Rightarrow> bool" where
  "relcheck_tag_ok s = (case s of None \<Rightarrow> False | Some t \<Rightarrow> t \<noteq> [] \<and> list_all tag_char t)"

definition url_char :: "char \<Rightarrow> bool" where
  "url_char c \<longleftrightarrow> is_alnum c \<or> c = CHR ''.'' \<or> c = CHR ''-'' \<or> c = CHR ''_'' \<or> c = CHR '':'' \<or> c = CHR ''/''"

fun url_scan :: "bool \<Rightarrow> nat \<Rightarrow> string \<Rightarrow> nat option" where
  "url_scan fmt conv [] = Some conv"
| "url_scan fmt conv (c # s) =
     (if url_char c then url_scan fmt conv s
      else if fmt \<and> c = CHR ''%'' \<and> s \<noteq> [] \<and> hd s = CHR ''s'' then url_scan fmt (conv + 1) (tl s)
      else None)"

definition url_ok :: "string \<Rightarrow> bool \<Rightarrow> bool" where
  "url_ok s fmt = (case url_scan fmt 0 s of None \<Rightarrow> False | Some conv \<Rightarrow> \<not> fmt \<or> conv = 2)"

definition url_from_env :: "string option \<Rightarrow> string \<Rightarrow> bool \<Rightarrow> string option" where
  "url_from_env v def fmt =
     (case v of None \<Rightarrow> Some def
      | Some s \<Rightarrow> if s = [] then Some def else if url_ok s fmt then Some s else None)"

definition relcheck_api_url :: "string option \<Rightarrow> string option" where
  "relcheck_api_url v = url_from_env v relcheck_api_default False"

definition relcheck_download_fmt :: "string option \<Rightarrow> string option" where
  "relcheck_download_fmt v = url_from_env v relcheck_download_default True"

text \<open>\<open>snprintf\<close> with a format of ordinary characters and \<open>%s\<close>.\<close>

fun expand :: "string \<Rightarrow> string list \<Rightarrow> string" where
  "expand [] as = []"
| "expand (c # s) as =
     (if c = CHR ''%'' \<and> s \<noteq> [] \<and> hd s = CHR ''s''
      then (case as of a # as' \<Rightarrow> a @ expand (tl s) as' | [] \<Rightarrow> expand (tl s) [])
      else c # expand s as)"

definition relcheck_download_url :: "nat \<Rightarrow> string option \<Rightarrow> string option \<Rightarrow> bool \<Rightarrow> string option" where
  "relcheck_download_url len v tag probe =
     (case relcheck_download_fmt v of None \<Rightarrow> None
      | Some fmt \<Rightarrow>
          if \<not> relcheck_tag_ok tag then None
          else let u = expand fmt [the tag, if probe then relcheck_probe_asset else relcheck_asset]
               in if 0 < length u \<and> length u < len then Some u else None)"

section \<open>The check\<close>

definition continuation :: "char \<Rightarrow> bool" where
  "continuation c \<longleftrightarrow> 128 \<le> byte c \<and> byte c < 192"

fun back_up :: "string \<Rightarrow> nat \<Rightarrow> nat" where
  "back_up s 0 = 0"
| "back_up s (Suc n) = (if continuation (s ! Suc n) then back_up s n else Suc n)"

definition copy_text :: "nat \<Rightarrow> string \<Rightarrow> string" where
  "copy_text len s = (if length s < len then s else take (back_up s (len - 1)) s)"

definition str_or :: "json option \<Rightarrow> string \<Rightarrow> string" where
  "str_or v d = (case string_value v of Some s \<Rightarrow> s | None \<Rightarrow> d)"

record relcheck_result =
  rc_available :: bool
  rc_version :: string
  rc_published :: string
  rc_bytes :: int
  rc_notes :: string
  rc_detail :: string
  rc_http :: int

definition rc_zero :: relcheck_result where
  "rc_zero = \<lparr>rc_available = False, rc_version = [], rc_published = [], rc_bytes = 0, rc_notes = [], rc_detail = [],
     rc_http = 0\<rparr>"

definition rc_says :: "string \<Rightarrow> relcheck_result \<Rightarrow> relcheck_result" where
  "rc_says why r = r\<lparr>rc_detail := fit 160 why\<rparr>"

fun array_items :: "json option \<Rightarrow> json list" where
  "array_items (Some (JArr xs)) = xs"
| "array_items _ = []"

definition long_of :: "int \<Rightarrow> int" where
  "long_of i = sint (word_of_int i :: 32 word)"

definition firmware_asset :: "json option \<Rightarrow> json option" where
  "firmware_asset assets = find (\<lambda>a. str_or (obj_get (Some a) ''name'') [] = relcheck_asset) (array_items assets)"

definition asset_bytes :: "json \<Rightarrow> int" where
  "asset_bytes a = (case obj_get (Some a) ''size'' of Some (JInt i) \<Rightarrow> long_of i | _ \<Rightarrow> 0)"

definition read_release :: "json option \<Rightarrow> int \<Rightarrow> relcheck_result \<Rightarrow> relcheck_result" where
  "read_release reply http r =
     (let tag = str_or (obj_get reply ''tag_name'') [] in
      if \<not> relcheck_tag_ok (Some tag) \<or> version_size \<le> length tag
      then rc_says (''release server error (HTTP '' @ show_int http @ ''): the release tag is not a tag'') r
      else
        let r = r\<lparr>rc_version := tag, rc_published := copy_text 32 (str_or (obj_get reply ''published_at'') []),
                  rc_notes := copy_text relcheck_notes_max (str_or (obj_get reply ''body'') [])\<rparr>
        in case firmware_asset (obj_get reply ''assets'') of
             None \<Rightarrow> rc_says (''release '' @ tag @ '' carries no firmware file'') r
           | Some a \<Rightarrow> r\<lparr>rc_bytes := asset_bytes a, rc_available := True\<rparr>)"

text \<open>\<open>fetched\<close> is the status and the body, cut to its buffer, or nothing; \<open>False\<close> is the answer -1.\<close>

definition relcheck :: "(string \<Rightarrow> json option) \<Rightarrow> string option \<Rightarrow> (int \<times> string) option \<Rightarrow> bool \<times> relcheck_result" where
  "relcheck loads v fetched =
     (case relcheck_api_url v of
        None \<Rightarrow> (True, rc_says ''FORGECTRL_RELCHECK_URL is not a URL this check takes'' rc_zero)
      | Some url \<Rightarrow>
          (case fetched of
             None \<Rightarrow> (False, rc_zero)
           | Some (http, body) \<Rightarrow>
               let r = rc_zero\<lparr>rc_http := http\<rparr>; reply = loads body in
               if http = 404
               then (True, rc_says (''no published release found (HTTP '' @ show_int http @ '')'') r)
               else if http \<noteq> 200
               then let why = copy_text 96 (str_or (obj_get reply ''message'') [])
                    in (True, rc_says (''release server error (HTTP '' @ show_int http @ '')'' @
                              (if why \<noteq> [] then '': '' else []) @ why) r)
               else if \<not> is_object reply
               then (True, rc_says (''release server answered badly (HTTP '' @ show_int http @ '')'') r)
               else (True, read_release reply http r)))"

section \<open>Versions\<close>

definition drop_v :: "string \<Rightarrow> string" where
  "drop_v s = (case s of c # r \<Rightarrow> if c = CHR ''v'' \<or> c = CHR ''V'' then r else s | [] \<Rightarrow> [])"

definition version_num :: "string \<Rightarrow> (int \<times> string) option" where
  "version_num s = (if s = [] \<or> \<not> is_digit (hd s) then None else Some (strtol10 s))"

definition dot :: "string \<Rightarrow> string option" where
  "dot s = (if s \<noteq> [] \<and> hd s = CHR ''.'' then Some (tl s) else None)"

definition parse_version :: "string \<Rightarrow> (int \<times> int \<times> int \<times> string) option" where
  "parse_version s =
     Option.bind (version_num (drop_v s)) (\<lambda>(a, r1). Option.bind (dot r1) (\<lambda>r1.
     Option.bind (version_num r1) (\<lambda>(b, r2). Option.bind (dot r2) (\<lambda>r2.
     Option.bind (version_num r2) (\<lambda>(c, r3).
       if r3 = [] then Some (a, b, c, [])
       else if hd r3 \<noteq> CHR ''-'' then None else Some (a, b, c, tl r3))))))"

definition relcheck_is_newer :: "string \<Rightarrow> string option \<Rightarrow> bool" where
  "relcheck_is_newer tag current =
     (case parse_version tag of None \<Rightarrow> False
      | Some (t0, t1, t2, ts) \<Rightarrow>
          (case Option.bind current parse_version of None \<Rightarrow> True
           | Some (c0, c1, c2, cs) \<Rightarrow>
               if t0 \<noteq> c0 then c0 < t0 else if t1 \<noteq> c1 then c1 < t1 else if t2 \<noteq> c2 then c2 < t2
               else if ts = [] then cs \<noteq> [] else if cs = [] then False else cs < ts))"

text \<open>
  The order of versions is a linear order of keys: the three numbers, then a release over its
  prereleases, then the suffix as text. A tag is offered exactly when it is a version and what is
  installed is not one, or has a smaller key; so an installed release is never offered again, and
  no two versions are each newer than the other.
\<close>

definition version_key :: "int \<times> int \<times> int \<times> string \<Rightarrow> int \<times> int \<times> int \<times> bool \<times> string" where
  "version_key v = (case v of (a, b, c, s) \<Rightarrow> (a, b, c, s = [], s))"

lemma Nil_less: "([] :: string) < s \<longleftrightarrow> s \<noteq> []"
  by (cases s) auto

lemma key_less:
  "version_key (c0, c1, c2, cs) < version_key (t0, t1, t2, ts) \<longleftrightarrow>
   (if t0 \<noteq> c0 then c0 < t0 else if t1 \<noteq> c1 then c1 < t1 else if t2 \<noteq> c2 then c2 < t2
    else if ts = [] then cs \<noteq> [] else if cs = [] then False else cs < ts)"
  by (cases "ts = []"; cases "cs = []") (auto simp: version_key_def less_prod_simp)

text \<open>
  A release is newer exactly when its version's key is greater: the three numbers, then a release
  over its prereleases, then the suffixes as text. A tag that is no version is newer than nothing,
  and everything that is one is newer than an installed version that is none.
\<close>

theorem newer_is_key_order:
  "relcheck_is_newer tag current \<longleftrightarrow>
     (case (parse_version tag, Option.bind current parse_version) of
        (None, _) \<Rightarrow> False
      | (Some _, None) \<Rightarrow> True
      | (Some t, Some c) \<Rightarrow> version_key c < version_key t)"
  by (cases "parse_version tag"; cases "Option.bind current parse_version")
     (simp_all add: relcheck_is_newer_def key_less split: prod.splits)

lemma newer_irrefl: "\<not> relcheck_is_newer t (Some t)"
  by (cases "parse_version t") (simp_all add: relcheck_is_newer_def split: prod.splits)

lemma release_over_prerelease:
  "parse_version t = Some (a, b, c, []) \<Longrightarrow> parse_version p = Some (a, b, c, s) \<Longrightarrow> s \<noteq> [] \<Longrightarrow> relcheck_is_newer t (Some p)"
  by (simp add: relcheck_is_newer_def)

text \<open>The tenth prerelease is older than the ninth, as the suffixes order as text.\<close>

lemma rc10_before_rc9: "relcheck_is_newer ''v1.2.0-rc9'' (Some ''v1.2.0-rc10'')"
  by (simp add: relcheck_is_newer_def parse_version_def drop_v_def version_num_def dot_def cnum_defs Let_def less_char_def)

section \<open>What leaves the module\<close>

definition command_safe :: "char \<Rightarrow> bool" where
  "command_safe c \<longleftrightarrow> url_char c \<or> c = CHR ''+''"

lemma tag_char_safe: "tag_char c \<Longrightarrow> command_safe c"
  by (auto simp: tag_char_def command_safe_def url_char_def)

lemma percent_not_url: "\<not> url_char (CHR ''%'')"
  by (simp add: url_char_def char_class_defs)

lemma expand_safe:
  "url_scan True n fmt \<noteq> None \<Longrightarrow> \<forall>a\<in>set as. list_all command_safe a \<Longrightarrow> list_all command_safe (expand fmt as)"
proof (induction fmt "as" arbitrary: n rule: expand.induct)
  case (2 c s "as")
  show ?case
  proof (cases "c = CHR ''%'' \<and> s \<noteq> [] \<and> hd s = CHR ''s''")
    case True
    with 2 percent_not_url show ?thesis by (cases "as") (auto split: if_splits)
  next
    case False
    with 2 show ?thesis by (auto simp: command_safe_def split: if_splits)
  qed
qed simp

lemma default_formats: "url_scan True 0 relcheck_download_default = Some 2" "url_ok relcheck_api_default False"
  by code_simp+

lemma assets_safe: "list_all command_safe relcheck_asset" "list_all command_safe relcheck_probe_asset"
  by code_simp+

text \<open>C28. 
  The URL a download passes to a shell unquoted holds letters, digits and \<open>. - _ : / +\<close> alone, whatever
  the release server named its tag and whatever the environment gave for the pattern: no blank, quote,
  dollar, semicolon or backquote of theirs reaches the command.
\<close>

theorem download_url_safe:
  assumes "relcheck_download_url len v tag probe = Some u"
  shows "list_all command_safe u \<and> u \<noteq> [] \<and> length u < len"
proof -
  obtain fmt where f: "relcheck_download_fmt v = Some fmt" "relcheck_tag_ok tag"
    "u = expand fmt [the tag, if probe then relcheck_probe_asset else relcheck_asset]" "u \<noteq> []" "length u < len"
    using assms by (auto simp: relcheck_download_url_def Let_def split: option.splits if_splits)
  have "url_scan True 0 fmt \<noteq> None"
    using f(1) default_formats(1)
    by (auto simp: relcheck_download_fmt_def url_from_env_def url_ok_def split: option.splits if_splits)
  moreover have "list_all command_safe (the tag)"
    using f(2) tag_char_safe by (auto simp: relcheck_tag_ok_def list_all_iff split: option.splits)
  ultimately have "list_all command_safe u"
    unfolding f(3) using assets_safe by (intro expand_safe) auto
  with f show ?thesis by simp
qed

theorem download_url_safe_witness:
  "\<exists>u. relcheck_download_url 256 None (Some ''v1.4.0+7'') False = Some u \<and> list_all command_safe u \<and> u \<noteq> []"
proof -
  have u: "relcheck_download_url 256 None (Some ''v1.4.0+7'') False =
    Some ''https://github.com/openglow-org/forgefirm/releases/download/v1.4.0+7/forgefirm.fw''"
    by code_simp
  with download_url_safe [OF u] show ?thesis by blast
qed

text \<open>
  A text that is cut is cut at a character: what follows the cut in the server's text is no
  continuation byte, unless nothing is kept at all.
\<close>

lemma back_up_cut: "back_up s n \<le> n \<and> (back_up s n = 0 \<or> \<not> continuation (s ! back_up s n))"
  by (induction n) auto

lemma copy_text_boundary:
  assumes "0 < len"
  shows "length (copy_text len s) < len \<and>
    (copy_text len s = s \<or> copy_text len s = [] \<or> \<not> continuation (s ! length (copy_text len s)))"
  using back_up_cut [of s "len - 1"] assms by (auto simp: copy_text_def)

text \<open>A UTF-8 text: sequences of a start byte and its continuation bytes.\<close>

definition utf8_seq :: "string \<Rightarrow> bool" where
  "utf8_seq s \<longleftrightarrow> s \<noteq> [] \<and> \<not> continuation (hd s) \<and> list_all continuation (tl s)"

lemma seqs_cut:
  assumes "\<forall>q\<in>set qs. utf8_seq q" "n < length (concat qs)" "\<not> continuation (concat qs ! n)"
  shows "\<exists>ps. take n (concat qs) = concat ps \<and> set ps \<subseteq> set qs"
  using assms
proof (induction qs arbitrary: n)
  case (Cons q qs)
  show ?case
  proof (cases "n < length q")
    case True
    have "n = 0"
    proof (rule ccontr)
      assume "n \<noteq> 0"
      with True have "concat (q # qs) ! n \<in> set (tl q)"
        by (cases q) (auto simp: nth_append nth_Cons')
      with Cons.prems show False by (auto simp: utf8_seq_def list_all_iff)
    qed
    then show ?thesis by (intro exI [of _ "[]"]) simp
  next
    case False
    then have "\<exists>ps. take (n - length q) (concat qs) = concat ps \<and> set ps \<subseteq> set qs"
      using Cons.prems by (intro Cons.IH) (auto simp: nth_append)
    then obtain ps where "take (n - length q) (concat qs) = concat ps" "set ps \<subseteq> set qs" by blast
    with False show ?thesis by (intro exI [of _ "q # ps"]) auto
  qed
qed simp

theorem copy_text_whole_characters:
  assumes "\<forall>q\<in>set qs. utf8_seq q" "0 < len"
  shows "\<exists>ps. copy_text len (concat qs) = concat ps \<and> set ps \<subseteq> set qs"
proof (cases "length (concat qs) < len")
  case True
  then show ?thesis by (auto simp: copy_text_def)
next
  case False
  let ?n = "back_up (concat qs) (len - 1)"
  have n: "?n \<le> len - 1" "?n = 0 \<or> \<not> continuation (concat qs ! ?n)" using back_up_cut by auto
  have e: "copy_text len (concat qs) = take ?n (concat qs)" using False by (simp add: copy_text_def)
  show ?thesis
  proof (cases "?n = 0")
    case True
    then show ?thesis unfolding e by (intro exI [of _ "[]"]) simp
  next
    case nz: False
    with n False assms(2) have "?n < length (concat qs)" by linarith
    with seqs_cut [OF assms(1)] n nz show ?thesis unfolding e by blast
  qed
qed

text \<open>A release that is offered has a usable tag, and its bytes are those of the firmware file.\<close>

lemma available_release:
  "relcheck loads v fetched = (ok, r) \<Longrightarrow> rc_available r \<Longrightarrow>
   relcheck_tag_ok (Some (rc_version r)) \<and> length (rc_version r) < version_size \<and> rc_http r = 200 \<and> ok"
  by (auto simp: relcheck_def read_release_def rc_says_def rc_zero_def Let_def split: option.splits if_splits)

end
