(* ===== verification/Wizcalc.thy ===== *)
theory Wizcalc
  imports Cfmt
begin

text \<open>
  The arithmetic of the setup wizards (\<open>src/wizcalc.c\<close>): fan traces, heater rungs, a sample at rest,
  the ring that finds the lens's stop, and who may drive a running wizard. Doubles are the reals
  they denote, those that may be missing are \<open>dbl\<close>; \<open>malloc\<close> succeeds.
\<close>

section \<open>Fan traces\<close>

definition median :: "real list \<Rightarrow> real" where
  "median v =
     (let c = sort v; n = length v
      in if odd n then c ! (n div 2) else (c ! (n div 2 - 1) + c ! (n div 2)) / 2)"

record wizcalc_fan =
  steady_rpm :: real
  spinup_s :: real
  fan_ok :: bool

text \<open>The index of the first sample at or over a target.\<close>

fun first_at :: "real \<Rightarrow> nat \<Rightarrow> real list \<Rightarrow> nat option" where
  "first_at target i [] = None"
| "first_at target i (x # xs) = (if target \<le> x then Some i else first_at target (i + 1) xs)"

definition wizcalc_fan_analyze :: "real list \<Rightarrow> real \<Rightarrow> real \<Rightarrow> wizcalc_fan option" where
  "wizcalc_fan_analyze rpm hz min_rpm =
     (let n = int (length rpm) in
      if hz \<le> 0 \<or> n < \<lfloor>hz * 12\<rfloor> then None
      else
        let tail = nat (min n (max 1 \<lfloor>hz * 10\<rfloor>));
            steady = median (drop (length rpm - tail) rpm)
        in Some \<lparr>steady_rpm = steady,
                 spinup_s = (case first_at (0.9 * steady) 0 rpm of Some i \<Rightarrow> of_nat i / hz | None \<Rightarrow> of_int n / hz),
                 fan_ok = (min_rpm \<le> steady)\<rparr>)"

definition wizcalc_fan_silent :: "real list \<Rightarrow> bool" where
  "wizcalc_fan_silent rpm \<longleftrightarrow> rpm \<noteq> [] \<and> list_all (\<lambda>x. \<not> 0 < x) rpm"

text \<open>The intakes judged by, and whether the trace is a fault.\<close>

definition wizcalc_airflow_intakes :: "bool \<Rightarrow> string option \<Rightarrow> bool \<Rightarrow> nat \<times> bool" where
  "wizcalc_airflow_intakes silent2 counted fail =
     (let one = silent2 \<and> counted = Some ''1''
      in (if one then 1 else 2, fail \<or> silent2 \<and> \<not> one))"

definition wizcalc_intake_count :: "bool \<Rightarrow> bool \<Rightarrow> (bool \<Rightarrow> int) option \<Rightarrow> int" where
  "wizcalc_intake_count ok1 silent2 ask =
     (if ok1 \<and> \<not> silent2 then 2
      else let n = (case ask of None \<Rightarrow> - 1 | Some f \<Rightarrow> f ok1) in if n = 1 \<or> n = 2 then n else - 1)"

definition clamp :: "real \<Rightarrow> real \<Rightarrow> real \<Rightarrow> real" where
  "clamp lo hi f = (let f = (if f < lo then lo else f) in if hi < f then hi else f)"

definition wizcalc_floor :: "real \<Rightarrow> real \<Rightarrow> real \<Rightarrow> real \<Rightarrow> real" where
  "wizcalc_floor steady part lo hi = clamp lo hi (steady * part)"

definition wizcalc_grace_s :: "real \<Rightarrow> real \<Rightarrow> real \<Rightarrow> real" where
  "wizcalc_grace_s spinup lo hi = clamp lo hi (spinup + 5)"

definition wizcalc_next_duty :: "real \<Rightarrow> real" where
  "wizcalc_next_duty duty = (if duty < 40 then 40 else if duty < 45 then 45 else if duty < 50 then 50 else - 1)"

text \<open>Whether the next rung has room, and the highest projection.\<close>

definition wizcalc_rung_room :: "(real \<times> real) list \<Rightarrow> real \<Rightarrow> real \<Rightarrow> real \<Rightarrow> real \<Rightarrow> bool \<times> real" where
  "wizcalc_rung_room trials duty next_d limit_c margin_c =
     (let top = fold (\<lambda>(b, r) top. max top (b + r * next_d / duty)) trials (- (10 ^ 9))
      in (trials \<noteq> [] \<and> 0 < duty \<and> top < limit_c - margin_c, top))"

section \<open>A sample at rest\<close>

record wizcalc_sensors =
  down_c :: dbl
  up_c :: dbl
  chassis_c :: dbl
  soc_c :: dbl
  ir :: "int list"
  ir_alert :: real
  accel_events :: int
  pgood :: int
  hv_current :: int
  tach_exhaust :: real
  tach_intake :: real

text \<open>A temperature outside its range; \<open>%.1f\<close> of a finite one, and what the C library writes for the others.\<close>

definition outside :: "real \<Rightarrow> real \<Rightarrow> dbl \<Rightarrow> bool" where
  "outside lo hi d \<longleftrightarrow> d_lt d (Fin lo) \<or> d_lt (Fin hi) d"

definition fmt_d1 :: "dbl \<Rightarrow> string" where
  "fmt_d1 d = (case d of Fin r \<Rightarrow> fmt_f 1 r | PInf \<Rightarrow> ''inf'' | NInf \<Rightarrow> ''-inf'' | NaN \<Rightarrow> ''nan'')"

definition coolant_why :: "wizcalc_sensors \<Rightarrow> string list" where
  "coolant_why s =
     (if down_c s \<noteq> NaN \<and> up_c s \<noteq> NaN
      then if outside 0 40 (down_c s) \<or> outside 0 40 (up_c s)
           then [fit 96 (''coolant '' @ fmt_d1 (down_c s) @ ''/'' @ fmt_d1 (up_c s) @ '' C outside 0 to 40'')]
           else (case (down_c s, up_c s) of
                   (Fin d, Fin u) \<Rightarrow>
                     if 1.5 < \<bar>d - u\<bar> then [fit 96 (''coolant sensors disagree by '' @ fmt_f 1 \<bar>d - u\<bar> @ '' C'')] else []
                 | _ \<Rightarrow> [])
      else [''a coolant temperature is unreadable''])"

definition ir_why :: "wizcalc_sensors \<Rightarrow> nat \<Rightarrow> string list" where
  "ir_why s i =
     (let v = ir s ! i in
      if v < 0 then []
      else if 0 < ir_alert s \<and> ir_alert s \<le> of_int v
      then [fit 96 (''lid IR '' @ show_nat (i + 1) @ '' reads '' @ show_int v @ '', at the '' @ fmt_f0 (ir_alert s) @ '' alert tier'')]
      else [])"

definition sensor_whys :: "wizcalc_sensors \<Rightarrow> string list" where
  "sensor_whys s =
     coolant_why s @
     (if chassis_c s \<noteq> NaN \<and> outside 0 60 (chassis_c s)
      then [fit 96 (''chassis '' @ fmt_d1 (chassis_c s) @ '' C outside 0 to 60'')] else []) @
     (if soc_c s \<noteq> NaN \<and> outside 0 85 (soc_c s)
      then [fit 96 (''SoC '' @ fmt_d1 (soc_c s) @ '' C outside 0 to 85'')] else []) @
     concat (map (ir_why s) [0..<4]) @
     (if 0 < accel_events s then [fit 96 (show_int (accel_events s) @ '' accelerometer events at rest'')] else []) @
     (if pgood s = 0 then [''laser supply power-good not sampled good''] else []) @
     (if 10 < hv_current s then [fit 96 (''HV current '' @ show_int (hv_current s) @ '' at rest'')] else []) @
     (if 0 \<le> tach_exhaust s \<and> tach_exhaust s < 1 then [''the exhaust tach reads nothing at idle''] else []) @
     (if 0 \<le> tach_intake s \<and> tach_intake s < 1 then [''the intake tach reads nothing at idle''] else [])"

text \<open>\<open>add_why\<close>: appended after a comma, cut at the buffer's end.\<close>

definition add_why :: "nat \<Rightarrow> string \<Rightarrow> string \<Rightarrow> string" where
  "add_why len t why = why @ fit (len - length why) ((if why = [] then [] else '', '') @ t)"

definition wizcalc_sensors_judge :: "wizcalc_sensors \<Rightarrow> nat \<Rightarrow> nat \<times> string" where
  "wizcalc_sensors_judge s len = (length (sensor_whys s), fold (add_why len) (sensor_whys s) [])"

section \<open>The lens's stop\<close>

definition median_of :: "int list \<Rightarrow> bool \<Rightarrow> int" where
  "median_of v low = sort v ! (if low then (length v - 1) div 2 else length v div 2)"

definition strong_parity :: "int list \<Rightarrow> nat" where
  "strong_parity rings = (if rings ! 0 < rings ! 1 then 2 else 1)"

text \<open>The steps before \<open>at\<close> of one parity, as many as their array takes.\<close>

definition parity_sums :: "int list \<Rightarrow> nat \<Rightarrow> nat \<Rightarrow> int list" where
  "parity_sums rings n par = take 64 (map (\<lambda>i. rings ! (i - 1)) (filter (\<lambda>i. i mod 2 = par) [1..<n]))"

text \<open>The two levels and the smaller count, or nothing to judge by.\<close>

definition ring_levels :: "int list \<Rightarrow> nat \<Rightarrow> (nat \<times> int \<times> int) option" where
  "ring_levels rings n =
     (if n < 3 then None
      else let sv = parity_sums rings n (strong_parity rings mod 2);
               qv = parity_sums rings n (1 - strong_parity rings mod 2)
           in if sv = [] \<or> qv = [] then None
              else Some (min (length sv) (length qv), median_of sv True, median_of qv False))"

text \<open>C's division by four rounds toward zero.\<close>

definition quarter :: "int \<Rightarrow> int" where
  "quarter d = (if d < 0 then - (- d div 4) else d div 4)"

text \<open>What a step is called: a slip, a contact, or nothing.\<close>

definition step_call :: "int list \<Rightarrow> nat \<Rightarrow> bool option" where
  "step_call rings i =
     (case ring_levels rings i of
        None \<Rightarrow> None
      | Some (m, s_med, q_med) \<Rightarrow>
          if m < 2 then None
          else if s_med * 9 < rings ! (i - 1) * 5 then Some True
          else if i mod 2 = strong_parity rings mod 2 \<and> rings ! (i - 1) < q_med + quarter (s_med - q_med)
          then Some False else None)"

fun first_call :: "int list \<Rightarrow> nat list \<Rightarrow> nat \<times> bool" where
  "first_call rings [] = (0, False)"
| "first_call rings (i # is) = (case step_call rings i of Some slip \<Rightarrow> (i, slip) | None \<Rightarrow> first_call rings is)"

definition wizcalc_stop_call :: "int list \<Rightarrow> nat \<times> bool" where
  "wizcalc_stop_call rings = (if length rings < 2 then (0, False) else first_call rings [5..<length rings + 1])"

definition wizcalc_ring_readable :: "int list \<Rightarrow> nat \<Rightarrow> int \<Rightarrow> bool" where
  "wizcalc_ring_readable rings n fl =
     (case ring_levels rings n of None \<Rightarrow> False
      | Some (m, s_med, q_med) \<Rightarrow> \<not> m < 2 \<and> fl \<le> s_med \<and> q_med * 3 \<le> s_med * 2)"

definition wizcalc_z_concur :: "int list \<Rightarrow> int \<Rightarrow> bool" where
  "wizcalc_z_concur pos tol \<longleftrightarrow>
     \<not> length pos < 2 \<and> fold max (tl pos) (hd pos) - fold min (tl pos) (hd pos) \<le> tol"

definition wizcalc_jog_witnessed :: "real \<Rightarrow> real \<Rightarrow> real \<Rightarrow> real \<Rightarrow> real \<Rightarrow> real \<Rightarrow> bool" where
  "wizcalc_jog_witnessed mx my rx ry ratio fl \<longleftrightarrow>
     fl \<le> (if my < mx then mx else my) \<and> ratio * (if ry < rx then rx else ry) \<le> (if my < mx then mx else my)"

definition wizcalc_may_act :: "string \<Rightarrow> string option \<Rightarrow> bool" where
  "wizcalc_may_act owner requester =
     (case requester of None \<Rightarrow> True | Some r \<Rightarrow> r = [] \<or> owner = [] \<or> owner = r)"

section \<open>What the numbers are held to\<close>

lemma clamp_range: "lo \<le> hi \<Longrightarrow> lo \<le> clamp lo hi f \<and> clamp lo hi f \<le> hi"
  by (auto simp: clamp_def Let_def)

lemma median_between:
  assumes "v \<noteq> []" "\<forall>x\<in>set v. lo \<le> x \<and> x \<le> hi"
  shows "lo \<le> median v \<and> median v \<le> hi"
proof -
  have n: "\<And>i. i < length v \<Longrightarrow> lo \<le> sort v ! i \<and> sort v ! i \<le> hi"
    using assms(2) by (metis length_sort nth_mem set_sort)
  have "length v div 2 < length v" "length v div 2 - 1 < length v" using assms(1) by (cases v; simp)+
  from this [THEN n] show ?thesis by (auto simp: median_def Let_def)
qed

lemma rung_room_projects:
  "fst (wizcalc_rung_room trials duty next_d limit_c margin_c) \<Longrightarrow> (b, r) \<in> set trials \<Longrightarrow>
   b + r * next_d / duty < limit_c - margin_c"
proof -
  have mono_top: "t \<le> fold (\<lambda>(b, r) top. max top (b + r * next_d / duty)) xs t" for xs t
    by (induction xs arbitrary: t) (auto intro: order_trans [OF max.cobounded1])
  have "(b, r) \<in> set xs \<Longrightarrow> b + r * next_d / duty \<le> fold (\<lambda>(b, r) top. max top (b + r * next_d / duty)) xs t" for xs t
    by (induction xs arbitrary: t) (auto intro: order_trans [OF max.cobounded2 mono_top])
  then show "fst (wizcalc_rung_room trials duty next_d limit_c margin_c) \<Longrightarrow> (b, r) \<in> set trials \<Longrightarrow>
      b + r * next_d / duty < limit_c - margin_c"
    by (auto simp: wizcalc_rung_room_def Let_def intro: order_le_less_trans)
qed

text \<open>The reasons are none exactly when every reading stands in its range, as far as it was taken.\<close>

definition at_rest :: "wizcalc_sensors \<Rightarrow> bool" where
  "at_rest s \<longleftrightarrow>
     (\<exists>d u. down_c s = Fin d \<and> up_c s = Fin u \<and> 0 \<le> d \<and> d \<le> 40 \<and> 0 \<le> u \<and> u \<le> 40 \<and> \<bar>d - u\<bar> \<le> 1.5) \<and>
     (chassis_c s = NaN \<or> \<not> outside 0 60 (chassis_c s)) \<and> (soc_c s = NaN \<or> \<not> outside 0 85 (soc_c s)) \<and>
     (\<forall>i<4. ir s ! i < 0 \<or> ir_alert s \<le> 0 \<or> of_int (ir s ! i) < ir_alert s) \<and>
     accel_events s \<le> 0 \<and> pgood s \<noteq> 0 \<and> hv_current s \<le> 10 \<and>
     (tach_exhaust s < 0 \<or> 1 \<le> tach_exhaust s) \<and> (tach_intake s < 0 \<or> 1 \<le> tach_intake s)"

lemma coolant_why_none:
  "coolant_why s = [] \<longleftrightarrow>
   (\<exists>d u. down_c s = Fin d \<and> up_c s = Fin u \<and> 0 \<le> d \<and> d \<le> 40 \<and> 0 \<le> u \<and> u \<le> 40 \<and> \<bar>d - u\<bar> \<le> 1.5)"
  by (cases "down_c s"; cases "up_c s") (auto simp: coolant_why_def outside_def)

lemma ir_why_none: "ir_why s i = [] \<longleftrightarrow> ir s ! i < 0 \<or> ir_alert s \<le> 0 \<or> of_int (ir s ! i) < ir_alert s"
  by (auto simp: ir_why_def Let_def)

theorem sensors_judge_none:
  "fst (wizcalc_sensors_judge s len) = 0 \<longleftrightarrow> at_rest s"
proof -
  have "concat (map (ir_why s) [0..<4]) = [] \<longleftrightarrow> (\<forall>i<4. ir_why s i = [])" by auto
  then show ?thesis
    by (auto simp: wizcalc_sensors_judge_def sensor_whys_def at_rest_def coolant_why_none ir_why_none)
qed

section \<open>The call depends on the past alone\<close>

lemma parity_sums_take: "n \<le> m + 1 \<Longrightarrow> parity_sums (take m rings) n par = parity_sums rings n par"
proof -
  assume "n \<le> m + 1"
  then have "map (\<lambda>i. take m rings ! (i - 1)) (filter (\<lambda>i. i mod 2 = par) [1..<n]) =
      map (\<lambda>i. rings ! (i - 1)) (filter (\<lambda>i. i mod 2 = par) [1..<n])"
    by (intro map_cong) auto
  then show ?thesis unfolding parity_sums_def by (rule arg_cong)
qed

lemma step_call_take: "5 \<le> i \<Longrightarrow> i \<le> m \<Longrightarrow> step_call (take m rings) i = step_call rings i"
proof -
  assume i: "5 \<le> i" "i \<le> m"
  then have s: "strong_parity (take m rings) = strong_parity rings" by (simp add: strong_parity_def)
  have l: "ring_levels (take m rings) i = ring_levels rings i"
    unfolding ring_levels_def s using i by (simp add: parity_sums_take)
  have e: "take m rings ! (i - 1) = rings ! (i - 1)" using i by simp
  show ?thesis unfolding step_call_def s l e by (rule refl)
qed

lemma first_call_take:
  "\<forall>i\<in>set is. 5 \<le> i \<and> i \<le> m \<Longrightarrow> first_call (take m rings) is = first_call rings is"
  by (induction "is") (auto simp: step_call_take split: option.splits)

lemma first_call_hit: "first_call rings is = (i, slip) \<Longrightarrow> i \<noteq> 0 \<Longrightarrow> i \<in> set is \<and> step_call rings i = Some slip"
  by (induction "is") (auto split: option.splits)

lemma first_call_append:
  "0 \<notin> set is \<Longrightarrow> first_call rings (is @ js) = (if fst (first_call rings is) \<noteq> 0 then first_call rings is else first_call rings js)"
  by (induction "is") (auto split: option.splits)

text \<open>
  The finder may be asked after every step: what it calls never changes with the steps that follow,
  and it calls nothing before the step it names.
\<close>

lemma stop_call_first: "wizcalc_stop_call rings = first_call rings [5..<length rings + 1]"
  by (simp add: wizcalc_stop_call_def)

lemma upt_split: "m < n \<Longrightarrow> [5..<n + 1] = [5..<m + 1] @ [max 5 (m + 1)..<n + (1::nat)]"
  using upt_add_eq_append [of 5 "m + 1" "n - m"] by (cases "5 \<le> m + 1") (auto simp: max_def)

theorem stop_call_online:
  "fst (wizcalc_stop_call (take m rings)) =
     (let i = fst (wizcalc_stop_call rings) in if i \<le> m then i else 0)"
proof -
  have hit: "fst (first_call rings is) = 0 \<or> fst (first_call rings is) \<in> set is" for "is"
    using first_call_hit [of rings "is" "fst (first_call rings is)" "snd (first_call rings is)"] by auto
  show ?thesis
  proof (cases "m < length rings")
    case False
    have "fst (wizcalc_stop_call rings) \<le> length rings"
      unfolding stop_call_first using hit [of "[5..<length rings + 1]"]
      by (simp only: set_upt atLeastLessThan_iff) linarith
    with False show ?thesis by (simp add: Let_def)
  next
    case True
    have t: "first_call (take m rings) [5..<m + 1] = first_call rings [5..<m + 1]"
      by (rule first_call_take) auto
    have a: "wizcalc_stop_call (take m rings) = first_call rings [5..<m + 1]"
      using True t by (simp add: stop_call_first)
    have b: "wizcalc_stop_call rings = (if fst (first_call rings [5..<m + 1]) \<noteq> 0 then first_call rings [5..<m + 1]
        else first_call rings [max 5 (m + 1)..<length rings + 1])"
      using first_call_append [of "[5..<m + 1]" rings "[max 5 (m + 1)..<length rings + 1]"] upt_split [OF True]
      by (simp add: stop_call_first)
    show ?thesis
      using hit [of "[5..<m + 1]"] hit [of "[max 5 (m + 1)..<length rings + 1]"]
      unfolding a b by (auto simp: Let_def)
  qed
qed

end
