(* ===== verification/Wizrun.thy ===== *)
theory Wizrun
  imports Runner Wizcalc
begin

text \<open>
  A wizard's run (\<open>src/wizdark.c\<close>, its first and last parts): one run at a time on a worker thread
  that holds the machine lease, the prompts it puts up and their answers, the browser that owns it,
  an abort. Each operation is a stretch under the module's mutex; what the worker does after it, the
  release of the lease, is a step of its own, and so is a question's wake-up after its time. What a
  wizard does to the machine is not modelled here.
\<close>

definition wiz_prompt_opts :: nat where "wiz_prompt_opts = 16"
definition log_lines :: nat where "log_lines = 32"
definition log_len :: nat where "log_len = 112"

record wizard =
  w_id :: string
  w_running :: bool
  w_abort :: bool
  w_phase :: string
  w_progress :: int
  w_started :: int
  w_log :: "string list"
  prompt_seq :: nat
  prompt_id :: string
  prompt_kind :: string
  prompt_text :: string
  prompt_opts :: "string list"
  prompt_timeout :: int
  prompt_until :: real
  answer_seq :: nat
  answer :: string
  w_error :: string
  w_owner :: string
  seq_counter :: nat
  w_lease_owner :: string
  w_lease_held :: bool
  ending :: nat
  wlease :: lease

definition wizdark_init :: "lease \<Rightarrow> wizard" where
  "wizdark_init l = \<lparr>w_id = [], w_running = False, w_abort = False, w_phase = [], w_progress = 0, w_started = 0, w_log = [],
     prompt_seq = 0, prompt_id = [], prompt_kind = [], prompt_text = [], prompt_opts = [], prompt_timeout = 0,
     prompt_until = 0, answer_seq = 0, answer = [], w_error = [], w_owner = [], seq_counter = 0, w_lease_owner = [],
     w_lease_held = False, ending = 0, wlease = l\<rparr>"

section \<open>Start and end\<close>

text \<open>What the table says of the wizard asked for, and what is found: whether the machine is idle, the
  crumb tray's refusal of a setup card.\<close>

record wiz_ask =
  a_id :: "string option"
  a_known :: bool
  a_needs_idle :: bool
  a_card :: bool
  a_package :: bool
  a_owner :: "string option"
  a_idle :: bool
  a_tray :: "string option"
  a_spawned :: bool
  a_now :: real
  a_time :: int

definition wiz_lease_name :: "string \<Rightarrow> string" where
  "wiz_lease_name i = fit lease_owner_max (''wizard:'' @ i)"

definition wizdark_start :: "wiz_ask \<Rightarrow> wizard \<Rightarrow> string option \<times> wizard" where
  "wizdark_start a st =
     (if \<not> a_known a then (Some ''no such wizard'', st)
      else if w_running st then (Some (''a wizard is already running ('' @ w_id st @ '')''), st)
      else if a_needs_idle a \<and> \<not> a_idle a then (Some ''the machine is not idle'', st)
      else if a_card a \<and> a_tray a \<noteq> None then (a_tray a, st)
      else
        let st1 = st\<lparr>w_lease_held := \<not> a_package a, w_lease_owner := wiz_lease_name (the (a_id a))\<rparr>
        in case (if w_lease_held st1 then lease_take (Some (w_lease_owner st1)) Hardware None False (a_now a) (wlease st1)
                 else Inr (wlease st1)) of
             Inl why \<Rightarrow> (Some why, st1)
           | Inr l \<Rightarrow>
               let st2 = st1\<lparr>wlease := l, w_id := fit 72 (the (a_id a)), w_running := True, w_abort := False, w_progress := 0,
                             w_phase := [], w_error := [], w_log := [], prompt_seq := 0, answer_seq := 0,
                             w_started := a_time a, w_owner := (case a_owner a of None \<Rightarrow> [] | Some ow \<Rightarrow> fit 65 ow)\<rparr>
               in if a_spawned a then (None, st2)
                  else (Some ''cannot start the wizard thread'', st2\<lparr>w_running := False, ending := ending st2 + 1\<rparr>))"

text \<open>The worker's last stretch under the mutex, and what it does then.\<close>

definition worker_ends :: "wizard \<Rightarrow> wizard" where
  "worker_ends st =
     st\<lparr>w_error := (if w_abort st \<and> w_error st = [] then ''aborted'' else w_error st), w_running := False,
        prompt_seq := 0, w_phase := [], w_owner := [], ending := ending st + 1\<rparr>"

definition worker_releases :: "wizard \<Rightarrow> wizard" where
  "worker_releases st =
     st\<lparr>wlease := (if w_lease_held st then lease_release (Some (w_lease_owner st)) (wlease st) else wlease st),
        ending := ending st - 1\<rparr>"

section \<open>Progress, prompts, answers\<close>

definition two_digits :: "int \<Rightarrow> string" where
  "two_digits i = (if i < 0 then CHR ''-'' # digits_of (nat (- i)) else pad0 2 (digits_of (nat i)))"

text \<open>C's division and remainder, which round toward zero.\<close>

definition tdiv :: "int \<Rightarrow> int \<Rightarrow> int" where "tdiv a b = (if a < 0 then - (- a div b) else a div b)"
definition tmod :: "int \<Rightarrow> int \<Rightarrow> int" where "tmod a b = a - b * tdiv a b"

definition wlog :: "int \<Rightarrow> string \<Rightarrow> wizard \<Rightarrow> wizard" where
  "wlog now text st =
     (let el = now - w_started st; kept = (if length (w_log st) = log_lines then tl (w_log st) else w_log st)
      in st\<lparr>w_log := kept @ [fit log_len (two_digits (tmod (tdiv el 60) 100) @ '':'' @ two_digits (tmod el 60) @ '' '' @
             take 88 (fit 92 text))]\<rparr>)"

definition phase_says :: "string \<Rightarrow> wizard \<Rightarrow> wizard" where
  "phase_says text st = st\<lparr>w_phase := fit 96 text\<rparr>"

definition progress_says :: "int \<Rightarrow> wizard \<Rightarrow> wizard" where
  "progress_says pct st = st\<lparr>w_progress := (if pct < 0 then 0 else if 100 < pct then 100 else pct)\<rparr>"

definition finish_err :: "string \<Rightarrow> wizard \<Rightarrow> wizard" where
  "finish_err text st = st\<lparr>w_error := fit 192 text\<rparr>"

text \<open>A question put up, and the number it waits under.\<close>

definition ask_open :: "string \<Rightarrow> string \<Rightarrow> string \<Rightarrow> string list \<Rightarrow> int \<Rightarrow> real \<Rightarrow> wizard \<Rightarrow> wizard" where
  "ask_open kind pid text opts timeout now st =
     (let seq = seq_counter st + 1 in
      st\<lparr>seq_counter := seq, prompt_seq := seq, prompt_id := fit 24 pid, prompt_kind := fit 12 kind, prompt_text := fit 320 text,
         prompt_opts := map (fit 24) (take wiz_prompt_opts opts), prompt_timeout := timeout, answer_seq := 0, answer := [],
         prompt_until := now + of_int timeout\<rparr>)"

text \<open>How a question's wait comes out: aborted, out of time, or with an answer.\<close>

datatype asked = Asked_Aborted | Asked_Late | Asked_Answer string

definition ask_ready :: "nat \<Rightarrow> wizard \<Rightarrow> bool" where
  "ask_ready seq st \<longleftrightarrow> answer_seq st = seq \<or> w_abort st"

definition ask_close :: "nat \<Rightarrow> bool \<Rightarrow> wizard \<Rightarrow> asked \<times> wizard" where
  "ask_close alen late st =
     ((if w_abort st then Asked_Aborted else if late then Asked_Late else Asked_Answer (fit alen (answer st))),
      st\<lparr>prompt_seq := 0\<rparr>)"

text \<open>A prompt the machine itself answers.\<close>

definition wait_open :: "string \<Rightarrow> string \<Rightarrow> int \<Rightarrow> real \<Rightarrow> wizard \<Rightarrow> wizard" where
  "wait_open pid text timeout now st =
     (let seq = seq_counter st + 1 in
      st\<lparr>seq_counter := seq, prompt_seq := seq, prompt_id := fit 24 pid, prompt_kind := ''wait'', prompt_text := fit 320 text,
         prompt_opts := [], prompt_timeout := timeout, prompt_until := now + of_int timeout\<rparr>)"

definition wait_close :: "wizard \<Rightarrow> wizard" where
  "wait_close st = st\<lparr>prompt_seq := 0\<rparr>"

definition wizdark_answer :: "string option \<Rightarrow> nat \<Rightarrow> string option \<Rightarrow> string option \<Rightarrow> wizard \<Rightarrow> int \<times> wizard" where
  "wizdark_answer i seq val requester st =
     (if w_running st \<and> \<not> wizcalc_may_act (w_owner st) requester then (- 2, st)
      else if \<not> w_running st \<or> w_id st \<noteq> (case i of None \<Rightarrow> [] | Some s \<Rightarrow> s) \<or> prompt_seq st = 0 \<or> seq \<noteq> prompt_seq st
      then (- 1, st)
      else (0, st\<lparr>answer := fit 64 (case val of None \<Rightarrow> [] | Some s \<Rightarrow> s), answer_seq := seq\<rparr>))"

definition wizdark_abort :: "string option \<Rightarrow> wizard \<Rightarrow> int \<times> wizard" where
  "wizdark_abort requester st =
     (if w_running st \<and> \<not> wizcalc_may_act (w_owner st) requester then (- 2, st)
      else (0, if w_running st then st\<lparr>w_abort := True\<rparr> else st))"

definition wizdark_take_over :: "string option \<Rightarrow> wizard \<Rightarrow> wizard" where
  "wizdark_take_over requester st =
     (case requester of None \<Rightarrow> st
      | Some r \<Rightarrow> if w_running st \<and> r \<noteq> [] \<and> w_owner st \<noteq> r then st\<lparr>w_owner := fit 65 r\<rparr> else st)"

definition wizdark_wraps_diag :: "wizard \<Rightarrow> bool" where
  "wizdark_wraps_diag st \<longleftrightarrow> w_running st \<and> starts_with ''cooling.'' (w_id st)"

definition wizdark_lease_owner :: "wizard \<Rightarrow> string option" where
  "wizdark_lease_owner st =
     (if w_running st \<and> starts_with ''cooling.'' (w_id st) then Some (w_lease_owner st) else None)"

section \<open>Steps\<close>

datatype wiz_act =
    W_Start wiz_ask
  | W_Ends
  | W_Releases
  | W_Log int string
  | W_Phase string
  | W_Progress int
  | W_Error string
  | W_Asks string string string "string list" int real
  | W_Waits string string int real
  | W_Closes nat bool
  | W_Answer "string option" nat "string option" "string option"
  | W_Abort "string option"
  | W_Take_Over "string option"
  | W_Others lease_op

fun wiz_step :: "wiz_act \<Rightarrow> wizard \<Rightarrow> wizard" where
  "wiz_step (W_Start a) st = snd (wizdark_start a st)"
| "wiz_step W_Ends st = (if w_running st then worker_ends st else st)"
| "wiz_step W_Releases st = (if 0 < ending st then worker_releases st else st)"
| "wiz_step (W_Log now text) st = wlog now text st"
| "wiz_step (W_Phase text) st = phase_says text st"
| "wiz_step (W_Progress pct) st = progress_says pct st"
| "wiz_step (W_Error text) st = finish_err text st"
| "wiz_step (W_Asks kind pid text opts timeout now) st = ask_open kind pid text opts timeout now st"
| "wiz_step (W_Waits pid text timeout now) st = wait_open pid text timeout now st"
| "wiz_step (W_Closes alen late) st = snd (ask_close alen late st)"
| "wiz_step (W_Answer i seq val requester) st = snd (wizdark_answer i seq val requester st)"
| "wiz_step (W_Abort requester) st = snd (wizdark_abort requester st)"
| "wiz_step (W_Take_Over requester) st = wizdark_take_over requester st"
| "wiz_step (W_Others lop) st = st\<lparr>wlease := lease_step lop (wlease st)\<rparr>"

end
