(* ===== verification/WizrunProps.thy ===== *)
theory WizrunProps
  imports Wizrun
begin

text \<open>
  The machine is the running wizard's and free again after it, as long as no start falls between a
  worker's last stretch and its release of the lease; the start that does fall there leaves the
  machine held by nobody. A question's answer is the one given to that question.
\<close>

section \<open>The machine lease\<close>

definition holds_now :: "string \<Rightarrow> wizard \<Rightarrow> bool" where
  "holds_now ow st \<longleftrightarrow> w_lease_held st \<and> w_lease_owner st = ow \<and> holders_of (wlease st) = [ow] \<and>
     (w_running st \<and> ending st = 0 \<or> \<not> w_running st \<and> ending st = 1)"

text \<open>What may go on while a wizard holds the machine: no release of its own, no start once its worker
  has left the mutex, and of the lease's other users only what leaves its hold alone.\<close>

fun goes_on :: "string \<Rightarrow> wiz_act \<Rightarrow> wizard \<Rightarrow> bool" where
  "goes_on ow (W_Start a) st = w_running st"
| "goes_on ow W_Releases st = False"
| "goes_on ow (W_Others lop) st = leaves_run ow lop"
| "goes_on ow _ st = True"

fun all_go_on :: "string \<Rightarrow> wiz_act list \<Rightarrow> wizard \<Rightarrow> bool" where
  "all_go_on ow [] st = True"
| "all_go_on ow (a # as) st = (goes_on ow a st \<and> all_go_on ow as (wiz_step a st))"

lemma start_running: "w_running st \<Longrightarrow> snd (wizdark_start a st) = st"
  by (simp add: wizdark_start_def)

lemma holds_step: "holds_now ow st \<Longrightarrow> goes_on ow a st \<Longrightarrow> holds_now ow (wiz_step a st)"
proof (cases a)
  case (W_Others lop)
  assume "holds_now ow st" "goes_on ow a st"
  with W_Others others_keep_top [of "wlease st" "[]" ow lop] show ?thesis by (simp add: holds_now_def)
qed (auto simp: holds_now_def start_running worker_ends_def wlog_def phase_says_def progress_says_def finish_err_def
    ask_open_def wait_open_def ask_close_def wizdark_answer_def wizdark_abort_def wizdark_take_over_def Let_def
    split: option.splits)

lemma holds_run: "holds_now ow st \<Longrightarrow> all_go_on ow as st \<Longrightarrow> holds_now ow (fold wiz_step as st)"
  by (induction "as" arbitrary: st) (simp_all add: holds_step)

lemma start_holds:
  assumes "wizdark_start a st = (None, st1)" "\<not> a_package a" "ending st = 0"
  shows "holds_now (wiz_lease_name (the (a_id a))) st1" and "wlease st = []"
proof -
  let ?o = "wiz_lease_name (the (a_id a))"
  obtain l where t: "lease_take (Some ?o) Hardware None False (a_now a) (wlease st) = Inr l"
    and s: "wlease st1 = l" "w_lease_owner st1 = ?o" "w_lease_held st1" "w_running st1" "ending st1 = 0"
    using assms by (auto simp: wizdark_start_def Let_def split: if_splits sum.splits)
  from t have "holders_of l = [?o]" "wlease st = []" by (simp_all add: lease_take_Inr holders_of_def)
  with s show "holds_now ?o st1" "wlease st = []" by (simp_all add: holds_now_def)
qed


lemma lease_busy: "holders_of l = [ow] \<Longrightarrow> \<exists>w. lease_take (Some n) k None c t l = Inl w"
  by (auto simp: lease_take_def holders_of_def)

text \<open>
  A wizard asked for after the worker has left the mutex and before it gives the machine back: it is
  refused, as the machine is still held, but it has written its own name where the worker finds the
  one to release; nothing is released, no worker is left, and the machine stays held by a wizard that
  has ended.
\<close>

theorem wizard_lease_leaks:
  assumes h: "holds_now ow st" "w_running st"
    and a: "a_known a" "\<not> a_package a" "a_needs_idle a \<longrightarrow> a_idle a" "a_card a \<longrightarrow> a_tray a = None"
    and o: "wiz_lease_name (the (a_id a)) \<noteq> ow"
    and st': "st' = fold wiz_step [W_Ends, W_Start a, W_Releases] st"
  shows "\<not> w_running st' \<and> ending st' = 0 \<and> holders_of (wlease st') = [ow] \<and>
    (\<forall>b. a_known b \<and> \<not> a_package b \<longrightarrow> fst (wizdark_start b st') \<noteq> None)"
proof -
  let ?n = "wiz_lease_name (the (a_id a))"
  have take_no: "\<exists>w. lease_take (Some n) Hardware None False t (wlease st) = Inl w" for n t
    using h(1) lease_busy by (simp add: holds_now_def)
  have "\<exists>s. wiz_step (W_Start a) (worker_ends st) = s \<and> w_lease_owner s = ?n \<and> w_lease_held s \<and> \<not> w_running s \<and>
      wlease s = wlease st \<and> ending s = 1"
    using a h take_no [of ?n "a_now a"]
    by (auto simp: wizdark_start_def worker_ends_def holds_now_def Let_def split: sum.splits)
  then obtain s where s: "wiz_step (W_Start a) (worker_ends st) = s" "w_lease_owner s = ?n" "w_lease_held s" "\<not> w_running s"
    "wlease s = wlease st" "ending s = 1"
    by blast
  have "holders_of (lease_release (Some ?n) (wlease st)) = holders_of (wlease st)"
    using h(1) o ml.release_other [of "wlease st" ?n] by (simp add: holds_now_def)
  moreover have "st' = worker_releases s" using st' h s by simp
  ultimately have f: "\<not> w_running st'" "ending st' = 0" "holders_of (wlease st') = [ow]"
    using s h(1) by (simp_all add: worker_releases_def holds_now_def)
  have "fst (wizdark_start b st') \<noteq> None" if b: "a_known b" "\<not> a_package b" for b
  proof -
    obtain w where "lease_take (Some (wiz_lease_name (the (a_id b)))) Hardware None False (a_now b) (wlease st') = Inl w"
      using lease_busy [OF f(3)] by blast
    then show ?thesis using b f by (auto simp: wizdark_start_def Let_def)
  qed
  with f show ?thesis by blast
qed

section \<open>A question and its answer\<close>

text \<open>Acts between a question's opening and its end: none that opens another or starts a run.\<close>

definition between :: "wiz_act \<Rightarrow> bool" where
  "between a \<longleftrightarrow>
     (case a of W_Asks _ _ _ _ _ _ \<Rightarrow> False | W_Waits _ _ _ _ \<Rightarrow> False | W_Closes _ _ \<Rightarrow> False | W_Start _ \<Rightarrow> False
      | W_Ends \<Rightarrow> False | _ \<Rightarrow> True)"

text \<open>The answers a run of acts takes for a question, in order.\<close>

fun answers_taken :: "wiz_act list \<Rightarrow> wizard \<Rightarrow> string list" where
  "answers_taken [] st = []"
| "answers_taken (a # as) st =
     (case a of
        W_Answer i seq val requester \<Rightarrow>
          if fst (wizdark_answer i seq val requester st) = 0
          then fit 64 (case val of None \<Rightarrow> [] | Some s \<Rightarrow> s) # answers_taken as (wiz_step a st)
          else answers_taken as (wiz_step a st)
      | _ \<Rightarrow> answers_taken as (wiz_step a st))"

lemma between_seq: "between a \<Longrightarrow> prompt_seq (wiz_step a st) = prompt_seq st"
  by (cases a) (auto simp: between_def worker_releases_def wlog_def phase_says_def progress_says_def finish_err_def
      wizdark_answer_def wizdark_abort_def wizdark_take_over_def Let_def split: option.splits)

lemma between_answer:
  "between a \<Longrightarrow> (answer_seq (wiz_step a st), answer (wiz_step a st)) =
     (case answers_taken [a] st of [] \<Rightarrow> (answer_seq st, answer st) | t # _ \<Rightarrow> (prompt_seq st, t))"
  by (cases a) (auto simp: between_def worker_releases_def wlog_def phase_says_def progress_says_def finish_err_def
      wizdark_answer_def wizdark_abort_def wizdark_take_over_def Let_def split: option.splits)

lemma answers_taken_Cons: "answers_taken (a # as) st = answers_taken [a] st @ answers_taken as (wiz_step a st)"
  by (cases a) auto

lemma answers_run:
  "list_all between as \<Longrightarrow>
   prompt_seq (fold wiz_step as st) = prompt_seq st \<and>
   (answers_taken as st = [] \<longrightarrow> answer_seq (fold wiz_step as st) = answer_seq st \<and>
      answer (fold wiz_step as st) = answer st) \<and>
   (answers_taken as st \<noteq> [] \<longrightarrow> answer_seq (fold wiz_step as st) = prompt_seq st \<and>
      answer (fold wiz_step as st) = last (answers_taken as st))"
proof (induction "as" arbitrary: st)
  case (Cons a "as")
  have b: "between a" using Cons.prems by simp
  have "length (answers_taken [a] st) \<le> 1" by (cases a) auto
  then have t: "answers_taken [a] st = [] \<or> (\<exists>x. answers_taken [a] st = [x])"
    by (cases "answers_taken [a] st") auto
  show ?case
    using Cons.IH [of "wiz_step a st"] Cons.prems between_seq [OF b, of st] between_answer [OF b, of st] t
    unfolding answers_taken_Cons [of a "as" st] by (auto simp del: answers_taken.simps)
qed simp

text \<open>
  A question that comes back with an answer comes back with the last one that was taken for it: one
  given under the wizard's name and the question's own number while it was open, by its owner or a
  client that may act for him. An earlier question's answer is never taken for it.
\<close>

theorem answer_is_the_questions:
  assumes "list_all between as" and "st1 = ask_open kind pid text opts timeout now st" "st2 = fold wiz_step as st1"
    and "ask_ready (prompt_seq st1) st2" "ask_close alen False st2 = (Asked_Answer t, st3)"
  shows "answers_taken as st1 \<noteq> [] \<and> t = fit alen (last (answers_taken as st1)) \<and> prompt_seq st3 = 0"
proof -
  have s1: "answer_seq st1 = 0" "prompt_seq st1 \<noteq> 0" by (simp_all add: assms(2) ask_open_def Let_def)
  have na: "\<not> w_abort st2" "t = fit alen (answer st2)" "prompt_seq st3 = 0"
    using assms(5) by (auto simp: ask_close_def split: if_splits)
  then have "answer_seq st2 = prompt_seq st1" using assms(4) by (simp add: ask_ready_def)
  with s1 answers_run [OF assms(1), of st1] assms(3) na show ?thesis by auto
qed

text \<open>
  An answer that arrives as the question's time runs out is taken, with a success for its sender,
  and thrown away: the wake-up does not look at it again, and the step ends for want of an answer.
\<close>

theorem late_answer_lost:
  assumes "w_running st" "\<not> w_abort st" "wizcalc_may_act (w_owner st) r" "prompt_seq st \<noteq> 0"
  shows "\<exists>st1 st2. wizdark_answer (Some (w_id st)) (prompt_seq st) (Some v) r st = (0, st1) \<and>
    ask_ready (prompt_seq st) st1 \<and> ask_close alen True st1 = (Asked_Late, st2)"
  using assms by (simp add: wizdark_answer_def ask_ready_def ask_close_def)

section \<open>A run of the airflow wizard\<close>

definition ask_of :: "string \<Rightarrow> wiz_ask" where
  "ask_of i = \<lparr>a_id = Some i, a_known = True, a_needs_idle = True, a_card = False, a_package = False, a_owner = Some ''anna'',
     a_idle = True, a_tray = None, a_spawned = True, a_now = 0, a_time = 0\<rparr>"

definition wiz_started :: wizard where
  "wiz_started = snd (wizdark_start (ask_of ''airflow'') (wizdark_init []))"

lemma usable_names: "owner_usable (Some ''wizard:airflow'')" "owner_usable (Some ''wizard:motion'')"
  by code_simp+

lemma lease_names:
  "wiz_lease_name ''airflow'' = ''wizard:airflow''" "wiz_lease_name ''motion'' = ''wizard:motion''"
  by code_simp+

lemma start_ends: "wizdark_start a st = (None, st1) \<Longrightarrow> ending st1 = ending st"
  by (auto simp: wizdark_start_def Let_def split: if_splits sum.splits)

lemma airflow_starts: "wizdark_start (ask_of ''airflow'') (wizdark_init []) = (None, wiz_started)"
proof -
  have "lease_take (Some ''wizard:airflow'') Hardware None False 0 [] = Inr [\<lparr>s_owner = ''wizard:airflow'', s_kind = Hardware, s_since = 0\<rparr>]"
    by (simp add: lease_take_Inr usable_names)
  then show ?thesis
    unfolding wiz_started_def by (simp add: wizdark_start_def ask_of_def wizdark_init_def lease_names Let_def)
qed


theorem wizard_lease_leaks_witness:
  "holders_of (wlease (fold wiz_step [W_Ends, W_Start (ask_of ''motion''), W_Releases] wiz_started)) = [''wizard:airflow'']"
proof -
  have p: "\<not> a_package (ask_of ''airflow'')" "ending (wizdark_init []) = 0" "wiz_lease_name (the (a_id (ask_of ''airflow''))) = ''wizard:airflow''"
    by (simp_all add: ask_of_def wizdark_init_def lease_names)
  have h: "holds_now ''wizard:airflow'' wiz_started" using start_holds(1) [OF airflow_starts p(1,2)] unfolding p(3) .
  have r: "w_running wiz_started"
    using h p(2) start_ends [OF airflow_starts] by (simp add: holds_now_def)
  have "a_known (ask_of ''motion'')" "\<not> a_package (ask_of ''motion'')" "a_needs_idle (ask_of ''motion'') \<longrightarrow> a_idle (ask_of ''motion'')"
    "a_card (ask_of ''motion'') \<longrightarrow> a_tray (ask_of ''motion'') = None" "wiz_lease_name (the (a_id (ask_of ''motion''))) \<noteq> ''wizard:airflow''"
    by (simp_all add: ask_of_def lease_names)
  from wizard_lease_leaks [OF h r this refl] show ?thesis by blast
qed

end
