(* ===== verification/Curverec.thy ===== *)
theory Curverec
  imports SettingsProps Cfmt
begin

text \<open>
  The dose-curve recorder (\<open>src/curverec.c\<close>): the override of the laser's settings for the time of one
  job, with the originals in a marker file a later start restores; the fit of a recorded ladder;
  the ladder itself; the recorder's states. The settings file is that of \<open>Settings\<close>; the override
  is a sequence of steps, each one file written, so that a daemon may die between any two of them.
  The densities are whole percents, so \<open>%g\<close> prints them as such.
\<close>

definition sample_hz :: real where "sample_hz = 25"
definition max_samples :: nat where "max_samples = 30000"
definition hv_on :: int where "hv_on = 30"
definition gap_merge_s :: real where "gap_merge_s = 1"
definition min_seg_s :: real where "min_seg_s = 2"
definition tp_rise_min :: real where "tp_rise_min = 100"
definition ladder_d :: "int list" where "ladder_d = [10, 20, 30, 45, 60, 80, 100]"

section \<open>The override of the laser's keys\<close>

definition floor_key :: string where "floor_key = ''laser_floor_density''"
definition curve_key :: string where "curve_key = ''laser_dose_curve''"
definition gamma_key :: string where "gamma_key = ''laser_corner_gamma''"
definition untouched :: string where "untouched = ''-''"
definition short_len :: nat where "short_len = 32"
definition curve_len :: nat where "curve_len = 192"

record override =
  ov_active :: bool
  sv_floor :: string
  sv_curve :: string
  sv_gamma :: string
  ov_conf :: "string option"
  ov_marker :: "string option"

definition saved_of :: "nat \<Rightarrow> string \<Rightarrow> string option \<Rightarrow> string option \<Rightarrow> string" where
  "saved_of len key v conf =
     (case v of None \<Rightarrow> untouched
      | Some _ \<Rightarrow> (case settings_get len key conf of None \<Rightarrow> [] | Some s \<Rightarrow> s))"

definition put_key :: "bool \<Rightarrow> string \<Rightarrow> string option \<Rightarrow> override \<Rightarrow> override" where
  "put_key io key v ov =
     (case v of None \<Rightarrow> ov | Some s \<Rightarrow> ov\<lparr>ov_conf := snd (settings_set key s io (ov_conf ov))\<rparr>)"

text \<open>A key put back, unless it was left alone.\<close>

definition back_key :: "bool \<Rightarrow> string \<Rightarrow> string \<Rightarrow> override \<Rightarrow> override" where
  "back_key io key s ov = (if s \<noteq> untouched then put_key io key (Some s) ov else ov)"

definition saves :: "string option \<Rightarrow> string option \<Rightarrow> string option \<Rightarrow> override \<Rightarrow> override" where
  "saves fl cv ga ov =
     ov\<lparr>sv_floor := saved_of short_len floor_key fl (ov_conf ov), sv_curve := saved_of curve_len curve_key cv (ov_conf ov),
        sv_gamma := saved_of short_len gamma_key ga (ov_conf ov)\<rparr>"

definition marker_text :: "override \<Rightarrow> string" where
  "marker_text ov = sv_floor ov @ [newline] @ sv_curve ov @ [newline] @ sv_gamma ov @ [newline]"

text \<open>\<open>curverec_override_begin\<close> past its refusals, a file at a time: the marker (of which \<open>kept\<close>
  characters reach the disk, its writes being unchecked), then each key.\<close>

definition begin_steps :: "bool list \<Rightarrow> nat \<Rightarrow> string option \<Rightarrow> string option \<Rightarrow> string option \<Rightarrow> (override \<Rightarrow> override) list" where
  "begin_steps ios kept fl cv ga =
     [(\<lambda>ov. ov\<lparr>ov_marker := Some (take kept (marker_text ov))\<rparr>), put_key (ios ! 0) floor_key fl, put_key (ios ! 1) curve_key cv,
      put_key (ios ! 2) gamma_key ga, (\<lambda>ov. ov\<lparr>ov_active := True\<rparr>)]"

definition run_steps :: "(override \<Rightarrow> override) list \<Rightarrow> override \<Rightarrow> override" where
  "run_steps ss ov = fold (\<lambda>f s. f s) ss ov"

definition curverec_override_begin ::
  "bool \<Rightarrow> bool list \<Rightarrow> nat \<Rightarrow> string option \<Rightarrow> string option \<Rightarrow> string option \<Rightarrow> override \<Rightarrow> bool \<times> override" where
  "curverec_override_begin opens ios kept fl cv ga ov =
     (if ov_active ov then (False, ov)
      else if \<not> opens then (False, saves fl cv ga ov)
      else (True, run_steps (begin_steps ios kept fl cv ga) (saves fl cv ga ov)))"

definition restore_steps :: "bool list \<Rightarrow> (override \<Rightarrow> override) list" where
  "restore_steps ios =
     [(\<lambda>ov. back_key (ios ! 0) floor_key (sv_floor ov) ov), (\<lambda>ov. back_key (ios ! 1) curve_key (sv_curve ov) ov),
      (\<lambda>ov. back_key (ios ! 2) gamma_key (sv_gamma ov) ov), (\<lambda>ov. ov\<lparr>ov_marker := None\<rparr>), (\<lambda>ov. ov\<lparr>ov_active := False\<rparr>)]"

definition saved_restore_locked :: "bool list \<Rightarrow> override \<Rightarrow> override" where
  "saved_restore_locked ios ov = run_steps (restore_steps ios) ov"

definition curverec_override_end :: "bool list \<Rightarrow> override \<Rightarrow> override" where
  "curverec_override_end ios ov = (if ov_active ov then saved_restore_locked ios ov else ov)"

definition curverec_saved :: "override \<Rightarrow> string \<times> string" where
  "curverec_saved ov =
     (if sv_floor ov \<noteq> untouched then sv_floor ov else [], if sv_curve ov \<noteq> untouched then sv_curve ov else [])"

text \<open>The marker's next line, or the mark of a key left alone; and what is left of the file.\<close>

definition saved_line :: "nat \<Rightarrow> string \<Rightarrow> string \<times> string" where
  "saved_line len text =
     (if text = [] then (untouched, [])
      else let (l, rest) = fgets (len - 1) text
           in (takeWhile (\<lambda>c. c \<noteq> cret \<and> c \<noteq> newline) (cstr l), rest))"

definition curverec_init :: "bool list \<Rightarrow> override \<Rightarrow> override" where
  "curverec_init ios ov =
     (case ov_marker ov of None \<Rightarrow> ov
      | Some text \<Rightarrow>
          let (f, r1) = saved_line short_len text; (c, r2) = saved_line curve_len r1; (g, r3) = saved_line short_len r2
          in saved_restore_locked ios (ov\<lparr>sv_floor := f, sv_curve := c, sv_gamma := g, ov_active := True\<rparr>))"

text \<open>What is left of the daemon's own memory when it dies.\<close>

definition dies :: "override \<Rightarrow> override" where
  "dies ov = ov\<lparr>ov_active := False, sv_floor := [], sv_curve := [], sv_gamma := []\<rparr>"

section \<open>The fit\<close>

definition win_mean :: "int list \<Rightarrow> int \<Rightarrow> int \<Rightarrow> real option" where
  "win_mean v a b =
     (if b \<le> a then None
      else Some (of_int (sum_list (map (\<lambda>i. v ! nat i) [a..b - 1])) / of_int (b - a)))"

text \<open>One sample of the segmentation: where the open segment began, the last sample that was on, and
  the segments found.\<close>

record seg_state =
  seg_start :: "int option"
  seg_last :: int
  seg_found :: "(int \<times> int) list"

definition seg_step :: "int list \<Rightarrow> int \<Rightarrow> int \<Rightarrow> int \<Rightarrow> seg_state \<Rightarrow> seg_state" where
  "seg_step hvc gap_merge min_seg i s =
     (let n = int (length hvc); on = (i < n \<and> hv_on < hvc ! nat i) in
      if on then s\<lparr>seg_start := Some (case seg_start s of None \<Rightarrow> i | Some a \<Rightarrow> a), seg_last := i\<rparr>
      else case seg_start s of
          None \<Rightarrow> s
        | Some a \<Rightarrow>
            if i = n \<or> gap_merge < i - seg_last s
            then s\<lparr>seg_start := None,
                   seg_found := (if min_seg \<le> seg_last s - a then seg_found s @ [(a, seg_last s + 1)] else seg_found s)\<rparr>
            else s)"

definition segments :: "int list \<Rightarrow> real \<Rightarrow> (int \<times> int) list" where
  "segments hvc hz =
     seg_found (fold (seg_step hvc \<lfloor>gap_merge_s * hz\<rfloor> \<lfloor>min_seg_s * hz\<rfloor>) [0..int (length hvc)]
       \<lparr>seg_start = None, seg_last = - 1, seg_found = []\<rparr>)"

text \<open>A rung's beam sensor rise over its baseline.\<close>

definition rung_delta :: "int list \<Rightarrow> real \<Rightarrow> int \<times> int \<Rightarrow> real option" where
  "rung_delta tp hz seg =
     (let (a, b) = seg in
      case (win_mean tp (max 0 (a - \<lfloor>1.5 * hz\<rfloor>)) (a - \<lfloor>0.5 * hz\<rfloor>), win_mean tp (a + \<lfloor>0.5 * hz\<rfloor>) (b - \<lfloor>0.3 * hz\<rfloor>)) of
        (Some base, Some lit) \<Rightarrow> Some (lit - base)
      | _ \<Rightarrow> None)"

fun deltas_from :: "nat \<Rightarrow> int list \<Rightarrow> real \<Rightarrow> (int \<times> int) list \<Rightarrow> nat + real list" where
  "deltas_from s tp hz [] = Inr []"
| "deltas_from s tp hz (g # gs) =
     (case rung_delta tp hz g of None \<Rightarrow> Inl s
      | Some d \<Rightarrow> (case deltas_from (s + 1) tp hz gs of Inl e \<Rightarrow> Inl e | Inr ds \<Rightarrow> Inr (d # ds)))"

text \<open>The first rung that does not rise over the one before it.\<close>

definition flat_rung :: "real list \<Rightarrow> nat option" where
  "flat_rung ds = find (\<lambda>s. ds ! s \<le> ds ! (s - 1)) [1..<length ds]"

definition light_of :: "real list \<Rightarrow> real \<Rightarrow> real" where
  "light_of ds d = (let l = d / last ds * 100 in if l < 1/100 then 1/100 else l)"

definition curverec_fit :: "int list \<Rightarrow> int list \<Rightarrow> real \<Rightarrow> nat \<Rightarrow> nat \<Rightarrow> string + (int \<times> real) list" where
  "curverec_fit hvc tp hz max_pts elen =
     (let segs = segments hvc hz in
      if length segs \<noteq> length ladder_d
      then Inl (fit elen (show_nat (length segs) @ '' discharge segments, the ladder has '' @ show_nat (length ladder_d) @ '' rungs''))
      else case deltas_from 0 tp hz segs of
          Inl s \<Rightarrow> Inl (fit elen (''rung '' @ show_nat (s + 1) @ '' too short to read''))
        | Inr ds \<Rightarrow>
            if last ds < tp_rise_min
            then Inl (fit elen ''the beam sensor gave no output; the curve in force stays and the machine runs on it'')
            else (case flat_rung ds of
                Some s \<Rightarrow> Inl (fit elen (''rung '' @ show_nat (s + 1) @ '' does not rise over rung '' @ show_nat s @
                             '': not a clean ladder''))
              | None \<Rightarrow> Inr (take max_pts (zip ladder_d (map (light_of ds) ds)))))"

definition point_text :: "int \<times> real \<Rightarrow> string" where
  "point_text p = show_int (fst p) @ '':'' @ fmt_f 2 (snd p)"

fun points_text :: "(int \<times> real) list \<Rightarrow> string" where
  "points_text [] = []"
| "points_text [p] = point_text p"
| "points_text (p # ps) = point_text p @ '','' @ points_text ps"

text \<open>The text, or nothing where it does not fit.\<close>

definition curverec_curve_text :: "(int \<times> real) list \<Rightarrow> nat \<Rightarrow> string option" where
  "curverec_curve_text pts len = (if length (points_text pts) < len then Some (points_text pts) else None)"

section \<open>The ladder\<close>

definition ladder_rung :: "nat \<Rightarrow> string list" where
  "ladder_rung i = [''G0 X0 Y'' @ show_nat i, ''G4 P2'', ''S'' @ show_int (ladder_d ! i * 10), ''G1 X100 F600'']"

definition ladder_lines :: "string list" where
  "ladder_lines = [''G21'', ''G90'', ''G0 X0 Y0'', ''M3''] @ concat (map ladder_rung [0..<length ladder_d]) @ [''M5'', ''M2'']"

definition ladder_program :: string where
  "ladder_program = concat (map (\<lambda>l. l @ [newline]) ladder_lines)"

definition ladder_head :: string where
  "ladder_head =
     ''; ForgeFIRM dose-curve ladder - the job the panel'' @ [CHR 0x27] @ ''s recorder streams.'' @ [newline] @
     ''; Absolute from X0 Y0: 100 mm of +X travel, '' @ show_nat (length ladder_d) @ '' mm of +Y, scrap under'' @ [newline] @
     ''; the whole area. One line per rung, low to full power.'' @ [newline]"

definition curverec_ladder_gcode :: "nat \<Rightarrow> string option" where
  "curverec_ladder_gcode len =
     (let t = ladder_head @ ladder_program in if length t < len then Some t else None)"

section \<open>The recorder\<close>

datatype cr_state = CR_Idle | CR_Waiting | CR_Recording | CR_Done | CR_Failed

record recorder =
  cr_state :: cr_state
  cr_reason :: string
  cr_hv :: "int list"
  cr_tp :: "int list"
  cr_points :: "(int \<times> real) list"
  cr_curve :: string
  cr_stop :: bool
  cr_ov :: override
  cr_leased :: bool

definition finish_locked :: "bool list \<Rightarrow> cr_state \<Rightarrow> string \<Rightarrow> recorder \<Rightarrow> recorder" where
  "finish_locked ios s why r =
     r\<lparr>cr_state := s, cr_reason := fit 128 why, cr_ov := curverec_override_end ios (cr_ov r), cr_leased := False\<rparr>"

definition fit_locked :: "bool list \<Rightarrow> recorder \<Rightarrow> recorder" where
  "fit_locked ios r =
     (case curverec_fit (cr_hv r) (cr_tp r) sample_hz (length ladder_d) 96 of
        Inl e \<Rightarrow> finish_locked ios CR_Failed e r
      | Inr pts \<Rightarrow> finish_locked ios CR_Done [] (r\<lparr>cr_points := pts, cr_curve := fit 256 (points_text pts)\<rparr>))"

definition rec_sample :: "int \<Rightarrow> int \<Rightarrow> recorder \<Rightarrow> recorder" where
  "rec_sample hvc tp r =
     (let r1 = (if length (cr_hv r) < max_samples then r\<lparr>cr_hv := cr_hv r @ [hvc], cr_tp := cr_tp r @ [tp]\<rparr> else r)
      in if hv_on < hvc \<and> cr_state r1 = CR_Waiting then r1\<lparr>cr_state := CR_Recording\<rparr> else r1)"

definition record_done :: "bool list \<Rightarrow> bool \<Rightarrow> bool \<Rightarrow> string \<Rightarrow> recorder \<Rightarrow> recorder" where
  "record_done ios ok run_lit err r =
     (if ok \<or> cr_stop r \<and> run_lit
      then if max_samples \<le> length (cr_hv r) then finish_locked ios CR_Failed ''the record ran out of room'' r
           else fit_locked ios r
      else if cr_stop r then finish_locked ios CR_Failed ''stopped before the ladder fired'' r
      else finish_locked ios CR_Failed err r)"

definition record_ready :: "bool \<Rightarrow> bool list \<Rightarrow> nat \<Rightarrow> recorder \<Rightarrow> string option \<times> recorder" where
  "record_ready opens ios kept r =
     (let (ok, ov) = curverec_override_begin opens ios kept (Some ''0'') (Some ''off'') None (cr_ov r) in
      if \<not> ok then (Some ''the laser keys are held by another job'', r\<lparr>cr_ov := ov\<rparr>)
      else (None, r\<lparr>cr_ov := ov, cr_state := CR_Waiting, cr_reason := [], cr_hv := [], cr_tp := [], cr_points := [],
                    cr_curve := [], cr_stop := False\<rparr>))"

text \<open>How the runner answers a start: a refusal before the recorder is asked, or, once it is ready, a
  thread that cannot be made, or a run.\<close>

datatype start_answer = Refused_Start string | No_Thread string | Runs_Now

definition curverec_start :: "start_answer \<Rightarrow> bool \<Rightarrow> bool list \<Rightarrow> nat \<Rightarrow> recorder \<Rightarrow> string option \<times> recorder" where
  "curverec_start a opens ios kept r =
     (if cr_state r = CR_Waiting \<or> cr_state r = CR_Recording then (Some ''a recording is already running'', r)
      else case a of
          Refused_Start w \<Rightarrow> (Some w, r)
        | No_Thread w \<Rightarrow>
            (case record_ready opens ios kept r of
               (Some e, r1) \<Rightarrow> (Some e, r1)
             | (None, r1) \<Rightarrow> (Some w, finish_locked ios CR_Failed w r1))
        | Runs_Now \<Rightarrow>
            (case record_ready opens ios kept r of
               (Some e, r1) \<Rightarrow> (Some e, r1)
             | (None, r1) \<Rightarrow> (None, r1\<lparr>cr_leased := True\<rparr>)))"

definition curverec_stop :: "recorder \<Rightarrow> bool \<times> recorder" where
  "curverec_stop r =
     (let on = (cr_state r = CR_Waiting \<or> cr_state r = CR_Recording)
      in (on, if on then r\<lparr>cr_stop := True\<rparr> else r))"

end
