(* ===== verification/CurverecProps.thy ===== *)
theory CurverecProps
  imports Curverec
begin

text \<open>
  The override of the laser's keys as an update of the map a reader of the settings file sees, undone
  by the restore and, wherever the daemon dies, by its next start. What a fit that succeeds is, and
  what the recorder's states say of the override.
\<close>

section \<open>The settings file as a map\<close>

text \<open>A file of at most \<open>n\<close> whole lines whose readers see the map.\<close>

definition sees :: "nat \<Rightarrow> string option \<Rightarrow> (string \<Rightarrow> string option) \<Rightarrow> bool" where
  "sees n conf m \<longleftrightarrow> (\<exists>ls. conf_lines conf ls \<and> length ls \<le> n) \<and> (\<forall>len k. settings_get len k conf = map_option (fit len) (m k))"

definition value_of :: "string \<Rightarrow> string option" where
  "value_of s = (if s = [] then None else Some s)"

lemma sees_more: "sees n conf m \<Longrightarrow> n \<le> n' \<Longrightarrow> sees n' conf m"
  by (force simp: sees_def)

lemma sees_set:
  assumes "sees n conf m" "n < file_max_lines" "writable (key, s)"
  shows "sees (n + 1) (snd (settings_set key s True conf)) (m(key := value_of s))"
proof -
  obtain ls where l: "conf_lines conf ls" "length ls \<le> n" using assms(1) by (auto simp: sees_def)
  have b: "length ls \<le> file_max_lines" using l assms(2) by simp
  have d: "distinct (List.map fst [(key, s)])" "list_all writable [(key, s)]" using assms(3) by simp_all
  have e: "settings_set_many [(key, s)] True conf = (True, snd (settings_set_many [(key, s)] True conf))"
    using update_done [OF l(1) b d] by (simp add: prod_eq_iff)
  obtain ls' where u: "conf_lines (snd (settings_set_many [(key, s)] True conf)) ls'" "length ls' \<le> length ls + 1"
    "\<And>len k. settings_get len k (snd (settings_set_many [(key, s)] True conf)) =
       (case map_of [(key, s)] k of None \<Rightarrow> settings_get len k conf | Some v \<Rightarrow> if v = [] then None else Some (fit len v))"
    using update_conf [OF l(1) b d e] by auto
  then show ?thesis using assms(1) l(2)
    by (force simp: sees_def settings_set_def value_of_def)
qed

section \<open>The three keys\<close>

lemma keys_apart [simp]: "floor_key \<noteq> curve_key" "floor_key \<noteq> gamma_key" "curve_key \<noteq> gamma_key"
  "curve_key \<noteq> floor_key" "gamma_key \<noteq> floor_key" "gamma_key \<noteq> curve_key"
  by (simp_all add: floor_key_def curve_key_def gamma_key_def)

text \<open>An original that survives the marker and the write back.\<close>

definition keepable :: "nat \<Rightarrow> string \<Rightarrow> string option \<Rightarrow> bool" where
  "keepable len key v \<longleftrightarrow>
     (case v of None \<Rightarrow> True
      | Some s \<Rightarrow> s \<noteq> [] \<and> s \<noteq> untouched \<and> length s < len - 1 \<and> cret \<notin> set s \<and> writable (key, s))"

definition originals_keep :: "(string \<Rightarrow> string option) \<Rightarrow> bool" where
  "originals_keep m \<longleftrightarrow> keepable short_len floor_key (m floor_key) \<and> keepable curve_len curve_key (m curve_key) \<and>
     keepable short_len gamma_key (m gamma_key)"

definition value_ok :: "string \<Rightarrow> string option \<Rightarrow> bool" where
  "value_ok key v \<longleftrightarrow> (case v of None \<Rightarrow> True | Some s \<Rightarrow> writable (key, s))"

text \<open>What is saved of a key: the mark where it is left alone, else its value.\<close>

definition saved_as :: "string option \<Rightarrow> string option \<Rightarrow> string" where
  "saved_as v orig = (case v of None \<Rightarrow> untouched | Some _ \<Rightarrow> (case orig of None \<Rightarrow> [] | Some s \<Rightarrow> s))"

lemma saved_of_sees:
  assumes "sees n conf m" "keepable len key (m key)"
  shows "saved_of len key v conf = saved_as v (m key)"
proof -
  have "fit len s = s" if "m key = Some s" for s
    using assms(2) that by (intro fit_id) (auto simp: keepable_def)
  then show ?thesis using assms(1) by (auto simp: saved_of_def saved_as_def sees_def split: option.splits)
qed

definition touched :: "string option \<Rightarrow> string option \<Rightarrow> string option \<Rightarrow> string set" where
  "touched fl cv ga = (if fl = None then {} else {floor_key}) \<union> (if cv = None then {} else {curve_key}) \<union>
     (if ga = None then {} else {gamma_key})"

text \<open>The map as it was but for the keys in \<open>T\<close>.\<close>

definition but_for :: "string set \<Rightarrow> (string \<Rightarrow> string option) \<Rightarrow> (string \<Rightarrow> string option) \<Rightarrow> bool" where
  "but_for T m m' \<longleftrightarrow> (\<forall>k. k \<notin> T \<longrightarrow> m' k = m k)"

definition holds_saved :: "string option \<Rightarrow> string option \<Rightarrow> string option \<Rightarrow> (string \<Rightarrow> string option) \<Rightarrow> override \<Rightarrow> bool" where
  "holds_saved fl cv ga m ov \<longleftrightarrow> sv_floor ov = saved_as fl (m floor_key) \<and> sv_curve ov = saved_as cv (m curve_key) \<and>
     sv_gamma ov = saved_as ga (m gamma_key)"

lemma put_key_sees:
  assumes "sees n (ov_conf ov) m" "n < file_max_lines" "value_ok key v"
  shows "sees (n + 1) (ov_conf (put_key True key v ov)) (case v of None \<Rightarrow> m | Some s \<Rightarrow> m(key := value_of s))"
  using assms sees_set [OF assms(1,2), of key "the v"] sees_more [OF assms(1), of "n + 1"]
  by (auto simp: put_key_def value_ok_def split: option.splits)

lemma put_key_keeps [simp]:
  "sv_floor (put_key io key v ov) = sv_floor ov" "sv_curve (put_key io key v ov) = sv_curve ov"
  "sv_gamma (put_key io key v ov) = sv_gamma ov" "ov_marker (put_key io key v ov) = ov_marker ov"
  "ov_active (put_key io key v ov) = ov_active ov"
  by (simp_all add: put_key_def split: option.splits)

lemma back_key_keeps [simp]:
  "sv_floor (back_key io key s ov) = sv_floor ov" "sv_curve (back_key io key s ov) = sv_curve ov"
  "sv_gamma (back_key io key s ov) = sv_gamma ov" "ov_marker (back_key io key s ov) = ov_marker ov"
  "ov_active (back_key io key s ov) = ov_active ov"
  by (simp_all add: back_key_def)

text \<open>A key put back has its original, and is as it was where it was left alone.\<close>

lemma back_key_sees:
  assumes "sees n (ov_conf ov) m'" "n < file_max_lines" "keepable len key (m key)" "v = None \<longrightarrow> m' key = m key"
    and "writable (key, [])"
  shows "sees (n + 1) (ov_conf (back_key True key (saved_as v (m key)) ov)) (m'(key := m key))"
proof (cases v)
  case None
  then have "m'(key := m key) = m'" using assms(4) by (simp add: fun_upd_idem)
  then show ?thesis using None sees_more [OF assms(1), of "n + 1"] by (simp add: back_key_def saved_as_def)
next
  case (Some u)
  let ?s = "saved_as v (m key)"
  have s: "?s \<noteq> untouched" "writable (key, ?s)" "value_of ?s = m key"
    using assms(3,5) Some by (auto simp: saved_as_def keepable_def value_of_def untouched_def split: option.splits)
  then show ?thesis using put_key_sees [OF assms(1,2), of key "Some ?s"] by (simp add: back_key_def value_ok_def)
qed

lemma keys_writable: "writable (floor_key, [])" "writable (curve_key, [])" "writable (gamma_key, [])"
  by code_simp+

section \<open>The restore\<close>

text \<open>From any file that is the original one but for the touched keys, the restore brings the original back.\<close>

definition back_all :: "override \<Rightarrow> override" where
  "back_all ov = run_steps (take 3 (restore_steps [True, True, True])) ov"

lemma back_all_sees:
  assumes "sees n (ov_conf ov) m'" "n + 3 \<le> file_max_lines" "originals_keep m" "but_for (touched fl cv ga) m m'"
    and "holds_saved fl cv ga m ov"
  shows "sees (n + 3) (ov_conf (back_all ov)) m"
proof -
  note k = assms(3) [unfolded originals_keep_def]
  note s = assms(5) [unfolded holds_saved_def]
  let ?o1 = "back_key True floor_key (saved_as fl (m floor_key)) ov"
  let ?o2 = "back_key True curve_key (saved_as cv (m curve_key)) ?o1"
  have a1: "fl = None \<longrightarrow> m' floor_key = m floor_key" and a2: "cv = None \<longrightarrow> (m'(floor_key := m floor_key)) curve_key = m curve_key"
    and a3: "ga = None \<longrightarrow> (m'(floor_key := m floor_key, curve_key := m curve_key)) gamma_key = m gamma_key"
    using assms(4) by (auto simp: but_for_def touched_def)
  have e: "back_all ov = back_key True gamma_key (saved_as ga (m gamma_key)) ?o2"
    using s by (simp add: back_all_def restore_steps_def run_steps_def eval_nat_numeral)
  have w: "n < file_max_lines" "n + 1 < file_max_lines" "n + 1 + 1 < file_max_lines" using assms(2) by simp_all
  have b1: "sees (n + 1) (ov_conf ?o1) (m'(floor_key := m floor_key))"
    using back_key_sees [where m = m and m' = m' and key = floor_key and v = fl and len = short_len and n = n and ov = ov]
      assms(1) w(1) k a1 keys_writable(1) by blast
  have b2: "sees (n + 1 + 1) (ov_conf ?o2) (m'(floor_key := m floor_key, curve_key := m curve_key))"
    using back_key_sees [where m = m and m' = "m'(floor_key := m floor_key)" and key = curve_key and v = cv and len = curve_len
        and n = "n + 1" and ov = ?o1] b1 w(2) k a2 keys_writable(2) by blast
  have b3: "sees (n + 1 + 1 + 1) (ov_conf (back_all ov)) (m'(floor_key := m floor_key, curve_key := m curve_key, gamma_key := m gamma_key))"
    unfolding e
    using back_key_sees [where m = m and m' = "m'(floor_key := m floor_key, curve_key := m curve_key)" and key = gamma_key
        and v = ga and len = short_len and n = "n + 1 + 1" and ov = ?o2] b2 w(3) k a3 keys_writable(3) by blast
  have "m'(floor_key := m floor_key, curve_key := m curve_key, gamma_key := m gamma_key) = m"
    using assms(4) by (auto simp: fun_eq_iff but_for_def touched_def split: if_splits)
  then show ?thesis using b3 by (simp add: numeral_eq_Suc)
qed

section \<open>The marker\<close>

text \<open>A saved value is read back from its line.\<close>

lemma saved_line_read:
  assumes "length s < len - 1" "newline \<notin> set s" "cret \<notin> set s" "CHR 0x00 \<notin> set s"
  shows "saved_line len (s @ newline # rest) = (s, rest)"
proof -
  have f: "fgets (len - 1) (s @ newline # rest) = (s @ [newline], rest)"
    using fgets_line [of s "len - 1" rest] assms(1,2) by simp
  have "cstr (s @ [newline]) = s @ [newline]" using assms(4) by (auto simp: cstr_def takeWhile_eq_all_conv)
  moreover have "takeWhile (\<lambda>c. c \<noteq> cret \<and> c \<noteq> newline) (s @ [newline]) = s"
    using assms(2,3) by (subst takeWhile_append2) auto
  ultimately show ?thesis unfolding saved_line_def f Let_def by simp
qed

lemma saved_as_line:
  assumes "keepable len key orig" "2 < len"
  shows "length (saved_as v orig) < len - 1 \<and> newline \<notin> set (saved_as v orig) \<and> cret \<notin> set (saved_as v orig) \<and>
    CHR 0x00 \<notin> set (saved_as v orig)"
  using assms by (auto simp: keepable_def saved_as_def untouched_def writable_def one_line_def split: option.splits)

lemma init_restores:
  assumes "holds_saved fl cv ga m ov" "ov_marker ov = Some (marker_text ov)" "originals_keep m"
    and "sees n (ov_conf ov) m'" "n + 3 \<le> file_max_lines" "but_for (touched fl cv ga) m m'"
  shows "sees (n + 3) (ov_conf (curverec_init [True, True, True] (dies ov))) m \<and>
    ov_marker (curverec_init [True, True, True] (dies ov)) = None \<and>
    \<not> ov_active (curverec_init [True, True, True] (dies ov))"
proof -
  let ?f = "saved_as fl (m floor_key)" and ?c = "saved_as cv (m curve_key)" and ?g = "saved_as ga (m gamma_key)"
  have k: "keepable short_len floor_key (m floor_key)" "keepable curve_len curve_key (m curve_key)"
    "keepable short_len gamma_key (m gamma_key)" using assms(3) by (simp_all add: originals_keep_def)
  have l: "2 < short_len" "2 < curve_len" by (simp_all add: short_len_def curve_len_def)
  have t: "ov_marker (dies ov) = Some (?f @ newline # ?c @ newline # ?g @ newline # [])"
    using assms(1,2) by (simp add: dies_def marker_text_def holds_saved_def)
  have r: "saved_line short_len (?f @ newline # ?c @ newline # ?g @ newline # []) = (?f, ?c @ newline # ?g @ newline # [])"
    "saved_line curve_len (?c @ newline # ?g @ newline # []) = (?c, ?g @ newline # [])"
    "saved_line short_len (?g @ newline # []) = (?g, [])"
    using saved_line_read saved_as_line [OF k(1) l(1)] saved_as_line [OF k(2) l(2)] saved_as_line [OF k(3) l(1)] by blast+
  define o1 where "o1 = (dies ov)\<lparr>sv_floor := ?f, sv_curve := ?c, sv_gamma := ?g, ov_active := True\<rparr>"
  have e: "curverec_init [True, True, True] (dies ov) = saved_restore_locked [True, True, True] o1"
    unfolding curverec_init_def t option.case r Let_def prod.case o1_def by (rule refl)
  have "saved_restore_locked [True, True, True] o1 = (back_all o1)\<lparr>ov_marker := None, ov_active := False\<rparr>"
    by (simp add: saved_restore_locked_def back_all_def restore_steps_def run_steps_def eval_nat_numeral)
  moreover have "sees (n + 3) (ov_conf (back_all o1)) m"
    by (rule back_all_sees [OF _ assms(5,3,6)]) (use assms(4) in \<open>simp_all add: o1_def dies_def holds_saved_def\<close>)
  ultimately show ?thesis by (simp add: e)
qed

section \<open>Dying anywhere\<close>

text \<open>Between the marker and the unlink: the originals are in the marker, and the file is the original one
  but for the touched keys.\<close>

definition under_way :: "string option \<Rightarrow> string option \<Rightarrow> string option \<Rightarrow> (string \<Rightarrow> string option) \<Rightarrow> nat \<Rightarrow> override \<Rightarrow> bool" where
  "under_way fl cv ga m n ov \<longleftrightarrow> holds_saved fl cv ga m ov \<and> ov_marker ov = Some (marker_text ov) \<and>
     (\<exists>m'. sees n (ov_conf ov) m' \<and> but_for (touched fl cv ga) m m')"

lemma marker_put [simp]: "marker_text (put_key io key v ov) = marker_text ov" "marker_text (back_key io key s ov) = marker_text ov"
  "marker_text (ov\<lparr>ov_active := b\<rparr>) = marker_text ov"
  by (simp_all add: marker_text_def)

lemma under_way_put:
  assumes "under_way fl cv ga m n ov" "n < file_max_lines" "value_ok key v" "v \<noteq> None \<longrightarrow> key \<in> touched fl cv ga"
  shows "under_way fl cv ga m (n + 1) (put_key True key v ov)"
proof -
  obtain m' where m': "sees n (ov_conf ov) m'" "but_for (touched fl cv ga) m m'" using assms(1) by (auto simp: under_way_def)
  have "but_for (touched fl cv ga) m (case v of None \<Rightarrow> m' | Some s \<Rightarrow> m'(key := value_of s))"
    using m'(2) assms(4) by (auto simp: but_for_def split: option.splits)
  then show ?thesis using put_key_sees [OF m'(1) assms(2,3)] assms(1) by (auto simp: under_way_def holds_saved_def)
qed

lemma under_way_back:
  assumes "under_way fl cv ga m n ov" "n < file_max_lines" "keepable len key (m key)"
    and "v \<noteq> None \<longrightarrow> key \<in> touched fl cv ga" "writable (key, [])"
  shows "under_way fl cv ga m (n + 1) (back_key True key (saved_as v (m key)) ov)"
proof (cases "saved_as v (m key) = untouched")
  case True
  then show ?thesis using assms(1) sees_more [of n _ _ "n + 1"] by (auto simp: back_key_def under_way_def)
next
  case False
  then have "v \<noteq> None" by (cases v) (auto simp: saved_as_def)
  moreover have "value_ok key (Some (saved_as v (m key)))"
    using assms(3,5) \<open>v \<noteq> None\<close> by (auto simp: value_ok_def saved_as_def keepable_def split: option.splits)
  ultimately show ?thesis using under_way_put [OF assms(1,2), of key "Some (saved_as v (m key))"] assms(4) False
    by (simp add: back_key_def)
qed

lemma under_way_active: "under_way fl cv ga m n ov \<Longrightarrow> under_way fl cv ga m n (ov\<lparr>ov_active := b\<rparr>)"
  by (auto simp: under_way_def holds_saved_def)

text \<open>All steps of an override and its restore, from the refusals of the one to the end of the other.\<close>

definition whole_run :: "string option \<Rightarrow> string option \<Rightarrow> string option \<Rightarrow> nat \<Rightarrow> nat \<Rightarrow> override \<Rightarrow> override" where
  "whole_run fl cv ga kept k ov =
     run_steps (take k (begin_steps [True, True, True] kept fl cv ga @ restore_steps [True, True, True])) (saves fl cv ga ov)"

lemma run_steps_Cons [simp]: "run_steps (f # fs) ov = run_steps fs (f ov)" "run_steps [] ov = ov"
  by (simp_all add: run_steps_def)

lemma run_steps_append: "run_steps (fs @ gs) ov = run_steps gs (run_steps fs ov)"
  by (simp add: run_steps_def)

lemma begun:
  assumes "sees n (ov_conf ov) m" "n + 10 \<le> file_max_lines" "originals_keep m"
    and "value_ok floor_key fl" "value_ok curve_key cv" "value_ok gamma_key ga"
    and "length (marker_text (saves fl cv ga ov)) \<le> kept" "0 < k" "k \<le> 8"
  shows "under_way fl cv ga m (n + 7) (whole_run fl cv ga kept k ov)"
proof -
  note kp = assms(3) [unfolded originals_keep_def]
  let ?s = "saves fl cv ga ov"
  have sv: "holds_saved fl cv ga m ?s"
    using saved_of_sees [OF assms(1)] kp by (auto simp: saves_def holds_saved_def)
  define o1 where "o1 = ?s\<lparr>ov_marker := Some (take kept (marker_text ?s))\<rparr>"
  have u1: "under_way fl cv ga m n o1"
    using sv assms(1,7) by (auto simp: o1_def under_way_def holds_saved_def saves_def marker_text_def but_for_def)
  have t: "fl \<noteq> None \<longrightarrow> floor_key \<in> touched fl cv ga" "cv \<noteq> None \<longrightarrow> curve_key \<in> touched fl cv ga"
    "ga \<noteq> None \<longrightarrow> gamma_key \<in> touched fl cv ga" by (auto simp: touched_def)
  have b: "n + i < file_max_lines" if "i < 10" for i using assms(2) that by simp
  define o2 where "o2 = put_key True floor_key fl o1"
  define o3 where "o3 = put_key True curve_key cv o2"
  define o4 where "o4 = put_key True gamma_key ga o3"
  define o5 where "o5 = o4\<lparr>ov_active := True\<rparr>"
  define o6 where "o6 = back_key True floor_key (saved_as fl (m floor_key)) o5"
  define o7 where "o7 = back_key True curve_key (saved_as cv (m curve_key)) o6"
  define o8 where "o8 = back_key True gamma_key (saved_as ga (m gamma_key)) o7"
  have u: "under_way fl cv ga m (n + 1) o2" "under_way fl cv ga m (n + 1 + 1) o3" "under_way fl cv ga m (n + 1 + 1 + 1) o4"
    "under_way fl cv ga m (n + 1 + 1 + 1) o5"
  proof -
    show 2: "under_way fl cv ga m (n + 1) o2" unfolding o2_def by (rule under_way_put [OF u1 _ assms(4) t(1)]) (use b [of 0] in simp)
    show 3: "under_way fl cv ga m (n + 1 + 1) o3" unfolding o3_def by (rule under_way_put [OF 2 _ assms(5) t(2)]) (use b [of 1] in simp)
    show 4: "under_way fl cv ga m (n + 1 + 1 + 1) o4" unfolding o4_def by (rule under_way_put [OF 3 _ assms(6) t(3)]) (use b [of 2] in simp)
    show "under_way fl cv ga m (n + 1 + 1 + 1) o5" unfolding o5_def by (rule under_way_active [OF 4])
  qed
  have v: "under_way fl cv ga m (n + 1 + 1 + 1 + 1) o6" "under_way fl cv ga m (n + 1 + 1 + 1 + 1 + 1) o7"
    "under_way fl cv ga m (n + 1 + 1 + 1 + 1 + 1 + 1) o8"
  proof -
    show 6: "under_way fl cv ga m (n + 1 + 1 + 1 + 1) o6" unfolding o6_def
      by (rule under_way_back [OF u(4) _ kp [THEN conjunct1] t(1) keys_writable(1)]) (use b [of 3] in simp)
    show 7: "under_way fl cv ga m (n + 1 + 1 + 1 + 1 + 1) o7" unfolding o7_def
      by (rule under_way_back [OF 6 _ kp [THEN conjunct2, THEN conjunct1] t(2) keys_writable(2)]) (use b [of 4] in simp)
    show "under_way fl cv ga m (n + 1 + 1 + 1 + 1 + 1 + 1) o8" unfolding o8_def
      by (rule under_way_back [OF 7 _ kp [THEN conjunct2, THEN conjunct2] t(3) keys_writable(3)]) (use b [of 5] in simp)
  qed
  have more: "under_way fl cv ga m i x \<Longrightarrow> i \<le> n + 7 \<Longrightarrow> under_way fl cv ga m (n + 7) x" for i x
    using sees_more [of i _ _ "n + 7"] by (auto simp: under_way_def)
  have sv5: "sv_floor o5 = saved_as fl (m floor_key)" "sv_curve o6 = saved_as cv (m curve_key)" "sv_gamma o7 = saved_as ga (m gamma_key)"
    using sv by (simp_all add: o1_def o2_def o3_def o4_def o5_def o6_def o7_def holds_saved_def)
  have "k \<in> {1, 2, 3, 4, 5, 6, 7, 8}" using assms(8,9) by auto
  moreover have "whole_run fl cv ga kept 1 ov = o1" "whole_run fl cv ga kept 2 ov = o2" "whole_run fl cv ga kept 3 ov = o3"
    "whole_run fl cv ga kept 4 ov = o4" "whole_run fl cv ga kept 5 ov = o5" "whole_run fl cv ga kept 6 ov = o6"
    "whole_run fl cv ga kept 7 ov = o7" "whole_run fl cv ga kept 8 ov = o8"
    using sv5 by (simp_all add: whole_run_def begin_steps_def restore_steps_def o1_def o2_def o3_def o4_def o5_def o6_def o7_def
        o8_def eval_nat_numeral)
  ultimately show ?thesis using more [OF u1] more [OF u(1)] more [OF u(2)] more [OF u(3)] more [OF u(4)] more [OF v(1)] more [OF v(2)]
      more [OF v(3)] by auto
qed

lemma run_tail:
  assumes "8 < k"
  shows "ov_conf (whole_run fl cv ga kept k ov) = ov_conf (whole_run fl cv ga kept 8 ov)"
    "ov_marker (whole_run fl cv ga kept k ov) = None"
proof -
  let ?all = "begin_steps [True, True, True] kept fl cv ga @ restore_steps [True, True, True]"
  have "take k ?all = take 9 ?all \<or> take k ?all = take 10 ?all"
    using assms by (cases "k = 9") (auto simp: begin_steps_def restore_steps_def take_Cons')
  then have "whole_run fl cv ga kept k ov = whole_run fl cv ga kept 9 ov \<or> whole_run fl cv ga kept k ov = whole_run fl cv ga kept 10 ov"
    by (auto simp: whole_run_def)
  moreover have "ov_conf (whole_run fl cv ga kept 9 ov) = ov_conf (whole_run fl cv ga kept 8 ov) \<and>
      ov_conf (whole_run fl cv ga kept 10 ov) = ov_conf (whole_run fl cv ga kept 8 ov) \<and>
      ov_marker (whole_run fl cv ga kept 9 ov) = None \<and> ov_marker (whole_run fl cv ga kept 10 ov) = None"
    by (simp add: whole_run_def begin_steps_def restore_steps_def eval_nat_numeral)
  ultimately show "ov_conf (whole_run fl cv ga kept k ov) = ov_conf (whole_run fl cv ga kept 8 ov)"
    "ov_marker (whole_run fl cv ga kept k ov) = None" by auto
qed

lemma run_back: "whole_run fl cv ga kept 8 ov = back_all (whole_run fl cv ga kept 5 ov)"
  by (simp add: whole_run_def back_all_def begin_steps_def restore_steps_def eval_nat_numeral)

text \<open>C32. 
  An override never outlives the job: at whatever step of it or of its restore the daemon dies, the
  next start leaves a settings file whose readers see for every key what they saw before the
  override began, no marker and no override in force. The originals must be values the marker's
  lines hold, every write must succeed and the whole marker must reach the disk.
\<close>

theorem override_survives_death:
  assumes "sees n (ov_conf ov) m" "n + 10 \<le> file_max_lines" "originals_keep m" "ov_marker ov = None"
    and "value_ok floor_key fl" "value_ok curve_key cv" "value_ok gamma_key ga"
    and "length (marker_text (saves fl cv ga ov)) \<le> kept"
    and "ov' = curverec_init [True, True, True] (dies (whole_run fl cv ga kept k ov))"
  shows "(\<forall>len key. settings_get len key (ov_conf ov') = settings_get len key (ov_conf ov)) \<and>
    ov_marker ov' = None \<and> \<not> ov_active ov'"
proof -
  have orig: "settings_get len key (ov_conf ov) = map_option (fit len) (m key)" for len key
    using assms(1) by (simp add: sees_def)
  have key: "(\<exists>i. sees i (ov_conf ov') m) \<and> ov_marker ov' = None \<and> \<not> ov_active ov'"
  proof (cases "k = 0 \<or> 8 < k")
    case True
    have "(\<exists>i. sees i (ov_conf (whole_run fl cv ga kept k ov)) m) \<and> ov_marker (whole_run fl cv ga kept k ov) = None"
    proof (cases "k = 0")
      case True
      then show ?thesis using assms(1,4) by (auto simp: whole_run_def saves_def)
    next
      case False
      then have k: "8 < k" using \<open>k = 0 \<or> 8 < k\<close> by simp
      have "under_way fl cv ga m (n + 7) (whole_run fl cv ga kept 5 ov)"
        by (rule begun [OF assms(1,2,3,5,6,7,8)]) simp_all
      then obtain m' where m': "sees (n + 7) (ov_conf (whole_run fl cv ga kept 5 ov)) m'" "but_for (touched fl cv ga) m m'"
        and h: "holds_saved fl cv ga m (whole_run fl cv ga kept 5 ov)" by (auto simp: under_way_def)
      have "sees (n + 7 + 3) (ov_conf (whole_run fl cv ga kept 8 ov)) m"
        unfolding run_back by (rule back_all_sees [OF m'(1) _ assms(3) m'(2) h]) (use assms(2) in simp)
      then show ?thesis using run_tail [OF k] by metis
    qed
    then show ?thesis by (auto simp: assms(9) curverec_init_def dies_def)
  next
    case False
    then have "under_way fl cv ga m (n + 7) (whole_run fl cv ga kept k ov)"
      using begun [OF assms(1,2,3,5,6,7,8)] by simp
    then obtain m' where "sees (n + 7) (ov_conf (whole_run fl cv ga kept k ov)) m'" "but_for (touched fl cv ga) m m'"
      and "holds_saved fl cv ga m (whole_run fl cv ga kept k ov)"
      and "ov_marker (whole_run fl cv ga kept k ov) = Some (marker_text (whole_run fl cv ga kept k ov))"
      by (auto simp: under_way_def)
    then show ?thesis unfolding assms(9) using init_restores [where n = "n + 7" and m' = m' and m = m] assms(2,3) by fastforce
  qed
  then show ?thesis using orig by (auto simp: sees_def)
qed

lemma sees_last: "conf_lines conf ls \<Longrightarrow> length ls \<le> n \<Longrightarrow> sees n conf (\<lambda>k. last_value k ls)"
  by (auto simp: sees_def conf_lines_def settings_get_def conf_reads_whole)

definition curve_conf :: "string list" where
  "curve_conf = [''laser_dose_curve = 10:1,100:100'' @ [newline], ''ui_units = metric'' @ [newline]]"

definition before_curve :: override where
  "before_curve = \<lparr>ov_active = False, sv_floor = [], sv_curve = [], sv_gamma = [], ov_conf = Some (concat curve_conf), ov_marker = None\<rparr>"

text \<open>The recorder's override, cut after its second key.\<close>

theorem override_survives_death_witness:
  "settings_get 192 ''laser_dose_curve'' (ov_conf (curverec_init [True, True, True]
     (dies (whole_run (Some ''0'') (Some ''off'') None 64 3 before_curve)))) = Some ''10:1,100:100''"
proof -
  have l: "conf_lines (Some (concat curve_conf)) curve_conf" by (auto simp: conf_lines_def curve_conf_def whole_def)
  have s: "sees 2 (ov_conf before_curve) (\<lambda>k. last_value k curve_conf)"
    using sees_last [OF l, of 2] by (simp add: before_curve_def curve_conf_def)
  have o1: "originals_keep (\<lambda>k. last_value k curve_conf)" by code_simp
  have v: "value_ok floor_key (Some ''0'')" "value_ok curve_key (Some ''off'')" "value_ok gamma_key None"
    "length (marker_text (saves (Some ''0'') (Some ''off'') None before_curve)) \<le> 64" "ov_marker before_curve = None"
    "settings_get 192 ''laser_dose_curve'' (ov_conf before_curve) = Some ''10:1,100:100''"
    by code_simp+
  have n: "(2::nat) + 10 \<le> file_max_lines" by (simp add: file_max_lines_def)
  show ?thesis using override_survives_death [OF s n o1 v(5) v(1-4) refl, of 3] v(6) by simp
qed

section \<open>A marker cut short\<close>

text \<open>The marker's writes are not looked at. When none of it reaches the disk the next start finds a marker
  without lines, takes every key for one left alone, and the ladder's own values stay in force.\<close>

theorem cut_marker_keeps_override:
  "let ov' = curverec_init [True, True, True] (dies (whole_run (Some ''0'') (Some ''off'') None 0 4 before_curve))
   in settings_get 192 ''laser_dose_curve'' (ov_conf ov') = Some ''off'' \<and> ov_marker ov' = None"
  by code_simp

section \<open>The fit\<close>

lemma deltas_length: "deltas_from s tp hz gs = Inr ds \<Longrightarrow> length ds = length gs"
  by (induction gs arbitrary: s ds) (auto split: option.splits sum.splits)

lemma rising_sorted: "flat_rung ds = None \<Longrightarrow> sorted ds"
proof -
  assume "flat_rung ds = None"
  then have "\<forall>s\<in>set [1..<length ds]. ds ! (s - 1) < ds ! s" by (auto simp: flat_rung_def find_None_iff)
  then have "\<forall>i. Suc i < length ds \<longrightarrow> ds ! i \<le> ds ! Suc i" by force
  then show ?thesis by (simp add: sorted_iff_nth_Suc)
qed

lemma light_mono: "0 < last ds \<Longrightarrow> a \<le> b \<Longrightarrow> light_of ds a \<le> light_of ds b"
  by (auto simp: light_of_def Let_def divide_right_mono order.trans [of _ "b / last ds * 100"])

text \<open>
  A fit that succeeds gives the ladder's densities in order, each with a light between the floor and
  full, never falling as the density rises.
\<close>

theorem fit_is_a_curve:
  assumes "curverec_fit hvc tp hz mp elen = Inr pts"
  shows "map fst pts = take mp ladder_d \<and> sorted (map snd pts) \<and> (\<forall>p\<in>set pts. 1 / 100 \<le> snd p \<and> snd p \<le> 100)"
proof -
  obtain ds where ds: "deltas_from 0 tp hz (segments hvc hz) = Inr ds" "length (segments hvc hz) = length ladder_d"
    "\<not> last ds < tp_rise_min" "flat_rung ds = None" "pts = take mp (zip ladder_d (map (light_of ds) ds))"
    using assms by (auto simp: curverec_fit_def Let_def split: if_splits sum.splits option.splits)
  have n: "length ds = length ladder_d" using deltas_length [OF ds(1)] ds(2) by simp
  have pos: "0 < last ds" using ds(3) by (simp add: tp_rise_min_def)
  have so: "sorted ds" by (rule rising_sorted [OF ds(4)])
  have ne: "ds \<noteq> []" using n by (auto simp: ladder_d_def)
  have f: "map fst pts = take mp ladder_d" "map snd pts = take mp (map (light_of ds) ds)"
    by (simp_all add: ds(5) take_map [symmetric] n)
  have "sorted (map (light_of ds) ds)"
    using so light_mono [OF pos] by (auto simp: sorted_iff_nth_mono)
  then have a: "sorted (map snd pts)" unfolding f by (rule sorted_wrt_take)
  have "1 / 100 \<le> snd p \<and> snd p \<le> 100" if "p \<in> set pts" for p
  proof -
    have "snd p \<in> set (map snd pts)" using that by simp
    then obtain d where d: "d \<in> set ds" "snd p = light_of ds d" unfolding f by (auto dest!: in_set_takeD)
    have "d \<le> last ds" using so ne d(1) by (metis last_conv_nth in_set_conv_nth sorted_nth_mono diff_less length_greater_0_conv less_numeral_extra(1) Suc_pred' less_Suc_eq_le)
    then have "light_of ds d \<le> light_of ds (last ds)" by (rule light_mono [OF pos])
    then show ?thesis using d(2) pos by (simp add: light_of_def Let_def)
  qed
  with f a show ?thesis by blast
qed

section \<open>The recorder\<close>

text \<open>While a recording waits or runs the override is in force.\<close>

definition recorder_ok :: "recorder \<Rightarrow> bool" where
  "recorder_ok r \<longleftrightarrow> (cr_state r \<in> {CR_Waiting, CR_Recording} \<longrightarrow> ov_active (cr_ov r))"

lemma restore_ends: "\<not> ov_active (curverec_override_end ios ov)"
  by (simp add: curverec_override_end_def saved_restore_locked_def restore_steps_def)

lemma begin_active: "curverec_override_begin opens ios kept fl cv ga ov = (True, ov') \<Longrightarrow> ov_active ov'"
  by (auto simp: curverec_override_begin_def begin_steps_def split: if_splits)

lemma finished: "s \<notin> {CR_Waiting, CR_Recording} \<Longrightarrow> recorder_ok (finish_locked ios s why r)"
  by (simp add: recorder_ok_def finish_locked_def)

lemma recorder_keeps:
  "recorder_ok r \<Longrightarrow> recorder_ok (rec_sample hvc tp r)"
  "recorder_ok (record_done ios ok lit err r)"
  "recorder_ok r \<Longrightarrow> recorder_ok (snd (curverec_start a opens ios kept r))"
  "recorder_ok r \<Longrightarrow> recorder_ok (snd (curverec_stop r))"
proof -
  have ready: "recorder_ok r' \<or> cr_state r' = cr_state r" if "record_ready opens ios kept r = (e, r')" for e r'
    using that begin_active by (auto simp: record_ready_def recorder_ok_def Let_def split: prod.splits if_splits)
  show "recorder_ok r \<Longrightarrow> recorder_ok (rec_sample hvc tp r)" by (auto simp: rec_sample_def recorder_ok_def Let_def)
  show "recorder_ok (record_done ios ok lit err r)"
    by (auto simp: record_done_def fit_locked_def intro!: finished split: sum.splits)
  show "recorder_ok r \<Longrightarrow> recorder_ok (snd (curverec_start a opens ios kept r))"
    using ready by (auto simp: curverec_start_def recorder_ok_def finish_locked_def split: start_answer.splits prod.splits option.splits)
  show "recorder_ok r \<Longrightarrow> recorder_ok (snd (curverec_stop r))" by (auto simp: curverec_stop_def recorder_ok_def Let_def)
qed

end
