(* ===== verification/Builtin.thy ===== *)
theory Builtin
  imports SettingsProps
begin

text \<open>
  The built-in extensions (\<open>src/builtin.c\<close>): the one table, the enable of each, what a settings request may
  not select while its extension is off, and what a request that turns one off takes down with it. A
  request is the function that gives the value it carries for a key; the settings file is that of
  \<open>Settings\<close>. The crumb tray (\<open>src/tray.c\<close>), whose marker file is an input, has its offset and the two
  rules held on it here as well.
\<close>

type_synonym params = "string \<Rightarrow> string option"

record builtin_role =
  br_role :: string
  br_provider :: string
  br_kind :: string
  br_select :: string
  br_fallback :: string
  br_refusal :: string

record builtin_ext =
  be_id :: string
  be_name :: string
  be_summary :: string
  be_enable :: string
  be_consent :: string
  be_setup_step :: string
  be_tab :: "string option"
  be_settings :: "string list"
  be_roles :: "builtin_role list"

definition cloud_roles :: "builtin_role list" where
  "cloud_roles =
     [\<lparr>br_role = ''homing'', br_provider = ''gfcloud'', br_kind = ''runner-fd'', br_select = ''homing_mode'',
       br_fallback = ''none'', br_refusal = ''cloud homing needs cloud mode enabled''\<rparr>,
      \<lparr>br_role = ''controller'', br_provider = ''cloud'', br_kind = ''supervised'', br_select = ''controller_mode'',
       br_fallback = ''grbl'', br_refusal = ''cloud mode is not enabled on this machine''\<rparr>]"

definition cloud_settings :: "string list" where
  "cloud_settings = [''cloud_*'', ''gfcloud_*'', ''gf_serial'', ''gf_password'', ''log_gfcloud_*'']"

definition builtin_exts :: "builtin_ext list" where
  "builtin_exts =
     [\<lparr>be_id = ''cloud'', be_name = ''Glowforge cloud mode'',
       be_summary = ''Runs the factory experience: jobs from the Glowforge web service, and its camera homing.'',
       be_enable = ''cloud_enabled'', be_consent = ''The cloud step of the setup, with its typed acknowledgment.'',
       be_setup_step = ''cloud'', be_tab = Some ''gfcloud'', be_settings = cloud_settings, be_roles = cloud_roles\<rparr>]"

definition builtin_count :: nat where "builtin_count = length builtin_exts"

definition builtin_at :: "nat \<Rightarrow> builtin_ext option" where
  "builtin_at i = (if i < builtin_count then Some (builtin_exts ! i) else None)"

definition builtin_find :: "string option \<Rightarrow> builtin_ext option" where
  "builtin_find i = (case i of None \<Rightarrow> None | Some s \<Rightarrow> find (\<lambda>e. be_id e = s) builtin_exts)"

definition builtin_enabled :: "string option \<Rightarrow> builtin_ext \<Rightarrow> bool" where
  "builtin_enabled conf e = settings_get_bool (be_enable e) False conf"

text \<open>The enable as the request sees it: its own value when it gives the key one, else the stored one.\<close>

definition enabled_after :: "params \<Rightarrow> string option \<Rightarrow> builtin_ext \<Rightarrow> bool" where
  "enabled_after p conf e =
     (case p (be_enable e) of
        None \<Rightarrow> builtin_enabled conf e
      | Some v \<Rightarrow> if v \<noteq> [] then v = ''1'' else builtin_enabled conf e)"

definition role_refused :: "params \<Rightarrow> builtin_role \<Rightarrow> bool" where
  "role_refused p r \<longleftrightarrow> p (br_select r) = Some (br_provider r)"

text \<open>The words, or nothing to refuse.\<close>

definition builtin_request_refused :: "params \<Rightarrow> string option \<Rightarrow> string option" where
  "builtin_request_refused p conf =
     map_option br_refusal
       (find (role_refused p) (concat (map be_roles (filter (\<lambda>e. \<not> enabled_after p conf e) builtin_exts))))"

definition role_swept :: "params \<Rightarrow> string option \<Rightarrow> builtin_role \<Rightarrow> bool" where
  "role_swept p conf r \<longleftrightarrow> p (br_select r) = None \<and> settings_get 32 (br_select r) conf = Some (br_provider r)"

definition builtin_request_sweep :: "params \<Rightarrow> string option \<Rightarrow> nat \<Rightarrow> (string \<times> string) list" where
  "builtin_request_sweep p conf m =
     take m (map (\<lambda>r. (br_select r, br_fallback r))
       (filter (role_swept p conf) (concat (map be_roles (filter (\<lambda>e. p (be_enable e) = Some ''0'') builtin_exts)))))"

section \<open>The list as JSON\<close>

definition commas :: "string list \<Rightarrow> string" where
  "commas xs = concat (map (\<lambda>i. (if i = 0 then [] else '','') @ xs ! i) [0..<length xs])"

definition quoted :: "string \<Rightarrow> string" where "quoted s = [dquote] @ s @ [dquote]"

definition json_field :: "string \<Rightarrow> string \<Rightarrow> string" where "json_field k v = quoted k @ '':'' @ v"

definition role_json :: "bool \<Rightarrow> string option \<Rightarrow> builtin_role \<Rightarrow> string" where
  "role_json on conf r =
     ''{'' @ json_field ''role'' (quoted (br_role r)) @ '','' @ json_field ''provider'' (quoted (br_provider r)) @ '','' @
     json_field ''kind'' (quoted (br_kind r)) @ '','' @ json_field ''select_key'' (quoted (br_select r)) @ '','' @
     json_field ''fallback'' (quoted (br_fallback r)) @ '','' @
     json_field ''active'' (json_bool (on \<and> settings_get 32 (br_select r) conf = Some (br_provider r))) @ ''}''"

definition ext_json :: "string option \<Rightarrow> builtin_ext \<Rightarrow> string" where
  "ext_json conf e =
     ''{'' @ json_field ''id'' (quoted (be_id e)) @ '','' @ json_field ''name'' (quoted (be_name e)) @ '','' @
     json_field ''summary'' (quoted (be_summary e)) @ '','' @ json_field ''builtin'' ''true'' @ '','' @
     json_field ''enabled'' (json_bool (builtin_enabled conf e)) @ '','' @
     json_field ''enable_key'' (quoted (be_enable e)) @ '','' @ json_field ''consent'' (quoted (be_consent e)) @ '','' @
     json_field ''setup_step'' (quoted (be_setup_step e)) @ '','' @
     (case be_tab e of None \<Rightarrow> [] | Some t \<Rightarrow> json_field ''tab'' (quoted t) @ '','') @
     json_field ''settings'' (''['' @ commas (map quoted (be_settings e)) @ '']'') @ '','' @
     json_field ''roles'' (''['' @ commas (map (role_json (builtin_enabled conf e) conf) (be_roles e)) @ '']'') @ ''}''"

definition builtin_json :: "nat \<Rightarrow> string option \<Rightarrow> string option" where
  "builtin_json len conf =
     (let t = ''{'' @ json_field ''extensions'' (''['' @ commas (map (ext_json conf) builtin_exts) @ '']'') @ ''}''
      in if length t < len then Some t else None)"

section \<open>The crumb tray\<close>

definition tray_offset_default_mm :: real where "tray_offset_default_mm = 34.29"
definition tray_offset_min_mm :: real where "tray_offset_min_mm = 13"
definition tray_offset_max_mm :: real where "tray_offset_max_mm = 60"

definition clamp_offset :: "dbl \<Rightarrow> real" where
  "clamp_offset d =
     (case d of Fin mm \<Rightarrow> if mm < tray_offset_min_mm then tray_offset_min_mm
                          else if tray_offset_max_mm < mm then tray_offset_max_mm else mm
      | PInf \<Rightarrow> tray_offset_max_mm | _ \<Rightarrow> tray_offset_min_mm)"

definition tray_offset_mm :: "string option \<Rightarrow> real" where
  "tray_offset_mm conf =
     (case settings_get 32 ''tray_offset_mm'' conf of
        None \<Rightarrow> tray_offset_default_mm
      | Some v \<Rightarrow>
          (let (d, e) = strtod v in
           if v \<noteq> [] \<and> length e \<noteq> length v \<and> d \<noteq> NaN then clamp_offset d else tray_offset_default_mm))"

definition tray_offset_valid :: "string \<Rightarrow> bool" where
  "tray_offset_valid v =
     (let (d, e) = strtod v
      in length e \<noteq> length v \<and> e = [] \<and> d_le (Fin tray_offset_min_mm) d \<and> d_le d (Fin tray_offset_max_mm))"

definition tray_offset_refusal :: "bool \<Rightarrow> string option \<Rightarrow> string option \<Rightarrow> nat \<Rightarrow> string option" where
  "tray_offset_refusal out v conf len =
     (case v of None \<Rightarrow> None
      | Some v \<Rightarrow>
          if \<not> out then None
          else if (case settings_get 32 ''tray_offset_mm'' conf of None \<Rightarrow> [] | Some c \<Rightarrow> c) = v then None
          else Some (fit len ''set the tray in first: the tray offset changes only while the tray is in''))"

definition tray_setup_refusal :: "bool \<Rightarrow> nat \<Rightarrow> string option" where
  "tray_setup_refusal out len =
     (if out then Some (fit len ''Put the crumb tray in and set Tray in on the Machine tab.'') else None)"

text \<open>Whatever the file says, the offset in force is within its range.\<close>

lemma tray_offset_held: "13 \<le> tray_offset_mm conf \<and> tray_offset_mm conf \<le> 60"
  by (auto simp: tray_offset_mm_def clamp_offset_def tray_offset_default_mm_def tray_offset_min_mm_def
      tray_offset_max_mm_def Let_def split: option.splits prod.splits dbl.splits)

section \<open>What a sweep takes down\<close>

lemma sweep_keys:
  "k \<in> fst ` set (builtin_request_sweep p conf m) \<Longrightarrow> p k = None \<and> k \<in> {''homing_mode'', ''controller_mode''}"
  by (auto simp: builtin_request_sweep_def builtin_exts_def cloud_roles_def role_swept_def split: if_splits
      dest!: in_set_takeD)

lemma sweep_distinct: "distinct (map fst (builtin_request_sweep p conf m))"
  by (simp add: builtin_request_sweep_def take_map [symmetric] builtin_exts_def cloud_roles_def distinct_take)

text \<open>Off takes both choices down: after the sweep neither selects the cloud, unless the request set it itself.\<close>

lemma sweep_value:
  assumes "p ''cloud_enabled'' = Some ''0''" "k \<in> {''homing_mode'', ''controller_mode''}" "p k = None"
  shows "map_of (builtin_request_sweep p conf 4) k =
    (if settings_get 32 k conf = Some (if k = ''homing_mode'' then ''gfcloud'' else ''cloud'')
     then Some (if k = ''homing_mode'' then ''none'' else ''grbl'') else None)"
  using assms by (auto simp: builtin_request_sweep_def builtin_exts_def cloud_roles_def role_swept_def)

end
