(* ===== verification/Setdefs.thy ===== *)
theory Setdefs
  imports Builtin Gates
begin

text \<open>
  The settings the panel may write (\<open>src/main.c\<close>, \<open>setting_defs\<close> and its validators; the logging
  ones of \<open>src/logs.c\<close>): which keys there are and which values each takes. A value is a C string, so
  it holds no NUL; numbers go through the C library's parsers of \<open>Cnum\<close>, which skip leading white
  space.
\<close>

definition value_max_len :: nat where "value_max_len = 16"

text \<open>The whole value is one number, within the bounds.\<close>

definition num_in :: "real \<Rightarrow> real \<Rightarrow> string \<Rightarrow> bool" where
  "num_in lo hi v \<longleftrightarrow> (let (d, e) = strtod v in length e \<noteq> length v \<and> e = [] \<and> d_le (Fin lo) d \<and> d_le d (Fin hi))"

definition valid_range :: "real \<Rightarrow> real \<Rightarrow> string \<Rightarrow> bool" where
  "valid_range lo hi v \<longleftrightarrow> length v \<le> value_max_len \<and> num_in lo hi v"

definition valid_gate :: "string \<Rightarrow> string \<Rightarrow> bool" where
  "valid_gate key v \<longleftrightarrow> gate_parse (gate_setting_find (Some key)) (Some v) \<noteq> None"

definition valid_homing_mode :: "string \<Rightarrow> bool" where
  "valid_homing_mode v \<longleftrightarrow> v = ''none'' \<or> v = ''gfcloud'' \<or> v = ''manual'' \<or> v = ''switches''"

definition valid_controller_mode :: "string \<Rightarrow> bool" where
  "valid_controller_mode v \<longleftrightarrow> v = ''grbl'' \<or> v = ''cloud''"

definition valid_mm :: "string \<Rightarrow> bool" where
  "valid_mm v \<longleftrightarrow> length v \<le> value_max_len \<and> num_in (- 1000) 1000 v"

definition valid_envelope :: "string \<Rightarrow> bool" where
  "valid_envelope v \<longleftrightarrow> length v \<le> value_max_len \<and> num_in 50 600 v"

definition valid_mm_nonneg :: "string \<Rightarrow> bool" where
  "valid_mm_nonneg v \<longleftrightarrow> length v \<le> value_max_len \<and> num_in 0 1000 v"

definition valid_timeout :: "string \<Rightarrow> bool" where
  "valid_timeout v \<longleftrightarrow> length v \<le> value_max_len \<and>
     (let (t, e) = strtol10 v in length e \<noteq> length v \<and> e = [] \<and> 30 \<le> t \<and> t \<le> 3600)"

definition valid_serial :: "string \<Rightarrow> bool" where
  "valid_serial v \<longleftrightarrow> 1 \<le> length v \<and> length v \<le> 12 \<and> list_all is_digit v"

definition valid_password :: "string \<Rightarrow> bool" where
  "valid_password v \<longleftrightarrow> length v = 64 \<and> list_all (\<lambda>c. is_lowhex (lower_c c)) v"

definition valid_units :: "string \<Rightarrow> bool" where
  "valid_units v \<longleftrightarrow> v = ''metric'' \<or> v = ''imperial''"

definition valid_country :: "string \<Rightarrow> bool" where
  "valid_country v \<longleftrightarrow> v = ''00'' \<or> length v = 2 \<and> list_all is_upper v"

definition valid_temp_offset :: "string \<Rightarrow> bool" where "valid_temp_offset = num_in (- 5) 5"

definition curve_char :: "char \<Rightarrow> bool" where
  "curve_char c \<longleftrightarrow> is_digit c \<or> c = CHR '':'' \<or> c = CHR '','' \<or> c = CHR ''.''"

definition valid_dose_curve :: "string \<Rightarrow> bool" where
  "valid_dose_curve v \<longleftrightarrow> 0 < length v \<and> length v \<le> 180 \<and> (v = ''off'' \<or> list_all curve_char v)"

definition valid_xy_microsteps :: "string \<Rightarrow> bool" where
  "valid_xy_microsteps v \<longleftrightarrow> v = ''8'' \<or> v = ''16'' \<or> v = ''32''"

definition valid_rise_c :: "string \<Rightarrow> bool" where "valid_rise_c = valid_gate ''cool_flow_rise''"
definition valid_check_s :: "string \<Rightarrow> bool" where "valid_check_s = valid_gate ''cool_flow_check_s''"
definition valid_temp_max :: "string \<Rightarrow> bool" where "valid_temp_max = valid_gate ''cool_temp_max''"
definition valid_temp_resume :: "string \<Rightarrow> bool" where "valid_temp_resume = valid_gate ''cool_temp_resume''"
definition valid_temp_critical :: "string \<Rightarrow> bool" where "valid_temp_critical = valid_gate ''cool_temp_critical_c''"
definition valid_temp_min :: "string \<Rightarrow> bool" where "valid_temp_min = valid_gate ''cool_temp_min''"
definition valid_temp_start :: "string \<Rightarrow> bool" where "valid_temp_start = valid_gate ''cool_temp_start''"
definition valid_tec_on :: "string \<Rightarrow> bool" where "valid_tec_on = valid_gate ''cool_tec_on_c''"
definition valid_tec_off :: "string \<Rightarrow> bool" where "valid_tec_off = valid_gate ''cool_tec_off_c''"
definition valid_tec_present :: "string \<Rightarrow> bool" where "valid_tec_present v \<longleftrightarrow> v = ''0'' \<or> v = ''1''"
definition valid_intake_fans :: "string \<Rightarrow> bool" where "valid_intake_fans v \<longleftrightarrow> v = ''1'' \<or> v = ''2''"
definition valid_fire_q1a :: "string \<Rightarrow> bool" where "valid_fire_q1a = valid_gate ''cool_fire_q1_alert''"
definition valid_fire_q1c :: "string \<Rightarrow> bool" where "valid_fire_q1c = valid_gate ''cool_fire_q1_critical''"
definition valid_fire_q2a :: "string \<Rightarrow> bool" where "valid_fire_q2a = valid_gate ''cool_fire_q2_alert''"
definition valid_fire_q2c :: "string \<Rightarrow> bool" where "valid_fire_q2c = valid_gate ''cool_fire_q2_critical''"
definition valid_accel_xa :: "string \<Rightarrow> bool" where "valid_accel_xa = valid_gate ''cool_accel_x_alert''"
definition valid_accel_ya :: "string \<Rightarrow> bool" where "valid_accel_ya = valid_gate ''cool_accel_y_alert''"
definition valid_accel_ab :: "string \<Rightarrow> bool" where "valid_accel_ab = valid_gate ''cool_accel_abort''"
definition valid_exhaust_rpm :: "string \<Rightarrow> bool" where "valid_exhaust_rpm = valid_gate ''cool_tach_exhaust_min_rpm''"
definition valid_intake_rpm :: "string \<Rightarrow> bool" where "valid_intake_rpm = valid_gate ''cool_tach_intake_min_rpm''"
definition valid_air_rpm :: "string \<Rightarrow> bool" where "valid_air_rpm = valid_gate ''cool_tach_air_assist_min_rpm''"
definition valid_purge_cur :: "string \<Rightarrow> bool" where "valid_purge_cur = valid_gate ''cool_purge_min_current''"
definition valid_grace_s :: "string \<Rightarrow> bool" where "valid_grace_s = valid_gate ''cool_fan_grace_s''"
definition valid_heater_pct :: "string \<Rightarrow> bool" where "valid_heater_pct = valid_range 0 100"
definition valid_recheck_s :: "string \<Rightarrow> bool" where "valid_recheck_s = valid_range 0 3600"
definition valid_confirm_s :: "string \<Rightarrow> bool" where "valid_confirm_s = valid_range 60 3600"
definition valid_laser_heat :: "string \<Rightarrow> bool" where "valid_laser_heat = valid_range 0 (2 / 10000)"
definition valid_aa_offset :: "string \<Rightarrow> bool" where "valid_aa_offset = valid_range 0 60"
definition valid_cool_s :: "string \<Rightarrow> bool" where "valid_cool_s = valid_range 0 1800"
definition valid_button_s :: "string \<Rightarrow> bool" where "valid_button_s = valid_range 1 3600"
definition valid_disarm_s :: "string \<Rightarrow> bool" where "valid_disarm_s = valid_range 1 3600"
definition valid_floor_pct :: "string \<Rightarrow> bool" where "valid_floor_pct = valid_range 0 100"
definition valid_corner_gamma :: "string \<Rightarrow> bool" where "valid_corner_gamma = valid_range (1 / 4) 4"
definition valid_edge_z :: "string \<Rightarrow> bool" where "valid_edge_z = valid_range (- 20) 20"
definition valid_park_z :: "string \<Rightarrow> bool" where "valid_park_z = valid_range (- 5) 10"
definition valid_stop_steps :: "string \<Rightarrow> bool" where "valid_stop_steps = valid_range 1 40"
definition valid_pulse_ticks :: "string \<Rightarrow> bool" where "valid_pulse_ticks = valid_range 1 1024"
definition valid_settle_s :: "string \<Rightarrow> bool" where "valid_settle_s = valid_range 0 30"
definition valid_lamp :: "string \<Rightarrow> bool" where "valid_lamp = valid_range 0 255"
definition valid_ticks :: "string \<Rightarrow> bool" where "valid_ticks = valid_range 0 30000"
definition valid_hold_s :: "string \<Rightarrow> bool" where "valid_hold_s = valid_range 60 7200"
definition valid_pulse_bytes :: "string \<Rightarrow> bool" where "valid_pulse_bytes = valid_range 0 1073741824"
definition valid_lid_policy :: "string \<Rightarrow> bool" where "valid_lid_policy v \<longleftrightarrow> v = ''cancel'' \<or> v = ''hold''"
definition valid_bool :: "string \<Rightarrow> bool" where "valid_bool v \<longleftrightarrow> v = ''0'' \<or> v = ''1''"

section \<open>The logging keys\<close>

definition level_names :: "string list" where
  "level_names = [''off'', ''error'', ''warning'', ''notice'', ''info'', ''debug'']"

definition logs_valid_level :: "string \<Rightarrow> bool" where
  "logs_valid_level v \<longleftrightarrow> v \<in> set level_names"

definition server_char :: "char \<Rightarrow> bool" where
  "server_char c \<longleftrightarrow> is_alnum c \<or> c = CHR ''.'' \<or> c = CHR ''-'' \<or> c = CHR ''_'' \<or> c = CHR '':''"

definition logs_valid_server :: "string \<Rightarrow> bool" where
  "logs_valid_server v \<longleftrightarrow> 1 \<le> length v \<and> length v \<le> 128 \<and> list_all server_char v"

definition logs_valid_port :: "string \<Rightarrow> bool" where
  "logs_valid_port v \<longleftrightarrow> length v \<le> 5 \<and>
     (let (t, e) = strtol10 v in length e \<noteq> length v \<and> e = [] \<and> 1 \<le> t \<and> t \<le> 65535)"

definition logs_valid_proto :: "string \<Rightarrow> bool" where
  "logs_valid_proto v \<longleftrightarrow> v = ''udp'' \<or> v = ''tcp''"

section \<open>The table\<close>

definition setting_defs :: "(string \<times> (string \<Rightarrow> bool) \<times> bool) list" where
  "setting_defs =
     [(''controller_mode'', valid_controller_mode, False),
      (''homing_mode'', valid_homing_mode, False),
      (''gfcloud_home_x'', valid_mm, False),
      (''gfcloud_home_y'', valid_mm, False),
      (''manual_home_x'', valid_mm_nonneg, False),
      (''manual_home_y'', valid_mm_nonneg, False),
      (''envelope_x_mm'', valid_envelope, False),
      (''envelope_y_mm'', valid_envelope, False),
      (''gfcloud_home_timeout_s'', valid_timeout, False),
      (''gf_serial'', valid_serial, False),
      (''gf_password'', valid_password, True),
      (''ui_units'', valid_units, False),
      (''wifi_country'', valid_country, False),
      (''cool_flow_rise'', valid_rise_c, False),
      (''cool_flow_heater_pct'', valid_heater_pct, False),
      (''cool_flow_check_s'', valid_check_s, False),
      (''cool_recheck_s'', valid_recheck_s, False),
      (''cool_confirm_max_s'', valid_confirm_s, False),
      (''cool_laser_heat_cw'', valid_laser_heat, False),
      (''cool_laser_heat_density'', valid_laser_heat, False),
      (''cool_aa_offset_counts'', valid_aa_offset, False),
      (''cool_temp_max'', valid_temp_max, False),
      (''cool_temp_resume'', valid_temp_resume, False),
      (''cool_temp_critical_c'', valid_temp_critical, False),
      (''cool_temp_min'', valid_temp_min, False),
      (''cool_temp_start'', valid_temp_start, False),
      (''cool_tec_present'', valid_tec_present, False),
      (''cool_temp_offset_c'', valid_temp_offset, False),
      (''cool_tec_on_c'', valid_tec_on, False),
      (''cool_tec_off_c'', valid_tec_off, False),
      (''cool_fire_q1_alert'', valid_fire_q1a, False),
      (''cool_fire_q1_critical'', valid_fire_q1c, False),
      (''cool_fire_q2_alert'', valid_fire_q2a, False),
      (''cool_fire_q2_critical'', valid_fire_q2c, False),
      (''cool_accel_x_alert'', valid_accel_xa, False),
      (''cool_accel_y_alert'', valid_accel_ya, False),
      (''cool_accel_abort'', valid_accel_ab, False),
      (''cool_cooldown_s'', valid_cool_s, False),
      (''cool_cooldown_max_s'', valid_cool_s, False),
      (''cool_tach_exhaust_min_rpm'', valid_exhaust_rpm, False),
      (''cool_tach_intake_min_rpm'', valid_intake_rpm, False),
      (''cool_intake_fans'', valid_intake_fans, False),
      (''cool_tach_air_assist_min_rpm'', valid_air_rpm, False),
      (''cool_purge_min_current'', valid_purge_cur, False),
      (''cool_fan_grace_s'', valid_grace_s, False),
      (''laser_button_timeout_s'', valid_button_s, False),
      (''laser_disarm_s'', valid_disarm_s, False),
      (''laser_floor_density'', valid_floor_pct, False),
      (''laser_dose_curve'', valid_dose_curve, False),
      (''laser_corner_gamma'', valid_corner_gamma, False),
      (''lens_hall_edge_z_mm'', valid_edge_z, False),
      (''lens_park_z_mm'', valid_park_z, False),
      (''lens_stop_below_steps'', valid_stop_steps, False),
      (''lens_stop_above_steps'', valid_stop_steps, False),
      (''tray_offset_mm'', tray_offset_valid, False),
      (''laser_pulse_ticks'', valid_pulse_ticks, False),
      (''laser_pulse_min_ticks'', valid_pulse_ticks, False),
      (''rail_settle_s'', valid_settle_s, False),
      (''lid_lamp_idle'', valid_lamp, False),
      (''cloud_pause_backtrack_ticks'', valid_ticks, False),
      (''cloud_resume_lead_ticks'', valid_ticks, False),
      (''cloud_hold_max_s'', valid_hold_s, False),
      (''pulse_warn_threshold_bytes'', valid_pulse_bytes, False),
      (''pulse_reject_threshold_bytes'', valid_pulse_bytes, False),
      (''lid_policy'', valid_lid_policy, False),
      (''xy_microsteps'', valid_xy_microsteps, False),
      (''cloud_enabled'', valid_bool, False),
      (''ext_enabled'', valid_bool, False),
      (''panel_open_reads'', valid_bool, False),
      (''log_forgectrl_disk'', logs_valid_level, False),
      (''log_forgectrl_remote'', logs_valid_level, False),
      (''log_grblhal_disk'', logs_valid_level, False),
      (''log_grblhal_remote'', logs_valid_level, False),
      (''log_gfcloud_disk'', logs_valid_level, False),
      (''log_gfcloud_remote'', logs_valid_level, False),
      (''log_gfhome_disk'', logs_valid_level, False),
      (''log_gfhome_remote'', logs_valid_level, False),
      (''log_forgeext_disk'', logs_valid_level, False),
      (''log_forgeext_remote'', logs_valid_level, False),
      (''log_kernel_disk'', logs_valid_level, False),
      (''log_kernel_remote'', logs_valid_level, False),
      (''log_system_disk'', logs_valid_level, False),
      (''log_system_remote'', logs_valid_level, False),
      (''syslog_server'', logs_valid_server, False),
      (''syslog_port'', logs_valid_port, False),
      (''syslog_proto'', logs_valid_proto, False)]"

text \<open>The key's own validator; an empty value clears any of them.\<close>

definition setting_valid :: "string option \<Rightarrow> string option \<Rightarrow> bool" where
  "setting_valid key val =
     (case (key, val) of
        (Some k, Some v) \<Rightarrow> (case map_of setting_defs k of None \<Rightarrow> False | Some (ok, _) \<Rightarrow> v = [] \<or> ok v)
      | _ \<Rightarrow> False)"

text \<open>The settings as text for the log export: a value that is not valid shows as unset, a secret as set or not.\<close>

definition snapshot_value :: "string option \<Rightarrow> string \<times> (string \<Rightarrow> bool) \<times> bool \<Rightarrow> string" where
  "snapshot_value conf d =
     (let (key, ok, secret) = d;
          val = (case settings_get 192 key conf of None \<Rightarrow> None | Some v \<Rightarrow> if ok v then Some v else None)
      in if secret then (if val = None then ''<unset>'' else ''<set>'') else (case val of None \<Rightarrow> [] | Some v \<Rightarrow> v))"

definition settings_snapshot :: "string option \<Rightarrow> string" where
  "settings_snapshot conf = concat (map (\<lambda>d. fst d @ '' = '' @ snapshot_value conf d @ [newline]) setting_defs)"

section \<open>Facts about the table\<close>

lemma setting_keys_distinct: "distinct (map fst setting_defs)"
  by code_simp

definition key_char :: "char \<Rightarrow> bool" where
  "key_char c \<longleftrightarrow> is_lower c \<or> is_digit c \<or> c = CHR ''_''"

lemma setting_keys_plain: "list_all (\<lambda>d. list_all key_char (fst d) \<and> fst d \<noteq> [] \<and> length (fst d) < 32) setting_defs"
  by code_simp

lemma key_charD: "key_char c \<Longrightarrow> \<not> is_cspace c \<and> c \<noteq> CHR ''='' \<and> c \<noteq> CHR ''#'' \<and> c \<noteq> newline \<and> c \<noteq> CHR 0x00"
  by (auto simp: key_char_def is_lower_def is_digit_def is_cspace_def byte_def)

text \<open>A key of the table with a trimmed, one-line value that fits is a line the settings file takes.\<close>

lemma table_writable:
  assumes "k \<in> fst ` set setting_defs" "trimmed v" "one_line v" "length v < 192"
  shows "writable (k, v)"
proof -
  have k: "list_all key_char k" "k \<noteq> []" "length k < 32"
    using assms(1) setting_keys_plain by (auto simp: list_all_iff)
  have c: "key_char (hd k)" "key_char (last k)" using k by (auto simp: list_all_iff)
  show ?thesis
    using k assms key_charD [OF c(1)] key_charD [OF c(2)] key_charD
    by (fastforce simp: writable_def trimmed_def one_line_def list_all_iff)
qed

end
