(* ===== verification/Setpost.thy ===== *)
theory Setpost
  imports Setdefs Lease
begin

text \<open>
  The settings route (\<open>src/main.c\<close>, \<open>cb_settings_post\<close>): what a request is refused for, in the code's
  order, and the one write of what is left of it. A request gives each parameter from its form or
  else from its query. The judgement reads the settings file and the write replaces it; no lock spans
  the two, so they are two steps here, and two requests may interleave between them. What the rest of
  the daemon answers (the write guard, the lease, whether the machine is idle, the tray's marker, the
  running controller, the hash of the extensions advisory, a file that can be written) is the world
  of the request.
\<close>

record settings_req =
  rq_form :: params
  rq_query :: params

definition setting_param :: "settings_req \<Rightarrow> params" where
  "setting_param rq key = (case rq_form rq key of Some v \<Rightarrow> Some v | None \<Rightarrow> rq_query rq key)"

record settings_world =
  sw_write_ok :: bool
  sw_lease :: lease
  sw_idle :: bool
  sw_ext_hash :: string
  sw_tray_out :: bool
  sw_grbl :: bool
  sw_records :: bool
  sw_io :: bool

definition wiz_cloud_phrase :: string where "wiz_cloud_phrase = ''I UNDERSTAND''"
definition ext_phrase :: string where "ext_phrase = ''I UNDERSTAND''"
definition xy_microsteps_unset :: string where "xy_microsteps_unset = ''32''"

section \<open>The effective value of a gate setting\<close>

definition effective_temp :: "params \<Rightarrow> string option \<Rightarrow> string \<Rightarrow> dbl" where
  "effective_temp p conf key =
     (let dflt = (case gate_setting_find (Some key) of Some g \<Rightarrow> Fin (gdef g) | None \<Rightarrow> Fin 0) in
      case p key of
        Some v \<Rightarrow> if v \<noteq> [] then fst (strtod v) else dflt
      | None \<Rightarrow>
          (case settings_get 128 key conf of
             Some s \<Rightarrow> if s \<noteq> [] then fst (strtod s) else dflt
           | None \<Rightarrow> dflt))"

definition stored_temp :: "string option \<Rightarrow> string \<Rightarrow> dbl" where
  "stored_temp conf key = effective_temp (\<lambda>_. None) conf key"

section \<open>The relations between gates\<close>

text \<open>\<open>gate_critical_refused\<close> of \<open>Gates\<close> on what a hand-edited file may make of a value.\<close>

definition ceiling_off :: "dbl \<Rightarrow> bool" where
  "ceiling_off tmax \<longleftrightarrow>
     (case gate_setting_find (Some ''cool_temp_max'') of None \<Rightarrow> False | Some g \<Rightarrow> goff_end g > 0 \<and> d_le (Fin (ghi g)) tmax)"

definition critical_refused :: "dbl \<Rightarrow> dbl \<Rightarrow> bool" where
  "critical_refused tmax tcrit \<longleftrightarrow> \<not> ceiling_off tmax \<and> d_le tcrit tmax"

definition low_off :: "string \<Rightarrow> dbl \<Rightarrow> bool" where
  "low_off key t \<longleftrightarrow> (case gate_setting_find (Some key) of None \<Rightarrow> False | Some g \<Rightarrow> d_le t (Fin (glo g)))"

definition fire_refused :: "dbl \<Rightarrow> dbl \<Rightarrow> bool" where
  "fire_refused a c \<longleftrightarrow> d_lt (Fin 0) a \<and> d_lt (Fin 0) c \<and> d_le c a"

text \<open>The words of the first relation that does not hold among the values given.\<close>

definition temps_refused :: "(string \<Rightarrow> dbl) \<Rightarrow> string option" where
  "temps_refused t =
     (let tmax = t ''cool_temp_max''; tmin = t ''cool_temp_min''; tstart = t ''cool_temp_start'';
          floor_off = low_off ''cool_temp_min'' tmin; start_off = low_off ''cool_temp_start'' tstart in
      if d_le tmax (t ''cool_temp_resume'') then Some ''cool_temp_resume must be below cool_temp_max''
      else if critical_refused tmax (t ''cool_temp_critical_c'')
      then Some ''cool_temp_critical_c must be above cool_temp_max''
      else if \<not> floor_off \<and> \<not> start_off \<and> d_le tstart tmin
      then Some ''cool_temp_min must be below cool_temp_start''
      else if \<not> floor_off \<and> \<not> ceiling_off tmax \<and> d_le tmax tmin
      then Some ''cool_temp_min must be below cool_temp_max''
      else if d_le (t ''cool_tec_on_c'') (t ''cool_tec_off_c'')
      then Some ''cool_tec_off_c must be below cool_tec_on_c''
      else if fire_refused (t ''cool_fire_q1_alert'') (t ''cool_fire_q1_critical'')
      then Some ''cool_fire_q1_alert must be below cool_fire_q1_critical''
      else if fire_refused (t ''cool_fire_q2_alert'') (t ''cool_fire_q2_critical'')
      then Some ''cool_fire_q2_alert must be below cool_fire_q2_critical''
      else None)"

section \<open>The judgement\<close>

definition first_invalid :: "params \<Rightarrow> string option" where
  "first_invalid p =
     map_option fst (find (\<lambda>(k, ok, _). case p k of None \<Rightarrow> False | Some v \<Rightarrow> v \<noteq> [] \<and> \<not> ok v) setting_defs)"

definition ext_turns_on :: "params \<Rightarrow> string option \<Rightarrow> bool" where
  "ext_turns_on p conf \<longleftrightarrow> p ''ext_enabled'' = Some ''1'' \<and> \<not> settings_get_bool ''ext_enabled'' False conf"

definition cloud_turns_on :: "params \<Rightarrow> string option \<Rightarrow> bool" where
  "cloud_turns_on p conf \<longleftrightarrow> p ''cloud_enabled'' = Some ''1'' \<and> \<not> settings_get_bool ''cloud_enabled'' False conf"

definition microsteps_change :: "params \<Rightarrow> string option \<Rightarrow> bool" where
  "microsteps_change p conf \<longleftrightarrow>
     (case p ''xy_microsteps'' of None \<Rightarrow> False
      | Some xm \<Rightarrow>
          (case settings_get 16 ''xy_microsteps'' conf of Some c \<Rightarrow> c | None \<Rightarrow> xy_microsteps_unset) \<noteq>
          (if xm \<noteq> [] then xm else xy_microsteps_unset))"

definition request_kvs :: "params \<Rightarrow> (string \<times> string) list" where
  "request_kvs p = concat (map (\<lambda>(k, _). case p k of None \<Rightarrow> [] | Some v \<Rightarrow> [(k, v)]) setting_defs)"

text \<open>What a request that is found good asks for: the keys to write, whether the extensions advisory is to be
  recorded first, whether the controller is to be restarted.\<close>

record settings_job =
  sj_kvs :: "(string \<times> string) list"
  sj_accept :: bool
  sj_restart :: bool

definition post_judge :: "settings_world \<Rightarrow> params \<Rightarrow> string option \<Rightarrow> (nat \<times> string) + settings_job" where
  "post_judge w p conf =
     (if \<not> sw_write_ok w then Inl (403, [])
      else case lease_refusal_locks (sw_lease w) of
        Some held \<Rightarrow> Inl (409, fit 160 (fit 160 held @ '' - settings are locked''))
      | None \<Rightarrow>
        if \<not> sw_idle w then Inl (409, ''machine is not idle - settings are locked'')
        else case first_invalid p of
          Some k \<Rightarrow> Inl (400, fit 96 (''invalid value for '' @ k))
        | None \<Rightarrow>
          if request_kvs p = [] then Inl (400, ''no known setting in request'')
          else if ext_turns_on p conf \<and> p ''advisory'' \<noteq> Some (sw_ext_hash w)
          then Inl (409, ''read the Extensions advisory first: turning extensions on agrees to it'')
          else if ext_turns_on p conf \<and> p ''phrase'' \<noteq> Some ext_phrase
          then Inl (400, ''type I UNDERSTAND to turn extensions on'')
          else case tray_offset_refusal (sw_tray_out w) (p ''tray_offset_mm'') conf 128 of
            Some why \<Rightarrow> Inl (409, why)
          | None \<Rightarrow>
            if cloud_turns_on p conf \<and> p ''phrase'' \<noteq> Some wiz_cloud_phrase
            then Inl (400, ''type I UNDERSTAND to turn cloud mode on'')
            else case builtin_request_refused p conf of
              Some why \<Rightarrow> Inl (409, why)
            | None \<Rightarrow>
              (case temps_refused (effective_temp p conf) of
                 Some why \<Rightarrow> Inl (400, why)
               | None \<Rightarrow>
                   Inr \<lparr>sj_kvs = request_kvs p @ builtin_request_sweep p conf 4, sj_accept = ext_turns_on p conf,
                        sj_restart = (microsteps_change p conf \<and> sw_grbl w)\<rparr>))"

text \<open>The write: the answer, whether the controller is restarted after it, and the file.\<close>

datatype settings_answer = Settings_Refused nat string | Settings_Written bool

definition post_write :: "settings_world \<Rightarrow> settings_job \<Rightarrow> string option \<Rightarrow> settings_answer \<times> string option" where
  "post_write w job conf =
     (if sj_accept job \<and> \<not> sw_records w then (Settings_Refused 500 ''cannot record the acceptance'', conf)
      else let (done1, conf') = settings_set_many (sj_kvs job) (sw_io w) conf
           in if \<not> done1 then (Settings_Refused 500 ''cannot write settings file'', conf')
              else (Settings_Written (sj_restart job), conf'))"

definition cb_settings_post :: "settings_world \<Rightarrow> settings_req \<Rightarrow> string option \<Rightarrow> settings_answer \<times> string option" where
  "cb_settings_post w rq conf =
     (case post_judge w (setting_param rq) conf of
        Inl (status, why) \<Rightarrow> (Settings_Refused status why, conf)
      | Inr job \<Rightarrow> post_write w job conf)"

end
