(* ===== verification/SetpostProps.thy ===== *)
theory SetpostProps
  imports Setpost
begin

text \<open>
  What an accepted settings request leaves behind: gates that hold together, values that are of their
  key's kind, nothing that points at a cloud that is off. And the two ways around it: a key cleared
  instead of set, and two requests at once.
\<close>

section \<open>What a reader sees after a request\<close>

text \<open>A request whose values are one trimmed line each, no longer than the route's own buffers.\<close>

definition tame :: "params \<Rightarrow> bool" where
  "tame p \<longleftrightarrow> list_all (\<lambda>d. case p (fst d) of None \<Rightarrow> True
     | Some v \<Rightarrow> trimmed v \<and> one_line v \<and> (length v < 128 \<or> fst d = ''laser_dose_curve'')) setting_defs"

lemma map_of_request: "map_of (request_kvs p) k = (if k \<in> fst ` set setting_defs then p k else None)"
proof -
  have "map_of (concat (map (\<lambda>(k, _). case p k of None \<Rightarrow> [] | Some v \<Rightarrow> [(k, v)]) ds)) k =
      (if k \<in> fst ` set ds then p k else None)" for ds :: "(string \<times> (string \<Rightarrow> bool) \<times> bool) list"
    by (induction ds) (auto simp: map_add_def split: option.splits)
  then show ?thesis by (simp add: request_kvs_def)
qed

lemma request_keys: "k \<in> fst ` set (request_kvs p) \<longleftrightarrow> k \<in> fst ` set setting_defs \<and> p k \<noteq> None"
  using map_of_request [of p k] map_of_eq_None_iff [of "request_kvs p" k] by (metis (full_types))

lemma fst_inI: "(k, x) \<in> set ds \<Longrightarrow> k \<in> fst ` set ds"
  by force

lemma request_of_distinct:
  "distinct (map fst ds) \<Longrightarrow> distinct (map fst (concat (map (\<lambda>(k, _). case p k of None \<Rightarrow> [] | Some v \<Rightarrow> [(k, v)]) ds)))"
proof (induction ds)
  case (Cons d ds)
  have "fst ` set (concat (map (\<lambda>(k, _). case p k of None \<Rightarrow> [] | Some v \<Rightarrow> [(k, v)]) ds)) \<subseteq> fst ` set ds"
    by (force split: option.splits)
  then show ?case using Cons by (cases d; cases "p (fst d)") (auto dest: fst_inI)
qed simp

lemma request_distinct: "distinct (map fst (request_kvs p))"
  unfolding request_kvs_def by (rule request_of_distinct) (rule setting_keys_distinct)

definition job_kvs :: "params \<Rightarrow> string option \<Rightarrow> (string \<times> string) list" where
  "job_kvs p conf = request_kvs p @ builtin_request_sweep p conf 4"

lemma job_distinct: "distinct (map fst (job_kvs p conf))"
proof -
  have "fst ` set (request_kvs p) \<inter> fst ` set (builtin_request_sweep p conf 4) = {}"
    using request_keys [of _ p] sweep_keys [of _ p conf 4] by blast
  then show ?thesis using request_distinct sweep_distinct by (simp add: job_kvs_def)
qed

lemma map_of_job:
  "map_of (job_kvs p conf) k =
     (if k \<in> fst ` set setting_defs \<and> p k \<noteq> None then p k else map_of (builtin_request_sweep p conf 4) k)"
  by (auto simp: job_kvs_def map_add_def map_of_request split: option.splits)

lemma first_invalidD:
  assumes "first_invalid p = None" "(k, ok, s) \<in> set setting_defs" "p k = Some v" "v \<noteq> []"
  shows "ok v"
proof -
  have "find (\<lambda>(k, ok, _). case p k of None \<Rightarrow> False | Some v \<Rightarrow> v \<noteq> [] \<and> \<not> ok v) setting_defs = None"
    using assms(1) by (simp add: first_invalid_def)
  then have "\<not> (case (k, ok, s) of (k, ok, _) \<Rightarrow> case p k of None \<Rightarrow> False | Some v \<Rightarrow> v \<noteq> [] \<and> \<not> ok v)"
    using assms(2) unfolding find_None_iff by blast
  then show ?thesis using assms(3,4) by simp
qed

lemma table_at:
  "map_of setting_defs ''homing_mode'' = Some (valid_homing_mode, False)"
  "map_of setting_defs ''controller_mode'' = Some (valid_controller_mode, False)"
  "map_of setting_defs ''cloud_enabled'' = Some (valid_bool, False)"
  "map_of setting_defs ''laser_dose_curve'' = Some (valid_dose_curve, False)"
  by (simp_all add: setting_defs_def)

lemma table_only: "map_of setting_defs k = Some (ok, s) \<Longrightarrow> (k, ok', s') \<in> set setting_defs \<Longrightarrow> ok' = ok"
  using map_of_is_SomeI [OF setting_keys_distinct, of k "(ok', s')"] by (metis option.inject prod.inject)

text \<open>What is accepted was of its key's kind and is a value the file takes.\<close>

lemma accepted_value:
  assumes "tame p" "first_invalid p = None" "k \<in> fst ` set setting_defs" "p k = Some v"
  shows "writable (k, v)" "length v < 192"
proof -
  obtain ok s where d: "(k, ok, s) \<in> set setting_defs" using assms(3) by auto
  have t: "trimmed v" "one_line v" "length v < 128 \<or> k = ''laser_dose_curve''"
    using assms(1,4) d by (force simp: tame_def list_all_iff)+
  show l: "length v < 192"
  proof (cases "k = ''laser_dose_curve'' \<and> v \<noteq> []")
    case True
    then have "valid_dose_curve v"
      using first_invalidD [OF assms(2) d assms(4)] table_only [OF table_at(4), of ok s] d by blast
    then show ?thesis by (simp add: valid_dose_curve_def)
  qed (use t in auto)
  show "writable (k, v)" by (rule table_writable) (use assms(3) t l in auto)
qed

lemma job_writable:
  assumes "tame p" "first_invalid p = None"
  shows "list_all writable (job_kvs p conf)"
proof -
  have "writable (k, v)" if "(k, v) \<in> set (request_kvs p)" for k v
  proof -
    have "k \<in> fst ` set setting_defs" "p k = Some v"
      using that by (auto simp: request_kvs_def split: option.splits dest: fst_inI)
    then show ?thesis using accepted_value [OF assms] by blast
  qed
  moreover have "writable kv" if "kv \<in> set (builtin_request_sweep p conf 4)" for kv
  proof -
    have "kv \<in> {(''homing_mode'', ''none''), (''controller_mode'', ''grbl'')}"
      using that by (auto simp: builtin_request_sweep_def builtin_exts_def cloud_roles_def dest!: in_set_takeD split: if_splits)
    moreover have "list_all writable [(''homing_mode'', ''none''), (''controller_mode'', ''grbl'')]" by code_simp
    ultimately show ?thesis by (auto simp: list_all_iff)
  qed
  ultimately show ?thesis by (force simp: job_kvs_def list_all_iff)
qed

lemma judged:
  assumes "post_judge w p conf = Inr job"
  shows "first_invalid p = None" "builtin_request_refused p conf = None" "temps_refused (effective_temp p conf) = None"
    "sj_kvs job = job_kvs p conf"
  using assms by (auto simp: post_judge_def job_kvs_def split: if_splits option.splits)

text \<open>The file after an accepted request, as its readers see it.\<close>

lemma post_after:
  assumes "conf_lines conf ls" "length ls \<le> file_max_lines" "tame (setting_param rq)"
    and "cb_settings_post w rq conf = (Settings_Written r, conf')"
  obtains job where "post_judge w (setting_param rq) conf = Inr job"
    and "\<And>len k. settings_get len k conf' =
      (case map_of (job_kvs (setting_param rq) conf) k of None \<Rightarrow> settings_get len k conf
       | Some v \<Rightarrow> if v = [] then None else Some (fit len v))"
proof -
  let ?p = "setting_param rq"
  obtain job where j: "post_judge w ?p conf = Inr job" and wr: "post_write w job conf = (Settings_Written r, conf')"
    using assms(4) by (auto simp: cb_settings_post_def split: sum.splits)
  have "settings_set_many (job_kvs ?p conf) (sw_io w) conf = (True, conf')"
    using wr judged(4) [OF j] by (auto simp: post_write_def Let_def split: if_splits prod.splits)
  from update_conf [OF assms(1,2) job_distinct job_writable [OF assms(3) judged(1) [OF j]] this] j
  show ?thesis using that by blast
qed

section \<open>The gates\<close>

definition temps_ok :: "string option \<Rightarrow> bool" where
  "temps_ok conf \<longleftrightarrow> temps_refused (stored_temp conf) = None"

definition temp_keys :: "string list" where
  "temp_keys = [''cool_temp_max'', ''cool_temp_resume'', ''cool_temp_critical_c'', ''cool_temp_min'', ''cool_temp_start'',
     ''cool_tec_on_c'', ''cool_tec_off_c'', ''cool_fire_q1_alert'', ''cool_fire_q1_critical'', ''cool_fire_q2_alert'',
     ''cool_fire_q2_critical'']"

lemma temp_keys_known:
  "list_all (\<lambda>k. k \<in> set (map fst setting_defs) \<and> k \<notin> {''homing_mode'', ''controller_mode'', ''laser_dose_curve''}) temp_keys"
  by code_simp

lemma temps_refused_cong: "(\<And>k. k \<in> set temp_keys \<Longrightarrow> t k = t' k) \<Longrightarrow> temps_refused t = temps_refused t'"
proof -
  assume "\<And>k. k \<in> set temp_keys \<Longrightarrow> t k = t' k"
  then have "list_all (\<lambda>k. t k = t' k) temp_keys" by (simp add: list_all_iff)
  then show ?thesis unfolding temp_keys_def temps_refused_def Let_def by (simp cong: if_cong)
qed

lemma stored_after:
  assumes "tame p" "k \<in> set temp_keys"
    and g: "\<And>len. settings_get len k conf' = (case map_of (job_kvs p conf) k of None \<Rightarrow> settings_get len k conf
       | Some v \<Rightarrow> if v = [] then None else Some (fit len v))"
  shows "stored_temp conf' k = effective_temp p conf k"
proof -
  have k: "k \<in> fst ` set setting_defs" "k \<noteq> ''laser_dose_curve''" "k \<notin> {''homing_mode'', ''controller_mode''}"
    using temp_keys_known assms(2) by (auto simp: list_all_iff)
  then have "map_of (builtin_request_sweep p conf 4) k = None"
    using sweep_keys [of k p conf 4] by (auto simp: map_of_eq_None_iff)
  then have m: "map_of (job_kvs p conf) k = p k" using k(1) by (simp add: map_of_job split: option.splits)
  have "fit 128 v = v" if "p k = Some v" for v
  proof (rule fit_id)
    show "length v < 128" using assms(1) k that by (force simp: tame_def list_all_iff)
  qed
  then show ?thesis
    by (simp add: stored_temp_def effective_temp_def g m split: option.splits)
qed

lemma gate_finds:
  "gate_setting_find (Some ''cool_temp_max'') = Some (row ''cool_temp_max'' (Some ''coolant_max'') 33 5 60 25 38 1)"
  "gate_setting_find (Some ''cool_temp_resume'') = Some (row ''cool_temp_resume'' None 31 5 59 20 36 0)"
  "gate_setting_find (Some ''cool_temp_critical_c'') = Some (row ''cool_temp_critical_c'' (Some ''coolant_critical'') 38 6 70 36 45 1)"
  "gate_setting_find (Some ''cool_temp_min'') = Some (row ''cool_temp_min'' (Some ''coolant_min'') 5 0 40 3 8 (-1))"
  "gate_setting_find (Some ''cool_temp_start'') = Some (row ''cool_temp_start'' (Some ''warm_up'') 16 0 40 12 20 (-1))"
  "gate_setting_find (Some ''cool_tec_on_c'') = Some (row ''cool_tec_on_c'' None 20 6 32 18 24 0)"
  "gate_setting_find (Some ''cool_tec_off_c'') = Some (row ''cool_tec_off_c'' None 18 5 31 16 22 0)"
  "gate_setting_find (Some ''cool_fire_q1_alert'') = Some (row ''cool_fire_q1_alert'' (Some ''flame_q1_alert'') 275 0 1023 250 450 (-1))"
  "gate_setting_find (Some ''cool_fire_q1_critical'') = Some (row ''cool_fire_q1_critical'' (Some ''flame_q1_critical'') 688 0 1023 500 1023 (-1))"
  "gate_setting_find (Some ''cool_fire_q2_alert'') = Some (row ''cool_fire_q2_alert'' (Some ''flame_q2_alert'') 374 0 1023 300 500 (-1))"
  "gate_setting_find (Some ''cool_fire_q2_critical'') = Some (row ''cool_fire_q2_critical'' (Some ''flame_q2_critical'') 1022 0 1023 500 1023 (-1))"
  by (simp_all add: gate_setting_find_def gate_table_def row_def)

text \<open>The gates hold together, as the engine reads them from the file: each relation between two gates that are
  on, by the values their off ends have.\<close>

definition gates_hold :: "string option \<Rightarrow> bool" where
  "gates_hold conf \<longleftrightarrow>
     (let t = stored_temp conf; ceiling = (\<not> d_le (Fin 60) (t ''cool_temp_max''));
          floor_on = (\<not> d_le (t ''cool_temp_min'') (Fin 0)); start_on = (\<not> d_le (t ''cool_temp_start'') (Fin 0)) in
      \<not> d_le (t ''cool_temp_max'') (t ''cool_temp_resume'') \<and>
      \<not> (ceiling \<and> d_le (t ''cool_temp_critical_c'') (t ''cool_temp_max'')) \<and>
      \<not> (floor_on \<and> start_on \<and> d_le (t ''cool_temp_start'') (t ''cool_temp_min'')) \<and>
      \<not> (floor_on \<and> ceiling \<and> d_le (t ''cool_temp_max'') (t ''cool_temp_min'')) \<and>
      \<not> d_le (t ''cool_tec_on_c'') (t ''cool_tec_off_c'') \<and>
      \<not> (d_lt (Fin 0) (t ''cool_fire_q1_alert'') \<and> d_lt (Fin 0) (t ''cool_fire_q1_critical'') \<and>
         d_le (t ''cool_fire_q1_critical'') (t ''cool_fire_q1_alert'')) \<and>
      \<not> (d_lt (Fin 0) (t ''cool_fire_q2_alert'') \<and> d_lt (Fin 0) (t ''cool_fire_q2_critical'') \<and>
         d_le (t ''cool_fire_q2_critical'') (t ''cool_fire_q2_alert'')))"

lemma accepted_gates_hold: "temps_ok conf \<Longrightarrow> gates_hold conf"
  unfolding gates_hold_def temps_ok_def temps_refused_def Let_def
  by (auto simp: critical_refused_def ceiling_off_def low_off_def fire_refused_def gate_finds row_def split: if_splits)


section \<open>The kinds\<close>

text \<open>Every key of the table that the file sets has a value of its kind.\<close>

definition typed :: "string option \<Rightarrow> bool" where
  "typed conf \<longleftrightarrow> list_all (\<lambda>(k, ok, _). case settings_get 192 k conf of None \<Rightarrow> True | Some v \<Rightarrow> ok v) setting_defs"


section \<open>The cloud\<close>

text \<open>Cloud mode is on, or nothing selects it.\<close>

definition cloud_ok :: "string option \<Rightarrow> bool" where
  "cloud_ok conf \<longleftrightarrow> settings_get_bool ''cloud_enabled'' False conf \<or>
     settings_get 32 ''homing_mode'' conf \<noteq> Some ''gfcloud'' \<and> settings_get 32 ''controller_mode'' conf \<noteq> Some ''cloud''"

lemma refused_none:
  "builtin_request_refused p conf = None \<longleftrightarrow>
     ((case p ''cloud_enabled'' of None \<Rightarrow> settings_get_bool ''cloud_enabled'' False conf
       | Some v \<Rightarrow> if v \<noteq> [] then v = ''1'' else settings_get_bool ''cloud_enabled'' False conf) \<or>
      p ''homing_mode'' \<noteq> Some ''gfcloud'' \<and> p ''controller_mode'' \<noteq> Some ''cloud'')"
  by (auto simp: builtin_request_refused_def builtin_exts_def cloud_roles_def enabled_after_def builtin_enabled_def
      role_refused_def split: option.splits)

lemma table_has: "''homing_mode'' \<in> fst ` set setting_defs" "''controller_mode'' \<in> fst ` set setting_defs"
  "''cloud_enabled'' \<in> fst ` set setting_defs"
  using table_at by (metis map_of_SomeD fst_inI)+

text \<open>
  Nothing points at a cloud that is off: where that held before an accepted request it holds after it,
  for a request that sets the enable to on or to off or leaves it alone.
\<close>

theorem post_keeps_cloud:
  assumes "conf_lines conf ls" "length ls \<le> file_max_lines" "tame (setting_param rq)"
    and "cb_settings_post w rq conf = (Settings_Written r, conf')"
    and "cloud_ok conf" and "setting_param rq ''cloud_enabled'' \<noteq> Some []"
  shows "cloud_ok conf'"
proof -
  let ?p = "setting_param rq"
  obtain job where j: "post_judge w ?p conf = Inr job"
    and g: "\<And>len k. settings_get len k conf' = (case map_of (job_kvs ?p conf) k of None \<Rightarrow> settings_get len k conf
       | Some v \<Rightarrow> if v = [] then None else Some (fit len v))"
    using post_after [OF assms(1-4)] by blast
  note fi = judged(1) [OF j] and rf = judged(2) [OF j, unfolded refused_none]
  have sent: "settings_get 32 k conf' = (if v = [] then None else Some v)"
    if k: "k \<in> {''homing_mode'', ''controller_mode''}" and v: "?p k = Some v" for k v
  proof -
    have m: "map_of (job_kvs ?p conf) k = Some v" using k v table_has by (auto simp: map_of_job)
    have "v = [] \<or> valid_homing_mode v \<or> valid_controller_mode v"
      using k v first_invalidD [OF fi map_of_SomeD [OF table_at(1)]] first_invalidD [OF fi map_of_SomeD [OF table_at(2)]] by auto
    then have "fit 32 v = v" by (auto simp: valid_homing_mode_def valid_controller_mode_def fit_def)
    then show ?thesis using m g by simp
  qed
  have kept: "settings_get 32 k conf' = (case map_of (builtin_request_sweep ?p conf 4) k of None \<Rightarrow> settings_get 32 k conf
       | Some v \<Rightarrow> if v = [] then None else Some (fit 32 v))" if "?p k = None" for k
    using that g by (simp add: map_of_job)
  show ?thesis
  proof (cases "?p ''cloud_enabled''")
    case None
    then have "map_of (builtin_request_sweep ?p conf 4) k = None" for k
      by (simp add: builtin_request_sweep_def builtin_exts_def)
    then have same: "settings_get len ''cloud_enabled'' conf' = settings_get len ''cloud_enabled'' conf"
      and other: "?p k = None \<Longrightarrow> settings_get 32 k conf' = settings_get 32 k conf" for len k
      using g None kept by (simp_all add: map_of_job)
    show ?thesis
    proof (cases "settings_get_bool ''cloud_enabled'' False conf")
      case True
      then show ?thesis using same by (simp add: cloud_ok_def settings_get_bool_def)
    next
      case False
      then have "settings_get 32 k conf' \<noteq> Some u"
        if "(k, u) \<in> {(''homing_mode'', ''gfcloud''), (''controller_mode'', ''cloud'')}" for k u
        using that rf None assms(5) sent [of k] other [of k] by (cases "?p k") (auto simp: cloud_ok_def split: if_splits)
      then show ?thesis by (auto simp: cloud_ok_def)
    qed
  next
    case (Some v)
    then have v: "v \<noteq> []" "v = ''0'' \<or> v = ''1''"
      using assms(6) first_invalidD [OF fi map_of_SomeD [OF table_at(3)]] by (auto simp: valid_bool_def)
    have on: "settings_get 8 ''cloud_enabled'' conf' = Some v"
      using Some v g [of 8 "''cloud_enabled''"] table_has(3) by (auto simp: map_of_job fit_def)
    show ?thesis
    proof (cases "v = ''1''")
      case True
      then show ?thesis using on by (simp add: cloud_ok_def settings_get_bool_def)
    next
      case False
      then have z: "?p ''cloud_enabled'' = Some ''0''" using v Some by simp
      have "settings_get 32 k conf' \<noteq> Some u"
        if ku: "(k, u) \<in> {(''homing_mode'', ''gfcloud''), (''controller_mode'', ''cloud'')}" for k u
      proof (cases "?p k")
        case none: None
        have "map_of (builtin_request_sweep ?p conf 4) k = (if settings_get 32 k conf = Some (if k = ''homing_mode'' then ''gfcloud'' else ''cloud'')
           then Some (if k = ''homing_mode'' then ''none'' else ''grbl'') else None)"
          by (rule sweep_value [where p = ?p]) (use z ku none in auto)
        then show ?thesis using kept [OF none] ku by (auto simp: fit_def)
      next
        case (Some u')
        then show ?thesis using sent [of k u'] ku rf z by (auto split: if_splits)
      qed
      then show ?thesis by (auto simp: cloud_ok_def)
    qed
  qed
qed

section \<open>A request with nothing in its way\<close>

definition lets_write :: "settings_world \<Rightarrow> bool" where
  "lets_write w \<longleftrightarrow> sw_write_ok w \<and> lease_refusal_locks (sw_lease w) = None \<and> sw_idle w \<and> sw_io w"

definition only :: "string \<Rightarrow> string \<Rightarrow> params" where
  "only key v = (\<lambda>k. if k = key then Some v else None)"

lemma only_valid:
  assumes "(key, ok, s) \<in> set setting_defs" "v = [] \<or> ok v"
  shows "first_invalid (only key v) = None" "request_kvs (only key v) \<noteq> []"
proof -
  have "\<not> (\<exists>d. d \<in> set setting_defs \<and>
      (case d of (k, ok, _) \<Rightarrow> case only key v k of None \<Rightarrow> False | Some v \<Rightarrow> v \<noteq> [] \<and> \<not> ok v))"
  proof
    assume "\<exists>d. d \<in> set setting_defs \<and>
      (case d of (k, ok, _) \<Rightarrow> case only key v k of None \<Rightarrow> False | Some v \<Rightarrow> v \<noteq> [] \<and> \<not> ok v)"
    then obtain ok' s' where d: "(key, ok', s') \<in> set setting_defs" "v \<noteq> []" "\<not> ok' v"
      by (auto simp: only_def split: if_splits)
    have "ok' = ok" using table_only [OF map_of_is_SomeI [OF setting_keys_distinct assms(1)] d(1)] .
    then show False using d assms(2) by simp
  qed
  then show "first_invalid (only key v) = None" unfolding first_invalid_def by (simp add: find_None_iff)
  show "request_kvs (only key v) \<noteq> []"
    using request_keys [of key "only key v"] fst_inI [OF assms(1)] by (auto simp: only_def)
qed

lemma only_judged:
  assumes "lets_write w" "(key, ok, s) \<in> set setting_defs" "v = [] \<or> ok v"
    and "key \<notin> {''ext_enabled'', ''tray_offset_mm'', ''xy_microsteps'', ''homing_mode'', ''controller_mode''}"
    and "key = ''cloud_enabled'' \<longrightarrow> v = []" and "temps_refused (effective_temp (only key v) conf) = None"
  shows "post_judge w (only key v) conf =
    Inr \<lparr>sj_kvs = job_kvs (only key v) conf, sj_accept = False, sj_restart = False\<rparr>"
proof -
  have "only key v k = None"
    if "k \<in> {''ext_enabled'', ''tray_offset_mm'', ''xy_microsteps'', ''homing_mode'', ''controller_mode''}" for k
    using that assms(4) by (auto simp: only_def)
  then have k: "only key v ''ext_enabled'' = None" "only key v ''tray_offset_mm'' = None" "only key v ''xy_microsteps'' = None"
    "only key v ''homing_mode'' = None" "only key v ''controller_mode'' = None"
    by blast+
  have c: "only key v ''cloud_enabled'' \<noteq> Some ''1''" using assms(5) by (auto simp: only_def)
  have "builtin_request_refused (only key v) conf = None" using k by (simp add: refused_none)
  then show ?thesis
    using assms(1,6) only_valid [OF assms(2,3)] k c
    by (simp add: post_judge_def lets_write_def ext_turns_on_def cloud_turns_on_def tray_offset_refusal_def
        microsteps_change_def job_kvs_def)
qed

lemma only_written:
  assumes "lets_write w" "conf_lines conf ls" "length ls \<le> file_max_lines" "list_all writable (job_kvs p conf)"
    and "job = \<lparr>sj_kvs = job_kvs p conf, sj_accept = False, sj_restart = False\<rparr>"
  shows "fst (post_write w job conf) = Settings_Written False"
    "settings_set_many (job_kvs p conf) True conf = (True, snd (post_write w job conf))"
  using update_done [OF assms(2,3) job_distinct assms(4)] assms(1)
  by (auto simp: post_write_def assms(5) lets_write_def Let_def split: prod.splits)

section \<open>A clear instead of an off\<close>

text \<open>
  The enable is off when its key is absent, but a request that clears the key is not taken for one that
  turns the extension off: with cloud mode on and the cloud controller selected it is accepted, and
  leaves the cloud controller selected with cloud mode off.
\<close>

theorem clearing_leaves_cloud:
  assumes "conf_lines conf ls" "length ls \<le> file_max_lines" "lets_write w" "temps_ok conf"
    and "setting_param rq = only ''cloud_enabled'' []"
    and "settings_get_bool ''cloud_enabled'' False conf" "settings_get 32 ''controller_mode'' conf = Some ''cloud''"
  shows "\<exists>conf'. cb_settings_post w rq conf = (Settings_Written False, conf') \<and> \<not> cloud_ok conf'"
proof -
  let ?p = "only ''cloud_enabled'' []"
  have "effective_temp ?p conf k = stored_temp conf k" if "k \<in> set temp_keys" for k
    using that by (auto simp: effective_temp_def stored_temp_def only_def temp_keys_def)
  then have t: "temps_refused (effective_temp ?p conf) = None"
    using assms(4) temps_refused_cong [of "effective_temp ?p conf" "stored_temp conf"] by (simp add: temps_ok_def)
  have kd: "(''cloud_enabled'', valid_bool, False) \<in> set setting_defs" using map_of_SomeD [OF table_at(3)] .
  have j: "post_judge w ?p conf = Inr \<lparr>sj_kvs = job_kvs ?p conf, sj_accept = False, sj_restart = False\<rparr>"
    by (rule only_judged [OF assms(3) kd]) (use t in simp_all)
  have w: "list_all writable (job_kvs ?p conf)"
    by (rule job_writable [OF _ judged(1) [OF j]]) (auto simp: tame_def only_def list_all_iff trimmed_def one_line_def)
  let ?c = "snd (post_write w \<lparr>sj_kvs = job_kvs ?p conf, sj_accept = False, sj_restart = False\<rparr> conf)"
  note wr = only_written [OF assms(3,1,2) w refl]
  have g: "settings_get len k ?c = (case map_of (job_kvs ?p conf) k of None \<Rightarrow> settings_get len k conf
       | Some v \<Rightarrow> if v = [] then None else Some (fit len v))" for len k
    using update_conf [OF assms(1,2) job_distinct w wr(2)] by blast
  have sw: "builtin_request_sweep ?p conf 4 = []" by (simp add: builtin_request_sweep_def builtin_exts_def only_def)
  have "map_of (job_kvs ?p conf) ''cloud_enabled'' = Some []" "map_of (job_kvs ?p conf) ''controller_mode'' = None"
    using table_has sw by (auto simp: map_of_job only_def)
  then have "\<not> cloud_ok ?c" using g assms(7) by (simp add: cloud_ok_def settings_get_bool_def)
  moreover have "cb_settings_post w rq conf = (Settings_Written False, ?c)"
    using wr(1) j by (simp add: cb_settings_post_def assms(5) prod_eq_iff)
  ultimately show ?thesis by blast
qed

section \<open>On concrete files\<close>

definition free_world :: settings_world where
  "free_world = \<lparr>sw_write_ok = True, sw_lease = [], sw_idle = True, sw_ext_hash = ''0'', sw_tray_out = False,
     sw_grbl = False, sw_records = True, sw_io = True\<rparr>"

definition query_of :: "params \<Rightarrow> settings_req" where
  "query_of p = \<lparr>rq_form = (\<lambda>_. None), rq_query = p\<rparr>"

lemma query_param [simp]: "setting_param (query_of p) = p"
  by (simp add: setting_param_def query_of_def fun_eq_iff)

lemma free_lets: "lets_write free_world"
  by (simp add: lets_write_def free_world_def lease_refusal_locks_def)

lemma free_io [simp]: "sw_io free_world"
  by (simp add: free_world_def)

lemma no_file: "conf_lines None []" "length ([] :: string list) \<le> file_max_lines"
  by (simp_all add: conf_lines_def)

text \<open>The gates of a machine whose file sets none of them but the ceiling or the resume line.\<close>

lemma default_gates:
  assumes "\<And>k. k \<in> set temp_keys \<Longrightarrow> k \<noteq> ''cool_temp_max'' \<Longrightarrow> k \<noteq> ''cool_temp_resume'' \<Longrightarrow>
      p k = None \<and> settings_get 128 k conf = None"
    and "effective_temp p conf ''cool_temp_max'' = Fin a" "effective_temp p conf ''cool_temp_resume'' = Fin b"
    and "16 < a" "a < 38" "b < a"
  shows "temps_refused (effective_temp p conf) = None"
proof -
  have d: "effective_temp p conf k = Fin (gdef (the (gate_setting_find (Some k))))"
    if "k \<in> set temp_keys" "k \<noteq> ''cool_temp_max''" "k \<noteq> ''cool_temp_resume''" "gate_setting_find (Some k) \<noteq> None" for k
    using assms(1) [OF that(1-3)] that(4) by (auto simp: effective_temp_def)
  have t: "effective_temp p conf ''cool_temp_critical_c'' = Fin 38" "effective_temp p conf ''cool_temp_min'' = Fin 5"
    "effective_temp p conf ''cool_temp_start'' = Fin 16" "effective_temp p conf ''cool_tec_on_c'' = Fin 20"
    "effective_temp p conf ''cool_tec_off_c'' = Fin 18" "effective_temp p conf ''cool_fire_q1_alert'' = Fin 275"
    "effective_temp p conf ''cool_fire_q1_critical'' = Fin 688" "effective_temp p conf ''cool_fire_q2_alert'' = Fin 374"
    "effective_temp p conf ''cool_fire_q2_critical'' = Fin 1022"
    by (simp_all add: d temp_keys_def gate_finds row_def)
  show ?thesis
    using assms(2-6)
    by (simp add: temps_refused_def t Let_def critical_refused_def ceiling_off_def low_off_def fire_refused_def gate_finds row_def)
qed

lemma strtod_32: "strtod ''32'' = (Fin 32, [])"
  by (simp add: cnum_defs Let_def)

definition max_32 :: params where "max_32 = only ''cool_temp_max'' ''32''"
definition resume_32 :: params where "resume_32 = only ''cool_temp_resume'' ''32''"

lemma table_temps:
  "(''cool_temp_max'', valid_temp_max, False) \<in> set setting_defs" "valid_temp_max ''32''"
  "(''cool_temp_resume'', valid_temp_resume, False) \<in> set setting_defs" "valid_temp_resume ''32''"
  by (simp add: setting_defs_def, simp add: valid_temp_max_def valid_gate_def gate_finds gate_parse_def strtod_32 row_def,
      simp add: setting_defs_def, simp add: valid_temp_resume_def valid_gate_def gate_finds gate_parse_def strtod_32 row_def)

lemma job_32:
  "job_kvs max_32 conf = [(''cool_temp_max'', ''32'')]" "job_kvs resume_32 conf = [(''cool_temp_resume'', ''32'')]"
  by (simp_all add: job_kvs_def max_32_def resume_32_def request_kvs_def only_def setting_defs_def builtin_request_sweep_def
      builtin_exts_def)

lemma tame_32: "tame max_32" "tame resume_32"
  by (auto simp: tame_def max_32_def resume_32_def only_def list_all_iff trimmed_def one_line_def is_cspace_def byte_def)

lemma judged_32:
  "post_judge free_world max_32 None = Inr \<lparr>sj_kvs = [(''cool_temp_max'', ''32'')], sj_accept = False, sj_restart = False\<rparr>"
  "post_judge free_world resume_32 None = Inr \<lparr>sj_kvs = [(''cool_temp_resume'', ''32'')], sj_accept = False, sj_restart = False\<rparr>"
proof -
  have "temps_refused (effective_temp max_32 None) = None"
    by (rule default_gates [where a = 32 and b = 31])
       (simp_all add: max_32_def only_def settings_get_def effective_temp_def strtod_32 gate_finds row_def)
  then show "post_judge free_world max_32 None = Inr \<lparr>sj_kvs = [(''cool_temp_max'', ''32'')], sj_accept = False, sj_restart = False\<rparr>"
    using only_judged [OF free_lets table_temps(1), of "''32''" None] table_temps(2) job_32(1) [of None] by (simp add: max_32_def)
  have "temps_refused (effective_temp resume_32 None) = None"
    by (rule default_gates [where a = 33 and b = 32])
       (simp_all add: resume_32_def only_def settings_get_def effective_temp_def strtod_32 gate_finds row_def)
  then show "post_judge free_world resume_32 None = Inr \<lparr>sj_kvs = [(''cool_temp_resume'', ''32'')], sj_accept = False, sj_restart = False\<rparr>"
    using only_judged [OF free_lets table_temps(3), of "''32''" None] table_temps(4) job_32(2) [of None] by (simp add: resume_32_def)
qed

definition after_max_32 :: string where "after_max_32 = ''cool_temp_max = 32'' @ [newline]"

lemma posted_32: "cb_settings_post free_world (query_of max_32) None = (Settings_Written False, Some after_max_32)"
proof -
  have "settings_set_many [(''cool_temp_max'', ''32'')] True None = (True, Some after_max_32)" by code_simp
  then show ?thesis by (simp add: cb_settings_post_def judged_32 post_write_def)
qed


lemma typed_none: "typed None"
  by (simp add: typed_def settings_get_def list_all_iff)


theorem post_keeps_cloud_witness: "cloud_ok (Some after_max_32)"
  using post_keeps_cloud [OF no_file _ posted_32] tame_32
  by (simp add: cloud_ok_def settings_get_def max_32_def only_def)

definition cloud_lines :: "string list" where
  "cloud_lines = [''cloud_enabled = 1'' @ [newline], ''controller_mode = cloud'' @ [newline]]"

theorem clearing_leaves_cloud_witness:
  "\<exists>conf'. cb_settings_post free_world (query_of (only ''cloud_enabled'' [])) (Some (concat cloud_lines)) =
     (Settings_Written False, conf') \<and> \<not> cloud_ok conf'"
proof -
  have l: "conf_lines (Some (concat cloud_lines)) cloud_lines" "length cloud_lines \<le> file_max_lines"
    by (auto simp: conf_lines_def cloud_lines_def whole_def file_max_lines_def)
  have "list_all (\<lambda>k. settings_get 128 k (Some (concat cloud_lines)) = None) temp_keys" by code_simp
  then have n: "settings_get 128 k (Some (concat cloud_lines)) = None" if "k \<in> set temp_keys" for k
    using that by (simp add: list_all_iff)
  have "temps_refused (effective_temp (\<lambda>_. None) (Some (concat cloud_lines))) = None"
    by (rule default_gates [where a = 33 and b = 31])
       (use n in \<open>simp_all add: effective_temp_def gate_finds row_def temp_keys_def\<close>)
  then have t: "temps_ok (Some (concat cloud_lines))" by (simp add: temps_ok_def stored_temp_def [abs_def])
  have c: "settings_get_bool ''cloud_enabled'' False (Some (concat cloud_lines))"
    "settings_get 32 ''controller_mode'' (Some (concat cloud_lines)) = Some ''cloud''"
    by code_simp+
  show ?thesis by (rule clearing_leaves_cloud [OF l free_lets t _ c]) simp
qed

section \<open>Two requests at once\<close>

text \<open>
  The gates are judged against the file as it is read and the file is written later, with no lock over
  both: one request lowers the ceiling to 32, another raises the resume line to 32, each is judged
  beside the other's old value and accepted, and the file has a resume line at the ceiling.
\<close>

theorem two_posts_break_gates:
  "\<exists>j1 j2. post_judge free_world max_32 None = Inr j1 \<and> post_judge free_world resume_32 None = Inr j2 \<and>
     \<not> gates_hold (snd (post_write free_world j2 (snd (post_write free_world j1 None))))"
proof -
  let ?f = "Some (''cool_temp_max = 32'' @ [newline] @ ''cool_temp_resume = 32'' @ [newline])"
  have "settings_set_many [(''cool_temp_resume'', ''32'')] True (snd (settings_set_many [(''cool_temp_max'', ''32'')] True None)) = (True, ?f)"
    by code_simp
  moreover have "settings_get 128 ''cool_temp_max'' ?f = Some ''32''" "settings_get 128 ''cool_temp_resume'' ?f = Some ''32''"
    by code_simp+
  then have "\<not> gates_hold ?f"
    by (simp add: gates_hold_def stored_temp_def effective_temp_def strtod_32)
  moreover have "settings_set_many [(''cool_temp_max'', ''32'')] True None = (True, Some after_max_32)" by code_simp
  ultimately show ?thesis
    using judged_32 by (simp add: post_write_def)
qed

section \<open>What the log export shows\<close>

text \<open>
  The settings text of a log export says of a secret only whether it is set: two machines whose files
  agree on every other key, and on whether their password is a valid one, export the same text.
\<close>

theorem snapshot_hides_secret:
  assumes "\<And>d. d \<in> set setting_defs \<Longrightarrow> fst d \<noteq> ''gf_password'' \<Longrightarrow> settings_get 192 (fst d) conf = settings_get 192 (fst d) conf'"
    and "(case settings_get 192 ''gf_password'' conf of None \<Rightarrow> False | Some v \<Rightarrow> valid_password v) \<longleftrightarrow>
         (case settings_get 192 ''gf_password'' conf' of None \<Rightarrow> False | Some v \<Rightarrow> valid_password v)"
  shows "settings_snapshot conf = settings_snapshot conf'"
proof -
  have pw: "map_of setting_defs ''gf_password'' = Some (valid_password, True)" by (simp add: setting_defs_def)
  have "snapshot_value conf d = snapshot_value conf' d" if d: "d \<in> set setting_defs" for d
  proof (cases "fst d = ''gf_password''")
    case True
    then have "d = (''gf_password'', valid_password, True)"
      using pw d map_of_is_SomeI [OF setting_keys_distinct, of "fst d" "snd d"] by (metis option.inject prod.collapse)
    then show ?thesis using assms(2) by (auto simp: snapshot_value_def split: option.splits if_splits)
  qed (use assms(1) [OF d] in \<open>auto simp: snapshot_value_def split: prod.splits\<close>)
  then show ?thesis unfolding settings_snapshot_def by (metis (no_types, lifting) map_eq_conv)
qed

end
