(* ===== verification/Lenshome.thy ===== *)
theory Lenshome
  imports Cfmt
begin

text \<open>
  The lens put on its hall edge before a controller starts (\<open>src/lenshome.c\<close>). What the head does is
  a parameter: what the hall sensor reads and whether a write succeeds, as functions of all that was
  done to it so far, newest first.
\<close>

section \<open>What is done to the lens\<close>

datatype zop = Wr string string | Nap int | Quiet bool | Listen bool | Clear | Mark nat nat

type_synonym zlog = "zop list"

record head =
  hall :: "zlog \<Rightarrow> int"
  wrote :: "zlog \<Rightarrow> bool"

abbreviation Z_STEP :: string where "Z_STEP \<equiv> ''cnc/z_step''"

text \<open>The half-steps or full steps a log asked for, and how far up they went.\<close>

fun steps_asked :: "zlog \<Rightarrow> nat" where
  "steps_asked [] = 0"
| "steps_asked (Wr a v # h) = (if a = Z_STEP then 1 else 0) + steps_asked h"
| "steps_asked (_ # h) = steps_asked h"

fun went_up :: "zlog \<Rightarrow> int" where
  "went_up [] = 0"
| "went_up (Wr a v # h) = (if a = Z_STEP then if v = ''1'' then 1 else - 1 else 0) + went_up h"
| "went_up (_ # h) = went_up h"

section \<open>The hunt\<close>

definition MAX_SWEEP_STEPS :: nat where "MAX_SWEEP_STEPS = 200"

text \<open>The sensor: over it, clear of it, or no answer.\<close>

definition over_sensor :: "head \<Rightarrow> zlog \<Rightarrow> bool option" where
  "over_sensor w h = (if hall w h < 0 then None else Some (hall w h = 0))"

datatype sweep = Swept nat | Bound | Gone

text \<open>One sweep, \<open>left\<close> steps from its bound.\<close>

fun sweep_on :: "head \<Rightarrow> int \<Rightarrow> bool \<Rightarrow> nat \<Rightarrow> nat \<Rightarrow> zlog \<Rightarrow> sweep \<times> zlog" where
  "sweep_on w us want left steps h =
     (case over_sensor w h of
        None \<Rightarrow> (Gone, h)
      | Some b \<Rightarrow>
          if b = want then (Swept steps, h)
          else (case left of
                  0 \<Rightarrow> (Bound, h)
                | Suc l \<Rightarrow>
                    let h = Wr Z_STEP (if want then ''1'' else ''0'') # h
                    in if \<not> wrote w h then (Gone, h) else sweep_on w us want l (steps + 1) (Nap us # h)))"

definition sweep_until :: "head \<Rightarrow> int \<Rightarrow> bool \<Rightarrow> zlog \<Rightarrow> sweep \<times> zlog" where
  "sweep_until w us want h = sweep_on w us want MAX_SWEEP_STEPS 0 h"

definition rest_motor :: "zlog \<Rightarrow> zlog" where
  "rest_motor h = Wr ''head/z_mode'' ''1'' # Wr ''head/z_current'' ''1'' # h"

text \<open>The cadence, shortened by the environment of a host test.\<close>

definition step_delay_us :: "int option \<Rightarrow> int" where
  "step_delay_us env = (case env of Some v \<Rightarrow> if 0 \<le> v \<and> v \<le> 180000 then v else 180000 | None \<Rightarrow> 180000)"

definition marker_write :: "bool \<Rightarrow> nat \<Rightarrow> nat \<Rightarrow> zlog \<Rightarrow> zlog" where
  "marker_write placed off on h = (if placed then Mark off on # h else h)"

definition lenshome_clear :: "zlog \<Rightarrow> zlog" where "lenshome_clear h = Clear # h"

text \<open>What the two sweeps came to: both counts, or the failure of one.\<close>

definition hunt :: "head \<Rightarrow> int \<Rightarrow> zlog \<Rightarrow> (sweep + nat \<times> nat) \<times> zlog" where
  "hunt w us h =
     (case sweep_until w us False h of
        (Swept off, h) \<Rightarrow>
          (case sweep_until w us True h of (Swept on, h) \<Rightarrow> (Inr (off, on), h) | (s, h) \<Rightarrow> (Inl s, h))
      | (s, h) \<Rightarrow> (Inl s, h))"

definition lenshome_run :: "head \<Rightarrow> int \<Rightarrow> bool \<Rightarrow> bool \<Rightarrow> nat \<Rightarrow> zlog \<Rightarrow> int \<times> string \<times> zlog" where
  "lenshome_run w us lens placed dlen h =
     (let h = lenshome_clear h in
      if \<not> lens then (- 1, fit dlen ''no lens interface (not this hardware)'', h)
      else if over_sensor w h = None then (0, fit dlen ''no head detected'', h)
      else
        let h = Wr ''head/z_mode'' ''0'' # Wr ''head/z_current'' ''0'' # Wr ''head/z_enable'' ''0'' # h
        in (case hunt w us h of
              (Inr (off, on), h) \<Rightarrow>
                (1, fit dlen (''lens on the hall edge ('' @ show_nat off @ '' off, '' @ show_nat on @ '' back)''),
                 marker_write placed off on (rest_motor h))
            | (Inl Bound, h) \<Rightarrow>
                (0, fit dlen (''no hall edge in '' @ show_nat MAX_SWEEP_STEPS @
                              '' steps (wedged lens motor, jammed carriage, or dead sensor)''), rest_motor h)
            | (Inl _, h) \<Rightarrow> (0, fit dlen ''the head went away during the hunt'', rest_motor h)))"

declare sweep_on.simps [simp del]

section \<open>What a sweep leaves\<close>

text \<open>A sweep only steps toward what it looks for, at most to its bound, and stops on what it saw.\<close>

definition sweep_tail :: "int \<Rightarrow> bool \<Rightarrow> nat \<Rightarrow> zlog" where
  "sweep_tail us want k = concat (replicate k [Nap us, Wr Z_STEP (if want then ''1'' else ''0'')])"

lemma sweep_tail_Suc: "sweep_tail us want (Suc k) @ h = sweep_tail us want k @ Nap us # Wr Z_STEP (if want then ''1'' else ''0'') # h"
  unfolding sweep_tail_def by (induction k) auto

lemma sweep_tail_0 [simp]: "sweep_tail us want 0 = []"
  by (simp add: sweep_tail_def)

lemma sweep_swept:
  "sweep_on w us want left s h = (Swept k, h') \<Longrightarrow>
     s \<le> k \<and> k \<le> s + left \<and> h' = sweep_tail us want (k - s) @ h \<and> over_sensor w h' = Some want"
proof (induction left arbitrary: s h)
  case 0
  then show ?case
    by (subst (asm) sweep_on.simps) (auto split: option.splits if_splits)
next
  case (Suc l)
  show ?case
  proof (cases "over_sensor w h = Some want")
    case True
    with Suc.prems show ?thesis by (subst (asm) sweep_on.simps) auto
  next
    case False
    let ?h = "Nap us # Wr Z_STEP (if want then ''1'' else ''0'') # h"
    from Suc.prems False have "sweep_on w us want l (s + 1) ?h = (Swept k, h')"
      by (subst (asm) sweep_on.simps) (auto simp: Let_def split: option.splits if_splits)
    from Suc.IH [OF this] have
      k: "s + 1 \<le> k" "k \<le> s + 1 + l" "h' = sweep_tail us want (k - (s + 1)) @ ?h" "over_sensor w h' = Some want"
      by auto
    then have "k - s = Suc (k - (s + 1))" by simp
    with k show ?thesis by (simp add: sweep_tail_Suc)
  qed
qed

lemma sweep_asked:
  "sweep_on w us want left s h = (r, h') \<Longrightarrow> steps_asked h' \<le> steps_asked h + left"
proof (induction left arbitrary: s h)
  case 0
  then show ?case
    by (subst (asm) sweep_on.simps) (auto split: option.splits if_splits)
next
  case (Suc l)
  let ?h = "Nap us # Wr Z_STEP (if want then ''1'' else ''0'') # h"
  have "sweep_on w us want l (s + 1) ?h = (r, h') \<Longrightarrow> steps_asked h' \<le> steps_asked h + Suc l"
    using Suc.IH [of "s + 1" ?h] by simp
  with Suc.prems show ?case
    by (subst (asm) sweep_on.simps) (auto simp: Let_def split: option.splits if_splits)
qed

text \<open>A sweep moves the lens and nothing else: the marker stays what it was.\<close>

fun marker :: "zlog \<Rightarrow> (nat \<times> nat) option" where
  "marker [] = None"
| "marker (Mark a b # h) = Some (a, b)"
| "marker (Clear # h) = None"
| "marker (_ # h) = marker h"

lemma sweep_marker:
  "sweep_on w us want left s h = (r, h') \<Longrightarrow> marker h' = marker h"
proof (induction left arbitrary: s h)
  case 0
  then show ?case
    by (subst (asm) sweep_on.simps) (auto split: option.splits if_splits)
next
  case (Suc l)
  let ?h = "Nap us # Wr Z_STEP (if want then ''1'' else ''0'') # h"
  have "sweep_on w us want l (s + 1) ?h = (r, h') \<Longrightarrow> marker h' = marker h"
    using Suc.IH [of "s + 1" ?h] by simp
  with Suc.prems show ?case
    by (subst (asm) sweep_on.simps) (auto simp: Let_def split: option.splits if_splits)
qed

lemma hunt_marker: "hunt w us h = (r, h') \<Longrightarrow> marker h' = marker h"
  by (auto simp: hunt_def sweep_until_def split: prod.splits sweep.splits dest!: sweep_marker)

lemma hunt_asked: "hunt w us h = (r, h') \<Longrightarrow> steps_asked h' \<le> steps_asked h + 2 * MAX_SWEEP_STEPS"
  by (force simp: hunt_def sweep_until_def split: prod.splits sweep.splits dest!: sweep_asked)

text \<open>A hunt that finds the edge left it going down and came back to it going up.\<close>

lemma hunt_found:
  assumes "hunt w us h = (Inr (off, on), h')"
  shows "off \<le> MAX_SWEEP_STEPS \<and> on \<le> MAX_SWEEP_STEPS \<and>
    over_sensor w (sweep_tail us False off @ h) = Some False \<and>
    h' = sweep_tail us True on @ sweep_tail us False off @ h \<and> over_sensor w h' = Some True"
  using assms
  by (auto simp: hunt_def sweep_until_def split: prod.splits sweep.splits dest!: sweep_swept)

definition hunt_start :: "zlog \<Rightarrow> zlog" where
  "hunt_start h = Wr ''head/z_mode'' ''0'' # Wr ''head/z_current'' ''0'' # Wr ''head/z_enable'' ''0'' # Clear # h"

definition motor_rests :: "zlog \<Rightarrow> bool" where
  "motor_rests h \<longleftrightarrow> (\<exists>m e. h = m @ rest_motor e \<and> (\<forall>x\<in>set m. \<exists>a b. x = Mark a b))"

lemma reference_law:
  assumes "lenshome_run w us lens placed dlen h = (rc, d, h')"
  shows "(rc = 1 \<longrightarrow>
           (\<exists>off on e. off \<le> MAX_SWEEP_STEPS \<and> on \<le> MAX_SWEEP_STEPS \<and>
              over_sensor w (sweep_tail us False off @ hunt_start h) = Some False \<and>
              e = sweep_tail us True on @ sweep_tail us False off @ hunt_start h \<and> over_sensor w e = Some True \<and>
              h' = (if placed then [Mark off on] else []) @ rest_motor e)) \<and>
         (marker h' \<noteq> None \<longrightarrow> rc = 1) \<and> steps_asked h' \<le> steps_asked h + 2 * MAX_SWEEP_STEPS"
proof (cases "lens \<and> over_sensor w (Clear # h) \<noteq> None")
  case False
  with assms show ?thesis
    by (auto simp: lenshome_run_def lenshome_clear_def Let_def split: if_splits)
next
  case True
  obtain r e where e: "hunt w us (hunt_start h) = (r, e)" by (cases "hunt w us (hunt_start h)")
  have m: "marker e = None" "steps_asked e \<le> steps_asked h + 2 * MAX_SWEEP_STEPS"
    using hunt_marker [OF e] hunt_asked [OF e] by (simp_all add: hunt_start_def)
  show ?thesis
  proof (cases r)
    case (Inl s)
    with True assms e m show ?thesis
      by (cases s) (auto simp: lenshome_run_def lenshome_clear_def hunt_start_def rest_motor_def Let_def)
  next
    case (Inr p)
    obtain off on where p: "p = (off, on)" by (cases p)
    have h: "rc = 1" "h' = (if placed then [Mark off on] else []) @ rest_motor e"
      using True assms e Inr p
      by (auto simp: lenshome_run_def lenshome_clear_def marker_write_def hunt_start_def Let_def)
    then have "steps_asked h' = steps_asked e" by (simp add: rest_motor_def)
    moreover have "hunt w us (hunt_start h) = (Inr (off, on), e)" using e Inr p by simp
    from hunt_found [OF this] h have "\<exists>off on e. off \<le> MAX_SWEEP_STEPS \<and> on \<le> MAX_SWEEP_STEPS \<and>
        over_sensor w (sweep_tail us False off @ hunt_start h) = Some False \<and>
        e = sweep_tail us True on @ sweep_tail us False off @ hunt_start h \<and> over_sensor w e = Some True \<and>
        h' = (if placed then [Mark off on] else []) @ rest_motor e"
      by blast
    ultimately show ?thesis using h(1) m(2) by simp
  qed
qed

text \<open>The lens's reference is what it claims. A hunt that answers 1 left the sensor going down,
came back to it going up within the bound of each sweep, and ends over it with the motor at rest; a
marker stands afterwards only for such a hunt, with its counts; and no hunt asks for more than twice
the bound of a sweep, whatever the head does.\<close>

theorem reference_is_edge:
  assumes "lenshome_run w us lens placed dlen h = (rc, d, h')"
  shows "(rc = 1 \<longrightarrow>
           (\<exists>off on e. off \<le> MAX_SWEEP_STEPS \<and> on \<le> MAX_SWEEP_STEPS \<and>
              over_sensor w (sweep_tail us False off @ hunt_start h) = Some False \<and>
              e = sweep_tail us True on @ sweep_tail us False off @ hunt_start h \<and> over_sensor w e = Some True \<and>
              h' = (if placed then [Mark off on] else []) @ rest_motor e)) \<and>
         (marker h' \<noteq> None \<longrightarrow> rc = 1) \<and> steps_asked h' \<le> steps_asked h + 2 * MAX_SWEEP_STEPS"
  using assms by (rule reference_law)

text \<open>A head whose sensor covers the two positions above its edge, started on it.\<close>

definition bench_head :: head where
  "bench_head = \<lparr>hall = (\<lambda>h. if 0 \<le> went_up h then 0 else 1), wrote = (\<lambda>_. True)\<rparr>"

lemma reference_is_edge_witness:
  "lenshome_run bench_head 180000 True True 64 [] =
     (1, ''lens on the hall edge (1 off, 1 back)'', Mark 1 1 # rest_motor (sweep_tail 180000 True 1 @ sweep_tail 180000 False 1 @ hunt_start [])) \<and>
   over_sensor bench_head (sweep_tail 180000 False 1 @ hunt_start []) = Some False"
proof -
  have r: "lenshome_run bench_head 180000 True True 64 [] =
     (1, ''lens on the hall edge (1 off, 1 back)'', Mark 1 1 # rest_motor (sweep_tail 180000 True 1 @ sweep_tail 180000 False 1 @ hunt_start []))"
    by code_simp
  have "\<exists>off on e. over_sensor bench_head (sweep_tail 180000 False off @ hunt_start []) = Some False \<and>
      Mark 1 1 # rest_motor (sweep_tail 180000 True 1 @ sweep_tail 180000 False 1 @ hunt_start []) = [Mark off on] @ rest_motor e"
    using reference_is_edge [OF r] by auto
  then have "over_sensor bench_head (sweep_tail 180000 False 1 @ hunt_start []) = Some False" by auto
  with r show ?thesis by simp
qed

text \<open>The marker is not part of the answer: a hunt whose marker could not be placed answers 1 all
the same, and the controller that reads the directory finds no reference.\<close>

theorem unmarked_reference:
  "\<exists>w d h. lenshome_run w 180000 True False 64 [] = (1, d, h) \<and> marker h = None"
proof -
  have "lenshome_run bench_head 180000 True False 64 [] = (1, ''lens on the hall edge (1 off, 1 back)'',
      rest_motor (sweep_tail 180000 True 1 @ sweep_tail 180000 False 1 @ hunt_start []))" by code_simp
  moreover have "marker (rest_motor (sweep_tail 180000 True 1 @ sweep_tail 180000 False 1 @ hunt_start [])) = None"
    by code_simp
  ultimately show ?thesis by blast
qed

end
