(* ===== verification/Lensfind.thy ===== *)
theory Lensfind
  imports Lenshome Wizcalc
begin

text \<open>
  The lens's free travel, found by the head accelerometer (\<open>src/lensfind.c\<close>). The head is a
  parameter, as in \<open>Lenshome\<close>, with what the accelerometer answers after a step, whether a wait was
  aborted and whether the bus opens. The log keeps every write, wait and hold in order.
\<close>

section \<open>The bench\<close>

definition Z_STEP_MS :: int where "Z_STEP_MS = 180"
definition FIND_MAX :: nat where "FIND_MAX = 30"
definition FIND_MIN :: int where "FIND_MIN = 8"
definition FIND_FLOOR :: int where "FIND_FLOOR = 6000"
definition FIND_BACK :: nat where "FIND_BACK = 2"
definition FIND_QUIET_S :: nat where "FIND_QUIET_S = 10"
definition FIND_WINDOW_MS :: int where "FIND_WINDOW_MS = 170"
definition FIND_TOL :: int where "FIND_TOL = 1"

type_synonym burst = "int \<times> int \<times> int"

text \<open>What the listener reads in one window: a first burst, then as many as the clock lets through.\<close>

record bench = head +
  bursts :: "zlog \<Rightarrow> burst option \<times> burst option list"
  aborted :: "zlog \<Rightarrow> bool"
  opens :: "zlog \<Rightarrow> bool"

record lensfind =
  found :: bool
  below :: int
  above :: int
  contact_below :: nat
  contact_above :: nat
  why :: string

definition z_wr :: "bool \<Rightarrow> zop" where
  "z_wr up = Wr Z_STEP (if up then ''1'' else ''0'')"

definition z_hall_home :: "'a head_scheme \<Rightarrow> zlog \<Rightarrow> bool option" where
  "z_hall_home w h = (if hall w h < 0 then None else Some (hall w h = 0))"

section \<open>Steps\<close>

text \<open>\<open>z_until\<close>: the steps taken until the sensor reads \<open>home\<close>.\<close>

fun z_until :: "bench \<Rightarrow> bool \<Rightarrow> bool \<Rightarrow> nat \<Rightarrow> nat \<Rightarrow> zlog \<Rightarrow> nat option \<times> zlog" where
  "z_until w home up c 0 h = (None, h)"
| "z_until w home up c (Suc left) h =
     (case z_hall_home w h of
        None \<Rightarrow> (None, h)
      | Some b \<Rightarrow>
          if b = home then (Some c, h)
          else let h = z_wr up # h
               in if \<not> wrote w h then (None, h)
                  else let h = Nap Z_STEP_MS # h
                       in if aborted w h then (None, h) else z_until w home up (c + 1) left h)"

definition spread :: "int list \<Rightarrow> int" where
  "spread xs = fold max (tl xs) (hd xs) - fold min (tl xs) (hd xs)"

text \<open>\<open>z_step_listen\<close>: one half-step, and how far each axis swung in the window, summed.\<close>

definition z_step_listen :: "bench \<Rightarrow> bool \<Rightarrow> zlog \<Rightarrow> int option \<times> zlog" where
  "z_step_listen w up h =
     (let h = z_wr up # h
      in if \<not> wrote w h then (None, h)
         else let bs = fst (bursts w h) # snd (bursts w h)
              in if None \<in> set bs then (None, h)
                 else let h = Nap (Z_STEP_MS - FIND_WINDOW_MS) # h; vs = List.map the bs
                      in if aborted w h then (None, h)
                         else (Some (spread (List.map fst vs) + spread (List.map (fst \<circ> snd) vs)
                                     + spread (List.map (snd \<circ> snd) vs)), h))"

text \<open>The steps of a leg, until one is called a stop, one cannot be read, or the reach is spent. The
rings are in the order of the steps.\<close>

fun leg_steps :: "bench \<Rightarrow> bool \<Rightarrow> nat \<Rightarrow> int list \<Rightarrow> zlog \<Rightarrow> (int list \<times> (nat \<times> bool)) option \<times> zlog" where
  "leg_steps w up 0 rings h = (Some (rings, (0, False)), h)"
| "leg_steps w up (Suc left) rings h =
     (case z_step_listen w up h of
        (None, h) \<Rightarrow> (None, h)
      | (Some s, h) \<Rightarrow>
          let rings = rings @ [s]
          in if fst (wizcalc_stop_call rings) \<noteq> 0 then (Some (rings, wizcalc_stop_call rings), h)
             else leg_steps w up left rings h)"

text \<open>Backing off: the write's result is not asked for.\<close>

fun back_off :: "bool \<Rightarrow> nat \<Rightarrow> zlog \<Rightarrow> zlog" where
  "back_off up 0 h = h"
| "back_off up (Suc n) h = back_off up n (Nap Z_STEP_MS # z_wr (\<not> up) # h)"

definition which :: "bool \<Rightarrow> string" where
  "which up = (if up then ''top'' else ''bottom'')"

definition z_find_leg :: "bench \<Rightarrow> bool \<Rightarrow> nat \<Rightarrow> zlog \<Rightarrow> (string + nat) \<times> zlog" where
  "z_find_leg w up wlen h =
     (case leg_steps w up FIND_MAX [] h of
        (r, h) \<Rightarrow>
          let h = back_off up FIND_BACK h
          in (case r of
                None \<Rightarrow> Inl (fit wlen ''the head accelerometer could not be read'')
              | Some (rings, (call, slipped)) \<Rightarrow>
                  if call = 0
                  then Inl (fit wlen (''no '' @ which up @ '' stop within '' @ show_nat FIND_MAX @ '' half-steps of the edge''))
                  else if slipped
                  then Inl (fit wlen (''the lens slipped at the '' @ which up @ '' stop before its ring died''))
                  else if \<not> wizcalc_ring_readable rings call FIND_FLOOR
                  then Inl (fit wlen ''the lens steps do not ring clearly enough on this head'')
                  else if int call - int FIND_BACK < FIND_MIN
                  then Inl (fit wlen (''the '' @ which up @ '' stop was called '' @ show_int (int call - int FIND_BACK) @
                                      '' half-steps from the edge, nearer than any head's''))
                  else Inr call, h))"

section \<open>The finding\<close>

definition why_len :: nat where "why_len = 120"

definition found_none :: lensfind where
  "found_none = \<lparr>found = False, below = 0, above = 0, contact_below = 0, contact_above = 0, why = []\<rparr>"

text \<open>The quiet seconds, each of them ended by an abort.\<close>

fun quiet_wait :: "bench \<Rightarrow> nat \<Rightarrow> zlog \<Rightarrow> bool \<times> zlog" where
  "quiet_wait w 0 h = (True, h)"
| "quiet_wait w (Suc n) h = (let h = Nap 1000 # h in if aborted w h then (False, h) else quiet_wait w n h)"

definition count_text :: "nat option \<Rightarrow> string" where
  "count_text c = (case c of None \<Rightarrow> ''-1'' | Some n \<Rightarrow> show_nat n)"

text \<open>The second leg, from the edge up: what it found, given the first contact.\<close>

definition find_above :: "bench \<Rightarrow> lensfind \<Rightarrow> zlog \<Rightarrow> lensfind \<times> zlog" where
  "find_above w st h =
     (case z_find_leg w True why_len h of
        (Inl t, h) \<Rightarrow> (st\<lparr>why := t\<rparr>, h)
      | (Inr ca, h) \<Rightarrow>
          let st = st\<lparr>contact_above := ca\<rparr>; taken = int ca - int FIND_BACK
          in (case z_until w False False 0 80 h of
                (c, h) \<Rightarrow>
                  if (case c of None \<Rightarrow> True | Some c \<Rightarrow> int c - taken < 2 \<or> 9 < int c - taken)
                  then (st\<lparr>why := fit why_len (''the count back from the top stop was '' @ count_text c @ '' for '' @
                          show_int taken @ '' steps taken'')\<rparr>, h)
                  else (case z_until w True True 0 60 h of
                          (None, h) \<Rightarrow> (st\<lparr>why := fit why_len ''the hall edge was lost after the top stop''\<rparr>, h)
                        | (Some _, h) \<Rightarrow>
                            (st\<lparr>below := int (contact_below st) - int FIND_BACK, above := taken, found := True\<rparr>, h))))"

text \<open>Both legs, from the bus being open.\<close>

definition find_stops :: "bench \<Rightarrow> zlog \<Rightarrow> lensfind \<times> zlog" where
  "find_stops w h =
     (case z_find_leg w False why_len h of
        (Inl t, h) \<Rightarrow> (found_none\<lparr>why := t\<rparr>, h)
      | (Inr cb, h) \<Rightarrow>
          let st = found_none\<lparr>contact_below := cb\<rparr>; taken = int cb - int FIND_BACK
          in (case z_until w True True 0 80 h of
                (c, h) \<Rightarrow>
                  if (case c of None \<Rightarrow> True | Some c \<Rightarrow> int c < taken - FIND_TOL \<or> taken + FIND_TOL < int c)
                  then (st\<lparr>why := fit why_len (''the count back from the bottom stop was '' @ count_text c @ '' for '' @
                          show_int taken @ '' steps taken'')\<rparr>, h)
                  else find_above w st h))"

text \<open>The lens brought back to its edge after a finding that failed.\<close>

definition to_edge :: "bench \<Rightarrow> zlog \<Rightarrow> zlog" where
  "to_edge w h =
     (let h = (if z_hall_home w h = Some True then snd (z_until w False False 0 60 h) else h)
      in snd (z_until w True True 0 80 h))"

definition find_start :: "zlog \<Rightarrow> zlog" where
  "find_start h = Quiet True # Wr ''head/z_enable'' ''0'' # Wr ''head/z_mode'' ''1'' # Wr ''head/z_current'' ''0'' # h"

text \<open>Everything to the bus being closed and the fans let go.\<close>

definition find_held :: "bench \<Rightarrow> zlog \<Rightarrow> lensfind \<times> zlog" where
  "find_held w h =
     (case quiet_wait w FIND_QUIET_S (find_start h) of
        (False, h) \<Rightarrow> (found_none\<lparr>why := ''aborted''\<rparr>, Quiet False # h)
      | (True, h) \<Rightarrow>
          let h = Listen True # h
          in if \<not> opens w h
             then (found_none\<lparr>why := fit why_len ''the head accelerometer does not answer on its bus''\<rparr>, Quiet False # h)
             else (case find_stops w h of (st, h) \<Rightarrow> (st, Quiet False # Listen False # h)))"

definition lensfind_run :: "bench \<Rightarrow> zlog \<Rightarrow> lensfind \<times> zlog" where
  "lensfind_run w h =
     (case find_held w h of
        (st, h) \<Rightarrow> (st, Wr ''head/z_current'' ''1'' # (if found st then h else to_edge w h)))"

end
