(* ===== verification/Lens.thy ===== *)
theory Lens
  imports SettingsProps Cfmt
begin

text \<open>
  The lens frame (\<open>src/lens.c\<close>): the focal height of the hall edge and the free travel around it, from
  the settings or their defaults, and the functions that turn half-steps into Z. Doubles are the reals
  they denote.
\<close>

section \<open>The settings\<close>

definition LENS_EDGE_Z_DEFAULT :: real where "LENS_EDGE_Z_DEFAULT = 335 / 100"
definition LENS_WINDOW_DOWN :: int where "LENS_WINDOW_DOWN = 10"
definition LENS_WINDOW_UP :: int where "LENS_WINDOW_UP = 12"
definition LENS_STOP_STEPS_MAX :: int where "LENS_STOP_STEPS_MAX = 40"

text \<open>A value of the file as a double, when it starts with one.\<close>

definition conf_double :: "string \<Rightarrow> string option \<Rightarrow> dbl option" where
  "conf_double key conf =
     (case settings_get 32 key conf of
        None \<Rightarrow> None
      | Some v \<Rightarrow> if v = [] \<or> snd (strtod v) = v then None else Some (fst (strtod v)))"

definition lens_edge_z :: "string option \<Rightarrow> dbl" where
  "lens_edge_z conf = (case conf_double ''lens_hall_edge_z_mm'' conf of Some z \<Rightarrow> z | None \<Rightarrow> Fin LENS_EDGE_Z_DEFAULT)"

definition stop_count :: "string \<Rightarrow> int \<Rightarrow> string option \<Rightarrow> int \<times> bool" where
  "stop_count key fallback conf =
     (case conf_double key conf of
        Some (Fin n) \<Rightarrow> if 1 \<le> n \<and> n \<le> of_int LENS_STOP_STEPS_MAX then (\<lfloor>n\<rfloor>, True) else (fallback, False)
      | _ \<Rightarrow> (fallback, False))"

text \<open>Down, up, and whether both are the card's.\<close>

definition lens_window :: "string option \<Rightarrow> int \<times> int \<times> bool" where
  "lens_window conf =
     (let d = stop_count ''lens_stop_below_steps'' LENS_WINDOW_DOWN conf;
          u = stop_count ''lens_stop_above_steps'' LENS_WINDOW_UP conf
      in (fst d, fst u, snd d \<and> snd u))"

section \<open>The frame\<close>

definition lens_z_of_k :: "real \<Rightarrow> real \<Rightarrow> real \<Rightarrow> real" where
  "lens_z_of_k edge_z spm k = edge_z + k / spm"

definition lens_reach :: "real \<Rightarrow> real \<Rightarrow> int \<Rightarrow> int \<Rightarrow> real \<times> real" where
  "lens_reach edge_z spm down up = (lens_z_of_k edge_z spm (of_int (- down)), lens_z_of_k edge_z spm (of_int up))"

definition lens_envelope :: "real \<Rightarrow> real \<Rightarrow> int \<Rightarrow> int \<Rightarrow> real \<times> real" where
  "lens_envelope edge_z spm down up =
     (lens_z_of_k edge_z spm (of_int (- (down + 1))), lens_z_of_k edge_z spm (of_int (up + 1)))"

text \<open>\<open>lround\<close>: the nearest integer, halves away from zero.\<close>

definition lround :: "real \<Rightarrow> int" where
  "lround r = (if r < 0 then - \<lfloor>- r + 1 / 2\<rfloor> else \<lfloor>r + 1 / 2\<rfloor>)"

definition ladder_k :: "int \<Rightarrow> int \<Rightarrow> nat \<Rightarrow> nat \<Rightarrow> int" where
  "ladder_k down up n i =
     (if n < 2 then up else lround (of_int up - of_int (up + down) * of_nat i / of_nat (n - 1)))"

definition lens_ladder_k :: "int \<Rightarrow> int \<Rightarrow> nat \<Rightarrow> int list" where
  "lens_ladder_k down up n = List.map (ladder_k down up n) [0..<n]"

section \<open>A line that moves Z\<close>

text \<open>The scan from \<open>p\<close>, with the character before it.\<close>

fun scan_z :: "char \<Rightarrow> string \<Rightarrow> dbl option" where
  "scan_z prev [] = None"
| "scan_z prev (c # r) =
     (if c = CHR '';'' \<or> c = newline \<or> c = cret then None
      else if c = CHR ''Z'' \<and> prev = space
      then if snd (strtod r) = r then None else Some (fst (strtod r))
      else scan_z c r)"

definition lens_line_z :: "string \<Rightarrow> dbl option" where
  "lens_line_z line =
     (let l = dropWhile (\<lambda>c. c = space \<or> c = CHR 0x09) line
      in if starts_with ''G0 '' l \<or> starts_with ''G1 '' l \<or> starts_with ''G00 '' l \<or> starts_with ''G01 '' l
         then scan_z (l ! 1) (drop 2 l) else None)"

section \<open>The window stands in its range\<close>

lemma stop_count_range:
  "1 \<le> fallback \<Longrightarrow> fallback \<le> LENS_STOP_STEPS_MAX \<Longrightarrow>
   1 \<le> fst (stop_count key fallback conf) \<and> fst (stop_count key fallback conf) \<le> LENS_STOP_STEPS_MAX"
  by (auto simp: stop_count_def LENS_STOP_STEPS_MAX_def le_floor_iff floor_le_iff split: option.splits dbl.splits)

lemma lens_window_range:
  "lens_window conf = (down, up, carded) \<Longrightarrow> 1 \<le> down \<and> down \<le> 40 \<and> 1 \<le> up \<and> up \<le> 40"
  using stop_count_range [of LENS_WINDOW_DOWN "''lens_stop_below_steps''" conf]
    stop_count_range [of LENS_WINDOW_UP "''lens_stop_above_steps''" conf]
  by (auto simp: lens_window_def Let_def LENS_WINDOW_DOWN_def LENS_WINDOW_UP_def LENS_STOP_STEPS_MAX_def)

lemma z_of_k_mono: "0 < spm \<Longrightarrow> k \<le> k' \<Longrightarrow> lens_z_of_k e spm k \<le> lens_z_of_k e spm k'"
  by (simp add: lens_z_of_k_def divide_right_mono)

lemma z_of_k_strict: "0 < spm \<Longrightarrow> k < k' \<Longrightarrow> lens_z_of_k e spm k < lens_z_of_k e spm k'"
  by (simp add: lens_z_of_k_def divide_strict_right_mono)

section \<open>The ladder\<close>

lemma lround_of_int [simp]: "lround (of_int k) = k"
proof -
  have "\<lfloor>real_of_int k + 1 / 2\<rfloor> = k" "\<lfloor>real_of_int (- k) + 1 / 2\<rfloor> = - k" by linarith+
  then show ?thesis by (simp add: lround_def)
qed

lemma lround_mono: "r \<le> s \<Longrightarrow> lround r \<le> lround s"
  unfolding lround_def by (auto intro: floor_mono; linarith)

lemma ladder_first: "ladder_k down up n 0 = up"
  using lround_of_int [of up] by (simp add: ladder_k_def)

lemma ladder_last: "2 \<le> n \<Longrightarrow> ladder_k down up n (n - 1) = - down"
  using lround_of_int [of "- down"] by (simp add: ladder_k_def)

lemma ladder_falls:
  assumes "0 \<le> up + down" "i \<le> j"
  shows "ladder_k down up n j \<le> ladder_k down up n i"
proof -
  have "real_of_int (up + down) * of_nat i \<le> real_of_int (up + down) * of_nat j"
    using assms by (intro mult_left_mono) (simp_all del: of_int_add)
  then have "real_of_int (up + down) * of_nat i / real (n - 1) \<le> real_of_int (up + down) * of_nat j / real (n - 1)"
    by (rule divide_right_mono) simp
  then show ?thesis unfolding ladder_k_def by (auto intro: lround_mono)
qed

text \<open>Every line of the ladder is a whole half-step of the window: the ladder starts at its top, never
rises, and ends at its bottom; and each Z it is turned into lies strictly inside the envelope.\<close>

lemma ladder_in_envelope:
  assumes "lens_window conf = (down, up, carded)" "0 < spm" "i < n"
  shows "- down \<le> ladder_k down up n i \<and> ladder_k down up n i \<le> up \<and>
    fst (lens_envelope e spm down up) < lens_z_of_k e spm (of_int (ladder_k down up n i)) \<and>
    lens_z_of_k e spm (of_int (ladder_k down up n i)) < snd (lens_envelope e spm down up)"
proof -
  have w: "1 \<le> down" "1 \<le> up" using lens_window_range [OF assms(1)] by auto
  have hi: "ladder_k down up n i \<le> up"
    using ladder_falls [of up down 0 i n] ladder_first [of down up n] w by simp
  have lo: "- down \<le> ladder_k down up n i"
  proof (cases "2 \<le> n")
    case True
    then show ?thesis using ladder_falls [of up down i "n - 1" n] ladder_last [of n down up] w assms(3) by simp
  next
    case False
    then show ?thesis using w by (simp add: ladder_k_def)
  qed
  have "real_of_int (- (down + 1)) < of_int (ladder_k down up n i)" "real_of_int (ladder_k down up n i) < of_int (up + 1)"
    using lo hi by linarith+
  with lo hi show ?thesis
    using z_of_k_strict [OF assms(2)] unfolding lens_envelope_def by (metis fst_conv snd_conv)
qed

section \<open>A count reads back\<close>

lemma mantissa_digits: "mantissa 10 (digits_of n) = Some (of_nat n, [])"
proof -
  have t: "takeWhile (is_dig 10) (digits_of n) = digits_of n" "dropWhile (is_dig 10) (digits_of n) = []"
    using takeWhile_digits [of "[]" n] by simp_all
  have "digits_of n \<noteq> []" using digits_of_hd [of n] by auto
  with t show ?thesis unfolding mantissa_def Let_def t by simp
qed

lemma strtod_digits:
  assumes "0 < n"
  shows "strtod (digits_of n) = (Fin (of_nat n), [])"
proof -
  obtain c ds where hd: "digits_of n = c # ds" and dc: "is_digit c" using digits_of_hd by metis
  have sp: "dropWhile is_cspace (digits_of n) = digits_of n"
    using dc hd by (auto simp: is_cspace_def char_class_defs)
  have sg: "sign_of (digits_of n) = (False, digits_of n)"
    using dc hd by (auto simp: sign_of_def char_class_defs)
  have nx: "\<not> ci_prefix ''infinity'' (digits_of n)" "\<not> ci_prefix ''inf'' (digits_of n)"
    "\<not> ci_prefix ''nan'' (digits_of n)"
    using dc hd by (auto simp: ci_prefix_def starts_with_def lower_c_def char_class_defs)
  have hx: "\<not> ci_prefix ''0x'' (digits_of n)"
  proof (cases ds)
    case Nil
    with hd show ?thesis by (auto simp: ci_prefix_def starts_with_def)
  next
    case (Cons d ds')
    then have "is_digit d" using digits_of_digits [of n] hd by auto
    with hd Cons show ?thesis
      by (auto simp: ci_prefix_def starts_with_def lower_c_def char_class_defs)
  qed
  show ?thesis by (simp add: strtod_def sp sg nx hx mantissa_digits exponent_def Let_def)
qed

lemma stop_count_shown:
  assumes "settings_get 32 key conf = Some (show_nat n)" "1 \<le> n" "n \<le> 40"
  shows "stop_count key fallback conf = (int n, True)"
proof -
  have "strtod (show_nat n) = (Fin (of_nat n), [])" "show_nat n \<noteq> []"
    using strtod_digits [of n] digits_of_hd [of n] assms(2) by (auto simp: show_nat_def)
  then have "conf_double key conf = Some (Fin (of_nat n))" using assms(1) by (simp add: conf_double_def)
  then show ?thesis using assms(2,3) by (simp add: stop_count_def LENS_STOP_STEPS_MAX_def)
qed

end
