(* ===== verification/Lenstravel.thy ===== *)
theory Lenstravel
  imports Lensfind Lens Setdefs
begin

text \<open>
  The lens travel check (\<open>run_lens_travel\<close> of \<open>src/wizdark.c\<close>): the lens referenced, its stops found,
  the window written, and the lens put back on its edge whatever came of it. The controller is stopped
  throughout; that stop and the settling of the kernel are outside.
\<close>

section \<open>The reference passes\<close>

datatype until = At nat | Failed | Never

text \<open>\<open>z_step_until\<close>: the steps left of 200, the count so far.\<close>

fun z_step_until :: "bench \<Rightarrow> bool \<Rightarrow> nat \<Rightarrow> nat \<Rightarrow> zlog \<Rightarrow> until \<times> zlog" where
  "z_step_until w at_home c 0 h = (Never, h)"
| "z_step_until w at_home c (Suc left) h =
     (case z_hall_home w h of
        None \<Rightarrow> (Failed, h)
      | Some b \<Rightarrow>
          if b = at_home then (At c, h)
          else let h = z_wr at_home # h
               in if \<not> wrote w h then (Failed, h)
                  else let h = Nap 180 # h
                       in if aborted w h then (Failed, h) else z_step_until w at_home (c + 1) left h)"

definition step_until :: "bench \<Rightarrow> bool \<Rightarrow> zlog \<Rightarrow> until \<times> zlog" where
  "step_until w at_home h = z_step_until w at_home 0 200 h"

text \<open>The passes, from the position \<open>pos\<close>; the positions they end at, in order.\<close>

fun ref_passes :: "bench \<Rightarrow> nat \<Rightarrow> int \<Rightarrow> int list \<Rightarrow> zlog \<Rightarrow> (until + int list) \<times> zlog" where
  "ref_passes w 0 pos passes h = (Inr passes, h)"
| "ref_passes w (Suc n) pos passes h =
     (case step_until w False h of
        (At c, h) \<Rightarrow>
          (case step_until w True h of
             (At c', h) \<Rightarrow>
               let pos = pos - int c * 2 + int c' * 2 in ref_passes w n pos (passes @ [pos]) h
           | (e, h) \<Rightarrow> (Inl e, h))
      | (e, h) \<Rightarrow> (Inl e, h))"

text \<open>0, or the return code of the step that failed, or -3 when the passes disagree.\<close>

definition z_reference :: "bench \<Rightarrow> int \<Rightarrow> zlog \<Rightarrow> int \<times> zlog" where
  "z_reference w npass h =
     (let npass = (if npass < 1 then 1 else if 5 < npass then 5 else npass);
          code = (\<lambda>e. if e = Never then - 2 else - 1);
          h = Wr ''head/z_enable'' ''0'' # Wr ''head/z_mode'' ''0'' # Wr ''head/z_current'' ''0'' # h;
          (rc, h) =
            (case step_until w False h of
               (At _, h) \<Rightarrow>
                 (case step_until w True h of
                    (At _, h) \<Rightarrow>
                      (case ref_passes w (nat npass) 0 [] h of
                         (Inr passes, h) \<Rightarrow> (if wizcalc_z_concur passes 4 then 0 else - 3, h)
                       | (Inl e, h) \<Rightarrow> (code e, h))
                  | (e, h) \<Rightarrow> (code e, h))
             | (e, h) \<Rightarrow> (code e, h))
      in (rc, Wr ''head/z_mode'' ''1'' # Wr ''head/z_current'' ''1'' # h))"

section \<open>The check\<close>

text \<open>The wizards' way to the settings: each value judged, then all of them in one write.\<close>

definition write_settings :: "(string \<times> string) list \<Rightarrow> bool \<Rightarrow> nat \<Rightarrow> string option \<Rightarrow> string option \<times> string option" where
  "write_settings kvs io elen conf =
     (case List.find (\<lambda>kv. \<not> setting_valid (Some (fst kv)) (Some (snd kv))) kvs of
        Some (k, v) \<Rightarrow> (Some (fit elen (''invalid value for '' @ k @ '': '' @ v)), conf)
      | None \<Rightarrow>
          (case settings_set_many kvs io conf of
             (True, conf') \<Rightarrow> (None, conf')
           | (False, conf') \<Rightarrow> (Some (fit elen ''cannot write the settings''), conf')))"

datatype travel = Unreferenced int | Aborted | Unwritten string | Window int int bool

text \<open>The run to its end, without the way out.\<close>

definition travel_run :: "bench \<Rightarrow> bool \<Rightarrow> string option \<Rightarrow> zlog \<Rightarrow> travel \<times> string option \<times> zlog" where
  "travel_run w io conf h =
     (case z_reference w 2 h of
        (rc, h) \<Rightarrow>
          if rc \<noteq> 0 then (Unreferenced rc, conf, h)
          else (case lensfind_run w h of
                  (st, h) \<Rightarrow>
                    if aborted w h then (Aborted, conf, h)
                    else let down = (if found st then below st else LENS_WINDOW_DOWN);
                             up = (if found st then above st else LENS_WINDOW_UP)
                         in (case write_settings [(''lens_stop_below_steps'', fit 8 (show_int down)),
                                                  (''lens_stop_above_steps'', fit 8 (show_int up))] io 96 conf of
                               (Some e, conf) \<Rightarrow> (Unwritten e, conf, h)
                             | (None, conf) \<Rightarrow> (Window down up (found st), conf, h))))"

text \<open>Whatever the exit, the lens is put back on its edge (\<open>wiz_lens_rehome\<close>).\<close>

definition run_lens_travel ::
    "bench \<Rightarrow> int \<Rightarrow> bool \<Rightarrow> bool \<Rightarrow> bool \<Rightarrow> string option \<Rightarrow> zlog \<Rightarrow> travel \<times> string option \<times> zlog" where
  "run_lens_travel w us lens placed io conf h =
     (case travel_run w io conf h of
        (r, conf, h) \<Rightarrow> (r, conf, snd (snd (lenshome_run (head.truncate w) us lens placed 96 h))))"

end
