(* ===== verification/LensfindProps.thy ===== *)
theory LensfindProps
  imports Lenstravel
begin

text \<open>
  What a finding is worth: the stops it names are where the steps were counted and the lens stands on
  its edge; the fans, the bus and the motor are given back however it ends, after a bounded number of
  steps; an abort leaves the lens where it is, and the check that called for it puts it back or takes
  the reference away.
\<close>

section \<open>Steps are bounded, holds are kept\<close>

text \<open>The holds a log took and gave back.\<close>

definition is_note :: "zop \<Rightarrow> bool" where
  "is_note x \<longleftrightarrow> (case x of Quiet _ \<Rightarrow> True | Listen _ \<Rightarrow> True | _ \<Rightarrow> False)"

definition held_log :: "zlog \<Rightarrow> zlog" where "held_log h = filter is_note h"

lemma held_log_simps [simp]:
  "held_log [] = []" "held_log (Wr a v # h) = held_log h" "held_log (Nap t # h) = held_log h"
  "held_log (Quiet b # h) = Quiet b # held_log h" "held_log (Listen b # h) = Listen b # held_log h"
  "held_log (z_wr up # h) = held_log h"
  by (simp_all add: held_log_def is_note_def z_wr_def)

lemma asked_z_wr [simp]: "steps_asked (z_wr up # h) = steps_asked h + 1"
  by (simp add: z_wr_def)

text \<open>What a piece of the finding does to a log: it takes no hold, and asks for at most \<open>n\<close> steps.\<close>

definition moves :: "nat \<Rightarrow> zlog \<Rightarrow> zlog \<Rightarrow> bool" where
  "moves n h h' \<longleftrightarrow> held_log h' = held_log h \<and> steps_asked h' \<le> steps_asked h + n"

lemma moves_refl [simp]: "moves n h h"
  by (simp add: moves_def)

lemma moves_trans: "moves m h h' \<Longrightarrow> moves n h' h'' \<Longrightarrow> m + n \<le> k \<Longrightarrow> moves k h h''"
  by (simp add: moves_def)

lemma z_until_moves: "z_until w home up c left h = (r, h') \<Longrightarrow> moves left h h'"
proof (induction left arbitrary: c h)
  case (Suc l)
  let ?h = "Nap Z_STEP_MS # z_wr up # h"
  have s: "moves 1 h (z_wr up # h)" "moves 1 h ?h" by (simp_all add: moves_def)
  have "z_until w home up (c + 1) l ?h = (r, h') \<Longrightarrow> moves (Suc l) h h'"
    using Suc.IH [of "c + 1" ?h] moves_trans [OF s(2)] by simp
  with Suc.prems s show ?case
    by (auto simp: Let_def moves_def split: option.splits if_splits)
qed simp

lemma listen_moves: "z_step_listen w up h = (r, h') \<Longrightarrow> moves 1 h h'"
  by (auto simp: z_step_listen_def moves_def Let_def split: if_splits)

lemma leg_moves: "leg_steps w up left rings h = (r, h') \<Longrightarrow> moves left h h'"
proof (induction left arbitrary: rings h)
  case (Suc l)
  obtain r1 h1 where 1: "z_step_listen w up h = (r1, h1)" by (cases "z_step_listen w up h")
  note m = listen_moves [OF 1]
  have "leg_steps w up l rings' h1 = (r, h') \<Longrightarrow> moves (Suc l) h h'" for rings'
    using moves_trans [OF m Suc.IH] by simp
  moreover have "moves (Suc l) h h1" using m by (simp add: moves_def)
  ultimately show ?case using Suc.prems 1 by (auto simp: Let_def split: option.splits if_splits)
qed simp

lemma back_off_moves: "moves n h (back_off up n h)"
proof (induction n arbitrary: h)
  case (Suc n)
  have "moves 1 h (Nap Z_STEP_MS # z_wr (\<not> up) # h)" by (simp add: moves_def)
  from moves_trans [OF this Suc] show ?case by simp
qed simp

lemma find_leg_moves: "z_find_leg w up len h = (r, h') \<Longrightarrow> moves 32 h h'"
proof -
  assume a: "z_find_leg w up len h = (r, h')"
  obtain r1 h1 where 1: "leg_steps w up FIND_MAX [] h = (r1, h1)" by (cases "leg_steps w up FIND_MAX [] h")
  have "h' = back_off up FIND_BACK h1" using a 1 by (simp add: z_find_leg_def Let_def)
  then show ?thesis
    using moves_trans [OF leg_moves [OF 1] back_off_moves [of FIND_BACK h1 up]]
    by (simp add: FIND_MAX_def FIND_BACK_def)
qed

lemma quiet_moves: "quiet_wait w n h = (r, h') \<Longrightarrow> moves 0 h h'"
proof (induction n arbitrary: h)
  case (Suc n)
  have "moves 0 h (Nap 1000 # h)" by (simp add: moves_def)
  with Suc.prems Suc.IH [of "Nap 1000 # h"] show ?case
    by (auto simp: Let_def moves_def split: if_splits)
qed simp

lemma find_above_moves: "find_above w st h = (st', h') \<Longrightarrow> moves 172 h h'"
proof -
  assume a: "find_above w st h = (st', h')"
  obtain r1 h1 where 1: "z_find_leg w True why_len h = (r1, h1)" by (cases "z_find_leg w True why_len h")
  obtain r2 h2 where 2: "z_until w False False 0 80 h1 = (r2, h2)" by (cases "z_until w False False 0 80 h1")
  obtain r3 h3 where 3: "z_until w True True 0 60 h2 = (r3, h3)" by (cases "z_until w True True 0 60 h2")
  note m = find_leg_moves [OF 1] z_until_moves [OF 2] z_until_moves [OF 3]
  have "h' = h1 \<or> h' = h2 \<or> h' = h3"
    using a 1 2 3 by (auto simp: find_above_def Let_def split: sum.splits option.splits if_splits)
  with m show ?thesis by (auto simp: moves_def)
qed

lemma find_stops_moves: "find_stops w h = (st', h') \<Longrightarrow> moves 284 h h'"
proof -
  assume a: "find_stops w h = (st', h')"
  obtain r1 h1 where 1: "z_find_leg w False why_len h = (r1, h1)" by (cases "z_find_leg w False why_len h")
  obtain r2 h2 where 2: "z_until w True True 0 80 h1 = (r2, h2)" by (cases "z_until w True True 0 80 h1")
  note m = find_leg_moves [OF 1] z_until_moves [OF 2]
  have "h' = h1 \<or> h' = h2 \<or> (\<exists>st. find_above w st h2 = (st', h'))"
    using a 1 2 by (auto simp: find_stops_def Let_def split: sum.splits option.splits if_splits)
  with m show ?thesis by (auto simp: moves_def dest!: find_above_moves)
qed

lemma to_edge_moves: "moves 140 h (to_edge w h)"
proof -
  have 1: "moves 60 h (snd (z_until w False False 0 60 h))"
    using z_until_moves [of w False False 0 60 h] by (metis prod.collapse)
  have 2: "moves 80 h1 (snd (z_until w True True 0 80 h1))" for h1
    using z_until_moves [of w True True 0 80 h1] by (metis prod.collapse)
  show ?thesis using 1 2 [of h] 2 [of "snd (z_until w False False 0 60 h)"]
    by (auto simp: to_edge_def Let_def moves_def)
qed

section \<open>What a finding found\<close>

lemma z_until_at: "z_until w home up c left h = (Some c', h') \<Longrightarrow> z_hall_home w h' = Some home"
  by (induction left arbitrary: c h) (auto simp: Let_def split: option.splits if_splits)

lemma leg_call:
  "leg_steps w up left rings h = (Some (rings', (call, slipped)), h') \<Longrightarrow> call \<noteq> 0 \<Longrightarrow> call \<le> length rings + left"
proof (induction left arbitrary: rings h)
  case (Suc l)
  have "fst (wizcalc_stop_call (rings @ [s])) \<le> length rings + 1" for s
    using first_call_hit [of "rings @ [s]" "[5..<length (rings @ [s]) + 1]"]
    by (cases "first_call (rings @ [s]) [5..<length (rings @ [s]) + 1]") (force simp: stop_call_first)
  then have c: "wizcalc_stop_call (rings @ [s]) = (call, slipped) \<Longrightarrow> call \<le> length rings + Suc l" for s
    by (metis add_Suc_right fst_conv le_add1 order_trans plus_1_eq_Suc add.commute add_Suc)
  have i: "leg_steps w up l (rings @ [s]) h1 = (Some (rings', (call, slipped)), h') \<Longrightarrow> call \<le> length rings + Suc l" for s h1
    using Suc.IH [of "rings @ [s]" h1] Suc.prems(2) by simp
  show ?case using Suc.prems(1) c i by (auto simp: Let_def split: option.splits if_splits prod.splits)
qed simp

lemma find_leg_found: "z_find_leg w up len h = (Inr call, h') \<Longrightarrow> 10 \<le> call \<and> call \<le> 30"
  using leg_call [of w up FIND_MAX "[]" h]
  by (auto simp: z_find_leg_def Let_def FIND_MAX_def FIND_MIN_def FIND_BACK_def
      split: prod.splits option.splits if_splits)

text \<open>What stands behind the second leg, and behind the first.\<close>

lemma find_above_found:
  assumes "find_above w st h = (st', h')" "found st'" "\<not> found st"
  shows "contact_below st' = contact_below st \<and> 10 \<le> contact_above st' \<and> contact_above st' \<le> 30 \<and>
    below st' = int (contact_below st) - 2 \<and> above st' = int (contact_above st') - 2 \<and> z_hall_home w h' = Some True"
  using assms
  by (auto simp: find_above_def Let_def FIND_BACK_def
      split: prod.splits sum.splits option.splits if_splits dest!: find_leg_found z_until_at)

definition counted_back :: "bench \<Rightarrow> int \<Rightarrow> bool" where
  "counted_back w n \<longleftrightarrow> (\<exists>h c h'. z_until w True True 0 80 h = (Some c, h') \<and> \<bar>int c - n\<bar> \<le> FIND_TOL)"

lemma find_stops_found:
  assumes "find_stops w h = (st, h')" "found st"
  shows "10 \<le> contact_below st \<and> contact_below st \<le> 30 \<and> 10 \<le> contact_above st \<and> contact_above st \<le> 30 \<and>
    below st = int (contact_below st) - 2 \<and> above st = int (contact_above st) - 2 \<and>
    z_hall_home w h' = Some True \<and> counted_back w (below st)"
proof -
  obtain r1 h1 where 1: "z_find_leg w False why_len h = (r1, h1)" by (cases "z_find_leg w False why_len h")
  obtain r2 h2 where 2: "z_until w True True 0 80 h1 = (r2, h2)" by (cases "z_until w True True 0 80 h1")
  from assms 1 2 obtain cb c where
    cb: "r1 = Inr cb" and c: "r2 = Some c" "\<bar>int c - (int cb - 2)\<bar> \<le> FIND_TOL"
    and a: "find_above w (found_none\<lparr>contact_below := cb\<rparr>) h2 = (st, h')"
    by (auto simp: find_stops_def Let_def found_none_def FIND_BACK_def split: sum.splits option.splits if_splits)
  from find_above_found [OF a assms(2)] find_leg_found [of w False why_len h cb h1] 1 2 cb c show ?thesis
    by (auto simp: found_none_def counted_back_def)
qed

lemma find_held_found:
  assumes "find_held w h = (st, h')" "found st"
  shows "\<exists>h0 e. find_stops w h0 = (st, e) \<and> h' = Quiet False # Listen False # e"
  using assms by (auto simp: find_held_def Let_def found_none_def split: prod.splits bool.splits if_splits)

lemma run_parts:
  "lensfind_run w h = (st, h') \<Longrightarrow>
   \<exists>h1. find_held w h = (st, h1) \<and> h' = Wr ''head/z_current'' ''1'' # (if found st then h1 else to_edge w h1)"
  by (auto simp: lensfind_run_def split: prod.splits)

section \<open>The finding's promises\<close>

lemma found_run:
  assumes "lensfind_run w h = (st, h')" "found st"
  shows "\<exists>h0 e. find_stops w h0 = (st, e) \<and> h' = Wr ''head/z_current'' ''1'' # Quiet False # Listen False # e"
  using run_parts [OF assms(1)] assms(2) by (auto dest: find_held_found)

lemma found_window:
  assumes "lensfind_run w h = (st, h')" "found st"
  shows "8 \<le> below st \<and> below st \<le> 28 \<and> 8 \<le> above st \<and> above st \<le> 28"
proof -
  obtain h0 e where "find_stops w h0 = (st, e)" using found_run [OF assms] by blast
  from find_stops_found [OF this assms(2)] show ?thesis by simp
qed

text \<open>A pair of stops that is reported found is two half-steps inside the contacts that were called,
at least eight and at most twenty-eight from the edge each way; the steps back from the lower one were
counted to agree within one; and the lens stands on its edge, with the bus closed, the fans let go
and the motor at its hold current.\<close>

theorem stops_found_stand:
  assumes "lensfind_run w h = (st, h')" "found st"
  shows "below st = int (contact_below st) - 2 \<and> 8 \<le> below st \<and> below st \<le> 28 \<and>
    above st = int (contact_above st) - 2 \<and> 8 \<le> above st \<and> above st \<le> 28 \<and> counted_back w (below st) \<and>
    (\<exists>e. h' = Wr ''head/z_current'' ''1'' # Quiet False # Listen False # e \<and> z_hall_home w e = Some True)"
proof -
  obtain h0 e where e: "find_stops w h0 = (st, e)" "h' = Wr ''head/z_current'' ''1'' # Quiet False # Listen False # e"
    using found_run [OF assms] by blast
  from find_stops_found [OF e(1) assms(2)] e(2) show ?thesis
    by (intro conjI exI [of _ e]; (blast | linarith))
qed

text \<open>C35. However a finding ends, whatever the head answers: the fans were held quiet exactly once and
let go, the accelerometer's bus was closed if it was opened, the motor is at its hold current, and no
more than 424 half-steps were asked for.\<close>

theorem finding_gives_back:
  assumes "lensfind_run w h = (st, h')"
  shows "held_log h' \<in> {Quiet False # Quiet True # held_log h,
                        Quiet False # Listen True # Quiet True # held_log h,
                        Quiet False # Listen False # Listen True # Quiet True # held_log h} \<and>
    hd h' = Wr ''head/z_current'' ''1'' \<and> steps_asked h' \<le> steps_asked h + 424"
proof -
  obtain h1 where 1: "find_held w h = (st, h1)"
    and h': "h' = Wr ''head/z_current'' ''1'' # (if found st then h1 else to_edge w h1)"
    using run_parts [OF assms] by blast
  obtain q h2 where 2: "quiet_wait w FIND_QUIET_S (find_start h) = (q, h2)"
    by (cases "quiet_wait w FIND_QUIET_S (find_start h)")
  obtain st3 h3 where 3: "find_stops w (Listen True # h2) = (st3, h3)" by (cases "find_stops w (Listen True # h2)")
  have s: "held_log (find_start h) = Quiet True # held_log h" "steps_asked (find_start h) = steps_asked h"
    by (simp_all add: find_start_def)
  have h1: "h1 = Quiet False # h2 \<or> h1 = Quiet False # Listen True # h2 \<or> h1 = Quiet False # Listen False # h3"
    using 1 2 3 by (auto simp: find_held_def Let_def split: bool.splits if_splits)
  show ?thesis
    using h1 h' s quiet_moves [OF 2] find_stops_moves [OF 3] to_edge_moves [of h1 w]
    by (auto simp: moves_def)
qed

text \<open>An honest bench: the sensor is over its edge from position 0 up, every write succeeds, every burst
reads the same; an abort is asked for when the fifth half-step has been taken.\<close>

definition aborted_bench :: bench where
  "aborted_bench =
     \<lparr>hall = (\<lambda>h. if 0 \<le> went_up h then 0 else 1), wrote = (\<lambda>_. True), bursts = (\<lambda>_. (Some (0, 0, 16000), [])),
      aborted = (\<lambda>h. 5 \<le> steps_asked h), opens = (\<lambda>_. True)\<rparr>"

text \<open>An abort in the middle of the listening leaves the lens two half-steps below its edge, off the
sensor: the walk back that is to end on the edge gives up after its first step, as every wait does
once an abort is asked for. The reason filed is the accelerometer's.\<close>

theorem abort_strands_lens:
  "\<exists>w st h'. lensfind_run w [] = (st, h') \<and> \<not> found st \<and> went_up h' = - 2 \<and> z_hall_home w h' = Some False \<and>
     why st = ''the head accelerometer could not be read''"
proof -
  let ?r = "lensfind_run aborted_bench []"
  have "\<not> found (fst ?r) \<and> went_up (snd ?r) = - 2 \<and> z_hall_home aborted_bench (snd ?r) = Some False \<and>
     why (fst ?r) = ''the head accelerometer could not be read''"
    by code_simp
  then show ?thesis by (metis prod.collapse)
qed

section \<open>The check that uses it\<close>

text \<open>C34. Whatever the lens travel check came to - a reference that failed, a finding aborted with the
lens off its edge, settings that could not be written - a reference marker that stands after it is
the marker of a hunt that left the sensor and came back to it, with the motor at rest over it.\<close>

theorem travel_keeps_reference:
  assumes "run_lens_travel w us lens placed io conf h = (r, conf', h')" "marker h' \<noteq> None"
  shows "\<exists>off on e. h' = Mark off on # rest_motor e \<and> over_sensor (head.truncate w) e = Some True"
proof -
  obtain r1 c1 h1 where 1: "travel_run w io conf h = (r1, c1, h1)" by (cases "travel_run w io conf h")
  obtain rc d h2 where 2: "lenshome_run (head.truncate w) us lens placed 96 h1 = (rc, d, h2)"
    by (cases "lenshome_run (head.truncate w) us lens placed 96 h1")
  have h: "h' = h2" using assms(1) 1 2 by (simp add: run_lens_travel_def)
  with reference_law [OF 2] assms(2) obtain off on e where
    e: "over_sensor (head.truncate w) e = Some True" "h' = (if placed then [Mark off on] else []) @ rest_motor e"
    and m: "\<exists>x. h' = x @ rest_motor e"
    by blast
  show ?thesis
  proof (cases placed)
    case True
    with e show ?thesis by auto
  next
    case False
    with e(2) have h': "h' = rest_motor e" by simp
    from reference_law [OF 2] assms(2) h False obtain off on where
      "h' = rest_motor (sweep_tail us True on @ sweep_tail us False off @ hunt_start h1)"
      by auto
    moreover have "marker (sweep_tail us True on @ sweep_tail us False off @ hunt_start h1) = None"
      for us on off
      by (induction on; induction off) (auto simp: sweep_tail_def hunt_start_def)
    ultimately show ?thesis using assms(2) by (simp add: rest_motor_def)
  qed
qed

text \<open>The two counts of a window are what the settings take and what \<open>lens_window\<close> reads.\<close>

lemma count_text_ok:
  assumes "1 \<le> n" "n \<le> 40"
  shows "fit 8 (show_nat n) = show_nat n" "valid_stop_steps (show_nat n)"
    "setting_valid (Some ''lens_stop_below_steps'') (Some (show_nat n))"
    "setting_valid (Some ''lens_stop_above_steps'') (Some (show_nat n))"
    "trimmed (show_nat n)" "one_line (show_nat n)" "show_nat n \<noteq> []" "fit 32 (show_nat n) = show_nat n"
    "length (show_nat n) \<le> 2"
proof -
  have l: "length (show_nat n) \<le> 2"
    using digits_of_length [of n 2] assms by (simp add: show_nat_def)
  then show "length (show_nat n) \<le> 2" "fit 8 (show_nat n) = show_nat n" "fit 32 (show_nat n) = show_nat n"
    by (simp_all add: fit_id)
  have d: "c \<in> set (show_nat n) \<Longrightarrow> is_digit c" for c using digits_of_digits by (simp add: show_nat_def)
  show ne: "show_nat n \<noteq> []" using digits_of_hd [of n] by (auto simp: show_nat_def)
  have "\<not> is_cspace (hd (show_nat n))" "\<not> is_cspace (last (show_nat n))"
    using d [of "hd (show_nat n)"] d [of "last (show_nat n)"] ne by (auto simp: is_cspace_def char_class_defs)
  then show "trimmed (show_nat n)" by (simp add: trimmed_def)
  show "one_line (show_nat n)" using d [of newline] d [of "CHR 0x00"] by (auto simp: one_line_def char_class_defs)
  show v: "valid_stop_steps (show_nat n)"
    using l assms strtod_digits [of n]
    by (simp add: valid_stop_steps_def valid_range_def num_in_def value_max_len_def show_nat_def digits_of_hd)
  show "setting_valid (Some ''lens_stop_below_steps'') (Some (show_nat n))"
    "setting_valid (Some ''lens_stop_above_steps'') (Some (show_nat n))"
    using v by (simp_all add: setting_valid_def setting_defs_def)
qed

definition window_kvs :: "nat \<Rightarrow> nat \<Rightarrow> (string \<times> string) list" where
  "window_kvs d u = [(''lens_stop_below_steps'', show_nat d), (''lens_stop_above_steps'', show_nat u)]"

text \<open>What the check writes is judged valid, and is written.\<close>

lemma window_written:
  assumes "1 \<le> d" "d \<le> 40" "1 \<le> u" "u \<le> 40" and e: "write_settings (window_kvs d u) io 96 conf = (None, conf')"
    and c: "conf_lines conf ls" "length ls \<le> file_max_lines"
  shows "lens_window conf' = (int d, int u, True) \<and>
    (\<forall>len k. k \<noteq> ''lens_stop_below_steps'' \<and> k \<noteq> ''lens_stop_above_steps'' \<longrightarrow>
       settings_get len k conf' = settings_get len k conf)"
proof -
  have ok: "List.find (\<lambda>kv. \<not> setting_valid (Some (fst kv)) (Some (snd kv))) (window_kvs d u) = None"
    using assms(1-4) by (simp add: window_kvs_def count_text_ok)
  have s: "settings_set_many (window_kvs d u) io conf = (True, conf')"
    using e by (auto simp: write_settings_def ok split: prod.splits bool.splits)
  have t: "''lens_stop_below_steps'' \<in> fst ` set setting_defs" "''lens_stop_above_steps'' \<in> fst ` set setting_defs"
    by (simp_all add: setting_defs_def)
  have w: "list_all writable (window_kvs d u)" "distinct (List.map fst (window_kvs d u))"
    using count_text_ok [of d] count_text_ok [of u] table_writable [OF t(1), of "show_nat d"]
      table_writable [OF t(2), of "show_nat u"] assms(1-4)
    by (simp_all add: window_kvs_def)
  from update_conf [OF c w(2,1) s] have g: "settings_get len k conf' =
      (case map_of (window_kvs d u) k of None \<Rightarrow> settings_get len k conf | Some v \<Rightarrow> if v = [] then None else Some (fit len v))" for len k
    by blast
  have "settings_get 32 ''lens_stop_below_steps'' conf' = Some (show_nat d)"
    "settings_get 32 ''lens_stop_above_steps'' conf' = Some (show_nat u)"
    using assms(1-4) by (simp_all add: g window_kvs_def count_text_ok)
  from this [THEN stop_count_shown] assms(1-4) have "lens_window conf' = (int d, int u, True)"
    by (simp add: lens_window_def Let_def)
  moreover have "k \<noteq> ''lens_stop_below_steps'' \<and> k \<noteq> ''lens_stop_above_steps'' \<Longrightarrow>
      settings_get len k conf' = settings_get len k conf" for len k
    by (simp add: g window_kvs_def)
  ultimately show ?thesis by blast
qed

text \<open>C33. The window of the lens travel check reads back. Over a settings file of whole lines, a check that
ends with a window has written one that \<open>lens_window\<close> reads as the card's own, within the counts the
settings take, and has left every other key as it was.\<close>

theorem travel_window_reads_back:
  assumes "run_lens_travel w us lens placed io conf h = (Window down up card_found, conf', h')"
    and c: "conf_lines conf ls" "length ls \<le> file_max_lines"
  shows "lens_window conf' = (down, up, True) \<and> 8 \<le> down \<and> down \<le> 28 \<and> 8 \<le> up \<and> up \<le> 28 \<and>
    (\<forall>len k. k \<noteq> ''lens_stop_below_steps'' \<and> k \<noteq> ''lens_stop_above_steps'' \<longrightarrow>
       settings_get len k conf' = settings_get len k conf)"
proof -
  obtain h1 where "travel_run w io conf h = (Window down up card_found, conf', h1)"
    using assms(1) by (auto simp: run_lens_travel_def split: prod.splits)
  then obtain h2 st h3 where f: "lensfind_run w h2 = (st, h3)"
    and du: "down = (if found st then below st else LENS_WINDOW_DOWN)" "up = (if found st then above st else LENS_WINDOW_UP)"
    and ws: "write_settings [(''lens_stop_below_steps'', fit 8 (show_int down)),
                             (''lens_stop_above_steps'', fit 8 (show_int up))] io 96 conf = (None, conf')"
    by (auto simp: travel_run_def Let_def split: prod.splits if_splits option.splits)
  have r: "8 \<le> down" "down \<le> 28" "8 \<le> up" "up \<le> 28"
    using found_window [OF f] du by (auto simp: LENS_WINDOW_DOWN_def LENS_WINDOW_UP_def)
  have n: "1 \<le> nat down" "nat down \<le> 40" "1 \<le> nat up" "nat up \<le> 40" using r by auto
  have k: "[(''lens_stop_below_steps'', fit 8 (show_int down)), (''lens_stop_above_steps'', fit 8 (show_int up))] =
      window_kvs (nat down) (nat up)"
    using r count_text_ok(1) [OF n(1,2)] count_text_ok(1) [OF n(3,4)]
    by (simp add: window_kvs_def show_int_def show_nat_def)
  from window_written [OF n ws [unfolded k] c] r show ?thesis by simp
qed

section \<open>Benches they hold on\<close>

text \<open>A head that answers nothing on its bus: the reference is made, the stops are not found, and the
fallback is written.\<close>

definition deaf_bench :: bench where
  "deaf_bench =
     \<lparr>hall = (\<lambda>h. if 0 \<le> went_up h then 0 else 1), wrote = (\<lambda>_. True), bursts = (\<lambda>_. (None, [])),
      aborted = (\<lambda>_. False), opens = (\<lambda>_. False)\<rparr>"

lemma deaf_run:
  "fst (z_reference deaf_bench 2 []) = 0"
  "\<not> found (fst (lensfind_run deaf_bench (snd (z_reference deaf_bench 2 []))))"
  by code_simp+

lemma deaf_travel:
  "\<exists>conf' h'. run_lens_travel deaf_bench 180000 True True True None [] = (Window 10 12 False, conf', h')"
proof -
  have t: "show_int 10 = show_nat 10" "show_int 12 = show_nat 12" by (simp_all add: show_int_def show_nat_def)
  have v: "setting_valid (Some ''lens_stop_below_steps'') (Some (show_nat 10))"
    "setting_valid (Some ''lens_stop_above_steps'') (Some (show_nat 12))"
    by (simp_all add: count_text_ok)
  obtain conf' where s: "settings_set_many (window_kvs 10 12) True None = (True, conf')"
    using count_text_ok(7) [of 10] by (simp add: settings_set_many_def window_kvs_def)
  have k: "[(''lens_stop_below_steps'', fit 8 (show_int 10)), (''lens_stop_above_steps'', fit 8 (show_int 12))] = window_kvs 10 12"
    by (simp add: t window_kvs_def count_text_ok)
  have w: "write_settings (window_kvs 10 12) True 96 None = (None, conf')"
    using v s by (simp add: write_settings_def window_kvs_def)
  obtain st h3 where f: "lensfind_run deaf_bench (snd (z_reference deaf_bench 2 [])) = (st, h3)" by force
  with deaf_run(2) have "\<not> found st" by simp
  moreover have "aborted deaf_bench h3 = False" by (simp add: deaf_bench_def)
  moreover obtain h2 where "z_reference deaf_bench 2 [] = (0, h2)" using deaf_run(1) by (metis prod.collapse)
  ultimately have "travel_run deaf_bench True None [] =
      (Window 10 12 False, conf', h3)"
    using f w by (simp add: travel_run_def LENS_WINDOW_DOWN_def LENS_WINDOW_UP_def k)
  then show ?thesis by (simp add: run_lens_travel_def)
qed

lemma travel_window_reads_back_witness:
  "\<exists>conf' h'. run_lens_travel deaf_bench 180000 True True True None [] = (Window 10 12 False, conf', h') \<and>
     lens_window conf' = (10, 12, True)"
proof -
  obtain conf' h' where r: "run_lens_travel deaf_bench 180000 True True True None [] = (Window 10 12 False, conf', h')"
    using deaf_travel by blast
  have "conf_lines None []" "length ([] :: string list) \<le> file_max_lines" by (simp_all add: conf_lines_def file_max_lines_def)
  from travel_window_reads_back [OF r this] r show ?thesis by blast
qed

lemma travel_keeps_reference_witness:
  "\<exists>r conf' h'. run_lens_travel deaf_bench 180000 True True True None [] = (r, conf', h') \<and> marker h' \<noteq> None \<and>
     (\<exists>off on e. h' = Mark off on # rest_motor e \<and> over_sensor (head.truncate deaf_bench) e = Some True)"
proof -
  let ?h = "snd (lensfind_run deaf_bench (snd (z_reference deaf_bench 2 [])))"
  have m: "marker (snd (snd (lenshome_run (head.truncate deaf_bench) 180000 True True 96 ?h))) \<noteq> None"
    by code_simp
  obtain r conf' h' where r: "run_lens_travel deaf_bench 180000 True True True None [] = (r, conf', h')"
    by (metis prod.collapse)
  obtain rc h2 where z: "z_reference deaf_bench 2 [] = (rc, h2)" by force
  have "rc = 0" using deaf_run(1) z by simp
  obtain st h3 where f: "lensfind_run deaf_bench h2 = (st, h3)" by force
  have "aborted deaf_bench h3 = False" by (simp add: deaf_bench_def)
  then have "snd (snd (travel_run deaf_bench True None [])) = h3"
    using z f \<open>rc = 0\<close> by (simp add: travel_run_def Let_def split: prod.splits option.splits)
  then have "h' = snd (snd (lenshome_run (head.truncate deaf_bench) 180000 True True 96 h3))"
    using r by (auto simp: run_lens_travel_def split: prod.splits)
  with m z f have "marker h' \<noteq> None" by simp
  from travel_keeps_reference [OF r this] r this show ?thesis by blast
qed

text \<open>A head whose stops ring: every second half-step rings until the tenth either way, and the sensor
lets go three half-steps under the edge it trips at.\<close>

fun sensed :: "zlog \<Rightarrow> int \<times> bool" where
  "sensed [] = (0, True)"
| "sensed (Wr a v # h) =
     (case sensed h of
        (p, over) \<Rightarrow>
          if hd a = CHR ''c''
          then (if v = ''1'' then (p + 1, if 0 \<le> p + 1 then True else over) else (p - 1, if p \<le> - 2 then False else over))
          else (p, over))"
| "sensed (_ # h) = sensed h"

definition ringing_bench :: bench where
  "ringing_bench =
     \<lparr>hall = (\<lambda>h. if snd (sensed h) then 0 else 1), wrote = (\<lambda>_. True),
      bursts = (\<lambda>h. case sensed h of (p, _) \<Rightarrow>
        (Some (0, 0, 0), [Some (0, 0, if p mod 2 = 0 \<and> - 11 < p \<and> p < 11 then 16000 else 2000)])),
      aborted = (\<lambda>_. False), opens = (\<lambda>_. True)\<rparr>"

lemma ringing_found:
  "found (fst (lensfind_run ringing_bench [])) \<and> below (fst (lensfind_run ringing_bench [])) = 10 \<and>
   above (fst (lensfind_run ringing_bench [])) = 10"
  by code_simp

lemma stops_found_stand_witness:
  "\<exists>st h'. lensfind_run ringing_bench [] = (st, h') \<and> found st \<and> below st = 10 \<and> above st = 10 \<and> counted_back ringing_bench 10"
proof -
  obtain st h' where r: "lensfind_run ringing_bench [] = (st, h')" by force
  have "found st" "below st = 10" "above st = 10" using ringing_found r by simp_all
  with stops_found_stand [OF r] r show ?thesis by metis
qed

lemma finding_gives_back_witness:
  "\<exists>st h'. lensfind_run deaf_bench [] = (st, h') \<and> steps_asked h' \<le> 424 \<and> hd h' = Wr ''head/z_current'' ''1'' \<and>
     held_log h' \<noteq> []"
proof -
  obtain st h' where r: "lensfind_run deaf_bench [] = (st, h')" by force
  from finding_gives_back [OF r] r show ?thesis by auto
qed

end
