(* ===== verification/Sanitize.thy ===== *)
theory Sanitize
  imports Cnum
begin

text \<open>
  The redaction of the log export (\<open>src/sanitize.c\<close>): known values replaced by their tag, then the
  classes of patterns by numbered placeholders. \<open>regexec\<close> is modelled for the patterns the code
  compiles: the leftmost of the matches, the longest of those, and the groups as POSIX splits them.
  Allocation succeeds.
\<close>

section \<open>Characters and substrings\<close>

definition is_word :: "char \<Rightarrow> bool" where
  "is_word c \<longleftrightarrow> is_alnum c \<or> c = CHR ''_''"

definition is_alpha :: "char \<Rightarrow> bool" where
  "is_alpha c \<longleftrightarrow> is_lower c \<or> is_upper c"

definition is_xdigit :: "char \<Rightarrow> bool" where
  "is_xdigit c \<longleftrightarrow> is_digit c \<or> 97 \<le> byte c \<and> byte c \<le> 102 \<or> 65 \<le> byte c \<and> byte c \<le> 70"

lemma is_xdigit_code [code]:
  "is_xdigit (Char b0 b1 b2 b3 b4 b5 b6 b7) \<longleftrightarrow>
     \<not> b7 \<and> (\<not> b6 \<and> b5 \<and> b4 \<and> (\<not> b3 \<or> \<not> b2 \<and> \<not> b1) \<or>
       b6 \<and> \<not> b4 \<and> \<not> b3 \<and> (b0 \<or> b1 \<or> b2) \<and> \<not> (b0 \<and> b1 \<and> b2))"
  by (cases b0; cases b1; cases b2; cases b3; cases b4; cases b5; cases b6; cases b7;
      simp add: char_class_defs is_xdigit_def)

definition contains :: "string \<Rightarrow> string \<Rightarrow> bool" where
  "contains p s \<longleftrightarrow> list_ex (\<lambda>i. starts_with p (drop i s)) [0..<Suc (length s)]"

text \<open>A character of a C string, the NUL of its end as none.\<close>

definition at_char :: "(char \<Rightarrow> bool) \<Rightarrow> string \<Rightarrow> bool" where
  "at_char P s \<longleftrightarrow> s \<noteq> [] \<and> P (hd s)"

definition prev_char :: "(char \<Rightarrow> bool) \<Rightarrow> char option \<Rightarrow> bool" where
  "prev_char P c \<longleftrightarrow> (case c of None \<Rightarrow> False | Some c \<Rightarrow> P c)"

section \<open>The object\<close>

datatype cl = CL_IP | CL_IP6 | CL_MAC | CL_EMAIL | CL_HEX | CL_B64

definition cl_tag :: "cl \<Rightarrow> string" where
  "cl_tag c = (case c of CL_IP \<Rightarrow> ''IP'' | CL_IP6 \<Rightarrow> ''IP6'' | CL_MAC \<Rightarrow> ''MAC'' | CL_EMAIL \<Rightarrow> ''EMAIL''
                       | CL_HEX \<Rightarrow> ''HEX'' | CL_B64 \<Rightarrow> ''B64'')"

record sanitizer =
  known :: "(string \<times> string) list"
  cls :: "cl \<Rightarrow> string list"
  stats :: "(string \<times> nat) list"

definition san_new :: sanitizer where
  "san_new = \<lparr>known = [], cls = (\<lambda>_. []), stats = []\<rparr>"

text \<open>The count of a tag, whose row keeps 31 characters of it.\<close>

fun count_in :: "string \<Rightarrow> (string \<times> nat) list \<Rightarrow> (string \<times> nat) list" where
  "count_in tag [] = [(fit 32 tag, 1)]"
| "count_in tag ((t, n) # r) = (if t = tag then (t, n + 1) # r else (t, n) # count_in tag r)"

definition san_count :: "sanitizer \<Rightarrow> string \<Rightarrow> sanitizer" where
  "san_count s tag = s\<lparr>stats := count_in tag (stats s)\<rparr>"

fun index_in :: "string \<Rightarrow> nat \<Rightarrow> string list \<Rightarrow> nat option" where
  "index_in v i [] = None"
| "index_in v i (x # xs) = (if x = v then Some i else index_in v (i + 1) xs)"

definition class_index :: "string list \<Rightarrow> string \<Rightarrow> nat \<times> string list" where
  "class_index vs v = (case index_in v 0 vs of Some i \<Rightarrow> (i + 1, vs) | None \<Rightarrow> (length vs + 1, vs @ [v]))"

definition placeholder :: "sanitizer \<Rightarrow> cl \<Rightarrow> string \<Rightarrow> string \<times> sanitizer" where
  "placeholder s c v =
     (case class_index (cls s c) v of
        (i, vs) \<Rightarrow> (fit 48 (''<'' @ cl_tag c @ ''-'' @ show_nat i @ ''>''),
                    san_count (s\<lparr>cls := (cls s)(c := vs)\<rparr>) (cl_tag c)))"

text \<open>The longest first: a value goes behind those at least as long.\<close>

fun insert_known :: "string \<times> string \<Rightarrow> (string \<times> string) list \<Rightarrow> (string \<times> string) list" where
  "insert_known kv [] = [kv]"
| "insert_known kv (x # xs) =
     (if length (snd x) < length (snd kv) then kv # x # xs else x # insert_known kv xs)"

definition san_add_known :: "sanitizer \<Rightarrow> string option \<Rightarrow> string option \<Rightarrow> sanitizer" where
  "san_add_known s tag value =
     (case (tag, value) of
        (Some t, Some v) \<Rightarrow>
          if length v < 3 \<or> list_all is_digit v \<and> length v < 5 then s
          else if v \<in> snd ` set (known s) then s
          else s\<lparr>known := insert_known (t, v) (known s)\<rparr>
      | _ \<Rightarrow> s)"

section \<open>Known values\<close>

text \<open>One value over a line, with the character before: what comes out and how often it was found.\<close>

function known_scan :: "string \<Rightarrow> string \<Rightarrow> char option \<Rightarrow> string \<Rightarrow> string \<times> nat" where
  "known_scan tag v prev [] = ([], 0)"
| "known_scan tag v prev (c # s) =
     (if starts_with v (c # s) \<and> \<not> prev_char is_word prev \<and> \<not> at_char is_word (drop (length v) (c # s))
      then (case known_scan tag v (Some (last v)) (drop (length v - 1) s) of
              (r, n) \<Rightarrow> (''<'' @ tag @ ''>'' @ r, n + 1))
      else (case known_scan tag v (Some c) s of (r, n) \<Rightarrow> (c # r, n)))"
  by pat_completeness auto
termination by (relation "measure (\<lambda>(_, _, _, s). length s)") auto

definition known_step :: "string \<times> string \<Rightarrow> string \<times> sanitizer \<Rightarrow> string \<times> sanitizer" where
  "known_step tv cs =
     (case known_scan (fst tv) (snd tv) None (fst cs) of
        (r, n) \<Rightarrow> (r, ((\<lambda>s. san_count s (fst tv)) ^^ n) (snd cs)))"

definition pass_known :: "sanitizer \<Rightarrow> string \<Rightarrow> string \<times> sanitizer" where
  "pass_known s line = fold known_step (known s) (line, s)"

section \<open>Patterns\<close>

datatype re = Eps | Bol | Cls "char \<Rightarrow> bool" | Many nat "char \<Rightarrow> bool" | Between nat nat "char \<Rightarrow> bool"
  | Cat re re | Alt re re | Grp nat re

text \<open>The lengths a pattern matches at the start of a string; \<open>bol\<close> when that is the start of the line.\<close>

fun ends :: "re \<Rightarrow> bool \<Rightarrow> string \<Rightarrow> nat list" where
  "ends Eps bol s = [0]"
| "ends Bol bol s = (if bol then [0] else [])"
| "ends (Cls P) bol s = (if at_char P s then [1] else [])"
| "ends (Many lo P) bol s = [lo..<Suc (length (takeWhile P s))]"
| "ends (Between lo hi P) bol s = [lo..<Suc (min hi (length (takeWhile P s)))]"
| "ends (Cat a b) bol s = concat (map (\<lambda>k. map ((+) k) (ends b (bol \<and> k = 0) (drop k s))) (ends a bol s))"
| "ends (Alt a b) bol s = ends a bol s @ ends b bol s"
| "ends (Grp i a) bol s = ends a bol s"

definition longest :: "nat list \<Rightarrow> nat option" where
  "longest ns = (case ns of [] \<Rightarrow> None | n # r \<Rightarrow> Some (fold max r n))"

text \<open>Where the groups are in a match of length \<open>n\<close> at \<open>off\<close>: the first part of a sequence takes the longest
it can, an alternative the first that fits.\<close>

fun groups :: "re \<Rightarrow> bool \<Rightarrow> nat \<Rightarrow> string \<Rightarrow> nat \<Rightarrow> (nat \<times> nat \<times> nat) list" where
  "groups (Grp i a) bol off s n = (i, off, off + n) # groups a bol off s n"
| "groups (Alt a b) bol off s n = (if n \<in> set (ends a bol s) then groups a bol off s n else groups b bol off s n)"
| "groups (Cat a b) bol off s n =
     (case longest (filter (\<lambda>k. k \<le> n \<and> n - k \<in> set (ends b (bol \<and> k = 0) (drop k s))) (ends a bol s)) of
        None \<Rightarrow> []
      | Some k \<Rightarrow> groups a bol off s k @ groups b (bol \<and> k = 0) (off + k) (drop k s) (n - k))"
| "groups _ bol off s n = []"

type_synonym match = "nat \<times> nat \<times> (nat \<times> nat \<times> nat) list"

definition match_here :: "re \<Rightarrow> bool \<Rightarrow> nat \<Rightarrow> string \<Rightarrow> match option" where
  "match_here r bol i s =
     (case longest (ends r bol s) of None \<Rightarrow> None | Some n \<Rightarrow> Some (i, i + n, groups r bol i s n))"

fun match_from :: "re \<Rightarrow> bool \<Rightarrow> nat \<Rightarrow> string \<Rightarrow> match option" where
  "match_from r bol i [] = match_here r bol i []"
| "match_from r bol i (c # t) =
     (case match_here r bol i (c # t) of Some m \<Rightarrow> Some m | None \<Rightarrow> match_from r False (i + 1) t)"

definition regexec :: "re \<Rightarrow> bool \<Rightarrow> string \<Rightarrow> match option" where
  "regexec r notbol s = match_from r (\<not> notbol) 0 s"

definition group_text :: "nat \<Rightarrow> (nat \<times> nat \<times> nat) list \<Rightarrow> string \<Rightarrow> string" where
  "group_text i gs p = (case map_of gs i of None \<Rightarrow> [] | Some (so, eo) \<Rightarrow> take (eo - so) (drop so p))"

definition group_end :: "nat \<Rightarrow> (nat \<times> nat \<times> nat) list \<Rightarrow> nat" where
  "group_end i gs = (case map_of gs i of None \<Rightarrow> 0 | Some (_, eo) \<Rightarrow> eo)"

text \<open>Building them.\<close>

definition lit :: "string \<Rightarrow> re" where
  "lit w = foldr (\<lambda>c r. Cat (Cls (\<lambda>x. x = c)) r) w Eps"

definition lit_ci :: "string \<Rightarrow> re" where
  "lit_ci w = foldr (\<lambda>c r. Cat (Cls (\<lambda>x. lower_c x = c)) r) w Eps"

fun alts :: "string list \<Rightarrow> re" where
  "alts [] = Cls (\<lambda>_. False)"
| "alts (w # ws) = Alt (lit_ci w) (alts ws)"

fun times_re :: "nat \<Rightarrow> re \<Rightarrow> re" where
  "times_re 0 r = Eps"
| "times_re (Suc k) r = Cat r (times_re k r)"

definition any_of :: "string \<Rightarrow> char \<Rightarrow> bool" where
  "any_of cs c \<longleftrightarrow> c \<in> set cs"

definition re_bearer :: re where
  "re_bearer = Cat (lit_ci ''bearer'') (Cat (Many 1 (any_of '' '')) (Many 8 (\<lambda>c. is_alnum c \<or> any_of ''._~+/=-'' c)))"

definition re_basic :: re where
  "re_basic = Cat (lit_ci ''basic'') (Cat (Many 1 (any_of '' '')) (Many 8 (\<lambda>c. is_alnum c \<or> any_of ''+/='' c)))"

definition re_jwt :: re where
  "re_jwt = (let part = Many 8 (\<lambda>c. is_alnum c \<or> any_of ''_-'' c); dot = Cls (any_of ''.'')
             in Cat (lit ''eyJ'') (Cat part (Cat dot (Cat part (Cat dot part)))))"

definition kv_keys :: "string list" where
  "kv_keys = [''token'', ''access_token'', ''ws_token'', ''auth_token'', ''refresh_token'', ''id_token'', ''password'',
     ''passwd'', ''pwd'', ''passphrase'', ''secret'', ''client_secret'', ''api_key'', ''apikey'', ''secret_key'',
     ''private_key'', ''psk'', ''authorization'', ''session_id'', ''sessionid'', ''cookie'', ''set-cookie'']"

definition kv_value :: "char \<Rightarrow> bool" where
  "kv_value c \<longleftrightarrow> \<not> is_cspace c \<and> c \<noteq> CHR ''&'' \<and> c \<noteq> dquote \<and> c \<noteq> CHR 0x27 \<and> c \<noteq> CHR '','' \<and> c \<noteq> CHR '';''"

definition re_kv :: re where
  "re_kv =
     Cat (Grp 1 (Cat (Grp 2 (Alt Bol (Cls (\<lambda>c. \<not> is_word c))))
                (Cat (Grp 3 (alts kv_keys))
                (Cat (Many 0 (any_of '' '')) (Cat (Cls (any_of ''=:'')) (Many 0 (any_of '' '')))))))
         (Cat (Grp 4 (Between 0 1 (\<lambda>c. c = dquote))) (Grp 5 (Many 1 kv_value)))"

definition re_email :: re where
  "re_email =
     Cat (Many 1 (\<lambda>c. is_alnum c \<or> any_of ''._%+-'' c))
     (Cat (Cls (any_of ''@''))
     (Cat (Many 1 (\<lambda>c. is_alnum c \<or> any_of ''.-'' c)) (Cat (Cls (any_of ''.'')) (Many 2 is_alpha))))"

definition re_mac :: re where
  "re_mac =
     Cat (Grp 1 (Alt Bol (Cls (\<lambda>c. \<not> is_xdigit c \<and> c \<noteq> CHR '':''))))
         (Grp 2 (Cat (Between 2 2 is_xdigit) (times_re 5 (Cat (Cls (any_of '':'')) (Between 2 2 is_xdigit)))))"

definition re_ip4 :: re where
  "re_ip4 =
     Cat (Grp 1 (Alt Bol (Cls (\<lambda>c. \<not> is_digit c \<and> c \<noteq> CHR ''.''))))
         (Grp 2 (Cat (times_re 3 (Cat (Between 1 3 is_digit) (Cls (any_of ''.'')))) (Between 1 3 is_digit)))"

section \<open>A pass over a line\<close>

text \<open>What a callback writes for a match, or none to leave it.\<close>

type_synonym callback = "sanitizer \<Rightarrow> string \<Rightarrow> match \<Rightarrow> (string \<times> sanitizer) option"

lemma match_here_range: "match_here r bol i s = Some (so, eo, gs) \<Longrightarrow> so = i \<and> so \<le> eo"
  by (auto simp: match_here_def split: option.splits)

lemma match_from_range: "match_from r bol i s = Some (so, eo, gs) \<Longrightarrow> i \<le> so \<and> so \<le> eo"
proof (induction s arbitrary: bol i)
  case Nil
  then show ?case by (auto dest: match_here_range)
next
  case (Cons c t)
  then show ?case by (fastforce split: option.splits dest: match_here_range)
qed

function pass_regex :: "re \<Rightarrow> callback \<Rightarrow> bool \<Rightarrow> sanitizer \<Rightarrow> string \<Rightarrow> string \<times> sanitizer" where
  "pass_regex r cb notbol s [] = ([], s)"
| "pass_regex r cb notbol s (c # t) =
     (let p = c # t in
      case regexec r notbol p of
        None \<Rightarrow> (p, s)
      | Some (so, eo, gs) \<Rightarrow>
          let g = (if eo = 0 then 1 else 0)
          in (case cb s p (so, eo, gs) of
                Some (w, s) \<Rightarrow>
                  (case pass_regex r cb True s (drop (eo + g) p) of
                     (out, s) \<Rightarrow> (take so p @ w @ take g (drop eo p) @ out, s))
              | None \<Rightarrow>
                  (case pass_regex r cb True s (drop (so + 1 + g) p) of
                     (out, s) \<Rightarrow> (take (so + 1 + g) p @ out, s))))"
  by pat_completeness auto
termination
  by (relation "measure (\<lambda>(_, _, _, _, s). length s)")
     (auto simp: regexec_def dest!: match_from_range split: if_splits)

section \<open>The callbacks\<close>

definition cb_const :: "string \<Rightarrow> string \<Rightarrow> callback" where
  "cb_const text tag s p m = Some (text, san_count s tag)"

definition cb_bearer :: callback where "cb_bearer = cb_const ''Bearer <TOKEN>'' ''TOKEN''"
definition cb_basic :: callback where "cb_basic = cb_const ''Basic <TOKEN>'' ''TOKEN''"
definition cb_jwt :: callback where "cb_jwt = cb_const ''<JWT>'' ''JWT''"

definition cb_kv :: callback where
  "cb_kv s p m =
     (case m of (so, eo, gs) \<Rightarrow>
        let kept = group_text 1 gs p @ group_text 4 gs p; v = group_text 5 gs p
        in if 2 \<le> length v \<and> hd v = CHR ''<'' \<and> last v = CHR ''>'' then Some (kept @ v, s)
           else if map lower_c v = ''bearer'' \<or> map lower_c v = ''basic'' then Some (kept @ v, s)
           else Some (kept @ ''<REDACTED>'', san_count s ''REDACTED''))"

definition cb_email :: callback where
  "cb_email s p m = (case m of (so, eo, gs) \<Rightarrow> Some (placeholder s CL_EMAIL (take (eo - so) (drop so p))))"

definition with_lead :: "string \<Rightarrow> string \<times> sanitizer \<Rightarrow> string \<times> sanitizer" where
  "with_lead t ws = (t @ fst ws, snd ws)"

definition cb_mac :: callback where
  "cb_mac s p m =
     (case m of (so, eo, gs) \<Rightarrow>
        if at_char (\<lambda>c. is_xdigit c \<or> c = CHR '':'') (drop (group_end 2 gs) p) then None
        else Some (with_lead (group_text 1 gs p) (placeholder s CL_MAC (group_text 2 gs p))))"

text \<open>The four numbers of an address; those that stay: none of 0 to 255, loopback, unspecified, broadcast.\<close>

fun dot_parts :: "string \<Rightarrow> string \<Rightarrow> string list" where
  "dot_parts acc [] = [acc]"
| "dot_parts acc (c # s) = (if c = CHR ''.'' then acc # dot_parts [] s else dot_parts (acc @ [c]) s)"

definition ip4_keep :: "string \<Rightarrow> bool" where
  "ip4_keep ip =
     (if 20 \<le> length ip then True
      else let ns = map digits_val (dot_parts [] ip)
           in length ns \<noteq> 4 \<or> list_ex (\<lambda>n. 255 < n) ns \<or> hd ns = 127 \<or> ns = [0, 0, 0, 0] \<or> ns = [255, 255, 255, 255])"

definition cb_ip4 :: callback where
  "cb_ip4 s p m =
     (case m of (so, eo, gs) \<Rightarrow>
        let after = drop (group_end 2 gs) p; ip = group_text 2 gs p
        in if at_char is_digit after then None
           else if at_char (\<lambda>c. c = CHR ''.'') after \<and> at_char is_digit (tl after) then None
           else if ip4_keep ip then None
           else Some (with_lead (group_text 1 gs p) (placeholder s CL_IP ip)))"

section \<open>The hand-written scanners\<close>

text \<open>A line cut into runs of the characters of \<open>P\<close> and what stands between them; a run is judged by the
character before it and the one after.\<close>

function pass_runs ::
    "(char \<Rightarrow> bool) \<Rightarrow> (char option \<Rightarrow> string \<Rightarrow> string \<Rightarrow> bool) \<Rightarrow> cl \<Rightarrow> sanitizer \<Rightarrow> char option \<Rightarrow> string \<Rightarrow>
     string \<times> sanitizer" where
  "pass_runs P judge k s prev [] = ([], s)"
| "pass_runs P judge k s prev (c # t) =
     (let p = c # t in
      if \<not> P c then
        let seg = takeWhile (\<lambda>c. \<not> P c) p
        in (case pass_runs P judge k s (Some (last seg)) (dropWhile (\<lambda>c. \<not> P c) p) of (out, s) \<Rightarrow> (seg @ out, s))
      else
        let run = takeWhile P p; after = dropWhile P p
        in (case (if judge prev run after then placeholder s k run else (run, s)) of
              (w, s) \<Rightarrow> (case pass_runs P judge k s (Some (last run)) after of (out, s) \<Rightarrow> (w @ out, s))))"
  by pat_completeness auto
termination
  by (relation "measure (\<lambda>(_, _, _, _, _, s). length s)")
     (auto simp: le_imp_less_Suc length_dropWhile_le)

definition colons :: "string \<Rightarrow> nat" where "colons s = count_list s (CHR '':'')"

text \<open>The scan of \<open>ip6_valid\<close>: colons, a double one, groups and the length of the last.\<close>

fun ip6_scan :: "nat \<times> bool \<times> nat \<times> nat \<Rightarrow> string \<Rightarrow> (nat \<times> bool \<times> nat \<times> nat) option" where
  "ip6_scan st [] = Some st"
| "ip6_scan (cn, d, gr, gl) (c # s) =
     (if c = CHR '':''
      then if 4 < gl then None
           else ip6_scan (cn + 1, d \<or> at_char (\<lambda>c. c = CHR '':'') s, (if 0 < gl then gr + 1 else gr), 0) s
      else ip6_scan (cn, d, gr, gl + 1) s)"

definition ip6_valid :: "string \<Rightarrow> bool" where
  "ip6_valid s =
     (case ip6_scan (0, False, 0, 0) s of
        None \<Rightarrow> False
      | Some (cn, d, gr, gl) \<Rightarrow>
          if 4 < gl then False
          else let gr = (if 0 < gl then gr + 1 else gr)
               in if cn < 2 \<or> 7 < cn then False else if d then True else gr = 8)"

definition ip6_run :: "char \<Rightarrow> bool" where "ip6_run c \<longleftrightarrow> is_xdigit c \<or> c = CHR '':''"

definition judge_ip6 :: "char option \<Rightarrow> string \<Rightarrow> string \<Rightarrow> bool" where
  "judge_ip6 prev run after \<longleftrightarrow>
     \<not> prev_char (\<lambda>c. is_alnum c \<or> c = CHR ''.'' \<or> c = CHR '':'') prev \<and>
     \<not> at_char (\<lambda>c. is_alnum c \<or> c = CHR ''.'') after \<and>
     run \<noteq> ''::'' \<and> run \<noteq> ''::1'' \<and> CHR '':'' \<in> set run \<and> ip6_valid run"

definition pass_ip6 :: "sanitizer \<Rightarrow> string \<Rightarrow> string \<times> sanitizer" where
  "pass_ip6 s line = pass_runs ip6_run judge_ip6 CL_IP6 s None line"

definition judge_hex :: "char option \<Rightarrow> string \<Rightarrow> string \<Rightarrow> bool" where
  "judge_hex prev run after \<longleftrightarrow> 32 \<le> length run \<and> \<not> prev_char is_word prev \<and> \<not> at_char is_word after"

definition pass_hex :: "sanitizer \<Rightarrow> string \<Rightarrow> string \<times> sanitizer" where
  "pass_hex s line = pass_runs is_xdigit judge_hex CL_HEX s None line"

definition is_b64 :: "char \<Rightarrow> bool" where
  "is_b64 c \<longleftrightarrow> is_alnum c \<or> any_of ''+=_-'' c"

definition judge_b64 :: "char option \<Rightarrow> string \<Rightarrow> string \<Rightarrow> bool" where
  "judge_b64 prev run after \<longleftrightarrow>
     40 \<le> length run \<and> list_ex is_alpha run \<and> list_ex is_digit run \<and>
     \<not> prev_char (\<lambda>c. is_word c \<or> c = CHR ''<'') prev \<and> \<not> at_char (\<lambda>c. is_word c \<or> c = CHR ''>'') after"

definition pass_b64 :: "sanitizer \<Rightarrow> string \<Rightarrow> string \<times> sanitizer" where
  "pass_b64 s line = pass_runs is_b64 judge_b64 CL_B64 s None line"

section \<open>A line\<close>

definition has_ci :: "string \<Rightarrow> string \<Rightarrow> bool" where
  "has_ci word s \<longleftrightarrow> contains word (map lower_c s)"

definition kv_words :: "string list" where
  "kv_words = [''token'', ''password'', ''passwd'', ''pwd'', ''passphrase'', ''secret'', ''api_key'', ''apikey'', ''secret_key'',
     ''private_key'', ''psk'', ''authorization'', ''session'', ''cookie'']"

definition may_have_kv :: "string \<Rightarrow> bool" where
  "may_have_kv s \<longleftrightarrow> (CHR ''='' \<in> set s \<or> CHR '':'' \<in> set s) \<and> list_ex (\<lambda>w. has_ci w s) kv_words"

fun may_have_ip4 :: "string \<Rightarrow> bool" where
  "may_have_ip4 (a # b # c # r) \<longleftrightarrow> is_digit a \<and> b = CHR ''.'' \<and> is_digit c \<or> may_have_ip4 (b # c # r)"
| "may_have_ip4 _ \<longleftrightarrow> False"

definition steps :: "((string \<Rightarrow> bool) \<times> re \<times> callback) list" where
  "steps =
     [(has_ci ''bearer'', re_bearer, cb_bearer), (has_ci ''basic'', re_basic, cb_basic),
      (contains ''eyJ'', re_jwt, cb_jwt), (may_have_kv, re_kv, cb_kv), (\<lambda>s. CHR ''@'' \<in> set s, re_email, cb_email),
      (\<lambda>s. 5 \<le> colons s, re_mac, cb_mac), (may_have_ip4, re_ip4, cb_ip4)]"

definition run_step :: "(string \<Rightarrow> bool) \<times> re \<times> callback \<Rightarrow> string \<times> sanitizer \<Rightarrow> string \<times> sanitizer" where
  "run_step step cs =
     (case step of (maybe, r, cb) \<Rightarrow> if maybe (fst cs) then pass_regex r cb False (snd cs) (fst cs) else cs)"

definition san_line :: "sanitizer \<Rightarrow> string \<Rightarrow> string \<times> sanitizer" where
  "san_line s line =
     (let (cur, s) = fold run_step steps (pass_known s line);
          (cur, s) = (if 2 \<le> colons cur then pass_ip6 s cur else (cur, s));
          (cur, s) = pass_hex s cur
      in pass_b64 s cur)"

definition san_total :: "sanitizer \<Rightarrow> nat" where
  "san_total s = sum_list (map snd (stats s))"

definition san_report :: "sanitizer \<Rightarrow> string list" where
  "san_report s = map (\<lambda>(t, n). ''<'' @ t @ ''>: '' @ show_nat n @ [newline]) (stats s)"

end
