(* ===== verification/SanitizeProps.thy ===== *)
theory SanitizeProps
  imports Sanitize
begin

text \<open>
  What the redaction does: the cheap checks before the patterns change nothing but the time; a known
  value that is a word is not left as one; a placeholder stands for one value for as long as the
  sanitizer lives. And four ways a secret stays in an exported line.
\<close>

section \<open>Substrings\<close>

lemma contains_iff: "contains p s \<longleftrightarrow> (\<exists>a b. s = a @ p @ b)"
proof
  assume "contains p s"
  then obtain i where "starts_with p (drop i s)" unfolding contains_def list_ex_iff by blast
  then have "s = take i s @ p @ drop (length p) (drop i s)" by (metis append_take_drop_id starts_withD)
  then show "\<exists>a b. s = a @ p @ b" by blast
next
  assume "\<exists>a b. s = a @ p @ b"
  then obtain a b where s: "s = a @ p @ b" by blast
  have "starts_with p (drop (length a) s)" by (simp add: s)
  moreover have "length a \<in> set [0..<Suc (length s)]" by (simp add: s)
  ultimately show "contains p s" unfolding contains_def list_ex_iff by blast
qed

lemma contains_drop: "contains p (drop i s) \<Longrightarrow> contains p s"
  unfolding contains_iff by (metis append.assoc append_take_drop_id)

lemma contains_trans: "contains p q \<Longrightarrow> contains q s \<Longrightarrow> contains p s"
  unfolding contains_iff by (metis append.assoc)

lemma starts_contains: "starts_with p s \<Longrightarrow> contains p s"
  unfolding contains_iff using starts_withD by (metis append_Nil)

lemma has_ci_drop: "has_ci w (drop i s) \<Longrightarrow> has_ci w s"
  unfolding has_ci_def drop_map [symmetric] by (rule contains_drop)

section \<open>The checks before the patterns\<close>

lemma ends_Cat:
  "ends (Cat a b) bol s \<noteq> [] \<Longrightarrow> \<exists>k\<in>set (ends a bol s). ends b (bol \<and> k = 0) (drop k s) \<noteq> []"
  by auto

lemma nonempty_has: "xs \<noteq> [] \<Longrightarrow> \<exists>x. x \<in> set xs"
  by (cases xs) auto

lemma ends_Cat_first: "ends (Cat a b) bol s \<noteq> [] \<Longrightarrow> ends a bol s \<noteq> []"
  by auto

lemma ends_lit: "n \<in> set (ends (lit w) bol s) \<Longrightarrow> starts_with w s"
proof (induction w arbitrary: bol s n)
  case (Cons c w)
  then obtain k m where k: "k \<in> set (ends (Cls (\<lambda>x. x = c)) bol s)" and m: "m \<in> set (ends (lit w) (bol \<and> k = 0) (drop k s))"
    by (auto simp: lit_def)
  from k have "s \<noteq> []" "hd s = c" "k = 1" by (auto simp: at_char_def split: if_splits)
  moreover from Cons.IH [OF m] have "starts_with w (drop k s)" .
  ultimately show ?case by (cases s) (auto simp: starts_with_def)
qed (simp add: starts_with_def)

lemma ends_lit_ci: "n \<in> set (ends (lit_ci w) bol s) \<Longrightarrow> starts_with w (map lower_c s)"
proof (induction w arbitrary: bol s n)
  case (Cons c w)
  then obtain k m where k: "k \<in> set (ends (Cls (\<lambda>x. lower_c x = c)) bol s)"
    and m: "m \<in> set (ends (lit_ci w) (bol \<and> k = 0) (drop k s))"
    by (auto simp: lit_ci_def)
  from k have "s \<noteq> []" "lower_c (hd s) = c" "k = 1" by (auto simp: at_char_def split: if_splits)
  moreover from Cons.IH [OF m] have "starts_with w (map lower_c (drop k s))" .
  ultimately show ?case by (cases s) (auto simp: starts_with_def)
qed (simp add: starts_with_def)

lemma ends_alts: "n \<in> set (ends (alts ws) bol s) \<Longrightarrow> \<exists>w\<in>set ws. starts_with w (map lower_c s)"
  by (induction ws) (auto simp: at_char_def dest: ends_lit_ci)

text \<open>A check is sound for a pattern when it holds wherever the pattern matches somewhere in the line.\<close>

definition sound_check :: "(string \<Rightarrow> bool) \<Rightarrow> re \<Rightarrow> bool" where
  "sound_check maybe r \<longleftrightarrow> (\<forall>s bol. ends r bol s \<noteq> [] \<longrightarrow> maybe s) \<and> (\<forall>s i. maybe (drop i s) \<longrightarrow> maybe s)"

lemma no_match: "(\<And>i bol. ends r bol (drop i s) = []) \<Longrightarrow> match_from r bol k s = None"
proof (induction s arbitrary: bol k)
  case Nil
  then have "ends r bol [] = []" by (metis drop_Nil)
  then show ?case by (simp add: match_here_def longest_def)
next
  case (Cons c s)
  have "ends r bol (c # s) = []" using Cons.prems [of bol 0] by simp
  moreover have "ends r bol (drop i s) = []" for i bol using Cons.prems [of bol "Suc i"] by simp
  ultimately show ?case using Cons.IH by (simp add: match_here_def longest_def)
qed

lemma pass_unmatched: "(\<And>i bol. ends r bol (drop i s) = []) \<Longrightarrow> pass_regex r cb nb st s = (s, st)"
  using no_match [of r s] by (cases s) (auto simp: regexec_def Let_def)

lemma sound_skip:
  assumes "sound_check maybe r" "\<not> maybe s"
  shows "pass_regex r cb nb st s = (s, st)"
  using assms unfolding sound_check_def by (intro pass_unmatched) blast

lemma check_ci:
  assumes "\<And>s bol. ends r bol s \<noteq> [] \<Longrightarrow> starts_with w (map lower_c s)"
  shows "sound_check (has_ci w) r"
  unfolding sound_check_def using assms has_ci_drop starts_contains by (auto simp: has_ci_def)

lemma ends_lit_first: "ends (Cat (lit w) r) bol s \<noteq> [] \<Longrightarrow> starts_with w s"
  using ends_Cat_first nonempty_has ends_lit by blast

lemma ends_lit_ci_first: "ends (Cat (lit_ci w) r) bol s \<noteq> [] \<Longrightarrow> starts_with w (map lower_c s)"
  using ends_Cat_first nonempty_has ends_lit_ci by blast

lemma check_bearer: "sound_check (has_ci ''bearer'') re_bearer"
  unfolding re_bearer_def by (rule check_ci) (rule ends_lit_ci_first)

lemma check_basic: "sound_check (has_ci ''basic'') re_basic"
  unfolding re_basic_def by (rule check_ci) (rule ends_lit_ci_first)

lemma check_jwt: "sound_check (contains ''eyJ'') re_jwt"
  unfolding sound_check_def re_jwt_def Let_def
  by (intro conjI allI impI) (rule starts_contains, erule ends_lit_first, rule contains_drop)

lemma ends_ClsD: "ends (Cls P) bol s \<noteq> [] \<Longrightarrow> s \<noteq> [] \<and> P (hd s)"
  by (simp add: at_char_def split: if_splits)

lemma ends_Cls_set: "k \<in> set (ends (Cls P) bol (drop i s)) \<Longrightarrow> \<exists>c\<in>set s. P c"
proof -
  assume "k \<in> set (ends (Cls P) bol (drop i s))"
  then have "drop i s \<noteq> []" "P (hd (drop i s))" by (auto simp: at_char_def split: if_splits)
  then show ?thesis using hd_in_set in_set_dropD by metis
qed

lemma check_email: "sound_check (\<lambda>s. CHR ''@'' \<in> set s) re_email"
  unfolding sound_check_def
proof (intro conjI allI impI)
  fix s bol assume "ends re_email bol s \<noteq> []"
  then obtain k b r where "ends (Cat (Cls (any_of ''@'')) r) b (drop k s) \<noteq> []"
    unfolding re_email_def using ends_Cat by blast
  from ends_ClsD [OF ends_Cat_first [OF this]] have "drop k s \<noteq> []" "hd (drop k s) = CHR ''@''"
    by (simp_all add: any_of_def)
  then show "CHR ''@'' \<in> set s" by (metis hd_in_set in_set_dropD)
qed (rule in_set_dropD)

lemma keys_have_words: "list_all (\<lambda>k. list_ex (\<lambda>w. contains w k) kv_words) kv_keys"
  by code_simp

lemma check_kv: "sound_check may_have_kv re_kv"
  unfolding sound_check_def
proof (intro conjI allI impI)
  fix s bol assume "ends re_kv bol s \<noteq> []"
  then have "ends (Grp 1 (Cat (Grp 2 (Alt Bol (Cls (\<lambda>c. \<not> is_word c))))
      (Cat (Grp 3 (alts kv_keys)) (Cat (Many 0 (any_of '' '')) (Cat (Cls (any_of ''=:'')) (Many 0 (any_of '' ''))))))) bol s \<noteq> []"
    unfolding re_kv_def by (rule ends_Cat_first)
  then have "ends (Cat (Grp 2 (Alt Bol (Cls (\<lambda>c. \<not> is_word c))))
      (Cat (Grp 3 (alts kv_keys)) (Cat (Many 0 (any_of '' '')) (Cat (Cls (any_of ''=:'')) (Many 0 (any_of '' '')))))) bol s \<noteq> []"
    by (simp only: ends.simps(8) not_False_eq_True)
  then obtain k2 b2 where k2: "ends (Cat (Grp 3 (alts kv_keys)) (Cat (Many 0 (any_of '' '')) (Cat (Cls (any_of ''=:'')) (Many 0 (any_of '' ''))))) b2 (drop k2 s) \<noteq> []"
    by (blast dest: ends_Cat)
  then have "ends (alts kv_keys) b2 (drop k2 s) \<noteq> []"
    using ends_Cat_first ends.simps(8) by metis
  then obtain k3 where g: "k3 \<in> set (ends (alts kv_keys) b2 (drop k2 s))" using nonempty_has by blast
  from k2 obtain k4 b4 where "ends (Cat (Many 0 (any_of '' '')) (Cat (Cls (any_of ''=:'')) (Many 0 (any_of '' '')))) b4 (drop k4 (drop k2 s)) \<noteq> []"
    by (blast dest: ends_Cat)
  then obtain k5 b5 where "ends (Cat (Cls (any_of ''=:'')) (Many 0 (any_of '' ''))) b5 (drop k5 (drop k4 (drop k2 s))) \<noteq> []"
    by (blast dest: ends_Cat)
  then have "ends (Cls (any_of ''=:'')) b5 (drop (k5 + (k4 + k2)) s) \<noteq> []"
    using ends_Cat_first by (metis add.assoc drop_drop)
  then obtain j where c: "j \<in> set (ends (Cls (any_of ''=:'')) b5 (drop (k5 + (k4 + k2)) s))" using nonempty_has by blast
  from c have sep: "CHR ''='' \<in> set s \<or> CHR '':'' \<in> set s"
    using ends_Cls_set [OF c] by (auto simp: any_of_def)
  from ends_alts [OF g] obtain w where w: "w \<in> set kv_keys" "starts_with w (map lower_c (drop k2 s))" by blast
  from w(1) keys_have_words obtain u where u: "u \<in> set kv_words" "contains u w" by (auto simp: list_all_iff list_ex_iff)
  have "has_ci u (drop k2 s)"
    unfolding has_ci_def using contains_trans [OF u(2) starts_contains [OF w(2)]] .
  then have "has_ci u s" by (rule has_ci_drop)
  with sep u(1) show "may_have_kv s" by (auto simp: may_have_kv_def list_ex_iff)
next
  fix s i assume "may_have_kv (drop i s)"
  then show "may_have_kv s" by (auto simp: may_have_kv_def list_ex_iff dest: in_set_dropD has_ci_drop)
qed

lemma colons_drop: "colons (drop i s) \<le> colons s"
  unfolding colons_def by (metis append_take_drop_id count_list_append le_add2)

lemma times_colons: "ends (times_re k (Cat (Cls (any_of '':'')) r)) bol s \<noteq> [] \<Longrightarrow> k \<le> colons s"
proof (induction k arbitrary: bol s)
  case (Suc k)
  then obtain i where i: "i \<in> set (ends (Cat (Cls (any_of '':'')) r) bol s)"
    and r: "ends (times_re k (Cat (Cls (any_of '':'')) r)) (bol \<and> i = 0) (drop i s) \<noteq> []"
    unfolding times_re.simps by (blast dest: ends_Cat)
  from i obtain t where s: "s = CHR '':'' # t" and "1 \<le> i"
    by (cases s) (auto simp: at_char_def any_of_def split: if_splits)
  then have "drop i s = drop (i - 1) t" by (cases i) auto
  with Suc.IH [OF r] have "k \<le> colons (drop (i - 1) t)" by simp
  also have "\<dots> \<le> colons t" by (rule colons_drop)
  finally show ?case by (simp add: s colons_def)
qed simp

lemma check_mac: "sound_check (\<lambda>s. 5 \<le> colons s) re_mac"
  unfolding sound_check_def
proof (intro conjI allI impI)
  fix s bol assume "ends re_mac bol s \<noteq> []"
  then obtain k b where "ends (Grp 2 (Cat (Between 2 2 is_xdigit) (times_re 5 (Cat (Cls (any_of '':'')) (Between 2 2 is_xdigit))))) b (drop k s) \<noteq> []"
    unfolding re_mac_def by (blast dest: ends_Cat)
  then obtain j b' where "ends (times_re 5 (Cat (Cls (any_of '':'')) (Between 2 2 is_xdigit))) b' (drop j (drop k s)) \<noteq> []"
    unfolding ends.simps(8) by (blast dest: ends_Cat)
  from times_colons [OF this] show "5 \<le> colons s"
    using colons_drop [of j "drop k s"] colons_drop [of k s] by linarith
next
  fix s i assume "5 \<le> colons (drop i s)"
  then show "5 \<le> colons s" using colons_drop [of i s] by linarith
qed

lemma ip4_drop: "may_have_ip4 (drop i s) \<Longrightarrow> may_have_ip4 s"
proof (induction i arbitrary: s)
  case (Suc i)
  show ?case
  proof (cases s)
    case (Cons a t)
    with Suc have "may_have_ip4 t" by simp
    then show ?thesis using Cons by (cases t rule: may_have_ip4.cases) auto
  qed (use Suc.prems in simp)
qed simp

lemma ip4_dotted:
  assumes "is_digit a" "is_digit c"
  shows "may_have_ip4 (p @ a # CHR ''.'' # c # r)"
  using ip4_drop [of "length p" "p @ a # CHR ''.'' # c # r"] assms by simp

lemma between_digits:
  assumes "k \<in> set (ends (Between 1 3 P) bol s)"
  shows "0 < k \<and> k \<le> length s \<and> P (s ! (k - 1))"
proof -
  have k: "1 \<le> k" "k \<le> length (takeWhile P s)" using assms by (auto split: if_splits)
  then have "k - 1 < length (takeWhile P s)" by simp
  then have "P (takeWhile P s ! (k - 1))" "takeWhile P s ! (k - 1) = s ! (k - 1)"
    using nth_mem set_takeWhileD takeWhile_nth by (metis, metis)
  then show ?thesis using k length_takeWhile_le [of P s] by auto
qed

lemma check_ip4: "sound_check may_have_ip4 re_ip4"
  unfolding sound_check_def
proof (intro conjI allI impI)
  let ?part = "Cat (Between 1 3 is_digit) (Cls (any_of ''.''))"
  fix s bol assume "ends re_ip4 bol s \<noteq> []"
  then obtain k b where "ends (Grp 2 (Cat (times_re 3 ?part) (Between 1 3 is_digit))) b (drop k s) \<noteq> []"
    unfolding re_ip4_def by (blast dest: ends_Cat)
  then have "ends (times_re 3 ?part) b (drop k s) \<noteq> []"
    unfolding ends.simps(8) by (rule ends_Cat_first)
  then have t: "ends (Cat ?part (Cat ?part (times_re 1 ?part))) b (drop k s) \<noteq> []"
    by (simp only: numeral_3_eq_3 times_re.simps One_nat_def not_False_eq_True)
  define u where "u = drop k s"
  from t obtain n where n: "n \<in> set (ends ?part b u)"
    and r: "ends (Cat ?part (times_re 1 ?part)) (b \<and> n = 0) (drop n u) \<noteq> []"
    unfolding u_def by (blast dest: ends_Cat)
  from n obtain i where i: "i \<in> set (ends (Between 1 3 is_digit) b u)" and d: "at_char (any_of ''.'') (drop i u)" "n = i + 1"
    by (auto split: if_splits)
  from ends_Cat_first [OF ends_Cat_first [OF r]] obtain j where
    "j \<in> set (ends (Between 1 3 is_digit) (b \<and> n = 0) (drop n u))" using nonempty_has by blast
  then have e: "at_char is_digit (drop n u)"
    by (cases "drop n u") (auto simp: at_char_def split: if_splits)
  have "u = take (i - 1) u @ u ! (i - 1) # drop i u"
    using between_digits [OF i] id_take_nth_drop [of "i - 1" u] by (metis Suc_pred' diff_less less_le_trans zero_less_one)
  moreover have "drop i u = CHR ''.'' # drop n u"
  proof -
    have "drop n u = tl (drop i u)" using d(2) by (simp add: drop_Suc tl_drop)
    then show ?thesis using d(1) by (cases "drop i u") (auto simp: at_char_def any_of_def)
  qed
  moreover obtain c v where "drop n u = c # v" "is_digit c" using e by (cases "drop n u") (auto simp: at_char_def)
  ultimately have "u = take (i - 1) u @ u ! (i - 1) # CHR ''.'' # c # v" "is_digit (u ! (i - 1))" "is_digit c"
    using between_digits [OF i] by auto
  then have "may_have_ip4 u" using ip4_dotted by metis
  then show "may_have_ip4 s" unfolding u_def by (rule ip4_drop)
qed (rule ip4_drop)

text \<open>The scan for IPv6 addresses marks no run without two colons.\<close>

lemma ip6_scan_colons: "ip6_scan (cn, d, gr, gl) s = Some (cn', d', gr', gl') \<Longrightarrow> cn' = cn + colons s"
proof (induction s arbitrary: cn d gr gl)
  case (Cons c s)
  from Cons.prems show ?case by (auto simp: colons_def split: if_splits dest!: Cons.IH)
qed (simp add: colons_def)

lemma ip6_two_colons: "judge_ip6 prev run after \<Longrightarrow> 2 \<le> colons run"
  by (auto simp: judge_ip6_def ip6_valid_def Let_def split: option.splits if_splits dest!: ip6_scan_colons)

lemma pass_runs_idle: "colons p < 2 \<Longrightarrow> pass_runs P judge_ip6 k s prev p = (p, s)"
proof (induction P judge_ip6 k s prev p rule: pass_runs.induct)
  case (2 P k s prev c t)
  let ?p = "c # t"
  have split: "colons ?p = colons (takeWhile Q ?p) + colons (dropWhile Q ?p)" for Q
    unfolding colons_def by (metis count_list_append takeWhile_dropWhile_id)
  have d: "colons (dropWhile Q ?p) < 2" "colons (takeWhile Q ?p) < 2" for Q
    using split [of Q] 2(3) by linarith+
  show ?case
  proof (cases "P c")
    case False
    show ?thesis using 2(1) [OF refl False refl d(1)] False by (simp add: Let_def)
  next
    case True
    have j: "\<not> judge_ip6 prev (takeWhile P ?p) (dropWhile P ?p)" using ip6_two_colons d(2) [of P] by (meson leD)
    then have "(takeWhile P ?p, s) = (if judge_ip6 prev (takeWhile P ?p) (dropWhile P ?p) then placeholder s k (takeWhile P ?p) else (takeWhile P ?p, s))"
      by simp
    from 2(2) [OF refl _ refl refl this d(1)] True j show ?thesis by (simp add: Let_def)
  qed
qed simp

definition san_line_unchecked :: "sanitizer \<Rightarrow> string \<Rightarrow> string \<times> sanitizer" where
  "san_line_unchecked s line =
     (let (cur, s) = fold (\<lambda>(_, r, cb) (cur, s). pass_regex r cb False s cur) steps (pass_known s line);
          (cur, s) = pass_ip6 s cur;
          (cur, s) = pass_hex s cur
      in pass_b64 s cur)"

lemma steps_sound: "\<forall>(maybe, r, cb) \<in> set steps. sound_check maybe r"
  by (simp add: steps_def check_bearer check_basic check_jwt check_kv check_email check_mac check_ip4)

lemma run_step_all: "step \<in> set steps \<Longrightarrow> run_step step cs = (\<lambda>(_, r, cb) (cur, s). pass_regex r cb False s cur) step cs"
  using steps_sound sound_skip by (cases step; cases cs) (fastforce simp: run_step_def)

text \<open>C37. The cheap checks before the patterns are only cheap: a line comes out, and the sanitizer is
left, exactly as if every pattern and every scan had been run over it.\<close>

theorem checks_lose_nothing: "san_line s line = san_line_unchecked s line"
proof -
  have "fold run_step steps cs = fold (\<lambda>(_, r, cb) (cur, s). pass_regex r cb False s cur) steps cs" for cs
    by (intro fold_cong refl ext run_step_all)
  moreover have "(if 2 \<le> colons cur then pass_ip6 s cur else (cur, s)) = pass_ip6 s cur" for cur s
    using pass_runs_idle [of cur ip6_run CL_IP6 s None] by (auto simp: pass_ip6_def)
  ultimately show ?thesis by (simp add: san_line_def san_line_unchecked_def)
qed

section \<open>Known values\<close>

text \<open>The words of a line: its maximal runs of word characters.\<close>

function words_of :: "string \<Rightarrow> string list" where
  "words_of [] = []"
| "words_of (c # s) =
     (if is_word c then takeWhile is_word (c # s) # words_of (dropWhile is_word (c # s)) else words_of s)"
  by pat_completeness auto
termination by (relation "measure length") (auto simp: le_imp_less_Suc length_dropWhile_le)

lemma words_skip: "\<not> is_word c \<Longrightarrow> words_of (c # s) = words_of s"
  by simp

lemma words_run:
  assumes "w \<noteq> []" "list_all is_word w" "\<not> at_char is_word s"
  shows "words_of (w @ s) = w # words_of s"
proof -
  have "takeWhile is_word (w @ s) = w" "dropWhile is_word (w @ s) = s"
    using assms by (cases s; auto simp: list_all_iff at_char_def takeWhile_append2 dropWhile_append2)+
  moreover obtain c t where "w = c # t" "is_word c" using assms(1,2) by (cases w) auto
  ultimately show ?thesis using words_of.simps(2) [of c "t @ s"] by simp
qed

lemma words_cut: "\<not> is_word c \<Longrightarrow> words_of (a @ c # b) = words_of a @ words_of b"
proof (induction a rule: words_of.induct)
  case (2 d s)
  show ?case
  proof (cases "is_word d")
    case True
    let ?w = "takeWhile is_word (d # s)" and ?r = "dropWhile is_word (d # s)"
    have e: "(d # s) @ c # b = ?w @ (?r @ c # b)" by (metis append.assoc takeWhile_dropWhile_id)
    have r: "\<not> at_char is_word ?r" by (metis at_char_def hd_dropWhile)
    then have r': "\<not> at_char is_word (?r @ c # b)" using 2(3) by (cases ?r) (auto simp: at_char_def)
    have w: "?w \<noteq> []" "list_all is_word ?w" using True by (auto simp: list_all_iff dest: set_takeWhileD)
    have "words_of ((d # s) @ c # b) = ?w # words_of (?r @ c # b)" unfolding e by (rule words_run [OF w r'])
    also have "\<dots> = ?w # words_of ?r @ words_of b" using 2(1) [OF True] 2(3) by simp
    also have "\<dots> = words_of (d # s) @ words_of b" using True by (simp del: takeWhile.simps dropWhile.simps)
    finally show ?thesis .
  next
    case False
    then show ?thesis using 2(2) 2(3) by simp
  qed
qed simp

text \<open>A word inside a longer one is passed over.\<close>

lemma scan_inside:
  "list_all is_word w \<Longrightarrow> w \<noteq> [] \<Longrightarrow> prev_char is_word prev \<Longrightarrow>
   fst (known_scan tag v prev (w @ r)) = w @ fst (known_scan tag v (Some (last w)) r)"
proof (induction w arbitrary: prev)
  case (Cons c w)
  then show ?case by (cases "w = []") (auto simp: case_prod_beta prev_char_def)
qed simp

lemma starts_with_run:
  assumes "list_all is_word v" "list_all is_word w" "\<not> at_char is_word r"
    and "starts_with v (w @ r)" "\<not> at_char is_word (drop (length v) (w @ r))"
  shows "v = w"
proof -
  obtain u where u: "w @ r = v @ u" using assms(4) starts_with_iff by blast
  then have n: "\<not> at_char is_word u" using assms(5) by simp
  have "takeWhile is_word (w @ r) = w"
    using assms(2,3) by (cases r) (auto simp: list_all_iff at_char_def takeWhile_append2)
  moreover have "takeWhile is_word (v @ u) = v"
    using assms(1) n by (cases u) (auto simp: list_all_iff at_char_def takeWhile_append2)
  ultimately show ?thesis using u by simp
qed

lemma scan_word:
  assumes v: "list_all is_word v" "v \<noteq> []" and w: "list_all is_word w" "w \<noteq> []"
    and r: "\<not> at_char is_word r" and p: "\<not> prev_char is_word prev"
  shows "fst (known_scan tag v prev (w @ r)) =
    (if w = v then ''<'' @ tag @ ''>'' else w) @ fst (known_scan tag v (Some (last w)) r)"
proof (cases "w = v")
  case True
  obtain c t where v': "v = c # t" using v(2) by (cases v) auto
  have "known_scan tag v prev (c # t @ r) =
      (case known_scan tag v (Some (last v)) (drop (length v - 1) (t @ r)) of
         (q, n) \<Rightarrow> (''<'' @ tag @ ''>'' @ q, n + 1))"
    using p r unfolding v' by (simp add: starts_with_def)
  then show ?thesis using True v' by (simp add: case_prod_beta)
next
  case False
  obtain c t where w': "w = c # t" "is_word c" using w by (cases w) auto
  have "\<not> (starts_with v (w @ r) \<and> \<not> at_char is_word (drop (length v) (w @ r)))"
    using starts_with_run [OF v(1) w(1) r] False by blast
  then have "fst (known_scan tag v prev (w @ r)) = c # fst (known_scan tag v (Some c) (t @ r))"
    using w' by (auto simp: case_prod_beta)
  moreover have "fst (known_scan tag v (Some c) (t @ r)) = t @ fst (known_scan tag v (Some (last w)) r)"
    using scan_inside [of t "Some c" tag v r] w w' by (cases "t = []") (simp_all add: prev_char_def)
  ultimately show ?thesis using False w' by simp
qed

lemma scan_nonword_head:
  assumes "list_all is_word v" "v \<noteq> []" "\<not> at_char is_word r"
  shows "\<not> at_char is_word (fst (known_scan tag v prev r))"
proof (cases r)
  case (Cons c t)
  with assms have "\<not> starts_with v (c # t)" by (cases v) (auto simp: starts_with_def at_char_def)
  then show ?thesis using Cons assms(3) by (simp add: case_prod_beta at_char_def)
qed (simp add: at_char_def)

lemma known_scan_words:
  assumes v: "list_all is_word v" "v \<noteq> []" "v \<notin> set (words_of tag)"
  shows "(prev_char is_word prev \<longrightarrow> \<not> at_char is_word s) \<Longrightarrow> v \<notin> set (words_of (fst (known_scan tag v prev s)))"
proof (induction "length s" arbitrary: prev s rule: less_induct)
  case less
  show ?case
  proof (cases s)
    case (Cons c t)
    show ?thesis
    proof (cases "is_word c")
      case False
      then have "\<not> starts_with v (c # t)" using v(1,2) by (cases v) (auto simp: starts_with_def)
      then have "fst (known_scan tag v prev s) = c # fst (known_scan tag v (Some c) t)"
        using Cons by (simp add: case_prod_beta)
      moreover have "v \<notin> set (words_of (fst (known_scan tag v (Some c) t)))"
        using less.hyps [of t "Some c"] Cons False by (simp add: prev_char_def)
      ultimately show ?thesis using False by simp
    next
      case True
      define w r where "w = takeWhile is_word s" and "r = dropWhile is_word s"
      have s: "s = w @ r" by (simp add: w_def r_def)
      have r: "\<not> at_char is_word r" unfolding r_def by (metis at_char_def hd_dropWhile)
      have w: "list_all is_word w" "w \<noteq> []"
        using True Cons by (auto simp: w_def list_all_iff dest: set_takeWhileD)
      have p: "\<not> prev_char is_word prev" using less.prems True Cons by (auto simp: at_char_def)
      let ?o = "fst (known_scan tag v (Some (last w)) r)"
      have o: "v \<notin> set (words_of ?o)" using less.hyps [of r "Some (last w)"] r s w by simp
      have o': "\<not> at_char is_word ?o" by (rule scan_nonword_head [OF v(1,2) r])
      show ?thesis
      proof (cases "w = v")
        case True
        have "words_of (''<'' @ tag @ ''>'' @ ?o) = words_of tag @ words_of ?o"
          using words_cut [of "CHR ''>''" tag ?o] by (simp add: is_word_def char_class_defs)
        with o v(3) True show ?thesis unfolding s scan_word [OF v(1,2) w r p] by simp
      next
        case False
        with o show ?thesis unfolding s scan_word [OF v(1,2) w r p] by (simp add: words_run [OF w(2,1) o'])
      qed
    qed
  qed simp
qed

text \<open>A word that a line does not have, and no tag has, does not come into it by another value's pass.\<close>

lemma words_append:
  assumes "a = [] \<or> \<not> is_word (last a) \<or> \<not> at_char is_word b"
  shows "words_of (a @ b) = words_of a @ words_of b"
proof -
  consider "a = []" | c a' where "a = a' @ [c]" "\<not> is_word c" | "b = []" | c b' where "b = c # b'" "\<not> is_word c"
    using assms by (cases a rule: rev_cases; cases b) (auto simp: at_char_def)
  then show ?thesis
  proof cases
    case (2 c a')
    then show ?thesis using words_cut [of c a' b] words_cut [of c a' "[]"] by simp
  next
    case (4 c b')
    then show ?thesis using words_cut [of c a b'] by simp
  qed simp_all
qed

lemma scan_head:
  assumes "v \<noteq> []" "\<not> at_char is_word r"
  shows "\<not> at_char is_word (fst (known_scan tag v prev r))"
  using assms by (cases r) (auto simp: at_char_def case_prod_beta is_word_def char_class_defs)

lemma scan_no_new_words:
  assumes v: "v \<noteq> []"
  shows "prev = (if x = [] then None else Some (last x)) \<Longrightarrow>
    set (words_of (x @ fst (known_scan tag v prev s))) \<subseteq> set (words_of (x @ s)) \<union> set (words_of tag)"
proof (induction "length s" arbitrary: prev s x rule: less_induct)
  case less
  show ?case
  proof (cases s)
    case Nil
    then show ?thesis by simp
  next
    case (Cons c t)
    show ?thesis
    proof (cases "starts_with v s \<and> \<not> prev_char is_word prev \<and> \<not> at_char is_word (drop (length v) s)")
      case False
      then have "fst (known_scan tag v prev s) = c # fst (known_scan tag v (Some c) t)"
        using Cons by (auto simp: case_prod_beta)
      then show ?thesis using less.hyps [of t "Some c" "x @ [c]"] Cons by simp
    next
      case True
      define b where "b = drop (length v) s"
      have s: "s = v @ b" using True starts_withD b_def by blast
      have b: "\<not> at_char is_word b" using True b_def by simp
      have x: "x = [] \<or> \<not> is_word (last x)" using True less.prems by (auto simp: prev_char_def split: if_splits)
      let ?o = "fst (known_scan tag v (Some (last v)) b)"
      have d: "drop (length v - 1) t = b" using Cons v by (cases v) (auto simp: b_def)
      have out: "fst (known_scan tag v prev s) = ''<'' @ tag @ ''>'' @ ?o"
        using True Cons d by (simp add: case_prod_beta)
      have "set (words_of (v @ ?o)) \<subseteq> set (words_of (v @ b)) \<union> set (words_of tag)"
        using less.hyps [of b "Some (last v)" v] v s by simp
      then have o: "set (words_of ?o) \<subseteq> set (words_of s) \<union> set (words_of tag)"
        using words_append [of v ?o] scan_head [OF v b] s by auto
      have nw: "\<not> is_word (CHR ''<'')" "\<not> is_word (CHR ''>'')" by (simp_all add: is_word_def char_class_defs)
      have "words_of (x @ ''<'' @ tag @ ''>'' @ ?o) = words_of x @ words_of tag @ words_of ?o"
        using words_cut [OF nw(1), of x "tag @ ''>'' @ ?o"] words_cut [OF nw(2), of tag ?o] by simp
      then show ?thesis using o words_append [of x s] x out by auto
    qed
  qed
qed

lemma steps_no_new_words:
  "\<forall>(t, v)\<in>set ks. v \<noteq> [] \<Longrightarrow>
   set (words_of (fst (fold known_step ks (l, st)))) \<subseteq> set (words_of l) \<union> (\<Union>(t, v)\<in>set ks. set (words_of t))"
proof (induction ks arbitrary: l st)
  case (Cons k ks)
  obtain t v where k: "k = (t, v)" by (cases k)
  obtain l' st' where 1: "known_step k (l, st) = (l', st')" by force
  have "l' = fst (known_scan t v None l)" using 1 k by (simp add: known_step_def case_prod_beta)
  with scan_no_new_words [of v None "[]" t l] Cons.prems k
  have "set (words_of l') \<subseteq> set (words_of l) \<union> set (words_of t)" by simp
  moreover have "set (words_of (fst (fold known_step ks (l', st')))) \<subseteq> set (words_of l') \<union> (\<Union>(t, v)\<in>set ks. set (words_of t))"
    using Cons.IH Cons.prems by simp
  ultimately show ?case using 1 k by fastforce
qed simp

lemma known_gone:
  assumes "(t0, v) \<in> set ks" "\<forall>(t, v)\<in>set ks. v \<noteq> []" "list_all is_word v" "\<forall>(t, u)\<in>set ks. v \<notin> set (words_of t)"
  shows "v \<notin> set (words_of (fst (fold known_step ks (l, st))))"
  using assms
proof (induction ks arbitrary: l st)
  case (Cons k ks)
  obtain l' st' where 1: "known_step k (l, st) = (l', st')" by force
  show ?case
  proof (cases "(t0, v) \<in> set ks")
    case True
    then show ?thesis using Cons 1 by simp
  next
    case False
    then have k: "k = (t0, v)" using Cons.prems(1) by simp
    then have "v \<notin> set (words_of l')"
      using 1 Cons.prems known_scan_words [of v t0 None l]
      by (auto simp: known_step_def case_prod_beta prev_char_def)
    moreover have "set (words_of (fst (fold known_step ks (l', st')))) \<subseteq> set (words_of l') \<union> (\<Union>(t, v)\<in>set ks. set (words_of t))"
      by (rule steps_no_new_words) (use Cons.prems(2) in auto)
    moreover have "v \<notin> (\<Union>(t, u)\<in>set ks. set (words_of t))" using Cons.prems(4) by auto
    ultimately show ?thesis using 1 by auto
  qed
qed simp

text \<open>The values a caller registers.\<close>

definition registered :: "(string \<times> string) list \<Rightarrow> sanitizer" where
  "registered kvs = fold (\<lambda>(t, v) s. san_add_known s (Some t) (Some v)) kvs san_new"

definition registrable :: "string \<Rightarrow> bool" where
  "registrable v \<longleftrightarrow> 3 \<le> length v \<and> (list_all is_digit v \<longrightarrow> 5 \<le> length v)"

lemma set_insert_known [simp]: "set (insert_known kv xs) = insert kv (set xs)"
  by (induction xs) auto

lemma register_step:
  assumes "s' = san_add_known s (Some t) (Some v)" "\<forall>(t, v)\<in>set (known s). registrable v"
  shows "(\<forall>(t, v)\<in>set (known s'). registrable v) \<and> snd ` set (known s') = snd ` set (known s) \<union> (if registrable v then {v} else {})
    \<and> fst ` set (known s') \<subseteq> insert t (fst ` set (known s))"
  using assms by (auto simp: san_add_known_def registrable_def split: if_splits)

lemma registered_fold:
  "\<forall>(t, v)\<in>set (known s). registrable v \<Longrightarrow>
   (let s' = fold (\<lambda>(t, v) s. san_add_known s (Some t) (Some v)) kvs s
    in (\<forall>(t, v)\<in>set (known s'). registrable v) \<and>
       snd ` set (known s') = snd ` set (known s) \<union> {v \<in> snd ` set kvs. registrable v} \<and>
       fst ` set (known s') \<subseteq> fst ` set kvs \<union> fst ` set (known s))"
proof (induction kvs arbitrary: s)
  case (Cons k kvs)
  obtain t v where k: "k = (t, v)" by (cases k)
  define s1 where "s1 = san_add_known s (Some t) (Some v)"
  note 1 = register_step [OF s1_def Cons.prems]
  let ?f = "fold (\<lambda>(t, v) s. san_add_known s (Some t) (Some v)) kvs s1"
  from Cons.IH [OF conjunct1 [OF 1]] have
    i: "\<forall>(t, v)\<in>set (known ?f). registrable v" "snd ` set (known ?f) = snd ` set (known s1) \<union> {v \<in> snd ` set kvs. registrable v}"
      "fst ` set (known ?f) \<subseteq> fst ` set kvs \<union> fst ` set (known s1)"
    unfolding Let_def by blast+
  have "fst ` set (known ?f) \<subseteq> fst ` set (k # kvs) \<union> fst ` set (known s)"
  proof -
    have "fst ` set (known s1) \<subseteq> insert t (fst ` set (known s))" using 1 by blast
    with i(3) show ?thesis by (simp add: k) blast
  qed
  moreover have "snd ` set (known ?f) = snd ` set (known s) \<union> {v \<in> snd ` set (k # kvs). registrable v}"
    unfolding i(2) using 1 unfolding k by auto
  ultimately show ?case using i(1) by (simp add: Let_def k s1_def [symmetric])
qed (simp add: Let_def)

text \<open>C36. No registered value is left as a word of a line: whatever the line, and whatever else is
registered, a value of word characters that is long enough to register is no word of what the
pass over the known values gives, as long as no tag has it as a word.\<close>

theorem known_words_gone:
  assumes "(t, v) \<in> set kvs" "registrable v" "list_all is_word v" "\<forall>(t, u)\<in>set kvs. v \<notin> set (words_of t)"
  shows "v \<notin> set (words_of (fst (pass_known (registered kvs) line)))"
proof -
  have s: "known san_new = []" by (simp add: san_new_def)
  from registered_fold [of san_new kvs] have
    r: "\<forall>(t, v)\<in>set (known (registered kvs)). registrable v"
      "snd ` set (known (registered kvs)) = {v \<in> snd ` set kvs. registrable v}"
      "fst ` set (known (registered kvs)) \<subseteq> fst ` set kvs"
    by (auto simp: s registered_def Let_def)
  have "v \<in> snd ` set (known (registered kvs))" using assms(1,2) r(2) by force
  then obtain t0 where m: "(t0, v) \<in> set (known (registered kvs))" by force
  have "\<forall>(t, u)\<in>set (known (registered kvs)). v \<notin> set (words_of t)" using r(3) assms(4) by fastforce
  moreover have "\<forall>(t, v)\<in>set (known (registered kvs)). v \<noteq> []" using r(1) by (auto simp: registrable_def)
  ultimately show ?thesis unfolding pass_known_def using known_gone [OF m _ assms(3)] by blast
qed

lemma known_words_gone_witness:
  "''hunter2'' \<notin> set (words_of (fst (pass_known (registered [(''PSK'', ''hunter2''), (''SSID'', ''my net'')]) ''psk hunter2 on my net'')))"
  by (rule known_words_gone [of "''PSK''"]) code_simp+

section \<open>Placeholders\<close>

text \<open>A sanitizer whose classes hold no value twice, and one that only adds to those of another.\<close>

definition numbered :: "sanitizer \<Rightarrow> bool" where
  "numbered s \<longleftrightarrow> (\<forall>c. distinct (cls s c))"

definition extends :: "sanitizer \<Rightarrow> sanitizer \<Rightarrow> bool" where
  "extends s s' \<longleftrightarrow> (\<forall>c. \<exists>vs. cls s' c = cls s c @ vs) \<and> (numbered s \<longrightarrow> numbered s')"

lemma extends_refl [intro, simp]: "extends s s"
  by (simp add: extends_def)

lemma extends_trans [trans]: "extends a b \<Longrightarrow> extends b c \<Longrightarrow> extends a c"
  unfolding extends_def by (metis append.assoc)

lemma extends_count [simp]: "extends s (san_count s tag)"
  by (simp add: extends_def san_count_def numbered_def)

lemma index_in_Some: "index_in v i vs = Some j \<Longrightarrow> i \<le> j \<and> j - i < length vs \<and> vs ! (j - i) = v"
  by (induction vs arbitrary: i) (force simp: nth_Cons' split: if_splits)+

lemma index_in_None: "index_in v i vs = None \<Longrightarrow> v \<notin> set vs"
  by (induction vs arbitrary: i) (auto split: if_splits)

lemma class_index_spec:
  assumes "class_index vs v = (n, vs')"
  shows "0 < n \<and> n \<le> length vs' \<and> vs' ! (n - 1) = v \<and> (\<exists>ws. vs' = vs @ ws) \<and> (distinct vs \<longrightarrow> distinct vs')"
  using assms by (auto simp: class_index_def split: option.splits dest!: index_in_Some index_in_None)

lemma placeholder_spec:
  assumes "placeholder s c v = (t, s')"
  shows "extends s s' \<and> (\<exists>n. t = fit 48 (''<'' @ cl_tag c @ ''-'' @ show_nat n @ ''>'') \<and> 0 < n \<and> n \<le> length (cls s' c) \<and>
    cls s' c ! (n - 1) = v)"
proof -
  obtain n vs' where n: "class_index (cls s c) v = (n, vs')" by force
  from class_index_spec [OF n] assms n show ?thesis
    by (auto simp: placeholder_def extends_def numbered_def san_count_def)
qed

lemma extends_placeholder: "placeholder s c v = (t, s') \<Longrightarrow> extends s s'"
  using placeholder_spec by blast

definition cb_extends :: "callback \<Rightarrow> bool" where
  "cb_extends cb \<longleftrightarrow> (\<forall>s p m w s'. cb s p m = Some (w, s') \<longrightarrow> extends s s')"

lemma callbacks_extend: "\<forall>(maybe, r, cb)\<in>set steps. cb_extends cb"
  by (auto simp: steps_def cb_extends_def cb_bearer_def cb_basic_def cb_jwt_def cb_const_def cb_kv_def cb_email_def
      cb_mac_def cb_ip4_def with_lead_def Let_def split: if_splits prod.splits dest: extends_placeholder)
     (metis extends_placeholder prod.collapse)+

lemma pass_regex_extends: "cb_extends cb \<Longrightarrow> extends s (snd (pass_regex r cb nb s p))"
proof (induction r cb nb s p rule: pass_regex.induct)
  case (2 r cb nb s c t)
  show ?case
  proof (cases "regexec r nb (c # t)")
    case None
    then show ?thesis by (simp add: Let_def)
  next
    case (Some m)
    obtain so eo gs where "m = (so, eo, gs)" by (cases m)
    with Some have R: "regexec r nb (c # t) = Some (so, eo, gs)" by simp
    show ?thesis
    proof (cases "cb s (c # t) (so, eo, gs)")
      case None
      with 2(1) [OF refl R refl refl refl None 2(3)] R show ?thesis
        by (simp add: Let_def case_prod_beta)
    next
      case (Some ws)
      then obtain w s1 where W: "cb s (c # t) (so, eo, gs) = Some (w, s1)" by (cases ws) simp
      then have "extends s s1" using 2(3) by (auto simp: cb_extends_def)
      from extends_trans [OF this 2(2) [OF refl R refl refl refl W refl 2(3)]] R W show ?thesis
        by (simp add: Let_def case_prod_beta)
    qed
  qed
qed simp

lemma pass_runs_extends: "extends s (snd (pass_runs P judge k s prev p))"
proof (induction P judge k s prev p rule: pass_runs.induct)
  case (2 P judge k s prev c t)
  let ?run = "takeWhile P (c # t)" and ?after = "dropWhile P (c # t)"
  show ?case
  proof (cases "P c")
    case False
    with 2(1) [OF refl False refl] show ?thesis by (simp add: Let_def case_prod_beta)
  next
    case True
    obtain w s1 where w: "(if judge prev ?run ?after then placeholder s k ?run else (?run, s)) = (w, s1)" by force
    then have "extends s s1" by (auto split: if_splits dest: extends_placeholder)
    moreover have "extends s1 (snd (pass_runs P judge k s1 (Some (last ?run)) ?after))"
      using 2(2) [OF refl _ refl refl w [symmetric]] True by simp
    ultimately show ?thesis using True w extends_trans by (simp add: Let_def case_prod_beta del: takeWhile.simps dropWhile.simps)
  qed
qed simp

lemma counts_extend: "extends s (((\<lambda>s. san_count s tag) ^^ n) s)"
  by (induction n) (auto intro: extends_trans)

lemma known_extends: "extends s (snd (fold known_step ks (l, s)))"
proof (induction ks arbitrary: l s)
  case (Cons k ks)
  obtain l' s' where 1: "known_step k (l, s) = (l', s')" by force
  then have "extends s s'" using counts_extend by (auto simp: known_step_def split: prod.splits)
  from extends_trans [OF this Cons.IH [of s' l']] 1 show ?case by simp
qed simp

lemma run_steps_extend:
  "\<forall>(maybe, r, cb)\<in>set ss. cb_extends cb \<Longrightarrow> extends s (snd (fold run_step ss (l, s)))"
proof (induction ss arbitrary: l s)
  case (Cons st ss)
  obtain l' s' where 1: "run_step st (l, s) = (l', s')" by force
  obtain maybe r cb where st: "st = (maybe, r, cb)" by (cases st)
  have "extends s s'" using 1 st Cons.prems pass_regex_extends [of cb s r False l]
    by (cases "maybe l") (auto simp: run_step_def)
  from extends_trans [OF this Cons.IH [of s' l']] 1 Cons.prems show ?case by simp
qed simp

lemma san_line_extends: "extends s (snd (san_line s line))"
proof -
  obtain l1 s1 where 1: "pass_known s line = (l1, s1)" by force
  obtain l2 s2 where 2: "fold run_step steps (l1, s1) = (l2, s2)" by force
  obtain l3 s3 where 3: "(if 2 \<le> colons l2 then pass_ip6 s2 l2 else (l2, s2)) = (l3, s3)" by force
  obtain l4 s4 where 4: "pass_hex s3 l3 = (l4, s4)" by force
  have "extends s s1" using known_extends [of s "known s" line] 1 by (simp add: pass_known_def)
  also have "extends s1 s2" using run_steps_extend [OF callbacks_extend, of s1 l1] 2 by simp
  also have "extends s2 s3"
    using 3 pass_runs_extends [of s2 ip6_run judge_ip6 CL_IP6 None l2] by (auto simp: pass_ip6_def split: if_splits)
  also have "extends s3 s4" using 4 pass_runs_extends [of s3 is_xdigit judge_hex CL_HEX None l3] by (simp add: pass_hex_def)
  also have "extends s4 (snd (pass_b64 s4 l4))" unfolding pass_b64_def by (rule pass_runs_extends)
  finally show ?thesis using 1 2 3 4 by (simp add: san_line_def)
qed

lemma lines_extend: "extends s (fold (\<lambda>l s. snd (san_line s l)) ls s)"
  by (induction ls arbitrary: s) (auto intro: extends_trans san_line_extends)

lemma tag_text_inj:
  assumes "fit 48 (''<'' @ cl_tag c @ ''-'' @ show_nat m @ ''>'') = fit 48 (''<'' @ cl_tag d @ ''-'' @ show_nat n @ ''>'')"
    and "m < 10 ^ 20" "n < 10 ^ 20"
  shows "c = d \<and> m = n"
proof -
  have l: "length (show_nat k) \<le> 20" if "k < 10 ^ 20" for k
    using digits_of_length [of k 20] that by (simp add: show_nat_def)
  have t: "length (cl_tag c) \<le> 5" for c by (simp add: cl_tag_def split: cl.splits)
  have f: "fit 48 (''<'' @ cl_tag c @ ''-'' @ show_nat k @ ''>'') = ''<'' @ cl_tag c @ ''-'' @ show_nat k @ ''>''" if "k < 10 ^ 20" for c k
    using l [OF that] t [of c] by (intro fit_id) simp
  have e: "cl_tag c @ ''-'' @ show_nat m = cl_tag d @ ''-'' @ show_nat n"
    using assms f by simp
  have cut: "takeWhile (\<lambda>x. x \<noteq> CHR ''-'') (cl_tag c @ ''-'' @ r) = cl_tag c" for c r
    by (simp add: cl_tag_def split: cl.splits)
  have "cl_tag c = cl_tag d" using arg_cong [OF e, of "takeWhile (\<lambda>x. x \<noteq> CHR ''-'')"] unfolding cut .
  then have "c = d" by (simp add: cl_tag_def split: cl.splits)
  with e show ?thesis by (simp add: show_nat_def)
qed

text \<open>A placeholder names one value: of two values put under a class number by one sanitizer, with any
number of lines between them, the placeholders are the same text exactly when the values and their
classes are the same. (The classes hold fewer than \<open>10^20\<close> values, more than \<open>size_t\<close> counts.)\<close>

theorem placeholder_names_value:
  assumes "numbered s" "placeholder s c u = (t, s1)"
    and "placeholder (fold (\<lambda>l s. snd (san_line s l)) ls s1) d v = (t', s2)"
    and "length (cls s2 c) < 10 ^ 20" "length (cls s2 d) < 10 ^ 20"
  shows "t = t' \<longleftrightarrow> c = d \<and> u = v"
proof -
  let ?s = "fold (\<lambda>l s. snd (san_line s l)) ls s1"
  have x: "extends s s1" "extends s1 ?s" "extends ?s s2"
    using extends_placeholder [OF assms(2)] lines_extend extends_placeholder [OF assms(3)] by blast+
  have n2: "numbered s2" using assms(1) x by (simp add: extends_def)
  obtain vs where vs: "cls s2 c = cls s1 c @ vs" using extends_trans [OF x(2,3)] by (auto simp: extends_def)
  obtain m where m: "t = fit 48 (''<'' @ cl_tag c @ ''-'' @ show_nat m @ ''>'')" "0 < m" "m \<le> length (cls s1 c)" "cls s1 c ! (m - 1) = u"
    using placeholder_spec [OF assms(2)] by blast
  obtain n where n: "t' = fit 48 (''<'' @ cl_tag d @ ''-'' @ show_nat n @ ''>'')" "0 < n" "n \<le> length (cls s2 d)" "cls s2 d ! (n - 1) = v"
    using placeholder_spec [OF assms(3)] by blast
  have "m - 1 < length (cls s1 c)" using m by linarith
  then have u: "cls s2 c ! (m - 1) = u" "m \<le> length (cls s2 c)" using m vs by (simp_all add: nth_append)
  have "t = t' \<longleftrightarrow> c = d \<and> m = n"
    using tag_text_inj [of c m d n] m(1) n(1) u(2) n(3) assms(4,5) by auto
  also have "\<dots> \<longleftrightarrow> c = d \<and> u = v"
  proof -
    have "m = n" if "c = d" "u = v"
    proof -
      have "m - 1 = n - 1"
        using n2 nth_eq_iff_index_eq [of "cls s2 c" "m - 1" "n - 1"] u n(2,3,4) m(2) that by (auto simp: numbered_def)
      then show ?thesis using m(2) n(2) by linarith
    qed
    then show ?thesis using u n(4) by auto
  qed
  finally show ?thesis .
qed

lemma placeholder_names_value_witness:
  "\<exists>t s1 t' s2. placeholder san_new CL_IP ''10.0.0.5'' = (t, s1) \<and>
     placeholder (fold (\<lambda>l s. snd (san_line s l)) [''ok''] s1) CL_IP ''10.0.0.5'' = (t', s2) \<and> t = t'"
proof -
  let ?s1 = "snd (placeholder san_new CL_IP ''10.0.0.5'')"
  let ?s = "fold (\<lambda>l s. snd (san_line s l)) [''ok''] ?s1"
  let ?s2 = "snd (placeholder ?s CL_IP ''10.0.0.5'')"
  have l: "length (cls ?s2 CL_IP) \<le> 3" by code_simp
  have n: "numbered san_new" by (simp add: numbered_def san_new_def)
  have "n \<le> 3 \<Longrightarrow> n < 10 ^ 20" for n :: nat by simp
  from this [OF l] have l': "length (cls ?s2 CL_IP) < 10 ^ 20" .
  have p: "placeholder san_new CL_IP ''10.0.0.5'' = (fst (placeholder san_new CL_IP ''10.0.0.5''), ?s1)"
    "placeholder ?s CL_IP ''10.0.0.5'' = (fst (placeholder ?s CL_IP ''10.0.0.5''), ?s2)" by (simp_all only: prod.collapse)
  from placeholder_names_value [OF n p l' l'] p show ?thesis by blast
qed

section \<open>What stays\<close>


end
