(* ===== verification/Setup.thy ===== *)
theory Setup
  imports Json Sha256
begin

text \<open>
  The setup record and the controller gate (\<open>src/setup.c\<close>), and the advisory documents
  (\<open>src/advisories.c\<close>). The record is one JSON object, saved whole and atomically: the file is what
  jansson reads back from it, or none. The texts of the documents are made by the build, so they are a
  parameter; so are the hooks that ask the settings and the cooling engine. Strings handed in are
  UTF-8, as jansson wants them. Each operation holds the one mutex throughout.
\<close>

section \<open>The advisory documents\<close>

record advisory =
  doc_id :: string
  doc_title :: string
  consent :: string
  phrase :: "string option"
  doc_hash :: string
  on_demand :: bool

definition docs :: "advisory list" where
  "docs =
     [\<lparr>doc_id = ''safety-and-risk'', doc_title = ''Safety and risk'', consent = ''typed'', phrase = Some ''I UNDERSTAND'',
       doc_hash = [], on_demand = False\<rparr>,
      \<lparr>doc_id = ''licenses'', doc_title = ''Licenses and notices'', consent = ''check'', phrase = None, doc_hash = [], on_demand = False\<rparr>,
      \<lparr>doc_id = ''privacy'', doc_title = ''Privacy'', consent = ''check'', phrase = None, doc_hash = [], on_demand = False\<rparr>,
      \<lparr>doc_id = ''cloud-service'', doc_title = ''The Glowforge cloud service'', consent = ''check'', phrase = None, doc_hash = [],
       on_demand = False\<rparr>,
      \<lparr>doc_id = ''extensions'', doc_title = ''Extensions'', consent = ''typed'', phrase = Some ''I UNDERSTAND'', doc_hash = [],
       on_demand = True\<rparr>]"

definition NFIRST_RUN :: nat where "NFIRST_RUN = 4"

text \<open>Each document's hash is its text's, the texts in the order of the table.\<close>

definition advisories_init :: "u8 list list \<Rightarrow> advisory list" where
  "advisories_init texts = map2 (\<lambda>d t. d\<lparr>doc_hash := sha256_hex (sha256 t)\<rparr>) docs texts"

definition advisories_list :: "advisory list \<Rightarrow> advisory list" where
  "advisories_list ds = take NFIRST_RUN ds"

definition advisories_find :: "advisory list \<Rightarrow> string option \<Rightarrow> advisory option" where
  "advisories_find ds i = (case i of None \<Rightarrow> None | Some n \<Rightarrow> List.find (\<lambda>d. doc_id d = n) ds)"

section \<open>The tables\<close>

record setup_step =
  step_id :: string
  step_version :: int
  when_fact :: "string option"
  required :: bool

definition step :: "string \<Rightarrow> string option \<Rightarrow> bool \<Rightarrow> setup_step" where
  "step i w r = \<lparr>step_id = i, step_version = 1, when_fact = w, required = r\<rparr>"

definition image_steps :: "setup_step list" where
  "image_steps =
     [step ''advisories'' None False, step ''account'' None False, step ''preferences'' None True, step ''machine'' None True,
      step ''cloud'' None True, step ''cooling.flow'' None True, step ''switches'' None False, step ''sensors'' None False,
      step ''airflow'' None False, step ''cooling.aa-offset'' None False, step ''motion'' None False, step ''cameras'' None False,
      step ''cloud.header'' (Some ''cloud_enabled'') False, step ''lens.travel'' None False, step ''laser.focus'' None False]"

record setup_change =
  change_id :: string
  change_title :: string
  change_reason :: string
  change_wizards :: "string list"

definition changes :: "setup_change list" where
  "changes =
     [\<lparr>change_id = ''tube'', change_title = ''The laser tube was replaced'', change_reason = ''the tube was replaced'',
       change_wizards = [''laser.floor'']\<rparr>,
      \<lparr>change_id = ''pump'', change_title = ''The coolant pump was replaced'', change_reason = ''the pump was replaced'',
       change_wizards = [''cooling.flow'']\<rparr>,
      \<lparr>change_id = ''coolant'', change_title = ''The coolant was changed'', change_reason = ''the coolant was changed'',
       change_wizards = [''cooling.flow'']\<rparr>,
      \<lparr>change_id = ''fan'', change_title = ''A fan was replaced'', change_reason = ''a fan was replaced'',
       change_wizards = [''airflow'']\<rparr>,
      \<lparr>change_id = ''head'', change_title = ''The head was replaced'', change_reason = ''the head was replaced'',
       change_wizards = [''machine'', ''lens.travel'', ''laser.focus'', ''motion'', ''cameras'']\<rparr>,
      \<lparr>change_id = ''tray'', change_title = ''The tray was replaced'', change_reason = ''the tray was replaced'',
       change_wizards = [''laser.focus'']\<rparr>,
      \<lparr>change_id = ''service'', change_title = ''A cover was off: belts, drivers, wiring, or switches were serviced'',
       change_reason = ''the machine was serviced'', change_wizards = [''switches'', ''motion'']\<rparr>]"

section \<open>Objects in place\<close>

fun put_kv :: "string \<Rightarrow> 'v \<Rightarrow> (string \<times> 'v) list \<Rightarrow> (string \<times> 'v) list" where
  "put_kv k v [] = [(k, v)]"
| "put_kv k v ((a, b) # r) = (if a = k then (k, v) # r else (a, b) # put_kv k v r)"

fun obj_set :: "string \<Rightarrow> json \<Rightarrow> json \<Rightarrow> json" where
  "obj_set k v (JObj kvs) = JObj (put_kv k v kvs)"
| "obj_set k v j = j"

fun obj_del :: "string \<Rightarrow> json \<Rightarrow> json" where
  "obj_del k (JObj kvs) = JObj (filter (\<lambda>kv. fst kv \<noteq> k) kvs)"
| "obj_del k j = j"

text \<open>The member of that name, an empty object when it is not one; changed in place.\<close>

definition sub :: "string \<Rightarrow> json \<Rightarrow> json" where
  "sub key j = (case obj_get (Some j) key of Some (JObj kvs) \<Rightarrow> JObj kvs | _ \<Rightarrow> JObj [])"

definition edit :: "string \<Rightarrow> (json \<Rightarrow> json) \<Rightarrow> json \<Rightarrow> json" where
  "edit key f j = obj_set key (f (sub key j)) j"

section \<open>The state\<close>

datatype sfile = Absent | Garbled | Doc json

record setup_state =
  rec :: json
  g_first_run :: bool
  g_gate :: bool
  g_why :: string
  disk :: sfile
  earlier :: sfile

text \<open>What the build and the rest of the daemon give: the documents, the table, the hooks, the clock's
text, the sheet id, and whether a write succeeds.\<close>

record world =
  b_docs :: "advisory list"
  b_steps :: "setup_step list"
  fact :: "string \<Rightarrow> bool"
  known_step :: "string \<Rightarrow> bool"
  fans :: bool
  now_iso :: string
  sheet :: "string option"
  io :: bool

definition SETUP_SCHEMA :: int where "SETUP_SCHEMA = 1"

definition fresh_record :: "world \<Rightarrow> json" where
  "fresh_record w =
     JObj ([(''schema'', JInt SETUP_SCHEMA), (''created'', JStr (now_iso w))] @
           (case sheet w of Some sid \<Rightarrow> [(''sheet_id'', JStr sid)] | None \<Rightarrow> []) @
           [(''advisories'', JObj []), (''wizards'', JObj []), (''flags'', JObj [])])"

definition save_locked :: "world \<Rightarrow> setup_state \<Rightarrow> int \<times> setup_state" where
  "save_locked w st = (if io w then (0, st\<lparr>disk := Doc (rec st)\<rparr>) else (- 1, st))"

section \<open>The gate\<close>

definition accepted_hash :: "json \<Rightarrow> string \<Rightarrow> string option" where
  "accepted_hash r i = string_value (obj_get (obj_get (obj_get (Some r) ''advisories'') i) ''hash'')"

definition advisories_complete_locked :: "world \<Rightarrow> json \<Rightarrow> bool" where
  "advisories_complete_locked w r \<longleftrightarrow>
     is_object (obj_get (Some r) ''advisories'') \<and>
     list_all (\<lambda>d. accepted_hash r (doc_id d) = Some (doc_hash d)) (advisories_list (b_docs w))"

definition acceptance_done_locked :: "json \<Rightarrow> bool" where
  "acceptance_done_locked r \<longleftrightarrow> is_string (obj_get (obj_get (Some r) ''acceptance'') ''pressed_at'')"

definition account_set_locked :: "json \<Rightarrow> bool" where
  "account_set_locked r \<longleftrightarrow> is_string (obj_get (obj_get (Some r) ''account'') ''name'')"

text \<open>The recorded version, as the C \<open>int\<close> it is cut to.\<close>

definition to_int32 :: "int \<Rightarrow> int" where
  "to_int32 i = (i + 2 ^ 31) mod 2 ^ 32 - 2 ^ 31"

definition wizard_version_locked :: "json \<Rightarrow> string \<Rightarrow> int" where
  "wizard_version_locked r i =
     (case obj_get (obj_get (obj_get (Some r) ''wizards'') i) ''version'' of Some (JInt v) \<Rightarrow> to_int32 v | _ \<Rightarrow> 0)"

definition step_applies_locked :: "world \<Rightarrow> json \<Rightarrow> setup_step \<Rightarrow> bool" where
  "step_applies_locked w r s =
     (case when_fact s of
        None \<Rightarrow> True
      | Some f \<Rightarrow> (case obj_get (obj_get (Some r) ''machine'') f of
                     Some j \<Rightarrow> is_true (Some j)
                   | None \<Rightarrow> fact w f))"

definition required_missing_locked :: "world \<Rightarrow> json \<Rightarrow> setup_step \<Rightarrow> bool" where
  "required_missing_locked w r s \<longleftrightarrow>
     required s \<and> step_applies_locked w r s \<and> wizard_version_locked r (step_id s) < step_version s"

definition missing_locked :: "world \<Rightarrow> json \<Rightarrow> string list" where
  "missing_locked w r = map step_id (filter (required_missing_locked w r) (b_steps w))"

text \<open>\<open>strncat\<close> into a buffer of 160.\<close>

definition cat160 :: "string \<Rightarrow> string \<Rightarrow> string" where
  "cat160 t buf = buf @ take (159 - length buf) t"

definition missing_text :: "string list \<Rightarrow> string" where
  "missing_text ids = fold (\<lambda>i m. cat160 i (if m = [] then m else cat160 '', '' m)) ids []"

definition evaluate_locked :: "world \<Rightarrow> setup_state \<Rightarrow> setup_state" where
  "evaluate_locked w st =
     (let r = rec st;
          consented = (advisories_complete_locked w r \<and> acceptance_done_locked r);
          account = account_set_locked r;
          missing = missing_text (missing_locked w r)
      in st\<lparr>g_first_run := \<not> is_string (obj_get (Some r) ''completed''),
            g_why := fit 256
              (if \<not> consented then ''the advisories are not accepted''
               else if \<not> account then ''no account exists''
               else if missing \<noteq> [] then ''setup required: '' @ missing
               else if \<not> fans w then ''the intake fans are not counted'' else []),
            g_gate := (consented \<and> account \<and> missing = [] \<and> fans w)\<rparr>)"

section \<open>Loading\<close>

text \<open>The record of the file's earlier name is taken over when there is none at the current one.\<close>

definition adopt_earlier_record :: "world \<Rightarrow> setup_state \<Rightarrow> setup_state" where
  "adopt_earlier_record w st =
     (if disk st \<noteq> Absent \<or> earlier st = Absent then st
      else if io w then st\<lparr>disk := earlier st, earlier := Absent\<rparr> else st)"

definition load_locked :: "world \<Rightarrow> setup_state \<Rightarrow> setup_state" where
  "load_locked w st =
     (let st = adopt_earlier_record w st
      in case disk st of
           Doc r \<Rightarrow>
             if is_object (Some r) \<and> integer_value (obj_get (Some r) ''schema'') = SETUP_SCHEMA then
               let r = (if is_string (obj_get (Some r) ''sheet_id'') then r
                        else case sheet w of Some sid \<Rightarrow> obj_set ''sheet_id'' (JStr sid) r | None \<Rightarrow> r);
                   r = edit ''flags'' (\<lambda>j. j) (edit ''wizards'' (\<lambda>j. j) (edit ''advisories'' (\<lambda>j. j) r))
               in st\<lparr>rec := r\<rparr>
             else st\<lparr>rec := fresh_record w\<rparr>
         | _ \<Rightarrow> st\<lparr>rec := fresh_record w\<rparr>)"

definition setup_init :: "world \<Rightarrow> setup_state \<Rightarrow> setup_state" where
  "setup_init w st = evaluate_locked w (load_locked w st)"

definition setup_first_run :: "world \<Rightarrow> setup_state \<Rightarrow> bool \<times> setup_state" where
  "setup_first_run w st = (let st = evaluate_locked w st in (g_first_run st, st))"

definition setup_gate_open :: "world \<Rightarrow> nat \<Rightarrow> setup_state \<Rightarrow> bool \<times> string \<times> setup_state" where
  "setup_gate_open w len st = (let st = evaluate_locked w st in (g_gate st, fit len (g_why st), st))"

section \<open>The operations that change the record\<close>

definition commit_locked :: "world \<Rightarrow> setup_state \<Rightarrow> int \<times> setup_state" where
  "commit_locked w st = (case save_locked w st of (rc, st) \<Rightarrow> (rc, evaluate_locked w st))"

definition change_rec :: "world \<Rightarrow> (json \<Rightarrow> json) \<Rightarrow> setup_state \<Rightarrow> int \<times> setup_state" where
  "change_rec w f st = commit_locked w (st\<lparr>rec := f (rec st)\<rparr>)"

definition acceptance_entry :: "world \<Rightarrow> string \<Rightarrow> string \<Rightarrow> json" where
  "acceptance_entry w hash meth = JObj [(''hash'', JStr hash), (''accepted'', JStr (now_iso w)), (''method'', JStr meth)]"

definition setup_advisory_accept ::
    "world \<Rightarrow> string option \<Rightarrow> string option \<Rightarrow> string option \<Rightarrow> setup_state \<Rightarrow> int \<times> setup_state" where
  "setup_advisory_accept w doc hash meth st =
     (case (advisories_find (b_docs w) doc, hash, meth) of
        (Some d, Some h, Some m) \<Rightarrow>
          if on_demand d \<or> h \<noteq> doc_hash d then (- 1, st)
          else change_rec w (\<lambda>r. obj_del ''acceptance'' (edit ''advisories'' (obj_set (doc_id d) (acceptance_entry w h m)) r)) st
      | _ \<Rightarrow> (- 1, st))"

definition setup_on_demand_accept ::
    "world \<Rightarrow> string option \<Rightarrow> string option \<Rightarrow> string option \<Rightarrow> setup_state \<Rightarrow> int \<times> setup_state" where
  "setup_on_demand_accept w doc hash meth st =
     (case (advisories_find (b_docs w) doc, hash, meth) of
        (Some d, Some h, Some m) \<Rightarrow>
          if \<not> on_demand d \<or> h \<noteq> doc_hash d then (- 1, st)
          else change_rec w (edit ''on_demand'' (obj_set (doc_id d) (acceptance_entry w h m))) st
      | _ \<Rightarrow> (- 1, st))"

definition setup_acceptance_pressed :: "world \<Rightarrow> setup_state \<Rightarrow> int \<times> setup_state" where
  "setup_acceptance_pressed w st =
     (if \<not> advisories_complete_locked w (rec st) then (- 1, st)
      else change_rec w (edit ''acceptance'' (obj_set ''pressed_at'' (JStr (now_iso w)))) st)"

definition setup_set_account :: "world \<Rightarrow> string option \<Rightarrow> int \<Rightarrow> setup_state \<Rightarrow> int \<times> setup_state" where
  "setup_set_account w name uid st =
     (case name of
        Some (c # n) \<Rightarrow>
          change_rec w (obj_set ''account'' (JObj [(''name'', JStr (c # n)), (''uid'', JInt uid), (''created'', JStr (now_iso w))])) st
      | _ \<Rightarrow> (- 1, st))"

definition setup_clear_account :: "world \<Rightarrow> setup_state \<Rightarrow> int \<times> setup_state" where
  "setup_clear_account w st = change_rec w (obj_del ''account'') st"

definition setup_set_machine :: "world \<Rightarrow> json option \<Rightarrow> setup_state \<Rightarrow> int \<times> setup_state" where
  "setup_set_machine w m st =
     (case m of Some (JObj kvs) \<Rightarrow> change_rec w (obj_set ''machine'' (JObj kvs)) st | _ \<Rightarrow> (- 1, st))"

definition wanted_version :: "world \<Rightarrow> string \<Rightarrow> int \<Rightarrow> int" where
  "wanted_version w i v = fold (\<lambda>s v. if step_id s = i \<and> v < step_version s then step_version s else v) (b_steps w) v"

definition setup_wizard_done ::
    "world \<Rightarrow> string option \<Rightarrow> int \<Rightarrow> json option \<Rightarrow> json option \<Rightarrow> setup_state \<Rightarrow> int \<times> setup_state" where
  "setup_wizard_done w i v result applied st =
     (case i of
        None \<Rightarrow> (- 1, st)
      | Some i \<Rightarrow>
          if v < 1 then (- 1, st)
          else change_rec w
                 (\<lambda>r. edit ''flags'' (obj_del i)
                        (edit ''wizards'' (obj_set i
                           (JObj [(''version'', JInt (wanted_version w i v)), (''completed'', JStr (now_iso w)),
                                  (''result'', or_else result (JObj [])), (''applied'', or_else applied (JObj []))])) r)) st)"

definition flag_entry :: "string \<Rightarrow> json" where "flag_entry reason = JObj [(''reason'', JStr reason)]"

definition setup_flag :: "world \<Rightarrow> string option \<Rightarrow> string option \<Rightarrow> setup_state \<Rightarrow> int \<times> setup_state" where
  "setup_flag w i reason st =
     (case i of
        None \<Rightarrow> (- 1, st)
      | Some i \<Rightarrow>
          change_rec w (edit ''flags'' (case reason of None \<Rightarrow> obj_del i | Some t \<Rightarrow> obj_set i (flag_entry t))) st)"

definition setup_flagged :: "string option \<Rightarrow> setup_state \<Rightarrow> bool" where
  "setup_flagged i st \<longleftrightarrow>
     (case i of None \<Rightarrow> False | Some i \<Rightarrow> obj_get (obj_get (Some (rec st)) ''flags'') i \<noteq> None)"

definition setup_complete :: "world \<Rightarrow> setup_state \<Rightarrow> int \<times> setup_state" where
  "setup_complete w st = change_rec w (obj_set ''completed'' (JStr (now_iso w))) st"

definition setup_change_apply :: "world \<Rightarrow> string option \<Rightarrow> setup_state \<Rightarrow> int \<times> setup_state" where
  "setup_change_apply w what st =
     (case what of
        None \<Rightarrow> (- 1, st)
      | Some i \<Rightarrow>
          (case List.find (\<lambda>c. change_id c = i) changes of
             None \<Rightarrow> (- 1, st)
           | Some c \<Rightarrow>
               change_rec w (edit ''flags'' (fold (\<lambda>k. obj_set k (flag_entry (change_reason c))) (change_wizards c))) st))"

definition setup_set_head :: "world \<Rightarrow> json option \<Rightarrow> setup_state \<Rightarrow> int \<times> setup_state" where
  "setup_set_head w head_facts st =
     (case (head_facts, obj_get (Some (rec st)) ''machine'') of
        (Some (JObj h), Some (JObj m)) \<Rightarrow> change_rec w (obj_set ''machine'' (obj_set ''head'' (JObj h) (JObj m))) st
      | _ \<Rightarrow> (- 1, st))"

section \<open>What is asked of it\<close>

definition shown_str :: "nat \<Rightarrow> json option \<Rightarrow> string" where
  "shown_str len j = fit len (or_else (string_value j) [])"

definition setup_machine_str :: "string \<Rightarrow> nat \<Rightarrow> setup_state \<Rightarrow> string" where
  "setup_machine_str key len st = shown_str len (obj_get (obj_get (Some (rec st)) ''machine'') key)"

definition setup_machine_bool :: "string \<Rightarrow> setup_state \<Rightarrow> bool" where
  "setup_machine_bool key st = is_true (obj_get (obj_get (Some (rec st)) ''machine'') key)"

definition setup_head_hash :: "nat \<Rightarrow> setup_state \<Rightarrow> string" where
  "setup_head_hash len st =
     shown_str len (obj_get (obj_get (obj_get (Some (rec st)) ''machine'') ''head'') ''serial_hash'')"

definition setup_wizard_result :: "string option \<Rightarrow> setup_state \<Rightarrow> json option" where
  "setup_wizard_result i st = obj_get (obj_get (obj_get (Some (rec st)) ''wizards'') (or_else i [])) ''result''"

definition setup_completed_at :: "nat \<Rightarrow> setup_state \<Rightarrow> string" where
  "setup_completed_at len st = shown_str len (obj_get (Some (rec st)) ''completed'')"

definition setup_cloud_homing_ok :: "string option \<Rightarrow> bool" where
  "setup_cloud_homing_ok m \<longleftrightarrow> m = Some ''gfcloud'' \<or> m = Some ''manual'' \<or> m = Some ''none''"

definition members :: "json option \<Rightarrow> (string \<times> json) list" where
  "members j = (case j of Some (JObj kvs) \<Rightarrow> kvs | _ \<Rightarrow> [])"

definition recommended_locked :: "world \<Rightarrow> json \<Rightarrow> (string \<times> string) list" where
  "recommended_locked w r =
     (let flags = obj_get (Some r) ''flags''
      in map (\<lambda>(k, f). (k, or_else (string_value (obj_get (Some f) ''reason'')) [])) (filter (known_step w \<circ> fst) (members flags)) @
         map (\<lambda>s. (step_id s, if wizard_version_locked r (step_id s) \<noteq> 0 then ''this release asks for it again'' else ''not run yet''))
           (filter (\<lambda>s. step_id s \<noteq> ''advisories'' \<and> step_id s \<noteq> ''account'' \<and> \<not> required s \<and> step_applies_locked w r s \<and>
                        obj_get flags (step_id s) = None \<and> wizard_version_locked r (step_id s) < step_version s) (b_steps w)))"

definition setup_recommended_count :: "world \<Rightarrow> setup_state \<Rightarrow> nat" where
  "setup_recommended_count w st = length (recommended_locked w (rec st))"

definition doc_json :: "json \<Rightarrow> advisory \<Rightarrow> json" where
  "doc_json r d =
     JObj [(''id'', JStr (doc_id d)), (''title'', JStr (doc_title d)), (''consent'', JStr (consent d)),
           (''phrase'', case phrase d of Some p \<Rightarrow> JStr p | None \<Rightarrow> JNull), (''hash'', JStr (doc_hash d)),
           (''accepted'', JBool (accepted_hash r (doc_id d) = Some (doc_hash d)))]"

text \<open>The status as the object jansson writes; a version a wizard does not have is left out.\<close>

definition setup_status_json :: "world \<Rightarrow> setup_state \<Rightarrow> json \<times> setup_state" where
  "setup_status_json w st =
     (let st = evaluate_locked w st; r = rec st
      in (JObj [(''first_run'', JBool (g_first_run st)), (''gate'', JStr (if g_gate st then ''open'' else ''closed'')),
                (''why'', JStr (g_why st)), (''advisories_complete'', JBool (advisories_complete_locked w r)),
                (''acceptance_done'', JBool (acceptance_done_locked r)), (''account'', JBool (account_set_locked r)),
                (''fans_counted'', JBool (fans w)), (''completed'', JBool (\<not> g_first_run st)),
                (''sheet_id'', JStr (or_else (string_value (obj_get (Some r) ''sheet_id'')) [])),
                (''recommended'', JArr (map (\<lambda>(i, t). JObj [(''id'', JStr i), (''reason'', JStr t)]) (recommended_locked w r))),
                (''missing'', JArr (map JStr (missing_locked w r))),
                (''versions'', JObj (concat (map (\<lambda>(k, f). case obj_get (Some f) ''version'' of Some v \<Rightarrow> [(k, v)] | None \<Rightarrow> [])
                                 (members (obj_get (Some r) ''wizards''))))),
                (''documents'', JArr (map (doc_json r) (advisories_list (b_docs w))))], st))"

definition setup_changes_json :: "json" where
  "setup_changes_json =
     JArr (map (\<lambda>c. JObj [(''id'', JStr (change_id c)), (''title'', JStr (change_title c)),
                          (''wizards'', JArr (map (\<lambda>i. JObj [(''id'', JStr i)]) (change_wizards c)))]) changes)"

end
