(* ===== verification/SetupProps.thy ===== *)
theory SetupProps
  imports Setup
begin

text \<open>
  The gate opens on nothing but what was done: over every sequence of requests, failed writes, restarts
  and damaged files, an open gate has behind it the acceptance of every document at its current text
  and a press after the last of them, an account, and a run of every required step. A step that was
  run is neither missing nor recommended. And one way the gate opens that a restart takes back.
\<close>

section \<open>Objects\<close>

abbreviation is_obj :: "json \<Rightarrow> bool" where "is_obj j \<equiv> is_object (Some j)"

abbreviation member :: "json \<Rightarrow> string \<Rightarrow> json option" where "member j k \<equiv> obj_get (Some j) k"

lemma map_of_put_kv [simp]: "map_of (put_kv k v kvs) k' = (if k' = k then Some v else map_of kvs k')"
  by (induction kvs) auto

lemma map_of_filter_key [simp]: "map_of (filter (\<lambda>kv. fst kv \<noteq> k) kvs) k' = (if k' = k then None else map_of kvs k')"
  by (induction kvs) auto

lemma get_set [simp]: "is_obj j \<Longrightarrow> member (obj_set k v j) k' = (if k' = k then Some v else member j k')"
  by (cases j) auto

lemma get_del [simp]: "member (obj_del k j) k' = (if k' = k then None else member j k')"
  by (cases j) auto

lemma is_obj_kept [simp]: "is_obj (obj_set k v j) \<longleftrightarrow> is_obj j" "is_obj (obj_del k j) \<longleftrightarrow> is_obj j"
  "is_obj (sub key j)" "is_obj (edit key f j) \<longleftrightarrow> is_obj j"
  by (cases j; simp add: sub_def edit_def split: option.splits json.splits)+

lemma get_sub [simp]: "member (sub key j) k = obj_get (member j key) k"
  by (auto simp: sub_def split: option.splits json.splits)

lemma get_edit [simp]: "is_obj j \<Longrightarrow> member (edit key f j) k = (if k = key then Some (f (sub key j)) else member j k)"
  by (simp add: edit_def)

section \<open>What opens the gate\<close>

lemma missing_text_empty:
  assumes "\<forall>i\<in>set ids. i \<noteq> []"
  shows "missing_text ids = [] \<longleftrightarrow> ids = []"
proof -
  have keep: "m \<noteq> [] \<Longrightarrow> fold (\<lambda>i m. cat160 i (if m = [] then m else cat160 '', '' m)) xs m \<noteq> []" for xs m
    by (induction xs arbitrary: m) (auto simp: cat160_def)
  show ?thesis
  proof (cases ids)
    case (Cons i r)
    with assms have "cat160 i [] \<noteq> []" by (simp add: cat160_def)
    from keep [OF this] Cons show ?thesis by (simp add: missing_text_def)
  qed (simp add: missing_text_def)
qed

definition gate_facts :: "world \<Rightarrow> json \<Rightarrow> bool" where
  "gate_facts w r \<longleftrightarrow>
     advisories_complete_locked w r \<and> acceptance_done_locked r \<and> account_set_locked r \<and>
     (\<forall>s\<in>set (b_steps w). \<not> required_missing_locked w r s) \<and> fans w"

lemma gate_evaluated:
  assumes "\<forall>s\<in>set (b_steps w). step_id s \<noteq> []"
  shows "g_gate (evaluate_locked w st) \<longleftrightarrow> gate_facts w (rec st)"
proof -
  have "missing_text (missing_locked w (rec st)) = [] \<longleftrightarrow> missing_locked w (rec st) = []"
    using assms by (intro missing_text_empty) (auto simp: missing_locked_def)
  then show ?thesis
    by (auto simp: evaluate_locked_def gate_facts_def Let_def missing_locked_def filter_empty_conv)
qed

lemma rec_evaluated [simp]: "rec (evaluate_locked w st) = rec st" "disk (evaluate_locked w st) = disk st"
  "earlier (evaluate_locked w st) = earlier st"
  by (simp_all add: evaluate_locked_def Let_def)

section \<open>The operations over time\<close>

datatype sop =
    OInit | OAsk
  | OAccept "string option" "string option" "string option"
  | OOnDemand "string option" "string option" "string option"
  | OPress | OAccount "string option" int | OClear | OMachine "json option"
  | OWizard "string option" int "json option" "json option"
  | OFlag "string option" "string option" | OComplete | OChange "string option" | OHead "json option"
  | ODamage

fun setup_op :: "world \<Rightarrow> sop \<Rightarrow> setup_state \<Rightarrow> int \<times> setup_state" where
  "setup_op w OInit st = (0, setup_init w st)"
| "setup_op w OAsk st = (0, evaluate_locked w st)"
| "setup_op w (OAccept d h m) st = setup_advisory_accept w d h m st"
| "setup_op w (OOnDemand d h m) st = setup_on_demand_accept w d h m st"
| "setup_op w OPress st = setup_acceptance_pressed w st"
| "setup_op w (OAccount n u) st = setup_set_account w n u st"
| "setup_op w OClear st = setup_clear_account w st"
| "setup_op w (OMachine m) st = setup_set_machine w m st"
| "setup_op w (OWizard i v r a) st = setup_wizard_done w i v r a st"
| "setup_op w (OFlag i t) st = setup_flag w i t st"
| "setup_op w OComplete st = setup_complete w st"
| "setup_op w (OChange c) st = setup_change_apply w c st"
| "setup_op w (OHead h) st = setup_set_head w h st"
| "setup_op w ODamage st = (0, st\<lparr>disk := Garbled\<rparr>)"

type_synonym slog = "(world \<times> sop \<times> int) list"

definition setup_act :: "world \<times> sop \<Rightarrow> setup_state \<times> slog \<Rightarrow> setup_state \<times> slog" where
  "setup_act e sl = (case setup_op (fst e) (snd e) (fst sl) of (rc, st) \<Rightarrow> (st, snd sl @ [(fst e, snd e, rc)]))"

definition setup_start :: setup_state where
  "setup_start = \<lparr>rec = JObj [], g_first_run = True, g_gate = False, g_why = [], disk = Absent, earlier = Absent\<rparr>"

definition setup_run :: "(world \<times> sop) list \<Rightarrow> setup_state \<times> slog" where
  "setup_run es = fold setup_act es (setup_start, [])"

text \<open>A press that no acceptance answered with success came after.\<close>

definition is_accepted :: "world \<times> sop \<times> int \<Rightarrow> bool" where
  "is_accepted x \<longleftrightarrow> (\<exists>w d h m. x = (w, OAccept d h m, 0))"

definition pressed :: "slog \<Rightarrow> bool" where
  "pressed l \<longleftrightarrow> (\<exists>xs w rc ys. l = xs @ (w, OPress, rc) # ys \<and> \<not> list_ex is_accepted ys)"

lemma pressed_more: "pressed l \<Longrightarrow> \<not> is_accepted x \<Longrightarrow> pressed (l @ [x])"
proof -
  assume "pressed l" "\<not> is_accepted x"
  then obtain xs w rc ys where "l @ [x] = xs @ (w, OPress, rc) # (ys @ [x])" "\<not> list_ex is_accepted (ys @ [x])"
    by (auto simp: pressed_def)
  then show ?thesis unfolding pressed_def by blast
qed

text \<open>What a record shows, and what the log has for it.\<close>

definition backed :: "slog \<Rightarrow> json \<Rightarrow> bool" where
  "backed l r \<longleftrightarrow> is_obj r \<and>
     (\<forall>i h. accepted_hash r i = Some h \<longrightarrow> (\<exists>w m rc. (w, OAccept (Some i) (Some h) (Some m), rc) \<in> set l)) \<and>
     (acceptance_done_locked r \<longrightarrow> pressed l) \<and>
     (account_set_locked r \<longrightarrow> (\<exists>w n u rc. (w, OAccount n u, rc) \<in> set l)) \<and>
     (\<forall>i. 1 \<le> wizard_version_locked r i \<longrightarrow> (\<exists>w v res app rc. (w, OWizard (Some i) v res app, rc) \<in> set l))"

lemma backed_more: "backed l r \<Longrightarrow> \<not> is_accepted x \<Longrightarrow> backed (l @ [x]) r"
  by (auto simp: backed_def intro: pressed_more; metis)

text \<open>A record that shows nothing new about the keys that matter is backed as before.\<close>

definition same_keys :: "json \<Rightarrow> json \<Rightarrow> bool" where
  "same_keys r r' \<longleftrightarrow> (is_obj r \<longrightarrow> is_obj r') \<and> (\<forall>k\<in>{''advisories'', ''acceptance'', ''account'', ''wizards''}. member r' k = member r k)"

lemma backed_same: "backed l r \<Longrightarrow> same_keys r r' \<Longrightarrow> backed l r'"
  by (simp add: backed_def same_keys_def accepted_hash_def acceptance_done_locked_def account_set_locked_def wizard_version_locked_def)

lemma backed_empty: "is_obj r \<Longrightarrow> (\<And>k i. k \<in> {''advisories'', ''acceptance'', ''account'', ''wizards''} \<Longrightarrow> obj_get (member r k) i = None) \<Longrightarrow> backed l r"
  by (simp add: backed_def accepted_hash_def acceptance_done_locked_def account_set_locked_def wizard_version_locked_def)

lemma backed_fresh: "backed l (fresh_record w)"
  by (rule backed_empty) (auto simp: fresh_record_def split: option.splits)

lemma backed_edit_self: "backed l r \<Longrightarrow> backed l (edit k (\<lambda>j. j) r)"
  by (simp add: backed_def accepted_hash_def acceptance_done_locked_def account_set_locked_def wizard_version_locked_def)

definition disk_backed :: "slog \<Rightarrow> sfile \<Rightarrow> bool" where
  "disk_backed l f \<longleftrightarrow> (\<forall>r. f = Doc r \<longrightarrow> is_obj r \<longrightarrow> backed l r)"

definition state_backed :: "slog \<Rightarrow> setup_state \<Rightarrow> bool" where
  "state_backed l st \<longleftrightarrow> backed l (rec st) \<and> disk_backed l (disk st) \<and> earlier st = Absent"

text \<open>A change of the record, saved or not.\<close>

lemma change_backed:
  assumes "change_rec w f st = (rc, st')" "state_backed l st"
    and "backed (l @ [x]) (f (rec st))" "rc \<noteq> 0 \<Longrightarrow> disk_backed (l @ [x]) (disk st)"
  shows "state_backed (l @ [x]) st'"
  using assms by (auto simp: change_rec_def commit_locked_def save_locked_def state_backed_def disk_backed_def split: if_splits)

lemma disk_backed_more: "disk_backed l f \<Longrightarrow> \<not> is_accepted x \<Longrightarrow> disk_backed (l @ [x]) f"
  by (auto simp: disk_backed_def intro: backed_more)

lemma same_change:
  assumes "change_rec w f st = (rc, st')" "state_backed l st" "\<not> is_accepted x" "same_keys (rec st) (f (rec st))"
  shows "state_backed (l @ [x]) st'"
  using assms by (intro change_backed [OF assms(1,2)])
    (auto simp: state_backed_def intro: backed_same [OF backed_more] disk_backed_more)

lemma unchanged: "state_backed l st \<Longrightarrow> \<not> is_accepted x \<Longrightarrow> state_backed (l @ [x]) st"
  by (auto simp: state_backed_def intro: backed_more disk_backed_more)

lemma same_edit: "k \<notin> {''advisories'', ''acceptance'', ''account'', ''wizards''} \<Longrightarrow> is_obj r \<Longrightarrow> same_keys r (edit k f r)"
  "k \<notin> {''advisories'', ''acceptance'', ''account'', ''wizards''} \<Longrightarrow> is_obj r \<Longrightarrow> same_keys r (obj_set k v r)"
  by (auto simp: same_keys_def)

lemma state_obj: "state_backed l st \<Longrightarrow> is_obj (rec st)"
  by (simp add: state_backed_def backed_def)

text \<open>Each operation.\<close>

lemma accept_backed:
  assumes "setup_advisory_accept w d h m st = (rc, st')" "state_backed l st"
  shows "state_backed (l @ [(w, OAccept d h m, rc)]) st'"
proof (cases "\<exists>a h' m'. advisories_find (b_docs w) d = Some a \<and> h = Some h' \<and> m = Some m' \<and> \<not> on_demand a \<and> h' = doc_hash a")
  case False
  then have "rc = - 1" "st' = st"
    using assms(1) by (auto simp: setup_advisory_accept_def split: option.splits if_splits)
  then show ?thesis using unchanged [OF assms(2)] by (simp add: is_accepted_def)
next
  case True
  then obtain a m' where a: "advisories_find (b_docs w) d = Some a" "h = Some (doc_hash a)" "m = Some m'" "\<not> on_demand a" by blast
  then have d: "d = Some (doc_id a)"
    by (auto simp: advisories_find_def split: option.splits dest!: find_SomeD)
  let ?f = "\<lambda>r. obj_del ''acceptance'' (edit ''advisories'' (obj_set (doc_id a) (acceptance_entry w (doc_hash a) m')) r)"
  let ?x = "(w, OAccept d h m, rc)"
  have c: "change_rec w ?f st = (rc, st')" using assms(1) a by (simp add: setup_advisory_accept_def)
  have b: "backed l (rec st)" using assms(2) by (simp add: state_backed_def)
  then have o: "is_obj (rec st)" by (simp add: backed_def)
  have h: "accepted_hash (?f (rec st)) i = (if i = doc_id a then Some (doc_hash a) else accepted_hash (rec st) i)" for i
    using o by (simp add: accepted_hash_def acceptance_entry_def)
  have "backed (l @ [?x]) (?f (rec st))"
    using b o h a d unfolding backed_def
    by (auto simp: acceptance_done_locked_def account_set_locked_def wizard_version_locked_def)
  moreover have "disk_backed (l @ [?x]) (disk st)" if "rc \<noteq> 0"
    using assms(2) that by (intro disk_backed_more) (auto simp: state_backed_def is_accepted_def)
  ultimately show ?thesis by (rule change_backed [OF c assms(2)])
qed

lemma press_backed:
  assumes "setup_acceptance_pressed w st = (rc, st')" "state_backed l st"
  shows "state_backed (l @ [(w, OPress, rc)]) st'"
proof (cases "advisories_complete_locked w (rec st)")
  case False
  then show ?thesis using assms unchanged by (auto simp: setup_acceptance_pressed_def is_accepted_def)
next
  case True
  let ?f = "edit ''acceptance'' (obj_set ''pressed_at'' (JStr (now_iso w)))"
  have c: "change_rec w ?f st = (rc, st')" using assms(1) True by (simp add: setup_acceptance_pressed_def)
  have b: "backed l (rec st)" "is_obj (rec st)" using assms(2) state_obj by (simp_all add: state_backed_def)
  have "pressed (l @ [(w, OPress, rc)])" unfolding pressed_def by force
  with backed_more [OF b(1), of "(w, OPress, rc)"] b(2) have "backed (l @ [(w, OPress, rc)]) (?f (rec st))"
    by (simp add: backed_def is_accepted_def accepted_hash_def account_set_locked_def wizard_version_locked_def)
  moreover have "disk_backed (l @ [(w, OPress, rc)]) (disk st)"
    using assms(2) by (intro disk_backed_more) (auto simp: state_backed_def is_accepted_def)
  ultimately show ?thesis by (rule change_backed [OF c assms(2)])
qed

lemma account_backed:
  assumes "setup_set_account w n u st = (rc, st')" "state_backed l st"
  shows "state_backed (l @ [(w, OAccount n u, rc)]) st'"
proof (cases "\<exists>c t. n = Some (c # t)")
  case False
  then have "st' = st" using assms(1) by (auto simp: setup_set_account_def split: option.splits list.splits)
  then show ?thesis using assms unchanged by (simp add: is_accepted_def)
next
  case True
  then obtain c t where n: "n = Some (c # t)" by blast
  let ?f = "obj_set ''account'' (JObj [(''name'', JStr (c # t)), (''uid'', JInt u), (''created'', JStr (now_iso w))])"
  let ?x = "(w, OAccount n u, rc)"
  have ch: "change_rec w ?f st = (rc, st')" using assms(1) n by (simp add: setup_set_account_def)
  have b: "backed l (rec st)" "is_obj (rec st)" using assms(2) state_obj by (simp_all add: state_backed_def)
  have "\<exists>w n u rc. (w, OAccount n u, rc) \<in> set (l @ [?x])" by auto
  with backed_more [OF b(1), of ?x] b(2) have "backed (l @ [?x]) (?f (rec st))"
    by (simp add: backed_def is_accepted_def accepted_hash_def acceptance_done_locked_def wizard_version_locked_def)
  moreover have "disk_backed (l @ [?x]) (disk st)"
    using assms(2) by (intro disk_backed_more) (auto simp: state_backed_def is_accepted_def)
  ultimately show ?thesis by (rule change_backed [OF ch assms(2)])
qed

lemma clear_backed:
  assumes "setup_clear_account w st = (rc, st')" "state_backed l st"
  shows "state_backed (l @ [(w, OClear, rc)]) st'"
proof -
  let ?x = "(w, OClear, rc)"
  have ch: "change_rec w (obj_del ''account'') st = (rc, st')" using assms(1) by (simp add: setup_clear_account_def)
  have b: "backed l (rec st)" using assms(2) by (simp add: state_backed_def)
  have "backed (l @ [?x]) (obj_del ''account'' (rec st))"
    using backed_more [OF b, of ?x]
    by (simp add: backed_def is_accepted_def accepted_hash_def acceptance_done_locked_def account_set_locked_def wizard_version_locked_def)
  moreover have "disk_backed (l @ [?x]) (disk st)"
    using assms(2) by (intro disk_backed_more) (auto simp: state_backed_def is_accepted_def)
  ultimately show ?thesis by (rule change_backed [OF ch assms(2)])
qed

lemma wizard_backed:
  assumes "setup_wizard_done w i v res app st = (rc, st')" "state_backed l st"
  shows "state_backed (l @ [(w, OWizard i v res app, rc)]) st'"
proof (cases "\<exists>j. i = Some j \<and> \<not> v < 1")
  case False
  then have "st' = st" using assms(1) by (auto simp: setup_wizard_done_def split: option.splits)
  then show ?thesis using assms unchanged by (simp add: is_accepted_def)
next
  case True
  then obtain j where i: "i = Some j" "\<not> v < 1" by blast
  let ?x = "(w, OWizard i v res app, rc)"
  let ?e = "JObj [(''version'', JInt (wanted_version w j v)), (''completed'', JStr (now_iso w)),
                  (''result'', or_else res (JObj [])), (''applied'', or_else app (JObj []))]"
  let ?f = "\<lambda>r. edit ''flags'' (obj_del j) (edit ''wizards'' (obj_set j ?e) r)"
  have ch: "change_rec w ?f st = (rc, st')" using assms(1) i by (simp add: setup_wizard_done_def)
  have b: "backed l (rec st)" "is_obj (rec st)" using assms(2) state_obj by (simp_all add: state_backed_def)
  have v: "wizard_version_locked (?f (rec st)) k =
      (if k = j then to_int32 (wanted_version w j v) else wizard_version_locked (rec st) k)" for k
    using b(2) by (simp add: wizard_version_locked_def)
  have m: "backed (l @ [?x]) (rec st)" using backed_more [OF b(1), of ?x] by (simp add: is_accepted_def)
  have "\<exists>w v res app rc. (w, OWizard (Some k) v res app, rc) \<in> set (l @ [?x])"
    if "1 \<le> wizard_version_locked (?f (rec st)) k" for k
  proof (cases "k = j")
    case False
    then show ?thesis using that v m unfolding backed_def by simp
  next
    case True
    then have "(w, OWizard (Some k) v res app, rc) \<in> set (l @ [?x])" using i by simp
    then show ?thesis by blast
  qed
  moreover have "accepted_hash (?f (rec st)) k = accepted_hash (rec st) k" for k
    using b(2) by (simp add: accepted_hash_def)
  moreover have "acceptance_done_locked (?f (rec st)) = acceptance_done_locked (rec st)"
    "account_set_locked (?f (rec st)) = account_set_locked (rec st)" "is_obj (?f (rec st))"
    using b(2) by (simp_all add: acceptance_done_locked_def account_set_locked_def)
  ultimately have "backed (l @ [?x]) (?f (rec st))"
    using m unfolding backed_def by metis
  moreover have "disk_backed (l @ [?x]) (disk st)"
    using assms(2) by (intro disk_backed_more) (auto simp: state_backed_def is_accepted_def)
  ultimately show ?thesis by (rule change_backed [OF ch assms(2)])
qed

lemma init_backed:
  assumes "state_backed l st"
  shows "state_backed (l @ [(w, OInit, rc)]) (setup_init w st)"
proof -
  have s: "state_backed (l @ [(w, OInit, rc)]) st" by (rule unchanged [OF assms]) (simp add: is_accepted_def)
  then have a: "adopt_earlier_record w st = st" by (simp add: adopt_earlier_record_def state_backed_def)
  have r: "rec (setup_init w st) = rec (load_locked w st)" by (simp add: setup_init_def)
  have "backed (l @ [(w, OInit, rc)]) (rec (load_locked w st))"
  proof (cases "disk st")
    case (Doc q)
    show ?thesis
    proof (cases "is_obj q \<and> integer_value (member q ''schema'') = SETUP_SCHEMA")
      case True
      then have q: "backed (l @ [(w, OInit, rc)]) q" using s Doc by (simp add: state_backed_def disk_backed_def)
      let ?q = "if is_string (member q ''sheet_id'') then q else case sheet w of Some sid \<Rightarrow> obj_set ''sheet_id'' (JStr sid) q | None \<Rightarrow> q"
      have "backed (l @ [(w, OInit, rc)]) ?q"
        using q backed_same [OF q same_edit(2) [of "''sheet_id''"]] True by (simp split: option.splits)
      from backed_edit_self [OF backed_edit_self [OF backed_edit_self [OF this]]] True show ?thesis
        by (simp add: load_locked_def a Doc Let_def)
    next
      case False
      then show ?thesis using backed_fresh by (auto simp: load_locked_def a Doc Let_def)
    qed
  qed (use backed_fresh in \<open>simp_all add: load_locked_def a Let_def\<close>)
  moreover have "disk (setup_init w st) = disk st" "earlier (setup_init w st) = earlier st"
    by (auto simp: setup_init_def load_locked_def a Let_def split: sfile.splits)
  ultimately show ?thesis using s r by (simp add: state_backed_def)
qed

lemma set_all_obj [simp]: "is_obj (fold (\<lambda>k. obj_set k e) ks j) \<longleftrightarrow> is_obj j"
  by (induction ks arbitrary: j) auto

lemma op_backed:
  assumes "setup_op w op st = (rc, st')" "state_backed l st"
  shows "state_backed (l @ [(w, op, rc)]) st'"
proof -
  note o = state_obj [OF assms(2)]
  have plain: "state_backed (l @ [(w, op, rc)]) st'"
    if "change_rec w f st = (rc, st')" "same_keys (rec st) (f (rec st))" "\<nexists>d h m. op = OAccept d h m" for f
    using same_change [OF that(1) assms(2) _ that(2), of "(w, op, rc)"] that(3) by (auto simp: is_accepted_def)
  have same: "state_backed (l @ [(w, op, rc)]) st" if "\<nexists>d h m. op = OAccept d h m"
    using unchanged [OF assms(2), of "(w, op, rc)"] that by (auto simp: is_accepted_def)
  show ?thesis
  proof (cases op)
    case (OOnDemand d h m)
    then show ?thesis
      using assms(1) plain same same_edit(1) [OF _ o, of "''on_demand''"]
      by (auto simp: setup_on_demand_accept_def split: option.splits if_splits)
  next
    case (OMachine m)
    then show ?thesis
      using assms(1) plain same same_edit(2) [OF _ o, of "''machine''"]
      by (auto simp: setup_set_machine_def split: option.splits json.splits)
  next
    case (OFlag i t)
    then show ?thesis
      using assms(1) plain same same_edit(1) [OF _ o, of "''flags''"]
      by (auto simp: setup_flag_def split: option.splits)
  next
    case OComplete
    then show ?thesis
      using assms(1) plain same_edit(2) [OF _ o, of "''completed''"] by (simp add: setup_complete_def)
  next
    case (OChange c)
    then show ?thesis
      using assms(1) plain same same_edit(1) [OF _ o, of "''flags''"]
      by (auto simp: setup_change_apply_def split: option.splits)
  next
    case (OHead h)
    then show ?thesis
      using assms(1) plain same same_edit(2) [OF _ o, of "''machine''"]
      by (auto simp: setup_set_head_def split: option.splits json.splits)
  next
    case OAsk
    then show ?thesis using assms(1) same by (auto simp: state_backed_def)
  next
    case ODamage
    then show ?thesis using assms(1) same by (auto simp: state_backed_def disk_backed_def)
  qed (use assms init_backed accept_backed press_backed account_backed clear_backed wizard_backed in auto)
qed

lemma run_backed: "setup_run es = (st, l) \<Longrightarrow> state_backed l st"
proof (induction es arbitrary: st l rule: rev_induct)
  case Nil
  have "backed [] (JObj [])" by (rule backed_empty) simp_all
  with Nil show ?case by (auto simp: setup_run_def setup_start_def state_backed_def disk_backed_def)
next
  case (snoc e es)
  obtain st1 l1 where 1: "setup_run es = (st1, l1)" by force
  obtain w op where e: "e = (w, op)" by force
  obtain rc st2 where 2: "setup_op w op st1 = (rc, st2)" by force
  from snoc.prems 1 2 e have "st = st2" "l = l1 @ [(w, op, rc)]"
    by (auto simp: setup_run_def setup_act_def)
  with op_backed [OF 2 snoc.IH [OF 1]] show ?case by simp
qed

text \<open>C39. An open gate stands on what was done. After any sequence of requests, failed writes, restarts -
of this build or another - and damaged files, from a machine with no record: if the gate is open,
each first-run document was accepted at exactly the text this build carries, the press came after
the last acceptance that succeeded, an account was set, and every required step that applies was run.\<close>

theorem gate_stands_on_consent:
  assumes "setup_run es = (st, l)" "fst (setup_gate_open w len st)"
    and "\<forall>s\<in>set (b_steps w). step_id s \<noteq> [] \<and> 1 \<le> step_version s"
  shows "(\<forall>d\<in>set (advisories_list (b_docs w)). \<exists>v m rc. (v, OAccept (Some (doc_id d)) (Some (doc_hash d)) (Some m), rc) \<in> set l) \<and>
    pressed l \<and> (\<exists>v n u rc. (v, OAccount n u, rc) \<in> set l) \<and>
    (\<forall>s\<in>set (b_steps w). required s \<and> step_applies_locked w (rec st) s \<longrightarrow>
       (\<exists>v k res app rc. (v, OWizard (Some (step_id s)) k res app, rc) \<in> set l)) \<and> fans w"
proof -
  have b: "backed l (rec st)" using run_backed [OF assms(1)] by (simp add: state_backed_def)
  have "g_gate (evaluate_locked w st)" using assms(2) by (simp add: setup_gate_open_def Let_def)
  then have g: "gate_facts w (rec st)" using gate_evaluated assms(3) by blast
  have "\<exists>v k res app rc. (v, OWizard (Some (step_id s)) k res app, rc) \<in> set l"
    if "s \<in> set (b_steps w)" "required s" "step_applies_locked w (rec st) s" for s
  proof -
    have "step_version s \<le> wizard_version_locked (rec st) (step_id s)"
      using g that by (auto simp: gate_facts_def required_missing_locked_def)
    moreover have "1 \<le> step_version s" using assms(3) that(1) by blast
    ultimately have "1 \<le> wizard_version_locked (rec st) (step_id s)" by linarith
    then show ?thesis using b unfolding backed_def by blast
  qed
  moreover have "\<exists>v m rc. (v, OAccept (Some (doc_id d)) (Some (doc_hash d)) (Some m), rc) \<in> set l"
    if "d \<in> set (advisories_list (b_docs w))" for d
    using g b that by (auto simp: gate_facts_def advisories_complete_locked_def list_all_iff backed_def)
  ultimately show ?thesis using g b by (auto simp: gate_facts_def backed_def)
qed

text \<open>A first run on a machine, with two required steps.\<close>

definition first_world :: world where
  "first_world =
     \<lparr>b_docs = map (\<lambda>d. d\<lparr>doc_hash := ''h1''\<rparr>) docs, b_steps = [step ''machine'' None True, step ''motion'' None False],
      fact = (\<lambda>_. False), known_step = (\<lambda>_. True), fans = True, now_iso = ''2026-01-01T00:00:00Z'', sheet = None, io = True\<rparr>"

definition first_events :: "sop list" where
  "first_events =
     [OInit, OAccept (Some ''safety-and-risk'') (Some ''h1'') (Some ''typed''), OAccept (Some ''licenses'') (Some ''h1'') (Some ''check''),
      OAccept (Some ''privacy'') (Some ''h1'') (Some ''check''), OAccept (Some ''cloud-service'') (Some ''h1'') (Some ''check''), OPress,
      OAccount (Some ''ann'') 1000, OWizard (Some ''machine'') 1 None None]"

lemma first_gate:
  "fst (setup_gate_open first_world 256 (fst (setup_run (map (\<lambda>e. (first_world, e)) first_events))))"
  by code_simp

lemma gate_stands_on_consent_witness:
  "\<exists>st l. setup_run (map (\<lambda>e. (first_world, e)) first_events) = (st, l) \<and> fst (setup_gate_open first_world 256 st) \<and> pressed l"
proof -
  obtain st l where r: "setup_run (map (\<lambda>e. (first_world, e)) first_events) = (st, l)" by force
  have g: "fst (setup_gate_open first_world 256 st)" using first_gate r by simp
  have "\<forall>s\<in>set (b_steps first_world). step_id s \<noteq> [] \<and> 1 \<le> step_version s"
    by (simp add: first_world_def step_def)
  from gate_stands_on_consent [OF r g this] r g show ?thesis by blast
qed

section \<open>A step that was run\<close>

lemma wanted_version_fold: "v \<le> fold (\<lambda>s v. if step_id s = i \<and> v < step_version s then step_version s else v) ss v"
proof (induction ss arbitrary: v)
  case (Cons s ss)
  show ?case using Cons [of v] Cons [of "step_version s"] by auto
qed simp

lemma wanted_version_max:
  "s \<in> set ss \<Longrightarrow> step_version s \<le> fold (\<lambda>s v. if step_id s = step_id t \<and> v < step_version s then step_version s else v) ss v"
  if "step_id s = step_id t" for s t
proof (induction ss arbitrary: v)
  case (Cons a ss)
  show ?case
  proof (cases "s = a")
    case True
    let ?f = "fold (\<lambda>s v. if step_id s = step_id t \<and> v < step_version s then step_version s else v) ss"
    have "step_version a \<le> ?f (step_version a)" "v \<le> ?f v" by (rule wanted_version_fold)+
    then show ?thesis using True that by auto
  next
    case False
    with Cons show ?thesis by simp
  qed
qed simp

lemma wanted_bounded:
  "v < b \<Longrightarrow> \<forall>s\<in>set ss. step_version s < b \<Longrightarrow>
   fold (\<lambda>s v. if step_id s = i \<and> v < step_version s then step_version s else v) ss v < b"
  by (induction ss arbitrary: v) auto

lemma to_int32_id: "0 \<le> i \<Longrightarrow> i < 2 ^ 31 \<Longrightarrow> to_int32 i = i"
  by (simp add: to_int32_def)

lemma members_get: "obj_get j i = None \<Longrightarrow> i \<notin> fst ` set (members j)"
  by (cases j; cases "the j") (auto simp: members_def map_of_eq_None_iff)

text \<open>C40. A step that was run is done: whatever version the caller names, after the call no step of that
name is missing from the gate, none carries a flag, and none is recommended - whether or not the
record could be written.\<close>

theorem run_step_is_done:
  assumes "setup_wizard_done w (Some i) v res app st = (rc, st')" "1 \<le> v" "v < 2 ^ 31" "is_obj (rec st)"
    and "\<forall>s\<in>set (b_steps w). step_version s < 2 ^ 31"
  shows "(\<forall>s\<in>set (b_steps w). step_id s = i \<longrightarrow> \<not> required_missing_locked w (rec st') s) \<and>
    \<not> setup_flagged (Some i) st' \<and> i \<notin> fst ` set (recommended_locked w (rec st'))"
proof -
  let ?e = "JObj [(''version'', JInt (wanted_version w i v)), (''completed'', JStr (now_iso w)),
                  (''result'', or_else res (JObj [])), (''applied'', or_else app (JObj []))]"
  have r: "rec st' = edit ''flags'' (obj_del i) (edit ''wizards'' (obj_set i ?e) (rec st))"
    using assms(1,2) by (auto simp: setup_wizard_done_def change_rec_def commit_locked_def save_locked_def split: if_splits)
  have "v \<le> wanted_version w i v" "wanted_version w i v < 2 ^ 31"
    using wanted_version_fold wanted_bounded [OF assms(3,5)] by (simp_all add: wanted_version_def)
  then have ver: "wizard_version_locked (rec st') i = wanted_version w i v"
    using assms(2,4) r by (simp add: wizard_version_locked_def to_int32_id)
  have done_: "step_version s \<le> wizard_version_locked (rec st') i" if "s \<in> set (b_steps w)" "step_id s = i" for s
    using wanted_version_max [OF refl that(1), of v] that(2) ver by (simp add: wanted_version_def)
  have f: "obj_get (member (rec st') ''flags'') i = None" using assms(4) r by simp
  have "i \<notin> fst ` set (members (member (rec st') ''flags''))" by (rule members_get [OF f])
  then have fl: "(i, f) \<notin> set (members (member (rec st') ''flags''))" for f by force
  have "i \<notin> fst ` set (recommended_locked w (rec st'))"
  proof
    assume "i \<in> fst ` set (recommended_locked w (rec st'))"
    then consider (flag) f where "(i, f) \<in> set (members (member (rec st') ''flags''))"
      | (step) s where "s \<in> set (b_steps w)" "step_id s = i" "wizard_version_locked (rec st') i < step_version s"
      by (auto simp: recommended_locked_def Let_def)
    then show False
    proof cases
      case (step s)
      then show ?thesis using done_ by fastforce
    qed (use fl in blast)
  qed
  moreover have "\<not> required_missing_locked w (rec st') s" if "s \<in> set (b_steps w)" "step_id s = i" for s
    using done_ [OF that] that(2) by (simp add: required_missing_locked_def)
  ultimately show ?thesis using f by (simp add: setup_flagged_def)
qed

lemma run_step_is_done_witness:
  "\<exists>rc st'. setup_wizard_done first_world (Some ''machine'') 1 None None (setup_start\<lparr>rec := JObj []\<rparr>) = (rc, st') \<and>
     \<not> required_missing_locked first_world (rec st') (step ''machine'' None True)"
proof -
  obtain rc st' where r: "setup_wizard_done first_world (Some ''machine'') 1 None None (setup_start\<lparr>rec := JObj []\<rparr>) = (rc, st')"
    by force
  have "\<forall>s\<in>set (b_steps first_world). step_version s < 2 ^ 31" by (simp add: first_world_def step_def)
  from run_step_is_done [OF r _ _ _ this] r show ?thesis
    by (simp add: first_world_def) (metis step_def select_convs(1) setup_step.select_convs(1))
qed

section \<open>A press that was not saved\<close>

text \<open>The gate opens on a press that could not be saved. The call answers -1, yet the gate is open from
then on; a restart, which reads the file, closes it, and the operator is asked to press again.\<close>

theorem unsaved_press_opens:
  "\<exists>st rc st1. setup_acceptance_pressed (first_world\<lparr>io := False\<rparr>) st = (rc, st1) \<and> rc = - 1 \<and>
     \<not> fst (setup_gate_open first_world 256 st) \<and> fst (setup_gate_open first_world 256 st1) \<and>
     \<not> fst (setup_gate_open first_world 256 (setup_init first_world st1))"
proof -
  let ?es = "filter (\<lambda>e. e \<noteq> OPress) first_events"
  let ?st = "fst (setup_run (map (\<lambda>e. (first_world, e))
     [OInit, OAccount (Some ''ann'') 1000, OWizard (Some ''machine'') 1 None None,
      OAccept (Some ''safety-and-risk'') (Some ''h1'') (Some ''typed''), OAccept (Some ''licenses'') (Some ''h1'') (Some ''check''),
      OAccept (Some ''privacy'') (Some ''h1'') (Some ''check''), OAccept (Some ''cloud-service'') (Some ''h1'') (Some ''check'')]))"
  let ?p = "setup_acceptance_pressed (first_world\<lparr>io := False\<rparr>) ?st"
  have "fst ?p = - 1 \<and> \<not> fst (setup_gate_open first_world 256 ?st) \<and> fst (setup_gate_open first_world 256 (snd ?p)) \<and>
     \<not> fst (setup_gate_open first_world 256 (setup_init first_world (snd ?p)))"
    by code_simp
  then show ?thesis by (metis prod.collapse)
qed

end
